(* ===== verification/Prelude.thy ===== *)
theory Prelude
  imports Complex_Main "HOL-Library.AList" "HOL-Library.Sublist"
    "HOL-Library.Char_ord" "HOL-Library.List_Lexorder"
begin

text \<open>
  Shared ground of the development: the JavaScript values the program handles, the
  conversions of the language it relies on, and the ordered \<open>Map\<close> it keeps its state in.

  \<^item> Values: \<open>jsval\<close> has the JSON values plus \<open>undefined\<close>. Numbers are the exact
    rationals with \<open>NaN\<close> and the infinities; rounding of doubles and the sign of zero are
    not modelled.
  \<^item> Strings: a \<open>string\<close> is a list of code units below 256 (Latin-1). Trimming and lower-casing
    follow ECMAScript on that range.
  \<^item> A column or message that holds JSON text is represented by the value \<open>JSON.parse\<close> gives
    for it; \<open>json_clean\<close> is what a value becomes when it is stringified and parsed again.
  \<^item> A JavaScript \<open>Map\<close> is an association list in insertion order: \<open>AList.update\<close> overwrites
    in place or appends, as \<open>Map.prototype.set\<close> does. Its laws are the locale \<open>js_map\<close>.
\<close>

named_theorems js_simps "evaluation of the JavaScript value operations"

subsection \<open>Values\<close>

datatype jsnum = NaN | PosInf | NegInf | Fin rat

datatype jsval =
    JUndef
  | JNull
  | JBool bool
  | JNum jsnum
  | JStr string
  | JArr "jsval list"
  | JObj "(string \<times> jsval) list"

text \<open>Integers as JavaScript numbers.\<close>

abbreviation jint :: "int \<Rightarrow> jsval" where
  "jint i \<equiv> JNum (Fin (of_int i))"

fun truthy :: "jsval \<Rightarrow> bool" where
  "truthy JUndef = False"
| "truthy JNull = False"
| "truthy (JBool b) = b"
| "truthy (JNum NaN) = False"
| "truthy (JNum PosInf) = True"
| "truthy (JNum NegInf) = True"
| "truthy (JNum (Fin r)) = (r \<noteq> 0)"
| "truthy (JStr s) = (s \<noteq> [])"
| "truthy (JArr xs) = True"
| "truthy (JObj kvs) = True"

text \<open>\<open>a || b\<close>, \<open>a ?? b\<close>, \<open>v == null\<close> and the tests on the type of a value.\<close>

definition js_or :: "jsval \<Rightarrow> jsval \<Rightarrow> jsval" where
  "js_or a b = (if truthy a then a else b)"

definition is_nullish :: "jsval \<Rightarrow> bool" where
  "is_nullish v \<longleftrightarrow> v = JUndef \<or> v = JNull"

definition js_coalesce :: "jsval \<Rightarrow> jsval \<Rightarrow> jsval" where
  "js_coalesce a b = (if is_nullish a then b else a)"

text \<open>\<open>a ?? b ?? \<dots>\<close>: the first operand that is not nullish, else the last.\<close>

fun first_present :: "jsval list \<Rightarrow> jsval" where
  "first_present [] = JUndef"
| "first_present [v] = v"
| "first_present (v # w # vs) = (if is_nullish v then first_present (w # vs) else v)"

fun is_object :: "jsval \<Rightarrow> bool" where
  \<comment> \<open>\<open>v \<and> typeof v === 'object'\<close>: arrays are objects too\<close>
  "is_object (JArr _) = True"
| "is_object (JObj _) = True"
| "is_object _ = False"

fun is_plain_object :: "jsval \<Rightarrow> bool" where
  \<comment> \<open>\<open>v && typeof v === 'object' && !Array.isArray(v)\<close>\<close>
  "is_plain_object (JObj _) = True"
| "is_plain_object _ = False"

fun is_bool :: "jsval \<Rightarrow> bool" where
  "is_bool (JBool _) = True"
| "is_bool _ = False"

fun is_array :: "jsval \<Rightarrow> bool" where
  "is_array (JArr _) = True"
| "is_array _ = False"

fun array_items :: "jsval \<Rightarrow> jsval list" where
  \<comment> \<open>\<open>Array.isArray(v) ? v : []\<close>\<close>
  "array_items (JArr xs) = xs"
| "array_items _ = []"

fun obj_fields :: "jsval \<Rightarrow> (string \<times> jsval) list" where
  \<comment> \<open>the own properties that spreading a value copies\<close>
  "obj_fields (JObj kvs) = kvs"
| "obj_fields _ = []"

text \<open>Optional property access \<open>v?.k\<close>; \<open>undefined\<close> for a missing property.\<close>

definition fld :: "jsval \<Rightarrow> string \<Rightarrow> jsval" where
  "fld v k = (case map_of (obj_fields v) k of None \<Rightarrow> JUndef | Some x \<Rightarrow> x)"

definition has_own :: "jsval \<Rightarrow> string \<Rightarrow> bool" where
  "has_own v k \<longleftrightarrow> map_of (obj_fields v) k \<noteq> None"

text \<open>Assignment to a property, deletion, and object spread \<open>{ ...a, ...b }\<close>.\<close>

definition set_field :: "string \<Rightarrow> jsval \<Rightarrow> (string \<times> jsval) list \<Rightarrow> (string \<times> jsval) list" where
  "set_field k v kvs = AList.update k v kvs"

definition del_field :: "string \<Rightarrow> (string \<times> jsval) list \<Rightarrow> (string \<times> jsval) list" where
  "del_field k kvs = AList.delete k kvs"

definition merge_fields ::
  "(string \<times> jsval) list \<Rightarrow> (string \<times> jsval) list \<Rightarrow> (string \<times> jsval) list" where
  "merge_fields a b = foldl (\<lambda>acc (k, v). set_field k v acc) a b"

subsection \<open>Strings\<close>

definition code :: "char \<Rightarrow> nat" where
  "code c = of_char c"

definition is_space :: "char \<Rightarrow> bool" where
  "is_space c \<longleftrightarrow> code c = 32 \<or> (9 \<le> code c \<and> code c \<le> 13) \<or> code c = 160"

definition trim :: "string \<Rightarrow> string" where
  "trim s = rev (dropWhile is_space (rev (dropWhile is_space s)))"

definition lower_char :: "char \<Rightarrow> char" where
  "lower_char c =
     (if (65 \<le> code c \<and> code c \<le> 90) \<or> (192 \<le> code c \<and> code c \<le> 222 \<and> code c \<noteq> 215)
      then char_of (code c + 32) else c)"

definition to_lower :: "string \<Rightarrow> string" where
  "to_lower s = map lower_char s"

definition starts_with :: "string \<Rightarrow> string \<Rightarrow> bool" where
  "starts_with s p \<longleftrightarrow> take (length p) s = p"

fun str_includes :: "string \<Rightarrow> string \<Rightarrow> bool" where
  \<comment> \<open>\<open>s.includes(p)\<close>\<close>
  "str_includes [] p = (p = [])"
| "str_includes (c # s) p = (starts_with (c # s) p \<or> str_includes s p)"

fun join_with :: "string \<Rightarrow> string list \<Rightarrow> string" where
  "join_with sep [] = []"
| "join_with sep [s] = s"
| "join_with sep (s # t # ss) = s @ sep @ join_with sep (t # ss)"

fun split_on :: "char \<Rightarrow> string \<Rightarrow> string list" where
  \<comment> \<open>\<open>s.split(c)\<close> for a one-character separator\<close>
  "split_on d [] = [[]]"
| "split_on d (c # s) =
     (if c = d then [] # split_on d s
      else (case split_on d s of [] \<Rightarrow> [[c]] | w # ws \<Rightarrow> (c # w) # ws))"

subsection \<open>Conversions between numbers and strings\<close>

definition digit_char :: "nat \<Rightarrow> char" where
  "digit_char d = char_of (48 + d)"

definition is_digit :: "char \<Rightarrow> bool" where
  "is_digit c \<longleftrightarrow> 48 \<le> code c \<and> code c \<le> 57"

definition hex_char :: "char \<Rightarrow> bool" where
  "hex_char c \<longleftrightarrow> is_digit c \<or> (97 \<le> code c \<and> code c \<le> 102)"

definition hex64 :: "string \<Rightarrow> bool" where
  \<comment> \<open>of a text in lower case\<close>
  "hex64 s \<longleftrightarrow> length s = 64 \<and> list_all hex_char s"

definition digits_nat :: "string \<Rightarrow> nat" where
  "digits_nat s = foldl (\<lambda>n c. 10 * n + (code c - 48)) 0 s"

fun nat_str :: "nat \<Rightarrow> string" where
  "nat_str n = (if n < 10 then [digit_char n] else nat_str (n div 10) @ [digit_char (n mod 10)])"

declare nat_str.simps [simp del]

definition int_str :: "int \<Rightarrow> string" where
  "int_str i = (if i < 0 then CHR ''-'' # nat_str (nat (- i)) else nat_str (nat i))"

text \<open>
  The digits after the point. A rational whose decimal expansion ends is printed exactly; the
  fuel cuts any other after 17 digits, the most a double ever prints.
\<close>

fun frac_digits :: "nat \<Rightarrow> rat \<Rightarrow> string" where
  "frac_digits 0 r = []"
| "frac_digits (Suc n) r =
     (if r = 0 then [] else digit_char (nat \<lfloor>10 * r\<rfloor>) # frac_digits n (10 * r - of_int \<lfloor>10 * r\<rfloor>))"

fun num_to_str :: "jsnum \<Rightarrow> string" where
  \<comment> \<open>positional notation: JavaScript switches to an exponent outside \<open>1e-7 .. 1e21\<close>\<close>
  "num_to_str NaN = ''NaN''"
| "num_to_str PosInf = ''Infinity''"
| "num_to_str NegInf = ''-Infinity''"
| "num_to_str (Fin r) =
     (let a = \<bar>r\<bar>; i = \<lfloor>a\<rfloor>; f = a - of_int i; body = nat_str (nat i) @
        (if f = 0 then [] else CHR ''.'' # frac_digits 17 f)
      in if r < 0 then CHR ''-'' # body else body)"

fun to_str :: "jsval \<Rightarrow> string" where
  \<comment> \<open>\<open>String(v)\<close>\<close>
  "to_str JUndef = ''undefined''"
| "to_str JNull = ''null''"
| "to_str (JBool b) = (if b then ''true'' else ''false'')"
| "to_str (JNum n) = num_to_str n"
| "to_str (JStr s) = s"
| "to_str (JArr xs) = join_with '','' (map (\<lambda>x. if x = JUndef \<or> x = JNull then [] else to_str x) xs)"
| "to_str (JObj kvs) = ''[object Object]''"

text \<open>\<open>String(v || '').trim()\<close>, the normalisation most of the program starts with.\<close>

definition text_of :: "jsval \<Rightarrow> string" where
  "text_of v = trim (to_str (js_or v (JStr [])))"

text \<open>Decimal literals: optional fraction and exponent, no sign.\<close>

definition parse_exponent :: "string \<Rightarrow> rat \<Rightarrow> rat option" where
  "parse_exponent s m =
     (let (neg, d) = (case s of c # t \<Rightarrow> if c = CHR ''-'' then (True, t)
                                  else if c = CHR ''+'' then (False, t) else (False, s)
                      | [] \<Rightarrow> (False, []))
      in if d \<noteq> [] \<and> list_all is_digit d
         then Some (if neg then m / 10 ^ digits_nat d else m * 10 ^ digits_nat d)
         else None)"

definition split_fraction :: "string \<Rightarrow> string \<times> string" where
  "split_fraction s = (case s of
      [] \<Rightarrow> ([], [])
    | c # t \<Rightarrow> if c = CHR ''.'' then (takeWhile is_digit t, dropWhile is_digit t) else ([], s))"

definition parse_udec :: "string \<Rightarrow> rat option" where
  "parse_udec s =
     (let ip = takeWhile is_digit s; (fp, rest) = split_fraction (dropWhile is_digit s)
      in if ip = [] \<and> fp = [] then None
         else let m = of_nat (digits_nat (ip @ fp)) / 10 ^ length fp
              in (case rest of
                    [] \<Rightarrow> Some m
                  | c # t \<Rightarrow> if c = CHR ''e'' \<or> c = CHR ''E'' then parse_exponent t m else None))"

definition radix_digit :: "nat \<Rightarrow> char \<Rightarrow> nat option" where
  "radix_digit b c =
     (let n = code c; d = (if 48 \<le> n \<and> n \<le> 57 then n - 48
                           else if 97 \<le> n \<and> n \<le> 122 then n - 87
                           else if 65 \<le> n \<and> n \<le> 90 then n - 55 else 36)
      in if d < b then Some d else None)"

fun parse_radix :: "nat \<Rightarrow> nat \<Rightarrow> string \<Rightarrow> nat option" where
  "parse_radix b acc [] = Some acc"
| "parse_radix b acc (c # s) =
     (case radix_digit b c of None \<Rightarrow> None | Some d \<Rightarrow> parse_radix b (acc * b + d) s)"

fun radix_prefix :: "string \<Rightarrow> nat option" where
  "radix_prefix (a # c # d # s) =
     (if a \<noteq> CHR ''0'' then None
      else if c = CHR ''x'' \<or> c = CHR ''X'' then Some 16
      else if c = CHR ''o'' \<or> c = CHR ''O'' then Some 8
      else if c = CHR ''b'' \<or> c = CHR ''B'' then Some 2 else None)"
| "radix_prefix _ = None"

definition parse_unsigned :: "string \<Rightarrow> jsnum" where
  "parse_unsigned s =
     (if s = ''Infinity'' then PosInf
      else (case parse_udec s of None \<Rightarrow> NaN | Some r \<Rightarrow> Fin r))"

fun num_neg :: "jsnum \<Rightarrow> jsnum" where
  "num_neg NaN = NaN"
| "num_neg PosInf = NegInf"
| "num_neg NegInf = PosInf"
| "num_neg (Fin r) = Fin (- r)"

definition str_to_num :: "string \<Rightarrow> jsnum" where
  \<comment> \<open>\<open>Number(s)\<close> for a string\<close>
  "str_to_num raw =
     (let s = trim raw in
      case s of
        [] \<Rightarrow> Fin 0
      | c # t \<Rightarrow>
          (case radix_prefix s of
             Some b \<Rightarrow> (case parse_radix b 0 (drop 2 s) of None \<Rightarrow> NaN | Some n \<Rightarrow> Fin (of_nat n))
           | None \<Rightarrow>
               if c = CHR ''-'' then num_neg (parse_unsigned t)
               else if c = CHR ''+'' then parse_unsigned t
               else parse_unsigned s))"

fun to_num :: "jsval \<Rightarrow> jsnum" where
  \<comment> \<open>\<open>Number(v)\<close>\<close>
  "to_num JUndef = NaN"
| "to_num JNull = Fin 0"
| "to_num (JBool b) = (if b then Fin 1 else Fin 0)"
| "to_num (JNum n) = n"
| "to_num (JStr s) = str_to_num s"
| "to_num (JArr xs) = str_to_num (to_str (JArr xs))"
| "to_num (JObj kvs) = NaN"

fun is_finite :: "jsnum \<Rightarrow> bool" where
  "is_finite (Fin r) = True"
| "is_finite _ = False"

fun num_truthy :: "jsnum \<Rightarrow> bool" where
  "num_truthy (Fin r) = (r \<noteq> 0)"
| "num_truthy NaN = False"
| "num_truthy _ = True"

text \<open>\<open>Number.isInteger\<close> and \<open>Number.isSafeInteger\<close>, with the integer they accept.\<close>

definition rat_is_int :: "rat \<Rightarrow> bool" where
  "rat_is_int r \<longleftrightarrow> of_int \<lfloor>r\<rfloor> = r"

fun num_int :: "jsnum \<Rightarrow> int option" where
  "num_int (Fin r) = (if rat_is_int r then Some \<lfloor>r\<rfloor> else None)"
| "num_int _ = None"

definition max_safe :: int where
  "max_safe = 9007199254740991"

text \<open>\<open>Number(v) === Number(w)\<close>: \<open>NaN\<close> is not equal to itself.\<close>

definition num_eq :: "jsnum \<Rightarrow> jsnum \<Rightarrow> bool" where
  "num_eq a b \<longleftrightarrow> a \<noteq> NaN \<and> a = b"

text \<open>\<open>Math.round\<close> rounds halves up.\<close>

definition js_round :: "rat \<Rightarrow> int" where
  "js_round r = \<lfloor>r + 1 / 2\<rfloor>"

subsection \<open>JSON text\<close>

fun json_clean :: "jsval \<Rightarrow> jsval" where
  \<comment> \<open>\<open>JSON.parse(JSON.stringify(v))\<close>: undefined members vanish, undefined items and
     non-finite numbers become null\<close>
  "json_clean (JArr xs) = JArr (map (\<lambda>x. if x = JUndef then JNull else json_clean x) xs)"
| "json_clean (JObj kvs) =
     JObj (map (\<lambda>(k, v). (k, json_clean v)) (filter (\<lambda>(k, v). v \<noteq> JUndef) kvs))"
| "json_clean (JNum n) = (if is_finite n then JNum n else JNull)"
| "json_clean v = v"

subsection \<open>Deduplication: \<open>[...new Set(xs)]\<close>\<close>

fun dedup_onto :: "'a list \<Rightarrow> 'a list \<Rightarrow> 'a list" where
  "dedup_onto seen [] = []"
| "dedup_onto seen (x # xs) =
     (if x \<in> set seen then dedup_onto seen xs else x # dedup_onto (x # seen) xs)"

definition dedup :: "'a list \<Rightarrow> 'a list" where
  "dedup xs = dedup_onto [] xs"

lemma set_dedup_onto: "set (dedup_onto seen xs) = set xs - set seen"
  by (induction xs arbitrary: seen) auto

lemma distinct_dedup_onto: "distinct (dedup_onto seen xs)"
  by (induction xs arbitrary: seen) (auto simp: set_dedup_onto)

lemma set_dedup [simp]: "set (dedup xs) = set xs"
  by (simp add: dedup_def set_dedup_onto)

lemma distinct_dedup [simp]: "distinct (dedup xs)"
  by (simp add: dedup_def distinct_dedup_onto)

lemma dedup_Nil_iff [simp]: "dedup xs = [] \<longleftrightarrow> xs = []"
  by (metis set_dedup set_empty)

lemma dedup_onto_distinct: "distinct xs \<Longrightarrow> set xs \<inter> set seen = {} \<Longrightarrow> dedup_onto seen xs = xs"
  by (induction xs arbitrary: seen) auto

lemma dedup_distinct: "distinct xs \<Longrightarrow> dedup xs = xs"
  by (simp add: dedup_def dedup_onto_distinct)

subsection \<open>Lemmas on values\<close>

lemmas value_defs = js_or_def is_nullish_def js_coalesce_def fld_def has_own_def
  set_field_def del_field_def merge_fields_def

lemma fld_simps [simp, js_simps]:
  "fld JUndef k = JUndef" "fld JNull k = JUndef" "fld (JObj []) k = JUndef"
  by (simp_all add: fld_def)

lemma fld_Cons [simp, js_simps]:
  "fld (JObj ((k', v) # kvs)) k = (if k = k' then v else fld (JObj kvs) k)"
  by (simp add: fld_def)

lemma fld_set_field [simp, js_simps]:
  "fld (JObj (set_field k v kvs)) k' = (if k' = k then v else fld (JObj kvs) k')"
  by (simp add: fld_def set_field_def update_conv')

lemma fld_del_field [simp, js_simps]:
  "fld (JObj (del_field k kvs)) k' = (if k' = k then JUndef else fld (JObj kvs) k')"
  by (simp add: fld_def del_field_def delete_conv')

lemma fld_append [js_simps]:
  "fld (JObj (a @ b)) k = (if has_own (JObj a) k then fld (JObj a) k else fld (JObj b) k)"
  by (auto simp: fld_def has_own_def map_add_def split: option.splits)

lemma has_own_set_field [simp]:
  "has_own (JObj (set_field k v kvs)) k' \<longleftrightarrow> k' = k \<or> has_own (JObj kvs) k'"
  by (simp add: has_own_def set_field_def update_conv')

lemma has_own_simps [simp]:
  "\<not> has_own JUndef k" "\<not> has_own JNull k" "\<not> has_own (JObj []) k"
  "has_own (JObj ((k', v) # kvs)) k \<longleftrightarrow> k = k' \<or> has_own (JObj kvs) k"
  by (auto simp: has_own_def)

lemma merge_fields_Nil [simp]: "merge_fields a [] = a"
  by (simp add: merge_fields_def)

lemma merge_fields_Cons [simp]: "merge_fields a ((k, v) # b) = merge_fields (set_field k v a) b"
  by (simp add: merge_fields_def)

text \<open>A later spread overrides: lookups read the last assignment of a key.\<close>

lemma map_of_merge_fields:
  "map_of (merge_fields a b) k = (case map_of (rev b) k of None \<Rightarrow> map_of a k | Some v \<Rightarrow> Some v)"
proof (induction b arbitrary: a)
  case Nil
  show ?case by simp
next
  case (Cons kv b)
  obtain k' v where kv: "kv = (k', v)" by (cases kv)
  show ?case
    by (simp add: kv Cons set_field_def update_conv' map_add_def split: option.splits)
qed

lemma fld_merge_keep:
  "k \<notin> fst ` set b \<Longrightarrow> fld (JObj (merge_fields a b)) k = fld (JObj a) k"
  by (simp add: fld_def map_of_merge_fields map_of_eq_None_iff split: option.splits)
     (metis image_eqI map_of_eq_None_iff option.distinct(1) set_rev)

lemma text_of_nullish [simp]: "text_of JUndef = []" "text_of JNull = []"
  by (simp_all add: text_of_def js_or_def trim_def)

lemma trim_Nil [simp]: "trim [] = []"
  by (simp add: trim_def)

text \<open>Trimming twice is trimming once.\<close>

lemma dropWhile_id: "s = [] \<or> \<not> P (hd s) \<Longrightarrow> dropWhile P s = s"
  by (cases s) auto

lemma hd_dropWhile_not: "dropWhile P s = [] \<or> \<not> P (hd (dropWhile P s))"
  by (cases "dropWhile P s = []") (auto simp: hd_dropWhile)

lemma rev_dropWhile_prefix: "\<exists>t. s = rev (dropWhile P (rev s)) @ t"
  by (metis rev_append rev_rev_ident takeWhile_dropWhile_id)

lemma trim_ends: "trim s = [] \<or> (\<not> is_space (hd (trim s)) \<and> \<not> is_space (last (trim s)))"
proof (cases "trim s = []")
  case True
  then show ?thesis by simp
next
  case False
  let ?d = "dropWhile is_space s"
  from False have rd: "dropWhile is_space (rev ?d) \<noteq> []" by (simp add: trim_def)
  obtain t where t: "?d = trim s @ t"
    using rev_dropWhile_prefix [of ?d is_space] by (auto simp: trim_def)
  from t False have "hd (trim s) = hd ?d" by (metis hd_append)
  moreover from t False have "?d \<noteq> []" by auto
  ultimately have h: "\<not> is_space (hd (trim s))" by (metis hd_dropWhile)
  have "last (trim s) = hd (dropWhile is_space (rev ?d))"
    using rd by (simp add: trim_def last_rev)
  then have "\<not> is_space (last (trim s))" using rd by (metis hd_dropWhile)
  with h show ?thesis by simp
qed

lemma trim_id: "s = [] \<or> (\<not> is_space (hd s) \<and> \<not> is_space (last s)) \<Longrightarrow> trim s = s"
  by (auto simp: trim_def dropWhile_id hd_rev)

lemma trim_trim [simp]: "trim (trim s) = trim s"
  by (rule trim_id) (rule trim_ends)

lemma js_or_simps [simp]: "js_or JUndef b = b" "js_or JNull b = b"
  by (simp_all add: js_or_def)

lemma js_coalesce_simps [simp]: "js_coalesce JUndef b = b" "js_coalesce JNull b = b"
  "js_coalesce (JStr s) b = JStr s" "js_coalesce (JNum n) b = JNum n"
  "js_coalesce (JBool c) b = JBool c"
  by (simp_all add: js_coalesce_def is_nullish_def)

text \<open>Lower-casing keeps blanks, so it commutes with trimming, and is idempotent.\<close>

lemma code_lt: "code c < 256"
  by (simp add: code_def)

lemma code_char_of: "n < 256 \<Longrightarrow> code (char_of n) = n"
  by (simp add: code_def)

lemma lower_char_code:
  "code (lower_char c) =
     (if (65 \<le> code c \<and> code c \<le> 90) \<or> (192 \<le> code c \<and> code c \<le> 222 \<and> code c \<noteq> 215)
      then code c + 32 else code c)"
  by (auto simp: lower_char_def code_char_of)

lemma is_space_lower [simp]: "is_space (lower_char c) = is_space c"
  by (auto simp: is_space_def lower_char_code)

lemma lower_lower [simp]: "lower_char (lower_char c) = lower_char c"
proof -
  have "code (lower_char (lower_char c)) = code (lower_char c)"
    by (subst (1) lower_char_code) (auto simp: lower_char_code)
  then show ?thesis by (simp add: code_def)
qed

lemma to_lower_to_lower [simp]: "to_lower (to_lower s) = to_lower s"
  by (simp add: to_lower_def)

lemma dropWhile_lower: "dropWhile is_space (map lower_char s) = map lower_char (dropWhile is_space s)"
  by (induction s) auto

lemma trim_to_lower: "trim (to_lower s) = to_lower (trim s)"
  by (simp add: trim_def to_lower_def dropWhile_lower rev_map)

lemma text_of_JStr [simp]: "text_of (JStr s) = trim s"
  by (simp add: text_of_def js_or_def)

lemma rat_is_int_simps [simp]: "rat_is_int (of_int i)" "rat_is_int (numeral k)" "rat_is_int 0" "rat_is_int 1"
  by (simp_all add: rat_is_int_def)

lemma num_int_of_int [simp]: "num_int (Fin (of_int i)) = Some i"
  by (simp add: rat_is_int_def)

lemma num_int_Some: "num_int n = Some i \<Longrightarrow> n = Fin (of_int i)"
  by (cases n) (auto simp: rat_is_int_def split: if_splits)

lemma num_int_numeral [simp]: "num_int (Fin (numeral k)) = Some (numeral k)"
  "num_int (Fin 1) = Some 1" "num_int (Fin 0) = Some 0"
  using num_int_of_int [of "numeral k"] num_int_of_int [of 1] num_int_of_int [of 0] by simp_all

subsection \<open>The ordered map\<close>

text \<open>
  What the components rely on in a \<open>Map\<close>: lookups after \<open>set\<close> and \<open>delete\<close>, and that keys stay
  distinct.
\<close>

locale js_map =
  fixes empty_map :: 'm
    and get :: "'m \<Rightarrow> 'k \<Rightarrow> 'v option"
    and put :: "'k \<Rightarrow> 'v \<Rightarrow> 'm \<Rightarrow> 'm"
    and del :: "'k \<Rightarrow> 'm \<Rightarrow> 'm"
    and wf :: "'m \<Rightarrow> bool"
  assumes get_empty: "get empty_map = Map.empty"
    and get_put: "get (put k v m) = (get m)(k \<mapsto> v)"
    and get_del: "get (del k m) = (get m)(k := None)"
    and wf_empty: "wf empty_map"
    and wf_put: "wf m \<Longrightarrow> wf (put k v m)"
    and wf_del: "wf m \<Longrightarrow> wf (del k m)"
begin

lemma get_put_same: "get (put k v m) k = Some v"
  by (simp add: get_put)

lemma get_put_other: "k' \<noteq> k \<Longrightarrow> get (put k v m) k' = get m k'"
  by (simp add: get_put)

lemma get_del_same: "get (del k m) k = None"
  by (simp add: get_del)

lemma get_del_other: "k' \<noteq> k \<Longrightarrow> get (del k m) k' = get m k'"
  by (simp add: get_del)

lemma put_put_get: "get (put k v (put k w m)) = get (put k v m)"
  by (simp add: get_put)

end

definition distinct_keys :: "('k \<times> 'v) list \<Rightarrow> bool" where
  "distinct_keys m \<longleftrightarrow> distinct (map fst m)"

interpretation alist: js_map "[]" map_of AList.update AList.delete distinct_keys
  by unfold_locales
     (auto simp: update_conv' delete_conv' distinct_keys_def distinct_update distinct_delete)

text \<open>Dropping the entries that fail a test, as the sweeps of the program do.\<close>

lemma map_of_filter_distinct:
  "distinct_keys m \<Longrightarrow>
   map_of (filter (\<lambda>(k, v). P k v) m) k =
     (case map_of m k of None \<Rightarrow> None | Some v \<Rightarrow> if P k v then Some v else None)"
proof (induction m)
  case Nil
  show ?case by simp
next
  case (Cons kv m)
  obtain k' v where kv: "kv = (k', v)" by (cases kv)
  from Cons.prems have d: "distinct_keys m" and n: "k' \<notin> fst ` set m"
    by (auto simp: distinct_keys_def kv)
  from n have "map_of m k' = None" by (simp add: map_of_eq_None_iff)
  with Cons.IH [OF d] show ?case by (auto simp: kv split: option.splits)
qed

lemma distinct_keys_filter: "distinct_keys m \<Longrightarrow> distinct_keys (filter P m)"
  by (simp add: distinct_keys_def distinct_map_filter)

lemma distinct_keys_Nil [simp]: "distinct_keys []"
  by (simp add: distinct_keys_def)

lemma length_update_le: "length (AList.update k v m) \<le> Suc (length m)"
  by (induction m) auto

lemma update_fresh: "map_of m k = None \<Longrightarrow> AList.update k v m = m @ [(k, v)]"
  by (induction m) (auto split: if_splits)

lemma length_delete_le: "length (AList.delete k m) \<le> length m"
  by (simp add: AList.delete_eq)

lemma delete_absent: "k \<notin> fst ` set m \<Longrightarrow> AList.delete k m = m"
  by (induction m) auto

lemma length_delete_present:
  "distinct_keys m \<Longrightarrow> k \<in> fst ` set m \<Longrightarrow> Suc (length (AList.delete k m)) = length m"
  by (induction m) (auto simp: distinct_keys_def delete_absent simp del: AList.delete_eq)

text \<open>Maximum of a list of non-negative integers, 0 when empty (\<open>COALESCE(MAX(c), 0)\<close>).\<close>

definition max0 :: "nat list \<Rightarrow> nat" where
  "max0 xs = foldr max xs 0"

lemma max0_simps [simp]: "max0 [] = 0" "max0 (x # xs) = max x (max0 xs)"
  by (simp_all add: max0_def)

lemma max0_ge: "x \<in> set xs \<Longrightarrow> x \<le> max0 xs"
  by (induction xs) auto

lemma max0_append: "max0 (xs @ ys) = max (max0 xs) (max0 ys)"
  by (induction xs) auto

lemma find_append: "find P (xs @ ys) = (case find P xs of None \<Rightarrow> find P ys | Some x \<Rightarrow> Some x)"
  by (induction xs) auto

subsection \<open>Sequences of checks\<close>

text \<open>A chain of guards that each return an error or go on, read backwards from its success.\<close>

lemma guard_Inr: "((if b then Inl e else x) = Inr r) = (\<not> b \<and> x = Inr r)"
  by simp

lemma bind_Inr: "((case m of Inl e' \<Rightarrow> Inl e' | Inr y \<Rightarrow> f y) = Inr r) = (\<exists>y. m = Inr y \<and> f y = Inr r)"
  by (cases m) simp_all

lemma some_Inr: "((case k of None \<Rightarrow> Inl e | Some z \<Rightarrow> g z) = Inr r) = (\<exists>z. k = Some z \<and> g z = Inr r)"
  by (cases k) simp_all

lemma either_Inr: "((if b then x else y) = Inr r) = (b \<and> x = Inr r \<or> \<not> b \<and> y = Inr r)"
  by simp

lemma guard_Some: "((if b then None else x) = Some r) = (\<not> b \<and> x = Some r)"
  by simp

lemma bind_Some: "((case k of None \<Rightarrow> None | Some z \<Rightarrow> g z) = Some r) = (\<exists>z. k = Some z \<and> g z = Some r)"
  by (cases k) simp_all

lemmas checks_Inr = guard_Inr bind_Inr some_Inr

lemmas checks_Some = guard_Some bind_Some

end
