(* ===== verification/DeviceContract.thy ===== *)
theory DeviceContract
  imports Prelude
begin

text \<open>
  The command and acknowledgement contract shared by the server and the players
  (\<open>server/player/device-contract.js\<close>): building a command envelope, validating one,
  normalising the legacy shapes, device states and acknowledgements.

  What the code takes from its host is an argument: \<open>date_parse\<close> is \<open>Date.parse\<close> (its
  treatment of text outside the ISO format is left to the implementation by the language),
  \<open>uuid\<close> is the value of \<open>crypto.randomUUID()\<close> and \<open>iso_now\<close> that of
  \<open>new Date().toISOString()\<close>.
\<close>

type_synonym contract_error = "string \<times> string"

definition contract_version :: int where
  "contract_version = 1"

definition playback_statuses :: "string list" where
  "playback_statuses = [''loading'', ''ready'', ''playing'', ''paused'', ''stopped'', ''ended'',
     ''buffering'', ''error'']"

definition contract_text :: "jsval \<Rightarrow> string" where
  "contract_text v = (if is_nullish v then [] else trim (to_str v))"

definition action_from :: "jsval \<Rightarrow> jsval \<Rightarrow> string" where
  "action_from input payload =
     (let a = contract_text (fld payload ''action''); b = contract_text (fld input ''action'');
          t = contract_text (fld input ''type'')
      in if a \<noteq> [] then a else if b \<noteq> [] then b
         else if t \<noteq> ''device:command'' \<and> t \<noteq> ''transport'' then t else [])"

subsection \<open>Validation\<close>

text \<open>A number that is present, finite and within bounds.\<close>

fun num_within :: "rat \<Rightarrow> rat option \<Rightarrow> jsnum \<Rightarrow> bool" where
  "num_within lo hi (Fin r) = (lo \<le> r \<and> (case hi of None \<Rightarrow> True | Some h \<Rightarrow> r \<le> h))"
| "num_within lo hi _ = False"

definition present_within :: "rat \<Rightarrow> rat option \<Rightarrow> jsval \<Rightarrow> bool" where
  "present_within lo hi v \<longleftrightarrow> \<not> is_nullish v \<and> num_within lo hi (to_num v)"

definition slide_of :: "jsval \<Rightarrow> jsval" where
  "slide_of p = js_coalesce (js_coalesce (fld p ''slide'') (fld p ''page'')) (fld p ''slide_index'')"

definition valid_slide :: "jsval \<Rightarrow> bool" where
  "valid_slide p = (case num_int (to_num (slide_of p)) of None \<Rightarrow> False | Some n \<Rightarrow> 1 \<le> n)"

definition seek_seconds :: "jsval \<Rightarrow> jsval" where
  "seek_seconds p = js_coalesce (js_coalesce (js_coalesce (fld p ''position_seconds'')
     (fld p ''seconds'')) (fld p ''position'')) (fld p ''time'')"

definition seek_normalized :: "jsval \<Rightarrow> jsval" where
  "seek_normalized p = js_coalesce (js_coalesce (fld p ''position_normalized'')
     (fld p ''normalized_position'')) (fld p ''progress'')"

definition seek_percent :: "jsval \<Rightarrow> jsval" where
  "seek_percent p = js_coalesce (fld p ''position_percent'') (fld p ''percent'')"

definition valid_seek :: "jsval \<Rightarrow> bool" where
  "valid_seek p \<longleftrightarrow> present_within 0 None (seek_seconds p)
     \<or> present_within 0 (Some 1) (seek_normalized p)
     \<or> present_within 0 (Some 100) (seek_percent p)"

definition volume_level :: "jsval \<Rightarrow> jsval" where
  "volume_level p = js_coalesce (js_coalesce (fld p ''volume'') (fld p ''level'')) (fld p ''value'')"

definition valid_volume :: "jsval \<Rightarrow> bool" where
  "valid_volume p = present_within 0 (Some 1) (volume_level p)"

definition zone_targeted :: "jsval \<Rightarrow> bool" where
  "zone_targeted p \<longleftrightarrow> contract_text (js_or (fld p ''zone_id'') (fld p ''zoneId'')) \<noteq> []
     \<or> contract_text (js_or (fld p ''cell_id'') (fld p ''cellId'')) \<noteq> []
     \<or> contract_text (js_or (js_or (fld p ''content_instance_id'') (fld p ''contentInstanceId''))
         (fld p ''instance_id'')) \<noteq> []"

definition validate_command :: "(jsval \<Rightarrow> jsnum) \<Rightarrow> jsval \<Rightarrow> contract_error + jsval" where
  "validate_command date_parse env =
     (let scope = fld env ''target_scope''; payload = fld env ''payload'';
          action = contract_text (fld payload ''action'')
      in if \<not> is_plain_object env then Inl (''invalid_envelope'', ''Command must be an object'')
      else if fld env ''version'' \<noteq> jint contract_version
        then Inl (''unsupported_version'', ''Unsupported command contract version'')
      else if fld env ''type'' \<noteq> JStr ''device:command''
        then Inl (''invalid_type'', ''Command type must be device:command'')
      else if contract_text (fld env ''command_id'') = []
        then Inl (''invalid_command_id'', ''command_id is required'')
      else if \<not> is_finite (date_parse (fld env ''issued_at''))
        then Inl (''invalid_issued_at'', ''issued_at must be an ISO timestamp'')
      else if scope \<noteq> JStr ''display'' \<and> scope \<noteq> JStr ''wall''
        then Inl (''invalid_target_scope'', ''target_scope must be display or wall'')
      else if scope = JStr ''display'' \<and> contract_text (fld env ''device_id'') = []
        then Inl (''missing_device_id'', ''device_id is required'')
      else if scope = JStr ''wall'' \<and> contract_text (fld env ''wall_id'') = []
        then Inl (''missing_wall_id'', ''wall_id is required'')
      else if \<not> is_plain_object payload
        then Inl (''invalid_payload'', ''payload must be an object'')
      else if action = [] then Inl (''invalid_action'', ''payload.action is required'')
      else if action = ''go_to_slide'' \<and> \<not> valid_slide payload
        then Inl (''invalid_slide'', ''go_to_slide requires a positive integer slide'')
      else if action = ''seek'' \<and> \<not> valid_seek payload
        then Inl (''invalid_seek'', ''seek requires non-negative seconds, a normalized position from 0 to 1, or a percent from 0 to 100'')
      else if action = ''volume'' \<and> \<not> valid_volume payload
        then Inl (''invalid_volume'', ''volume requires a level from 0 to 1'')
      else if zone_targeted payload \<and> scope = JStr ''wall''
          \<and> contract_text (fld env ''wall_id'') = [] \<and> contract_text (fld env ''device_id'') = []
        then Inl (''ambiguous_target'', ''zone/cell commands require an explicit wall_id or device_id'')
      else Inr env)"

subsection \<open>Construction and normalisation\<close>

definition create_command :: "string \<Rightarrow> string \<Rightarrow> jsval \<Rightarrow> jsval" where
  "create_command uuid iso_now source =
     (let payload0 = obj_fields (fld source ''payload'');
          action = action_from source (JObj payload0);
          payload = (if action \<noteq> [] then set_field ''action'' (JStr action) payload0 else payload0);
          device = contract_text (js_or (fld source ''device_id'') (fld source ''deviceId''));
          wall = contract_text (js_or (fld source ''wall_id'') (fld source ''wallId''));
          scope = js_or (fld source ''target_scope'')
                    (JStr (if wall \<noteq> [] \<and> device = [] then ''wall'' else ''display''));
          cid = contract_text (js_or (fld source ''command_id'') (fld source ''commandId''))
      in JObj ([(''version'', jint contract_version), (''type'', JStr ''device:command''),
                (''command_id'', JStr (if cid \<noteq> [] then cid else uuid)),
                (''issued_at'', js_or (fld source ''issued_at'') (JStr iso_now))]
               @ (if device \<noteq> [] then [(''device_id'', JStr device)] else [])
               @ (if wall \<noteq> [] then [(''wall_id'', JStr wall)] else [])
               @ [(''target_scope'', scope), (''payload'', JObj payload)]))"

definition is_canonical :: "jsval \<Rightarrow> bool" where
  "is_canonical source \<longleftrightarrow> fld source ''type'' = JStr ''device:command''
     \<and> fld source ''version'' = jint contract_version"

definition default_field :: "string \<Rightarrow> jsval \<Rightarrow> jsval \<Rightarrow> (string \<times> jsval) list" where
  "default_field k source defaults =
     (if truthy (fld source k) \<or> \<not> truthy (fld defaults k) then [] else [(k, fld defaults k)])"

definition normalize_command ::
  "(jsval \<Rightarrow> jsnum) \<Rightarrow> string \<Rightarrow> string \<Rightarrow> jsval \<Rightarrow> jsval \<Rightarrow> contract_error + (jsval \<times> bool)" where
  "normalize_command date_parse uuid iso_now input defaults =
     (let source = JObj (obj_fields input); canonical = is_canonical source;
          v = (if canonical
               then JObj (merge_fields (merge_fields (obj_fields source)
                      (default_field ''device_id'' source defaults))
                      (default_field ''wall_id'' source defaults))
               else create_command uuid iso_now
                      (JObj (merge_fields (obj_fields defaults) (obj_fields source))))
      in case validate_command date_parse v of
           Inl e \<Rightarrow> Inl e
         | Inr _ \<Rightarrow> Inr (v, \<not> canonical))"

subsection \<open>States and acknowledgements\<close>

definition status_in :: "jsval \<Rightarrow> bool" where
  "status_in v = (case v of JStr s \<Rightarrow> s \<in> set playback_statuses | _ \<Rightarrow> False)"

definition normalize_state :: "string \<Rightarrow> jsval \<Rightarrow> jsval" where
  "normalize_state iso_now input =
     (let source = JObj (obj_fields input);
          status = (if status_in (fld source ''playback_status'') then fld source ''playback_status''
                    else if status_in (fld source ''render_state'') then fld source ''render_state''
                    else JStr ''ready'');
          revision = (case num_int (to_num (fld source ''state_revision'')) of
                        None \<Rightarrow> 0 | Some n \<Rightarrow> if 0 \<le> n then n else 0)
      in JObj (merge_fields (obj_fields source)
           [(''device_id'', JStr (contract_text (fld source ''device_id''))),
            (''playback_status'', status),
            (''updated_at'', js_or (fld source ''updated_at'') (JStr iso_now)),
            (''state_revision'', jint revision)]))"

definition text_or :: "jsval \<Rightarrow> string \<Rightarrow> jsval" where
  "text_or v d = JStr (if contract_text v \<noteq> [] then contract_text v else d)"

definition create_ack :: "string \<Rightarrow> jsval \<Rightarrow> jsval" where
  "create_ack iso_now source =
     (let ok = (fld source ''ok'' \<noteq> JBool False); e = fld source ''error'';
          err = (if ok then JNull
                 else if is_object e
                 then JObj ([(''code'', text_or (fld e ''code'') ''command_failed''),
                             (''message'', text_or (fld e ''message'') ''Command failed'')]
                            @ (if is_nullish (fld e ''details'') then []
                               else [(''details'', fld e ''details'')]))
                 else JObj [(''code'', JStr ''command_failed''),
                            (''message'', text_or e ''Command failed'')])
      in JObj [(''version'', jint contract_version), (''type'', JStr ''device:ack''),
               (''command_id'', JStr (contract_text (fld source ''command_id''))),
               (''device_id'', JStr (contract_text (fld source ''device_id''))),
               (''ok'', JBool ok), (''error'', err),
               (''state'', if truthy (fld source ''state'')
                           then normalize_state iso_now (fld source ''state'') else JNull),
               (''completed_at'', js_or (fld source ''completed_at'') (JStr iso_now))])"

subsection \<open>Lemmas\<close>

lemma contract_text_simps [simp]:
  "contract_text JUndef = []" "contract_text JNull = []" "contract_text (JStr s) = trim s"
  by (simp_all add: contract_text_def is_nullish_def)

text \<open>The stored fields of a built envelope.\<close>

lemma create_command_fields [simp]:
  "is_plain_object (create_command u n s)"
  "fld (create_command u n s) ''version'' = jint contract_version"
  "fld (create_command u n s) ''type'' = JStr ''device:command''"
  "fld (create_command u n s) ''command_id'' =
     (let cid = contract_text (js_or (fld s ''command_id'') (fld s ''commandId''))
      in JStr (if cid \<noteq> [] then cid else u))"
  "fld (create_command u n s) ''issued_at'' = js_or (fld s ''issued_at'') (JStr n)"
  by (simp_all add: create_command_def Let_def fld_append)

lemma create_command_device [simp]:
  "fld (create_command u n s) ''device_id'' =
     (let d = contract_text (js_or (fld s ''device_id'') (fld s ''deviceId''))
      in if d \<noteq> [] then JStr d else JUndef)"
  "fld (create_command u n s) ''wall_id'' =
     (let w = contract_text (js_or (fld s ''wall_id'') (fld s ''wallId''))
      in if w \<noteq> [] then JStr w else JUndef)"
  by (simp_all add: create_command_def Let_def fld_append)

lemma create_command_payload [simp]:
  "fld (create_command u n s) ''payload'' =
     (let p = obj_fields (fld s ''payload''); a = action_from s (JObj p)
      in JObj (if a \<noteq> [] then set_field ''action'' (JStr a) p else p))"
  by (simp add: create_command_def Let_def fld_append)

lemma create_command_scope [simp]:
  "fld (create_command u n s) ''target_scope'' =
     (let d = contract_text (js_or (fld s ''device_id'') (fld s ''deviceId''));
          w = contract_text (js_or (fld s ''wall_id'') (fld s ''wallId''))
      in js_or (fld s ''target_scope'') (JStr (if w \<noteq> [] \<and> d = [] then ''wall'' else ''display'')))"
  by (simp add: create_command_def Let_def fld_append)

text \<open>The argument an action needs, as the validation checks it.\<close>

definition action_args_ok :: "string \<Rightarrow> jsval \<Rightarrow> bool" where
  "action_args_ok action p \<longleftrightarrow>
     (action = ''go_to_slide'' \<longrightarrow> valid_slide p) \<and> (action = ''seek'' \<longrightarrow> valid_seek p)
     \<and> (action = ''volume'' \<longrightarrow> valid_volume p)"

text \<open>What a valid command is, stated without the order of the checks.\<close>

definition command_ok :: "(jsval \<Rightarrow> jsnum) \<Rightarrow> jsval \<Rightarrow> bool" where
  "command_ok date_parse env \<longleftrightarrow>
     is_plain_object env \<and> is_canonical env \<and> contract_text (fld env ''command_id'') \<noteq> []
     \<and> is_finite (date_parse (fld env ''issued_at''))
     \<and> (fld env ''target_scope'' = JStr ''display'' \<and> contract_text (fld env ''device_id'') \<noteq> []
        \<or> fld env ''target_scope'' = JStr ''wall'' \<and> contract_text (fld env ''wall_id'') \<noteq> [])
     \<and> is_plain_object (fld env ''payload'')
     \<and> contract_text (fld (fld env ''payload'') ''action'') \<noteq> []
     \<and> action_args_ok (contract_text (fld (fld env ''payload'') ''action'')) (fld env ''payload'')"

lemma validate_command_iff:
  "validate_command dp env = Inr v \<longleftrightarrow> v = env \<and> command_ok dp env"
  unfolding validate_command_def command_ok_def action_args_ok_def is_canonical_def Let_def
  by (cases "fld env ''target_scope'' = JStr ''wall''") (auto split: if_splits)

lemma validate_command_cases:
  "validate_command dp env = Inr env \<or> (\<exists>e. validate_command dp env = Inl e)"
  by (cases "validate_command dp env") (auto simp: validate_command_iff)

subsection \<open>The contract a sender relies on\<close>

text \<open>The argument the server builds a display command from.\<close>

definition command_source :: "jsval \<Rightarrow> jsval \<Rightarrow> jsval \<Rightarrow> jsval" where
  "command_source cid dev payload =
     JObj [(''command_id'', cid), (''device_id'', dev), (''target_scope'', JStr ''display''),
           (''payload'', payload)]"

lemma command_source_fields [simp]:
  "fld (command_source cid dev p) ''command_id'' = cid"
  "fld (command_source cid dev p) ''device_id'' = dev"
  "fld (command_source cid dev p) ''target_scope'' = JStr ''display''"
  "fld (command_source cid dev p) ''payload'' = p"
  "fld (command_source cid dev p) ''commandId'' = JUndef"
  "fld (command_source cid dev p) ''deviceId'' = JUndef"
  "fld (command_source cid dev p) ''wall_id'' = JUndef"
  "fld (command_source cid dev p) ''wallId'' = JUndef"
  "fld (command_source cid dev p) ''issued_at'' = JUndef"
  "fld (command_source cid dev p) ''action'' = JUndef"
  "fld (command_source cid dev p) ''type'' = JUndef"
  by (simp_all add: command_source_def)

locale command_factory =
  fixes create :: "jsval \<Rightarrow> jsval"
    and accepts :: "jsval \<Rightarrow> bool"
    and host_ok :: bool
  assumes keeps_id: "trim cid = cid \<Longrightarrow> cid \<noteq> [] \<Longrightarrow>
      fld (create (command_source (JStr cid) dev (JObj p))) ''command_id'' = JStr cid"
    and keeps_payload: "k \<noteq> ''action'' \<Longrightarrow>
      fld (fld (create (command_source cmd dev (JObj p))) ''payload'') k = fld (JObj p) k"
    and accepts_display: "host_ok \<Longrightarrow> trim did = did \<Longrightarrow> did \<noteq> [] \<Longrightarrow>
      fld (JObj p) ''action'' = JStr a \<Longrightarrow> trim a = a \<Longrightarrow> a \<noteq> [] \<Longrightarrow> action_args_ok a (JObj p) \<Longrightarrow>
      accepts (create (command_source cmd (JStr did) (JObj p)))"

lemma action_args_set_action [simp]:
  "action_args_ok a (JObj (set_field ''action'' v p)) = action_args_ok a (JObj p)"
  by (simp add: action_args_ok_def valid_slide_def slide_of_def valid_seek_def seek_seconds_def
      seek_normalized_def seek_percent_def valid_volume_def volume_level_def)

lemma trim_contract_text [simp]: "trim (contract_text v) = contract_text v"
  by (simp add: contract_text_def)

interpretation contract: command_factory "create_command uuid iso_now" "command_ok date_parse"
  "trim uuid = uuid \<and> uuid \<noteq> [] \<and> is_finite (date_parse (JStr iso_now))"
  for uuid iso_now date_parse
proof unfold_locales
  fix cid :: string and dev p
  assume "trim cid = cid" "cid \<noteq> []"
  then show "fld (create_command uuid iso_now (command_source (JStr cid) dev (JObj p)))
      ''command_id'' = JStr cid"
    by (simp add: js_or_def)
next
  fix k :: string and cid dev p
  assume "k \<noteq> ''action''"
  then show "fld (fld (create_command uuid iso_now (command_source cid dev (JObj p))) ''payload'') k
      = fld (JObj p) k"
    by (simp add: Let_def)
next
  fix dev a :: string and p cid
  assume "trim uuid = uuid \<and> uuid \<noteq> [] \<and> is_finite (date_parse (JStr iso_now))"
    and "trim dev = dev" "dev \<noteq> []" "fld (JObj p) ''action'' = JStr a" "trim a = a" "a \<noteq> []"
    and "action_args_ok a (JObj p)"
  then show "command_ok date_parse (create_command uuid iso_now (command_source cid (JStr dev) (JObj p)))"
    by (simp add: command_ok_def is_canonical_def Let_def action_from_def js_or_def)
qed

subsection \<open>Properties\<close>

text \<open>Normalising is idempotent: a command the contract has accepted once (canonical or built
  from a legacy shape) is accepted again unchanged, and is then no longer reported as legacy.\<close>

theorem normalize_command_idempotent:
  assumes "normalize_command dp u n input defaults = Inr (v, l)"
  shows "normalize_command dp u' n' v JUndef = Inr (v, False)"
proof -
  have ok: "command_ok dp v"
    using assms by (auto simp: normalize_command_def Let_def validate_command_iff split: sum.splits if_splits)
  then obtain kvs where v: "v = JObj kvs" by (cases v) (auto simp: command_ok_def)
  have d: "\<And>k. default_field k v JUndef = []" by (simp add: default_field_def)
  from ok have "is_canonical v" and "validate_command dp v = Inr v"
    by (simp_all add: command_ok_def validate_command_iff)
  then show ?thesis
    by (simp add: normalize_command_def v d [unfolded v] Let_def)
qed

theorem normalize_command_idempotent_witness:
  "normalize_command (\<lambda>_. Fin 0) ''u2'' ''n2'' (create_command ''u'' ''n''
     (JObj [(''type'', JStr ''play''), (''device_id'', JStr ''d1'')])) JUndef
   = Inr (create_command ''u'' ''n'' (JObj [(''type'', JStr ''play''), (''device_id'', JStr ''d1'')]), False)"
  by (rule normalize_command_idempotent [where u = "''u''" and n = "''n''" and l = True
      and input = "JObj [(''type'', JStr ''play''), (''device_id'', JStr ''d1'')]" and defaults = JUndef])
     code_simp

text \<open>What a player may rely on in an accepted command: an addressee for its scope, and for the
  parametric actions an argument in range (slide numbers are positive integers, volumes lie
  between 0 and 1).\<close>

theorem accepted_command_in_range:
  assumes "validate_command dp env = Inr v"
  shows "(contract_text (fld v ''device_id'') \<noteq> [] \<or> contract_text (fld v ''wall_id'') \<noteq> [])
     \<and> (contract_text (fld (fld v ''payload'') ''action'') = ''go_to_slide'' \<longrightarrow>
          (\<exists>k\<ge>1. to_num (slide_of (fld v ''payload'')) = Fin (of_int k)))
     \<and> (contract_text (fld (fld v ''payload'') ''action'') = ''volume'' \<longrightarrow>
          (\<exists>r. to_num (volume_level (fld v ''payload'')) = Fin r \<and> 0 \<le> r \<and> r \<le> 1))"
proof (intro conjI impI)
  from assms have ok: "command_ok dp v" by (simp add: validate_command_iff)
  show "contract_text (fld v ''device_id'') \<noteq> [] \<or> contract_text (fld v ''wall_id'') \<noteq> []"
    using ok by (auto simp: command_ok_def)
  show "\<exists>k\<ge>1. to_num (slide_of (fld v ''payload'')) = Fin (of_int k)"
    if "contract_text (fld (fld v ''payload'') ''action'') = ''go_to_slide''"
    using ok that
    by (auto simp: command_ok_def action_args_ok_def valid_slide_def dest!: num_int_Some split: option.splits)
  show "\<exists>r. to_num (volume_level (fld v ''payload'')) = Fin r \<and> 0 \<le> r \<and> r \<le> 1"
    if "contract_text (fld (fld v ''payload'') ''action'') = ''volume''"
    using ok that
    by (cases "to_num (volume_level (fld v ''payload''))")
       (auto simp: command_ok_def action_args_ok_def valid_volume_def present_within_def)
qed

theorem accepted_command_in_range_witness:
  "\<exists>v. validate_command (\<lambda>_. Fin 0) v = Inr v
     \<and> (\<exists>k\<ge>1. to_num (slide_of (fld v ''payload'')) = Fin (of_int k))"
proof -
  let ?v = "create_command ''u'' ''n'' (JObj [(''device_id'', JStr ''d1''),
     (''payload'', JObj [(''action'', JStr ''go_to_slide''), (''slide'', JStr ''3'')])])"
  have "validate_command (\<lambda>_. Fin 0) ?v = Inr ?v" by code_simp
  moreover have "contract_text (fld (fld ?v ''payload'') ''action'') = ''go_to_slide''" by code_simp
  ultimately show ?thesis using accepted_command_in_range [of "\<lambda>_. Fin 0" ?v ?v] by blast
qed

end
