(* ===== verification/Transport.thy ===== *)
theory Transport
  imports DeviceContract
begin

text \<open>
  The transport coordinator of the classroom (\<open>server/lib/transport-transaction.js\<close>): one operator
  action (play, next, seek, \<dots>) is fanned out to several displays exactly once. It makes
  relative actions absolute, validates the targets against the workspace, deduplicates by an
  idempotency key and decides which target may sound.

  The functions the coordinator is given (device lookups, persistence, socket emission, the
  clock) are the fields of \<open>deps\<close>. Emitting, queueing and persisting are recorded, in order, in
  the \<open>trace\<close> of the state. Transactions are shared between two maps and mutated in place, so
  they live in a store \<open>txs\<close> and the maps hold references. Keys and fingerprints that the code
  joins or stringifies are kept as tuples and values. The clock is read once per call.
\<close>

subsection \<open>Absolute actions\<close>

definition transport_actions :: "string list" where
  "transport_actions = [''next'', ''prev'', ''next_slide'', ''previous_slide'', ''go_to_slide'',
     ''play'', ''pause'', ''play_pause'', ''resume'', ''stop'', ''restart'', ''restart_deck'',
     ''seek'', ''seek_forward'', ''seek_backward'']"

definition integer_of :: "jsval \<Rightarrow> int option" where
  "integer_of v = num_int (to_num v)"

definition is_present :: "jsval \<Rightarrow> bool" where
  "is_present v \<longleftrightarrow> \<not> is_nullish v \<and> v \<noteq> JStr []"

text \<open>\<open>String(a || b || '').trim().toLowerCase()\<close>\<close>

definition action_text :: "jsval \<Rightarrow> string" where
  "action_text v = to_lower (text_of v)"

definition is_next_action :: "string \<Rightarrow> bool" where
  "is_next_action a \<longleftrightarrow> a = ''next'' \<or> a = ''next_slide''"

definition is_prev_action :: "string \<Rightarrow> bool" where
  "is_prev_action a \<longleftrightarrow> a = ''prev'' \<or> a = ''previous_slide''"

definition slide_target :: "bool \<Rightarrow> int \<Rightarrow> int option \<Rightarrow> int" where
  "slide_target forward idx count =
     (let candidate = idx + (if forward then 1 else -1)
      in case count of
           Some c \<Rightarrow> if 1 \<le> c then min c (max 1 candidate) else max 1 candidate
         | None \<Rightarrow> max 1 candidate)"

definition canonicalize_transport_action ::
  "jsval \<Rightarrow> (string \<times> jsval) list \<Rightarrow> jsval \<Rightarrow> string \<times> (string \<times> jsval) list" where
  "canonicalize_transport_action action payload state =
     (let requested = action_text (js_or action (fld (JObj payload) ''action''));
          body = del_field ''action'' payload;
          idx = integer_of (js_coalesce (fld state ''slide_index'') (fld state ''slideIndex''));
          cnt = integer_of (js_coalesce (fld state ''slide_count'') (fld state ''slideCount''))
      in if requested = ''play_pause'' \<and> is_bool (fld state ''paused'')
         then let explicit = (if fld state ''paused'' = JBool True then ''play'' else ''pause'')
              in (explicit, merge_fields body [(''action'', JStr explicit)])
         else case idx of
           Some i \<Rightarrow>
             if (is_next_action requested \<or> is_prev_action requested) \<and> 1 \<le> i
             then let t = jint (slide_target (is_next_action requested) i cnt)
                  in (''go_to_slide'',
                      merge_fields body [(''action'', JStr ''go_to_slide''), (''slide'', t),
                        (''page'', t), (''slide_index'', t)])
             else (requested, merge_fields body [(''action'', JStr requested)])
         | None \<Rightarrow> (requested, merge_fields body [(''action'', JStr requested)]))"

definition stable_payload_fingerprint :: "jsval \<Rightarrow> jsval" where
  "stable_payload_fingerprint payload = json_clean (JObj (sort_key fst (obj_fields payload)))"

subsection \<open>Dependencies, transactions and state\<close>

record deps =
  get_device :: "string \<Rightarrow> jsval"
  list_workspace_devices :: "string \<Rightarrow> jsval"
  get_display_state :: "(jsval \<Rightarrow> jsval) option"
  get_live_state :: "string \<Rightarrow> jsval"
  get_room_revision :: "(string \<Rightarrow> jsval \<Rightarrow> jsval) option"
  get_content_generation :: "(jsval \<Rightarrow> jsval \<Rightarrow> jsval) option"
  is_device_online :: "jsval \<Rightarrow> bool"
  emit_to_device :: "jsval \<Rightarrow> jsval \<Rightarrow> string option"
  queue_to_device :: "(jsval \<Rightarrow> jsval \<Rightarrow> string + jsval) option"
  ingest :: "jsval \<Rightarrow> string + jsval"
  create_cmd :: "jsval \<Rightarrow> jsval"
  resolve_audio_authority :: "(jsval \<Rightarrow> jsval) option"
  get_audio_policy :: "(string \<Rightarrow> jsval) option"
  random_uuid :: "nat \<Rightarrow> string"
  parse_date :: "jsval \<Rightarrow> jsnum"
  idempotency_ttl :: int
  legacy_window :: int

datatype role = Physical | LiveProgram

datatype target_status = Pending | Delivered | InQueue | Offline | Failed

record target =
  tg_device :: jsval
  tg_role :: role
  tg_command :: jsval
  tg_delivered :: bool
  tg_queued :: bool
  tg_status :: target_status
  tg_reason :: "string option"
  tg_error :: "string option"

datatype fingerprint =
    FpDispatch string "string list" string jsval
  | FpLegacy string string jsval

datatype legacy_key =
    SuppliedKey string string string
  | WindowKey string string string jsval int

record transaction =
  tx_id :: string
  tx_idem :: string
  tx_fp :: fingerprint
  tx_workspace :: string
  tx_room :: jsval
  tx_issued_by :: jsval
  tx_action :: string
  tx_payload :: "(string \<times> jsval) list"
  tx_content :: jsval
  tx_instance :: jsval
  tx_revision :: jsval
  tx_generation :: jsval
  tx_request_payload :: "(string \<times> jsval) list"
  tx_request :: jsval
  tx_authority :: jsval
  tx_policy :: jsval
  tx_conflict :: bool
  tx_targets :: "(jsval \<times> target) list"
  tx_live_considered :: bool
  tx_created :: int
  tx_expires :: int
  tx_legacy_expires :: int

datatype effect =
    Ingest jsval
  | Emit jsval jsval
  | Enqueue jsval jsval

record coord =
  txs :: "(nat \<times> transaction) list"
  by_key :: "((string \<times> string) \<times> nat) list"
  legacy :: "(legacy_key \<times> nat) list"
  next_ref :: nat
  uuids_used :: nat
  trace :: "effect list"

definition initial_coord :: coord where
  "initial_coord = \<lparr>txs = [], by_key = [], legacy = [], next_ref = 0, uuids_used = 0, trace = []\<rparr>"

definition fresh_uuid :: "deps \<Rightarrow> coord \<Rightarrow> string \<times> coord" where
  "fresh_uuid d s = (random_uuid d (uuids_used s), s\<lparr>uuids_used := Suc (uuids_used s)\<rparr>)"

definition sweep :: "int \<Rightarrow> coord \<Rightarrow> coord" where
  "sweep tm s =
     s\<lparr>by_key := filter (\<lambda>(k, r). case map_of (txs s) r of
                           None \<Rightarrow> True | Some t \<Rightarrow> \<not> tx_expires t \<le> tm) (by_key s),
       legacy := filter (\<lambda>(k, r). case map_of (txs s) r of
                           None \<Rightarrow> True | Some t \<Rightarrow> \<not> tx_legacy_expires t \<le> tm) (legacy s)\<rparr>"

subsection \<open>The context of a transaction\<close>

definition display_state :: "deps \<Rightarrow> jsval \<Rightarrow> jsval" where
  "display_state d dev = (case get_display_state d of None \<Rightarrow> JNull | Some f \<Rightarrow> f dev)"

fun source_state_for :: "deps \<Rightarrow> string list \<Rightarrow> jsval" where
  "source_state_for d [] = JObj []"
| "source_state_for d (i # is) =
     (let st = display_state d (JStr i) in if is_object st then st else source_state_for d is)"

definition or_null :: "jsval \<Rightarrow> jsval" where
  "or_null v = (if is_present v then v else JNull)"

definition content_generation :: "deps \<Rightarrow> jsval \<Rightarrow> jsval \<Rightarrow> jsval" where
  "content_generation d content asset =
     (case get_content_generation d of None \<Rightarrow> JNull | Some f \<Rightarrow> f content (js_coalesce asset JNull))"

text \<open>\<open>resolveContext\<close>: canonical action and payload, content, instance, revision, generation.\<close>

definition resolve_context ::
  "deps \<Rightarrow> jsval \<Rightarrow> string \<Rightarrow> string \<Rightarrow> string list
   \<Rightarrow> (string \<times> (string \<times> jsval) list) \<times> jsval \<times> jsval \<times> jsval \<times> jsval" where
  "resolve_context d request ws action device_ids =
     (let st = source_state_for d device_ids;
          incoming = obj_fields (fld request ''payload'');
          inc = JObj incoming;
          canonical = canonicalize_transport_action (JStr action) incoming st;
          content = first_present [fld inc ''content_id'', fld st ''current_content_id'',
                      fld st ''content_id'', JNull];
          inst = first_present [fld inc ''content_instance_id'', fld request ''contentInstanceId'',
                   fld st ''content_instance_id'', fld st ''current_asset_id'', content];
          rv = first_present [fld inc ''expected_revision'', fld request ''expectedRevision'',
                  (case get_room_revision d of
                     Some f \<Rightarrow> f ws (fld request ''roomId'')
                   | None \<Rightarrow> first_present [fld st ''state_revision'', fld st ''playback_revision'', JNull])];
          gen = first_present [fld inc ''expected_generation'', fld request ''expectedGeneration'',
                  fld st ''expected_generation'', fld st ''generation'',
                  content_generation d content (fld st ''current_asset_id'')]
      in (canonical, content, or_null inst, or_null rv, or_null gen))"

definition same_policy :: "jsval \<Rightarrow> jsval \<Rightarrow> bool" where
  "same_policy first p \<longleftrightarrow> truthy p
     \<and> (\<forall>k \<in> set [''transaction_id'', ''content_instance_id'', ''owner_device_id'', ''output_device_id''].
          to_str (js_or (fld p k) (JStr [])) = to_str (js_or (fld first k) (JStr [])))
     \<and> num_eq (to_num (fld p ''revision'')) (to_num (fld first ''revision''))
     \<and> num_eq (to_num (fld p ''generation'')) (to_num (fld first ''generation''))"

text \<open>\<open>audioAuthority\<close>: the device that may sound, the policy it holds under, conflict.\<close>

definition audio_authority :: "deps \<Rightarrow> string \<Rightarrow> string list \<Rightarrow> jsval \<times> jsval \<times> bool" where
  "audio_authority d ws device_ids =
     (case get_audio_policy d of
        Some f \<Rightarrow>
          (let policies = map f device_ids;
               first = (case policies of [] \<Rightarrow> JNull | p # _ \<Rightarrow> js_or p JNull);
               common = (truthy first \<and> list_all (same_policy first) policies)
           in (if common then js_or (fld first ''owner_device_id'') JNull else JNull,
               if common then first else JNull, \<not> common))
      | None \<Rightarrow>
          (let devices = js_or (list_workspace_devices d ws) (JArr []);
               resolved = (case resolve_audio_authority d of
                             Some f \<Rightarrow> f devices
                           | None \<Rightarrow> JObj [(''valid'', JBool False), (''authority_device_id'', JNull)])
           in (if truthy resolved \<and> truthy (fld resolved ''valid'')
               then fld resolved ''authority_device_id'' else JNull, JNull, False)))"

definition build_transaction ::
  "deps \<Rightarrow> int \<Rightarrow> jsval \<Rightarrow> string \<Rightarrow> string \<Rightarrow> string list \<Rightarrow> string \<Rightarrow> fingerprint \<Rightarrow> string \<Rightarrow> transaction" where
  "build_transaction d now request ws action device_ids idem fp uuid =
     (case resolve_context d request ws action device_ids of ((act, pl), content, inst, rv, gen) \<Rightarrow>
      case audio_authority d ws device_ids of (auth, pol, conflict) \<Rightarrow>
      \<lparr>tx_id = uuid, tx_idem = idem, tx_fp = fp, tx_workspace = ws,
       tx_room = js_or (fld request ''roomId'') JNull,
       tx_issued_by = js_or (fld request ''issuedBy'') JNull,
       tx_action = act, tx_payload = pl, tx_content = content, tx_instance = inst,
       tx_revision = rv, tx_generation = gen,
       tx_request_payload = obj_fields (fld request ''payload''), tx_request = request,
       tx_authority = auth, tx_policy = pol, tx_conflict = conflict,
       tx_targets = [], tx_live_considered = False, tx_created = now,
       tx_expires = now + idempotency_ttl d, tx_legacy_expires = now + legacy_window d\<rparr>)"


subsection \<open>Dispatching to one target\<close>

definition strict_eq :: "jsval \<Rightarrow> jsval \<Rightarrow> bool" where
  \<comment> \<open>\<open>===\<close> on primitive values\<close>
  "strict_eq a b \<longleftrightarrow> a = b \<and> a \<noteq> JNum NaN"

text \<open>The content, instance and generation a target is addressed with.\<close>

definition target_content :: "transaction \<Rightarrow> jsval \<Rightarrow> jsval" where
  "target_content t st =
     (let o_c = fld (tx_request t) ''contentId'' in
      if is_present o_c then o_c
      else first_present [fld (JObj (tx_request_payload t)) ''content_id'',
             fld st ''current_content_id'', fld st ''content_id'', tx_content t, JNull])"

definition target_instance :: "transaction \<Rightarrow> jsval \<Rightarrow> jsval" where
  "target_instance t st =
     (let o_i = fld (tx_request t) ''contentInstanceId'' in
      if is_present o_i then o_i
      else first_present [fld (JObj (tx_request_payload t)) ''content_instance_id'',
             fld st ''content_instance_id'', fld st ''current_asset_id'', target_content t st])"

definition target_generation :: "deps \<Rightarrow> transaction \<Rightarrow> jsval \<Rightarrow> jsval" where
  "target_generation d t st =
     (let o_g = fld (tx_request t) ''expectedGeneration'' in
      if is_present o_g then o_g
      else first_present [fld (JObj (tx_request_payload t)) ''expected_generation'',
             fld st ''expected_generation'', fld st ''generation'',
             content_generation d (target_content t st) (fld st ''current_asset_id'')])"

definition policy_matches :: "transaction \<Rightarrow> jsval \<Rightarrow> jsval \<Rightarrow> bool" where
  "policy_matches t inst gen \<longleftrightarrow> \<not> truthy (tx_policy t) \<or>
     (is_present (fld (tx_policy t) ''content_instance_id'') \<and> is_present inst
      \<and> to_str (fld (tx_policy t) ''content_instance_id'') = to_str inst
      \<and> is_finite (to_num (fld (tx_policy t) ''generation'')) \<and> is_finite (to_num gen)
      \<and> to_num (fld (tx_policy t) ''generation'') = to_num gen)"

definition audio_allowed :: "deps \<Rightarrow> transaction \<Rightarrow> jsval \<Rightarrow> role \<Rightarrow> bool" where
  "audio_allowed d t dev rl \<longleftrightarrow>
     (let st = js_or (display_state d dev) (JObj []) in
      rl = Physical \<and> strict_eq (tx_authority t) dev
      \<and> policy_matches t (target_instance t st) (target_generation d t st))"

definition when_present :: "string \<Rightarrow> jsval \<Rightarrow> (string \<times> jsval) list" where
  "when_present k v = (if is_present v then [(k, v)] else [])"

definition target_payload :: "deps \<Rightarrow> transaction \<Rightarrow> jsval \<Rightarrow> role \<Rightarrow> jsval" where
  "target_payload d t dev rl =
     (let st = js_or (display_state d dev) (JObj []);
          inst = target_instance t st; gen = target_generation d t st; p = tx_policy t;
          allowed = audio_allowed d t dev rl
      in JObj (merge_fields (tx_payload t)
           ([(''action'', JStr (tx_action t)), (''device_id'', dev),
             (''workspace_id'', JStr (tx_workspace t)),
             (''transport_transaction_id'', JStr (tx_id t)),
             (''idempotency_key'', JStr (tx_idem t))]
            @ when_present ''room_id'' (tx_room t)
            @ when_present ''content_id'' (target_content t st)
            @ when_present ''content_instance_id'' inst
            @ when_present ''expected_revision'' (tx_revision t)
            @ when_present ''expected_generation'' gen
            @ [(''audio_authority_device_id'', tx_authority t), (''audio_allowed'', JBool allowed),
               (''force_muted'', JBool (\<not> allowed))]
            @ (if truthy p then
                 [(''audio_policy_transaction_id'', js_or (fld p ''transaction_id'') JNull),
                  (''audio_policy_revision'', js_coalesce (fld p ''revision'') JNull),
                  (''audio_policy_content_instance_id'', js_or (fld p ''content_instance_id'') JNull),
                  (''audio_policy_generation'', js_coalesce (fld p ''generation'') JNull)]
               else [])
            @ (if truthy p \<and> \<not> policy_matches t inst gen
               then [(''audio_policy_mismatch'', JBool True)] else [])
            @ (if tx_conflict t then [(''audio_policy_conflict'', JBool True)] else []))))"

definition ingest_args :: "deps \<Rightarrow> transaction \<Rightarrow> jsval \<Rightarrow> jsval \<Rightarrow> jsval \<Rightarrow> jsval" where
  "ingest_args d t dev payload envelope =
     JObj [(''target_type'', JStr ''display''), (''target_id'', dev),
           (''command_type'', JStr (tx_action t)), (''payload'', payload),
           (''issued_by'', tx_issued_by t),
           (''requires_ack'', jint (if is_device_online d dev then 1 else 0)),
           (''command_id'', fld envelope ''command_id''),
           (''created_at'', JNum (parse_date d (fld envelope ''issued_at'')))]"

definition failed_target :: "target \<Rightarrow> string \<Rightarrow> target" where
  "failed_target tg msg =
     tg\<lparr>tg_status := Failed, tg_reason := Some ''persistence_failed'', tg_error := Some msg\<rparr>"

text \<open>The \<open>try\<close> block of \<open>dispatchTarget\<close>: persist, then emit or queue.\<close>

definition hand_over :: "deps \<Rightarrow> jsval \<Rightarrow> jsval \<Rightarrow> target \<Rightarrow> target \<times> effect list" where
  "hand_over d dev envelope tg =
     (if is_device_online d dev then
        (case emit_to_device d dev envelope of
           Some e \<Rightarrow> (failed_target tg e, [])
         | None \<Rightarrow> (tg\<lparr>tg_delivered := True, tg_status := Delivered\<rparr>, [Emit dev envelope]))
      else
        (case queue_to_device d of
           None \<Rightarrow> (tg\<lparr>tg_queued := False, tg_status := Offline, tg_reason := Some ''offline''\<rparr>, [])
         | Some f \<Rightarrow> (case f dev envelope of
             Inl e \<Rightarrow> (failed_target tg e, [])
           | Inr r \<Rightarrow> (tg\<lparr>tg_queued := (r = JBool True),
                          tg_status := (if r = JBool True then InQueue else Offline),
                          tg_reason := Some ''offline''\<rparr>, [Enqueue dev envelope]))))"

definition deliver :: "deps \<Rightarrow> transaction \<Rightarrow> jsval \<Rightarrow> jsval \<Rightarrow> jsval \<Rightarrow> target \<Rightarrow> target \<times> effect list" where
  "deliver d t dev payload envelope tg =
     (let args = ingest_args d t dev payload envelope in
      case ingest d args of
        Inl e \<Rightarrow> (failed_target tg e, [])
      | Inr command \<Rightarrow>
          (let cid = (if truthy command \<and> truthy (fld command ''command_id'')
                      then fld command ''command_id'' else tg_command tg);
               tg' = tg\<lparr>tg_command := cid\<rparr>
           in if \<not> strict_eq cid (fld envelope ''command_id'')
              then (failed_target tg' ''Persisted command identity mismatch'', [Ingest args])
              else (case hand_over d dev envelope tg' of (tg'', es) \<Rightarrow> (tg'', Ingest args # es))))"

definition dispatch_target :: "deps \<Rightarrow> nat \<Rightarrow> jsval \<Rightarrow> role \<Rightarrow> jsval \<Rightarrow> coord \<Rightarrow> coord" where
  "dispatch_target d ref dev rl supplied s =
     (case map_of (txs s) ref of
        None \<Rightarrow> s
      | Some t \<Rightarrow>
          if map_of (tx_targets t) dev \<noteq> None then s
          else
            (let (cid, s1) = (if truthy supplied then (supplied, s)
                              else (case fresh_uuid d s of (u, s') \<Rightarrow> (JStr u, s')));
                 payload = target_payload d t dev rl;
                 envelope = create_cmd d (JObj [(''command_id'', cid), (''device_id'', dev),
                              (''target_scope'', JStr ''display''), (''payload'', payload)]);
                 tg0 = \<lparr>tg_device = dev, tg_role = rl, tg_command = fld envelope ''command_id'',
                        tg_delivered = False, tg_queued = False, tg_status = Pending,
                        tg_reason = None, tg_error = None\<rparr>
             in case deliver d t dev payload envelope tg0 of (tg, es) \<Rightarrow>
                s1\<lparr>txs := AList.update ref (t\<lparr>tx_targets := AList.update dev tg (tx_targets t)\<rparr>) (txs s1),
                   trace := trace s1 @ es\<rparr>))"

fun dispatch_all :: "deps \<Rightarrow> nat \<Rightarrow> string list \<Rightarrow> coord \<Rightarrow> coord" where
  "dispatch_all d ref [] s = s"
| "dispatch_all d ref (i # is) s =
     dispatch_all d ref is (dispatch_target d ref (JStr i) Physical JNull s)"

definition include_live_program :: "deps \<Rightarrow> nat \<Rightarrow> coord \<Rightarrow> coord" where
  "include_live_program d ref s =
     (case map_of (txs s) ref of
        None \<Rightarrow> s
      | Some t \<Rightarrow>
          if tx_live_considered t then s
          else
            (let s1 = s\<lparr>txs := AList.update ref (t\<lparr>tx_live_considered := True\<rparr>) (txs s)\<rparr>;
                 live = get_live_state d (tx_workspace t);
                 dev = JStr (to_str (fld live ''display_id''))
             in if \<not> truthy live \<or> fld live ''content_active'' \<noteq> JBool True
                   \<or> \<not> truthy (fld live ''display_id'') then s1
                else if map_of (tx_targets t) dev \<noteq> None then s1
                else dispatch_target d ref dev LiveProgram JNull s1))"

subsection \<open>Requests\<close>

fun check_devices :: "deps \<Rightarrow> string \<Rightarrow> string list \<Rightarrow> (string \<times> string) option" where
  "check_devices d ws [] = None"
| "check_devices d ws (i # is) =
     (let device = get_device d i in
      if \<not> truthy device then Some (''device_not_found'', i)
      else if to_str (js_or (fld device ''workspace_id'') (JStr [])) \<noteq> ws
        then Some (''workspace_mismatch'', i)
      else check_devices d ws is)"

definition normalized_ids :: "jsval \<Rightarrow> string list" where
  "normalized_ids v = dedup (map to_str (filter truthy (array_items v)))"

definition validate_physical_targets ::
  "deps \<Rightarrow> string \<Rightarrow> jsval \<Rightarrow> (string \<times> string option) + string list" where
  "validate_physical_targets d ws device_ids =
     (let ids = normalized_ids device_ids in
      if ws = [] then Inl (''missing_workspace_id'', None)
      else if ids = [] then Inl (''missing_device_ids'', None)
      else (case check_devices d ws ids of
              Some (e, i) \<Rightarrow> Inl (e, Some i)
            | None \<Rightarrow> Inr ids))"

datatype response =
    Invalid string "string option"       \<comment> \<open>error, offending device\<close>
  | Conflict string string               \<comment> \<open>transaction id, idempotency key\<close>
  | Snapshot bool transaction            \<comment> \<open>duplicate flag, the transaction as it stands\<close>

definition request_action :: "jsval \<Rightarrow> string" where
  "request_action request =
     action_text (js_or (fld request ''action'') (fld (fld request ''payload'') ''action''))"

definition tx_at :: "coord \<Rightarrow> nat \<Rightarrow> transaction option" where
  "tx_at s ref = map_of (txs s) ref"

definition snapshot_of :: "coord \<Rightarrow> nat \<Rightarrow> (transaction \<Rightarrow> bool) \<Rightarrow> response" where
  "snapshot_of s ref dup =
     (case tx_at s ref of Some t \<Rightarrow> Snapshot (dup t) t | None \<Rightarrow> Invalid ''unreachable'' None)"

definition dispatch :: "deps \<Rightarrow> int \<Rightarrow> jsval \<Rightarrow> coord \<Rightarrow> response \<times> coord" where
  "dispatch d now request s0 =
     (let s = sweep now s0; ws = text_of (fld request ''workspaceId'');
          action = request_action request
      in if action \<notin> set transport_actions then (Invalid ''invalid_transport_action'' None, s)
      else (case validate_physical_targets d ws (fld request ''deviceIds'') of
        Inl (e, dev) \<Rightarrow> (Invalid e dev, s)
      | Inr ids \<Rightarrow>
          (let (idem, s1) = (if truthy (fld request ''idempotencyKey'')
                             then (trim (to_str (fld request ''idempotencyKey'')), s)
                             else (case fresh_uuid d s of (u, s') \<Rightarrow> (trim u, s')));
               fp = FpDispatch ws (sort ids) action
                      (stable_payload_fingerprint (fld request ''payload''));
               key = (ws, idem)
           in case map_of (by_key s1) key of
                Some ref \<Rightarrow>
                  (case tx_at s1 ref of
                     None \<Rightarrow> (Invalid ''unreachable'' None, s1)
                   | Some t \<Rightarrow> if tx_fp t \<noteq> fp then (Conflict (tx_id t) idem, s1)
                               else (Snapshot True t, s1))
              | None \<Rightarrow>
                  (let ref = next_ref s1; (u, s2) = fresh_uuid d s1;
                       t = build_transaction d now request ws action ids idem fp u;
                       s3 = s2\<lparr>txs := AList.update ref t (txs s2), next_ref := Suc ref,
                               by_key := AList.update key ref (by_key s2)\<rparr>;
                       s4 = include_live_program d ref (dispatch_all d ref ids s3)
                   in (snapshot_of s4 ref (\<lambda>t. False), s4)))))"

definition shared_payload :: "jsval \<Rightarrow> (string \<times> jsval) list" where
  "shared_payload payload =
     del_field ''mirror_to_live_program'' (del_field ''transaction_target_count''
       (del_field ''idempotency_key'' (del_field ''transport_transaction_id''
         (del_field ''device_id'' (obj_fields payload)))))"

definition supplied_key :: "jsval \<Rightarrow> string" where
  "supplied_key request =
     text_of (js_or (fld (fld request ''payload'') ''transport_transaction_id'')
                    (fld (fld request ''payload'') ''idempotency_key''))"

definition legacy_key_of :: "deps \<Rightarrow> int \<Rightarrow> jsval \<Rightarrow> string \<Rightarrow> string \<Rightarrow> jsval \<Rightarrow> legacy_key" where
  "legacy_key_of d now request ws action pfp =
     (let issued = to_str (js_or (fld request ''issuedBy'') (JStr [])) in
      if supplied_key request \<noteq> [] then SuppliedKey ws issued (supplied_key request)
      else WindowKey ws issued action pfp (now div legacy_window d))"

definition legacy_duplicate :: "jsval \<Rightarrow> transaction \<Rightarrow> bool" where
  "legacy_duplicate dev t \<longleftrightarrow> map_of (tx_targets t) dev \<noteq> None \<and> 1 < length (tx_targets t)"

definition dispatch_legacy_target :: "deps \<Rightarrow> int \<Rightarrow> jsval \<Rightarrow> coord \<Rightarrow> response \<times> coord" where
  "dispatch_legacy_target d now request s0 =
     (let s = sweep now s0; ws = text_of (fld request ''workspaceId'');
          action = request_action request; dev = fld request ''deviceId''
      in if action \<notin> set transport_actions then (Invalid ''invalid_transport_action'' None, s)
      else (case validate_physical_targets d ws (JArr [dev]) of
        Inl (e, i) \<Rightarrow> (Invalid e i, s)
      | Inr ids \<Rightarrow>
          (let pfp = stable_payload_fingerprint (JObj (shared_payload (fld request ''payload'')));
               fp = FpLegacy ws action pfp;
               lkey = legacy_key_of d now request ws action pfp
           in case map_of (legacy s) lkey of
                Some ref \<Rightarrow>
                  (case tx_at s ref of
                     None \<Rightarrow> (Invalid ''unreachable'' None, s)
                   | Some t \<Rightarrow>
                       if tx_fp t \<noteq> fp then (Conflict (tx_id t) (tx_idem t), s)
                       else
                         (let s1 = dispatch_target d ref dev Physical (fld request ''commandId'') s;
                              s2 = (case tx_at s1 ref of None \<Rightarrow> s1 | Some t' \<Rightarrow>
                                s1\<lparr>txs := AList.update ref
                                     (t'\<lparr>tx_legacy_expires := now + legacy_window d\<rparr>) (txs s1)\<rparr>)
                          in (snapshot_of s2 ref (legacy_duplicate dev), s2)))
              | None \<Rightarrow>
                  (let (idem, s1) = (if supplied_key request \<noteq> [] then (supplied_key request, s)
                                     else (case fresh_uuid d s of (u, s') \<Rightarrow> (''legacy-'' @ u, s')));
                       ref = next_ref s1; (u, s2) = fresh_uuid d s1;
                       t = build_transaction d now request ws action ids idem fp u;
                       s3 = s2\<lparr>txs := AList.update ref t (txs s2), next_ref := Suc ref,
                               legacy := AList.update lkey ref (legacy s2),
                               by_key := AList.update (ws, idem) ref (by_key s2)\<rparr>;
                       s4 = include_live_program d ref
                              (dispatch_target d ref dev Physical (fld request ''commandId'') s3)
                   in (snapshot_of s4 ref (legacy_duplicate dev), s4)))))"

end
