(* ===== verification/TransportProps.thy ===== *)
theory TransportProps
  imports Transport
begin

text \<open>
  Facts about the transport coordinator: what a fan-out may change and emit (\<open>fan_out\<close>), the
  invariant of its maps (\<open>coord_ok\<close>), and the properties built on them.
\<close>

subsection \<open>A fan-out writes only the target list of its transaction\<close>

lemma payload_frame [simp]:
  "target_content (t\<lparr>tx_targets := T\<rparr>) st = target_content t st"
  "target_instance (t\<lparr>tx_targets := T\<rparr>) st = target_instance t st"
  "target_generation d (t\<lparr>tx_targets := T\<rparr>) st = target_generation d t st"
  "target_content (t\<lparr>tx_live_considered := b\<rparr>) st = target_content t st"
  "target_instance (t\<lparr>tx_live_considered := b\<rparr>) st = target_instance t st"
  "target_generation d (t\<lparr>tx_live_considered := b\<rparr>) st = target_generation d t st"
  by (simp_all add: target_content_def target_instance_def target_generation_def Let_def)

lemma policy_frame [simp]:
  "policy_matches (t\<lparr>tx_targets := T\<rparr>) i g = policy_matches t i g"
  "policy_matches (t\<lparr>tx_live_considered := b\<rparr>) i g = policy_matches t i g"
  "audio_allowed d (t\<lparr>tx_targets := T\<rparr>) dev rl = audio_allowed d t dev rl"
  "audio_allowed d (t\<lparr>tx_live_considered := b\<rparr>) dev rl = audio_allowed d t dev rl"
  by (simp_all add: policy_matches_def audio_allowed_def Let_def)

lemma target_payload_frame [simp]:
  "target_payload d (t\<lparr>tx_targets := T\<rparr>) dev rl = target_payload d t dev rl"
  "target_payload d (t\<lparr>tx_live_considered := b\<rparr>) dev rl = target_payload d t dev rl"
  by (simp_all add: target_payload_def Let_def)

text \<open>The command a target is addressed with, and the effects that may carry it.\<close>

definition envelope_for :: "deps \<Rightarrow> transaction \<Rightarrow> jsval \<Rightarrow> role \<Rightarrow> jsval \<Rightarrow> bool" where
  "envelope_for d t dev rl env \<longleftrightarrow>
     (\<exists>cid. env = create_cmd d (command_source cid dev (target_payload d t dev rl)))"

fun effect_ok :: "deps \<Rightarrow> transaction \<Rightarrow> jsval \<Rightarrow> role \<Rightarrow> effect \<Rightarrow> bool" where
  "effect_ok d t dev rl (Ingest a) =
     (fld a ''target_id'' = dev \<and> fld a ''payload'' = target_payload d t dev rl)"
| "effect_ok d t dev rl (Emit v env) = (v = dev \<and> envelope_for d t dev rl env)"
| "effect_ok d t dev rl (Enqueue v env) = (v = dev \<and> envelope_for d t dev rl env)"

lemma effect_ok_frame [simp]:
  "effect_ok d (t\<lparr>tx_targets := T\<rparr>) dev rl e = effect_ok d t dev rl e"
  "effect_ok d (t\<lparr>tx_live_considered := b\<rparr>) dev rl e = effect_ok d t dev rl e"
  by (cases e; simp add: envelope_for_def)+

fun is_send_to :: "jsval \<Rightarrow> effect \<Rightarrow> bool" where
  "is_send_to dev (Emit v env) = (v = dev)"
| "is_send_to dev (Enqueue v env) = (v = dev)"
| "is_send_to dev (Ingest a) = False"

definition sends :: "effect list \<Rightarrow> jsval \<Rightarrow> nat" where
  "sends es dev = length (filter (is_send_to dev) es)"

lemma sends_simps [simp]: "sends [] dev = 0" "sends (a @ b) dev = sends a dev + sends b dev"
  by (simp_all add: sends_def)

definition has_target :: "(jsval \<times> target) list \<Rightarrow> jsval \<Rightarrow> nat" where
  "has_target T dev = (if dev \<in> fst ` set T then 1 else 0)"

text \<open>
  \<open>fan_out d t A T T' es\<close>: going from targets \<open>T\<close> to \<open>T'\<close> with effects \<open>es\<close>, every effect is the
  command of transaction \<open>t\<close> for an addressee in \<open>A\<close>, and a device is sent to at most once, never
  when it already is a target.
\<close>

definition fan_out ::
  "deps \<Rightarrow> transaction \<Rightarrow> (jsval \<times> role) set \<Rightarrow> (jsval \<times> target) list \<Rightarrow> (jsval \<times> target) list
   \<Rightarrow> effect list \<Rightarrow> bool" where
  "fan_out d t A T T' es \<longleftrightarrow>
     (\<forall>e \<in> set es. \<exists>(dev, rl) \<in> A. effect_ok d t dev rl e)
     \<and> (\<forall>dev. sends es dev + has_target T dev \<le> has_target T' dev)
     \<and> fst ` set T' \<subseteq> fst ` set T \<union> fst ` A"

lemma envelope_forI:
  "envelope_for d t dev rl (create_cmd d (command_source cid dev (target_payload d t dev rl)))"
  by (auto simp: envelope_for_def)

lemma fan_out_frame [simp]:
  "fan_out d (t\<lparr>tx_targets := U\<rparr>) A T T' es = fan_out d t A T T' es"
  "fan_out d (t\<lparr>tx_live_considered := b\<rparr>) A T T' es = fan_out d t A T T' es"
  by (simp_all add: fan_out_def)

lemma fan_out_refl: "fan_out d t A T T []"
  by (simp add: fan_out_def)

lemma fan_out_trans:
  assumes "fan_out d t A T T' es" and "fan_out d t B T' T'' fs"
  shows "fan_out d t (A \<union> B) T T'' (es @ fs)"
  unfolding fan_out_def
proof (intro conjI allI ballI)
  fix e assume "e \<in> set (es @ fs)"
  then show "\<exists>(dev, rl) \<in> A \<union> B. effect_ok d t dev rl e"
    using assms by (auto simp: fan_out_def bex_Un)
next
  fix dev
  have "sends es dev + has_target T dev \<le> has_target T' dev"
    and "sends fs dev + has_target T' dev \<le> has_target T'' dev"
    using assms by (simp_all add: fan_out_def)
  then show "sends (es @ fs) dev + has_target T dev \<le> has_target T'' dev" by simp
next
  have "fst ` set T' \<subseteq> fst ` set T \<union> fst ` A" and "fst ` set T'' \<subseteq> fst ` set T' \<union> fst ` B"
    using assms by (simp_all add: fan_out_def)
  then have "fst ` set T'' \<subseteq> (fst ` set T \<union> fst ` A) \<union> fst ` B"
    by (rule order_trans [OF _ Un_mono [OF _ order_refl], rotated])
  then show "fst ` set T'' \<subseteq> fst ` set T \<union> fst ` (A \<union> B)"
    by (simp only: image_Un Un_assoc)
qed

lemma keys_update: "fst ` set (AList.update k v m) = insert k (fst ` set m)"
  by (simp add: dom_update)

text \<open>One delivery: at most one persisted row, at most one send, both for this device.\<close>

lemma hand_over_effects:
  "hand_over d dev env tg = (tg', es) \<Longrightarrow> es = [] \<or> es = [Emit dev env] \<or> es = [Enqueue dev env]"
  by (auto simp: hand_over_def split: if_splits option.splits sum.splits)

lemma deliver_effects:
  assumes "deliver d t dev payload env tg = (tg', es)"
  shows "es = [] \<or> (\<exists>fs. es = Ingest (ingest_args d t dev payload env) # fs
           \<and> (fs = [] \<or> fs = [Emit dev env] \<or> fs = [Enqueue dev env]))"
  using assms hand_over_effects
  by (auto simp: deliver_def Let_def split: sum.splits if_splits prod.splits)

lemma ingest_args_fields [simp]:
  "fld (ingest_args d t dev payload env) ''target_id'' = dev"
  "fld (ingest_args d t dev payload env) ''payload'' = payload"
  by (simp_all add: ingest_args_def)

text \<open>What one call of \<open>dispatchTarget\<close> does to the state.\<close>

lemma dispatch_target_spec:
  assumes t: "map_of (txs s) ref = Some t"
  shows "\<exists>T' es n. dispatch_target d ref dev rl scid s =
           s\<lparr>txs := AList.update ref (t\<lparr>tx_targets := T'\<rparr>) (txs s), uuids_used := n,
             trace := trace s @ es\<rparr>
         \<and> fan_out d t {(dev, rl)} (tx_targets t) T' es"
proof (cases "map_of (tx_targets t) dev")
  case (Some tg)
  then have "dispatch_target d ref dev rl scid s = s" by (simp add: dispatch_target_def t)
  moreover have "AList.update ref (t\<lparr>tx_targets := tx_targets t\<rparr>) (txs s) = txs s"
    using t by (simp add: update_triv)
  ultimately show ?thesis
    using fan_out_refl [of d t "{(dev, rl)}" "tx_targets t"]
    by (intro exI [of _ "tx_targets t"] exI [of _ "[]"] exI [of _ "uuids_used s"]) simp
next
  case None
  let ?fresh = "if truthy scid then (scid, s) else (case fresh_uuid d s of (u, s') \<Rightarrow> (JStr u, s'))"
  obtain cid s1 where f: "?fresh = (cid, s1)" by (cases ?fresh) auto
  then have s1: "s1 = s\<lparr>uuids_used := uuids_used s1\<rparr>"
    by (auto simp: fresh_uuid_def split: if_splits)
  let ?env = "create_cmd d (command_source cid dev (target_payload d t dev rl))"
  let ?tg = "\<lparr>tg_device = dev, tg_role = rl, tg_command = fld ?env ''command_id'',
     tg_delivered = False, tg_queued = False, tg_status = Pending, tg_reason = None, tg_error = None\<rparr>"
  obtain tg es where dl: "deliver d t dev (target_payload d t dev rl) ?env ?tg = (tg, es)"
    by (cases "deliver d t dev (target_payload d t dev rl) ?env ?tg")
  let ?T = "AList.update dev tg (tx_targets t)"
  have eq: "dispatch_target d ref dev rl scid s =
      s1\<lparr>txs := AList.update ref (t\<lparr>tx_targets := ?T\<rparr>) (txs s1), trace := trace s1 @ es\<rparr>"
    using None f dl by (simp add: dispatch_target_def t command_source_def Let_def)
  then have "dispatch_target d ref dev rl scid s =
      s\<lparr>txs := AList.update ref (t\<lparr>tx_targets := ?T\<rparr>) (txs s), uuids_used := uuids_used s1,
        trace := trace s @ es\<rparr>"
    by (subst eq, subst (1 2 3) s1) simp
  moreover have "fan_out d t {(dev, rl)} (tx_targets t) ?T es"
  proof -
    from None have "dev \<notin> fst ` set (tx_targets t)" by (simp add: map_of_eq_None_iff)
    with deliver_effects [OF dl] show ?thesis
      by (elim disjE exE conjE) (simp_all add: fan_out_def keys_update sends_def has_target_def envelope_forI)
  qed
  ultimately show ?thesis by blast
qed

lemma update_update_same: "AList.update k v (AList.update k w m) = AList.update k v m"
  by (induction m) auto

lemma dispatch_all_spec:
  assumes "map_of (txs s) ref = Some t"
  shows "\<exists>T' es n. dispatch_all d ref ids s =
           s\<lparr>txs := AList.update ref (t\<lparr>tx_targets := T'\<rparr>) (txs s), uuids_used := n,
             trace := trace s @ es\<rparr>
         \<and> fan_out d t ((\<lambda>i. (JStr i, Physical)) ` set ids) (tx_targets t) T' es"
  using assms
proof (induction ids arbitrary: s t)
  case Nil
  have "AList.update ref (t\<lparr>tx_targets := tx_targets t\<rparr>) (txs s) = txs s"
    using Nil by (simp add: update_triv)
  then show ?case
    using fan_out_refl [of d t "{}" "tx_targets t"]
    by (intro exI [of _ "tx_targets t"] exI [of _ "[]"] exI [of _ "uuids_used s"]) simp
next
  case (Cons i ids)
  from dispatch_target_spec [OF Cons.prems, of d "JStr i" Physical JNull]
  obtain T1 es n where
    eq: "dispatch_target d ref (JStr i) Physical JNull s =
           s\<lparr>txs := AList.update ref (t\<lparr>tx_targets := T1\<rparr>) (txs s), uuids_used := n,
             trace := trace s @ es\<rparr>" (is "_ = ?s1")
    and fo: "fan_out d t {(JStr i, Physical)} (tx_targets t) T1 es" by blast
  have "map_of (txs ?s1) ref = Some (t\<lparr>tx_targets := T1\<rparr>)" by (simp add: update_conv')
  from Cons.IH [OF this] obtain T2 fs m where
    eq2: "dispatch_all d ref ids ?s1 =
           ?s1\<lparr>txs := AList.update ref (t\<lparr>tx_targets := T1\<rparr>\<lparr>tx_targets := T2\<rparr>) (txs ?s1),
             uuids_used := m, trace := trace ?s1 @ fs\<rparr>"
    and fo2: "fan_out d (t\<lparr>tx_targets := T1\<rparr>) ((\<lambda>i. (JStr i, Physical)) ` set ids)
                (tx_targets (t\<lparr>tx_targets := T1\<rparr>)) T2 fs"
    by blast
  have "fan_out d t ((\<lambda>i. (JStr i, Physical)) ` set ids) T1 T2 fs"
    using fo2 by (simp add: fan_out_frame)
  from fan_out_trans [OF fo this]
  have "fan_out d t ((\<lambda>i. (JStr i, Physical)) ` set (i # ids)) (tx_targets t) T2 (es @ fs)"
    by simp
  moreover have "dispatch_all d ref (i # ids) s =
      s\<lparr>txs := AList.update ref (t\<lparr>tx_targets := T2\<rparr>) (txs s), uuids_used := m,
        trace := trace s @ (es @ fs)\<rparr>"
    using eq eq2 by (simp add: update_update_same)
  ultimately show ?case by blast
qed

subsection \<open>Adding the live program\<close>

definition live_addressee :: "deps \<Rightarrow> string \<Rightarrow> (jsval \<times> role) set" where
  "live_addressee d ws =
     (let live = get_live_state d ws in
      if truthy live \<and> fld live ''content_active'' = JBool True \<and> truthy (fld live ''display_id'')
      then {(JStr (to_str (fld live ''display_id'')), LiveProgram)} else {})"

lemma fan_out_mono: "fan_out d t A T T' es \<Longrightarrow> A \<subseteq> B \<Longrightarrow> fan_out d t B T T' es"
  unfolding fan_out_def
proof (elim conjE, intro conjI)
  assume eff: "\<forall>e \<in> set es. \<exists>(dev, rl) \<in> A. effect_ok d t dev rl e"
    and keys: "fst ` set T' \<subseteq> fst ` set T \<union> fst ` A" and sub: "A \<subseteq> B"
  from eff sub show "\<forall>e \<in> set es. \<exists>(dev, rl) \<in> B. effect_ok d t dev rl e" by (meson subsetD)
  from image_mono [OF sub, of fst]
  show "fst ` set T' \<subseteq> fst ` set T \<union> fst ` B" by (rule order_trans [OF keys Un_mono [OF order_refl]])
qed

lemma tx_update_commute:
  "t\<lparr>tx_live_considered := b, tx_targets := T\<rparr> = t\<lparr>tx_targets := T, tx_live_considered := b\<rparr>"
  by simp

lemma include_live_program_spec:
  assumes t: "map_of (txs s) ref = Some t"
  shows "\<exists>T' es n b. include_live_program d ref s =
           s\<lparr>txs := AList.update ref (t\<lparr>tx_targets := T', tx_live_considered := b\<rparr>) (txs s),
             uuids_used := n, trace := trace s @ es\<rparr>
         \<and> fan_out d t (live_addressee d (tx_workspace t)) (tx_targets t) T' es"
proof -
  let ?live = "get_live_state d (tx_workspace t)"
  let ?dev = "JStr (to_str (fld ?live ''display_id''))"
  let ?t1 = "t\<lparr>tx_live_considered := True\<rparr>"
  let ?s1 = "s\<lparr>txs := AList.update ref ?t1 (txs s)\<rparr>"
  have unchanged: "s = s\<lparr>txs := AList.update ref (t\<lparr>tx_targets := tx_targets t,
      tx_live_considered := tx_live_considered t\<rparr>) (txs s), uuids_used := uuids_used s,
      trace := trace s @ []\<rparr>"
    using t by (simp add: update_triv)
  have marked: "?s1 = s\<lparr>txs := AList.update ref (t\<lparr>tx_targets := tx_targets t,
      tx_live_considered := True\<rparr>) (txs s), uuids_used := uuids_used s, trace := trace s @ []\<rparr>"
    by simp
  note no_fan_out = fan_out_mono [OF fan_out_refl [of d t "{}" "tx_targets t"] empty_subsetI]
  show ?thesis
  proof (cases "\<not> tx_live_considered t \<and> truthy ?live \<and> fld ?live ''content_active'' = JBool True
      \<and> truthy (fld ?live ''display_id'') \<and> map_of (tx_targets t) ?dev = None")
    case True
    then have eq: "include_live_program d ref s = dispatch_target d ref ?dev LiveProgram JNull ?s1"
      by (simp add: include_live_program_def t Let_def)
    have "map_of (txs ?s1) ref = Some ?t1" by (simp add: update_conv')
    from dispatch_target_spec [OF this, of d ?dev LiveProgram JNull] obtain T' es n where
      st: "dispatch_target d ref ?dev LiveProgram JNull ?s1 =
        ?s1\<lparr>txs := AList.update ref (?t1\<lparr>tx_targets := T'\<rparr>) (txs ?s1), uuids_used := n,
            trace := trace ?s1 @ es\<rparr>"
      and fo: "fan_out d ?t1 {(?dev, LiveProgram)} (tx_targets ?t1) T' es" by blast
    from True have "live_addressee d (tx_workspace t) = {(?dev, LiveProgram)}"
      by (simp add: live_addressee_def Let_def)
    with fo have "fan_out d t (live_addressee d (tx_workspace t)) (tx_targets t) T' es" by simp
    moreover have "include_live_program d ref s =
        s\<lparr>txs := AList.update ref (t\<lparr>tx_targets := T', tx_live_considered := True\<rparr>) (txs s),
          uuids_used := n, trace := trace s @ es\<rparr>"
      unfolding eq st by (simp add: update_update_same tx_update_commute)
    ultimately show ?thesis by blast
  next
    case False
    then have "include_live_program d ref s = s \<or> include_live_program d ref s = ?s1"
      unfolding include_live_program_def t Let_def option.case by (simp split: if_split) auto
    then show ?thesis
    proof
      assume "include_live_program d ref s = s"
      from conjI [OF trans [OF this unchanged] no_fan_out] show ?thesis by (intro exI)
    next
      assume "include_live_program d ref s = ?s1"
      from conjI [OF trans [OF this marked] no_fan_out] show ?thesis by (intro exI)
    qed
  qed
qed

subsection \<open>A whole dispatch\<close>

lemma sweep_frame [simp]:
  "txs (sweep tm s) = txs s" "trace (sweep tm s) = trace s" "next_ref (sweep tm s) = next_ref s"
  "uuids_used (sweep tm s) = uuids_used s"
  by (simp_all add: sweep_def)

text \<open>The addressees of a dispatch: the validated displays, and the live program when it shows content.\<close>

definition addressees :: "deps \<Rightarrow> string \<Rightarrow> string list \<Rightarrow> (jsval \<times> role) set" where
  "addressees d ws ids = (\<lambda>i. (JStr i, Physical)) ` set ids \<union> live_addressee d ws"

text \<open>The transaction a new dispatch starts from, and its key.\<close>

definition fresh_transaction :: "deps \<Rightarrow> int \<Rightarrow> jsval \<Rightarrow> string list \<Rightarrow> string \<Rightarrow> string \<Rightarrow> transaction" where
  "fresh_transaction d now request ids idem u =
     build_transaction d now request (text_of (fld request ''workspaceId'')) (request_action request)
       ids idem (FpDispatch (text_of (fld request ''workspaceId'')) (sort ids) (request_action request)
                   (stable_payload_fingerprint (fld request ''payload''))) u"

lemma build_transaction_fields [simp]:
  "tx_targets (build_transaction d now rq ws a ids idem fp u) = []"
  "tx_workspace (build_transaction d now rq ws a ids idem fp u) = ws"
  "tx_idem (build_transaction d now rq ws a ids idem fp u) = idem"
  "tx_fp (build_transaction d now rq ws a ids idem fp u) = fp"
  "tx_expires (build_transaction d now rq ws a ids idem fp u) = now + idempotency_ttl d"
  "tx_legacy_expires (build_transaction d now rq ws a ids idem fp u) = now + legacy_window d"
  by (simp_all add: build_transaction_def split: prod.splits)

text \<open>Running the fan-out of a transaction that has just been stored.\<close>

lemma run_fan_out:
  assumes t: "map_of (txs s) ref = Some t" and T: "tx_targets t = []"
  shows "\<exists>T' es n b. include_live_program d ref (dispatch_all d ref ids s) =
           s\<lparr>txs := AList.update ref (t\<lparr>tx_targets := T', tx_live_considered := b\<rparr>) (txs s),
             uuids_used := n, trace := trace s @ es\<rparr>
         \<and> fan_out d t (addressees d (tx_workspace t) ids) [] T' es"
proof -
  from dispatch_all_spec [OF t, of d ids] obtain T1 es n where
    eq: "dispatch_all d ref ids s =
           s\<lparr>txs := AList.update ref (t\<lparr>tx_targets := T1\<rparr>) (txs s), uuids_used := n,
             trace := trace s @ es\<rparr>" (is "_ = ?s1")
    and fo: "fan_out d t ((\<lambda>i. (JStr i, Physical)) ` set ids) (tx_targets t) T1 es" by blast
  have "map_of (txs ?s1) ref = Some (t\<lparr>tx_targets := T1\<rparr>)" by (simp add: update_conv')
  from include_live_program_spec [OF this, of d] obtain T2 fs m b where
    eq2: "include_live_program d ref ?s1 =
           ?s1\<lparr>txs := AList.update ref (t\<lparr>tx_targets := T1\<rparr>\<lparr>tx_targets := T2, tx_live_considered := b\<rparr>)
                 (txs ?s1), uuids_used := m, trace := trace ?s1 @ fs\<rparr>"
    and fo2: "fan_out d (t\<lparr>tx_targets := T1\<rparr>) (live_addressee d (tx_workspace (t\<lparr>tx_targets := T1\<rparr>)))
                (tx_targets (t\<lparr>tx_targets := T1\<rparr>)) T2 fs" by blast
  have "fan_out d t (live_addressee d (tx_workspace t)) T1 T2 fs" using fo2 by simp
  from fan_out_trans [OF fo this] T
  have "fan_out d t (addressees d (tx_workspace t) ids) [] T2 (es @ fs)"
    by (simp add: addressees_def)
  moreover have "include_live_program d ref (dispatch_all d ref ids s) =
      s\<lparr>txs := AList.update ref (t\<lparr>tx_targets := T2, tx_live_considered := b\<rparr>) (txs s),
        uuids_used := m, trace := trace s @ (es @ fs)\<rparr>"
    unfolding eq eq2 by (simp add: update_update_same)
  ultimately show ?thesis by blast
qed

text \<open>
  Every dispatch either leaves the trace alone, or is the first for its key and then is the
  fan-out of a transaction built from the request.
\<close>

definition ran :: "deps \<Rightarrow> int \<Rightarrow> jsval \<Rightarrow> coord \<Rightarrow> coord \<Rightarrow> transaction \<Rightarrow> bool" where
  "ran d now request s0 s t \<longleftrightarrow>
     (\<exists>ids idem u es ref b.
        validate_physical_targets d (text_of (fld request ''workspaceId'')) (fld request ''deviceIds'') = Inr ids
        \<and> request_action request \<in> set transport_actions
        \<and> (truthy (fld request ''idempotencyKey'') \<longrightarrow> idem = trim (to_str (fld request ''idempotencyKey'')))
        \<and> t = (fresh_transaction d now request ids idem u)\<lparr>tx_targets := tx_targets t, tx_live_considered := b\<rparr>
        \<and> trace s = trace s0 @ es
        \<and> fan_out d t (addressees d (text_of (fld request ''workspaceId'')) ids) [] (tx_targets t) es
        \<and> map_of (txs s) ref = Some t
        \<and> by_key s = AList.update (text_of (fld request ''workspaceId''), idem) ref (by_key (sweep now s0)))"

lemma fresh_uuid_frame:
  "fresh_uuid d s = (u, s') \<Longrightarrow> s' = s\<lparr>uuids_used := Suc (uuids_used s)\<rparr>"
  by (auto simp: fresh_uuid_def)

definition keyed_state :: "deps \<Rightarrow> jsval \<Rightarrow> coord \<Rightarrow> string \<times> coord" where
  "keyed_state d request s =
     (if truthy (fld request ''idempotencyKey'')
      then (trim (to_str (fld request ''idempotencyKey'')), s)
      else (case fresh_uuid d s of (u, s') \<Rightarrow> (trim u, s')))"

lemma keyed_state_frame:
  assumes "keyed_state d request s = (idem, s1)"
  shows "trace s1 = trace s" "by_key s1 = by_key s" "txs s1 = txs s"
    and "truthy (fld request ''idempotencyKey'') \<longrightarrow> idem = trim (to_str (fld request ''idempotencyKey''))"
  using assms by (auto simp: keyed_state_def fresh_uuid_def split: if_splits)

lemma dispatch_new:
  fixes request
  defines "ws \<equiv> text_of (fld request ''workspaceId'')"
  assumes act: "request_action request \<in> set transport_actions"
    and ids: "validate_physical_targets d ws (fld request ''deviceIds'') = Inr ids"
    and k: "keyed_state d request (sweep now s0) = (idem, s1)"
    and new: "map_of (by_key s1) (ws, idem) = None"
  shows "\<exists>t s. dispatch d now request s0 = (Snapshot False t, s) \<and> ran d now request s0 s t"
proof -
  let ?ref = "next_ref s1"
  obtain u s2 where u: "fresh_uuid d s1 = (u, s2)" by (cases "fresh_uuid d s1")
  let ?t = "fresh_transaction d now request ids idem u"
  let ?s3 = "s2\<lparr>txs := AList.update ?ref ?t (txs s2), next_ref := Suc ?ref,
     by_key := AList.update (ws, idem) ?ref (by_key s2)\<rparr>"
  have "map_of (txs ?s3) ?ref = Some ?t" by (simp add: update_conv')
  from run_fan_out [OF this, of d ids] obtain T' es n b where
    eq: "include_live_program d ?ref (dispatch_all d ?ref ids ?s3) =
      ?s3\<lparr>txs := AList.update ?ref (?t\<lparr>tx_targets := T', tx_live_considered := b\<rparr>) (txs ?s3),
         uuids_used := n, trace := trace ?s3 @ es\<rparr>" (is "_ = ?s4")
    and fo: "fan_out d ?t (addressees d (tx_workspace ?t) ids) [] T' es"
    by (auto simp: fresh_transaction_def)
  let ?t4 = "?t\<lparr>tx_targets := T', tx_live_considered := b\<rparr>"
  have "dispatch d now request s0 = (snapshot_of ?s4 ?ref (\<lambda>t. False), ?s4)"
    using act ids k new u eq
    by (simp add: dispatch_def Let_def fresh_transaction_def keyed_state_def ws_def)
  then have eq4: "dispatch d now request s0 = (Snapshot False ?t4, ?s4)"
    by (simp add: snapshot_of_def tx_at_def update_conv')
  have "trace s2 = trace s0" and "by_key s2 = by_key (sweep now s0)"
    using fresh_uuid_frame [OF u] keyed_state_frame [OF k] by simp_all
  then have "ran d now request s0 ?s4 ?t4"
    unfolding ran_def
    by (intro exI [of _ ids] exI [of _ idem] exI [of _ u] exI [of _ es] exI [of _ ?ref] exI [of _ b])
       (use ids act keyed_state_frame(4) [OF k] fo in
         \<open>simp add: update_conv' fresh_transaction_def ws_def\<close>)
  with eq4 show ?thesis by blast
qed

text \<open>The three ways a dispatch ends without being new.\<close>

lemma dispatch_old:
  fixes request
  defines "ws \<equiv> text_of (fld request ''workspaceId'')"
  assumes "request_action request \<notin> set transport_actions
     \<or> (\<exists>e. validate_physical_targets d ws (fld request ''deviceIds'') = Inl e)
     \<or> (\<exists>idem s1 ref. keyed_state d request (sweep now s0) = (idem, s1)
          \<and> map_of (by_key s1) (ws, idem) = Some ref)"
    and "dispatch d now request s0 = (resp, s)"
  shows "trace s = trace s0 \<and> (\<forall>t. resp \<noteq> Snapshot False t)"
  using assms
  by (auto simp: dispatch_def Let_def keyed_state_def fresh_uuid_def
      split: if_splits sum.splits option.splits prod.splits)

lemma dispatch_split:
  assumes "dispatch d now request s0 = (resp, s)"
  shows "(\<exists>t. resp = Snapshot False t \<and> ran d now request s0 s t)
     \<or> (trace s = trace s0 \<and> (\<forall>t. resp \<noteq> Snapshot False t))"
proof -
  let ?ws = "text_of (fld request ''workspaceId'')"
  obtain idem s1 where k: "keyed_state d request (sweep now s0) = (idem, s1)"
    by (cases "keyed_state d request (sweep now s0)")
  show ?thesis
  proof (cases "request_action request \<in> set transport_actions
      \<and> (\<exists>ids. validate_physical_targets d ?ws (fld request ''deviceIds'') = Inr ids)
      \<and> map_of (by_key s1) (?ws, idem) = None")
    case True
    then show ?thesis using dispatch_new [OF _ _ k] assms by fastforce
  next
    case False
    then have "request_action request \<notin> set transport_actions
      \<or> (\<exists>e. validate_physical_targets d ?ws (fld request ''deviceIds'') = Inl e)
      \<or> (\<exists>idem s1 ref. keyed_state d request (sweep now s0) = (idem, s1)
          \<and> map_of (by_key s1) (?ws, idem) = Some ref)"
      using k by (cases "validate_physical_targets d ?ws (fld request ''deviceIds'')") auto
    from dispatch_old [OF this assms] show ?thesis by blast
  qed
qed

subsection \<open>What a sent command says\<close>

lemma map_of_rev_snoc: "map_of (rev (xs @ [(k, v)])) k = Some v"
  by simp

lemma fld_merge:
  "fld (JObj (merge_fields a b)) k = (if has_own (JObj (rev b)) k then fld (JObj (rev b)) k else fld (JObj a) k)"
  by (auto simp: fld_def has_own_def map_of_merge_fields split: option.splits)

lemma has_own_append [simp]:
  "has_own (JObj (a @ b)) k \<longleftrightarrow> has_own (JObj a) k \<or> has_own (JObj b) k"
  by (auto simp: has_own_def map_add_def split: option.splits)

lemma target_payload_audio [simp]:
  "fld (target_payload d t dev rl) ''audio_allowed'' = JBool (audio_allowed d t dev rl)"
  "fld (target_payload d t dev rl) ''force_muted'' = JBool (\<not> audio_allowed d t dev rl)"
  by (simp_all add: target_payload_def Let_def fld_merge fld_append)

lemma target_payload_action [simp]:
  "fld (target_payload d t dev rl) ''action'' = JStr (tx_action t)"
  by (simp add: target_payload_def Let_def fld_merge fld_append when_present_def)

text \<open>The fields a coordinator adds never shadow the arguments of an action.\<close>

lemma has_own_if [simp]:
  "has_own (JObj (if c then xs else [])) k \<longleftrightarrow> c \<and> has_own (JObj xs) k"
  "has_own (JObj (when_present k' v)) k \<longleftrightarrow> is_present v \<and> k = k'"
  by (auto simp: when_present_def)

lemma fld_merge_other: "\<not> has_own (JObj b) k \<Longrightarrow> fld (JObj (merge_fields a b)) k = fld (JObj a) k"
  by (rule fld_merge_keep) (simp add: has_own_def map_of_eq_None_iff)

lemma target_payload_other [simp]:
  "k \<notin> set [''action'', ''device_id'', ''workspace_id'', ''transport_transaction_id'', ''idempotency_key'',
      ''room_id'', ''content_id'', ''content_instance_id'', ''expected_revision'', ''expected_generation'',
      ''audio_authority_device_id'', ''audio_allowed'', ''force_muted'', ''audio_policy_transaction_id'',
      ''audio_policy_revision'', ''audio_policy_content_instance_id'', ''audio_policy_generation'',
      ''audio_policy_mismatch'', ''audio_policy_conflict''] \<Longrightarrow>
   fld (target_payload d t dev rl) k = fld (JObj (tx_payload t)) k"
  unfolding target_payload_def Let_def
  by (rule fld_merge_other) (simp split del: if_split)

lemma target_payload_obj: "\<exists>p. target_payload d t dev rl = JObj p"
  by (simp add: target_payload_def Let_def)

lemma action_args_target_payload [simp]:
  "action_args_ok a (target_payload d t dev rl) = action_args_ok a (JObj (tx_payload t))"
  by (simp add: action_args_ok_def valid_slide_def slide_of_def valid_seek_def seek_seconds_def
      seek_normalized_def seek_percent_def valid_volume_def volume_level_def)

context command_factory begin

lemma sent_payload:
  assumes "create_cmd d = create" and "envelope_for d t dev rl env" and "k \<noteq> ''action''"
  shows "fld (fld env ''payload'') k = fld (target_payload d t dev rl) k"
  using assms keeps_payload target_payload_obj [of d t dev rl]
  by (auto simp: envelope_for_def)

lemma sent_accepted:
  assumes "create_cmd d = create" and "envelope_for d t (JStr i) rl env" and "host_ok"
    and "trim i = i" "i \<noteq> []" and "trim (tx_action t) = tx_action t" "tx_action t \<noteq> []"
    and "action_args_ok (tx_action t) (JObj (tx_payload t))"
  shows "accepts env"
proof -
  obtain p where p: "target_payload d t (JStr i) rl = JObj p" using target_payload_obj by blast
  obtain cid where "env = create (command_source cid (JStr i) (JObj p))"
    using assms(1,2) by (auto simp: envelope_for_def p)
  moreover have "fld (JObj p) ''action'' = JStr (tx_action t)"
    using target_payload_action [of d t "JStr i" rl] by (simp add: p)
  moreover have "action_args_ok (tx_action t) (JObj p)"
    using assms(8) action_args_target_payload [of "tx_action t" d t "JStr i" rl] by (simp add: p)
  ultimately show ?thesis using assms by (simp add: accepts_display)
qed

end

subsection \<open>Properties of a dispatch\<close>

definition new_effects :: "coord \<Rightarrow> coord \<Rightarrow> effect list" where
  "new_effects s0 s = drop (length (trace s0)) (trace s)"

fun effect_device :: "effect \<Rightarrow> jsval" where
  "effect_device (Ingest a) = fld a ''target_id''"
| "effect_device (Emit dev env) = dev"
| "effect_device (Enqueue dev env) = dev"

text \<open>The device a sent command allows to sound.\<close>

fun sounding :: "effect \<Rightarrow> jsval option" where
  "sounding (Ingest a) = None"
| "sounding (Emit dev env) =
     (if fld (fld env ''payload'') ''audio_allowed'' = JBool True then Some dev else None)"
| "sounding (Enqueue dev env) =
     (if fld (fld env ''payload'') ''audio_allowed'' = JBool True then Some dev else None)"

lemma new_effects_cases:
  assumes "dispatch d now request s0 = (resp, s)" and "e \<in> set (new_effects s0 s)"
  obtains t ids dev rl where
    "validate_physical_targets d (text_of (fld request ''workspaceId'')) (fld request ''deviceIds'') = Inr ids"
    "resp = Snapshot False t" "(dev, rl) \<in> addressees d (text_of (fld request ''workspaceId'')) ids"
    "effect_ok d t dev rl e"
proof -
  from assms(2) have "trace s \<noteq> trace s0" by (auto simp: new_effects_def)
  with dispatch_split [OF assms(1)] obtain t where t: "resp = Snapshot False t" "ran d now request s0 s t"
    by blast
  then obtain ids es where
    v: "validate_physical_targets d (text_of (fld request ''workspaceId'')) (fld request ''deviceIds'') = Inr ids"
    and tr: "trace s = trace s0 @ es"
    and fo: "fan_out d t (addressees d (text_of (fld request ''workspaceId'')) ids) [] (tx_targets t) es"
    by (auto simp: ran_def)
  from tr assms(2) have "e \<in> set es" by (simp add: new_effects_def)
  with fo obtain dev rl where "(dev, rl) \<in> addressees d (text_of (fld request ''workspaceId'')) ids"
    "effect_ok d t dev rl e" by (auto simp: fan_out_def)
  with v t(1) show ?thesis by (rule that)
qed

lemma sent_effect:
  assumes "effect_ok d t dev rl e" and "sounding e = Some x"
  shows "\<exists>env. envelope_for d t dev rl env \<and> x = dev
     \<and> fld (fld env ''payload'') ''audio_allowed'' = JBool True"
proof (cases e)
  case (Ingest a)
  with assms(2) show ?thesis by simp
next
  case (Emit v env)
  with assms(2) have "v = x" "fld (fld env ''payload'') ''audio_allowed'' = JBool True"
    by (simp_all split: if_splits)
  with assms(1) Emit show ?thesis by auto
next
  case (Enqueue v env)
  with assms(2) have "v = x" "fld (fld env ''payload'') ''audio_allowed'' = JBool True"
    by (simp_all split: if_splits)
  with assms(1) Enqueue show ?thesis by auto
qed

context command_factory begin

lemma sounding_authority:
  assumes "create_cmd d = create" and "effect_ok d t dev rl e" and "sounding e = Some x"
  shows "x = tx_authority t \<and> x = dev"
proof -
  have "\<exists>env. envelope_for d t dev rl env \<and> x = dev
      \<and> fld (fld env ''payload'') ''audio_allowed'' = JBool True"
    using assms(2,3) by (rule sent_effect)
  then obtain env where env: "envelope_for d t dev rl env" "x = dev"
      "fld (fld env ''payload'') ''audio_allowed'' = JBool True" by blast
  have "fld (fld env ''payload'') ''audio_allowed'' = fld (target_payload d t dev rl) ''audio_allowed''"
    by (rule sent_payload [OF assms(1) env(1)]) simp
  with env(3) have "audio_allowed d t dev rl" by (simp only: target_payload_audio jsval.inject)
  with env(2) show ?thesis by (simp add: audio_allowed_def strict_eq_def Let_def)
qed

end

lemma check_devices_None:
  "check_devices d ws ids = None \<Longrightarrow> i \<in> set ids \<Longrightarrow>
   truthy (get_device d i) \<and> to_str (js_or (fld (get_device d i) ''workspace_id'') (JStr [])) = ws"
proof (induction ids)
  case (Cons j ids)
  then have "truthy (get_device d j)
      \<and> to_str (js_or (fld (get_device d j) ''workspace_id'') (JStr [])) = ws
      \<and> check_devices d ws ids = None"
    by (simp add: Let_def split: if_splits)
  with Cons show ?case by (cases "i = j") simp_all
qed simp

lemma validate_physical_targets_Inr:
  assumes "validate_physical_targets d ws v = Inr ids"
  shows "ws \<noteq> []" "ids = normalized_ids v" "ids \<noteq> []" "distinct ids"
    and "i \<in> set ids \<Longrightarrow> truthy (get_device d i)
           \<and> to_str (js_or (fld (get_device d i) ''workspace_id'') (JStr [])) = ws"
proof -
  from assms have *: "ws \<noteq> [] \<and> ids = normalized_ids v \<and> ids \<noteq> [] \<and> check_devices d ws ids = None"
    by (auto simp: validate_physical_targets_def Let_def split: if_splits option.splits)
  then show "ws \<noteq> []" "ids = normalized_ids v" "ids \<noteq> []" by blast+
  then show "distinct ids" by (simp add: normalized_ids_def)
  show "truthy (get_device d i) \<and> to_str (js_or (fld (get_device d i) ''workspace_id'') (JStr [])) = ws"
    if "i \<in> set ids" using check_devices_None * that by blast
qed

text \<open>A small classroom for the witnesses: two displays of workspace \<open>w\<close>, one of them the audio
  authority, no live program, every device online.\<close>

definition sample_deps :: deps where
  "sample_deps = \<lparr>get_device = (\<lambda>i. JObj [(''id'', JStr i), (''workspace_id'', JStr ''w'')]),
     list_workspace_devices = (\<lambda>w. JArr []),
     get_display_state = None, get_live_state = (\<lambda>w. JNull), get_room_revision = None,
     get_content_generation = None, is_device_online = (\<lambda>v. True), emit_to_device = (\<lambda>v e. None),
     queue_to_device = None, ingest = (\<lambda>a. Inr a), create_cmd = create_command ''u'' ''n'',
     resolve_audio_authority = Some (\<lambda>ds. JObj [(''valid'', JBool True), (''authority_device_id'', JStr ''a'')]),
     get_audio_policy = None, random_uuid = (\<lambda>n. nat_str n), parse_date = (\<lambda>v. Fin 0),
     idempotency_ttl = 300000, legacy_window = 600\<rparr>"

definition sample_request :: jsval where
  "sample_request = JObj [(''workspaceId'', JStr ''w''), (''action'', JStr ''Play ''),
     (''deviceIds'', JArr [JStr ''a'', JStr ''b'', JStr ''a'']), (''idempotencyKey'', JStr ''k'')]"

definition sample_run :: "response \<times> coord" where
  "sample_run = dispatch sample_deps 1000 sample_request initial_coord"

text \<open>The facts of this run the witnesses need, evaluated once.\<close>

fun sample_trace :: "effect list \<Rightarrow> bool" where
  "sample_trace [Ingest a1, Emit v1 e1, Ingest a2, Emit v2 e2] =
     (v1 = JStr ''a'' \<and> v2 = JStr ''b'' \<and> fld (fld e1 ''payload'') ''audio_allowed'' = JBool True)"
| "sample_trace _ = False"

fun sample_check :: "response \<times> coord \<Rightarrow> bool" where
  "sample_check (Snapshot b t, s) =
     (\<not> b \<and> tx_action t = ''play'' \<and> sample_trace (trace s))"
| "sample_check _ = False"

lemma sample_check_run: "sample_check sample_run"
  by code_simp

lemma sample_check_D:
  "sample_check r \<Longrightarrow> \<exists>t s a1 e1 a2 e2. fst r = Snapshot False t \<and> snd r = s \<and> tx_action t = ''play''
     \<and> trace s = [Ingest a1, Emit (JStr ''a'') e1, Ingest a2, Emit (JStr ''b'') e2]
     \<and> fld (fld e1 ''payload'') ''audio_allowed'' = JBool True"
  by (erule sample_check.elims, elim conjE, erule sample_trace.elims) simp_all

lemma sample_facts:
  "\<exists>t s a1 e1 a2 e2. fst sample_run = Snapshot False t \<and> snd sample_run = s \<and> tx_action t = ''play''
     \<and> new_effects initial_coord s = [Ingest a1, Emit (JStr ''a'') e1, Ingest a2, Emit (JStr ''b'') e2]
     \<and> sounding (Emit (JStr ''a'') e1) = Some (JStr ''a'')"
  using sample_check_D [OF sample_check_run] by (fastforce simp: new_effects_def initial_coord_def)

text \<open>C1: One operator action never makes two rooms of speakers sound: among all commands a dispatch
  sends (live or queued, physical or live program), those whose payload allows audio go to one
  single device.\<close>

theorem dispatch_single_audio:
  assumes "dispatch d now request s0 = (resp, s)" and "create_cmd d = create_command u n"
    and "e \<in> set (new_effects s0 s)" and "e' \<in> set (new_effects s0 s)"
    and "sounding e = Some x" and "sounding e' = Some y"
  shows "x = y"
proof -
  obtain t dev rl where t: "resp = Snapshot False t" and e: "effect_ok d t dev rl e"
    by (rule new_effects_cases [OF assms(1,3)])
  obtain t' dev' rl' where t': "resp = Snapshot False t'" and e': "effect_ok d t' dev' rl' e'"
    by (rule new_effects_cases [OF assms(1,4)])
  from t t' have "t' = t" by simp
  with contract.sounding_authority [OF assms(2) e assms(5)]
    contract.sounding_authority [OF assms(2) e' assms(6)]
  show ?thesis by simp
qed

text \<open>C7: Tenant isolation: whatever a dispatch persists, emits or queues is addressed to a display
  whose row belongs to the request's workspace, or to the live program of that workspace while
  it shows content.\<close>

theorem dispatch_stays_in_workspace:
  assumes "dispatch d now request s0 = (resp, s)" and "e \<in> set (new_effects s0 s)"
  shows "(\<exists>i. effect_device e = JStr i \<and> truthy (get_device d i) \<and>
           to_str (js_or (fld (get_device d i) ''workspace_id'') (JStr []))
             = text_of (fld request ''workspaceId''))
     \<or> (let live = get_live_state d (text_of (fld request ''workspaceId'')) in
          fld live ''content_active'' = JBool True
          \<and> effect_device e = JStr (to_str (fld live ''display_id'')))"
proof -
  let ?ws = "text_of (fld request ''workspaceId'')"
  obtain t ids dev rl where v: "validate_physical_targets d ?ws (fld request ''deviceIds'') = Inr ids"
    and a: "(dev, rl) \<in> addressees d ?ws ids" and e: "effect_ok d t dev rl e"
    by (rule new_effects_cases [OF assms])
  from e have "effect_device e = dev" by (cases e) auto
  with a validate_physical_targets_Inr(5) [OF v] show ?thesis
    by (auto simp: addressees_def live_addressee_def Let_def split: if_splits)
qed

text \<open>Exactly-once fan-out: however often a device is named in a request, and even if it is also
  the live program display, one dispatch sends it at most one command.\<close>

theorem dispatch_sends_once:
  assumes "dispatch d now request s0 = (resp, s)"
  shows "sends (new_effects s0 s) dev \<le> 1"
proof -
  from dispatch_split [OF assms] consider t where "ran d now request s0 s t" | "trace s = trace s0"
    by blast
  then show ?thesis
  proof cases
    case 1
    then obtain A es where "trace s = trace s0 @ es" and "fan_out d t A [] (tx_targets t) es"
      by (auto simp: ran_def)
    then have "sends (new_effects s0 s) dev + has_target [] dev \<le> has_target (tx_targets t) dev"
      by (simp add: new_effects_def fan_out_def)
    then show ?thesis by (simp add: has_target_def split: if_splits)
  qed (simp add: new_effects_def)
qed

definition sample_transaction :: transaction where
  "sample_transaction = (case fst sample_run of Snapshot b t \<Rightarrow> t
     | _ \<Rightarrow> build_transaction sample_deps 0 JNull [] [] [] [] (FpLegacy [] [] JNull) [])"

definition sample_effects :: "effect list" where
  "sample_effects = new_effects initial_coord (snd sample_run)"

lemma sample_run_new: "dispatch sample_deps 1000 sample_request initial_coord
    = (Snapshot False sample_transaction, snd sample_run)"
  using sample_facts by (auto simp: sample_transaction_def sample_run_def prod_eq_iff)

lemma sample_effects_members:
  "\<exists>e1 e2. Emit (JStr ''a'') e1 \<in> set sample_effects \<and> Emit (JStr ''b'') e2 \<in> set sample_effects
     \<and> sounding (Emit (JStr ''a'') e1) = Some (JStr ''a'') \<and> sends sample_effects (JStr ''a'') = 1"
proof -
  obtain t s a1 e1 a2 e2 where *: "fst sample_run = Snapshot False t" "snd sample_run = s"
    "new_effects initial_coord s = [Ingest a1, Emit (JStr ''a'') e1, Ingest a2, Emit (JStr ''b'') e2]"
    "sounding (Emit (JStr ''a'') e1) = Some (JStr ''a'')"
    using sample_facts by blast
  then show ?thesis
    by (rule_tac x = e1 in exI, rule_tac x = e2 in exI) (simp add: sample_effects_def sends_def)
qed

lemma sample_factory: "create_cmd sample_deps = create_command ''u'' ''n''"
  by (simp add: sample_deps_def)

theorem dispatch_single_audio_witness:
  "{y. \<exists>e\<in>set sample_effects. sounding e = Some y} = {JStr ''a''}"
proof -
  obtain e1 where e1: "Emit (JStr ''a'') e1 \<in> set sample_effects"
      "sounding (Emit (JStr ''a'') e1) = Some (JStr ''a'')"
    using sample_effects_members by blast
  have "y = JStr ''a''" if "e \<in> set sample_effects" "sounding e = Some y" for e y
    by (rule dispatch_single_audio [OF sample_run_new sample_factory that(1) [unfolded sample_effects_def]
          e1(1) [unfolded sample_effects_def] that(2) e1(2)])
  with e1 show ?thesis by blast
qed

theorem dispatch_stays_in_workspace_witness:
  "\<exists>e. e \<in> set sample_effects \<and> effect_device e = JStr ''b''
     \<and> to_str (js_or (fld (get_device sample_deps ''b'') ''workspace_id'') (JStr []))
         = text_of (fld sample_request ''workspaceId'')"
proof -
  obtain e where e: "Emit (JStr ''b'') e \<in> set sample_effects" using sample_effects_members by blast
  have "get_live_state sample_deps w = JNull" for w by (simp add: sample_deps_def)
  with dispatch_stays_in_workspace [OF sample_run_new e [unfolded sample_effects_def]] e
  show ?thesis by (intro exI [of _ "Emit (JStr ''b'') e"]) (auto simp: Let_def)
qed

theorem dispatch_sends_once_witness:
  "sends sample_effects (JStr ''a'') = 1 \<and> sends sample_effects (JStr ''b'') \<le> 1"
  using dispatch_sends_once [OF sample_run_new, of "JStr ''b''"] sample_effects_members
  by (auto simp: sample_effects_def)

subsection \<open>Idempotency\<close>

definition request_fp :: "jsval \<Rightarrow> string list \<Rightarrow> fingerprint" where
  "request_fp request ids = FpDispatch (text_of (fld request ''workspaceId'')) (sort ids)
     (request_action request) (stable_payload_fingerprint (fld request ''payload''))"

text \<open>Looking the key of a finished dispatch up again before it expires.\<close>

lemma ran_lookup:
  assumes "ran d now request s0 s t" and "distinct_keys (by_key s0)"
    and "truthy (fld request ''idempotencyKey'')" and "later < now + idempotency_ttl d"
  shows "\<exists>ref. map_of (by_key (sweep later s))
            (text_of (fld request ''workspaceId''), trim (to_str (fld request ''idempotencyKey''))) = Some ref
          \<and> map_of (txs s) ref = Some t"
proof -
  let ?key = "(text_of (fld request ''workspaceId''), trim (to_str (fld request ''idempotencyKey'')))"
  from assms(1,3) obtain ids u b ref where
    t: "t = (fresh_transaction d now request ids (snd ?key) u)\<lparr>tx_targets := tx_targets t, tx_live_considered := b\<rparr>"
    and r: "map_of (txs s) ref = Some t"
    and k: "by_key s = AList.update ?key ref (by_key (sweep now s0))"
    by (auto simp: ran_def)
  have "distinct_keys (by_key (sweep now s0))"
    using assms(2) by (simp add: sweep_def distinct_keys_filter)
  then have "distinct_keys (by_key s)" unfolding k by (rule alist.wf_put)
  moreover have "tx_expires t = now + idempotency_ttl d"
    by (subst t) (simp add: fresh_transaction_def)
  ultimately have "map_of (by_key (sweep later s)) ?key = Some ref"
    using assms(4) r by (simp add: sweep_def map_of_filter_distinct k update_conv')
  with r show ?thesis by blast
qed

lemma ran_fp:
  assumes "ran d now request s0 s t"
  shows "\<exists>ids. validate_physical_targets d (text_of (fld request ''workspaceId'')) (fld request ''deviceIds'') = Inr ids
     \<and> request_action request \<in> set transport_actions \<and> tx_fp t = request_fp request ids"
proof -
  from assms obtain ids idem u b where
    "validate_physical_targets d (text_of (fld request ''workspaceId'')) (fld request ''deviceIds'') = Inr ids"
    "request_action request \<in> set transport_actions"
    and t: "t = (fresh_transaction d now request ids idem u)\<lparr>tx_targets := tx_targets t, tx_live_considered := b\<rparr>"
    by (auto simp: ran_def)
  moreover have "tx_fp t = request_fp request ids"
    by (subst t) (simp add: fresh_transaction_def request_fp_def)
  ultimately show ?thesis by blast
qed

lemma dispatch_known_key:
  assumes "ran d now request s0 s t" and "distinct_keys (by_key s0)"
    and key: "truthy (fld request ''idempotencyKey'')" and "later < now + idempotency_ttl d"
    and same: "text_of (fld request' ''workspaceId'') = text_of (fld request ''workspaceId'')"
      "fld request' ''idempotencyKey'' = fld request ''idempotencyKey''"
    and ok: "request_action request' \<in> set transport_actions"
      "validate_physical_targets d (text_of (fld request' ''workspaceId'')) (fld request' ''deviceIds'') = Inr ids"
  shows "dispatch d later request' s =
     (if tx_fp t \<noteq> request_fp request' ids
      then Conflict (tx_id t) (trim (to_str (fld request ''idempotencyKey''))) else Snapshot True t,
      sweep later s)"
proof -
  from ran_lookup [OF assms(1-4)] obtain ref where
    "map_of (by_key (sweep later s))
       (text_of (fld request ''workspaceId''), trim (to_str (fld request ''idempotencyKey''))) = Some ref"
    "map_of (txs s) ref = Some t" by blast
  then show ?thesis
    using key ok same by (simp add: dispatch_def tx_at_def request_fp_def Let_def)
qed

text \<open>C5: Idempotency: repeating a request under its idempotency key before the transaction expires
  returns the recorded transaction as a duplicate and has no effect: nothing is persisted, emitted
  or queued again, so a retried "next" cannot advance a deck twice.\<close>

theorem dispatch_idempotent:
  assumes "dispatch d now request s0 = (Snapshot False t, s)" and "distinct_keys (by_key s0)"
    and "truthy (fld request ''idempotencyKey'')" and "later < now + idempotency_ttl d"
  shows "dispatch d later request s = (Snapshot True t, sweep later s) \<and> new_effects s (sweep later s) = []"
proof -
  from dispatch_split [OF assms(1)] have r: "ran d now request s0 s t" by auto
  from ran_fp [OF r] obtain ids where
    "validate_physical_targets d (text_of (fld request ''workspaceId'')) (fld request ''deviceIds'') = Inr ids"
    "request_action request \<in> set transport_actions" "tx_fp t = request_fp request ids" by blast
  with dispatch_known_key [OF r assms(2-4) refl refl] show ?thesis by (simp add: new_effects_def)
qed

text \<open>C17: A key cannot be reused for something else: a valid request under the key of a live
  transaction that asks for another action is refused as a conflict, without effect.\<close>

theorem dispatch_conflict:
  assumes "dispatch d now request s0 = (Snapshot False t, s)" and "distinct_keys (by_key s0)"
    and "truthy (fld request ''idempotencyKey'')" and "later < now + idempotency_ttl d"
    and "text_of (fld request' ''workspaceId'') = text_of (fld request ''workspaceId'')"
    and "fld request' ''idempotencyKey'' = fld request ''idempotencyKey''"
    and "request_action request' \<in> set transport_actions"
    and "validate_physical_targets d (text_of (fld request' ''workspaceId'')) (fld request' ''deviceIds'') = Inr ids"
    and "request_action request' \<noteq> request_action request"
  shows "dispatch d later request' s
           = (Conflict (tx_id t) (trim (to_str (fld request ''idempotencyKey''))), sweep later s)
         \<and> new_effects s (sweep later s) = []"
proof -
  from dispatch_split [OF assms(1)] have r: "ran d now request s0 s t" by auto
  from ran_fp [OF r] obtain ids0 where "tx_fp t = request_fp request ids0" by blast
  with assms(9) have "tx_fp t \<noteq> request_fp request' ids" by (simp add: request_fp_def)
  with dispatch_known_key [OF r assms(2-8)] show ?thesis by (simp add: new_effects_def)
qed

theorem dispatch_idempotent_witness:
  "dispatch sample_deps 2000 sample_request (snd sample_run)
     = (Snapshot True sample_transaction, sweep 2000 (snd sample_run))"
proof -
  have "distinct_keys (by_key initial_coord)" by (simp add: initial_coord_def)
  moreover have "truthy (fld sample_request ''idempotencyKey'')" by (simp add: sample_request_def)
  moreover have "2000 < 1000 + idempotency_ttl sample_deps" by (simp add: sample_deps_def)
  ultimately show ?thesis using dispatch_idempotent [OF sample_run_new] by blast
qed

theorem dispatch_conflict_witness:
  "fst (dispatch sample_deps 2000
     (JObj [(''workspaceId'', JStr ''w''), (''action'', JStr ''stop''), (''deviceIds'', JArr [JStr ''a'']),
            (''idempotencyKey'', JStr ''k'')]) (snd sample_run))
   = Conflict (tx_id sample_transaction) ''k''"
proof -
  let ?rq = "JObj [(''workspaceId'', JStr ''w''), (''action'', JStr ''stop''), (''deviceIds'', JArr [JStr ''a'']),
            (''idempotencyKey'', JStr ''k'')]"
  have 1: "distinct_keys (by_key initial_coord)" by (simp add: initial_coord_def)
  have 2: "truthy (fld sample_request ''idempotencyKey'')" by (simp add: sample_request_def)
  have 3: "2000 < 1000 + idempotency_ttl sample_deps" by (simp add: sample_deps_def)
  have 4: "text_of (fld ?rq ''workspaceId'') = text_of (fld sample_request ''workspaceId'')"
    "fld ?rq ''idempotencyKey'' = fld sample_request ''idempotencyKey''"
    by (simp_all add: sample_request_def)
  have 5: "request_action ?rq \<in> set transport_actions"
    "validate_physical_targets sample_deps (text_of (fld ?rq ''workspaceId'')) (fld ?rq ''deviceIds'') = Inr [''a'']"
    "request_action ?rq \<noteq> request_action sample_request"
    by code_simp+
  have "trim (to_str (fld sample_request ''idempotencyKey'')) = ''k''" by code_simp
  with dispatch_conflict [OF sample_run_new 1 2 3 4 5] show ?thesis by simp
qed

subsection \<open>Absolute actions\<close>

lemma action_text_idem [simp]: "action_text (JStr (action_text v)) = action_text v"
  by (simp add: action_text_def trim_to_lower)  (simp add: text_of_def trim_to_lower)

lemma slide_target_bounds:
  "1 \<le> slide_target f i c \<and> (\<forall>n. c = Some n \<longrightarrow> 1 \<le> n \<longrightarrow> slide_target f i c \<le> n)"
  by (auto simp: slide_target_def Let_def split: option.splits)

lemma canonicalize_result:
  "canonicalize_transport_action a p st = (a', p') \<Longrightarrow> fld (JObj p') ''action'' = JStr a'"
  by (auto simp: canonicalize_transport_action_def Let_def split: if_splits option.splits)

lemma canonicalize_absolute_noop:
  assumes "\<not> is_next_action b" "\<not> is_prev_action b" "b \<noteq> ''play_pause''" "action_text (JStr b) = b" "b \<noteq> []"
  shows "canonicalize_transport_action (JStr b) p st = (b, set_field ''action'' (JStr b) (del_field ''action'' p))"
  using assms by (auto simp: canonicalize_transport_action_def Let_def js_or_def split: option.splits)

text \<open>Relative actions are made absolute: when the player has reported slide \<open>i\<close>, "next" and
  "prev" become "go to slide" with the neighbouring slide, kept between 1 and a known slide
  count, and the produced command carries a slide argument the contract accepts.\<close>

theorem canonicalize_relative:
  assumes "action_text (js_or a (fld (JObj p) ''action'')) = r" and "is_next_action r \<or> is_prev_action r"
    and "integer_of (js_coalesce (fld st ''slide_index'') (fld st ''slideIndex'')) = Some i" and "1 \<le> i"
  shows "\<exists>q t. canonicalize_transport_action a p st = (''go_to_slide'', q)
     \<and> fld (JObj q) ''slide'' = jint t \<and> valid_slide (JObj q) \<and> 1 \<le> t
     \<and> (\<forall>n. integer_of (js_coalesce (fld st ''slide_count'') (fld st ''slideCount'')) = Some n \<longrightarrow> i \<le> n \<longrightarrow>
          t = (if is_next_action r then min n (i + 1) else max 1 (i - 1)))"
proof -
  let ?cnt = "integer_of (js_coalesce (fld st ''slide_count'') (fld st ''slideCount''))"
  let ?t = "slide_target (is_next_action r) i ?cnt"
  let ?q = "merge_fields (del_field ''action'' p) [(''action'', JStr ''go_to_slide''), (''slide'', jint ?t),
     (''page'', jint ?t), (''slide_index'', jint ?t)]"
  have "r \<noteq> ''play_pause''" using assms(2) by (auto simp: is_next_action_def is_prev_action_def)
  then have "canonicalize_transport_action a p st = (''go_to_slide'', ?q)"
    using assms by (simp add: canonicalize_transport_action_def Let_def)
  moreover have "fld (JObj ?q) ''slide'' = jint ?t" by simp
  moreover have "1 \<le> ?t" using slide_target_bounds by blast
  moreover then have "valid_slide (JObj ?q)" by (simp add: valid_slide_def slide_of_def)
  moreover have "\<forall>n. ?cnt = Some n \<longrightarrow> i \<le> n \<longrightarrow>
      ?t = (if is_next_action r then min n (i + 1) else max 1 (i - 1))"
    using assms(2,4) by (auto simp: slide_target_def Let_def)
  ultimately show ?thesis by blast
qed

theorem canonicalize_relative_witness:
  "\<exists>q. canonicalize_transport_action (JStr ''Next'') [] (JObj [(''slide_index'', jint 4), (''slide_count'', jint 4)])
     = (''go_to_slide'', q) \<and> fld (JObj q) ''slide'' = jint 4"
proof -
  let ?st = "JObj [(''slide_index'', jint 4), (''slide_count'', jint 4)]"
  have 1: "action_text (js_or (JStr ''Next'') (fld (JObj []) ''action'')) = ''next''" by code_simp
  have 2: "is_next_action ''next'' \<or> is_prev_action ''next''" by (simp add: is_next_action_def)
  have 3: "integer_of (js_coalesce (fld ?st ''slide_index'') (fld ?st ''slideIndex'')) = Some 4"
    by (simp add: integer_of_def)
  have "integer_of (js_coalesce (fld ?st ''slide_count'') (fld ?st ''slideCount'')) = Some 4"
    by (simp add: integer_of_def)
  with canonicalize_relative [OF 1 2 3] show ?thesis by (auto simp: is_next_action_def)
qed

text \<open>The canonical form is stable: once an action is absolute, running it through again, whatever
  state the player reports by then, gives the same action and the same payload.\<close>

theorem canonicalize_stable:
  assumes "canonicalize_transport_action a p st = (b, q)"
    and "\<not> is_next_action b" and "\<not> is_prev_action b" and "b \<noteq> ''play_pause''" and "b \<noteq> []"
  shows "\<exists>q'. canonicalize_transport_action (JStr b) q st' = (b, q') \<and> (\<forall>k. fld (JObj q') k = fld (JObj q) k)"
proof -
  have "action_text (JStr b) = b"
    using assms(1) by (auto simp: canonicalize_transport_action_def Let_def split: if_splits option.splits)
       code_simp+
  from canonicalize_absolute_noop [OF assms(2-4) this assms(5)] canonicalize_result [OF assms(1)]
  show ?thesis by auto
qed

theorem canonicalize_stable_witness:
  "\<exists>q'. canonicalize_transport_action (JStr ''stop'') [(''action'', JStr ''stop'')] (JObj [(''paused'', JBool True)])
     = (''stop'', q')"
proof -
  have "canonicalize_transport_action (JStr '' STOP'') [] JNull = (''stop'', [(''action'', JStr ''stop'')])"
    by code_simp
  from canonicalize_stable [OF this, of "JObj [(''paused'', JBool True)]"] show ?thesis
    by (auto simp: is_next_action_def is_prev_action_def)
qed



end
