(* ===== verification/Stores.thy ===== *)
theory Stores
  imports Prelude
begin

text \<open>
  The contract of the program's stores with a time to live. Entries carry a deadline; a purge
  drops what has expired. What a reader can see at a later time does not depend on when, or
  whether, purges ran. The offline queue, the rate limiters and the content caches are
  instances.
\<close>

locale expiring_store =
  fixes view :: "int \<Rightarrow> 's \<Rightarrow> 'k \<Rightarrow> 'v"
    and purge :: "int \<Rightarrow> 's \<Rightarrow> 's"
    and wf :: "'s \<Rightarrow> bool"
  assumes wf_purge: "wf s \<Longrightarrow> wf (purge t s)"
    and view_purge: "wf s \<Longrightarrow> t \<le> t' \<Longrightarrow> view t' (purge t s) k = view t' s k"
begin

lemma wf_purges: "wf s \<Longrightarrow> wf (fold purge ts s)"
  by (induction ts arbitrary: s) (simp_all add: wf_purge)

lemma view_purges: "wf s \<Longrightarrow> \<forall>t\<in>set ts. t \<le> t' \<Longrightarrow> view t' (fold purge ts s) k = view t' s k"
  by (induction ts arbitrary: s) (simp_all add: wf_purge view_purge)

lemma purge_purge_view: "wf s \<Longrightarrow> t \<le> t' \<Longrightarrow> view t' (purge t (purge t s)) k = view t' s k"
  by (simp add: wf_purge view_purge)

end

text \<open>Filtering by a deadline, the purge all instances are built from.\<close>

lemma filter_fresh:
  "t \<le> (t'::int) \<Longrightarrow>
   filter (\<lambda>(k, e). \<not> f e \<le> t') (filter (\<lambda>(k, e). \<not> f e \<le> t) m) = filter (\<lambda>(k, e). \<not> f e \<le> t') m"
  by (induction m) auto

lemma map_of_snd: "map_of m k = Some v \<Longrightarrow> v \<in> snd ` set m"
  by (rule image_eqI [of _ _ "(k, v)"]) (simp_all add: map_of_SomeD)

lemma map_of_filter_update:
  "distinct_keys m \<Longrightarrow>
   map_of (filter (\<lambda>(k, e). P k e) (AList.update k v m)) =
     (map_of (filter (\<lambda>(k, e). P k e) m))(k := if P k v then Some v else None)"
  by (rule ext) (simp add: map_of_filter_distinct alist.wf_put update_conv')

end
