(* ===== verification/CommandQueue.thy ===== *)
theory CommandQueue
  imports Stores
begin

text \<open>
  The short-lived queue for displays that are offline (\<open>server/lib/command-queue.js\<close>): at most
  one playlist marker and one command per type and device, both with a time to live.

  The two module-level maps are the fields of \<open>queues\<close>. The room adapter and \<open>buildPayload\<close> are
  arguments: \<open>online\<close> tells whether the room of the device has a member, \<open>build\<close> is the payload
  builder. What is emitted is returned in order. The clock is an argument; each operation reads
  it once. \<open>ttl\<close> is \<open>config.commandQueueTtlMs\<close>.
\<close>

subsection \<open>State\<close>

record playlist_marker =
  pm_expires :: int
  pm_context :: jsval

record queued_command =
  qc_payload :: jsval
  qc_expires :: int

record queues =
  pending_playlist :: "(string \<times> playlist_marker) list"
  pending_commands :: "(string \<times> (string \<times> queued_command) list) list"

datatype emission = PlaylistUpdate jsval | DeviceCommand jsval

definition no_queues :: queues where
  "no_queues = \<lparr>pending_playlist = [], pending_commands = []\<rparr>"

definition commands_of :: "queues \<Rightarrow> string \<Rightarrow> (string \<times> queued_command) list" where
  "commands_of q dev = (case map_of (pending_commands q) dev of None \<Rightarrow> [] | Some cs \<Rightarrow> cs)"

subsection \<open>Operations\<close>

definition prune_playlist :: "int \<Rightarrow> string \<Rightarrow> queues \<Rightarrow> queues" where
  "prune_playlist now dev q =
     (case map_of (pending_playlist q) dev of
        Some pu \<Rightarrow> if pm_expires pu \<le> now
                   then q\<lparr>pending_playlist := AList.delete dev (pending_playlist q)\<rparr> else q
      | None \<Rightarrow> q)"

definition prune_commands :: "int \<Rightarrow> string \<Rightarrow> queues \<Rightarrow> queues" where
  "prune_commands now dev q =
     (case map_of (pending_commands q) dev of
        None \<Rightarrow> q
      | Some cmds \<Rightarrow>
          (let kept = filter (\<lambda>(ty, e). \<not> qc_expires e \<le> now) cmds
           in if kept = [] then q\<lparr>pending_commands := AList.delete dev (pending_commands q)\<rparr>
              else q\<lparr>pending_commands := AList.update dev kept (pending_commands q)\<rparr>))"

definition prune_device :: "int \<Rightarrow> string \<Rightarrow> queues \<Rightarrow> queues" where
  "prune_device now dev q = prune_commands now dev (prune_playlist now dev q)"

record delivery =
  dl_delivered :: bool
  dl_blocked :: bool
  dl_queued :: bool
  dl_failure_code :: jsval
  dl_failure_reason :: jsval
  dl_revision :: jsval
  dl_source :: jsval

definition not_delivered :: delivery where
  "not_delivered = \<lparr>dl_delivered = False, dl_blocked = False, dl_queued = False,
     dl_failure_code = JUndef, dl_failure_reason = JUndef, dl_revision = JUndef, dl_source = JUndef\<rparr>"

definition expected_source :: "jsval \<Rightarrow> jsval" where
  "expected_source payload = js_or (fld (fld payload ''broadcast_delivery'') ''expected_source_id'') JNull"

text \<open>A missing namespace or builder is \<open>None\<close>; a missing device id is the empty string.\<close>

definition queue_or_emit_playlist_update ::
  "int \<Rightarrow> (string \<Rightarrow> bool) option \<Rightarrow> (string \<Rightarrow> jsval \<Rightarrow> jsval) option \<Rightarrow> int \<Rightarrow> string \<Rightarrow> jsval
   \<Rightarrow> queues \<Rightarrow> delivery \<times> emission list \<times> queues" where
  "queue_or_emit_playlist_update ttl ns builder now dev context q =
     (case (ns, builder) of
        (Some online, Some build) \<Rightarrow>
          if dev = [] then (not_delivered, [], q)
          else (let payload = build dev context in
            if truthy (fld payload ''delivery_blocked'') then
              (not_delivered\<lparr>dl_blocked := True,
                 dl_failure_code := js_or (fld payload ''delivery_block_code'') JNull,
                 dl_failure_reason := js_or (fld payload ''delivery_block_reason'')
                    (JStr ''managed_computer_source_unavailable''),
                 dl_revision := js_or (fld payload ''playlist_revision'') JNull\<rparr>,
               if online dev then [PlaylistUpdate payload] else [], q)
            else if online dev then
              (not_delivered\<lparr>dl_delivered := True,
                 dl_revision := js_or (fld payload ''playlist_revision'') JNull,
                 dl_source := expected_source payload\<rparr>, [PlaylistUpdate payload], q)
            else
              (not_delivered\<lparr>dl_queued := True,
                 dl_revision := js_or (fld payload ''playlist_revision'') JNull,
                 dl_source := expected_source payload\<rparr>, [],
               q\<lparr>pending_playlist := AList.update dev
                   \<lparr>pm_expires = now + ttl,
                    pm_context = (if is_object context then JObj (obj_fields context) else JNull)\<rparr>
                   (pending_playlist q)\<rparr>))
      | _ \<Rightarrow> (not_delivered, [], q))"

definition queue_command :: "int \<Rightarrow> int \<Rightarrow> string \<Rightarrow> string \<Rightarrow> jsval \<Rightarrow> queues \<Rightarrow> bool \<times> queues" where
  "queue_command ttl now dev ty payload q =
     (if dev = [] \<or> ty = [] then (False, q)
      else (True, q\<lparr>pending_commands := AList.update dev
              (AList.update ty \<lparr>qc_payload = js_or payload (JObj []), qc_expires = now + ttl\<rparr>
                 (commands_of q dev)) (pending_commands q)\<rparr>))"

definition flushed_command :: "string \<Rightarrow> queued_command \<Rightarrow> jsval" where
  "flushed_command ty e =
     (if ty = ''device:command'' \<and> truthy (qc_payload e)
         \<and> fld (qc_payload e) ''type'' = JStr ''device:command''
      then qc_payload e
      else JObj [(''type'', JStr ty), (''payload'', qc_payload e)])"

definition flush_playlist ::
  "(string \<Rightarrow> jsval \<Rightarrow> jsval) option \<Rightarrow> string \<Rightarrow> queues \<Rightarrow> bool \<times> emission list \<times> queues" where
  "flush_playlist builder dev q =
     (case map_of (pending_playlist q) dev of
        None \<Rightarrow> (False, [], q)
      | Some pu \<Rightarrow>
          (let q' = q\<lparr>pending_playlist := AList.delete dev (pending_playlist q)\<rparr> in
           case builder of
             None \<Rightarrow> (False, [], q')
           | Some build \<Rightarrow>
               (let payload = build dev (js_or (pm_context pu) JNull)
                in (fld payload ''delivery_blocked'' \<noteq> JBool True, [PlaylistUpdate payload], q'))))"

definition flush_commands :: "string \<Rightarrow> queues \<Rightarrow> nat \<times> emission list \<times> queues" where
  "flush_commands dev q =
     (case map_of (pending_commands q) dev of
        None \<Rightarrow> (0, [], q)
      | Some cmds \<Rightarrow>
          (length cmds, map (\<lambda>(ty, e). DeviceCommand (flushed_command ty e)) cmds,
           q\<lparr>pending_commands := AList.delete dev (pending_commands q)\<rparr>))"

definition flush_queue ::
  "bool \<Rightarrow> (string \<Rightarrow> jsval \<Rightarrow> jsval) option \<Rightarrow> int \<Rightarrow> string \<Rightarrow> queues
   \<Rightarrow> (bool \<times> nat) \<times> emission list \<times> queues" where
  "flush_queue ns builder now dev q =
     (if \<not> ns \<or> dev = [] then ((False, 0), [], q)
      else (case flush_playlist builder dev (prune_device now dev q) of
              (p, es, q1) \<Rightarrow>
            (case flush_commands dev q1 of
              (n, es', q2) \<Rightarrow> ((p, n), es @ es', q2))))"

definition get_queue_depth :: "int \<Rightarrow> string \<Rightarrow> queues \<Rightarrow> nat \<times> queues" where
  "get_queue_depth now dev q =
     (let q' = prune_device now dev q
      in ((if map_of (pending_playlist q') dev \<noteq> None then 1 else 0)
            + length (commands_of q' dev), q'))"

text \<open>One tick of the sweep timer.\<close>

definition sweep_queues :: "int \<Rightarrow> queues \<Rightarrow> queues" where
  "sweep_queues now q =
     (let q' = fold (prune_device now) (map fst (pending_playlist q)) q
      in fold (prune_device now) (map fst (pending_commands q')) q')"

subsection \<open>What a display can still receive\<close>

definition live_commands :: "int \<Rightarrow> queues \<Rightarrow> string \<Rightarrow> (string \<times> queued_command) list" where
  "live_commands now q dev = filter (\<lambda>(ty, e). \<not> qc_expires e \<le> now) (commands_of q dev)"

definition live_marker :: "int \<Rightarrow> queues \<Rightarrow> string \<Rightarrow> playlist_marker option" where
  "live_marker now q dev =
     (case map_of (pending_playlist q) dev of
        None \<Rightarrow> None | Some pu \<Rightarrow> if pm_expires pu \<le> now then None else Some pu)"

definition queue_view :: "int \<Rightarrow> queues \<Rightarrow> string \<Rightarrow> playlist_marker option \<times> (string \<times> queued_command) list" where
  "queue_view now q dev = (live_marker now q dev, live_commands now q dev)"

text \<open>No key twice, in either map, and no device with an empty set of commands.\<close>

definition queues_ok :: "queues \<Rightarrow> bool" where
  "queues_ok q \<longleftrightarrow> distinct_keys (pending_playlist q) \<and> distinct_keys (pending_commands q)
     \<and> (\<forall>cs\<in>snd ` set (pending_commands q). distinct_keys cs \<and> cs \<noteq> [])"

lemma queues_okD:
  "queues_ok q \<Longrightarrow> distinct_keys (commands_of q dev)"
proof (cases "map_of (pending_commands q) dev")
  case None
  then show ?thesis by (simp add: commands_of_def)
next
  case (Some cs)
  then have "cs \<in> snd ` set (pending_commands q)" by (rule map_of_snd)
  moreover assume "queues_ok q"
  ultimately have "distinct_keys cs" unfolding queues_ok_def by blast
  then show ?thesis using Some by (simp add: commands_of_def)
qed

lemma snd_update_subset: "snd ` set (AList.update k v m) \<subseteq> insert v (snd ` set m)"
  by (induction m) auto

lemma snd_delete_subset: "snd ` set (AList.delete k m) \<subseteq> snd ` set m"
  by (auto simp: AList.delete_eq)

lemma prune_commands_sel:
  "pending_playlist (prune_commands now dev q) = pending_playlist q"
  "commands_of (prune_commands now dev q) d =
     (if d = dev then live_commands now q d else commands_of q d)"
  by (auto simp: prune_commands_def commands_of_def live_commands_def Let_def update_conv'
      delete_conv' split: option.splits)

lemma prune_playlist_sel:
  "pending_commands (prune_playlist now dev q) = pending_commands q"
  "commands_of (prune_playlist now dev q) d = commands_of q d"
  "map_of (pending_playlist (prune_playlist now dev q)) d =
     (if d = dev then live_marker now q d else map_of (pending_playlist q) d)"
  by (auto simp: prune_playlist_def commands_of_def live_marker_def delete_conv'
      split: option.splits)

lemma queues_ok_set_commands:
  assumes "queues_ok q" "distinct_keys m"
    "\<And>cs. cs \<in> snd ` set m \<Longrightarrow> cs \<in> snd ` set (pending_commands q) \<or> (distinct_keys cs \<and> cs \<noteq> [])"
  shows "queues_ok (q\<lparr>pending_commands := m\<rparr>)"
  unfolding queues_ok_def
proof (intro conjI ballI)
  show "distinct_keys (pending_playlist (q\<lparr>pending_commands := m\<rparr>))"
    using assms(1) by (simp add: queues_ok_def)
  show "distinct_keys (pending_commands (q\<lparr>pending_commands := m\<rparr>))" using assms(2) by simp
next
  fix cs assume "cs \<in> snd ` set (pending_commands (q\<lparr>pending_commands := m\<rparr>))"
  then have "cs \<in> snd ` set m" by simp
  from assms(3) [OF this] assms(1) have "distinct_keys cs \<and> cs \<noteq> []"
    unfolding queues_ok_def by blast
  then show "distinct_keys cs" "cs \<noteq> []" by blast+
qed

lemma queues_ok_prune_commands:
  assumes ok: "queues_ok q" shows "queues_ok (prune_commands now dev q)"
proof (cases "map_of (pending_commands q) dev")
  case None
  with ok show ?thesis by (simp add: prune_commands_def)
next
  case (Some cmds)
  let ?k = "filter (\<lambda>(ty, e). \<not> qc_expires e \<le> now) cmds"
  from ok have d: "distinct_keys (pending_commands q)" by (simp add: queues_ok_def)
  from queues_okD [OF ok, of dev] Some have dk: "distinct_keys ?k"
    by (simp add: commands_of_def distinct_keys_filter)
  have dele: "queues_ok (q\<lparr>pending_commands := AList.delete dev (pending_commands q)\<rparr>)"
    by (rule queues_ok_set_commands [OF ok alist.wf_del [OF d]])
       (rule disjI1, erule subsetD [OF snd_delete_subset])
  have upd: "queues_ok (q\<lparr>pending_commands := AList.update dev ?k (pending_commands q)\<rparr>)"
    if "?k \<noteq> []"
    by (rule queues_ok_set_commands [OF ok alist.wf_put [OF d]], drule subsetD [OF snd_update_subset])
       (erule insertE, simp add: dk that, erule disjI1)
  show ?thesis
  proof (cases "?k = []")
    case True
    with Some dele show ?thesis by (simp add: prune_commands_def Let_def)
  next
    case False
    with upd show ?thesis unfolding prune_commands_def Some Let_def option.case by simp
  qed
qed

lemma queues_ok_prune_playlist: "queues_ok q \<Longrightarrow> queues_ok (prune_playlist now dev q)"
  by (auto simp: prune_playlist_def queues_ok_def alist.wf_del simp del: AList.delete_eq
      split: option.splits)

lemma queues_ok_prune: "queues_ok q \<Longrightarrow> queues_ok (prune_device now dev q)"
  by (simp add: prune_device_def queues_ok_prune_commands queues_ok_prune_playlist)

lemma queues_ok_fold_prune: "queues_ok q \<Longrightarrow> queues_ok (fold (prune_device now) devs q)"
  by (induction devs arbitrary: q) (simp_all add: queues_ok_prune)

lemma queues_ok_sweep: "queues_ok q \<Longrightarrow> queues_ok (sweep_queues now q)"
  by (simp add: sweep_queues_def Let_def queues_ok_fold_prune)

text \<open>Pruning does not change what can still be received.\<close>

lemma view_prune:
  assumes "t \<le> t'" shows "queue_view t' (prune_device t dev q) d = queue_view t' q d"
proof -
  have "live_commands t' (prune_device t dev q) d = live_commands t' q d"
    by (simp add: filter_fresh [OF assms] live_commands_def prune_device_def prune_commands_sel prune_playlist_sel
        del: filter_filter)
  moreover have "live_marker t' (prune_device t dev q) d = live_marker t' q d"
    using assms by (auto simp: live_marker_def prune_device_def prune_commands_sel
        prune_playlist_sel split: option.splits)
  ultimately show ?thesis by (simp add: queue_view_def)
qed

lemma view_fold_prune:
  "t \<le> t' \<Longrightarrow> queue_view t' (fold (prune_device t) devs q) d = queue_view t' q d"
  by (induction devs arbitrary: q) (simp_all add: view_prune)

interpretation command_queue: expiring_store queue_view sweep_queues queues_ok
  by unfold_locales (erule queues_ok_sweep, simp only: sweep_queues_def Let_def view_fold_prune)

text \<open>A flush depends only on the view, and empties it for its device.\<close>

definition marker_emission ::
  "(string \<Rightarrow> jsval \<Rightarrow> jsval) option \<Rightarrow> string \<Rightarrow> playlist_marker option \<Rightarrow> bool \<times> emission list" where
  "marker_emission builder dev mk =
     (case (mk, builder) of
        (Some pu, Some build) \<Rightarrow>
           (let payload = build dev (js_or (pm_context pu) JNull)
            in (fld payload ''delivery_blocked'' \<noteq> JBool True, [PlaylistUpdate payload]))
      | _ \<Rightarrow> (False, []))"

definition view_emissions ::
  "(string \<Rightarrow> jsval \<Rightarrow> jsval) option \<Rightarrow> string
   \<Rightarrow> playlist_marker option \<times> (string \<times> queued_command) list \<Rightarrow> (bool \<times> nat) \<times> emission list" where
  "view_emissions builder dev v =
     ((fst (marker_emission builder dev (fst v)), length (snd v)),
      snd (marker_emission builder dev (fst v))
        @ map (\<lambda>(ty, e). DeviceCommand (flushed_command ty e)) (snd v))"

lemma flush_playlist_eq:
  "flush_playlist builder dev q =
     (let m = marker_emission builder dev (map_of (pending_playlist q) dev)
      in (fst m, snd m, q\<lparr>pending_playlist := AList.delete dev (pending_playlist q)\<rparr>))"
proof (cases "map_of (pending_playlist q) dev")
  case None
  then have "AList.delete dev (pending_playlist q) = pending_playlist q"
    by (simp add: delete_absent map_of_eq_None_iff del: AList.delete_eq)
  with None show ?thesis by (simp add: flush_playlist_def marker_emission_def del: AList.delete_eq)
next
  case (Some pu)
  then show ?thesis
    by (simp add: flush_playlist_def marker_emission_def Let_def split: option.splits)
qed

lemma flush_commands_eq:
  "flush_commands dev q =
     (length (commands_of q dev),
      map (\<lambda>(ty, e). DeviceCommand (flushed_command ty e)) (commands_of q dev),
      q\<lparr>pending_commands := AList.delete dev (pending_commands q)\<rparr>)"
proof (cases "map_of (pending_commands q) dev")
  case None
  then have "AList.delete dev (pending_commands q) = pending_commands q"
    by (simp add: delete_absent map_of_eq_None_iff del: AList.delete_eq)
  with None show ?thesis by (simp add: flush_commands_def commands_of_def del: AList.delete_eq)
next
  case (Some cs)
  then show ?thesis by (simp add: flush_commands_def commands_of_def)
qed

lemma flush_queue_view:
  assumes "dev \<noteq> []"
  shows "fst (flush_queue True builder now dev q) = fst (view_emissions builder dev (queue_view now q dev))"
    "fst (snd (flush_queue True builder now dev q)) = snd (view_emissions builder dev (queue_view now q dev))"
    "queue_view t (snd (snd (flush_queue True builder now dev q))) d =
       (if d = dev then (None, []) else queue_view t (prune_device now dev q) d)"
proof -
  have m: "map_of (pending_playlist (prune_device now dev q)) dev = live_marker now q dev"
    by (simp add: prune_device_def prune_commands_sel prune_playlist_sel)
  have c: "commands_of (prune_device now dev q) dev = live_commands now q dev"
    by (simp add: prune_device_def prune_commands_sel prune_playlist_sel live_commands_def)
  have c': "commands_of (p\<lparr>pending_playlist := x\<rparr>) dev = commands_of p dev" for p x
    by (simp add: commands_of_def)
  show "fst (flush_queue True builder now dev q) = fst (view_emissions builder dev (queue_view now q dev))"
    "fst (snd (flush_queue True builder now dev q)) = snd (view_emissions builder dev (queue_view now q dev))"
    "queue_view t (snd (snd (flush_queue True builder now dev q))) d =
       (if d = dev then (None, []) else queue_view t (prune_device now dev q) d)"
    using assms
    by (simp_all add: flush_queue_def flush_playlist_eq flush_commands_eq Let_def m c c'
        view_emissions_def queue_view_def)
       (auto simp: queue_view_def live_marker_def live_commands_def commands_of_def delete_conv')
qed

subsection \<open>Histories of requests\<close>

definition run_requests ::
  "int \<Rightarrow> (int \<times> string \<times> string \<times> jsval) list \<Rightarrow> queues \<Rightarrow> queues" where
  "run_requests ttl reqs q =
     fold (\<lambda>(t, dev, ty, p) q. snd (queue_command ttl t dev ty p q)) reqs q"

text \<open>The last request for a type on a device, as the entry the queue keeps of it.\<close>

definition last_request ::
  "int \<Rightarrow> (int \<times> string \<times> string \<times> jsval) list \<Rightarrow> string \<Rightarrow> string \<Rightarrow> queued_command option" where
  "last_request ttl reqs dev ty =
     (case find (\<lambda>(t, d, ty', p). d = dev \<and> ty' = ty) (rev reqs) of
        None \<Rightarrow> None
      | Some (t, d, ty', p) \<Rightarrow> Some \<lparr>qc_payload = js_or p (JObj []), qc_expires = t + ttl\<rparr>)"

lemma run_requests_snoc:
  "run_requests ttl (reqs @ [(t, dev, ty, p)]) q =
     snd (queue_command ttl t dev ty p (run_requests ttl reqs q))"
  by (simp add: run_requests_def)

lemma queue_command_commands:
  assumes "dev \<noteq> []" "ty \<noteq> []"
  shows "commands_of (snd (queue_command ttl t dev ty p q)) d =
    (if d = dev then AList.update ty \<lparr>qc_payload = js_or p (JObj []), qc_expires = t + ttl\<rparr> (commands_of q dev)
     else commands_of q d)"
    "pending_playlist (snd (queue_command ttl t dev ty p q)) = pending_playlist q"
  using assms by (simp_all add: queue_command_def commands_of_def update_conv')

lemma update_not_Nil: "AList.update k v m \<noteq> []"
  by (cases m) auto

lemma queues_ok_queue_command:
  assumes ok: "queues_ok q" shows "queues_ok (snd (queue_command ttl t dev ty p q))"
proof (cases "dev = [] \<or> ty = []")
  case True
  with ok show ?thesis by (auto simp: queue_command_def)
next
  case False
  let ?c = "AList.update ty \<lparr>qc_payload = js_or p (JObj []), qc_expires = t + ttl\<rparr> (commands_of q dev)"
  have c: "distinct_keys ?c \<and> ?c \<noteq> []"
    using alist.wf_put [OF queues_okD [OF ok]] by (simp add: update_not_Nil)
  have d: "distinct_keys (pending_commands q)" using ok by (simp add: queues_ok_def)
  have "queues_ok (q\<lparr>pending_commands := AList.update dev ?c (pending_commands q)\<rparr>)"
    by (rule queues_ok_set_commands [OF ok alist.wf_put [OF d]], drule subsetD [OF snd_update_subset])
       (erule insertE, simp add: c, erule disjI1)
  with False show ?thesis by (simp add: queue_command_def)
qed

lemma queues_ok_no_queues: "queues_ok no_queues"
  by (simp add: queues_ok_def no_queues_def)

lemma run_requests_lookup:
  assumes "\<forall>(t, dev, ty, p)\<in>set reqs. dev \<noteq> [] \<and> ty \<noteq> []"
  shows "map_of (commands_of (run_requests ttl reqs no_queues) dev) ty = last_request ttl reqs dev ty
    \<and> queues_ok (run_requests ttl reqs no_queues)
    \<and> pending_playlist (run_requests ttl reqs no_queues) = []"
  using assms
proof (induction reqs arbitrary: ty rule: rev_induct)
  case Nil
  show ?case
    by (simp add: run_requests_def last_request_def commands_of_def queues_ok_no_queues)
       (simp add: no_queues_def)
next
  case (snoc r reqs)
  obtain t d ty' p where r: "r = (t, d, ty', p)" by (cases r) auto
  with snoc.prems have ne: "d \<noteq> []" "ty' \<noteq> []" by auto
  from snoc.prems have "\<forall>(t, dev, ty, p)\<in>set reqs. dev \<noteq> [] \<and> ty \<noteq> []" by auto
  note IH = snoc.IH [OF this]
  show ?case unfolding r run_requests_snoc
    using IH [of ty] ne
    by (auto simp: queue_command_commands queues_ok_queue_command last_request_def find_append
        update_conv')
qed

text \<open>Purging never changes what a display receives. Whatever sweeps ran up to the moment a
  display reconnects, the flush reports and emits the same as if none had run.\<close>

theorem flush_after_sweeps:
  assumes "queues_ok q" "\<forall>t\<in>set ts. t \<le> now" "dev \<noteq> []"
  shows "fst (flush_queue True builder now dev (fold sweep_queues ts q))
           = fst (flush_queue True builder now dev q)
    \<and> fst (snd (flush_queue True builder now dev (fold sweep_queues ts q)))
           = fst (snd (flush_queue True builder now dev q))"
  using assms by (simp add: flush_queue_view command_queue.view_purges)

text \<open>Last of type wins, within the time to live. After any history of requests, reconnecting
  emits exactly one command for each type whose latest request has not expired, with the payload
  of that latest request.\<close>

theorem flush_last_of_type:
  assumes "\<forall>(t, dev, ty, p)\<in>set reqs. dev \<noteq> [] \<and> ty \<noteq> []" "dev \<noteq> []"
  shows "\<exists>cs. fst (snd (flush_queue True builder now dev (run_requests ttl reqs no_queues)))
             = map (\<lambda>(ty, e). DeviceCommand (flushed_command ty e)) cs
    \<and> distinct_keys cs
    \<and> (\<forall>ty. map_of cs ty = (case last_request ttl reqs dev ty of
               None \<Rightarrow> None | Some e \<Rightarrow> if qc_expires e \<le> now then None else Some e))"
proof -
  let ?q = "run_requests ttl reqs no_queues"
  note look = run_requests_lookup [OF assms(1), of ttl dev]
  from look have ok: "queues_ok ?q" and np: "pending_playlist ?q = []" by blast+
  have m: "live_marker now ?q dev = None" by (simp add: live_marker_def np)
  have "map_of (live_commands now ?q dev) ty = (case last_request ttl reqs dev ty of
      None \<Rightarrow> None | Some e \<Rightarrow> if qc_expires e \<le> now then None else Some e)" for ty
    using look [of ty]
    by (simp add: live_commands_def map_of_filter_distinct queues_okD [OF ok] split: option.splits)
  moreover have "distinct_keys (live_commands now ?q dev)"
    by (simp add: live_commands_def distinct_keys_filter queues_okD [OF ok])
  moreover have "fst (snd (flush_queue True builder now dev ?q))
      = map (\<lambda>(ty, e). DeviceCommand (flushed_command ty e)) (live_commands now ?q dev)"
    by (simp add: flush_queue_view [OF assms(2)] view_emissions_def queue_view_def m marker_emission_def)
  ultimately show ?thesis by blast
qed

text \<open>A flush empties the queue of its display only: a second flush emits nothing, and what the
  other displays can still receive is unchanged.\<close>

theorem flush_drains:
  assumes "dev \<noteq> []" "now \<le> t"
  shows "snd (snd (flush_queue True builder now dev q)) = q' \<longrightarrow>
    fst (snd (flush_queue True builder t dev q')) = []
    \<and> (\<forall>d. d \<noteq> dev \<longrightarrow> queue_view t q' d = queue_view t q d)"
  using assms flush_queue_view(3) [OF assms(1), of t builder now q]
  by (auto simp: flush_queue_view(2) view_emissions_def marker_emission_def view_prune)

definition sample_queue :: queues where
  "sample_queue = run_requests 30 [(0, ''tv'', ''screen_off'', JNull), (5, ''tv'', ''reboot'', JNull),
     (20, ''tv'', ''screen_off'', JBool True)] no_queues"

theorem flush_after_sweeps_witness:
  "fst (flush_queue True None 36 ''tv'' (fold sweep_queues [31, 36] sample_queue))
     = fst (flush_queue True None 36 ''tv'' sample_queue)
   \<and> fst (snd (flush_queue True None 36 ''tv'' (fold sweep_queues [31, 36] sample_queue)))
     = [DeviceCommand (JObj [(''type'', JStr ''screen_off''), (''payload'', JBool True)])]"
proof -
  have ok: "queues_ok sample_queue"
    using run_requests_lookup [of "[(0, ''tv'', ''screen_off'', JNull), (5, ''tv'', ''reboot'', JNull),
       (20, ''tv'', ''screen_off'', JBool True)]"] by (simp add: sample_queue_def)
  have e: "fst (snd (flush_queue True None 36 ''tv'' sample_queue))
     = [DeviceCommand (JObj [(''type'', JStr ''screen_off''), (''payload'', JBool True)])]"
    by code_simp
  show ?thesis
    using flush_after_sweeps [OF ok, of "[31, 36]" 36 "''tv''" None] e by simp
qed

theorem flush_last_of_type_witness:
  "last_request 30 [(0, ''tv'', ''off'', JNull), (20, ''tv'', ''off'', JBool True)] ''tv'' ''off''
     = Some \<lparr>qc_payload = JBool True, qc_expires = 50\<rparr>
   \<and> (\<exists>cs. fst (snd (flush_queue True None 36 ''tv''
              (run_requests 30 [(0, ''tv'', ''off'', JNull), (20, ''tv'', ''off'', JBool True)] no_queues)))
             = map (\<lambda>(ty, e). DeviceCommand (flushed_command ty e)) cs
        \<and> map_of cs ''off'' = Some \<lparr>qc_payload = JBool True, qc_expires = 50\<rparr>)"
proof -
  let ?r = "[(0, ''tv'', ''off'', JNull), (20, ''tv'', ''off'', JBool True)]"
  have l: "last_request 30 ?r ''tv'' ''off'' = Some \<lparr>qc_payload = JBool True, qc_expires = 50\<rparr>"
    by (simp add: last_request_def js_or_def)
  have "\<exists>cs. fst (snd (flush_queue True None 36 ''tv'' (run_requests 30 ?r no_queues)))
             = map (\<lambda>(ty, e). DeviceCommand (flushed_command ty e)) cs
      \<and> distinct_keys cs \<and> (\<forall>ty. map_of cs ty = (case last_request 30 ?r ''tv'' ty of
               None \<Rightarrow> None | Some e \<Rightarrow> if qc_expires e \<le> 36 then None else Some e))"
    by (rule flush_last_of_type) simp_all
  with l show ?thesis by force
qed

theorem flush_drains_witness:
  "fst (snd (flush_queue True None 40 ''tv'' (snd (snd (flush_queue True None 36 ''tv'' sample_queue))))) = []"
  using flush_drains [of "''tv''" 36 40 None sample_queue] by simp

end
