(* ===== verification/CommandModel.thy ===== *)
theory CommandModel
  imports Stores DeviceContract
begin

text \<open>
  The persisted command and display-state model (\<open>server/lib/command-model.js\<close>): every relayed
  command is a row of \<open>command_logs\<close>, acknowledged, failed or timed out later; the reported state
  of a display is merged into \<open>display_states\<close> under a revision.

  The two tables are fields of \<open>store\<close>; rows are in insertion order. Column affinity is not
  modelled (a value is stored as bound) and the only failure of a statement is the primary key of
  \<open>command_logs\<close>. Tables that other modules write, the configuration and the generators are the
  fields of \<open>env\<close>. Strings that callers must supply are \<open>string\<close>, absent ones empty.
\<close>

subsection \<open>Tables\<close>

datatype command_status = CmdSent | CmdAcked | CmdTimeout | CmdFailed

datatype stored_text = NullText | RawText string | JsonText jsval

record log_row =
  lg_id :: string
  lg_target_type :: string
  lg_target :: string
  lg_command :: string
  lg_payload :: stored_text
  lg_revision :: nat
  lg_parent :: "string option"
  lg_issued_by :: jsval
  lg_created :: rat
  lg_requires_ack :: bool
  lg_deadline :: "rat option"
  lg_status :: command_status
  lg_ack_at :: "rat option"
  lg_ack_error :: jsval

record display_row =
  ds_cols :: "(string \<times> jsval) list"
  ds_heartbeat :: "rat option"
  ds_revision :: int
  ds_updated :: rat

record store =
  logs :: "log_row list"
  displays :: "((string \<times> string) \<times> display_row) list"
  node_beats :: "(string \<times> rat) list"
  ids_used :: nat

record env =
  wall_members :: "string \<Rightarrow> string list"
  group_members :: "string \<Rightarrow> string list"
  ws_for_wall :: "string \<Rightarrow> string option"
  ws_for_group :: "string \<Rightarrow> string option"
  ws_for_device :: "string \<Rightarrow> string option"
  new_id :: "nat \<Rightarrow> string"
  iso_date :: string
  parse_json :: "string \<Rightarrow> jsval option"
  authority_setting :: string
  ack_timeout :: rat
  max_retries :: nat

subsection \<open>Ingesting commands\<close>

definition next_revision :: "string \<Rightarrow> log_row list \<Rightarrow> nat" where
  "next_revision tid rows = max0 (map lg_revision (filter (\<lambda>r. lg_target r = tid) rows)) + 1"

definition fan_out_targets :: "env \<Rightarrow> string \<Rightarrow> string \<Rightarrow> string list" where
  "fan_out_targets e ty tid =
     (if ty = ''wall'' then wall_members e tid
      else if ty = ''group'' then group_members e tid else [])"

record ingest_input =
  ia_type :: string
  ia_target :: string
  ia_command :: string
  ia_payload :: jsval
  ia_issued_by :: jsval
  ia_requires_ack :: bool
  ia_id :: string
  ia_created :: jsval

definition payload_text :: "jsval \<Rightarrow> stored_text" where
  "payload_text v = (case v of JUndef \<Rightarrow> NullText | JNull \<Rightarrow> NullText | JStr s \<Rightarrow> RawText s
                     | _ \<Rightarrow> JsonText (json_clean v))"

definition created_time :: "rat \<Rightarrow> jsval \<Rightarrow> rat" where
  "created_time now v = (case to_num v of Fin r \<Rightarrow> r | _ \<Rightarrow> now)"

definition insert_log :: "log_row \<Rightarrow> log_row list \<Rightarrow> log_row list option" where
  "insert_log r rows = (if lg_id r \<in> lg_id ` set rows then None else Some (rows @ [r]))"

text \<open>The rows \<open>ingestCommand\<close> inserts: the parent, then one per member, each with the next
  revision of its own target at that point.\<close>

definition command_row :: "ingest_input \<Rightarrow> env \<Rightarrow> rat \<Rightarrow> string \<Rightarrow> string \<Rightarrow> string \<Rightarrow> string option
    \<Rightarrow> log_row list \<Rightarrow> log_row" where
  "command_row a e now i ty tid parent rows =
     (let created = created_time now (ia_created a) in
      \<lparr>lg_id = i, lg_target_type = ty, lg_target = tid, lg_command = ia_command a,
       lg_payload = payload_text (ia_payload a), lg_revision = next_revision tid rows,
       lg_parent = parent, lg_issued_by = js_or (ia_issued_by a) JNull, lg_created = created,
       lg_requires_ack = ia_requires_ack a,
       lg_deadline = (if ia_requires_ack a then Some (created + ack_timeout e) else None),
       lg_status = CmdSent, lg_ack_at = None, lg_ack_error = JNull\<rparr>)"

fun insert_children :: "ingest_input \<Rightarrow> env \<Rightarrow> rat \<Rightarrow> string \<Rightarrow> string list \<Rightarrow> nat \<Rightarrow> log_row list
    \<Rightarrow> (log_row list \<times> nat) option" where
  "insert_children a e now parent [] n rows = Some (rows, n)"
| "insert_children a e now parent (d # ds) n rows =
     (case insert_log (command_row a e now (new_id e n) ''display'' d (Some parent) rows) rows of
        None \<Rightarrow> None
      | Some rows' \<Rightarrow> insert_children a e now parent ds (Suc n) rows')"

text \<open>A violated primary key rolls the transaction back and throws (\<open>Inl\<close>).\<close>

definition ingest_command ::
  "env \<Rightarrow> rat \<Rightarrow> ingest_input \<Rightarrow> store \<Rightarrow> (string + log_row option) \<times> store" where
  "ingest_command e now a s =
     (if ia_type a = [] \<or> ia_target a = [] \<or> ia_command a = [] then (Inr None, s)
      else
        (let (cid, n) = (if ia_id a \<noteq> [] then (ia_id a, ids_used s)
                         else (new_id e (ids_used s), Suc (ids_used s)));
             row = command_row a e now cid (ia_type a) (ia_target a) None (logs s);
             members = fan_out_targets e (ia_type a) (ia_target a)
         in case insert_log row (logs s) of
              None \<Rightarrow> (Inl ''UNIQUE constraint failed: command_logs.command_id'', s\<lparr>ids_used := n\<rparr>)
            | Some rows \<Rightarrow>
                (case insert_children a e now cid members n rows of
                   None \<Rightarrow> (Inl ''UNIQUE constraint failed: command_logs.command_id'',
                            s\<lparr>ids_used := n + length members\<rparr>)
                 | Some (rows', n') \<Rightarrow>
                     (Inr (Some (row\<lparr>lg_revision := next_revision (ia_target a) rows' - 1\<rparr>)),
                      s\<lparr>logs := rows', ids_used := n'\<rparr>))))"

subsection \<open>Display state\<close>

definition state_cols :: "string list" where
  "state_cols = [''workspace_id'', ''current_content_id'', ''current_asset_id'', ''content_type'',
     ''layout_mode'', ''slide_index'', ''slide_count'', ''current_time'', ''duration'', ''paused'',
     ''muted'', ''operator_muted'', ''volume'', ''local_asset_ready'', ''last_ack_at'',
     ''render_state'', ''error_state'', ''idle_screensaver_id'', ''default_screensaver_id'',
     ''wall_id'', ''layout_id'', ''group_id'', ''member_id'', ''playback_revision'',
     ''command_revision'', ''screen_on'']"

definition numeric_cols :: "string list" where
  "numeric_cols = [''slide_index'', ''slide_count'', ''current_time'', ''duration'', ''volume'',
     ''last_ack_at'', ''playback_revision'']"

definition boolean_cols :: "string list" where
  "boolean_cols = [''paused'', ''muted'', ''operator_muted'', ''local_asset_ready'', ''screen_on'']"

fun to_sql_scalar :: "jsval \<Rightarrow> jsval" where
  "to_sql_scalar (JBool b) = (if b then jint 1 else jint 0)"
| "to_sql_scalar (JNum n) = (if is_finite n then JNum n else JNull)"
| "to_sql_scalar (JStr s) = JStr s"
| "to_sql_scalar _ = JNull"

definition to_state_scalar :: "string \<Rightarrow> jsval \<Rightarrow> jsval" where
  "to_state_scalar k v =
     (if is_nullish v then JNull
      else if k \<in> set boolean_cols then
        (if v = JBool True \<or> v = jint 1 \<or> v = JStr ''1'' then jint 1
         else if v = JBool False \<or> v = jint 0 \<or> v = JStr ''0'' then jint 0 else JNull)
      else if k \<in> set numeric_cols then
        (if is_finite (to_num v) then JNum (to_num v) else JNull)
      else to_sql_scalar v)"

fun num_positive :: "jsnum \<Rightarrow> bool" where
  "num_positive (Fin r) = (0 < r)"
| "num_positive PosInf = True"
| "num_positive _ = False"

text \<open>The audio authority of the classroom is a setting; empty means none is configured.\<close>

definition audio_authority_id :: "env \<Rightarrow> string option" where
  "audio_authority_id e = (let raw = trim (authority_setting e) in if raw = [] then None else Some raw)"

definition reports_unmuted :: "jsval \<Rightarrow> bool" where
  "reports_unmuted m \<longleftrightarrow> m = JBool False \<or> m = jint 0 \<or> m = JStr ''0''"

definition silence_follower :: "jsval \<Rightarrow> (string \<times> jsval) list" where
  "silence_follower st =
     (let n1 = (if reports_unmuted (fld st ''muted'') then set_field ''muted'' (JBool True) (obj_fields st)
                else obj_fields st);
          vol = fld (JObj n1) ''volume''
      in if \<not> is_nullish vol \<and> num_positive (to_num vol) then set_field ''volume'' (jint 0) n1 else n1)"

definition enforce_audio_authority :: "env \<Rightarrow> string \<Rightarrow> string \<Rightarrow> jsval \<Rightarrow> jsval" where
  "enforce_audio_authority e ty tid st =
     (if ty \<noteq> ''display'' \<or> \<not> is_object st then st
      else (case audio_authority_id e of
              None \<Rightarrow> st
            | Some auth \<Rightarrow> if tid = auth then JObj (obj_fields st) else JObj (silence_follower st)))"

definition scalar_cols :: "jsval \<Rightarrow> (string \<times> jsval) list" where
  "scalar_cols st = map (\<lambda>k. (k, to_state_scalar k (fld st k))) state_cols"

text \<open>\<open>SET c = COALESCE(?, c)\<close> for every column. SQLite reads the bare name \<open>current_time\<close> on the right as
  its keyword \<open>CURRENT_TIME\<close>, the time of day in UTC as text, and not as the column.\<close>

definition two_digits :: "nat \<Rightarrow> string" where
  "two_digits n = [digit_char (n div 10), digit_char (n mod 10)]"

definition sql_current_time :: "rat \<Rightarrow> string" where
  "sql_current_time now =
     (let s = nat (\<lfloor>now / 1000\<rfloor> mod 86400)
      in two_digits (s div 3600) @ '':'' @ two_digits (s div 60 mod 60) @ '':'' @ two_digits (s mod 60))"

definition coalesce_cols :: "rat \<Rightarrow> (string \<times> jsval) list \<Rightarrow> (string \<times> jsval) list \<Rightarrow> (string \<times> jsval) list" where
  "coalesce_cols now new old =
     map (\<lambda>(k, v). (k, if v \<noteq> JNull then v
                       else if k = ''current_time'' then JStr (sql_current_time now)
                       else fld (JObj old) k)) new"

datatype merge_result = Rejected string | Stale int | Applied int

definition supplied_revision :: "jsval \<Rightarrow> int option" where
  "supplied_revision v =
     (if is_nullish v then None
      else (case num_int (to_num v) of None \<Rightarrow> None | Some i \<Rightarrow> if 0 \<le> i then Some i else None))"

definition stored_revision :: "display_row option \<Rightarrow> int" where
  "stored_revision r = (case r of None \<Rightarrow> 0 | Some x \<Rightarrow> ds_revision x)"

definition merged_row :: "rat \<Rightarrow> jsval \<Rightarrow> int \<Rightarrow> display_row option \<Rightarrow> display_row" where
  "merged_row now st rv existing =
     (case existing of
        None \<Rightarrow> \<lparr>ds_cols = scalar_cols st, ds_heartbeat = None, ds_revision = rv, ds_updated = now\<rparr>
      | Some r \<Rightarrow>
          (let cols = coalesce_cols now (scalar_cols st) (ds_cols r);
               cleared = has_own st ''error_state'' \<and> fld st ''error_state'' = JNull
           in r\<lparr>ds_cols := (if cleared then set_field ''error_state'' JNull cols else cols),
                ds_revision := rv, ds_updated := now\<rparr>))"

definition merge_display_state ::
  "env \<Rightarrow> rat \<Rightarrow> string \<Rightarrow> string \<Rightarrow> jsval \<Rightarrow> store \<Rightarrow> merge_result \<times> store" where
  "merge_display_state e now ty tid state0 s =
     (if \<not> is_object state0 then (Rejected ''invalid_state'', s)
      else if ty = [] \<or> tid = [] then (Rejected ''invalid_target'', s)
      else
        (let st = enforce_audio_authority e ty tid state0;
             existing = map_of (displays s) (ty, tid);
             current = stored_revision existing;
             supplied = supplied_revision (fld st ''state_revision'')
         in case supplied of
              Some i \<Rightarrow>
                if i < current then (Stale current, s)
                else (Applied i, s\<lparr>displays := AList.update (ty, tid) (merged_row now st i existing) (displays s)\<rparr>)
            | None \<Rightarrow>
                (Applied (current + 1),
                 s\<lparr>displays := AList.update (ty, tid) (merged_row now st (current + 1) existing) (displays s)\<rparr>)))"

subsection \<open>Acknowledgements\<close>

definition update_rows :: "(log_row \<Rightarrow> bool) \<Rightarrow> (log_row \<Rightarrow> log_row) \<Rightarrow> log_row list \<Rightarrow> log_row list" where
  "update_rows P f rows = map (\<lambda>r. if P r then f r else r) rows"

definition settle :: "command_status \<Rightarrow> rat \<Rightarrow> jsval \<Rightarrow> log_row \<Rightarrow> log_row" where
  "settle st now err r = r\<lparr>lg_status := st, lg_ack_at := Some now, lg_ack_error := err\<rparr>"

text \<open>The query of \<open>bubbleParent\<close> selects the column \<open>status\<close> only, so the error it reads from
  the first failed child is absent.\<close>

definition bubble_parent :: "rat \<Rightarrow> string \<Rightarrow> log_row list \<Rightarrow> command_status option \<times> log_row list" where
  "bubble_parent now pid rows =
     (let statuses = map lg_status (filter (\<lambda>r. lg_parent r = Some pid) rows) in
      if statuses = [] then (None, rows)
      else if list_all (\<lambda>x. x = CmdAcked) statuses
        then (Some CmdAcked, update_rows (\<lambda>r. lg_id r = pid) (settle CmdAcked now JNull) rows)
      else if CmdFailed \<in> set statuses
        then (Some CmdFailed, update_rows (\<lambda>r. lg_id r = pid) (settle CmdFailed now JNull) rows)
      else (None, rows))"

definition ack_status :: "bool \<Rightarrow> command_status" where
  "ack_status ok = (if ok then CmdAcked else CmdFailed)"

definition ack_rows :: "rat \<Rightarrow> string \<Rightarrow> bool \<Rightarrow> jsval \<Rightarrow> log_row list \<Rightarrow> nat \<times> log_row list" where
  "ack_rows now cid ok err rows =
     (let hit = (\<lambda>r. lg_id r = cid \<and> lg_status r = CmdSent);
          n = length (filter hit rows);
          rows' = update_rows hit (settle (ack_status ok) now (if ok then JNull else js_or err JNull)) rows
      in if n = 0 then (0, rows')
         else (n, case find (\<lambda>r. lg_id r = cid) rows' of
                    Some child \<Rightarrow> (case lg_parent child of
                        Some pid \<Rightarrow> if pid = [] then rows' else snd (bubble_parent now pid rows')
                      | None \<Rightarrow> rows')
                  | None \<Rightarrow> rows'))"

definition record_ack ::
  "env \<Rightarrow> rat \<Rightarrow> string \<Rightarrow> bool \<Rightarrow> jsval \<Rightarrow> jsval \<Rightarrow> string \<Rightarrow> string \<Rightarrow> store
   \<Rightarrow> (string + (command_status \<times> nat) option) \<times> store" where
  "record_ack e now cid ok err state ty tid s =
     (if cid = [] then (Inr None, s)
      else
        (case ack_rows now cid ok err (logs s) of (n, rows) \<Rightarrow>
           (let s1 = s\<lparr>logs := rows\<rparr>; done = Inr (Some (ack_status ok, n)) in
            if truthy state \<and> ty \<noteq> [] \<and> tid \<noteq> [] then
              (case merge_display_state e now ty tid
                      (JObj (set_field ''last_ack_at'' (JNum (Fin now)) (obj_fields state))) s1 of
                 (Rejected why, s2) \<Rightarrow> (Inl why, s2)
               | (_, s2) \<Rightarrow> (done, s2))
            else (done, s1))))"

subsection \<open>Time-outs and retries\<close>

record retry =
  rt_id :: string
  rt_target :: string
  rt_command :: string
  rt_payload :: stored_text
  rt_revision :: nat
  rt_attempt :: nat

definition timed_out :: "rat \<Rightarrow> log_row \<Rightarrow> bool" where
  "timed_out now r \<longleftrightarrow> lg_status r = CmdSent \<and> lg_requires_ack r
     \<and> (case lg_deadline r of None \<Rightarrow> False | Some d \<Rightarrow> d < now)"

definition count_retries :: "string \<Rightarrow> string \<Rightarrow> log_row list \<Rightarrow> nat" where
  "count_retries tid ct rows = length (filter (\<lambda>r. lg_parent r = None \<and> lg_target r = tid
     \<and> lg_command r = ct \<and> lg_status r \<in> {CmdTimeout, CmdFailed}) rows)"

definition mark_timeout :: "rat \<Rightarrow> string \<Rightarrow> log_row list \<Rightarrow> log_row list" where
  "mark_timeout now cid rows =
     update_rows (\<lambda>r. lg_id r = cid \<and> lg_status r = CmdSent)
       (\<lambda>r. r\<lparr>lg_status := CmdTimeout, lg_ack_at := Some now\<rparr>) rows"

definition is_parent_row :: "log_row \<Rightarrow> bool" where
  "is_parent_row r \<longleftrightarrow> (case lg_parent r of None \<Rightarrow> True | Some p \<Rightarrow> p = [])"

fun tick_rows :: "nat \<Rightarrow> rat \<Rightarrow> log_row list \<Rightarrow> log_row list \<Rightarrow> log_row list \<times> retry list" where
  "tick_rows mx now [] rows = (rows, [])"
| "tick_rows mx now (r # rs) rows =
     (let rows' = mark_timeout now (lg_id r) rows;
          n = count_retries (lg_target r) (lg_command r) rows';
          retries = (if is_parent_row r \<and> n < mx
            then [\<lparr>rt_id = lg_id r, rt_target = lg_target r, rt_command = lg_command r,
                   rt_payload = lg_payload r, rt_revision = lg_revision r, rt_attempt = n\<rparr>] else [])
      in case tick_rows mx now rs rows' of (rows'', later) \<Rightarrow> (rows'', retries @ later))"

definition tick_ack_timeouts :: "env \<Rightarrow> rat \<Rightarrow> store \<Rightarrow> (retry list \<times> log_row list) \<times> store" where
  "tick_ack_timeouts e now s =
     (let due = filter (timed_out now) (logs s) in
      case tick_rows (max_retries e) now due (logs s) of (rows, retries) \<Rightarrow>
        ((retries, due), s\<lparr>logs := rows\<rparr>))"

definition workspace_room_for_target :: "env \<Rightarrow> string \<Rightarrow> string \<Rightarrow> string option" where
  "workspace_room_for_target e ty tid =
     (if ty = [] \<or> tid = [] then None
      else (case (if ty = ''wall'' then ws_for_wall e tid
                  else if ty = ''group'' then ws_for_group e tid else ws_for_device e tid) of
              None \<Rightarrow> None
            | Some w \<Rightarrow> if w = [] then None else Some (''workspace:'' @ w)))"

datatype sweep_effect =
    AckBroadcast string jsval
  | RoomSnapshot string
  | RetryEmit string jsval

definition timeout_ack :: "env \<Rightarrow> log_row \<Rightarrow> jsval" where
  "timeout_ack e r = JObj [(''command_id'', JStr (lg_id r)), (''target_type'', JStr (lg_target_type r)),
     (''target_id'', JStr (lg_target r)), (''ok'', JBool False), (''status'', JStr ''timeout''),
     (''error'', JStr (''Command not acknowledged within '' @ int_str (js_round (ack_timeout e / 1000)) @ ''s''))]"

definition timeout_broadcasts :: "env \<Rightarrow> log_row list \<Rightarrow> sweep_effect list" where
  "timeout_broadcasts e due = concat (map (\<lambda>r.
     if \<not> is_parent_row r then []
     else (case workspace_room_for_target e (lg_target_type r) (lg_target r) of
             None \<Rightarrow> []
           | Some room \<Rightarrow> [AckBroadcast room (timeout_ack e r),
                           RoomSnapshot (drop (length ''workspace:'') room)])) due)"

definition stored_value :: "env \<Rightarrow> stored_text \<Rightarrow> jsval option" where
  "stored_value e p = (case p of NullText \<Rightarrow> Some (JObj [])
     | RawText t \<Rightarrow> if t = [] then Some (JObj []) else parse_json e t | JsonText v \<Rightarrow> Some v)"

definition retry_args :: "retry \<Rightarrow> jsval \<Rightarrow> ingest_input" where
  "retry_args r v = \<lparr>ia_type = ''display'', ia_target = rt_target r, ia_command = rt_command r,
     ia_payload = v, ia_issued_by = JUndef, ia_requires_ack = True, ia_id = [], ia_created = JUndef\<rparr>"

definition retry_envelope :: "env \<Rightarrow> string \<Rightarrow> retry \<Rightarrow> jsval \<Rightarrow> log_row \<Rightarrow> jsval" where
  "retry_envelope e uuid r v row =
     JObj (set_field ''target_revision'' (jint (int (lg_revision row)))
       (obj_fields (create_command uuid (iso_date e)
          (JObj [(''command_id'', JStr (lg_id row)), (''device_id'', JStr (rt_target r)),
                 (''target_scope'', JStr ''display''),
                 (''payload'', JObj (merge_fields (obj_fields v)
                    [(''target_revision'', jint (int (lg_revision row))),
                     (''action'', JStr (rt_command r))]))]))))"

fun reissue :: "env \<Rightarrow> rat \<Rightarrow> retry list \<Rightarrow> store \<Rightarrow> sweep_effect list \<times> store" where
  "reissue e now [] s = ([], s)"
| "reissue e now (r # rs) s =
     (case stored_value e (rt_payload r) of
        None \<Rightarrow> reissue e now rs s
      | Some v \<Rightarrow>
          (case ingest_command e now (retry_args r v) s of
             (Inr (Some row), s') \<Rightarrow>
               (case reissue e now rs s' of (es, s'') \<Rightarrow>
                  (RetryEmit (rt_target r) (retry_envelope e (new_id e (ids_used s')) r v row) # es, s''))
           | (_, s') \<Rightarrow> reissue e now rs s'))"

text \<open>One tick of the acknowledgement sweep.\<close>

definition ack_sweep :: "env \<Rightarrow> rat \<Rightarrow> store \<Rightarrow> sweep_effect list \<times> store" where
  "ack_sweep e now s =
     (case tick_ack_timeouts e now s of ((retries, due), s1) \<Rightarrow>
        (case reissue e now retries s1 of (es, s2) \<Rightarrow> (timeout_broadcasts e due @ es, s2)))"

definition record_heartbeat :: "rat \<Rightarrow> string \<Rightarrow> string \<Rightarrow> rat \<Rightarrow> store \<Rightarrow> store" where
  "record_heartbeat clock ty tid ts s =
     (if tid = [] then s
      else
        (let now = (if ts \<noteq> 0 then of_int \<lfloor>ts\<rfloor> else clock);
             row = (case map_of (displays s) (ty, tid) of
                      None \<Rightarrow> \<lparr>ds_cols = scalar_cols JUndef, ds_heartbeat = Some now, ds_revision = 0,
                               ds_updated = now\<rparr>
                    | Some r \<Rightarrow> r\<lparr>ds_heartbeat := Some now, ds_updated := now\<rparr>);
             s1 = s\<lparr>displays := AList.update (ty, tid) row (displays s)\<rparr>
         in if ty = ''node'' \<and> map_of (node_beats s) tid \<noteq> None
            then s1\<lparr>node_beats := AList.update tid now (node_beats s1)\<rparr> else s1))"

definition ack_eligible_types :: "string list" where
  "ack_eligible_types = [''play'', ''pause'', ''prev'', ''next'', ''restart'', ''play_pause'',
     ''transport'', ''blank'', ''screen_on'', ''screen_off'', ''screensaver'', ''grid'']"

definition ack_required_for_type :: "jsval \<Rightarrow> bool" where
  "ack_required_for_type ty \<longleftrightarrow> to_lower (to_str (js_or ty (JStr []))) \<in> set ack_eligible_types"

subsection \<open>The single audio authority of the classroom\<close>

definition authority_names :: "string list" where
  "authority_names = [''front left'', ''classroom 1 - front left'', ''classroom1 - front left'', ''fl'']"

definition follower_names :: "string list" where
  "follower_names = [''front center'', ''front right'', ''side left'', ''side right'']"

record device =
  dev_id :: string
  dev_name :: jsval

definition norm_name :: "jsval \<Rightarrow> string" where
  "norm_name v = to_lower (text_of v)"

record audio_roles =
  ar_authority :: "device option"
  ar_followers :: "device list"

definition resolve_classroom_audio_authority :: "device list \<Rightarrow> audio_roles" where
  "resolve_classroom_audio_authority devices =
     (let auth = find (\<lambda>d. norm_name (dev_name d) \<in> set authority_names) devices
      in \<lparr>ar_authority = auth,
          ar_followers = filter (\<lambda>d. \<not> (case auth of None \<Rightarrow> False | Some a \<Rightarrow> dev_id d = dev_id a)
             \<and> (\<exists>al\<in>set follower_names. str_includes (norm_name (dev_name d)) al)) devices\<rparr>)"

datatype mute_reason = SingleAuthority | AuthorityInvalid | AuthorityOffline | FollowerMustMute

record mute_entry =
  me_device :: string
  me_name :: jsval
  me_authority :: bool
  me_muted :: bool
  me_reason :: mute_reason

definition authority_online :: "audio_roles \<Rightarrow> string list option \<Rightarrow> bool" where
  "authority_online roles online =
     (case ar_authority roles of
        None \<Rightarrow> False
      | Some a \<Rightarrow> dev_id a \<noteq> [] \<and> (case online of None \<Rightarrow> True | Some ids \<Rightarrow> dev_id a \<in> set ids))"

definition is_authority :: "audio_roles \<Rightarrow> device \<Rightarrow> bool" where
  "is_authority roles d = (case ar_authority roles of None \<Rightarrow> False | Some a \<Rightarrow> dev_id a \<noteq> [] \<and> dev_id d = dev_id a)"

definition mute_entry_of :: "audio_roles \<Rightarrow> string list option \<Rightarrow> device \<Rightarrow> mute_entry list" where
  "mute_entry_of roles online d =
     (let auth = is_authority roles d in
      if dev_id d = [] \<or> (\<not> auth \<and> \<not> (\<exists>f\<in>set (ar_followers roles). dev_id f = dev_id d)) then []
      else [\<lparr>me_device = dev_id d, me_name = dev_name d, me_authority = auth,
             me_muted = (if auth then ar_authority roles = None \<or> \<not> authority_online roles online
                         else True),
             me_reason = (if \<not> auth then FollowerMustMute
                          else if ar_authority roles = None \<or> \<not> authority_online roles online
                            then (if authority_online roles online then AuthorityInvalid
                                  else AuthorityOffline)
                          else SingleAuthority)\<rparr>])"

definition classroom_audio_mute_plan :: "device list \<Rightarrow> string list option \<Rightarrow> mute_entry list" where
  "classroom_audio_mute_plan devices online =
     (let roles = resolve_classroom_audio_authority devices
      in concat (map (mute_entry_of roles online) devices))"

end
