(* ===== verification/CommandModelProps.thy ===== *)
theory CommandModelProps
  imports CommandModel
begin

text \<open>
  Correctness of the command and display-state model: an append-only log with one revision
  counter per target, rows that settle once, aggregates that follow their members, followers that
  are never recorded as sounding, and the retry budget.
\<close>

subsection \<open>The steps of the model\<close>

text \<open>A step is one call; all rows of the log are looked at through their immutable columns.\<close>

inductive cm_step :: "env \<Rightarrow> store \<Rightarrow> store \<Rightarrow> bool" for e where
  ingest: "ingest_command e now a s = (r, s') \<Longrightarrow> cm_step e s s'"
| ack: "record_ack e now cid ok err st ty tid s = (r, s') \<Longrightarrow> cm_step e s s'"
| sweep: "ack_sweep e now s = (es, s') \<Longrightarrow> cm_step e s s'"
| merge: "merge_display_state e now ty tid st s = (r, s') \<Longrightarrow> cm_step e s s'"
| beat: "record_heartbeat clock ty tid ts s = s' \<Longrightarrow> cm_step e s s'"

inductive_cases cm_stepE: "cm_step e s s'"

inductive cm_reachable :: "env \<Rightarrow> store \<Rightarrow> bool" for e where
  start: "cm_reachable e \<lparr>logs = [], displays = [], node_beats = nodes, ids_used = 0\<rparr>"
| step: "cm_reachable e s \<Longrightarrow> cm_step e s s' \<Longrightarrow> cm_reachable e s'"

definition row_key :: "log_row \<Rightarrow> string \<times> string \<times> nat \<times> string option" where
  "row_key r = (lg_id r, lg_target r, lg_revision r, lg_parent r)"

definition keys_ok :: "(string \<times> string \<times> nat \<times> string option) list \<Rightarrow> bool" where
  "keys_ok ks \<longleftrightarrow> distinct (map fst ks)
     \<and> sorted_wrt (\<lambda>(_, t, n, _) (_, t', n', _). t = t' \<longrightarrow> n < n') ks"

lemma row_key_update:
  "(\<And>r. row_key (f r) = row_key r) \<Longrightarrow> map row_key (update_rows P f rows) = map row_key rows"
  by (induction rows) (auto simp: update_rows_def)

lemma row_key_settle [simp]: "row_key (settle st now err r) = row_key r"
  by (simp add: settle_def row_key_def)

lemma row_key_mark [simp]: "map row_key (mark_timeout now cid rows) = map row_key rows"
  unfolding mark_timeout_def by (rule row_key_update) (simp add: row_key_def)

lemma row_key_bubble [simp]: "map row_key (snd (bubble_parent now pid rows)) = map row_key rows"
  by (simp add: bubble_parent_def Let_def row_key_update)

lemma row_key_ack: "map row_key (snd (ack_rows now cid ok err rows)) = map row_key rows"
  by (simp add: ack_rows_def Let_def row_key_update split: option.splits)

lemma row_key_tick: "map row_key (fst (tick_rows mx now due rows)) = map row_key rows"
  by (induction due arbitrary: rows) (auto simp: Let_def split: prod.splits, metis fst_conv row_key_mark)

text \<open>Appending a row with the next revision of its target.\<close>

lemma next_revision_gt: "r \<in> set rows \<Longrightarrow> lg_target r = t \<Longrightarrow> lg_revision r < next_revision t rows"
  using max0_ge [of "lg_revision r" "map lg_revision (filter (\<lambda>r. lg_target r = t) rows)"]
  by (auto simp: next_revision_def)

lemma keys_ok_insert:
  assumes ok: "keys_ok (map row_key rows)" and i: "insert_log r rows = Some rows'"
    and n: "lg_revision r = next_revision (lg_target r) rows"
  shows "keys_ok (map row_key rows')"
proof -
  from i have r: "rows' = rows @ [r]" and f: "lg_id r \<notin> lg_id ` set rows"
    by (auto simp: insert_log_def split: if_splits)
  have "\<And>x. x \<in> set rows \<Longrightarrow> lg_target x = lg_target r \<Longrightarrow> lg_revision x < lg_revision r"
    using n by (simp add: next_revision_gt)
  with ok f show ?thesis
    by (auto simp: r keys_ok_def sorted_wrt_append row_key_def o_def)
qed

lemma command_row_sel [simp]:
  "lg_id (command_row a e now i ty tid p rows) = i"
  "lg_target (command_row a e now i ty tid p rows) = tid"
  "lg_target_type (command_row a e now i ty tid p rows) = ty"
  "lg_parent (command_row a e now i ty tid p rows) = p"
  "lg_revision (command_row a e now i ty tid p rows) = next_revision tid rows"
  "lg_status (command_row a e now i ty tid p rows) = CmdSent"
  "lg_command (command_row a e now i ty tid p rows) = ia_command a"
  by (simp_all add: command_row_def Let_def)

lemma insert_children_keys:
  "insert_children a e now p ds n rows = Some (rows', n') \<Longrightarrow> keys_ok (map row_key rows)
   \<Longrightarrow> keys_ok (map row_key rows') \<and> (\<exists>new. rows' = rows @ new \<and> map lg_target new = ds
         \<and> (\<forall>r\<in>set new. lg_parent r = Some p \<and> lg_target_type r = ''display'' \<and> lg_command r = ia_command a
              \<and> lg_status r = CmdSent))"
proof (induction ds arbitrary: n rows)
  case Nil
  then show ?case by simp
next
  case (Cons d ds)
  let ?r = "command_row a e now (new_id e n) ''display'' d (Some p) rows"
  from Cons.prems(1) obtain mid where i: "insert_log ?r rows = Some mid"
    and c: "insert_children a e now p ds (Suc n) mid = Some (rows', n')"
    by (auto split: option.splits)
  from i have mid: "mid = rows @ [?r]" by (auto simp: insert_log_def split: if_splits)
  have "keys_ok (map row_key mid)" by (rule keys_ok_insert [OF Cons.prems(2) i]) simp
  from Cons.IH [OF c this] obtain new where
    "keys_ok (map row_key rows')" "rows' = mid @ new" "map lg_target new = ds"
    "\<forall>r\<in>set new. lg_parent r = Some p \<and> lg_target_type r = ''display'' \<and> lg_command r = ia_command a \<and> lg_status r = CmdSent"
    by blast
  then show ?case by (auto simp: mid intro!: exI [of _ "?r # new"])
qed

text \<open>What a call of \<open>ingestCommand\<close> does to the log.\<close>

definition children_of :: "string \<Rightarrow> string \<Rightarrow> string list \<Rightarrow> log_row list \<Rightarrow> bool" where
  "children_of ct pid ds rows \<longleftrightarrow> map lg_target rows = ds
     \<and> (\<forall>r\<in>set rows. lg_parent r = Some pid \<and> lg_target_type r = ''display''
          \<and> lg_command r = ct \<and> lg_status r = CmdSent)"

lemma ingest_cases:
  assumes "ingest_command e now a s = (res, s')" "keys_ok (map row_key (logs s))"
  shows "keys_ok (map row_key (logs s')) \<and> displays s' = displays s \<and>
    ((logs s' = logs s \<and> (res = Inr None \<or> (\<exists>m. res = Inl m))) \<or>
     (\<exists>p new. logs s' = logs s @ p # new \<and> lg_parent p = None \<and> lg_target_type p = ia_type a
        \<and> lg_target p = ia_target a \<and> lg_command p = ia_command a \<and> lg_status p = CmdSent
        \<and> (ia_id a \<noteq> [] \<longrightarrow> lg_id p = ia_id a)
        \<and> children_of (ia_command a) (lg_id p) (fan_out_targets e (ia_type a) (ia_target a)) new
        \<and> (\<exists>row. res = Inr (Some row) \<and> lg_id row = lg_id p)))"
proof (cases "ia_type a = [] \<or> ia_target a = [] \<or> ia_command a = []")
  case True
  with assms show ?thesis by (auto simp: ingest_command_def)
next
  case False
  define cid where "cid = (if ia_id a \<noteq> [] then ia_id a else new_id e (ids_used s))"
  define n where "n = (if ia_id a \<noteq> [] then ids_used s else Suc (ids_used s))"
  let ?p = "command_row a e now cid (ia_type a) (ia_target a) None (logs s)"
  let ?m = "fan_out_targets e (ia_type a) (ia_target a)"
  have eq: "ingest_command e now a s = (case insert_log ?p (logs s) of
              None \<Rightarrow> (Inl ''UNIQUE constraint failed: command_logs.command_id'', s\<lparr>ids_used := n\<rparr>)
            | Some rows \<Rightarrow>
                (case insert_children a e now cid ?m n rows of
                   None \<Rightarrow> (Inl ''UNIQUE constraint failed: command_logs.command_id'',
                            s\<lparr>ids_used := n + length ?m\<rparr>)
                 | Some (rows', n') \<Rightarrow>
                     (Inr (Some (?p\<lparr>lg_revision := next_revision (ia_target a) rows' - 1\<rparr>)),
                      s\<lparr>logs := rows', ids_used := n'\<rparr>)))"
    using False by (cases "ia_id a = []")
      (simp_all add: ingest_command_def cid_def n_def Let_def cong: option.case_cong)
  show ?thesis
  proof (cases "insert_log ?p (logs s)")
    case None
    with assms show ?thesis unfolding eq by auto
  next
    case (Some rows)
    then have rows: "rows = logs s @ [?p]" by (auto simp: insert_log_def split: if_splits)
    have ok: "keys_ok (map row_key rows)" by (rule keys_ok_insert [OF assms(2) Some]) simp
    show ?thesis
    proof (cases "insert_children a e now cid ?m n rows")
      case None
      with Some assms show ?thesis unfolding eq by auto
    next
      case (Some r)
      then obtain rows' n' where r: "insert_children a e now cid ?m n rows = Some (rows', n')"
        by (cases r) auto
      from insert_children_keys [OF this ok] obtain new where
        k: "keys_ok (map row_key rows')" and nw: "rows' = rows @ new"
        and ch: "children_of (ia_command a) cid ?m new"
        by (auto simp: children_of_def)
      from \<open>insert_log ?p (logs s) = Some rows\<close> r assms(1)
      have "res = Inr (Some (?p\<lparr>lg_revision := next_revision (ia_target a) rows' - 1\<rparr>))"
        and "logs s' = rows'" and "displays s' = displays s"
        unfolding eq by auto
      moreover have "ia_id a \<noteq> [] \<longrightarrow> cid = ia_id a" by (simp add: cid_def)
      moreover have "rows' = logs s @ ?p # new" by (simp add: nw rows)
      ultimately show ?thesis using k ch
        by (intro conjI disjI2) simp_all
    qed
  qed
qed


text \<open>Every step extends the log: it amends rows in place, keeping their immutable columns,
  and appends. A row that is settled and has no children keeps its place and its contents.\<close>

definition final_row :: "log_row list \<Rightarrow> log_row \<Rightarrow> bool" where
  "final_row rows r \<longleftrightarrow> lg_status r \<noteq> CmdSent \<and> (\<forall>c\<in>set rows. lg_parent c \<noteq> Some (lg_id r))"

definition amends :: "log_row list \<Rightarrow> log_row list \<Rightarrow> bool" where
  "amends rows rows' \<longleftrightarrow> map row_key rows' = map row_key rows
     \<and> (\<forall>i<length rows. final_row rows (rows ! i) \<longrightarrow> rows' ! i = rows ! i)"

definition extends :: "log_row list \<Rightarrow> log_row list \<Rightarrow> bool" where
  "extends rows rows' \<longleftrightarrow> (\<exists>mid new. amends rows mid \<and> rows' = mid @ new)"

lemma amends_refl [simp]: "amends rows rows"
  by (simp add: amends_def)

lemma amends_length: "amends rows rows' \<Longrightarrow> length rows' = length rows"
  unfolding amends_def by (metis length_map)

lemma key_parent: "map row_key rows' = map row_key rows \<Longrightarrow>
   (\<forall>c\<in>set rows'. lg_parent c \<noteq> Some p) \<longleftrightarrow> (\<forall>c\<in>set rows. lg_parent c \<noteq> Some p)"
proof -
  assume "map row_key rows' = map row_key rows"
  then have "map (snd \<circ> snd \<circ> snd) (map row_key rows') = map (snd \<circ> snd \<circ> snd) (map row_key rows)"
    by simp
  then have "map lg_parent rows' = map lg_parent rows" by (simp add: row_key_def o_def)
  then have "set (map lg_parent rows') = set (map lg_parent rows)" by simp
  then have "lg_parent ` set rows' = lg_parent ` set rows" by simp
  moreover have "(\<forall>c\<in>set xs. lg_parent c \<noteq> Some p) \<longleftrightarrow> Some p \<notin> lg_parent ` set xs"
    for xs :: "log_row list" by (auto simp: image_iff)
  ultimately show ?thesis by metis
qed

lemma amends_trans: "amends a b \<Longrightarrow> amends b c \<Longrightarrow> amends a c"
  unfolding amends_def final_row_def
  by (metis (no_types, lifting) key_parent length_map)

lemma amends_update:
  assumes "\<And>r. row_key (f r) = row_key r"
    and "\<And>r. r \<in> set rows \<Longrightarrow> P r \<Longrightarrow> \<not> final_row rows r"
  shows "amends rows (update_rows P f rows)"
  using assms unfolding amends_def by (simp add: row_key_update) (auto simp: update_rows_def)

lemma amends_mark: "amends rows (mark_timeout now cid rows)"
  unfolding mark_timeout_def
  by (rule amends_update) (simp_all add: row_key_def final_row_def)

lemma amends_tick: "amends rows (fst (tick_rows mx now due rows))"
proof (induction due arbitrary: rows)
  case Nil
  show ?case by simp
next
  case (Cons r due)
  have "fst (tick_rows mx now (r # due) rows) = fst (tick_rows mx now due (mark_timeout now (lg_id r) rows))"
    by (simp add: Let_def split: prod.split)
  with amends_trans [OF amends_mark Cons] show ?case by simp
qed

lemma amends_bubble: "amends rows (snd (bubble_parent now pid rows))"
proof (cases "filter (\<lambda>r. lg_parent r = Some pid) rows = []")
  case True
  then show ?thesis by (simp add: bubble_parent_def)
next
  case False
  then have "\<exists>c\<in>set rows. lg_parent c = Some pid" by (simp add: filter_empty_conv)
  then have u: "amends rows (update_rows (\<lambda>r. lg_id r = pid) (settle st now JNull) rows)" for st
    by (intro amends_update) (auto simp: final_row_def)
  with False show ?thesis by (simp add: bubble_parent_def Let_def)
qed

lemma amends_ack: "amends rows (snd (ack_rows now cid ok err rows))"
proof -
  let ?hit = "\<lambda>r. lg_id r = cid \<and> lg_status r = CmdSent"
  have u: "amends rows (update_rows ?hit (settle st now x) rows)" for st x
    by (rule amends_update) (auto simp: final_row_def)
  then have "amends rows (snd (bubble_parent now pid (update_rows ?hit (settle st now x) rows)))" for st x pid
    by (rule amends_trans) (rule amends_bubble)
  with u show ?thesis by (simp add: ack_rows_def Let_def split: option.splits)
qed

lemma extends_rewrites: "amends a b \<Longrightarrow> extends a b"
  unfolding extends_def by (metis append_Nil2)

lemma extends_append: "extends a b \<Longrightarrow> extends a (b @ c)"
  unfolding extends_def by (metis append.assoc)

lemma ingest_extends:
  assumes "ingest_command e now a s = (res, s')" "keys_ok (map row_key (logs s))"
  shows "\<exists>new. logs s' = logs s @ new" "keys_ok (map row_key (logs s'))" "displays s' = displays s"
  using ingest_cases [OF assms] by auto

text \<open>Reissuing appends rows for displays, none of them a child.\<close>

lemma reissue_rows:
  assumes "reissue e now rs s = (es, s')" "keys_ok (map row_key (logs s))"
  shows "keys_ok (map row_key (logs s')) \<and> displays s' = displays s
    \<and> (\<exists>new. logs s' = logs s @ new \<and> (\<forall>r\<in>set new. lg_target_type r = ''display'' \<and> lg_parent r = None))"
  using assms
proof (induction rs arbitrary: s es)
  case Nil
  then show ?case by simp
next
  case (Cons r rs)
  show ?case
  proof (cases "stored_value e (rt_payload r)")
    case None
    with Cons show ?thesis by simp
  next
    case (Some v)
    obtain res s1 where i: "ingest_command e now (retry_args r v) s = (res, s1)"
      by (cases "ingest_command e now (retry_args r v) s")
    from ingest_cases [OF i Cons.prems(2)]
    have k: "keys_ok (map row_key (logs s1))" and d: "displays s1 = displays s"
      and n: "\<exists>new. logs s1 = logs s @ new \<and> (\<forall>r\<in>set new. lg_target_type r = ''display'' \<and> lg_parent r = None)"
      by (auto simp: retry_args_def fan_out_targets_def children_of_def)
    from Some i Cons.prems(1) obtain es' where re: "reissue e now rs s1 = (es', s')"
      by (cases "reissue e now rs s1") (auto split: sum.splits option.splits)
    from Cons.IH [OF re k] d n show ?thesis by auto
  qed
qed

lemma ack_sweep_rows:
  assumes "ack_sweep e now s = (es, s')" "keys_ok (map row_key (logs s))"
  shows "keys_ok (map row_key (logs s')) \<and> displays s' = displays s \<and> extends (logs s) (logs s')"
proof -
  obtain mid rt where t: "tick_rows (max_retries e) now (filter (timed_out now) (logs s)) (logs s) = (mid, rt)"
    by (cases "tick_rows (max_retries e) now (filter (timed_out now) (logs s)) (logs s)")
  obtain es' where r: "reissue e now rt (s\<lparr>logs := mid\<rparr>) = (es', s')"
    using assms(1) t
    by (cases "reissue e now rt (s\<lparr>logs := mid\<rparr>)") (auto simp: ack_sweep_def tick_ack_timeouts_def)
  have w: "amends (logs s) mid"
    using amends_tick [of "logs s" "max_retries e" now "filter (timed_out now) (logs s)"] t by simp
  with assms(2) have "keys_ok (map row_key mid)" by (simp add: amends_def)
  with reissue_rows [OF r] w show ?thesis by (auto simp: extends_def)
qed

lemma merge_logs: "merge_display_state e now ty tid st s = (r, s') \<Longrightarrow> logs s' = logs s"
  by (auto simp: merge_display_state_def Let_def split: if_splits option.splits)

lemma beat_logs: "logs (record_heartbeat clock ty tid ts s) = logs s"
  by (simp add: record_heartbeat_def Let_def)

lemma record_ack_logs:
  "record_ack e now cid ok err st ty tid s = (r, s') \<Longrightarrow>
   logs s' = (if cid = [] then logs s else snd (ack_rows now cid ok err (logs s)))"
  by (auto simp: record_ack_def Let_def dest!: merge_logs split: if_splits prod.splits merge_result.splits)

lemma cm_step_log:
  assumes "cm_step e s s'" "keys_ok (map row_key (logs s))"
  shows "keys_ok (map row_key (logs s')) \<and> extends (logs s) (logs s')"
  using assms(1)
proof (rule cm_stepE)
  fix now a r assume "ingest_command e now a s = (r, s')"
  from ingest_extends [OF this assms(2)] show ?thesis
    by (metis extends_append extends_rewrites amends_refl)
next
  fix now cid ok err st ty tid r assume "record_ack e now cid ok err st ty tid s = (r, s')"
  from record_ack_logs [OF this] have "amends (logs s) (logs s')" by (simp add: amends_ack)
  with assms(2) show ?thesis by (simp add: extends_rewrites) (simp add: amends_def)
next
  fix now es assume "ack_sweep e now s = (es, s')"
  from ack_sweep_rows [OF this assms(2)] show ?thesis by simp
next
  fix now ty tid st r assume "merge_display_state e now ty tid st s = (r, s')"
  from merge_logs [OF this] assms(2) show ?thesis by (simp add: extends_rewrites)
next
  fix clock ty tid ts assume "record_heartbeat clock ty tid ts s = s'"
  with assms(2) show ?thesis by (auto simp: beat_logs extends_rewrites)
qed

lemma reachable_keys: "cm_reachable e s \<Longrightarrow> keys_ok (map row_key (logs s))"
  by (induction rule: cm_reachable.induct) (auto simp: keys_ok_def dest: cm_step_log [unfolded keys_ok_def])

subsection \<open>Aggregates\<close>

lemma filter_parent_update:
  assumes "\<And>r. lg_parent (f r) = lg_parent r" "\<And>r. P r \<Longrightarrow> r \<in> set rows \<Longrightarrow> lg_parent r \<noteq> Some pid"
  shows "filter (\<lambda>r. lg_parent r = Some pid) (update_rows P f rows)
       = filter (\<lambda>r. lg_parent r = Some pid) rows"
  using assms(2) by (induction rows) (auto simp: update_rows_def assms(1))

lemma keys_ok_unique:
  "keys_ok (map row_key rows) \<Longrightarrow> r \<in> set rows \<Longrightarrow> r' \<in> set rows \<Longrightarrow> lg_id r = lg_id r' \<Longrightarrow> r = r'"
proof -
  assume "keys_ok (map row_key rows)"
  then have "distinct (map lg_id rows)" by (simp add: keys_ok_def row_key_def o_def)
  then show "r \<in> set rows \<Longrightarrow> r' \<in> set rows \<Longrightarrow> lg_id r = lg_id r' \<Longrightarrow> r = r'"
    by (simp add: distinct_map inj_on_def)
qed

lemma find_id:
  assumes "keys_ok (map row_key rows)" "r \<in> set rows"
  shows "find (\<lambda>x. lg_id x = lg_id r) rows = Some r"
proof (cases "find (\<lambda>x. lg_id x = lg_id r) rows")
  case None
  with assms(2) show ?thesis by (auto simp: find_None_iff)
next
  case (Some x)
  then have "x \<in> set rows" "lg_id x = lg_id r" by (auto simp: find_Some_iff)
  with keys_ok_unique [OF assms(1) _ assms(2)] Some show ?thesis by simp
qed

definition bubbled :: "command_status list \<Rightarrow> rat \<Rightarrow> log_row \<Rightarrow> log_row" where
  "bubbled statuses now p =
     (if list_all (\<lambda>x. x = CmdAcked) statuses then settle CmdAcked now JNull p
      else if CmdFailed \<in> set statuses then settle CmdFailed now JNull p else p)"

lemma bubble_parent_row:
  assumes "keys_ok (map row_key rows)" "p \<in> set rows" "lg_id p = pid" "lg_parent p = None"
    and "c \<in> set rows" "lg_parent c = Some pid"
  shows "filter (\<lambda>r. lg_parent r = Some pid) (snd (bubble_parent now pid rows))
       = filter (\<lambda>r. lg_parent r = Some pid) rows"
    and "bubbled (map lg_status (filter (\<lambda>r. lg_parent r = Some pid) rows)) now p
       \<in> set (snd (bubble_parent now pid rows))"
proof -
  have ne: "filter (\<lambda>r. lg_parent r = Some pid) rows \<noteq> []"
    using assms(5,6) by (auto simp: filter_empty_conv)
  have "\<And>r. lg_id r = pid \<Longrightarrow> r \<in> set rows \<Longrightarrow> lg_parent r \<noteq> Some pid"
    using keys_ok_unique [OF assms(1) _ assms(2)] assms(3,4) by force
  then have u: "filter (\<lambda>r. lg_parent r = Some pid) (update_rows (\<lambda>r. lg_id r = pid) (settle st now JNull) rows)
       = filter (\<lambda>r. lg_parent r = Some pid) rows" for st
    by (intro filter_parent_update) (simp_all add: settle_def)
  show "filter (\<lambda>r. lg_parent r = Some pid) (snd (bubble_parent now pid rows))
       = filter (\<lambda>r. lg_parent r = Some pid) rows"
    by (simp add: bubble_parent_def Let_def u)
  have m: "settle st now JNull p \<in> set (update_rows (\<lambda>r. lg_id r = pid) (settle st now JNull) rows)" for st
    using assms(2,3) by (force simp: update_rows_def)
  show "bubbled (map lg_status (filter (\<lambda>r. lg_parent r = Some pid) rows)) now p
       \<in> set (snd (bubble_parent now pid rows))"
    using ne m assms(2) by (simp add: bubble_parent_def Let_def bubbled_def)
qed

lemma ack_child_rows:
  assumes "keys_ok (map row_key rows)" "c \<in> set rows" "lg_status c = CmdSent"
    and "lg_parent c = Some pid" "pid \<noteq> []"
  shows "snd (ack_rows now (lg_id c) ok err rows)
    = snd (bubble_parent now pid (update_rows (\<lambda>r. lg_id r = lg_id c \<and> lg_status r = CmdSent)
        (settle (ack_status ok) now (if ok then JNull else js_or err JNull)) rows))"
proof -
  let ?hit = "\<lambda>r. lg_id r = lg_id c \<and> lg_status r = CmdSent"
  let ?f = "settle (ack_status ok) now (if ok then JNull else js_or err JNull)"
  have k: "keys_ok (map row_key (update_rows ?hit ?f rows))"
    using assms(1) by (simp add: row_key_update)
  have "?f c \<in> set (update_rows ?hit ?f rows)" using assms(2,3) by (force simp: update_rows_def)
  from find_id [OF k this] have "find (\<lambda>r. lg_id r = lg_id c) (update_rows ?hit ?f rows) = Some (?f c)"
    by (simp add: settle_def)
  moreover have "filter ?hit rows \<noteq> []" using assms(2,3) by (auto simp: filter_empty_conv)
  ultimately show ?thesis using assms(4,5) by (simp add: ack_rows_def Let_def settle_def)
qed

text \<open>C21: Acknowledging a member of a wall or group command settles the aggregate: once every member
  has acknowledged the parent row is acknowledged, as soon as one member has failed it is failed,
  and until then it is untouched. The reason a member gives for failing never reaches the parent:
  its \<open>ack_error\<close> is null.\<close>

theorem ack_settles_aggregate:
  assumes "cm_reachable e s" "record_ack e now (lg_id c) ok err JUndef [] [] s = (r, s')"
    and "c \<in> set (logs s)" "lg_status c = CmdSent" "lg_parent c = Some pid" "pid \<noteq> []"
    and "p \<in> set (logs s)" "lg_id p = pid" "lg_parent p = None" "lg_id c \<noteq> []"
  shows "\<exists>p'\<in>set (logs s'). lg_id p' = pid
    \<and> (let kids = map lg_status (filter (\<lambda>r. lg_parent r = Some pid) (logs s')) in
        if list_all (\<lambda>x. x = CmdAcked) kids then lg_status p' = CmdAcked
        else if CmdFailed \<in> set kids then lg_status p' = CmdFailed \<and> lg_ack_error p' = JNull
        else p' = p)"
proof -
  let ?hit = "\<lambda>r. lg_id r = lg_id c \<and> lg_status r = CmdSent"
  let ?f = "settle (ack_status ok) now (if ok then JNull else js_or err JNull)"
  let ?mid = "update_rows ?hit ?f (logs s)"
  note ok = reachable_keys [OF assms(1)]
  have k: "keys_ok (map row_key ?mid)" using ok by (simp add: row_key_update)
  have "lg_id c \<noteq> pid" using keys_ok_unique [OF ok assms(3) assms(7)] assms(5,8,9) by force
  then have p: "p \<in> set ?mid" using assms(7,8) by (force simp: update_rows_def)
  have "?f c \<in> set ?mid" using assms(3,4) by (force simp: update_rows_def)
  moreover have "lg_parent (?f c) = Some pid" using assms(5) by (simp add: settle_def)
  ultimately have b: "filter (\<lambda>r. lg_parent r = Some pid) (snd (bubble_parent now pid ?mid))
       = filter (\<lambda>r. lg_parent r = Some pid) ?mid"
    "bubbled (map lg_status (filter (\<lambda>r. lg_parent r = Some pid) ?mid)) now p
       \<in> set (snd (bubble_parent now pid ?mid))"
    using bubble_parent_row [OF k p assms(8,9)] by blast+
  have l: "logs s' = snd (bubble_parent now pid ?mid)"
    using record_ack_logs [OF assms(2)] ack_child_rows [OF ok assms(3,4,5,6)] assms(10) by simp
  show ?thesis unfolding l b(1)
    by (rule bexI [OF _ b(2)]) (simp add: bubbled_def settle_def assms(8))
qed

subsection \<open>Retries\<close>

lemma count_retries_Cons: "count_retries t ct (x # rows) =
   (if lg_parent x = None \<and> lg_target x = t \<and> lg_command x = ct \<and> lg_status x \<in> {CmdTimeout, CmdFailed}
    then 1 else 0) + count_retries t ct rows"
  by (simp add: count_retries_def)

lemma mark_Cons: "mark_timeout now cid (x # rows) =
   (if lg_id x = cid \<and> lg_status x = CmdSent then x\<lparr>lg_status := CmdTimeout, lg_ack_at := Some now\<rparr>
    else x) # mark_timeout now cid rows"
  by (simp add: mark_timeout_def update_rows_def)

lemma count_mark_le: "count_retries t ct rows \<le> count_retries t ct (mark_timeout now cid rows)"
  unfolding count_retries_def mark_timeout_def update_rows_def
  by (induction rows) auto

lemma count_mark_other:
  "cid \<notin> lg_id ` set rows \<Longrightarrow> mark_timeout now cid rows = rows"
  unfolding mark_timeout_def update_rows_def by (induction rows) auto

lemma count_mark_hit:
  assumes "distinct (map lg_id rows)" "r \<in> set rows" "lg_status r = CmdSent" "lg_parent r = None"
  shows "count_retries (lg_target r) (lg_command r) (mark_timeout now (lg_id r) rows)
       = Suc (count_retries (lg_target r) (lg_command r) rows)"
  using assms(1,2)
proof (induction rows)
  case Nil
  then show ?case by simp
next
  case (Cons x rows)
  show ?case
  proof (cases "x = r")
    case True
    with Cons.prems have "lg_id r \<notin> lg_id ` set rows" by auto
    from count_mark_other [OF this, of now] assms(3,4) True show ?thesis
      by (simp add: mark_Cons count_retries_Cons)
  next
    case False
    with Cons.prems have "r \<in> set rows" "lg_id x \<noteq> lg_id r" "distinct (map lg_id rows)" by auto
    then have ih: "count_retries (lg_target r) (lg_command r) (mark_timeout now (lg_id r) rows)
       = Suc (count_retries (lg_target r) (lg_command r) rows)"
      using Cons.IH by blast
    show ?thesis unfolding mark_Cons count_retries_Cons ih
      using \<open>lg_id x \<noteq> lg_id r\<close> by simp
  qed
qed

lemma mark_keeps: "r \<in> set rows \<Longrightarrow> lg_id r \<noteq> cid \<Longrightarrow> r \<in> set (mark_timeout now cid rows)"
  by (force simp: mark_timeout_def update_rows_def)

lemma mark_ids [simp]: "map lg_id (mark_timeout now cid rows) = map lg_id rows"
proof -
  have ids: "map lg_id xs = map fst (map row_key xs)" for xs
    by (simp add: row_key_def)
  show ?thesis by (simp only: ids row_key_mark)
qed

lemma tick_budget:
  assumes "distinct (map lg_id rows)" "distinct (map lg_id due)"
    and "\<forall>r\<in>set due. r \<in> set rows \<and> lg_status r = CmdSent \<and> lg_parent r \<noteq> Some []"
    and "rt \<in> set (snd (tick_rows mx now due rows))"
  shows "count_retries (rt_target rt) (rt_command rt) rows < rt_attempt rt \<and> rt_attempt rt < mx"
  using assms
proof (induction due arbitrary: rows)
  case Nil
  then show ?case by simp
next
  case (Cons r due)
  let ?m = "mark_timeout now (lg_id r) rows"
  from Cons.prems(4) consider
    (head) "is_parent_row r" "rt_target rt = lg_target r" "rt_command rt = lg_command r"
       "rt_attempt rt = count_retries (lg_target r) (lg_command r) ?m"
       "count_retries (lg_target r) (lg_command r) ?m < mx"
  | (tail) "rt \<in> set (snd (tick_rows mx now due ?m))"
    by (auto simp: Let_def split: prod.splits if_splits)
  then show ?case
  proof cases
    case head
    with Cons.prems(3) have "lg_parent r = None" by (auto simp: is_parent_row_def split: option.splits)
    with Cons.prems(1,3) head show ?thesis by (simp add: count_mark_hit)
  next
    case tail
    have "\<forall>x\<in>set due. x \<in> set ?m \<and> lg_status x = CmdSent \<and> lg_parent x \<noteq> Some []"
    proof
      fix x assume x: "x \<in> set due"
      with Cons.prems(2) have "lg_id x \<noteq> lg_id r" by (auto simp: image_iff)
      with x Cons.prems(3) show "x \<in> set ?m \<and> lg_status x = CmdSent \<and> lg_parent x \<noteq> Some []"
        by (simp add: mark_keeps)
    qed
    with Cons.IH [of ?m] Cons.prems(1,2) tail
    have "count_retries (rt_target rt) (rt_command rt) ?m < rt_attempt rt \<and> rt_attempt rt < mx" by simp
    with count_mark_le [of "rt_target rt" "rt_command rt" rows now "lg_id r"] show ?thesis by linarith
  qed
qed

lemma tick_origin:
  "rt \<in> set (snd (tick_rows mx now due rows)) \<Longrightarrow>
   \<exists>r\<in>set due. lg_id r = rt_id rt \<and> lg_target r = rt_target rt"
proof (induction due arbitrary: rows)
  case Nil
  then show ?case by simp
next
  case (Cons r due)
  then have "(lg_id r = rt_id rt \<and> lg_target r = rt_target rt)
      \<or> rt \<in> set (snd (tick_rows mx now due (mark_timeout now (lg_id r) rows)))"
    by (auto simp: Let_def split: prod.splits if_splits)
  with Cons.IH show ?case by auto
qed

text \<open>The retry budget is per target and command type, over the whole history: the sweep retries
  a timed-out command only while fewer than \<open>max_retries - 1\<close> earlier commands of that type for
  that target have timed out or failed, the command itself being counted.\<close>

theorem retry_budget:
  assumes "cm_reachable e s" "\<forall>r\<in>set (logs s). lg_parent r \<noteq> Some []"
    and "tick_ack_timeouts e now s = ((retries, due), s')" "rt \<in> set retries"
  shows "count_retries (rt_target rt) (rt_command rt) (logs s) + 1 < max_retries e
    \<and> (\<exists>r\<in>set due. lg_id r = rt_id rt \<and> lg_target r = rt_target rt \<and> timed_out now r)"
proof -
  let ?due = "filter (timed_out now) (logs s)"
  have d: "distinct (map lg_id (logs s))"
    using reachable_keys [OF assms(1)] by (simp add: keys_ok_def row_key_def o_def)
  have rt: "rt \<in> set (snd (tick_rows (max_retries e) now ?due (logs s)))" and due: "due = ?due"
    using assms(3,4) by (auto simp: tick_ack_timeouts_def Let_def split: prod.splits)
  have "count_retries (rt_target rt) (rt_command rt) (logs s) < rt_attempt rt \<and> rt_attempt rt < max_retries e"
    using d assms(2) by (intro tick_budget [OF d _ _ rt]) (auto simp: distinct_map_filter timed_out_def)
  moreover from tick_origin [OF rt] obtain r where
    "r \<in> set ?due" "lg_id r = rt_id rt" "lg_target r = rt_target rt" by blast
  ultimately show ?thesis unfolding due by auto
qed

text \<open>A retry is never fanned out: whatever kind of target timed out, the sweep only appends rows
  for targets of type \<open>display\<close> without a parent, so a wall or group command is not resent to its
  members. The comment at the retry says that re-issuing the parent fans out new children.\<close>

theorem retries_do_not_fan_out:
  assumes "cm_reachable e s" "ack_sweep e now s = (es, s')" "length (logs s) \<le> i" "i < length (logs s')"
  shows "lg_target_type (logs s' ! i) = ''display'' \<and> lg_parent (logs s' ! i) = None"
proof -
  let ?due = "filter (timed_out now) (logs s)"
  obtain mid rt where t: "tick_rows (max_retries e) now ?due (logs s) = (mid, rt)"
    by (cases "tick_rows (max_retries e) now ?due (logs s)")
  obtain es' where r: "reissue e now rt (s\<lparr>logs := mid\<rparr>) = (es', s')"
    using assms(2) t
    by (cases "reissue e now rt (s\<lparr>logs := mid\<rparr>)") (auto simp: ack_sweep_def tick_ack_timeouts_def)
  have w: "amends (logs s) mid"
    using amends_tick [of "logs s" "max_retries e" now ?due] t by simp
  with reachable_keys [OF assms(1)] have "keys_ok (map row_key mid)" by (simp add: amends_def)
  with reissue_rows [OF r] obtain new where "logs s' = mid @ new"
    "\<forall>r\<in>set new. lg_target_type r = ''display'' \<and> lg_parent r = None" by auto
  with assms(3,4) amends_length [OF w] show ?thesis by (simp add: nth_append)
qed


subsection \<open>Display state\<close>

lemma fld_keyed: "fld (JObj (map (\<lambda>k. (k, f k)) ks)) k = (if k \<in> set ks then f k else JUndef)"
  by (simp add: fld_def map_of_map_restrict restrict_map_def)

lemma fld_scalar_cols: "fld (JObj (scalar_cols st)) k =
   (if k \<in> set state_cols then to_state_scalar k (fld st k) else JUndef)"
  by (simp add: scalar_cols_def fld_keyed)

lemma coalesce_scalar_cols: "coalesce_cols now (scalar_cols st) old =
   map (\<lambda>k. (k, if to_state_scalar k (fld st k) \<noteq> JNull then to_state_scalar k (fld st k)
                 else if k = ''current_time'' then JStr (sql_current_time now)
                 else fld (JObj old) k)) state_cols"
  by (simp add: coalesce_cols_def scalar_cols_def)

text \<open>What a column nothing was reported for holds after the update: its old value, except for
  \<open>current_time\<close>, where it is the clock.\<close>

definition old_col :: "rat \<Rightarrow> display_row option \<Rightarrow> string \<Rightarrow> jsval" where
  "old_col now r k = (case r of
     None \<Rightarrow> JNull
   | Some x \<Rightarrow> if k = ''current_time'' then JStr (sql_current_time now) else fld (JObj (ds_cols x)) k)"

lemma merged_col:
  assumes "k \<in> set state_cols"
  shows "fld (JObj (ds_cols (merged_row now st rv r))) k =
    (if to_state_scalar k (fld st k) \<noteq> JNull then to_state_scalar k (fld st k)
     else if k = ''error_state'' \<and> has_own st k \<and> fld st k = JNull then JNull else old_col now r k)"
proof (cases r)
  case None
  with assms show ?thesis by (simp add: merged_row_def fld_scalar_cols old_col_def)
next
  case (Some x)
  let ?c = "coalesce_cols now (scalar_cols st) (ds_cols x)"
  have c: "fld (JObj ?c) k = (if to_state_scalar k (fld st k) \<noteq> JNull then to_state_scalar k (fld st k) else old_col now r k)"
    unfolding coalesce_scalar_cols fld_keyed if_P [OF assms] old_col_def Some option.case by (rule refl)
  have n: "to_state_scalar k JNull = JNull" by (simp add: to_state_scalar_def is_nullish_def)
  have m: "ds_cols (merged_row now st rv r) =
      (if has_own st ''error_state'' \<and> fld st ''error_state'' = JNull then set_field ''error_state'' JNull ?c else ?c)"
    by (simp add: merged_row_def Some Let_def)
  show ?thesis
  proof (cases "has_own st ''error_state'' \<and> fld st ''error_state'' = JNull")
    case True
    show ?thesis
    proof (cases "k = ''error_state''")
      case e: True
      with True n show ?thesis unfolding m by simp
    next
      case False
      with True c show ?thesis unfolding m by simp
    qed
  next
    case False
    then have "fld (JObj (ds_cols (merged_row now st rv r))) k = fld (JObj ?c) k" unfolding m by (simp only: if_False)
    moreover have "\<not> (k = ''error_state'' \<and> has_own st k \<and> fld st k = JNull)" using False by blast
    ultimately show ?thesis unfolding c by (simp only: if_False)
  qed
qed

lemma merged_revision [simp]: "ds_revision (merged_row now st rv r) = rv"
  by (cases r) (simp_all add: merged_row_def Let_def)

text \<open>Merging a reported state is monotone in the revision. A report older than the stored
  revision is refused and changes nothing; any other sets the revision to the reported one, or
  one above the stored one, never below it, leaves every other target alone, and gives each
  column the reported scalar, or keeps it when nothing was reported (an explicit null clears only
  the error state). The one exception is the playback position: when none is reported, an existing row
  gets the time of day instead, since the statement names the column like a keyword of SQL.\<close>

theorem merge_display_state_monotone:
  assumes "is_object st" "ty \<noteq> []" "tid \<noteq> []" "merge_display_state e now ty tid st s = (res, s')"
  defines "old \<equiv> map_of (displays s) (ty, tid)" and "given \<equiv> enforce_audio_authority e ty tid st"
  shows "(\<exists>i. res = Stale i \<and> i = stored_revision old \<and> s' = s)
    \<or> (\<exists>i row. res = Applied i \<and> map_of (displays s') (ty, tid) = Some row \<and> ds_revision row = i
        \<and> stored_revision old \<le> i \<and> logs s' = logs s
        \<and> (\<forall>k. k \<noteq> (ty, tid) \<longrightarrow> map_of (displays s') k = map_of (displays s) k)
        \<and> (\<forall>k\<in>set state_cols. fld (JObj (ds_cols row)) k =
             (if to_state_scalar k (fld given k) \<noteq> JNull then to_state_scalar k (fld given k)
              else if k = ''error_state'' \<and> has_own given k \<and> fld given k = JNull then JNull
              else old_col now old k)))"
proof -
  have app: "res = Applied rv \<Longrightarrow> stored_revision old \<le> rv \<Longrightarrow>
      s' = s\<lparr>displays := AList.update (ty, tid) (merged_row now given rv old) (displays s)\<rparr> \<Longrightarrow> ?thesis" for rv
    by (rule disjI2, rule exI [of _ rv], rule exI [of _ "merged_row now given rv old"])
       (simp add: update_conv' merged_col)
  show ?thesis
  proof (cases "supplied_revision (fld given ''state_revision'')")
    case None
    with assms show ?thesis
      by (intro app [of "stored_revision old + 1"]) (simp_all add: merge_display_state_def Let_def)
  next
    case (Some i)
    show ?thesis
    proof (cases "i < stored_revision old")
      case True
      with Some assms have "res = Stale (stored_revision old)" "s' = s"
        by (auto simp: merge_display_state_def Let_def)
      then show ?thesis by blast
    next
      case False
      with Some assms show ?thesis
        by (intro app [of i]) (simp_all add: merge_display_state_def Let_def)
    qed
  qed
qed

text \<open>A follower is never recorded as sounding.\<close>

definition silent :: "(string \<Rightarrow> jsval) \<Rightarrow> bool" where
  "silent col \<longleftrightarrow> col ''muted'' \<noteq> jint 0
     \<and> (\<forall>n. col ''volume'' = JNum n \<longrightarrow> \<not> num_positive n)"

definition followers_silent :: "string \<Rightarrow> store \<Rightarrow> bool" where
  "followers_silent auth s \<longleftrightarrow> (\<forall>tid row. tid \<noteq> auth \<longrightarrow>
     map_of (displays s) (''display'', tid) = Some row \<longrightarrow> silent (fld (JObj (ds_cols row))))"

lemma audio_cols: "''muted'' \<in> set state_cols" "''volume'' \<in> set state_cols"
  "''muted'' \<in> set boolean_cols" "''volume'' \<in> set numeric_cols" "''volume'' \<notin> set boolean_cols"
  by (simp_all add: state_cols_def boolean_cols_def numeric_cols_def)

lemma silenced_muted: "to_state_scalar ''muted'' (fld (JObj (silence_follower st)) ''muted'') \<noteq> jint 0"
proof -
  have m: "fld (JObj (silence_follower st)) ''muted'' =
      (if reports_unmuted (fld st ''muted'') then JBool True else fld (JObj (obj_fields st)) ''muted'')"
    by (simp add: silence_follower_def Let_def)
  have o: "fld (JObj (obj_fields st)) ''muted'' = fld st ''muted''" by (simp add: fld_def)
  show ?thesis unfolding m o
    by (auto simp: to_state_scalar_def audio_cols reports_unmuted_def is_nullish_def)
qed

lemma silenced_volume:
  assumes "to_state_scalar ''volume'' (fld (JObj (silence_follower st)) ''volume'') = JNum n"
  shows "\<not> num_positive n"
proof -
  let ?v = "fld (JObj (obj_fields st)) ''volume''"
  have "fld (JObj (silence_follower st)) ''volume'' =
      (if \<not> is_nullish ?v \<and> num_positive (to_num ?v) then jint 0 else ?v)"
    by (simp add: silence_follower_def Let_def)
  with assms show ?thesis
    by (auto simp: to_state_scalar_def audio_cols split: if_splits)
qed

lemma merge_keeps_silent:
  assumes "audio_authority_id e = Some auth" "followers_silent auth s"
    and "merge_display_state e now ty tid st s = (r, s')"
  shows "followers_silent auth s'"
proof (cases "ty = [] \<or> tid = [] \<or> \<not> is_object st")
  case True
  with assms(3) have "s' = s" by (auto simp: merge_display_state_def split: if_splits)
  with assms(2) show ?thesis by simp
next
  case False
  let ?old = "map_of (displays s) (ty, tid)"
  let ?g = "enforce_audio_authority e ty tid st"
  have base: "silent (old_col now ?old)" if "ty = ''display''" "tid \<noteq> auth"
    using assms(2) that by (cases ?old) (auto simp: followers_silent_def old_col_def silent_def)
  have new: "silent (fld (JObj (ds_cols (merged_row now ?g rv ?old))))"
    if "ty = ''display''" "tid \<noteq> auth" for rv
  proof -
    have g: "?g = JObj (silence_follower st)" using that assms(1) False
      by (simp add: enforce_audio_authority_def)
    show ?thesis
      using base [OF that] silenced_muted [of st] silenced_volume [of st]
      unfolding silent_def g by (auto simp: merged_col audio_cols)
  qed
  from assms(3) False have "displays s' = displays s
    \<or> (\<exists>rv. displays s' = AList.update (ty, tid) (merged_row now ?g rv ?old) (displays s))"
    by (auto simp: merge_display_state_def Let_def split: option.splits if_splits)
  then show ?thesis
  proof
    assume "displays s' = displays s"
    with assms(2) show ?thesis by (simp add: followers_silent_def)
  next
    assume "\<exists>rv. displays s' = AList.update (ty, tid) (merged_row now ?g rv ?old) (displays s)"
    then obtain rv where d: "displays s' = AList.update (ty, tid) (merged_row now ?g rv ?old) (displays s)" ..
    show ?thesis unfolding followers_silent_def d update_conv'
      using assms(2) new by (auto simp: followers_silent_def split: if_splits)
  qed
qed

lemma beat_keeps_silent: "followers_silent auth s \<Longrightarrow> followers_silent auth (record_heartbeat clock ty tid ts s)"
proof -
  assume s: "followers_silent auth s"
  have "silent (fld (JObj (scalar_cols JUndef)))"
    by (simp add: silent_def fld_scalar_cols to_state_scalar_def is_nullish_def)
  with s show ?thesis
    by (auto simp: followers_silent_def record_heartbeat_def Let_def update_conv'
        split: if_splits option.splits)
qed

lemma ack_displays:
  "record_ack e now cid ok err st ty tid s = (r, s') \<Longrightarrow>
   displays s' = displays s \<or> (\<exists>st' s1 r'. displays s1 = displays s
      \<and> merge_display_state e now ty tid st' s1 = (r', s'))"
proof -
  assume a: "record_ack e now cid ok err st ty tid s = (r, s')"
  let ?s1 = "s\<lparr>logs := snd (ack_rows now cid ok err (logs s))\<rparr>"
  let ?st = "JObj (set_field ''last_ack_at'' (JNum (Fin now)) (obj_fields st))"
  from a have "s' = s \<or> s' = ?s1 \<or> s' = snd (merge_display_state e now ty tid ?st ?s1)"
    by (auto simp: record_ack_def Let_def split: if_splits prod.splits merge_result.splits)
  then show ?thesis
  proof (elim disjE)
    assume "s' = snd (merge_display_state e now ty tid ?st ?s1)"
    then have "merge_display_state e now ty tid ?st ?s1
        = (fst (merge_display_state e now ty tid ?st ?s1), s')" by simp
    moreover have "displays ?s1 = displays s" by simp
    ultimately show ?thesis by blast
  qed auto
qed

lemma step_keeps_silent:
  assumes "audio_authority_id e = Some auth" "cm_step e s s'" "keys_ok (map row_key (logs s))"
    "followers_silent auth s"
  shows "followers_silent auth s'"
  using assms(2)
proof (rule cm_stepE)
  fix now a r assume "ingest_command e now a s = (r, s')"
  from ingest_extends(3) [OF this assms(3)] assms(4) show ?thesis by (simp add: followers_silent_def)
next
  fix now cid ok err st ty tid r assume "record_ack e now cid ok err st ty tid s = (r, s')"
  from ack_displays [OF this] show ?thesis
  proof
    assume "displays s' = displays s"
    with assms(4) show ?thesis by (simp add: followers_silent_def)
  next
    assume "\<exists>st' s1 r'. displays s1 = displays s \<and> merge_display_state e now ty tid st' s1 = (r', s')"
    then obtain st' s1 r' where d: "displays s1 = displays s"
      and m: "merge_display_state e now ty tid st' s1 = (r', s')" by blast
    from assms(4) d have "followers_silent auth s1" by (simp add: followers_silent_def)
    from merge_keeps_silent [OF assms(1) this m] show ?thesis .
  qed
next
  fix now es assume "ack_sweep e now s = (es, s')"
  from ack_sweep_rows [OF this assms(3)] assms(4) show ?thesis by (simp add: followers_silent_def)
next
  fix now ty tid st r assume "merge_display_state e now ty tid st s = (r, s')"
  from merge_keeps_silent [OF assms(1,4) this] show ?thesis .
next
  fix clock ty tid ts assume "record_heartbeat clock ty tid ts s = s'"
  with beat_keeps_silent [OF assms(4)] show ?thesis by blast
qed

lemma reachable_silent:
  "cm_reachable e s \<Longrightarrow> audio_authority_id e = Some auth \<Longrightarrow> followers_silent auth s"
proof (induction rule: cm_reachable.induct)
  case (start nodes)
  show ?case by (simp add: followers_silent_def)
next
  case (step s s')
  from step_keeps_silent [OF step.prems step.hyps(2) reachable_keys [OF step.hyps(1)] step.IH [OF step.prems]]
  show ?case .
qed

text \<open>C8: With an audio authority configured, no other display is ever recorded as unmuted or with a
  positive volume, whatever commands, acknowledgements, reports, heartbeats and sweeps happened
  in whatever order.\<close>

theorem followers_never_sound:
  assumes "cm_reachable e s" "audio_authority_id e = Some auth" "tid \<noteq> auth"
    and "map_of (displays s) (''display'', tid) = Some row"
  shows "fld (JObj (ds_cols row)) ''muted'' \<noteq> jint 0
    \<and> (\<forall>n. fld (JObj (ds_cols row)) ''volume'' = JNum n \<longrightarrow> \<not> num_positive n)"
  using reachable_silent [OF assms(1,2)] assms(3,4) by (auto simp: followers_silent_def silent_def)

text \<open>The log is an append-only audit: in every reachable state the command identifiers are
  distinct, and of two rows for one target the later one has the higher revision.\<close>

theorem revisions_increase:
  assumes "cm_reachable e s" "i < j" "j < length (logs s)"
  shows "lg_id (logs s ! i) \<noteq> lg_id (logs s ! j)
    \<and> (lg_target (logs s ! i) = lg_target (logs s ! j)
         \<longrightarrow> lg_revision (logs s ! i) < lg_revision (logs s ! j))"
proof -
  from reachable_keys [OF assms(1)]
  have d: "distinct (map lg_id (logs s))"
    and w: "sorted_wrt (\<lambda>r r'. lg_target r = lg_target r' \<longrightarrow> lg_revision r < lg_revision r') (logs s)"
    by (simp_all add: keys_ok_def row_key_def o_def sorted_wrt_map)
  from d assms(2,3) have "lg_id (logs s ! i) \<noteq> lg_id (logs s ! j)"
    by (simp add: distinct_conv_nth)
  moreover from sorted_wrt_nth_less [OF w assms(2,3)]
  have "lg_target (logs s ! i) = lg_target (logs s ! j) \<longrightarrow> lg_revision (logs s ! i) < lg_revision (logs s ! j)" .
  ultimately show ?thesis by simp
qed

text \<open>C14: A command settles once. A row that is acknowledged, failed or timed out and has no member
  rows keeps its place and contents in every later step: late acknowledgements and sweeps do not
  touch it.\<close>

theorem settled_rows_final:
  assumes "cm_reachable e s" "cm_step e s s'" "i < length (logs s)"
    and "lg_status (logs s ! i) \<noteq> CmdSent" "\<forall>c\<in>set (logs s). lg_parent c \<noteq> Some (lg_id (logs s ! i))"
  shows "logs s' ! i = logs s ! i"
proof -
  from cm_step_log [OF assms(2) reachable_keys [OF assms(1)]]
  obtain mid new where m: "amends (logs s) mid" and l: "logs s' = mid @ new"
    by (auto simp: extends_def)
  from m assms(3-5) have "mid ! i = logs s ! i" by (simp add: amends_def final_row_def)
  with amends_length [OF m] assms(3) show ?thesis by (simp add: l nth_append)
qed

subsection \<open>The mute plan\<close>

text \<open>The mute plan lets at most one device sound: two unmuted entries are of the same device, and
  when the online devices are known that device is one of them.\<close>

theorem mute_plan_single_authority:
  assumes "m \<in> set (classroom_audio_mute_plan devices online)" "\<not> me_muted m"
    and "m' \<in> set (classroom_audio_mute_plan devices online)" "\<not> me_muted m'"
  shows "me_device m = me_device m' \<and> (case online of None \<Rightarrow> True | Some ids \<Rightarrow> me_device m \<in> set ids)"
proof -
  let ?roles = "resolve_classroom_audio_authority devices"
  have "\<exists>a. ar_authority ?roles = Some a \<and> me_device x = dev_id a
      \<and> (case online of None \<Rightarrow> True | Some ids \<Rightarrow> dev_id a \<in> set ids)"
    if "x \<in> set (classroom_audio_mute_plan devices online)" "\<not> me_muted x" for x
    using that by (auto simp: classroom_audio_mute_plan_def mute_entry_of_def Let_def is_authority_def
        authority_online_def split: if_splits option.splits)
  from this [OF assms(1,2)] this [OF assms(3,4)] show ?thesis by (auto split: option.splits)
qed


subsection \<open>A run\<close>

text \<open>A wall command with two members, one of which fails; then a report of a follower; and the
  sweep after the deadline.\<close>

definition sample_env :: env where
  "sample_env = \<lparr>wall_members = (\<lambda>w. if w = ''w1'' then [''tv1'', ''tv2''] else []),
     group_members = (\<lambda>g. []), ws_for_wall = (\<lambda>w. Some ''ws''), ws_for_group = (\<lambda>g. None),
     ws_for_device = (\<lambda>d. Some ''ws''), new_id = (\<lambda>n. ''id'' @ nat_str n), iso_date = ''now'',
     parse_json = (\<lambda>t. None), authority_setting = ''tv1'', ack_timeout = 8000, max_retries = 2\<rparr>"

definition empty_store :: store where
  "empty_store = \<lparr>logs = [], displays = [], node_beats = [], ids_used = 0\<rparr>"

definition sample_args :: ingest_input where
  "sample_args = \<lparr>ia_type = ''wall'', ia_target = ''w1'', ia_command = ''play'', ia_payload = JNull,
     ia_issued_by = JNull, ia_requires_ack = True, ia_id = ''c1'', ia_created = jint 0\<rparr>"

definition sample_ingested :: store where
  "sample_ingested = snd (ingest_command sample_env 0 sample_args empty_store)"

definition sample_failed :: store where
  "sample_failed = snd (record_ack sample_env 5 ''id0'' False (JStr ''no decoder'') JUndef [] [] sample_ingested)"

definition sample_report :: jsval where
  "sample_report = JObj [(''muted'', JBool False), (''volume'', jint 40), (''paused'', JBool True)]"

definition sample_reported :: store where
  "sample_reported = snd (merge_display_state sample_env 6 ''display'' ''tv2'' sample_report sample_failed)"

definition sample_swept :: store where
  "sample_swept = snd (ack_sweep sample_env 9000 sample_ingested)"

lemma step_to: "f = (r, s') \<Longrightarrow> snd f = s'"
  by simp

lemma sample_reachable:
  "cm_reachable sample_env sample_ingested" "cm_reachable sample_env sample_failed"
  "cm_reachable sample_env sample_reported"
proof -
  have s: "cm_reachable sample_env empty_store"
    unfolding empty_store_def by (rule cm_reachable.start)
  show i: "cm_reachable sample_env sample_ingested" unfolding sample_ingested_def
    by (rule cm_reachable.step [OF s]) (rule cm_step.ingest, rule prod.collapse [symmetric])
  show f: "cm_reachable sample_env sample_failed" unfolding sample_failed_def
    by (rule cm_reachable.step [OF i]) (rule cm_step.ack, rule prod.collapse [symmetric])
  show "cm_reachable sample_env sample_reported" unfolding sample_reported_def
    by (rule cm_reachable.step [OF f]) (rule cm_step.merge, rule prod.collapse [symmetric])
qed

lemma sample_log:
  "map (\<lambda>r. (lg_id r, lg_target r, lg_revision r, lg_parent r, lg_status r)) (logs sample_ingested)
   = [(''c1'', ''w1'', 1, None, CmdSent), (''id0'', ''tv1'', 1, Some ''c1'', CmdSent),
      (''id1'', ''tv2'', 1, Some ''c1'', CmdSent)]"
  by code_simp

theorem revisions_increase_witness:
  "lg_id (logs sample_ingested ! 0) \<noteq> lg_id (logs sample_ingested ! 2)"
proof -
  have "length (logs sample_ingested) = 3" using arg_cong [OF sample_log, of length] by simp
  then show ?thesis using revisions_increase [OF sample_reachable(1), of 0 2] by simp
qed

theorem settled_rows_final_witness:
  "logs sample_reported ! 1 = logs sample_failed ! 1 \<and> lg_status (logs sample_failed ! 1) = CmdFailed"
proof -
  have st: "cm_step sample_env sample_failed sample_reported" unfolding sample_reported_def
    by (rule cm_step.merge, rule prod.collapse [symmetric])
  have a: "1 < length (logs sample_failed) \<and> lg_status (logs sample_failed ! 1) = CmdFailed
      \<and> list_all (\<lambda>c. lg_parent c \<noteq> Some (lg_id (logs sample_failed ! 1))) (logs sample_failed)"
    by code_simp
  with settled_rows_final [OF sample_reachable(2) st, of 1] show ?thesis
    by (simp add: list_all_iff)
qed

theorem ack_settles_aggregate_witness:
  "\<exists>p'\<in>set (logs sample_failed). lg_id p' = ''c1'' \<and> lg_status p' = CmdFailed \<and> lg_ack_error p' = JNull"
proof -
  have l: "length (logs sample_ingested) = 3" using arg_cong [OF sample_log, of length] by simp
  have at: "lg_id (logs sample_ingested ! 1) = ''id0'' \<and> lg_status (logs sample_ingested ! 1) = CmdSent
      \<and> lg_parent (logs sample_ingested ! 1) = Some ''c1'' \<and> lg_id (logs sample_ingested ! 0) = ''c1''
      \<and> lg_parent (logs sample_ingested ! 0) = None" by code_simp
  have k: "map lg_status (filter (\<lambda>r. lg_parent r = Some ''c1'') (logs sample_failed)) = [CmdFailed, CmdSent]"
    by code_simp
  have r: "record_ack sample_env 5 (lg_id (logs sample_ingested ! 1)) False (JStr ''no decoder'') JUndef [] []
      sample_ingested = (fst (record_ack sample_env 5 ''id0'' False (JStr ''no decoder'') JUndef [] []
      sample_ingested), sample_failed)"
    using at by (simp add: sample_failed_def)
  have "logs sample_ingested ! 1 \<in> set (logs sample_ingested)" "logs sample_ingested ! 0 \<in> set (logs sample_ingested)"
    using l by simp_all
  from ack_settles_aggregate [OF sample_reachable(1) r this(1) _ _ _ this(2), of "''c1''"] at
  show ?thesis by (simp add: k)
qed

theorem followers_never_sound_witness:
  "\<exists>row. map_of (displays sample_reported) (''display'', ''tv2'') = Some row
     \<and> fld (JObj (ds_cols row)) ''muted'' \<noteq> jint 0 \<and> fld (JObj (ds_cols row)) ''paused'' = jint 1"
proof -
  have a: "audio_authority_id sample_env = Some ''tv1''" by code_simp
  have "map_option (\<lambda>row. fld (JObj (ds_cols row)) ''paused'')
      (map_of (displays sample_reported) (''display'', ''tv2'')) = Some (jint 1)" by code_simp
  then obtain row where r: "map_of (displays sample_reported) (''display'', ''tv2'') = Some row"
    and p: "fld (JObj (ds_cols row)) ''paused'' = jint 1" by auto
  from followers_never_sound [OF sample_reachable(3) a _ r] p r show ?thesis by auto
qed

theorem merge_display_state_monotone_witness:
  "fst (merge_display_state sample_env 6 ''display'' ''tv2'' sample_report sample_failed) = Applied 1
   \<and> map_of (displays sample_reported) (''display'', ''tv1'') = map_of (displays sample_failed) (''display'', ''tv1'')"
proof -
  have f: "fst (merge_display_state sample_env 6 ''display'' ''tv2'' sample_report sample_failed) = Applied 1"
    by code_simp
  have o: "is_object sample_report" by (simp add: sample_report_def)
  have "merge_display_state sample_env 6 ''display'' ''tv2'' sample_report sample_failed = (Applied 1, sample_reported)"
    using f by (simp add: sample_reported_def prod_eq_iff)
  from merge_display_state_monotone [OF o _ _ this] f show ?thesis by auto
qed

theorem retry_budget_witness:
  "\<exists>rt. set (fst (fst (tick_ack_timeouts sample_env 9000 sample_ingested))) = {rt} \<and> rt_attempt rt = 1
     \<and> count_retries ''w1'' ''play'' (logs sample_ingested) + 1 < 2"
proof -
  have "map (\<lambda>rt. (rt_target rt, rt_command rt, rt_attempt rt))
      (fst (fst (tick_ack_timeouts sample_env 9000 sample_ingested))) = [(''w1'', ''play'', 1)]" by code_simp
  then obtain rt where rt: "fst (fst (tick_ack_timeouts sample_env 9000 sample_ingested)) = [rt]"
    and t: "rt_target rt = ''w1''" "rt_command rt = ''play''" "rt_attempt rt = 1" by auto
  have p: "\<forall>r\<in>set (logs sample_ingested). lg_parent r \<noteq> Some []"
    unfolding list_all_iff [symmetric] by code_simp
  obtain due s' where e: "tick_ack_timeouts sample_env 9000 sample_ingested = (([rt], due), s')"
    using rt by (metis prod.collapse)
  from retry_budget [OF sample_reachable(1) p e, of rt] t rt show ?thesis
    by (auto simp: sample_env_def)
qed

theorem retries_do_not_fan_out_witness:
  "lg_target (logs sample_swept ! 3) = ''w1'' \<and> lg_target_type (logs sample_swept ! 3) = ''display''
   \<and> lg_parent (logs sample_swept ! 3) = None"
proof -
  have l: "length (logs sample_ingested) = 3" using arg_cong [OF sample_log, of length] by simp
  have a: "3 < length (logs sample_swept) \<and> lg_target (logs sample_swept ! 3) = ''w1''" by code_simp
  have "ack_sweep sample_env 9000 sample_ingested = (fst (ack_sweep sample_env 9000 sample_ingested), sample_swept)"
    by (simp add: sample_swept_def)
  from retries_do_not_fan_out [OF sample_reachable(1) this, of 3] l a show ?thesis by simp
qed

definition sample_plan :: "mute_entry list" where
  "sample_plan = classroom_audio_mute_plan
      [\<lparr>dev_id = ''a'', dev_name = JStr ''Front Left''\<rparr>, \<lparr>dev_id = ''b'', dev_name = JStr ''Side Right''\<rparr>]
      (Some [''a''])"

theorem mute_plan_single_authority_witness:
  "map (\<lambda>m. (me_device m, me_muted m)) sample_plan = [(''a'', False), (''b'', True)]
   \<and> (\<exists>m\<in>set sample_plan. \<not> me_muted m \<and> me_device m \<in> set [''a''])"
proof -
  have e: "map (\<lambda>m. (me_device m, me_muted m)) sample_plan = [(''a'', False), (''b'', True)]" by code_simp
  then have "(''a'', False) \<in> set (map (\<lambda>m. (me_device m, me_muted m)) sample_plan)" by simp
  then obtain m where m: "m \<in> set sample_plan" "\<not> me_muted m" by auto
  from m(1) have p: "m \<in> set (classroom_audio_mute_plan
      [\<lparr>dev_id = ''a'', dev_name = JStr ''Front Left''\<rparr>, \<lparr>dev_id = ''b'', dev_name = JStr ''Side Right''\<rparr>]
      (Some [''a'']))" by (simp add: sample_plan_def)
  from mute_plan_single_authority [OF p m(2) p m(2)] e m show ?thesis by auto
qed

end
