(* ===== verification/LiveMirror.thy ===== *)
theory LiveMirror
  imports Stores DeviceContract
begin

text \<open>
  Mirroring classroom transport to the Live Program receiver
  (\<open>createLiveTransportMirror\<close> in \<open>server/lib/transport-transaction.js\<close>): a bounded, expiring
  idempotency gate in front of one extra display.

  The injected functions are the fields of \<open>mirror_deps\<close>; an absent identifier is the empty
  string, a persistence that throws is \<open>None\<close>. What is persisted, emitted, queued and marked is
  recorded in order. The clock is an argument.
\<close>

definition synchronized_actions :: "string list" where
  "synchronized_actions = [''next'', ''prev'', ''go_to_slide'', ''play'', ''pause'', ''seek'',
     ''restart'', ''stop'']"

definition bounded_text :: "nat \<Rightarrow> jsval \<Rightarrow> string" where
  "bounded_text n v = take n (text_of v)"

definition seek_keys :: "string list" where
  "seek_keys = [''seconds'', ''position_seconds'', ''position'', ''time'', ''position_normalized'',
     ''normalized_position'', ''progress'', ''position_percent'', ''percent'']"

text \<open>\<open>Math.max(1, Math.min(100, Number(v) || 1))\<close>\<close>

definition target_count_of :: "jsval \<Rightarrow> jsval" where
  "target_count_of v = (case (if num_truthy (to_num v) then to_num v else Fin 1) of
     Fin r \<Rightarrow> JNum (Fin (max 1 (min 100 r)))
   | PosInf \<Rightarrow> jint 100 | NegInf \<Rightarrow> jint 1 | NaN \<Rightarrow> jint 1)"

definition sync_slide :: "string \<Rightarrow> jsval \<Rightarrow> (string \<times> jsval) list" where
  "sync_slide action source =
     (if action \<noteq> ''go_to_slide'' then []
      else (case num_int (to_num (first_present [fld source ''slide'', fld source ''page'',
                    fld source ''slide_index''])) of
              Some n \<Rightarrow> if 0 < n then [(''slide'', jint n), (''page'', jint n), (''slide_index'', jint n)] else []
            | None \<Rightarrow> []))"

definition sync_seek :: "string \<Rightarrow> jsval \<Rightarrow> (string \<times> jsval) list" where
  "sync_seek action source =
     (if action \<noteq> ''seek'' then []
      else map (\<lambda>k. (k, JNum (to_num (fld source k))))
             (filter (\<lambda>k. \<not> is_nullish (fld source k) \<and> is_finite (to_num (fld source k))) seek_keys))"

definition synchronized_payload :: "jsval \<Rightarrow> string \<Rightarrow> (string \<times> jsval) list" where
  "synchronized_payload source tid =
     (let action = to_lower (bounded_text 40 (fld source ''action'')) in
      [(''action'', JStr action), (''transport_transaction_id'', JStr tid),
       (''idempotency_key'', JStr tid), (''mirror_to_live_program'', JBool True),
       (''transaction_target_count'', target_count_of (fld source ''transaction_target_count''))]
      @ (if truthy (fld source ''content_instance_id'')
         then [(''content_instance_id'', JStr (bounded_text 160 (fld source ''content_instance_id'')))] else [])
      @ sync_slide action source @ sync_seek action source)"

record mirror_deps =
  lookup_workspace :: "string \<Rightarrow> string"
  program_state :: "string \<Rightarrow> jsval"
  live_device :: "string \<Rightarrow> string"
  persist_command :: "jsval \<Rightarrow> jsval option"
  device_online :: "string \<Rightarrow> bool"
  queue_live :: "string \<Rightarrow> jsval \<Rightarrow> jsval"
  make_command :: "jsval \<Rightarrow> jsval"
  marks_changed :: bool
  ttl_ms :: rat
  max_entries :: nat

record mirror_result =
  mr_owner :: bool
  mr_deduplicated :: bool
  mr_transaction :: string
  mr_count :: jsval
  mr_device :: string
  mr_command :: jsval
  mr_delivered :: bool
  mr_queued :: bool

datatype mirror_response = Excluded string "string option" | Included mirror_result

record mirror_entry =
  en_created :: rat
  en_fingerprint :: jsval
  en_result :: mirror_result

datatype mirror_effect = Persisted jsval | Emitted string jsval | Queued string jsval | Marked string

type_synonym mirror_map = "(string \<times> mirror_entry) list"

text \<open>\<open>while (size >= maxEntries) delete oldest\<close>. On an empty map that is still too large the
  loop spins for ever: \<open>None\<close>.\<close>

fun evict :: "nat \<Rightarrow> mirror_map \<Rightarrow> mirror_map option" where
  "evict mx [] = (if 0 < mx then Some [] else None)"
| "evict mx (e # m) = (if length (e # m) < mx then Some (e # m) else evict mx m)"

definition drop_stale :: "rat \<Rightarrow> rat \<Rightarrow> mirror_map \<Rightarrow> mirror_map" where
  "drop_stale ttl now m = filter (\<lambda>(k, e). \<not> now - en_created e > ttl) m"

definition mirror_sweep :: "mirror_deps \<Rightarrow> rat \<Rightarrow> mirror_map \<Rightarrow> mirror_map option" where
  "mirror_sweep d now m = evict (max_entries d) (drop_stale (ttl_ms d) now m)"

definition tx_text :: "jsval \<Rightarrow> string" where
  "tx_text payload = bounded_text 160 (js_or (fld payload ''transport_transaction_id'') (fld payload ''idempotency_key''))"

definition keys_disagree :: "jsval \<Rightarrow> bool" where
  "keys_disagree payload \<longleftrightarrow> bounded_text 160 (fld payload ''transport_transaction_id'') \<noteq> []
     \<and> bounded_text 160 (fld payload ''idempotency_key'') \<noteq> []
     \<and> bounded_text 160 (fld payload ''transport_transaction_id'') \<noteq> bounded_text 160 (fld payload ''idempotency_key'')"

text \<open>The checks before the gate: a reason to exclude, or the workspace and its live device.\<close>

definition mirror_guard :: "mirror_deps \<Rightarrow> string \<Rightarrow> jsval \<Rightarrow> (string \<times> string option) + string \<times> string" where
  "mirror_guard d source payload =
     (let action = to_lower (bounded_text 40 (fld payload ''action'')); tid = tx_text payload;
          ws = lookup_workspace d source; live = live_device d ws
      in if action \<notin> set synchronized_actions
           then Inl (''ambiguous_or_unsupported_action'', if tid = [] then None else Some tid)
         else if tid = [] then Inl (''missing_transport_transaction'', None)
         else if keys_disagree payload then Inl (''transport_idempotency_mismatch'', Some tid)
         else if fld payload ''mirror_to_live_program'' \<noteq> JBool True
           then Inl (''live_mirror_not_requested'', Some tid)
         else if ws = [] then Inl (''workspace_not_found'', Some tid)
         else if \<not> truthy (fld (js_or (program_state d ws) (JObj [])) ''content_active'')
           then Inl (''live_content_inactive'', Some tid)
         else if live = [] \<or> live = source then Inl (''live_receiver_not_eligible'', Some tid)
         else Inr (ws, live))"

definition persist_args :: "string \<Rightarrow> string \<Rightarrow> jsval \<Rightarrow> jsval \<Rightarrow> jsval" where
  "persist_args live action payload user =
     JObj [(''target_type'', JStr ''display''), (''target_id'', JStr live), (''command_type'', JStr action),
           (''payload'', payload), (''issued_by'', js_or user JNull), (''requires_ack'', jint 1)]"

definition live_envelope :: "mirror_deps \<Rightarrow> jsval \<Rightarrow> jsval \<Rightarrow> string \<Rightarrow> jsval \<Rightarrow> jsval" where
  "live_envelope d envelope cid live payload =
     make_command d (JObj (merge_fields (obj_fields envelope)
       [(''command_id'', cid), (''device_id'', JStr live), (''target_scope'', JStr ''display''),
        (''payload'', payload)]))"

text \<open>Persist, then emit or queue, then remember.\<close>

definition mirror_send ::
  "mirror_deps \<Rightarrow> rat \<Rightarrow> string \<Rightarrow> jsval \<Rightarrow> jsval \<Rightarrow> string \<Rightarrow> string \<Rightarrow> (string \<times> jsval) list \<Rightarrow> mirror_map
   \<Rightarrow> mirror_response \<times> mirror_effect list \<times> mirror_map" where
  "mirror_send d now key envelope user tid live lp m =
     (let payload = JObj lp; args = persist_args live
            (to_lower (bounded_text 40 (fld (fld envelope ''payload'') ''action''))) payload user;
          persisted = (case persist_command d args of None \<Rightarrow> JNull | Some v \<Rightarrow> v)
      in if \<not> truthy (fld persisted ''command_id'')
         then (Excluded ''live_command_persistence_failed'' (Some tid), [Persisted args], m)
         else
           (let env = live_envelope d envelope (fld persisted ''command_id'') live payload;
                online = device_online d live;
                result = \<lparr>mr_owner = True, mr_deduplicated = False, mr_transaction = tid,
                          mr_count = fld payload ''transaction_target_count'', mr_device = live,
                          mr_command = fld persisted ''command_id'', mr_delivered = online,
                          mr_queued = (\<not> online \<and> queue_live d live env = JBool True)\<rparr>
            in (Included result,
                [Persisted args, if online then Emitted live env else Queued live env]
                  @ (if marks_changed d then [Marked live] else []),
                AList.update key \<lparr>en_created = now, en_fingerprint = json_clean payload,
                                  en_result = result\<rparr> m)))"

text \<open>\<open>dispatch\<close>; \<open>None\<close> when the eviction loop never ends.\<close>

definition mirror_dispatch ::
  "mirror_deps \<Rightarrow> rat \<Rightarrow> string \<Rightarrow> jsval \<Rightarrow> jsval \<Rightarrow> mirror_map
   \<Rightarrow> (mirror_response \<times> mirror_effect list \<times> mirror_map) option" where
  "mirror_dispatch d now source envelope user m =
     (let payload = (if fld envelope ''type'' = JStr ''device:command'' then fld envelope ''payload''
                     else JBool False);
          tid = tx_text payload
      in case mirror_guard d source payload of
           Inl (reason, t) \<Rightarrow> Some (Excluded reason t, [], m)
         | Inr (ws, live) \<Rightarrow>
             (case mirror_sweep d now m of
                None \<Rightarrow> None
              | Some m1 \<Rightarrow>
                  (let key = ws @ '':'' @ tid; lp = synchronized_payload payload tid;
                       fp = json_clean (JObj lp)
                   in case map_of m1 key of
                        Some en \<Rightarrow>
                          if en_fingerprint en \<noteq> fp
                          then Some (Excluded ''transport_idempotency_conflict'' (Some tid), [], m1)
                          else Some (Included ((en_result en)\<lparr>mr_owner := False, mr_deduplicated := True\<rparr>), [], m1)
                      | None \<Rightarrow> Some (mirror_send d now key envelope user tid live lp m1))))"

subsection \<open>Lemmas\<close>

lemma evict_total: "0 < mx \<Longrightarrow> \<exists>m'. evict mx m = Some m'"
  by (induction m) auto

lemma evict_suffix: "evict mx m = Some m' \<Longrightarrow> suffix m' m \<and> length m' < mx"
  by (induction m) (auto simp: suffix_ConsI split: if_splits)

lemma evict_id: "length m < mx \<Longrightarrow> evict mx m = Some m"
  by (cases m) auto

lemma distinct_keys_suffix: "suffix m' m \<Longrightarrow> distinct_keys m \<Longrightarrow> distinct_keys m'"
  by (auto simp: suffix_def distinct_keys_def)

text \<open>The bounded cache as a client sees it.\<close>

definition mirror_ok :: "mirror_deps \<Rightarrow> mirror_map \<Rightarrow> bool" where
  "mirror_ok d m \<longleftrightarrow> distinct_keys m \<and> length m \<le> max_entries d"

lemma mirror_sweep_ok:
  assumes "mirror_sweep d now m = Some m'" "distinct_keys m"
  shows "distinct_keys m'" "length m' < max_entries d"
  using assms evict_suffix [of "max_entries d" "drop_stale (ttl_ms d) now m" m']
  by (auto simp: mirror_sweep_def drop_stale_def intro: distinct_keys_suffix distinct_keys_filter)

lemma mirror_send_map:
  assumes "mirror_send d now key env user tid live lp m = (r, es, m')"
  shows "m' = m \<or> (\<exists>en. m' = AList.update key en m)"
  using assms by (auto simp: mirror_send_def Let_def split: if_splits)

lemma mirror_dispatch_ok:
  assumes "mirror_ok d m" "mirror_dispatch d now source env user m = Some (r, es, m')"
  shows "mirror_ok d m'"
proof -
  from assms(2) consider "m' = m"
    | m1 where "mirror_sweep d now m = Some m1" "m' = m1 \<or> (\<exists>k en. m' = AList.update k en m1)"
    by (auto simp: mirror_dispatch_def Let_def split: sum.splits prod.splits option.splits if_splits
        dest!: mirror_send_map)
  then show ?thesis
  proof cases
    case 1
    with assms(1) show ?thesis by simp
  next
    case 2
    with assms(1) mirror_sweep_ok [OF 2(1)] show ?thesis
      by (auto simp: mirror_ok_def alist.wf_put intro: order_trans [OF length_update_le])
  qed
qed

lemma mirror_dispatch_None:
  "mirror_dispatch d now source env user m = None \<Longrightarrow> mirror_sweep d now m = None"
  by (auto simp: mirror_dispatch_def Let_def split: sum.splits prod.splits option.splits if_splits)

text \<open>The gate is bounded and its eviction loop ends: with room for at least one entry every
  dispatch returns, and afterwards the cache holds at most \<open>maxEntries\<close> entries with distinct
  keys.\<close>

theorem mirror_dispatch_returns:
  assumes "mirror_ok d m" "0 < max_entries d"
  shows "\<exists>r es m'. mirror_dispatch d now source env user m = Some (r, es, m') \<and> mirror_ok d m'"
proof -
  have "mirror_sweep d now m \<noteq> None"
    using evict_total [OF assms(2)] by (auto simp: mirror_sweep_def)
  then have "mirror_dispatch d now source env user m \<noteq> None"
    by (rule contrapos_nn) (rule mirror_dispatch_None)
  then obtain r es m' where e: "mirror_dispatch d now source env user m = Some (r, es, m')"
    by (metis option.exhaust prod_cases3)
  with mirror_dispatch_ok [OF assms(1) e] show ?thesis by blast
qed

text \<open>A fresh send ends up as the last entry, which eviction reaches last.\<close>

lemma evict_keeps_last: "1 < mx \<Longrightarrow> evict mx (m @ [e]) = Some m' \<Longrightarrow> \<exists>t. m' = t @ [e]"
  by (induction m) (auto split: if_splits)

lemma mirror_dispatch_fresh:
  assumes "mirror_dispatch d now source env user m = Some (Included res, es, m')" "mr_owner res"
    and "payload = (if fld env ''type'' = JStr ''device:command'' then fld env ''payload'' else JBool False)"
    and "tid = tx_text payload"
  obtains ws live m1 where "mirror_guard d source payload = Inr (ws, live)" "mirror_sweep d now m = Some m1"
    "map_of m1 (ws @ '':'' @ tid) = None"
    "mirror_send d now (ws @ '':'' @ tid) env user tid live (synchronized_payload payload tid) m1
       = (Included res, es, m')"
  using assms by (auto simp: mirror_dispatch_def Let_def split: sum.splits prod.splits option.splits if_splits)

text \<open>Repeating a mirrored command is harmless: within the time to live the same envelope is
  answered with the first result, marked as a duplicate, and nothing is persisted, emitted or
  queued.\<close>

theorem mirror_repeat:
  assumes "mirror_ok d m" "mirror_dispatch d now source env user m = Some (Included res, es, m')"
    and "mr_owner res" "now' - now \<le> ttl_ms d" "1 < max_entries d"
  shows "\<exists>m''. mirror_dispatch d now' source env user m'
      = Some (Included (res\<lparr>mr_owner := False, mr_deduplicated := True\<rparr>), [], m'')"
proof -
  define payload where "payload = (if fld env ''type'' = JStr ''device:command'' then fld env ''payload'' else JBool False)"
  define tid where "tid = tx_text payload"
  let ?lp = "synchronized_payload payload tid"
  obtain ws live m1 where g: "mirror_guard d source payload = Inr (ws, live)"
    and sw: "mirror_sweep d now m = Some m1" and k: "map_of m1 (ws @ '':'' @ tid) = None"
    and send: "mirror_send d now (ws @ '':'' @ tid) env user tid live ?lp m1 = (Included res, es, m')"
    by (rule mirror_dispatch_fresh [OF assms(2,3) payload_def tid_def])
  let ?key = "ws @ '':'' @ tid"
  from send have "m' = AList.update ?key \<lparr>en_created = now, en_fingerprint = json_clean (JObj ?lp), en_result = res\<rparr> m1"
    by (auto simp: mirror_send_def Let_def split: if_splits)
  then have m': "m' = m1 @ [(?key, \<lparr>en_created = now, en_fingerprint = json_clean (JObj ?lp), en_result = res\<rparr>)]"
    (is "_ = m1 @ [(_, ?en)]") by (simp only: update_fresh [OF k])
  have ds: "drop_stale (ttl_ms d) now' m' = drop_stale (ttl_ms d) now' m1 @ [(?key, ?en)]"
    using assms(4) by (simp add: m' drop_stale_def)
  from assms(5) obtain m2 where e2: "evict (max_entries d) (drop_stale (ttl_ms d) now' m') = Some m2"
    using evict_total by (metis less_trans zero_less_one)
  obtain t where t: "m2 = t @ [(?key, ?en)]" using evict_keeps_last [OF assms(5)] e2 ds by metis
  have "?key \<notin> fst ` set t"
  proof -
    have "suffix m2 (drop_stale (ttl_ms d) now' m')" using evict_suffix [OF e2] by blast
    then obtain p where "drop_stale (ttl_ms d) now' m1 = p @ t" by (auto simp: t ds suffix_def)
    then have "set t \<subseteq> set (drop_stale (ttl_ms d) now' m1)" by simp
    then have "set t \<subseteq> set m1" by (auto simp: drop_stale_def)
    with k show ?thesis by (auto simp: map_of_eq_None_iff)
  qed
  then have "map_of t ?key = None" by (simp only: map_of_eq_None_iff not_False_eq_True)
  then have look: "map_of m2 ?key = Some ?en" by (simp add: t map_add_def)
  have fg: "mirror_sweep d now' m' = Some m2" using e2 by (simp add: mirror_sweep_def)
  show ?thesis
    using g look fg by (simp add: mirror_dispatch_def Let_def payload_def [symmetric] tid_def [symmetric])
qed

text \<open>What reaches the receiver is built from the transport vocabulary alone.\<close>

definition mirror_vocabulary :: "string list" where
  "mirror_vocabulary = [''action'', ''transport_transaction_id'', ''idempotency_key'',
     ''mirror_to_live_program'', ''transaction_target_count'', ''content_instance_id'', ''slide'',
     ''page'', ''slide_index''] @ seek_keys"

lemma synchronized_payload_keys: "fst ` set (synchronized_payload source tid) \<subseteq> set mirror_vocabulary"
  by (auto simp: synchronized_payload_def mirror_vocabulary_def sync_slide_def sync_seek_def Let_def
      split: if_splits option.splits)

lemma fld_outside: "k \<notin> fst ` set kvs \<Longrightarrow> fld (JObj kvs) k = JUndef"
proof -
  assume "k \<notin> fst ` set kvs"
  then have "map_of kvs k = None" by (simp add: map_of_eq_None_iff)
  then show ?thesis by (simp add: fld_def)
qed

lemma fld_live_source:
  "fld (JObj (merge_fields b [(''command_id'', c), (''device_id'', l), (''target_scope'', t), (''payload'', p)])) ''payload'' = p"
  "fld (JObj (merge_fields b [(''command_id'', c), (''device_id'', l), (''target_scope'', t), (''payload'', p)])) ''device_id'' = l"
  by simp_all

lemma mirror_guard_Inr:
  "mirror_guard d source payload = Inr (ws, live) \<Longrightarrow>
   ws = lookup_workspace d source \<and> live = live_device d ws \<and> live \<noteq> source
   \<and> truthy (fld (js_or (program_state d ws) (JObj [])) ''content_active'')"
  by (auto simp: mirror_guard_def Let_def split: if_splits)

text \<open>A mirrored command goes to the live receiver of the source's workspace only, never back to
  the source, only while that workspace's program content is active, and carries nothing outside
  the transport vocabulary: volume, mute and speaker fields of the classroom command never reach
  the receiver.\<close>

theorem mirror_only_transport:
  assumes "mirror_dispatch d now source env user m = Some (r, es, m')"
    and "Emitted dev out \<in> set es \<or> Queued dev out \<in> set es" "make_command d = create_command u t"
  shows "dev = live_device d (lookup_workspace d source) \<and> dev \<noteq> source
    \<and> truthy (fld (js_or (program_state d (lookup_workspace d source)) (JObj [])) ''content_active'')
    \<and> (\<forall>k. k \<notin> set mirror_vocabulary \<longrightarrow> fld (fld out ''payload'') k = JUndef)"
proof -
  define payload where "payload = (if fld env ''type'' = JStr ''device:command'' then fld env ''payload'' else JBool False)"
  let ?lp = "synchronized_payload payload (tx_text payload)"
  from assms(1,2) obtain ws live m1 where g: "mirror_guard d source payload = Inr (ws, live)"
    and send: "mirror_send d now (ws @ '':'' @ tx_text payload) env user (tx_text payload) live ?lp m1 = (r, es, m')"
    by (auto simp: mirror_dispatch_def Let_def payload_def split: sum.splits prod.splits option.splits if_splits)
  from send assms(2) obtain cid where dev: "dev = live" and out: "out = live_envelope d env cid live (JObj ?lp)"
    by (auto simp: mirror_send_def Let_def split: if_splits)
  have "fld (fld out ''payload'') k = JUndef" if "k \<notin> set mirror_vocabulary" for k
  proof -
    have a: "k \<noteq> ''action''" using that by (auto simp: mirror_vocabulary_def)
    have k: "fld (JObj ?lp) k = JUndef"
      using that synchronized_payload_keys [of payload "tx_text payload"] by (auto intro: fld_outside)
    show ?thesis unfolding out live_envelope_def assms(3) create_command_payload fld_live_source
      using a k by (simp add: Let_def)
  qed
  with mirror_guard_Inr [OF g] dev show ?thesis by auto
qed

subsection \<open>A run\<close>

definition sample_mirror :: mirror_deps where
  "sample_mirror = \<lparr>lookup_workspace = (\<lambda>d. ''ws''), program_state = (\<lambda>w. JObj [(''content_active'', JBool True)]),
     live_device = (\<lambda>w. ''live''), persist_command = (\<lambda>a. Some (JObj [(''command_id'', JStr ''c1'')])),
     device_online = (\<lambda>d. True), queue_live = (\<lambda>d e. JBool True),
     make_command = create_command ''u'' ''t'', marks_changed = False, ttl_ms = 300000, max_entries = 1000\<rparr>"

definition sample_envelope :: jsval where
  "sample_envelope = JObj [(''type'', JStr ''device:command''), (''payload'', JObj [(''action'', JStr ''next''),
     (''transport_transaction_id'', JStr ''t1''), (''mirror_to_live_program'', JBool True),
     (''volume'', jint 1)])]"

definition sample_sent :: "(mirror_response \<times> mirror_effect list \<times> mirror_map) option" where
  "sample_sent = mirror_dispatch sample_mirror 0 ''tv'' sample_envelope JNull []"

fun is_owner :: "mirror_response \<Rightarrow> bool" where
  "is_owner (Included r) = mr_owner r"
| "is_owner (Excluded why t) = False"

fun sent_live :: "mirror_effect list \<Rightarrow> bool" where
  "sent_live [Persisted p, Emitted d e] = (d = ''live'')"
| "sent_live es = False"

fun_cases is_ownerE: "is_owner r"
fun_cases sent_liveE: "sent_live es"

definition sent_ok :: "(mirror_response \<times> mirror_effect list \<times> mirror_map) option \<Rightarrow> bool" where
  "sent_ok x = (case x of None \<Rightarrow> False | Some (r, es, m) \<Rightarrow> is_owner r \<and> sent_live es)"

lemma sample_sent_ok:
  obtains r p e m where "sample_sent = Some (Included r, [Persisted p, Emitted ''live'' e], m)" "mr_owner r"
proof -
  have "sent_ok sample_sent" by code_simp
  then obtain r es m where s: "sample_sent = Some (r, es, m)" and r: "is_owner r" and es: "sent_live es"
    unfolding sent_ok_def by (simp split: option.splits prod.splits)
  from r obtain r' where r': "r = Included r'" "mr_owner r'" by (rule is_ownerE)
  from es obtain p e where "es = [Persisted p, Emitted ''live'' e]" by (rule sent_liveE)
  with s r' show ?thesis by (intro that [of r' p e m]) simp_all
qed

lemma sample_mirror_ok: "mirror_ok sample_mirror []"
  by (simp add: mirror_ok_def sample_mirror_def)

theorem mirror_dispatch_returns_witness:
  "\<exists>r es m'. mirror_dispatch sample_mirror 0 ''tv'' sample_envelope JNull [] = Some (r, es, m') \<and> length m' \<le> 1000"
  using mirror_dispatch_returns [OF sample_mirror_ok, of 0 "''tv''" sample_envelope JNull]
  by (auto simp: mirror_ok_def sample_mirror_def)

theorem mirror_repeat_witness:
  "\<exists>r es m' m''. sample_sent = Some (Included r, es, m') \<and> es \<noteq> []
     \<and> mirror_dispatch sample_mirror 299999 ''tv'' sample_envelope JNull m'
       = Some (Included (r\<lparr>mr_owner := False, mr_deduplicated := True\<rparr>), [], m'')"
proof -
  obtain r p e m' where s: "sample_sent = Some (Included r, [Persisted p, Emitted ''live'' e], m')"
    and o: "mr_owner r" by (rule sample_sent_ok)
  have "1 < max_entries sample_mirror" "(299999::rat) - 0 \<le> ttl_ms sample_mirror"
    by (simp_all add: sample_mirror_def)
  from mirror_repeat [OF sample_mirror_ok s [unfolded sample_sent_def] o this(2,1)] s show ?thesis by auto
qed

theorem mirror_only_transport_witness:
  "\<exists>d e. (\<exists>r es m'. sample_sent = Some (r, es, m') \<and> Emitted d e \<in> set es) \<and> d = ''live''
     \<and> fld (fld e ''payload'') ''volume'' = JUndef"
proof -
  obtain r p e m' where s: "sample_sent = Some (Included r, [Persisted p, Emitted ''live'' e], m')"
    by (rule sample_sent_ok)
  have mk: "make_command sample_mirror = create_command ''u'' ''t''" by (simp add: sample_mirror_def)
  have v: "''volume'' \<notin> set mirror_vocabulary" by (simp add: mirror_vocabulary_def seek_keys_def)
  have "Emitted ''live'' e \<in> set [Persisted p, Emitted ''live'' e] \<or> Queued ''live'' e \<in> set [Persisted p, Emitted ''live'' e]"
    by simp
  from mirror_only_transport [OF s [unfolded sample_sent_def] this mk] v
  have p: "fld (fld e ''payload'') ''volume'' = JUndef" by blast
  show ?thesis
  proof (intro exI conjI)
    show "sample_sent = Some (Included r, [Persisted p, Emitted ''live'' e], m')" by (rule s)
    show "Emitted ''live'' e \<in> set [Persisted p, Emitted ''live'' e]" by simp
    show "fld (fld e ''payload'') ''volume'' = JUndef" by (rule p)
  qed simp
qed

end
