(* ===== verification/AudioOwnership.thy ===== *)
theory AudioOwnership
  imports Prelude "HOL-Library.Product_Lexorder"
begin

text \<open>
  Who may sound (\<open>server/lib/audio-ownership.js\<close>): the choice of an owner among the targets, the
  audio policy that is stamped on playlists, its revision counter, the rule by which a policy may
  replace another, and the check of what a renderer reports.

  Policies and assignments are JavaScript objects. A published snapshot is the value its JSON text
  parses to (null when absent or not JSON). \<open>localeCompare\<close> compares collation keys; the key of
  the host's locale is the parameter \<open>ckey\<close>. Statements of the database do not fail.
\<close>

subsection \<open>Identifiers and roles\<close>

definition id_of :: "jsval \<Rightarrow> string option" where
  "id_of v = (let s = text_of v in if s = [] then None else Some s)"

definition unique_ids :: "jsval \<Rightarrow> string list" where
  "unique_ids v = dedup (List.map_filter id_of (array_items v))"

fun collapse_spaces :: "string \<Rightarrow> string" where
  \<comment> \<open>\<open>replace(/\s+/g, ' ')\<close>\<close>
  "collapse_spaces [] = []"
| "collapse_spaces (c # s) =
     (if is_space c then (case s of d # t \<Rightarrow> if is_space d then collapse_spaces s
                                              else CHR '' '' # collapse_spaces s
                          | [] \<Rightarrow> [CHR '' ''])
      else c # collapse_spaces s)"

definition role_name :: "jsval \<Rightarrow> string" where
  "role_name v = collapse_spaces (to_lower (text_of v))"

definition physical_role_rank :: "jsval \<Rightarrow> nat" where
  "physical_role_rank v =
     (let n = role_name v in
      if str_includes n ''front left'' then 0
      else if str_includes n ''front center'' then 1
      else if str_includes n ''front right'' then 2
      else if str_includes n ''side left'' then 3
      else if str_includes n ''side right'' then 4 else 100)"

definition is_classroom_renderer_device :: "jsval \<Rightarrow> bool" where
  "is_classroom_renderer_device d \<longleftrightarrow> truthy d \<and> id_of (fld d ''id'') \<noteq> None
     \<and> physical_role_rank (fld d ''name'') < 100"

definition device_id_of :: "jsval \<Rightarrow> string" where
  "device_id_of d = text_of (fld d ''id'')"

definition renderer_key :: "(string \<Rightarrow> nat list) \<Rightarrow> jsval \<Rightarrow> nat \<times> nat list \<times> nat list" where
  "renderer_key ckey d = (physical_role_rank (fld d ''name''),
     ckey (to_str (js_or (fld d ''name'') (JStr []))), ckey (device_id_of d))"

definition ordered_renderer_device_ids :: "(string \<Rightarrow> nat list) \<Rightarrow> jsval \<Rightarrow> string list" where
  "ordered_renderer_device_ids ckey devices =
     map device_id_of (sort_key (renderer_key ckey) (filter is_classroom_renderer_device (array_items devices)))"

definition front_left_names :: "string list" where
  "front_left_names = [''front left'', ''classroom 1 - front left'', ''classroom1 - front left'']"

definition resolve_physical_audio_output_device_id :: "jsval \<Rightarrow> string option" where
  "resolve_physical_audio_output_device_id devices =
     (case find (\<lambda>d. truthy d \<and> id_of (fld d ''id'') \<noteq> None \<and> role_name (fld d ''name'') \<in> set front_left_names)
        (array_items devices) of
        None \<Rightarrow> None | Some d \<Rightarrow> id_of (fld d ''id''))"

definition resolve_deterministic_audio_owner ::
  "jsval \<Rightarrow> jsval \<Rightarrow> jsval \<Rightarrow> jsval \<Rightarrow> string option" where
  "resolve_deterministic_audio_owner target_ids preferred ordered online =
     (let targets = unique_ids target_ids;
          online_targets = filter (\<lambda>i. i \<in> set targets) (unique_ids online);
          candidates = (if is_array online then online_targets else targets)
      in if targets = [] then None
         else if is_array online \<and> online_targets = [] then None
         else (case id_of preferred of
                 Some p \<Rightarrow> if p \<in> set candidates then Some p
                   else (let stable = filter (\<lambda>i. i \<in> set candidates) (unique_ids ordered) in
                         case stable @ sort (filter (\<lambda>i. i \<notin> set stable) candidates) of
                           [] \<Rightarrow> None | i # _ \<Rightarrow> Some i)
               | None \<Rightarrow> (let stable = filter (\<lambda>i. i \<in> set candidates) (unique_ids ordered) in
                         case stable @ sort (filter (\<lambda>i. i \<notin> set stable) candidates) of
                           [] \<Rightarrow> None | i # _ \<Rightarrow> Some i)))"

subsection \<open>Policies\<close>

definition finite_number :: "jsval \<Rightarrow> jsnum option" where
  "finite_number v = (if is_nullish v \<or> v = JStr [] then None
     else if is_finite (to_num v) then Some (to_num v) else None)"

definition positive_safe_integer :: "jsval \<Rightarrow> int option" where
  "positive_safe_integer v =
     (case finite_number v of
        None \<Rightarrow> None
      | Some n \<Rightarrow> (case num_int n of
            None \<Rightarrow> None
          | Some i \<Rightarrow> if \<bar>i\<bar> \<le> max_safe \<and> 0 < i then Some i else None))"

definition jid :: "jsval \<Rightarrow> jsval" where
  "jid v = (case id_of v of None \<Rightarrow> JNull | Some s \<Rightarrow> JStr s)"

definition jpos :: "jsval \<Rightarrow> jsval" where
  "jpos v = (case positive_safe_integer v of None \<Rightarrow> JNull | Some i \<Rightarrow> jint i)"

definition has_valid_audio_policy_epoch :: "jsval \<Rightarrow> bool" where
  "has_valid_audio_policy_epoch p \<longleftrightarrow> truthy p \<and> num_eq (to_num (fld p ''version'')) (Fin 1)
     \<and> id_of (fld p ''output_device_id'') \<noteq> None \<and> id_of (fld p ''content_instance_id'') \<noteq> None
     \<and> id_of (fld p ''transaction_id'') \<noteq> None
     \<and> positive_safe_integer (fld p ''generation'') \<noteq> None
     \<and> positive_safe_integer (fld p ''revision'') \<noteq> None"

record policy_args =
  pa_output :: jsval
  pa_owner :: jsval
  pa_instance :: jsval
  pa_transaction :: jsval
  pa_generation :: jsval
  pa_revision :: jsval
  pa_source :: jsval

definition build_audio_policy :: "policy_args \<Rightarrow> jsval" where
  "build_audio_policy a = JObj ([(''version'', jint 1), (''output_device_id'', jid (pa_output a)),
     (''owner_device_id'', jid (pa_owner a)), (''content_instance_id'', jid (pa_instance a)),
     (''transaction_id'', jid (pa_transaction a)), (''generation'', jpos (pa_generation a)),
     (''revision'', jpos (pa_revision a))]
     @ (case id_of (pa_source a) of None \<Rightarrow> [] | Some s \<Rightarrow> [(''source_key'', JStr s)]))"

text \<open>The argument object the callers build from an existing policy.\<close>

definition args_of :: "jsval \<Rightarrow> policy_args" where
  "args_of p = \<lparr>pa_output = fld p ''output_device_id'', pa_owner = fld p ''owner_device_id'',
     pa_instance = fld p ''content_instance_id'', pa_transaction = fld p ''transaction_id'',
     pa_generation = fld p ''generation'', pa_revision = fld p ''revision'',
     pa_source = fld p ''source_key''\<rparr>"

definition policy_for_device :: "jsval \<Rightarrow> jsval \<Rightarrow> jsval \<Rightarrow> jsval" where
  "policy_for_device p dev playlist_rv =
     (if \<not> is_object p \<or> \<not> num_eq (to_num (fld p ''version'')) (Fin 1) then JNull
      else (let n = build_audio_policy (args_of p);
                allowed = (truthy (fld n ''owner_device_id'') \<and> fld n ''owner_device_id'' = jid dev)
            in if \<not> has_valid_audio_policy_epoch n then JNull
               else JObj (merge_fields (obj_fields n)
                 ((if truthy playlist_rv then [(''playlist_revision'', JStr (to_str playlist_rv))] else [])
                  @ [(''audio_allowed'', JBool allowed), (''force_muted'', JBool (\<not> allowed))]))))"

definition js_trunc :: "rat \<Rightarrow> int" where
  "js_trunc r = (if 0 \<le> r then \<lfloor>r\<rfloor> else \<lceil>r\<rceil>)"

text \<open>The counter \<open>lastIssuedRevision\<close> is the state; the new value is also the result.\<close>

definition next_audio_policy_revision :: "rat \<Rightarrow> jsval \<Rightarrow> int \<Rightarrow> int" where
  "next_audio_policy_revision now persisted last_issued =
     max (js_trunc (now * 1000))
       (max (last_issued + 1)
         ((case positive_safe_integer persisted of None \<Rightarrow> 0 | Some i \<Rightarrow> i) + 1))"

definition policy_identity :: "string list" where
  "policy_identity = [''transaction_id'', ''content_instance_id'', ''owner_device_id'',
     ''output_device_id'', ''generation'', ''revision'', ''source_key'']"

definition agree_on :: "jsval \<Rightarrow> jsval \<Rightarrow> bool" where
  "agree_on p q \<longleftrightarrow> list_all (\<lambda>k. to_str (js_coalesce (fld p k) (JStr [])) = to_str (js_coalesce (fld q k) (JStr [])))
     policy_identity"

definition common_audio_policy :: "jsval list \<Rightarrow> jsval" where
  "common_audio_policy items =
     (case map (\<lambda>i. fld i ''audio_policy'') items of
        [] \<Rightarrow> JNull
      | first # rest \<Rightarrow>
          if \<not> list_all has_valid_audio_policy_epoch (first # rest) then JNull
          else if \<not> list_all (\<lambda>p. agree_on p first) (first # rest) then JNull
          else build_audio_policy (args_of first))"

definition stored_revisions :: "jsval list \<Rightarrow> int list" where
  "stored_revisions items = List.map_filter (\<lambda>i. positive_safe_integer (fld (fld i ''audio_policy'') ''revision'')) items"

definition audio_policy_can_replace_assignments :: "jsval list \<Rightarrow> jsval \<Rightarrow> bool" where
  "audio_policy_can_replace_assignments items p =
     (let proposed = build_audio_policy (args_of p); revs = stored_revisions items;
          rv = (case positive_safe_integer (fld proposed ''revision'') of None \<Rightarrow> 0 | Some i \<Rightarrow> i);
          current = common_audio_policy items
      in if \<not> has_valid_audio_policy_epoch proposed then False
         else if revs \<noteq> [] \<and> Max (set revs) < rv then True
         else if revs \<noteq> [] \<and> rv < Max (set revs) then False
         else if current = JNull then revs = []
         else agree_on proposed current)"

subsection \<open>Playlists\<close>

record audio_device =
  ad_id :: string
  ad_name :: jsval
  ad_workspace :: string
  ad_playlist :: "string option"

record audio_db =
  playlists :: "(string \<times> jsval) list"
  audio_devices :: "audio_device list"

definition parse_published_assignments :: "jsval \<Rightarrow> jsval list" where
  "parse_published_assignments raw = array_items raw"

definition can_replace_playlist_audio_policy :: "audio_db option \<Rightarrow> jsval \<Rightarrow> jsval \<Rightarrow> bool" where
  "can_replace_playlist_audio_policy database playlist p =
     (case (database, id_of playlist) of
        (Some db, Some i) \<Rightarrow>
          (case map_of (playlists db) i of
             None \<Rightarrow> False
           | Some raw \<Rightarrow> audio_policy_can_replace_assignments (parse_published_assignments raw) p)
      | _ \<Rightarrow> False)"

definition max_persisted_audio_policy_revision :: "audio_db option \<Rightarrow> int" where
  "max_persisted_audio_policy_revision database =
     (case database of
        None \<Rightarrow> 0
      | Some db \<Rightarrow> foldl max 0 (concat (map (\<lambda>(i, raw). stored_revisions (parse_published_assignments raw)) (playlists db))))"

definition stamp_args :: "jsval \<Rightarrow> jsval \<Rightarrow> policy_args" where
  "stamp_args p inst = (args_of p)\<lparr>pa_instance := js_or (fld p ''content_instance_id'') inst\<rparr>"

definition stamp_item :: "jsval \<Rightarrow> string \<Rightarrow> jsval \<Rightarrow> jsval" where
  "stamp_item n i item = JObj (merge_fields (obj_fields item)
     [(''content_instance_id'', JStr i),
      (''audio_policy'', JObj (merge_fields (obj_fields n) [(''content_instance_id'', JStr i)]))])"

definition stamp_playlist_audio_policy ::
  "audio_db option \<Rightarrow> jsval \<Rightarrow> jsval \<Rightarrow> jsval \<Rightarrow> bool \<times> audio_db option" where
  "stamp_playlist_audio_policy database playlist p inst =
     (case (database, id_of playlist) of
        (Some db, Some i) \<Rightarrow>
          (case map_of (playlists db) i of
             None \<Rightarrow> (False, database)
           | Some raw \<Rightarrow>
               (let items = parse_published_assignments raw; n = build_audio_policy (stamp_args p inst);
                    instance = (case id_of inst of Some s \<Rightarrow> Some s | None \<Rightarrow> id_of (fld n ''content_instance_id''))
                in if items = [] then (False, database)
                   else (case instance of
                     None \<Rightarrow> (False, database)
                   | Some c \<Rightarrow>
                       if fld n ''transaction_id'' = JNull \<or> fld n ''revision'' = JNull then (False, database)
                       else if \<not> audio_policy_can_replace_assignments items n then (False, database)
                       else (True, Some (db\<lparr>playlists := AList.update i (JArr (map (stamp_item n c) items)) (playlists db)\<rparr>)))))
      | _ \<Rightarrow> (False, database))"

definition snapshot_of_device :: "audio_db \<Rightarrow> audio_device \<Rightarrow> jsval" where
  "snapshot_of_device db d = (case ad_playlist d of None \<Rightarrow> JNull
     | Some p \<Rightarrow> (case map_of (playlists db) p of None \<Rightarrow> JNull | Some raw \<Rightarrow> raw))"

definition stored_audio_policy_for_device :: "audio_db option \<Rightarrow> jsval \<Rightarrow> jsval" where
  "stored_audio_policy_for_device database dev =
     (case (database, id_of dev) of
        (Some db, Some i) \<Rightarrow>
          (let raw = (case find (\<lambda>d. ad_id d = i) (audio_devices db) of None \<Rightarrow> JUndef | Some d \<Rightarrow> snapshot_of_device db d);
               common = common_audio_policy (parse_published_assignments raw)
           in if common = JNull then JNull else policy_for_device common (JStr i) JNull)
      | _ \<Rightarrow> JNull)"

definition device_row :: "audio_device \<Rightarrow> jsval" where
  "device_row d = JObj [(''id'', JStr (ad_id d)), (''name'', ad_name d),
     (''playlist_id'', case ad_playlist d of None \<Rightarrow> JNull | Some p \<Rightarrow> JStr p)]"

definition find_audio_policy_participants :: "audio_db option \<Rightarrow> jsval \<Rightarrow> jsval \<Rightarrow> jsval \<Rightarrow> string list" where
  "find_audio_policy_participants database ws source playlist =
     (case (database, id_of ws) of
        (Some db, Some w) \<Rightarrow>
          map (\<lambda>d. device_id_of (device_row d)) (filter (\<lambda>d. is_classroom_renderer_device (device_row d)
             \<and> ((id_of playlist \<noteq> None \<and> id_of (fld (device_row d) ''playlist_id'') = id_of playlist)
                \<or> (id_of source \<noteq> None
                   \<and> id_of (fld (common_audio_policy (parse_published_assignments (snapshot_of_device db d))) ''source_key'')
                       = id_of source)))
            (filter (\<lambda>d. ad_workspace d = w) (audio_devices db)))
      | _ \<Rightarrow> [])"

subsection \<open>What a renderer reports\<close>

datatype clamp = NoClamp | Clamp string

definition claims_audio :: "jsval \<Rightarrow> bool" where
  "claims_audio r \<longleftrightarrow> fld r ''audio_allowed'' = JBool True \<or> fld r ''muted'' = JBool False"

definition same_text :: "jsval \<Rightarrow> jsval \<Rightarrow> bool" where
  "same_text a b \<longleftrightarrow> to_str (js_or a (JStr [])) = to_str (js_or b (JStr []))"

definition audio_policy_heartbeat_decision :: "jsval \<Rightarrow> jsval \<Rightarrow> clamp" where
  "audio_policy_heartbeat_decision p reported =
     (let r = (if is_object reported then reported else JObj []) in
      if \<not> truthy p then
        (if claims_audio r then Clamp ''authoritative_audio_policy_missing'' else NoClamp)
      else if \<not> (same_text (fld r ''transaction_id'') (fld p ''transaction_id'')
                 \<and> same_text (fld r ''content_instance_id'') (fld p ''content_instance_id'')
                 \<and> finite_number (fld r ''revision'') = finite_number (fld p ''revision'')
                 \<and> finite_number (fld r ''generation'') = finite_number (fld p ''generation'')
                 \<and> same_text (fld r ''playlist_revision'') (fld p ''playlist_revision''))
        then Clamp ''audio_policy_identity_mismatch''
      else if fld p ''audio_allowed'' \<noteq> JBool True \<and> claims_audio r
        then Clamp ''renderer_unmuted_without_authority''
      else NoClamp)"

subsection \<open>Normal forms\<close>

lemma id_of_JStr [simp]: "id_of (JStr s) = (if trim s = [] then None else Some (trim s))"
  by (simp add: id_of_def)

lemma id_of_nullish [simp]: "id_of JUndef = None" "id_of JNull = None"
  by (simp_all add: id_of_def)

lemma id_of_Some: "id_of v = Some s \<Longrightarrow> trim s = s \<and> s \<noteq> []"
  by (auto simp: id_of_def Let_def text_of_def split: if_splits)

lemma id_of_jid [simp]: "id_of (jid v) = id_of v"
proof (cases "id_of v")
  case None
  then show ?thesis by (simp add: jid_def)
next
  case (Some s)
  with id_of_Some [OF Some] show ?thesis by (simp add: jid_def)
qed

lemma jid_jid [simp]: "jid (jid v) = jid v"
  by (simp add: jid_def [of "jid v"]) (simp add: jid_def)

lemma positive_safe_jint [simp]: "positive_safe_integer (jint i) = (if \<bar>i\<bar> \<le> max_safe \<and> 0 < i then Some i else None)"
  by (simp add: positive_safe_integer_def finite_number_def is_nullish_def)

lemma positive_safe_Some: "positive_safe_integer v = Some i \<Longrightarrow> \<bar>i\<bar> \<le> max_safe \<and> 0 < i"
  by (auto simp: positive_safe_integer_def split: option.splits if_splits)

lemma positive_safe_nullish [simp]: "positive_safe_integer JUndef = None" "positive_safe_integer JNull = None"
  by (simp_all add: positive_safe_integer_def finite_number_def is_nullish_def)

lemma positive_safe_jpos [simp]: "positive_safe_integer (jpos v) = positive_safe_integer v"
  using positive_safe_Some [of v] by (cases "positive_safe_integer v") (auto simp: jpos_def)

lemma jpos_jpos [simp]: "jpos (jpos v) = jpos v"
  by (simp add: jpos_def [of "jpos v"]) (simp add: jpos_def)

lemma build_fields [simp]:
  "fld (build_audio_policy a) ''version'' = jint 1"
  "fld (build_audio_policy a) ''output_device_id'' = jid (pa_output a)"
  "fld (build_audio_policy a) ''owner_device_id'' = jid (pa_owner a)"
  "fld (build_audio_policy a) ''content_instance_id'' = jid (pa_instance a)"
  "fld (build_audio_policy a) ''transaction_id'' = jid (pa_transaction a)"
  "fld (build_audio_policy a) ''generation'' = jpos (pa_generation a)"
  "fld (build_audio_policy a) ''revision'' = jpos (pa_revision a)"
  "fld (build_audio_policy a) ''source_key'' = (case id_of (pa_source a) of None \<Rightarrow> JUndef | Some s \<Rightarrow> JStr s)"
  by (simp_all add: build_audio_policy_def split: option.split)

lemma args_of_sel [simp]:
  "pa_output (args_of p) = fld p ''output_device_id''" "pa_owner (args_of p) = fld p ''owner_device_id''"
  "pa_instance (args_of p) = fld p ''content_instance_id''" "pa_transaction (args_of p) = fld p ''transaction_id''"
  "pa_generation (args_of p) = fld p ''generation''" "pa_revision (args_of p) = fld p ''revision''"
  "pa_source (args_of p) = fld p ''source_key''"
  by (simp_all add: args_of_def)

lemma truthy_build [simp]: "truthy (build_audio_policy a)" "is_object (build_audio_policy a)"
  "build_audio_policy a \<noteq> JNull"
  by (simp_all add: build_audio_policy_def)

lemma id_of_source [simp]: "id_of (case id_of v of None \<Rightarrow> JUndef | Some s \<Rightarrow> JStr s) = id_of v"
  by (cases "id_of v") (auto dest: id_of_Some)

lemma rebuild [simp]: "build_audio_policy (args_of (build_audio_policy a)) = build_audio_policy a"
  by (simp add: build_audio_policy_def [of "args_of _"])
     (simp add: build_audio_policy_def)

subsection \<open>One device may sound\<close>

lemma policy_for_device_flags:
  assumes "policy_for_device p dev rv \<noteq> JNull"
  shows "fld (policy_for_device p dev rv) ''audio_allowed''
      = JBool (id_of (fld p ''owner_device_id'') \<noteq> None \<and> id_of dev = id_of (fld p ''owner_device_id''))"
    "fld (policy_for_device p dev rv) ''force_muted''
      = JBool (\<not> (id_of (fld p ''owner_device_id'') \<noteq> None \<and> id_of dev = id_of (fld p ''owner_device_id'')))"
proof -
  have t: "truthy (jid v) \<longleftrightarrow> id_of v \<noteq> None" for v
    using id_of_Some [of v] by (cases "id_of v") (auto simp: jid_def)
  have e: "jid v = jid w \<longleftrightarrow> id_of v = id_of w" for v w
    by (auto simp: jid_def split: option.splits)
  show "fld (policy_for_device p dev rv) ''audio_allowed''
      = JBool (id_of (fld p ''owner_device_id'') \<noteq> None \<and> id_of dev = id_of (fld p ''owner_device_id''))"
    "fld (policy_for_device p dev rv) ''force_muted''
      = JBool (\<not> (id_of (fld p ''owner_device_id'') \<noteq> None \<and> id_of dev = id_of (fld p ''owner_device_id'')))"
    using assms by (auto simp: policy_for_device_def Let_def t e args_of_def split: if_splits)
qed

text \<open>One policy lets at most one device sound: if two devices are granted audio under the same
  policy they are the same device, the owner of the policy, and every device is either allowed
  or forced to mute.\<close>

theorem audio_allowed_unique:
  assumes "fld (policy_for_device p d1 r1) ''audio_allowed'' = JBool True"
    and "fld (policy_for_device p d2 r2) ''audio_allowed'' = JBool True"
  shows "id_of d1 = id_of d2 \<and> id_of d1 = id_of (fld p ''owner_device_id'') \<and> id_of d1 \<noteq> None
    \<and> fld (policy_for_device p d1 r1) ''force_muted'' = JBool False
    \<and> (\<forall>d r. policy_for_device p d r \<noteq> JNull \<longrightarrow> id_of d \<noteq> id_of d1
         \<longrightarrow> fld (policy_for_device p d r) ''force_muted'' = JBool True)"
proof -
  have n: "policy_for_device p d1 r1 \<noteq> JNull" "policy_for_device p d2 r2 \<noteq> JNull"
    using assms by (metis fld_simps(2) jsval.distinct(3) jsval.simps(10))+
  show ?thesis
    using policy_for_device_flags [OF n(1)] policy_for_device_flags [OF n(2)] assms
    by (auto simp: policy_for_device_flags)
qed

subsection \<open>The choice of an owner\<close>

definition owner_candidates :: "jsval \<Rightarrow> jsval \<Rightarrow> string list" where
  "owner_candidates target_ids online =
     (if is_array online then filter (\<lambda>i. i \<in> set (unique_ids target_ids)) (unique_ids online)
      else unique_ids target_ids)"

definition first_choice :: "string list \<Rightarrow> string list \<Rightarrow> string" where
  "first_choice ordered candidates =
     (case filter (\<lambda>i. i \<in> set candidates) ordered of i # _ \<Rightarrow> i | [] \<Rightarrow> hd (sort candidates))"

definition pick_owner :: "string option \<Rightarrow> string list \<Rightarrow> string list \<Rightarrow> string option" where
  "pick_owner preferred ordered candidates =
     (if candidates = [] then None
      else case preferred of
        Some p \<Rightarrow> if p \<in> set candidates then Some p else Some (first_choice ordered candidates)
      | None \<Rightarrow> Some (first_choice ordered candidates))"

lemma first_choice_in: "candidates \<noteq> [] \<Longrightarrow> first_choice ordered candidates \<in> set candidates"
proof (cases "filter (\<lambda>i. i \<in> set candidates) ordered")
  case Nil
  assume "candidates \<noteq> []"
  then have "hd (sort candidates) \<in> set (sort candidates)" by (intro hd_in_set) (metis set_empty set_sort)
  with Nil show ?thesis by (simp add: first_choice_def)
next
  case (Cons i more)
  have "i \<in> set (filter (\<lambda>i. i \<in> set candidates) ordered)" unfolding Cons by simp
  then have "i \<in> set candidates" by simp
  with Cons show ?thesis by (simp add: first_choice_def)
qed

lemma first_of_order: "candidates \<noteq> [] \<Longrightarrow>
  (case kept @ sort (filter (\<lambda>i. i \<notin> set kept) candidates) of [] \<Rightarrow> None | i # _ \<Rightarrow> Some i)
   = Some (case kept of i # _ \<Rightarrow> i | [] \<Rightarrow> hd (sort (candidates :: string list)))"
proof (cases kept)
  case Nil
  assume "candidates \<noteq> []"
  then have "sort candidates \<noteq> []" by (metis set_empty set_sort)
  with Nil show ?thesis by (cases "sort candidates") simp_all
qed simp

lemma resolve_owner_pick:
  "resolve_deterministic_audio_owner t p o_ids on =
     pick_owner (id_of p) (unique_ids o_ids) (owner_candidates t on)"
proof (cases "owner_candidates t on = []")
  case True
  then show ?thesis
    by (auto simp: resolve_deterministic_audio_owner_def pick_owner_def owner_candidates_def Let_def
        split: if_splits)
next
  case False
  then have t: "unique_ids t \<noteq> []" by (auto simp: owner_candidates_def split: if_splits)
  have o: "\<not> (is_array on \<and> filter (\<lambda>i. i \<in> set (unique_ids t)) (unique_ids on) = [])"
    using False unfolding owner_candidates_def by (auto split: if_splits)
  have c: "(if is_array on then filter (\<lambda>i. i \<in> set (unique_ids t)) (unique_ids on) else unique_ids t)
      = owner_candidates t on" by (simp add: owner_candidates_def)
  show ?thesis
    unfolding resolve_deterministic_audio_owner_def Let_def c first_of_order [OF False]
    using t o False by (simp add: pick_owner_def first_choice_def split: option.split)
qed

lemma distinct_unique_ids [simp]: "distinct (unique_ids v)"
  by (simp add: unique_ids_def)

lemma distinct_candidates: "distinct (owner_candidates t on)"
  by (simp add: owner_candidates_def)

lemma set_candidates: "set (owner_candidates t on) =
  (if is_array on then set (unique_ids t) \<inter> set (unique_ids on) else set (unique_ids t))"
  by (auto simp: owner_candidates_def)

lemma pick_owner_cong:
  assumes "set c = set c'" "distinct c" "distinct c'"
  shows "pick_owner p o_ids c = pick_owner p o_ids c'"
proof -
  have "sort c = sort c'"
    using assms by (intro sorted_distinct_set_unique) simp_all
  moreover have e: "c = [] \<longleftrightarrow> c' = []" using assms(1) by (metis set_empty)
  ultimately have "first_choice o_ids c = first_choice o_ids c'" using assms(1)
    by (simp add: first_choice_def cong: list.case_cong)
  then show ?thesis using assms(1) e by (cases p) (simp_all add: pick_owner_def)
qed

lemma pick_owner_in: "pick_owner p o_ids c = Some d \<Longrightarrow> d \<in> set c"
  by (auto simp: pick_owner_def first_choice_in split: if_splits option.splits)

lemma pick_owner_None: "pick_owner p o_ids c = None \<longleftrightarrow> c = []"
  by (auto simp: pick_owner_def split: option.splits if_splits)

text \<open>The owner is chosen deterministically. The choice depends on the targets and the online
  devices as sets only; it is a target that is online; none is chosen only when there is no such
  device; and a preferred device that qualifies is chosen.\<close>

theorem owner_choice:
  assumes "set (unique_ids t) = set (unique_ids t')" "set (unique_ids on) = set (unique_ids on')"
    and "is_array on = is_array on'"
  shows "resolve_deterministic_audio_owner t p o_ids on = resolve_deterministic_audio_owner t' p o_ids on'
    \<and> (\<forall>d. resolve_deterministic_audio_owner t p o_ids on = Some d
         \<longrightarrow> d \<in> set (unique_ids t) \<and> (is_array on \<longrightarrow> d \<in> set (unique_ids on)))
    \<and> (resolve_deterministic_audio_owner t p o_ids on = None
         \<longleftrightarrow> set (unique_ids t) \<inter> (if is_array on then set (unique_ids on) else UNIV) = {})
    \<and> (\<forall>d. id_of p = Some d \<longrightarrow> d \<in> set (unique_ids t) \<longrightarrow> (is_array on \<longrightarrow> d \<in> set (unique_ids on))
         \<longrightarrow> resolve_deterministic_audio_owner t p o_ids on = Some d)"
proof (intro conjI)
  have "set (owner_candidates t on) = set (owner_candidates t' on')"
    using assms by (simp add: set_candidates)
  then show "resolve_deterministic_audio_owner t p o_ids on = resolve_deterministic_audio_owner t' p o_ids on'"
    unfolding resolve_owner_pick by (rule pick_owner_cong [OF _ distinct_candidates distinct_candidates])
  show "\<forall>d. resolve_deterministic_audio_owner t p o_ids on = Some d
         \<longrightarrow> d \<in> set (unique_ids t) \<and> (is_array on \<longrightarrow> d \<in> set (unique_ids on))"
    unfolding resolve_owner_pick by (auto dest!: pick_owner_in simp: set_candidates split: if_splits)
  have "owner_candidates t on = [] \<longleftrightarrow> set (owner_candidates t on) = {}" by simp
  then show "resolve_deterministic_audio_owner t p o_ids on = None
         \<longleftrightarrow> set (unique_ids t) \<inter> (if is_array on then set (unique_ids on) else UNIV) = {}"
    unfolding resolve_owner_pick pick_owner_None by (simp add: set_candidates)
  show "\<forall>d. id_of p = Some d \<longrightarrow> d \<in> set (unique_ids t) \<longrightarrow> (is_array on \<longrightarrow> d \<in> set (unique_ids on))
         \<longrightarrow> resolve_deterministic_audio_owner t p o_ids on = Some d"
    unfolding resolve_owner_pick
    by (auto simp: pick_owner_def set_candidates) (metis empty_iff empty_set IntI set_candidates)+
qed

subsection \<open>Revisions\<close>

fun issue_revisions :: "(rat \<times> jsval) list \<Rightarrow> int \<Rightarrow> int list" where
  "issue_revisions [] last_issued = []"
| "issue_revisions ((now, persisted) # reqs) last_issued =
     (let r = next_audio_policy_revision now persisted last_issued in r # issue_revisions reqs r)"

lemma issue_revisions_above: "r \<in> set (issue_revisions reqs l) \<Longrightarrow> l < r"
proof (induction reqs arbitrary: l)
  case Nil
  then show ?case by simp
next
  case (Cons q reqs)
  obtain now ps where q: "q = (now, ps)" by (cases q)
  have "l < next_audio_policy_revision now ps l" by (simp add: next_audio_policy_revision_def)
  with Cons show ?case by (force simp: q Let_def)
qed

text \<open>Policy revisions strictly increase over any history of requests, whatever the clock does,
  each is above the counter it started from, and above the highest persisted revision it was
  given.\<close>

theorem revisions_strictly_increase:
  "sorted_wrt (<) (issue_revisions reqs l) \<and> (\<forall>r\<in>set (issue_revisions reqs l). l < r)
   \<and> (\<forall>now ps i. positive_safe_integer ps = Some i \<longrightarrow> i < next_audio_policy_revision now ps l)"
proof (intro conjI)
  show "sorted_wrt (<) (issue_revisions reqs l)"
    by (induction reqs l rule: issue_revisions.induct) (auto simp: Let_def issue_revisions_above)
qed (auto simp: issue_revisions_above next_audio_policy_revision_def)


subsection \<open>Replacing a policy\<close>

definition revision_of :: "jsval \<Rightarrow> int option" where
  "revision_of p = positive_safe_integer (fld p ''revision'')"

lemma revision_of_build [simp]: "revision_of (build_audio_policy (args_of p)) = revision_of p"
  by (simp add: revision_of_def)

lemma can_replace_revision:
  assumes "audio_policy_can_replace_assignments items p"
  shows "\<exists>r. revision_of p = Some r \<and> (\<forall>q\<in>set (stored_revisions items). q \<le> r)"
proof -
  let ?n = "build_audio_policy (args_of p)"
  from assms have v: "has_valid_audio_policy_epoch ?n"
    unfolding audio_policy_can_replace_assignments_def Let_def by (rule contrapos_pp) simp
  then obtain r where r: "revision_of p = Some r"
    by (auto simp: has_valid_audio_policy_epoch_def revision_of_def)
  have "Max (set (stored_revisions items)) \<le> r" if "stored_revisions items \<noteq> []"
  proof (rule ccontr)
    assume "\<not> Max (set (stored_revisions items)) \<le> r"
    then have "r < Max (set (stored_revisions items))" by simp
    moreover have "(case positive_safe_integer (fld ?n ''revision'') of None \<Rightarrow> 0 | Some i \<Rightarrow> i) = r"
      using r by (simp add: revision_of_def)
    ultimately show False using assms v that
      unfolding audio_policy_can_replace_assignments_def Let_def
      by (simp del: Max_less_iff cong: if_cong)
  qed
  moreover have "q \<le> Max (set (stored_revisions items))" if "q \<in> set (stored_revisions items)" for q
    using that by simp
  ultimately show ?thesis using r by (metis empty_iff empty_set le_trans order_trans)
qed

lemma lower_cannot_replace:
  assumes "stored_revisions items \<noteq> []" "\<forall>q\<in>set (stored_revisions items). r < q" "revision_of p = Some r"
  shows "\<not> audio_policy_can_replace_assignments items p"
proof
  assume "audio_policy_can_replace_assignments items p"
  from can_replace_revision [OF this] assms(3) have "\<forall>q\<in>set (stored_revisions items). q \<le> r" by simp
  moreover obtain q where "q \<in> set (stored_revisions items)" using assms(1) by (meson hd_in_set)
  ultimately show False using assms(2) by fastforce
qed

lemma stamp_item_policy [simp]:
  "fld (fld (stamp_item n c item) ''audio_policy'') ''revision'' = fld (JObj (obj_fields n)) ''revision''"
  by (simp add: stamp_item_def)

lemma fld_obj_fields [simp]: "fld (JObj (obj_fields v)) k = fld v k"
  by (simp add: fld_def)

lemma stored_revisions_stamped:
  assumes "revision_of n = Some r"
  shows "stored_revisions (map (stamp_item n c) items) = map (\<lambda>i. r) items"
  using assms by (induction items) (simp_all add: stored_revisions_def revision_of_def List.map_filter_simps)

lemma stamp_success:
  assumes "stamp_playlist_audio_policy (Some db) pl p inst = (True, d')"
  obtains i raw n c r where "id_of pl = Some i" "map_of (playlists db) i = Some raw"
    "n = build_audio_policy (stamp_args p inst)" "array_items raw \<noteq> []" "revision_of p = Some r"
    "\<forall>q\<in>set (stored_revisions (array_items raw)). q \<le> r"
    "d' = Some (db\<lparr>playlists := AList.update i (JArr (map (stamp_item n c) (array_items raw))) (playlists db)\<rparr>)"
proof -
  let ?n = "build_audio_policy (stamp_args p inst)"
  from assms obtain i raw c where
    a: "id_of pl = Some i" "map_of (playlists db) i = Some raw" "array_items raw \<noteq> []"
    and can: "audio_policy_can_replace_assignments (array_items raw) ?n"
    and d: "d' = Some (db\<lparr>playlists := AList.update i (JArr (map (stamp_item ?n c) (array_items raw))) (playlists db)\<rparr>)"
    by (auto simp: stamp_playlist_audio_policy_def parse_published_assignments_def Let_def
        split: option.splits if_splits)
  have "revision_of ?n = revision_of p" by (simp add: revision_of_def stamp_args_def)
  with can_replace_revision [OF can] a d show ?thesis by (auto intro: that)
qed

text \<open>C10: A stamped policy is never rolled back. When a policy is stamped on a playlist its revision
  is at least every revision stored there before, afterwards every assignment of the playlist
  carries that revision, and a policy with a lower revision can no longer be stamped.\<close>

theorem stamp_never_rolls_back:
  assumes "stamp_playlist_audio_policy (Some db) pl p inst = (True, Some db')"
    and "id_of pl = Some i" "map_of (playlists db) i = Some raw" "revision_of p = Some r"
  shows "(\<forall>q\<in>set (stored_revisions (array_items raw)). q \<le> r)
    \<and> (\<exists>raw'. map_of (playlists db') i = Some raw' \<and> length (array_items raw') = length (array_items raw)
         \<and> set (stored_revisions (array_items raw')) = {r})
    \<and> (\<forall>p' inst' r'. revision_of p' = Some r' \<longrightarrow> r' < r
         \<longrightarrow> stamp_playlist_audio_policy (Some db') pl p' inst' = (False, Some db'))"
proof -
  let ?n = "build_audio_policy (stamp_args p inst)"
  from stamp_success [OF assms(1)] assms(2-4) obtain c where
    ne: "array_items raw \<noteq> []" and le: "\<forall>q\<in>set (stored_revisions (array_items raw)). q \<le> r"
    and db: "db' = db\<lparr>playlists := AList.update i (JArr (map (stamp_item ?n c) (array_items raw))) (playlists db)\<rparr>"
    by (metis option.inject)
  have "revision_of ?n = Some r" using assms(4) by (simp add: revision_of_def stamp_args_def)
  from stored_revisions_stamped [OF this]
  have sr: "stored_revisions (map (stamp_item ?n c) (array_items raw)) = map (\<lambda>i. r) (array_items raw)" .
  have look: "map_of (playlists db') i = Some (JArr (map (stamp_item ?n c) (array_items raw)))"
    by (simp add: db update_conv')
  have low: "stamp_playlist_audio_policy (Some db') pl p' inst' = (False, Some db')"
    if "revision_of p' = Some r'" "r' < r" for p' inst' r'
  proof -
    have "revision_of (build_audio_policy (stamp_args p' inst')) = Some r'"
      using that(1) by (simp add: revision_of_def stamp_args_def)
    then have "\<not> audio_policy_can_replace_assignments (map (stamp_item ?n c) (array_items raw))
        (build_audio_policy (stamp_args p' inst'))"
      using ne that(2) by (intro lower_cannot_replace [of _ r']) (simp_all add: sr)
    then show ?thesis
      using assms(2) look by (simp add: stamp_playlist_audio_policy_def Let_def
          parse_published_assignments_def split: option.split)
  qed
  from ne have "set (map (\<lambda>i. r) (array_items raw)) = {r}" by (cases "array_items raw") auto
  with le look low sr show ?thesis by simp
qed

text \<open>A renderer that reports sounding and is not clamped holds the authoritative policy: there is
  one, it allows audio, and the report agrees with it on transaction, content, revision,
  generation and playlist revision.\<close>

theorem unclamped_renderer_authorized:
  assumes "audio_policy_heartbeat_decision p reported = NoClamp" "is_object reported" "claims_audio reported"
  shows "truthy p \<and> fld p ''audio_allowed'' = JBool True
    \<and> same_text (fld reported ''transaction_id'') (fld p ''transaction_id'')
    \<and> same_text (fld reported ''content_instance_id'') (fld p ''content_instance_id'')
    \<and> same_text (fld reported ''playlist_revision'') (fld p ''playlist_revision'')
    \<and> finite_number (fld reported ''revision'') = finite_number (fld p ''revision'')
    \<and> finite_number (fld reported ''generation'') = finite_number (fld p ''generation'')"
  using assms by (auto simp: audio_policy_heartbeat_decision_def Let_def split: if_splits)

subsection \<open>Witnesses\<close>

definition sample_policy :: jsval where
  "sample_policy = JObj [(''version'', jint 1), (''output_device_id'', JStr ''fl''),
     (''owner_device_id'', JStr ''fl''), (''content_instance_id'', JStr ''c''),
     (''transaction_id'', JStr ''t''), (''generation'', jint 1), (''revision'', jint 7)]"

definition sample_audio_db :: audio_db where
  "sample_audio_db = \<lparr>playlists = [(''p'', JArr [JObj [(''content_id'', JStr ''x'')]])], audio_devices = []\<rparr>"

theorem audio_allowed_unique_witness:
  "fld (policy_for_device sample_policy (JStr ''fl'') JNull) ''force_muted'' = JBool False
   \<and> fld (policy_for_device sample_policy (JStr ''fr'') JNull) ''force_muted'' = JBool True"
proof -
  have a: "fld (policy_for_device sample_policy (JStr ''fl'') JNull) ''audio_allowed'' = JBool True" by code_simp
  have n: "policy_for_device sample_policy (JStr ''fr'') JNull \<noteq> JNull"
    "id_of (JStr ''fr'') \<noteq> id_of (JStr ''fl'')" by code_simp+
  from audio_allowed_unique [OF a a] n show ?thesis by blast
qed

theorem owner_choice_witness:
  "resolve_deterministic_audio_owner (JArr [JStr ''b'', JStr ''a'']) JNull (JArr []) (JArr [JStr ''a'', JStr ''b''])
     = resolve_deterministic_audio_owner (JArr [JStr ''a'', JStr ''b'']) JNull (JArr []) (JArr [JStr ''b'', JStr ''a''])
   \<and> resolve_deterministic_audio_owner (JArr [JStr ''a'', JStr ''b'']) JNull (JArr []) (JArr [JStr ''b'', JStr ''a'']) = Some ''a''"
proof -
  have s: "unique_ids (JArr [JStr ''b'', JStr ''a'']) = [''b'', ''a'']" "unique_ids (JArr [JStr ''a'', JStr ''b'']) = [''a'', ''b'']"
    by code_simp+
  have e: "resolve_deterministic_audio_owner (JArr [JStr ''a'', JStr ''b'']) JNull (JArr []) (JArr [JStr ''b'', JStr ''a'']) = Some ''a''"
    by code_simp
  have "set (unique_ids (JArr [JStr ''b'', JStr ''a''])) = set (unique_ids (JArr [JStr ''a'', JStr ''b'']))"
    unfolding s by auto
  from owner_choice [OF this this [symmetric]] e show ?thesis by simp
qed

theorem revisions_strictly_increase_witness:
  "5 < next_audio_policy_revision 0 (jint 5) 0"
proof -
  have "positive_safe_integer (jint 5) = Some 5" by code_simp
  with revisions_strictly_increase [of "[]" 0] show ?thesis by blast
qed

theorem stamp_never_rolls_back_witness:
  "\<exists>db'. stamp_playlist_audio_policy (Some sample_audio_db) (JStr ''p'') sample_policy JNull = (True, Some db')
     \<and> (\<forall>p'. revision_of p' = Some 6 \<longrightarrow> stamp_playlist_audio_policy (Some db') (JStr ''p'') p' JNull = (False, Some db'))"
proof -
  let ?s = "stamp_playlist_audio_policy (Some sample_audio_db) (JStr ''p'') sample_policy JNull"
  have "fst ?s \<and> snd ?s \<noteq> None" by code_simp
  then obtain db' where s: "?s = (True, Some db')" by (cases ?s) auto
  have i: "id_of (JStr ''p'') = Some ''p''" and r: "revision_of sample_policy = Some 7" by code_simp+
  have "map_of (playlists sample_audio_db) ''p'' = Some (JArr [JObj [(''content_id'', JStr ''x'')]])"
    by (simp add: sample_audio_db_def)
  from stamp_never_rolls_back [OF s i this r] s show ?thesis by auto
qed

theorem unclamped_renderer_authorized_witness:
  "fld (policy_for_device sample_policy (JStr ''fl'') JNull) ''audio_allowed'' = JBool True
   \<and> audio_policy_heartbeat_decision (policy_for_device sample_policy (JStr ''fl'') JNull)
       (JObj [(''transaction_id'', JStr ''t''), (''content_instance_id'', JStr ''c''), (''revision'', jint 7),
              (''generation'', jint 1), (''muted'', JBool False)]) = NoClamp"
proof -
  let ?r = "JObj [(''transaction_id'', JStr ''t''), (''content_instance_id'', JStr ''c''), (''revision'', jint 7),
              (''generation'', jint 1), (''muted'', JBool False)]"
  have h: "audio_policy_heartbeat_decision (policy_for_device sample_policy (JStr ''fl'') JNull) ?r = NoClamp"
    by code_simp
  have "is_object ?r" "claims_audio ?r" by (simp_all add: claims_audio_def)
  from unclamped_renderer_authorized [OF h this] h show ?thesis by blast
qed

end
