(* ===== verification/AudioFence.thy ===== *)
theory AudioFence
  imports AudioOwnership
begin

text \<open>
  Mute before grant (\<open>server/lib/audio-ownership-transaction.js\<close>): before a device is granted the
  audio, every participant must acknowledge, from every connected renderer session, that it is
  muted. The replies of the sockets are the parameter \<open>reply\<close>, the sizes of the device rooms the
  parameter \<open>room\<close>. The contract of a fence is the locale \<open>audio_fence\<close>.
\<close>

definition fence_ids :: "jsval \<Rightarrow> string list" where
  "fence_ids v = dedup (filter (\<lambda>s. s \<noteq> []) (map text_of (array_items v)))"

definition muted_policy :: "jsval \<Rightarrow> jsval" where
  "muted_policy p = build_audio_policy ((args_of p)\<lparr>pa_owner := JNull\<rparr>)"

definition safe_positive :: "jsnum \<Rightarrow> bool" where
  "safe_positive n \<longleftrightarrow> (case num_int n of None \<Rightarrow> False | Some i \<Rightarrow> \<bar>i\<bar> \<le> max_safe \<and> 0 < i)"

definition valid_fence_ack :: "jsval \<Rightarrow> string \<Rightarrow> jsval \<Rightarrow> bool" where
  "valid_fence_ack ack dev p \<longleftrightarrow> truthy ack
     \<and> fld ack ''ok'' = JBool True \<and> fld ack ''muted'' = JBool True \<and> fld ack ''host_muted'' = JBool True
     \<and> to_str (js_or (fld ack ''phase'') (JStr [])) = ''muted''
     \<and> to_str (js_or (fld ack ''device_id'') (JStr [])) = dev
     \<and> same_text (fld ack ''transaction_id'') (fld p ''transaction_id'')
     \<and> safe_positive (to_num (fld p ''revision'')) \<and> num_eq (to_num (fld ack ''revision'')) (to_num (fld p ''revision''))
     \<and> safe_positive (to_num (fld p ''generation'')) \<and> num_eq (to_num (fld ack ''generation'')) (to_num (fld p ''generation''))
     \<and> text_of (fld ack ''renderer_session_id'') \<noteq> []"

text \<open>What the transport gives back: nothing to emit on, an exception while emitting, an error or
  no answer in time, or the responses.\<close>

datatype fence_reply = NoTransport | EmitThrew string | NoAnswer | Responses jsval

definition response_list :: "jsval \<Rightarrow> jsval list" where
  "response_list v = (case v of JArr xs \<Rightarrow> xs | _ \<Rightarrow> [v])"

definition session_of :: "jsval \<Rightarrow> string" where
  "session_of ack = to_str (fld ack ''renderer_session_id'')"

definition emit_fence :: "fence_reply \<Rightarrow> string \<Rightarrow> jsval \<Rightarrow> nat \<Rightarrow> string + jsval list" where
  "emit_fence r dev p expected =
     (case r of
        NoTransport \<Rightarrow> Inl ''audio_fence_transport_unavailable''
      | EmitThrew e \<Rightarrow> Inl (if e = [] then ''audio_fence_emit_failed'' else e)
      | NoAnswer \<Rightarrow> Inl ''audio_fence_timeout''
      | Responses v \<Rightarrow>
          (let rs = response_list v; acks = filter (\<lambda>a. valid_fence_ack a dev p) rs;
               sessions = dedup (map session_of acks)
           in if length rs = expected \<and> length acks = expected \<and> length sessions = expected
              then Inr acks else Inl ''audio_fence_ack_mismatch''))"

record fence_result =
  fr_ok :: bool
  fr_acknowledged :: "string list"
  fr_offline :: "string list"
  fr_failed :: "string list"
  fr_policy :: jsval

definition fence_payload :: "jsval \<Rightarrow> jsval" where
  "fence_payload p = JObj [(''version'', jint 1), (''phase'', JStr ''mute-before-owner-grant''),
     (''pending_owner_device_id'', js_or (fld p ''owner_device_id'') JNull),
     (''audio_policy'', muted_policy p)]"

definition fence_timeout :: "jsval \<Rightarrow> jsnum" where
  \<comment> \<open>\<open>Math.max(25, Number(timeoutMs) || 1500)\<close>\<close>
  "fence_timeout v = (case (if num_truthy (to_num v) then to_num v else Fin 1500) of
     Fin r \<Rightarrow> Fin (max 25 r) | NegInf \<Rightarrow> Fin 25 | n \<Rightarrow> n)"

definition room_empty :: "(string \<Rightarrow> nat option) \<Rightarrow> string \<Rightarrow> bool" where
  "room_empty room d \<longleftrightarrow> room d = None \<or> room d = Some 0"

definition fence_one ::
  "(string \<Rightarrow> jsval \<Rightarrow> jsnum \<Rightarrow> fence_reply) \<Rightarrow> (string \<Rightarrow> nat option) \<Rightarrow> jsnum \<Rightarrow> jsval \<Rightarrow> string \<Rightarrow> bool" where
  "fence_one reply room timeout p d =
     (case emit_fence (reply d (fence_payload p) timeout) d (muted_policy p)
             (case room d of None \<Rightarrow> 0 | Some n \<Rightarrow> n) of
        Inl e \<Rightarrow> False | Inr acks \<Rightarrow> True)"

definition fence_audio_ownership_targets ::
  "(string \<Rightarrow> jsval \<Rightarrow> jsnum \<Rightarrow> fence_reply) \<Rightarrow> (string \<Rightarrow> nat option) \<Rightarrow> jsval \<Rightarrow> jsval \<Rightarrow> jsval \<Rightarrow> fence_result" where
  "fence_audio_ownership_targets reply room timeout_ms device_ids p =
     (let participants = fence_ids device_ids;
          offline = filter (room_empty room) participants;
          online = filter (\<lambda>d. d \<notin> set offline) participants;
          passed = fence_one reply room (fence_timeout timeout_ms) p;
          failed = offline @ filter (\<lambda>d. \<not> passed d) online;
          ok = (participants \<noteq> [] \<and> failed = [])
      in \<lparr>fr_ok = ok, fr_acknowledged = filter passed online, fr_offline = offline, fr_failed = failed,
          fr_policy = (if ok then JObj (obj_fields p) else muted_policy p)\<rparr>)"

subsection \<open>The contract of a fence\<close>

definition owner_of :: "jsval \<Rightarrow> string option" where
  "owner_of p = id_of (fld p ''owner_device_id'')"

locale audio_fence =
  fixes run :: "string list \<Rightarrow> jsval \<Rightarrow> fence_result"
    and muted :: "string \<Rightarrow> jsval \<Rightarrow> bool"
  assumes ok_muted: "fr_ok (run ids p) \<Longrightarrow> i \<in> set ids \<Longrightarrow> trim i \<noteq> [] \<Longrightarrow> muted (trim i) p"
    and ok_policy: "fr_ok (run ids p) \<Longrightarrow> owner_of (fr_policy (run ids p)) = owner_of p"
    and fail_policy: "\<not> fr_ok (run ids p) \<Longrightarrow> owner_of (fr_policy (run ids p)) = None"
begin

lemma granted_ok: "owner_of (fr_policy (run ids p)) = Some d \<Longrightarrow> fr_ok (run ids p) \<and> owner_of p = Some d"
  by (cases "fr_ok (run ids p)") (simp_all add: fail_policy ok_policy)

lemma granted_muted:
  "owner_of (fr_policy (run ids p)) = Some d \<Longrightarrow> i \<in> set ids \<Longrightarrow> trim i \<noteq> [] \<Longrightarrow> muted (trim i) p"
  using granted_ok ok_muted by blast

end

text \<open>A device has acknowledged: as many valid replies as sessions in its room, from different
  sessions.\<close>

definition all_sessions_muted ::
  "(string \<Rightarrow> jsval \<Rightarrow> jsnum \<Rightarrow> fence_reply) \<Rightarrow> (string \<Rightarrow> nat option) \<Rightarrow> jsnum \<Rightarrow> string \<Rightarrow> jsval \<Rightarrow> bool" where
  "all_sessions_muted reply room timeout d p \<longleftrightarrow>
     (case (room d, reply d (fence_payload p) timeout) of
        (Some n, Responses v) \<Rightarrow> 0 < n \<and> length (response_list v) = n
          \<and> list_all (\<lambda>a. valid_fence_ack a d (muted_policy p)) (response_list v)
          \<and> distinct (map session_of (response_list v))
      | _ \<Rightarrow> False)"

lemma length_dedup_distinct: "length (dedup xs) = length xs \<longleftrightarrow> distinct xs"
  by (metis card_distinct dedup_distinct distinct_card distinct_dedup set_dedup)

lemma fence_one_muted:
  assumes "fence_one reply room timeout p d" "\<not> room_empty room d"
  shows "all_sessions_muted reply room timeout d p"
proof -
  from assms(2) obtain n where n: "room d = Some n" "0 < n" by (auto simp: room_empty_def)
  from assms(1) obtain v where v: "reply d (fence_payload p) timeout = Responses v"
    by (auto simp: fence_one_def emit_fence_def split: fence_reply.splits)
  let ?acks = "filter (\<lambda>a. valid_fence_ack a d (muted_policy p)) (response_list v)"
  from assms(1) n v have l: "length (response_list v) = n" "length ?acks = n" "length (dedup (map session_of ?acks)) = n"
    by (auto simp: fence_one_def emit_fence_def Let_def split: if_splits)
  then have f: "?acks = response_list v" by (metis filter_id_conv length_filter_less less_irrefl)
  with l have "distinct (map session_of (response_list v))" by (metis length_dedup_distinct length_map)
  moreover from f have "list_all (\<lambda>a. valid_fence_ack a d (muted_policy p)) (response_list v)"
    by (simp add: filter_id_conv list_all_iff)
  ultimately show ?thesis using n v l by (simp add: all_sessions_muted_def)
qed

lemma owner_of_muted [simp]: "owner_of (muted_policy p) = None"
  by (simp add: owner_of_def muted_policy_def)

lemma fence_okD:
  assumes "fr_ok (fence_audio_ownership_targets reply room t ids p)"
  shows "fence_ids ids \<noteq> []" "d \<in> set (fence_ids ids) \<Longrightarrow> all_sessions_muted reply room (fence_timeout t) d p"
proof -
  show "fence_ids ids \<noteq> []" using assms by (simp add: fence_audio_ownership_targets_def Let_def)
  assume d: "d \<in> set (fence_ids ids)"
  have "\<not> room_empty room d \<and> fence_one reply room (fence_timeout t) p d"
    using assms d by (auto simp: fence_audio_ownership_targets_def Let_def filter_empty_conv)
  then show "all_sessions_muted reply room (fence_timeout t) d p" by (simp add: fence_one_muted)
qed

lemma fence_policy:
  "fr_policy (fence_audio_ownership_targets reply room t ids p)
     = (if fr_ok (fence_audio_ownership_targets reply room t ids p) then JObj (obj_fields p) else muted_policy p)"
  by (simp add: fence_audio_ownership_targets_def Let_def)

lemma in_fence_ids: "i \<in> set ids \<Longrightarrow> trim i \<noteq> [] \<Longrightarrow> trim i \<in> set (fence_ids (JArr (map JStr ids)))"
  by (auto simp: fence_ids_def image_iff)

interpretation socket_fence: audio_fence
  "\<lambda>ids p. fence_audio_ownership_targets reply room t (JArr (map JStr ids)) p"
  "all_sessions_muted reply room (fence_timeout t)" for reply room t
  by unfold_locales
     (simp_all add: fence_okD(2) in_fence_ids fence_policy owner_of_def del: owner_of_muted,
      simp add: owner_of_muted [unfolded owner_of_def])

text \<open>C2: Mute before grant. The policy a fence commits names an owner only if there is a participant,
  and every participant answered from every session in its room, each with a valid
  acknowledgement for this very policy revision and generation saying that it is muted, no two
  from the same session; then it is the owner that was proposed.\<close>

theorem fence_grants_after_mute:
  assumes "owner_of (fr_policy (fence_audio_ownership_targets reply room t ids p)) = Some d"
  shows "owner_of p = Some d \<and> fence_ids ids \<noteq> []
    \<and> (\<forall>i\<in>set (fence_ids ids). \<exists>n v. room i = Some n \<and> 0 < n
         \<and> reply i (fence_payload p) (fence_timeout t) = Responses v \<and> length (response_list v) = n
         \<and> (\<forall>a\<in>set (response_list v). valid_fence_ack a i (muted_policy p))
         \<and> distinct (map session_of (response_list v)))"
proof -
  have ok: "fr_ok (fence_audio_ownership_targets reply room t ids p)"
  proof (rule ccontr)
    assume "\<not> fr_ok (fence_audio_ownership_targets reply room t ids p)"
    with assms show False by (simp add: fence_policy)
  qed
  then have "owner_of p = Some d" using assms by (simp add: fence_policy owner_of_def)
  moreover have "\<exists>n v. room i = Some n \<and> 0 < n
         \<and> reply i (fence_payload p) (fence_timeout t) = Responses v \<and> length (response_list v) = n
         \<and> (\<forall>a\<in>set (response_list v). valid_fence_ack a i (muted_policy p))
         \<and> distinct (map session_of (response_list v))" if "i \<in> set (fence_ids ids)" for i
    using fence_okD(2) [OF ok that]
    by (auto simp: all_sessions_muted_def list_all_iff split: option.splits fence_reply.splits)
  ultimately show ?thesis using fence_okD(1) [OF ok] by blast
qed

definition sample_reply :: "string \<Rightarrow> jsval \<Rightarrow> jsnum \<Rightarrow> fence_reply" where
  "sample_reply d payload t = Responses (JArr [JObj [(''ok'', JBool True), (''muted'', JBool True),
     (''host_muted'', JBool True), (''phase'', JStr ''muted''), (''device_id'', JStr d),
     (''transaction_id'', JStr ''t''), (''revision'', jint 7), (''generation'', jint 1),
     (''renderer_session_id'', JStr ''s1'')]])"

definition sample_fence :: fence_result where
  "sample_fence = fence_audio_ownership_targets sample_reply (\<lambda>d. Some 1) JUndef
     (JArr [JStr ''fl'', JStr ''fr'']) sample_policy"

theorem fence_grants_after_mute_witness:
  "owner_of (fr_policy sample_fence) = Some ''fl'' \<and> fr_acknowledged sample_fence = [''fl'', ''fr'']
   \<and> owner_of sample_policy = Some ''fl''"
proof -
  have o: "owner_of (fr_policy sample_fence) = Some ''fl''" by code_simp
  moreover have "fr_acknowledged sample_fence = [''fl'', ''fr'']" by code_simp
  ultimately show ?thesis
    using fence_grants_after_mute [OF o [unfolded sample_fence_def]] by blast
qed

end
