(* ===== verification/AudioRecovery.thy ===== *)
theory AudioRecovery
  imports AudioFence
begin

text \<open>
  Recovering the audio when its owner is lost, or re-granting it on a reconnect
  (\<open>server/lib/audio-owner-recovery.js\<close>). The optional functions of the source are the fields of
  \<open>recovery_deps\<close>; \<open>persist_policy\<close> threads the state \<open>'s\<close> it writes. What is emitted is the list
  of devices that are sent an update. The fence is used through its contract \<open>audio_fence\<close>.
\<close>

record 's recovery_deps =
  workspace_devices :: "jsval \<Rightarrow> jsval list"
  stored_policy :: "jsval \<Rightarrow> jsval"
  is_online :: "string \<Rightarrow> bool"
  fence_targets :: "string list \<Rightarrow> jsval \<Rightarrow> fence_result"
  persist_policy :: "jsval \<Rightarrow> jsval \<Rightarrow> 's \<Rightarrow> bool \<times> 's"
  recovery_uuid :: string
  recovery_now :: rat
  persisted_revision :: jsval
  workspace_of :: "string \<Rightarrow> jsval"
  collation :: "string \<Rightarrow> nat list"

record recovery_request =
  rq_lost :: jsval
  rq_anchor :: jsval
  rq_allow_unowned :: bool
  rq_workspace :: jsval

definition same_ownership_session :: "jsval \<Rightarrow> jsval \<Rightarrow> bool" where
  "same_ownership_session l r \<longleftrightarrow> truthy l \<and> truthy r \<and>
     (if truthy (fld l ''source_key'') \<or> truthy (fld r ''source_key'')
      then same_text (fld l ''source_key'') (fld r ''source_key'')
           \<and> same_text (fld l ''content_instance_id'') (fld r ''content_instance_id'')
      else same_text (fld l ''transaction_id'') (fld r ''transaction_id''))"

definition without_owner :: "jsval \<Rightarrow> jsval" where
  "without_owner p = JObj (set_field ''owner_device_id'' JNull (obj_fields p))"

record recovery =
  rc_recovered :: bool
  rc_lost :: "string option"
  rc_participants :: "jsval list"
  rc_policy :: jsval
  rc_fence :: fence_result
  rc_updated :: "jsval list"

datatype recovery_result = NotRecovered string | Recovery recovery

definition participants_of :: "'s recovery_deps \<Rightarrow> jsval \<Rightarrow> jsval \<Rightarrow> jsval list" where
  "participants_of d ws lost_policy =
     filter (\<lambda>x. same_ownership_session (stored_policy d (fld x ''id'')) lost_policy)
       (filter is_classroom_renderer_device (workspace_devices d ws))"

definition connected_ids :: "'s recovery_deps \<Rightarrow> jsval list \<Rightarrow> string list" where
  "connected_ids d ps = filter (is_online d) (map (\<lambda>x. to_str (fld x ''id'')) ps)"

definition replacement_owner :: "'s recovery_deps \<Rightarrow> string \<Rightarrow> jsval \<Rightarrow> jsval list \<Rightarrow> string option" where
  "replacement_owner d lost lost_policy ps =
     (let eligible = JArr (map JStr (filter (\<lambda>i. lost = [] \<or> i \<noteq> lost) (connected_ids d ps)))
      in resolve_deterministic_audio_owner eligible (fld lost_policy ''output_device_id'')
           (JArr (map JStr (ordered_renderer_device_ids (collation d) (JArr ps)))) eligible)"

definition proposed_policy :: "'s recovery_deps \<Rightarrow> jsval \<Rightarrow> string option \<Rightarrow> int \<Rightarrow> jsval" where
  "proposed_policy d lost_policy new_owner rv =
     build_audio_policy ((args_of lost_policy)
       \<lparr>pa_owner := (case new_owner of None \<Rightarrow> JNull | Some i \<Rightarrow> JStr i),
        pa_transaction := JStr (''audio-recovery:'' @ recovery_uuid d), pa_revision := jint rv\<rparr>)"

fun persist_all :: "(jsval \<Rightarrow> 's \<Rightarrow> bool \<times> 's) \<Rightarrow> jsval list \<Rightarrow> jsval list \<Rightarrow> 's \<Rightarrow> jsval list \<times> 's" where
  "persist_all f [] stamped s = (stamped, s)"
| "persist_all f (x # xs) stamped s =
     (let pl = fld x ''playlist_id'' in
      if \<not> truthy pl \<or> pl \<in> set stamped then persist_all f xs stamped s
      else (case f pl s of (ok, s') \<Rightarrow> persist_all f xs (if ok then pl # stamped else stamped) s'))"

text \<open>The state is the counter of issued revisions and whatever persisting writes.\<close>

definition recover_audio_ownership ::
  "'s recovery_deps \<Rightarrow> recovery_request \<Rightarrow> int \<times> 's \<Rightarrow> recovery_result \<times> int \<times> 's" where
  "recover_audio_ownership d q st =
     (case st of (last_issued, s) \<Rightarrow>
      let lost = text_of (rq_lost q);
          anchor = text_of (js_or (rq_anchor q) (JStr lost));
          lost_policy = stored_policy d (JStr anchor)
      in if anchor = [] then (NotRecovered ''missing_lost_device_id'', st)
         else if \<not> truthy lost_policy
            \<or> (\<not> rq_allow_unowned q \<and> to_str (js_or (fld lost_policy ''owner_device_id'') (JStr [])) \<noteq> lost)
           then (NotRecovered ''lost_device_was_not_audio_owner'', st)
         else
           (let ws = (if truthy (rq_workspace q) then rq_workspace q else js_or (workspace_of d anchor) JNull);
                ps = participants_of d ws lost_policy;
                connected = connected_ids d ps;
                rv = next_audio_policy_revision (recovery_now d) (persisted_revision d) last_issued;
                proposed = proposed_policy d lost_policy (replacement_owner d lost lost_policy ps) rv;
                fence = (if connected \<noteq> [] then fence_targets d connected proposed
                         else \<lparr>fr_ok = False, fr_acknowledged = [],
                                fr_offline = map (\<lambda>x. to_str (fld x ''id'')) ps, fr_failed = [],
                                fr_policy = without_owner proposed\<rparr>);
                committed = (if truthy (fr_policy fence) then fr_policy fence else without_owner proposed)
            in case persist_all (\<lambda>pl. persist_policy d pl committed) ps [] s of (stamped, s') \<Rightarrow>
               (Recovery \<lparr>rc_recovered = (fr_ok fence \<and> truthy (fld committed ''owner_device_id'')),
                  rc_lost = (if lost = [] then None else Some lost),
                  rc_participants = map (\<lambda>x. fld x ''id'') ps, rc_policy = committed,
                  rc_fence = fence,
                  rc_updated = map (\<lambda>x. fld x ''id'')
                    (filter (\<lambda>x. truthy (fld x ''playlist_id'') \<and> fld x ''playlist_id'' \<in> set stamped) ps)\<rparr>,
                rv, s')))"

definition ensure_audio_ownership_after_reconnect ::
  "'s recovery_deps \<Rightarrow> jsval \<Rightarrow> jsval \<Rightarrow> int \<times> 's \<Rightarrow> recovery_result \<times> int \<times> 's" where
  "ensure_audio_ownership_after_reconnect d dev ws st =
     (let i = text_of dev; p = stored_policy d (JStr i); owner = text_of (fld p ''owner_device_id'')
      in if i = [] then (NotRecovered ''missing_reconnected_device_id'', st)
         else if \<not> truthy p then (NotRecovered ''audio_policy_missing'', st)
         else if owner \<noteq> [] \<and> is_online d owner then (NotRecovered ''audio_owner_already_online'', st)
         else recover_audio_ownership d
           \<lparr>rq_lost = (if owner = [] then JNull else JStr owner), rq_anchor = JStr i,
            rq_allow_unowned = True, rq_workspace = ws\<rparr> st)"

text \<open>The defaults of the source: the database and the socket fence.\<close>

definition database_deps ::
  "audio_db \<Rightarrow> (string \<Rightarrow> jsval \<Rightarrow> jsnum \<Rightarrow> fence_reply) \<Rightarrow> (string \<Rightarrow> nat option) \<Rightarrow> string \<Rightarrow> rat
   \<Rightarrow> (string \<Rightarrow> nat list) \<Rightarrow> audio_db option recovery_deps" where
  "database_deps db reply room uuid now ckey =
     \<lparr>workspace_devices = (\<lambda>ws. filter is_classroom_renderer_device
         (map device_row (filter (\<lambda>r. JStr (ad_workspace r) = ws) (audio_devices db)))),
      stored_policy = (\<lambda>i. stored_audio_policy_for_device (Some db) i),
      is_online = (\<lambda>i. \<not> room_empty room i),
      fence_targets = (\<lambda>ids p. fence_audio_ownership_targets reply room JUndef (JArr (map JStr ids)) p),
      persist_policy = (\<lambda>pl p s. stamp_playlist_audio_policy s pl p (fld p ''content_instance_id'')),
      recovery_uuid = uuid, recovery_now = now,
      persisted_revision = jint (max_persisted_audio_policy_revision (Some db)),
      workspace_of = (\<lambda>i. case find (\<lambda>r. ad_id r = i) (audio_devices db) of None \<Rightarrow> JNull
                        | Some r \<Rightarrow> JStr (ad_workspace r)),
      collation = ckey\<rparr>"

subsection \<open>Recovery never sounds two devices\<close>

lemma owner_of_JObj: "owner_of (JObj (obj_fields p)) = owner_of p"
  by (simp add: owner_of_def)

lemma owner_of_without [simp]: "owner_of (without_owner p) = None"
  by (simp add: owner_of_def without_owner_def)

lemma owner_of_proposed [simp]: "owner_of (proposed_policy d lp o_id rv) = (case o_id of None \<Rightarrow> None | Some i \<Rightarrow> id_of (JStr i))"
  by (simp add: owner_of_def proposed_policy_def split: option.split)

lemma replacement_owner_in:
  assumes "replacement_owner d lost lp ps = Some o_id"
  shows "\<exists>i\<in>set (connected_ids d ps). trim i = o_id \<and> o_id \<noteq> [] \<and> (lost = [] \<or> i \<noteq> lost)"
proof -
  let ?e = "filter (\<lambda>i. lost = [] \<or> i \<noteq> lost) (connected_ids d ps)"
  from assms have "o_id \<in> set (owner_candidates (JArr (map JStr ?e)) (JArr (map JStr ?e)))"
    unfolding replacement_owner_def Let_def resolve_owner_pick by (rule pick_owner_in)
  then have "o_id \<in> set (unique_ids (JArr (map JStr ?e)))" by (simp add: set_candidates)
  then show ?thesis
    by (auto simp: unique_ids_def List.map_filter_def split: if_splits)
qed

text \<open>The pieces of a recovery that went through.\<close>

lemma recovery_cases:
  assumes "recover_audio_ownership d q (l, s) = (Recovery r, l', s')"
  obtains ws lp ps p where "l' = next_audio_policy_revision (recovery_now d) (persisted_revision d) l"
    "ps = participants_of d ws lp"
    "p = proposed_policy d lp (replacement_owner d (text_of (rq_lost q)) lp ps) l'"
    "rc_participants r = map (\<lambda>x. fld x ''id'') ps"
    "rc_fence r = (if connected_ids d ps \<noteq> [] then fence_targets d (connected_ids d ps) p
       else \<lparr>fr_ok = False, fr_acknowledged = [], fr_offline = map (\<lambda>x. to_str (fld x ''id'')) ps,
             fr_failed = [], fr_policy = without_owner p\<rparr>)"
    "rc_policy r = (if truthy (fr_policy (rc_fence r)) then fr_policy (rc_fence r) else without_owner p)"
    "rc_recovered r = (fr_ok (rc_fence r) \<and> truthy (fld (rc_policy r) ''owner_device_id''))"
  using assms
  by (auto simp: recover_audio_ownership_def Let_def split: if_splits prod.splits)

context audio_fence
begin

text \<open>With any fence that meets the contract, an owner is committed only after every connected
  participant is muted.\<close>

lemma recovery_owner:
  assumes "fence_targets d = run" "recover_audio_ownership d q (l, s) = (Recovery r, l', s')"
    and "owner_of (rc_policy r) = Some o_id"
  shows "\<exists>ps p. rc_participants r = map (\<lambda>x. fld x ''id'') ps \<and> fr_ok (rc_fence r)
    \<and> (\<exists>i\<in>set (connected_ids d ps). trim i = o_id \<and> (text_of (rq_lost q) = [] \<or> i \<noteq> text_of (rq_lost q)))
    \<and> (\<forall>i\<in>set (connected_ids d ps). trim i \<noteq> [] \<longrightarrow> muted (trim i) p)"
proof -
  obtain ws lp ps p where ps: "rc_participants r = map (\<lambda>x. fld x ''id'') ps"
    and p: "p = proposed_policy d lp (replacement_owner d (text_of (rq_lost q)) lp ps) l'"
    and f: "rc_fence r = (if connected_ids d ps \<noteq> [] then fence_targets d (connected_ids d ps) p
       else \<lparr>fr_ok = False, fr_acknowledged = [], fr_offline = map (\<lambda>x. to_str (fld x ''id'')) ps,
             fr_failed = [], fr_policy = without_owner p\<rparr>)"
    and c: "rc_policy r = (if truthy (fr_policy (rc_fence r)) then fr_policy (rc_fence r) else without_owner p)"
    by (rule recovery_cases [OF assms(2)])
  from c assms(3) have fp: "owner_of (fr_policy (rc_fence r)) = Some o_id" by (auto split: if_splits)
  then have ne: "connected_ids d ps \<noteq> []" using f by auto
  with f assms(1) have run: "rc_fence r = run (connected_ids d ps) p" by simp
  from granted_ok fp have ok: "fr_ok (rc_fence r)" and own: "owner_of p = Some o_id"
    unfolding run by blast+
  from own p obtain i where i: "replacement_owner d (text_of (rq_lost q)) lp ps = Some i" "id_of (JStr i) = Some o_id"
    by (auto split: option.splits)
  from replacement_owner_in [OF i(1)] i(2)
  have "\<exists>j\<in>set (connected_ids d ps). trim j = o_id \<and> (text_of (rq_lost q) = [] \<or> j \<noteq> text_of (rq_lost q))"
    by (auto split: if_splits)
  moreover have "\<forall>i\<in>set (connected_ids d ps). trim i \<noteq> [] \<longrightarrow> muted (trim i) p"
    using granted_muted [of "connected_ids d ps" p o_id] fp unfolding run by blast
  ultimately show ?thesis using ps ok by blast
qed

lemma recovery_mute:
  assumes "fence_targets d = run" "recover_audio_ownership d q (l, s) = (Recovery r, l', s')"
    and "\<not> fr_ok (rc_fence r)"
  shows "owner_of (rc_policy r) = None"
  using recovery_owner [OF assms(1,2)] assms(3) by (cases "owner_of (rc_policy r)") auto

end

text \<open>C4: Recovery fails muted. After the loss or reconnect of an owner, the policy that is committed
  names an owner only if every connected participant of the session acknowledged, from all its
  sessions, that it is muted; that owner is one of them and not the lost device; otherwise no
  device is granted the audio, and the result says so. The revision moves on in either case.\<close>

theorem recovery_fails_muted:
  assumes "recover_audio_ownership (database_deps db reply room uuid now ckey) q (l, s) = (Recovery r, l', s')"
  shows "l < l' \<and> (rc_recovered r \<longrightarrow> fr_ok (rc_fence r)) \<and> (\<not> fr_ok (rc_fence r) \<longrightarrow> owner_of (rc_policy r) = None)
    \<and> (\<forall>o_id. owner_of (rc_policy r) = Some o_id \<longrightarrow>
         (\<exists>i\<in>set (map to_str (rc_participants r)). trim i = o_id \<and> \<not> room_empty room i
            \<and> (text_of (rq_lost q) = [] \<or> i \<noteq> text_of (rq_lost q)))
         \<and> (\<exists>p. \<forall>i\<in>set (map to_str (rc_participants r)). \<not> room_empty room i \<longrightarrow> trim i \<noteq> [] \<longrightarrow>
              all_sessions_muted reply room (fence_timeout JUndef) (trim i) p))"
proof -
  let ?d = "database_deps db reply room uuid now ckey"
  have ft: "fence_targets ?d = (\<lambda>ids p. fence_audio_ownership_targets reply room JUndef (JArr (map JStr ids)) p)"
    by (simp add: database_deps_def)
  have on: "is_online ?d i \<longleftrightarrow> \<not> room_empty room i" for i by (simp add: database_deps_def)
  have "l < l'"
    using recovery_cases [OF assms] by (metis issue_revisions.simps(2) issue_revisions_above list.set_intros(1))
  moreover have "rc_recovered r \<longrightarrow> fr_ok (rc_fence r)"
    by (rule recovery_cases [OF assms]) simp
  moreover have "\<not> fr_ok (rc_fence r) \<longrightarrow> owner_of (rc_policy r) = None"
    using socket_fence.recovery_mute [OF ft assms] by blast
  moreover have "(\<exists>i\<in>set (map to_str (rc_participants r)). trim i = o_id \<and> \<not> room_empty room i
            \<and> (text_of (rq_lost q) = [] \<or> i \<noteq> text_of (rq_lost q)))
         \<and> (\<exists>p. \<forall>i\<in>set (map to_str (rc_participants r)). \<not> room_empty room i \<longrightarrow> trim i \<noteq> [] \<longrightarrow>
              all_sessions_muted reply room (fence_timeout JUndef) (trim i) p)"
    if "owner_of (rc_policy r) = Some o_id" for o_id
  proof -
    from socket_fence.recovery_owner [OF ft assms that] obtain ps p where
      ps: "rc_participants r = map (\<lambda>x. fld x ''id'') ps"
      and i: "\<exists>i\<in>set (connected_ids ?d ps). trim i = o_id \<and> (text_of (rq_lost q) = [] \<or> i \<noteq> text_of (rq_lost q))"
      and m: "\<forall>i\<in>set (connected_ids ?d ps). trim i \<noteq> [] \<longrightarrow> all_sessions_muted reply room (fence_timeout JUndef) (trim i) p"
      by blast
    have set_c: "set (connected_ids ?d ps) = {i \<in> set (map to_str (rc_participants r)). \<not> room_empty room i}"
      by (auto simp: connected_ids_def ps on)
    show ?thesis using i m unfolding set_c by blast
  qed
  ultimately show ?thesis by blast
qed

subsection \<open>A run\<close>

definition room_db :: audio_db where
  "room_db = \<lparr>playlists = [(''p'', JArr [JObj [(''audio_policy'', sample_policy)]])],
     audio_devices = [\<lparr>ad_id = ''fl'', ad_name = JStr ''Front Left'', ad_workspace = ''w'', ad_playlist = Some ''p''\<rparr>,
                      \<lparr>ad_id = ''fr'', ad_name = JStr ''Front Right'', ad_workspace = ''w'', ad_playlist = Some ''p''\<rparr>]\<rparr>"

definition room_reply :: "string \<Rightarrow> jsval \<Rightarrow> jsnum \<Rightarrow> fence_reply" where
  "room_reply d payload t = Responses (JArr [JObj [(''ok'', JBool True), (''muted'', JBool True),
     (''host_muted'', JBool True), (''phase'', JStr ''muted''), (''device_id'', JStr d),
     (''transaction_id'', fld (fld payload ''audio_policy'') ''transaction_id''),
     (''revision'', fld (fld payload ''audio_policy'') ''revision''), (''generation'', jint 1),
     (''renderer_session_id'', JStr ''s1'')]])"

definition room_run :: "recovery_result \<times> int \<times> audio_db option" where
  "room_run = recover_audio_ownership
     (database_deps room_db room_reply (\<lambda>d. if d = ''fr'' then Some 1 else None) ''u'' 1 (map code))
     \<lparr>rq_lost = JStr ''fl'', rq_anchor = JUndef, rq_allow_unowned = False, rq_workspace = JStr ''w''\<rparr>
     (0, Some room_db)"

fun recovery_owner_is :: "recovery_result \<Rightarrow> string \<Rightarrow> bool" where
  "recovery_owner_is (NotRecovered why) i = False"
| "recovery_owner_is (Recovery r) i = (owner_of (rc_policy r) = Some i)"

fun_cases recovery_owner_isE: "recovery_owner_is x i"

theorem recovery_fails_muted_witness:
  "\<exists>r l' s'. room_run = (Recovery r, l', s') \<and> owner_of (rc_policy r) = Some ''fr'' \<and> 0 < l'
     \<and> ''fr'' \<in> trim ` set (map to_str (rc_participants r))"
proof -
  have o: "recovery_owner_is (fst room_run) ''fr''" by code_simp
  then obtain r where r: "fst room_run = Recovery r" and own: "owner_of (rc_policy r) = Some ''fr''"
    by (rule recovery_owner_isE)
  from r have run: "room_run = (Recovery r, fst (snd room_run), snd (snd room_run))"
    by (simp add: prod_eq_iff)
  note safe = recovery_fails_muted [OF run [unfolded room_run_def]]
  have "\<exists>i\<in>set (map to_str (rc_participants r)). trim i = ''fr''"
    using safe [THEN conjunct2, THEN conjunct2, THEN conjunct2, THEN spec, THEN mp, OF own]
    by (elim conjE bexE) (rule bexI)
  then have "''fr'' \<in> trim ` set (map to_str (rc_participants r))" by (elim bexE) (rule image_eqI, rule sym)
  moreover have "0 < fst (snd room_run)"
    using safe [THEN conjunct1] by (simp only: room_run_def)
  ultimately show ?thesis using run own by (intro exI conjI)
qed

end
