(* ===== verification/RateLimit.thy ===== *)
theory RateLimit
  imports Stores
begin

text \<open>
  The two limiters in front of the server: the token bucket with a queue-depth cap for the
  control events of a socket (\<open>server/lib/socket-rate-limit.js\<close>), and the failed-login limiter per
  account and address (\<open>server/lib/login-rate-limit.js\<close>).

  Times and tokens are rationals. A bucket carries a generation: a release function of the source
  closes over its bucket object, so a ticket only acts on the bucket it was issued by.
\<close>

subsection \<open>Token buckets\<close>

record limiter_config =
  rate_per_sec :: rat
  burst :: rat
  max_depth :: nat
  depth_ttl_ms :: rat

definition default_limiter :: limiter_config where
  "default_limiter = \<lparr>rate_per_sec = 20, burst = 40, max_depth = 50, depth_ttl_ms = 10000\<rparr>"

definition limiter_config_of :: "limiter_config \<Rightarrow> limiter_config" where
  "limiter_config_of c =
     c\<lparr>burst := (if burst c < 1 then 1 else burst c),
       rate_per_sec := (if rate_per_sec c \<le> 0 then 1 else rate_per_sec c)\<rparr>"

record bucket =
  bk_gen :: nat
  bk_tokens :: rat
  bk_last :: rat
  bk_inflight :: "rat list"

record ticket =
  tk_socket :: string
  tk_gen :: nat
  tk_slot :: rat
  tk_released :: bool

record limiter =
  buckets :: "(string \<times> bucket) list"
  next_gen :: nat
  tickets :: "ticket list"

definition new_limiter :: limiter where
  "new_limiter = \<lparr>buckets = [], next_gen = 0, tickets = []\<rparr>"

definition fresh_bucket :: "limiter_config \<Rightarrow> nat \<Rightarrow> rat \<Rightarrow> bucket" where
  "fresh_bucket c g now = \<lparr>bk_gen = g, bk_tokens = burst c, bk_last = now, bk_inflight = []\<rparr>"

definition refill :: "limiter_config \<Rightarrow> rat \<Rightarrow> bucket \<Rightarrow> bucket" where
  "refill c now b =
     (let elapsed = (now - bk_last b) / 1000 in
      if 0 < elapsed
      then b\<lparr>bk_tokens := min (burst c) (bk_tokens b + elapsed * rate_per_sec c), bk_last := now\<rparr>
      else b)"

definition refresh :: "limiter_config \<Rightarrow> rat \<Rightarrow> bucket \<Rightarrow> bucket" where
  "refresh c now b = (refill c now b)\<lparr>bk_inflight := filter (\<lambda>e. now < e) (bk_inflight b)\<rparr>"

datatype admission = Admitted nat | QueueFull | RateLimited

definition try_consume :: "limiter_config \<Rightarrow> string \<Rightarrow> rat \<Rightarrow> limiter \<Rightarrow> admission \<times> limiter" where
  "try_consume c i now s =
     (let b0 = (case map_of (buckets s) i of None \<Rightarrow> fresh_bucket c (next_gen s) now | Some b \<Rightarrow> b);
          g = (if map_of (buckets s) i = None then Suc (next_gen s) else next_gen s);
          b = refresh c now b0;
          put = (\<lambda>b. s\<lparr>buckets := AList.update i b (buckets s), next_gen := g\<rparr>)
      in if max_depth c \<le> length (bk_inflight b) then (QueueFull, put b)
         else if bk_tokens b < 1 then (RateLimited, put b)
         else (let slot = now + depth_ttl_ms c;
                   b' = b\<lparr>bk_tokens := bk_tokens b - 1, bk_inflight := bk_inflight b @ [slot]\<rparr>
               in (Admitted (length (tickets s)),
                   (put b')\<lparr>tickets := tickets s @
                      [\<lparr>tk_socket = i, tk_gen = bk_gen b, tk_slot = slot, tk_released = False\<rparr>]\<rparr>)))"

definition release :: "nat \<Rightarrow> limiter \<Rightarrow> limiter" where
  "release k s =
     (if length (tickets s) \<le> k \<or> tk_released (tickets s ! k) then s
      else (let t = tickets s ! k; s1 = s\<lparr>tickets := (tickets s)[k := t\<lparr>tk_released := True\<rparr>]\<rparr> in
            case map_of (buckets s) (tk_socket t) of
              None \<Rightarrow> s1
            | Some b \<Rightarrow>
                if bk_gen b \<noteq> tk_gen t then s1
                else s1\<lparr>buckets := AList.update (tk_socket t)
                          (b\<lparr>bk_inflight := remove1 (tk_slot t) (bk_inflight b)\<rparr>) (buckets s)\<rparr>))"

definition forget :: "string \<Rightarrow> limiter \<Rightarrow> limiter" where
  "forget i s = s\<lparr>buckets := AList.delete i (buckets s)\<rparr>"

definition depth_of :: "limiter_config \<Rightarrow> string \<Rightarrow> rat \<Rightarrow> limiter \<Rightarrow> nat \<times> limiter" where
  "depth_of c i now s =
     (case map_of (buckets s) i of
        None \<Rightarrow> (0, s)
      | Some b \<Rightarrow> (let b' = refresh c now b
                   in (length (bk_inflight b'), s\<lparr>buckets := AList.update i b' (buckets s)\<rparr>)))"

definition idle :: "limiter_config \<Rightarrow> bucket \<Rightarrow> bool" where
  "idle c b \<longleftrightarrow> bk_inflight b = [] \<and> burst c \<le> bk_tokens b"

definition sweep_idle :: "limiter_config \<Rightarrow> rat \<Rightarrow> limiter \<Rightarrow> limiter" where
  "sweep_idle c now s =
     s\<lparr>buckets := filter (\<lambda>(i, b). \<not> idle c b) (map (\<lambda>(i, b). (i, refresh c now b)) (buckets s))\<rparr>"

subsection \<open>The rate bound\<close>

datatype limiter_event = Consume string rat | Release nat | Depth string rat | SweepAt rat

fun event_time :: "limiter_event \<Rightarrow> rat option" where
  "event_time (Consume i t) = Some t"
| "event_time (Release k) = None"
| "event_time (Depth i t) = Some t"
| "event_time (SweepAt t) = Some t"

fun limiter_step :: "limiter_config \<Rightarrow> limiter_event \<Rightarrow> limiter \<Rightarrow> limiter" where
  "limiter_step c (Consume i t) s = snd (try_consume c i t s)"
| "limiter_step c (Release k) s = release k s"
| "limiter_step c (Depth i t) s = snd (depth_of c i t s)"
| "limiter_step c (SweepAt t) s = sweep_idle c t s"

definition is_admitted :: "admission \<Rightarrow> bool" where
  "is_admitted a = (case a of Admitted k \<Rightarrow> True | _ \<Rightarrow> False)"

definition admits :: "limiter_config \<Rightarrow> string \<Rightarrow> limiter_event \<Rightarrow> limiter \<Rightarrow> nat" where
  "admits c i ev s = (case ev of
     Consume j t \<Rightarrow> if j = i \<and> is_admitted (fst (try_consume c j t s)) then 1 else 0 | _ \<Rightarrow> 0)"

fun admitted_count :: "limiter_config \<Rightarrow> string \<Rightarrow> limiter_event list \<Rightarrow> limiter \<Rightarrow> nat" where
  "admitted_count c i [] s = 0"
| "admitted_count c i (ev # evs) s = admits c i ev s + admitted_count c i evs (limiter_step c ev s)"

fun run_limiter :: "limiter_config \<Rightarrow> limiter_event list \<Rightarrow> limiter \<Rightarrow> limiter" where
  "run_limiter c [] s = s"
| "run_limiter c (ev # evs) s = run_limiter c evs (limiter_step c ev s)"

fun in_order :: "rat \<Rightarrow> limiter_event list \<Rightarrow> bool" where
  \<comment> \<open>the clock does not run backwards\<close>
  "in_order t [] = True"
| "in_order t (ev # evs) = (case event_time ev of None \<Rightarrow> in_order t evs
     | Some u \<Rightarrow> t \<le> u \<and> in_order u evs)"

fun end_time :: "rat \<Rightarrow> limiter_event list \<Rightarrow> rat" where
  "end_time t [] = t"
| "end_time t (ev # evs) = end_time (case event_time ev of None \<Rightarrow> t | Some u \<Rightarrow> u) evs"

text \<open>What a socket may still consume at once when the clock shows \<open>now\<close>, as a budget.\<close>

definition budget :: "limiter_config \<Rightarrow> string \<Rightarrow> rat \<Rightarrow> limiter \<Rightarrow> rat" where
  "budget c i now s = (case map_of (buckets s) i of
     None \<Rightarrow> burst c
   | Some b \<Rightarrow> min (burst c) (bk_tokens b + (now - bk_last b) / 1000 * rate_per_sec c))"

definition limiter_ok :: "limiter_config \<Rightarrow> rat \<Rightarrow> limiter \<Rightarrow> bool" where
  "limiter_ok c now s \<longleftrightarrow> distinct_keys (buckets s)
     \<and> (\<forall>i b. map_of (buckets s) i = Some b \<longrightarrow> bk_last b \<le> now \<and> 0 \<le> bk_tokens b \<and> bk_tokens b \<le> burst c)"

definition config_ok :: "limiter_config \<Rightarrow> bool" where
  "config_ok c \<longleftrightarrow> 1 \<le> burst c \<and> 0 < rate_per_sec c"

lemma config_of_ok: "config_ok (limiter_config_of c)"
  by (simp add: config_ok_def limiter_config_of_def)

lemma refresh_sel:
  assumes "bk_last b \<le> now" "bk_tokens b \<le> burst c"
  shows "bk_tokens (refresh c now b) = min (burst c) (bk_tokens b + (now - bk_last b) / 1000 * rate_per_sec c)"
    "bk_last (refresh c now b) = now" "bk_gen (refresh c now b) = bk_gen b"
    "bk_inflight (refresh c now b) = filter (\<lambda>e. now < e) (bk_inflight b)"
  using assms by (auto simp: refresh_def refill_def Let_def)

lemma limiter_okD:
  "limiter_ok c t s \<Longrightarrow> map_of (buckets s) i = Some b \<Longrightarrow> t \<le> u
   \<Longrightarrow> bk_last b \<le> u \<and> 0 \<le> bk_tokens b \<and> bk_tokens b \<le> burst c"
  unfolding limiter_ok_def by (meson order_trans)

lemma limiter_ok_later: "limiter_ok c t s \<Longrightarrow> t \<le> u \<Longrightarrow> limiter_ok c u s"
  unfolding limiter_ok_def by (meson order_trans)

lemma limiter_ok_update:
  "limiter_ok c u s \<Longrightarrow> bk_last b \<le> u \<Longrightarrow> 0 \<le> bk_tokens b \<Longrightarrow> bk_tokens b \<le> burst c
   \<Longrightarrow> buckets s' = AList.update i b (buckets s) \<Longrightarrow> limiter_ok c u s'"
  by (simp add: limiter_ok_def update_conv' alist.wf_put)

lemma try_consume_budget:
  assumes "limiter_ok c t s" "t \<le> u" "config_ok c"
  shows "limiter_ok c u (snd (try_consume c j u s))"
    "budget c i u (snd (try_consume c j u s))
       = budget c i u s - (if j = i \<and> is_admitted (fst (try_consume c j u s)) then 1 else 0)"
proof -
  define b0 where "b0 = (case map_of (buckets s) j of None \<Rightarrow> fresh_bucket c (next_gen s) u | Some b \<Rightarrow> b)"
  have b0: "bk_last b0 \<le> u" "0 \<le> bk_tokens b0" "bk_tokens b0 \<le> burst c"
    using limiter_okD [OF assms(1) _ assms(2), of j] assms(3)
    by (auto simp: b0_def fresh_bucket_def config_ok_def split: option.split)
  define b where "b = refresh c u b0"
  have b: "bk_tokens b = min (burst c) (bk_tokens b0 + (u - bk_last b0) / 1000 * rate_per_sec c)" "bk_last b = u"
    using refresh_sel [OF b0(1,3)] by (simp_all add: b_def)
  have bb: "bk_tokens b = budget c j u s"
    using b0 by (auto simp: b(1) budget_def b0_def fresh_bucket_def split: option.split)
  have b_nonneg: "0 \<le> bk_tokens b" "bk_tokens b \<le> burst c"
    using b(1) b0 assms(3) by (auto simp: config_ok_def)
  define st where "st = snd (try_consume c j u s)"
  have cases: "(\<not> is_admitted (fst (try_consume c j u s)) \<and> buckets st = AList.update j b (buckets s))
    \<or> (is_admitted (fst (try_consume c j u s)) \<and> 1 \<le> bk_tokens b
        \<and> (\<exists>fl. buckets st = AList.update j (b\<lparr>bk_tokens := bk_tokens b - 1, bk_inflight := fl\<rparr>) (buckets s)))"
    unfolding st_def try_consume_def Let_def b0_def [symmetric] b_def [symmetric]
    by (auto simp: is_admitted_def)
  then show "limiter_ok c u (snd (try_consume c j u s))"
    unfolding st_def [symmetric]
  proof (elim disjE conjE exE)
    assume "buckets st = AList.update j b (buckets s)"
    from limiter_ok_update [OF limiter_ok_later [OF assms(1,2)] _ b_nonneg this] b(2)
    show "limiter_ok c u st" by simp
  next
    fix fl assume "1 \<le> bk_tokens b"
      and "buckets st = AList.update j (b\<lparr>bk_tokens := bk_tokens b - 1, bk_inflight := fl\<rparr>) (buckets s)"
    from limiter_ok_update [OF limiter_ok_later [OF assms(1,2)] _ _ _ this(2)] this(1) b(2) b_nonneg
    show "limiter_ok c u st" by simp
  qed
  show "budget c i u (snd (try_consume c j u s))
       = budget c i u s - (if j = i \<and> is_admitted (fst (try_consume c j u s)) then 1 else 0)"
    unfolding st_def [symmetric]
    using cases b b_nonneg bb by (auto simp: budget_def update_conv')
qed

lemma depth_budget:
  assumes "limiter_ok c t s" "t \<le> u" "config_ok c"
  shows "limiter_ok c u (snd (depth_of c j u s))" "budget c i u (snd (depth_of c j u s)) = budget c i u s"
proof -
  have "limiter_ok c u (snd (depth_of c j u s)) \<and> budget c i u (snd (depth_of c j u s)) = budget c i u s"
  proof (cases "map_of (buckets s) j")
    case None
    with limiter_ok_later [OF assms(1,2)] show ?thesis by (simp add: depth_of_def)
  next
    case (Some b)
    then have b: "bk_last b \<le> u" "0 \<le> bk_tokens b" "bk_tokens b \<le> burst c"
      using limiter_okD [OF assms(1) Some assms(2)] by blast+
    note r = refresh_sel [OF b(1,3)]
    have nn: "0 \<le> min (burst c) (bk_tokens b + (u - bk_last b) / 1000 * rate_per_sec c)"
      using b assms(3) by (auto simp: config_ok_def)
    have bu: "buckets (snd (depth_of c j u s)) = AList.update j (refresh c u b) (buckets s)"
      using Some by (simp add: depth_of_def Let_def)
    have "limiter_ok c u (snd (depth_of c j u s))"
      by (rule limiter_ok_update [OF limiter_ok_later [OF assms(1,2)] _ _ _ bu]) (use r nn in simp_all)
    moreover have "budget c i u (snd (depth_of c j u s)) = budget c i u s"
      using Some r by (simp add: budget_def bu update_conv')
    ultimately show ?thesis ..
  qed
  then show "limiter_ok c u (snd (depth_of c j u s))" "budget c i u (snd (depth_of c j u s)) = budget c i u s"
    by blast+
qed

lemma sweep_lookup:
  "map_of (buckets (sweep_idle c u s)) i =
     (case map_of (buckets s) i of None \<Rightarrow> None
      | Some b \<Rightarrow> if idle c (refresh c u b) then None else Some (refresh c u b))"
  if "distinct_keys (buckets s)"
proof -
  have d: "distinct_keys (map (\<lambda>(i, b). (i, refresh c u b)) (buckets s))"
    using that by (simp add: distinct_keys_def o_def case_prod_unfold)
  have m: "map_of (map (\<lambda>(i, b). (i, refresh c u b)) m) i = map_option (refresh c u) (map_of m i)" for m
    by (induction m) auto
  show ?thesis
    by (simp add: sweep_idle_def map_of_filter_distinct [OF d] m split: option.split)
qed

lemma sweep_budget:
  assumes "limiter_ok c t s" "t \<le> u" "config_ok c"
  shows "limiter_ok c u (sweep_idle c u s)" "budget c i u (sweep_idle c u s) = budget c i u s"
proof -
  have d: "distinct_keys (buckets s)" using assms(1) by (simp add: limiter_ok_def)
  have r: "bk_tokens (refresh c u b) = min (burst c) (bk_tokens b + (u - bk_last b) / 1000 * rate_per_sec c)
      \<and> bk_last (refresh c u b) = u \<and> 0 \<le> bk_tokens (refresh c u b) \<and> bk_tokens (refresh c u b) \<le> burst c"
    if "map_of (buckets s) j = Some b" for j b
    using limiter_okD [OF assms(1) that assms(2)] refresh_sel [of b u c] assms(3) by (auto simp: config_ok_def)
  have "distinct_keys (buckets (sweep_idle c u s))"
    using d unfolding sweep_idle_def
    by (simp add: distinct_keys_filter distinct_keys_def o_def case_prod_unfold distinct_map_filter)
  then show "limiter_ok c u (sweep_idle c u s)"
    unfolding limiter_ok_def sweep_lookup [OF d] using r [THEN conjunct2]
    by (auto split: option.splits if_splits)
  show "budget c i u (sweep_idle c u s) = budget c i u s"
    unfolding budget_def sweep_lookup [OF d]
    using r [of i] by (auto simp: idle_def split: option.split)
qed

lemma release_buckets:
  "buckets (release k s) = buckets s
   \<or> (\<exists>i b fl. map_of (buckets s) i = Some b \<and> buckets (release k s) = AList.update i (b\<lparr>bk_inflight := fl\<rparr>) (buckets s))"
  by (auto simp: release_def Let_def split: option.split)

lemma release_budget:
  assumes "limiter_ok c t s"
  shows "limiter_ok c t (release k s)" "budget c i u (release k s) = budget c i u s"
proof -
  show "limiter_ok c t (release k s)"
    using release_buckets [of k s] assms limiter_okD [OF assms _ order_refl]
    by (auto simp: limiter_ok_def update_conv' alist.wf_put split: if_splits)
  show "budget c i u (release k s) = budget c i u s"
    using release_buckets [of k s] by (auto simp: budget_def update_conv')
qed

lemma min_add_le: "0 \<le> (d::rat) \<Longrightarrow> min a (x + d) \<le> min a x + d"
  by (simp add: min_def)

lemma budget_later:
  assumes "limiter_ok c t s" "t \<le> u" "config_ok c"
  shows "budget c i u s \<le> budget c i t s + (u - t) / 1000 * rate_per_sec c"
proof -
  have nn: "0 \<le> (u - t) / 1000 * rate_per_sec c" using assms by (simp add: config_ok_def)
  show ?thesis
  proof (cases "map_of (buckets s) i")
    case None
    with nn show ?thesis by (simp add: budget_def)
  next
    case (Some b)
    have "bk_tokens b + (u - bk_last b) / 1000 * rate_per_sec c =
        (bk_tokens b + (t - bk_last b) / 1000 * rate_per_sec c) + (u - t) / 1000 * rate_per_sec c"
      by (simp add: field_simps)
    with Some min_add_le [OF nn] show ?thesis by (simp only: budget_def option.case)
  qed
qed

lemma budget_nonneg: "limiter_ok c t s \<Longrightarrow> config_ok c \<Longrightarrow> 0 \<le> budget c i t s"
  using limiter_okD [of c t s i _ t] by (auto simp: budget_def config_ok_def split: option.split)

lemma limiter_step_budget:
  assumes "limiter_ok c t s" "config_ok c" "case event_time ev of None \<Rightarrow> u = t | Some v \<Rightarrow> u = v \<and> t \<le> v"
  shows "limiter_ok c u (limiter_step c ev s)"
    "budget c i u (limiter_step c ev s) + of_nat (admits c i ev s) \<le> budget c i t s + (u - t) / 1000 * rate_per_sec c"
proof -
  have tu: "t \<le> u" using assms(3) by (auto split: option.splits)
  have e: "limiter_ok c u (limiter_step c ev s)
    \<and> budget c i u (limiter_step c ev s) + of_nat (admits c i ev s) = budget c i u s"
    using assms(3) try_consume_budget [OF assms(1) tu assms(2)] depth_budget [OF assms(1) tu assms(2)]
      sweep_budget [OF assms(1) tu assms(2)] release_budget [OF assms(1)]
    by (cases ev) (auto simp: admits_def)
  then show "limiter_ok c u (limiter_step c ev s)" by blast
  from e budget_later [OF assms(1) tu assms(2), of i]
  show "budget c i u (limiter_step c ev s) + of_nat (admits c i ev s) \<le> budget c i t s + (u - t) / 1000 * rate_per_sec c"
    by simp
qed

lemma admitted_budget:
  assumes "limiter_ok c t s" "config_ok c" "in_order t evs"
  shows "of_nat (admitted_count c i evs s) \<le> budget c i t s + (end_time t evs - t) / 1000 * rate_per_sec c"
  using assms
proof (induction evs arbitrary: t s)
  case Nil
  then show ?case by (simp add: budget_nonneg)
next
  case (Cons ev evs)
  define u where "u = (case event_time ev of None \<Rightarrow> t | Some v \<Rightarrow> v)"
  have o: "in_order u evs" "case event_time ev of None \<Rightarrow> u = t | Some v \<Rightarrow> u = v \<and> t \<le> v"
    using Cons.prems(3) by (auto simp: u_def split: option.splits)
  note st = limiter_step_budget [OF Cons.prems(1,2) o(2)]
  have "of_nat (admitted_count c i evs (limiter_step c ev s))
      \<le> budget c i u (limiter_step c ev s) + (end_time u evs - u) / 1000 * rate_per_sec c"
    by (rule Cons.IH [OF st(1) Cons.prems(2) o(1)])
  with st(2) [of i] have "of_nat (admits c i ev s) + of_nat (admitted_count c i evs (limiter_step c ev s))
      \<le> budget c i t s + (u - t) / 1000 * rate_per_sec c + (end_time u evs - u) / 1000 * rate_per_sec c"
    by linarith
  then show ?case by (simp add: u_def [symmetric] field_simps)
qed

text \<open>C19: The token bucket bounds the rate. Over any history of consuming, releasing, inspecting and
  sweeping, in the order of the clock, a socket is admitted at most \<open>burst\<close> events plus
  \<open>ratePerSec\<close> for each second that passed, whatever the other sockets do.\<close>

theorem limiter_bounds_rate:
  assumes "in_order t evs"
  shows "of_nat (admitted_count (limiter_config_of c) i evs new_limiter)
    \<le> burst (limiter_config_of c) + (end_time t evs - t) / 1000 * rate_per_sec (limiter_config_of c)"
proof -
  have "limiter_ok (limiter_config_of c) t new_limiter" by (simp add: limiter_ok_def new_limiter_def)
  from admitted_budget [OF this config_of_ok assms, of i] show ?thesis
    by (simp add: budget_def new_limiter_def)
qed

theorem limiter_bounds_rate_witness:
  "admitted_count (limiter_config_of (default_limiter\<lparr>burst := 2\<rparr>)) ''s''
     [Consume ''s'' 0, Consume ''s'' 0, Consume ''s'' 0, Release 0, SweepAt 50, Consume ''s'' 50] new_limiter = 3
   \<and> (of_nat 3 :: rat) \<le> 2 + (50 - 0) / 1000 * 20"
proof -
  let ?e = "[Consume ''s'' 0, Consume ''s'' 0, Consume ''s'' 0, Release 0, SweepAt 50, Consume ''s'' 50]"
  let ?c = "default_limiter\<lparr>burst := 2\<rparr>"
  have n: "admitted_count (limiter_config_of ?c) ''s'' ?e new_limiter = 3" by code_simp
  have "in_order 0 ?e" by simp
  from limiter_bounds_rate [OF this, of ?c "''s''"] n show ?thesis
    by (simp add: limiter_config_of_def default_limiter_def)
qed

subsection \<open>Failed logins\<close>

record login_config =
  window_ms :: rat
  max_account_failures :: nat
  max_ip_failures :: nat

record login_store =
  failures :: "(string \<times> (nat \<times> rat) list) list"
  login_sequence :: nat

definition entries_of :: "login_store \<Rightarrow> string \<Rightarrow> (nat \<times> rat) list" where
  "entries_of s k = (case map_of (failures s) k of None \<Rightarrow> [] | Some es \<Rightarrow> es)"

definition set_entries :: "string \<Rightarrow> (nat \<times> rat) list \<Rightarrow> login_store \<Rightarrow> login_store" where
  "set_entries k es s =
     s\<lparr>failures := (if es \<noteq> [] then AList.update k es (failures s) else AList.delete k (failures s))\<rparr>"

definition active :: "string \<Rightarrow> rat \<Rightarrow> login_store \<Rightarrow> (nat \<times> rat) list \<times> login_store" where
  "active k cutoff s =
     (let es = filter (\<lambda>(i, t). cutoff < t) (entries_of s k) in (es, set_entries k es s))"

definition remove_entry :: "string \<Rightarrow> nat \<Rightarrow> login_store \<Rightarrow> login_store" where
  "remove_entry k i s = set_entries k (filter (\<lambda>(j, t). j \<noteq> i) (entries_of s k)) s"

definition login_identifier :: "jsval \<Rightarrow> string" where
  "login_identifier body =
     (let s = take 320 (to_lower (text_of (js_or (js_or (fld body ''identifier'') (fld body ''username''))
                (fld body ''email''))))
      in if s = [] then ''<missing>'' else s)"

definition account_key :: "jsval \<Rightarrow> string" where
  "account_key body = ''account:'' @ login_identifier body"

definition ip_key :: "jsval \<Rightarrow> string" where
  "ip_key ip = ''ip:'' @ to_str (js_or ip (JStr ''unknown''))"

text \<open>The handler of a response: fired once when it finishes.\<close>

record login_entry =
  le_id :: nat
  le_at :: rat
  le_account :: string
  le_ip :: string

record login_world =
  lw_store :: login_store
  lw_admitted :: "login_entry list"
  lw_finished :: "nat list"
  lw_succeeded :: "nat list"

definition login_attempt :: "login_config \<Rightarrow> rat \<Rightarrow> jsval \<Rightarrow> jsval \<Rightarrow> login_world \<Rightarrow> bool \<times> login_world" where
  "login_attempt c now ip body w =
     (let cutoff = now - window_ms c; ak = account_key body; ik = ip_key ip in
      case active ak cutoff (lw_store w) of (af, s1) \<Rightarrow>
      case active ik cutoff s1 of (jf, s2) \<Rightarrow>
        if max_account_failures c \<le> length af \<or> max_ip_failures c \<le> length jf
        then (False, w\<lparr>lw_store := s2\<rparr>)
        else (let i = Suc (login_sequence s2);
                  s3 = set_entries ik (jf @ [(i, now)]) (set_entries ak (af @ [(i, now)]) s2)
              in (True, w\<lparr>lw_store := s3\<lparr>login_sequence := i\<rparr>,
                          lw_admitted := lw_admitted w @
                            [\<lparr>le_id = i, le_at = now, le_account = ak, le_ip = ik\<rparr>]\<rparr>)))"

definition login_finish :: "nat \<Rightarrow> nat \<Rightarrow> login_world \<Rightarrow> login_world" where
  "login_finish i status w =
     (case find (\<lambda>e. le_id e = i) (lw_admitted w) of
        None \<Rightarrow> w
      | Some e \<Rightarrow>
          if i \<in> set (lw_finished w) then w
          else if status \<in> {400, 401, 403} then w\<lparr>lw_finished := i # lw_finished w\<rparr>
          else w\<lparr>lw_store := remove_entry (le_ip e) i (remove_entry (le_account e) i (lw_store w)),
                 lw_finished := i # lw_finished w, lw_succeeded := i # lw_succeeded w\<rparr>)"

definition initial_login :: login_world where
  "initial_login = \<lparr>lw_store = \<lparr>failures = [], login_sequence = 0\<rparr>, lw_admitted = [], lw_finished = [],
     lw_succeeded = []\<rparr>"

inductive login_reach :: "login_config \<Rightarrow> rat \<Rightarrow> login_world \<Rightarrow> bool" for c where
  initial: "login_reach c t initial_login"
| attempt: "login_reach c t w \<Longrightarrow> t \<le> u \<Longrightarrow> login_reach c u (snd (login_attempt c u ip body w))"
| finish: "login_reach c t w \<Longrightarrow> login_reach c t (login_finish i status w)"

lemma entries_set [simp]: "entries_of (set_entries k es s) k' = (if k' = k then es else entries_of s k')"
  by (simp add: entries_of_def set_entries_def update_conv' delete_conv')

lemma set_entries_seq [simp]: "login_sequence (set_entries k es s) = login_sequence s"
  by (simp add: set_entries_def)

lemma entries_seq [simp]: "entries_of (s\<lparr>login_sequence := n\<rparr>) = entries_of s"
  by (rule ext) (simp add: entries_of_def)

lemma keys_differ [simp]: "account_key b \<noteq> ip_key ip" "ip_key ip \<noteq> account_key b"
  by (simp_all add: account_key_def ip_key_def)

text \<open>Every attempt of the window that has not succeeded is still counted under both keys.\<close>

definition counted :: "rat \<Rightarrow> login_world \<Rightarrow> login_entry \<Rightarrow> bool" where
  "counted cutoff w e \<longleftrightarrow> (cutoff < le_at e \<and> le_id e \<notin> set (lw_succeeded w) \<longrightarrow>
     (le_id e, le_at e) \<in> set (entries_of (lw_store w) (le_account e))
     \<and> (le_id e, le_at e) \<in> set (entries_of (lw_store w) (le_ip e)))"

definition login_ok :: "login_config \<Rightarrow> rat \<Rightarrow> login_world \<Rightarrow> bool" where
  "login_ok c t w \<longleftrightarrow> distinct (map le_id (lw_admitted w))
     \<and> (\<forall>e\<in>set (lw_admitted w). le_id e \<le> login_sequence (lw_store w) \<and> counted (t - window_ms c) w e
          \<and> (\<exists>b. le_account e = account_key b) \<and> (\<exists>ip. le_ip e = ip_key ip))
     \<and> (\<forall>b. length (entries_of (lw_store w) (account_key b)) \<le> max_account_failures c)
     \<and> (\<forall>ip. length (entries_of (lw_store w) (ip_key ip)) \<le> max_ip_failures c)"

lemma login_ok_later:
  assumes "login_ok c t w" "t \<le> u" shows "login_ok c u w"
proof -
  have "counted (t - window_ms c) w e \<Longrightarrow> counted (u - window_ms c) w e" for e
    using assms(2) by (auto simp: counted_def)
  with assms(1) show ?thesis unfolding login_ok_def by blast
qed

lemma login_attempt_store:
  assumes "login_attempt c now ip body w = (ok, w')"
  defines "fresh \<equiv> \<lambda>k. filter (\<lambda>(i, t). now - window_ms c < t) (entries_of (lw_store w) k)"
  shows "lw_succeeded w' = lw_succeeded w"
    "\<not> ok \<Longrightarrow> lw_admitted w' = lw_admitted w \<and> login_sequence (lw_store w') = login_sequence (lw_store w)
       \<and> (\<forall>k. entries_of (lw_store w') k = (if k = account_key body \<or> k = ip_key ip then fresh k
             else entries_of (lw_store w) k))"
    "ok \<Longrightarrow> lw_admitted w' = lw_admitted w @ [\<lparr>le_id = Suc (login_sequence (lw_store w)), le_at = now,
             le_account = account_key body, le_ip = ip_key ip\<rparr>]
       \<and> login_sequence (lw_store w') = Suc (login_sequence (lw_store w))
       \<and> length (fresh (account_key body)) < max_account_failures c \<and> length (fresh (ip_key ip)) < max_ip_failures c
       \<and> (\<forall>k. entries_of (lw_store w') k = (if k = account_key body \<or> k = ip_key ip
             then fresh k @ [(Suc (login_sequence (lw_store w)), now)] else entries_of (lw_store w) k))"
  using assms(1) unfolding fresh_def
  by (auto simp: login_attempt_def active_def Let_def split: if_splits)

lemma login_ok_attempt:
  assumes ok: "login_ok c now w"
  shows "login_ok c now (snd (login_attempt c now ip body w))"
proof -
  obtain b w' where a: "login_attempt c now ip body w = (b, w')" by (cases "login_attempt c now ip body w")
  let ?fresh = "\<lambda>k. filter (\<lambda>(i, t). now - window_ms c < t) (entries_of (lw_store w) k)"
  note st = login_attempt_store [OF a]
  have le: "length (?fresh k) \<le> length (entries_of (lw_store w) k)" for k by (rule length_filter_le)
  have lens: "length (entries_of (lw_store w) (account_key x)) \<le> max_account_failures c"
    "length (entries_of (lw_store w) (ip_key y)) \<le> max_ip_failures c" for x y
    using ok by (auto simp: login_ok_def)
  show ?thesis
  proof (cases b)
    case False
    note s = st(2) [OF False]
    have "counted (now - window_ms c) w' e" if "counted (now - window_ms c) w e" for e
      using that s st(1) by (auto simp: counted_def)
    with ok s lens order_trans [OF le] show ?thesis
      unfolding a snd_conv login_ok_def by auto
  next
    case True
    note s = st(3) [OF True]
    have keep: "counted (now - window_ms c) w' e" if "counted (now - window_ms c) w e" for e
      using that s st(1) by (auto simp: counted_def)
    let ?n = "\<lparr>le_id = Suc (login_sequence (lw_store w)), le_at = now, le_account = account_key body, le_ip = ip_key ip\<rparr>"
    have new: "counted (now - window_ms c) w' ?n" using s by (simp add: counted_def)
    have ids: "\<forall>e\<in>set (lw_admitted w). le_id e \<le> login_sequence (lw_store w)"
      using ok by (simp add: login_ok_def)
    have "distinct (map le_id (lw_admitted w'))"
      using ok ids s by (force simp: login_ok_def)
    moreover have "\<forall>e\<in>set (lw_admitted w'). le_id e \<le> login_sequence (lw_store w') \<and> counted (now - window_ms c) w' e
          \<and> (\<exists>b. le_account e = account_key b) \<and> (\<exists>ip. le_ip e = ip_key ip)"
      using ok ids s keep new by (auto simp: login_ok_def)
    moreover have "\<forall>x. length (entries_of (lw_store w') (account_key x)) \<le> max_account_failures c"
      "\<forall>y. length (entries_of (lw_store w') (ip_key y)) \<le> max_ip_failures c"
      using s lens by auto
    ultimately show ?thesis unfolding a snd_conv login_ok_def by blast
  qed
qed

lemma login_ok_finish:
  assumes ok: "login_ok c t w"
  shows "login_ok c t (login_finish i status w)"
proof (cases "find (\<lambda>e. le_id e = i) (lw_admitted w)")
  case None
  with ok show ?thesis by (simp add: login_finish_def)
next
  case (Some e)
  show ?thesis
  proof (cases "i \<in> set (lw_finished w) \<or> status \<in> {400, 401, 403}")
    case True
    with Some ok show ?thesis by (auto simp: login_finish_def login_ok_def counted_def)
  next
    case False
    let ?w = "login_finish i status w"
    from Some False have ent: "entries_of (lw_store ?w) k = (if k = le_ip e \<or> k = le_account e
        then filter (\<lambda>(j, t). j \<noteq> i) (entries_of (lw_store w) k) else entries_of (lw_store w) k)" for k
      by (simp add: login_finish_def remove_entry_def)
    from Some False have sel: "lw_admitted ?w = lw_admitted w" "lw_succeeded ?w = i # lw_succeeded w"
      "login_sequence (lw_store ?w) = login_sequence (lw_store w)"
      by (simp_all add: login_finish_def remove_entry_def)
    have cnt: "counted cut ?w x" if "counted cut w x" for cut x
      using that by (auto simp: counted_def ent sel)
    have len: "length (entries_of (lw_store ?w) k) \<le> length (entries_of (lw_store w) k)" for k
      by (simp add: ent)
    show ?thesis
      using ok cnt order_trans [OF len] unfolding login_ok_def sel by blast
  qed
qed

lemma login_reach_ok: "login_reach c t w \<Longrightarrow> login_ok c t w"
proof (induction rule: login_reach.induct)
  case (initial t)
  show ?case by (simp add: login_ok_def initial_login_def entries_of_def)
next
  case (attempt t w u ip body)
  then show ?case by (blast intro: login_ok_attempt login_ok_later)
next
  case (finish t w i status)
  then show ?case by (blast intro: login_ok_finish)
qed

lemma distinct_ids_bound:
  assumes "distinct (map f xs)" "\<forall>x\<in>set xs. (f x, g x) \<in> set ys"
  shows "length xs \<le> length ys"
proof -
  have "set (map f xs) \<subseteq> fst ` set ys" using assms(2) by force
  then have "card (set (map f xs)) \<le> card (fst ` set ys)" by (intro card_mono) simp_all
  also have "\<dots> \<le> length ys" by (meson card_image_le card_length finite_set order_trans)
  finally show ?thesis using distinct_card [OF assms(1)] by simp
qed

text \<open>Brute force is bounded. Whatever attempts and answers interleave, with the clock in order,
  at most \<open>maxAccountFailures\<close> attempts admitted for one account within the window, and at most
  \<open>maxIpFailures\<close> from one address, have not been answered with success: the check holds
  also for requests that run in parallel.\<close>

theorem login_failures_bounded:
  assumes "login_reach c t w"
  shows "length (filter (\<lambda>e. le_account e = account_key body \<and> t - window_ms c < le_at e
             \<and> le_id e \<notin> set (lw_succeeded w)) (lw_admitted w)) \<le> max_account_failures c
    \<and> length (filter (\<lambda>e. le_ip e = ip_key ip \<and> t - window_ms c < le_at e
             \<and> le_id e \<notin> set (lw_succeeded w)) (lw_admitted w)) \<le> max_ip_failures c"
proof -
  note ok = login_reach_ok [OF assms]
  let ?P = "\<lambda>key k e. key e = k \<and> t - window_ms c < le_at e \<and> le_id e \<notin> set (lw_succeeded w)"
  have b: "length (filter (?P key k) (lw_admitted w)) \<le> length (entries_of (lw_store w) k)"
    if "key = le_account \<or> key = le_ip" for key k
  proof (rule distinct_ids_bound [where f = le_id and g = le_at])
    show "distinct (map le_id (filter (?P key k) (lw_admitted w)))"
      using ok by (simp add: login_ok_def distinct_map_filter)
    show "\<forall>x\<in>set (filter (?P key k) (lw_admitted w)). (le_id x, le_at x) \<in> set (entries_of (lw_store w) k)"
      using ok that by (auto simp: login_ok_def counted_def)
  qed
  show ?thesis
    using b [of le_account "account_key body"] b [of le_ip "ip_key ip"] ok
    unfolding login_ok_def by (meson order_trans)
qed

definition sample_login :: login_config where
  "sample_login = \<lparr>window_ms = 60, max_account_failures = 2, max_ip_failures = 9\<rparr>"

definition sample_body :: jsval where
  "sample_body = JObj [(''username'', JStr '' Chief '')]"

fun attempts :: "nat \<Rightarrow> login_world \<Rightarrow> login_world" where
  "attempts 0 w = w"
| "attempts (Suc n) w = snd (login_attempt sample_login 5 (JStr ''1.2.3.4'') sample_body (attempts n w))"

lemma attempts_reach: "login_reach sample_login 5 (attempts n initial_login)"
  by (induction n) (auto intro: login_reach.intros)

theorem login_failures_bounded_witness:
  "length (lw_admitted (attempts 4 initial_login)) = 2
   \<and> length (filter (\<lambda>e. le_account e = account_key sample_body \<and> 5 - 60 < le_at e
        \<and> le_id e \<notin> set (lw_succeeded (attempts 4 initial_login))) (lw_admitted (attempts 4 initial_login))) \<le> 2"
proof -
  have "length (lw_admitted (attempts 4 initial_login)) = 2" by code_simp
  with login_failures_bounded [OF attempts_reach [of 4], of sample_body] show ?thesis
    by (simp add: sample_login_def)
qed

end
