(* ===== verification/Tenancy.thy ===== *)
theory Tenancy
  imports Prelude
begin

text \<open>
  Who may do what where: the permission predicates and their middleware
  (\<open>server/lib/permissions.js\<close>) and the resolution of the workspace of a request
  (\<open>server/lib/tenancy.js\<close>).

  The three tables are the fields of \<open>tenancy_db\<close>, rows in insertion order. An absent or empty
  string of the source is the empty string; a missing role is \<open>None\<close>.
\<close>

subsection \<open>Tables and requests\<close>

record user =
  u_id :: string
  u_role :: string
  u_provider :: string

record workspace =
  w_id :: string
  w_org :: string

record ws_member =
  wm_workspace :: string
  wm_user :: string
  wm_role :: string
  wm_joined :: int

record org_member =
  om_org :: string
  om_user :: string
  om_role :: string

record tenancy_db =
  workspaces :: "workspace list"
  ws_members :: "ws_member list"
  org_members :: "org_member list"

record request =
  rq_user :: "user option"
  rq_header :: string
  rq_query :: string
  rq_jwt_workspace :: string

record tenancy =
  tn_workspace :: "workspace option"
  tn_ws_role :: "string option"
  tn_org_role :: "string option"
  tn_platform :: bool
  tn_acting :: bool

subsection \<open>Predicates\<close>

definition platform_role_names :: "string list" where
  "platform_role_names = [''platform_admin'', ''superadmin'']"

definition canonical_global_role :: "string \<Rightarrow> string" where
  "canonical_global_role r = (if r = ''platform_admin'' \<or> r = ''superadmin'' then ''platform_admin'' else ''user'')"

definition is_platform_admin_user :: "user option \<Rightarrow> bool" where
  "is_platform_admin_user u \<longleftrightarrow> (case u of None \<Rightarrow> False
     | Some x \<Rightarrow> u_provider x \<noteq> ''recovery'' \<and> u_role x \<in> set platform_role_names)"

definition org_admin_role :: "string option \<Rightarrow> bool" where
  "org_admin_role r \<longleftrightarrow> r = Some ''org_owner'' \<or> r = Some ''org_admin''"

definition can_read :: "tenancy \<Rightarrow> bool" where
  "can_read t \<longleftrightarrow> tn_platform t \<or> org_admin_role (tn_org_role t)
     \<or> (case tn_ws_role t of None \<Rightarrow> False | Some r \<Rightarrow> r \<noteq> [])"

definition can_write :: "tenancy \<Rightarrow> bool" where
  "can_write t \<longleftrightarrow> tn_platform t \<or> org_admin_role (tn_org_role t)
     \<or> tn_ws_role t = Some ''workspace_admin'' \<or> tn_ws_role t = Some ''workspace_editor''"

definition can_admin :: "tenancy \<Rightarrow> bool" where
  "can_admin t \<longleftrightarrow> tn_platform t \<or> org_admin_role (tn_org_role t) \<or> tn_ws_role t = Some ''workspace_admin''"

definition is_org_admin :: "tenancy \<Rightarrow> bool" where
  "is_org_admin t \<longleftrightarrow> tn_platform t \<or> org_admin_role (tn_org_role t)"

definition is_org_owner :: "tenancy \<Rightarrow> bool" where
  "is_org_owner t \<longleftrightarrow> tn_platform t \<or> tn_org_role t = Some ''org_owner''"

datatype outcome = Next | Forbidden string

definition require_workspace :: "tenancy \<Rightarrow> outcome" where
  "require_workspace t = (if tn_workspace t = None then Forbidden ''No workspace context'' else Next)"

definition require_workspace_read :: "tenancy \<Rightarrow> outcome" where
  "require_workspace_read t = (if \<not> can_read t then Forbidden ''Workspace access required'' else Next)"

definition require_workspace_write :: "tenancy \<Rightarrow> outcome" where
  "require_workspace_write t = (if \<not> can_write t then Forbidden ''Workspace editor or admin required'' else Next)"

definition require_workspace_admin :: "tenancy \<Rightarrow> outcome" where
  "require_workspace_admin t = (if \<not> can_admin t then Forbidden ''Workspace admin required'' else Next)"

definition require_org_admin :: "tenancy \<Rightarrow> outcome" where
  "require_org_admin t = (if \<not> is_org_admin t then Forbidden ''Organization admin required'' else Next)"

definition require_org_owner :: "tenancy \<Rightarrow> outcome" where
  "require_org_owner t = (if \<not> is_org_owner t then Forbidden ''Organization owner required'' else Next)"

definition require_platform_admin :: "user option \<Rightarrow> outcome" where
  "require_platform_admin u = (if \<not> is_platform_admin_user u then Forbidden ''Platform admin required'' else Next)"

subsection \<open>Look-ups\<close>

definition membership_of :: "tenancy_db \<Rightarrow> string \<Rightarrow> string \<Rightarrow> ws_member option" where
  "membership_of db uid wid = find (\<lambda>m. wm_workspace m = wid \<and> wm_user m = uid) (ws_members db)"

definition org_membership_of :: "tenancy_db \<Rightarrow> string \<Rightarrow> string \<Rightarrow> org_member option" where
  "org_membership_of db uid oid = find (\<lambda>m. om_org m = oid \<and> om_user m = uid) (org_members db)"

definition load_workspace :: "tenancy_db \<Rightarrow> string \<Rightarrow> workspace option" where
  "load_workspace db wid = (if wid = [] then None else find (\<lambda>w. w_id w = wid) (workspaces db))"

definition first_accessible_workspace :: "tenancy_db \<Rightarrow> string \<Rightarrow> workspace option" where
  "first_accessible_workspace db uid =
     (case concat (map (\<lambda>m. filter (\<lambda>w. w_id w = wm_workspace m) (workspaces db))
        (sort_key wm_joined (filter (\<lambda>m. wm_user m = uid) (ws_members db)))) of
        [] \<Rightarrow> None | w # _ \<Rightarrow> Some w)"

definition org_admin_of :: "tenancy_db \<Rightarrow> string \<Rightarrow> string \<Rightarrow> bool" where
  "org_admin_of db uid oid \<longleftrightarrow> org_admin_role (map_option om_role (org_membership_of db uid oid))"

definition can_admin_workspace :: "tenancy_db \<Rightarrow> user option \<Rightarrow> workspace option \<Rightarrow> bool" where
  "can_admin_workspace db u ws =
     (case (u, ws) of
        (Some x, Some w) \<Rightarrow> is_platform_admin_user u \<or> org_admin_of db (u_id x) (w_org w)
          \<or> map_option wm_role (membership_of db (u_id x) (w_id w)) = Some ''workspace_admin''
      | _ \<Rightarrow> False)"

definition can_access_workspace :: "tenancy_db \<Rightarrow> user option \<Rightarrow> workspace option \<Rightarrow> bool" where
  "can_access_workspace db u ws =
     (case (u, ws) of
        (Some x, Some w) \<Rightarrow> is_platform_admin_user u \<or> org_admin_of db (u_id x) (w_org w)
          \<or> membership_of db (u_id x) (w_id w) \<noteq> None
      | _ \<Rightarrow> False)"

subsection \<open>Resolving the tenancy of a request\<close>

text \<open>\<open>accessContext\<close>: the workspace role and whether the user acts for another.\<close>

definition access_context :: "tenancy_db \<Rightarrow> string \<Rightarrow> string \<Rightarrow> workspace \<Rightarrow> (string option \<times> bool) option" where
  "access_context db uid role w =
     (case membership_of db uid (w_id w) of
        Some m \<Rightarrow> Some (Some (wm_role m), False)
      | None \<Rightarrow>
          if org_admin_of db uid (w_org w) then Some (None, True)
          else if role = ''platform_admin'' then Some (None, True) else None)"

definition candidates_of :: "request \<Rightarrow> string list" where
  "candidates_of r = (let h = trim (rq_header r) in
     (if h \<noteq> [] then [h] else []) @ (if rq_query r \<noteq> [] then [rq_query r] else [])
       @ (if rq_jwt_workspace r \<noteq> [] then [rq_jwt_workspace r] else []))"

fun first_candidate :: "tenancy_db \<Rightarrow> user \<Rightarrow> string list \<Rightarrow> (workspace \<times> string option \<times> bool) option" where
  "first_candidate db u [] = None"
| "first_candidate db u (i # is) =
     (case load_workspace db i of
        None \<Rightarrow> first_candidate db u is
      | Some w \<Rightarrow> (case access_context db (u_id u) (u_role u) w of
            None \<Rightarrow> first_candidate db u is
          | Some c \<Rightarrow> Some (w, c)))"

definition fallback_workspace :: "tenancy_db \<Rightarrow> user \<Rightarrow> (workspace \<times> string option \<times> bool) option" where
  "fallback_workspace db u =
     (case first_accessible_workspace db (u_id u) of
        Some w \<Rightarrow> Some (w, map_option wm_role (membership_of db (u_id u) (w_id w)), False)
      | None \<Rightarrow>
          if u_role u = ''platform_admin''
          then (case workspaces db of [] \<Rightarrow> None | w # _ \<Rightarrow> Some (w, None, True)) else None)"

definition no_tenancy :: "bool \<Rightarrow> tenancy" where
  "no_tenancy p = \<lparr>tn_workspace = None, tn_ws_role = None, tn_org_role = None, tn_platform = p, tn_acting = False\<rparr>"

definition resolve_tenancy :: "tenancy_db \<Rightarrow> request \<Rightarrow> tenancy" where
  "resolve_tenancy db r =
     (case rq_user r of
        None \<Rightarrow> no_tenancy False
      | Some u \<Rightarrow>
          (let p = (u_role u = ''platform_admin'');
               found = (case first_candidate db u (candidates_of r) of
                          None \<Rightarrow> fallback_workspace db u | Some x \<Rightarrow> Some x)
           in case found of
                None \<Rightarrow> no_tenancy p
              | Some (w, role, acting) \<Rightarrow>
                  \<lparr>tn_workspace = Some w, tn_ws_role = role,
                   tn_org_role = map_option om_role (org_membership_of db (u_id u) (w_org w)),
                   tn_platform = p, tn_acting = acting\<rparr>))"

definition accessible_workspace_ids :: "tenancy_db \<Rightarrow> string \<Rightarrow> string \<Rightarrow> string list" where
  "accessible_workspace_ids db uid role =
     (if uid = [] then []
      else if role = ''platform_admin'' \<or> role = ''superadmin'' then map w_id (workspaces db)
      else dedup (map wm_workspace (filter (\<lambda>m. wm_user m = uid) (ws_members db))
        @ concat (map (\<lambda>w. map (\<lambda>m. w_id w)
            (filter (\<lambda>m. om_org m = w_org w \<and> om_user m = uid \<and> org_admin_role (Some (om_role m))) (org_members db)))
          (workspaces db))))"

subsection \<open>Roles as a linear order\<close>

datatype workspace_role = Viewer | Editor | WsAdmin

fun role_rank :: "workspace_role \<Rightarrow> nat" where
  "role_rank Viewer = 0"
| "role_rank Editor = 1"
| "role_rank WsAdmin = 2"

fun role_text :: "workspace_role \<Rightarrow> string" where
  "role_text Viewer = ''workspace_viewer''"
| "role_text Editor = ''workspace_editor''"
| "role_text WsAdmin = ''workspace_admin''"

instantiation workspace_role :: linorder
begin

definition less_eq_workspace_role :: "workspace_role \<Rightarrow> workspace_role \<Rightarrow> bool" where
  "less_eq_workspace_role a b \<longleftrightarrow> role_rank a \<le> role_rank b"

definition less_workspace_role :: "workspace_role \<Rightarrow> workspace_role \<Rightarrow> bool" where
  "less_workspace_role a b \<longleftrightarrow> role_rank a < role_rank b"

instance
proof
  fix x y :: workspace_role
  show "x \<le> y \<Longrightarrow> y \<le> x \<Longrightarrow> x = y"
    by (cases x; cases y) (simp_all add: less_eq_workspace_role_def)
qed (auto simp: less_eq_workspace_role_def less_workspace_role_def)

end

lemmas role_order = less_eq_workspace_role_def less_workspace_role_def

text \<open>The workspace roles are bands: with a stored workspace role, reading, writing and
  administering need at least the viewer, editor and administrator role, or an organisation or
  platform role, so administering implies writing and writing implies reading.\<close>

theorem permission_bands:
  assumes "tn_ws_role t = Some (role_text r)"
  shows "(can_read t \<longleftrightarrow> is_org_admin t \<or> Viewer \<le> r)
    \<and> (can_write t \<longleftrightarrow> is_org_admin t \<or> Editor \<le> r)
    \<and> (can_admin t \<longleftrightarrow> is_org_admin t \<or> WsAdmin \<le> r)
    \<and> (can_admin t \<longrightarrow> can_write t) \<and> (can_write t \<longrightarrow> can_read t) \<and> (is_org_owner t \<longrightarrow> is_org_admin t)"
  using assms by (cases r) (auto simp: can_read_def can_write_def can_admin_def is_org_admin_def
      is_org_owner_def org_admin_role_def role_order)

subsection \<open>Two ways to compute access\<close>

text \<open>What the primary keys and foreign keys of the tables give.\<close>

definition tenancy_db_ok :: "tenancy_db \<Rightarrow> bool" where
  "tenancy_db_ok db \<longleftrightarrow> distinct (map w_id (workspaces db)) \<and> [] \<notin> w_id ` set (workspaces db)
     \<and> distinct (map (\<lambda>m. (wm_workspace m, wm_user m)) (ws_members db))
     \<and> distinct (map (\<lambda>m. (om_org m, om_user m)) (org_members db))
     \<and> (\<forall>m\<in>set (ws_members db). wm_workspace m \<in> w_id ` set (workspaces db))"

lemma case_list_None: "(case xs of [] \<Rightarrow> None | w # ws \<Rightarrow> Some w) = None \<longleftrightarrow> xs = []"
  by (cases xs) simp_all

lemma find_some_iff: "find P xs \<noteq> None \<longleftrightarrow> (\<exists>x\<in>set xs. P x)"
  by (auto simp: find_None_iff)

lemma membership_iff: "membership_of db uid wid \<noteq> None \<longleftrightarrow>
   (\<exists>m\<in>set (ws_members db). wm_workspace m = wid \<and> wm_user m = uid)"
  unfolding membership_of_def find_some_iff ..

lemma find_unique:
  assumes "distinct (map f xs)" "x \<in> set xs"
  shows "find (\<lambda>y. f y = f x) xs = Some x"
  using assms by (induction xs) (auto simp: image_iff)

lemma org_admin_of_iff:
  assumes "tenancy_db_ok db"
  shows "org_admin_of db uid oid \<longleftrightarrow>
    (\<exists>m\<in>set (org_members db). om_org m = oid \<and> om_user m = uid \<and> org_admin_role (Some (om_role m)))"
proof
  assume "org_admin_of db uid oid"
  then obtain m where m: "find (\<lambda>m. om_org m = oid \<and> om_user m = uid) (org_members db) = Some m"
    and r: "org_admin_role (Some (om_role m))"
    by (auto simp: org_admin_of_def org_membership_of_def org_admin_role_def)
  from m have "m \<in> set (org_members db)" "om_org m = oid" "om_user m = uid" by (auto simp: find_Some_iff)
  with r show "\<exists>m\<in>set (org_members db). om_org m = oid \<and> om_user m = uid \<and> org_admin_role (Some (om_role m))"
    by blast
next
  assume "\<exists>m\<in>set (org_members db). om_org m = oid \<and> om_user m = uid \<and> org_admin_role (Some (om_role m))"
  then obtain m where m: "m \<in> set (org_members db)" "om_org m = oid" "om_user m = uid"
    "org_admin_role (Some (om_role m))" by blast
  have "find (\<lambda>y. (om_org y, om_user y) = (om_org m, om_user m)) (org_members db) = Some m"
    using assms m(1) by (intro find_unique) (simp_all add: tenancy_db_ok_def)
  with m show "org_admin_of db uid oid" by (simp add: org_admin_of_def org_membership_of_def)
qed

lemma access_context_iff:
  "access_context db uid role w \<noteq> None \<longleftrightarrow>
     membership_of db uid (w_id w) \<noteq> None \<or> org_admin_of db uid (w_org w) \<or> role = ''platform_admin''"
  by (auto simp: access_context_def split: option.split)

text \<open>C31: The check of a single workspace and the enumeration agree: for a user whose role is not the
  legacy \<open>superadmin\<close>, a workspace is among the accessible ones, which scope the socket rooms,
  exactly when \<open>accessContext\<close> grants access to it.\<close>

theorem access_agrees_with_enumeration:
  assumes "tenancy_db_ok db" "w \<in> set (workspaces db)" "uid \<noteq> []" "role \<noteq> ''superadmin''"
  shows "access_context db uid role w \<noteq> None \<longleftrightarrow> w_id w \<in> set (accessible_workspace_ids db uid role)"
proof (cases "role = ''platform_admin''")
  case True
  with assms(2,3) show ?thesis unfolding access_context_iff by (simp add: accessible_workspace_ids_def)
next
  case False
  have u: "v = w" if "v \<in> set (workspaces db)" "w_id v = w_id w" for v
    using assms(1,2) that by (auto simp: tenancy_db_ok_def distinct_map inj_on_def)
  have members: "(\<exists>m\<in>set (ws_members db). wm_workspace m = w_id w \<and> wm_user m = uid)
      \<longleftrightarrow> (\<exists>m\<in>set (ws_members db). w_id w = wm_workspace m \<and> wm_user m = uid)" by metis
  have ws: "(\<exists>v\<in>set (workspaces db). w_id w = w_id v \<and> Q (w_org v)) \<longleftrightarrow> Q (w_org w)" for Q
    using u assms(2) by (metis (no_types))
  have e: "w_id w \<in> set (accessible_workspace_ids db uid role) \<longleftrightarrow>
      (\<exists>m\<in>set (ws_members db). w_id w = wm_workspace m \<and> wm_user m = uid)
      \<or> (\<exists>v\<in>set (workspaces db). w_id w = w_id v \<and> (\<exists>m\<in>set (org_members db).
            om_org m = w_org v \<and> om_user m = uid \<and> org_admin_role (Some (om_role m))))"
    using False assms(3,4)
    by (simp add: accessible_workspace_ids_def image_iff) blast
  show ?thesis
    unfolding access_context_iff membership_iff org_admin_of_iff [OF assms(1)] e
    using False members ws [of "\<lambda>oid. \<exists>m\<in>set (org_members db). om_org m = oid \<and> om_user m = uid
        \<and> org_admin_role (Some (om_role m))"] by simp
qed

text \<open>The workspace of a request is one the user may access: it is a workspace of the database,
  the user is a member with the role recorded there, or acts for it as organisation or platform
  administrator; and an explicitly requested workspace that the user may access is the one
  chosen.\<close>

theorem resolved_workspace_accessible:
  assumes "tenancy_db_ok db" "rq_user r = Some u" "tn_workspace (resolve_tenancy db r) = Some w"
  shows "w \<in> set (workspaces db) \<and> access_context db (u_id u) (u_role u) w
           = Some (tn_ws_role (resolve_tenancy db r), tn_acting (resolve_tenancy db r))
    \<and> (\<forall>v. load_workspace db (trim (rq_header r)) = Some v \<longrightarrow> access_context db (u_id u) (u_role u) v \<noteq> None
         \<longrightarrow> w = v)"
proof -
  have cand: "first_candidate db u is = Some (v, c) \<Longrightarrow> v \<in> set (workspaces db)
      \<and> access_context db (u_id u) (u_role u) v = Some c" for "is" v c
    by (induction "is") (auto simp: load_workspace_def find_Some_iff split: option.splits if_splits)
  have fb: "v \<in> set (workspaces db) \<and> access_context db (u_id u) (u_role u) v = Some c"
    if f: "fallback_workspace db u = Some (v, c)" for v c
  proof (cases "first_accessible_workspace db (u_id u)")
    case None
    from f None have pl: "u_role u = ''platform_admin''" and v: "v \<in> set (workspaces db)" and c: "c = (None, True)"
      by (auto simp: fallback_workspace_def split: if_splits list.splits)
    have "membership_of db (u_id u) (w_id v) = None"
    proof (rule ccontr)
      assume "membership_of db (u_id u) (w_id v) \<noteq> None"
      then obtain m where m: "m \<in> set (ws_members db)" "wm_workspace m = w_id v" "wm_user m = u_id u"
        unfolding membership_iff by blast
      have "v \<in> set (concat (map (\<lambda>m. filter (\<lambda>w. w_id w = wm_workspace m) (workspaces db))
        (sort_key wm_joined (filter (\<lambda>m. wm_user m = u_id u) (ws_members db)))))"
        using m v by (auto intro!: bexI [of _ m])
      moreover from None have "concat (map (\<lambda>m. filter (\<lambda>w. w_id w = wm_workspace m) (workspaces db))
        (sort_key wm_joined (filter (\<lambda>m. wm_user m = u_id u) (ws_members db)))) = []"
        unfolding first_accessible_workspace_def case_list_None .
      ultimately show False by (metis empty_iff empty_set)
    qed
    with pl v c show ?thesis by (simp add: access_context_def)
  next
    case (Some x)
    from f Some have vx: "v = x" and c: "c = (map_option wm_role (membership_of db (u_id u) (w_id x)), False)"
      by (auto simp: fallback_workspace_def)
    from Some have "x \<in> set (concat (map (\<lambda>m. filter (\<lambda>w. w_id w = wm_workspace m) (workspaces db))
        (sort_key wm_joined (filter (\<lambda>m. wm_user m = u_id u) (ws_members db)))))"
      unfolding first_accessible_workspace_def by (cases "concat (map (\<lambda>m. filter (\<lambda>w. w_id w = wm_workspace m)
        (workspaces db)) (sort_key wm_joined (filter (\<lambda>m. wm_user m = u_id u) (ws_members db))))") simp_all
    then obtain m where "m \<in> set (ws_members db)" "wm_user m = u_id u" "x \<in> set (workspaces db)" "w_id x = wm_workspace m"
      by auto
    then have "membership_of db (u_id u) (w_id x) \<noteq> None" unfolding membership_iff by force
    with \<open>x \<in> set (workspaces db)\<close> vx c show ?thesis by (auto simp: access_context_def)
  qed
  define found where "found = (case first_candidate db u (candidates_of r) of
                          None \<Rightarrow> fallback_workspace db u | Some x \<Rightarrow> Some x)"
  have rt: "resolve_tenancy db r = (case found of None \<Rightarrow> no_tenancy (u_role u = ''platform_admin'')
      | Some (w, role, acting) \<Rightarrow> \<lparr>tn_workspace = Some w, tn_ws_role = role,
          tn_org_role = map_option om_role (org_membership_of db (u_id u) (w_org w)),
          tn_platform = (u_role u = ''platform_admin''), tn_acting = acting\<rparr>)"
    by (simp add: resolve_tenancy_def assms(2) found_def Let_def)
  from assms(3) obtain role acting where f: "found = Some (w, role, acting)"
    and t: "tn_ws_role (resolve_tenancy db r) = role" "tn_acting (resolve_tenancy db r) = acting"
    unfolding rt by (auto simp: no_tenancy_def split: option.splits)
  from f cand fb have w: "w \<in> set (workspaces db) \<and> access_context db (u_id u) (u_role u) w = Some (role, acting)"
    unfolding found_def by (auto split: option.splits)
  have "w = v" if l: "load_workspace db (trim (rq_header r)) = Some v" and a: "access_context db (u_id u) (u_role u) v \<noteq> None" for v
  proof -
    from l have "trim (rq_header r) \<noteq> []" by (auto simp: load_workspace_def)
    with l a have "\<exists>c. first_candidate db u (candidates_of r) = Some (v, c)"
      by (auto simp: candidates_of_def Let_def)
    with f show ?thesis by (auto simp: found_def)
  qed
  with w t show ?thesis by blast
qed

text \<open>A recovery session that claims the platform role passes as platform administrator in the
  workspace checks although the platform predicate refuses it; the comment on the predicate says
  recovery tokens are excluded.\<close>

theorem recovery_claim_grants_admin:
  assumes "rq_user r = Some u" "u_provider u = ''recovery''" "u_role u = ''platform_admin''"
  shows "require_platform_admin (rq_user r) = Forbidden ''Platform admin required''
    \<and> require_workspace_admin (resolve_tenancy db r) = Next"
  using assms by (auto simp: require_platform_admin_def is_platform_admin_user_def require_workspace_admin_def
      can_admin_def resolve_tenancy_def Let_def no_tenancy_def split: option.splits)

subsection \<open>Witnesses\<close>

definition sample_tenancy :: tenancy_db where
  "sample_tenancy = \<lparr>workspaces = [\<lparr>w_id = ''w1'', w_org = ''o''\<rparr>, \<lparr>w_id = ''w2'', w_org = ''o''\<rparr>],
     ws_members = [\<lparr>wm_workspace = ''w1'', wm_user = ''u'', wm_role = ''workspace_viewer'', wm_joined = 3\<rparr>],
     org_members = [\<lparr>om_org = ''o'', om_user = ''u'', om_role = ''org_admin''\<rparr>]\<rparr>"

definition sample_user :: user where
  "sample_user = \<lparr>u_id = ''u'', u_role = ''user'', u_provider = ''local''\<rparr>"

definition sample_tenancy_request :: request where
  "sample_tenancy_request = \<lparr>rq_user = Some sample_user, rq_header = '' w2 '', rq_query = [], rq_jwt_workspace = ''w1''\<rparr>"

lemma sample_tenancy_ok: "tenancy_db_ok sample_tenancy"
  by (simp add: tenancy_db_ok_def sample_tenancy_def)

theorem permission_bands_witness:
  "\<not> can_write ((no_tenancy False)\<lparr>tn_ws_role := Some ''workspace_viewer''\<rparr>)
   \<and> can_read ((no_tenancy False)\<lparr>tn_ws_role := Some ''workspace_viewer''\<rparr>)"
  using permission_bands [of "(no_tenancy False)\<lparr>tn_ws_role := Some ''workspace_viewer''\<rparr>" Viewer]
  by (simp add: is_org_admin_def no_tenancy_def org_admin_role_def role_order)

theorem access_agrees_with_enumeration_witness:
  "''w2'' \<in> set (accessible_workspace_ids sample_tenancy ''u'' ''user'')"
proof -
  have m: "\<lparr>w_id = ''w2'', w_org = ''o''\<rparr> \<in> set (workspaces sample_tenancy)" by (simp add: sample_tenancy_def)
  have "access_context sample_tenancy ''u'' ''user'' \<lparr>w_id = ''w2'', w_org = ''o''\<rparr> \<noteq> None" by code_simp
  with access_agrees_with_enumeration [OF sample_tenancy_ok m, of "''u''" "''user''"] show ?thesis by simp
qed

theorem resolved_workspace_accessible_witness:
  "tn_workspace (resolve_tenancy sample_tenancy sample_tenancy_request) = Some \<lparr>w_id = ''w2'', w_org = ''o''\<rparr>
   \<and> \<lparr>w_id = ''w2'', w_org = ''o''\<rparr> \<in> set (workspaces sample_tenancy)"
proof -
  have w: "tn_workspace (resolve_tenancy sample_tenancy sample_tenancy_request) = Some \<lparr>w_id = ''w2'', w_org = ''o''\<rparr>"
    by code_simp
  have u: "rq_user sample_tenancy_request = Some sample_user" by (simp add: sample_tenancy_request_def)
  from resolved_workspace_accessible [OF sample_tenancy_ok u w] w show ?thesis by blast
qed

theorem recovery_claim_grants_admin_witness:
  "require_workspace_admin (resolve_tenancy sample_tenancy (sample_tenancy_request
      \<lparr>rq_user := Some \<lparr>u_id = ''x'', u_role = ''platform_admin'', u_provider = ''recovery''\<rparr>\<rparr>)) = Next"
  using recovery_claim_grants_admin [of "sample_tenancy_request
      \<lparr>rq_user := Some \<lparr>u_id = ''x'', u_role = ''platform_admin'', u_provider = ''recovery''\<rparr>\<rparr>"] by simp

end
