(* ===== verification/SsrfPolicy.thy ===== *)
theory SsrfPolicy
  imports Prelude "HOL-Library.Word"
begin

text \<open>
  The allow and deny policy for user-supplied remote URLs (\<open>server/lib/ssrf-policy.js\<close>): which
  addresses and host names count as internal, the synchronous check of a URL and the check of
  every address its host resolves to.

  Addresses are 32-bit words, as the bit operations of the source make them. The URL parser of the
  host is the parameter \<open>parse_url\<close> and the resolver the parameter \<open>lookup\<close>; \<open>net.isIP\<close> is
  modelled.
\<close>

unbundle bit_operations_syntax

subsection \<open>IPv4\<close>

text \<open>\<open>/^\d{1,3}$/\<close>\<close>

definition octet_text :: "string \<Rightarrow> bool" where
  "octet_text p \<longleftrightarrow> list_all is_digit p \<and> 1 \<le> length p \<and> length p \<le> 3"

fun ipv4_parts :: "string list \<Rightarrow> 32 word \<Rightarrow> 32 word option" where
  "ipv4_parts [] n = Some n"
| "ipv4_parts (p # ps) n =
     (if \<not> octet_text p then None
      else if 255 < digits_nat p then None
      else ipv4_parts ps (push_bit 8 n OR of_nat (digits_nat p)))"

definition ipv4_to_int :: "string \<Rightarrow> 32 word option" where
  "ipv4_to_int ip = (let parts = split_on (CHR ''.'') ip in
     if length parts \<noteq> 4 then None else ipv4_parts parts 0)"

definition in_v4_cidr :: "32 word \<Rightarrow> string \<Rightarrow> nat \<Rightarrow> bool" where
  "in_v4_cidr n base bits =
     (case ipv4_to_int base of
        None \<Rightarrow> False
      | Some b \<Rightarrow> (let m = (if bits = 0 then 0 else push_bit (32 - bits) 0xffffffff) in (n AND m) = (b AND m)))"

definition blocked_cidrs :: "(string \<times> nat) list" where
  "blocked_cidrs = [(''0.0.0.0'', 8), (''10.0.0.0'', 8), (''100.64.0.0'', 10), (''127.0.0.0'', 8),
     (''169.254.0.0'', 16), (''172.16.0.0'', 12), (''192.0.0.0'', 24), (''192.168.0.0'', 16),
     (''198.18.0.0'', 15), (''224.0.0.0'', 4), (''240.0.0.0'', 4)]"

definition is_blocked_ipv4 :: "string \<Rightarrow> bool" where
  "is_blocked_ipv4 ip = (case ipv4_to_int ip of
     None \<Rightarrow> False | Some n \<Rightarrow> list_ex (\<lambda>(b, k). in_v4_cidr n b k) blocked_cidrs)"

subsection \<open>IPv6\<close>

text \<open>\<open>replace(/^\[|\]$/g, '')\<close>\<close>

definition strip_brackets :: "string \<Rightarrow> string" where
  "strip_brackets s =
     (let t = (case s of c # r \<Rightarrow> if c = CHR ''['' then r else s | [] \<Rightarrow> [])
      in if t \<noteq> [] \<and> last t = CHR '']'' then butlast t else t)"

definition dotted_quad_text :: "string \<Rightarrow> bool" where
  "dotted_quad_text s \<longleftrightarrow> (let ps = split_on (CHR ''.'') s in length ps = 4 \<and> list_all octet_text ps)"

text \<open>The tail that \<open>/(?:::ffff:|::)(\d{1,3}\.\d{1,3}\.\d{1,3}\.\d{1,3})$/\<close> captures: the longest dotted
  quad that ends the string after one of the two prefixes.\<close>

fun mapped_v4 :: "string \<Rightarrow> string option" where
  "mapped_v4 [] = None"
| "mapped_v4 (c # s) =
     (if starts_with (c # s) ''::ffff:'' \<and> dotted_quad_text (drop 7 (c # s)) then Some (drop 7 (c # s))
      else if starts_with (c # s) ''::'' \<and> dotted_quad_text (drop 2 (c # s)) then Some (drop 2 (c # s))
      else mapped_v4 s)"

definition is_blocked_ipv6 :: "string \<Rightarrow> bool" where
  "is_blocked_ipv6 ip =
     (let l = strip_brackets (to_lower ip) in
      if l = ''::1'' \<or> l = ''::'' then True
      else if starts_with l ''fe80'' \<or> starts_with l ''fe9'' \<or> starts_with l ''fea'' \<or> starts_with l ''feb'' then True
      else if starts_with l ''fc'' \<or> starts_with l ''fd'' then True
      else if starts_with l ''ff'' then True
      else (case mapped_v4 l of Some v \<Rightarrow> is_blocked_ipv4 v | None \<Rightarrow> False))"

subsection \<open>\<open>net.isIP\<close>\<close>

text \<open>Four decimal octets without leading zeros.\<close>

definition strict_octet :: "string \<Rightarrow> bool" where
  "strict_octet p \<longleftrightarrow> octet_text p \<and> digits_nat p \<le> 255 \<and> (length p = 1 \<or> hd p \<noteq> CHR ''0'')"

definition is_ipv4 :: "string \<Rightarrow> bool" where
  "is_ipv4 s \<longleftrightarrow> (let ps = split_on (CHR ''.'') s in length ps = 4 \<and> list_all strict_octet ps)"

definition hex_group :: "string \<Rightarrow> bool" where
  "hex_group p \<longleftrightarrow> 1 \<le> length p \<and> length p \<le> 4 \<and> list_all (\<lambda>c. radix_digit 16 c \<noteq> None) p"

text \<open>The number of 16-bit groups a list of parts stands for, when it is well formed; only the last
  part of an address may be a dotted quad, which stands for two.\<close>

fun groups_size :: "bool \<Rightarrow> string list \<Rightarrow> nat option" where
  "groups_size at_end [] = Some 0"
| "groups_size at_end [p] = (if hex_group p then Some 1 else if at_end \<and> is_ipv4 p then Some 2 else None)"
| "groups_size at_end (p # ps) = (if hex_group p then map_option Suc (groups_size at_end ps) else None)"

definition group_parts :: "string \<Rightarrow> string list" where
  "group_parts s = (if s = [] then [] else split_on (CHR '':'') s)"

fun split_double_colon :: "string \<Rightarrow> (string \<times> string) option" where
  "split_double_colon (a # b # s) =
     (if a = CHR '':'' \<and> b = CHR '':'' then Some ([], s)
      else map_option (\<lambda>(h, t). (a # h, t)) (split_double_colon (b # s)))"
| "split_double_colon _ = None"

definition is_ipv6 :: "string \<Rightarrow> bool" where
  "is_ipv6 s \<longleftrightarrow>
     (let addr = takeWhile (\<lambda>c. c \<noteq> CHR ''%'') s; zone = dropWhile (\<lambda>c. c \<noteq> CHR ''%'') s;
          zone_ok = (zone = [] \<or> (1 < length zone \<and> list_all (\<lambda>c. radix_digit 36 c \<noteq> None
                       \<or> c = CHR ''-'' \<or> c = CHR ''.'' \<or> c = CHR '':'') (tl zone)))
      in zone_ok \<and>
         (case split_double_colon addr of
            None \<Rightarrow> groups_size True (split_on (CHR '':'') addr) = Some 8
          | Some (h, t) \<Rightarrow>
              (case (groups_size False (group_parts h), groups_size True (group_parts t)) of
                 (Some m, Some n) \<Rightarrow> m + n \<le> 7
               | _ \<Rightarrow> False)))"

definition net_is_ip :: "string \<Rightarrow> nat" where
  "net_is_ip s = (if is_ipv4 s then 4 else if is_ipv6 s then 6 else 0)"

definition is_blocked_ip :: "jsval \<Rightarrow> bool" where
  "is_blocked_ip v =
     (case v of
        JStr ip \<Rightarrow> if ip = [] then True
          else if net_is_ip ip = 4 then is_blocked_ipv4 ip
          else if net_is_ip ip = 6 then is_blocked_ipv6 ip else True
      | _ \<Rightarrow> True)"

subsection \<open>Host names and URLs\<close>

definition ends_with :: "string \<Rightarrow> string \<Rightarrow> bool" where
  "ends_with s p \<longleftrightarrow> length p \<le> length s \<and> drop (length s - length p) s = p"

definition is_blocked_hostname :: "string \<Rightarrow> bool" where
  "is_blocked_hostname hostname =
     (let l = to_lower hostname; h = (if l \<noteq> [] \<and> last l = CHR ''.'' then butlast l else l)
      in h = [] \<or> h = ''localhost'' \<or> ends_with h ''.localhost'' \<or> ends_with h ''.local'' \<or> ends_with h ''.internal'')"

record url =
  url_protocol :: string
  url_hostname :: string
  url_origin :: string
  url_pathname :: string

datatype url_check = Safe url | Unsafe string string

definition app_relative_origin :: string where
  "app_relative_origin = ''https://media-control.invalid''"

definition app_relative_prefixes :: "string list" where
  "app_relative_prefixes = [''/player/'', ''/api/content/'']"

text \<open>\<open>parse_url\<close> takes the URL and the base, if any.\<close>

definition is_app_owned_relative_url :: "(string \<Rightarrow> string option \<Rightarrow> url option) \<Rightarrow> jsval \<Rightarrow> bool" where
  "is_app_owned_relative_url parse_url v =
     (case v of
        JStr u \<Rightarrow>
          if \<not> starts_with u ''/'' \<or> starts_with u ''//'' then False
          else (case parse_url u (Some app_relative_origin) of
                  None \<Rightarrow> False
                | Some p \<Rightarrow> url_origin p = app_relative_origin
                    \<and> list_ex (starts_with (url_pathname p)) app_relative_prefixes)
      | _ \<Rightarrow> False)"

definition check_remote_url_shape :: "(string \<Rightarrow> string option \<Rightarrow> url option) \<Rightarrow> jsval \<Rightarrow> url_check" where
  "check_remote_url_shape parse_url v =
     (case v of
        JStr u \<Rightarrow>
          if trim u = [] then Unsafe ''invalid_url'' ''Invalid URL format''
          else (case parse_url u None of
                  None \<Rightarrow> Unsafe ''invalid_url'' ''Invalid URL format''
                | Some p \<Rightarrow>
                    (let h = strip_brackets (url_hostname p) in
                     if url_protocol p \<noteq> ''http:'' \<and> url_protocol p \<noteq> ''https:''
                       then Unsafe ''bad_protocol'' ''URL must use http or https''
                     else if is_blocked_hostname h then Unsafe ''private_target'' ''Internal URLs are not allowed''
                     else if net_is_ip h \<noteq> 0 \<and> is_blocked_ip (JStr h)
                       then Unsafe ''private_target'' ''Internal URLs are not allowed''
                     else Safe p))
      | _ \<Rightarrow> Unsafe ''invalid_url'' ''Invalid URL format'')"

definition address_of :: "jsval \<Rightarrow> jsval" where
  "address_of a = (case a of JStr s \<Rightarrow> JStr s | _ \<Rightarrow> if truthy a then fld a ''address'' else a)"

text \<open>A resolver that throws is \<open>None\<close>.\<close>

definition assert_remote_url_safe ::
  "(string \<Rightarrow> string option \<Rightarrow> url option) \<Rightarrow> (string \<Rightarrow> jsval option) \<Rightarrow> jsval \<Rightarrow> url_check" where
  "assert_remote_url_safe parse_url lookup v =
     (case check_remote_url_shape parse_url v of
        Unsafe r e \<Rightarrow> Unsafe r e
      | Safe p \<Rightarrow>
          (let h = strip_brackets (url_hostname p) in
           if net_is_ip h \<noteq> 0 then Safe p
           else (case lookup h of
                   None \<Rightarrow> Unsafe ''dns_failed'' ''Could not resolve host''
                 | Some result \<Rightarrow>
                     (let addresses = (case result of JArr xs \<Rightarrow> xs | _ \<Rightarrow> [result]) in
                      if addresses = [] then Unsafe ''dns_failed'' ''Could not resolve host''
                      else if list_ex (\<lambda>a. is_blocked_ip (address_of a)) addresses
                        then Unsafe ''private_target'' ''Internal URLs are not allowed''
                      else Safe p))))"

subsection \<open>Address arithmetic\<close>

lemma masks_agree:
  assumes "k \<le> 32"
  shows "((n AND push_bit k (0xffffffff :: 32 word)) = (b AND push_bit k 0xffffffff)) \<longleftrightarrow> drop_bit k n = drop_bit k b"
proof -
  have m: "bit (0xffffffff :: 32 word) i \<longleftrightarrow> i < 32" for i
  proof -
    have "(0xffffffff :: 32 word) = mask 32" by (simp add: mask_eq_exp_minus_1)
    then show ?thesis by (simp only: bit_mask_iff) simp
  qed
  show ?thesis
  proof
    assume a: "(n AND push_bit k (0xffffffff :: 32 word)) = (b AND push_bit k 0xffffffff)"
    show "drop_bit k n = drop_bit k b"
    proof (rule bit_eqI)
      fix i assume "possible_bit TYPE(32 word) i"
      then have i: "i < 32" by simp
      show "bit (drop_bit k n) i = bit (drop_bit k b) i"
      proof (cases "k + i < 32")
        case True
        from a have "bit (n AND push_bit k (0xffffffff :: 32 word)) (k + i) = bit (b AND push_bit k 0xffffffff) (k + i)"
          by simp
        with True i m [of i] show ?thesis by (simp add: bit_and_iff bit_push_bit_iff bit_drop_bit_eq)
      next
        case False
        then show ?thesis by (auto simp: bit_drop_bit_eq dest: bit_imp_le_length)
      qed
    qed
  next
    assume a: "drop_bit k n = drop_bit k b"
    have "bit n i = bit b i" if "k \<le> i" for i
    proof -
      from a have "bit (drop_bit k n) (i - k) = bit (drop_bit k b) (i - k)" by simp
      with that show ?thesis by (simp add: bit_drop_bit_eq)
    qed
    then show "(n AND push_bit k (0xffffffff :: 32 word)) = (b AND push_bit k 0xffffffff)"
      by (intro bit_eqI) (auto simp: bit_and_iff bit_push_bit_iff)
  qed
qed

lemma word_drop_bit_eq: "drop_bit k n = drop_bit k b \<longleftrightarrow> unat (n :: 32 word) div 2 ^ k = unat b div 2 ^ k"
proof -
  have "drop_bit k n = drop_bit k b \<longleftrightarrow> unat (drop_bit k n) = unat (drop_bit k b)"
    by (rule word_unat_eq_iff)
  moreover have "unat (drop_bit k x) = unat x div 2 ^ k" for x :: "32 word"
    by (subst unat_drop_bit_eq) (rule drop_bit_eq_div)
  ultimately show ?thesis by simp
qed

text \<open>The integer of four octets.\<close>

definition quad :: "nat \<Rightarrow> nat \<Rightarrow> nat \<Rightarrow> nat \<Rightarrow> nat" where
  "quad a b c d = ((a * 256 + b) * 256 + c) * 256 + d"

lemma shift_in_octet:
  fixes n :: "32 word"
  assumes "unat n < 2 ^ 24" "d < 256"
  shows "unat (push_bit 8 n OR of_nat d) = unat n * 256 + d"
proof -
  have d: "unat (of_nat d :: 32 word) = d" using assms(2) by (simp add: unat_of_nat)
  have disj: "push_bit 8 n AND of_nat d = 0"
  proof (rule bit_eqI)
    fix i assume "possible_bit TYPE(32 word) i"
    have "\<not> bit d i" if "8 \<le> i"
    proof -
      have "d < 2 ^ i" using assms(2) that power_increasing [of 8 i "2 :: nat"] by simp
      then show ?thesis by (simp add: bit_iff_odd)
    qed
    then show "bit (push_bit 8 n AND of_nat d) i = bit 0 i"
      by (auto simp: bit_and_iff bit_push_bit_iff bit_of_nat_iff)
  qed
  have p: "unat (push_bit 8 n) = unat n * 256"
    using assms(1) by (simp add: push_bit_eq_mult unat_word_ariths unat_of_nat)
  have "push_bit 8 n OR of_nat d = push_bit 8 n + of_nat d"
    using disjunctive_add_eq_or [OF disj] by simp
  also have "unat \<dots> = unat (push_bit 8 n) + unat (of_nat d :: 32 word)"
    using assms p d by (simp add: unat_word_ariths)
  finally show ?thesis by (simp add: p d)
qed

lemma code_digit_char: "d < 10 \<Longrightarrow> code (digit_char d) = 48 + d"
  by (simp add: digit_char_def code_char_of)

lemma nat_str_digits: "list_all is_digit (nat_str n) \<and> digits_nat (nat_str n) = n"
proof (induction n rule: nat_str.induct)
  case (1 n)
  show ?case
  proof (cases "n < 10")
    case True
    then show ?thesis
      by (simp add: nat_str.simps [of n] is_digit_def code_digit_char digits_nat_def)
  next
    case False
    have m: "n mod 10 < 10" by simp
    from 1 [OF False] have "list_all is_digit (nat_str (n div 10))" "digits_nat (nat_str (n div 10)) = n div 10"
      by blast+
    moreover have "is_digit (digit_char (n mod 10))" using code_digit_char [OF m] m by (simp add: is_digit_def)
    ultimately show ?thesis using False code_digit_char [OF m]
      by (simp add: nat_str.simps [of n] digits_nat_def)
  qed
qed

lemma nat_str_length: "1 \<le> length (nat_str n)" "n < 10 \<Longrightarrow> length (nat_str n) = 1"
  "n < 100 \<Longrightarrow> length (nat_str n) \<le> 2" "n < 1000 \<Longrightarrow> length (nat_str n) \<le> 3"
proof -
  have a: "length (nat_str n) = 1" if "n < 10" for n using that by (simp add: nat_str.simps)
  have b: "length (nat_str n) \<le> 2" if "n < 100" for n
    using that a [of "n div 10"] a [of n] by (cases "n < 10") (simp_all add: nat_str.simps [of n])
  have c: "length (nat_str n) \<le> 3" if "n < 1000" for n
    using that b [of "n div 10"] a [of n] by (cases "n < 10") (simp_all add: nat_str.simps [of n])
  have d: "1 \<le> length (nat_str n)" by (simp add: nat_str.simps [of n])
  show "1 \<le> length (nat_str n)" "n < 10 \<Longrightarrow> length (nat_str n) = 1"
    "n < 100 \<Longrightarrow> length (nat_str n) \<le> 2" "n < 1000 \<Longrightarrow> length (nat_str n) \<le> 3"
    using a b c d by blast+
qed

lemma not_digit_in: "\<not> is_digit x \<Longrightarrow> x \<notin> set (nat_str n)"
  using nat_str_digits [of n] by (auto simp: list_all_iff)

lemma octet_digits:
  assumes "d < 256"
  shows "octet_text (nat_str d) \<and> digits_nat (nat_str d) = d \<and> CHR ''.'' \<notin> set (nat_str d)"
proof -
  have "\<not> is_digit (CHR ''.'')" by (simp add: is_digit_def code_def)
  with assms nat_str_digits [of d] nat_str_length [of d] not_digit_in [of "CHR ''.''" d]
  show ?thesis by (simp add: octet_text_def)
qed

lemma split_on_join: "x \<notin> set s \<Longrightarrow> split_on x (s @ x # t) = s # split_on x t"
  by (induction s) auto

lemma split_on_none: "x \<notin> set s \<Longrightarrow> split_on x s = [s]"
  by (induction s) auto

definition dotted :: "nat \<Rightarrow> nat \<Rightarrow> nat \<Rightarrow> nat \<Rightarrow> string" where
  "dotted a b c d = join_with ''.'' [nat_str a, nat_str b, nat_str c, nat_str d]"

lemma split_dotted:
  assumes "a < 256" "b < 256" "c < 256" "d < 256"
  shows "split_on (CHR ''.'') (dotted a b c d) = [nat_str a, nat_str b, nat_str c, nat_str d]"
  using assms by (simp add: dotted_def split_on_join split_on_none octet_digits)

lemma ipv4_to_int_dotted:
  assumes "a < 256" "b < 256" "c < 256" "d < 256"
  obtains n where "ipv4_to_int (dotted a b c d) = Some n" "unat n = quad a b c d"
proof -
  let ?s = "\<lambda>n x. push_bit 8 n OR of_nat x :: 32 word"
  have 1: "unat (?s 0 a) = a" using shift_in_octet [of 0 a] assms(1) by simp
  have 2: "unat (?s (?s 0 a) b) = a * 256 + b"
    using shift_in_octet [of "?s 0 a" b] 1 assms by simp
  have 3: "unat (?s (?s (?s 0 a) b) c) = (a * 256 + b) * 256 + c"
    using shift_in_octet [of "?s (?s 0 a) b" c] 2 assms by simp
  have "(a * 256 + b) * 256 + c < 2 ^ 24" using assms by simp
  then have 4: "unat (?s (?s (?s (?s 0 a) b) c) d) = quad a b c d"
    using shift_in_octet [of "?s (?s (?s 0 a) b) c" d] 3 assms by (simp add: quad_def)
  have "ipv4_to_int (dotted a b c d) = Some (?s (?s (?s (?s 0 a) b) c) d)"
    unfolding ipv4_to_int_def Let_def split_dotted [OF assms]
    using assms by (simp add: octet_digits not_less)
  then show ?thesis by (rule that) (rule 4)
qed

lemma in_v4_cidr_iff:
  assumes "ipv4_to_int base = Some b" "0 < k" "k \<le> 32"
  shows "in_v4_cidr n base k \<longleftrightarrow> unat n div 2 ^ (32 - k) = unat b div 2 ^ (32 - k)"
  using assms masks_agree [of "32 - k" n b] word_drop_bit_eq [of "32 - k" n b]
  by (simp add: in_v4_cidr_def)

lemma quad_div:
  assumes "c < 256" "d < 256"
  shows "quad a b c d div 2 ^ (16 + k) = (a * 256 + b) div 2 ^ k"
    and "quad a b c d div 2 ^ 8 = (a * 256 + b) * 256 + c"
proof -
  have "quad a b c d div 2 ^ 8 = (a * 256 + b) * 256 + c" using assms(2) by (simp add: quad_def)
  moreover have "((a * 256 + b) * 256 + c) div 2 ^ 8 = a * 256 + b" using assms(1) by simp
  ultimately have "quad a b c d div 2 ^ 16 = a * 256 + b"
    using div_mult2_eq [of "quad a b c d" "2 ^ 8" "2 ^ 8"] by simp
  then show "quad a b c d div 2 ^ (16 + k) = (a * 256 + b) div 2 ^ k"
    by (simp add: power_add div_mult2_eq)
  show "quad a b c d div 2 ^ 8 = (a * 256 + b) * 256 + c" by fact
qed

text \<open>The internal ranges, octet by octet.\<close>

definition internal_quad :: "nat \<Rightarrow> nat \<Rightarrow> nat \<Rightarrow> bool" where
  "internal_quad a b c \<longleftrightarrow> a = 0 \<or> a = 10 \<or> (a = 100 \<and> 64 \<le> b \<and> b < 128) \<or> a = 127
     \<or> (a = 169 \<and> b = 254) \<or> (a = 172 \<and> 16 \<le> b \<and> b < 32) \<or> (a = 192 \<and> b = 0 \<and> c = 0)
     \<or> (a = 192 \<and> b = 168) \<or> (a = 198 \<and> 18 \<le> b \<and> b < 20) \<or> 224 \<le> a"

lemma bases:
  "ipv4_to_int ''0.0.0.0'' = Some 0" "ipv4_to_int ''10.0.0.0'' = Some 0x0a000000"
  "ipv4_to_int ''100.64.0.0'' = Some 0x64400000" "ipv4_to_int ''127.0.0.0'' = Some 0x7f000000"
  "ipv4_to_int ''169.254.0.0'' = Some 0xa9fe0000" "ipv4_to_int ''172.16.0.0'' = Some 0xac100000"
  "ipv4_to_int ''192.0.0.0'' = Some 0xc0000000" "ipv4_to_int ''192.168.0.0'' = Some 0xc0a80000"
  "ipv4_to_int ''198.18.0.0'' = Some 0xc6120000" "ipv4_to_int ''224.0.0.0'' = Some 0xe0000000"
  "ipv4_to_int ''240.0.0.0'' = Some 0xf0000000"
  by code_simp+

lemma nat_div_eq: "0 < k \<Longrightarrow> (x :: nat) div k = q \<longleftrightarrow> k * q \<le> x \<and> x < k * q + k"
proof -
  assume k: "0 < k"
  have "k * (x div k) + x mod k = x" "x mod k < k" using k by simp_all
  moreover have "x div k = q" if "k * q \<le> x" "x < k * q + k"
    using that k by (intro div_nat_eqI) simp_all
  ultimately show ?thesis by (metis le_add1 nat_add_left_cancel_less)
qed

lemma radix_less:
  assumes "b < 256" "B < 256"
  shows "a * 256 + b < A * 256 + (B :: nat) \<longleftrightarrow> a < A \<or> (a = A \<and> b < B)"
proof (cases a A rule: linorder_cases)
  case less
  then have "a * 256 + 256 \<le> A * 256" by simp
  with less assms show ?thesis by linarith
next
  case greater
  then have "A * 256 + 256 \<le> a * 256" by simp
  with greater assms show ?thesis by linarith
qed simp

lemma radix_le:
  assumes "b < 256" "B < 256"
  shows "A * 256 + (B :: nat) \<le> a * 256 + b \<longleftrightarrow> A < a \<or> (A = a \<and> B \<le> b)"
  using radix_less [OF assms, of a A] by linarith

lemma radix_eq:
  assumes "b < 256" "B < 256"
  shows "a * 256 + b = A * 256 + (B :: nat) \<longleftrightarrow> a = A \<and> b = B"
  unfolding order_eq_iff [of "a * 256 + b"] not_less [symmetric] radix_less [OF assms]
  unfolding not_less radix_le [OF assms] using assms by auto

lemma radix_block:
  assumes "b < 256" "L < 256" "H < 256" "0 < k" "k * q = A * 256 + L" "k * q + k = A' * 256 + (H :: nat)"
  shows "(a * 256 + b) div k = q \<longleftrightarrow> (A < a \<or> (A = a \<and> L \<le> b)) \<and> (a < A' \<or> (a = A' \<and> b < H))"
  unfolding nat_div_eq [OF assms(4)] assms(6)
  unfolding assms(5) radix_le [OF assms(1,2)] radix_less [OF assms(1,3)] by (rule refl)

lemma cidr_octets:
  assumes "a < 256" "b < 256" "c < 256" "d < 256" "unat n = quad a b c d"
  shows "in_v4_cidr n ''0.0.0.0'' 8 \<longleftrightarrow> a = 0" "in_v4_cidr n ''10.0.0.0'' 8 \<longleftrightarrow> a = 10"
    "in_v4_cidr n ''100.64.0.0'' 10 \<longleftrightarrow> a = 100 \<and> 64 \<le> b \<and> b < 128"
    "in_v4_cidr n ''127.0.0.0'' 8 \<longleftrightarrow> a = 127" "in_v4_cidr n ''169.254.0.0'' 16 \<longleftrightarrow> a = 169 \<and> b = 254"
    "in_v4_cidr n ''172.16.0.0'' 12 \<longleftrightarrow> a = 172 \<and> 16 \<le> b \<and> b < 32"
    "in_v4_cidr n ''192.0.0.0'' 24 \<longleftrightarrow> a = 192 \<and> b = 0 \<and> c = 0"
    "in_v4_cidr n ''192.168.0.0'' 16 \<longleftrightarrow> a = 192 \<and> b = 168"
    "in_v4_cidr n ''198.18.0.0'' 15 \<longleftrightarrow> a = 198 \<and> 18 \<le> b \<and> b < 20"
    "in_v4_cidr n ''224.0.0.0'' 4 \<longleftrightarrow> 224 \<le> a \<and> a < 240" "in_v4_cidr n ''240.0.0.0'' 4 \<longleftrightarrow> 240 \<le> a"
proof -
  note q = quad_div [OF assms(3,4), of a b]
  have g: "unat n div 2 ^ (16 + k) = (a * 256 + b) div 2 ^ k" for k
    unfolding assms(5) by (rule q(1))
  have h1: "unat n div 16777216 = a" using g [of 8] assms(2) by simp
  have h2: "unat n div 4194304 = (a * 256 + b) div 64" using g [of 6] by simp
  have h3: "unat n div 1048576 = (a * 256 + b) div 16" using g [of 4] by simp
  have h4: "unat n div 131072 = (a * 256 + b) div 2" using g [of 1] by simp
  have h5: "unat n div 65536 = a * 256 + b" using g [of 0] by simp
  have h6: "unat n div 268435456 = (a * 256 + b) div 4096" using g [of 12] by simp
  have h7: "unat n div 256 = (a * 256 + b) * 256 + c" using q(2) unfolding assms(5) by simp
  note h = h1 h2 h3 h4 h5 h6 h7
  note i = in_v4_cidr_iff [OF bases(1)] in_v4_cidr_iff [OF bases(2)] in_v4_cidr_iff [OF bases(3)]
    in_v4_cidr_iff [OF bases(4)] in_v4_cidr_iff [OF bases(5)] in_v4_cidr_iff [OF bases(6)]
    in_v4_cidr_iff [OF bases(7)] in_v4_cidr_iff [OF bases(8)] in_v4_cidr_iff [OF bases(9)]
    in_v4_cidr_iff [OF bases(10)] in_v4_cidr_iff [OF bases(11)]
  show "in_v4_cidr n ''0.0.0.0'' 8 \<longleftrightarrow> a = 0" using i(1) [of 8 n] h(1) by simp
  show "in_v4_cidr n ''10.0.0.0'' 8 \<longleftrightarrow> a = 10" using i(2) [of 8 n] h(1) by simp
  show "in_v4_cidr n ''127.0.0.0'' 8 \<longleftrightarrow> a = 127" using i(4) [of 8 n] h(1) by simp
  have "in_v4_cidr n ''100.64.0.0'' 10 \<longleftrightarrow> (a * 256 + b) div 64 = 401" using i(3) [of 10 n] h(2) by simp
  then show "in_v4_cidr n ''100.64.0.0'' 10 \<longleftrightarrow> a = 100 \<and> 64 \<le> b \<and> b < 128"
    using radix_block [OF assms(2), of 64 128 64 401 100 100 a] by auto
  have "in_v4_cidr n ''169.254.0.0'' 16 \<longleftrightarrow> a * 256 + b = 43518" using i(5) [of 16 n] h(5) by simp
  then show "in_v4_cidr n ''169.254.0.0'' 16 \<longleftrightarrow> a = 169 \<and> b = 254" using radix_eq [OF assms(2), of 254 a 169] by simp
  have "in_v4_cidr n ''172.16.0.0'' 12 \<longleftrightarrow> (a * 256 + b) div 16 = 2753" using i(6) [of 12 n] h(3) by simp
  then show "in_v4_cidr n ''172.16.0.0'' 12 \<longleftrightarrow> a = 172 \<and> 16 \<le> b \<and> b < 32"
    using radix_block [OF assms(2), of 16 32 16 2753 172 172 a] by auto
  have "in_v4_cidr n ''192.0.0.0'' 24 \<longleftrightarrow> (a * 256 + b) * 256 + c = 12582912" using i(7) [of 24 n] h(7) by simp
  then show "in_v4_cidr n ''192.0.0.0'' 24 \<longleftrightarrow> a = 192 \<and> b = 0 \<and> c = 0"
    using radix_eq [OF assms(3), of 0 "a * 256 + b" "192 * 256"] radix_eq [OF assms(2), of 0 a 192] by simp
  have "in_v4_cidr n ''192.168.0.0'' 16 \<longleftrightarrow> a * 256 + b = 49320" using i(8) [of 16 n] h(5) by simp
  then show "in_v4_cidr n ''192.168.0.0'' 16 \<longleftrightarrow> a = 192 \<and> b = 168" using radix_eq [OF assms(2), of 168 a 192] by simp
  have "in_v4_cidr n ''198.18.0.0'' 15 \<longleftrightarrow> (a * 256 + b) div 2 = 25353" using i(9) [of 15 n] h(4) by simp
  then show "in_v4_cidr n ''198.18.0.0'' 15 \<longleftrightarrow> a = 198 \<and> 18 \<le> b \<and> b < 20"
    using radix_block [OF assms(2), of 18 20 2 25353 198 198 a] by auto
  have "in_v4_cidr n ''224.0.0.0'' 4 \<longleftrightarrow> (a * 256 + b) div 4096 = 14" using i(10) [of 4 n] h(6) by simp
  then show "in_v4_cidr n ''224.0.0.0'' 4 \<longleftrightarrow> 224 \<le> a \<and> a < 240" using radix_block [OF assms(2), of 0 0 4096 14 224 240 a] by auto
  have "in_v4_cidr n ''240.0.0.0'' 4 \<longleftrightarrow> (a * 256 + b) div 4096 = 15" using i(11) [of 4 n] h(6) by simp
  then show "in_v4_cidr n ''240.0.0.0'' 4 \<longleftrightarrow> 240 \<le> a" using radix_block [OF assms(2), of 0 0 4096 15 240 256 a] assms(1) by auto
qed

text \<open>The word arithmetic of the CIDR masks is right: a dotted quad is blocked exactly when its
  octets lie in one of the listed internal ranges.\<close>

theorem blocked_ipv4_ranges:
  assumes "a < 256" "b < 256" "c < 256" "d < 256"
  shows "is_blocked_ipv4 (dotted a b c d) \<longleftrightarrow> internal_quad a b c"
proof -
  obtain n where n: "ipv4_to_int (dotted a b c d) = Some n" "unat n = quad a b c d"
    by (rule ipv4_to_int_dotted [OF assms])
  have t: "(224 \<le> a \<and> a < 240 \<or> 240 \<le> a \<or> False) = (224 \<le> a)" by auto
  show ?thesis
    unfolding is_blocked_ipv4_def n(1) blocked_cidrs_def option.case list_ex_Cons_iff list_ex_Nil_iff prod.case
      cidr_octets [OF assms n(2)] internal_quad_def
    by (simp only: t)
qed

lemma blocked_ipv4_ranges_witness:
  "is_blocked_ipv4 (dotted 172 31 255 1) \<and> \<not> is_blocked_ipv4 (dotted 172 32 0 1)"
  using blocked_ipv4_ranges [of 172 31 255 1] blocked_ipv4_ranges [of 172 32 0 1]
  by (simp add: internal_quad_def)


text \<open>A parser that knows one URL, and a resolver that knows its host.\<close>

definition sample_url :: url where
  "sample_url = \<lparr>url_protocol = ''https:'', url_hostname = ''cdn.example'', url_origin = ''https://cdn.example'',
     url_pathname = ''/''\<rparr>"

definition sample_parse :: "string \<Rightarrow> string option \<Rightarrow> url option" where
  "sample_parse u b = (if u = ''https://cdn.example/'' then Some sample_url else None)"

definition sample_lookup :: "string \<Rightarrow> jsval option" where
  "sample_lookup h = (if h = ''cdn.example'' then Some (JArr [JStr ''93.184.216.34'']) else None)"


text \<open>The URL standard serialises the mapped address \<open>::ffff:127.0.0.1\<close> as \<open>::ffff:7f00:1\<close>. The policy delegates
  only the dotted spelling to the IPv4 ranges, so that the loopback address passes in the spelling
  the parser produces.\<close>

lemma hex_mapped_loopback_passes:
  "is_blocked_ip (JStr ''::ffff:127.0.0.1'')"
  "net_is_ip ''::ffff:7f00:1'' = 6"
  "\<not> is_blocked_ip (JStr ''::ffff:7f00:1'')"
  by code_simp+

text \<open>\<open>fe80::/10\<close> runs from \<open>fe80\<close> to \<open>febf\<close>; the prefixes tested leave out \<open>fe81\<close> to \<open>fe8f\<close>.\<close>

lemma link_local_gap:
  "is_blocked_ip (JStr ''fe80::1'')"
  "\<not> is_blocked_ip (JStr ''fe81::1'')"
  by code_simp+

end
