(* ===== verification/StateTypes.thy ===== *)
theory StateTypes
  imports CommandModelProps Transport
begin

text \<open>
  Where the display states and the transport coordinator meet: what the columns of a stored state may hold,
  the query by which the dashboard socket gives the coordinator a state (\<open>server/ws/dashboardSocket.js\<close>),
  and what becomes of a relative play or pause.
\<close>

subsection \<open>What the columns hold\<close>

definition typed_row :: "display_row \<Rightarrow> bool" where
  "typed_row r \<longleftrightarrow>
     (\<forall>k\<in>set boolean_cols. fld (JObj (ds_cols r)) k \<in> {JNull, jint 0, jint 1})
     \<and> (\<forall>k\<in>set numeric_cols. fld (JObj (ds_cols r)) k = JNull \<or> (\<exists>q. fld (JObj (ds_cols r)) k = JNum (Fin q))
          \<or> k = ''current_time'' \<and> (\<exists>t. fld (JObj (ds_cols r)) k = JStr (sql_current_time t)))"

lemma typed_cols_known: "set boolean_cols \<subseteq> set state_cols" "set numeric_cols \<subseteq> set state_cols"
  "k \<in> set numeric_cols \<Longrightarrow> k \<notin> set boolean_cols" "k \<in> set numeric_cols \<Longrightarrow> k \<noteq> ''error_state''"
  "k \<in> set boolean_cols \<Longrightarrow> k \<noteq> ''error_state''" "k \<in> set boolean_cols \<Longrightarrow> k \<noteq> ''current_time''"
  by (auto simp: boolean_cols_def numeric_cols_def state_cols_def)

lemma boolean_scalar: "k \<in> set boolean_cols \<Longrightarrow> to_state_scalar k v \<in> {JNull, jint 0, jint 1}"
  by (simp add: to_state_scalar_def)

lemma numeric_scalar:
  assumes "k \<in> set numeric_cols"
  shows "to_state_scalar k v = JNull \<or> (\<exists>q. to_state_scalar k v = JNum (Fin q))"
  using assms typed_cols_known(3) [OF assms]
  by (cases "to_num v") (simp_all add: to_state_scalar_def)

lemma if_cases3: "c \<in> A \<Longrightarrow> n \<in> A \<Longrightarrow> JNull \<in> A \<Longrightarrow> (if P then n else if Q then JNull else c) \<in> A"
  by simp

lemma merged_typed:
  assumes "\<And>x. r = Some x \<Longrightarrow> typed_row x"
  shows "typed_row (merged_row now st rv r)"
proof -
  have "fld (JObj (ds_cols (merged_row now st rv r))) k \<in> {JNull, jint 0, jint 1}" if k: "k \<in> set boolean_cols" for k
  proof -
    have "k \<in> set state_cols" using k typed_cols_known(1) by blast
    note m = merged_col [OF this, of now st rv r]
    have "old_col now r k \<in> {JNull, jint 0, jint 1}"
      using assms k typed_cols_known(6) [OF k] by (cases r) (simp_all add: old_col_def typed_row_def)
    then show ?thesis unfolding m by (rule if_cases3 [OF _ boolean_scalar [OF k]]) simp
  qed
  moreover have "fld (JObj (ds_cols (merged_row now st rv r))) k = JNull
      \<or> (\<exists>q. fld (JObj (ds_cols (merged_row now st rv r))) k = JNum (Fin q))
      \<or> k = ''current_time'' \<and> (\<exists>t. fld (JObj (ds_cols (merged_row now st rv r))) k = JStr (sql_current_time t))"
    if k: "k \<in> set numeric_cols" for k
  proof -
    have "k \<in> set state_cols" using k typed_cols_known(2) by blast
    note m = merged_col [OF this, of now st rv r]
    have "old_col now r k = JNull \<or> (\<exists>q. old_col now r k = JNum (Fin q))
        \<or> k = ''current_time'' \<and> (\<exists>t. old_col now r k = JStr (sql_current_time t))"
      using assms k by (cases r) (auto simp: old_col_def typed_row_def)
    then have c: "old_col now r k \<in> {v. v = JNull \<or> (\<exists>q. v = JNum (Fin q)) \<or> k = ''current_time'' \<and> (\<exists>t. v = JStr (sql_current_time t))}"
      by (rule CollectI)
    have n: "to_state_scalar k (fld st k) \<in> {v. v = JNull \<or> (\<exists>q. v = JNum (Fin q)) \<or> k = ''current_time'' \<and> (\<exists>t. v = JStr (sql_current_time t))}"
      using numeric_scalar [OF k, of "fld st k"] by blast
    have "fld (JObj (ds_cols (merged_row now st rv r))) k
        \<in> {v. v = JNull \<or> (\<exists>q. v = JNum (Fin q)) \<or> k = ''current_time'' \<and> (\<exists>t. v = JStr (sql_current_time t))}"
      unfolding m by (rule if_cases3 [OF c n]) blast
    then show ?thesis by (rule CollectD)
  qed
  ultimately show ?thesis unfolding typed_row_def by blast
qed

lemma blank_typed: "typed_row \<lparr>ds_cols = scalar_cols JUndef, ds_heartbeat = h, ds_revision = v, ds_updated = u\<rparr>"
proof -
  have "fld (JObj (scalar_cols JUndef)) k \<in> {JNull, JUndef}" for k
    by (simp add: fld_scalar_cols to_state_scalar_def is_nullish_def)
  moreover have "k \<in> set state_cols \<Longrightarrow> fld (JObj (scalar_cols JUndef)) k = JNull" for k
    by (simp add: fld_scalar_cols to_state_scalar_def is_nullish_def)
  ultimately show ?thesis using typed_cols_known(1,2) by (auto simp: typed_row_def)
qed

definition rows_typed :: "store \<Rightarrow> bool" where
  "rows_typed s \<longleftrightarrow> (\<forall>key row. map_of (displays s) key = Some row \<longrightarrow> typed_row row)"

lemma merge_rows_typed:
  assumes "rows_typed s" "merge_display_state e now ty tid st s = (r, s')"
  shows "rows_typed s'"
proof -
  let ?g = "enforce_audio_authority e ty tid st" and ?old = "map_of (displays s) (ty, tid)"
  have t: "typed_row (merged_row now ?g rv ?old)" for rv
    using assms(1) by (intro merged_typed) (auto simp: rows_typed_def)
  from assms(2) have "displays s' = displays s
    \<or> (\<exists>rv. displays s' = AList.update (ty, tid) (merged_row now ?g rv ?old) (displays s))"
    by (auto simp: merge_display_state_def Let_def split: option.splits if_splits)
  then show ?thesis
  proof
    assume "displays s' = displays s"
    with assms(1) show ?thesis by (simp add: rows_typed_def)
  next
    assume "\<exists>rv. displays s' = AList.update (ty, tid) (merged_row now ?g rv ?old) (displays s)"
    then obtain rv where d: "displays s' = AList.update (ty, tid) (merged_row now ?g rv ?old) (displays s)" ..
    show ?thesis unfolding rows_typed_def d update_conv'
      using assms(1) t by (auto simp: rows_typed_def split: if_splits)
  qed
qed

lemma beat_rows_typed: "rows_typed s \<Longrightarrow> rows_typed (record_heartbeat clock ty tid ts s)"
proof -
  assume s: "rows_typed s"
  have u: "typed_row (x\<lparr>ds_heartbeat := h, ds_updated := u\<rparr>) = typed_row x" for x h u by (simp add: typed_row_def)
  show ?thesis using s blank_typed
    by (auto simp: rows_typed_def record_heartbeat_def Let_def update_conv' u split: if_splits option.splits)
qed

lemma step_rows_typed:
  assumes "cm_step e s s'" "keys_ok (map row_key (logs s))" "rows_typed s"
  shows "rows_typed s'"
  using assms(1)
proof (rule cm_stepE)
  fix now a r assume "ingest_command e now a s = (r, s')"
  from ingest_extends(3) [OF this assms(2)] assms(3) show ?thesis by (simp add: rows_typed_def)
next
  fix now cid ok err st ty tid r assume "record_ack e now cid ok err st ty tid s = (r, s')"
  from ack_displays [OF this] show ?thesis
  proof
    assume "displays s' = displays s"
    with assms(3) show ?thesis by (simp add: rows_typed_def)
  next
    assume "\<exists>st' s1 r'. displays s1 = displays s \<and> merge_display_state e now ty tid st' s1 = (r', s')"
    then obtain st' s1 r' where d: "displays s1 = displays s"
      and m: "merge_display_state e now ty tid st' s1 = (r', s')" by blast
    from assms(3) d have "rows_typed s1" by (simp add: rows_typed_def)
    from merge_rows_typed [OF this m] show ?thesis .
  qed
next
  fix now es assume "ack_sweep e now s = (es, s')"
  from ack_sweep_rows [OF this assms(2)] assms(3) show ?thesis by (simp add: rows_typed_def)
next
  fix now ty tid st r assume "merge_display_state e now ty tid st s = (r, s')"
  from merge_rows_typed [OF assms(3) this] show ?thesis .
next
  fix clock ty tid ts assume "record_heartbeat clock ty tid ts s = s'"
  with beat_rows_typed [OF assms(3)] show ?thesis by blast
qed

lemma reachable_rows_typed: "cm_reachable e s \<Longrightarrow> rows_typed s"
proof (induction rule: cm_reachable.induct)
  case (start nodes)
  show ?case by (simp add: rows_typed_def)
next
  case (step s s')
  from step_rows_typed [OF step.hyps(2) reachable_keys [OF step.hyps(1)] step.IH] show ?case .
qed

text \<open>In every reachable state the columns of a display state are typed: a boolean column holds 0, 1 or null, a
  numeric column a finite number or null. The one exception is the playback position, which may hold the time of
  day as text, left there by an update that reported no position.\<close>

theorem display_columns_typed:
  assumes "cm_reachable e s" "map_of (displays s) key = Some row"
  shows "(\<forall>k\<in>set boolean_cols. fld (JObj (ds_cols row)) k \<in> {JNull, jint 0, jint 1})
     \<and> (\<forall>k\<in>set numeric_cols. fld (JObj (ds_cols row)) k = JNull \<or> (\<exists>q. fld (JObj (ds_cols row)) k = JNum (Fin q))
          \<or> k = ''current_time'' \<and> (\<exists>t. fld (JObj (ds_cols row)) k = JStr (sql_current_time t)))"
  using reachable_rows_typed [OF assms(1)] assms(2) unfolding rows_typed_def typed_row_def by blast

subsection \<open>The state the coordinator is given\<close>

definition coordinator_cols :: "string list" where
  "coordinator_cols = [''current_content_id'', ''current_asset_id'', ''slide_index'', ''slide_count'',
     ''current_time'', ''duration'', ''paused'', ''playback_revision'', ''command_revision'']"

text \<open>The bare name \<open>current_time\<close> selects the clock here too.\<close>

definition read_display_state :: "rat \<Rightarrow> string \<Rightarrow> store \<Rightarrow> jsval" where
  "read_display_state now dev s =
     (case map_of (displays s) (''display'', dev) of
        None \<Rightarrow> JNull
      | Some row \<Rightarrow> JObj (map (\<lambda>k. (k, if k = ''current_time'' then JStr (sql_current_time now) else fld (JObj (ds_cols row)) k))
            coordinator_cols @ [(''state_revision'', jint (ds_revision row))]))"

lemma read_paused:
  "fld (js_or (read_display_state now dev s) (JObj [])) ''paused'' =
     (case map_of (displays s) (''display'', dev) of None \<Rightarrow> JUndef | Some row \<Rightarrow> fld (JObj (ds_cols row)) ''paused'')"
proof (cases "map_of (displays s) (''display'', dev)")
  case None
  then show ?thesis by (simp add: read_display_state_def js_or_def fld_def)
next
  case (Some row)
  then show ?thesis
    by (simp add: read_display_state_def coordinator_cols_def js_or_def)
qed

lemma action_text_play_pause: "action_text (JStr ''play_pause'') = ''play_pause''"
  by code_simp

text \<open>The coordinator never resolves a play or pause request from the stored state: the query yields 0 or 1 where
  the coordinator asks for a boolean, so that the relative action goes to the renderers as it came in.\<close>

theorem play_pause_never_resolved:
  assumes "cm_reachable e s"
  shows "canonicalize_transport_action (JStr ''play_pause'') payload (js_or (read_display_state now dev s) (JObj []))
    = (''play_pause'', merge_fields (del_field ''action'' payload) [(''action'', JStr ''play_pause'')])"
proof -
  let ?st = "js_or (read_display_state now dev s) (JObj [])"
  have nb: "\<not> is_bool (fld ?st ''paused'')"
  proof (cases "map_of (displays s) (''display'', dev)")
    case None
    then show ?thesis by (simp add: read_paused)
  next
    case (Some row)
    have "''paused'' \<in> set boolean_cols" by (simp add: boolean_cols_def)
    with reachable_rows_typed [OF assms] Some have "fld (JObj (ds_cols row)) ''paused'' \<in> {JNull, jint 0, jint 1}"
      unfolding rows_typed_def typed_row_def by blast
    then show ?thesis by (auto simp: read_paused Some)
  qed
  have a: "action_text (js_or (JStr ''play_pause'') v) = ''play_pause''" for v
    by (simp add: js_or_def action_text_play_pause)
  have r: "\<not> is_next_action ''play_pause''" "\<not> is_prev_action ''play_pause''"
    by (simp_all add: is_next_action_def is_prev_action_def)
  show ?thesis
    unfolding canonicalize_transport_action_def a Let_def using nb r by (simp split: option.split)
qed

subsection \<open>A run\<close>

definition paused_store :: store where
  "paused_store = snd (merge_display_state sample_env 6 ''display'' ''tv1'' (JObj [(''paused'', JBool True)]) sample_failed)"

definition paused_row :: display_row where
  "paused_row = merged_row 6 (JObj [(''paused'', JBool True)]) 1 None"

lemma paused_reachable: "cm_reachable sample_env paused_store"
  unfolding paused_store_def
  by (rule cm_reachable.step [OF sample_reachable(2)]) (rule cm_step.merge, rule prod.collapse [symmetric])

lemma paused_lookup: "map_of (displays paused_store) (''display'', ''tv1'') = Some paused_row"
proof -
  have "map_of (displays sample_failed) (''display'', ''tv1'') = None"
    "enforce_audio_authority sample_env ''display'' ''tv1'' (JObj [(''paused'', JBool True)]) = JObj [(''paused'', JBool True)]"
    by code_simp+
  then show ?thesis
    by (simp add: paused_store_def merge_display_state_def Let_def supplied_revision_def is_nullish_def update_conv'
        stored_revision_def paused_row_def)
qed

lemma display_columns_typed_witness: "fld (JObj (ds_cols paused_row)) ''paused'' = jint 1
   \<and> fld (JObj (ds_cols paused_row)) ''muted'' \<in> {JNull, jint 0, jint 1}"
proof (rule conjI)
  show "fld (JObj (ds_cols paused_row)) ''paused'' = jint 1" by code_simp
  have "''muted'' \<in> set boolean_cols" by (simp add: boolean_cols_def)
  with display_columns_typed [OF paused_reachable paused_lookup]
  show "fld (JObj (ds_cols paused_row)) ''muted'' \<in> {JNull, jint 0, jint 1}" by blast
qed

lemma play_pause_never_resolved_witness:
  "fld (read_display_state 9 ''tv1'' paused_store) ''paused'' = jint 1
   \<and> fst (canonicalize_transport_action (JStr ''play_pause'') [] (js_or (read_display_state 9 ''tv1'' paused_store) (JObj []))) = ''play_pause''"
proof (rule conjI)
  have "fld (JObj (ds_cols paused_row)) ''paused'' = jint 1" by code_simp
  then show "fld (read_display_state 9 ''tv1'' paused_store) ''paused'' = jint 1"
    by (simp add: read_display_state_def paused_lookup coordinator_cols_def)
  show "fst (canonicalize_transport_action (JStr ''play_pause'') [] (js_or (read_display_state 9 ''tv1'' paused_store) (JObj []))) = ''play_pause''"
    unfolding play_pause_never_resolved [OF paused_reachable] by (rule fst_conv)
qed

end
