(* ===== verification/Scheduler.thy ===== *)
theory Scheduler
  imports Prelude
begin

text \<open>
  The playlist and layout scheduler (\<open>server/services/scheduler.js\<close>): the recurrence rule, the test
  whether a schedule is active at a moment, and the minute tick that overrides the assignment of every
  online device and restores it afterwards.

  The \<open>devices\<close> and \<open>schedules\<close> tables are lists of rows; the conversion of a stored time to a local
  moment is the parameter \<open>parse_date\<close>, with \<open>None\<close> for an invalid date. A thrown exception is \<open>None\<close>
  or the flag \<open>False\<close>. The delivery of the payload is the list of device ids pushed.
\<close>

subsection \<open>Rows and moments\<close>

record moment =
  instant :: int          \<comment> \<open>milliseconds since the epoch\<close>
  weekday :: nat          \<comment> \<open>\<open>getDay()\<close>\<close>
  minute_of_day :: int    \<comment> \<open>\<open>getHours() * 60 + getMinutes()\<close>\<close>

record schedule =
  s_device :: "string option"
  s_group :: "string option"
  s_enabled :: bool
  s_priority :: int
  s_created :: int
  s_start :: string
  s_end :: string
  s_recurrence :: "string option"
  s_recurrence_end :: "string option"
  s_layout :: "string option"
  s_playlist :: "string option"

record assignment =
  a_layout :: "string option"
  a_playlist :: "string option"

record sched_row =
  d_online :: bool
  d_assignment :: assignment

text \<open>A nullable text column in a condition: neither null nor empty.\<close>

fun present :: "string option \<Rightarrow> bool" where
  "present None = False"
| "present (Some s) = (s \<noteq> [])"

subsection \<open>Recurrence rules\<close>

record rrule =
  r_freq :: "string option"
  r_by_day :: "nat list option"
  r_interval :: "int option"

definition empty_rule :: rrule where
  "empty_rule = \<lparr>r_freq = None, r_by_day = None, r_interval = None\<rparr>"

definition day_map :: "(string \<times> nat) list" where
  "day_map = [(''SU'', 0), (''MO'', 1), (''TU'', 2), (''WE'', 3), (''TH'', 4), (''FR'', 5), (''SA'', 6)]"

text \<open>\<open>parseInt\<close> of an unprefixed decimal; \<open>None\<close> is \<open>NaN\<close>. Nothing reads the interval.\<close>

definition parse_int :: "string \<Rightarrow> int option" where
  "parse_int s =
     (let t = dropWhile is_space s;
          (neg, u) = (case t of c # r \<Rightarrow> if c = CHR ''-'' then (True, r) else if c = CHR ''+'' then (False, r) else (False, t)
                      | [] \<Rightarrow> (False, []));
          d = takeWhile is_digit u
      in if d = [] then None else Some (if neg then - int (digits_nat d) else int (digits_nat d)))"

text \<open>One \<open>KEY=VALUE\<close> part. \<open>BYDAY\<close> without a value throws, as \<open>val.split\<close> does on \<open>undefined\<close>.\<close>

definition rule_part :: "string \<Rightarrow> rrule \<Rightarrow> rrule option" where
  "rule_part part r =
     (case split_on (CHR ''='') part of
        [] \<Rightarrow> Some r
      | key # rest \<Rightarrow>
          (let val = (case rest of [] \<Rightarrow> None | v # _ \<Rightarrow> Some v) in
           if key = ''FREQ'' then Some (r\<lparr>r_freq := val\<rparr>)
           else if key = ''BYDAY'' then
             (case val of
                None \<Rightarrow> None
              | Some v \<Rightarrow> Some (r\<lparr>r_by_day := Some (List.map_filter (map_of day_map) (split_on (CHR '','') v))\<rparr>))
           else if key = ''INTERVAL'' then
             Some (r\<lparr>r_interval := (case val of None \<Rightarrow> None | Some v \<Rightarrow> parse_int v)\<rparr>)
           else Some r))"

fun rule_parts :: "string list \<Rightarrow> rrule \<Rightarrow> rrule option" where
  "rule_parts [] r = Some r"
| "rule_parts (p # ps) r = (case rule_part p r of None \<Rightarrow> None | Some r' \<Rightarrow> rule_parts ps r')"

definition parse_simple_rrule :: "string \<Rightarrow> rrule option" where
  "parse_simple_rrule rule = rule_parts (split_on (CHR '';'') rule) empty_rule"

subsection \<open>Active schedules\<close>

text \<open>A comparison with a field of an invalid date is false.\<close>

definition between :: "(moment \<Rightarrow> int) \<Rightarrow> moment option \<Rightarrow> moment \<Rightarrow> moment option \<Rightarrow> bool" where
  "between f lo x hi =
     (case lo of None \<Rightarrow> False | Some l \<Rightarrow> (case hi of None \<Rightarrow> False | Some h \<Rightarrow> f l \<le> f x \<and> f x \<le> f h))"

definition is_schedule_active_now :: "(string \<Rightarrow> moment option) \<Rightarrow> schedule \<Rightarrow> moment \<Rightarrow> bool option" where
  "is_schedule_active_now parse_date s now =
     (let start = parse_date (s_start s); fin = parse_date (s_end s) in
      case s_recurrence s of
        None \<Rightarrow> Some (between instant start now fin)
      | Some rec \<Rightarrow>
          if rec = [] then Some (between instant start now fin)
          else (case parse_simple_rrule rec of
                  None \<Rightarrow> None
                | Some rule \<Rightarrow>
                    (case r_by_day rule of
                       Some ds \<Rightarrow> if weekday now \<notin> set ds then Some False
                                  else Some (between minute_of_day start now fin)
                     | None \<Rightarrow> Some (between minute_of_day start now fin))))"

text \<open>\<open>ORDER BY\<close> device schedules first, then priority downwards, then age; equal rows keep table order.\<close>

definition schedule_before :: "schedule \<Rightarrow> schedule \<Rightarrow> bool" where
  "schedule_before s t \<longleftrightarrow>
     (let ds = s_device s \<noteq> None; dt = s_device t \<noteq> None in
      if ds \<noteq> dt then ds
      else if s_priority s \<noteq> s_priority t then s_priority t < s_priority s
      else s_created s < s_created t)"

fun insert_schedule :: "schedule \<Rightarrow> schedule list \<Rightarrow> schedule list" where
  "insert_schedule s [] = [s]"
| "insert_schedule s (t # ts) = (if schedule_before t s then t # insert_schedule s ts else s # t # ts)"

definition candidate_schedules :: "schedule list \<Rightarrow> (string \<times> string) list \<Rightarrow> string \<Rightarrow> schedule list" where
  "candidate_schedules table members dev =
     foldr insert_schedule
       (filter (\<lambda>s. s_enabled s \<and> (s_device s = Some dev
                      \<or> (\<exists>g\<in>set members. snd g = dev \<and> s_group s = Some (fst g)))) table) []"

text \<open>\<open>schedules.find(s => isScheduleActiveNow(s, now))\<close>; the outer \<open>None\<close> is an exception.\<close>

fun find_active :: "(string \<Rightarrow> moment option) \<Rightarrow> moment \<Rightarrow> schedule list \<Rightarrow> schedule option option" where
  "find_active parse_date now [] = Some None"
| "find_active parse_date now (s # ss) =
     (case is_schedule_active_now parse_date s now of
        None \<Rightarrow> None
      | Some b \<Rightarrow> if b then Some (Some s) else find_active parse_date now ss)"

subsection \<open>The tick\<close>

record sched_state =
  sc_devices :: "(string \<times> sched_row) list"
  sc_overrides :: "(string \<times> assignment) list"
  sc_pushed :: "string list"

record sched_db =
  db_schedules :: "schedule list"
  db_members :: "(string \<times> string) list"   \<comment> \<open>group id and device id\<close>

definition set_assignment :: "string \<Rightarrow> (assignment \<Rightarrow> assignment) \<Rightarrow> sched_state \<Rightarrow> sched_state" where
  "set_assignment dev f st =
     st\<lparr>sc_devices := AList.map_entry dev (\<lambda>r. r\<lparr>d_assignment := f (d_assignment r)\<rparr>) (sc_devices st)\<rparr>"

definition remember :: "string \<Rightarrow> assignment \<Rightarrow> assignment option \<Rightarrow> sched_state \<Rightarrow> sched_state" where
  "remember dev a ovr st =
     (if ovr = None then st\<lparr>sc_overrides := AList.update dev a (sc_overrides st)\<rparr> else st)"

definition push_playlist :: "bool \<Rightarrow> string \<Rightarrow> sched_state \<Rightarrow> sched_state" where
  "push_playlist changed dev st = (if changed then st\<lparr>sc_pushed := sc_pushed st @ [dev]\<rparr> else st)"

text \<open>\<open>cur\<close> is the row as the loop read it.\<close>

definition apply_schedule :: "string \<Rightarrow> assignment \<Rightarrow> schedule \<Rightarrow> sched_state \<Rightarrow> sched_state" where
  "apply_schedule dev cur s st =
     (let ovr = map_of (sc_overrides st) dev;
          lay = (present (s_layout s) \<and> s_layout s \<noteq> a_layout cur);
          pla = (present (s_playlist s) \<and> s_playlist s \<noteq> a_playlist cur);
          st1 = (if lay then set_assignment dev (a_layout_update (\<lambda>_. s_layout s)) (remember dev cur ovr st) else st);
          st2 = (if pla then set_assignment dev (a_playlist_update (\<lambda>_. s_playlist s)) (remember dev cur ovr st1) else st1)
      in push_playlist (lay \<or> pla) dev st2)"

definition revert_schedule :: "string \<Rightarrow> sched_state \<Rightarrow> sched_state" where
  "revert_schedule dev st =
     (case map_of (sc_overrides st) dev of
        None \<Rightarrow> st
      | Some a \<Rightarrow> push_playlist True dev
          ((set_assignment dev (\<lambda>_. a) st)\<lparr>sc_overrides := AList.delete dev (sc_overrides st)\<rparr>))"

definition tick_device ::
  "(string \<Rightarrow> moment option) \<Rightarrow> sched_db \<Rightarrow> moment \<Rightarrow> string \<Rightarrow> assignment \<Rightarrow> sched_state \<Rightarrow> bool \<times> sched_state" where
  "tick_device parse_date tables now dev cur st =
     (case find_active parse_date now (candidate_schedules (db_schedules tables) (db_members tables) dev) of
        None \<Rightarrow> (False, st)
      | Some None \<Rightarrow> (True, revert_schedule dev st)
      | Some (Some s) \<Rightarrow> (True, apply_schedule dev cur s st))"

fun tick_devices ::
  "(string \<Rightarrow> moment option) \<Rightarrow> sched_db \<Rightarrow> moment \<Rightarrow> (string \<times> sched_row) list \<Rightarrow> sched_state \<Rightarrow> bool \<times> sched_state" where
  "tick_devices parse_date tables now [] st = (True, st)"
| "tick_devices parse_date tables now ((dev, row) # rows) st =
     (let (ok, st') = tick_device parse_date tables now dev (d_assignment row) st
      in if ok then tick_devices parse_date tables now rows st' else (False, st'))"

definition evaluate_schedules ::
  "(string \<Rightarrow> moment option) \<Rightarrow> sched_db \<Rightarrow> moment \<Rightarrow> sched_state \<Rightarrow> bool \<times> sched_state" where
  "evaluate_schedules parse_date tables now st =
     tick_devices parse_date tables now (filter (\<lambda>(dev, row). d_online row) (sc_devices st)) st"

subsection \<open>The base assignment\<close>

text \<open>What a display shows when no schedule is active: the remembered assignment while an override is on, else
  its row.\<close>

definition base_assignment :: "sched_state \<Rightarrow> string \<Rightarrow> assignment option" where
  "base_assignment st dev =
     (case map_of (sc_overrides st) dev of
        Some a \<Rightarrow> Some a
      | None \<Rightarrow> map_option d_assignment (map_of (sc_devices st) dev))"

definition row_agrees :: "sched_state \<Rightarrow> string \<Rightarrow> assignment \<Rightarrow> bool" where
  "row_agrees st dev cur \<longleftrightarrow> map_option d_assignment (map_of (sc_devices st) dev) = Some cur"

lemma set_assignment_simps [simp]:
  "sc_overrides (set_assignment dev f st) = sc_overrides st"
  "map_of (sc_devices (set_assignment dev f st)) d =
     (if d = dev then map_option (\<lambda>r. r\<lparr>d_assignment := f (d_assignment r)\<rparr>) (map_of (sc_devices st) d)
      else map_of (sc_devices st) d)"
  "map fst (sc_devices (set_assignment dev f st)) = map fst (sc_devices st)"
proof -
  show "map_of (sc_devices (set_assignment dev f st)) d =
     (if d = dev then map_option (\<lambda>r. r\<lparr>d_assignment := f (d_assignment r)\<rparr>) (map_of (sc_devices st) d)
      else map_of (sc_devices st) d)"
    by (auto simp: set_assignment_def map_of_map_entry split: option.splits)
  have "map fst (AList.map_entry dev g xs) = map fst xs" for g and xs :: "(string \<times> sched_row) list"
    by (induction xs) auto
  then show "map fst (sc_devices (set_assignment dev f st)) = map fst (sc_devices st)"
    by (simp add: set_assignment_def)
qed (simp add: set_assignment_def)

lemma remember_simps [simp]:
  "sc_devices (remember dev a ovr st) = sc_devices st"
  "map_of (sc_overrides (remember dev a ovr st)) d =
     (if d = dev \<and> ovr = None then Some a else map_of (sc_overrides st) d)"
  by (simp_all add: remember_def update_conv')

lemma push_simps [simp]:
  "sc_devices (push_playlist c dev st) = sc_devices st"
  "sc_overrides (push_playlist c dev st) = sc_overrides st"
  by (simp_all add: push_playlist_def)

lemma apply_schedule_overrides:
  "map_of (sc_overrides (apply_schedule dev cur s st)) d =
     (if d = dev \<and> map_of (sc_overrides st) dev = None
           \<and> ((present (s_layout s) \<and> s_layout s \<noteq> a_layout cur) \<or> (present (s_playlist s) \<and> s_playlist s \<noteq> a_playlist cur))
      then Some cur else map_of (sc_overrides st) d)"
  by (simp add: apply_schedule_def Let_def)

text \<open>The assignment a schedule leaves on a row that held \<open>a\<close>, when the loop read \<open>cur\<close>.\<close>

definition scheduled :: "schedule \<Rightarrow> assignment \<Rightarrow> assignment \<Rightarrow> assignment" where
  "scheduled s cur a =
     \<lparr>a_layout = (if present (s_layout s) \<and> s_layout s \<noteq> a_layout cur then s_layout s else a_layout a),
      a_playlist = (if present (s_playlist s) \<and> s_playlist s \<noteq> a_playlist cur then s_playlist s else a_playlist a)\<rparr>"

lemma apply_schedule_devices:
  "map_of (sc_devices (apply_schedule dev cur s st)) d =
     (if d = dev then map_option (\<lambda>r. r\<lparr>d_assignment := scheduled s cur (d_assignment r)\<rparr>) (map_of (sc_devices st) d)
      else map_of (sc_devices st) d)"
proof (cases "map_of (sc_devices st) d")
  case None
  then show ?thesis by (cases "d = dev") (simp_all add: apply_schedule_def Let_def)
next
  case (Some r)
  have u: "r\<lparr>d_assignment := \<lparr>a_layout = a_layout (d_assignment r), a_playlist = a_playlist (d_assignment r)\<rparr>\<rparr> = r"
    by simp
  have v: "(d_assignment r)\<lparr>a_layout := x\<rparr> = \<lparr>a_layout = x, a_playlist = a_playlist (d_assignment r)\<rparr>"
      "(d_assignment r)\<lparr>a_playlist := x\<rparr> = \<lparr>a_layout = a_layout (d_assignment r), a_playlist = x\<rparr>" for x
    by (cases "d_assignment r"; simp)+
  from Some show ?thesis
    by (auto simp: apply_schedule_def Let_def scheduled_def u v)
qed

lemma apply_schedule_keys: "map fst (sc_devices (apply_schedule dev cur s st)) = map fst (sc_devices st)"
  by (simp add: apply_schedule_def Let_def)

lemma revert_simps:
  "map_of (sc_overrides (revert_schedule dev st)) d = (if d = dev then None else map_of (sc_overrides st) d)"
  "map_of (sc_devices (revert_schedule dev st)) d =
     (if d = dev then map_option (\<lambda>r. r\<lparr>d_assignment := (case map_of (sc_overrides st) dev of None \<Rightarrow> d_assignment r | Some a \<Rightarrow> a)\<rparr>)
        (map_of (sc_devices st) d)
      else map_of (sc_devices st) d)"
  "map fst (sc_devices (revert_schedule dev st)) = map fst (sc_devices st)"
proof -
  show "map_of (sc_overrides (revert_schedule dev st)) d = (if d = dev then None else map_of (sc_overrides st) d)"
    by (simp add: revert_schedule_def delete_conv' split: option.split)
  show "map_of (sc_devices (revert_schedule dev st)) d =
     (if d = dev then map_option (\<lambda>r. r\<lparr>d_assignment := (case map_of (sc_overrides st) dev of None \<Rightarrow> d_assignment r | Some a \<Rightarrow> a)\<rparr>)
        (map_of (sc_devices st) d)
      else map_of (sc_devices st) d)"
    by (cases "map_of (sc_overrides st) dev"; cases "map_of (sc_devices st) d") (auto simp: revert_schedule_def)
  show "map fst (sc_devices (revert_schedule dev st)) = map fst (sc_devices st)"
    by (simp add: revert_schedule_def split: option.split)
qed

text \<open>A tick of one display leaves the rows and overrides of the others alone, and every base assignment.\<close>

lemma tick_device_cases:
  obtains (thrown) "tick_device pd tables now dev cur st = (False, st)"
  | (idle) "tick_device pd tables now dev cur st = (True, revert_schedule dev st)"
      "find_active pd now (candidate_schedules (db_schedules tables) (db_members tables) dev) = Some None"
  | (active) s where "tick_device pd tables now dev cur st = (True, apply_schedule dev cur s st)"
      "find_active pd now (candidate_schedules (db_schedules tables) (db_members tables) dev) = Some (Some s)"
proof (cases "find_active pd now (candidate_schedules (db_schedules tables) (db_members tables) dev)")
  case None
  then show ?thesis by (intro thrown) (simp add: tick_device_def)
next
  case (Some o1)
  then show ?thesis by (cases o1) (auto simp: tick_device_def intro: idle active)
qed

lemma tick_device_frame:
  assumes "tick_device pd tables now dev cur st = (ok, st')"
  shows "(d \<noteq> dev \<longrightarrow> map_of (sc_devices st') d = map_of (sc_devices st) d
            \<and> map_of (sc_overrides st') d = map_of (sc_overrides st) d)
    \<and> map fst (sc_devices st') = map fst (sc_devices st)
    \<and> map_option d_online (map_of (sc_devices st') d) = map_option d_online (map_of (sc_devices st) d)"
proof (cases pd tables now dev cur st rule: tick_device_cases)
  case thrown
  with assms show ?thesis by simp
next
  case idle
  with assms show ?thesis by (auto simp: revert_simps option.map_comp comp_def)
next
  case (active s)
  with assms show ?thesis
    by (auto simp: apply_schedule_overrides apply_schedule_devices apply_schedule_keys option.map_comp comp_def Let_def)
qed

lemma tick_device_base:
  assumes "tick_device pd tables now dev cur st = (ok, st')" "row_agrees st dev cur"
  shows "base_assignment st' d = base_assignment st d"
proof (cases "d = dev")
  case False
  with tick_device_frame [OF assms(1), of d] show ?thesis
    by (cases "map_of (sc_overrides st) d") (simp_all add: base_assignment_def)
next
  case True
  from assms(2) obtain r where r: "map_of (sc_devices st) dev = Some r" "d_assignment r = cur"
    by (auto simp: row_agrees_def)
  show ?thesis
  proof (cases pd tables now dev cur st rule: tick_device_cases)
    case thrown
    with assms(1) show ?thesis by simp
  next
    case idle
    with assms(1) r True show ?thesis
      by (cases "map_of (sc_overrides st) dev") (auto simp: base_assignment_def revert_simps)
  next
    case (active s)
    with assms(1) r True show ?thesis
      by (cases "map_of (sc_overrides st) dev")
         (auto simp: base_assignment_def apply_schedule_overrides apply_schedule_devices scheduled_def)
  qed
qed

text \<open>The rows still to visit are as the loop read them.\<close>

lemma tick_devices_base:
  assumes "tick_devices pd tables now rows st = (ok, st')" "distinct_keys rows"
    and "\<And>dev row. (dev, row) \<in> set rows \<Longrightarrow> row_agrees st dev (d_assignment row)"
  shows "base_assignment st' d = base_assignment st d \<and> map fst (sc_devices st') = map fst (sc_devices st)
    \<and> map_option d_online (map_of (sc_devices st') d) = map_option d_online (map_of (sc_devices st) d)"
  using assms
proof (induction rows arbitrary: st)
  case Nil
  then show ?case by simp
next
  case (Cons r rows)
  obtain dev row where r: "r = (dev, row)" by (cases r)
  obtain ok1 st1 where t: "tick_device pd tables now dev (d_assignment row) st = (ok1, st1)" by fastforce
  note fr = tick_device_frame [OF t]
  have b: "base_assignment st1 d = base_assignment st d"
    by (rule tick_device_base [OF t]) (simp add: Cons.prems(3) r)
  show ?case
  proof (cases ok1)
    case False
    with Cons.prems(1) t b fr [of d] show ?thesis by (simp add: r)
  next
    case True
    with Cons.prems(1) t have u: "tick_devices pd tables now rows st1 = (ok, st')" by (simp add: r)
    have dk: "distinct_keys rows" using Cons.prems(2) by (simp add: distinct_keys_def)
    have "row_agrees st1 d' (d_assignment row')" if "(d', row') \<in> set rows" for d' row'
    proof -
      have "d' \<noteq> dev" using Cons.prems(2) that by (force simp: r distinct_keys_def)
      with fr [of d'] Cons.prems(3) [of d' row'] that show ?thesis by (simp add: row_agrees_def)
    qed
    from Cons.IH [OF u dk this] b fr [of d] show ?thesis by simp
  qed
qed

lemma row_agrees_lookup: "map_of (sc_devices st) dev = Some row \<Longrightarrow> row_agrees st dev (d_assignment row)"
  by (simp add: row_agrees_def)

lemma tick_devices_skip:
  assumes "tick_devices pd tables now rows st = (True, st')" "dev \<notin> fst ` set rows"
  shows "map_of (sc_devices st') dev = map_of (sc_devices st) dev \<and> map_of (sc_overrides st') dev = map_of (sc_overrides st) dev"
  using assms
proof (induction rows arbitrary: st)
  case Nil
  then show ?case by simp
next
  case (Cons q rows)
  obtain e row where q: "q = (e, row)" by (cases q)
  obtain ok1 st1 where t: "tick_device pd tables now e (d_assignment row) st = (ok1, st1)" by fastforce
  with Cons.prems(1) have "tick_devices pd tables now rows st1 = (True, st')"
    by (auto simp: q split: if_splits)
  with Cons.IH [of st1] Cons.prems(2) tick_device_frame [OF t, of dev] show ?case by (simp add: q)
qed

text \<open>A complete tick over the rows does to each display what its own step does, from a state that agrees
  on the display.\<close>

lemma tick_devices_at:
  assumes "tick_devices pd tables now rows st = (True, st')" "distinct_keys rows" "(dev, row) \<in> set rows"
  shows "\<exists>s1 s2. tick_device pd tables now dev (d_assignment row) s1 = (True, s2)
    \<and> map_of (sc_devices s1) dev = map_of (sc_devices st) dev \<and> map_of (sc_overrides s1) dev = map_of (sc_overrides st) dev
    \<and> map_of (sc_devices st') dev = map_of (sc_devices s2) dev \<and> map_of (sc_overrides st') dev = map_of (sc_overrides s2) dev"
  using assms
proof (induction rows arbitrary: st)
  case Nil
  then show ?case by simp
next
  case (Cons r rows)
  obtain d row' where r: "r = (d, row')" by (cases r)
  obtain ok1 st1 where t: "tick_device pd tables now d (d_assignment row') st = (ok1, st1)" by fastforce
  with Cons.prems(1) have t: "tick_device pd tables now d (d_assignment row') st = (True, st1)"
    and u: "tick_devices pd tables now rows st1 = (True, st')"
    by (auto simp: r split: if_splits)
  have dk: "distinct_keys rows" using Cons.prems(2) by (simp add: distinct_keys_def)
  show ?case
  proof (cases "d = dev")
    case False
    with Cons.prems(3) have "(dev, row) \<in> set rows" by (simp add: r)
    from Cons.IH [OF u dk this] tick_device_frame [OF t, of dev] False show ?thesis by simp
  next
    case True
    have nin: "dev \<notin> fst ` set rows" using Cons.prems(2) True by (simp add: r distinct_keys_def)
    with Cons.prems(3) True have "row' = row" by (force simp: r)
    with t True have "tick_device pd tables now dev (d_assignment row) st = (True, st1)" by simp
    moreover have "map_of (sc_devices st') dev = map_of (sc_devices st1) dev
        \<and> map_of (sc_overrides st') dev = map_of (sc_overrides st1) dev"
      by (rule tick_devices_skip [OF u nin])
    ultimately show ?thesis by blast
  qed
qed

subsection \<open>Runs\<close>

text \<open>Successive ticks, each with the schedule tables of its moment; a tick that throws leaves what it did.\<close>

definition run_ticks :: "(string \<Rightarrow> moment option) \<Rightarrow> (sched_db \<times> moment) list \<Rightarrow> sched_state \<Rightarrow> sched_state" where
  "run_ticks pd ticks st = foldl (\<lambda>s (tables, now). snd (evaluate_schedules pd tables now s)) st ticks"

lemma evaluate_base:
  assumes "evaluate_schedules pd tables now st = (ok, st')" "distinct_keys (sc_devices st)"
  shows "base_assignment st' d = base_assignment st d \<and> distinct_keys (sc_devices st')
    \<and> map_option d_online (map_of (sc_devices st') d) = map_option d_online (map_of (sc_devices st) d)"
proof -
  have "distinct_keys (filter (\<lambda>(dev, row). d_online row) (sc_devices st))"
    by (rule distinct_keys_filter) (rule assms(2))
  moreover have "row_agrees st dev (d_assignment row)"
    if "(dev, row) \<in> set (filter (\<lambda>(dev, row). d_online row) (sc_devices st))" for dev row
    using that assms(2) by (intro row_agrees_lookup) (simp add: distinct_keys_def)
  ultimately show ?thesis
    using tick_devices_base [OF assms(1) [unfolded evaluate_schedules_def], of d] assms(2)
    by (simp add: distinct_keys_def)
qed

lemma run_ticks_base:
  assumes "distinct_keys (sc_devices st)"
  shows "base_assignment (run_ticks pd ticks st) d = base_assignment st d \<and> distinct_keys (sc_devices (run_ticks pd ticks st))
    \<and> map_option d_online (map_of (sc_devices (run_ticks pd ticks st)) d) = map_option d_online (map_of (sc_devices st) d)"
  using assms
proof (induction ticks arbitrary: st)
  case Nil
  then show ?case by (simp add: run_ticks_def)
next
  case (Cons t ticks)
  obtain tables now where t: "t = (tables, now)" by (cases t)
  obtain ok st1 where e: "evaluate_schedules pd tables now st = (ok, st1)" by fastforce
  have "run_ticks pd (t # ticks) st = run_ticks pd ticks st1" by (simp add: run_ticks_def t e)
  with Cons.IH [of st1] evaluate_base [OF e Cons.prems, of d] show ?case by simp
qed

text \<open>C27: However long schedules overrode a display, and in whatever order they took over from each other,
  the first complete tick that finds none of them active gives the display back the layout and playlist
  it had before the first override.\<close>

theorem schedules_restore_assignment:
  assumes "distinct_keys (sc_devices st)" "sc_overrides st = []"
    and "map_of (sc_devices st) dev = Some \<lparr>d_online = True, d_assignment = a\<rparr>"
    and "evaluate_schedules pd tables now (run_ticks pd ticks st) = (True, st')"
    and "find_active pd now (candidate_schedules (db_schedules tables) (db_members tables) dev) = Some None"
  shows "map_of (sc_devices st') dev = Some \<lparr>d_online = True, d_assignment = a\<rparr>
    \<and> map_of (sc_overrides st') dev = None"
proof -
  let ?r = "run_ticks pd ticks st"
  note b1 = run_ticks_base [OF assms(1), of pd ticks dev]
  have dk: "distinct_keys (sc_devices ?r)" using b1 by simp
  note b2 = evaluate_base [OF assms(4) dk, of dev]
  have base: "base_assignment st' dev = Some a" and on: "map_option d_online (map_of (sc_devices st') dev) = Some True"
    using b1 b2 assms(2,3) by (simp_all add: base_assignment_def)
  from b1 assms(3) obtain row where row: "map_of (sc_devices ?r) dev = Some row" "d_online row" by auto
  then have "(dev, row) \<in> set (filter (\<lambda>(dev, row). d_online row) (sc_devices ?r))" by (simp add: map_of_SomeD)
  from tick_devices_at [OF assms(4) [unfolded evaluate_schedules_def] distinct_keys_filter [OF dk] this] assms(5)
  have n: "map_of (sc_overrides st') dev = None" by (auto simp: tick_device_def revert_simps)
  with base obtain row' where "map_of (sc_devices st') dev = Some row'" "d_assignment row' = a"
    by (auto simp: base_assignment_def)
  with on n show ?thesis by (cases row') simp
qed

subsection \<open>Which schedule wins\<close>

lemma schedule_before_trans: "schedule_before s t \<Longrightarrow> schedule_before t u \<Longrightarrow> schedule_before s u"
  by (auto simp: schedule_before_def Let_def split: if_splits)

lemma schedule_before_asym: "schedule_before s t \<Longrightarrow> \<not> schedule_before t s"
  by (auto simp: schedule_before_def Let_def split: if_splits)

lemma schedule_not_before_trans: "\<not> schedule_before t s \<Longrightarrow> \<not> schedule_before u t \<Longrightarrow> \<not> schedule_before u s"
  by (auto simp: schedule_before_def Let_def split: if_splits)

definition schedules_in_order :: "schedule list \<Rightarrow> bool" where
  "schedules_in_order ss = sorted_wrt (\<lambda>s t. \<not> schedule_before t s) ss"

lemma set_insert_schedule [simp]: "set (insert_schedule s ss) = insert s (set ss)"
  by (induction ss) auto

lemma in_order_insert: "schedules_in_order ss \<Longrightarrow> schedules_in_order (insert_schedule s ss)"
proof (induction ss)
  case Nil
  then show ?case by (simp add: schedules_in_order_def)
next
  case (Cons t ts)
  then show ?case
    by (auto simp: schedules_in_order_def dest: schedule_before_asym schedule_not_before_trans)
qed

lemma candidate_schedules_set:
  "set (candidate_schedules table members dev) =
     {s \<in> set table. s_enabled s \<and> (s_device s = Some dev \<or> (\<exists>g\<in>set members. snd g = dev \<and> s_group s = Some (fst g)))}"
proof -
  have "set (foldr insert_schedule xs []) = set xs" for xs by (induction xs) auto
  then show ?thesis by (simp add: candidate_schedules_def)
qed

lemma candidate_schedules_in_order: "schedules_in_order (candidate_schedules table members dev)"
proof -
  have "schedules_in_order (foldr insert_schedule xs [])" for xs
    by (induction xs) (simp_all add: in_order_insert, simp add: schedules_in_order_def)
  then show ?thesis by (simp add: candidate_schedules_def)
qed

lemma find_active_first:
  assumes "find_active pd now ss = Some (Some s)" "schedules_in_order ss"
  shows "s \<in> set ss \<and> is_schedule_active_now pd s now = Some True
    \<and> (\<forall>t\<in>set ss. schedule_before t s \<longrightarrow> is_schedule_active_now pd t now = Some False)"
  using assms
proof (induction ss)
  case Nil
  then show ?case by simp
next
  case (Cons t ts)
  have o: "schedules_in_order ts" "\<forall>u\<in>set ts. \<not> schedule_before u t" using Cons.prems(2) by (simp_all add: schedules_in_order_def)
  show ?case
  proof (cases "is_schedule_active_now pd t now")
    case None
    with Cons.prems(1) show ?thesis by simp
  next
    case (Some b)
    show ?thesis
    proof (cases b)
      case True
      with Cons.prems(1) Some have "s = t" by simp
      with Some True o(2) schedule_before_asym show ?thesis by auto
    next
      case False
      with Cons.prems(1) Some have f: "find_active pd now ts = Some (Some s)" by simp
      from Cons.IH [OF f o(1)] Some False show ?thesis by auto
    qed
  qed
qed

text \<open>In a complete tick an online display takes the layout and playlist of the best active schedule
  of its own or of its groups: an enabled one such that every schedule of the display that comes before it
  (its own before its groups', then by priority, then by age) is inactive. A schedule without a layout or
  without a playlist leaves that part of the row as it was.\<close>

theorem scheduler_applies_best:
  assumes "evaluate_schedules pd tables now st = (True, st')" "distinct_keys (sc_devices st)"
    and "map_of (sc_devices st) dev = Some \<lparr>d_online = True, d_assignment = a\<rparr>"
    and "find_active pd now (candidate_schedules (db_schedules tables) (db_members tables) dev) = Some (Some s)"
  shows "map_of (sc_devices st') dev = Some \<lparr>d_online = True, d_assignment =
       \<lparr>a_layout = (if present (s_layout s) then s_layout s else a_layout a),
        a_playlist = (if present (s_playlist s) then s_playlist s else a_playlist a)\<rparr>\<rparr>
    \<and> s \<in> set (db_schedules tables) \<and> s_enabled s \<and> is_schedule_active_now pd s now = Some True
    \<and> (\<forall>t\<in>set (candidate_schedules (db_schedules tables) (db_members tables) dev).
         schedule_before t s \<longrightarrow> is_schedule_active_now pd t now = Some False)"
proof -
  let ?row = "\<lparr>d_online = True, d_assignment = a\<rparr>"
  have "(dev, ?row) \<in> set (filter (\<lambda>(dev, row). d_online row) (sc_devices st))"
    using assms(3) by (simp add: map_of_SomeD)
  from tick_devices_at [OF assms(1) [unfolded evaluate_schedules_def] distinct_keys_filter [OF assms(2)] this]
  obtain s1 where "map_of (sc_devices s1) dev = Some ?row"
    "map_of (sc_devices st') dev = map_of (sc_devices (apply_schedule dev a s s1)) dev"
    using assms(3,4) by (auto simp: tick_device_def)
  then have "map_of (sc_devices st') dev = Some \<lparr>d_online = True, d_assignment = scheduled s a a\<rparr>"
    by (simp add: apply_schedule_devices)
  moreover have "scheduled s a a = \<lparr>a_layout = (if present (s_layout s) then s_layout s else a_layout a),
        a_playlist = (if present (s_playlist s) then s_playlist s else a_playlist a)\<rparr>"
    by (auto simp: scheduled_def)
  moreover note find_active_first [OF assms(4) candidate_schedules_in_order]
  ultimately show ?thesis by (auto simp: candidate_schedules_set)
qed

text \<open>A recurring schedule that runs over midnight is active at no moment: both bounds are compared with the same
  time of day.\<close>

lemma overnight_never_active:
  assumes "s_recurrence s = Some rec" "rec \<noteq> []" "parse_date (s_start s) = Some b" "parse_date (s_end s) = Some e"
    and "minute_of_day e < minute_of_day b"
  shows "is_schedule_active_now parse_date s now \<noteq> Some True"
  using assms by (auto simp: is_schedule_active_now_def between_def Let_def split: option.splits)

text \<open>The end of the recurrence and the date of the first run play no part.\<close>

lemma recurrence_never_ends:
  "is_schedule_active_now parse_date (s\<lparr>s_recurrence_end := e\<rparr>) now = is_schedule_active_now parse_date s now"
  by (simp add: is_schedule_active_now_def)

text \<open>A rule with a bare \<open>BYDAY\<close> throws, and the tick stops before the displays that follow.\<close>

lemma bare_byday_throws: "parse_simple_rrule ''FREQ=WEEKLY;BYDAY'' = None"
  by code_simp

subsection \<open>A sample run\<close>

definition sample_date :: "string \<Rightarrow> moment option" where
  "sample_date t = (if t = ''nine'' then Some \<lparr>instant = 0, weekday = 1, minute_of_day = 540\<rparr>
     else if t = ''ten'' then Some \<lparr>instant = 3600000, weekday = 1, minute_of_day = 600\<rparr> else None)"

definition sample_schedule :: schedule where
  "sample_schedule = \<lparr>s_device = Some ''d'', s_group = None, s_enabled = True, s_priority = 1, s_created = 0,
     s_start = ''nine'', s_end = ''ten'', s_recurrence = Some ''FREQ=WEEKLY;BYDAY=MO,TU'', s_recurrence_end = None,
     s_layout = None, s_playlist = Some ''morning''\<rparr>"

definition sample_tables :: sched_db where
  "sample_tables = \<lparr>db_schedules = [sample_schedule], db_members = []\<rparr>"

definition sample_state :: sched_state where
  "sample_state = \<lparr>sc_devices = [(''d'', \<lparr>d_online = True, d_assignment = \<lparr>a_layout = None, a_playlist = Some ''day''\<rparr>\<rparr>)],
     sc_overrides = [], sc_pushed = []\<rparr>"

definition moment_at :: "int \<Rightarrow> moment" where
  "moment_at m = \<lparr>instant = m * 60000, weekday = 1, minute_of_day = m\<rparr>"

lemma schedules_restore_assignment_witness:
  "map_of (sc_devices (run_ticks sample_date [(sample_tables, moment_at 550)] sample_state)) ''d''
     = Some \<lparr>d_online = True, d_assignment = \<lparr>a_layout = None, a_playlist = Some ''morning''\<rparr>\<rparr>
   \<and> (\<exists>st'. evaluate_schedules sample_date sample_tables (moment_at 610)
          (run_ticks sample_date [(sample_tables, moment_at 550)] sample_state) = (True, st')
        \<and> map_of (sc_devices st') ''d'' = Some \<lparr>d_online = True, d_assignment = \<lparr>a_layout = None, a_playlist = Some ''day''\<rparr>\<rparr>)"
proof (rule conjI)
  let ?r = "run_ticks sample_date [(sample_tables, moment_at 550)] sample_state"
  show "map_of (sc_devices ?r) ''d'' = Some \<lparr>d_online = True, d_assignment = \<lparr>a_layout = None, a_playlist = Some ''morning''\<rparr>\<rparr>"
    by code_simp
  obtain ok st' where e: "evaluate_schedules sample_date sample_tables (moment_at 610) ?r = (ok, st')" by fastforce
  have "fst (evaluate_schedules sample_date sample_tables (moment_at 610) ?r)" by code_simp
  with e have e': "evaluate_schedules sample_date sample_tables (moment_at 610) ?r = (True, st')" by simp
  have d: "distinct_keys (sc_devices sample_state)" "sc_overrides sample_state = []"
    "map_of (sc_devices sample_state) ''d'' = Some \<lparr>d_online = True, d_assignment = \<lparr>a_layout = None, a_playlist = Some ''day''\<rparr>\<rparr>"
    "find_active sample_date (moment_at 610) (candidate_schedules (db_schedules sample_tables) (db_members sample_tables) ''d'') = Some None"
    by code_simp+
  from schedules_restore_assignment [OF d(1,2,3) e' d(4)] e'
  show "\<exists>st'. evaluate_schedules sample_date sample_tables (moment_at 610) ?r = (True, st')
        \<and> map_of (sc_devices st') ''d'' = Some \<lparr>d_online = True, d_assignment = \<lparr>a_layout = None, a_playlist = Some ''day''\<rparr>\<rparr>"
    by blast
qed

lemma scheduler_applies_best_witness:
  "\<exists>st'. evaluate_schedules sample_date sample_tables (moment_at 550) sample_state = (True, st')
     \<and> map_of (sc_devices st') ''d'' = Some \<lparr>d_online = True, d_assignment = \<lparr>a_layout = None, a_playlist = Some ''morning''\<rparr>\<rparr>"
proof -
  obtain ok st' where e: "evaluate_schedules sample_date sample_tables (moment_at 550) sample_state = (ok, st')" by fastforce
  have "fst (evaluate_schedules sample_date sample_tables (moment_at 550) sample_state)" by code_simp
  with e have e': "evaluate_schedules sample_date sample_tables (moment_at 550) sample_state = (True, st')" by simp
  have d: "distinct_keys (sc_devices sample_state)"
    "map_of (sc_devices sample_state) ''d'' = Some \<lparr>d_online = True, d_assignment = \<lparr>a_layout = None, a_playlist = Some ''day''\<rparr>\<rparr>"
    by code_simp+
  have f: "find_active sample_date (moment_at 550) (candidate_schedules (db_schedules sample_tables) (db_members sample_tables) ''d'')
      = Some (Some sample_schedule)"
    by code_simp
  from scheduler_applies_best [OF e' d f] e' show ?thesis by (simp add: sample_schedule_def)
qed

end
