(* ===== verification/Heartbeat.thy ===== *)
theory Heartbeat
  imports Prelude
begin

text \<open>
  The managed program receivers (\<open>server/lib/program-receiver-policy.js\<close>) and the heartbeat checker
  (\<open>server/services/heartbeat.js\<close>): the connection map, the periodic sweep that marks silent displays
  offline, and the clean-up of expired rows.

  Tables are lists of rows, the connection map an association list, and what the sweep sends out a list of
  effects. Times are milliseconds, the times stored in tables seconds.
\<close>

subsection \<open>Program receivers\<close>

definition live_stream_device_prefix :: string where
  "live_stream_device_prefix = ''live-stream-program-''"

definition allowed_events :: "string list" where
  "allowed_events = [''device:register'', ''device:heartbeat'', ''device:playlist-sync'', ''device:screenshot'',
     ''device:broadcast-status'', ''device:ack'', ''device:state-report'', ''device:playback-state'',
     ''device:play-event'', ''display:viewport'', ''device:room-snapshot'']"

definition is_program_receiver_id :: "jsval \<Rightarrow> bool" where
  "is_program_receiver_id v = starts_with (to_str (js_or v (JStr []))) live_stream_device_prefix"

definition is_connection_authoritative :: "jsval \<Rightarrow> bool \<Rightarrow> bool" where
  "is_connection_authoritative v conn \<longleftrightarrow> conn \<and> is_program_receiver_id v"

definition is_allowed_program_receiver_event :: "jsval \<Rightarrow> bool" where
  "is_allowed_program_receiver_event ev \<longleftrightarrow> to_str (js_or ev (JStr [])) \<in> set allowed_events"

type_synonym policy_error = "string \<times> string"

text \<open>The guard passes a packet on (\<open>None\<close>) or answers with an error.\<close>

definition program_receiver_event_guard :: "jsval \<Rightarrow> jsval \<Rightarrow> policy_error option" where
  "program_receiver_event_guard dev packet =
     (let ev = (case packet of JArr (x # _) \<Rightarrow> x | JArr [] \<Rightarrow> JUndef | _ \<Rightarrow> JNull) in
      if is_program_receiver_id dev \<and> \<not> is_allowed_program_receiver_event ev
      then Some (''PROGRAM_RECEIVER_EVENT_FORBIDDEN'',
                 ''Program receiver cannot originate '' @ to_str (js_or ev (JStr ''unknown'')))
      else None)"

text \<open>\<open>workspace_of\<close> is the \<open>workspace_id\<close> column of the device with an id.\<close>

record snapshot_options =
  so_device :: jsval
  so_room :: jsval               \<comment> \<open>\<open>configuredRoomId\<close>\<close>
  so_requested_workspace :: jsval
  so_requested_room :: jsval

definition resolve_snapshot_target ::
  "(string \<Rightarrow> jsval) \<Rightarrow> snapshot_options \<Rightarrow> policy_error + (string \<times> string)" where
  "resolve_snapshot_target workspace_of opt =
     (let dev = to_str (js_or (so_device opt) (JStr []));
          ws = text_of (workspace_of dev);
          room = text_of (so_room opt);
          req_ws = text_of (so_requested_workspace opt);
          req_room = text_of (so_requested_room opt)
      in if \<not> is_program_receiver_id (JStr dev)
           then Inl (''PROGRAM_RECEIVER_REQUIRED'', ''A managed program receiver is required'')
         else if ws = []
           then Inl (''PROGRAM_RECEIVER_UNASSIGNED'', ''Program receiver is not assigned to a workspace'')
         else if room = []
           then Inl (''PROGRAM_RECEIVER_ROOM_UNCONFIGURED'', ''Program receiver classroom is not configured'')
         else if req_ws \<noteq> [] \<and> req_ws \<noteq> ws
           then Inl (''PROGRAM_RECEIVER_WORKSPACE_MISMATCH'', ''Requested workspace does not match receiver tenancy'')
         else if req_room \<noteq> [] \<and> req_room \<noteq> room
           then Inl (''PROGRAM_RECEIVER_ROOM_MISMATCH'', ''Requested classroom does not match receiver configuration'')
         else Inr (ws, room))"

lemma snapshot_target_cases:
  "resolve_snapshot_target workspace_of opt = Inr (ws, room) \<Longrightarrow>
     ws = text_of (workspace_of (to_str (js_or (so_device opt) (JStr [])))) \<and> ws \<noteq> []
     \<and> room = text_of (so_room opt) \<and> room \<noteq> []
     \<and> text_of (so_requested_workspace opt) \<in> {[], ws} \<and> text_of (so_requested_room opt) \<in> {[], room}"
  by (auto simp: resolve_snapshot_target_def Let_def split: if_splits)

subsection \<open>State\<close>

record connection =
  cn_socket :: string
  cn_last :: int

record hb_row =
  hb_id :: string
  hb_status :: string
  hb_workspace :: "string option"
  hb_user :: "string option"
  hb_last :: "int option"       \<comment> \<open>seconds\<close>
  hb_created :: int

datatype hb_effect =
    StatusOffline string        \<comment> \<open>\<open>dashboard:device-status\<close> to the room of the device\<close>
  | RoomSnapshot string
  | StatusLog string
  | RecoverAudioOwner string

record hb_state =
  hb_connections :: "(string \<times> connection) list"
  hb_devices :: "hb_row list"
  hb_play_logs :: "int list"          \<comment> \<open>\<open>started_at\<close>\<close>
  hb_team_invites :: "int list"       \<comment> \<open>\<open>expires_at\<close>\<close>
  hb_workspace_invites :: "int list"
  hb_effects :: "hb_effect list"

definition register_connection :: "string \<Rightarrow> string \<Rightarrow> int \<Rightarrow> hb_state \<Rightarrow> hb_state" where
  "register_connection dev sock now st =
     st\<lparr>hb_connections := AList.update dev \<lparr>cn_socket = sock, cn_last = now\<rparr> (hb_connections st)\<rparr>"

definition update_heartbeat :: "string \<Rightarrow> int \<Rightarrow> hb_state \<Rightarrow> hb_state" where
  "update_heartbeat dev now st =
     (case map_of (hb_connections st) dev of
        None \<Rightarrow> st
      | Some c \<Rightarrow> st\<lparr>hb_connections := AList.update dev (c\<lparr>cn_last := now\<rparr>) (hb_connections st)\<rparr>)"

definition remove_connection :: "string \<Rightarrow> hb_state \<Rightarrow> hb_state" where
  "remove_connection dev st = st\<lparr>hb_connections := AList.delete dev (hb_connections st)\<rparr>"

definition get_connection :: "string \<Rightarrow> hb_state \<Rightarrow> connection option" where
  "get_connection dev st = map_of (hb_connections st) dev"

subsection \<open>The sweep\<close>

definition last_beat :: "connection option \<Rightarrow> hb_row \<Rightarrow> int" where
  "last_beat c row = (case c of
     Some k \<Rightarrow> cn_last k
   | None \<Rightarrow> (case hb_last row of None \<Rightarrow> 0 | Some s \<Rightarrow> s * 1000))"

definition mark_offline :: "hb_row \<Rightarrow> hb_state \<Rightarrow> hb_state" where
  "mark_offline row st =
     st\<lparr>hb_devices := map (\<lambda>r. if hb_id r = hb_id row then r\<lparr>hb_status := ''offline''\<rparr> else r) (hb_devices st),
        hb_connections := AList.delete (hb_id row) (hb_connections st),
        hb_effects := hb_effects st @ [StatusOffline (hb_id row)]
          @ (case hb_workspace row of Some w \<Rightarrow> if w \<noteq> [] then [RoomSnapshot w] else [] | None \<Rightarrow> [])
          @ [StatusLog (hb_id row), RecoverAudioOwner (hb_id row)]\<rparr>"

definition check_device :: "int \<Rightarrow> int \<Rightarrow> hb_row \<Rightarrow> hb_state \<Rightarrow> hb_state" where
  "check_device timeout now row st =
     (let c = get_connection (hb_id row) st in
      if is_connection_authoritative (JStr (hb_id row)) (c \<noteq> None) then st
      else if timeout < now - last_beat c row then mark_offline row st else st)"

definition clean_up :: "int \<Rightarrow> hb_state \<Rightarrow> hb_state" where
  "clean_up seconds st =
     st\<lparr>hb_devices := filter (\<lambda>r. \<not> (hb_status r = ''provisioning'' \<and> hb_user r = None
                                       \<and> hb_created r < seconds - 365 * 86400)) (hb_devices st),
        hb_play_logs := filter (\<lambda>t. \<not> t < seconds - 90 * 86400) (hb_play_logs st),
        hb_team_invites := filter (\<lambda>t. \<not> t < seconds) (hb_team_invites st),
        hb_workspace_invites := filter (\<lambda>t. \<not> t < seconds) (hb_workspace_invites st)\<rparr>"

definition heartbeat_tick :: "int \<Rightarrow> int \<Rightarrow> hb_state \<Rightarrow> hb_state" where
  "heartbeat_tick timeout now st =
     clean_up (now div 1000)
       (foldl (\<lambda>s row. check_device timeout now row s) st (filter (\<lambda>r. hb_status r = ''online'') (hb_devices st)))"

subsection \<open>Lemmas of the sweep\<close>

definition row_of :: "string \<Rightarrow> hb_state \<Rightarrow> hb_row option" where
  "row_of dev st = find (\<lambda>r. hb_id r = dev) (hb_devices st)"

definition distinct_ids :: "hb_state \<Rightarrow> bool" where
  "distinct_ids st \<longleftrightarrow> distinct (map hb_id (hb_devices st))"

definition gone_silent :: "int \<Rightarrow> int \<Rightarrow> connection option \<Rightarrow> hb_row \<Rightarrow> bool" where
  "gone_silent timeout now c row \<longleftrightarrow>
     \<not> is_connection_authoritative (JStr (hb_id row)) (c \<noteq> None) \<and> timeout < now - last_beat c row"

lemma find_map_id:
  "find (\<lambda>r. hb_id r = d) (map (\<lambda>r. if hb_id r = k then r\<lparr>hb_status := s\<rparr> else r) rows) =
     map_option (\<lambda>r. if d = k then r\<lparr>hb_status := s\<rparr> else r) (find (\<lambda>r. hb_id r = d) rows)"
  by (induction rows) auto

lemma check_device_simps:
  "get_connection d (check_device timeout now row st) =
     (if d = hb_id row \<and> gone_silent timeout now (get_connection d st) row then None else get_connection d st)"
  "row_of d (check_device timeout now row st) =
     (if d = hb_id row \<and> gone_silent timeout now (get_connection d st) row
      then map_option (hb_status_update (\<lambda>_. ''offline'')) (row_of d st) else row_of d st)"
  "map hb_id (hb_devices (check_device timeout now row st)) = map hb_id (hb_devices st)"
proof -
  have m: "map hb_id (map (\<lambda>r. if hb_id r = k then r\<lparr>hb_status := s\<rparr> else r) rows) = map hb_id rows" for k s rows
    by (induction rows) auto
  show "get_connection d (check_device timeout now row st) =
     (if d = hb_id row \<and> gone_silent timeout now (get_connection d st) row then None else get_connection d st)"
    by (auto simp: check_device_def Let_def gone_silent_def get_connection_def mark_offline_def delete_conv')
  show "row_of d (check_device timeout now row st) =
     (if d = hb_id row \<and> gone_silent timeout now (get_connection d st) row
      then map_option (hb_status_update (\<lambda>_. ''offline'')) (row_of d st) else row_of d st)"
    by (auto simp: check_device_def Let_def gone_silent_def row_of_def mark_offline_def find_map_id option.map_ident)
  show "map hb_id (hb_devices (check_device timeout now row st)) = map hb_id (hb_devices st)"
    by (simp add: check_device_def Let_def mark_offline_def m)
qed

lemma sweep_at:
  assumes "distinct (map hb_id rows)"
  shows "get_connection d (foldl (\<lambda>s row. check_device timeout now row s) st rows) =
      (case find (\<lambda>r. hb_id r = d) rows of
         None \<Rightarrow> get_connection d st
       | Some row \<Rightarrow> if gone_silent timeout now (get_connection d st) row then None else get_connection d st)"
    and "row_of d (foldl (\<lambda>s row. check_device timeout now row s) st rows) =
      (case find (\<lambda>r. hb_id r = d) rows of
         None \<Rightarrow> row_of d st
       | Some row \<Rightarrow> if gone_silent timeout now (get_connection d st) row
           then map_option (hb_status_update (\<lambda>_. ''offline'')) (row_of d st) else row_of d st)"
    and "map hb_id (hb_devices (foldl (\<lambda>s row. check_device timeout now row s) st rows)) = map hb_id (hb_devices st)"
  using assms
proof (induction rows arbitrary: st)
  case Nil
  {case 1 then show ?case by simp}
  {case 2 then show ?case by simp}
  {case 3 then show ?case by simp}
next
  case (Cons row rows)
  have none: "find (\<lambda>r. hb_id r = hb_id row) rows = None" if "distinct (map hb_id (row # rows))"
    using that unfolding find_None_iff by (metis distinct.simps(2) image_eqI image_set list.simps(9))
  {case 1 then show ?case using Cons.IH(1) [of "check_device timeout now row st"] none
      by (auto simp: check_device_simps split: option.splits)}
  {case 2 then show ?case using Cons.IH(2) [of "check_device timeout now row st"] none
      by (auto simp: check_device_simps split: option.splits)}
  {case 3 then show ?case using Cons.IH(3) [of "check_device timeout now row st"] by (simp add: check_device_simps)}
qed

definition expired :: "int \<Rightarrow> hb_row \<Rightarrow> bool" where
  "expired seconds r \<longleftrightarrow> hb_status r = ''provisioning'' \<and> hb_user r = None \<and> hb_created r < seconds - 365 * 86400"

lemma find_filter_distinct:
  assumes "distinct (map hb_id rows)"
  shows "find (\<lambda>r. hb_id r = d) (filter P rows) =
    (case find (\<lambda>r. hb_id r = d) rows of None \<Rightarrow> None | Some r \<Rightarrow> if P r then Some r else None)"
  using assms
proof (induction rows)
  case Nil
  then show ?case by simp
next
  case (Cons r rows)
  have "find (\<lambda>q. hb_id q = hb_id r) rows = None" if "hb_id r \<notin> hb_id ` set rows"
    using that unfolding find_None_iff by (metis image_eqI)
  with Cons show ?case by (auto split: option.splits)
qed

lemma row_of_clean_up:
  assumes "distinct_ids st"
  shows "row_of d (clean_up seconds st) =
    (case row_of d st of None \<Rightarrow> None | Some r \<Rightarrow> if expired seconds r then None else Some r)"
  using find_filter_distinct [OF assms [unfolded distinct_ids_def], of d "\<lambda>r. \<not> expired seconds r"]
  by (simp add: row_of_def clean_up_def expired_def split: option.splits)

lemma get_connection_clean_up [simp]: "get_connection d (clean_up seconds st) = get_connection d st"
  by (simp add: get_connection_def clean_up_def)

lemma distinct_ids_clean_up: "distinct_ids st \<Longrightarrow> distinct_ids (clean_up seconds st)"
  by (simp add: distinct_ids_def clean_up_def distinct_map_filter)

lemma tick_swept_ids:
  "distinct_ids st \<Longrightarrow> distinct_ids (foldl (\<lambda>s row. check_device timeout now row s) st (filter P (hb_devices st)))"
  by (simp add: distinct_ids_def sweep_at(3) distinct_map_filter)

lemma tick_row:
  assumes "distinct_ids st" "row_of dev st = Some row"
  shows "row_of dev (heartbeat_tick timeout now st) =
      (if hb_status row = ''online''
       then Some (if gone_silent timeout now (get_connection dev st) row then row\<lparr>hb_status := ''offline''\<rparr> else row)
       else if expired (now div 1000) row then None else Some row)"
    and "get_connection dev (heartbeat_tick timeout now st) =
      (if hb_status row = ''online'' \<and> gone_silent timeout now (get_connection dev st) row then None
       else get_connection dev st)"
    and "distinct_ids (heartbeat_tick timeout now st)"
proof -
  let ?rows = "filter (\<lambda>r. hb_status r = ''online'') (hb_devices st)"
  let ?s = "foldl (\<lambda>s row. check_device timeout now row s) st ?rows"
  have d: "distinct (map hb_id ?rows)" using assms(1) by (simp add: distinct_ids_def distinct_map_filter)
  have f: "find (\<lambda>r. hb_id r = dev) ?rows = (if hb_status row = ''online'' then Some row else None)"
    using find_filter_distinct [OF assms(1) [unfolded distinct_ids_def], of dev "\<lambda>r. hb_status r = ''online''"] assms(2)
    by (simp add: row_of_def)
  have ids: "distinct_ids ?s" by (rule tick_swept_ids) (rule assms(1))
  show "row_of dev (heartbeat_tick timeout now st) =
      (if hb_status row = ''online''
       then Some (if gone_silent timeout now (get_connection dev st) row then row\<lparr>hb_status := ''offline''\<rparr> else row)
       else if expired (now div 1000) row then None else Some row)"
    unfolding heartbeat_tick_def row_of_clean_up [OF ids] sweep_at(2) [OF d] f
    by (simp add: assms(2) expired_def)
  show "get_connection dev (heartbeat_tick timeout now st) =
      (if hb_status row = ''online'' \<and> gone_silent timeout now (get_connection dev st) row then None
       else get_connection dev st)"
    unfolding heartbeat_tick_def get_connection_clean_up sweep_at(1) [OF d] f by simp
  show "distinct_ids (heartbeat_tick timeout now st)"
    unfolding heartbeat_tick_def by (rule distinct_ids_clean_up) (rule ids)
qed

subsection \<open>Histories\<close>

datatype hb_event = Register string string | Beat string | Disconnect string | Sweep

fun hb_step :: "int \<Rightarrow> int \<times> hb_event \<Rightarrow> hb_state \<Rightarrow> hb_state" where
  "hb_step timeout (now, Register dev sock) st = register_connection dev sock now st"
| "hb_step timeout (now, Beat dev) st = update_heartbeat dev now st"
| "hb_step timeout (now, Disconnect dev) st = remove_connection dev st"
| "hb_step timeout (now, Sweep) st = heartbeat_tick timeout now st"

fun sign_of_life :: "string \<Rightarrow> int \<times> hb_event \<Rightarrow> bool" where
  "sign_of_life dev (_, Register d _) = (d = dev)"
| "sign_of_life dev (_, Beat d) = (d = dev)"
| "sign_of_life dev (_, Disconnect d) = False"
| "sign_of_life dev (_, Sweep) = False"

definition hb_run :: "int \<Rightarrow> (int \<times> hb_event) list \<Rightarrow> hb_state \<Rightarrow> hb_state" where
  "hb_run timeout evs st = foldl (\<lambda>s e. hb_step timeout e s) st evs"

text \<open>A display last heard of at \<open>t0\<close>: still online with no later beat, or offline and disconnected.\<close>

definition unheard :: "int \<Rightarrow> string \<Rightarrow> hb_state \<Rightarrow> bool" where
  "unheard t0 dev st \<longleftrightarrow> distinct_ids st \<and>
     (\<exists>row. row_of dev st = Some row \<and> hb_id row = dev \<and> last_beat None row \<le> t0
        \<and> (hb_status row = ''online'' \<and> last_beat (get_connection dev st) row \<le> t0
           \<or> hb_status row = ''offline'' \<and> get_connection dev st = None))"

lemma last_beat_offline [simp]: "last_beat c (row\<lparr>hb_status := s\<rparr>) = last_beat c row"
  by (simp add: last_beat_def split: option.splits)

lemma unheard_step:
  assumes "unheard t0 dev st" "\<not> sign_of_life dev e"
  shows "unheard t0 dev (hb_step timeout e st)"
proof -
  obtain now ev where e: "e = (now, ev)" by (cases e)
  from assms(1) obtain row where d: "distinct_ids st" and r: "row_of dev st = Some row" "hb_id row = dev"
      "last_beat None row \<le> t0"
    and c: "hb_status row = ''online'' \<and> last_beat (get_connection dev st) row \<le> t0
           \<or> hb_status row = ''offline'' \<and> get_connection dev st = None"
    unfolding unheard_def by blast
  show ?thesis
  proof (cases ev)
    case (Register d' sock)
    with assms d r c show ?thesis
      by (simp add: e unheard_def register_connection_def row_of_def get_connection_def distinct_ids_def update_conv')
  next
    case (Beat d')
    with assms d r c show ?thesis
      by (simp add: e unheard_def update_heartbeat_def row_of_def get_connection_def distinct_ids_def update_conv'
          split: option.splits)
  next
    case (Disconnect d')
    with assms d r c show ?thesis
      by (auto simp: e unheard_def remove_connection_def row_of_def get_connection_def distinct_ids_def delete_conv')
  next
    case Sweep
    note t = tick_row [OF d r(1), of timeout now]
    from c show ?thesis
    proof
      assume o: "hb_status row = ''online'' \<and> last_beat (get_connection dev st) row \<le> t0"
      with t r show ?thesis by (simp add: e Sweep unheard_def)
    next
      assume o: "hb_status row = ''offline'' \<and> get_connection dev st = None"
      with t r show ?thesis by (simp add: e Sweep unheard_def expired_def)
    qed
  qed
qed

lemma unheard_run:
  "unheard t0 dev st \<Longrightarrow> (\<And>e. e \<in> set evs \<Longrightarrow> \<not> sign_of_life dev e) \<Longrightarrow> unheard t0 dev (hb_run timeout evs st)"
  by (induction evs arbitrary: st) (simp_all add: hb_run_def unheard_step)

text \<open>A display that is not a program receiver and from which nothing is heard after \<open>t0\<close> is offline, and
  its connection forgotten, after the first sweep later than \<open>t0\<close> by more than the timeout, whatever other
  displays do in between.\<close>

theorem silent_display_goes_offline:
  assumes "distinct_ids st" "row_of dev st = Some row" "hb_id row = dev" "hb_status row = ''online''"
    and "\<not> is_program_receiver_id (JStr dev)"
    and "last_beat (get_connection dev st) row \<le> t0" "last_beat None row \<le> t0"
    and "\<forall>e\<in>set evs. \<not> sign_of_life dev e" "timeout < now - t0"
  shows "map_option hb_status (row_of dev (hb_run timeout (evs @ [(now, Sweep)]) st)) = Some ''offline''
    \<and> get_connection dev (hb_run timeout (evs @ [(now, Sweep)]) st) = None"
proof -
  have "unheard t0 dev st" using assms by (simp add: unheard_def)
  then have "unheard t0 dev (hb_run timeout evs st)" using assms(8) by (intro unheard_run) auto
  then obtain r where d: "distinct_ids (hb_run timeout evs st)" and r: "row_of dev (hb_run timeout evs st) = Some r" "hb_id r = dev"
    and c: "hb_status r = ''online'' \<and> last_beat (get_connection dev (hb_run timeout evs st)) r \<le> t0
           \<or> hb_status r = ''offline'' \<and> get_connection dev (hb_run timeout evs st) = None"
    unfolding unheard_def by blast
  note t = tick_row [OF d r(1), of timeout now]
  have s: "hb_run timeout (evs @ [(now, Sweep)]) st = heartbeat_tick timeout now (hb_run timeout evs st)"
    by (simp add: hb_run_def)
  have sil: "gone_silent timeout now (get_connection dev (hb_run timeout evs st)) r" if "hb_status r = ''online''"
    using that c assms(5,9) r(2) by (auto simp: gone_silent_def is_connection_authoritative_def)
  from c show ?thesis
  proof
    assume o: "hb_status r = ''online'' \<and> last_beat (get_connection dev (hb_run timeout evs st)) r \<le> t0"
    with t(1,2) sil show ?thesis by (simp add: s)
  next
    assume o: "hb_status r = ''offline'' \<and> get_connection dev (hb_run timeout evs st) = None"
    with t(1,2) show ?thesis by (simp add: s expired_def)
  qed
qed

text \<open>A sweep marks exactly the silent displays: an online row that beat within the timeout, or that is a
  program receiver with an open connection, keeps its status and its connection, and a row that is not online is
  touched only when it is an unclaimed provisioning row older than a year.\<close>

theorem sweep_marks_only_silent:
  assumes "distinct_ids st" "row_of dev st = Some row" "hb_id row = dev"
  shows "(if hb_status row = ''online'' \<and> timeout < now - last_beat (get_connection dev st) row
            \<and> \<not> (is_program_receiver_id (JStr dev) \<and> get_connection dev st \<noteq> None)
          then row_of dev (heartbeat_tick timeout now st) = Some (row\<lparr>hb_status := ''offline''\<rparr>)
            \<and> get_connection dev (heartbeat_tick timeout now st) = None
          else row_of dev (heartbeat_tick timeout now st) = (if expired (now div 1000) row then None else Some row)
            \<and> get_connection dev (heartbeat_tick timeout now st) = get_connection dev st)"
  using tick_row [OF assms(1,2), of timeout now] assms(3)
  by (auto simp: gone_silent_def is_connection_authoritative_def expired_def)

subsection \<open>Samples\<close>

definition sample_row :: "string \<Rightarrow> hb_row" where
  "sample_row dev = \<lparr>hb_id = dev, hb_status = ''online'', hb_workspace = Some ''w'', hb_user = Some ''u'',
     hb_last = Some 100, hb_created = 0\<rparr>"

definition sample_hb :: hb_state where
  "sample_hb = \<lparr>hb_connections = [(''a'', \<lparr>cn_socket = ''s1'', cn_last = 100000\<rparr>),
       (''live-stream-program-1'', \<lparr>cn_socket = ''s2'', cn_last = 100000\<rparr>)],
     hb_devices = [sample_row ''a'', sample_row ''live-stream-program-1''],
     hb_play_logs = [], hb_team_invites = [], hb_workspace_invites = [], hb_effects = []\<rparr>"

lemma silent_display_goes_offline_witness:
  "map_option hb_status (row_of ''a'' (hb_run 45000 ([(120000, Beat ''b''), (130000, Sweep)] @ [(150000, Sweep)]) sample_hb)) = Some ''offline''
   \<and> map_option hb_status (row_of ''a'' (hb_run 45000 [(120000, Beat ''b''), (130000, Sweep)] sample_hb)) = Some ''online''"
proof (rule conjI)
  have a: "distinct_ids sample_hb" "row_of ''a'' sample_hb = Some (sample_row ''a'')" "hb_id (sample_row ''a'') = ''a''"
    "hb_status (sample_row ''a'') = ''online''" "\<not> is_program_receiver_id (JStr ''a'')"
    "last_beat (get_connection ''a'' sample_hb) (sample_row ''a'') \<le> 100000" "last_beat None (sample_row ''a'') \<le> 100000"
    "\<forall>e\<in>set [(120000, Beat ''b''), (130000, Sweep)]. \<not> sign_of_life ''a'' e" "(45000 :: int) < 150000 - 100000"
    by code_simp+
  from silent_display_goes_offline [OF a]
  show "map_option hb_status (row_of ''a'' (hb_run 45000 ([(120000, Beat ''b''), (130000, Sweep)] @ [(150000, Sweep)]) sample_hb)) = Some ''offline''"
    by (rule conjunct1)
  show "map_option hb_status (row_of ''a'' (hb_run 45000 [(120000, Beat ''b''), (130000, Sweep)] sample_hb)) = Some ''online''"
    by code_simp
qed

lemma sweep_marks_only_silent_witness:
  "row_of ''live-stream-program-1'' (heartbeat_tick 45000 900000 sample_hb) = Some (sample_row ''live-stream-program-1'')
   \<and> row_of ''a'' (heartbeat_tick 45000 900000 sample_hb) = Some ((sample_row ''a'')\<lparr>hb_status := ''offline''\<rparr>)"
proof (rule conjI)
  have a: "distinct_ids sample_hb" "row_of ''live-stream-program-1'' sample_hb = Some (sample_row ''live-stream-program-1'')"
    "hb_id (sample_row ''live-stream-program-1'') = ''live-stream-program-1''"
    and b: "row_of ''a'' sample_hb = Some (sample_row ''a'')" "hb_id (sample_row ''a'') = ''a''"
    by code_simp+
  have c: "is_program_receiver_id (JStr ''live-stream-program-1'')" "get_connection ''live-stream-program-1'' sample_hb \<noteq> None"
    "\<not> expired (900000 div 1000) (sample_row ''live-stream-program-1'')"
    and d: "hb_status (sample_row ''a'') = ''online''" "(45000 :: int) < 900000 - last_beat (get_connection ''a'' sample_hb) (sample_row ''a'')"
    "\<not> is_program_receiver_id (JStr ''a'')"
    by code_simp+
  from sweep_marks_only_silent [OF a, of 45000 900000] c
  show "row_of ''live-stream-program-1'' (heartbeat_tick 45000 900000 sample_hb) = Some (sample_row ''live-stream-program-1'')"
    by (simp split: if_splits)
  from sweep_marks_only_silent [OF a(1) b, of 45000 900000] d
  show "row_of ''a'' (heartbeat_tick 45000 900000 sample_hb) = Some ((sample_row ''a'')\<lparr>hb_status := ''offline''\<rparr>)"
    by (simp split: if_splits)
qed

end
