(* ===== verification/LiveProduction.thy ===== *)
theory LiveProduction
  imports Prelude
begin

text \<open>
  The cache of the public director and recorder state of each workspace
  (\<open>server/lib/live-production-state.js\<close>): what a director response is reduced to, failed observations,
  staleness, and the last live-stream error.

  \<open>clock\<close> is \<open>Date.now()\<close>, used where the caller passes no finite \<open>now\<close>. A thrown \<open>TypeError\<close> or
  \<open>RangeError\<close> is the left side of a sum.
\<close>

subsection \<open>Data\<close>

datatype lp_error = WorkspaceRequired | WorkspaceTooLong

record stream_state =
  ss_status :: string
  ss_active :: "bool option"
  ss_reachable :: "bool option"
  ss_stale :: bool
  ss_scene :: "string option"
  ss_mode :: "string option"
  ss_source :: "string option"
  ss_updated :: "rat option"
  ss_checked :: "rat option"

record recording_state =
  rs_status :: string
  rs_active :: "bool option"
  rs_reachable :: "bool option"
  rs_stale :: bool
  rs_updated :: "rat option"
  rs_checked :: "rat option"

record production =
  pr_stream :: stream_state
  pr_recording :: recording_state

record last_error =
  le_code :: "string option"
  le_message :: "string option"
  le_at :: rat
  le_request :: jsval

record lp_state =
  lp_states :: "(string \<times> production) list"
  lp_errors :: "(string \<times> last_error) list"

subsection \<open>Reading the director response\<close>

definition default_stale_after_ms :: rat where
  "default_stale_after_ms = 30000"

definition normalize_workspace_id :: "jsval \<Rightarrow> lp_error + string" where
  "normalize_workspace_id v =
     (let n = (case v of JStr s \<Rightarrow> trim s | _ \<Rightarrow> []) in
      if n = [] then Inl WorkspaceRequired
      else if 255 < length n then Inl WorkspaceTooLong else Inr n)"

definition is_control :: "char \<Rightarrow> bool" where
  "is_control c \<longleftrightarrow> code c \<le> 31 \<or> code c = 127"

definition safe_text :: "jsval \<Rightarrow> nat \<Rightarrow> string option" where
  "safe_text v n = (case v of
     JStr s \<Rightarrow> (let t = trim (filter (\<lambda>c. \<not> is_control c) s) in if t = [] then None else Some (take n t))
   | _ \<Rightarrow> None)"

definition explicit_boolean :: "jsval \<Rightarrow> string list \<Rightarrow> bool option" where
  "explicit_boolean data keys =
     (case map (fld data) (filter (has_own data) keys) of
        [] \<Rightarrow> None
      | v # vs \<Rightarrow> (case v of JBool b \<Rightarrow> if list_all (\<lambda>w. w = JBool b) vs then Some b else None | _ \<Rightarrow> None))"

definition status_for :: "bool option \<Rightarrow> string \<Rightarrow> string" where
  "status_for active name = (case active of None \<Rightarrow> ''unknown'' | Some b \<Rightarrow> if b then name else ''stopped'')"

definition finite_or :: "jsval \<Rightarrow> rat \<Rightarrow> rat" where
  "finite_or v d = (case to_num v of Fin r \<Rightarrow> r | _ \<Rightarrow> d)"

definition map_director_status :: "jsval \<Rightarrow> rat \<Rightarrow> production" where
  "map_director_status data timestamp =
     (let source = (if is_plain_object data then data else JObj []);
          stream_active = explicit_boolean source [''stream_active''];
          recording_active = explicit_boolean source [''recording_active'', ''record_active''];
          director = (if is_object (fld source ''director'') then fld source ''director'' else JObj []);
          active_source = (if fld director ''active_source'' = JStr ''anpviz'' then Some ''anpviz'' else None)
      in \<lparr>pr_stream = \<lparr>ss_status = status_for stream_active ''live'', ss_active = stream_active,
             ss_reachable = Some True, ss_stale = False, ss_scene = safe_text (fld source ''current_scene'') 160,
             ss_mode = safe_text (fld source ''mode'') 40, ss_source = active_source,
             ss_updated = Some timestamp, ss_checked = Some timestamp\<rparr>,
          pr_recording = \<lparr>rs_status = status_for recording_active ''recording'', rs_active = recording_active,
             rs_reachable = Some True, rs_stale = False, rs_updated = Some timestamp, rs_checked = Some timestamp\<rparr>\<rparr>)"

definition empty_production :: production where
  "empty_production =
     \<lparr>pr_stream = \<lparr>ss_status = ''unknown'', ss_active = None, ss_reachable = None, ss_stale = True, ss_scene = None,
        ss_mode = None, ss_source = None, ss_updated = None, ss_checked = None\<rparr>,
      pr_recording = \<lparr>rs_status = ''unknown'', rs_active = None, rs_reachable = None, rs_stale = True,
        rs_updated = None, rs_checked = None\<rparr>\<rparr>"

text \<open>The state without its times. Its JSON text determines it, so that equal texts are equal states.\<close>

definition semantic_state :: "production \<Rightarrow> production" where
  "semantic_state p = p\<lparr>pr_stream := (pr_stream p)\<lparr>ss_updated := None, ss_checked := None\<rparr>,
                        pr_recording := (pr_recording p)\<lparr>rs_updated := None, rs_checked := None\<rparr>\<rparr>"

definition semantically_equal :: "production \<Rightarrow> production \<Rightarrow> bool" where
  "semantically_equal p q \<longleftrightarrow> semantic_state p = semantic_state q"

definition failed_observation :: "production option \<Rightarrow> rat \<Rightarrow> production" where
  "failed_observation previous now =
     (let p = (case previous of None \<Rightarrow> empty_production | Some q \<Rightarrow> q) in
      p\<lparr>pr_stream := (pr_stream p)\<lparr>ss_reachable := Some False, ss_stale := True, ss_checked := Some now, ss_updated := Some now\<rparr>,
        pr_recording := (pr_recording p)\<lparr>rs_reachable := Some False, rs_stale := True, rs_checked := Some now, rs_updated := Some now\<rparr>\<rparr>)"

subsection \<open>Operations\<close>

definition keep_times :: "production \<Rightarrow> production \<Rightarrow> production" where
  "keep_times previous p =
     p\<lparr>pr_stream := (pr_stream p)\<lparr>ss_updated := ss_updated (pr_stream previous)\<rparr>,
       pr_recording := (pr_recording p)\<lparr>rs_updated := rs_updated (pr_recording previous)\<rparr>\<rparr>"

definition observation :: "jsval \<Rightarrow> rat \<Rightarrow> production option \<Rightarrow> production" where
  "observation result now previous =
     (if fld result ''ok'' = JBool True then map_director_status (fld result ''data'') now
      else failed_observation previous now)"

definition update_live_production ::
  "jsval \<Rightarrow> jsval \<Rightarrow> jsval \<Rightarrow> rat \<Rightarrow> lp_state \<Rightarrow> (lp_error + (bool \<times> production)) \<times> lp_state" where
  "update_live_production workspace result now_opt clock st =
     (case normalize_workspace_id workspace of
        Inl e \<Rightarrow> (Inl e, st)
      | Inr i \<Rightarrow>
          (let now = finite_or now_opt clock;
               previous = map_of (lp_states st) i;
               candidate = observation result now previous;
               changed = (case previous of None \<Rightarrow> True | Some p \<Rightarrow> \<not> semantically_equal p candidate);
               final = (case previous of None \<Rightarrow> candidate
                        | Some p \<Rightarrow> if changed then candidate else keep_times p candidate)
           in (Inr (changed, final), st\<lparr>lp_states := AList.update i final (lp_states st)\<rparr>)))"

definition older_than :: "rat option \<Rightarrow> rat \<Rightarrow> rat \<Rightarrow> bool" where
  "older_than checked now limit = (case checked of None \<Rightarrow> True | Some t \<Rightarrow> limit < now - t)"

definition stale_after_of :: "jsval \<Rightarrow> rat" where
  "stale_after_of v = (case to_num v of Fin r \<Rightarrow> max 0 r | _ \<Rightarrow> default_stale_after_ms)"

definition get_live_production ::
  "jsval \<Rightarrow> jsval \<Rightarrow> jsval \<Rightarrow> rat \<Rightarrow> lp_state \<Rightarrow> lp_error + production" where
  "get_live_production workspace now_opt stale_opt clock st =
     (case normalize_workspace_id workspace of
        Inl e \<Rightarrow> Inl e
      | Inr i \<Rightarrow>
          (let now = finite_or now_opt clock; limit = stale_after_of stale_opt;
               p = (case map_of (lp_states st) i of None \<Rightarrow> empty_production | Some q \<Rightarrow> q)
           in Inr (p\<lparr>pr_stream := (pr_stream p)\<lparr>ss_stale := ss_stale (pr_stream p) \<or> older_than (ss_checked (pr_stream p)) now limit\<rparr>,
                     pr_recording := (pr_recording p)\<lparr>rs_stale := rs_stale (pr_recording p) \<or> older_than (rs_checked (pr_recording p)) now limit\<rparr>\<rparr>)))"

definition set_last_error ::
  "jsval \<Rightarrow> jsval \<Rightarrow> jsval \<Rightarrow> rat \<Rightarrow> lp_state \<Rightarrow> (lp_error + last_error option) \<times> lp_state" where
  "set_last_error workspace err now_opt clock st =
     (case normalize_workspace_id workspace of
        Inl e \<Rightarrow> (Inl e, st)
      | Inr i \<Rightarrow>
          if \<not> truthy err \<or> \<not> truthy (fld err ''code'')
          then (Inr None, st\<lparr>lp_errors := AList.delete i (lp_errors st)\<rparr>)
          else (let entry = \<lparr>le_code = safe_text (JStr (to_str (fld err ''code''))) 80,
                      le_message = safe_text (JStr (to_str (js_or (js_or (fld err ''message'') (fld err ''error'')) (JStr [])))) 240,
                      le_at = finite_or now_opt clock,
                      le_request = js_or (js_or (fld err ''requestId'') (fld err ''request_id'')) JNull\<rparr>
                in (Inr (Some entry), st\<lparr>lp_errors := AList.update i entry (lp_errors st)\<rparr>)))"

definition clear_last_error :: "jsval \<Rightarrow> lp_state \<Rightarrow> (lp_error + unit) \<times> lp_state" where
  "clear_last_error workspace st =
     (case normalize_workspace_id workspace of
        Inl e \<Rightarrow> (Inl e, st)
      | Inr i \<Rightarrow> (Inr (), st\<lparr>lp_errors := AList.delete i (lp_errors st)\<rparr>))"

definition get_last_error :: "jsval \<Rightarrow> lp_state \<Rightarrow> lp_error + last_error option" where
  "get_last_error workspace st =
     (case normalize_workspace_id workspace of Inl e \<Rightarrow> Inl e | Inr i \<Rightarrow> Inr (map_of (lp_errors st) i))"

subsection \<open>What the cache may hold\<close>

definition clean_text :: "nat \<Rightarrow> string option \<Rightarrow> bool" where
  "clean_text n t = (case t of None \<Rightarrow> True | Some s \<Rightarrow> s \<noteq> [] \<and> length s \<le> n \<and> list_all (\<lambda>c. \<not> is_control c) s)"

definition public_stream :: "stream_state \<Rightarrow> bool" where
  "public_stream s \<longleftrightarrow> ss_status s = status_for (ss_active s) ''live'' \<and> clean_text 160 (ss_scene s)
     \<and> clean_text 40 (ss_mode s) \<and> (ss_source s = None \<or> ss_source s = Some ''anpviz'')"

definition public_production :: "production \<Rightarrow> bool" where
  "public_production p \<longleftrightarrow> public_stream (pr_stream p)
     \<and> rs_status (pr_recording p) = status_for (rs_active (pr_recording p)) ''recording''"

definition public_error :: "last_error \<Rightarrow> bool" where
  "public_error e \<longleftrightarrow> clean_text 80 (le_code e) \<and> clean_text 240 (le_message e)"

definition public_cache :: "lp_state \<Rightarrow> bool" where
  "public_cache st \<longleftrightarrow> list_all (\<lambda>(i, p). public_production p) (lp_states st) \<and> list_all (\<lambda>(i, e). public_error e) (lp_errors st)"

lemma set_trim: "set (trim s) \<subseteq> set s"
proof -
  have "set (dropWhile P xs) \<subseteq> set xs" for P and xs :: string by (auto dest: set_dropWhileD)
  then show ?thesis unfolding trim_def set_rev by (metis set_rev subset_trans)
qed

lemma safe_text_clean: "0 < n \<Longrightarrow> clean_text n (safe_text v n)"
proof (cases v)
  case (JStr s)
  assume n: "0 < n"
  let ?t = "trim (filter (\<lambda>c. \<not> is_control c) s)"
  have "set (take n ?t) \<subseteq> {c. \<not> is_control c}"
    using set_trim [of "filter (\<lambda>c. \<not> is_control c) s"] set_take_subset [of n ?t] by auto
  then show ?thesis using n by (auto simp: JStr safe_text_def clean_text_def Let_def list_all_iff)
qed (simp_all add: safe_text_def clean_text_def)

lemma public_empty: "public_production empty_production"
  by (simp add: empty_production_def public_production_def public_stream_def clean_text_def status_for_def)

lemma public_mapped: "public_production (map_director_status data now)"
  by (simp add: map_director_status_def public_production_def public_stream_def safe_text_clean Let_def)

lemma public_failed:
  "(\<And>p. previous = Some p \<Longrightarrow> public_production p) \<Longrightarrow> public_production (failed_observation previous now)"
  using public_empty
  by (cases previous) (simp_all add: failed_observation_def public_production_def public_stream_def Let_def)

lemma public_keep: "public_production (keep_times q p) = public_production p"
  by (simp add: keep_times_def public_production_def public_stream_def)

lemma list_all_update: "list_all (\<lambda>(i, p). P p) m \<Longrightarrow> P v \<Longrightarrow> list_all (\<lambda>(i, p). P p) (AList.update k v m)"
  by (induction m) auto

lemma list_all_delete: "list_all (\<lambda>(i, p). P p) m \<Longrightarrow> list_all (\<lambda>(i, p). P p) (AList.delete k m)"
  by (simp add: AList.delete_eq list_all_iff)

lemma public_lookup: "list_all (\<lambda>(i, p). P p) m \<Longrightarrow> map_of m k = Some v \<Longrightarrow> P v"
  by (auto simp: list_all_iff dest!: map_of_SomeD)

text \<open>Whatever the director sends, the cache holds only clean public data: a status that agrees with its
  flag, texts free of control characters within their length limits and the one known source; and every
  operation keeps it so, errors included.\<close>

theorem cache_stays_public:
  assumes "public_cache st"
  shows "public_cache (snd (update_live_production w result n clock st))
    \<and> public_cache (snd (set_last_error w err n clock st)) \<and> public_cache (snd (clear_last_error w st))
    \<and> (case get_live_production w n stale clock st of Inl e \<Rightarrow> True | Inr p \<Rightarrow> public_production p)"
proof (intro conjI)
  have s: "list_all (\<lambda>(i, p). public_production p) (lp_states st)" and e: "list_all (\<lambda>(i, e). public_error e) (lp_errors st)"
    using assms by (simp_all add: public_cache_def)
  show "public_cache (snd (update_live_production w result n clock st))"
  proof (cases "normalize_workspace_id w")
    case (Inl err)
    with assms show ?thesis by (simp add: update_live_production_def)
  next
    case (Inr i)
    have "public_production (failed_observation (map_of (lp_states st) i) (finite_or n clock))"
      by (rule public_failed) (rule public_lookup [OF s])
    then have o: "public_production (observation result (finite_or n clock) (map_of (lp_states st) i))"
      by (simp add: observation_def public_mapped)
    then show ?thesis using s e
      by (cases "map_of (lp_states st) i")
         (simp_all add: Inr update_live_production_def public_cache_def Let_def list_all_update public_keep)
  qed
  show "public_cache (snd (set_last_error w err n clock st))"
    using s e by (simp add: set_last_error_def public_cache_def Let_def list_all_update list_all_delete public_error_def
        safe_text_clean split: sum.split)
  show "public_cache (snd (clear_last_error w st))"
    using s e by (simp add: clear_last_error_def public_cache_def list_all_delete split: sum.split)
  have "public_production p" if "map_of (lp_states st) i = Some p" for i p by (rule public_lookup [OF s that])
  then show "case get_live_production w n stale clock st of Inl e \<Rightarrow> True | Inr p \<Rightarrow> public_production p"
    using public_empty
    by (simp add: get_live_production_def Let_def public_production_def public_stream_def split: sum.split option.split)
qed

lemma cache_stays_public_witness:
  "public_cache (snd (update_live_production (JStr ''w'') (JObj [(''ok'', JBool True), (''data'', JObj [(''stream_active'', JBool True),
      (''obs_password'', JStr ''s3cret'')])]) (jint 5) 0 \<lparr>lp_states = [], lp_errors = []\<rparr>))
   \<and> lp_states (snd (update_live_production (JStr ''w'') (JObj [(''ok'', JBool True), (''data'', JObj [(''stream_active'', JBool True),
      (''obs_password'', JStr ''s3cret'')])]) (jint 5) 0 \<lparr>lp_states = [], lp_errors = []\<rparr>)) \<noteq> []"
proof (rule conjI)
  have "public_cache \<lparr>lp_states = [], lp_errors = []\<rparr>" by (simp add: public_cache_def)
  from cache_stays_public [OF this]
  show "public_cache (snd (update_live_production (JStr ''w'') (JObj [(''ok'', JBool True), (''data'', JObj [(''stream_active'', JBool True),
      (''obs_password'', JStr ''s3cret'')])]) (jint 5) 0 \<lparr>lp_states = [], lp_errors = []\<rparr>))" by blast
  show "lp_states (snd (update_live_production (JStr ''w'') (JObj [(''ok'', JBool True), (''data'', JObj [(''stream_active'', JBool True),
      (''obs_password'', JStr ''s3cret'')])]) (jint 5) 0 \<lparr>lp_states = [], lp_errors = []\<rparr>)) \<noteq> []"
    by code_simp
qed

text \<open>An update is reported as a change exactly when something other than its times differs from the cached
  state, and only then the time of the last change moves; reading the workspace back within the stale limit gives the
  state the update returned, and no other workspace is touched.\<close>

theorem update_reports_changes:
  assumes "update_live_production w result n clock st = (Inr (changed, p), st')" "normalize_workspace_id w = Inr i"
  shows "changed = (case map_of (lp_states st) i of None \<Rightarrow> True | Some q \<Rightarrow> \<not> semantically_equal q p)
    \<and> ss_updated (pr_stream p) = (case map_of (lp_states st) i of
          Some q \<Rightarrow> if changed then Some (finite_or n clock) else ss_updated (pr_stream q) | None \<Rightarrow> Some (finite_or n clock))
    \<and> ss_checked (pr_stream p) = Some (finite_or n clock)
    \<and> (finite_or m clock - finite_or n clock \<le> stale_after_of stale \<longrightarrow> get_live_production w m stale clock st' = Inr p)
    \<and> (\<forall>j. j \<noteq> i \<longrightarrow> map_of (lp_states st') j = map_of (lp_states st) j) \<and> lp_errors st' = lp_errors st"
proof -
  let ?now = "finite_or n clock"
  let ?c = "observation result ?now (map_of (lp_states st) i)"
  have times: "ss_updated (pr_stream ?c) = Some ?now" "ss_checked (pr_stream ?c) = Some ?now" "rs_checked (pr_recording ?c) = Some ?now"
    by (simp_all add: observation_def map_director_status_def failed_observation_def Let_def)
  have keep: "semantic_state (keep_times q r) = semantic_state r" for q r
    by (simp add: semantic_state_def keep_times_def)
  have ch: "changed = (case map_of (lp_states st) i of None \<Rightarrow> True | Some q \<Rightarrow> \<not> semantically_equal q ?c)"
    and p: "p = (case map_of (lp_states st) i of None \<Rightarrow> ?c | Some q \<Rightarrow> if changed then ?c else keep_times q ?c)"
    and st': "st' = st\<lparr>lp_states := AList.update i p (lp_states st)\<rparr>"
    using assms by (auto simp: update_live_production_def Let_def)
  have a: "changed = (case map_of (lp_states st) i of None \<Rightarrow> True | Some q \<Rightarrow> \<not> semantically_equal q p)"
    using ch by (cases "map_of (lp_states st) i") (simp_all add: p semantically_equal_def keep)
  have b: "ss_checked (pr_stream p) = Some ?now" "rs_checked (pr_recording p) = Some ?now"
    using times by (cases "map_of (lp_states st) i"; simp add: p keep_times_def)+
  have c: "ss_updated (pr_stream p) = (case map_of (lp_states st) i of
          Some q \<Rightarrow> if changed then Some ?now else ss_updated (pr_stream q) | None \<Rightarrow> Some ?now)"
    using times(1) by (cases "map_of (lp_states st) i") (simp_all add: p keep_times_def)
  have u: "p\<lparr>pr_stream := (pr_stream p)\<lparr>ss_stale := ss_stale (pr_stream p)\<rparr>,
             pr_recording := (pr_recording p)\<lparr>rs_stale := rs_stale (pr_recording p)\<rparr>\<rparr> = p" by simp
  have d: "get_live_production w m stale clock st' = Inr p" if "finite_or m clock - ?now \<le> stale_after_of stale"
    using that b u by (simp add: get_live_production_def assms(2) Let_def st' older_than_def not_less update_conv')
  show ?thesis
    using a b(1) c d by (simp add: st' update_conv')
qed

lemma update_reports_changes_witness:
  "\<exists>p st'. update_live_production (JStr ''w'') (JObj []) (jint 7) 0 \<lparr>lp_states = [], lp_errors = []\<rparr> = (Inr (True, p), st')
     \<and> get_live_production (JStr ''w'') (jint 9) JUndef 0 st' = Inr p \<and> ss_checked (pr_stream p) = Some 7"
proof -
  let ?u = "update_live_production (JStr ''w'') (JObj []) (jint 7) 0 \<lparr>lp_states = [], lp_errors = []\<rparr>"
  have n: "normalize_workspace_id (JStr ''w'') = Inr ''w''" by code_simp
  have "case fst ?u of Inr (c, _) \<Rightarrow> c | Inl _ \<Rightarrow> False" by code_simp
  then obtain p st' where u: "?u = (Inr (True, p), st')" by (cases ?u) (auto split: sum.splits)
  have t: "finite_or (jint 9) 0 - finite_or (jint 7) 0 \<le> stale_after_of JUndef" "finite_or (jint 7) 0 = 7"
    by code_simp+
  from update_reports_changes [OF u n, of "jint 9" JUndef] t u show ?thesis by auto
qed

end
