(* ===== verification/Whiteboard.thy ===== *)
theory Whiteboard
  imports Prelude
begin

text \<open>
  The whiteboard of a display (\<open>server/services/whiteboard-state.js\<close>): the normalisation of strokes that
  players and smartboards send, the stored session of each workspace and display, and its undo and redo.

  The table \<open>whiteboard_sessions\<close> is an association list; its \<open>strokes_json\<close> column is the value its text parses
  to. An absent workspace or device id is the empty string. The \<open>workspace_id\<close> column of the devices is a field of
  the state, and what is emitted to a player a list of event names.
\<close>

subsection \<open>Strokes\<close>

record stroke =
  k_points :: "(rat \<times> rat) list"
  k_color :: string
  k_size :: int
  k_tool :: string
  k_font :: "string option"
  k_text :: "string option"
  k_id :: "string option"
  k_phase :: "string option"

definition tools :: "string list" where
  "tools = [''pen'', ''highlighter'', ''eraser'', ''text'', ''line'', ''rect'', ''ellipse'']"

definition text_fonts :: "string list" where
  "text_fonts = [''sans'', ''serif'', ''mono'']"

definition clamp_unit :: "rat \<Rightarrow> rat" where
  "clamp_unit x = max 0 (min 1 x)"

text \<open>\<open>point && point.x\<close> is the point itself when it is falsy, so that \<open>null\<close> counts as the number 0.\<close>

definition member_of :: "jsval \<Rightarrow> string \<Rightarrow> jsval" where
  "member_of v k = (if truthy v then fld v k else v)"

definition normalize_point :: "jsval \<Rightarrow> (rat \<times> rat) option" where
  "normalize_point p =
     (case to_num (member_of p ''x'') of
        Fin x \<Rightarrow> (case to_num (member_of p ''y'') of Fin y \<Rightarrow> Some (clamp_unit x, clamp_unit y) | _ \<Rightarrow> None)
      | _ \<Rightarrow> None)"

definition is_hex_color :: "string \<Rightarrow> bool" where
  "is_hex_color s = (case s of
     [] \<Rightarrow> False
   | c # r \<Rightarrow> c = CHR ''#'' \<and> 3 \<le> length r \<and> length r \<le> 8 \<and> list_all (\<lambda>d. radix_digit 16 d \<noteq> None) r)"

definition valid_color :: "jsval \<Rightarrow> string" where
  "valid_color c = (case c of JStr s \<Rightarrow> if is_hex_color s then s else ''#111827'' | _ \<Rightarrow> ''#111827'')"

definition clamp_size :: "jsval \<Rightarrow> int \<Rightarrow> int \<Rightarrow> int \<Rightarrow> int" where
  "clamp_size v lo hi dflt = (case to_num v of Fin r \<Rightarrow> max lo (min hi (js_round r)) | _ \<Rightarrow> dflt)"

definition short_text :: "jsval \<Rightarrow> nat \<Rightarrow> string option" where
  "short_text v n = (case v of JStr s \<Rightarrow> if length s \<le> n then Some s else None | _ \<Rightarrow> None)"

definition copy_id_phase :: "jsval \<Rightarrow> stroke \<Rightarrow> stroke" where
  "copy_id_phase v out = out\<lparr>k_id := short_text (fld v ''stroke_id'') 80, k_phase := short_text (fld v ''phase'') 16\<rparr>"

definition one_of :: "string list \<Rightarrow> string \<Rightarrow> jsval \<Rightarrow> string" where
  "one_of allowed dflt v = (case v of JStr s \<Rightarrow> if s \<in> set allowed then s else dflt | _ \<Rightarrow> dflt)"

definition ends_of :: "'a list \<Rightarrow> 'a list" where
  "ends_of ps = (case ps of p # q # r \<Rightarrow> [p, last (q # r)] | _ \<Rightarrow> [])"

definition normalize_stroke :: "jsval \<Rightarrow> stroke option" where
  "normalize_stroke v =
     (if \<not> is_object v then None
      else let tool = one_of tools ''pen'' (fld v ''tool''); color = valid_color (fld v ''color'') in
        if tool = ''text'' then
          (let first = (case fld v ''points'' of JArr (p # _) \<Rightarrow> p | JArr [] \<Rightarrow> JUndef | _ \<Rightarrow> JNull);
               raw = js_or first (JObj [(''x'', fld v ''x''), (''y'', fld v ''y'')]);
               text = take 500 (if is_nullish (fld v ''text'') then [] else to_str (fld v ''text''))
           in case normalize_point raw of
                None \<Rightarrow> None
              | Some p \<Rightarrow>
                  if text = [] then None
                  else Some (copy_id_phase v \<lparr>k_points = [p], k_color = color, k_size = clamp_size (fld v ''size'') 8 200 24,
                    k_tool = tool, k_font = Some (one_of text_fonts ''sans'' (fld v ''font'')), k_text = Some text,
                    k_id = None, k_phase = None\<rparr>))
        else if tool \<in> {''line'', ''rect'', ''ellipse''} then
          (let ps = List.map_filter normalize_point (array_items (fld v ''points'')) in
           if length ps < 2 then None
           else Some (copy_id_phase v \<lparr>k_points = ends_of ps, k_color = color, k_size = clamp_size (fld v ''size'') 1 96 6,
             k_tool = tool, k_font = None, k_text = None, k_id = None, k_phase = None\<rparr>))
        else if \<not> is_array (fld v ''points'') then None
        else
          (let ps = take 4000 (List.map_filter normalize_point (array_items (fld v ''points''))) in
           if ps = [] then None
           else Some (copy_id_phase v \<lparr>k_points = ps, k_color = color, k_size = clamp_size (fld v ''size'') 1 96 6,
             k_tool = tool, k_font = None, k_text = None, k_id = None, k_phase = None\<rparr>)))"

text \<open>A stroke as \<open>JSON.stringify\<close> writes it: absent members vanish.\<close>

definition point_json :: "rat \<times> rat \<Rightarrow> jsval" where
  "point_json p = JObj [(''x'', JNum (Fin (fst p))), (''y'', JNum (Fin (snd p)))]"

definition optional_field :: "string \<Rightarrow> string option \<Rightarrow> (string \<times> jsval) list" where
  "optional_field k v = (case v of None \<Rightarrow> [] | Some s \<Rightarrow> [(k, JStr s)])"

definition stroke_json :: "stroke \<Rightarrow> jsval" where
  "stroke_json s = JObj ([(''points'', JArr (map point_json (k_points s))), (''color'', JStr (k_color s)),
     (''size'', jint (k_size s)), (''tool'', JStr (k_tool s))]
     @ optional_field ''font'' (k_font s) @ optional_field ''text'' (k_text s)
     @ optional_field ''stroke_id'' (k_id s) @ optional_field ''phase'' (k_phase s))"

subsection \<open>Sessions\<close>

record session =
  x_workspace :: string
  x_device :: string
  x_strokes :: "stroke list"

record wb_state =
  wb_device_workspace :: "string \<Rightarrow> string"     \<comment> \<open>empty when the device or its workspace is missing\<close>
  wb_sessions :: "((string \<times> string) \<times> (jsval \<times> int)) list"   \<comment> \<open>strokes and time of the last write\<close>
  wb_redo :: "(string \<times> stroke list) list"
  wb_emitted :: "(string \<times> string) list"

definition parse_strokes :: "jsval \<Rightarrow> stroke list" where
  "parse_strokes v = List.map_filter normalize_stroke (array_items v)"

definition get_session :: "string \<Rightarrow> string \<Rightarrow> wb_state \<Rightarrow> session" where
  "get_session ws dev st =
     \<lparr>x_workspace = ws, x_device = dev,
      x_strokes = (if ws = [] \<or> dev = [] then []
                   else case map_of (wb_sessions st) (ws, dev) of None \<Rightarrow> [] | Some row \<Rightarrow> parse_strokes (fst row))\<rparr>"

definition last_n :: "nat \<Rightarrow> 'a list \<Rightarrow> 'a list" where
  "last_n n xs = drop (length xs - n) xs"

definition save_session :: "int \<Rightarrow> string \<Rightarrow> string \<Rightarrow> stroke list \<Rightarrow> wb_state \<Rightarrow> wb_state" where
  "save_session now ws dev strokes st =
     (if ws = [] \<or> dev = [] then st
      else (let safe = last_n 2000 (List.map_filter (\<lambda>s. normalize_stroke (stroke_json s)) strokes) in
        st\<lparr>wb_sessions := AList.update (ws, dev) (JArr (map stroke_json safe), now) (wb_sessions st)\<rparr>))"

definition resolve_ws :: "string \<Rightarrow> string \<Rightarrow> wb_state \<Rightarrow> string" where
  "resolve_ws ws dev st = (if ws \<noteq> [] then ws else wb_device_workspace st dev)"

definition start_session :: "int \<Rightarrow> string \<Rightarrow> string \<Rightarrow> wb_state \<Rightarrow> session \<times> wb_state" where
  "start_session now workspace dev st =
     (let ws = resolve_ws workspace dev st in
      if ws = [] \<or> dev = [] then (\<lparr>x_workspace = ws, x_device = dev, x_strokes = []\<rparr>, st)
      else (let st' = (case map_of (wb_sessions st) (ws, dev) of
                         None \<Rightarrow> st\<lparr>wb_sessions := AList.update (ws, dev) (JArr [], now) (wb_sessions st)\<rparr>
                       | Some _ \<Rightarrow> st)
            in (get_session ws dev st', st')))"

definition redo_cap :: nat where
  "redo_cap = 50"

definition redo_key :: "string \<Rightarrow> string \<Rightarrow> string" where
  "redo_key ws dev = (if ws = [] then ''_'' else ws) @ '':'' @ (if dev = [] then ''_'' else dev)"

definition redo_stack :: "string \<Rightarrow> string \<Rightarrow> wb_state \<Rightarrow> stroke list" where
  "redo_stack ws dev st = (case map_of (wb_redo st) (redo_key ws dev) of None \<Rightarrow> [] | Some r \<Rightarrow> r)"

definition set_redo :: "string \<Rightarrow> string \<Rightarrow> stroke list \<Rightarrow> wb_state \<Rightarrow> wb_state" where
  "set_redo ws dev r st = st\<lparr>wb_redo := AList.update (redo_key ws dev) r (wb_redo st)\<rparr>"

definition clear_redo_stack :: "string \<Rightarrow> string \<Rightarrow> wb_state \<Rightarrow> wb_state" where
  "clear_redo_stack ws dev st = st\<lparr>wb_redo := AList.delete (redo_key ws dev) (wb_redo st)\<rparr>"

text \<open>More of a stroke that is being drawn: the points are appended, the rest is overwritten.\<close>

definition extend_stroke :: "stroke \<Rightarrow> stroke \<Rightarrow> stroke" where
  "extend_stroke new old =
     (let s = old\<lparr>k_points := take 8000 (k_points old @ k_points new), k_color := k_color new, k_size := k_size new,
                  k_tool := k_tool new, k_phase := k_phase new\<rparr>
      in if k_tool new = ''text'' then s\<lparr>k_text := k_text new, k_font := k_font new\<rparr> else s)"

fun extend_first :: "stroke \<Rightarrow> stroke list \<Rightarrow> stroke list option" where
  "extend_first new [] = None"
| "extend_first new (s # ss) =
     (if k_id s = k_id new then Some (extend_stroke new s # ss) else map_option ((#) s) (extend_first new ss))"

definition append_stroke :: "int \<Rightarrow> string \<Rightarrow> string \<Rightarrow> jsval \<Rightarrow> wb_state \<Rightarrow> stroke option \<times> wb_state" where
  "append_stroke now workspace dev v st =
     (case normalize_stroke v of
        None \<Rightarrow> (None, st)
      | Some s \<Rightarrow>
          (let ws = resolve_ws workspace dev st;
               (session, st1) = start_session now ws dev st;
               hit = (if k_id s \<noteq> None \<and> k_id s \<noteq> Some [] then extend_first s (x_strokes session) else None);
               (strokes, st2) = (case hit of
                    Some ss \<Rightarrow> (ss, st1)
                  | None \<Rightarrow> (x_strokes session @ [s], clear_redo_stack ws dev st1))
           in (Some s, save_session now (x_workspace session) dev strokes st2)))"

definition clear_session :: "int \<Rightarrow> string \<Rightarrow> string \<Rightarrow> wb_state \<Rightarrow> wb_state" where
  "clear_session now workspace dev st =
     (let ws = resolve_ws workspace dev st in
      if ws = [] \<or> dev = [] then st else clear_redo_stack ws dev (save_session now ws dev [] st))"

definition undo_stroke :: "int \<Rightarrow> string \<Rightarrow> string \<Rightarrow> wb_state \<Rightarrow> stroke option \<times> wb_state" where
  "undo_stroke now workspace dev st =
     (let ws = resolve_ws workspace dev st; strokes = x_strokes (get_session ws dev st) in
      if strokes = [] then (None, st)
      else (let popped = last strokes; redo = redo_stack ws dev st @ [popped];
                st1 = set_redo ws dev (if redo_cap < length redo then last_n redo_cap redo else redo) st
            in (Some popped, save_session now ws dev (butlast strokes) st1)))"

definition redo_stroke :: "int \<Rightarrow> string \<Rightarrow> string \<Rightarrow> wb_state \<Rightarrow> stroke option \<times> wb_state" where
  "redo_stroke now workspace dev st =
     (let ws = resolve_ws workspace dev st in
      if ws = [] \<or> dev = [] then (None, st)
      else (let redo = redo_stack ws dev st in
            if redo = [] then (None, st)
            else (Some (last redo),
                  save_session now ws dev (x_strokes (get_session ws dev st) @ [last redo])
                    (set_redo ws dev (butlast redo) st))))"

definition clear_for_media :: "int \<Rightarrow> bool \<Rightarrow> string \<Rightarrow> wb_state \<Rightarrow> wb_state" where
  "clear_for_media now has_io dev st =
     (let ws = wb_device_workspace st dev in
      if ws = [] then st
      else (let st1 = clear_session now ws dev st in
            if has_io then st1\<lparr>wb_emitted := wb_emitted st1 @ [(dev, ''device:wb-clear''), (dev, ''device:wb-stop'')]\<rparr> else st1))"

subsection \<open>Normal strokes\<close>

definition unit_point :: "rat \<times> rat \<Rightarrow> bool" where
  "unit_point p \<longleftrightarrow> 0 \<le> fst p \<and> fst p \<le> 1 \<and> 0 \<le> snd p \<and> snd p \<le> 1"

definition short_option :: "nat \<Rightarrow> string option \<Rightarrow> bool" where
  "short_option n t = (case t of None \<Rightarrow> True | Some s \<Rightarrow> length s \<le> n)"

definition normal_stroke :: "stroke \<Rightarrow> bool" where
  "normal_stroke s \<longleftrightarrow> k_tool s \<in> set tools \<and> is_hex_color (k_color s) \<and> list_all unit_point (k_points s)
     \<and> short_option 80 (k_id s) \<and> short_option 16 (k_phase s)
     \<and> (if k_tool s = ''text'' then length (k_points s) = 1 \<and> 8 \<le> k_size s \<and> k_size s \<le> 200
          \<and> (\<exists>f\<in>set text_fonts. k_font s = Some f) \<and> (case k_text s of None \<Rightarrow> False | Some t \<Rightarrow> t \<noteq> [] \<and> length t \<le> 500)
        else k_font s = None \<and> k_text s = None \<and> 1 \<le> k_size s \<and> k_size s \<le> 96
          \<and> (if k_tool s \<in> {''line'', ''rect'', ''ellipse''} then length (k_points s) = 2
             else 1 \<le> length (k_points s) \<and> length (k_points s) \<le> 4000))"

lemma normalize_point_unit: "normalize_point p = Some q \<Longrightarrow> unit_point q"
  by (auto simp: normalize_point_def unit_point_def clamp_unit_def split: jsnum.splits)

lemma normalize_point_json: "unit_point p \<Longrightarrow> normalize_point (point_json p) = Some p"
  by (cases p) (simp add: normalize_point_def point_json_def member_of_def unit_point_def clamp_unit_def)

lemma map_filter_points: "list_all unit_point ps \<Longrightarrow> List.map_filter normalize_point (map point_json ps) = ps"
  by (induction ps) (simp_all add: List.map_filter_simps normalize_point_json)

lemma list_all_map_filter: "(\<And>x y. f x = Some y \<Longrightarrow> P y) \<Longrightarrow> list_all P (List.map_filter f xs)"
  by (induction xs) (auto simp: List.map_filter_simps split: option.split)

lemma valid_color_hex: "is_hex_color (valid_color v)"
proof -
  have "is_hex_color ''#111827''" by code_simp
  then show ?thesis by (simp add: valid_color_def split: jsval.split)
qed

lemma one_of_in: "d \<in> set xs \<Longrightarrow> one_of xs d v \<in> set xs"
  by (simp add: one_of_def split: jsval.split)

lemma clamp_size_bounds: "lo \<le> hi \<Longrightarrow> lo \<le> dflt \<Longrightarrow> dflt \<le> hi \<Longrightarrow> lo \<le> clamp_size v lo hi dflt \<and> clamp_size v lo hi dflt \<le> hi"
  by (auto simp: clamp_size_def split: jsnum.split)

lemma clamp_size_id: "lo \<le> i \<Longrightarrow> i \<le> hi \<Longrightarrow> clamp_size (jint i) lo hi dflt = i"
proof -
  assume "lo \<le> i" "i \<le> hi"
  moreover have "js_round (of_int i) = i" unfolding js_round_def by linarith
  ultimately show ?thesis by (simp add: clamp_size_def)
qed

lemma short_text_short: "short_option n (short_text v n)"
  by (simp add: short_option_def short_text_def split: jsval.split)

lemma copy_id_phase_simps [simp]:
  "k_points (copy_id_phase v s) = k_points s" "k_color (copy_id_phase v s) = k_color s"
  "k_size (copy_id_phase v s) = k_size s" "k_tool (copy_id_phase v s) = k_tool s"
  "k_font (copy_id_phase v s) = k_font s" "k_text (copy_id_phase v s) = k_text s"
  "k_id (copy_id_phase v s) = short_text (fld v ''stroke_id'') 80"
  "k_phase (copy_id_phase v s) = short_text (fld v ''phase'') 16"
  by (simp_all add: copy_id_phase_def)

lemma ends_of_unit: "list_all unit_point ps \<Longrightarrow> 2 \<le> length ps \<Longrightarrow> length (ends_of ps) = 2 \<and> list_all unit_point (ends_of ps)"
  by (cases ps; cases "tl ps") (auto simp: ends_of_def list_all_iff split: list.splits)

lemma normalize_stroke_normal:
  assumes "normalize_stroke v = Some s"
  shows "normal_stroke s"
proof -
  let ?tool = "one_of tools ''pen'' (fld v ''tool'')"
  let ?ps = "List.map_filter normalize_point (array_items (fld v ''points''))"
  have t: "?tool \<in> set tools" by (rule one_of_in) (simp add: tools_def)
  have f: "one_of text_fonts ''sans'' x \<in> set text_fonts" for x by (rule one_of_in) (simp add: text_fonts_def)
  have u: "list_all unit_point ?ps" by (rule list_all_map_filter) (rule normalize_point_unit)
  then have u2: "list_all unit_point (take n ?ps)" for n by (auto simp: list_all_iff dest: in_set_takeD)
  have o: "is_object v" using assms by (simp add: normalize_stroke_def split: if_splits)
  consider (label) "?tool = ''text''" | (shape) "?tool \<noteq> ''text''" "?tool \<in> {''line'', ''rect'', ''ellipse''}"
    | (ink) "?tool \<noteq> ''text''" "?tool \<notin> {''line'', ''rect'', ''ellipse''}" by blast
  then show ?thesis
  proof cases
    case label
    with assms o obtain p x y where p: "normalize_point x = Some p" and y: "take 500 y \<noteq> ([] :: string)"
      and s: "s = copy_id_phase v \<lparr>k_points = [p], k_color = valid_color (fld v ''color''), k_size = clamp_size (fld v ''size'') 8 200 24,
        k_tool = ?tool, k_font = Some (one_of text_fonts ''sans'' (fld v ''font'')), k_text = Some (take 500 y),
        k_id = None, k_phase = None\<rparr>"
      unfolding normalize_stroke_def Let_def by (auto split: option.splits if_splits)
    with label t f clamp_size_bounds [of 8 200 24] normalize_point_unit [OF p] show ?thesis
      by (simp add: normal_stroke_def valid_color_hex short_text_short)
  next
    case shape
    with assms o have l: "2 \<le> length ?ps"
      and s: "s = copy_id_phase v \<lparr>k_points = ends_of ?ps, k_color = valid_color (fld v ''color''), k_size = clamp_size (fld v ''size'') 1 96 6,
        k_tool = ?tool, k_font = None, k_text = None, k_id = None, k_phase = None\<rparr>"
      by (simp_all only: normalize_stroke_def Let_def if_False if_True not_True_eq_False split: if_splits) simp_all
    with shape t ends_of_unit [OF u l] clamp_size_bounds [of 1 96 6] show ?thesis
      by (simp add: normal_stroke_def valid_color_hex short_text_short)
  next
    case ink
    with assms o have l: "take 4000 ?ps \<noteq> []"
      and s: "s = copy_id_phase v \<lparr>k_points = take 4000 ?ps, k_color = valid_color (fld v ''color''), k_size = clamp_size (fld v ''size'') 1 96 6,
        k_tool = ?tool, k_font = None, k_text = None, k_id = None, k_phase = None\<rparr>"
      by (simp_all only: normalize_stroke_def Let_def if_False if_True not_True_eq_False not_False_eq_True split: if_splits) simp_all
    from l have "1 \<le> length (take 4000 ?ps)" by (cases "take 4000 ?ps") simp_all
    with ink s t u2 [of 4000] clamp_size_bounds [of 1 96 6] show ?thesis
      by (simp add: normal_stroke_def valid_color_hex short_text_short)
  qed
qed

lemma stroke_json_fields [simp]:
  "is_object (stroke_json s)" "fld (stroke_json s) ''points'' = JArr (map point_json (k_points s))"
  "fld (stroke_json s) ''color'' = JStr (k_color s)" "fld (stroke_json s) ''size'' = jint (k_size s)"
  "fld (stroke_json s) ''tool'' = JStr (k_tool s)"
  "fld (stroke_json s) ''font'' = (case k_font s of None \<Rightarrow> JUndef | Some t \<Rightarrow> JStr t)"
  "fld (stroke_json s) ''text'' = (case k_text s of None \<Rightarrow> JUndef | Some t \<Rightarrow> JStr t)"
  "fld (stroke_json s) ''stroke_id'' = (case k_id s of None \<Rightarrow> JUndef | Some t \<Rightarrow> JStr t)"
  "fld (stroke_json s) ''phase'' = (case k_phase s of None \<Rightarrow> JUndef | Some t \<Rightarrow> JStr t)"
  by (simp_all add: stroke_json_def optional_field_def split: option.split)

lemma short_text_back: "short_option n t \<Longrightarrow> short_text (case t of None \<Rightarrow> JUndef | Some u \<Rightarrow> JStr u) n = t"
  by (cases t) (simp_all add: short_text_def short_option_def)

lemma one_of_JStr [simp]: "t \<in> set xs \<Longrightarrow> one_of xs d (JStr t) = t"
  by (simp add: one_of_def)

lemma valid_color_JStr [simp]: "is_hex_color c \<Longrightarrow> valid_color (JStr c) = c"
  by (simp add: valid_color_def)

lemma copy_back: "short_option 80 (k_id s) \<Longrightarrow> short_option 16 (k_phase s) \<Longrightarrow>
    copy_id_phase (stroke_json s) \<lparr>k_points = k_points s, k_color = k_color s, k_size = k_size s, k_tool = k_tool s,
      k_font = k_font s, k_text = k_text s, k_id = None, k_phase = None\<rparr> = s"
  by (simp add: copy_id_phase_def short_text_back)

text \<open>Writing a normal stroke and reading it back changes nothing.\<close>

lemma normalize_stroke_back:
  assumes "normal_stroke s"
  shows "normalize_stroke (stroke_json s) = Some s"
proof -
  have n: "k_tool s \<in> set tools" "is_hex_color (k_color s)" "list_all unit_point (k_points s)"
    "short_option 80 (k_id s)" "short_option 16 (k_phase s)"
    using assms by (simp_all add: normal_stroke_def)
  note bk = copy_back [OF n(4,5)]
  consider (label) "k_tool s = ''text''" | (shape) "k_tool s \<noteq> ''text''" "k_tool s \<in> {''line'', ''rect'', ''ellipse''}"
    | (ink) "k_tool s \<noteq> ''text''" "k_tool s \<notin> {''line'', ''rect'', ''ellipse''}" by blast
  then show ?thesis
  proof cases
    case label
    with assms obtain p f t where pts: "k_points s = [p]" and f: "k_font s = Some f" "f \<in> set text_fonts"
      and t: "k_text s = Some t" "t \<noteq> []" "length t \<le> 500" and z: "8 \<le> k_size s" "k_size s \<le> 200"
      by (auto simp: normal_stroke_def length_Suc_conv split: option.splits)
    have r: "truthy (point_json p)" by (simp add: point_json_def)
    have p: "normalize_point (point_json p) = Some p" using n(3) by (simp add: pts normalize_point_json)
    show ?thesis
      using label bk n(1,2) f(2) t(2,3) r p
      by (simp add: normalize_stroke_def Let_def pts f(1) t(1) js_or_def is_nullish_def clamp_size_id [OF z])
  next
    case shape
    with assms have z: "1 \<le> k_size s" "k_size s \<le> 96" and o: "k_font s = None" "k_text s = None" and l: "length (k_points s) = 2"
      by (auto simp: normal_stroke_def)
    from l have "ends_of (k_points s) = k_points s"
      by (auto simp: ends_of_def length_Suc_conv numeral_2_eq_2)
    with shape bk n(1,2) l o show ?thesis
      by (simp add: normalize_stroke_def Let_def map_filter_points [OF n(3)] clamp_size_id [OF z])
  next
    case ink
    with assms have z: "1 \<le> k_size s" "k_size s \<le> 96" and o: "k_font s = None" "k_text s = None"
      and l: "1 \<le> length (k_points s)" "length (k_points s) \<le> 4000"
      by (auto simp: normal_stroke_def)
    then have "take 4000 (k_points s) = k_points s" "k_points s \<noteq> []" by auto
    with ink bk n(1,2) o z show ?thesis
      by (simp add: normalize_stroke_def Let_def map_filter_points [OF n(3)] clamp_size_id [OF z])
  qed
qed

lemma map_filter_strokes: "list_all normal_stroke ss \<Longrightarrow> List.map_filter (\<lambda>s. normalize_stroke (stroke_json s)) ss = ss"
  by (induction ss) (simp_all add: List.map_filter_simps normalize_stroke_back)

lemma parse_strokes_back: "list_all normal_stroke ss \<Longrightarrow> parse_strokes (JArr (map stroke_json ss)) = ss"
  by (induction ss) (simp_all add: parse_strokes_def List.map_filter_simps normalize_stroke_back)

lemma session_normal: "list_all normal_stroke (x_strokes (get_session ws dev st))"
  by (auto simp: get_session_def parse_strokes_def intro!: list_all_map_filter dest: normalize_stroke_normal split: option.split)

subsection \<open>The board as two stacks\<close>

lemma save_session_get:
  assumes "ws \<noteq> []" "dev \<noteq> []" "list_all normal_stroke ss"
  shows "x_strokes (get_session ws dev (save_session now ws dev ss st)) = last_n 2000 ss"
proof -
  have "list_all normal_stroke (last_n 2000 ss)"
    using assms(3) by (auto simp: last_n_def list_all_iff dest: in_set_dropD)
  with assms show ?thesis
    by (simp add: get_session_def save_session_def Let_def update_conv' map_filter_strokes parse_strokes_back)
qed

lemma save_session_frame [simp]:
  "wb_redo (save_session now ws dev ss st) = wb_redo st"
  "wb_device_workspace (save_session now ws dev ss st) = wb_device_workspace st"
  by (simp_all add: save_session_def Let_def)

lemma redo_stack_simps [simp]:
  "redo_stack ws dev (set_redo ws dev r st) = r"
  "redo_stack ws dev (save_session now w d ss st) = redo_stack ws dev st"
  "redo_stack ws dev (clear_redo_stack ws dev st) = []"
  "get_session w d (set_redo ws dev r st) = get_session w d st"
  "get_session w d (clear_redo_stack ws dev st) = get_session w d st"
  "wb_device_workspace (set_redo ws dev r st) = wb_device_workspace st"
  by (simp_all add: redo_stack_def set_redo_def clear_redo_stack_def get_session_def update_conv' delete_conv')

text \<open>The strokes on the board and the strokes undone, the latest last.\<close>

definition board :: "string \<Rightarrow> string \<Rightarrow> wb_state \<Rightarrow> stroke list \<times> stroke list" where
  "board ws dev st = (x_strokes (get_session ws dev st), redo_stack ws dev st)"

fun abs_undo :: "'a list \<times> 'a list \<Rightarrow> 'a list \<times> 'a list" where
  "abs_undo (S, R) = (if S = [] then (S, R) else (butlast S, last_n redo_cap (R @ [last S])))"

fun abs_redo :: "'a list \<times> 'a list \<Rightarrow> 'a list \<times> 'a list" where
  "abs_redo (S, R) = (if R = [] then (S, R) else (last_n 2000 (S @ [last R]), butlast R))"

lemma last_n_id: "length xs \<le> n \<Longrightarrow> last_n n xs = xs"
  by (simp add: last_n_def)

lemma length_last_n [simp]: "length (last_n n xs) = min n (length xs)"
  by (simp add: last_n_def min_def)

lemma undo_refines:
  assumes "ws \<noteq> []" "dev \<noteq> []" "length (x_strokes (get_session ws dev st)) \<le> 2000"
  shows "board ws dev (snd (undo_stroke now ws dev st)) = abs_undo (board ws dev st)"
    and "fst (undo_stroke now ws dev st) = (case fst (board ws dev st) of [] \<Rightarrow> None | S \<Rightarrow> Some (last S))"
proof -
  let ?S = "x_strokes (get_session ws dev st)"
  have n: "list_all normal_stroke (butlast ?S)"
    using session_normal [of ws dev st] by (auto simp: list_all_iff dest: in_set_butlastD)
  have g: "x_strokes (get_session ws dev (save_session now ws dev (butlast ?S) s)) = butlast ?S" for s
    using save_session_get [OF assms(1,2) n] assms(3) by (simp add: last_n_id)
  show "board ws dev (snd (undo_stroke now ws dev st)) = abs_undo (board ws dev st)"
    using assms by (simp add: undo_stroke_def board_def resolve_ws_def Let_def g last_n_id)
  show "fst (undo_stroke now ws dev st) = (case fst (board ws dev st) of [] \<Rightarrow> None | S \<Rightarrow> Some (last S))"
    using assms(1) by (simp add: undo_stroke_def board_def resolve_ws_def Let_def split: list.split)
qed

lemma redo_refines:
  assumes "ws \<noteq> []" "dev \<noteq> []" "list_all normal_stroke (redo_stack ws dev st)"
  shows "board ws dev (snd (redo_stroke now ws dev st)) = abs_redo (board ws dev st)"
proof (cases "redo_stack ws dev st = []")
  case True
  with assms show ?thesis by (simp add: redo_stroke_def board_def resolve_ws_def Let_def)
next
  case False
  let ?S = "x_strokes (get_session ws dev st)"
  have n: "list_all normal_stroke (?S @ [last (redo_stack ws dev st)])"
    using session_normal [of ws dev st] assms(3) False by (simp add: list_all_iff)
  show ?thesis
    using assms False save_session_get [OF assms(1,2) n]
    by (simp add: redo_stroke_def board_def resolve_ws_def Let_def)
qed

lemma abs_undo_power:
  assumes "n \<le> length S" "n + length R \<le> redo_cap"
  shows "(abs_undo ^^ n) (S, R) = (take (length S - n) S, R @ rev (drop (length S - n) S))"
  using assms
proof (induction n)
  case 0
  then show ?case by simp
next
  case (Suc n)
  let ?k = "length S - n"
  have k: "?k = Suc (length S - Suc n)" "length S - Suc n < length S" using Suc.prems by simp_all
  have t: "take ?k S = take (length S - Suc n) S @ [S ! (length S - Suc n)]"
    unfolding k(1) by (rule take_Suc_conv_app_nth) (rule k(2))
  have d: "drop (length S - Suc n) S = S ! (length S - Suc n) # drop ?k S"
    unfolding k(1) by (rule Cons_nth_drop_Suc [symmetric]) (rule k(2))
  have "(abs_undo ^^ n) (S, R) = (take ?k S, R @ rev (drop ?k S))" using Suc by simp
  then show ?case using Suc.prems by (simp add: t d last_n_id del: take_eq_Nil)
qed

lemma abs_redo_power:
  assumes "length S + length U \<le> 2000"
  shows "(abs_redo ^^ length U) (S, R @ rev U) = (S @ U, R)"
  using assms
proof (induction U arbitrary: S)
  case Nil
  then show ?case by simp
next
  case (Cons u U)
  have "(abs_redo ^^ length (u # U)) (S, R @ rev (u # U)) = (abs_redo ^^ length U) (abs_redo (S, R @ rev (u # U)))"
    by (simp only: list.size funpow_Suc_right comp_apply add_Suc_right add_0_right)
  also have "abs_redo (S, R @ rev (u # U)) = (S @ [u], R @ rev U)"
    using Cons.prems by (simp add: last_n_id butlast_append flip: append_assoc)
  also have "(abs_redo ^^ length U) \<dots> = (S @ u # U, R)" using Cons.IH [of "S @ [u]"] Cons.prems by simp
  finally show ?case .
qed

subsection \<open>What the store holds\<close>

definition normal_column :: "jsval \<Rightarrow> bool" where
  "normal_column v \<longleftrightarrow> (let ss = parse_strokes v in v = JArr (map stroke_json ss) \<and> length ss \<le> 2000)"

definition redo_ok :: "stroke list \<Rightarrow> bool" where
  "redo_ok r \<longleftrightarrow> list_all normal_stroke r \<and> length r \<le> redo_cap"

definition wb_ok :: "wb_state \<Rightarrow> bool" where
  "wb_ok st \<longleftrightarrow> list_all (\<lambda>(k, row). normal_column (fst row)) (wb_sessions st)
     \<and> list_all (\<lambda>(k, r). redo_ok r) (wb_redo st)"

lemma normal_column_save:
  "list_all normal_stroke ss \<Longrightarrow> length ss \<le> 2000 \<Longrightarrow> normal_column (JArr (map stroke_json ss))"
  by (simp add: normal_column_def parse_strokes_back)

lemma list_all_alist_update: "list_all (\<lambda>(k, v). P v) m \<Longrightarrow> P w \<Longrightarrow> list_all (\<lambda>(k, v). P v) (AList.update j w m)"
  by (induction m) auto

lemma list_all_alist_delete: "list_all (\<lambda>(k, v). P v) m \<Longrightarrow> list_all (\<lambda>(k, v). P v) (AList.delete j m)"
  by (auto simp: AList.delete_eq list_all_iff)

lemma list_all_alist_lookup: "list_all (\<lambda>(k, v). P v) m \<Longrightarrow> map_of m j = Some w \<Longrightarrow> P w"
  by (auto simp: list_all_iff dest!: map_of_SomeD)

lemma wb_ok_save: "wb_ok st \<Longrightarrow> wb_ok (save_session now ws dev ss st)"
proof -
  assume ok: "wb_ok st"
  let ?safe = "List.map_filter (\<lambda>s. normalize_stroke (stroke_json s)) ss"
  have "list_all normal_stroke ?safe" by (rule list_all_map_filter) (rule normalize_stroke_normal)
  then have "list_all normal_stroke (last_n 2000 ?safe)" by (auto simp: last_n_def list_all_iff dest: in_set_dropD)
  then have "normal_column (JArr (map stroke_json (last_n 2000 ?safe)))" by (rule normal_column_save) simp
  with ok show ?thesis by (simp add: wb_ok_def save_session_def Let_def list_all_alist_update)
qed

lemma wb_ok_set_redo: "wb_ok st \<Longrightarrow> redo_ok r \<Longrightarrow> wb_ok (set_redo ws dev r st)"
  unfolding wb_ok_def set_redo_def by (simp add: list_all_alist_update)

lemma wb_ok_clear_redo: "wb_ok st \<Longrightarrow> wb_ok (clear_redo_stack ws dev st)"
  using list_all_alist_delete [of redo_ok "wb_redo st" "redo_key ws dev"]
  unfolding wb_ok_def clear_redo_stack_def by simp

lemma wb_ok_redo_stack: "wb_ok st \<Longrightarrow> redo_ok (redo_stack ws dev st)"
proof (cases "map_of (wb_redo st) (redo_key ws dev)")
  case None
  then show ?thesis by (simp add: redo_stack_def redo_ok_def)
next
  case (Some r)
  assume "wb_ok st"
  with list_all_alist_lookup [OF _ Some, of redo_ok] Some show ?thesis by (simp add: wb_ok_def redo_stack_def)
qed

lemma wb_ok_start: "wb_ok st \<Longrightarrow> wb_ok (snd (start_session now ws dev st))"
proof -
  assume ok: "wb_ok st"
  have "normal_column (JArr [])" by (simp add: normal_column_def parse_strokes_def List.map_filter_simps)
  with ok show ?thesis by (simp add: start_session_def Let_def wb_ok_def list_all_alist_update split: option.split)
qed

lemma wb_ok_length:
  assumes "wb_ok st"
  shows "length (x_strokes (get_session ws dev st)) \<le> 2000"
proof (cases "map_of (wb_sessions st) (ws, dev)")
  case (Some row)
  have "normal_column (fst row)"
    using list_all_alist_lookup [of "\<lambda>row. normal_column (fst row)" "wb_sessions st"] assms Some by (simp add: wb_ok_def)
  then show ?thesis using Some by (simp add: get_session_def normal_column_def Let_def)
qed (simp add: get_session_def)

lemma wb_ok_append: "wb_ok st \<Longrightarrow> wb_ok (snd (append_stroke now ws dev v st))"
proof -
  assume ok: "wb_ok st"
  show ?thesis
  proof (cases "normalize_stroke v")
    case None
    with ok show ?thesis by (simp add: append_stroke_def)
  next
    case (Some s)
    obtain se st1 where se: "start_session now (resolve_ws ws dev st) dev st = (se, st1)" by fastforce
    then have "wb_ok st1" using wb_ok_start [OF ok, of now "resolve_ws ws dev st" dev] by simp
    then show ?thesis
      by (simp add: append_stroke_def Some se Let_def wb_ok_save wb_ok_clear_redo split: option.split prod.split)
  qed
qed

lemma wb_ok_undo: "wb_ok st \<Longrightarrow> wb_ok (snd (undo_stroke now ws dev st))"
proof -
  assume ok: "wb_ok st"
  let ?w = "resolve_ws ws dev st"
  let ?S = "x_strokes (get_session ?w dev st)"
  let ?R = "redo_stack ?w dev st @ [last ?S]"
  show ?thesis
  proof (cases "?S = []")
    case True
    with ok show ?thesis by (simp add: undo_stroke_def Let_def)
  next
    case False
    then have "normal_stroke (last ?S)" using session_normal [of ?w dev st] by (simp add: list_all_iff)
    with wb_ok_redo_stack [OF ok, of ?w dev] have n: "list_all normal_stroke ?R" by (simp add: redo_ok_def)
    then have "list_all normal_stroke (last_n redo_cap ?R)" by (auto simp: last_n_def list_all_iff dest: in_set_dropD)
    with n have "redo_ok (if redo_cap < length ?R then last_n redo_cap ?R else ?R)" by (simp add: redo_ok_def)
    with False ok show ?thesis by (simp add: undo_stroke_def Let_def wb_ok_save wb_ok_set_redo)
  qed
qed

lemma wb_ok_redo: "wb_ok st \<Longrightarrow> wb_ok (snd (redo_stroke now ws dev st))"
proof -
  assume ok: "wb_ok st"
  let ?R = "redo_stack (resolve_ws ws dev st) dev st"
  have "redo_ok (butlast ?R)"
    using wb_ok_redo_stack [OF ok, of "resolve_ws ws dev st" dev] by (auto simp: redo_ok_def list_all_iff dest: in_set_butlastD)
  with ok show ?thesis by (simp add: redo_stroke_def Let_def wb_ok_save wb_ok_set_redo)
qed

lemma wb_ok_clear: "wb_ok st \<Longrightarrow> wb_ok (clear_session now ws dev st)"
  by (simp add: clear_session_def Let_def wb_ok_clear_redo wb_ok_save)

text \<open>Every operation keeps the stored boards and the redo stacks normal: at most 2000 strokes, each of a known
  tool, with points of the unit square (one for a text, two for a shape, at most 4000 for ink), a size in its range, a
  valid colour and short identifiers; and at most 50 strokes to redo. So every session a player is given is normal.\<close>

theorem boards_stay_normal:
  assumes "wb_ok st"
  shows "wb_ok (snd (append_stroke now ws dev v st)) \<and> wb_ok (snd (undo_stroke now ws dev st))
    \<and> wb_ok (snd (redo_stroke now ws dev st)) \<and> wb_ok (clear_session now ws dev st)
    \<and> wb_ok (snd (start_session now ws dev st)) \<and> wb_ok (clear_for_media now io dev st)
    \<and> list_all normal_stroke (x_strokes (get_session ws dev st)) \<and> length (x_strokes (get_session ws dev st)) \<le> 2000"
proof -
  have "wb_ok (s\<lparr>wb_emitted := e\<rparr>) = wb_ok s" for s e by (simp add: wb_ok_def)
  then have "wb_ok (clear_for_media now io dev st)"
    using assms by (simp add: clear_for_media_def Let_def wb_ok_clear)
  then show ?thesis
    using assms by (simp add: wb_ok_append wb_ok_undo wb_ok_redo wb_ok_clear wb_ok_start session_normal wb_ok_length)
qed

lemma iterate_refines:
  assumes step: "\<And>s. keeps s \<Longrightarrow> a (f s) = g (a s) \<and> keeps (f s)" and "keeps s"
  shows "a ((f ^^ n) s) = (g ^^ n) (a s) \<and> keeps ((f ^^ n) s)"
  by (induction n) (simp_all add: assms)

definition undo_n :: "int \<Rightarrow> string \<Rightarrow> string \<Rightarrow> nat \<Rightarrow> wb_state \<Rightarrow> wb_state" where
  "undo_n now ws dev n = (\<lambda>s. snd (undo_stroke now ws dev s)) ^^ n"

definition redo_n :: "int \<Rightarrow> string \<Rightarrow> string \<Rightarrow> nat \<Rightarrow> wb_state \<Rightarrow> wb_state" where
  "redo_n now ws dev n = (\<lambda>s. snd (redo_stroke now ws dev s)) ^^ n"


text \<open>A missing point is drawn in the top left corner instead of being dropped.\<close>

lemma null_point_is_corner: "normalize_point JNull = Some (0, 0)" "normalize_point JUndef = None"
  by code_simp+

text \<open>A stroke that is being drawn may grow to 8000 points in memory, but what is stored keeps 4000 of them.\<close>

lemma stored_ink_capped:
  assumes "normalize_stroke (stroke_json (extend_stroke new old)) = Some s"
  shows "length (k_points s) \<le> 4000"
  using normalize_stroke_normal [OF assms] by (simp add: normal_stroke_def split: if_splits)

subsection \<open>Samples\<close>

definition sample_ink :: "string \<Rightarrow> jsval" where
  "sample_ink i = JObj [(''tool'', JStr ''pen''), (''stroke_id'', JStr i), (''points'', JArr [JNull])]"

definition empty_wb :: wb_state where
  "empty_wb = \<lparr>wb_device_workspace = (\<lambda>d. []), wb_sessions = [], wb_redo = [], wb_emitted = []\<rparr>"

definition sample_wb :: wb_state where
  "sample_wb = snd (append_stroke 1 ''w'' ''d'' (sample_ink ''a'') empty_wb)"

lemma sample_wb_ok: "wb_ok sample_wb"
proof -
  have "wb_ok empty_wb" by (simp add: wb_ok_def empty_wb_def)
  then show ?thesis by (simp add: sample_wb_def wb_ok_append)
qed

definition sample_stroke :: stroke where
  "sample_stroke = \<lparr>k_points = [(0, 0)], k_color = ''#111827'', k_size = 6, k_tool = ''pen'', k_font = None, k_text = None,
     k_id = Some ''a'', k_phase = None\<rparr>"

lemma sample_wb_board: "map k_id (fst (board ''w'' ''d'' sample_wb)) = [Some ''a''] \<and> snd (board ''w'' ''d'' sample_wb) = []"
proof -
  have n: "normalize_stroke (sample_ink ''a'') = Some sample_stroke" by code_simp
  have i: "k_id sample_stroke = Some ''a''" by (simp add: sample_stroke_def)
  obtain st1 where st: "start_session 1 ''w'' ''d'' empty_wb = (\<lparr>x_workspace = ''w'', x_device = ''d'', x_strokes = []\<rparr>, st1)"
    by (simp add: start_session_def resolve_ws_def empty_wb_def get_session_def parse_strokes_def List.map_filter_simps Let_def)
  have w: "sample_wb = save_session 1 ''w'' ''d'' [sample_stroke] (clear_redo_stack ''w'' ''d'' st1)"
    unfolding sample_wb_def append_stroke_def n by (simp add: resolve_ws_def st i Let_def)
  have "list_all normal_stroke [sample_stroke]" using normalize_stroke_normal [OF n] by simp
  from save_session_get [OF _ _ this, of "''w''" "''d''"] show ?thesis
    by (simp add: w board_def last_n_def i)
qed

lemma boards_stay_normal_witness:
  "wb_ok (snd (append_stroke 1 ''w'' ''d'' (sample_ink ''a'') empty_wb))
   \<and> map k_id (x_strokes (get_session ''w'' ''d'' (snd (append_stroke 1 ''w'' ''d'' (sample_ink ''a'') empty_wb)))) = [Some ''a'']"
proof (rule conjI)
  have "wb_ok empty_wb" by (simp add: wb_ok_def empty_wb_def)
  from boards_stay_normal [OF this]
  show "wb_ok (snd (append_stroke 1 ''w'' ''d'' (sample_ink ''a'') empty_wb))" by blast
  show "map k_id (x_strokes (get_session ''w'' ''d'' (snd (append_stroke 1 ''w'' ''d'' (sample_ink ''a'') empty_wb)))) = [Some ''a'']"
    using sample_wb_board unfolding board_def sample_wb_def by (simp only: fst_conv)
qed


end
