(* ===== verification/WallGeometry.thy ===== *)
theory WallGeometry
  imports Prelude
begin

text \<open>
  The geometry of video walls (\<open>server/lib/wall-geometry.js\<close>): where each panel of a wall lies on the
  logical canvas, the canvas a group of panels plays on, and the part of it each panel shows.

  The numeric columns of a wall and of its members are rationals or null; lengths are canvas pixels and
  millimetres. A JavaScript \<open>Map\<close> from grid coordinates is an association list.
\<close>

subsection \<open>Data\<close>

record wall =
  wl_bezel_h :: "rat option"
  wl_bezel_v :: "rat option"
  wl_screen_w :: "rat option"
  wl_screen_h :: "rat option"
  wl_player_x :: "rat option"
  wl_player_y :: "rat option"
  wl_player_w :: "rat option"
  wl_player_h :: "rat option"

record member =
  mb_device :: string
  mb_col :: "rat option"
  mb_row :: "rat option"
  mb_canvas_x :: "rat option"
  mb_canvas_y :: "rat option"
  mb_canvas_w :: "rat option"
  mb_canvas_h :: "rat option"
  mb_screen_w :: "rat option"
  mb_screen_h :: "rat option"

datatype axis = X | Y

record rect =
  rx :: int
  ry :: int
  rw :: int
  rh :: int

record geometry =
  g_screen :: rect
  g_player :: rect
  g_canvas :: "int \<times> int"
  g_viewport :: rect

record metrics =
  m_sizes :: "(rat \<times> rat) list"
  m_starts :: "(rat \<times> rat) list"

subsection \<open>Numbers\<close>

text \<open>\<open>Number(null)\<close> is 0, so that a null column is not positive.\<close>

definition positive_number :: "rat option \<Rightarrow> rat option" where
  "positive_number v = (case v of None \<Rightarrow> None | Some r \<Rightarrow> if 0 < r then Some r else None)"

definition or_else :: "'a option \<Rightarrow> 'a option \<Rightarrow> 'a option" where
  "or_else a b = (case a of None \<Rightarrow> b | Some _ \<Rightarrow> a)"

definition with_default :: "'a option \<Rightarrow> 'a \<Rightarrow> 'a" where
  "with_default a d = (case a of None \<Rightarrow> d | Some x \<Rightarrow> x)"

fun grid_coordinate :: "axis \<Rightarrow> member \<Rightarrow> rat" where
  "grid_coordinate X m = with_default (mb_col m) 0"
| "grid_coordinate Y m = with_default (mb_row m) 0"

fun dimension_for_member :: "axis \<Rightarrow> member \<Rightarrow> rat option" where
  "dimension_for_member X m = or_else (positive_number (mb_canvas_w m)) (positive_number (mb_screen_w m))"
| "dimension_for_member Y m = or_else (positive_number (mb_canvas_h m)) (positive_number (mb_screen_h m))"

definition mean :: "rat list \<Rightarrow> rat option" where
  "mean values = (let valid = filter (\<lambda>v. 0 < v) values in
     if valid = [] then None else Some (sum_list valid / of_nat (length valid)))"

definition members_at :: "axis \<Rightarrow> member list \<Rightarrow> rat \<Rightarrow> member list" where
  "members_at a members c = filter (\<lambda>m. grid_coordinate a m = c) members"

fun wall_bezel :: "axis \<Rightarrow> wall \<Rightarrow> rat option" where
  "wall_bezel X w = positive_number (wl_bezel_h w)"
| "wall_bezel Y w = positive_number (wl_bezel_v w)"

fun wall_screen :: "axis \<Rightarrow> wall \<Rightarrow> rat option" where
  "wall_screen X w = positive_number (wl_screen_w w)"
| "wall_screen Y w = positive_number (wl_screen_h w)"

definition track_dimensions :: "axis \<Rightarrow> member list \<Rightarrow> rat \<Rightarrow> rat list" where
  "track_dimensions a members c = List.map_filter (dimension_for_member a) (members_at a members c)"

definition bezel_pixels_between :: "wall \<Rightarrow> member list \<Rightarrow> axis \<Rightarrow> rat \<Rightarrow> rat \<Rightarrow> int" where
  "bezel_pixels_between w members a before after =
     (case wall_bezel a w of
        None \<Rightarrow> 0
      | Some bezel \<Rightarrow>
          (case wall_screen a w of
             None \<Rightarrow> js_round bezel
           | Some physical \<Rightarrow>
               (let densities = List.map_filter (\<lambda>c. mean (map (\<lambda>px. px / physical) (track_dimensions a members c))) [before, after]
                in js_round (bezel * with_default (mean densities) 1))))"

text \<open>The distinct coordinates in increasing order.\<close>

definition coordinates :: "axis \<Rightarrow> member list \<Rightarrow> rat list" where
  "coordinates a members = sort (dedup (map (grid_coordinate a) members))"

definition track_size :: "wall \<Rightarrow> member list \<Rightarrow> axis \<Rightarrow> rat \<Rightarrow> rat" where
  "track_size w members a c =
     (case track_dimensions a members c of
        [] \<Rightarrow> with_default (wall_screen a w) 1
      | d # ds \<Rightarrow> foldl max d ds)"

fun track_starts :: "wall \<Rightarrow> member list \<Rightarrow> axis \<Rightarrow> rat \<Rightarrow> rat list \<Rightarrow> (rat \<times> rat) list" where
  "track_starts w members a cursor [] = []"
| "track_starts w members a cursor [c] = [(c, cursor)]"
| "track_starts w members a cursor (c # d # cs) =
     (c, cursor) # track_starts w members a
       (cursor + track_size w members a c + of_int (bezel_pixels_between w members a c d)) (d # cs)"

definition axis_metrics :: "wall \<Rightarrow> member list \<Rightarrow> axis \<Rightarrow> metrics" where
  "axis_metrics w members a =
     (let cs = coordinates a members in
      \<lparr>m_sizes = map (\<lambda>c. (c, track_size w members a c)) cs, m_starts = track_starts w members a 0 cs\<rparr>)"

definition member_rect :: "metrics \<Rightarrow> metrics \<Rightarrow> member \<Rightarrow> rect" where
  "member_rect xm ym m =
     (let col = grid_coordinate X m; row = grid_coordinate Y m in
      \<lparr>rx = js_round (with_default (mb_canvas_x m) (with_default (map_of (m_starts xm) col) 0)),
       ry = js_round (with_default (mb_canvas_y m) (with_default (map_of (m_starts ym) row) 0)),
       rw = js_round (with_default (dimension_for_member X m) (with_default (map_of (m_sizes xm) col) 1)),
       rh = js_round (with_default (dimension_for_member Y m) (with_default (map_of (m_sizes ym) row) 1))\<rparr>)"

definition bounding_rect :: "rect list \<Rightarrow> rect option" where
  "bounding_rect rs =
     (case rs of
        [] \<Rightarrow> None
      | r # rest \<Rightarrow>
          (let x = foldl min (rx r) (map rx rest); y = foldl min (ry r) (map ry rest);
               x2 = foldl max (rx r + rw r) (map (\<lambda>q. rx q + rw q) rest);
               y2 = foldl max (ry r + rh r) (map (\<lambda>q. ry q + rh q) rest)
           in Some \<lparr>rx = x, ry = y, rw = x2 - x, rh = y2 - y\<rparr>))"

definition explicit_player_rect :: "wall \<Rightarrow> rect option" where
  "explicit_player_rect w =
     (case wl_player_x w of None \<Rightarrow> None | Some x \<Rightarrow>
      case wl_player_y w of None \<Rightarrow> None | Some y \<Rightarrow>
      case positive_number (wl_player_w w) of None \<Rightarrow> None | Some pw \<Rightarrow>
      case positive_number (wl_player_h w) of None \<Rightarrow> None | Some ph \<Rightarrow>
        Some \<lparr>rx = js_round x, ry = js_round y, rw = js_round pw, rh = js_round ph\<rparr>)"

definition viewport_for :: "rect \<Rightarrow> rect \<Rightarrow> rect" where
  "viewport_for s p =
     (let x = max (rx s) (rx p); y = max (ry s) (ry p);
          x2 = min (rx s + rw s) (rx p + rw p); y2 = min (ry s + rh s) (ry p + rh p)
      in \<lparr>rx = max 0 (x - rx p), ry = max 0 (y - ry p), rw = max 0 (x2 - x), rh = max 0 (y2 - y)\<rparr>)"

text \<open>\<open>new Map\<close> of the members: of equal ids the last counts.\<close>

definition rects_by_id :: "wall \<Rightarrow> member list \<Rightarrow> (string \<times> rect) list" where
  "rects_by_id w members =
     rev (map (\<lambda>m. (mb_device m, member_rect (axis_metrics w members X) (axis_metrics w members Y) m)) members)"

definition build_universal_wall_geometry ::
  "wall option \<Rightarrow> member list \<Rightarrow> string list \<Rightarrow> string \<Rightarrow> bool \<Rightarrow> geometry option" where
  "build_universal_wall_geometry wall_opt members ids dev use_explicit =
     (case wall_opt of
        None \<Rightarrow> None
      | Some w \<Rightarrow>
          if \<not> list_ex (\<lambda>m. mb_device m = dev) members then None
          else (let selected_ids = (if ids \<noteq> [] then ids else [dev]);
                    selected = filter (\<lambda>m. mb_device m \<in> set selected_ids) members;
                    by_id = rects_by_id w members
                in if selected = [] then None
                   else (case map_of by_id dev of
                     None \<Rightarrow> None
                   | Some screen \<Rightarrow>
                       (case or_else (if use_explicit then explicit_player_rect w else None)
                               (bounding_rect (List.map_filter (\<lambda>m. map_of by_id (mb_device m)) selected)) of
                          None \<Rightarrow> None
                        | Some player \<Rightarrow>
                            Some \<lparr>g_screen = screen, g_player = player, g_canvas = (rw player, rh player),
                                  g_viewport = viewport_for screen player\<rparr>))))"

record layout_assignment =
  la_layout :: jsval
  la_revision :: jsnum
  la_content :: jsval
  la_canvas :: "int \<times> int"
  la_viewport :: rect
  la_fit :: jsval
  la_start :: jsval

definition build_layout_assignment ::
  "jsval \<Rightarrow> jsval \<Rightarrow> jsval \<Rightarrow> geometry option \<Rightarrow> jsval \<Rightarrow> jsval \<Rightarrow> layout_assignment option" where
  "build_layout_assignment layout revision content geo fit start =
     (case geo of
        None \<Rightarrow> None
      | Some g \<Rightarrow> Some \<lparr>la_layout = js_or layout JNull,
          la_revision = (let n = to_num revision in if num_truthy n then n else Fin 0),
          la_content = js_or content JNull, la_canvas = g_canvas g, la_viewport = g_viewport g,
          la_fit = js_or fit JNull, la_start = js_or start JNull\<rparr>)"

subsection \<open>Viewports\<close>

definition inside :: "rect \<Rightarrow> int \<Rightarrow> int \<Rightarrow> bool" where
  "inside r x y \<longleftrightarrow> rx r \<le> x \<and> x < rx r + rw r \<and> ry r \<le> y \<and> y < ry r + rh r"

lemma viewport_span:
  fixes s p sw pw u :: int
  assumes "0 \<le> u"
  shows "max 0 (max s p - p) \<le> u \<and> u < max 0 (max s p - p) + max 0 (min (s + sw) (p + pw) - max s p)
    \<longleftrightarrow> (s \<le> p + u \<and> p + u < s + sw) \<and> (p \<le> p + u \<and> p + u < p + pw)"
  using assms by linarith

text \<open>The viewport of a panel is exactly the part of the canvas the panel shows: a canvas point lies in it
  when the wall point it stands for lies in the panel and in the player rectangle.\<close>

theorem viewport_is_intersection:
  assumes "build_universal_wall_geometry w members ids dev explicit = Some g" "0 \<le> u" "0 \<le> v"
  shows "inside (g_viewport g) u v \<longleftrightarrow>
      inside (g_screen g) (rx (g_player g) + u) (ry (g_player g) + v)
      \<and> inside (g_player g) (rx (g_player g) + u) (ry (g_player g) + v)"
proof -
  have "g_viewport g = viewport_for (g_screen g) (g_player g)"
    using assms(1) by (auto simp: build_universal_wall_geometry_def Let_def split: option.splits if_splits)
  then show ?thesis
    unfolding inside_def viewport_for_def Let_def
    using viewport_span [OF assms(2), of "rx (g_screen g)" "rx (g_player g)" "rw (g_screen g)" "rw (g_player g)"]
      viewport_span [OF assms(3), of "ry (g_screen g)" "ry (g_player g)" "rh (g_screen g)" "rh (g_player g)"]
    by simp blast
qed

subsection \<open>Grid tracks\<close>

lemma positive_number_pos: "positive_number v = Some r \<Longrightarrow> 0 < r"
  by (auto simp: positive_number_def split: option.splits if_splits)

lemma dimension_pos: "dimension_for_member a m = Some d \<Longrightarrow> 0 < d"
  by (cases a) (auto simp: or_else_def split: option.splits dest: positive_number_pos)

lemma wall_screen_pos: "wall_screen a w = Some d \<Longrightarrow> 0 < d"
  by (cases a) (auto dest: positive_number_pos)

lemma wall_bezel_pos: "wall_bezel a w = Some d \<Longrightarrow> 0 < d"
  by (cases a) (auto dest: positive_number_pos)

lemma mean_pos: "mean vs = Some m \<Longrightarrow> 0 < m"
proof -
  assume m: "mean vs = Some m"
  let ?f = "filter (\<lambda>v. 0 < v) vs"
  from m have ne: "?f \<noteq> []" and v: "m = sum_list ?f / of_nat (length ?f)"
    by (auto simp: mean_def Let_def split: if_splits)
  have "0 \<le> sum_list xs" if "list_all (\<lambda>v. 0 < v) xs" for xs :: "rat list" using that by (induction xs) auto
  then have "0 < sum_list xs" if "list_all (\<lambda>v. 0 < v) xs" "xs \<noteq> []" for xs :: "rat list"
    using that by (cases xs) (auto simp: add_pos_nonneg)
  moreover have "list_all (\<lambda>v. 0 < v) ?f" by (simp add: list_all_iff)
  ultimately show ?thesis using ne v by (simp add: divide_pos_pos)
qed

lemma js_round_mono: "x \<le> y \<Longrightarrow> js_round x \<le> js_round y"
  unfolding js_round_def by (intro floor_mono) simp

lemma js_round_int [simp]: "js_round (of_int i) = i"
  unfolding js_round_def by linarith

lemma js_round_add_int: "js_round (x + of_int i) = js_round x + i"
  unfolding js_round_def by linarith

lemma js_round_nonneg: "0 \<le> x \<Longrightarrow> 0 \<le> js_round x"
  using js_round_mono [of 0 x] js_round_int [of 0] by simp

lemma bezel_nonneg: "0 \<le> bezel_pixels_between w members a c d"
proof -
  have "0 \<le> js_round (b * with_default (mean ds) 1)" if "0 < b" for b ds
    using that mean_pos [of ds] by (intro js_round_nonneg) (auto simp: with_default_def split: option.split)
  then show ?thesis
    by (auto simp: bezel_pixels_between_def Let_def split: option.split
        intro: js_round_nonneg dest!: wall_bezel_pos)
qed

lemma foldl_max_ge: "(d :: 'a :: linorder) \<le> foldl max d ds" and foldl_max_member: "e \<in> set ds \<Longrightarrow> e \<le> foldl max d ds"
proof (induction ds arbitrary: d)
  case (Cons x xs)
  {case 1 then show ?case using Cons.IH(1) [of "max d x"] by simp}
  {case 2 then show ?case using Cons.IH(1) [of "max d x"] Cons.IH(2) [of "max d x"] by auto}
qed simp_all

lemma track_dimension_member:
  assumes "m \<in> set members" "dimension_for_member a m = Some d"
  shows "d \<in> set (track_dimensions a members (grid_coordinate a m))"
proof -
  have "d \<in> set (List.map_filter (dimension_for_member a) ms)" if "m \<in> set ms" for ms
    using that assms(2) by (induction ms) (auto simp: List.map_filter_simps split: option.split)
  moreover have "m \<in> set (members_at a members (grid_coordinate a m))" using assms(1) by (simp add: members_at_def)
  ultimately show ?thesis by (simp add: track_dimensions_def)
qed

lemma track_size_pos: "0 < track_size w members a c"
proof (cases "track_dimensions a members c")
  case Nil
  then show ?thesis using wall_screen_pos [of a w] by (simp add: track_size_def with_default_def split: option.split)
next
  case (Cons d ds)
  have "list_all (\<lambda>x. 0 < x) (List.map_filter (dimension_for_member a) ms)" for ms
    by (induction ms) (auto simp: List.map_filter_simps dest: dimension_pos split: option.split)
  then have "list_all (\<lambda>x. 0 < x) (track_dimensions a members c)" by (simp add: track_dimensions_def)
  with Cons have "0 < d" by simp
  with foldl_max_ge [of d ds] show ?thesis by (simp add: track_size_def Cons)
qed

lemma track_size_fits:
  assumes "m \<in> set members" "dimension_for_member a m = Some d"
  shows "d \<le> track_size w members a (grid_coordinate a m)"
  using track_dimension_member [OF assms] foldl_max_ge foldl_max_member
  by (auto simp: track_size_def split: list.split)

lemma fst_track_starts: "map fst (track_starts w members a cur cs) = cs"
  by (induction w members a cur cs rule: track_starts.induct) simp_all

lemma track_starts_ordered:
  "sorted_wrt (\<lambda>p q. snd p + track_size w members a (fst p) \<le> snd q) (track_starts w members a cur cs)
   \<and> (\<forall>p\<in>set (track_starts w members a cur cs). cur \<le> snd p)"
proof (induction w members a cur cs rule: track_starts.induct)
  case (3 w members a cur c d cs)
  let ?next = "cur + track_size w members a c + of_int (bezel_pixels_between w members a c d)"
  have b: "(0 :: rat) \<le> of_int (bezel_pixels_between w members a c d)" using bezel_nonneg by simp
  have s: "0 < track_size w members a c" by (rule track_size_pos)
  have "cur + track_size w members a c \<le> snd p \<and> cur \<le> snd p" if "p \<in> set (track_starts w members a ?next (d # cs))" for p
  proof -
    from 3 that have "?next \<le> snd p" by blast
    with b s show ?thesis by linarith
  qed
  with 3 show ?case by simp
qed simp_all

lemma coordinates_set: "set (coordinates a members) = grid_coordinate a ` set members"
  by (simp add: coordinates_def)

lemma coordinates_sorted: "sorted (coordinates a members)" "distinct (coordinates a members)"
  by (simp_all add: coordinates_def)

lemma sorted_wrt_map_of:
  assumes "sorted_wrt (\<lambda>p q. R p q) m" "sorted (map fst m)" "distinct (map fst m)"
    and "map_of m c = Some x" "map_of m d = Some y" "(c :: rat) < d"
  shows "R (c, x) (d, y)"
  using assms
proof (induction m)
  case (Cons p m)
  obtain k v where p: "p = (k, v)" by (cases p)
  have in_m: "(e, z) \<in> set m" if "map_of (p # m) e = Some z" "e \<noteq> k" for e z
    using that by (auto simp: p dest: map_of_SomeD)
  show ?case
  proof (cases "c = k")
    case True
    with Cons.prems(4,6) in_m [OF Cons.prems(5)] Cons.prems(1) show ?thesis by (auto simp: p)
  next
    case False
    then have "c \<in> fst ` set m" using in_m [OF Cons.prems(4)] by force
    with Cons.prems(2) have "k \<le> c" by (auto simp: p)
    with False Cons.prems(6) have "d \<noteq> k" by auto
    with False Cons show ?thesis by (simp add: p)
  qed
qed simp

lemma starts_apart:
  assumes "m1 \<in> set members" "m2 \<in> set members" "grid_coordinate a m1 < grid_coordinate a m2"
  obtains x y where "map_of (m_starts (axis_metrics w members a)) (grid_coordinate a m1) = Some x"
    "map_of (m_starts (axis_metrics w members a)) (grid_coordinate a m2) = Some y"
    "x + track_size w members a (grid_coordinate a m1) \<le> y"
proof -
  let ?t = "track_starts w members a 0 (coordinates a members)"
  have f: "map fst ?t = coordinates a members" by (rule fst_track_starts)
  then have "fst ` set ?t = grid_coordinate a ` set members" by (metis coordinates_set list.set_map)
  with assms(1,2) have "map_of ?t (grid_coordinate a m1) \<noteq> None" "map_of ?t (grid_coordinate a m2) \<noteq> None"
    by (auto simp: map_of_eq_None_iff)
  then obtain x y where xy: "map_of ?t (grid_coordinate a m1) = Some x" "map_of ?t (grid_coordinate a m2) = Some y" by blast
  have "snd (grid_coordinate a m1, x) + track_size w members a (fst (grid_coordinate a m1, x)) \<le> snd (grid_coordinate a m2, y)"
    by (rule sorted_wrt_map_of [where R = "\<lambda>p q. snd p + track_size w members a (fst p) \<le> snd q", OF _ _ _ xy assms(3)])
       (use track_starts_ordered f coordinates_sorted in \<open>auto\<close>)
  with xy show ?thesis by (intro that) (simp_all add: axis_metrics_def Let_def)
qed

lemma rounded_apart:
  assumes "x + len \<le> y" "of_int n \<le> len"
  shows "js_round x + n \<le> js_round y"
  using js_round_mono [of "x + of_int n" y] js_round_add_int [of x n] assms by linarith

text \<open>Panels placed by the grid never overlap across columns or rows: a panel of whole pixels, with no position of
  its own, ends before the panels of any later column or row begin, whatever the sizes and bezels of the wall.\<close>

theorem grid_panels_apart:
  assumes "m1 \<in> set members" "m2 \<in> set members"
  shows "(grid_coordinate X m1 < grid_coordinate X m2 \<and> mb_canvas_x m1 = None \<and> mb_canvas_x m2 = None
          \<and> dimension_for_member X m1 = Some (of_int n)
        \<longrightarrow> rx (member_rect (axis_metrics w members X) (axis_metrics w members Y) m1)
              + rw (member_rect (axis_metrics w members X) (axis_metrics w members Y) m1)
            \<le> rx (member_rect (axis_metrics w members X) (axis_metrics w members Y) m2))
    \<and> (grid_coordinate Y m1 < grid_coordinate Y m2 \<and> mb_canvas_y m1 = None \<and> mb_canvas_y m2 = None
          \<and> dimension_for_member Y m1 = Some (of_int n)
        \<longrightarrow> ry (member_rect (axis_metrics w members X) (axis_metrics w members Y) m1)
              + rh (member_rect (axis_metrics w members X) (axis_metrics w members Y) m1)
            \<le> ry (member_rect (axis_metrics w members X) (axis_metrics w members Y) m2))"
proof (intro conjI impI)
  assume h: "grid_coordinate X m1 < grid_coordinate X m2 \<and> mb_canvas_x m1 = None \<and> mb_canvas_x m2 = None
          \<and> dimension_for_member X m1 = Some (of_int n)"
  obtain x y where "map_of (m_starts (axis_metrics w members X)) (grid_coordinate X m1) = Some x"
    "map_of (m_starts (axis_metrics w members X)) (grid_coordinate X m2) = Some y"
    and xy: "x + track_size w members X (grid_coordinate X m1) \<le> y"
    using starts_apart [OF assms, of X w] h by blast
  moreover have "js_round x + n \<le> js_round y"
    by (rule rounded_apart [OF xy]) (use track_size_fits [OF assms(1), of X "of_int n" w] h in simp)
  ultimately show "rx (member_rect (axis_metrics w members X) (axis_metrics w members Y) m1)
      + rw (member_rect (axis_metrics w members X) (axis_metrics w members Y) m1)
    \<le> rx (member_rect (axis_metrics w members X) (axis_metrics w members Y) m2)"
    using h by (simp add: member_rect_def with_default_def Let_def)
next
  assume h: "grid_coordinate Y m1 < grid_coordinate Y m2 \<and> mb_canvas_y m1 = None \<and> mb_canvas_y m2 = None
          \<and> dimension_for_member Y m1 = Some (of_int n)"
  obtain x y where "map_of (m_starts (axis_metrics w members Y)) (grid_coordinate Y m1) = Some x"
    "map_of (m_starts (axis_metrics w members Y)) (grid_coordinate Y m2) = Some y"
    and xy: "x + track_size w members Y (grid_coordinate Y m1) \<le> y"
    using starts_apart [OF assms, of Y w] h by blast
  moreover have "js_round x + n \<le> js_round y"
    by (rule rounded_apart [OF xy]) (use track_size_fits [OF assms(1), of Y "of_int n" w] h in simp)
  ultimately show "ry (member_rect (axis_metrics w members X) (axis_metrics w members Y) m1)
      + rh (member_rect (axis_metrics w members X) (axis_metrics w members Y) m1)
    \<le> ry (member_rect (axis_metrics w members X) (axis_metrics w members Y) m2)"
    using h by (simp add: member_rect_def with_default_def Let_def)
qed

subsection \<open>Groups of panels\<close>

lemma foldl_min_le: "foldl min d ds \<le> (d :: 'a :: linorder)" and foldl_min_member: "e \<in> set ds \<Longrightarrow> foldl min d ds \<le> e"
proof (induction ds arbitrary: d)
  case (Cons x xs)
  {case 1 then show ?case using Cons.IH(1) [of "min d x"] by simp}
  {case 2 then show ?case using Cons.IH(1) [of "min d x"] Cons.IH(2) [of "min d x"] by auto}
qed simp_all

lemma map_filter_member: "x \<in> set xs \<Longrightarrow> f x = Some y \<Longrightarrow> y \<in> set (List.map_filter f xs)"
  by (induction xs) (auto simp: List.map_filter_simps split: option.split)

definition contains :: "rect \<Rightarrow> rect \<Rightarrow> bool" where
  "contains p s \<longleftrightarrow> rx p \<le> rx s \<and> ry p \<le> ry s \<and> rx s + rw s \<le> rx p + rw p \<and> ry s + rh s \<le> ry p + rh p"

lemma bounding_rect_contains:
  assumes "bounding_rect rs = Some p" "s \<in> set rs"
  shows "contains p s"
proof -
  from assms(2) obtain r rest where rs: "rs = r # rest" by (cases rs) auto
  from assms(2) consider "s = r" | "s \<in> set rest" by (auto simp: rs)
  then show ?thesis
  proof cases
    case 1
    with assms(1) show ?thesis
      by (auto simp: rs bounding_rect_def contains_def Let_def foldl_min_le foldl_max_ge)
  next
    case 2
    then have "rx s \<in> set (map rx rest)" "ry s \<in> set (map ry rest)"
      "rx s + rw s \<in> set (map (\<lambda>q. rx q + rw q) rest)" "ry s + rh s \<in> set (map (\<lambda>q. ry q + rh q) rest)" by auto
    with assms(1) show ?thesis
      by (auto simp: rs bounding_rect_def contains_def Let_def intro!: foldl_min_member foldl_max_member)
  qed
qed

lemma size_nonneg:
  "0 \<le> js_round (with_default (dimension_for_member a m) (with_default (map_of (m_sizes (axis_metrics w members a)) c) 1))"
proof (rule js_round_nonneg)
  have "0 < s" if "map_of (m_sizes (axis_metrics w members a)) c = Some s" for s
  proof -
    from that have "(c, s) \<in> set (m_sizes (axis_metrics w members a))" by (rule map_of_SomeD)
    then have "s = track_size w members a c" by (auto simp: axis_metrics_def Let_def)
    then show ?thesis using track_size_pos by simp
  qed
  then show "0 \<le> with_default (dimension_for_member a m) (with_default (map_of (m_sizes (axis_metrics w members a)) c) 1)"
    using dimension_pos [of a m] by (cases "dimension_for_member a m"; cases "map_of (m_sizes (axis_metrics w members a)) c")
      (force simp: with_default_def)+
qed

lemma member_rect_nonneg:
  "0 \<le> rw (member_rect (axis_metrics w members X) (axis_metrics w members Y) k)"
  "0 \<le> rh (member_rect (axis_metrics w members X) (axis_metrics w members Y) k)"
  unfolding member_rect_def Let_def rect.select_convs by (rule size_nonneg)+

lemma viewport_contained:
  "contains p s \<Longrightarrow> 0 \<le> rw s \<Longrightarrow> 0 \<le> rh s \<Longrightarrow>
    viewport_for s p = \<lparr>rx = rx s - rx p, ry = ry s - ry p, rw = rw s, rh = rh s\<rparr>"
  unfolding viewport_for_def contains_def Let_def by simp

text \<open>Without a player rectangle of the wall's own, every panel of the group shows its whole screen: the canvas is
  the bounding box of the group, and the viewport of the panel is its screen moved to the origin of the canvas.\<close>

theorem group_panel_shown_whole:
  assumes "build_universal_wall_geometry (Some w) members ids dev explicit = Some g"
    and "explicit \<longrightarrow> explicit_player_rect w = None" "ids = [] \<or> dev \<in> set ids"
  shows "g_viewport g = \<lparr>rx = rx (g_screen g) - rx (g_player g), ry = ry (g_screen g) - ry (g_player g),
      rw = rw (g_screen g), rh = rh (g_screen g)\<rparr>
    \<and> contains (g_player g) (g_screen g) \<and> g_canvas g = (rw (g_player g), rh (g_player g))"
proof -
  let ?sel = "filter (\<lambda>m. mb_device m \<in> set (if ids \<noteq> [] then ids else [dev])) members"
  let ?rs = "List.map_filter (\<lambda>m. map_of (rects_by_id w members) (mb_device m)) ?sel"
  have ex: "or_else (if explicit then explicit_player_rect w else None) b = b" for b
    using assms(2) by (simp add: or_else_def)
  from assms(1) have dev: "list_ex (\<lambda>m. mb_device m = dev) members"
    and scr: "map_of (rects_by_id w members) dev = Some (g_screen g)"
    and ply: "bounding_rect ?rs = Some (g_player g)"
    and rest: "g_canvas g = (rw (g_player g), rh (g_player g))" "g_viewport g = viewport_for (g_screen g) (g_player g)"
    by (auto simp: build_universal_wall_geometry_def Let_def ex split: option.splits if_splits)
  from dev obtain m where m: "m \<in> set members" "mb_device m = dev" by (auto simp: list_ex_iff)
  with assms(3) have "m \<in> set ?sel" by auto
  then have "g_screen g \<in> set ?rs" by (rule map_filter_member) (simp add: m(2) scr)
  from bounding_rect_contains [OF ply this] have c: "contains (g_player g) (g_screen g)" .
  from map_of_SomeD [OF scr] obtain k where "g_screen g = member_rect (axis_metrics w members X) (axis_metrics w members Y) k"
    by (auto simp: rects_by_id_def)
  then have "0 \<le> rw (g_screen g)" "0 \<le> rh (g_screen g)" by (simp_all only: member_rect_nonneg)
  from viewport_contained [OF c this] c rest show ?thesis by simp
qed

subsection \<open>Samples\<close>

definition sample_wall :: wall where
  "sample_wall = \<lparr>wl_bezel_h = Some 10, wl_bezel_v = None, wl_screen_w = Some 960, wl_screen_h = Some 540,
     wl_player_x = None, wl_player_y = None, wl_player_w = None, wl_player_h = None\<rparr>"

definition sample_panel :: "string \<Rightarrow> rat \<Rightarrow> member" where
  "sample_panel dev col = \<lparr>mb_device = dev, mb_col = Some col, mb_row = Some 0, mb_canvas_x = None, mb_canvas_y = None,
     mb_canvas_w = None, mb_canvas_h = None, mb_screen_w = Some 1920, mb_screen_h = Some 1080\<rparr>"

definition sample_members :: "member list" where
  "sample_members = [sample_panel ''a'' 0, sample_panel ''b'' 1]"

definition sample_geometry :: geometry where
  "sample_geometry = \<lparr>g_screen = \<lparr>rx = 1940, ry = 0, rw = 1920, rh = 1080\<rparr>, g_player = \<lparr>rx = 0, ry = 0, rw = 3860, rh = 1080\<rparr>,
     g_canvas = (3860, 1080), g_viewport = \<lparr>rx = 1940, ry = 0, rw = 1920, rh = 1080\<rparr>\<rparr>"

lemma sample_build:
  "build_universal_wall_geometry (Some sample_wall) sample_members [''a'', ''b''] ''b'' True = Some sample_geometry"
  by code_simp

lemma viewport_is_intersection_witness:
  "inside (g_viewport sample_geometry) 2000 5 = inside (g_screen sample_geometry) 2000 5 \<and> inside (g_screen sample_geometry) 2000 5"
  using viewport_is_intersection [OF sample_build, of 2000 5] by (simp add: sample_geometry_def inside_def)

lemma grid_panels_apart_witness:
  "rx (member_rect (axis_metrics sample_wall sample_members X) (axis_metrics sample_wall sample_members Y) (sample_panel ''a'' 0))
     + rw (member_rect (axis_metrics sample_wall sample_members X) (axis_metrics sample_wall sample_members Y) (sample_panel ''a'' 0))
   \<le> rx (member_rect (axis_metrics sample_wall sample_members X) (axis_metrics sample_wall sample_members Y) (sample_panel ''b'' 1))"
proof -
  have "sample_panel ''a'' 0 \<in> set sample_members" "sample_panel ''b'' 1 \<in> set sample_members"
    by (simp_all add: sample_members_def)
  from grid_panels_apart [OF this, of 1920 sample_wall] show ?thesis
    by (simp add: sample_panel_def or_else_def positive_number_def with_default_def)
qed

lemma group_panel_shown_whole_witness:
  "g_viewport sample_geometry = \<lparr>rx = 1940, ry = 0, rw = 1920, rh = 1080\<rparr> \<and> contains (g_player sample_geometry) (g_screen sample_geometry)"
  using group_panel_shown_whole [OF sample_build] by (simp add: sample_wall_def explicit_player_rect_def sample_geometry_def)

end
