(* ===== verification/WallLayout.thy ===== *)
theory WallLayout
  imports Prelude "HOL-Library.Multiset"
begin

text \<open>
  Wall layouts (\<open>server/lib/wall-layout.js\<close>): the groups a video wall is divided into and the regions of a
  one-player mosaic, their validation, the presets, the stored layout and the leaders of its groups.

  A layout that comes in is a JavaScript value, one that goes out a record. The collation of device ids
  (\<open>localeCompare\<close>) and the digest of a group (\<open>sha1\<close>, ten hexadecimal digits) are the parameter \<open>host\<close>. A
  thrown error is the left side of a sum, with its message.
\<close>

subsection \<open>Data\<close>

record layout_host =
  h_before :: "string \<Rightarrow> string \<Rightarrow> bool"
  h_digest :: "string \<Rightarrow> string"

record wall_member =
  pm_device :: string
  pm_row :: rat
  pm_col :: rat
  pm_name :: "string option"
  pm_playlist :: "string option"
  pm_status :: string
  pm_workspace :: "string option"

datatype stored_json = NoLayout | Unparsable | Parsed jsval

record wall_row =
  wr_id :: string
  wr_mode :: "string option"
  wr_revision :: jsval
  wr_json :: stored_json
  wr_leader :: "string option"
  wr_playlist :: "string option"
  wr_workspace :: "string option"

record region =
  rg_id :: string
  rg_name :: string
  rg_x :: rat
  rg_y :: rat
  rg_width :: rat
  rg_height :: rat
  rg_player :: string
  rg_zone :: string
  rg_z :: int
  rg_fit :: string
  rg_enabled :: bool
  rg_revision :: jsnum

record layout_group =
  gp_id :: jsval
  gp_name :: jsval
  gp_layout :: string
  gp_members :: "string list"
  gp_leader :: "string option"
  gp_geometry :: "nat \<times> nat"
  gp_playlist :: jsval

record layout =
  ly_id :: string
  ly_wall :: string
  ly_mode :: string
  ly_revision :: jsnum
  ly_preset :: "string option"
  ly_source :: string
  ly_groups :: "layout_group list"
  ly_regions :: "region list"

definition fit_modes :: "string list" where
  "fit_modes = [''contain'', ''cover'', ''fill'', ''none'', ''scale-down'']"

subsection \<open>Regions\<close>

definition finite_percent :: "jsval \<Rightarrow> string \<Rightarrow> bool \<Rightarrow> string + rat" where
  "finite_percent v field positive =
     (case to_num v of
        Fin r \<Rightarrow> if r < 0 \<or> 100 < r \<or> (positive \<and> r = 0)
                 then Inl (''Region '' @ field @ '' must be '' @ (if positive then ''greater than 0 and '' else [])
                           @ ''between 0 and 100'')
                 else Inr r
      | _ \<Rightarrow> Inl (''Region '' @ field @ '' must be a finite percentage''))"

definition number_or_zero :: "jsval \<Rightarrow> jsnum" where
  "number_or_zero v = (let n = to_num v in if num_truthy n then n else Fin 0)"

definition revision_of_layout :: "jsval \<Rightarrow> jsval \<Rightarrow> jsval \<Rightarrow> jsnum" where
  "revision_of_layout given input wall_revision =
     number_or_zero (js_coalesce given (js_coalesce (fld input ''revision'') wall_revision))"

definition name_text :: "jsval \<Rightarrow> string" where
  "name_text v = trim (to_str v)"

definition region_box :: "jsval \<Rightarrow> string \<Rightarrow> string + (rat \<times> rat \<times> rat \<times> rat)" where
  "region_box c i =
     (case finite_percent (js_coalesce (fld c ''x'') (fld c ''x_percent'')) (i @ '' x'') False of Inl e \<Rightarrow> Inl e | Inr x \<Rightarrow>
      case finite_percent (js_coalesce (fld c ''y'') (fld c ''y_percent'')) (i @ '' y'') False of Inl e \<Rightarrow> Inl e | Inr y \<Rightarrow>
      case finite_percent (js_coalesce (fld c ''width'') (fld c ''width_percent'')) (i @ '' width'') True of Inl e \<Rightarrow> Inl e | Inr w \<Rightarrow>
      case finite_percent (js_coalesce (fld c ''height'') (fld c ''height_percent'')) (i @ '' height'') True of Inl e \<Rightarrow> Inl e | Inr h \<Rightarrow>
        if 100.0001 < x + w \<or> 100.0001 < y + h then Inl (''Wall region '' @ i @ '' exceeds the normalized canvas'')
        else Inr (x, y, w, h))"

definition normalize_region ::
  "string list \<Rightarrow> jsnum \<Rightarrow> nat \<Rightarrow> string list \<Rightarrow> string list \<Rightarrow> jsval \<Rightarrow> string + region" where
  "normalize_region member_ids revision index seen seen_zones c =
     (let i = text_of (fld c ''id'');
          name = text_of (fld c ''name'');
          player = name_text (first_present [fld c ''player_device_id'', fld c ''playerDeviceId'', JStr []]);
          zone = name_text (first_present [fld c ''zone_id'', fld c ''zoneId'', JStr i]);
          rv = (if is_nullish (fld c ''revision'') then revision else to_num (fld c ''revision''));
          fit = to_lower (trim (to_str (js_or (fld c ''fit_mode'') (JStr ''contain''))));
          z = num_int (to_num (js_coalesce (fld c ''z_index'') (jint (int index))))
      in if i = [] then Inl ''Wall regions require a stable id''
         else if i \<in> set seen then Inl (''Wall region '' @ i @ '' appears more than once'')
         else if name = [] then Inl (''Wall region '' @ i @ '' requires a name'')
         else if player = [] \<or> player \<notin> set member_ids
           then Inl (''Wall region '' @ i @ '' player must be a current wall member'')
         else if zone = [] then Inl (''Wall region '' @ i @ '' requires a stable zone id'')
         else if zone \<in> set seen_zones then Inl (''Wall region zone '' @ zone @ '' appears more than once'')
         else (case region_box c i of Inl e \<Rightarrow> Inl e | Inr (x, y, w, h) \<Rightarrow>
           if num_int rv = None \<or> \<not> num_eq rv revision
             then Inl (''Wall region '' @ i @ '' revision must match wall revision '' @ num_to_str revision)
           else if fit \<notin> set fit_modes then Inl (''Wall region '' @ i @ '' has an invalid fit mode'')
           else (case z of None \<Rightarrow> Inl (''Wall region '' @ i @ '' z-index must be an integer'') | Some k \<Rightarrow>
             Inr \<lparr>rg_id = i, rg_name = name, rg_x = x, rg_y = y, rg_width = w, rg_height = h, rg_player = player,
                  rg_zone = zone, rg_z = k, rg_fit = fit, rg_enabled = (fld c ''enabled'' \<noteq> JBool False),
                  rg_revision = revision\<rparr>)))"

fun normalize_regions ::
  "string list \<Rightarrow> jsnum \<Rightarrow> nat \<Rightarrow> string list \<Rightarrow> string list \<Rightarrow> jsval list \<Rightarrow> string + region list" where
  "normalize_regions member_ids revision index seen zones [] = Inr []"
| "normalize_regions member_ids revision index seen zones (c # cs) =
     (case normalize_region member_ids revision index seen zones c of
        Inl e \<Rightarrow> Inl e
      | Inr r \<Rightarrow>
          (case normalize_regions member_ids revision (Suc index) (rg_id r # seen) (rg_zone r # zones) cs of
             Inl e \<Rightarrow> Inl e | Inr rs \<Rightarrow> Inr (r # rs)))"

definition normalize_wall_regions :: "wall_row \<Rightarrow> wall_member list \<Rightarrow> jsval \<Rightarrow> jsval \<Rightarrow> string + region list" where
  "normalize_wall_regions wall members input given =
     normalize_regions (map pm_device members) (revision_of_layout given input (wr_revision wall)) 0 [] []
       (array_items (fld input ''regions''))"

definition zone_region :: "string \<Rightarrow> jsval \<Rightarrow> nat \<Rightarrow> jsval \<Rightarrow> jsval" where
  "zone_region player revision index zone = JObj [
     (''id'', JStr (text_of (js_or (fld zone ''region_id'') (fld zone ''id'')))),
     (''name'', JStr (trim (to_str (js_or (fld zone ''name'') (JStr (''Region '' @ nat_str (Suc index))))))),
     (''x'', fld zone ''x_percent''), (''y'', fld zone ''y_percent''),
     (''width'', fld zone ''width_percent''), (''height'', fld zone ''height_percent''),
     (''player_device_id'', JStr player), (''zone_id'', JStr (text_of (fld zone ''id''))),
     (''z_index'', case num_int (to_num (fld zone ''z_index'')) of Some k \<Rightarrow> jint k | None \<Rightarrow> jint (int index)),
     (''fit_mode'', js_or (fld zone ''fit_mode'') (JStr ''contain'')),
     (''enabled'', JBool (fld zone ''enabled'' \<noteq> JBool False)), (''revision'', revision)]"

definition regions_from_layout_zones ::
  "wall_row \<Rightarrow> wall_member list \<Rightarrow> jsval \<Rightarrow> jsval \<Rightarrow> string + region list" where
  "regions_from_layout_zones wall members zones given =
     (case members of
        [m] \<Rightarrow>
          if wr_mode wall \<noteq> Some ''split''
            then Inl ''Mosaic region synchronization requires exactly one current wall member in split mode''
          else if array_items zones = [] then Inl ''Mosaic region synchronization requires at least one layout zone''
          else (case num_int (to_num given) of
                  None \<Rightarrow> Inl ''Mosaic region synchronization requires a non-negative revision''
                | Some r \<Rightarrow>
                    if r < 0 then Inl ''Mosaic region synchronization requires a non-negative revision''
                    else normalize_wall_regions (wall\<lparr>wr_revision := jint r\<rparr>) members
                      (JObj [(''revision'', jint r), (''regions'',
                         JArr (map (\<lambda>(k, z). zone_region (pm_device m) (jint r) k z)
                           (zip [0..<length (array_items zones)] (array_items zones))))])
                      (jint r))
      | _ \<Rightarrow> Inl ''Mosaic region synchronization requires exactly one current wall member in split mode'')"

subsection \<open>Groups\<close>

definition member_before :: "layout_host \<Rightarrow> wall_member \<Rightarrow> wall_member \<Rightarrow> bool" where
  "member_before h a b \<longleftrightarrow>
     (if pm_row a \<noteq> pm_row b then pm_row a < pm_row b
      else if pm_col a \<noteq> pm_col b then pm_col a < pm_col b
      else h_before h (pm_device a) (pm_device b))"

fun insert_member :: "layout_host \<Rightarrow> wall_member \<Rightarrow> wall_member list \<Rightarrow> wall_member list" where
  "insert_member h m [] = [m]"
| "insert_member h m (n # ns) = (if member_before h n m then n # insert_member h m ns else m # n # ns)"

definition ordered_members :: "layout_host \<Rightarrow> wall_member list \<Rightarrow> wall_member list" where
  "ordered_members h members = foldr (insert_member h) members []"

definition group_id :: "layout_host \<Rightarrow> string \<Rightarrow> string list \<Rightarrow> string" where
  "group_id h wall ids = wall @ '':group:'' @ h_digest h (join_with ''|'' ids)"

definition count_distinct :: "rat list \<Rightarrow> nat" where
  "count_distinct xs = (let n = length (dedup xs) in if n = 0 then 1 else n)"

definition default_name :: "wall_member list \<Rightarrow> string" where
  "default_name rows =
     (case rows of
        [] \<Rightarrow> ''Display NaN''
      | [r] \<Rightarrow> (case pm_name r of
                  Some n \<Rightarrow> if n \<noteq> [] then n else ''Display '' @ num_to_str (Fin (pm_col r + 1))
                | None \<Rightarrow> ''Display '' @ num_to_str (Fin (pm_col r + 1)))
      | _ \<Rightarrow> ''Displays '' @ join_with ''+'' (map (\<lambda>r. num_to_str (Fin (pm_col r + 1))) rows))"

definition build_group :: "layout_host \<Rightarrow> string \<Rightarrow> wall_member list \<Rightarrow> jsval \<Rightarrow> jsval \<Rightarrow> layout_group" where
  "build_group h wall rows lay existing =
     (let ids = map pm_device rows in
      \<lparr>gp_id = js_or (fld existing ''id'') (JStr (group_id h wall ids)),
       gp_name = js_or (fld existing ''name'') (JStr (default_name rows)),
       gp_layout = (if 1 < length ids \<and> lay = JStr ''span'' then ''span'' else ''solo''),
       gp_members = ids,
       gp_leader = (case fld existing ''leader_device_id'' of
            JStr l \<Rightarrow> if l \<noteq> [] \<and> l \<in> set ids then Some l else (case ids of [] \<Rightarrow> None | i # _ \<Rightarrow> Some i)
          | _ \<Rightarrow> (case ids of [] \<Rightarrow> None | i # _ \<Rightarrow> Some i)),
       gp_geometry = (count_distinct (map pm_col rows), count_distinct (map pm_row rows)),
       gp_playlist = js_or (fld existing ''playlist_id'') JNull\<rparr>)"

definition nullable :: "string option \<Rightarrow> jsval" where
  "nullable v = (case v of None \<Rightarrow> JNull | Some s \<Rightarrow> JStr s)"

definition is_split :: "wall_row \<Rightarrow> bool" where
  "is_split wall \<longleftrightarrow> wr_mode wall = Some ''split''"

definition layout_id :: "string \<Rightarrow> jsnum \<Rightarrow> string" where
  "layout_id wall rv = wall @ '':layout:'' @ num_to_str rv"

definition legacy_layout :: "layout_host \<Rightarrow> wall_row \<Rightarrow> wall_member list \<Rightarrow> layout" where
  "legacy_layout h wall members =
     (let ordered = ordered_members h members;
          groups = (if is_split wall
            then map (\<lambda>m. build_group h (wr_id wall) [m] (JStr ''solo'')
                       (JObj [(''playlist_id'', js_or (nullable (pm_playlist m)) JNull)])) ordered
            else filter (\<lambda>g. gp_members g \<noteq> []) [build_group h (wr_id wall) ordered (JStr ''span'')
                   (JObj [(''leader_device_id'', nullable (wr_leader wall)),
                          (''playlist_id'', js_or (js_or (nullable (wr_playlist wall))
                              (case ordered of [] \<Rightarrow> JUndef | m # _ \<Rightarrow> nullable (pm_playlist m))) JNull)])])
      in \<lparr>ly_id = layout_id (wr_id wall) (number_or_zero (wr_revision wall)), ly_wall = wr_id wall, ly_mode = ''groups'',
          ly_revision = number_or_zero (wr_revision wall),
          ly_preset = Some (if is_split wall then ''split-all'' else ''span-all''), ly_source = ''legacy'',
          ly_groups = groups, ly_regions = []\<rparr>)"

definition preset_groups :: "layout_host \<Rightarrow> string \<Rightarrow> wall_member list \<Rightarrow> string \<Rightarrow> string + layout_group list" where
  "preset_groups h wall members preset =
     (let ordered = ordered_members h members;
          grp = (\<lambda>rows lay. build_group h wall rows (JStr lay) (JObj []))
      in if ordered = [] then Inr []
         else if preset = ''span-all'' then Inr [grp ordered ''span'']
         else if preset = ''split-all'' then Inr (map (\<lambda>m. grp [m] ''solo'') ordered)
         else if length ordered = 3 \<and> preset = ''span-left''
           then Inr [grp (take 2 ordered) ''span'', grp (drop 2 ordered) ''solo'']
         else if length ordered = 3 \<and> preset = ''span-right''
           then Inr [grp (take 1 ordered) ''solo'', grp (drop 1 ordered) ''span'']
         else Inl ''Unsupported wall layout preset'')"

definition group_signature :: "layout_group list \<Rightarrow> (string \<times> string list) list" where
  "group_signature gs = map (\<lambda>g. (gp_layout g, gp_members g)) gs"

definition preset_matches :: "layout_host \<Rightarrow> wall_member list \<Rightarrow> layout_group list \<Rightarrow> string \<Rightarrow> bool" where
  "preset_matches h members groups preset =
     (case preset_groups h ''preset-check'' members preset of
        Inl e \<Rightarrow> False | Inr gs \<Rightarrow> group_signature groups = group_signature gs)"

definition preset_for_groups :: "layout_host \<Rightarrow> wall_member list \<Rightarrow> layout_group list \<Rightarrow> string" where
  "preset_for_groups h members groups =
     (case find (preset_matches h members groups) [''span-all'', ''split-all'', ''span-left'', ''span-right''] of
        Some p \<Rightarrow> p
      | None \<Rightarrow> if members = [] \<and> groups = [] then ''split-all'' else ''custom'')"

subsection \<open>Validation\<close>

fun index_of :: "'a \<Rightarrow> 'a list \<Rightarrow> nat" where
  "index_of x [] = 0"
| "index_of x (y # ys) = (if x = y then 0 else Suc (index_of x ys))"

text \<open>The members of one group: known, not yet taken.\<close>

fun claim_members :: "string list \<Rightarrow> string list \<Rightarrow> string list \<Rightarrow> string + string list" where
  "claim_members known seen [] = Inr seen"
| "claim_members known seen (i # is) =
     (if i \<notin> set known then Inl (''Device '' @ i @ '' is not a member of this wall'')
      else if i \<in> set seen then Inl (''Device '' @ i @ '' appears in more than one layout group'')
      else claim_members known (i # seen) is)"

fun contiguous :: "nat list \<Rightarrow> bool" where
  "contiguous (a # b # r) = (b = Suc a \<and> contiguous (b # r))"
| "contiguous _ = True"

fun validate_groups ::
  "layout_host \<Rightarrow> string \<Rightarrow> wall_member list \<Rightarrow> string list \<Rightarrow> jsval list \<Rightarrow> string + (string list \<times> layout_group list)" where
  "validate_groups h wall ordered seen [] = Inr (seen, [])"
| "validate_groups h wall ordered seen (c # cs) =
     (if is_nullish c then Inl ''TypeError''
      else let ids = map to_str (array_items (fld c ''member_ids''));
               known = map pm_device ordered
        in if ids = [] then Inl ''Layout groups cannot be empty''
           else (case claim_members known seen ids of Inl e \<Rightarrow> Inl e | Inr seen' \<Rightarrow>
             (let indexes = sort (map (\<lambda>i. index_of i known) ids) in
              if \<not> contiguous indexes then Inl ''Layout groups must contain contiguous displays''
              else (case validate_groups h wall ordered seen' cs of Inl e \<Rightarrow> Inl e | Inr (s, gs) \<Rightarrow>
                Inr (s, build_group h wall (map (\<lambda>k. ordered ! k) indexes) (fld c ''layout'') c # gs)))))"

text \<open>A group as a value, as the one-panel default hands it on and as the database stores it.\<close>

definition group_json :: "layout_group \<Rightarrow> jsval" where
  "group_json g = JObj [(''id'', gp_id g), (''name'', gp_name g), (''layout'', JStr (gp_layout g)),
     (''member_ids'', JArr (map JStr (gp_members g))), (''leader_device_id'', nullable (gp_leader g)),
     (''geometry'', JObj [(''columns'', jint (int (fst (gp_geometry g)))), (''rows'', jint (int (snd (gp_geometry g))))]),
     (''playlist_id'', gp_playlist g), (''audio_policy'', JObj [(''mode'', JStr ''managed-display'')])]"

definition region_json :: "region \<Rightarrow> jsval" where
  "region_json r = JObj [(''id'', JStr (rg_id r)), (''name'', JStr (rg_name r)), (''x'', JNum (Fin (rg_x r))),
     (''y'', JNum (Fin (rg_y r))), (''width'', JNum (Fin (rg_width r))), (''height'', JNum (Fin (rg_height r))),
     (''coordinate_system'', JStr ''normalized-percent''), (''player_device_id'', JStr (rg_player r)),
     (''zone_id'', JStr (rg_zone r)), (''z_index'', jint (rg_z r)), (''fit_mode'', JStr (rg_fit r)),
     (''enabled'', JBool (rg_enabled r)), (''revision'', JNum (rg_revision r))]"

definition layout_json :: "layout \<Rightarrow> jsval" where
  "layout_json l = JObj [(''version'', jint 1), (''id'', JStr (ly_id l)), (''wall_id'', JStr (ly_wall l)),
     (''mode'', JStr (ly_mode l)), (''revision'', JNum (ly_revision l)), (''preset'', nullable (ly_preset l)),
     (''source'', JStr (ly_source l)), (''groups'', JArr (map group_json (ly_groups l))),
     (''regions'', JArr (map region_json (ly_regions l)))]"

definition validate_layout ::
  "layout_host \<Rightarrow> wall_row \<Rightarrow> wall_member list \<Rightarrow> jsval \<Rightarrow> jsval \<Rightarrow> string \<Rightarrow> string + layout" where
  "validate_layout h wall members input given source =
     (let ordered = ordered_members h members;
          revision = revision_of_layout given input (wr_revision wall)
      in if is_nullish given \<and> is_nullish input then Inl ''TypeError''
      else case normalize_wall_regions wall ordered input (JNum revision) of Inl e \<Rightarrow> Inl e | Inr regions \<Rightarrow>
         (let groups_in = (if array_items (fld input ''groups'') \<noteq> [] then array_items (fld input ''groups'')
                else if regions \<noteq> [] \<and> length ordered = 1
                  then [group_json (build_group h (wr_id wall) ordered (JStr ''solo'') (JObj []))] else [])
          in if groups_in = [] \<and> ordered \<noteq> [] then Inl ''At least one layout group is required''
             else (case validate_groups h (wr_id wall) ordered [] groups_in of Inl e \<Rightarrow> Inl e | Inr (seen, groups) \<Rightarrow>
               if length seen \<noteq> length ordered then Inl ''Every wall display must belong to exactly one layout group''
               else Inr \<lparr>ly_id = layout_id (wr_id wall) revision, ly_wall = wr_id wall, ly_mode = ''groups'',
                        ly_revision = revision, ly_preset = Some (preset_for_groups h ordered groups),
                        ly_source = (if source = [] then ''request'' else source), ly_groups = groups, ly_regions = regions\<rparr>)))"

definition invalid_layout :: "wall_row \<Rightarrow> layout" where
  "invalid_layout wall = \<lparr>ly_id = layout_id (if wr_id wall = [] then ''wall'' else wr_id wall) (number_or_zero (wr_revision wall)),
     ly_wall = wr_id wall, ly_mode = ''invalid'', ly_revision = number_or_zero (wr_revision wall), ly_preset = None,
     ly_source = ''invalid'', ly_groups = [], ly_regions = []\<rparr>"

text \<open>\<open>Inl\<close> is the \<open>INVALID_STORED_WALL_LAYOUT\<close> error; \<open>lenient\<close> is \<open>onInvalid: 'return'\<close>.\<close>

definition parse_stored_layout :: "layout_host \<Rightarrow> wall_row \<Rightarrow> wall_member list \<Rightarrow> bool \<Rightarrow> string + layout" where
  "parse_stored_layout h wall members lenient =
     (let failed = (if lenient then Inr (invalid_layout wall) else Inl (wr_id wall)) in
      case wr_json wall of
        NoLayout \<Rightarrow> Inr (legacy_layout h wall members)
      | Unparsable \<Rightarrow> failed
      | Parsed v \<Rightarrow>
          if is_nullish v \<and> \<not> num_truthy (to_num (wr_revision wall)) then failed
          else (let rv = (if num_truthy (to_num (wr_revision wall)) then to_num (wr_revision wall)
                          else number_or_zero (fld v ''revision''))
                in case validate_layout h wall members v (JNum rv) ''stored'' of Inl e \<Rightarrow> failed | Inr l \<Rightarrow> Inr l))"

subsection \<open>Leaders\<close>

definition group_for_device :: "layout \<Rightarrow> string \<Rightarrow> layout_group option" where
  "group_for_device l dev = find (\<lambda>g. dev \<in> set (gp_members g)) (ly_groups l)"

record effective_group =
  eg_group :: layout_group
  eg_configured :: "string option"
  eg_leader :: "string option"
  eg_failover :: bool

definition member_online :: "wall_member list \<Rightarrow> string \<Rightarrow> bool" where
  "member_online members dev =
     (case map_of (rev (map (\<lambda>m. (pm_device m, pm_status m)) members)) dev of None \<Rightarrow> False | Some s \<Rightarrow> s = ''online'')"

definition effective_leader :: "wall_member list \<Rightarrow> layout_group \<Rightarrow> effective_group" where
  "effective_leader members g =
     (let configured = (case gp_leader g of
            Some l \<Rightarrow> if l \<noteq> [] then Some l else (case gp_members g of [] \<Rightarrow> None | i # _ \<Rightarrow> Some i)
          | None \<Rightarrow> (case gp_members g of [] \<Rightarrow> None | i # _ \<Rightarrow> Some i));
          online = (case configured of None \<Rightarrow> False | Some l \<Rightarrow> member_online members l);
          chosen = (if online then configured
                    else case find (member_online members) (gp_members g) of Some d \<Rightarrow> Some d | None \<Rightarrow> configured)
      in \<lparr>eg_group = g, eg_configured = configured, eg_leader = chosen,
          eg_failover = (configured \<noteq> None \<and> chosen \<noteq> configured)\<rparr>)"

definition resolve_effective_leaders :: "layout \<Rightarrow> wall_member list \<Rightarrow> effective_group list" where
  "resolve_effective_leaders l members = map (effective_leader members) (ly_groups l)"

subsection \<open>Groups partition the wall\<close>

lemma set_insert_member [simp]: "set (insert_member h m ms) = insert m (set ms)"
  by (induction ms) auto

lemma mset_insert_member [simp]: "mset (insert_member h m ms) = add_mset m (mset ms)"
  by (induction ms) auto

lemma mset_ordered_members [simp]: "mset (ordered_members h ms) = mset ms"
  unfolding ordered_members_def by (induction ms) simp_all

lemma set_ordered_members [simp]: "set (ordered_members h ms) = set ms"
  by (metis mset_ordered_members set_mset_mset)

lemma distinct_ordered: "distinct (map pm_device ms) \<Longrightarrow> distinct (map pm_device (ordered_members h ms))"
  using mset_eq_imp_distinct_iff [of "map pm_device (ordered_members h ms)" "map pm_device ms"] by simp

lemma length_ordered [simp]: "length (ordered_members h ms) = length ms"
  by (metis mset_ordered_members size_mset)

lemma ordered_Nil_iff [simp]: "ordered_members h ms = [] \<longleftrightarrow> ms = []"
  by (metis length_0_conv length_ordered)

lemma index_of_nth: "x \<in> set xs \<Longrightarrow> index_of x xs < length xs \<and> xs ! index_of x xs = x"
  by (induction xs) auto

lemma claim_members_Inr:
  "claim_members known seen ids = Inr seen' \<Longrightarrow>
     seen' = rev ids @ seen \<and> distinct ids \<and> set ids \<inter> set seen = {} \<and> set ids \<subseteq> set known"
  by (induction known seen ids rule: claim_members.induct) (auto split: if_splits)

lemma claim_members_back:
  "distinct ids \<Longrightarrow> set ids \<inter> set seen = {} \<Longrightarrow> set ids \<subseteq> set known \<Longrightarrow> claim_members known seen ids = Inr (rev ids @ seen)"
  by (induction known seen ids rule: claim_members.induct) auto

lemma contiguous_upt: "contiguous (a # as) \<Longrightarrow> a # as = [a..<Suc (a + length as)]"
proof (induction as arbitrary: a)
  case (Cons b bs)
  from Cons.prems have b: "b = Suc a" "contiguous (b # bs)" unfolding contiguous.simps(1) by blast+
  from Cons.IH [OF b(2)] have "b # bs = [b..<Suc (b + length bs)]" .
  then have "a # b # bs = a # [Suc a..<Suc (a + length (b # bs))]" using b(1) by (simp del: upt_Suc)
  also have "\<dots> = [a..<Suc (a + length (b # bs))]" by (simp only: upt_conv_Cons)
  finally show ?case .
qed simp

definition block_of :: "string list \<Rightarrow> string list \<Rightarrow> bool" where
  "block_of ids known \<longleftrightarrow> (\<exists>k. k + length ids \<le> length known \<and> ids = take (length ids) (drop k known))"

text \<open>The device ids of the rows a group is built from: a permutation of those given, and a block of the wall.\<close>

lemma rows_of_indexes:
  assumes "set ids \<subseteq> set (map pm_device ordered)" "ids \<noteq> []"
    and "idx = sort (map (\<lambda>i. index_of i (map pm_device ordered)) ids)" "contiguous idx"
  shows "mset (map pm_device (map (\<lambda>k. ordered ! k) idx)) = mset ids
    \<and> block_of (map pm_device (map (\<lambda>k. ordered ! k) idx)) (map pm_device ordered)"
proof -
  let ?known = "map pm_device ordered"
  have inr: "k < length ordered" if "k \<in> set idx" for k
    using that assms(1) index_of_nth [of _ ?known] by (auto simp: assms(3))
  have m: "map pm_device (map (\<lambda>k. ordered ! k) idx) = map (\<lambda>k. ?known ! k) idx"
    unfolding map_map by (rule map_cong) (simp_all add: inr)
  have "mset (map (\<lambda>k. ?known ! k) idx) = image_mset (\<lambda>k. ?known ! k) (mset (map (\<lambda>i. index_of i ?known) ids))"
    by (simp add: assms(3))
  also have "\<dots> = mset (map (\<lambda>i. ?known ! index_of i ?known) ids)" by (simp add: image_mset.compositionality comp_def)
  also have "map (\<lambda>i. ?known ! index_of i ?known) ids = ids"
    by (rule map_idI) (use assms(1) index_of_nth [of _ ?known] in blast)
  finally have p: "mset (map (\<lambda>k. ?known ! k) idx) = mset ids" .
  have "idx \<noteq> []" using assms(2,3) by (metis length_0_conv length_map length_sort)
  then obtain a as where idx: "idx = a # as" by (cases idx) auto
  have u: "idx = [a..<Suc (a + length as)]" using contiguous_upt assms(4) unfolding idx by blast
  have "a + length as \<in> set idx" unfolding u by simp
  with inr have last: "a + length idx \<le> length ?known" by (fastforce simp: idx)
  have "map (\<lambda>k. ?known ! k) idx = take (length idx) (drop a ?known)"
  proof (rule nth_equalityI)
    show "length (map (\<lambda>k. ?known ! k) idx) = length (take (length idx) (drop a ?known))" using last by simp
    fix i assume "i < length (map (\<lambda>k. ?known ! k) idx)"
    then have i: "i < length idx" by simp
    have "idx ! i = a + i" using i unfolding u by (simp del: upt_Suc)
    with i last show "map (\<lambda>k. ?known ! k) idx ! i = take (length idx) (drop a ?known) ! i" by simp
  qed
  with last have "block_of (map (\<lambda>k. ?known ! k) idx) ?known"
    unfolding block_of_def by (metis length_map)
  with p show ?thesis unfolding m by blast
qed

lemma build_group_members [simp]: "gp_members (build_group h wall rows lay c) = map pm_device rows"
  by (simp add: build_group_def Let_def)

lemma build_group_leader:
  "rows \<noteq> [] \<Longrightarrow> \<exists>l. gp_leader (build_group h wall rows lay c) = Some l \<and> l \<in> set (map pm_device rows)"
  by (cases rows) (auto simp: build_group_def Let_def split: jsval.split)

definition sound_group :: "string list \<Rightarrow> layout_group \<Rightarrow> bool" where
  "sound_group known g \<longleftrightarrow> gp_members g \<noteq> [] \<and> block_of (gp_members g) known
     \<and> (\<exists>l. gp_leader g = Some l \<and> l \<in> set (gp_members g))"

lemma validate_groups_Inr:
  assumes "validate_groups h wall ordered seen cs = Inr (s, gs)" "distinct seen"
  shows "mset s = mset seen + mset (concat (map gp_members gs)) \<and> distinct s
    \<and> (set seen \<subseteq> set (map pm_device ordered) \<longrightarrow> set s \<subseteq> set (map pm_device ordered))
    \<and> list_all (sound_group (map pm_device ordered)) gs"
  using assms
proof (induction cs arbitrary: seen s gs)
  case Nil
  then show ?case by simp
next
  case (Cons c cs)
  let ?ids = "map to_str (array_items (fld c ''member_ids''))"
  let ?known = "map pm_device ordered"
  let ?idx = "sort (map (\<lambda>i. index_of i ?known) ?ids)"
  from Cons.prems(1) obtain seen' gs' where ne: "?ids \<noteq> []" and cl: "claim_members ?known seen ?ids = Inr seen'"
    and ct: "contiguous ?idx" and vr: "validate_groups h wall ordered seen' cs = Inr (s, gs')"
    and gs: "gs = build_group h wall (map (\<lambda>k. ordered ! k) ?idx) (fld c ''layout'') c # gs'"
    by (auto simp: Let_def split: if_splits sum.splits)
  from claim_members_Inr [OF cl] have s': "seen' = rev ?ids @ seen" and d: "distinct ?ids" "set ?ids \<inter> set seen = {}"
    and sub: "set ?ids \<subseteq> set ?known" by blast+
  have ds: "distinct seen'" unfolding s' using d Cons.prems(2) by auto
  note r = rows_of_indexes [OF sub ne refl ct]
  let ?g = "build_group h wall (map (\<lambda>k. ordered ! k) ?idx) (fld c ''layout'') c"
  have g: "mset (gp_members ?g) = mset ?ids" "block_of (gp_members ?g) ?known" using r unfolding build_group_members by blast+
  then have gne: "gp_members ?g \<noteq> []" using ne by (metis mset_zero_iff)
  then have "map (\<lambda>k. ordered ! k) ?idx \<noteq> []" unfolding build_group_members by blast
  from build_group_leader [OF this, of h wall "fld c ''layout''" c] gne g(2) have "sound_group ?known ?g"
    unfolding sound_group_def build_group_members by blast
  with Cons.IH [OF vr ds] g(1) sub show ?case unfolding gs s' by (auto simp: ac_simps)
qed

lemma validate_layout_Inr:
  assumes "validate_layout h wall members input given source = Inr l"
  obtains cs s where "validate_groups h (wr_id wall) (ordered_members h members) [] cs = Inr (s, ly_groups l)"
    "length s = length members"
    "normalize_wall_regions wall (ordered_members h members) input (JNum (revision_of_layout given input (wr_revision wall))) = Inr (ly_regions l)"
    "ly_revision l = revision_of_layout given input (wr_revision wall)"
proof -
  let ?rv = "revision_of_layout given input (wr_revision wall)"
  show ?thesis
  proof (cases "normalize_wall_regions wall (ordered_members h members) input (JNum ?rv)")
    case (Inl e)
    with assms show ?thesis unfolding validate_layout_def Let_def by (simp only: sum.case split: if_splits) simp_all
  next
    case (Inr regions)
    define gs where "gs = (if array_items (fld input ''groups'') \<noteq> [] then array_items (fld input ''groups'')
                else if regions \<noteq> [] \<and> length (ordered_members h members) = 1
                  then [group_json (build_group h (wr_id wall) (ordered_members h members) (JStr ''solo'') (JObj []))] else [])"
    from assms Inr obtain a b where v: "validate_groups h (wr_id wall) (ordered_members h members) [] gs = Inr (a, b)"
      and l: "length a = length members" "ly_groups l = b" "ly_regions l = regions" "ly_revision l = ?rv"
      by (cases "validate_groups h (wr_id wall) (ordered_members h members) [] gs")
         (auto simp: validate_layout_def Let_def gs_def [symmetric] split: if_splits)
    show ?thesis by (rule that [of gs a]) (simp_all add: v l Inr)
  qed
qed

definition partitions_wall :: "layout_host \<Rightarrow> wall_member list \<Rightarrow> layout_group list \<Rightarrow> bool" where
  "partitions_wall h members groups \<longleftrightarrow> distinct (concat (map gp_members groups))
     \<and> set (concat (map gp_members groups)) = pm_device ` set members
     \<and> list_all (sound_group (map pm_device (ordered_members h members))) groups"

lemma valid_layout_partition:
  assumes "validate_layout h wall members input given source = Inr l" "distinct (map pm_device members)"
  shows "partitions_wall h members (ly_groups l)"
proof -
  obtain cs s where v: "validate_groups h (wr_id wall) (ordered_members h members) [] cs = Inr (s, ly_groups l)"
    and len: "length s = length members" by (rule validate_layout_Inr [OF assms(1)])
  note r = validate_groups_Inr [OF v]
  let ?c = "concat (map gp_members (ly_groups l))"
  have m: "mset s = mset ?c" and d: "distinct s" and sub: "set s \<subseteq> pm_device ` set members"
    and ok: "list_all (sound_group (map pm_device (ordered_members h members))) (ly_groups l)"
    using r by auto
  have "card (set s) = length members" using d len by (simp add: distinct_card)
  moreover have "card (pm_device ` set members) = length members"
    using assms(2) by (metis distinct_card length_map set_map)
  ultimately have "set s = pm_device ` set members" using sub by (intro card_subset_eq) simp_all
  moreover have "set ?c = set s" using m by (metis set_mset_mset)
  moreover have "distinct ?c" using d mset_eq_imp_distinct_iff [OF m] by blast
  ultimately show ?thesis using ok by (simp add: partitions_wall_def)
qed

lemma block_of_whole: "block_of xs xs"
  unfolding block_of_def by (rule exI [of _ 0]) simp

lemma block_of_item: "x \<in> set xs \<Longrightarrow> block_of [x] xs"
proof -
  assume "x \<in> set xs"
  then obtain k where "k < length xs" "xs ! k = x" by (auto simp: in_set_conv_nth)
  then show ?thesis unfolding block_of_def
    by (intro exI [of _ k]) (simp add: Cons_nth_drop_Suc [symmetric])
qed

lemma concat_singles: "concat (map (\<lambda>m. [f m]) xs) = map f xs"
  by (induction xs) simp_all

lemma legacy_layout_partition:
  assumes "distinct (map pm_device members)"
  shows "partitions_wall h members (ly_groups (legacy_layout h wall members))"
proof -
  let ?ord = "ordered_members h members"
  have d: "distinct (map pm_device ?ord)" by (rule distinct_ordered [OF assms])
  have single: "sound_group (map pm_device ?ord) (build_group h w [m] lay c)" if "m \<in> set members" for m w lay c
    using that build_group_leader [of "[m]" h w lay c] block_of_item [of "pm_device m" "map pm_device ?ord"]
    by (auto simp: sound_group_def)
  have whole: "sound_group (map pm_device ?ord) (build_group h w ?ord lay c)" if "?ord \<noteq> []" for w lay c
    using that build_group_leader [OF that, of h w lay c] block_of_whole [of "map pm_device ?ord"] by (simp add: sound_group_def)
  show ?thesis
  proof (cases "is_split wall")
    case True
    then show ?thesis using d single
      by (auto simp: legacy_layout_def Let_def partitions_wall_def comp_def concat_singles list_all_iff simp del: distinct_map)
  next
    case False
    then show ?thesis using d whole
      by (cases "?ord = []") (simp_all add: legacy_layout_def Let_def partitions_wall_def del: distinct_map)
  qed
qed

lemma parsed_layout_partition:
  assumes "parse_stored_layout h wall members False = Inr l" "distinct (map pm_device members)"
  shows "partitions_wall h members (ly_groups l)"
proof (cases "wr_json wall")
  case NoLayout
  with assms legacy_layout_partition [OF assms(2), of h wall] show ?thesis by (auto simp: parse_stored_layout_def)
next
  case Unparsable
  with assms(1) show ?thesis by (simp add: parse_stored_layout_def)
next
  case (Parsed v)
  with assms(1) obtain rv where "validate_layout h wall members v rv ''stored'' = Inr l"
    unfolding parse_stored_layout_def Let_def by (auto split: if_splits sum.splits)
  then show ?thesis by (rule valid_layout_partition [OF _ assms(2)])
qed

text \<open>C32: A layout of a wall partitions it, whether it was requested, stored or derived from the old span and split modes: every
  panel is in exactly one group, a group is a block of neighbours in the order of the wall, and its leader is one of its
  panels.\<close>

theorem layout_partitions_wall:
  assumes "validate_layout h wall members input given source = Inr l \<or> parse_stored_layout h wall members False = Inr l"
    and "distinct (map pm_device members)"
  shows "distinct (concat (map gp_members (ly_groups l)))
    \<and> set (concat (map gp_members (ly_groups l))) = pm_device ` set members
    \<and> (\<forall>g\<in>set (ly_groups l). gp_members g \<noteq> [] \<and> block_of (gp_members g) (map pm_device (ordered_members h members))
         \<and> (\<exists>d. gp_leader g = Some d \<and> d \<in> set (gp_members g)))"
  using assms(1) valid_layout_partition [OF _ assms(2)] parsed_layout_partition [OF _ assms(2)]
  unfolding partitions_wall_def sound_group_def list_all_iff by blast

subsection \<open>Effective leaders\<close>

text \<open>The leader a group plays under is its configured leader whenever that panel is online; otherwise the first
  panel of the group that is online, if any is. So the leader is online as soon as one panel is, and the configured
  one is back without a change of the layout.\<close>

theorem effective_leader_online:
  assumes "gp_leader g = Some c" "c \<noteq> []" "c \<in> set (gp_members g)"
  shows "eg_configured (effective_leader members g) = Some c
    \<and> (if member_online members c then eg_leader (effective_leader members g) = Some c \<and> \<not> eg_failover (effective_leader members g)
       else if \<exists>d\<in>set (gp_members g). member_online members d
       then \<exists>d\<in>set (gp_members g). eg_leader (effective_leader members g) = Some d \<and> member_online members d
              \<and> eg_failover (effective_leader members g)
       else eg_leader (effective_leader members g) = Some c \<and> \<not> eg_failover (effective_leader members g))"
proof (cases "find (member_online members) (gp_members g)")
  case None
  then have "\<not> (\<exists>d\<in>set (gp_members g). member_online members d)" by (simp add: find_None_iff)
  with None assms show ?thesis by (auto simp: effective_leader_def Let_def)
next
  case (Some d)
  then have d: "d \<in> set (gp_members g)" "member_online members d" by (auto simp: find_Some_iff in_set_conv_nth)
  with Some assms show ?thesis by (auto simp: effective_leader_def Let_def)
qed

subsection \<open>Storing and reading back\<close>

lemma region_json_fields [simp]:
  "fld (region_json r) ''id'' = JStr (rg_id r)" "fld (region_json r) ''name'' = JStr (rg_name r)"
  "fld (region_json r) ''x'' = JNum (Fin (rg_x r))" "fld (region_json r) ''y'' = JNum (Fin (rg_y r))"
  "fld (region_json r) ''width'' = JNum (Fin (rg_width r))" "fld (region_json r) ''height'' = JNum (Fin (rg_height r))"
  "fld (region_json r) ''player_device_id'' = JStr (rg_player r)" "fld (region_json r) ''zone_id'' = JStr (rg_zone r)"
  "fld (region_json r) ''z_index'' = jint (rg_z r)" "fld (region_json r) ''fit_mode'' = JStr (rg_fit r)"
  "fld (region_json r) ''enabled'' = JBool (rg_enabled r)" "fld (region_json r) ''revision'' = JNum (rg_revision r)"
  by (simp_all add: region_json_def)

lemma finite_percent_back: "finite_percent v f p = Inr x \<Longrightarrow> finite_percent (JNum (Fin x)) f' p = Inr x"
  by (auto simp: finite_percent_def split: jsnum.splits if_splits)

lemma finite_percent_range: "finite_percent v f p = Inr x \<Longrightarrow> 0 \<le> x \<and> x \<le> 100 \<and> (p \<longrightarrow> 0 < x)"
  by (auto simp: finite_percent_def split: jsnum.splits if_splits)

lemma coalesce_num [simp]: "js_coalesce (JNum n) v = JNum n"
  by (simp add: js_coalesce_def is_nullish_def)

lemma region_box_back:
  assumes "region_box c i = Inr (rg_x r, rg_y r, rg_width r, rg_height r)"
  shows "region_box (region_json r) i = Inr (rg_x r, rg_y r, rg_width r, rg_height r)"
proof -
  from assms [unfolded region_box_def checks_Inr]
  obtain f1 f2 f3 f4 where p: "finite_percent f1 (i @ '' x'') False = Inr (rg_x r)" "finite_percent f2 (i @ '' y'') False = Inr (rg_y r)"
    "finite_percent f3 (i @ '' width'') True = Inr (rg_width r)" "finite_percent f4 (i @ '' height'') True = Inr (rg_height r)"
    and fits: "\<not> (100.0001 < rg_x r + rg_width r \<or> 100.0001 < rg_y r + rg_height r)"
    by (elim exE conjE) (simp only: sum.inject prod.inject, blast)
  note again = p [THEN finite_percent_back]
  show ?thesis
    unfolding region_box_def region_json_fields coalesce_num again by (simp only: sum.case if_not_P [OF fits])
qed

text \<open>What makes a region acceptable, apart from the regions before it.\<close>

definition sound_region :: "string list \<Rightarrow> jsnum \<Rightarrow> region \<Rightarrow> bool" where
  "sound_region member_ids revision r \<longleftrightarrow>
     rg_id r \<noteq> [] \<and> trim (rg_id r) = rg_id r \<and> rg_name r \<noteq> [] \<and> trim (rg_name r) = rg_name r
     \<and> rg_player r \<noteq> [] \<and> trim (rg_player r) = rg_player r \<and> rg_player r \<in> set member_ids
     \<and> rg_zone r \<noteq> [] \<and> trim (rg_zone r) = rg_zone r
     \<and> region_box (region_json r) (rg_id r) = Inr (rg_x r, rg_y r, rg_width r, rg_height r)
     \<and> num_int revision \<noteq> None \<and> rg_fit r \<in> set fit_modes \<and> rg_revision r = revision"

lemma trim_text_of [simp]: "trim (text_of v) = text_of v"
  by (simp add: text_of_def)

lemma trim_name_text [simp]: "trim (name_text v) = name_text v"
  by (simp add: name_text_def)

lemma same_revision: "\<not> (num_int q = None \<or> \<not> num_eq q rv) \<Longrightarrow> num_int rv \<noteq> None"
  unfolding num_eq_def by metis

lemma normalize_region_Inr:
  assumes "normalize_region ids rv index seen zones c = Inr r"
  shows "sound_region ids rv r \<and> rg_id r \<notin> set seen \<and> rg_zone r \<notin> set zones"
proof -
  note fields = assms [unfolded normalize_region_def Let_def checks_Inr case_prod_beta]
  then obtain b z where b: "region_box c (text_of (fld c ''id'')) = Inr b"
    and r: "\<lparr>rg_id = text_of (fld c ''id''), rg_name = text_of (fld c ''name''), rg_x = fst b, rg_y = fst (snd b),
       rg_width = fst (snd (snd b)), rg_height = snd (snd (snd b)),
       rg_player = name_text (first_present [fld c ''player_device_id'', fld c ''playerDeviceId'', JStr []]),
       rg_zone = name_text (first_present [fld c ''zone_id'', fld c ''zoneId'', JStr (text_of (fld c ''id''))]),
       rg_z = z, rg_fit = to_lower (trim (to_str (js_or (fld c ''fit_mode'') (JStr ''contain'')))),
       rg_enabled = (fld c ''enabled'' \<noteq> JBool False), rg_revision = rv\<rparr> = r"
    by (elim conjE exE) (simp only: sum.inject)
  have n: "num_int rv \<noteq> None" using fields by (elim conjE exE) (erule same_revision)
  have f: "to_lower (trim (to_str (js_or (fld c ''fit_mode'') (JStr ''contain'')))) \<in> set fit_modes"
    using fields by (elim conjE exE) (erule notnotD)
  have "region_box (region_json r) (rg_id r) = Inr (rg_x r, rg_y r, rg_width r, rg_height r)"
    by (rule region_box_back [of c]) (simp add: r [symmetric] b)
  with fields n f show ?thesis
    unfolding sound_region_def
    by (simp only: r [symmetric] region.simps trim_text_of trim_name_text simp_thms de_Morgan_disj)
qed

lemma fit_mode_back: "f \<in> set fit_modes \<Longrightarrow> to_lower (trim f) = f \<and> f \<noteq> []"
proof -
  have "list_all (\<lambda>f. to_lower (trim f) = f \<and> f \<noteq> []) fit_modes" by code_simp
  then show "f \<in> set fit_modes \<Longrightarrow> to_lower (trim f) = f \<and> f \<noteq> []" by (simp add: list_all_iff)
qed

lemma normalize_region_back:
  assumes "sound_region ids rv r" "rg_id r \<notin> set seen" "rg_zone r \<notin> set zones"
  shows "normalize_region ids rv index seen zones (region_json r) = Inr r"
proof -
  from assms(1) obtain n where n: "num_int rv = Some n" by (auto simp: sound_region_def)
  then have eq: "num_eq rv rv" by (cases rv) (simp_all add: num_eq_def)
  have fit: "to_lower (trim (to_str (js_or (JStr (rg_fit r)) (JStr ''contain'')))) = rg_fit r"
    using fit_mode_back [of "rg_fit r"] assms(1) by (simp add: sound_region_def js_or_def)
  have k: "num_int (to_num (js_coalesce (jint (rg_z r)) d)) = Some (rg_z r)" for d by simp
  have b: "region_box (region_json r) (rg_id r) = Inr (rg_x r, rg_y r, rg_width r, rg_height r)"
    and g: "rg_id r \<noteq> []" "rg_name r \<noteq> []" "\<not> (rg_player r = [] \<or> rg_player r \<notin> set ids)" "rg_zone r \<noteq> []"
      "\<not> rg_fit r \<notin> set fit_modes" "\<not> (num_int rv = None \<or> \<not> num_eq rv rv)"
    using assms(1) n eq by (simp_all add: sound_region_def)
  have t: "text_of (JStr (rg_id r)) = rg_id r" "text_of (JStr (rg_name r)) = rg_name r"
    "name_text (first_present [JStr (rg_player r), u, w]) = rg_player r"
    "name_text (first_present [JStr (rg_zone r), u, w]) = rg_zone r" for u w
    using assms(1) by (simp_all add: sound_region_def name_text_def text_of_def is_nullish_def js_or_def)
  have rev: "(if is_nullish (JNum (rg_revision r)) then rv else to_num (JNum (rg_revision r))) = rv"
    and en: "(JBool (rg_enabled r) \<noteq> JBool False) = rg_enabled r"
    using assms(1) by (simp_all add: sound_region_def is_nullish_def)
  show ?thesis
    unfolding normalize_region_def Let_def region_json_fields fit k t b rev en sum.case option.case prod.case
      if_not_P [OF g(1)] if_not_P [OF g(2)] if_not_P [OF g(3)] if_not_P [OF g(4)] if_not_P [OF g(5)] if_not_P [OF g(6)]
      if_not_P [OF assms(2)] if_not_P [OF assms(3)]
    using assms(1) by (simp add: sound_region_def)
qed

definition separate_regions :: "string list \<Rightarrow> string list \<Rightarrow> region list \<Rightarrow> bool" where
  "separate_regions seen zones rs \<longleftrightarrow> distinct (map rg_id rs) \<and> distinct (map rg_zone rs)
     \<and> set (map rg_id rs) \<inter> set seen = {} \<and> set (map rg_zone rs) \<inter> set zones = {}"

lemma normalize_regions_Inr:
  "normalize_regions ids rv index seen zones cs = Inr rs \<Longrightarrow> list_all (sound_region ids rv) rs \<and> separate_regions seen zones rs"
proof (induction cs arbitrary: index seen zones rs)
  case Nil
  then show ?case by (simp add: separate_regions_def)
next
  case (Cons c cs)
  then obtain r rs' where r: "normalize_region ids rv index seen zones c = Inr r" and rs: "rs = r # rs'"
    and n: "normalize_regions ids rv (Suc index) (rg_id r # seen) (rg_zone r # zones) cs = Inr rs'"
    by (auto split: sum.splits)
  from normalize_region_Inr [OF r] Cons.IH [OF n] show ?case by (auto simp: rs separate_regions_def)
qed

lemma normalize_regions_back:
  "list_all (sound_region ids rv) rs \<Longrightarrow> separate_regions seen zones rs \<Longrightarrow>
   normalize_regions ids rv index seen zones (map region_json rs) = Inr rs"
proof (induction rs arbitrary: index seen zones)
  case (Cons r rs)
  then have "normalize_region ids rv index seen zones (region_json r) = Inr r"
    by (intro normalize_region_back) (auto simp: separate_regions_def)
  moreover have "normalize_regions ids rv (Suc index) (rg_id r # seen) (rg_zone r # zones) (map region_json rs) = Inr rs"
    by (rule Cons.IH) (use Cons.prems in \<open>auto simp: separate_regions_def\<close>)
  ultimately show ?case by simp
qed simp

lemma group_json_fields [simp]:
  "fld (group_json g) ''id'' = gp_id g" "fld (group_json g) ''name'' = gp_name g" "fld (group_json g) ''layout'' = JStr (gp_layout g)"
  "fld (group_json g) ''member_ids'' = JArr (map JStr (gp_members g))" "fld (group_json g) ''leader_device_id'' = nullable (gp_leader g)"
  "fld (group_json g) ''playlist_id'' = gp_playlist g" "is_nullish (group_json g) = False"
  by (simp_all add: group_json_def is_nullish_def)

lemma js_or_fixed: "truthy d \<Longrightarrow> js_or (js_or a d) e = js_or a d" and js_or_null: "js_or (js_or a JNull) JNull = js_or a JNull"
  by (simp_all add: js_or_def)

lemma default_name_nonempty: "default_name rows \<noteq> []"
  by (simp add: default_name_def split: list.split option.split)

lemma build_group_back:
  fixes h wall lay c
  assumes "rows \<noteq> []" "\<forall>r\<in>set rows. pm_device r \<noteq> []"
  defines "g \<equiv> build_group h wall rows lay c"
  shows "build_group h wall rows (JStr (gp_layout g)) (group_json g) = g"
proof -
  from build_group_leader [OF assms(1), of h wall lay c] obtain l where l: "gp_leader g = Some l" "l \<in> set (map pm_device rows)"
    unfolding g_def by blast
  then have ne: "l \<noteq> []" using assms(2) by auto
  have i: "js_or (gp_id g) (JStr (group_id h wall (map pm_device rows))) = gp_id g"
    unfolding g_def build_group_def Let_def by (simp add: js_or_fixed group_id_def)
  have n: "js_or (gp_name g) (JStr (default_name rows)) = gp_name g"
    unfolding g_def build_group_def Let_def by (simp add: js_or_fixed default_name_nonempty)
  have p: "js_or (gp_playlist g) JNull = gp_playlist g"
    unfolding g_def build_group_def Let_def by (simp add: js_or_null)
  have y: "(if 1 < length (map pm_device rows) \<and> JStr (gp_layout g) = JStr ''span'' then ''span'' else ''solo'') = gp_layout g"
    unfolding g_def build_group_def Let_def by simp
  have geo: "(count_distinct (map pm_col rows), count_distinct (map pm_row rows)) = gp_geometry g"
    and m: "map pm_device rows = gp_members g"
    unfolding g_def build_group_def Let_def by simp_all
  have "build_group h wall rows (JStr (gp_layout g)) (group_json g) =
    \<lparr>gp_id = gp_id g, gp_name = gp_name g, gp_layout = gp_layout g, gp_members = gp_members g, gp_leader = gp_leader g,
     gp_geometry = gp_geometry g, gp_playlist = gp_playlist g\<rparr>"
    unfolding build_group_def Let_def group_json_fields i n p y geo using l ne by (simp add: nullable_def m)
  then show ?thesis by simp
qed

lemma index_of_distinct: "distinct xs \<Longrightarrow> k < length xs \<Longrightarrow> index_of (xs ! k) xs = k"
proof (induction xs arbitrary: k)
  case (Cons x xs)
  then show ?case by (cases k) auto
qed simp

lemma sort_indexes_back:
  assumes "distinct known" "\<forall>k\<in>set idx. k < length known" "sorted idx"
  shows "sort (map (\<lambda>i. index_of i known) (map (\<lambda>k. known ! k) idx)) = idx"
proof -
  have "map (\<lambda>i. index_of i known) (map (\<lambda>k. known ! k) idx) = idx"
    unfolding map_map by (rule map_idI) (use assms(1,2) index_of_distinct in auto)
  then show ?thesis using assms(3) by (simp only: sorted_sort_id)
qed

lemma validate_groups_back:
  assumes "validate_groups h wall ordered seen cs = Inr (s, gs)" "distinct (map pm_device ordered)"
    and "\<forall>m\<in>set ordered. pm_device m \<noteq> []" "set seen2 = set seen" "length seen2 = length seen"
  shows "\<exists>s2. validate_groups h wall ordered seen2 (map group_json gs) = Inr (s2, gs) \<and> length s2 = length s"
  using assms
proof (induction cs arbitrary: seen seen2 s gs)
  case Nil
  then show ?case by simp
next
  case (Cons c cs)
  let ?ids = "map to_str (array_items (fld c ''member_ids''))"
  let ?known = "map pm_device ordered"
  let ?idx = "sort (map (\<lambda>i. index_of i ?known) ?ids)"
  let ?rows = "map (\<lambda>k. ordered ! k) ?idx"
  let ?g = "build_group h wall ?rows (fld c ''layout'') c"
  from Cons.prems(1) obtain seen' gs' where ne: "?ids \<noteq> []" and cl: "claim_members ?known seen ?ids = Inr seen'"
    and ct: "contiguous ?idx" and vr: "validate_groups h wall ordered seen' cs = Inr (s, gs')" and gs: "gs = ?g # gs'"
    by (auto simp: Let_def split: if_splits sum.splits)
  from claim_members_Inr [OF cl] have s': "seen' = rev ?ids @ seen" and d: "distinct ?ids" "set ?ids \<inter> set seen = {}"
    and sub: "set ?ids \<subseteq> set ?known" by blast+
  have r: "mset (map pm_device ?rows) = mset ?ids" using rows_of_indexes [OF sub ne refl ct] by blast
  have inr: "\<forall>k\<in>set ?idx. k < length ?known" using sub index_of_nth [of _ ?known] by auto
  have wm: "map pm_device ?rows = map (\<lambda>k. ?known ! k) ?idx"
    unfolding map_map by (rule map_cong) (use inr in auto)
  have rne: "?rows \<noteq> []" using r ne by (metis list.simps(8) mset_zero_iff)
  have rok: "\<forall>m\<in>set ?rows. pm_device m \<noteq> []" using Cons.prems(3) inr by auto
  have set_r: "set (map pm_device ?rows) = set ?ids" by (rule mset_eq_setD) (rule r)
  have dist_r: "distinct (map pm_device ?rows)" using d(1) mset_eq_imp_distinct_iff [OF r] by blast
  have cl2: "claim_members ?known seen2 (map pm_device ?rows) = Inr (rev (map pm_device ?rows) @ seen2)"
    by (rule claim_members_back) (use dist_r set_r d(2) sub Cons.prems(4) in \<open>simp_all only: Int_commute\<close>)
  have idx2: "sort (map (\<lambda>i. index_of i ?known) (map pm_device ?rows)) = ?idx"
    unfolding wm by (rule sort_indexes_back [OF Cons.prems(2) inr]) (rule sorted_sort)
  have ids2: "map to_str (array_items (fld (group_json ?g) ''member_ids'')) = map pm_device ?rows"
    by (simp add: comp_def)
  let ?seen2 = "rev (map pm_device ?rows) @ seen2"
  have "set ?seen2 = set seen'" unfolding s' using set_r Cons.prems(4) by (simp only: set_append set_rev)
  moreover have "length ?seen2 = length seen'" unfolding s'
    using arg_cong [OF r, of size] Cons.prems(5) by simp
  ultimately obtain s2 where s2: "validate_groups h wall ordered ?seen2 (map group_json gs') = Inr (s2, gs')" "length s2 = length s"
    using Cons.IH [OF vr Cons.prems(2,3)] by blast
  have gb: "build_group h wall ?rows (JStr (gp_layout ?g)) (group_json ?g) = ?g" by (rule build_group_back [OF rne rok])
  have "map pm_device ?rows \<noteq> []" using rne by blast
  then have "validate_groups h wall ordered seen2 (group_json ?g # map group_json gs') = Inr (s2, ?g # gs')"
    unfolding validate_groups.simps Let_def ids2 cl2 sum.case idx2 group_json_fields(3,7) gb using ct s2(1)
    by (simp only: if_False if_True sum.case prod.case not_True_eq_False)
  with s2(2) show ?case unfolding gs list.map by blast
qed

text \<open>A layout survives the database: written as JSON and validated again for the same wall, a valid layout comes back
  with the same revision, groups and regions.\<close>

theorem stored_layout_roundtrip:
  assumes "validate_layout h wall members input given source = Inr l" "distinct (map pm_device members)"
    and "\<forall>m\<in>set members. pm_device m \<noteq> []"
  shows "\<exists>l'. validate_layout h wall members (layout_json l) (JNum (ly_revision l)) ''stored'' = Inr l'
    \<and> ly_groups l' = ly_groups l \<and> ly_regions l' = ly_regions l \<and> ly_revision l' = ly_revision l \<and> ly_preset l' = Some (preset_for_groups h (ordered_members h members) (ly_groups l))"
proof -
  let ?ord = "ordered_members h members"
  obtain cs s where v: "validate_groups h (wr_id wall) ?ord [] cs = Inr (s, ly_groups l)" and len: "length s = length members"
    and rg: "normalize_wall_regions wall ?ord input (JNum (revision_of_layout given input (wr_revision wall))) = Inr (ly_regions l)"
    and rv: "ly_revision l = revision_of_layout given input (wr_revision wall)"
    by (rule validate_layout_Inr [OF assms(1)])
  have keep: "number_or_zero (JNum (ly_revision l)) = ly_revision l"
    unfolding rv revision_of_layout_def number_or_zero_def Let_def by simp
  then have rk: "revision_of_layout (JNum (ly_revision l)) x y = ly_revision l" for x y by (simp add: revision_of_layout_def)
  from rg have "normalize_regions (map pm_device ?ord) (ly_revision l) 0 [] [] (array_items (fld input ''regions'')) = Inr (ly_regions l)"
    unfolding normalize_wall_regions_def rv [symmetric] rk .
  from normalize_regions_Inr [OF this]
  have rb: "normalize_wall_regions wall ?ord (layout_json l) (JNum (ly_revision l)) = Inr (ly_regions l)"
    unfolding normalize_wall_regions_def rk by (simp add: layout_json_def normalize_regions_back)
  have "\<exists>s2. validate_groups h (wr_id wall) ?ord [] (map group_json (ly_groups l)) = Inr (s2, ly_groups l) \<and> length s2 = length s"
    by (rule validate_groups_back [OF v distinct_ordered [OF assms(2)]]) (use assms(3) in simp_all)
  then obtain s2 where s2: "validate_groups h (wr_id wall) ?ord [] (map group_json (ly_groups l)) = Inr (s2, ly_groups l)" "length s2 = length members"
    using len by auto
  have none: "?ord = []" if "ly_groups l = []"
  proof -
    from that s2(1) have "s2 = []" by simp
    with s2(2) show ?thesis by (metis length_0_conv length_ordered list.size(3))
  qed
  have gi: "array_items (fld (layout_json l) ''groups'') = map group_json (ly_groups l)" by (simp add: layout_json_def)
  show ?thesis
  proof (cases "ly_groups l = []")
    case True
    with none s2 have "members = []" by (metis length_0_conv length_ordered list.size(3))
    with none [OF True] True rb gi show ?thesis
      by (simp add: validate_layout_def Let_def rk is_nullish_def)
  next
    case False
    with s2 rb gi show ?thesis by (simp add: validate_layout_def Let_def rk is_nullish_def)
  qed
qed

subsection \<open>A wall of three panels\<close>

definition plain_host :: layout_host where
  "plain_host = \<lparr>h_before = (\<lambda>a b. False), h_digest = (\<lambda>s. s)\<rparr>"

definition panel :: "string \<Rightarrow> rat \<Rightarrow> string \<Rightarrow> wall_member" where
  "panel d c st = \<lparr>pm_device = d, pm_row = 0, pm_col = c, pm_name = None, pm_playlist = None, pm_status = st, pm_workspace = None\<rparr>"

definition three_panels :: "wall_member list" where
  "three_panels = [panel ''c'' 2 ''online'', panel ''a'' 0 ''offline'', panel ''b'' 1 ''online'']"

definition panel_wall :: wall_row where
  "panel_wall = \<lparr>wr_id = ''w'', wr_mode = None, wr_revision = jint 4, wr_json = NoLayout, wr_leader = None, wr_playlist = None,
     wr_workspace = None\<rparr>"

definition group_request :: "string list \<Rightarrow> string \<Rightarrow> jsval" where
  "group_request ids lay = JObj [(''member_ids'', JArr (map JStr ids)), (''layout'', JStr lay)]"

definition left_request :: jsval where
  "left_request = JObj [(''groups'', JArr [group_request [''b'', ''a''] ''span'', group_request [''c''] ''solo''])]"

definition left_layout :: "string + layout" where
  "left_layout = validate_layout plain_host panel_wall three_panels left_request JUndef ''explicit''"

definition is_layout :: "string + layout \<Rightarrow> bool" where
  "is_layout r = (case r of Inl e \<Rightarrow> False | Inr l \<Rightarrow> True)"

lemma is_layout_Inr: "is_layout r \<longleftrightarrow> (\<exists>l. r = Inr l)"
  by (cases r) (simp_all add: is_layout_def)

lemma left_layout_valid: "is_layout left_layout"
  by code_simp

lemma three_panels_distinct: "distinct (map pm_device three_panels) \<and> (\<forall>m\<in>set three_panels. pm_device m \<noteq> [])"
  by (simp add: three_panels_def panel_def)

theorem layout_partitions_wall_witness:
  "\<exists>l. left_layout = Inr l \<and> distinct (concat (map gp_members (ly_groups l)))
     \<and> set (concat (map gp_members (ly_groups l))) = {''a'', ''b'', ''c''}"
proof -
  from left_layout_valid obtain l where l: "left_layout = Inr l" unfolding is_layout_Inr ..
  from layout_partitions_wall [OF disjI1 [OF l [unfolded left_layout_def]]] three_panels_distinct l show ?thesis
    by (auto simp: three_panels_def panel_def)
qed

theorem stored_layout_roundtrip_witness:
  "\<exists>l l'. left_layout = Inr l
     \<and> validate_layout plain_host panel_wall three_panels (layout_json l) (JNum (ly_revision l)) ''stored'' = Inr l'
     \<and> ly_groups l' = ly_groups l"
proof -
  from left_layout_valid obtain l where l: "left_layout = Inr l" unfolding is_layout_Inr ..
  from stored_layout_roundtrip [OF l [unfolded left_layout_def]] three_panels_distinct l show ?thesis by blast
qed

definition left_group :: layout_group where
  "left_group = build_group plain_host ''w'' [panel ''a'' 0 ''offline'', panel ''b'' 1 ''online''] (JStr ''span'') (JObj [])"

theorem effective_leader_online_witness:
  "eg_configured (effective_leader three_panels left_group) = Some ''a'' \<and> eg_leader (effective_leader three_panels left_group) = Some ''b''"
proof -
  have g: "gp_leader left_group = Some ''a''" "gp_members left_group = [''a'', ''b'']"
    by (simp_all add: left_group_def build_group_def panel_def Let_def fld_def)
  have on: "\<not> member_online three_panels ''a''" "member_online three_panels ''b''"
    by (simp_all add: member_online_def three_panels_def panel_def)
  from effective_leader_online [OF g(1), of three_panels] g(2) on show ?thesis by auto
qed

end
