(* ===== verification/BroadcastTargets.thy ===== *)
theory BroadcastTargets
  imports WallLayout
begin

text \<open>
  Broadcast targets (\<open>server/lib/broadcast-targets.js\<close>): what a broadcast that names displays, device groups, walls,
  wall members, wall regions or wall groups is sent to.

  The tables the module reads are the record \<open>topology\<close>; a response other than \<open>ok\<close> is the left side of a sum, with
  its status and body, and carries no targets. The stored layouts are those of \<^verbatim>\<open>WallLayout\<close>.
\<close>

subsection \<open>Tables and results\<close>

record device_info =
  dv_name :: "string option"
  dv_workspace :: "string option"
  dv_playlist :: "string option"
  dv_status :: string
  dv_layout :: "string option"

record wall_device =
  wd_wall :: string
  wd_device :: string
  wd_row :: rat
  wd_col :: rat

record topology =
  tp_devices :: "(string \<times> device_info) list"
  tp_groups :: "(string \<times> string option) list"
  tp_group_members :: "(string \<times> string) list"
  tp_walls :: "(string \<times> wall_row) list"
  tp_wall_devices :: "wall_device list"
  tp_zones :: "(string \<times> string) list"

record refusal =
  rf_status :: nat
  rf_body :: jsval

datatype route_kind =
    ToDisplay
  | ToDeviceGroup string
  | ToWall string int
  | ToWallMember string int
  | ToWallGroup string string int
  | ToRegion string string string int string bool

record route =
  rt_device :: string
  rt_kind :: route_kind

record collected =
  co_targets :: "string list"
  co_routes :: "route list"

record loaded_wall =
  ld_wall :: wall_row
  ld_members :: "wall_member list"
  ld_revision :: int

text \<open>\<open>isExplicitRevision(v)\<close>, with the number it accepts.\<close>

definition explicit_revision :: "jsval \<Rightarrow> int option" where
  "explicit_revision v =
     (if v = JUndef \<or> v = JNull \<or> v = JStr [] then None
      else case num_int (to_num v) of None \<Rightarrow> None | Some i \<Rightarrow> if 0 \<le> i then Some i else None)"

definition revision_json :: "jsval \<Rightarrow> jsval" where
  "revision_json v = (case explicit_revision v of None \<Rightarrow> JNull | Some i \<Rightarrow> jint i)"

definition layout_conflict :: "string \<Rightarrow> jsval \<Rightarrow> jsval \<Rightarrow> string \<Rightarrow> refusal" where
  "layout_conflict wall expected cur message = \<lparr>rf_status = 409, rf_body = JObj [
     (''error'', JStr message), (''code'', JStr ''LAYOUT_REVISION_CONFLICT''),
     (''wall_id'', js_or (JStr wall) JNull), (''expected_revision'', revision_json expected),
     (''current_revision'', revision_json cur)]\<rparr>"

definition topology_changed :: string where
  "topology_changed = ''Wall topology changed; refresh targets and try again''"

definition typed_target_error :: "string \<Rightarrow> refusal" where
  "typed_target_error message = \<lparr>rf_status = 400, rf_body = JObj [(''error'', JStr message)]\<rparr>"

definition typed_target_not_found :: "string \<Rightarrow> string \<Rightarrow> refusal" where
  "typed_target_not_found type i = \<lparr>rf_status = 404, rf_body = JObj [
     (''error'', JStr (type @ '' '' @ i @ '' no longer exists; refresh targets and try again'')),
     (''code'', JStr ''TARGET_NOT_FOUND'')]\<rparr>"

definition not_in_workspace :: "string \<Rightarrow> refusal" where
  "not_in_workspace what = \<lparr>rf_status = 403, rf_body = JObj [(''error'', JStr (what @ '' is not in this workspace''))]\<rparr>"

definition topology_conflict :: "string \<Rightarrow> (string \<times> jsval) list \<Rightarrow> refusal" where
  "topology_conflict message extra = \<lparr>rf_status = 409,
     rf_body = JObj ([(''error'', JStr message), (''code'', JStr ''TOPOLOGY_CONFLICT'')] @ extra)\<rparr>"

subsection \<open>Collecting routes\<close>

definition add_target :: "string \<Rightarrow> collected \<Rightarrow> collected" where
  "add_target i co = (if i \<noteq> [] \<and> i \<notin> set (co_targets co) then co\<lparr>co_targets := co_targets co @ [i]\<rparr> else co)"

definition route_key :: "route \<Rightarrow> string" where
  "route_key r = (case rt_kind r of
      ToRegion wall region zone rv fit whole \<Rightarrow> rt_device r @ '':region:'' @ region
    | _ \<Rightarrow> rt_device r)"

definition add_route :: "collected \<Rightarrow> route \<Rightarrow> collected" where
  "add_route co r =
     (if rt_device r = [] then co
      else add_target (rt_device r)
        (if route_key r \<in> route_key ` set (co_routes co) then co else co\<lparr>co_routes := co_routes co @ [r]\<rparr>))"

subsection \<open>Displays and device groups\<close>

definition workspace_of_device :: "topology \<Rightarrow> string \<Rightarrow> string option" where
  "workspace_of_device tp i = (case map_of (tp_devices tp) i of None \<Rightarrow> None | Some d \<Rightarrow> dv_workspace d)"

definition display_routes :: "topology \<Rightarrow> string \<Rightarrow> jsval \<Rightarrow> refusal + route list" where
  "display_routes tp ws ref =
     (let i = to_str (js_or (fld ref ''id'') (JStr [])) in
      if i = [] then Inl (typed_target_error ''Display targets require id'')
      else case map_of (tp_devices tp) i of
             None \<Rightarrow> Inl (typed_target_not_found ''Display'' i)
           | Some d \<Rightarrow> if dv_workspace d \<noteq> Some ws then Inl (not_in_workspace (''Device '' @ i))
                       else Inr [\<lparr>rt_device = i, rt_kind = ToDisplay\<rparr>])"

definition group_devices :: "topology \<Rightarrow> string \<Rightarrow> string list" where
  "group_devices tp g = map snd (filter (\<lambda>m. fst m = g) (tp_group_members tp))"

definition device_group_routes :: "topology \<Rightarrow> string \<Rightarrow> jsval \<Rightarrow> refusal + route list" where
  "device_group_routes tp ws ref =
     (let g = to_str (js_or (js_or (fld ref ''id'') (fld ref ''group_id'')) (JStr [])) in
      if g = [] then Inl (typed_target_error ''Device-group targets require id'')
      else case map_of (tp_groups tp) g of
             None \<Rightarrow> Inl (typed_target_not_found ''Device group'' g)
           | Some w \<Rightarrow>
               if w \<noteq> Some ws then Inl (not_in_workspace (''Device group '' @ g))
               else (let members = group_devices tp g in
                     if members = [] \<or> list_ex (\<lambda>d. workspace_of_device tp d \<noteq> Some ws) members
                     then Inl (topology_conflict ''Device-group membership is empty or inconsistent'' [])
                     else Inr (map (\<lambda>d. \<lparr>rt_device = d, rt_kind = ToDeviceGroup g\<rparr>) members)))"

subsection \<open>Walls\<close>

definition joined_member :: "topology \<Rightarrow> wall_device \<Rightarrow> wall_member option" where
  "joined_member tp row = (case map_of (tp_devices tp) (wd_device row) of
      None \<Rightarrow> None
    | Some d \<Rightarrow> Some \<lparr>pm_device = wd_device row, pm_row = wd_row row, pm_col = wd_col row, pm_name = dv_name d,
                      pm_playlist = dv_playlist d, pm_status = dv_status d, pm_workspace = dv_workspace d\<rparr>)"

definition members_of_wall :: "topology \<Rightarrow> string \<Rightarrow> wall_member list" where
  "members_of_wall tp w = List.map_filter (joined_member tp) (filter (\<lambda>row. wd_wall row = w) (tp_wall_devices tp))"

text \<open>The row a broadcast reads of a wall has neither its leader nor its playlist.\<close>

definition load_wall :: "topology \<Rightarrow> string \<Rightarrow> string \<Rightarrow> jsval \<Rightarrow> refusal + loaded_wall" where
  "load_wall tp ws w expected =
     (case map_of (tp_walls tp) w of
        None \<Rightarrow> Inl (layout_conflict w expected JNull ''Wall topology no longer exists; refresh targets and try again'')
      | Some row \<Rightarrow>
          if wr_workspace row \<noteq> Some ws then Inl (not_in_workspace (''Wall '' @ w))
          else (case explicit_revision (wr_revision row) of
              None \<Rightarrow> Inl (layout_conflict w expected JNull ''Wall topology revision is unavailable; refresh targets and try again'')
            | Some cur \<Rightarrow>
                if explicit_revision expected \<noteq> Some cur then Inl (layout_conflict w expected (jint cur) topology_changed)
                else (let members = members_of_wall tp w in
                  if members = [] \<or> list_ex (\<lambda>m. pm_workspace m \<noteq> Some ws) members
                  then Inl (layout_conflict w expected (jint cur) ''Wall topology is incomplete; refresh targets and try again'')
                  else Inr \<lparr>ld_wall = row\<lparr>wr_leader := None, wr_playlist := None\<rparr>, ld_members = members, ld_revision = cur\<rparr>)))"

definition load_authoritative_layout :: "layout_host \<Rightarrow> loaded_wall \<Rightarrow> string \<Rightarrow> refusal + layout" where
  "load_authoritative_layout h ld w =
     (case parse_stored_layout h (ld_wall ld) (ld_members ld) False of
        Inr l \<Rightarrow> Inr l
      | Inl e \<Rightarrow> Inl \<lparr>rf_status = 409, rf_body = JObj [
          (''error'', JStr ''Stored wall layout is invalid; repair or resynchronize it before broadcasting''),
          (''code'', JStr ''INVALID_STORED_WALL_LAYOUT''), (''wall_id'', JStr w),
          (''current_revision'', jint (ld_revision ld))]\<rparr>)"

definition split_wall :: "loaded_wall \<Rightarrow> bool" where
  "split_wall ld \<longleftrightarrow> wr_mode (ld_wall ld) = Some ''split''"

definition zone_bound :: "topology \<Rightarrow> string \<Rightarrow> string \<Rightarrow> bool" where
  "zone_bound tp zone dev =
     (case map_of (tp_devices tp) dev of None \<Rightarrow> False
      | Some d \<Rightarrow> list_ex (\<lambda>z. fst z = zone \<and> dv_layout d = Some (snd z)) (tp_zones tp))"

definition unbound_region :: string where
  "unbound_region = ''Wall region is not bound to the current Mosaic player layout''"

definition fit_or_contain :: "region \<Rightarrow> string" where
  "fit_or_contain r = (if rg_fit r = [] then ''contain'' else rg_fit r)"

fun mosaic_routes :: "topology \<Rightarrow> jsval \<Rightarrow> loaded_wall \<Rightarrow> string \<Rightarrow> string \<Rightarrow> region list \<Rightarrow> refusal + route list" where
  "mosaic_routes tp expected ld w player [] = Inr []"
| "mosaic_routes tp expected ld w player (r # rs) =
     (if \<not> zone_bound tp (rg_zone r) player then Inl (layout_conflict w expected (jint (ld_revision ld)) unbound_region)
      else case mosaic_routes tp expected ld w player rs of Inl e \<Rightarrow> Inl e
           | Inr out \<Rightarrow> Inr (\<lparr>rt_device = player,
               rt_kind = ToRegion w (rg_id r) (rg_zone r) (ld_revision ld) (fit_or_contain r) True\<rparr> # out))"

definition wall_routes :: "layout_host \<Rightarrow> topology \<Rightarrow> jsval \<Rightarrow> loaded_wall \<Rightarrow> string \<Rightarrow> refusal + route list" where
  "wall_routes h tp expected ld w =
     (case load_authoritative_layout h ld w of Inl e \<Rightarrow> Inl e | Inr l \<Rightarrow>
       (let mosaic = (case ld_members ld of [m] \<Rightarrow> if split_wall ld then filter rg_enabled (ly_regions l) else [] | _ \<Rightarrow> [])
        in if mosaic \<noteq> [] then mosaic_routes tp expected ld w (pm_device (hd (ld_members ld))) mosaic
           else Inr (map (\<lambda>m. \<lparr>rt_device = pm_device m, rt_kind = ToWall w (ld_revision ld)\<rparr>) (ld_members ld))))"

definition wall_member_routes :: "jsval \<Rightarrow> loaded_wall \<Rightarrow> string \<Rightarrow> refusal + route list" where
  "wall_member_routes ref ld w =
     (let d = to_str (js_or (js_or (fld ref ''device_id'') (fld ref ''id'')) (JStr [])) in
      if d = [] then Inl (typed_target_error ''Wall-member targets require device_id'')
      else if d \<notin> pm_device ` set (ld_members ld) then Inl (typed_target_not_found ''Wall member'' d)
      else if \<not> split_wall ld \<or> length (ld_members ld) \<le> 1
        then Inl (topology_conflict ''Individual wall members are routable only on a current multi-player split wall''
                    [(''wall_id'', JStr w)])
      else Inr [\<lparr>rt_device = d, rt_kind = ToWallMember w (ld_revision ld)\<rparr>])"

definition region_zone :: "region \<Rightarrow> string" where
  "region_zone r = (if rg_zone r = [] then rg_id r else rg_zone r)"

definition wall_region_routes ::
  "layout_host \<Rightarrow> topology \<Rightarrow> jsval \<Rightarrow> loaded_wall \<Rightarrow> string \<Rightarrow> refusal + route list" where
  "wall_region_routes h tp ref ld w =
     (let i = to_str (js_or (js_or (fld ref ''region_id'') (fld ref ''id'')) (JStr [])); expected = fld ref ''layout_revision'' in
      if i = [] then Inl (typed_target_error ''Wall-region targets require region_id'')
      else if \<not> split_wall ld \<or> length (ld_members ld) \<noteq> 1
        then Inl (topology_conflict ''Wall regions require a current one-player Mosaic split wall'' [(''wall_id'', JStr w)])
      else (case load_authoritative_layout h ld w of Inl e \<Rightarrow> Inl e | Inr l \<Rightarrow>
        (case find (\<lambda>r. rg_id r = i) (ly_regions l) of
           None \<Rightarrow> Inl (typed_target_not_found ''Wall region'' i)
         | Some r \<Rightarrow>
             if \<not> rg_enabled r then Inl (typed_target_not_found ''Wall region'' i)
             else if \<not> num_eq (rg_revision r) (Fin (of_int (ld_revision ld))) \<or> rg_player r = []
                  \<or> pm_device (hd (ld_members ld)) \<noteq> rg_player r \<or> region_zone r = []
               then Inl (layout_conflict w expected (jint (ld_revision ld))
                           ''Wall-region topology is inconsistent; refresh targets and try again'')
             else if \<not> zone_bound tp (region_zone r) (rg_player r)
               then Inl (layout_conflict w expected (jint (ld_revision ld)) unbound_region)
             else Inr [\<lparr>rt_device = rg_player r,
                        rt_kind = ToRegion w i (region_zone r) (ld_revision ld) (fit_or_contain r) False\<rparr>])))"

text \<open>The groups of the layout are exactly the current members, each once.\<close>

definition complete_current_layout :: "wall_member list \<Rightarrow> layout_group list \<Rightarrow> bool" where
  "complete_current_layout members groups \<longleftrightarrow>
     (let ids = concat (map gp_members groups); cur = map pm_device members in
      groups \<noteq> [] \<and> list_all (\<lambda>g. gp_members g \<noteq> []) groups
      \<and> length (remdups ids) = length ids \<and> length (remdups ids) = length (remdups cur)
      \<and> list_all (\<lambda>i. i \<in> set ids) cur)"

definition group_gone :: string where
  "group_gone = ''Wall-group topology no longer exists; refresh targets and try again''"

definition wall_group_routes :: "layout_host \<Rightarrow> jsval \<Rightarrow> loaded_wall \<Rightarrow> string \<Rightarrow> refusal + route list" where
  "wall_group_routes h ref ld w =
     (let i = to_str (js_or (js_or (fld ref ''group_id'') (fld ref ''id'')) (JStr []));
          conflict = layout_conflict w (fld ref ''layout_revision'') (jint (ld_revision ld)) group_gone in
      if i = [] then Inl (typed_target_error ''Wall-group targets require group_id'')
      else (case load_authoritative_layout h ld w of Inl e \<Rightarrow> Inl e | Inr l \<Rightarrow>
        if \<not> complete_current_layout (ld_members ld) (ly_groups l) then Inl conflict
        else (case find (\<lambda>g. to_str (js_or (gp_id g) (JStr [])) = i) (ly_groups l) of
          None \<Rightarrow> Inl conflict
        | Some g \<Rightarrow>
            if gp_members g = [] \<or> list_ex (\<lambda>d. d \<notin> pm_device ` set (ld_members ld)) (gp_members g) then Inl conflict
            else Inr (map (\<lambda>d. \<lparr>rt_device = d, rt_kind = ToWallGroup w i (ld_revision ld)\<rparr>) (gp_members g)))))"

subsection \<open>A list of references\<close>

definition ref_type :: "jsval \<Rightarrow> string" where
  "ref_type ref = map (\<lambda>c. if c = CHR ''_'' then CHR ''-'' else c) (to_lower (text_of (fld ref ''type'')))"

definition wall_types :: "string list" where
  "wall_types = [''wall'', ''wall-group'', ''wall-member'', ''wall-region'']"

text \<open>The wall id a reference names: \<open>String(type === 'wall' ? ref.id : ref.wall_id || '')\<close>.\<close>

definition named_wall :: "jsval \<Rightarrow> string" where
  "named_wall ref = to_str (if ref_type ref = ''wall'' then fld ref ''id'' else js_or (fld ref ''wall_id'') (JStr []))"

text \<open>What one reference adds. A refusal discards what was collected before it.\<close>

definition resolve_ref :: "layout_host \<Rightarrow> topology \<Rightarrow> string \<Rightarrow> jsval \<Rightarrow> refusal + route list" where
  "resolve_ref h tp ws ref =
     (let type = ref_type ref; w = named_wall ref in
      if \<not> is_plain_object ref then Inl (typed_target_error ''Each target must be a typed object'')
      else if type = ''display'' then display_routes tp ws ref
      else if type = ''group'' \<or> type = ''device-group'' then device_group_routes tp ws ref
      else if type \<in> set wall_types then
        (if w = [] then Inl (typed_target_error (type @ '' targets require '' @ (if type = ''wall'' then ''id'' else ''wall_id'')))
         else case load_wall tp ws w (fld ref ''layout_revision'') of Inl e \<Rightarrow> Inl e | Inr ld \<Rightarrow>
           if type = ''wall'' then wall_routes h tp (fld ref ''layout_revision'') ld w
           else if type = ''wall-member'' then wall_member_routes ref ld w
           else if type = ''wall-region'' then wall_region_routes h tp ref ld w
           else wall_group_routes h ref ld w)
      else Inl (typed_target_error (''Unsupported target type: '' @ to_str (js_or (fld ref ''type'') (JStr ''(missing)'')))))"

fun resolve_refs :: "layout_host \<Rightarrow> topology \<Rightarrow> string \<Rightarrow> collected \<Rightarrow> jsval list \<Rightarrow> refusal + collected" where
  "resolve_refs h tp ws co [] = Inr co"
| "resolve_refs h tp ws co (ref # refs) =
     (case resolve_ref h tp ws ref of Inl e \<Rightarrow> Inl e | Inr routes \<Rightarrow> resolve_refs h tp ws (foldl add_route co routes) refs)"

definition nothing_collected :: collected where
  "nothing_collected = \<lparr>co_targets = [], co_routes = []\<rparr>"

definition resolve_typed_broadcast_targets :: "layout_host \<Rightarrow> topology \<Rightarrow> string \<Rightarrow> jsval \<Rightarrow> refusal + collected" where
  "resolve_typed_broadcast_targets h tp ws refs =
     (if is_array refs then resolve_refs h tp ws nothing_collected (array_items refs)
      else Inl (typed_target_error ''targets must be an array''))"

subsection \<open>A list of device ids\<close>

record id_targets =
  it_requested :: "string list"
  it_targets :: "string list"
  it_missing :: "string list"

definition live_target_prefix :: string where
  "live_target_prefix = ''live-stream-program-''"

definition is_managed_live_stream_target :: "string \<Rightarrow> bool" where
  "is_managed_live_stream_target i = starts_with i live_target_prefix"

fun pick_targets :: "topology \<Rightarrow> string \<Rightarrow> bool \<Rightarrow> string list \<Rightarrow> string list \<Rightarrow> string list \<Rightarrow> refusal + (string list \<times> string list)" where
  "pick_targets tp ws live targets missing [] = Inr (targets, missing)"
| "pick_targets tp ws live targets missing (i # is) =
     (if is_managed_live_stream_target i \<and> \<not> live
      then Inl \<lparr>rf_status = 400, rf_body = JObj [
        (''error'', JStr ''The live-stream program target requires explicit inclusion''),
        (''code'', JStr ''LIVE_STREAM_CONFIRMATION_REQUIRED'')]\<rparr>
      else case map_of (tp_devices tp) i of
             None \<Rightarrow> pick_targets tp ws live targets (missing @ [i]) is
           | Some d \<Rightarrow> if dv_workspace d \<noteq> Some ws then Inl (not_in_workspace (''Device '' @ i))
                       else pick_targets tp ws live (targets @ [i]) missing is)"

definition resolve_broadcast_targets :: "topology \<Rightarrow> string \<Rightarrow> jsval \<Rightarrow> jsval list \<Rightarrow> refusal + id_targets" where
  "resolve_broadcast_targets tp ws allow ids =
     (let requested = dedup (map to_str ids) in
      case pick_targets tp ws (allow = JBool True) [] [] requested of Inl e \<Rightarrow> Inl e | Inr (targets, missing) \<Rightarrow>
        if targets = []
        then Inl \<lparr>rf_status = 404, rf_body = JObj [(''error'', JStr ''No valid target devices found''),
                   (''missing'', JArr (map JStr missing))]\<rparr>
        else Inr \<lparr>it_requested = requested, it_targets = targets, it_missing = missing\<rparr>)"

subsection \<open>Collected routes\<close>

definition well_collected :: "collected \<Rightarrow> bool" where
  "well_collected co \<longleftrightarrow> distinct (co_targets co) \<and> distinct (map route_key (co_routes co))
     \<and> rt_device ` set (co_routes co) \<subseteq> set (co_targets co)"

lemma well_nothing [simp]: "well_collected nothing_collected"
  by (simp add: well_collected_def nothing_collected_def)

lemma add_target_fields [simp]:
  "set (co_targets (add_target i co)) = set (co_targets co) \<union> {d. d = i \<and> d \<noteq> []}"
  "co_routes (add_target i co) = co_routes co"
  "distinct (co_targets (add_target i co)) \<longleftrightarrow> distinct (co_targets co)"
  by (auto simp: add_target_def)

lemma add_route_routes: "set (co_routes (add_route co r)) \<subseteq> insert r (set (co_routes co))"
  by (auto simp: add_route_def)

lemma add_route_targets: "set (co_targets (add_route co r)) = set (co_targets co) \<union> {d. d = rt_device r \<and> d \<noteq> []}"
  by (auto simp: add_route_def)

lemma add_route_well: "well_collected co \<Longrightarrow> well_collected (add_route co r)"
  by (auto simp: well_collected_def add_route_def)

lemma add_routes:
  "set (co_routes (foldl add_route co rs)) \<subseteq> set (co_routes co) \<union> set rs
   \<and> set (co_targets (foldl add_route co rs)) = set (co_targets co) \<union> {d \<in> rt_device ` set rs. d \<noteq> []}
   \<and> (well_collected co \<longrightarrow> well_collected (foldl add_route co rs))"
proof (induction rs arbitrary: co)
  case (Cons r rs)
  from Cons.IH [of "add_route co r"] add_route_routes [of co r] add_route_targets [of co r] add_route_well [of co r]
  show ?case by auto
qed simp

text \<open>What every route of every reference has, every route collected has.\<close>

lemma resolve_refs_Inr:
  assumes "resolve_refs h tp ws co refs = Inr out"
  shows "(well_collected co \<longrightarrow> well_collected out)
    \<and> (\<forall>r\<in>set (co_routes out). r \<in> set (co_routes co) \<or> (\<exists>ref\<in>set refs. \<exists>rs. resolve_ref h tp ws ref = Inr rs \<and> r \<in> set rs))
    \<and> (\<forall>d\<in>set (co_targets out). d \<in> set (co_targets co)
         \<or> (\<exists>ref\<in>set refs. \<exists>rs. resolve_ref h tp ws ref = Inr rs \<and> d \<in> rt_device ` set rs))
    \<and> (\<forall>ref\<in>set refs. \<exists>rs. resolve_ref h tp ws ref = Inr rs)"
  using assms
proof (induction refs arbitrary: co)
  case Nil
  then show ?case by simp
next
  case (Cons ref refs)
  from Cons.prems obtain rs where r: "resolve_ref h tp ws ref = Inr rs"
    and o: "resolve_refs h tp ws (foldl add_route co rs) refs = Inr out" by (auto split: sum.splits)
  from Cons.IH [OF o] add_routes [of co rs] r show ?case by (auto; blast)
qed

lemma resolve_typed_Inr:
  "resolve_typed_broadcast_targets h tp ws refs = Inr out \<Longrightarrow>
   resolve_refs h tp ws nothing_collected (array_items refs) = Inr out"
  by (auto simp: resolve_typed_broadcast_targets_def split: if_splits)

subsection \<open>Routes stay in the workspace\<close>

definition in_workspace :: "topology \<Rightarrow> string \<Rightarrow> string \<Rightarrow> bool" where
  "in_workspace tp ws d \<longleftrightarrow> workspace_of_device tp d = Some ws"

lemma display_routes_in: "display_routes tp ws ref = Inr rs \<Longrightarrow> \<forall>r\<in>set rs. in_workspace tp ws (rt_device r)"
  by (auto simp: display_routes_def Let_def in_workspace_def workspace_of_device_def split: if_splits option.splits)

lemma device_group_routes_in: "device_group_routes tp ws ref = Inr rs \<Longrightarrow> \<forall>r\<in>set rs. in_workspace tp ws (rt_device r)"
  by (auto simp: device_group_routes_def Let_def in_workspace_def list_ex_iff split: if_splits option.splits)

lemma members_of_wall_device:
  "m \<in> set (members_of_wall tp w) \<Longrightarrow> workspace_of_device tp (pm_device m) = pm_workspace m"
  by (auto simp: members_of_wall_def List.map_filter_def joined_member_def workspace_of_device_def split: option.splits)

lemma load_wall_Inr:
  assumes "load_wall tp ws w expected = Inr ld"
  obtains row where "map_of (tp_walls tp) w = Some row" "wr_workspace row = Some ws"
    "explicit_revision (wr_revision row) = Some (ld_revision ld)" "explicit_revision expected = Some (ld_revision ld)"
    "ld_wall ld = row\<lparr>wr_leader := None, wr_playlist := None\<rparr>" "ld_members ld = members_of_wall tp w" "ld_members ld \<noteq> []"
    "\<forall>m\<in>set (ld_members ld). in_workspace tp ws (pm_device m)"
proof -
  from assms obtain row where row: "map_of (tp_walls tp) w = Some row" "wr_workspace row = Some ws"
    "explicit_revision (wr_revision row) = Some (ld_revision ld)" "explicit_revision expected = Some (ld_revision ld)"
    "ld_wall ld = row\<lparr>wr_leader := None, wr_playlist := None\<rparr>" "ld_members ld = members_of_wall tp w" "ld_members ld \<noteq> []"
    and ws: "\<not> list_ex (\<lambda>m. pm_workspace m \<noteq> Some ws) (ld_members ld)"
    unfolding load_wall_def Let_def by (simp split: option.splits if_splits) (metis loaded_wall.select_convs)
  from ws row(6) have mem: "\<forall>m\<in>set (ld_members ld). in_workspace tp ws (pm_device m)"
    using members_of_wall_device [of _ tp w] by (auto simp: in_workspace_def list_ex_iff)
  show ?thesis by (rule that [OF row mem])
qed

text \<open>The wall and the revision a route was resolved against.\<close>

fun kind_revision :: "route_kind \<Rightarrow> (string \<times> int) option" where
  "kind_revision ToDisplay = None"
| "kind_revision (ToDeviceGroup g) = None"
| "kind_revision (ToWall w rv) = Some (w, rv)"
| "kind_revision (ToWallMember w rv) = Some (w, rv)"
| "kind_revision (ToWallGroup w g rv) = Some (w, rv)"
| "kind_revision (ToRegion w i z rv f whole) = Some (w, rv)"

lemma mosaic_routes_Inr:
  "mosaic_routes tp expected ld w player rs = Inr out \<Longrightarrow>
   \<forall>r\<in>set out. rt_device r = player \<and> kind_revision (rt_kind r) = Some (w, ld_revision ld)"
  by (induction rs arbitrary: out) (auto split: if_splits sum.splits)

definition of_loaded :: "loaded_wall \<Rightarrow> string \<Rightarrow> route \<Rightarrow> bool" where
  "of_loaded ld w r \<longleftrightarrow> rt_device r \<in> pm_device ` set (ld_members ld) \<and> kind_revision (rt_kind r) = Some (w, ld_revision ld)"

lemma wall_routes_of:
  assumes "wall_routes h tp expected ld w = Inr rs" "ld_members ld \<noteq> []"
  shows "\<forall>r\<in>set rs. of_loaded ld w r"
proof -
  have hd: "pm_device (hd (ld_members ld)) \<in> pm_device ` set (ld_members ld)" using assms(2) by simp
  from assms(1) obtain l where l: "load_authoritative_layout h ld w = Inr l" by (auto simp: wall_routes_def split: sum.splits)
  define mo where "mo = (case ld_members ld of [m] \<Rightarrow> if split_wall ld then filter rg_enabled (ly_regions l) else [] | _ \<Rightarrow> [])"
  from assms(1) have "(if mo \<noteq> [] then mosaic_routes tp expected ld w (pm_device (hd (ld_members ld))) mo
      else Inr (map (\<lambda>m. \<lparr>rt_device = pm_device m, rt_kind = ToWall w (ld_revision ld)\<rparr>) (ld_members ld))) = Inr rs"
    unfolding wall_routes_def l sum.case Let_def mo_def .
  then consider (mosaic) "mosaic_routes tp expected ld w (pm_device (hd (ld_members ld))) mo = Inr rs"
    | (panels) "rs = map (\<lambda>m. \<lparr>rt_device = pm_device m, rt_kind = ToWall w (ld_revision ld)\<rparr>) (ld_members ld)"
    by (simp split: if_splits)
  then show ?thesis
  proof cases
    case mosaic
    from mosaic_routes_Inr [OF this] hd show ?thesis by (auto simp: of_loaded_def)
  next
    case panels
    then show ?thesis by (auto simp: of_loaded_def)
  qed
qed

lemma wall_member_routes_of: "wall_member_routes ref ld w = Inr rs \<Longrightarrow> \<forall>r\<in>set rs. of_loaded ld w r"
  by (auto simp: wall_member_routes_def Let_def of_loaded_def split: if_splits)

lemma wall_region_routes_of:
  assumes "wall_region_routes h tp ref ld w = Inr rs" "ld_members ld \<noteq> []"
  shows "\<forall>r\<in>set rs. of_loaded ld w r"
proof -
  from assms(1) [unfolded wall_region_routes_def Let_def checks_Inr sum.inject] obtain r :: region and i z f where
    "pm_device (hd (ld_members ld)) = rg_player r"
    "[\<lparr>rt_device = rg_player r, rt_kind = ToRegion w i z (ld_revision ld) f False\<rparr>] = rs" by (elim exE conjE) (erule that [rotated], blast)
  moreover have "pm_device (hd (ld_members ld)) \<in> pm_device ` set (ld_members ld)" using assms(2) by simp
  ultimately show ?thesis by (auto simp: of_loaded_def)
qed

lemma wall_group_routes_of: "wall_group_routes h ref ld w = Inr rs \<Longrightarrow> \<forall>r\<in>set rs. of_loaded ld w r"
  by (auto simp: wall_group_routes_def Let_def of_loaded_def list_ex_iff split: if_splits sum.splits option.splits)


lemma resolve_ref_cases:
  assumes "resolve_ref h tp ws ref = Inr rs"
  obtains (direct) "\<forall>r\<in>set rs. in_workspace tp ws (rt_device r)" "ref_type ref \<notin> set wall_types"
      "\<forall>r\<in>set rs. kind_revision (rt_kind r) = None"
    | (wall) ld where "ref_type ref \<in> set wall_types" "load_wall tp ws (named_wall ref) (fld ref ''layout_revision'') = Inr ld"
      "\<forall>r\<in>set rs. of_loaded ld (named_wall ref) r"
proof -
  consider "ref_type ref = ''display'' \<and> display_routes tp ws ref = Inr rs"
    | "(ref_type ref = ''group'' \<or> ref_type ref = ''device-group'') \<and> device_group_routes tp ws ref = Inr rs"
    | "ref_type ref \<in> set wall_types \<and> (\<exists>ld. load_wall tp ws (named_wall ref) (fld ref ''layout_revision'') = Inr ld \<and>
        (wall_routes h tp (fld ref ''layout_revision'') ld (named_wall ref) = Inr rs \<or> wall_member_routes ref ld (named_wall ref) = Inr rs
         \<or> wall_region_routes h tp ref ld (named_wall ref) = Inr rs \<or> wall_group_routes h ref ld (named_wall ref) = Inr rs))"
    using assms [unfolded resolve_ref_def Let_def checks_Inr either_Inr sum.distinct simp_thms] by blast
  then show ?thesis
  proof cases
    case 1
    then have "\<forall>r\<in>set rs. kind_revision (rt_kind r) = None"
      by (auto simp: display_routes_def Let_def split: if_splits option.splits)
    with 1 direct display_routes_in show ?thesis by (auto simp: wall_types_def)
  next
    case 2
    then have "\<forall>r\<in>set rs. kind_revision (rt_kind r) = None"
      by (auto simp: device_group_routes_def Let_def split: if_splits option.splits)
    with 2 direct device_group_routes_in show ?thesis by (auto simp: wall_types_def)
  next
    case 3
    then obtain ld where ld: "load_wall tp ws (named_wall ref) (fld ref ''layout_revision'') = Inr ld"
      and r: "wall_routes h tp (fld ref ''layout_revision'') ld (named_wall ref) = Inr rs \<or> wall_member_routes ref ld (named_wall ref) = Inr rs
         \<or> wall_region_routes h tp ref ld (named_wall ref) = Inr rs \<or> wall_group_routes h ref ld (named_wall ref) = Inr rs" by blast
    from ld have ne: "ld_members ld \<noteq> []" by (rule load_wall_Inr)
    from r have "\<forall>r\<in>set rs. of_loaded ld (named_wall ref) r"
      by (elim disjE) (erule wall_routes_of [OF _ ne] wall_member_routes_of wall_region_routes_of [OF _ ne] wall_group_routes_of)+
    with 3 ld wall show ?thesis by blast
  qed
qed

lemma resolve_ref_in:
  assumes "resolve_ref h tp ws ref = Inr rs"
  shows "\<forall>r\<in>set rs. in_workspace tp ws (rt_device r)"
  using assms
proof (cases rule: resolve_ref_cases)
  case (wall ld)
  from wall(2) have "\<forall>m\<in>set (ld_members ld). in_workspace tp ws (pm_device m)" by (rule load_wall_Inr)
  with wall(3) show ?thesis by (auto simp: of_loaded_def)
qed

text \<open>Every target of a typed broadcast is a display of the caller's workspace, no target and no route is listed twice, and
  every route goes to a target.\<close>

theorem typed_targets_in_workspace:
  assumes "resolve_typed_broadcast_targets h tp ws refs = Inr out"
  shows "(\<forall>d\<in>set (co_targets out). in_workspace tp ws d) \<and> well_collected out"
proof -
  note r = resolve_refs_Inr [OF resolve_typed_Inr [OF assms]]
  have none: "co_targets nothing_collected = []" by (simp add: nothing_collected_def)
  from r none resolve_ref_in show ?thesis by fastforce
qed

definition revision_of_wall :: "topology \<Rightarrow> string \<Rightarrow> string \<Rightarrow> int option" where
  "revision_of_wall tp ws w = (case map_of (tp_walls tp) w of
      None \<Rightarrow> None
    | Some row \<Rightarrow> if wr_workspace row = Some ws then explicit_revision (wr_revision row) else None)"

lemma load_wall_revision:
  "load_wall tp ws w expected = Inr ld \<Longrightarrow>
   revision_of_wall tp ws w = Some (ld_revision ld) \<and> explicit_revision expected = Some (ld_revision ld)"
  by (erule load_wall_Inr) (simp add: revision_of_wall_def)

text \<open>A broadcast that resolves has seen the walls as they are: every reference to a wall or to a part of one named the current
  layout revision of a wall of the workspace, and every route into a wall carries that revision.\<close>

theorem wall_routes_current:
  assumes "resolve_typed_broadcast_targets h tp ws refs = Inr out"
  shows "(\<forall>ref\<in>set (array_items refs). ref_type ref \<in> set wall_types \<longrightarrow>
        revision_of_wall tp ws (named_wall ref) \<noteq> None
        \<and> explicit_revision (fld ref ''layout_revision'') = revision_of_wall tp ws (named_wall ref))
    \<and> (\<forall>r\<in>set (co_routes out). \<forall>w rv. kind_revision (rt_kind r) = Some (w, rv) \<longrightarrow> revision_of_wall tp ws w = Some rv)"
proof -
  note r = resolve_refs_Inr [OF resolve_typed_Inr [OF assms]]
  have none: "co_routes nothing_collected = []" by (simp add: nothing_collected_def)
  have a: "revision_of_wall tp ws (named_wall ref) \<noteq> None
      \<and> explicit_revision (fld ref ''layout_revision'') = revision_of_wall tp ws (named_wall ref)"
    if "resolve_ref h tp ws ref = Inr rs" "ref_type ref \<in> set wall_types" for ref rs
    using that(1) by (cases rule: resolve_ref_cases) (use that(2) load_wall_revision in auto)
  have b: "revision_of_wall tp ws w = Some rv"
    if "resolve_ref h tp ws ref = Inr rs" "x \<in> set rs" "kind_revision (rt_kind x) = Some (w, rv)" for ref rs x w rv
    using that(1) by (cases rule: resolve_ref_cases) (use that(2,3) load_wall_revision in \<open>auto simp: of_loaded_def\<close>)
  from r none a b show ?thesis by fastforce
qed

subsection \<open>Wall groups\<close>

lemma complete_partition:
  assumes "partitions_wall h members groups" "members \<noteq> []" "distinct (map pm_device members)"
  shows "complete_current_layout members groups"
proof -
  let ?ids = "concat (map gp_members groups)"
  have d: "distinct ?ids" and s: "set ?ids = set (map pm_device members)" and ok: "\<forall>g\<in>set groups. gp_members g \<noteq> []"
    using assms(1) by (auto simp: partitions_wall_def list_all_iff sound_group_def)
  have "groups \<noteq> []" using s assms(2) by auto
  moreover have "length ?ids = length (map pm_device members)" using d s assms(3) by (metis distinct_card)
  ultimately show ?thesis
    using d s ok assms(3) unfolding complete_current_layout_def Let_def
    by (simp only: distinct_remdups_id list_all_iff) blast
qed

lemma partition_members: "partitions_wall h members groups \<Longrightarrow> g \<in> set groups \<Longrightarrow> gp_members g \<noteq> [] \<and> set (gp_members g) \<subseteq> pm_device ` set members"
  by (auto simp: partitions_wall_def list_all_iff sound_group_def)

text \<open>A wall group is refused for its membership only when the layout has no group of that id: the checks that the layout
  covers the current members never fail, and the group is sent to exactly its members.\<close>

theorem wall_group_exact:
  assumes "load_wall tp ws w expected = Inr ld" "distinct (map pm_device (ld_members ld))"
    and "i = to_str (js_or (js_or (fld ref ''group_id'') (fld ref ''id'')) (JStr []))" "i \<noteq> []"
  shows "wall_group_routes h ref ld w =
    (case load_authoritative_layout h ld w of Inl e \<Rightarrow> Inl e | Inr l \<Rightarrow>
      (case find (\<lambda>g. to_str (js_or (gp_id g) (JStr [])) = i) (ly_groups l) of
         None \<Rightarrow> Inl (layout_conflict w (fld ref ''layout_revision'') (jint (ld_revision ld)) group_gone)
       | Some g \<Rightarrow> Inr (map (\<lambda>d. \<lparr>rt_device = d, rt_kind = ToWallGroup w i (ld_revision ld)\<rparr>) (gp_members g))))"
proof (cases "load_authoritative_layout h ld w")
  case (Inl e)
  then show ?thesis unfolding wall_group_routes_def Let_def assms(3) [symmetric] if_not_P [OF assms(4)] by simp
next
  case (Inr l)
  have ne: "ld_members ld \<noteq> []" using assms(1) by (rule load_wall_Inr)
  from Inr have "parse_stored_layout h (ld_wall ld) (ld_members ld) False = Inr l"
    by (simp add: load_authoritative_layout_def split: sum.splits)
  then have p: "partitions_wall h (ld_members ld) (ly_groups l)" by (rule parsed_layout_partition [OF _ assms(2)])
  note c = complete_partition [OF p ne assms(2)]
  show ?thesis
  proof (cases "find (\<lambda>g. to_str (js_or (gp_id g) (JStr [])) = i) (ly_groups l)")
    case None
    then show ?thesis
      unfolding wall_group_routes_def Let_def assms(3) [symmetric] if_not_P [OF assms(4)] Inr by (simp add: c)
  next
    case (Some g)
    then have "g \<in> set (ly_groups l)" by (auto simp: find_Some_iff)
    from partition_members [OF p this] have "\<not> (gp_members g = [] \<or> list_ex (\<lambda>d. d \<notin> pm_device ` set (ld_members ld)) (gp_members g))"
      by (auto simp: list_ex_iff)
    then show ?thesis
      unfolding wall_group_routes_def Let_def assms(3) [symmetric] if_not_P [OF assms(4)] Inr by (simp add: c Some)
  qed
qed

subsection \<open>Lists of device ids\<close>

definition live_refused :: "bool \<Rightarrow> string \<Rightarrow> bool" where
  "live_refused live i \<longleftrightarrow> is_managed_live_stream_target i \<and> \<not> live"

definition device_exists :: "topology \<Rightarrow> string \<Rightarrow> bool" where
  "device_exists tp i \<longleftrightarrow> map_of (tp_devices tp) i \<noteq> None"

lemma pick_targets_spec:
  "pick_targets tp ws live targets missing ids = Inr (t, m) \<longleftrightarrow>
     (\<forall>i\<in>set ids. \<not> live_refused live i \<and> (device_exists tp i \<longrightarrow> in_workspace tp ws i))
     \<and> t = targets @ filter (device_exists tp) ids \<and> m = missing @ filter (\<lambda>i. \<not> device_exists tp i) ids"
  by (induction tp ws live targets missing ids rule: pick_targets.induct)
     (auto simp: live_refused_def device_exists_def in_workspace_def workspace_of_device_def split: option.splits)

text \<open>A broadcast to device ids resolves exactly when one of them exists, every one that exists is a display of the workspace, and
  no live-stream receiver is among them unless it was included explicitly; the targets are the ids that exist, each once, in the
  order they were asked for, and the rest are reported missing.\<close>

theorem id_targets_exact:
  "resolve_broadcast_targets tp ws allow ids = Inr out \<longleftrightarrow>
     (\<forall>i\<in>set (map to_str ids). (is_managed_live_stream_target i \<longrightarrow> allow = JBool True)
        \<and> (device_exists tp i \<longrightarrow> in_workspace tp ws i))
     \<and> (\<exists>i\<in>set (map to_str ids). device_exists tp i)
     \<and> it_requested out = dedup (map to_str ids)
     \<and> it_targets out = filter (device_exists tp) (it_requested out)
     \<and> it_missing out = filter (\<lambda>i. \<not> device_exists tp i) (it_requested out)"
proof -
  let ?req = "dedup (map to_str ids)"
  have "resolve_broadcast_targets tp ws allow ids = Inr out \<longleftrightarrow>
      (\<exists>t m. pick_targets tp ws (allow = JBool True) [] [] ?req = Inr (t, m) \<and> t \<noteq> []
        \<and> out = \<lparr>it_requested = ?req, it_targets = t, it_missing = m\<rparr>)"
    by (cases "pick_targets tp ws (allow = JBool True) [] [] ?req") (auto simp: resolve_broadcast_targets_def Let_def split: if_splits)
  also have "\<dots> \<longleftrightarrow> (\<forall>i\<in>set ?req. \<not> live_refused (allow = JBool True) i \<and> (device_exists tp i \<longrightarrow> in_workspace tp ws i))
      \<and> filter (device_exists tp) ?req \<noteq> []
      \<and> out = \<lparr>it_requested = ?req, it_targets = filter (device_exists tp) ?req, it_missing = filter (\<lambda>i. \<not> device_exists tp i) ?req\<rparr>"
    unfolding pick_targets_spec by auto
  also have "filter (device_exists tp) ?req \<noteq> [] \<longleftrightarrow> (\<exists>i\<in>set (map to_str ids). device_exists tp i)"
    by (simp add: filter_empty_conv)
  finally show ?thesis
    by (cases out) (auto simp: live_refused_def)
qed

text \<open>A reference to a wall without an id is not refused as incomplete: \<open>String(undefined)\<close> is not empty, so that it is looked up as
  the wall named \<open>undefined\<close>.\<close>

theorem wall_without_id_looked_up:
  assumes "map_of (tp_walls tp) ''undefined'' = None"
  shows "resolve_ref h tp ws (JObj [(''type'', JStr ''wall'')]) =
    Inl (layout_conflict ''undefined'' JUndef JNull ''Wall topology no longer exists; refresh targets and try again'')"
proof -
  have t: "ref_type (JObj [(''type'', JStr ''wall'')]) = ''wall''" by code_simp
  have f: "fld (JObj [(''type'', JStr ''wall'')]) ''id'' = JUndef" "fld (JObj [(''type'', JStr ''wall'')]) ''layout_revision'' = JUndef"
    by code_simp+
  have w: "''wall'' \<in> set wall_types" "''wall'' \<noteq> ''display''" "\<not> (''wall'' = ''group'' \<or> ''wall'' = ''device-group'')"
    by (simp_all add: wall_types_def)
  show ?thesis
    unfolding resolve_ref_def Let_def named_wall_def t f
    using w by (simp add: load_wall_def assms)
qed

subsection \<open>A workspace with a wall\<close>

definition display_in :: "string \<Rightarrow> device_info" where
  "display_in ws = \<lparr>dv_name = None, dv_workspace = Some ws, dv_playlist = None, dv_status = ''online'', dv_layout = None\<rparr>"

definition lobby :: topology where
  "lobby = \<lparr>tp_devices = [(''a'', display_in ''ws''), (''b'', display_in ''ws''), (''c'', display_in ''ws'')],
     tp_groups = [(''g'', Some ''ws'')], tp_group_members = [(''g'', ''a''), (''g'', ''c'')],
     tp_walls = [(''w'', panel_wall\<lparr>wr_workspace := Some ''ws''\<rparr>)],
     tp_wall_devices = [\<lparr>wd_wall = ''w'', wd_device = ''a'', wd_row = 0, wd_col = 0\<rparr>,
                        \<lparr>wd_wall = ''w'', wd_device = ''b'', wd_row = 0, wd_col = 1\<rparr>],
     tp_zones = []\<rparr>"

definition wall_ref :: "int \<Rightarrow> jsval" where
  "wall_ref rv = JObj [(''type'', JStr ''Wall''), (''id'', JStr ''w''), (''layout_revision'', jint rv)]"

definition lobby_refs :: jsval where
  "lobby_refs = JArr [JObj [(''type'', JStr ''device_group''), (''id'', JStr ''g'')], wall_ref 4]"

definition resolved :: "refusal + 'a \<Rightarrow> bool" where
  "resolved r = (case r of Inl e \<Rightarrow> False | Inr x \<Rightarrow> True)"

lemma resolved_Inr: "resolved r \<longleftrightarrow> (\<exists>x. r = Inr x)"
  by (cases r) (simp_all add: resolved_def)

lemma lobby_resolves: "resolved (resolve_typed_broadcast_targets plain_host lobby ''ws'' lobby_refs)"
  by code_simp

theorem typed_targets_in_workspace_witness:
  "\<exists>out. resolve_typed_broadcast_targets plain_host lobby ''ws'' lobby_refs = Inr out \<and> well_collected out"
proof -
  from lobby_resolves obtain out where "resolve_typed_broadcast_targets plain_host lobby ''ws'' lobby_refs = Inr out"
    unfolding resolved_Inr ..
  with typed_targets_in_workspace [OF this] show ?thesis by blast
qed

theorem wall_routes_current_witness:
  "explicit_revision (fld (wall_ref 4) ''layout_revision'') = revision_of_wall lobby ''ws'' ''w''"
proof -
  from lobby_resolves obtain out where o: "resolve_typed_broadcast_targets plain_host lobby ''ws'' lobby_refs = Inr out"
    unfolding resolved_Inr ..
  have t: "ref_type (wall_ref 4) \<in> set wall_types" "named_wall (wall_ref 4) = ''w''" by code_simp+
  have "wall_ref 4 \<in> set (array_items lobby_refs)" by (simp add: lobby_refs_def)
  with wall_routes_current [OF o] t show ?thesis by auto
qed

definition lobby_group_ref :: jsval where
  "lobby_group_ref = JObj [(''group_id'', JStr ''w:group:a|b''), (''layout_revision'', jint 4)]"

definition lobby_group_found :: bool where
  "lobby_group_found =
     (case load_wall lobby ''ws'' ''w'' (jint 4) of Inl e \<Rightarrow> False | Inr ld \<Rightarrow>
      (case load_authoritative_layout plain_host ld ''w'' of Inl e \<Rightarrow> False | Inr l \<Rightarrow>
       (case find (\<lambda>g. to_str (js_or (gp_id g) (JStr [])) = ''w:group:a|b'') (ly_groups l) of
          None \<Rightarrow> False | Some g \<Rightarrow> gp_members g = [''a'', ''b''])))"

lemma lobby_has_group: lobby_group_found
  by code_simp

theorem wall_group_exact_witness:
  "\<exists>ld rs. load_wall lobby ''ws'' ''w'' (jint 4) = Inr ld
     \<and> wall_group_routes plain_host lobby_group_ref ld ''w'' = Inr rs \<and> map rt_device rs = [''a'', ''b'']"
proof -
  from lobby_has_group obtain ld l g where ld: "load_wall lobby ''ws'' ''w'' (jint 4) = Inr ld"
    and l: "load_authoritative_layout plain_host ld ''w'' = Inr l"
    and g: "find (\<lambda>g. to_str (js_or (gp_id g) (JStr [])) = ''w:group:a|b'') (ly_groups l) = Some g" "gp_members g = [''a'', ''b'']"
    unfolding lobby_group_found_def by (simp split: sum.splits option.splits)
  have "map (\<lambda>m. pm_device m) (members_of_wall lobby ''w'') = [''a'', ''b'']" by code_simp
  moreover from ld have m: "ld_members ld = members_of_wall lobby ''w''" by (rule load_wall_Inr)
  ultimately have d: "distinct (map pm_device (ld_members ld))" by simp
  have i: "''w:group:a|b'' = to_str (js_or (js_or (fld lobby_group_ref ''group_id'') (fld lobby_group_ref ''id'')) (JStr []))"
    by code_simp
  from wall_group_exact [OF ld d i, of plain_host, unfolded l sum.case g(1) option.case g(2)] ld show ?thesis by auto
qed

end
