(* ===== verification/Machines.thy ===== *)
theory Machines
  imports Main
begin

text \<open>
  Machines that take one event at a time. A component whose handlers are composed into a step function states its
  well-formedness as \<open>good\<close>; that every step keeps it is the law of the interface, and what follows for runs
  is proved here once.
\<close>

definition run_events :: "('e \<Rightarrow> 's \<Rightarrow> 's) \<Rightarrow> 'e list \<Rightarrow> 's \<Rightarrow> 's" where
  "run_events step es s = foldl (\<lambda>s e. step e s) s es"

lemma run_events_simps [simp]:
  "run_events step [] s = s"
  "run_events step (e # es) s = run_events step es (step e s)"
  "run_events step (xs @ ys) s = run_events step ys (run_events step xs s)"
  by (simp_all add: run_events_def)

locale machine =
  fixes step :: "'e \<Rightarrow> 's \<Rightarrow> 's"
    and good :: "'s \<Rightarrow> bool"
  assumes good_step: "good s \<Longrightarrow> good (step e s)"
begin

lemma run_good: "good s \<Longrightarrow> good (run_events step es s)"
  by (induction es arbitrary: s) (simp_all add: good_step)

text \<open>What the events of a run keep of a good state, the run keeps.\<close>

lemma run_keeps:
  assumes "good s" "P s" "\<And>e t. e \<in> set es \<Longrightarrow> good t \<Longrightarrow> P t \<Longrightarrow> P (step e t)"
  shows "P (run_events step es s)"
  using assms
proof (induction es arbitrary: s)
  case (Cons e es)
  from Cons.prems(1,2) have "good (step e s)" "P (step e s)" by (simp_all add: good_step Cons.prems(3))
  from Cons.IH [OF this] Cons.prems(3) show ?case by simp
qed simp

text \<open>A quantity no event of the run raises.\<close>

lemma run_measure:
  fixes m :: "'s \<Rightarrow> nat"
  assumes "good s" "\<And>e t. e \<in> set es \<Longrightarrow> good t \<Longrightarrow> m (step e t) \<le> m t"
  shows "m (run_events step es s) \<le> m s"
  by (rule run_keeps [where P = "\<lambda>t. m t \<le> m s", OF assms(1)]) (auto intro: order_trans assms(2))

end

end
