(* ===== verification/RendererAudio.thy ===== *)
theory RendererAudio
  imports AudioOwnership Machines
begin

text \<open>
  The audio policy of a renderer (\<open>server/player/audio-policy.js\<close>): the controller each display runs over the policies the
  server sends it, and the confirmation that the host is muted.

  The closure of \<open>createAudioPolicyController\<close> is the record \<open>controller\<close> and its methods are functions on it. The
  helpers \<open>text\<close>, \<open>finiteNumber\<close> and \<open>positiveSafeInteger\<close> are those of the server and are shared with it. The
  bridge to the host is the parameter \<open>bridge\<close>: what it answered, if it did before the timeout.
\<close>

subsection \<open>Policies as a renderer reads them\<close>

record client_policy =
  cp_output :: string
  cp_owner :: "string option"
  cp_content :: string
  cp_transaction :: string
  cp_generation :: int
  cp_revision :: int
  cp_source :: "string option"
  cp_playlist :: "string option"
  cp_allowed :: bool
  cp_muted :: bool

definition normalize_audio_policy :: "jsval \<Rightarrow> string option \<Rightarrow> client_policy option" where
  "normalize_audio_policy raw renderer =
     (if \<not> is_object raw \<or> \<not> num_eq (to_num (fld raw ''version'')) (Fin 1) then None
      else (let owner = id_of (fld raw ''owner_device_id'') in
        case id_of (fld raw ''output_device_id'') of None \<Rightarrow> None | Some output \<Rightarrow>
        case id_of (fld raw ''content_instance_id'') of None \<Rightarrow> None | Some content \<Rightarrow>
        case id_of (fld raw ''transaction_id'') of None \<Rightarrow> None | Some transaction \<Rightarrow>
        case positive_safe_integer (fld raw ''generation'') of None \<Rightarrow> None | Some generation \<Rightarrow>
        case positive_safe_integer (fld raw ''revision'') of None \<Rightarrow> None | Some revision \<Rightarrow>
          (let allowed = (owner \<noteq> None \<and> renderer \<noteq> None \<and> owner = renderer) in
           Some \<lparr>cp_output = output, cp_owner = owner, cp_content = content, cp_transaction = transaction,
                 cp_generation = generation, cp_revision = revision, cp_source = id_of (fld raw ''source_key''),
                 cp_playlist = id_of (fld raw ''playlist_revision''), cp_allowed = allowed, cp_muted = (\<not> allowed)\<rparr>)))"

definition opt_text :: "string option \<Rightarrow> string" where
  "opt_text v = (case v of None \<Rightarrow> [] | Some s \<Rightarrow> s)"

definition same_policy_epoch :: "client_policy \<Rightarrow> client_policy \<Rightarrow> bool" where
  "same_policy_epoch a b \<longleftrightarrow> cp_output a = cp_output b \<and> cp_content a = cp_content b
     \<and> cp_transaction a = cp_transaction b \<and> cp_generation a = cp_generation b
     \<and> cp_revision a = cp_revision b \<and> opt_text (cp_source a) = opt_text (cp_source b)"

definition same_policy_identity :: "client_policy \<Rightarrow> client_policy \<Rightarrow> bool" where
  "same_policy_identity a b \<longleftrightarrow> same_policy_epoch a b \<and> opt_text (cp_owner a) = opt_text (cp_owner b)
     \<and> opt_text (cp_playlist a) = opt_text (cp_playlist b)"

subsection \<open>The muted host\<close>

record mute_request =
  mq_device :: string
  mq_session :: string
  mq_transaction :: string
  mq_revision :: int
  mq_generation :: int

datatype host_bridge = NoBridge | BridgeThrows | BridgeRejects | BridgeSilent | BridgeAnswers jsval

record mute_result =
  mx_confirmed :: bool
  mx_reason :: "string option"

definition host_mute_request :: "jsval \<Rightarrow> mute_request option" where
  "host_mute_request raw =
     (case id_of (fld raw ''device_id'') of None \<Rightarrow> None | Some d \<Rightarrow>
      case id_of (fld raw ''renderer_session_id'') of None \<Rightarrow> None | Some s \<Rightarrow>
      case id_of (fld raw ''transaction_id'') of None \<Rightarrow> None | Some t \<Rightarrow>
      case positive_safe_integer (fld raw ''revision'') of None \<Rightarrow> None | Some rv \<Rightarrow>
      case positive_safe_integer (fld raw ''generation'') of None \<Rightarrow> None | Some g \<Rightarrow>
        Some \<lparr>mq_device = d, mq_session = s, mq_transaction = t, mq_revision = rv, mq_generation = g\<rparr>)"

definition mute_answer_exact :: "mute_request \<Rightarrow> jsval \<Rightarrow> bool" where
  "mute_answer_exact q v \<longleftrightarrow> truthy v \<and> num_eq (to_num (fld v ''version'')) (Fin 1)
     \<and> fld v ''confirmed'' = JBool True \<and> fld v ''process_muted'' = JBool True
     \<and> id_of (fld v ''device_id'') = Some (mq_device q) \<and> id_of (fld v ''renderer_session_id'') = Some (mq_session q)
     \<and> id_of (fld v ''transaction_id'') = Some (mq_transaction q)
     \<and> positive_safe_integer (fld v ''revision'') = Some (mq_revision q)
     \<and> positive_safe_integer (fld v ''generation'') = Some (mq_generation q)"

definition unconfirmed :: "string \<Rightarrow> mute_result" where
  "unconfirmed reason = \<lparr>mx_confirmed = False, mx_reason = Some reason\<rparr>"

definition confirm_host_muted :: "host_bridge \<Rightarrow> jsval \<Rightarrow> mute_result" where
  "confirm_host_muted bridge state =
     (case host_mute_request state of
        None \<Rightarrow> unconfirmed ''host_mute_confirmation_invalid''
      | Some q \<Rightarrow>
          (case bridge of
             NoBridge \<Rightarrow> unconfirmed ''host_mute_bridge_unavailable''
           | BridgeThrows \<Rightarrow> unconfirmed ''host_mute_confirmation_failed''
           | BridgeRejects \<Rightarrow> unconfirmed ''host_mute_confirmation_failed''
           | BridgeSilent \<Rightarrow> unconfirmed ''host_mute_confirmation_timeout''
           | BridgeAnswers v \<Rightarrow>
               if fld v ''__mbfd_timeout'' = JBool True then unconfirmed ''host_mute_confirmation_timeout''
               else if mute_answer_exact q v then \<lparr>mx_confirmed = True, mx_reason = None\<rparr>
               else unconfirmed ''host_mute_confirmation_mismatch''))"

subsection \<open>The identity of a renderer session\<close>

text \<open>What the crypto interface of the browser offers, with the identity or the sixteen bytes it draws.\<close>

datatype crypto_api = RandomUuid string | RandomBytes "nat list" | NoCrypto

definition hex_digit :: "nat \<Rightarrow> char" where
  "hex_digit d = char_of (if d < 10 then 48 + d else 87 + d)"

definition create_renderer_session_id :: "crypto_api \<Rightarrow> string option" where
  "create_renderer_session_id api =
     (case api of
        RandomUuid u \<Rightarrow> Some u
      | RandomBytes bs \<Rightarrow> Some (''renderer-'' @ concat (map (\<lambda>b. [hex_digit (b div 16), hex_digit (b mod 16)]) bs))
      | NoCrypto \<Rightarrow> None)"

subsection \<open>The controller\<close>

record controller =
  ct_renderer :: "string option"
  ct_fallback :: bool
  ct_current :: "client_policy option"
  ct_fence :: "client_policy option"
  ct_revoked :: bool
  ct_revoked_reason :: "string option"
  ct_blocked :: bool
  ct_reason :: "string option"

record apply_result =
  ap_applied :: bool
  ap_reason :: "string option"
  ap_policy :: "client_policy option"

definition create_audio_policy_controller :: "jsval \<Rightarrow> jsval \<Rightarrow> controller" where
  "create_audio_policy_controller dev fallback = \<lparr>ct_renderer = id_of dev, ct_fallback = (fallback = JBool True),
     ct_current = None, ct_fence = None, ct_revoked = False, ct_revoked_reason = None,
     ct_blocked = True, ct_reason = Some ''cold_start''\<rparr>"

definition reject :: "string \<Rightarrow> controller \<Rightarrow> controller \<times> apply_result" where
  "reject reason c = (c\<lparr>ct_blocked := True, ct_reason := Some reason\<rparr>,
     \<lparr>ap_applied = False, ap_reason = Some reason, ap_policy = ct_current c\<rparr>)"

definition block_audio :: "jsval \<Rightarrow> controller \<Rightarrow> controller \<times> apply_result" where
  "block_audio reason c =
     (let why = to_str (js_or reason (JStr ''audio_policy_blocked'')) in
      (c\<lparr>ct_blocked := True, ct_reason := Some why\<rparr>,
       \<lparr>ap_applied = True, ap_reason = Some why, ap_policy = ct_current c\<rparr>))"

definition revoke_authorization :: "jsval \<Rightarrow> controller \<Rightarrow> controller \<times> apply_result" where
  "revoke_authorization reason c =
     (let why = to_str (js_or reason (JStr ''audio_authorization_revoked'')) in
      block_audio (JStr why) (c\<lparr>ct_revoked := True, ct_revoked_reason := Some why\<rparr>))"

definition restore_authorization :: "controller \<Rightarrow> controller" where
  "restore_authorization c = c\<lparr>ct_revoked := False, ct_revoked_reason := None\<rparr>"

definition below :: "int \<Rightarrow> client_policy option \<Rightarrow> bool" where
  "below rv p = (case p of None \<Rightarrow> False | Some q \<Rightarrow> rv < cp_revision q)"

definition fence :: "jsval \<Rightarrow> controller \<Rightarrow> controller \<times> apply_result" where
  "fence raw c =
     (case normalize_audio_policy raw (ct_renderer c) of
        None \<Rightarrow> reject ''invalid_audio_policy_fence'' c
      | Some p \<Rightarrow>
          if below (cp_revision p) (ct_current c) \<or> below (cp_revision p) (ct_fence c) then reject ''stale_audio_policy'' c
          else if (case ct_fence c of None \<Rightarrow> False
                   | Some f \<Rightarrow> cp_revision p = cp_revision f \<and> \<not> same_policy_identity p f)
            then reject ''audio_policy_fence_conflict'' c
          else (c\<lparr>ct_fence := Some p, ct_blocked := True, ct_reason := Some ''mute_before_owner_grant''\<rparr>,
                \<lparr>ap_applied = True, ap_reason = Some ''mute_before_owner_grant'', ap_policy = ct_current c\<rparr>))"

definition fence_allows :: "client_policy \<Rightarrow> client_policy \<Rightarrow> bool" where
  "fence_allows f p \<longleftrightarrow> same_policy_epoch p f \<and> (cp_owner p = None \<or> cp_owner p = cp_owner f)"

definition apply_policy :: "jsval \<Rightarrow> jsval \<Rightarrow> controller \<Rightarrow> controller \<times> apply_result" where
  "apply_policy raw ctx c =
     (if ct_revoked c
      then reject (case ct_revoked_reason c of
                     Some r \<Rightarrow> if r \<noteq> [] then r else ''audio_authorization_revoked'' | None \<Rightarrow> ''audio_authorization_revoked'') c
      else case normalize_audio_policy raw (ct_renderer c) of
        None \<Rightarrow> reject ''invalid_audio_policy'' c
      | Some p \<Rightarrow>
         (let contents = List.map_filter id_of (array_items (fld ctx ''content_instance_ids''));
              playlist = id_of (fld ctx ''playlist_revision'');
              generations = List.map_filter finite_number (array_items (fld ctx ''content_generations''))
          in if below (cp_revision p) (ct_fence c) then reject ''stale_audio_policy'' c
             else if (case ct_fence c of None \<Rightarrow> False | Some f \<Rightarrow> cp_revision p = cp_revision f \<and> \<not> fence_allows f p)
               then reject ''audio_policy_fence_conflict'' c
             else if below (cp_revision p) (ct_current c) then reject ''stale_audio_policy'' c
             else if (case ct_current c of None \<Rightarrow> False | Some q \<Rightarrow> cp_revision p = cp_revision q \<and> \<not> same_policy_identity p q)
               then reject ''audio_policy_revision_conflict'' c
             else if contents \<noteq> [] \<and> cp_content p \<notin> set contents then reject ''audio_content_instance_mismatch'' c
             else if cp_playlist p \<noteq> None \<and> playlist \<noteq> None \<and> cp_playlist p \<noteq> playlist
               then reject ''audio_playlist_revision_mismatch'' c
             else if generations \<noteq> [] \<and> Fin (of_int (cp_generation p)) \<notin> set generations
               then reject ''audio_generation_mismatch'' c
             else (c\<lparr>ct_current := Some p,
                     ct_fence := (case ct_fence c of None \<Rightarrow> None
                        | Some f \<Rightarrow> if cp_revision f \<le> cp_revision p then None else Some f),
                     ct_blocked := False, ct_reason := None\<rparr>,
                   \<lparr>ap_applied = True, ap_reason = None, ap_policy = Some p\<rparr>)))"

definition clear_policy :: "controller \<Rightarrow> controller" where
  "clear_policy c = c\<lparr>ct_current := None, ct_fence := None, ct_blocked := ct_revoked c,
     ct_reason := (if ct_revoked c then ct_revoked_reason c else None)\<rparr>"

definition sounding_allowed :: "controller \<Rightarrow> bool" where
  "sounding_allowed c =
     (if ct_blocked c then False
      else case ct_current c of Some p \<Rightarrow> cp_allowed p \<and> \<not> cp_muted p | None \<Rightarrow> ct_fallback c)"

definition status_snapshot :: "controller \<Rightarrow> client_policy option" where
  "status_snapshot c = (case ct_fence c of None \<Rightarrow> ct_current c
     | Some f \<Rightarrow> Some (f\<lparr>cp_owner := None, cp_allowed := False, cp_muted := True\<rparr>))"

definition state_fields :: "controller \<Rightarrow> jsval" where
  "state_fields c = (case ct_current c of None \<Rightarrow> JObj [] | Some p \<Rightarrow> JObj [
     (''audio_owner_device_id'', case cp_owner p of None \<Rightarrow> JNull | Some d \<Rightarrow> JStr d),
     (''audio_output_device_id'', JStr (cp_output p)), (''audio_policy_transaction_id'', JStr (cp_transaction p)),
     (''audio_policy_generation'', jint (cp_generation p)), (''audio_policy_revision'', jint (cp_revision p))])"

subsection \<open>Histories\<close>

datatype client_event =
    EvFence jsval | EvApply jsval jsval | EvBlock jsval | EvRevoke jsval | EvRestore | EvClear

fun client_step :: "client_event \<Rightarrow> controller \<Rightarrow> controller" where
  "client_step (EvFence raw) c = fst (fence raw c)"
| "client_step (EvApply raw ctx) c = fst (apply_policy raw ctx c)"
| "client_step (EvBlock r) c = fst (block_audio r c)"
| "client_step (EvRevoke r) c = fst (revoke_authorization r c)"
| "client_step EvRestore c = restore_authorization c"
| "client_step EvClear c = clear_policy c"

definition client_run :: "client_event list \<Rightarrow> controller \<Rightarrow> controller" where
  "client_run es c = run_events client_step es c"

lemma client_run_simps [simp]:
  "client_run [] c = c" "client_run (e # es) c = client_run es (client_step e c)"
  "client_run (xs @ ys) c = client_run ys (client_run xs c)"
  by (simp_all add: client_run_def)

subsection \<open>What every controller keeps\<close>

definition read_for :: "string option \<Rightarrow> client_policy \<Rightarrow> bool" where
  "read_for renderer p \<longleftrightarrow> (\<exists>raw. normalize_audio_policy raw renderer = Some p)"

definition sound_controller :: "controller \<Rightarrow> bool" where
  "sound_controller c \<longleftrightarrow> (\<forall>p. ct_current c = Some p \<or> ct_fence c = Some p \<longrightarrow> read_for (ct_renderer c) p)
     \<and> (ct_revoked c \<longrightarrow> ct_blocked c)"

lemma normalize_Some:
  assumes "normalize_audio_policy raw renderer = Some p"
  shows "cp_allowed p = (cp_owner p \<noteq> None \<and> renderer \<noteq> None \<and> cp_owner p = renderer) \<and> cp_muted p = (\<not> cp_allowed p)
    \<and> cp_owner p = id_of (fld raw ''owner_device_id'') \<and> positive_safe_integer (fld raw ''revision'') = Some (cp_revision p)"
proof -
  let ?owner = "id_of (fld raw ''owner_device_id'')"
  let ?allowed = "?owner \<noteq> None \<and> renderer \<noteq> None \<and> ?owner = renderer"
  from assms [unfolded normalize_audio_policy_def Let_def checks_Some option.inject]
  obtain a b c d rv where rv: "positive_safe_integer (fld raw ''revision'') = Some rv"
    and p: "\<lparr>cp_output = a, cp_owner = ?owner, cp_content = b, cp_transaction = c, cp_generation = d, cp_revision = rv,
      cp_source = id_of (fld raw ''source_key''), cp_playlist = id_of (fld raw ''playlist_revision''),
      cp_allowed = ?allowed, cp_muted = (\<not> ?allowed)\<rparr> = p"
    by (elim conjE exE) (rule that)
  show ?thesis unfolding p [symmetric] client_policy.select_convs rv by (simp only: simp_thms)
qed

lemma read_for_owner: "read_for renderer p \<Longrightarrow> cp_owner p \<noteq> Some []"
proof
  assume "read_for renderer p" "cp_owner p = Some []"
  then obtain raw where "normalize_audio_policy raw renderer = Some p" by (auto simp: read_for_def)
  from normalize_Some [OF this] \<open>cp_owner p = Some []\<close> have "id_of (fld raw ''owner_device_id'') = Some []" by simp
  then show False by (auto dest: id_of_Some)
qed

lemma read_for_allowed: "read_for renderer p \<Longrightarrow> cp_allowed p \<longleftrightarrow> cp_owner p \<noteq> None \<and> cp_owner p = renderer"
  unfolding read_for_def by (elim exE) (drule normalize_Some, auto)

lemma opt_text_eq: "a \<noteq> Some [] \<Longrightarrow> b \<noteq> Some [] \<Longrightarrow> opt_text a = opt_text b \<longleftrightarrow> a = b"
  by (auto simp: opt_text_def split: option.splits)

lemma reject_fields [simp]:
  "ct_renderer (fst (reject r c)) = ct_renderer c" "ct_fallback (fst (reject r c)) = ct_fallback c"
  "ct_current (fst (reject r c)) = ct_current c" "ct_fence (fst (reject r c)) = ct_fence c"
  "ct_revoked (fst (reject r c)) = ct_revoked c" "ct_blocked (fst (reject r c))" "\<not> ap_applied (snd (reject r c))"
  by (simp_all add: reject_def)

text \<open>The two operations that look at a policy either reject it or take it.\<close>

lemma fence_cases:
  obtains (rejected) r where "fence raw c = reject r c"
    | (taken) p where "normalize_audio_policy raw (ct_renderer c) = Some p"
        "\<not> below (cp_revision p) (ct_current c)" "\<not> below (cp_revision p) (ct_fence c)"
        "\<And>g. ct_fence c = Some g \<Longrightarrow> cp_revision p = cp_revision g \<Longrightarrow> same_policy_identity p g"
        "fst (fence raw c) = c\<lparr>ct_fence := Some p, ct_blocked := True, ct_reason := Some ''mute_before_owner_grant''\<rparr>"
        "ap_applied (snd (fence raw c))"
proof (cases "normalize_audio_policy raw (ct_renderer c)")
  case None
  then have "fence raw c = reject ''invalid_audio_policy_fence'' c" by (simp add: fence_def)
  then show ?thesis by (rule rejected)
next
  case (Some p)
  let ?stale = "below (cp_revision p) (ct_current c) \<or> below (cp_revision p) (ct_fence c)"
  let ?clash = "case ct_fence c of None \<Rightarrow> False | Some f \<Rightarrow> cp_revision p = cp_revision f \<and> \<not> same_policy_identity p f"
  consider ?stale | "\<not> ?stale" ?clash | "\<not> ?stale" "\<not> ?clash" by blast
  then show ?thesis
  proof cases
    case 1
    then have "fence raw c = reject ''stale_audio_policy'' c" by (simp add: fence_def Some)
    then show ?thesis by (rule rejected)
  next
    case 2
    then have "fence raw c = reject ''audio_policy_fence_conflict'' c" by (simp add: fence_def Some)
    then show ?thesis by (rule rejected)
  next
    case 3
    show ?thesis by (rule taken [OF Some]) (use 3 in \<open>simp_all add: fence_def Some\<close>)
  qed
qed

lemma apply_cases:
  obtains (rejected) r where "apply_policy raw ctx c = reject r c"
    | (taken) p where "normalize_audio_policy raw (ct_renderer c) = Some p" "\<not> ct_revoked c"
        "\<not> below (cp_revision p) (ct_fence c)" "\<not> below (cp_revision p) (ct_current c)"
        "\<And>f. ct_fence c = Some f \<Longrightarrow> cp_revision p = cp_revision f \<Longrightarrow> fence_allows f p"
        "\<And>q. ct_current c = Some q \<Longrightarrow> cp_revision p = cp_revision q \<Longrightarrow> same_policy_identity p q"
        "fst (apply_policy raw ctx c) = c\<lparr>ct_current := Some p, ct_fence := None, ct_blocked := False, ct_reason := None\<rparr>"
proof (cases "ct_revoked c \<or> normalize_audio_policy raw (ct_renderer c) = None")
  case True
  then have "\<exists>r. apply_policy raw ctx c = reject r c"
  proof
    assume "ct_revoked c"
    then show ?thesis unfolding apply_policy_def by (simp only: if_True) blast
  next
    assume n: "normalize_audio_policy raw (ct_renderer c) = None"
    show ?thesis unfolding apply_policy_def n by (cases "ct_revoked c") (simp_all only: if_True if_False option.case, blast+)
  qed
  then show ?thesis using rejected by blast
next
  case False
  then obtain p where p: "normalize_audio_policy raw (ct_renderer c) = Some p" and r: "\<not> ct_revoked c" by auto
  let ?contents = "List.map_filter id_of (array_items (fld ctx ''content_instance_ids''))"
  let ?playlist = "id_of (fld ctx ''playlist_revision'')"
  let ?generations = "List.map_filter finite_number (array_items (fld ctx ''content_generations''))"
  let ?a = "below (cp_revision p) (ct_fence c)"
  let ?b = "case ct_fence c of None \<Rightarrow> False | Some f \<Rightarrow> cp_revision p = cp_revision f \<and> \<not> fence_allows f p"
  let ?d = "below (cp_revision p) (ct_current c)"
  let ?e = "case ct_current c of None \<Rightarrow> False | Some q \<Rightarrow> cp_revision p = cp_revision q \<and> \<not> same_policy_identity p q"
  let ?f = "?contents \<noteq> [] \<and> cp_content p \<notin> set ?contents"
  let ?g = "cp_playlist p \<noteq> None \<and> ?playlist \<noteq> None \<and> cp_playlist p \<noteq> ?playlist"
  let ?h = "?generations \<noteq> [] \<and> Fin (of_int (cp_generation p)) \<notin> set ?generations"
  note eq = apply_policy_def [of raw ctx c, unfolded p Let_def option.case if_not_P [OF r]]
  show ?thesis
  proof (cases "?a \<or> ?b \<or> ?d \<or> ?e \<or> ?f \<or> ?g \<or> ?h")
    case True
    then have "\<exists>r. apply_policy raw ctx c = reject r c" unfolding eq by (simp only: if_True if_False split: if_splits) blast
    then show ?thesis using rejected by blast
  next
    case False
    then have n: "\<not> ?a" "\<not> ?b" "\<not> ?d" "\<not> ?e" "\<not> ?f" "\<not> ?g" "\<not> ?h" by blast+
    have fence: "(case ct_fence c of None \<Rightarrow> None | Some f \<Rightarrow> if cp_revision f \<le> cp_revision p then None else Some f) = None"
      using n(1) by (auto simp: below_def split: option.splits)
    have out: "fst (apply_policy raw ctx c) = c\<lparr>ct_current := Some p, ct_fence := None, ct_blocked := False, ct_reason := None\<rparr>"
      unfolding eq if_not_P [OF n(1)] if_not_P [OF n(2)] if_not_P [OF n(3)] if_not_P [OF n(4)] if_not_P [OF n(5)]
        if_not_P [OF n(6)] if_not_P [OF n(7)] fence by simp
    show ?thesis by (rule taken [OF p r n(1) n(3) _ _ out]) (use n(2,4) in simp_all)
  qed
qed

lemma step_renderer [simp]: "ct_renderer (client_step e c) = ct_renderer c" "ct_fallback (client_step e c) = ct_fallback c"
proof -
  show "ct_renderer (client_step e c) = ct_renderer c"
  proof (cases e)
    case (EvFence raw)
    then show ?thesis by (cases rule: fence_cases [of raw c]) simp_all
  next
    case (EvApply raw ctx)
    then show ?thesis by (cases rule: apply_cases [of raw ctx c]) simp_all
  qed (simp_all add: block_audio_def revoke_authorization_def restore_authorization_def clear_policy_def Let_def)
  show "ct_fallback (client_step e c) = ct_fallback c"
  proof (cases e)
    case (EvFence raw)
    then show ?thesis by (cases rule: fence_cases [of raw c]) simp_all
  next
    case (EvApply raw ctx)
    then show ?thesis by (cases rule: apply_cases [of raw ctx c]) simp_all
  qed (simp_all add: block_audio_def revoke_authorization_def restore_authorization_def clear_policy_def Let_def)
qed

lemma run_renderer [simp]: "ct_renderer (client_run es c) = ct_renderer c" "ct_fallback (client_run es c) = ct_fallback c"
  by (induction es arbitrary: c) simp_all

lemma sound_step: "sound_controller c \<Longrightarrow> sound_controller (client_step e c)"
proof (cases e)
  case (EvFence raw)
  assume "sound_controller c"
  with EvFence show ?thesis
    by (cases rule: fence_cases [of raw c]) (auto simp: sound_controller_def read_for_def)
next
  case (EvApply raw ctx)
  assume "sound_controller c"
  with EvApply show ?thesis
    by (cases rule: apply_cases [of raw ctx c]) (auto simp: sound_controller_def read_for_def)
qed (auto simp: sound_controller_def block_audio_def revoke_authorization_def restore_authorization_def clear_policy_def Let_def)

interpretation renderer: machine client_step sound_controller
  by unfold_locales (rule sound_step)

lemma sound_run: "sound_controller c \<Longrightarrow> sound_controller (client_run es c)"
  unfolding client_run_def by (rule renderer.run_good)

lemma sound_create [simp]: "sound_controller (create_audio_policy_controller dev fallback)"
  by (simp add: create_audio_policy_controller_def sound_controller_def)

subsection \<open>A fence silences\<close>

text \<open>The policies a fence lets through: later ones, and at its own revision those it announced.\<close>

definition passes_fence :: "client_policy \<Rightarrow> client_policy \<Rightarrow> bool" where
  "passes_fence f p \<longleftrightarrow> cp_revision f < cp_revision p \<or> cp_revision p = cp_revision f \<and> fence_allows f p"

definition held_by :: "client_policy \<Rightarrow> controller \<Rightarrow> bool" where
  "held_by f c \<longleftrightarrow> (\<exists>p. ct_current c = Some p \<and> passes_fence f p)
     \<or> ct_blocked c \<and> (\<exists>g. ct_fence c = Some g \<and> (cp_revision f < cp_revision g \<or> same_policy_identity g f))"

lemma identity_allows:
  "same_policy_identity g f \<Longrightarrow> fence_allows g p \<Longrightarrow> cp_owner g \<noteq> Some [] \<Longrightarrow> cp_owner f \<noteq> Some [] \<Longrightarrow> fence_allows f p"
  by (auto simp: same_policy_identity_def same_policy_epoch_def fence_allows_def opt_text_eq)

lemma identity_passes:
  assumes "same_policy_identity p q" "passes_fence f q" "cp_owner p \<noteq> Some []" "cp_owner q \<noteq> Some []"
  shows "passes_fence f p"
  using assms by (auto simp: same_policy_identity_def same_policy_epoch_def passes_fence_def fence_allows_def opt_text_eq)

lemma held_step:
  assumes "held_by f c" "sound_controller c" "cp_owner f \<noteq> Some []" "e \<noteq> EvClear"
  shows "held_by f (client_step e c)"
proof (cases e)
  case (EvFence raw)
  show ?thesis
  proof (cases rule: fence_cases [of raw c])
    case (rejected r)
    with assms(1) show ?thesis by (auto simp: EvFence held_by_def)
  next
    case (taken p)
    from assms(1) consider (cur) q where "ct_current c = Some q" "passes_fence f q"
      | (fenced) g where "ct_fence c = Some g" "cp_revision f < cp_revision g \<or> same_policy_identity g f"
      by (auto simp: held_by_def)
    then show ?thesis
    proof cases
      case cur
      then show ?thesis by (auto simp: EvFence taken(5) held_by_def)
    next
      case fenced
      have "cp_revision g \<le> cp_revision p" using taken(3) fenced(1) by (simp add: below_def)
      moreover have "same_policy_identity p f" if "same_policy_identity g f" "cp_revision p = cp_revision g"
        using that taken(4) [OF fenced(1)] by (auto simp: same_policy_identity_def same_policy_epoch_def)
      moreover have "cp_revision g = cp_revision f" if "same_policy_identity g f"
        using that by (simp add: same_policy_identity_def same_policy_epoch_def)
      ultimately have "cp_revision f < cp_revision p \<or> same_policy_identity p f" using fenced(2) by force
      then show ?thesis by (simp add: EvFence taken(5) held_by_def)
    qed
  qed
next
  case (EvApply raw ctx)
  show ?thesis
  proof (cases rule: apply_cases [of raw ctx c])
    case (rejected r)
    with assms(1) show ?thesis by (auto simp: EvApply held_by_def)
  next
    case (taken p)
    have po: "cp_owner p \<noteq> Some []" using taken(1) read_for_owner unfolding read_for_def by blast
    from assms(1) consider (cur) q where "ct_current c = Some q" "passes_fence f q"
      | (fenced) g where "ct_fence c = Some g" "cp_revision f < cp_revision g \<or> same_policy_identity g f"
      by (auto simp: held_by_def)
    then have "passes_fence f p"
    proof cases
      case cur
      have le: "cp_revision q \<le> cp_revision p" using taken(4) cur(1) by (simp add: below_def)
      have qo: "cp_owner q \<noteq> Some []" using assms(2) cur(1) read_for_owner unfolding sound_controller_def by blast
      show ?thesis
      proof (cases "cp_revision p = cp_revision q")
        case True
        from identity_passes [OF taken(6) [OF cur(1) True] cur(2) po qo] show ?thesis .
      next
        case False
        with le cur(2) show ?thesis by (auto simp: passes_fence_def)
      qed
    next
      case fenced
      have le: "cp_revision g \<le> cp_revision p" using taken(3) fenced(1) by (simp add: below_def)
      have go: "cp_owner g \<noteq> Some []" using assms(2) fenced(1) read_for_owner unfolding sound_controller_def by blast
      from fenced(2) show ?thesis
      proof
        assume "cp_revision f < cp_revision g"
        with le show ?thesis by (simp add: passes_fence_def)
      next
        assume id: "same_policy_identity g f"
        then have "cp_revision g = cp_revision f" by (simp add: same_policy_identity_def same_policy_epoch_def)
        with le taken(5) [OF fenced(1)] identity_allows [OF id _ go assms(3)] show ?thesis
          unfolding passes_fence_def by (metis order_le_less)
      qed
    qed
    then show ?thesis by (simp add: EvApply taken(7) held_by_def)
  qed
qed (use assms(1,4) in \<open>auto simp: held_by_def block_audio_def revoke_authorization_def restore_authorization_def Let_def\<close>)

lemma held_run:
  "held_by f c \<Longrightarrow> sound_controller c \<Longrightarrow> cp_owner f \<noteq> Some [] \<Longrightarrow> EvClear \<notin> set es \<Longrightarrow> held_by f (client_run es c)"
  unfolding client_run_def by (rule renderer.run_keeps) (auto intro!: held_step)

definition fenced_run :: "jsval \<Rightarrow> jsval \<Rightarrow> client_event list \<Rightarrow> jsval \<Rightarrow> client_event list \<Rightarrow> controller" where
  "fenced_run dev fb before raw after = client_run after (fst (fence raw (client_run before (create_audio_policy_controller dev fb))))"

definition fence_accepted :: "jsval \<Rightarrow> jsval \<Rightarrow> client_event list \<Rightarrow> jsval \<Rightarrow> bool" where
  "fence_accepted dev fb before raw = ap_applied (snd (fence raw (client_run before (create_audio_policy_controller dev fb))))"

lemma silent_until_passed:
  assumes "fence_accepted dev fb before raw" "normalize_audio_policy raw (id_of dev) = Some f" "EvClear \<notin> set after"
    and "sounding_allowed (fenced_run dev fb before raw after)"
  shows "\<exists>p. ct_current (fenced_run dev fb before raw after) = Some p \<and> cp_owner p = id_of dev \<and> cp_owner p \<noteq> None \<and> passes_fence f p"
proof -
  let ?c = "client_run before (create_audio_policy_controller dev fb)"
  have ren: "ct_renderer ?c = id_of dev" by (simp add: create_audio_policy_controller_def)
  have sc: "sound_controller ?c" by (rule sound_run) simp
  from assms(1,2) ren have c': "fst (fence raw ?c) = ?c\<lparr>ct_fence := Some f, ct_blocked := True, ct_reason := Some ''mute_before_owner_grant''\<rparr>"
    unfolding fence_accepted_def by (cases rule: fence_cases [of raw ?c]) auto
  let ?fin = "client_run after (fst (fence raw ?c))"
  have sf: "sound_controller (fst (fence raw ?c))" using sound_step [OF sc, of "EvFence raw"] by simp
  have fo: "cp_owner f \<noteq> Some []" using assms(2) read_for_owner unfolding read_for_def by blast
  have "held_by f (fst (fence raw ?c))" unfolding c'
    by (simp add: held_by_def same_policy_identity_def same_policy_epoch_def)
  from held_run [OF this sf fo assms(3)] assms(4) obtain p where p: "ct_current ?fin = Some p" "passes_fence f p"
    by (auto simp: held_by_def sounding_allowed_def fenced_run_def)
  have "ct_renderer ?fin = id_of dev" by (simp add: c', simp add: create_audio_policy_controller_def)
  with sound_run [OF sf, of after] p(1) have "read_for (id_of dev) p" by (auto simp: sound_controller_def)
  moreover from assms(4) p(1) have "cp_allowed p" by (simp add: sounding_allowed_def fenced_run_def split: if_splits)
  ultimately have "cp_owner p = id_of dev" "cp_owner p \<noteq> None" using read_for_allowed by blast+
  with p show ?thesis unfolding fenced_run_def by blast
qed

text \<open>Once a renderer has accepted a fence it stays silent until it takes a policy the fence lets through, whatever it is
  sent, as long as its policy is not cleared: if it may sound again it does so under a policy of its own that is later than
  the fence, or that has the revision, the transaction and the owner the fence announced.\<close>

theorem fence_silences:
  assumes "fence_accepted dev fb before raw" "normalize_audio_policy raw (id_of dev) = Some f" "EvClear \<notin> set after"
    and "sounding_allowed (fenced_run dev fb before raw after)"
  shows "\<exists>p. ct_current (fenced_run dev fb before raw after) = Some p \<and> cp_owner p = id_of dev \<and> cp_owner p \<noteq> None
    \<and> (cp_revision f < cp_revision p
         \<or> cp_revision p = cp_revision f \<and> cp_transaction p = cp_transaction f \<and> cp_owner f = id_of dev)"
  using silent_until_passed [OF assms]
  by (auto simp: passes_fence_def fence_allows_def same_policy_epoch_def)

subsection \<open>The policies of the server\<close>

lemma policy_for_device_keeps:
  assumes "policy_for_device P dev pl \<noteq> JNull" "k \<notin> {''playlist_revision'', ''audio_allowed'', ''force_muted''}"
  shows "fld (policy_for_device P dev pl) k = fld (build_audio_policy (args_of P)) k"
proof -
  have "fld (JObj (merge_fields (obj_fields (build_audio_policy (args_of P)))
      ((if truthy pl then [(''playlist_revision'', JStr (to_str pl))] else []) @ [(''audio_allowed'', a), (''force_muted'', b)]))) k
    = fld (build_audio_policy (args_of P)) k" for a b
    using assms(2) by (cases "truthy pl") (simp_all add: fld_obj_fields)
  with assms(1) show ?thesis unfolding policy_for_device_def Let_def by (simp split: if_splits)
qed

lemma server_policy_read:
  assumes "policy_for_device P dev pl \<noteq> JNull"
  shows "\<exists>p. normalize_audio_policy (policy_for_device P dev pl) renderer = Some p
    \<and> cp_owner p = id_of (fld P ''owner_device_id'') \<and> positive_safe_integer (fld P ''revision'') = Some (cp_revision p)
    \<and> cp_allowed p = (cp_owner p \<noteq> None \<and> renderer \<noteq> None \<and> cp_owner p = renderer)"
proof -
  let ?n = "build_audio_policy (args_of P)" and ?q = "policy_for_device P dev pl"
  have v: "has_valid_audio_policy_epoch ?n" and obj: "is_object ?q"
    using assms by (auto simp: policy_for_device_def Let_def split: if_splits)
  have k: "fld ?q ''version'' = fld ?n ''version''" "fld ?q ''owner_device_id'' = fld ?n ''owner_device_id''"
    "fld ?q ''output_device_id'' = fld ?n ''output_device_id''" "fld ?q ''content_instance_id'' = fld ?n ''content_instance_id''"
    "fld ?q ''transaction_id'' = fld ?n ''transaction_id''" "fld ?q ''generation'' = fld ?n ''generation''"
    "fld ?q ''revision'' = fld ?n ''revision''"
    by (rule policy_for_device_keeps [OF assms]; simp)+
  have o: "id_of (fld ?n ''owner_device_id'') = id_of (fld P ''owner_device_id'')"
    and r: "positive_safe_integer (fld ?n ''revision'') = positive_safe_integer (fld P ''revision'')"
    by simp_all
  from v obtain a b c g rv where "id_of (fld ?n ''output_device_id'') = Some a" "id_of (fld ?n ''content_instance_id'') = Some b"
    "id_of (fld ?n ''transaction_id'') = Some c" "positive_safe_integer (fld ?n ''generation'') = Some g"
    "positive_safe_integer (fld ?n ''revision'') = Some rv" "num_eq (to_num (fld ?n ''version'')) (Fin 1)"
    unfolding has_valid_audio_policy_epoch_def by blast
  with obj obtain p where p: "normalize_audio_policy ?q renderer = Some p"
    unfolding normalize_audio_policy_def Let_def k by (simp only: option.case simp_thms if_True if_False)
  from normalize_Some [OF p] show ?thesis unfolding k o r using p by blast
qed

text \<open>C33: The renderer and the server agree: a policy the server addresses to a display is accepted there, and it allows audio in
  the eyes of the renderer exactly when the server marked it as allowing audio.\<close>

theorem renderer_agrees_with_server:
  assumes "policy_for_device P dev pl \<noteq> JNull"
  shows "\<exists>p. normalize_audio_policy (policy_for_device P dev pl) (id_of dev) = Some p
    \<and> (cp_allowed p \<longleftrightarrow> fld (policy_for_device P dev pl) ''audio_allowed'' = JBool True)
    \<and> (cp_muted p \<longleftrightarrow> fld (policy_for_device P dev pl) ''force_muted'' = JBool True)"
proof -
  from server_policy_read [OF assms, of "id_of dev"] obtain p where
    p: "normalize_audio_policy (policy_for_device P dev pl) (id_of dev) = Some p"
      "cp_owner p = id_of (fld P ''owner_device_id'')"
      "cp_allowed p = (cp_owner p \<noteq> None \<and> id_of dev \<noteq> None \<and> cp_owner p = id_of dev)" by blast
  from normalize_Some [OF p(1)] have m: "cp_muted p = (\<not> cp_allowed p)" by blast
  show ?thesis by (rule exI [of _ p]) (use p m policy_for_device_flags [OF assms] in auto)
qed


subsection \<open>A fence and its grant\<close>

definition hall_policy :: jsval where
  "hall_policy = JObj [(''version'', jint 1), (''output_device_id'', JStr ''a''), (''owner_device_id'', JStr ''a''),
     (''content_instance_id'', JStr ''c''), (''transaction_id'', JStr ''t''), (''generation'', jint 1), (''revision'', jint 7)]"

definition hall_grant :: jsval where
  "hall_grant = policy_for_device hall_policy (JStr ''a'') JUndef"

definition hall_run :: controller where
  "hall_run = fenced_run (JStr ''a'') (JBool False) [] hall_grant [EvApply hall_grant JUndef]"

lemma hall_grant_json: "hall_grant \<noteq> JNull \<and> fld hall_grant ''audio_allowed'' = JBool True"
  by code_simp

definition hall_read :: client_policy where
  "hall_read = \<lparr>cp_output = ''a'', cp_owner = Some ''a'', cp_content = ''c'', cp_transaction = ''t'', cp_generation = 1, cp_revision = 7,
     cp_source = None, cp_playlist = None, cp_allowed = True, cp_muted = False\<rparr>"

lemma hall_grant_read: "normalize_audio_policy hall_grant (Some ''a'') = Some hall_read" "id_of (JStr ''a'') = Some ''a''"
  by code_simp+

lemma hall_fenced: "fence hall_grant (create_audio_policy_controller (JStr ''a'') (JBool False)) =
  ((create_audio_policy_controller (JStr ''a'') (JBool False))\<lparr>ct_fence := Some hall_read, ct_blocked := True,
     ct_reason := Some ''mute_before_owner_grant''\<rparr>,
   \<lparr>ap_applied = True, ap_reason = Some ''mute_before_owner_grant'', ap_policy = None\<rparr>)"
  by (simp add: fence_def create_audio_policy_controller_def hall_grant_read below_def del: id_of_JStr)

lemma hall_run_end: "ct_current hall_run = Some hall_read" "sounding_allowed hall_run"
  unfolding hall_run_def fenced_run_def client_run_simps hall_fenced fst_conv client_step.simps
  by (simp_all add: apply_policy_def create_audio_policy_controller_def hall_grant_read
      below_def fence_allows_def same_policy_epoch_def sounding_allowed_def Let_def List.map_filter_simps del: id_of_JStr)
     (simp_all add: hall_read_def)

lemma hall_sounds: "fence_accepted (JStr ''a'') (JBool False) [] hall_grant" "sounding_allowed hall_run"
  "map_option cp_revision (ct_current hall_run) = Some 7"
  by (simp_all add: fence_accepted_def hall_fenced hall_run_end) (simp add: hall_read_def)

lemma hall_revision: "positive_safe_integer (fld hall_policy ''revision'') = Some 7"
  by code_simp

theorem renderer_agrees_with_server_witness:
  "\<exists>p. normalize_audio_policy hall_grant (id_of (JStr ''a'')) = Some p \<and> cp_allowed p"
  using renderer_agrees_with_server [of hall_policy "JStr ''a''" JUndef, folded hall_grant_def] hall_grant_json by blast

theorem fence_silences_witness: "\<exists>p. ct_current hall_run = Some p \<and> cp_owner p = Some ''a''"
proof -
  from server_policy_read [of hall_policy "JStr ''a''" JUndef "id_of (JStr ''a'')", folded hall_grant_def] hall_grant_json
  obtain f where f: "normalize_audio_policy hall_grant (id_of (JStr ''a'')) = Some f" by blast
  have i: "id_of (JStr ''a'') = Some ''a''" by code_simp
  from fence_silences [OF hall_sounds(1) f, of "[EvApply hall_grant JUndef]", folded hall_run_def] hall_sounds(2) i
  show ?thesis by auto
qed


end
