(* ===== verification/MediaJobs.thy ===== *)
theory MediaJobs
  imports Prelude Machines
begin

text \<open>
  The media job queue (\<open>server/lib/media-jobs.js\<close>): jobs with leases, bounded attempts, retries with a backoff and
  cancellation, kept in a table, and the worker that drains it.

  The table \<open>media_jobs\<close> is a list of rows in the order of insertion, \<open>media_job_events\<close> another. The clock is an
  argument of every operation, in seconds. A column that holds JSON is the value it parses to. The operations of the
  store are statements of one connection, so that each is one step. An exception is the left side of a sum. The foreign
  key of a job to its content is not modelled.
\<close>

subsection \<open>Rows\<close>

datatype job_status = JobQueued | JobRunning | JobRetryWait | JobCompleted | JobFailed | JobCancelled

record media_job =
  mj_id :: string
  mj_content :: jsval
  mj_workspace :: string
  mj_user :: jsval
  mj_type :: string
  mj_source_type :: jsval
  mj_source_identity :: jsval
  mj_key :: "string option"
  mj_expected_version :: "jsnum option"
  mj_expected_filepath :: "string option"
  mj_expected_sha :: jsval
  mj_status :: job_status
  mj_stage :: string
  mj_progress :: rat
  mj_attempts :: nat
  mj_max :: rat
  mj_reserved :: jsnum
  mj_available :: jsnum
  mj_cancel :: bool
  mj_retryable :: bool
  mj_owner :: "string option"
  mj_lease :: "jsnum option"
  mj_error_code :: "string option"
  mj_error_message :: "string option"
  mj_payload :: jsval
  mj_result :: jsval
  mj_created :: rat
  mj_updated :: rat
  mj_started :: "rat option"
  mj_completed_at :: "rat option"

record job_event =
  je_job :: string
  je_status :: job_status
  je_stage :: string
  je_progress :: rat
  je_detail :: jsval
  je_at :: rat

record job_store =
  ms_jobs :: "media_job list"
  ms_events :: "job_event list"

definition terminal_statuses :: "job_status list" where
  "terminal_statuses = [JobCompleted, JobFailed, JobCancelled]"

definition valid_stages :: "string list" where
  "valid_stages = [''received'', ''validating'', ''downloading'', ''probing'', ''transcoding'', ''optimizing'', ''thumbnail'',
     ''checksum'', ''finalizing'', ''publishing'', ''preparing'', ''ready'', ''failed'', ''cancelled'']"

text \<open>The stages the table accepts: its \<open>CHECK\<close> constraint.\<close>

definition media_job_stages :: "string list" where
  "media_job_stages = [''received'', ''validating'', ''probing'', ''optimizing'', ''thumbnail'', ''checksum'', ''preparing'',
     ''ready'', ''failed'', ''cancelled'']"

subsection \<open>Numbers and texts\<close>

text \<open>\<open>Number(v) || d\<close>, and its clamp between two bounds.\<close>

definition num_or :: "jsval \<Rightarrow> rat \<Rightarrow> jsnum" where
  "num_or v d = (if num_truthy (to_num v) then to_num v else Fin d)"

fun clamp_num :: "rat \<Rightarrow> rat \<Rightarrow> jsnum \<Rightarrow> rat" where
  "clamp_num lo hi (Fin r) = max lo (min r hi)"
| "clamp_num lo hi PosInf = max lo hi"
| "clamp_num lo hi NegInf = lo"
| "clamp_num lo hi NaN = lo"

fun num_leq :: "jsnum \<Rightarrow> jsnum \<Rightarrow> bool" where
  "num_leq NaN b = False"
| "num_leq a NaN = False"
| "num_leq NegInf b = True"
| "num_leq a PosInf = True"
| "num_leq (Fin a) (Fin b) = (a \<le> b)"
| "num_leq a b = False"

definition json_text :: "jsval \<Rightarrow> jsval" where
  "json_text v = (if is_nullish v then JNull else json_clean v)"

definition text_column :: "nat \<Rightarrow> jsval \<Rightarrow> string option" where
  "text_column n v = (if is_nullish v then None else Some (take n (to_str v)))"

subsection \<open>The table\<close>

definition job_of :: "string \<Rightarrow> job_store \<Rightarrow> media_job option" where
  "job_of i st = find (\<lambda>j. mj_id j = i) (ms_jobs st)"

definition add_event :: "rat \<Rightarrow> string \<Rightarrow> jsval \<Rightarrow> job_store \<Rightarrow> job_store" where
  "add_event now i detail st =
     (case job_of i st of
        None \<Rightarrow> st
      | Some j \<Rightarrow> st\<lparr>ms_events := ms_events st @ [\<lparr>je_job = i, je_status = mj_status j, je_stage = mj_stage j,
                       je_progress = mj_progress j, je_detail = json_text detail, je_at = now\<rparr>]\<rparr>)"

text \<open>\<open>UPDATE media_jobs SET \<dots> WHERE id = ? AND \<dots>\<close> and whether it changed a row.\<close>

definition update_job :: "string \<Rightarrow> (media_job \<Rightarrow> bool) \<Rightarrow> (media_job \<Rightarrow> media_job) \<Rightarrow> job_store \<Rightarrow> job_store" where
  "update_job i cond f st = st\<lparr>ms_jobs := map (\<lambda>j. if mj_id j = i \<and> cond j then f j else j) (ms_jobs st)\<rparr>"

definition matches :: "string \<Rightarrow> (media_job \<Rightarrow> bool) \<Rightarrow> job_store \<Rightarrow> bool" where
  "matches i cond st = list_ex (\<lambda>j. mj_id j = i \<and> cond j) (ms_jobs st)"

subsection \<open>Reading\<close>

definition latest_event :: "string \<Rightarrow> job_store \<Rightarrow> job_event option" where
  "latest_event i st = find (\<lambda>e. je_job e = i) (rev (ms_events st))"

definition listed_before :: "media_job \<Rightarrow> media_job \<Rightarrow> bool" where
  "listed_before a b \<longleftrightarrow> mj_created b < mj_created a \<or> mj_created a = mj_created b \<and> mj_id b < mj_id a"

fun insert_job :: "(media_job \<Rightarrow> media_job \<Rightarrow> bool) \<Rightarrow> media_job \<Rightarrow> media_job list \<Rightarrow> media_job list" where
  "insert_job before j [] = [j]"
| "insert_job before j (k # ks) = (if before k j then k # insert_job before j ks else j # k # ks)"

definition list_jobs :: "jsval \<Rightarrow> jsval \<Rightarrow> jsval \<Rightarrow> job_store \<Rightarrow> string + media_job list" where
  "list_jobs workspace content limit st =
     (let n = clamp_num 1 500 (num_or limit 100);
          rows = filter (\<lambda>j. (truthy workspace \<longrightarrow> JStr (mj_workspace j) = workspace)
                           \<and> (truthy content \<longrightarrow> mj_content j = content)) (ms_jobs st)
      in if \<not> rat_is_int n then Inl ''datatype mismatch''
         else Inr (take (nat \<lfloor>n\<rfloor>) (foldr (insert_job listed_before) rows [])))"

subsection \<open>Enqueuing\<close>

definition new_job :: "rat \<Rightarrow> string \<Rightarrow> jsval \<Rightarrow> media_job" where
  "new_job now uuid input = \<lparr>
     mj_id = to_str (js_or (fld input ''id'') (JStr uuid)),
     mj_content = js_or (fld input ''contentId'') JNull,
     mj_workspace = to_str (js_or (fld input ''workspaceId'') (JStr [])),
     mj_user = js_or (fld input ''userId'') JNull,
     mj_type = to_str (js_or (fld input ''jobType'') (JStr [])),
     mj_source_type = js_or (fld input ''sourceType'') JNull,
     mj_source_identity = js_or (fld input ''sourceIdentity'') JNull,
     mj_key = text_column 500 (fld input ''idempotencyKey''),
     mj_expected_version = (if is_nullish (fld input ''expectedVersion'') then None else Some (to_num (fld input ''expectedVersion''))),
     mj_expected_filepath = (if is_nullish (fld input ''expectedFilepath'') then None else Some (to_str (fld input ''expectedFilepath''))),
     mj_expected_sha = js_or (fld input ''expectedSha256'') JNull,
     mj_status = JobQueued, mj_stage = ''received'', mj_progress = 0, mj_attempts = 0,
     mj_max = clamp_num 1 20 (num_or (fld input ''maxAttempts'') 3),
     mj_reserved = (case num_or (fld input ''reservedBytes'') 0 of
                      Fin r \<Rightarrow> Fin (max 0 (of_int \<lfloor>r\<rfloor>)) | PosInf \<Rightarrow> PosInf | NegInf \<Rightarrow> Fin 0 | NaN \<Rightarrow> Fin 0),
     mj_available = num_or (fld input ''availableAt'') now,
     mj_cancel = False, mj_retryable = False, mj_owner = None, mj_lease = None, mj_error_code = None, mj_error_message = None,
     mj_payload = json_text (fld input ''payload''), mj_result = JNull,
     mj_created = now, mj_updated = now, mj_started = None, mj_completed_at = None\<rparr>"

text \<open>\<open>INSERT OR IGNORE\<close>: the primary key and the unique index over workspace and idempotency key.\<close>

definition conflicts :: "media_job \<Rightarrow> media_job \<Rightarrow> bool" where
  "conflicts j k \<longleftrightarrow> mj_id k = mj_id j \<or> mj_key j \<noteq> None \<and> mj_workspace k = mj_workspace j \<and> mj_key k = mj_key j"

definition enqueue :: "rat \<Rightarrow> string \<Rightarrow> jsval \<Rightarrow> job_store \<Rightarrow> string + (job_store \<times> media_job \<times> bool)" where
  "enqueue now uuid input st =
     (let j = new_job now uuid input in
      if mj_workspace j = [] \<or> mj_type j = [] then Inl ''workspace_id_and_job_type_required''
      else if list_ex (conflicts j) (ms_jobs st)
        then (case find (\<lambda>k. mj_key j \<noteq> None \<and> mj_workspace k = mj_workspace j \<and> mj_key k = mj_key j) (ms_jobs st) of
                None \<Rightarrow> Inl ''media_job_enqueue_conflict''
              | Some k \<Rightarrow> Inr (st, k, False))
      else Inr (add_event now (mj_id j) (JObj [(''enqueued'', JBool True)]) (st\<lparr>ms_jobs := ms_jobs st @ [j]\<rparr>), j, True))"

subsection \<open>Claiming\<close>

definition claimable :: "rat \<Rightarrow> media_job \<Rightarrow> bool" where
  "claimable now j \<longleftrightarrow> \<not> mj_cancel j \<and> of_nat (mj_attempts j) < mj_max j
     \<and> ((mj_status j = JobQueued \<or> mj_status j = JobRetryWait) \<and> num_leq (mj_available j) (Fin now)
        \<or> mj_status j = JobRunning \<and> (case mj_lease j of None \<Rightarrow> False | Some e \<Rightarrow> num_leq e (Fin now)))"

definition claim_rank :: "media_job \<Rightarrow> nat" where
  "claim_rank j = (if mj_status j = JobRunning then 0 else 1)"

definition claimed_before :: "media_job \<Rightarrow> media_job \<Rightarrow> bool" where
  "claimed_before a b \<longleftrightarrow>
     (if claim_rank a \<noteq> claim_rank b then claim_rank a < claim_rank b
      else if mj_available a \<noteq> mj_available b then num_leq (mj_available a) (mj_available b)
      else if mj_created a \<noteq> mj_created b then mj_created a < mj_created b
      else mj_id a < mj_id b)"

definition wanted_types :: "jsval \<Rightarrow> string list" where
  "wanted_types types = map to_str (filter truthy (array_items types))"

definition candidates :: "rat \<Rightarrow> jsval \<Rightarrow> job_store \<Rightarrow> media_job list" where
  "candidates now types st =
     filter (\<lambda>j. claimable now j \<and> (wanted_types types \<noteq> [] \<longrightarrow> mj_type j \<in> set (wanted_types types))) (ms_jobs st)"

definition take_job :: "rat \<Rightarrow> string \<Rightarrow> rat \<Rightarrow> media_job \<Rightarrow> media_job" where
  "take_job now owner lease j = j\<lparr>mj_status := JobRunning,
     mj_stage := (if mj_status j = JobRunning then mj_stage j else ''validating''),
     mj_progress := (if 100 \<le> mj_progress j then 0 else mj_progress j),
     mj_attempts := Suc (mj_attempts j), mj_owner := Some owner, mj_lease := Some (Fin (now + lease)),
     mj_error_code := None, mj_error_message := None,
     mj_started := (case mj_started j of None \<Rightarrow> Some now | Some t \<Rightarrow> Some t), mj_updated := now\<rparr>"

definition claim_next :: "rat \<Rightarrow> jsval \<Rightarrow> jsval \<Rightarrow> jsval \<Rightarrow> job_store \<Rightarrow> string + (job_store \<times> media_job option)" where
  "claim_next now worker types lease_seconds st =
     (let owner = to_str (js_or worker (JStr [])); lease = clamp_num 5 3600 (num_or lease_seconds 300) in
      if owner = [] then Inl ''worker_id_required''
      else (case foldr (insert_job claimed_before) (candidates now types st) [] of
              [] \<Rightarrow> Inr (st, None)
            | j # _ \<Rightarrow>
                (let st' = update_job (mj_id j) (claimable now) (take_job now owner lease) st in
                 Inr (add_event now (mj_id j) (JObj [(''claimed_by'', JStr owner)]) st', job_of (mj_id j) st'))))"

subsection \<open>Work on a claimed job\<close>

definition held_running :: "string \<Rightarrow> media_job \<Rightarrow> bool" where
  "held_running worker j \<longleftrightarrow> mj_status j = JobRunning \<and> mj_owner j = Some worker"

definition normalized_stage :: "jsval \<Rightarrow> string" where
  "normalized_stage stage = (case stage of JStr s \<Rightarrow> if s \<in> set valid_stages then s else ''optimizing'' | _ \<Rightarrow> ''optimizing'')"

definition update_progress ::
  "rat \<Rightarrow> string \<Rightarrow> string \<Rightarrow> jsval \<Rightarrow> jsval \<Rightarrow> jsval \<Rightarrow> job_store \<Rightarrow> string + (job_store \<times> media_job option)" where
  "update_progress now i worker stage pct detail st =
     (let cond = (\<lambda>j. held_running worker j \<and> \<not> mj_cancel j); s = normalized_stage stage in
      if \<not> matches i cond st then Inr (st, None)
      else if s \<notin> set media_job_stages then Inl ''CHECK constraint failed''
      else (let st' = add_event now i detail (update_job i cond (\<lambda>j. j\<lparr>mj_stage := s,
                        mj_progress := clamp_num 0 99 (num_or pct 0), mj_updated := now\<rparr>) st)
            in Inr (st', job_of i st')))"

definition heartbeat_lease :: "rat \<Rightarrow> jsval \<Rightarrow> jsnum" where
  "heartbeat_lease now seconds = (case num_or seconds 300 of
      Fin r \<Rightarrow> Fin (now + max 5 r) | PosInf \<Rightarrow> PosInf | NegInf \<Rightarrow> Fin (now + 5) | NaN \<Rightarrow> Fin (now + 5))"

definition heartbeat :: "rat \<Rightarrow> string \<Rightarrow> string \<Rightarrow> jsval \<Rightarrow> job_store \<Rightarrow> job_store \<times> bool" where
  "heartbeat now i worker seconds st =
     (update_job i (held_running worker) (\<lambda>j. j\<lparr>mj_lease := Some (heartbeat_lease now seconds), mj_updated := now\<rparr>) st,
      matches i (held_running worker) st)"

definition complete :: "rat \<Rightarrow> string \<Rightarrow> string \<Rightarrow> jsval \<Rightarrow> job_store \<Rightarrow> job_store \<times> media_job option" where
  "complete now i worker result st =
     (let cond = (\<lambda>j. held_running worker j \<and> \<not> mj_cancel j); preparing = (fld result ''media_preparing'' = JBool True) in
      if \<not> matches i cond st then (st, None)
      else (let st' = add_event now i (JObj [(''completed'', JBool True)]) (update_job i cond (\<lambda>j. j\<lparr>mj_status := JobCompleted,
                  mj_stage := (if preparing then ''preparing'' else ''ready''), mj_progress := (if preparing then 99 else 100),
                  mj_result := json_text result, mj_error_code := None, mj_error_message := None, mj_retryable := False,
                  mj_owner := None, mj_lease := None, mj_completed_at := Some now, mj_updated := now\<rparr>) st)
            in (st', job_of i st')))"

definition can_retry :: "jsval \<Rightarrow> media_job \<Rightarrow> bool" where
  "can_retry e j \<longleftrightarrow> fld e ''retryable'' = JBool True \<and> of_nat (mj_attempts j) < mj_max j"

definition backoff :: "jsval \<Rightarrow> media_job \<Rightarrow> rat" where
  "backoff e j = clamp_num 1 3600 (num_or (fld e ''retryDelaySeconds'') (2 ^ (mj_attempts j - 1) * 15))"

definition fail_job :: "rat \<Rightarrow> jsval \<Rightarrow> media_job \<Rightarrow> media_job" where
  "fail_job now e j = j\<lparr>mj_status := (if can_retry e j then JobRetryWait else JobFailed), mj_stage := ''failed'',
     mj_progress := (if can_retry e j then mj_progress j else 0),
     mj_error_code := text_column 200 (js_or (fld e ''code'') (JStr ''media_job_failed'')),
     mj_error_message := text_column 2000 (js_or (js_or (fld e ''message'') (fld e ''code'')) (JStr ''Media processing failed'')),
     mj_retryable := (fld e ''retryable'' = JBool True),
     mj_available := (if can_retry e j then Fin (now + backoff e j) else Fin now),
     mj_owner := None, mj_lease := None,
     mj_completed_at := (if can_retry e j then None else Some now), mj_updated := now\<rparr>"

definition fail :: "rat \<Rightarrow> string \<Rightarrow> string \<Rightarrow> jsval \<Rightarrow> job_store \<Rightarrow> job_store \<times> media_job option" where
  "fail now i worker e st =
     (case find (\<lambda>j. mj_id j = i \<and> held_running worker j) (ms_jobs st) of
        None \<Rightarrow> (st, None)
      | Some j \<Rightarrow>
         (let st' = add_event now i (JObj [(''retry_scheduled'', JBool (can_retry e j))])
                      (update_job i (held_running worker) (fail_job now e) st)
          in (st', job_of i st')))"

subsection \<open>Cancelling and retrying\<close>

definition request_cancel :: "rat \<Rightarrow> string \<Rightarrow> job_store \<Rightarrow> job_store \<times> media_job option" where
  "request_cancel now i st =
     (case job_of i st of
        None \<Rightarrow> (st, None)
      | Some j \<Rightarrow>
         (let st' = (if mj_status j \<in> set terminal_statuses then st
                     else if mj_status j = JobRunning
                       then update_job i (\<lambda>j. True) (\<lambda>j. j\<lparr>mj_cancel := True, mj_updated := now\<rparr>) st
                     else update_job i (\<lambda>j. True) (\<lambda>j. j\<lparr>mj_status := JobCancelled, mj_stage := ''cancelled'', mj_cancel := True,
                            mj_owner := None, mj_lease := None, mj_completed_at := Some now, mj_updated := now\<rparr>) st)
          in (add_event now i (JObj [(''cancel_requested'', JBool True)]) st', job_of i st')))"

definition cancelled_job :: "rat \<Rightarrow> media_job \<Rightarrow> media_job" where
  "cancelled_job now j = j\<lparr>mj_status := JobCancelled, mj_stage := ''cancelled'', mj_cancel := True, mj_retryable := False,
     mj_error_code := Some ''media_job_cancelled'', mj_error_message := Some ''Media job cancelled'',
     mj_owner := None, mj_lease := None, mj_completed_at := Some now, mj_updated := now\<rparr>"

definition mark_cancelled :: "rat \<Rightarrow> string \<Rightarrow> string \<Rightarrow> job_store \<Rightarrow> job_store \<times> media_job option" where
  "mark_cancelled now i worker st =
     (let cond = (\<lambda>j. held_running worker j \<and> mj_cancel j) in
      if \<not> matches i cond st then (st, None)
      else (let st' = add_event now i (JObj [(''cancelled'', JBool True)]) (update_job i cond (cancelled_job now) st)
            in (st', job_of i st')))"

definition abandoned :: "rat \<Rightarrow> media_job \<Rightarrow> bool" where
  "abandoned now j \<longleftrightarrow> mj_status j = JobRunning \<and> mj_cancel j
     \<and> (case mj_lease j of None \<Rightarrow> False | Some e \<Rightarrow> num_leq e (Fin now))"

definition settle_expired_cancellations :: "rat \<Rightarrow> job_store \<Rightarrow> job_store \<times> nat" where
  "settle_expired_cancellations now st =
     (let ids = map mj_id (filter (abandoned now) (ms_jobs st));
          st' = foldl (\<lambda>s i. update_job i (abandoned now) (cancelled_job now) s) st ids
      in (foldl (\<lambda>s i. if (case job_of i s of None \<Rightarrow> False | Some j \<Rightarrow> mj_status j = JobCancelled)
                       then add_event now i (JObj [(''cancelled_after_expired_lease'', JBool True)]) s else s) st' ids,
          length ids))"

definition retry_failed :: "rat \<Rightarrow> string \<Rightarrow> bool \<Rightarrow> job_store \<Rightarrow> job_store \<times> media_job option" where
  "retry_failed now i reset st =
     (let cond = (\<lambda>j. mj_status j = JobFailed) in
      if \<not> matches i cond st then (st, None)
      else (let st' = add_event now i (JObj [(''manual_retry'', JBool True)]) (update_job i cond (\<lambda>j. j\<lparr>mj_status := JobQueued,
                  mj_stage := ''received'', mj_progress := 0, mj_attempts := (if reset then 0 else mj_attempts j),
                  mj_available := Fin now, mj_cancel := False, mj_owner := None, mj_lease := None, mj_error_code := None,
                  mj_error_message := None, mj_completed_at := None, mj_updated := now\<rparr>) st)
            in (st', job_of i st')))"

subsection \<open>The worker\<close>

text \<open>What a handler does with the job: the calls it makes, with their times, and how it ends. Cancellations that arrive meanwhile
  are among the calls. The store of artifacts is not modelled.\<close>

datatype handler_call = CallProgress jsval jsval jsval | CallHeartbeat | CancelArrives

datatype handler_outcome = Returned jsval | Threw jsval

record handler_run =
  hr_calls :: "(rat \<times> handler_call) list"
  hr_end :: rat
  hr_outcome :: handler_outcome

record media_worker =
  wk_id :: string
  wk_concurrency :: rat
  wk_lease :: jsval
  wk_handlers :: "string list"

definition new_worker :: "string \<Rightarrow> jsval \<Rightarrow> string list \<Rightarrow> media_worker" where
  "new_worker default_id options handlers = \<lparr>
     wk_id = to_str (js_or (fld options ''workerId'') (JStr default_id)),
     wk_concurrency = clamp_num 1 8 (num_or (fld options ''concurrency'') 1),
     wk_lease = JNum (case num_or (fld options ''leaseSeconds'') 300 of
       Fin r \<Rightarrow> Fin (max 30 r) | PosInf \<Rightarrow> PosInf | NegInf \<Rightarrow> Fin 30 | NaN \<Rightarrow> Fin 30),
     wk_handlers = handlers\<rparr>"

text \<open>A call that throws ends the handler; what follows the database error is the error the worker reports.\<close>

fun play_calls :: "media_worker \<Rightarrow> string \<Rightarrow> (rat \<times> handler_call) list \<Rightarrow> job_store \<Rightarrow> job_store \<times> jsval option" where
  "play_calls wk i [] st = (st, None)"
| "play_calls wk i ((now, CallProgress stage pct d) # cs) st =
     (case update_progress now i (wk_id wk) stage pct d st of
        Inl e \<Rightarrow> (st, Some (JObj [(''code'', JStr ''SQLITE_CONSTRAINT_CHECK''), (''message'', JStr e)]))
      | Inr (st', r) \<Rightarrow> play_calls wk i cs st')"
| "play_calls wk i ((now, CallHeartbeat) # cs) st = play_calls wk i cs (fst (heartbeat now i (wk_id wk) (wk_lease wk) st))"
| "play_calls wk i ((now, CancelArrives) # cs) st = play_calls wk i cs (fst (request_cancel now i st))"

definition cancel_requested :: "string \<Rightarrow> job_store \<Rightarrow> bool" where
  "cancel_requested i st = (case job_of i st of None \<Rightarrow> False | Some j \<Rightarrow> mj_cancel j)"

definition reported_error :: "jsval \<Rightarrow> jsval" where
  "reported_error e = JObj [(''code'', js_or (fld e ''code'') (JStr ''media_job_failed'')), (''message'', fld e ''message''),
     (''retryable'', JBool (fld e ''retryable'' \<noteq> JBool False)), (''retryDelaySeconds'', fld e ''retryDelaySeconds'')]"

definition run_job :: "media_worker \<Rightarrow> handler_run \<Rightarrow> media_job \<Rightarrow> job_store \<Rightarrow> job_store" where
  "run_job wk hr job st =
     (if mj_type job \<notin> set (wk_handlers wk)
      then fst (fail (hr_end hr) (mj_id job) (wk_id wk) (JObj [(''code'', JStr ''unsupported_media_job''),
             (''message'', JStr (''No handler for '' @ mj_type job)), (''retryable'', JBool False)]) st)
      else (case play_calls wk (mj_id job) (hr_calls hr) st of (st', exc) \<Rightarrow>
        (let out = (case exc of None \<Rightarrow> hr_outcome hr | Some e \<Rightarrow> Threw e) in
         if cancel_requested (mj_id job) st' then fst (mark_cancelled (hr_end hr) (mj_id job) (wk_id wk) st')
         else (case out of
             Returned r \<Rightarrow> fst (complete (hr_end hr) (mj_id job) (wk_id wk) r st')
           | Threw e \<Rightarrow> fst (fail (hr_end hr) (mj_id job) (wk_id wk) (reported_error e) st')))))"

text \<open>\<open>while (batch.length < concurrency)\<close>: one round more than the whole part of a concurrency that is not whole.\<close>

fun claim_batch :: "nat \<Rightarrow> rat \<Rightarrow> jsval \<Rightarrow> media_worker \<Rightarrow> job_store \<Rightarrow> string + (job_store \<times> media_job list)" where
  "claim_batch 0 now types wk st = Inr (st, [])"
| "claim_batch (Suc n) now types wk st =
     (case claim_next now (JStr (wk_id wk)) types (wk_lease wk) st of
        Inl e \<Rightarrow> Inl e
      | Inr (st', None) \<Rightarrow> Inr (st', [])
      | Inr (st', Some j) \<Rightarrow>
          (case claim_batch n now types wk st' of Inl e \<Rightarrow> Inl e | Inr (st2, js) \<Rightarrow> Inr (st2, j # js)))"

text \<open>The loop of \<open>drain\<close>: the clock and the handlers may behave differently in every round \<open>k\<close>. The jobs of a batch run
  one after the other here; their operations touch only their own rows.\<close>

fun drain :: "nat \<Rightarrow> nat \<Rightarrow> (nat \<Rightarrow> rat) \<Rightarrow> (nat \<Rightarrow> media_job \<Rightarrow> handler_run) \<Rightarrow> jsval \<Rightarrow> media_worker \<Rightarrow> job_store
    \<Rightarrow> (string + (nat \<times> job_store)) option" where
  "drain 0 k clock script types wk st = None"
| "drain (Suc n) k clock script types wk st =
     (case claim_batch (nat \<lceil>wk_concurrency wk\<rceil>) (clock k) types wk (fst (settle_expired_cancellations (clock k) st)) of
        Inl e \<Rightarrow> Some (Inl e)
      | Inr (st', batch) \<Rightarrow>
          if batch = [] then Some (Inr (0, st'))
          else (case drain n (Suc k) clock script types wk (foldl (\<lambda>s j. run_job wk (script k j) j s) st' batch) of
                  None \<Rightarrow> None
                | Some (Inl e) \<Rightarrow> Some (Inl e)
                | Some (Inr (p, st2)) \<Rightarrow> Some (Inr (length batch + p, st2))))"

subsection \<open>Operations as steps\<close>

datatype job_op =
    OpEnqueue string jsval
  | OpClaim jsval jsval jsval
  | OpProgress string string jsval jsval jsval
  | OpHeartbeat string string jsval
  | OpComplete string string jsval
  | OpFail string string jsval
  | OpCancel string
  | OpMarkCancelled string string
  | OpSettle
  | OpRetry string bool

text \<open>An operation that throws leaves the store as it was.\<close>

fun job_step :: "rat \<times> job_op \<Rightarrow> job_store \<Rightarrow> job_store" where
  "job_step (now, OpEnqueue uuid input) st = (case enqueue now uuid input st of Inl e \<Rightarrow> st | Inr (st', r) \<Rightarrow> st')"
| "job_step (now, OpClaim w types lease) st = (case claim_next now w types lease st of Inl e \<Rightarrow> st | Inr (st', r) \<Rightarrow> st')"
| "job_step (now, OpProgress i w stage pct d) st = (case update_progress now i w stage pct d st of Inl e \<Rightarrow> st | Inr (st', r) \<Rightarrow> st')"
| "job_step (now, OpHeartbeat i w s) st = fst (heartbeat now i w s st)"
| "job_step (now, OpComplete i w r) st = fst (complete now i w r st)"
| "job_step (now, OpFail i w e) st = fst (fail now i w e st)"
| "job_step (now, OpCancel i) st = fst (request_cancel now i st)"
| "job_step (now, OpMarkCancelled i w) st = fst (mark_cancelled now i w st)"
| "job_step (now, OpSettle) st = fst (settle_expired_cancellations now st)"
| "job_step (now, OpRetry i reset) st = fst (retry_failed now i reset st)"

definition job_run :: "(rat \<times> job_op) list \<Rightarrow> job_store \<Rightarrow> job_store" where
  "job_run ops st = run_events job_step ops st"

definition no_jobs :: job_store where
  "no_jobs = \<lparr>ms_jobs = [], ms_events = []\<rparr>"

lemma job_run_simps [simp]:
  "job_run [] st = st" "job_run (op # ops) st = job_run ops (job_step op st)"
  "job_run (xs @ ys) st = job_run ys (job_run xs st)"
  by (simp_all add: job_run_def)

text \<open>The transitions of one row, by operation: the state machine of a job.\<close>

inductive row_change :: "rat \<Rightarrow> job_op \<Rightarrow> media_job \<Rightarrow> media_job \<Rightarrow> bool" for now where
  unchanged: "row_change now op j j"
| claimed: "claimable now j \<Longrightarrow> row_change now (OpClaim w types l) j
    (take_job now (to_str (js_or w (JStr []))) (clamp_num 5 3600 (num_or l 300)) j)"
| progressed: "held_running w j \<Longrightarrow> \<not> mj_cancel j \<Longrightarrow> s \<in> set media_job_stages \<Longrightarrow>
    row_change now (OpProgress (mj_id j) w stage pct d) j
      (j\<lparr>mj_stage := s, mj_progress := clamp_num 0 99 (num_or pct 0), mj_updated := now\<rparr>)"
| beaten: "held_running w j \<Longrightarrow> row_change now (OpHeartbeat (mj_id j) w secs) j
    (j\<lparr>mj_lease := Some (heartbeat_lease now secs), mj_updated := now\<rparr>)"
| completed: "held_running w j \<Longrightarrow> \<not> mj_cancel j \<Longrightarrow> (stage, pct) \<in> {(''preparing'', 99), (''ready'', 100)} \<Longrightarrow>
    row_change now (OpComplete (mj_id j) w r) j
      (j\<lparr>mj_status := JobCompleted, mj_stage := stage, mj_progress := pct, mj_result := json_text r, mj_error_code := None,
         mj_error_message := None, mj_retryable := False, mj_owner := None, mj_lease := None, mj_completed_at := Some now,
         mj_updated := now\<rparr>)"
| failed: "held_running w j \<Longrightarrow> row_change now (OpFail (mj_id j) w e) j (fail_job now e j)"
| cancel_wanted: "mj_status j = JobRunning \<Longrightarrow> row_change now (OpCancel (mj_id j)) j (j\<lparr>mj_cancel := True, mj_updated := now\<rparr>)"
| cancelled_waiting: "mj_status j \<in> {JobQueued, JobRetryWait} \<Longrightarrow> row_change now (OpCancel (mj_id j)) j
    (j\<lparr>mj_status := JobCancelled, mj_stage := ''cancelled'', mj_cancel := True, mj_owner := None, mj_lease := None,
       mj_completed_at := Some now, mj_updated := now\<rparr>)"
| cancelled_held: "held_running w j \<Longrightarrow> mj_cancel j \<Longrightarrow> row_change now (OpMarkCancelled (mj_id j) w) j (cancelled_job now j)"
| cancelled_abandoned: "abandoned now j \<Longrightarrow> row_change now OpSettle j (cancelled_job now j)"
| retried: "mj_status j = JobFailed \<Longrightarrow> row_change now (OpRetry (mj_id j) reset) j
    (j\<lparr>mj_status := JobQueued, mj_stage := ''received'', mj_progress := 0, mj_attempts := (if reset then 0 else mj_attempts j),
       mj_available := Fin now, mj_cancel := False, mj_owner := None, mj_lease := None, mj_error_code := None,
       mj_error_message := None, mj_completed_at := None, mj_updated := now\<rparr>)"

inductive_cases row_changeE: "row_change now op j j'"

text \<open>Only an accepted request adds a row.\<close>

definition added_by :: "rat \<Rightarrow> job_op \<Rightarrow> job_store \<Rightarrow> media_job list \<Rightarrow> bool" where
  "added_by now op st new \<longleftrightarrow> new = []
     \<or> (\<exists>uuid input. op = OpEnqueue uuid input \<and> new = [new_job now uuid input]
          \<and> \<not> list_ex (conflicts (new_job now uuid input)) (ms_jobs st))"

definition changed_rows :: "rat \<Rightarrow> job_op \<Rightarrow> job_store \<Rightarrow> job_store \<Rightarrow> bool" where
  "changed_rows now op st st' \<longleftrightarrow> (\<exists>f new. ms_jobs st' = map f (ms_jobs st) @ new \<and> added_by now op st new
     \<and> (\<forall>j\<in>set (ms_jobs st). row_change now op j (f j)))"

lemma changed_same: "ms_jobs st' = ms_jobs st \<Longrightarrow> changed_rows now op st st'"
  unfolding changed_rows_def added_by_def
  by (rule exI [of _ id], rule exI [of _ "[]"]) (simp add: unchanged)

lemma changed_map:
  assumes "ms_jobs st' = map f (ms_jobs st)" "\<And>j. j \<in> set (ms_jobs st) \<Longrightarrow> row_change now op j (f j)"
  shows "changed_rows now op st st'"
  unfolding changed_rows_def added_by_def
  by (rule exI [of _ f], rule exI [of _ "[]"]) (simp add: assms)

lemma add_event_jobs [simp]: "ms_jobs (add_event now i d st) = ms_jobs st" "job_of k (add_event now i d st) = job_of k st"
  by (simp_all add: add_event_def job_of_def split: option.split)

lemma update_jobs: "ms_jobs (update_job i cond f st) = map (\<lambda>j. if mj_id j = i \<and> cond j then f j else j) (ms_jobs st)"
  by (simp add: update_job_def)

lemma changed_update:
  assumes "ms_jobs st' = ms_jobs (update_job i cond f st)"
    "\<And>j. mj_id j = i \<Longrightarrow> j \<in> set (ms_jobs st) \<Longrightarrow> cond j \<Longrightarrow> row_change now op j (f j)"
  shows "changed_rows now op st st'"
  by (rule changed_map [of _ "\<lambda>j. if mj_id j = i \<and> cond j then f j else j"]) (use assms unchanged in \<open>auto simp: update_jobs\<close>)

definition distinct_jobs :: "job_store \<Rightarrow> bool" where
  "distinct_jobs st \<longleftrightarrow> distinct (map mj_id (ms_jobs st))"

lemma foldl_same: "(\<And>s x. g (h s x) = g s) \<Longrightarrow> g (foldl h s xs) = g s"
  by (induction xs arbitrary: s) simp_all

lemma settle_fold:
  "ms_jobs (foldl (\<lambda>s i. update_job i (abandoned now) (cancelled_job now) s) st ids)
    = map (\<lambda>j. if mj_id j \<in> set ids \<and> abandoned now j then cancelled_job now j else j) (ms_jobs st)"
proof (induction ids arbitrary: st)
  case Nil
  then show ?case by simp
next
  case (Cons i ids)
  have "mj_id (cancelled_job now j) = mj_id j" "\<not> abandoned now (cancelled_job now j)" for j
    by (simp_all add: cancelled_job_def abandoned_def)
  then show ?case by (auto simp: Cons.IH update_jobs)
qed

lemma settle_jobs:
  "ms_jobs (fst (settle_expired_cancellations now st)) = map (\<lambda>j. if abandoned now j then cancelled_job now j else j) (ms_jobs st)"
proof -
  let ?ids = "map mj_id (filter (abandoned now) (ms_jobs st))"
  have "ms_jobs (fst (settle_expired_cancellations now st))
    = ms_jobs (foldl (\<lambda>s i. update_job i (abandoned now) (cancelled_job now) s) st ?ids)"
    unfolding settle_expired_cancellations_def Let_def fst_conv by (rule foldl_same) simp
  then show ?thesis unfolding settle_fold by auto
qed

text \<open>Every operation moves every row along the state machine, and adds at most the row it enqueues.\<close>

lemma job_of_id: "job_of i st = Some j \<Longrightarrow> j \<in> set (ms_jobs st) \<and> mj_id j = i"
  unfolding job_of_def by (auto simp: find_Some_iff)

lemma same_job: "distinct_jobs st \<Longrightarrow> j \<in> set (ms_jobs st) \<Longrightarrow> k \<in> set (ms_jobs st) \<Longrightarrow> mj_id j = mj_id k \<Longrightarrow> j = k"
  unfolding distinct_jobs_def by (metis distinct_map inj_onD)

lemma job_of_unique: "distinct_jobs st \<Longrightarrow> job_of i st = Some j \<longleftrightarrow> j \<in> set (ms_jobs st) \<and> mj_id j = i"
proof
  assume "distinct_jobs st" and j: "j \<in> set (ms_jobs st) \<and> mj_id j = i"
  then obtain k where k: "job_of i st = Some k" by (cases "job_of i st") (auto simp: job_of_def find_None_iff)
  with job_of_id [OF k] j same_job [OF \<open>distinct_jobs st\<close>] show "job_of i st = Some j" by metis
qed (rule job_of_id)

lemma job_step_rows:
  assumes "distinct_jobs st"
  shows "changed_rows now op st (job_step (now, op) st)"
proof (cases op)
  case (OpEnqueue uuid input)
  let ?j = "new_job now uuid input"
  show ?thesis
  proof (cases "mj_workspace ?j = [] \<or> mj_type ?j = [] \<or> list_ex (conflicts ?j) (ms_jobs st)")
    case True
    then have "job_step (now, op) st = st"
      by (auto simp: OpEnqueue enqueue_def Let_def split: option.split)
    then show ?thesis by (simp add: changed_same)
  next
    case False
    then have "ms_jobs (job_step (now, op) st) = map id (ms_jobs st) @ [?j]"
      by (simp add: OpEnqueue enqueue_def Let_def)
    with False show ?thesis unfolding changed_rows_def added_by_def OpEnqueue
      by (metis id_apply unchanged)
  qed
next
  case (OpClaim w types l)
  show ?thesis
  proof (cases "foldr (insert_job claimed_before) (candidates now types st) []")
    case Nil
    then show ?thesis by (intro changed_same) (simp add: OpClaim claim_next_def Let_def)
  next
    case (Cons j js)
    then show ?thesis unfolding OpClaim
      by (cases "to_str (js_or w (JStr [])) = []")
         (simp add: claim_next_def Let_def changed_same,
          rule changed_update [of _ "mj_id j" "claimable now" "take_job now (to_str (js_or w (JStr []))) (clamp_num 5 3600 (num_or l 300))"],
          simp add: claim_next_def Let_def, rule claimed)
  qed
next
  case (OpProgress i w stage pct d)
  let ?cond = "\<lambda>j. held_running w j \<and> \<not> mj_cancel j"
  show ?thesis
  proof (cases "matches i ?cond st \<and> normalized_stage stage \<in> set media_job_stages")
    case True
    have "ms_jobs (job_step (now, op) st) = ms_jobs (update_job i ?cond (\<lambda>j. j\<lparr>mj_stage := normalized_stage stage,
                        mj_progress := clamp_num 0 99 (num_or pct 0), mj_updated := now\<rparr>) st)"
      using True by (simp add: OpProgress update_progress_def Let_def)
    then show ?thesis by (rule changed_update) (use True progressed in \<open>auto simp: OpProgress\<close>)
  next
    case False
    then show ?thesis by (intro changed_same) (auto simp: OpProgress update_progress_def Let_def)
  qed
next
  case (OpHeartbeat i w s)
  show ?thesis by (rule changed_update [of _ i "held_running w"]) (auto simp: OpHeartbeat heartbeat_def intro: beaten)
next
  case (OpComplete i w r)
  let ?cond = "\<lambda>j. held_running w j \<and> \<not> mj_cancel j"
  let ?prep = "fld r ''media_preparing'' = JBool True"
  show ?thesis
  proof (cases "matches i ?cond st")
    case True
    have "ms_jobs (job_step (now, op) st) = ms_jobs (update_job i ?cond (\<lambda>j. j\<lparr>mj_status := JobCompleted,
                  mj_stage := (if ?prep then ''preparing'' else ''ready''), mj_progress := (if ?prep then 99 else 100),
                  mj_result := json_text r, mj_error_code := None, mj_error_message := None, mj_retryable := False,
                  mj_owner := None, mj_lease := None, mj_completed_at := Some now, mj_updated := now\<rparr>) st)"
      using True by (simp add: OpComplete complete_def Let_def)
    then show ?thesis by (rule changed_update) (auto simp: OpComplete intro!: completed)
  next
    case False
    then show ?thesis by (intro changed_same) (simp add: OpComplete complete_def Let_def)
  qed
next
  case (OpFail i w e)
  show ?thesis
  proof (cases "find (\<lambda>j. mj_id j = i \<and> held_running w j) (ms_jobs st)")
    case None
    then show ?thesis by (intro changed_same) (simp add: OpFail fail_def)
  next
    case (Some j)
    then have "ms_jobs (job_step (now, op) st) = ms_jobs (update_job i (held_running w) (fail_job now e) st)"
      by (simp add: OpFail fail_def Let_def)
    then show ?thesis by (rule changed_update) (auto simp: OpFail intro: failed)
  qed
next
  case (OpMarkCancelled i w)
  let ?cond = "\<lambda>j. held_running w j \<and> mj_cancel j"
  show ?thesis
  proof (cases "matches i ?cond st")
    case True
    then have "ms_jobs (job_step (now, op) st) = ms_jobs (update_job i ?cond (cancelled_job now) st)"
      by (simp add: OpMarkCancelled mark_cancelled_def Let_def)
    then show ?thesis by (rule changed_update) (auto simp: OpMarkCancelled intro: cancelled_held)
  next
    case False
    then show ?thesis by (intro changed_same) (simp add: OpMarkCancelled mark_cancelled_def Let_def)
  qed
next
  case OpSettle
  show ?thesis by (rule changed_map [of _ "\<lambda>j. if abandoned now j then cancelled_job now j else j"])
    (auto simp: OpSettle settle_jobs intro: unchanged cancelled_abandoned)
next
  case (OpRetry i reset)
  let ?cond = "\<lambda>j. mj_status j = JobFailed"
  show ?thesis
  proof (cases "matches i ?cond st")
    case True
    then have "ms_jobs (job_step (now, op) st) = ms_jobs (update_job i ?cond (\<lambda>j. j\<lparr>mj_status := JobQueued,
                  mj_stage := ''received'', mj_progress := 0, mj_attempts := (if reset then 0 else mj_attempts j),
                  mj_available := Fin now, mj_cancel := False, mj_owner := None, mj_lease := None, mj_error_code := None,
                  mj_error_message := None, mj_completed_at := None, mj_updated := now\<rparr>) st)"
      by (simp add: OpRetry retry_failed_def Let_def)
    then show ?thesis by (rule changed_update) (unfold OpRetry, metis retried)
  next
    case False
    then show ?thesis by (intro changed_same) (simp add: OpRetry retry_failed_def Let_def)
  qed
next
  case (OpCancel i)
  show ?thesis
  proof (cases "job_of i st")
    case None
    then show ?thesis by (intro changed_same) (simp add: OpCancel request_cancel_def)
  next
    case (Some k)
    from job_of_id [OF Some] have k: "j = k" if "j \<in> set (ms_jobs st)" "mj_id j = i" for j
      using same_job [OF assms] that by blast
    consider "mj_status k \<in> set terminal_statuses" | "mj_status k = JobRunning" | "mj_status k \<in> {JobQueued, JobRetryWait}"
      by (cases "mj_status k") (auto simp: terminal_statuses_def)
    then show ?thesis
    proof cases
      case 1
      with Some show ?thesis by (intro changed_same) (simp add: OpCancel request_cancel_def Let_def)
    next
      case 2
      with Some have "ms_jobs (job_step (now, op) st) = ms_jobs (update_job i (\<lambda>j. True) (\<lambda>j. j\<lparr>mj_cancel := True, mj_updated := now\<rparr>) st)"
        by (simp add: OpCancel request_cancel_def Let_def terminal_statuses_def)
      then show ?thesis by (rule changed_update) (use 2 k cancel_wanted in \<open>auto simp: OpCancel\<close>)
    next
      case 3
      with Some have "ms_jobs (job_step (now, op) st) = ms_jobs (update_job i (\<lambda>j. True) (\<lambda>j. j\<lparr>mj_status := JobCancelled,
          mj_stage := ''cancelled'', mj_cancel := True, mj_owner := None, mj_lease := None, mj_completed_at := Some now, mj_updated := now\<rparr>) st)"
        by (auto simp: OpCancel request_cancel_def Let_def terminal_statuses_def)
      then show ?thesis by (rule changed_update) (use 3 k cancelled_waiting in \<open>auto simp: OpCancel\<close>)
    qed
  qed
qed

subsection \<open>Rows keep their shape\<close>

definition sound_job :: "media_job \<Rightarrow> bool" where
  "sound_job j \<longleftrightarrow> (mj_status j = JobRunning \<longleftrightarrow> mj_owner j \<noteq> None) \<and> (mj_owner j \<noteq> None \<longleftrightarrow> mj_lease j \<noteq> None)
     \<and> (mj_status j \<in> set terminal_statuses \<longleftrightarrow> mj_completed_at j \<noteq> None)
     \<and> mj_stage j \<in> set media_job_stages \<and> 0 \<le> mj_progress j \<and> mj_progress j \<le> 100
     \<and> (mj_progress j = 100 \<longrightarrow> mj_status j = JobCompleted)
     \<and> 1 \<le> mj_max j \<and> mj_max j \<le> 20 \<and> of_nat (mj_attempts j) < mj_max j + 1"

lemma clamp_num_range: "lo \<le> hi \<Longrightarrow> lo \<le> clamp_num lo hi n \<and> clamp_num lo hi n \<le> hi"
  by (cases n) auto

lemma row_change_id: "row_change now op j j' \<Longrightarrow> mj_id j' = mj_id j"
  by (induction rule: row_change.induct) (simp_all add: take_job_def fail_job_def cancelled_job_def)

lemma stages_in: "''received'' \<in> set media_job_stages" "''validating'' \<in> set media_job_stages" "''preparing'' \<in> set media_job_stages"
  "''ready'' \<in> set media_job_stages" "''failed'' \<in> set media_job_stages" "''cancelled'' \<in> set media_job_stages"
  by (simp_all add: media_job_stages_def)

lemma job_sound_open:
  assumes "sound_job j" "mj_status j \<in> {JobQueued, JobRetryWait, JobRunning}"
  shows "mj_completed_at j = None" "mj_progress j \<noteq> 100"
  using assms by (auto simp: sound_job_def terminal_statuses_def)

lemma row_change_sound:
  assumes "row_change now op j j'" "sound_job j"
  shows "sound_job j'"
  using assms
proof (induction rule: row_change.induct)
  case (progressed w j s stage pct d)
  with clamp_num_range [of 0 99 "num_or pct 0"] show ?case
    by (auto simp: sound_job_def held_running_def terminal_statuses_def)
next
  case (claimed j w types l)
  then have "mj_status j \<in> {JobQueued, JobRetryWait, JobRunning}" and m: "of_nat (mj_attempts j) < mj_max j"
    by (auto simp: claimable_def)
  from job_sound_open [OF claimed(2) this(1)] claimed(2) m stages_in show ?case
    by (simp add: sound_job_def take_job_def terminal_statuses_def)
next
  case (failed w j e)
  then have "mj_status j \<in> {JobQueued, JobRetryWait, JobRunning}" by (simp add: held_running_def)
  from job_sound_open [OF failed(2) this] failed(2) stages_in show ?case
    by (simp add: sound_job_def fail_job_def terminal_statuses_def)
next
  case (completed w j stage pct r)
  from completed(3) have "stage \<in> set media_job_stages" "0 \<le> pct" "pct \<le> 100" using stages_in by auto
  with completed(4) show ?case by (simp add: sound_job_def terminal_statuses_def)
next
  case (retried j reset)
  then show ?case using stages_in by (simp add: sound_job_def terminal_statuses_def)
next
  case (cancelled_held w j)
  then show ?case using stages_in by (simp add: sound_job_def terminal_statuses_def cancelled_job_def held_running_def)
next
  case (cancelled_abandoned j)
  then show ?case using stages_in by (simp add: sound_job_def terminal_statuses_def cancelled_job_def abandoned_def)
next
  case (cancelled_waiting j)
  then have "mj_status j \<in> {JobQueued, JobRetryWait, JobRunning}" by auto
  from job_sound_open [OF cancelled_waiting(2) this] cancelled_waiting(2) show ?case
    using stages_in by (simp add: sound_job_def terminal_statuses_def)
qed (auto simp: sound_job_def held_running_def terminal_statuses_def)

lemma new_job_sound: "sound_job (new_job now uuid input)"
  using clamp_num_range [of 1 20 "num_or (fld input ''maxAttempts'') 3"]
  by (simp add: sound_job_def new_job_def terminal_statuses_def media_job_stages_def)

definition sound_store :: "job_store \<Rightarrow> bool" where
  "sound_store st \<longleftrightarrow> distinct_jobs st \<and> (\<forall>j\<in>set (ms_jobs st). sound_job j)
     \<and> (\<forall>j\<in>set (ms_jobs st). \<forall>k\<in>set (ms_jobs st). mj_key j \<noteq> None \<longrightarrow> mj_workspace j = mj_workspace k \<longrightarrow> mj_key j = mj_key k \<longrightarrow> j = k)"

lemma row_change_key: "row_change now op j j' \<Longrightarrow> mj_key j' = mj_key j \<and> mj_workspace j' = mj_workspace j"
  by (induction rule: row_change.induct) (simp_all add: take_job_def fail_job_def cancelled_job_def)

lemma job_sound_step:
  assumes "sound_store st"
  shows "sound_store (job_step (now, op) st)"
proof -
  have d: "distinct_jobs st" using assms by (simp add: sound_store_def)
  from job_step_rows [OF d, of now op] obtain f new where
    rows: "ms_jobs (job_step (now, op) st) = map f (ms_jobs st) @ new" and new: "added_by now op st new"
    and ch: "\<forall>j\<in>set (ms_jobs st). row_change now op j (f j)" unfolding changed_rows_def by blast
  have ids: "map mj_id (map f (ms_jobs st)) = map mj_id (ms_jobs st)" using ch row_change_id by auto
  have key: "mj_key (f j) = mj_key j \<and> mj_workspace (f j) = mj_workspace j" if "j \<in> set (ms_jobs st)" for j
    using ch that row_change_key by blast
  have snd: "sound_job (f j)" if "j \<in> set (ms_jobs st)" for j
    using assms ch that row_change_sound unfolding sound_store_def by blast
  from new consider "new = []" | j where "new = [j]" "sound_job j" "\<forall>k\<in>set (ms_jobs st). \<not> conflicts j k"
    using new_job_sound unfolding added_by_def by (auto simp: list_ex_iff)
  then show ?thesis
  proof cases
    case 1
    show ?thesis unfolding sound_store_def distinct_jobs_def rows 1
      using d ids snd key assms unfolding sound_store_def distinct_jobs_def by (auto simp del: map_map)
  next
    case 2
    have dis: "distinct (map mj_id (ms_jobs st) @ [mj_id j])" using d 2(3) by (auto simp: distinct_jobs_def conflicts_def)
    show ?thesis unfolding sound_store_def distinct_jobs_def rows 2(1)
      using dis ids snd key 2 assms unfolding sound_store_def distinct_jobs_def by (auto simp: conflicts_def simp del: map_map)
  qed
qed

interpretation jobs: machine job_step sound_store
  by unfold_locales (metis job_sound_step surj_pair)

lemma job_sound_run: "sound_store st \<Longrightarrow> sound_store (job_run ops st)"
  unfolding job_run_def by (rule jobs.run_good)

lemma no_jobs_sound [simp]: "sound_store no_jobs"
  by (simp add: sound_store_def no_jobs_def distinct_jobs_def)

text \<open>In every reachable store a job has an owner and a lease exactly while it runs and a completion time exactly once it is
  settled, only a completed job reports 100 percent, its stage is one the table accepts, its attempts stay within one of the
  limit of 1 to 20, and idempotency keys are unique in a workspace.\<close>

theorem reachable_jobs_sound:
  "sound_store (job_run ops no_jobs)"
  by (rule job_sound_run) simp

text \<open>How the row of one id moves in a step.\<close>

lemma job_of_step:
  assumes "sound_store st" "job_of i st = Some j"
  shows "\<exists>j'. job_of i (job_step (now, op) st) = Some j' \<and> row_change now op j j'"
proof -
  have d: "distinct_jobs st" "distinct_jobs (job_step (now, op) st)"
    using assms(1) job_sound_step [OF assms(1), of now op] by (simp_all add: sound_store_def)
  from job_of_id [OF assms(2)] have j: "j \<in> set (ms_jobs st)" "mj_id j = i" by blast+
  from job_step_rows [OF d(1), of now op] obtain f new where
    rows: "ms_jobs (job_step (now, op) st) = map f (ms_jobs st) @ new" and ch: "\<forall>j\<in>set (ms_jobs st). row_change now op j (f j)"
    unfolding changed_rows_def by blast
  have "f j \<in> set (ms_jobs (job_step (now, op) st))" using j(1) rows by simp
  moreover have "mj_id (f j) = i" using ch j row_change_id by metis
  ultimately show ?thesis using job_of_unique [OF d(2)] ch j(1) by blast
qed

text \<open>A property of a row that every transition of a run keeps, the run keeps.\<close>

lemma job_run_invariant:
  assumes "sound_store st" "job_of i st = Some j" "P j"
    and "\<And>now op k k'. (now, op) \<in> set ops \<Longrightarrow> sound_job k \<Longrightarrow> mj_id k = i \<Longrightarrow> P k \<Longrightarrow> row_change now op k k' \<Longrightarrow> P k'"
  shows "\<exists>j'. job_of i (job_run ops st) = Some j' \<and> P j'"
  using assms
proof (induction ops arbitrary: st j)
  case (Cons x ops)
  obtain now op where x: "x = (now, op)" by (cases x)
  from job_of_step [OF Cons.prems(1,2), of now op] obtain j' where j': "job_of i (job_step x st) = Some j'" "row_change now op j j'"
    unfolding x by blast
  have "sound_job j" "mj_id j = i" using Cons.prems(1) job_of_id [OF Cons.prems(2)] by (auto simp: sound_store_def)
  with Cons.prems(3,4) j'(2) have "P j'" by (metis list.set_intros(1) x)
  moreover have "sound_store (job_step x st)" unfolding x by (rule job_sound_step [OF Cons.prems(1)])
  ultimately show ?case using Cons.IH [OF _ j'(1)] Cons.prems(4) by (metis job_run_simps(2) list.set_intros(2))
qed simp

subsection \<open>Leases\<close>

text \<open>The operations by which a worker gives a job up or moves its lease.\<close>

fun lets_go :: "string \<Rightarrow> string \<Rightarrow> job_op \<Rightarrow> bool" where
  "lets_go i w (OpComplete k v r) = (k = i \<and> v = w)"
| "lets_go i w (OpFail k v e) = (k = i \<and> v = w)"
| "lets_go i w (OpMarkCancelled k v) = (k = i \<and> v = w)"
| "lets_go i w (OpHeartbeat k v s) = (k = i \<and> v = w)"
| "lets_go i w op = False"

lemma lease_step:
  assumes "row_change now op j j'" "held_running w j" "mj_lease j = Some (Fin e)" "now < e" "\<not> lets_go (mj_id j) w op"
  shows "held_running w j' \<and> mj_lease j' = Some (Fin e)"
  using assms by (induction rule: row_change.induct)
    (auto simp: held_running_def claimable_def abandoned_def)

text \<open>C24: A lease is exclusive: until it ends, and as long as its worker neither gives the job up nor moves the lease, no claim of
  another worker, no cancellation, no retry and no settlement takes the job away.\<close>

theorem lease_exclusive:
  assumes "sound_store st" "job_of i st = Some j" "held_running w j" "mj_lease j = Some (Fin e)"
    and "\<forall>x\<in>set ops. fst x < e \<and> \<not> lets_go i w (snd x)"
  shows "\<exists>j'. job_of i (job_run ops st) = Some j' \<and> held_running w j' \<and> mj_lease j' = Some (Fin e)"
  by (rule job_run_invariant [OF assms(1,2)]) (use assms(3-5) lease_step in \<open>fastforce+\<close>)

text \<open>A completed or cancelled job is never changed again, by any operation.\<close>

theorem settled_jobs_final:
  assumes "sound_store st" "job_of i st = Some j" "mj_status j \<in> {JobCompleted, JobCancelled}"
  shows "job_of i (job_run ops st) = Some j"
proof -
  have "k' = k" if "row_change now op k k'" "mj_status k \<in> {JobCompleted, JobCancelled}" for now op k k'
    using that by (induction rule: row_change.induct) (auto simp: claimable_def held_running_def abandoned_def)
  then have "\<exists>j'. job_of i (job_run ops st) = Some j' \<and> j' = j"
    by (intro job_run_invariant [OF assms(1,2), of "\<lambda>k. k = j"]) (use assms(3) in auto)
  then show ?thesis by blast
qed

subsection \<open>Attempts\<close>

text \<open>Whether a step claims the job: its attempts grow.\<close>

fun resets :: "string \<Rightarrow> job_op \<Rightarrow> bool" where
  "resets i (OpRetry k reset) = (k = i \<and> reset)"
| "resets i op = False"

definition claims_job :: "string \<Rightarrow> rat \<times> job_op \<Rightarrow> job_store \<Rightarrow> bool" where
  "claims_job i op st = (case snd op of
      OpClaim w types l \<Rightarrow> (case claim_next (fst op) w types l st of
          Inl e \<Rightarrow> False | Inr r \<Rightarrow> (case snd r of None \<Rightarrow> False | Some j \<Rightarrow> mj_id j = i))
    | _ \<Rightarrow> False)"

fun claim_count :: "string \<Rightarrow> (rat \<times> job_op) list \<Rightarrow> job_store \<Rightarrow> nat" where
  "claim_count i [] st = 0"
| "claim_count i (op # ops) st = (if claims_job i op st then 1 else 0) + claim_count i ops (job_step op st)"

lemma set_insert_job [simp]: "set (insert_job before j js) = insert j (set js)"
  by (induction js) auto

lemma set_sorted_jobs: "set (foldr (insert_job before) js []) = set js"
  by (induction js) auto

lemma claim_picks:
  assumes "foldr (insert_job claimed_before) (candidates now types st) [] = j # js"
  shows "j \<in> set (ms_jobs st) \<and> claimable now j"
proof -
  have "j \<in> set (candidates now types st)" using set_sorted_jobs [of claimed_before "candidates now types st"] assms by auto
  then show ?thesis by (simp add: candidates_def)
qed

lemma claim_effect:
  assumes "sound_store st" "claims_job i op st"
  obtains j j' where "job_of i st = Some j" "job_of i (job_step op st) = Some j'" "mj_attempts j' = Suc (mj_attempts j)"
    "of_nat (mj_attempts j) < mj_max j"
proof -
  have d: "distinct_jobs st" using assms(1) by (simp add: sound_store_def)
  from assms(2) obtain now w types l st' k where op: "op = (now, OpClaim w types l)"
    and c: "claim_next now w types l st = Inr (st', Some k)" "mj_id k = i"
    by (cases op; cases "snd op") (auto simp: claims_job_def split: sum.splits option.splits)
  let ?o = "to_str (js_or w (JStr []))" and ?l = "clamp_num 5 3600 (num_or l 300)"
  from c(1) have o: "?o \<noteq> []" by (auto simp: claim_next_def Let_def)
  from c(1) o obtain j js where s: "foldr (insert_job claimed_before) (candidates now types st) [] = j # js"
    by (cases "foldr (insert_job claimed_before) (candidates now types st) []") (auto simp: claim_next_def Let_def)
  from claim_picks [OF s] have j: "j \<in> set (ms_jobs st)" "claimable now j" by blast+
  let ?st = "update_job (mj_id j) (claimable now) (take_job now ?o ?l) st"
  from c(1) o s have st': "ms_jobs st' = ms_jobs ?st" "job_of (mj_id j) ?st = Some k"
    by (auto simp: claim_next_def Let_def)
  from job_of_id [OF st'(2)] c(2) have i: "mj_id j = i" by simp
  have ji: "job_of i st = Some j" using job_of_unique [OF d] j(1) i by blast
  have ds: "distinct_jobs st'" using job_sound_step [OF assms(1), of now "OpClaim w types l"] c(1) by (simp add: sound_store_def)
  have "take_job now ?o ?l j \<in> set (ms_jobs st')" unfolding st'(1) update_jobs using j by force
  moreover have "mj_id (take_job now ?o ?l j) = i" using i by (simp add: take_job_def)
  ultimately have "job_of i st' = Some (take_job now ?o ?l j)" using job_of_unique [OF ds] by blast
  moreover have "job_step op st = st'" using c(1) by (simp add: op)
  ultimately show ?thesis using that [OF ji] j(2) by (simp add: take_job_def claimable_def)
qed

lemma attempts_step:
  assumes "row_change now op j j'" "\<not> resets (mj_id j) op"
  shows "mj_attempts j \<le> mj_attempts j' \<and> mj_max j' = mj_max j"
  using assms by (induction rule: row_change.induct) (auto simp: take_job_def fail_job_def cancelled_job_def)

lemma claims_counted:
  assumes "sound_store st" "job_of i st = Some j" "\<forall>x\<in>set ops. \<not> resets i (snd x)"
  shows "\<exists>j'. job_of i (job_run ops st) = Some j' \<and> mj_attempts j + claim_count i ops st \<le> mj_attempts j' \<and> mj_max j' = mj_max j"
  using assms
proof (induction ops arbitrary: st j)
  case (Cons x ops)
  obtain now op where x: "x = (now, op)" by (cases x)
  from job_of_step [OF Cons.prems(1,2), of now op] obtain k where k: "job_of i (job_step x st) = Some k" "row_change now op j k"
    unfolding x by blast
  have s: "sound_store (job_step x st)" unfolding x by (rule job_sound_step [OF Cons.prems(1)])
  have nr: "\<not> resets i op" "mj_id j = i" using Cons.prems(3) job_of_id [OF Cons.prems(2)] by (auto simp: x)
  from attempts_step [OF k(2)] nr have a: "mj_attempts j \<le> mj_attempts k" "mj_max k = mj_max j" by simp_all
  have c: "mj_attempts j + (if claims_job i x st then 1 else 0) \<le> mj_attempts k"
  proof (cases "claims_job i x st")
    case True
    from claim_effect [OF Cons.prems(1) True] obtain p q where "job_of i st = Some p" "job_of i (job_step x st) = Some q"
      "mj_attempts q = Suc (mj_attempts p)" .
    with k(1) Cons.prems(2) True show ?thesis by simp
  qed (use a in simp)
  have "\<forall>y\<in>set ops. \<not> resets i (snd y)" using Cons.prems(3) by simp
  from Cons.IH [OF s k(1) this] obtain j' where "job_of i (job_run ops (job_step x st)) = Some j'"
    "mj_attempts k + claim_count i ops (job_step x st) \<le> mj_attempts j'" "mj_max j' = mj_max k" by blast
  with c a show ?case by (intro exI [of _ j']) simp
qed simp

text \<open>Whatever happens to a job, it is started at most as often as its limit allows, twenty times at the most, as long as no one
  resets its attempts by hand: crashes, expired leases and retries all count.\<close>

theorem claims_bounded:
  assumes "sound_store st" "job_of i st = Some j" "\<forall>x\<in>set ops. \<not> resets i (snd x)"
  shows "of_nat (mj_attempts j + claim_count i ops st) < mj_max j + 1 \<and> claim_count i ops st \<le> 20"
proof -
  from claims_counted [OF assms] obtain j' where j': "job_of i (job_run ops st) = Some j'"
    "mj_attempts j + claim_count i ops st \<le> mj_attempts j'" "mj_max j' = mj_max j" by blast
  have "sound_job j'" using job_sound_run [OF assms(1), of ops] job_of_id [OF j'(1)] by (auto simp: sound_store_def)
  then have b: "of_nat (mj_attempts j') < mj_max j + 1" "mj_max j \<le> 20" using j'(3) by (simp_all add: sound_job_def)
  from j'(2) have "of_nat (mj_attempts j + claim_count i ops st) \<le> (of_nat (mj_attempts j') :: rat)" by (simp only: of_nat_le_iff)
  with b(1) have l: "of_nat (mj_attempts j + claim_count i ops st) < mj_max j + 1" by linarith
  then have "(of_nat (mj_attempts j + claim_count i ops st) :: rat) < of_nat 21" using b(2) by simp
  then have "mj_attempts j + claim_count i ops st < 21" by (simp only: of_nat_less_iff)
  with l show ?thesis by simp
qed

subsection \<open>Idempotent requests\<close>

lemma enqueue_row:
  assumes "enqueue now uuid input st = Inr (st', j, c)" "sound_store st"
  shows "job_of (mj_id j) st' = Some j \<and> sound_store st'
    \<and> (mj_key (new_job now uuid input) \<noteq> None \<longrightarrow>
         mj_key j = mj_key (new_job now uuid input) \<and> mj_workspace j = mj_workspace (new_job now uuid input))"
proof -
  let ?n = "new_job now uuid input"
  have s: "sound_store st'" using job_sound_step [OF assms(2), of now "OpEnqueue uuid input"] assms(1) by simp
  then have d: "distinct_jobs st'" by (simp add: sound_store_def)
  show ?thesis
  proof (cases "list_ex (conflicts ?n) (ms_jobs st)")
    case True
    with assms(1) have "st' = st" and f: "find (\<lambda>k. mj_key ?n \<noteq> None \<and> mj_workspace k = mj_workspace ?n \<and> mj_key k = mj_key ?n) (ms_jobs st) = Some j"
      by (auto simp: enqueue_def Let_def split: if_splits option.splits)
    with s d show ?thesis by (auto simp: find_Some_iff job_of_unique)
  next
    case False
    with assms(1) have "j = ?n" "ms_jobs st' = ms_jobs st @ [?n]"
      by (auto simp: enqueue_def Let_def split: if_splits)
    with s d show ?thesis by (simp add: job_of_unique)
  qed
qed

text \<open>A request under an idempotency key is carried out once: whatever happened since, a later request of the same workspace
  under the same key is answered with the job the first one got, and changes nothing.\<close>

theorem enqueue_once:
  assumes "sound_store st" "enqueue now uuid input st = Inr (st', j, c)" "fld input ''idempotencyKey'' \<noteq> JUndef"
    "fld input ''idempotencyKey'' \<noteq> JNull"
    and "fld again ''idempotencyKey'' = fld input ''idempotencyKey''" "fld again ''workspaceId'' = fld input ''workspaceId''"
    and "truthy (fld again ''jobType'')" "to_str (fld again ''jobType'') \<noteq> []"
  shows "\<exists>j'. enqueue now2 uuid2 again (job_run ops st') = Inr (job_run ops st', j', False) \<and> mj_id j' = mj_id j"
proof -
  let ?n = "new_job now uuid input" and ?m = "new_job now2 uuid2 again"
  have key: "mj_key ?n \<noteq> None" "mj_key ?m = mj_key ?n" "mj_workspace ?m = mj_workspace ?n"
    using assms(3-6) by (simp_all add: new_job_def text_column_def is_nullish_def)
  have "mj_type ?m \<noteq> []" using assms(7,8) by (simp add: new_job_def js_or_def)
  moreover have "mj_workspace ?n \<noteq> []" using assms(2) by (auto simp: enqueue_def Let_def split: if_splits)
  ultimately have ok: "\<not> (mj_workspace ?m = [] \<or> mj_type ?m = [])" using key(3) by simp
  from enqueue_row [OF assms(2,1)] key(1) have j: "job_of (mj_id j) st' = Some j" "sound_store st'"
    "mj_key j = mj_key ?n" "mj_workspace j = mj_workspace ?n" by blast+
  have "\<exists>k. job_of (mj_id j) (job_run ops st') = Some k \<and> (mj_key k = mj_key ?n \<and> mj_workspace k = mj_workspace ?n)"
    by (rule job_run_invariant [OF j(2,1)]) (use j(3,4) row_change_key in auto)
  then obtain k where k: "k \<in> set (ms_jobs (job_run ops st'))" "mj_id k = mj_id j" "mj_key k = mj_key ?m" "mj_workspace k = mj_workspace ?m"
    using job_of_id key by (metis (full_types))
  let ?P = "\<lambda>k. mj_key ?m \<noteq> None \<and> mj_workspace k = mj_workspace ?m \<and> mj_key k = mj_key ?m"
  have "list_ex (conflicts ?m) (ms_jobs (job_run ops st'))" using k key by (auto simp: list_ex_iff conflicts_def)
  moreover obtain k2 where k2: "find ?P (ms_jobs (job_run ops st')) = Some k2"
    using k key by (cases "find ?P (ms_jobs (job_run ops st'))") (auto simp: find_None_iff)
  moreover have "k2 = k"
  proof -
    from k2 have "k2 \<in> set (ms_jobs (job_run ops st'))" "mj_workspace k2 = mj_workspace ?m" "mj_key k2 = mj_key ?m"
      by (auto simp: find_Some_iff)
    moreover have "sound_store (job_run ops st')" by (rule job_sound_run [OF j(2)])
    ultimately show ?thesis using k key unfolding sound_store_def by metis
  qed
  ultimately have "enqueue now2 uuid2 again (job_run ops st') = Inr (job_run ops st', k, False)"
    using ok unfolding enqueue_def Let_def by simp
  with k(2) show ?thesis by blast
qed

subsection \<open>A worker that dies on the last attempt\<close>

fun by_worker :: "string \<Rightarrow> string \<Rightarrow> job_op \<Rightarrow> bool" where
  "by_worker i w (OpProgress k v stage pct d) = (k = i \<and> v = w)"
| "by_worker i w (OpHeartbeat k v s) = (k = i \<and> v = w)"
| "by_worker i w (OpComplete k v r) = (k = i \<and> v = w)"
| "by_worker i w (OpFail k v e) = (k = i \<and> v = w)"
| "by_worker i w (OpMarkCancelled k v) = (k = i \<and> v = w)"
| "by_worker i w op = False"

lemma held_unique: "held_running v j \<Longrightarrow> held_running w j \<Longrightarrow> v = w"
  by (simp add: held_running_def)

lemma last_attempt_step:
  assumes "row_change now op j k" "held_running w j" "mj_max j \<le> of_nat (mj_attempts j)" "\<not> mj_cancel j"
    "\<not> by_worker (mj_id j) w op" "op \<noteq> OpCancel (mj_id j)" "P j"
  shows "P k"
  using assms by (induction rule: row_change.induct) (simp_all add: claimable_def held_running_def abandoned_def)

text \<open>A job whose worker dies on its last attempt stays \<open>running\<close> for ever unless it is cancelled: its lease ends, but no claim takes
  it up, no settlement fails it and it cannot be retried by hand.\<close>

theorem last_attempt_stays_running:
  assumes "sound_store st" "job_of i st = Some j" "held_running w j" "mj_max j \<le> of_nat (mj_attempts j)" "\<not> mj_cancel j"
    and "\<forall>x\<in>set ops. \<not> by_worker i w (snd x) \<and> snd x \<noteq> OpCancel i"
  shows "job_of i (job_run ops st) = Some j"
proof -
  have id: "mj_id j = i" using job_of_id [OF assms(2)] by blast
  have "k' = j" if "row_change now op k k'" "k = j" "(now, op) \<in> set ops" for now op k k'
    using last_attempt_step [of now op j k' w "\<lambda>k. k = j"] that assms(3-6) id by auto
  then have "\<exists>j'. job_of i (job_run ops st) = Some j' \<and> j' = j"
    by (intro job_run_invariant [OF assms(1,2), of "\<lambda>k. k = j"]) auto
  then show ?thesis by blast
qed

text \<open>A stage that \<open>updateProgress\<close> accepts and the table does not: the report throws, and the worker fails the job.\<close>

theorem accepted_stage_rejected:
  assumes "held_running w j" "\<not> mj_cancel j" "stage \<in> set [''downloading'', ''transcoding'', ''finalizing'', ''publishing'']"
  shows "stage \<in> set valid_stages \<and> update_progress now (mj_id j) w (JStr stage) pct d \<lparr>ms_jobs = [j], ms_events = []\<rparr>
    = Inl ''CHECK constraint failed''"
proof -
  have "list_all (\<lambda>s. s \<in> set valid_stages \<and> s \<notin> set media_job_stages)
      [''downloading'', ''transcoding'', ''finalizing'', ''publishing'']" by code_simp
  then have "stage \<in> set valid_stages" "stage \<notin> set media_job_stages" using assms(3) unfolding list_all_iff by blast+
  with assms(1,2) show ?thesis by (simp add: update_progress_def Let_def matches_def normalized_stage_def)
qed

subsection \<open>Draining ends\<close>

definition remaining :: "media_job \<Rightarrow> nat" where
  "remaining j = nat \<lceil>mj_max j\<rceil> - mj_attempts j"

definition attempts_left :: "job_store \<Rightarrow> nat" where
  "attempts_left st = sum_list (map remaining (ms_jobs st))"

fun tame :: "job_op \<Rightarrow> bool" where
  "tame (OpEnqueue u i) = False"
| "tame (OpRetry i r) = False"
| "tame op = True"

lemma row_change_remaining: "row_change now op j j' \<Longrightarrow> tame op \<Longrightarrow> remaining j' \<le> remaining j"
  by (induction rule: row_change.induct) (auto simp: remaining_def take_job_def fail_job_def cancelled_job_def)

lemma sum_list_less:
  fixes g :: "'a \<Rightarrow> nat"
  assumes "\<forall>x\<in>set xs. g (f x) \<le> g x"
  shows "sum_list (map g (map f xs)) \<le> sum_list (map g xs)"
    and "y \<in> set xs \<Longrightarrow> g (f y) < g y \<Longrightarrow> sum_list (map g (map f xs)) < sum_list (map g xs)"
  using assms by (induction xs) (auto intro: add_mono add_less_le_mono add_le_less_mono)

lemma budget_step:
  assumes "sound_store st" "tame op"
  shows "attempts_left (job_step (now, op) st) \<le> attempts_left st"
    and "claims_job i (now, op) st \<Longrightarrow> attempts_left (job_step (now, op) st) < attempts_left st"
proof -
  have d: "distinct_jobs st" using assms(1) by (simp add: sound_store_def)
  from job_step_rows [OF d, of now op] obtain f new where rows': "ms_jobs (job_step (now, op) st) = map f (ms_jobs st) @ new"
    and new: "added_by now op st new" and ch: "\<forall>j\<in>set (ms_jobs st). row_change now op j (f j)" unfolding changed_rows_def by blast
  have "new = []" using new assms(2) unfolding added_by_def by auto
  with rows' have rows: "ms_jobs (job_step (now, op) st) = map f (ms_jobs st)" by simp
  have le: "\<forall>j\<in>set (ms_jobs st). remaining (f j) \<le> remaining j" using ch assms(2) row_change_remaining by blast
  show "attempts_left (job_step (now, op) st) \<le> attempts_left st" unfolding attempts_left_def rows by (rule sum_list_less(1) [OF le])
  assume "claims_job i (now, op) st"
  from claim_effect [OF assms(1) this] obtain j j' where j: "job_of i st = Some j" "job_of i (job_step (now, op) st) = Some j'"
    "mj_attempts j' = Suc (mj_attempts j)" "of_nat (mj_attempts j) < mj_max j" .
  from job_of_id [OF j(1)] have jm: "j \<in> set (ms_jobs st)" "mj_id j = i" by blast+
  have dn: "distinct_jobs (job_step (now, op) st)" using job_sound_step [OF assms(1)] by (simp add: sound_store_def)
  have "f j \<in> set (ms_jobs (job_step (now, op) st))" "mj_id (f j) = i" using rows jm ch row_change_id by auto
  then have "job_of i (job_step (now, op) st) = Some (f j)" using job_of_unique [OF dn] by blast
  with j(2) have fj: "f j = j'" by simp
  have "mj_max j' = mj_max j" using attempts_step [of now op j "f j"] ch jm assms(2) fj by (cases op) auto
  moreover have "mj_attempts j < nat \<lceil>mj_max j\<rceil>" using j(4) by linarith
  ultimately have "remaining (f j) < remaining j" using j(3) by (simp add: fj remaining_def)
  then show "attempts_left (job_step (now, op) st) < attempts_left st" unfolding attempts_left_def rows by (rule sum_list_less(2) [OF le jm(1)])
qed

text \<open>What the worker does is a run of tame operations.\<close>

definition tamely :: "job_store \<Rightarrow> job_store \<Rightarrow> bool" where
  "tamely st st' \<longleftrightarrow> (\<exists>ops. st' = job_run ops st \<and> (\<forall>x\<in>set ops. tame (snd x)))"

lemma tamely_refl [simp]: "tamely st st"
  unfolding tamely_def by (rule exI [of _ "[]"]) simp

lemma tamely_trans: "tamely a b \<Longrightarrow> tamely b c \<Longrightarrow> tamely a c"
  unfolding tamely_def by (metis Un_iff job_run_simps(3) set_append)

lemma tamely_op: "tame op \<Longrightarrow> tamely st (job_step (now, op) st)"
  unfolding tamely_def by (rule exI [of _ "[(now, op)]"]) simp

lemma tamely_sound: "tamely st st' \<Longrightarrow> sound_store st \<Longrightarrow> sound_store st'"
  unfolding tamely_def using job_sound_run by blast

lemma budget_run: "sound_store st \<Longrightarrow> \<forall>x\<in>set ops. tame (snd x) \<Longrightarrow> attempts_left (job_run ops st) \<le> attempts_left st"
  unfolding job_run_def by (rule jobs.run_measure) (use budget_step(1) in fastforce)+

lemma budget_tamely: "tamely st st' \<Longrightarrow> sound_store st \<Longrightarrow> attempts_left st' \<le> attempts_left st"
  unfolding tamely_def using budget_run by blast

lemma tamely_play: "tamely st (fst (play_calls wk i calls st))"
proof (induction wk i calls st rule: play_calls.induct)
  case (2 wk i now stage pct d cs st)
  show ?case
  proof (cases "update_progress now i (wk_id wk) stage pct d st")
    case (Inr r)
    then have "tamely st (fst r)" using tamely_op [of "OpProgress i (wk_id wk) stage pct d" st now] by (simp add: case_prod_beta)
    with 2 Inr show ?thesis by (cases r) (auto intro: tamely_trans)
  qed simp
next
  case (3 wk i now cs st)
  then show ?case using tamely_op [of "OpHeartbeat i (wk_id wk) (wk_lease wk)" st now] by (auto intro: tamely_trans)
next
  case (4 wk i now cs st)
  then show ?case using tamely_op [of "OpCancel i" st now] by (auto intro: tamely_trans)
qed simp

lemma tamely_run_job: "tamely st (run_job wk hr job st)"
proof -
  let ?st = "fst (play_calls wk (mj_id job) (hr_calls hr) st)"
  have f: "tamely s (fst (fail n i w e s))" "tamely s (fst (mark_cancelled n i w s))" "tamely s (fst (complete n i w r s))" for n i w e r s
    using tamely_op [of "OpFail i w e" s n] tamely_op [of "OpMarkCancelled i w" s n] tamely_op [of "OpComplete i w r" s n] by simp_all
  show ?thesis
    using f tamely_trans [OF tamely_play [of st wk "mj_id job" "hr_calls hr"]]
    by (auto simp: run_job_def Let_def case_prod_beta split: handler_outcome.split option.split)
qed

lemma tamely_fold: "tamely st (foldl (\<lambda>s j. run_job wk (script j) j s) st batch)"
proof (induction batch arbitrary: st)
  case (Cons j batch)
  show ?case using tamely_trans [OF tamely_run_job Cons.IH] by simp
qed simp

lemma claim_budget:
  assumes "claim_next now w types l st = Inr (st', r)" "sound_store st"
  shows "tamely st st' \<and> (r \<noteq> None \<longrightarrow> attempts_left st' < attempts_left st)"
proof -
  have st': "job_step (now, OpClaim w types l) st = st'" using assms(1) by simp
  have "attempts_left st' < attempts_left st" if "r = Some j" for j
    using budget_step(2) [OF assms(2), of "OpClaim w types l" "mj_id j" now] assms(1) that by (simp add: claims_job_def)
  with tamely_op [of "OpClaim w types l" st now] st' show ?thesis by auto
qed

lemma claim_batch_budget:
  "claim_batch n now types wk st = Inr (st', batch) \<Longrightarrow> sound_store st \<Longrightarrow> tamely st st' \<and> attempts_left st' + length batch \<le> attempts_left st"
proof (induction n arbitrary: st batch)
  case (Suc n)
  from Suc.prems(1) obtain r s1 where c: "claim_next now (JStr (wk_id wk)) types (wk_lease wk) st = Inr (s1, r)"
    by (auto split: sum.splits)
  note b = claim_budget [OF c Suc.prems(2)]
  show ?case
  proof (cases r)
    case None
    with Suc.prems(1) c b budget_tamely [of st s1] Suc.prems(2) show ?thesis by auto
  next
    case (Some j)
    with Suc.prems(1) c obtain js where js: "claim_batch n now types wk s1 = Inr (st', js)" "batch = j # js" by (auto split: sum.splits)
    have "sound_store s1" using b tamely_sound Suc.prems(2) by blast
    from Suc.IH [OF js(1) this] b Some js(2) show ?thesis by (auto intro: tamely_trans)
  qed
qed simp


subsection \<open>A job and two workers\<close>

definition encode_request :: jsval where
  "encode_request = JObj [(''workspaceId'', JStr ''ws''), (''jobType'', JStr ''encode''), (''idempotencyKey'', JStr ''k''), (''maxAttempts'', jint 1)]"

definition one_queued :: job_store where
  "one_queued = job_run [(100, OpEnqueue ''j1'' encode_request)] no_jobs"

definition one_running :: job_store where
  "one_running = job_run [(100, OpEnqueue ''j1'' encode_request), (100, OpClaim (JStr ''a'') JUndef (jint 10))] no_jobs"

definition row_holds :: "string \<Rightarrow> (media_job \<Rightarrow> bool) \<Rightarrow> job_store \<Rightarrow> bool" where
  "row_holds i P st = (case job_of i st of None \<Rightarrow> False | Some j \<Rightarrow> P j)"

lemma row_holds_Some: "row_holds i P st \<longleftrightarrow> (\<exists>j. job_of i st = Some j \<and> P j)"
  by (simp add: row_holds_def split: option.split)

lemma one_running_held:
  "row_holds ''j1'' (\<lambda>j. held_running ''a'' j \<and> mj_lease j = Some (Fin 110) \<and> mj_max j = 1 \<and> mj_attempts j = 1 \<and> \<not> mj_cancel j) one_running"
  by code_simp

lemma one_sound: "sound_store one_running" "sound_store one_queued"
  by (simp_all add: one_running_def one_queued_def job_sound_run del: job_run_simps)

theorem lease_exclusive_witness:
  "row_holds ''j1'' (held_running ''a'') (job_run [(105, OpClaim (JStr ''b'') JUndef JUndef), (106, OpCancel ''j1''), (107, OpSettle)] one_running)"
proof -
  from one_running_held obtain j where j: "job_of ''j1'' one_running = Some j" "held_running ''a'' j" "mj_lease j = Some (Fin 110)"
    unfolding row_holds_Some by blast
  from lease_exclusive [OF one_sound(1) j, of "[(105, OpClaim (JStr ''b'') JUndef JUndef), (106, OpCancel ''j1''), (107, OpSettle)]"]
  show ?thesis unfolding row_holds_Some by (auto simp del: job_run_simps)
qed

theorem last_attempt_stays_running_witness:
  "row_holds ''j1'' (held_running ''a'') (job_run [(500, OpClaim (JStr ''b'') JUndef JUndef), (501, OpRetry ''j1'' True), (502, OpSettle)] one_running)"
proof -
  from one_running_held obtain j where j: "job_of ''j1'' one_running = Some j" "held_running ''a'' j"
    and m: "mj_max j \<le> of_nat (mj_attempts j)" "\<not> mj_cancel j" unfolding row_holds_Some by auto
  from last_attempt_stays_running [OF one_sound(1) j m, of "[(500, OpClaim (JStr ''b'') JUndef JUndef), (501, OpRetry ''j1'' True), (502, OpSettle)]"] j
  show ?thesis unfolding row_holds_Some by simp
qed

definition one_done :: job_store where
  "one_done = job_run [(105, OpComplete ''j1'' ''a'' JNull)] one_running"

lemma one_done_row: "row_holds ''j1'' (\<lambda>j. mj_status j = JobCompleted) one_done"
  by code_simp

theorem settled_jobs_final_witness:
  "row_holds ''j1'' (\<lambda>j. mj_status j = JobCompleted) (job_run [(600, OpCancel ''j1''), (601, OpRetry ''j1'' True)] one_done)"
proof -
  from one_done_row obtain j where j: "job_of ''j1'' one_done = Some j" "mj_status j \<in> {JobCompleted, JobCancelled}" "mj_status j = JobCompleted"
    unfolding row_holds_Some by auto
  have "sound_store one_done" unfolding one_done_def by (rule job_sound_run [OF one_sound(1)])
  from settled_jobs_final [OF this j(1,2)] j(3) show ?thesis unfolding row_holds_Some by blast
qed

theorem claims_bounded_witness:
  "claim_count ''j1'' (replicate 50 (200, OpClaim (JStr ''b'') JUndef JUndef)) one_queued \<le> 20"
proof -
  have "row_holds ''j1'' (\<lambda>j. True) one_queued" by code_simp
  then obtain j where j: "job_of ''j1'' one_queued = Some j" unfolding row_holds_Some by blast
  from claims_bounded [OF one_sound(2) j, of "replicate 50 (200, OpClaim (JStr ''b'') JUndef JUndef)"] show ?thesis by simp
qed

definition queued_result :: "string + (job_store \<times> media_job \<times> bool)" where
  "queued_result = enqueue 100 ''j1'' encode_request no_jobs"

theorem enqueue_once_witness:
  "\<exists>st j. queued_result = Inr (st, j, True) \<and> (\<exists>j'. enqueue 300 ''j2'' encode_request (job_run [(200, OpCancel ''j1'')] st)
     = Inr (job_run [(200, OpCancel ''j1'')] st, j', False) \<and> mj_id j' = mj_id j)"
proof -
  have "case queued_result of Inl e \<Rightarrow> False | Inr (st, j, c) \<Rightarrow> c" by code_simp
  then obtain st j where q: "queued_result = Inr (st, j, True)" by (auto split: sum.splits prod.splits)
  have f: "fld encode_request ''idempotencyKey'' = JStr ''k''" "fld encode_request ''jobType'' = JStr ''encode''" by code_simp+
  from enqueue_once [OF no_jobs_sound q [unfolded queued_result_def] _ _ refl refl, of 300 "''j2''" "[(200, OpCancel ''j1'')]"] f q
  show ?thesis by (auto simp del: job_run_simps)
qed

definition idle_run :: handler_run where
  "idle_run = \<lparr>hr_calls = [], hr_end = 200, hr_outcome = Threw (JObj [])\<rparr>"


theorem accepted_stage_rejected_witness:
  "\<exists>j. update_progress 105 (mj_id j) ''a'' (JStr ''downloading'') (jint 10) JNull \<lparr>ms_jobs = [j], ms_events = []\<rparr>
     = Inl ''CHECK constraint failed''"
proof -
  from one_running_held obtain j where "held_running ''a'' j" "\<not> mj_cancel j" unfolding row_holds_Some by blast
  from accepted_stage_rejected [OF this, of "''downloading''"] show ?thesis by auto
qed

end
