(* ===== verification/ScreenShare.thy ===== *)
theory ScreenShare
  imports Prelude Machines
begin

text \<open>
  Signalling for screen sharing (\<open>server/ws/screen-share-signaling.js\<close>): one session per display, owned by the socket of a
  dashboard, kept through short disconnections, and relayed only between its two ends.

  The state holds \<open>activeSessions\<close>, the connected dashboard sockets with their users and the data the module keeps on a
  socket, and the displays that are connected. Every handler is a function of the clock, in milliseconds, that returns the
  new state and what it emits; an acknowledgement is emitted whether or not the client asked for one. Whether a socket may
  act on a display is the parameter \<open>can_act\<close>. Session descriptions and candidates are opaque values.
\<close>

subsection \<open>State\<close>

definition ice_candidate_burst :: nat where "ice_candidate_burst = 100"
definition ice_candidate_window_ms :: int where "ice_candidate_window_ms = 10000"
definition broadcaster_reconnect_grace_ms :: int where "broadcaster_reconnect_grace_ms = 30000"
definition relay_frame_min_interval_ms :: int where "relay_frame_min_interval_ms = 120"
definition relay_frame_max_base64_chars :: nat where "relay_frame_max_base64_chars = 1200000"
definition relay_frame_max_targets :: nat where "relay_frame_max_targets = 16"

definition allowed_fit_modes :: "string list" where
  "allowed_fit_modes = [''auto'', ''contain'', ''cover'', ''fill'']"

record share_session =
  sh_socket :: string
  sh_user :: string
  sh_started :: int
  sh_gone :: "int option"
  sh_tile :: jsval
  sh_fit :: string
  sh_offer_at :: "int option"
  sh_answer_at :: "int option"
  sh_relay_at :: "int option"
  sh_frame_at :: "int option"
  sh_status :: "string option"
  sh_reason :: "string option"

record ice_bucket =
  ib_count :: nat
  ib_start :: int

record dash_socket =
  ds_user :: string
  ds_owned :: "string list"
  ds_bucket :: "ice_bucket option"
  ds_last_frame :: int

record share_state =
  sx_sessions :: "(string \<times> share_session) list"
  sx_dashboards :: "(string \<times> dash_socket) list"
  sx_rooms :: "string list"
  sx_device_buckets :: "(string \<times> ice_bucket) list"

datatype relay_message = ToDevice string string jsval | ToDashboard string string jsval | Answer jsval

definition share_of :: "jsval \<Rightarrow> share_state \<Rightarrow> share_session option" where
  "share_of v st = (case v of JStr d \<Rightarrow> map_of (sx_sessions st) d | _ \<Rightarrow> None)"

definition in_room :: "jsval \<Rightarrow> share_state \<Rightarrow> bool" where
  "in_room v st = (case v of JStr d \<Rightarrow> d \<in> set (sx_rooms st) | _ \<Rightarrow> False)"

definition put_session :: "string \<Rightarrow> share_session \<Rightarrow> share_state \<Rightarrow> share_state" where
  "put_session d s st = st\<lparr>sx_sessions := AList.update d s (sx_sessions st)\<rparr>"

definition drop_session :: "string \<Rightarrow> share_state \<Rightarrow> share_state" where
  "drop_session d st = st\<lparr>sx_sessions := AList.delete d (sx_sessions st)\<rparr>"

text \<open>A change to the data of a connected socket.\<close>

definition on_socket :: "string \<Rightarrow> (dash_socket \<Rightarrow> dash_socket) \<Rightarrow> share_state \<Rightarrow> share_state" where
  "on_socket k f st = st\<lparr>sx_dashboards := AList.map_entry k f (sx_dashboards st)\<rparr>"

definition own :: "string \<Rightarrow> dash_socket \<Rightarrow> dash_socket" where
  "own d k = k\<lparr>ds_owned := (if d \<in> set (ds_owned k) then ds_owned k else ds_owned k @ [d])\<rparr>"

definition disown :: "string \<Rightarrow> dash_socket \<Rightarrow> dash_socket" where
  "disown d k = k\<lparr>ds_owned := filter (\<lambda>e. e \<noteq> d) (ds_owned k)\<rparr>"

definition refused :: "string \<Rightarrow> relay_message" where
  "refused error = Answer (JObj [(''ok'', JBool False), (''error'', JStr error)])"

definition accepted :: relay_message where
  "accepted = Answer (JObj [(''ok'', JBool True)])"

subsection \<open>The reaper and the flood guard\<close>

definition expired_grace :: "int \<Rightarrow> share_session \<Rightarrow> bool" where
  "expired_grace now s = (case sh_gone s of None \<Rightarrow> False | Some t \<Rightarrow> \<not> (now - t < broadcaster_reconnect_grace_ms))"

definition reap_sessions :: "int \<Rightarrow> share_state \<Rightarrow> share_state \<times> relay_message list" where
  "reap_sessions now st =
     (st\<lparr>sx_sessions := filter (\<lambda>(d, s). \<not> expired_grace now s) (sx_sessions st)\<rparr>,
      map (\<lambda>(d, s). ToDevice d ''device:screen-share-end'' (JObj [(''reason'', JStr ''broadcaster_disconnect_grace_expired'')]))
        (filter (\<lambda>(d, s). expired_grace now s) (sx_sessions st)))"

definition allow_ice_candidate :: "int \<Rightarrow> ice_bucket option \<Rightarrow> ice_bucket \<times> bool" where
  "allow_ice_candidate now bucket =
     (let b = (case bucket of None \<Rightarrow> \<lparr>ib_count = 0, ib_start = now\<rparr> | Some b \<Rightarrow> b);
          b = (if ice_candidate_window_ms < now - ib_start b then \<lparr>ib_count = 0, ib_start = now\<rparr> else b);
          b = b\<lparr>ib_count := Suc (ib_count b)\<rparr>
      in (b, ib_count b \<le> ice_candidate_burst))"

subsection \<open>Dashboard to display\<close>

definition finite_rect :: "jsval \<Rightarrow> bool" where
  "finite_rect r \<longleftrightarrow> truthy r \<and> list_all (\<lambda>k. case fld r k of JNum n \<Rightarrow> is_finite n | _ \<Rightarrow> False) [''x'', ''y'', ''w'', ''h'']
     \<and> list_all (\<lambda>k. case fld r k of JNum (Fin q) \<Rightarrow> 0 < q | _ \<Rightarrow> False) [''w'', ''h'']"

definition safe_wall_tile :: "jsval \<Rightarrow> jsval" where
  "safe_wall_tile v =
     (if is_object v \<and> finite_rect (fld v ''screen_rect'') \<and> finite_rect (fld v ''player_rect'')
      then JObj [(''screen_rect'', JObj (obj_fields (fld v ''screen_rect''))), (''player_rect'', JObj (obj_fields (fld v ''player_rect'')))]
      else JNull)"

definition safe_fit_mode :: "jsval \<Rightarrow> string" where
  "safe_fit_mode v = (case v of JStr s \<Rightarrow> if s \<in> set allowed_fit_modes then s else ''auto'' | _ \<Rightarrow> ''auto'')"

definition preempt :: "string \<Rightarrow> string \<Rightarrow> share_state \<Rightarrow> share_state \<times> relay_message list" where
  "preempt k d st =
     (case map_of (sx_sessions st) d of
        None \<Rightarrow> (st, [])
      | Some old \<Rightarrow>
          if sh_socket old \<noteq> k \<and> map_of (sx_dashboards st) (sh_socket old) \<noteq> None \<and> sh_gone old = None
          then (on_socket (sh_socket old) (disown d) st,
                [ToDashboard (sh_socket old) ''screen-share:preempted'' (JObj [(''device_id'', JStr d)])])
          else (st, []))"

definition share_start :: "(string \<Rightarrow> jsval \<Rightarrow> bool) \<Rightarrow> int \<Rightarrow> string \<Rightarrow> dash_socket \<Rightarrow> jsval \<Rightarrow> share_state \<Rightarrow> share_state \<times> relay_message list" where
  "share_start can_act now k sock data st =
     (let v = fld data ''device_id'' in
      if \<not> truthy v then (st, [refused ''device_id required''])
      else if \<not> can_act k v then (st, [refused ''forbidden''])
      else if \<not> in_room v st then (st, [refused ''device_offline''])
      else (let d = to_str v; tile = safe_wall_tile (fld data ''wall_tile''); fit = safe_fit_mode (fld data ''fit_mode'');
                (st1, told) = preempt k d st;
                s = \<lparr>sh_socket = k, sh_user = ds_user sock, sh_started = now, sh_gone = None, sh_tile = tile, sh_fit = fit,
                     sh_offer_at = None, sh_answer_at = None, sh_relay_at = None, sh_frame_at = None, sh_status = None, sh_reason = None\<rparr>
            in (on_socket k (own d) (put_session d s st1),
                told @ [ToDevice d ''device:screen-share-start'' (JObj [(''broadcaster_socket'', JStr k), (''wall_tile'', tile),
                  (''fit_mode'', JStr fit)]), accepted])))"

definition share_offer :: "(string \<Rightarrow> jsval \<Rightarrow> bool) \<Rightarrow> int \<Rightarrow> string \<Rightarrow> jsval \<Rightarrow> share_state \<Rightarrow> share_state \<times> relay_message list" where
  "share_offer can_act now k data st =
     (let v = fld data ''device_id''; sdp = fld data ''sdp'' in
      if \<not> truthy v \<or> \<not> truthy sdp then (st, [refused ''device_id and sdp required''])
      else (case share_of v st of
          None \<Rightarrow> (st, [refused ''no_active_session''])
        | Some s \<Rightarrow>
            if sh_socket s \<noteq> k then (st, [refused ''no_active_session''])
            else if \<not> can_act k v then (st, [refused ''forbidden''])
            else (put_session (to_str v) (s\<lparr>sh_offer_at := Some now\<rparr>) st,
                  [ToDevice (to_str v) ''device:screen-share-offer'' (JObj [(''sdp'', sdp)]), accepted])))"

text \<open>One frame to one target: the display, when the socket owns its session.\<close>

definition relay_to :: "(string \<Rightarrow> jsval \<Rightarrow> bool) \<Rightarrow> string \<Rightarrow> share_state \<Rightarrow> string \<Rightarrow> bool" where
  "relay_to can_act k st d \<longleftrightarrow> (case map_of (sx_sessions st) d of None \<Rightarrow> False | Some s \<Rightarrow> sh_socket s = k)
     \<and> can_act k (JStr d) \<and> d \<in> set (sx_rooms st)"

definition relayed :: "int \<Rightarrow> share_session \<Rightarrow> share_session" where
  "relayed now s = s\<lparr>sh_relay_at := (case sh_relay_at s of None \<Rightarrow> Some now | Some t \<Rightarrow> Some t), sh_frame_at := Some now\<rparr>"

definition frame_targets :: "jsval \<Rightarrow> string list" where
  "frame_targets ids = dedup (filter (\<lambda>s. s \<noteq> []) (map (\<lambda>v. to_str (js_or v (JStr []))) (array_items ids)))"

definition share_frame :: "(string \<Rightarrow> jsval \<Rightarrow> bool) \<Rightarrow> int \<Rightarrow> string \<Rightarrow> dash_socket \<Rightarrow> jsval \<Rightarrow> share_state \<Rightarrow> share_state \<times> relay_message list" where
  "share_frame can_act now k sock data st =
     (let ids = array_items (fld data ''device_ids'') in
      if ids = [] \<or> relay_frame_max_targets < length ids then (st, [refused ''invalid_targets''])
      else (case fld data ''image_b64'' of
          JStr img \<Rightarrow>
            if length img < 100 \<or> relay_frame_max_base64_chars < length img then (st, [refused ''invalid_frame''])
            else if now - ds_last_frame sock < relay_frame_min_interval_ms then (st, [refused ''rate_limited''])
            else (let targets = filter (relay_to can_act k st) (frame_targets (fld data ''device_ids''));
                      st1 = on_socket k (\<lambda>q. q\<lparr>ds_last_frame := now\<rparr>) st;
                      st2 = st1\<lparr>sx_sessions := map (\<lambda>(d, s). (d, if d \<in> set targets then relayed now s else s)) (sx_sessions st1)\<rparr>;
                      shot = (if num_truthy (to_num (fld data ''captured_at'')) then to_num (fld data ''captured_at'') else Fin (of_int now))
                  in (st2, map (\<lambda>d. ToDevice d ''device:screen-share-frame''
                                  (JObj [(''image_b64'', JStr img), (''captured_at'', JNum shot)])) targets
                        @ [Answer (JObj [(''ok'', JBool (targets \<noteq> [])), (''delivered'', jint (int (length targets)))])]))
        | _ \<Rightarrow> (st, [refused ''invalid_frame''])))"

definition share_ice :: "(string \<Rightarrow> jsval \<Rightarrow> bool) \<Rightarrow> int \<Rightarrow> string \<Rightarrow> dash_socket \<Rightarrow> jsval \<Rightarrow> share_state \<Rightarrow> share_state \<times> relay_message list" where
  "share_ice can_act now k sock data st =
     (let v = fld data ''device_id''; candidate = fld data ''candidate'' in
      if \<not> truthy v \<or> \<not> truthy candidate then (st, [])
      else (let (b, ok) = allow_ice_candidate now (ds_bucket sock); st1 = on_socket k (\<lambda>q. q\<lparr>ds_bucket := Some b\<rparr>) st in
        if \<not> ok then (st1, [])
        else (case share_of v st of
            None \<Rightarrow> (st1, [])
          | Some s \<Rightarrow> if sh_socket s \<noteq> k \<or> \<not> can_act k v then (st1, [])
              else (st1, [ToDevice (to_str v) ''device:screen-share-ice-candidate'' (JObj [(''candidate'', candidate)])]))))"

definition share_stop :: "(string \<Rightarrow> jsval \<Rightarrow> bool) \<Rightarrow> string \<Rightarrow> dash_socket \<Rightarrow> jsval \<Rightarrow> share_state \<Rightarrow> share_state \<times> relay_message list" where
  "share_stop can_act k sock data st =
     (let v = fld data ''device_id'' in
      if \<not> truthy v then (st, [refused ''device_id required''])
      else (case share_of v st of
          None \<Rightarrow> (st, [Answer (JObj [(''ok'', JBool True), (''already_ended'', JBool True)])])
        | Some s \<Rightarrow>
            if sh_socket s \<noteq> k \<and> \<not> (sh_gone s \<noteq> None \<and> sh_user s = ds_user sock) then (st, [refused ''not_session_owner''])
            else if \<not> can_act k v then (st, [refused ''forbidden''])
            else (on_socket k (disown (to_str v)) (drop_session (to_str v) st),
                  [ToDevice (to_str v) ''device:screen-share-end'' (JObj []), accepted])))"

definition share_resume :: "(string \<Rightarrow> jsval \<Rightarrow> bool) \<Rightarrow> string \<Rightarrow> dash_socket \<Rightarrow> jsval \<Rightarrow> share_state \<Rightarrow> share_state \<times> relay_message list" where
  "share_resume can_act k sock data st =
     (let v = fld data ''device_id'' in
      if \<not> truthy v then (st, [refused ''device_id required''])
      else (case share_of v st of
          None \<Rightarrow> (st, [refused ''no_active_session''])
        | Some s \<Rightarrow>
            if sh_user s \<noteq> ds_user sock then (st, [refused ''not_session_owner''])
            else if \<not> can_act k v then (st, [refused ''forbidden''])
            else (on_socket k (own (to_str v)) (put_session (to_str v) (s\<lparr>sh_socket := k, sh_gone := None\<rparr>) st), [accepted])))"

definition share_connect :: "string \<Rightarrow> string \<Rightarrow> share_state \<Rightarrow> share_state" where
  "share_connect k user st = st\<lparr>sx_dashboards := AList.update k
     \<lparr>ds_user = user, ds_owned = [], ds_bucket = None, ds_last_frame = 0\<rparr> (sx_dashboards st)\<rparr>"

text \<open>The socket is gone from the namespace when its sessions are marked.\<close>

definition share_disconnect :: "int \<Rightarrow> string \<Rightarrow> dash_socket \<Rightarrow> share_state \<Rightarrow> share_state" where
  "share_disconnect now k sock st = st\<lparr>sx_dashboards := AList.delete k (sx_dashboards st),
     sx_sessions := map (\<lambda>(d, s). (d, if d \<in> set (ds_owned sock) \<and> sh_socket s = k then s\<lparr>sh_gone := Some now\<rparr> else s)) (sx_sessions st)\<rparr>"

subsection \<open>Display to dashboard\<close>

text \<open>The session of a registered display and its broadcaster, when that is connected.\<close>

definition with_broadcaster :: "string option \<Rightarrow> share_state \<Rightarrow> (string \<times> share_session) option" where
  "with_broadcaster dev st = (case dev of None \<Rightarrow> None | Some d \<Rightarrow>
     (case map_of (sx_sessions st) d of None \<Rightarrow> None | Some s \<Rightarrow>
        if map_of (sx_dashboards st) (sh_socket s) = None then None else Some (d, s)))"

definition device_answer :: "int \<Rightarrow> string option \<Rightarrow> jsval \<Rightarrow> share_state \<Rightarrow> share_state \<times> relay_message list" where
  "device_answer now dev data st =
     (if \<not> truthy (fld data ''sdp'') then (st, [])
      else (case with_broadcaster dev st of
          None \<Rightarrow> (st, [])
        | Some (d, s) \<Rightarrow> (put_session d (s\<lparr>sh_answer_at := Some now\<rparr>) st,
            [ToDashboard (sh_socket s) ''screen-share:answer'' (JObj [(''device_id'', JStr d), (''sdp'', fld data ''sdp'')])])))"

definition device_ice :: "int \<Rightarrow> string \<Rightarrow> string option \<Rightarrow> jsval \<Rightarrow> share_state \<Rightarrow> share_state \<times> relay_message list" where
  "device_ice now k dev data st =
     (if dev = None \<or> \<not> truthy (fld data ''candidate'') then (st, [])
      else (let (b, ok) = allow_ice_candidate now (map_of (sx_device_buckets st) k);
                st1 = st\<lparr>sx_device_buckets := AList.update k b (sx_device_buckets st)\<rparr>
            in if \<not> ok then (st1, [])
               else (case with_broadcaster dev st of
                   None \<Rightarrow> (st1, [])
                 | Some (d, s) \<Rightarrow> (st1, [ToDashboard (sh_socket s) ''screen-share:device-ice-candidate''
                     (JObj [(''device_id'', JStr d), (''candidate'', fld data ''candidate'')])]))))"

definition device_ended :: "string option \<Rightarrow> share_state \<Rightarrow> share_state \<times> relay_message list" where
  "device_ended dev st = (case dev of None \<Rightarrow> (st, []) | Some d \<Rightarrow>
     (case map_of (sx_sessions st) d of None \<Rightarrow> (st, []) | Some s \<Rightarrow>
        (drop_session d (on_socket (sh_socket s) (disown d) st),
         (if map_of (sx_dashboards st) (sh_socket s) = None then []
          else [ToDashboard (sh_socket s) ''screen-share:ended-by-device'' (JObj [(''device_id'', JStr d)])]))))"

definition device_status :: "string option \<Rightarrow> jsval \<Rightarrow> share_state \<Rightarrow> share_state \<times> relay_message list" where
  "device_status dev data st = (case dev of None \<Rightarrow> (st, []) | Some d \<Rightarrow>
     (case map_of (sx_sessions st) d of None \<Rightarrow> (st, []) | Some s \<Rightarrow>
        (let status = take 64 (to_str (js_or (fld data ''status'') (JStr ''unknown'')));
             reason = take 160 (to_str (js_or (fld data ''reason'') (JStr [])))
         in (put_session d (s\<lparr>sh_status := Some status, sh_reason := Some reason\<rparr>) st,
             (if map_of (sx_dashboards st) (sh_socket s) = None then []
              else [ToDashboard (sh_socket s) ''screen-share:receiver-status'' (JObj [(''device_id'', JStr d),
                (''status'', JStr status), (''reason'', js_or (JStr reason) JNull)])])))))"

subsection \<open>Histories\<close>

datatype share_event =
    DashConnects string string
  | DashStarts string jsval
  | DashOffers string jsval
  | DashFrame string jsval
  | DashIce string jsval
  | DashStops string jsval
  | DashResumes string jsval
  | DashDisconnects string
  | DevAnswers "string option" jsval
  | DevIce string "string option" jsval
  | DevEnds "string option"
  | DevStatus "string option" jsval
  | DevRooms "string list"
  | ReaperRuns

text \<open>Only a connected socket has events; a socket id connects once. The registry of displays is outside: an event of a display
  carries the id it is registered under, if any, and its rooms change freely.\<close>

fun share_step :: "(string \<Rightarrow> jsval \<Rightarrow> bool) \<Rightarrow> int \<times> share_event \<Rightarrow> share_state \<Rightarrow> share_state \<times> relay_message list" where
  "share_step can_act (now, DashConnects k user) st = (if map_of (sx_dashboards st) k = None then (share_connect k user st, []) else (st, []))"
| "share_step can_act (now, DashStarts k data) st =
     (case map_of (sx_dashboards st) k of None \<Rightarrow> (st, []) | Some sock \<Rightarrow> share_start can_act now k sock data st)"
| "share_step can_act (now, DashOffers k data) st =
     (case map_of (sx_dashboards st) k of None \<Rightarrow> (st, []) | Some sock \<Rightarrow> share_offer can_act now k data st)"
| "share_step can_act (now, DashFrame k data) st =
     (case map_of (sx_dashboards st) k of None \<Rightarrow> (st, []) | Some sock \<Rightarrow> share_frame can_act now k sock data st)"
| "share_step can_act (now, DashIce k data) st =
     (case map_of (sx_dashboards st) k of None \<Rightarrow> (st, []) | Some sock \<Rightarrow> share_ice can_act now k sock data st)"
| "share_step can_act (now, DashStops k data) st =
     (case map_of (sx_dashboards st) k of None \<Rightarrow> (st, []) | Some sock \<Rightarrow> share_stop can_act k sock data st)"
| "share_step can_act (now, DashResumes k data) st =
     (case map_of (sx_dashboards st) k of None \<Rightarrow> (st, []) | Some sock \<Rightarrow> share_resume can_act k sock data st)"
| "share_step can_act (now, DashDisconnects k) st =
     (case map_of (sx_dashboards st) k of None \<Rightarrow> (st, []) | Some sock \<Rightarrow> (share_disconnect now k sock st, []))"
| "share_step can_act (now, DevAnswers dev data) st = device_answer now dev data st"
| "share_step can_act (now, DevIce k dev data) st = device_ice now k dev data st"
| "share_step can_act (now, DevEnds dev) st = device_ended dev st"
| "share_step can_act (now, DevStatus dev data) st = device_status dev data st"
| "share_step can_act (now, DevRooms ds) st = (st\<lparr>sx_rooms := ds\<rparr>, [])"
| "share_step can_act (now, ReaperRuns) st = reap_sessions now st"

definition time_or_null :: "int option \<Rightarrow> jsval" where
  "time_or_null t = (case t of None \<Rightarrow> JNull | Some n \<Rightarrow> if n = 0 then JNull else jint n)"

definition active_sessions :: "share_state \<Rightarrow> jsval list" where
  "active_sessions st = map (\<lambda>(d, s). JObj [(''device_id'', JStr d), (''broadcaster_socket'', JStr (sh_socket s)),
     (''started_at'', jint (sh_started s)), (''disconnected_at'', (case sh_gone s of None \<Rightarrow> JNull | Some t \<Rightarrow> jint t)), (''offer_at'', time_or_null (sh_offer_at s)),
     (''answer_at'', time_or_null (sh_answer_at s)), (''relay_started_at'', time_or_null (sh_relay_at s)),
     (''last_frame_at'', time_or_null (sh_frame_at s)),
     (''receiver_status'', (case sh_status s of None \<Rightarrow> JNull | Some x \<Rightarrow> js_or (JStr x) JNull))]) (sx_sessions st)"

definition no_shares :: share_state where
  "no_shares = \<lparr>sx_sessions = [], sx_dashboards = [], sx_rooms = [], sx_device_buckets = []\<rparr>"

definition share_run :: "(string \<Rightarrow> jsval \<Rightarrow> bool) \<Rightarrow> (int \<times> share_event) list \<Rightarrow> share_state \<Rightarrow> share_state" where
  "share_run can_act es st = run_events (\<lambda>e s. fst (share_step can_act e s)) es st"

subsection \<open>No orphans\<close>

text \<open>A session that is not marked as lost has a connected broadcaster that knows it owns the session.\<close>

definition attached :: "share_state \<Rightarrow> string \<Rightarrow> share_session \<Rightarrow> bool" where
  "attached st d s \<longleftrightarrow> (\<exists>sock. map_of (sx_dashboards st) (sh_socket s) = Some sock \<and> d \<in> set (ds_owned sock))"

definition no_orphans :: "share_state \<Rightarrow> bool" where
  "no_orphans st \<longleftrightarrow> (\<forall>d s. map_of (sx_sessions st) d = Some s \<longrightarrow> sh_gone s = None \<longrightarrow> attached st d s)"

lemma no_orphansD: "no_orphans st \<Longrightarrow> map_of (sx_sessions st) d = Some s \<Longrightarrow> sh_gone s = None \<Longrightarrow> attached st d s"
  by (simp add: no_orphans_def)

lemma on_socket_fields [simp]:
  "sx_sessions (on_socket k f st) = sx_sessions st" "sx_rooms (on_socket k f st) = sx_rooms st"
  "map_of (sx_dashboards (on_socket k f st)) j = (if j = k then map_option f (map_of (sx_dashboards st) k) else map_of (sx_dashboards st) j)"
  by (simp_all add: on_socket_def map_of_map_entry) (auto split: option.split)

lemma put_session_fields [simp]:
  "sx_dashboards (put_session d s st) = sx_dashboards st" "sx_rooms (put_session d s st) = sx_rooms st"
  "map_of (sx_sessions (put_session d s st)) e = (if e = d then Some s else map_of (sx_sessions st) e)"
  by (simp_all add: put_session_def update_conv')

lemma drop_session_fields [simp]:
  "sx_dashboards (drop_session d st) = sx_dashboards st" "sx_rooms (drop_session d st) = sx_rooms st"
  "map_of (sx_sessions (drop_session d st)) e = (if e = d then None else map_of (sx_sessions st) e)"
  by (simp_all add: drop_session_def delete_conv')

lemma owned_simps [simp]:
  "set (ds_owned (own d k)) = insert d (set (ds_owned k))" "set (ds_owned (disown d k)) = set (ds_owned k) - {d}"
  "ds_user (own d k) = ds_user k" "ds_user (disown d k) = ds_user k"
  by (auto simp: own_def disown_def)

text \<open>What keeps sessions attached: taking nothing away from the sockets, up to one display.\<close>

lemma attached_mono:
  assumes "attached st d s"
    and "\<And>k q. map_of (sx_dashboards st) k = Some q \<Longrightarrow> d \<in> set (ds_owned q) \<Longrightarrow>
           \<exists>q'. map_of (sx_dashboards st') k = Some q' \<and> d \<in> set (ds_owned q')"
  shows "attached st' d s"
  using assms unfolding attached_def by blast

lemma no_orphans_same:
  assumes "no_orphans st" "sx_dashboards st' = sx_dashboards st"
    and "\<And>d s'. map_of (sx_sessions st') d = Some s' \<Longrightarrow> sh_gone s' = None \<Longrightarrow>
           \<exists>s. map_of (sx_sessions st) d = Some s \<and> sh_socket s' = sh_socket s \<and> sh_gone s = None"
  shows "no_orphans st'"
  unfolding no_orphans_def attached_def assms(2) using assms(1,3) unfolding no_orphans_def attached_def by metis

lemma map_of_mapped: "map_of (map (\<lambda>(d, s). (d, f d s)) xs) d = map_option (f d) (map_of xs d)"
  by (induction xs) auto

lemma map_of_kept:
  assumes "distinct_keys xs"
  shows "map_of (filter (\<lambda>(d, s). P d s) xs) d = (case map_of xs d of None \<Rightarrow> None | Some s \<Rightarrow> if P d s then Some s else None)"
  using assms by (induction xs) (auto split: option.split simp: distinct_keys_def map_of_eq_None_iff image_iff)

definition sound_shares :: "share_state \<Rightarrow> bool" where
  "sound_shares st \<longleftrightarrow> no_orphans st \<and> distinct_keys (sx_sessions st) \<and> distinct_keys (sx_dashboards st)"

lemma distinct_put: "distinct_keys (sx_sessions st) \<Longrightarrow> distinct_keys (sx_sessions (put_session d s st))"
  by (simp add: put_session_def distinct_keys_def distinct_update)

lemma distinct_drop: "distinct_keys (sx_sessions st) \<Longrightarrow> distinct_keys (sx_sessions (drop_session d st))"
  by (simp add: drop_session_def distinct_keys_def distinct_delete)

lemma distinct_keys_mapped: "distinct_keys (map (\<lambda>(d, s). (d, f d s)) xs) \<longleftrightarrow> distinct_keys xs"
proof -
  have "map fst (map (\<lambda>(d, s). (d, f d s)) xs) = map fst xs" by auto
  then show ?thesis unfolding distinct_keys_def by metis
qed

lemma distinct_keys_update: "distinct_keys xs \<Longrightarrow> distinct_keys (AList.update k v xs)"
  and distinct_keys_delete: "distinct_keys xs \<Longrightarrow> distinct_keys (AList.delete k xs)"
  unfolding distinct_keys_def by (rule distinct_update, assumption, rule distinct_delete)

lemma keys_map_entry [simp]: "map fst (AList.map_entry k f xs) = map fst xs"
  by (induction xs) auto

lemma keys_on_socket [simp]: "distinct_keys (sx_dashboards (on_socket k f st)) \<longleftrightarrow> distinct_keys (sx_dashboards st)"
  by (simp add: on_socket_def distinct_keys_def)

lemma start_sound:
  assumes "sound_shares st" "map_of (sx_dashboards st) k = Some sock"
  shows "sound_shares (fst (share_start can_act now k sock data st))"
proof -
  let ?v = "fld data ''device_id''"
  show ?thesis
  proof (cases "truthy ?v \<and> can_act k ?v \<and> in_room ?v st")
    case False
    then show ?thesis using assms by (auto simp: share_start_def Let_def)
  next
    case True
    define d where "d = to_str ?v"
    define st1 where "st1 = fst (preempt k d st)"
    obtain s where s: "fst (share_start can_act now k sock data st) = on_socket k (own d) (put_session d s st1)" "sh_socket s = k"
      using True by (auto simp: share_start_def Let_def d_def st1_def case_prod_beta)
    have st1: "sx_sessions st1 = sx_sessions st" "distinct_keys (sx_dashboards st1) \<longleftrightarrow> distinct_keys (sx_dashboards st)"
      "\<exists>q. map_of (sx_dashboards st1) k = Some q"
      using assms(2) by (auto simp: st1_def preempt_def split: option.split)
    have keep: "\<exists>q'. map_of (sx_dashboards st1) j = Some q' \<and> e \<in> set (ds_owned q')"
      if "map_of (sx_dashboards st) j = Some q" "e \<in> set (ds_owned q)" "e \<noteq> d" for j q e
      using that by (auto simp: st1_def preempt_def split: option.split)
    have "no_orphans (on_socket k (own d) (put_session d s st1))"
    proof (unfold no_orphans_def, intro allI impI)
      fix e t assume e: "map_of (sx_sessions (on_socket k (own d) (put_session d s st1))) e = Some t" "sh_gone t = None"
      show "attached (on_socket k (own d) (put_session d s st1)) e t"
      proof (cases "e = d")
        case True
        then show ?thesis using e s(2) st1(3) by (auto simp: attached_def)
      next
        case False
        with e st1(1) have "attached st e t" using assms(1) by (auto simp: sound_shares_def no_orphans_def)
        then have "attached st1 e t" by (rule attached_mono) (use keep False in blast)
        then show ?thesis by (rule attached_mono) auto
      qed
    qed
    then show ?thesis
      using assms(1) st1 distinct_put [of st1 d s] unfolding s sound_shares_def by simp
  qed
qed

lemma share_frame_cases:
  obtains "fst (share_frame can_act now k sock data st) = st"
    | T where "fst (share_frame can_act now k sock data st) =
        (on_socket k (\<lambda>q. q\<lparr>ds_last_frame := now\<rparr>) st)\<lparr>sx_sessions :=
          map (\<lambda>(d, s). (d, if d \<in> set T then relayed now s else s)) (sx_sessions st)\<rparr>"
proof -
  let ?ids = "array_items (fld data ''device_ids'')"
  let ?T = "filter (relay_to can_act k st) (frame_targets (fld data ''device_ids''))"
  consider "?ids = [] \<or> relay_frame_max_targets < length ?ids"
    | "\<not> (?ids = [] \<or> relay_frame_max_targets < length ?ids)" "\<nexists>img. fld data ''image_b64'' = JStr img"
    | img where "\<not> (?ids = [] \<or> relay_frame_max_targets < length ?ids)" "fld data ''image_b64'' = JStr img"
    by blast
  then show thesis
  proof cases
    case 1
    then show ?thesis by (intro that(1)) (simp only: share_frame_def Let_def if_True fst_conv)
  next
    case 2
    then show ?thesis
      by (intro that(1)) (cases "fld data ''image_b64''"; simp only: share_frame_def Let_def jsval.case if_False fst_conv jsval.inject; simp)
  next
    case 3
    let ?bad = "length img < 100 \<or> relay_frame_max_base64_chars < length img" and ?soon = "now - ds_last_frame sock < relay_frame_min_interval_ms"
    show ?thesis
    proof (cases "?bad \<or> ?soon")
      case True
      then show ?thesis using 3
        by (intro that(1)) (cases ?bad; simp only: share_frame_def Let_def jsval.case if_False if_True fst_conv simp_thms)
    next
      case False
      then show ?thesis using 3
        by (intro that(2) [of ?T])
          (simp only: share_frame_def Let_def jsval.case if_False fst_conv simp_thms if_not_P [of ?bad] if_not_P [of ?soon] de_Morgan_disj on_socket_fields not_False_eq_True)
    qed
  qed
qed

lemma frame_sound:
  assumes "sound_shares st"
  shows "sound_shares (fst (share_frame can_act now k sock data st))"
proof -
  let ?f = "\<lambda>T d s. if d \<in> set T then relayed now s else s"
  have rel: "sh_socket (?f T d s) = sh_socket s" "sh_gone (?f T d s) = sh_gone s" for T d s by (simp_all add: relayed_def)
  consider "fst (share_frame can_act now k sock data st) = st"
    | T where "fst (share_frame can_act now k sock data st) =
        (on_socket k (\<lambda>q. q\<lparr>ds_last_frame := now\<rparr>) st)\<lparr>sx_sessions := map (\<lambda>(d, s). (d, ?f T d s)) (sx_sessions st)\<rparr>"
    by (rule share_frame_cases)
  then show ?thesis
  proof cases
    case 1
    then show ?thesis using assms by simp
  next
    case 2
    let ?st = "(on_socket k (\<lambda>q. q\<lparr>ds_last_frame := now\<rparr>) st)\<lparr>sx_sessions := map (\<lambda>(d, s). (d, ?f T d s)) (sx_sessions st)\<rparr>"
    have "no_orphans ?st"
    proof (unfold no_orphans_def, intro allI impI)
      fix e t assume e: "map_of (sx_sessions ?st) e = Some t" "sh_gone t = None"
      then obtain s where s: "map_of (sx_sessions st) e = Some s" "t = ?f T e s" by (auto simp: map_of_mapped)
      from e(2) have "sh_gone s = None" unfolding s(2) rel .
      then have "attached st e s" using assms s(1) by (auto simp: sound_shares_def no_orphans_def)
      then have "attached st e t" unfolding attached_def s(2) rel .
      then show "attached ?st e t" by (rule attached_mono) auto
    qed
    moreover have "distinct_keys (map (\<lambda>(d, s). (d, ?f T d s)) (sx_sessions st)) \<longleftrightarrow> distinct_keys (sx_sessions st)"
      by (rule distinct_keys_mapped)
    ultimately show ?thesis using assms unfolding 2 sound_shares_def by simp
  qed
qed

lemma disconnect_sound:
  assumes "sound_shares st" "map_of (sx_dashboards st) k = Some sock"
  shows "sound_shares (share_disconnect now k sock st)"
proof -
  let ?f = "\<lambda>d s. if d \<in> set (ds_owned sock) \<and> sh_socket s = k then s\<lparr>sh_gone := Some now\<rparr> else s"
  let ?st = "share_disconnect now k sock st"
  have dash: "map_of (sx_dashboards ?st) j = (if j = k then None else map_of (sx_dashboards st) j)" for j
    by (simp add: share_disconnect_def delete_conv')
  have ses: "map_of (sx_sessions ?st) e = map_option (?f e) (map_of (sx_sessions st) e)" for e
    by (simp add: share_disconnect_def map_of_mapped)
  have "no_orphans ?st"
  proof (unfold no_orphans_def, intro allI impI)
    fix e t assume e: "map_of (sx_sessions ?st) e = Some t" "sh_gone t = None"
    then obtain s where s: "map_of (sx_sessions st) e = Some s" "t = ?f e s" by (auto simp: ses)
    have free: "\<not> (e \<in> set (ds_owned sock) \<and> sh_socket s = k)"
      using e(2) unfolding s(2) by (cases "e \<in> set (ds_owned sock) \<and> sh_socket s = k") simp_all
    then have t: "t = s" unfolding s(2) by (rule if_not_P)
    then obtain q where q: "map_of (sx_dashboards st) (sh_socket s) = Some q" "e \<in> set (ds_owned q)"
      using assms(1) s(1) e(2) by (auto simp: sound_shares_def no_orphans_def attached_def)
    have "sh_socket s \<noteq> k" using q assms(2) free by auto
    then show "attached ?st e t" using q t dash by (auto simp: attached_def)
  qed
  moreover have "distinct_keys (map (\<lambda>(d, s). (d, ?f d s)) (sx_sessions st)) \<longleftrightarrow> distinct_keys (sx_sessions st)"
    by (rule distinct_keys_mapped)
  then have "distinct_keys (sx_sessions ?st)" "distinct_keys (sx_dashboards ?st)"
    using assms(1) by (simp_all add: share_disconnect_def sound_shares_def distinct_keys_delete)
  ultimately show ?thesis by (simp add: sound_shares_def)
qed

lemma stop_sound: "sound_shares st \<Longrightarrow> sound_shares (fst (share_stop can_act k sock data st))"
  and ended_sound: "sound_shares st \<Longrightarrow> sound_shares (fst (device_ended dev st))"
proof -
  assume st: "sound_shares st"
  have drop: "sound_shares (on_socket j (disown d) (drop_session d st))" for j d
  proof -
    have "no_orphans (on_socket j (disown d) (drop_session d st))"
    proof (unfold no_orphans_def, intro allI impI)
      fix e t assume e: "map_of (sx_sessions (on_socket j (disown d) (drop_session d st))) e = Some t" "sh_gone t = None"
      then have "e \<noteq> d" "attached st e t" using st by (auto simp: sound_shares_def no_orphans_def split: if_splits)
      then show "attached (on_socket j (disown d) (drop_session d st)) e t" by (auto simp: attached_def)
    qed
    then show ?thesis using st distinct_drop [of st d] by (simp add: sound_shares_def)
  qed
  show "sound_shares (fst (share_stop can_act k sock data st))"
    using st drop by (auto simp: share_stop_def Let_def split: option.split)
  have swap: "drop_session d (on_socket j (disown d) st) = on_socket j (disown d) (drop_session d st)" for j d
    by (simp add: drop_session_def on_socket_def)
  show "sound_shares (fst (device_ended dev st))"
    using st drop by (auto simp: device_ended_def swap split: option.split)
qed

lemma resume_sound:
  assumes "sound_shares st" "map_of (sx_dashboards st) k = Some sock"
  shows "sound_shares (fst (share_resume can_act k sock data st))"
proof -
  let ?v = "fld data ''device_id''"
  consider "fst (share_resume can_act k sock data st) = st"
    | s where "fst (share_resume can_act k sock data st)
        = on_socket k (own (to_str ?v)) (put_session (to_str ?v) (s\<lparr>sh_socket := k, sh_gone := None\<rparr>) st)"
    by (cases "truthy ?v"; cases "share_of ?v st"; cases "can_act k ?v") (fastforce simp: share_resume_def Let_def)+
  then show ?thesis
  proof cases
    case 1
    then show ?thesis using assms by simp
  next
    case 2
    let ?d = "to_str ?v" and ?s = "s\<lparr>sh_socket := k, sh_gone := None\<rparr>"
    have "no_orphans (on_socket k (own ?d) (put_session ?d ?s st))"
    proof (unfold no_orphans_def, intro allI impI)
      fix e t assume e: "map_of (sx_sessions (on_socket k (own ?d) (put_session ?d ?s st))) e = Some t" "sh_gone t = None"
      show "attached (on_socket k (own ?d) (put_session ?d ?s st)) e t"
      proof (cases "e = ?d")
        case True
        then show ?thesis using e assms(2) by (auto simp: attached_def)
      next
        case False
        with e have "attached st e t" using assms(1) by (auto simp: sound_shares_def no_orphans_def)
        then show ?thesis by (rule attached_mono) auto
      qed
    qed
    then show ?thesis using assms(1) distinct_put [of st ?d ?s] unfolding 2 sound_shares_def by simp
  qed
qed

text \<open>Handlers that only note something on a session or a bucket.\<close>

lemma noted_sound:
  assumes "sound_shares st" "map_of (sx_sessions st) d = Some s" "sh_socket s' = sh_socket s" "sh_gone s' = sh_gone s"
  shows "sound_shares (put_session d s' st)"
proof -
  have "no_orphans (put_session d s' st)"
  proof (rule no_orphans_same [of st])
    fix e t assume "map_of (sx_sessions (put_session d s' st)) e = Some t" "sh_gone t = None"
    then show "\<exists>s. map_of (sx_sessions st) e = Some s \<and> sh_socket t = sh_socket s \<and> sh_gone s = None"
      using assms(2-4) by (cases "e = d") simp_all
  qed (use assms(1) in \<open>simp_all add: sound_shares_def\<close>)
  with assms(1) distinct_put [of st d s'] show ?thesis by (simp add: sound_shares_def)
qed

lemma bucket_sound: "sound_shares st \<Longrightarrow> sound_shares (on_socket k (\<lambda>q. q\<lparr>ds_bucket := b\<rparr>) st)"
  by (auto simp: sound_shares_def no_orphans_def intro!: attached_mono [of st _ _ "on_socket _ _ st"] split: if_splits)

lemma with_broadcaster_Some: "with_broadcaster dev st = Some (d, s) \<Longrightarrow> dev = Some d \<and> map_of (sx_sessions st) d = Some s \<and> map_of (sx_dashboards st) (sh_socket s) \<noteq> None"
  by (auto simp: with_broadcaster_def split: option.splits if_splits)

lemma share_step_sound: "sound_shares st \<Longrightarrow> sound_shares (fst (share_step can_act e st))"
proof (induction can_act e st rule: share_step.induct)
  case (1 can_act now k user st)
  show ?case
  proof (cases "map_of (sx_dashboards st) k")
    case None
    have "no_orphans (share_connect k user st)"
    proof (unfold no_orphans_def, intro allI impI)
      fix d s assume "map_of (sx_sessions (share_connect k user st)) d = Some s" "sh_gone s = None"
      then have a: "attached st d s" using 1 by (simp add: sound_shares_def no_orphans_def share_connect_def)
      then have "sh_socket s \<noteq> k" using None by (auto simp: attached_def)
      with a show "attached (share_connect k user st) d s" by (simp add: attached_def share_connect_def update_conv')
    qed
    with 1 None show ?thesis by (simp add: sound_shares_def share_connect_def distinct_keys_update)
  qed (use 1 in simp)
next
  case (3 can_act now k data st)
  then show ?case by (auto simp: share_offer_def Let_def share_of_def intro!: noted_sound split: option.split jsval.split)
next
  case (5 can_act now k data st)
  then show ?case by (auto simp: share_ice_def Let_def bucket_sound split: option.split prod.split)
next
  case (9 can_act now dev data st)
  then show ?case by (auto simp: device_answer_def dest!: with_broadcaster_Some intro!: noted_sound split: option.split)
next
  case (10 can_act now k dev data st)
  then have "sound_shares (st\<lparr>sx_device_buckets := b\<rparr>)" for b by (simp add: sound_shares_def no_orphans_def attached_def)
  with 10 show ?case by (auto simp: device_ice_def Let_def split: option.split prod.split)
next
  case (12 can_act now dev data st)
  then show ?case by (auto simp: device_status_def Let_def intro!: noted_sound split: option.split)
next
  case (13 can_act now ds st)
  then show ?case by (simp add: sound_shares_def no_orphans_def attached_def)
next
  case (14 can_act now st)
  then have d: "distinct_keys (sx_sessions st)" by (simp add: sound_shares_def)
  let ?st = "fst (reap_sessions now st)"
  have "no_orphans ?st"
    by (rule no_orphans_same [of st]) (use 14 in \<open>auto simp: sound_shares_def reap_sessions_def map_of_kept [OF d] split: option.splits if_splits\<close>)
  moreover have "distinct_keys (sx_sessions ?st)" using d by (simp add: reap_sessions_def distinct_keys_filter)
  ultimately show ?case using 14 by (simp add: sound_shares_def reap_sessions_def)
qed (auto simp: start_sound frame_sound stop_sound resume_sound disconnect_sound ended_sound split: option.split)

interpretation shares: machine "\<lambda>e st. fst (share_step can_act e st)" sound_shares for can_act
  by unfold_locales (rule share_step_sound)

lemma share_run_sound: "sound_shares st \<Longrightarrow> sound_shares (share_run can_act es st)"
  unfolding share_run_def by (rule shares.run_good)

text \<open>No display is left with a dead share: after any history and a run of the reaper every session either has a connected
  broadcaster that still owns it, or lost it less than thirty seconds ago.\<close>

theorem reaper_leaves_no_orphans:
  assumes "map_of (sx_sessions (fst (reap_sessions now (share_run can_act es no_shares)))) d = Some s"
  shows "(case sh_gone s of
      None \<Rightarrow> \<exists>sock. map_of (sx_dashboards (share_run can_act es no_shares)) (sh_socket s) = Some sock \<and> d \<in> set (ds_owned sock)
    | Some t \<Rightarrow> now - t < 30000)"
proof -
  let ?st = "share_run can_act es no_shares"
  have s: "sound_shares ?st" by (rule share_run_sound) (simp add: sound_shares_def no_shares_def no_orphans_def)
  then have "map_of (sx_sessions ?st) d = Some s" "\<not> expired_grace now s"
    using assms by (auto simp: reap_sessions_def sound_shares_def map_of_kept split: option.splits if_splits)
  with s show ?thesis
    by (auto simp: sound_shares_def no_orphans_def attached_def expired_grace_def broadcaster_reconnect_grace_ms_def split: option.splits)
qed


subsection \<open>Who is heard\<close>

fun speaking_socket :: "share_event \<Rightarrow> string option" where
  "speaking_socket (DashStarts k data) = Some k"
| "speaking_socket (DashOffers k data) = Some k"
| "speaking_socket (DashFrame k data) = Some k"
| "speaking_socket (DashIce k data) = Some k"
| "speaking_socket (DashStops k data) = Some k"
| "speaking_socket _ = None"

text \<open>The socket may command the display, and holds its session or is about to: it starts one on a connected display, or ends
  one its own user lost.\<close>

definition may_command :: "(string \<Rightarrow> jsval \<Rightarrow> bool) \<Rightarrow> share_state \<Rightarrow> string \<Rightarrow> string \<Rightarrow> string \<Rightarrow> bool" where
  "may_command can_act st k d ch \<longleftrightarrow> can_act k (JStr d) \<and> map_of (sx_dashboards st) k \<noteq> None \<and>
     (if ch = ''device:screen-share-start'' then d \<in> set (sx_rooms st)
      else \<exists>s. map_of (sx_sessions st) d = Some s \<and> (sh_socket s = k \<or> (ch = ''device:screen-share-end'' \<and> sh_gone s \<noteq> None
             \<and> (\<exists>sock. map_of (sx_dashboards st) k = Some sock \<and> sh_user s = ds_user sock))))"

lemma in_roomE: assumes "in_room v st" obtains d where "v = JStr d" "d \<in> set (sx_rooms st)"
  using assms by (cases v) (simp_all add: in_room_def)

lemma share_ofE: assumes "share_of v st = Some s" obtains d where "v = JStr d" "map_of (sx_sessions st) d = Some s"
  using assms by (cases v) (simp_all add: share_of_def)

lemma preempt_speech: "em \<in> set (snd (preempt k d st)) \<Longrightarrow> \<exists>j p. em = ToDashboard j ''screen-share:preempted'' p"
  by (auto simp: preempt_def split: option.splits if_splits)

lemma start_speech:
  assumes "ToDevice d ch p \<in> set (snd (share_start can_act now k sock data st))" "map_of (sx_dashboards st) k = Some sock"
  shows "may_command can_act st k d ch"
proof -
  let ?v = "fld data ''device_id''"
  have g: "truthy ?v" "can_act k ?v" "in_room ?v st"
    using assms(1) by (auto simp: share_start_def Let_def refused_def split: if_splits)
  from g(3) obtain e where e: "?v = JStr e" "e \<in> set (sx_rooms st)" by (rule in_roomE)
  obtain st1 told where pre: "preempt k e st = (st1, told)" by (cases "preempt k e st")
  have told: "ToDevice d ch p \<notin> set told" using preempt_speech [of "ToDevice d ch p" k e st] by (auto simp: pre)
  have "d = e \<and> ch = ''device:screen-share-start''"
    using assms(1) g told pre by (auto simp: share_start_def Let_def accepted_def e(1))
  with g e assms(2) show ?thesis by (simp add: may_command_def)
qed

lemma held_speech:
  assumes "share_of v st = Some s" "sh_socket s = k" "can_act k v" "map_of (sx_dashboards st) k = Some sock"
    and "ch \<noteq> ''device:screen-share-start''" "d = to_str v"
  shows "may_command can_act st k d ch"
proof -
  from assms(1) obtain e where "v = JStr e" "map_of (sx_sessions st) e = Some s" by (rule share_ofE)
  with assms(2-) show ?thesis by (simp add: may_command_def)
qed

lemma offer_speech:
  assumes "ToDevice d ch p \<in> set (snd (share_offer can_act now k data st))" "map_of (sx_dashboards st) k = Some sock"
  shows "may_command can_act st k d ch"
  using assms by (auto simp: share_offer_def Let_def refused_def accepted_def intro: held_speech split: if_splits option.splits)

lemma ice_speech:
  assumes "ToDevice d ch p \<in> set (snd (share_ice can_act now k sock data st))" "map_of (sx_dashboards st) k = Some sock"
  shows "may_command can_act st k d ch"
  using assms by (auto simp: share_ice_def Let_def intro: held_speech split: if_splits option.splits prod.splits)

lemma stop_speech:
  assumes "ToDevice d ch p \<in> set (snd (share_stop can_act k sock data st))" "map_of (sx_dashboards st) k = Some sock"
  shows "may_command can_act st k d ch"
proof -
  let ?v = "fld data ''device_id''"
  have g: "truthy ?v" using assms(1) by (auto simp: share_stop_def Let_def refused_def split: if_splits)
  then obtain s where s: "share_of ?v st = Some s" using assms(1) by (cases "share_of ?v st") (auto simp: share_stop_def Let_def)
  then obtain e where e: "?v = JStr e" "map_of (sx_sessions st) e = Some s" by (rule share_ofE)
  have own: "sh_socket s = k \<or> sh_gone s \<noteq> None \<and> sh_user s = ds_user sock" "can_act k ?v"
    using assms(1) g s by (auto simp: share_stop_def Let_def refused_def split: if_splits)
  then have "d = e \<and> ch = ''device:screen-share-end''"
    using assms(1) g s e(1) by (auto simp: share_stop_def Let_def accepted_def)
  with own e assms(2) show ?thesis by (auto simp: may_command_def)
qed

lemma frame_speech:
  assumes "ToDevice d ch p \<in> set (snd (share_frame can_act now k sock data st))" "map_of (sx_dashboards st) k = Some sock"
  shows "may_command can_act st k d ch"
proof -
  have r: "relay_to can_act k st d \<and> ch = ''device:screen-share-frame''"
  proof (cases "\<exists>img. fld data ''image_b64'' = JStr img")
    case True
    then obtain img where "fld data ''image_b64'' = JStr img" ..
    then show ?thesis using assms(1) by (auto simp: share_frame_def Let_def refused_def split: if_splits)
  next
    case False
    then show ?thesis using assms(1) by (cases "fld data ''image_b64''") (auto simp: share_frame_def Let_def refused_def split: if_splits)
  qed
  then show ?thesis using assms(2) by (auto simp: relay_to_def may_command_def split: option.splits)
qed


subsection \<open>Floods\<close>

text \<open>How many of the candidates a socket sends at the given times get past its bucket.\<close>

fun ice_passed :: "ice_bucket option \<Rightarrow> int list \<Rightarrow> nat" where
  "ice_passed b [] = 0"
| "ice_passed b (t # ts) = (let (b', ok) = allow_ice_candidate t b in (if ok then 1 else 0) + ice_passed (Some b') ts)"

lemma ice_passed_old:
  assumes "\<forall>t \<in> set ts. t \<le> ib_start b + 10000"
  shows "ice_passed (Some b) ts \<le> 100 - ib_count b"
  using assms
proof (induction ts arbitrary: b)
  case (Cons t ts)
  let ?b = "b\<lparr>ib_count := Suc (ib_count b)\<rparr>"
  from Cons.prems have step: "allow_ice_candidate t (Some b) = (?b, Suc (ib_count b) \<le> 100)"
    by (simp add: allow_ice_candidate_def ice_candidate_window_ms_def ice_candidate_burst_def)
  have "ice_passed (Some ?b) ts \<le> 100 - ib_count ?b" by (rule Cons.IH) (use Cons.prems in simp)
  then show ?case by (simp add: step) linarith
qed simp

lemma ice_passed_window:
  assumes "\<forall>t \<in> set ts. t1 \<le> t \<and> t \<le> t1 + 10000"
  shows "ice_passed (Some b) ts \<le> 100 + (100 - ib_count b)"
  using assms
proof (induction ts arbitrary: b)
  case (Cons t ts)
  show ?case
  proof (cases "10000 < t - ib_start b")
    case True
    let ?b = "\<lparr>ib_count = 1, ib_start = t\<rparr>"
    from True have step: "allow_ice_candidate t (Some b) = (?b, True)"
      by (simp add: allow_ice_candidate_def ice_candidate_window_ms_def ice_candidate_burst_def)
    have "ice_passed (Some ?b) ts \<le> 100 - ib_count ?b" by (rule ice_passed_old) (use Cons.prems in fastforce)
    then show ?thesis by (simp add: step)
  next
    case False
    let ?b = "b\<lparr>ib_count := Suc (ib_count b)\<rparr>"
    from False have step: "allow_ice_candidate t (Some b) = (?b, Suc (ib_count b) \<le> 100)"
      by (simp add: allow_ice_candidate_def ice_candidate_window_ms_def ice_candidate_burst_def)
    have "ice_passed (Some ?b) ts \<le> 100 + (100 - ib_count ?b)" by (rule Cons.IH) (use Cons.prems in simp)
    then show ?thesis by (simp add: step) linarith
  qed
qed simp

lemma ice_passed_new: "ice_passed None ts = (case ts of [] \<Rightarrow> 0 | t # _ \<Rightarrow> ice_passed (Some \<lparr>ib_count = 0, ib_start = t\<rparr>) ts)"
  by (cases ts) (simp_all add: allow_ice_candidate_def)

text \<open>A misbehaving client cannot flood the relay: whatever its bucket holds and however many candidates it sends, at most
  twice the burst get past within any one window.\<close>

theorem ice_flood_bounded:
  assumes "list_all (\<lambda>t. t1 \<le> t \<and> t \<le> t1 + ice_candidate_window_ms) ts"
  shows "ice_passed b ts \<le> 2 * ice_candidate_burst"
proof -
  have w: "\<forall>t \<in> set ts. t1 \<le> t \<and> t \<le> t1 + 10000" using assms by (simp add: list_all_iff ice_candidate_window_ms_def)
  have "ice_passed (Some c) ts \<le> 200" for c using ice_passed_window [OF w, of c] by linarith
  then show ?thesis by (cases b) (auto simp: ice_passed_new ice_candidate_burst_def split: list.split)
qed

subsection \<open>A sample exchange\<close>

definition sample_start :: "(int \<times> share_event) list" where
  "sample_start = [(1000, DashConnects ''a'' ''ann''), (1000, DevRooms [''tv'']),
     (1100, DashStarts ''a'' (JObj [(''device_id'', JStr ''tv'')]))]"

definition sample_shares :: share_state where
  "sample_shares = share_run (\<lambda>k v. True) (sample_start @ [(5000, DashDisconnects ''a'')]) no_shares"

lemma sample_session:
  "map_option (\<lambda>s. (sh_socket s, sh_gone s)) (map_of (sx_sessions sample_shares) ''tv'') = Some (''a'', Some 5000)"
  by code_simp

theorem reaper_leaves_no_orphans_witness:
  "\<exists>s. map_of (sx_sessions (fst (reap_sessions 20000 sample_shares))) ''tv'' = Some s \<and> sh_gone s = Some 5000 \<and> (20000 - 5000 :: int) < 30000"
proof -
  have "map_option sh_gone (map_of (sx_sessions (fst (reap_sessions 20000 sample_shares))) ''tv'') = Some (Some 5000)" by code_simp
  then obtain s where s: "map_of (sx_sessions (fst (reap_sessions 20000 sample_shares))) ''tv'' = Some s" "sh_gone s = Some 5000" by auto
  from reaper_leaves_no_orphans [OF s(1) [unfolded sample_shares_def]] s show ?thesis by simp
qed


theorem ice_flood_bounded_witness: "ice_passed None (replicate 300 7) \<le> 2 * ice_candidate_burst"
  by (rule ice_flood_bounded [of 0]) code_simp

end
