(* ===== verification/DeviceSession.thy ===== *)
theory DeviceSession
  imports Machines AudioOwnership Heartbeat
begin

text \<open>
  The life of a display on the server: enrolment (\<open>server/lib/device-enrollment.js\<close>), the socket of a display from
  registration to the deferred offline transition (\<open>server/ws/deviceSocket.js\<close>) and the claim of a pairing code
  (\<open>POST /api/provision/pair\<close> in \<open>server/server.js\<close>).

  The state holds the table of displays, the fingerprints, the connected sockets with the variables of their handlers, the
  registry of connections (the one of \<open>Heartbeat\<close>) and the pending offline timers. A handler returns the new state and what it
  emits, or \<open>None\<close> when an exception leaves it: nothing catches it, and an unhandled rejection ends the process
  (\<open>server/lib/fatal-process-handlers.js\<close>). The clock counts milliseconds.

  Parameters: the ids and tokens a registration draws, and the playlist payload of a display. A value bound to a statement is
  a number, a string or null, as the documentation of better-sqlite3 has it; an id given as a number finds no row, since ids are
  UUIDs. Columns that only mirror what the display reports hold the value as bound.
\<close>

subsection \<open>Enrolment\<close>

definition pairing_code_ttl_seconds :: int where "pairing_code_ttl_seconds = 600"

definition normalized_text :: "jsval \<Rightarrow> nat \<Rightarrow> string" where
  "normalized_text v max_length = (let t = text_of v in if t = [] \<or> max_length < length t then [] else t)"

definition pairing_code_expires_at :: "int \<Rightarrow> int" where
  "pairing_code_expires_at now = now + pairing_code_ttl_seconds"

definition six_digits :: "jsval \<Rightarrow> bool" where
  "six_digits v \<longleftrightarrow> (let s = to_str (js_or v (JStr [])) in length s = 6 \<and> list_all is_digit s)"

record enrolled_row =
  dr_id :: string
  dr_token :: "string option"
  dr_code :: "string option"
  dr_expires :: "int option"      \<comment> \<open>seconds\<close>
  dr_user :: "string option"
  dr_workspace :: "string option"
  dr_name :: string
  dr_retired :: bool
  dr_status :: string
  dr_last :: "int option"         \<comment> \<open>seconds\<close>
  dr_created :: int
  dr_ip :: string
  dr_android :: jsval
  dr_app :: jsval
  dr_width :: jsval
  dr_height :: jsval
  dr_auto_detect :: bool
  dr_orientation :: string
  dr_viewport :: jsval
  dr_wall :: "string option"

record device_print =
  fp_value :: string
  fp_device :: "string option"
  fp_user :: "string option"

definition is_pairing_code_active :: "enrolled_row \<Rightarrow> int \<Rightarrow> bool" where
  "is_pairing_code_active r now \<longleftrightarrow>
     (case dr_code r of None \<Rightarrow> False | Some c \<Rightarrow> six_digits (JStr c))
     \<and> (case dr_expires r of None \<Rightarrow> 0 > now | Some e \<Rightarrow> e > now)"

definition find_reusable_pending_enrollment :: "enrolled_row list \<Rightarrow> jsval \<Rightarrow> enrolled_row option" where
  "find_reusable_pending_enrollment rows given =
     (let c = normalized_text given 64 in
      if c = [] then None
      else find (\<lambda>r. dr_code r = Some c \<and> dr_user r = None \<and> dr_workspace r = None \<and> \<not> dr_retired r) rows)"

definition bind_enrollment_fingerprint :: "enrolled_row list \<Rightarrow> jsval \<Rightarrow> string \<Rightarrow> device_print list \<Rightarrow> device_print list \<times> bool" where
  "bind_enrollment_fingerprint rows print d fps =
     (let value = normalized_text print 512; i = normalized_text (JStr d) 128 in
      if value = [] \<or> i = [] then (fps, False)
      else (case find (\<lambda>f. fp_value f = value) fps of
          Some f \<Rightarrow>
            if (case fp_device f of None \<Rightarrow> False | Some e \<Rightarrow> e \<noteq> [] \<and> e \<noteq> i) then (fps, False)
            else if i \<notin> dr_id ` set rows then (fps, False)
            else (map (\<lambda>f. if fp_value f = value then f\<lparr>fp_device := Some i\<rparr> else f) fps, True)
        | None \<Rightarrow>
            if i \<notin> dr_id ` set rows then (fps, False)
            else (fps @ [\<lparr>fp_value = value, fp_device = Some i, fp_user = None\<rparr>], True)))"

subsection \<open>State\<close>

record device_socket =
  sk_device :: "string option"
  sk_auth :: bool
  sk_sync_at :: int
  sk_block :: "string option"
  sk_rooms :: "string list"
  sk_ip :: string

record device_server =
  dv_rows :: "enrolled_row list"
  dv_prints :: "device_print list"
  dv_sockets :: "(string \<times> device_socket) list"
  dv_heart :: hb_state
  dv_timers :: "(string \<times> string \<times> int) list"   \<comment> \<open>display, closing socket, time due\<close>
  dv_waiting :: "(string \<times> string \<times> string option) list"   \<comment> \<open>registrations that wait for the audio owner: socket, display, wall\<close>

datatype device_effect =
    ToSocket string string jsval        \<comment> \<open>\<open>socket.emit\<close>\<close>
  | Reply string jsval                  \<comment> \<open>the acknowledgement of the socket\<close>
  | ToRoom string string jsval          \<comment> \<open>\<open>deviceNs.to(device).emit\<close>\<close>
  | ToWorkspace string string jsval     \<comment> \<open>\<open>emitToDeviceWorkspace\<close>\<close>
  | DeviceSnapshot string string
  | StatusLogged string string
  | QueueFlushed string
  | LeadershipPushed string string
  | AudioEnsured string
  | AudioRecovered string
  | TelemetryStored string jsval
  | BeatRecorded string

definition display_of :: "string \<Rightarrow> device_server \<Rightarrow> enrolled_row option" where
  "display_of d st = find (\<lambda>r. dr_id r = d) (dv_rows st)"

definition on_row :: "string \<Rightarrow> (enrolled_row \<Rightarrow> enrolled_row) \<Rightarrow> device_server \<Rightarrow> device_server" where
  "on_row d f st = st\<lparr>dv_rows := map (\<lambda>r. if dr_id r = d then f r else r) (dv_rows st)\<rparr>"

definition on_device_socket :: "string \<Rightarrow> (device_socket \<Rightarrow> device_socket) \<Rightarrow> device_server \<Rightarrow> device_server" where
  "on_device_socket k f st = st\<lparr>dv_sockets := AList.map_entry k f (dv_sockets st)\<rparr>"

definition offline_debounce_ms :: int where "offline_debounce_ms = 5000"

subsection \<open>Tokens\<close>

text \<open>\<open>Buffer.from(v)\<close> of the JSON values: the bytes of a string, the bytes of an array or of an object with a length or of the
  JSON form of a buffer; it throws on anything else.\<close>

definition to_uint8 :: "jsval \<Rightarrow> nat" where
  "to_uint8 v = (case to_num v of Fin q \<Rightarrow> nat ((if 0 \<le> q then \<lfloor>q\<rfloor> else \<lceil>q\<rceil>) mod 256) | _ \<Rightarrow> 0)"

definition array_like :: "jsval \<Rightarrow> jsval list" where
  "array_like v = (case fld v ''length'' of
     JNum (Fin n) \<Rightarrow> map (\<lambda>i. fld v (nat_str i)) [0..<nat \<lfloor>n\<rfloor>]
   | _ \<Rightarrow> [])"

definition buffer_from :: "jsval \<Rightarrow> nat list option" where
  "buffer_from v = (case v of
     JStr s \<Rightarrow> Some (map code s)
   | JArr xs \<Rightarrow> Some (map to_uint8 xs)
   | JObj kvs \<Rightarrow>
       if truthy (fld v ''valueOf'') then None
       else if has_own v ''length'' \<and> fld v ''length'' \<noteq> JUndef then Some (map to_uint8 (array_like v))
       else if fld v ''type'' = JStr ''Buffer'' \<and> is_array (fld v ''data'') then Some (map to_uint8 (array_items (fld v ''data'')))
       else None
   | _ \<Rightarrow> None)"

definition validate_device_token :: "string \<Rightarrow> jsval \<Rightarrow> device_server \<Rightarrow> bool" where
  "validate_device_token d token st =
     (if d = [] \<or> \<not> truthy token then False
      else (case display_of d st of
          None \<Rightarrow> False
        | Some r \<Rightarrow> (case dr_token r of None \<Rightarrow> False | Some t \<Rightarrow> t \<noteq> [] \<and> buffer_from token = Some (map code t))))"

subsection \<open>Values bound to a statement\<close>

text \<open>The text a TEXT column gets for a bound value; binding anything else throws.\<close>

definition bind_text :: "jsval \<Rightarrow> string option option" where
  "bind_text v = (case v of
     JUndef \<Rightarrow> Some None
   | JNull \<Rightarrow> Some None
   | JStr s \<Rightarrow> Some (Some s)
   | JNum NaN \<Rightarrow> Some None
   | JNum (Fin q) \<Rightarrow> Some (Some (num_to_str (Fin q) @ (if rat_is_int q then ''.0'' else [])))
   | JNum n \<Rightarrow> Some (Some (if n = PosInf then ''Inf'' else ''-Inf''))
   | _ \<Rightarrow> None)"

definition bindable :: "jsval \<Rightarrow> bool" where
  "bindable v \<longleftrightarrow> bind_text v \<noteq> None"

definition info_fields :: "string list" where
  "info_fields = [''android_version'', ''app_version'', ''screen_width'', ''screen_height'']"

definition falsy_null :: "jsval \<Rightarrow> jsval" where
  "falsy_null v = js_or v JNull"

text \<open>What a registration stores of the report of a display, with \<open>|| null\<close> on each field.\<close>

definition reported :: "jsval \<Rightarrow> enrolled_row \<Rightarrow> enrolled_row" where
  "reported info r = r\<lparr>dr_android := falsy_null (fld info ''android_version''), dr_app := falsy_null (fld info ''app_version''),
     dr_width := falsy_null (fld info ''screen_width''), dr_height := falsy_null (fld info ''screen_height'')\<rparr>"


subsection \<open>Leaving\<close>

definition socket_disconnects :: "int \<Rightarrow> string \<Rightarrow> device_server \<Rightarrow> device_server" where
  "socket_disconnects now k st =
     (case map_of (dv_sockets st) k of
        None \<Rightarrow> st
      | Some s \<Rightarrow>
          (let gone = st\<lparr>dv_sockets := AList.delete k (dv_sockets st)\<rparr> in
           case sk_device s of
             None \<Rightarrow> gone
           | Some d \<Rightarrow>
               (case get_connection d (dv_heart st) of
                  Some c \<Rightarrow> if cn_socket c \<noteq> k then gone
                      else gone\<lparr>dv_timers := AList.update d (k, now + offline_debounce_ms) (dv_timers gone)\<rparr>
                | None \<Rightarrow> gone\<lparr>dv_timers := AList.update d (k, now + offline_debounce_ms) (dv_timers gone)\<rparr>)))"

definition evict_prior_socket :: "int \<Rightarrow> string \<Rightarrow> string \<Rightarrow> device_server \<Rightarrow> device_server" where
  "evict_prior_socket now d k st =
     (case get_connection d (dv_heart st) of
        None \<Rightarrow> st
      | Some c \<Rightarrow> if cn_socket c = k then st else socket_disconnects now (cn_socket c) st)"

text \<open>The deferred transition, when its time has come.\<close>

definition timer_fires :: "int \<Rightarrow> string \<Rightarrow> device_server \<Rightarrow> device_server \<times> device_effect list" where
  "timer_fires now d st =
     (case map_of (dv_timers st) d of
        None \<Rightarrow> (st, [])
      | Some (k, due) \<Rightarrow>
          if now < due then (st, [])
          else (let st1 = st\<lparr>dv_timers := AList.delete d (dv_timers st)\<rparr> in
            if (case get_connection d (dv_heart st) of None \<Rightarrow> False | Some c \<Rightarrow> cn_socket c \<noteq> k) then (st1, [])
            else ((on_row d (\<lambda>r. r\<lparr>dr_status := ''offline''\<rparr>) st1)\<lparr>dv_heart := remove_connection d (dv_heart st1)\<rparr>,
                  [StatusLogged d ''offline'',
                   ToWorkspace d ''dashboard:device-status'' (JObj [(''device_id'', JStr d), (''status'', JStr ''offline'')]),
                   DeviceSnapshot d ''device:offline'']
                  @ (case display_of d st of None \<Rightarrow> [] | Some r \<Rightarrow> (case dr_wall r of None \<Rightarrow> [] | Some w \<Rightarrow> [LeadershipPushed w d]))
                  @ [AudioRecovered d])))"

text \<open>The sweep of \<open>Heartbeat\<close> over the same table; a display that is deleted releases its fingerprints.\<close>

definition hb_of :: "enrolled_row \<Rightarrow> hb_row" where
  "hb_of r = \<lparr>hb_id = dr_id r, hb_status = dr_status r, hb_workspace = dr_workspace r, hb_user = dr_user r,
     hb_last = dr_last r, hb_created = dr_created r\<rparr>"

definition release_prints :: "device_server \<Rightarrow> device_server" where
  "release_prints st = st\<lparr>dv_prints := map (\<lambda>f. case fp_device f of
      None \<Rightarrow> f | Some d \<Rightarrow> if display_of d st = None then f\<lparr>fp_device := None\<rparr> else f) (dv_prints st)\<rparr>"

definition sweep_displays :: "int \<Rightarrow> int \<Rightarrow> device_server \<Rightarrow> device_server" where
  "sweep_displays timeout now st =
     (let h = heartbeat_tick timeout now ((dv_heart st)\<lparr>hb_devices := map hb_of (dv_rows st)\<rparr>) in
      release_prints (st\<lparr>dv_heart := h\<lparr>hb_devices := []\<rparr>,
        dv_rows := List.map_filter (\<lambda>r. map_option (\<lambda>b. r\<lparr>dr_status := hb_status b\<rparr>) (row_of (dr_id r) h)) (dv_rows st)\<rparr>))"

subsection \<open>Registration\<close>

definition attach_socket :: "int \<Rightarrow> string \<Rightarrow> string \<Rightarrow> device_server \<Rightarrow> device_server" where
  "attach_socket now d k st =
     on_device_socket k (\<lambda>s. s\<lparr>sk_rooms := sk_rooms s @ [d]\<rparr>) (st\<lparr>dv_heart := register_connection d k now (dv_heart st)\<rparr>)"

text \<open>The socket becomes the one of the display, a pending transition is cancelled and the socket before it is closed.\<close>

definition take_over :: "int \<Rightarrow> string \<Rightarrow> string \<Rightarrow> device_server \<Rightarrow> device_server" where
  "take_over now d k st =
     evict_prior_socket now d k
       (on_device_socket k (\<lambda>s. s\<lparr>sk_device := Some d, sk_auth := True\<rparr>) (st\<lparr>dv_timers := AList.delete d (dv_timers st)\<rparr>))"

definition registered_reply :: "string \<Rightarrow> string \<Rightarrow> string \<Rightarrow> (string \<times> jsval) list \<Rightarrow> jsval" where
  "registered_reply d token status extra =
     JObj ([(''device_id'', JStr d), (''device_token'', JStr token), (''status'', JStr status)] @ extra)"

definition bind_print :: "jsval \<Rightarrow> string \<Rightarrow> device_server \<Rightarrow> device_server" where
  "bind_print print d st = st\<lparr>dv_prints := fst (bind_enrollment_fingerprint (dv_rows st) print d (dv_prints st))\<rparr>"

definition resume_enrollment :: "string \<Rightarrow> int \<Rightarrow> string \<Rightarrow> string \<Rightarrow> jsval \<Rightarrow> enrolled_row \<Rightarrow> device_server \<Rightarrow> (device_server \<times> device_effect list) option" where
  "resume_enrollment token now k ip data r st =
     (let info = fld data ''device_info''; d = dr_id r in
      if \<not> list_all (\<lambda>f. bindable (falsy_null (fld info f))) info_fields then None
      else (let st1 = take_over now d k st;
                st2 = on_row d (\<lambda>r. reported info (r\<lparr>dr_token := Some token, dr_status := ''provisioning'',
                        dr_expires := Some (pairing_code_expires_at (now div 1000)), dr_last := Some (now div 1000), dr_ip := ip\<rparr>)) st1;
                st3 = bind_print (fld data ''fingerprint'') d st2
            in Some (attach_socket now d k st3, [ToSocket k ''device:registered'' (registered_reply d token ''provisioning'' [])])))"

text \<open>A display without a token yet gets one.\<close>

definition has_token :: "enrolled_row \<Rightarrow> bool" where
  "has_token r \<longleftrightarrow> (case dr_token r of None \<Rightarrow> False | Some t \<Rightarrow> t \<noteq> [])"

definition token_to_send :: "string \<Rightarrow> enrolled_row \<Rightarrow> string" where
  "token_to_send token r = (case dr_token r of None \<Rightarrow> token | Some t \<Rightarrow> if t = [] then token else t)"

text \<open>The row of a display that is back; the size it reports only counts while it is not pinned.\<close>

definition reconnected :: "string \<Rightarrow> int \<Rightarrow> string \<Rightarrow> jsval \<Rightarrow> enrolled_row \<Rightarrow> enrolled_row" where
  "reconnected token now ip info r =
     (let nul = (\<lambda>v. js_coalesce v JNull);
          r = r\<lparr>dr_status := ''online'', dr_last := Some (now div 1000), dr_ip := ip, dr_token := Some (token_to_send token r)\<rparr>;
          r = (if truthy info then r\<lparr>dr_android := nul (fld info ''android_version''), dr_app := nul (fld info ''app_version'')\<rparr> else r)
      in if truthy info \<and> dr_auto_detect r
         then r\<lparr>dr_width := nul (fld info ''screen_width''), dr_height := nul (fld info ''screen_height'')\<rparr> else r)"

definition reconnect_display :: "string \<Rightarrow> int \<Rightarrow> string \<Rightarrow> string \<Rightarrow> jsval \<Rightarrow> enrolled_row \<Rightarrow> device_server \<Rightarrow> (device_server \<times> device_effect list) option" where
  "reconnect_display token now k ip data r st =
     (let info = fld data ''device_info''; d = dr_id r in
      if has_token r \<and> \<not> validate_device_token d (fld data ''device_token'') st
      then Some (st, [ToSocket k ''device:auth-error'' (JObj [(''error'', JStr ''Invalid device token'')])])
      else if truthy info \<and> \<not> list_all (\<lambda>f. bindable (fld info f)) (if dr_auto_detect r then info_fields else take 2 info_fields)
      then None
      else (let st1 = attach_socket now d k (on_row d (reconnected token now ip info) (take_over now d k st));
                st2 = on_device_socket k (\<lambda>s. s\<lparr>sk_block := Some ''audio_reconnect_recovery_pending''\<rparr>) st1
            in Some (st2\<lparr>dv_waiting := dv_waiting st2 @ [(k, d, dr_wall r)]\<rparr>,
                     [ToSocket k ''device:registered'' (registered_reply d (token_to_send token r) ''online'' [(''audio_ready'', JBool False)]),
                      StatusLogged d ''online'', AudioEnsured d])))"

definition new_display :: "string \<Rightarrow> string \<Rightarrow> string option \<Rightarrow> int \<Rightarrow> string \<Rightarrow> enrolled_row" where
  "new_display d token pc now ip = \<lparr>dr_id = d, dr_token = Some token, dr_code = pc,
     dr_expires = Some (pairing_code_expires_at (now div 1000)), dr_user = None, dr_workspace = None, dr_name = ''Unnamed Display'',
     dr_retired = False, dr_status = ''provisioning'', dr_last = Some (now div 1000), dr_created = now div 1000, dr_ip = ip,
     dr_android = JNull, dr_app = JNull, dr_width = JNull, dr_height = JNull, dr_auto_detect = True, dr_orientation = ''landscape'',
     dr_viewport = JNull, dr_wall = None\<rparr>"

definition enroll_display :: "string \<Rightarrow> string \<Rightarrow> int \<Rightarrow> string \<Rightarrow> string \<Rightarrow> jsval \<Rightarrow> device_server \<Rightarrow> (device_server \<times> device_effect list) option" where
  "enroll_display d token now k ip data st =
     (let info = fld data ''device_info'' in
      if \<not> list_all (\<lambda>f. bindable (falsy_null (fld info f))) info_fields then None
      else (case bind_text (fld data ''pairing_code'') of
          None \<Rightarrow> None
        | Some pc \<Rightarrow>
            if d \<in> dr_id ` set (dv_rows st) \<or> (pc \<noteq> None \<and> pc \<in> dr_code ` set (dv_rows st)) then None
            else (let st1 = on_device_socket k (\<lambda>s. s\<lparr>sk_device := Some d, sk_auth := True\<rparr>) st;
                      row = reported info (new_display d token pc now ip);
                      st2 = st1\<lparr>dv_rows := dv_rows st1 @ [row]\<rparr>;
                      st3 = bind_print (fld data ''fingerprint'') d st2
                  in Some (attach_socket now d k st3,
                       [ToSocket k ''device:registered'' (registered_reply d token ''provisioning'' []),
                        ToWorkspace d ''dashboard:device-added'' (JObj [(''id'', JStr d)])]))))"

definition track_fingerprint :: "jsval \<Rightarrow> device_server \<Rightarrow> device_server" where
  "track_fingerprint data st =
     (let print = fld data ''fingerprint''; did = fld data ''device_id'' in
      if truthy print \<and> bindable print \<and> truthy did then bind_print print (to_str did) st else st)"

definition device_register :: "string \<Rightarrow> string \<Rightarrow> int \<Rightarrow> string \<Rightarrow> device_socket \<Rightarrow> jsval \<Rightarrow> device_server \<Rightarrow> (device_server \<times> device_effect list) option" where
  "device_register d token now k s data st =
     (let did = fld data ''device_id''; pc = fld data ''pairing_code'' in
      if is_nullish data then None
      else (case (if \<not> truthy did \<and> six_digits pc then find_reusable_pending_enrollment (dv_rows st) pc else None) of
          Some r \<Rightarrow> resume_enrollment token now k (sk_ip s) data r st
        | None \<Rightarrow>
            (let st = track_fingerprint data st in
             if truthy did then
               (if \<not> bindable did then None
                else (case (case did of JStr i \<Rightarrow> display_of i st | _ \<Rightarrow> None) of
                    Some r \<Rightarrow> reconnect_display token now k (sk_ip s) data r st
                  | None \<Rightarrow> Some (st, [ToSocket k ''device:unpaired'' (JObj [(''reason'', JStr ''not_found'')])])))
             else if six_digits pc then enroll_display d token now k (sk_ip s) data st
             else Some (st, []))))"


subsection \<open>After registration\<close>

text \<open>A registration goes on when the audio owner is settled: on failure the display stays muted and gets no playlist.\<close>

definition audio_settles :: "(string \<Rightarrow> jsval) \<Rightarrow> nat \<Rightarrow> bool \<Rightarrow> device_server \<Rightarrow> device_server \<times> device_effect list" where
  "audio_settles playlist n ok st =
     (if length (dv_waiting st) \<le> n then (st, [])
      else (let (k, d, wall) = dv_waiting st ! n; st1 = st\<lparr>dv_waiting := take n (dv_waiting st) @ drop (Suc n) (dv_waiting st)\<rparr> in
        if ok
        then (on_device_socket k (\<lambda>s. s\<lparr>sk_block := None\<rparr>) st1,
              [QueueFlushed d] @ (case wall of None \<Rightarrow> [] | Some w \<Rightarrow> if w = [] then [] else [LeadershipPushed w d])
              @ [ToSocket k ''device:playlist-update'' (playlist d),
                 ToWorkspace d ''dashboard:device-status'' (JObj [(''device_id'', JStr d), (''status'', JStr ''online'')]),
                 DeviceSnapshot d ''device:online''])
        else (on_device_socket k (\<lambda>s. s\<lparr>sk_block := Some ''audio_reconnect_recovery_failed''\<rparr>) st1,
              [ToSocket k ''device:audio-policy-clamp'' (JObj [(''version'', jint 1),
                  (''reason'', JStr ''audio_reconnect_recovery_failed''), (''audio_policy'', JNull)]),
               ToWorkspace d ''dashboard:device-status'' (JObj [(''device_id'', JStr d), (''status'', JStr ''online''),
                  (''audio_ready'', JBool False), (''audio_status'', JStr ''fail_muted''),
                  (''audio_error'', JStr ''audio_reconnect_recovery_failed'')])])))"

definition require_device_auth :: "device_socket \<Rightarrow> string option" where
  "require_device_auth s = (if sk_auth s then (case sk_device s of Some d \<Rightarrow> if d = [] then None else Some d | None \<Rightarrow> None) else None)"

definition auth_error :: "string \<Rightarrow> device_effect" where
  "auth_error k = ToSocket k ''device:auth-error'' (JObj [(''error'', JStr ''Not authenticated. Send device:register first.'')])"

definition clamp_message :: "string \<Rightarrow> jsval \<Rightarrow> jsval" where
  "clamp_message reason policy = JObj [(''version'', jint 1), (''reason'', JStr reason), (''audio_policy'', policy)]"

definition beat_reply :: "jsval \<Rightarrow> clamp \<Rightarrow> jsval" where
  "beat_reply policy c = JObj [(''ok'', JBool True), (''audio_policy'', policy), (''audio_policy_decision'',
     (case c of NoClamp \<Rightarrow> JObj [(''clamp'', JBool False), (''reason'', JNull)]
      | Clamp r \<Rightarrow> JObj [(''clamp'', JBool True), (''reason'', JStr r)]))]"

text \<open>The answer to a heartbeat once the beat is recorded; a recovery that is under way has ended before it.\<close>

definition beat_answer :: "(string \<Rightarrow> jsval) \<Rightarrow> string \<Rightarrow> string \<Rightarrow> string option \<Rightarrow> jsval \<Rightarrow> device_effect list" where
  "beat_answer playlist k d block state = (case block of
     Some reason \<Rightarrow> [ToSocket k ''device:audio-policy-clamp'' (clamp_message reason JNull), Reply k (beat_reply JNull (Clamp reason))]
   | None \<Rightarrow>
       (let policy = falsy_null (fld (playlist d) ''audio_policy''); decision = audio_policy_heartbeat_decision policy state in
        (case decision of NoClamp \<Rightarrow> [] | Clamp reason \<Rightarrow> [ToSocket k ''device:audio-policy-clamp'' (clamp_message reason policy)])
        @ (if truthy policy \<and> \<not> truthy (fld policy ''owner_device_id'') then [AudioEnsured d] else [])
        @ [Reply k (beat_reply policy decision)]))"

definition beat_row :: "int \<Rightarrow> enrolled_row \<Rightarrow> enrolled_row" where
  "beat_row now r = r\<lparr>dr_status := ''online'', dr_last := Some (now div 1000),
     dr_expires := (if dr_user r = None then Some (pairing_code_expires_at (now div 1000)) else dr_expires r)\<rparr>"

definition device_heartbeat :: "(string \<Rightarrow> jsval) \<Rightarrow> int \<Rightarrow> string \<Rightarrow> device_socket \<Rightarrow> jsval \<Rightarrow> device_server \<Rightarrow> device_server \<times> device_effect list" where
  "device_heartbeat playlist now k s data st =
     (case require_device_auth s of
        None \<Rightarrow> (st, [auth_error k])
      | Some d \<Rightarrow>
          if fld data ''device_id'' \<noteq> JStr d then (st, [])
          else if display_of d st = None
          then (on_device_socket k (\<lambda>s. s\<lparr>sk_auth := False, sk_device := None\<rparr>) st,
                [ToSocket k ''device:unpaired'' (JObj [(''reason'', JStr ''not_found'')])])
          else (let telemetry = fld data ''telemetry'';
                    st1 = st\<lparr>dv_heart := update_heartbeat d now (dv_heart st)\<rparr>;
                    st2 = on_row d (beat_row now) st1
                in (st2, [BeatRecorded d]
                      @ (if truthy telemetry
                         then [TelemetryStored d telemetry, ToWorkspace d ''dashboard:device-status''
                                 (JObj [(''device_id'', JStr d), (''status'', JStr ''online''), (''telemetry'', telemetry)])]
                         else [])
                      @ beat_answer playlist k d (sk_block s) (fld data ''audio_policy_state''))))"

definition device_playlist_sync :: "(string \<Rightarrow> jsval) \<Rightarrow> int \<Rightarrow> string \<Rightarrow> device_socket \<Rightarrow> jsval \<Rightarrow> device_server \<Rightarrow> device_server \<times> device_effect list" where
  "device_playlist_sync playlist now k s data st =
     (case require_device_auth s of
        None \<Rightarrow> (st, [auth_error k])
      | Some d \<Rightarrow>
          if now - sk_sync_at s < 1000 then (st, [Reply k (JObj [(''ok'', JBool False), (''rate_limited'', JBool True)])])
          else (on_device_socket k (\<lambda>s. s\<lparr>sk_sync_at := now\<rparr>) st,
            (case sk_block s of
               Some reason \<Rightarrow> [ToSocket k ''device:audio-policy-clamp'' (clamp_message reason JNull),
                 Reply k (JObj [(''ok'', JBool False), (''fail_muted'', JBool True), (''error'', JStr reason)])]
             | None \<Rightarrow>
                 (let p = playlist d; rev = fld p ''playlist_revision'' in
                  if truthy (fld p ''delivery_blocked'')
                  then [ToSocket k ''device:playlist-update'' p,
                        Reply k (JObj [(''ok'', JBool False), (''delivery_blocked'', JBool True),
                          (''error'', fld p ''delivery_block_reason''), (''playlist_revision'', rev)])]
                  else (let changed = (case fld data ''playlist_revision'' of JStr a \<Rightarrow> a = [] \<or> rev \<noteq> JStr a | _ \<Rightarrow> True) in
                    (if changed then [ToSocket k ''device:playlist-update'' p] else [])
                    @ [Reply k (JObj [(''ok'', JBool True), (''changed'', JBool changed), (''playlist_revision'', rev)])])))))"

definition to_int :: "jsval \<Rightarrow> jsval" where
  "to_int v = (case to_num v of Fin q \<Rightarrow> jint (js_round q) | _ \<Rightarrow> JNull)"

definition to_real :: "jsval \<Rightarrow> jsval" where
  "to_real v = (case to_num v of Fin q \<Rightarrow> JNum (Fin q) | _ \<Rightarrow> JNull)"

definition oriented :: "jsval \<Rightarrow> enrolled_row \<Rightarrow> enrolled_row" where
  "oriented v r = (if v = JStr ''landscape'' \<or> v = JStr ''portrait'' then r\<lparr>dr_orientation := to_str v\<rparr> else r)"

definition sized :: "jsval \<Rightarrow> jsval \<Rightarrow> enrolled_row \<Rightarrow> enrolled_row" where
  "sized w h r = (if \<not> dr_auto_detect r then r
     else r\<lparr>dr_width := (if w = JNull then dr_width r else w), dr_height := (if h = JNull then dr_height r else h)\<rparr>)"

definition display_viewport :: "int \<Rightarrow> string \<Rightarrow> device_socket \<Rightarrow> jsval \<Rightarrow> device_server \<Rightarrow> device_server \<times> device_effect list" where
  "display_viewport now k s data st =
     (case require_device_auth s of
        None \<Rightarrow> (st, [auth_error k])
      | Some d \<Rightarrow>
          (case display_of d st of
             None \<Rightarrow> (st, [])
           | Some r \<Rightarrow>
               (let shown = (\<lambda>f. to_int (fld data f)); caps = js_or (fld data ''capabilities'') (JObj []); seconds = now div 1000;
                    change = (\<lambda>r. sized (shown ''screen_w'') (shown ''screen_h'') (oriented (fld data ''orientation'')
                      (r\<lparr>dr_viewport := JObj [(''viewport_css_w'', shown ''css_w''), (''viewport_css_h'', shown ''css_h''),
                         (''device_pixel_ratio'', to_real (fld data ''device_pixel_ratio'')), (''refresh_hz'', shown ''refresh_hz''),
                         (''capabilities_json'', caps), (''last_viewport_at'', jint seconds)]\<rparr>)));
                    r' = change r
                in (on_row d change st,
                    [ToWorkspace d ''dashboard:device-status'' (JObj [(''device_id'', JStr d), (''status'', JStr ''online''),
                      (''viewport'', JObj [(''css_w'', shown ''css_w''), (''css_h'', shown ''css_h''), (''screen_w'', dr_width r'),
                        (''screen_h'', dr_height r'), (''device_pixel_ratio'', to_real (fld data ''device_pixel_ratio'')),
                        (''refresh_hz'', shown ''refresh_hz''), (''orientation'', JStr (dr_orientation r')),
                        (''capabilities'', caps), (''last_viewport_at'', jint seconds)])])]))))"

definition device_content_ack :: "string \<Rightarrow> device_socket \<Rightarrow> jsval \<Rightarrow> device_effect list option" where
  "device_content_ack k s data =
     (case require_device_auth s of
        None \<Rightarrow> Some [auth_error k]
      | Some d \<Rightarrow>
          if is_nullish data then None
          else if fld data ''device_id'' \<noteq> JStr d then Some []
          else Some [ToWorkspace d ''dashboard:content-ack'' (JObj [(''device_id'', JStr d),
            (''content_id'', fld data ''content_id''), (''status'', fld data ''status'')])])"

definition device_playback_state :: "string \<Rightarrow> device_socket \<Rightarrow> jsval \<Rightarrow> device_effect list" where
  "device_playback_state k s data =
     (case require_device_auth s of None \<Rightarrow> [auth_error k] | Some d \<Rightarrow> [ToWorkspace d ''dashboard:playback-state'' data])"

subsection \<open>Claiming a display\<close>

definition claim_refused :: "int \<Rightarrow> string \<Rightarrow> int \<times> jsval" where
  "claim_refused status message = (status, JObj [(''error'', JStr message)])"

text \<open>The checks of the route: the display, the workspace and the name of it, or the status and body of the refusal; for an exception
  the message is the one of the database.\<close>

definition claim_target :: "string \<Rightarrow> string option \<Rightarrow> jsval \<Rightarrow> int \<Rightarrow> device_server \<Rightarrow> (int \<times> jsval) + (enrolled_row \<times> string \<times> string)" where
  "claim_target user ws body seconds st =
     (let pc = fld body ''pairing_code'' in
      if \<not> truthy pc then Inl (claim_refused 400 ''pairing_code required'')
      else (case ws of None \<Rightarrow> Inl (claim_refused 403 ''No workspace context. Switch to a workspace before pairing.'')
       | Some w \<Rightarrow>
        (case bind_text pc of
          None \<Rightarrow> Inl (claim_refused 500 ''Server error'')
        | Some c \<Rightarrow>
         (case find (\<lambda>r. c \<noteq> None \<and> dr_code r = c) (dv_rows st) of
           None \<Rightarrow> Inl (claim_refused 404 ''No device found with that pairing code'')
         | Some r \<Rightarrow>
            if \<not> is_pairing_code_active r seconds then Inl (claim_refused 410 ''Pairing code expired. Refresh the display for a new code.'')
            else (let count = length (filter (\<lambda>r. dr_user r = Some user) (dv_rows st));
                      name = (if truthy (fld body ''name'') then fld body ''name'' else JStr (''Display '' @ nat_str (Suc count))) in
             (case bind_text name of
                Some (Some n) \<Rightarrow>
                  if \<not> (case dr_expires r of None \<Rightarrow> False | Some e \<Rightarrow> e > seconds)
                  then Inl (claim_refused 409 ''Pairing code was already used or expired.'') else Inr (r, w, n)
              | _ \<Rightarrow> Inl (claim_refused 500 ''Server error'')))))))"

definition claim_row :: "string \<Rightarrow> string \<Rightarrow> string \<Rightarrow> enrolled_row \<Rightarrow> enrolled_row" where
  "claim_row user w n r = r\<lparr>dr_code := None, dr_expires := None, dr_name := n, dr_user := Some user, dr_workspace := Some w,
     dr_status := ''online''\<rparr>"

definition provision_pair :: "string \<Rightarrow> string option \<Rightarrow> jsval \<Rightarrow> int \<Rightarrow> device_server \<Rightarrow> device_server \<times> device_effect list \<times> int \<times> jsval" where
  "provision_pair user ws body now st =
     (case claim_target user ws body (now div 1000) st of
        Inl refusal \<Rightarrow> (st, [], refusal)
      | Inr (r, w, n) \<Rightarrow>
          (let shown = JObj [(''id'', JStr (dr_id r)), (''name'', JStr n), (''workspace_id'', JStr w), (''status'', JStr ''online'')];
               linked = map (\<lambda>f. if fp_device f = Some (dr_id r) then f\<lparr>fp_user := Some user\<rparr> else f) (dv_prints st)
           in ((on_row (dr_id r) (claim_row user w n) st)\<lparr>dv_prints := linked\<rparr>,
               [ToRoom (dr_id r) ''device:paired'' (JObj [(''device_id'', JStr (dr_id r)), (''name'', JStr n)]),
                ToWorkspace (dr_id r) ''dashboard:device-added'' shown],
               (200, shown))))"

subsection \<open>Histories\<close>

text \<open>The events of the server; a handler only runs for a connected socket. Displays are also imported with a code, retired and
  deleted by hand.\<close>

datatype device_event =
    SockConnects string string
  | SockRegisters string string string jsval     \<comment> \<open>socket, id and token drawn, message\<close>
  | AudioSettles nat bool
  | SockBeats string jsval
  | SockSyncs string jsval
  | SockViewport string jsval
  | SockAcks string jsval
  | SockPlays string jsval
  | SockDisconnects string
  | TimerFires string
  | SweepRuns int
  | Pairs string "string option" jsval
  | RowImported enrolled_row
  | RowRetired string bool
  | RowDeleted string

definition delete_display :: "string \<Rightarrow> device_server \<Rightarrow> device_server" where
  "delete_display d st = release_prints (st\<lparr>dv_rows := filter (\<lambda>r. dr_id r \<noteq> d) (dv_rows st)\<rparr>)"

definition with_socket :: "string \<Rightarrow> device_server \<Rightarrow> (device_socket \<Rightarrow> (device_server \<times> device_effect list) option) \<Rightarrow> (device_server \<times> device_effect list) option" where
  "with_socket k st f = (case map_of (dv_sockets st) k of None \<Rightarrow> Some (st, []) | Some s \<Rightarrow> f s)"

fun device_step :: "(int \<Rightarrow> string \<Rightarrow> jsval) \<Rightarrow> int \<times> device_event \<Rightarrow> device_server \<Rightarrow> (device_server \<times> device_effect list) option" where
  "device_step playlist (now, SockConnects k ip) st =
     Some (if map_of (dv_sockets st) k \<noteq> None then st
           else st\<lparr>dv_sockets := dv_sockets st @ [(k, \<lparr>sk_device = None, sk_auth = False, sk_sync_at = 0, sk_block = None,
                  sk_rooms = [], sk_ip = ip\<rparr>)]\<rparr>, [])"
| "device_step playlist (now, SockRegisters k d token data) st = with_socket k st (\<lambda>s. device_register d token now k s data st)"
| "device_step playlist (now, AudioSettles n ok) st = Some (audio_settles (playlist now) n ok st)"
| "device_step playlist (now, SockBeats k data) st = with_socket k st (\<lambda>s. Some (device_heartbeat (playlist now) now k s data st))"
| "device_step playlist (now, SockSyncs k data) st = with_socket k st (\<lambda>s. Some (device_playlist_sync (playlist now) now k s data st))"
| "device_step playlist (now, SockViewport k data) st = with_socket k st (\<lambda>s. Some (display_viewport now k s data st))"
| "device_step playlist (now, SockAcks k data) st = with_socket k st (\<lambda>s. map_option (Pair st) (device_content_ack k s data))"
| "device_step playlist (now, SockPlays k data) st = with_socket k st (\<lambda>s. Some (st, device_playback_state k s data))"
| "device_step playlist (now, SockDisconnects k) st = Some (socket_disconnects now k st, [])"
| "device_step playlist (now, TimerFires d) st = Some (timer_fires now d st)"
| "device_step playlist (now, SweepRuns timeout) st = Some (sweep_displays timeout now st, [])"
| "device_step playlist (now, Pairs user ws body) st = (let (st', effects, _) = provision_pair user ws body now st in Some (st', effects))"
| "device_step playlist (now, RowImported r) st =
     (if dr_id r \<in> dr_id ` set (dv_rows st) \<or> (dr_code r \<noteq> None \<and> dr_code r \<in> dr_code ` set (dv_rows st)) then Some (st, [])
      else Some (st\<lparr>dv_rows := dv_rows st @ [r]\<rparr>, []))"
| "device_step playlist (now, RowRetired d b) st = Some (on_row d (\<lambda>r. r\<lparr>dr_retired := b\<rparr>) st, [])"
| "device_step playlist (now, RowDeleted d) st = Some (delete_display d st, [])"

text \<open>A history of the process: it is over when an exception has left a handler.\<close>

definition device_next :: "(int \<Rightarrow> string \<Rightarrow> jsval) \<Rightarrow> int \<times> device_event \<Rightarrow> device_server option \<Rightarrow> device_server option" where
  "device_next playlist e m = (case m of None \<Rightarrow> None | Some st \<Rightarrow> map_option fst (device_step playlist e st))"

definition device_run :: "(int \<Rightarrow> string \<Rightarrow> jsval) \<Rightarrow> (int \<times> device_event) list \<Rightarrow> device_server option \<Rightarrow> device_server option" where
  "device_run playlist es m = run_events (device_next playlist) es m"

definition no_displays :: device_server where
  "no_displays = \<lparr>dv_rows = [], dv_prints = [], dv_sockets = [],
     dv_heart = \<lparr>hb_connections = [], hb_devices = [], hb_play_logs = [], hb_team_invites = [], hb_workspace_invites = [], hb_effects = []\<rparr>,
     dv_timers = [], dv_waiting = []\<rparr>"


subsection \<open>Lemmas of the state\<close>

lemma display_of_id: "display_of d st = Some r \<Longrightarrow> dr_id r = d"
  by (auto simp: display_of_def find_Some_iff)

lemma display_of_None: "display_of d st = None \<longleftrightarrow> d \<notin> dr_id ` set (dv_rows st)"
  by (auto simp: display_of_def find_None_iff)

lemma find_map_keeping:
  "(\<And>r. dr_id (f r) = dr_id r) \<Longrightarrow>
     find (\<lambda>r. dr_id r = e) (map (\<lambda>r. if dr_id r = d then f r else r) rows) =
     map_option (\<lambda>r. if e = d then f r else r) (find (\<lambda>r. dr_id r = e) rows)"
  by (induction rows) auto

lemma display_of_on_row:
  "(\<And>r. dr_id (f r) = dr_id r) \<Longrightarrow> display_of e (on_row d f st) = map_option (\<lambda>r. if e = d then f r else r) (display_of e st)"
  by (simp add: display_of_def on_row_def find_map_keeping)

lemma ids_on_row [simp]: "(\<And>r. dr_id (f r) = dr_id r) \<Longrightarrow> map dr_id (dv_rows (on_row d f st)) = map dr_id (dv_rows st)"
  by (auto simp: on_row_def)

lemma on_row_fields [simp]:
  "dv_prints (on_row d f st) = dv_prints st" "dv_sockets (on_row d f st) = dv_sockets st" "dv_heart (on_row d f st) = dv_heart st"
  "dv_timers (on_row d f st) = dv_timers st" "dv_waiting (on_row d f st) = dv_waiting st"
  by (simp_all add: on_row_def)

lemma on_device_socket_fields [simp]:
  "dv_rows (on_device_socket k f st) = dv_rows st" "dv_prints (on_device_socket k f st) = dv_prints st"
  "dv_heart (on_device_socket k f st) = dv_heart st" "dv_timers (on_device_socket k f st) = dv_timers st"
  "dv_waiting (on_device_socket k f st) = dv_waiting st"
  "map_of (dv_sockets (on_device_socket k f st)) j = (if j = k then map_option f (map_of (dv_sockets st) k) else map_of (dv_sockets st) j)"
  by (simp_all add: on_device_socket_def map_of_map_entry) (auto split: option.split)

lemma socket_disconnects_fields [simp]:
  "dv_rows (socket_disconnects now k st) = dv_rows st" "dv_prints (socket_disconnects now k st) = dv_prints st"
  "dv_heart (socket_disconnects now k st) = dv_heart st" "dv_waiting (socket_disconnects now k st) = dv_waiting st"
  "map_of (dv_sockets (socket_disconnects now k st)) j = (if j = k then None else map_of (dv_sockets st) j)"
  by (auto simp: socket_disconnects_def Let_def delete_conv' split: option.splits)

lemma evict_prior_socket_fields [simp]:
  "dv_rows (evict_prior_socket now d k st) = dv_rows st" "dv_prints (evict_prior_socket now d k st) = dv_prints st"
  "dv_heart (evict_prior_socket now d k st) = dv_heart st" "dv_waiting (evict_prior_socket now d k st) = dv_waiting st"
  "map_of (dv_sockets (evict_prior_socket now d k st)) k = map_of (dv_sockets st) k"
  by (auto simp: evict_prior_socket_def split: option.splits)

lemma take_over_fields [simp]:
  "dv_rows (take_over now d k st) = dv_rows st" "dv_prints (take_over now d k st) = dv_prints st"
  "dv_heart (take_over now d k st) = dv_heart st" "dv_waiting (take_over now d k st) = dv_waiting st"
  by (simp_all add: take_over_def)

lemma bind_print_fields [simp]:
  "dv_rows (bind_print p d st) = dv_rows st" "dv_sockets (bind_print p d st) = dv_sockets st" "dv_heart (bind_print p d st) = dv_heart st"
  "dv_timers (bind_print p d st) = dv_timers st" "dv_waiting (bind_print p d st) = dv_waiting st"
  by (simp_all add: bind_print_def)

lemma attach_socket_fields [simp]:
  "dv_rows (attach_socket now d k st) = dv_rows st" "dv_prints (attach_socket now d k st) = dv_prints st"
  "dv_timers (attach_socket now d k st) = dv_timers st" "dv_waiting (attach_socket now d k st) = dv_waiting st"
  "dv_heart (attach_socket now d k st) = register_connection d k now (dv_heart st)"
  "map_of (dv_sockets (attach_socket now d k st)) j =
     (if j = k then map_option (\<lambda>s. s\<lparr>sk_rooms := sk_rooms s @ [d]\<rparr>) (map_of (dv_sockets st) k) else map_of (dv_sockets st) j)"
  by (simp_all add: attach_socket_def)

lemma track_fingerprint_fields [simp]:
  "dv_rows (track_fingerprint data st) = dv_rows st" "dv_sockets (track_fingerprint data st) = dv_sockets st"
  "dv_heart (track_fingerprint data st) = dv_heart st" "dv_timers (track_fingerprint data st) = dv_timers st"
  "dv_waiting (track_fingerprint data st) = dv_waiting st"
  by (simp_all add: track_fingerprint_def Let_def)

lemma release_prints_fields [simp]:
  "dv_rows (release_prints st) = dv_rows st" "dv_sockets (release_prints st) = dv_sockets st" "dv_heart (release_prints st) = dv_heart st"
  "dv_timers (release_prints st) = dv_timers st" "dv_waiting (release_prints st) = dv_waiting st"
  by (simp_all add: release_prints_def)

lemma reported_id [simp]: "dr_id (reported info r) = dr_id r" "dr_user (reported info r) = dr_user r" "dr_code (reported info r) = dr_code r"
  "dr_workspace (reported info r) = dr_workspace r" "dr_token (reported info r) = dr_token r"
  by (simp_all add: reported_def)

lemma display_of_rows: "dv_rows st' = dv_rows st \<Longrightarrow> display_of d st' = display_of d st"
  by (simp add: display_of_def)

end
