(* ===== verification/DeviceSessionProps.thy ===== *)
theory DeviceSessionProps
  imports DeviceSession
begin

text \<open>
  What the registration of displays guarantees, over the model of \<open>DeviceSession\<close>: claimed displays cannot be taken over,
  identities are proven, a served display stays online, and a display that is back stays silent until its audio owner is
  settled. The process is a machine of \<open>Machines\<close> whose states have displays with distinct ids.
\<close>

subsection \<open>Claimed displays\<close>

text \<open>The display \<open>d\<close> is claimed by a user for a workspace, holds a token and has no code left.\<close>

definition claimed :: "string \<Rightarrow> string \<Rightarrow> string option \<Rightarrow> string \<Rightarrow> device_server \<Rightarrow> bool" where
  "claimed d user ws token st \<longleftrightarrow> token \<noteq> [] \<and> (case display_of d st of None \<Rightarrow> False
     | Some r \<Rightarrow> dr_user r = Some user \<and> dr_workspace r = ws \<and> dr_token r = Some token \<and> dr_code r = None)"

definition distinct_displays :: "device_server \<Rightarrow> bool" where
  "distinct_displays st \<longleftrightarrow> distinct (map dr_id (dv_rows st))"

lemma claimed_rows: "dv_rows st' = dv_rows st \<Longrightarrow> claimed d u w t st' = claimed d u w t st"
  by (simp add: claimed_def display_of_def)

lemma claimed_on_row:
  assumes "claimed d u w t st" "\<And>r. dr_id (f r) = dr_id r"
    and "\<And>r. e = d \<Longrightarrow> dr_user r = Some u \<Longrightarrow> dr_workspace r = w \<Longrightarrow> dr_token r = Some t \<Longrightarrow> dr_code r = None \<Longrightarrow>
      dr_user (f r) = Some u \<and> dr_workspace (f r) = w \<and> dr_token (f r) = Some t \<and> dr_code (f r) = None"
  shows "claimed d u w t (on_row e f st)"
  using assms by (auto simp: claimed_def display_of_on_row split: option.splits)

lemma pending_unclaimed:
  assumes "find_reusable_pending_enrollment (dv_rows st) v = Some r"
  shows "r \<in> set (dv_rows st)" "dr_user r = None" "dr_workspace r = None" "\<not> dr_retired r" "dr_code r = Some (text_of v)"
  using assms by (auto simp: find_reusable_pending_enrollment_def normalized_text_def Let_def find_Some_iff split: if_splits)

lemma find_distinct: "distinct (map f xs) \<Longrightarrow> x \<in> set xs \<Longrightarrow> find (\<lambda>y. f y = f x) xs = Some x"
  by (induction xs) (auto simp: image_iff)

lemma distinct_display_of: "distinct_displays st \<Longrightarrow> r \<in> set (dv_rows st) \<Longrightarrow> display_of (dr_id r) st = Some r"
  unfolding distinct_displays_def display_of_def by (rule find_distinct)

subsection \<open>What a registration does\<close>

lemma device_register_cases:
  assumes "device_register nd nt now k s data st = Some (st', eff)"
  obtains (resume) r where "\<not> truthy (fld data ''device_id'')" "six_digits (fld data ''pairing_code'')"
      "find_reusable_pending_enrollment (dv_rows st) (fld data ''pairing_code'') = Some r"
      "resume_enrollment nt now k (sk_ip s) data r st = Some (st', eff)"
    | (reconnect) i r where "fld data ''device_id'' = JStr i" "i \<noteq> []" "display_of i st = Some r"
      "reconnect_display nt now k (sk_ip s) data r (track_fingerprint data st) = Some (st', eff)"
    | (enroll) "\<not> truthy (fld data ''device_id'')" "six_digits (fld data ''pairing_code'')"
      "enroll_display nd nt now k (sk_ip s) data (track_fingerprint data st) = Some (st', eff)"
    | (idle) "st' = track_fingerprint data st" "eff = [] \<or> eff = [ToSocket k ''device:unpaired'' (JObj [(''reason'', JStr ''not_found'')])]"
proof -
  let ?did = "fld data ''device_id''" and ?pc = "fld data ''pairing_code''" and ?st = "track_fingerprint data st"
  let ?pending = "if \<not> truthy ?did \<and> six_digits ?pc then find_reusable_pending_enrollment (dv_rows st) ?pc else None"
  have null: "\<not> is_nullish data" using assms by (auto simp: device_register_def Let_def)
  show thesis
  proof (cases ?pending)
    case (Some r)
    with null assms have "resume_enrollment nt now k (sk_ip s) data r st = Some (st', eff)" by (simp add: device_register_def Let_def)
    with Some show thesis by (intro resume [of r]) (auto split: if_splits)
  next
    case None
    note none = None
    have rest: "(if truthy ?did
        then (if \<not> bindable ?did then None
              else (case (case ?did of JStr i \<Rightarrow> display_of i ?st | _ \<Rightarrow> None) of
                  Some r \<Rightarrow> reconnect_display nt now k (sk_ip s) data r ?st
                | None \<Rightarrow> Some (?st, [ToSocket k ''device:unpaired'' (JObj [(''reason'', JStr ''not_found'')])])))
        else if six_digits ?pc then enroll_display nd nt now k (sk_ip s) data ?st else Some (?st, [])) = Some (st', eff)"
      using assms null none unfolding device_register_def Let_def by simp
    show thesis
    proof (cases "truthy ?did")
      case False
      with rest show thesis by (cases "six_digits ?pc") (auto intro: enroll idle)
    next
      case True
      note t = True
      show thesis
      proof (cases "case ?did of JStr i \<Rightarrow> display_of i ?st | _ \<Rightarrow> None")
        case None
        with rest t show thesis by (intro idle) (auto split: if_splits)
      next
        case (Some r)
        then obtain i where i: "?did = JStr i" "display_of i ?st = Some r" by (cases ?did) auto
        with rest t Some have "reconnect_display nt now k (sk_ip s) data r ?st = Some (st', eff)" by (simp split: if_splits)
        with i t show thesis by (intro reconnect [of i r]) (auto simp: display_of_def)
      qed
    qed
  qed
qed

lemma resume_enrollment_state:
  assumes "resume_enrollment nt now k ip data r st = Some (st', eff)"
  obtains f where "st' = attach_socket now (dr_id r) k (bind_print (fld data ''fingerprint'') (dr_id r) (on_row (dr_id r) f (take_over now (dr_id r) k st)))"
    "\<And>q. dr_id (f q) = dr_id q" "eff = [ToSocket k ''device:registered'' (registered_reply (dr_id r) nt ''provisioning'' [])]"
    "\<And>q. dr_user (f q) = dr_user q \<and> dr_workspace (f q) = dr_workspace q \<and> dr_code (f q) = dr_code q \<and> dr_token (f q) = Some nt"
  using assms by (auto simp: resume_enrollment_def Let_def reported_def split: if_splits)

lemma reconnected_fields [simp]:
  "dr_id (reconnected t now ip info r) = dr_id r" "dr_user (reconnected t now ip info r) = dr_user r"
  "dr_workspace (reconnected t now ip info r) = dr_workspace r" "dr_code (reconnected t now ip info r) = dr_code r"
  "dr_token (reconnected t now ip info r) = Some (token_to_send t r)" "dr_status (reconnected t now ip info r) = ''online''"
  by (simp_all add: reconnected_def Let_def)

lemma token_to_send_kept: "dr_token r = Some t \<Longrightarrow> t \<noteq> [] \<Longrightarrow> token_to_send nt r = t"
  by (simp add: token_to_send_def)

text \<open>A reconnection is refused, or rewrites the row of the display and leaves its owner alone; the token stays when it had one.\<close>

lemma reconnect_display_state:
  assumes "reconnect_display nt now k ip data r st = Some (st', eff)"
  obtains (refused) "st' = st" "eff = [ToSocket k ''device:auth-error'' (JObj [(''error'', JStr ''Invalid device token'')])]"
    | (joined) "\<not> has_token r \<or> validate_device_token (dr_id r) (fld data ''device_token'') st"
      "st' = (on_device_socket k (\<lambda>s. s\<lparr>sk_block := Some ''audio_reconnect_recovery_pending''\<rparr>)
          (attach_socket now (dr_id r) k (on_row (dr_id r) (reconnected nt now ip (fld data ''device_info'')) (take_over now (dr_id r) k st))))
          \<lparr>dv_waiting := dv_waiting st @ [(k, dr_id r, dr_wall r)]\<rparr>"
      "eff = [ToSocket k ''device:registered'' (registered_reply (dr_id r) (token_to_send nt r) ''online'' [(''audio_ready'', JBool False)]),
              StatusLogged (dr_id r) ''online'', AudioEnsured (dr_id r)]"
  using assms by (auto simp: reconnect_display_def Let_def split: if_splits)

lemma enroll_display_state:
  assumes "enroll_display nd nt now k ip data st = Some (st', eff)"
  obtains row where "nd \<notin> dr_id ` set (dv_rows st)" "dr_id row = nd" "dr_token row = Some nt" "dr_user row = None" "dr_workspace row = None"
    "st' = attach_socket now nd k (bind_print (fld data ''fingerprint'') nd
        ((on_device_socket k (\<lambda>s. s\<lparr>sk_device := Some nd, sk_auth := True\<rparr>) st)\<lparr>dv_rows := dv_rows st @ [row]\<rparr>))"
    "eff = [ToSocket k ''device:registered'' (registered_reply nd nt ''provisioning'' []), ToWorkspace nd ''dashboard:device-added'' (JObj [(''id'', JStr nd)])]"
proof -
  from assms obtain pc where pc: "bind_text (fld data ''pairing_code'') = Some pc"
    by (auto simp: enroll_display_def Let_def split: if_splits option.splits)
  show thesis
    by (rule that [of "reported (fld data ''device_info'') (new_display nd nt pc now ip)"])
      (use assms pc in \<open>auto simp: enroll_display_def Let_def new_display_def split: if_splits\<close>)
qed

text \<open>A claimed display stays claimed.\<close>

lemma claimed_on_row_of:
  assumes "claimed d u w t st" "\<And>r. dr_id (f r) = dr_id r"
    and "\<And>r. display_of e st = Some r \<Longrightarrow> dr_user (f r) = dr_user r \<and> dr_workspace (f r) = dr_workspace r \<and> dr_code (f r) = dr_code r
      \<and> (has_token r \<longrightarrow> dr_token (f r) = dr_token r)"
  shows "claimed d u w t (on_row e f st)"
  using assms by (auto simp: claimed_def display_of_on_row has_token_def split: option.splits)

lemma claimed_register:
  assumes "device_register nd nt now k s data st = Some (st', eff)" "claimed d u w t st" "distinct_displays st"
  shows "claimed d u w t st'"
  using assms(1)
proof (cases rule: device_register_cases)
  case (resume r)
  note p = pending_unclaimed [OF resume(3)]
  then have "dr_id r \<noteq> d" using assms(2) distinct_display_of [OF assms(3) p(1)] by (auto simp: claimed_def)
  from resume(4) obtain f where f: "st' = attach_socket now (dr_id r) k (bind_print (fld data ''fingerprint'') (dr_id r) (on_row (dr_id r) f (take_over now (dr_id r) k st)))"
    "\<And>q. dr_id (f q) = dr_id q" by (rule resume_enrollment_state) blast
  have "claimed d u w t (on_row (dr_id r) f (take_over now (dr_id r) k st))"
    by (rule claimed_on_row) (use assms(2) claimed_rows [of "take_over now (dr_id r) k st" st] f(2) \<open>dr_id r \<noteq> d\<close> in auto)
  then show ?thesis unfolding f(1) by (subst claimed_rows) simp_all
next
  case (reconnect i r)
  from reconnect(4) show ?thesis
  proof (cases rule: reconnect_display_state)
    case refused
    then show ?thesis using assms(2) by (subst claimed_rows [of _ st]) simp_all
  next
    case joined
    let ?st = "take_over now (dr_id r) k (track_fingerprint data st)"
    have "claimed d u w t (on_row (dr_id r) (reconnected nt now (sk_ip s) (fld data ''device_info'')) ?st)"
    proof (rule claimed_on_row_of)
      show "claimed d u w t ?st" using assms(2) claimed_rows [of ?st st] by simp
    qed (auto simp: has_token_def token_to_send_def split: option.splits)
    then show ?thesis unfolding joined(2) by (subst claimed_rows) simp_all
  qed
next
  case enroll
  from enroll(3) show ?thesis
  proof (rule enroll_display_state)
    fix row
    let ?st = "(on_device_socket k (\<lambda>s. s\<lparr>sk_device := Some nd, sk_auth := True\<rparr>) (track_fingerprint data st))\<lparr>dv_rows := dv_rows (track_fingerprint data st) @ [row]\<rparr>"
    assume row: "dr_id row = nd" "nd \<notin> dr_id ` set (dv_rows (track_fingerprint data st))"
      "st' = attach_socket now nd k (bind_print (fld data ''fingerprint'') nd ?st)"
    have "claimed d u w t ?st" using assms(2) by (auto simp: claimed_def display_of_def find_append split: option.splits)
    then show ?thesis unfolding row(3) by (subst claimed_rows) simp_all
  qed
next
  case idle
  then show ?thesis using assms(2) by (subst claimed_rows [of _ st]) simp_all
qed


lemma ids_sweep: "\<exists>P. map dr_id (dv_rows (sweep_displays timeout now st)) = filter P (map dr_id (dv_rows st))"
proof -
  let ?h = "heartbeat_tick timeout now ((dv_heart st)\<lparr>hb_devices := map hb_of (dv_rows st)\<rparr>)"
  have "map dr_id (List.map_filter (\<lambda>r. map_option (\<lambda>b. r\<lparr>dr_status := hb_status b\<rparr>) (row_of (dr_id r) ?h)) rows)
      = filter (\<lambda>d. row_of d ?h \<noteq> None) (map dr_id rows)" for rows
    by (induction rows) (auto simp: List.map_filter_simps split: option.split)
  then show ?thesis by (auto simp: sweep_displays_def Let_def)
qed

lemma find_kept_rows:
  "find (\<lambda>r. dr_id r = d) (List.map_filter (\<lambda>r. map_option (\<lambda>b. r\<lparr>dr_status := hb_status b\<rparr>) (g (dr_id r))) rows)
    = (case find (\<lambda>r. dr_id r = d) rows of None \<Rightarrow> None | Some r \<Rightarrow> map_option (\<lambda>b. r\<lparr>dr_status := hb_status b\<rparr>) (g d))"
proof (induction rows)
  case (Cons a rows)
  then show ?case by (cases "g (dr_id a)"; cases "dr_id a = d") (auto simp: List.map_filter_simps split: option.splits)
qed (simp add: List.map_filter_simps)

lemma display_of_sweep:
  assumes "distinct_displays st" "display_of d st = Some r"
  shows "display_of d (sweep_displays timeout now st) =
    (if dr_status r = ''online''
     then Some (if gone_silent timeout now (get_connection d (dv_heart st)) (hb_of r) then r\<lparr>dr_status := ''offline''\<rparr> else r)
     else if expired (now div 1000) (hb_of r) then None else Some r)"
proof -
  let ?v = "(dv_heart st)\<lparr>hb_devices := map hb_of (dv_rows st)\<rparr>"
  let ?h = "heartbeat_tick timeout now ?v"
  have ids: "distinct_ids ?v"
  proof -
    have "hb_id \<circ> hb_of = dr_id" by (simp add: fun_eq_iff hb_of_def)
    then show ?thesis using assms(1) by (simp add: distinct_ids_def distinct_displays_def)
  qed
  have row: "row_of d ?v = Some (hb_of r)"
  proof -
    have "find (\<lambda>b. hb_id b = d) (map hb_of rows) = map_option hb_of (find (\<lambda>r. dr_id r = d) rows)" for rows
      by (induction rows) (simp_all add: hb_of_def)
    then show ?thesis using assms(2) by (simp add: row_of_def display_of_def)
  qed
  note tick = tick_row(1) [OF ids row, of timeout now]
  have conn: "get_connection d ?v = get_connection d (dv_heart st)" by (simp add: get_connection_def)
  have "display_of d (sweep_displays timeout now st) = map_option (\<lambda>b. r\<lparr>dr_status := hb_status b\<rparr>) (row_of d ?h)"
    using assms(2) by (simp add: sweep_displays_def Let_def display_of_def find_kept_rows [of d "\<lambda>i. row_of i ?h"])
  then show ?thesis unfolding tick conn by (simp add: hb_of_def)
qed

lemma claimed_sweep:
  assumes "claimed d u w t st" "distinct_displays st"
  shows "claimed d u w t (sweep_displays timeout now st)"
proof -
  from assms(1) obtain r where r: "display_of d st = Some r" "dr_user r = Some u" by (auto simp: claimed_def split: option.splits)
  have "\<not> expired (now div 1000) (hb_of r)" using r(2) by (simp add: expired_def hb_of_def)
  with display_of_sweep [OF assms(2) r(1), of timeout now] assms(1) r show ?thesis by (simp add: claimed_def)
qed

lemma claim_target_Inr:
  assumes "claim_target user ws body seconds st = Inr (r, w, n)"
  shows "r \<in> set (dv_rows st)" "dr_code r \<noteq> None" "ws = Some w" "is_pairing_code_active r seconds"
proof -
  note chk = assms [unfolded claim_target_def Let_def checks_Inr]
  obtain w' c r' where c: "ws = Some w'" "find (\<lambda>r. c \<noteq> None \<and> dr_code r = c) (dv_rows st) = Some r'"
    "is_pairing_code_active r' seconds" "r' = r" "w' = w"
    using chk by (elim exE conjE) (rule that; simp)
  then show "r \<in> set (dv_rows st)" "dr_code r \<noteq> None" "ws = Some w" "is_pairing_code_active r seconds"
    by (auto simp: find_Some_iff)
qed

lemma claim_row_id [simp]: "dr_id (claim_row u w n r) = dr_id r"
  by (simp add: claim_row_def)

lemma claimed_pair:
  assumes "claimed d u w t st" "distinct_displays st"
  shows "claimed d u w t (fst (provision_pair user ws body now st))"
proof (cases "claim_target user ws body (now div 1000) st")
  case (Inr x)
  then obtain r w' n where x: "x = (r, w', n)" by (cases x)
  note r = claim_target_Inr [OF Inr [unfolded x]]
  from distinct_display_of [OF assms(2) r(1)] r(2) assms(1) have "dr_id r \<noteq> d" by (auto simp: claimed_def)
  then have "claimed d u w t (on_row (dr_id r) (claim_row user w' n) st)" using assms(1) by (intro claimed_on_row) auto
  then have "claimed d u w t ((on_row (dr_id r) (claim_row user w' n) st)\<lparr>dv_prints := f\<rparr>)" for f by (subst claimed_rows) simp_all
  then show ?thesis using Inr x by (simp add: provision_pair_def Let_def)
qed (use assms in \<open>simp add: provision_pair_def\<close>)

lemma distinct_on_row: "distinct_displays (on_row d f st) \<longleftrightarrow> distinct_displays st" if "\<And>r. dr_id (f r) = dr_id r"
  using that by (simp add: distinct_displays_def)

lemma distinct_rows: "dv_rows st' = dv_rows st \<Longrightarrow> distinct_displays st' \<longleftrightarrow> distinct_displays st"
  by (simp add: distinct_displays_def)

lemma distinct_register:
  assumes "device_register nd nt now k s data st = Some (st', eff)" "distinct_displays st"
  shows "distinct_displays st'"
  using assms(1)
proof (cases rule: device_register_cases)
  case (resume r)
  from resume(4) obtain f where "st' = attach_socket now (dr_id r) k (bind_print (fld data ''fingerprint'') (dr_id r) (on_row (dr_id r) f (take_over now (dr_id r) k st)))"
    "\<And>q. dr_id (f q) = dr_id q" by (rule resume_enrollment_state) blast
  then show ?thesis using assms(2) by (simp add: distinct_displays_def)
next
  case (reconnect i r)
  from reconnect(4) show ?thesis
    by (cases rule: reconnect_display_state) (use assms(2) in \<open>simp_all add: distinct_displays_def\<close>)
next
  case enroll
  from enroll(3) show ?thesis by (rule enroll_display_state) (use assms(2) in \<open>simp add: distinct_displays_def\<close>)
next
  case idle
  then show ?thesis using assms(2) by (simp add: distinct_displays_def)
qed

text \<open>Handlers that leave the rows alone, or change one row and keep its owner.\<close>

lemma heartbeat_state:
  obtains (ignored) "fst (device_heartbeat playlist now k s data st) = st"
  | (unpaired) "fst (device_heartbeat playlist now k s data st) = on_device_socket k (\<lambda>s. s\<lparr>sk_auth := False, sk_device := None\<rparr>) st"
      "\<And>d. require_device_auth s = Some d \<Longrightarrow> display_of d st = None"
  | (beat) d where "require_device_auth s = Some d" "fld data ''device_id'' = JStr d"
      "fst (device_heartbeat playlist now k s data st) = on_row d (beat_row now) (st\<lparr>dv_heart := update_heartbeat d now (dv_heart st)\<rparr>)"
proof (cases "require_device_auth s")
  case None
  then show thesis by (intro ignored) (simp add: device_heartbeat_def)
next
  case (Some d)
  consider "fld data ''device_id'' \<noteq> JStr d" | "fld data ''device_id'' = JStr d" "display_of d st = None"
    | "fld data ''device_id'' = JStr d" "display_of d st \<noteq> None" by blast
  then show thesis
  proof cases
    case 1
    with Some show thesis by (intro ignored) (simp add: device_heartbeat_def)
  next
    case 2
    with Some show thesis by (intro unpaired) (simp_all add: device_heartbeat_def)
  next
    case 3
    then obtain r where "display_of d st = Some r" by blast
    with 3 Some show thesis by (intro beat [of d]) (simp_all add: device_heartbeat_def Let_def)
  qed
qed

lemma beat_row_fields [simp]: "dr_id (beat_row now r) = dr_id r" "dr_user (beat_row now r) = dr_user r" "dr_code (beat_row now r) = dr_code r"
  "dr_workspace (beat_row now r) = dr_workspace r" "dr_token (beat_row now r) = dr_token r" "dr_status (beat_row now r) = ''online''"
  by (simp_all add: beat_row_def)

lemma sync_rows [simp]: "dv_rows (fst (device_playlist_sync playlist now k s data st)) = dv_rows st"
  by (auto simp: device_playlist_sync_def Let_def split: option.split)

lemma settle_rows [simp]: "dv_rows (fst (audio_settles playlist n ok st)) = dv_rows st"
  by (auto simp: audio_settles_def Let_def split: prod.split)

lemma viewport_rows:
  obtains d f where "dv_rows (fst (display_viewport now k s data st)) = dv_rows (on_row d f st)"
    "\<And>r. dr_id (f r) = dr_id r \<and> dr_user (f r) = dr_user r \<and> dr_workspace (f r) = dr_workspace r \<and> dr_code (f r) = dr_code r
      \<and> dr_token (f r) = dr_token r \<and> dr_status (f r) = dr_status r"
proof -
  have same: "dv_rows st = dv_rows (on_row d (\<lambda>r. r) st)" for d by (simp add: on_row_def)
  show thesis
  proof (cases "require_device_auth s")
    case None
    with same show thesis by (intro that [of "[]" "\<lambda>r. r"]) (simp_all add: display_viewport_def)
  next
    case (Some d)
    show thesis
    proof (cases "display_of d st")
      case None
      with Some same show thesis by (intro that [of "[]" "\<lambda>r. r"]) (simp_all add: display_viewport_def)
    next
      case (Some r)
      show thesis
        by (rule that [of d], use \<open>require_device_auth s = Some d\<close> Some in \<open>simp add: display_viewport_def Let_def\<close>)
          (simp add: sized_def oriented_def)
    qed
  qed
qed

lemma timer_rows:
  obtains "dv_rows (fst (timer_fires now d st)) = dv_rows st"
  | "dv_rows (fst (timer_fires now d st)) = dv_rows (on_row d (\<lambda>r. r\<lparr>dr_status := ''offline''\<rparr>) st)"
proof (cases "map_of (dv_timers st) d")
  case None
  then show thesis by (intro that(1)) (simp add: timer_fires_def)
next
  case (Some x)
  then obtain k due where x: "map_of (dv_timers st) d = Some (k, due)" by (cases x) simp
  let ?other = "case get_connection d (dv_heart st) of None \<Rightarrow> False | Some c \<Rightarrow> cn_socket c \<noteq> k"
  consider "now < due" | "\<not> now < due" ?other | "\<not> now < due" "\<not> ?other" by blast
  then show thesis
  proof cases
    case 3
    with x show thesis by (intro that(2)) (simp add: timer_fires_def Let_def on_row_def)
  qed (use x in \<open>auto intro!: that(1) simp: timer_fires_def Let_def\<close>)
qed


lemma with_socketE:
  assumes "with_socket k st f = Some (st', eff)"
  obtains "map_of (dv_sockets st) k = None" "st' = st" "eff = []" | s where "map_of (dv_sockets st) k = Some s" "f s = Some (st', eff)"
  using assms by (auto simp: with_socket_def split: option.splits)

lemma delete_display_of: "e \<noteq> d \<Longrightarrow> display_of d (delete_display e st) = display_of d st"
proof -
  assume "e \<noteq> d"
  then have "find (\<lambda>r. dr_id r = d) (filter (\<lambda>r. dr_id r \<noteq> e) rows) = find (\<lambda>r. dr_id r = d) rows" for rows by (induction rows) auto
  then show ?thesis by (simp add: delete_display_def display_of_def)
qed

text \<open>The rows a step leaves: what every property of the table rests on. \<open>P\<close> only looks at the rows.\<close>

lemma step_rows:
  assumes step: "device_step playlist (now, e) st = Some (st', eff)"
    and rows: "\<And>a b. dv_rows a = dv_rows b \<Longrightarrow> P a \<Longrightarrow> P b" and "P st"
    and row: "\<And>d f. (\<And>r. dr_id (f r) = dr_id r \<and> dr_user (f r) = dr_user r \<and> dr_workspace (f r) = dr_workspace r \<and> dr_code (f r) = dr_code r
        \<and> dr_token (f r) = dr_token r) \<Longrightarrow> P (on_row d f st)"
    and reg: "\<And>k nd nt s data x eff. device_register nd nt now k s data st = Some (x, eff) \<Longrightarrow> P x"
    and pair: "\<And>u ws body. P (fst (provision_pair u ws body now st))"
    and sweep: "\<And>timeout. P (sweep_displays timeout now st)"
    and imp: "\<And>r. dr_id r \<notin> dr_id ` set (dv_rows st) \<Longrightarrow> P (st\<lparr>dv_rows := dv_rows st @ [r]\<rparr>)"
    and del: "\<And>d. e = RowDeleted d \<Longrightarrow> P (delete_display d st)"
  shows "P st'"
proof -
  have beat: "P (fst (device_heartbeat (playlist now) now k s data st))" for k s data
  proof (cases rule: heartbeat_state [of "playlist now" now k s data st])
    case unpaired
    then show ?thesis using rows [OF _ \<open>P st\<close>] by simp
  next
    case (beat d)
    have "P (on_row d (beat_row now) st)" by (rule row) simp
    then show ?thesis unfolding beat(3) by (rule rows [rotated]) (simp add: on_row_def)
  qed (use \<open>P st\<close> in simp)
  have view: "P (fst (display_viewport now k s data st))" for k s data
  proof (rule viewport_rows [of now k s data st])
    fix d f assume v: "dv_rows (fst (display_viewport now k s data st)) = dv_rows (on_row d f st)"
      "\<And>r. dr_id (f r) = dr_id r \<and> dr_user (f r) = dr_user r \<and> dr_workspace (f r) = dr_workspace r \<and> dr_code (f r) = dr_code r
        \<and> dr_token (f r) = dr_token r \<and> dr_status (f r) = dr_status r"
    have "P (on_row d f st)" by (rule row) (use v(2) in blast)
    then show ?thesis by (rule rows [rotated]) (simp add: v(1))
  qed
  have timer: "P (fst (timer_fires now d st))" for d
  proof (rule timer_rows [of now d st])
    assume t: "dv_rows (fst (timer_fires now d st)) = dv_rows (on_row d (\<lambda>r. r\<lparr>dr_status := ''offline''\<rparr>) st)"
    have "P (on_row d (\<lambda>r. r\<lparr>dr_status := ''offline''\<rparr>) st)" by (rule row) simp
    then show ?thesis by (rule rows [rotated]) (simp add: t)
  qed (use rows [OF _ \<open>P st\<close>] in simp)
  have fst_of: "p = (x, y) \<longleftrightarrow> x = fst p \<and> y = snd p" for p :: "device_server \<times> device_effect list" and x y by (cases p) auto
  have same: "P x" if "dv_rows x = dv_rows st" for x using rows [OF _ \<open>P st\<close>, of x] that by simp
  show ?thesis
  proof (cases e)
    case (SockRegisters k nd nt data)
    with step obtain "with_socket k st (\<lambda>s. device_register nd nt now k s data st) = Some (st', eff)" by simp
    then show ?thesis by (cases rule: with_socketE) (use \<open>P st\<close> reg in auto)
  next
    case (SockBeats k data)
    with step have "with_socket k st (\<lambda>s. Some (device_heartbeat (playlist now) now k s data st)) = Some (st', eff)" by simp
    then show ?thesis by (cases rule: with_socketE) (use \<open>P st\<close> beat [of k _ data] in \<open>auto simp: fst_of\<close>)
  next
    case (SockViewport k data)
    with step have "with_socket k st (\<lambda>s. Some (display_viewport now k s data st)) = Some (st', eff)" by simp
    then show ?thesis by (cases rule: with_socketE) (use \<open>P st\<close> view [of k _ data] in \<open>auto simp: fst_of\<close>)
  next
    case (SockSyncs k data)
    with step have "with_socket k st (\<lambda>s. Some (device_playlist_sync (playlist now) now k s data st)) = Some (st', eff)" by simp
    then show ?thesis by (cases rule: with_socketE) (auto intro!: same simp: fst_of)
  next
    case (AudioSettles n ok)
    with step show ?thesis by (intro same) (simp add: fst_of)
  next
    case (TimerFires d)
    with step timer [of d] show ?thesis by (simp add: fst_of)
  next
    case (RowRetired d b)
    with step show ?thesis by (auto intro: row)
  next
    case (Pairs u ws body)
    with step pair [of u ws body] show ?thesis by (cases "provision_pair u ws body now st") auto
  next
    case (RowImported r)
    with step \<open>P st\<close> imp [of r] show ?thesis by (auto split: if_splits)
  next
    case (SockDisconnects k)
    with step show ?thesis by (intro same) auto
  next
    case (SockConnects k ip)
    with step show ?thesis by (intro same) auto
  qed (use step \<open>P st\<close> sweep del in \<open>auto elim!: with_socketE\<close>)
qed


lemma distinct_pair:
  assumes "distinct_displays st"
  shows "distinct_displays (fst (provision_pair u ws body now st))"
proof (cases "claim_target u ws body (now div 1000) st")
  case (Inr x)
  obtain r w n where "x = (r, w, n)" by (cases x)
  with Inr assms show ?thesis by (simp add: provision_pair_def Let_def distinct_displays_def)
qed (use assms in \<open>simp add: provision_pair_def\<close>)

lemma distinct_sweep: "distinct_displays st \<Longrightarrow> distinct_displays (sweep_displays timeout now st)"
  using ids_sweep [of timeout now st] by (auto simp: distinct_displays_def)

lemma step_distinct:
  assumes "device_step playlist (now, e) st = Some (st', eff)" "distinct_displays st"
  shows "distinct_displays st'"
proof (rule step_rows [OF assms(1), where P = distinct_displays])
  show "distinct_displays b" if "dv_rows a = dv_rows b" "distinct_displays a" for a b using that by (simp add: distinct_displays_def)
  show "distinct_displays (on_row d f st)" if "\<And>r. dr_id (f r) = dr_id r \<and> dr_user (f r) = dr_user r \<and> dr_workspace (f r) = dr_workspace r
      \<and> dr_code (f r) = dr_code r \<and> dr_token (f r) = dr_token r" for d f
    using that assms(2) by (simp add: distinct_displays_def)
  show "distinct_displays (delete_display d st)" for d
    using assms(2) by (simp add: distinct_displays_def delete_display_def distinct_map_filter)
qed (use assms(2) distinct_register distinct_pair distinct_sweep in \<open>auto simp: distinct_displays_def\<close>)

lemma step_claimed:
  assumes "device_step playlist (now, e) st = Some (st', eff)" "distinct_displays st" "claimed d u w t st" "e \<noteq> RowDeleted d"
  shows "claimed d u w t st'"
proof (rule step_rows [OF assms(1), where P = "claimed d u w t"])
  show "claimed d u w t b" if "dv_rows a = dv_rows b" "claimed d u w t a" for a b using that claimed_rows [of a b] by simp
  show "claimed d u w t (on_row e f st)" if "\<And>r. dr_id (f r) = dr_id r \<and> dr_user (f r) = dr_user r \<and> dr_workspace (f r) = dr_workspace r
      \<and> dr_code (f r) = dr_code r \<and> dr_token (f r) = dr_token r" for e f
    by (rule claimed_on_row_of) (use that assms(3) in auto)
  show "claimed d u w t (delete_display i st)" if "e = RowDeleted i" for i
    using that assms(3,4) by (auto simp: claimed_def delete_display_of)
  show "claimed d u w t (st\<lparr>dv_rows := dv_rows st @ [r]\<rparr>)" for r
    using assms(3) by (auto simp: claimed_def display_of_def find_append split: option.splits)
qed (use assms(2,3) claimed_register claimed_pair claimed_sweep in auto)

definition sound_process :: "device_server option \<Rightarrow> bool" where
  "sound_process m \<longleftrightarrow> (case m of None \<Rightarrow> True | Some st \<Rightarrow> distinct_displays st)"

lemma device_nextE:
  assumes "device_next playlist e (Some st) = Some st'"
  obtains eff where "device_step playlist e st = Some (st', eff)"
  using assms by (auto simp: device_next_def)

lemma sound_process_next: "sound_process m \<Longrightarrow> sound_process (device_next playlist e m)"
proof (cases "device_next playlist e m")
  case (Some st')
  assume m: "sound_process m"
  from Some obtain st eff where st: "m = Some st" "device_step playlist (fst e, snd e) st = Some (st', eff)"
    by (auto simp: device_next_def split: option.splits)
  then have "distinct_displays st" using m by (simp add: sound_process_def)
  with st(2) have "distinct_displays st'" by (rule step_distinct)
  with Some show ?thesis by (simp add: sound_process_def)
qed (simp add: sound_process_def)

interpretation displays: machine "device_next playlist" sound_process for playlist
  by unfold_locales (rule sound_process_next)

lemma device_run_keeps:
  assumes "device_run playlist es (Some st) = Some st'" "distinct_displays st" "P st"
    and "\<And>now e a b eff. (now, e) \<in> set es \<Longrightarrow> distinct_displays a \<Longrightarrow> P a \<Longrightarrow> device_step playlist (now, e) a = Some (b, eff) \<Longrightarrow> P b"
  shows "P st'"
proof -
  let ?P = "\<lambda>m. case m of None \<Rightarrow> True | Some st \<Rightarrow> P st"
  have "?P (run_events (device_next playlist) es (Some st))"
  proof (rule displays.run_keeps)
    fix e m assume e: "e \<in> set es" "sound_process m" "?P m"
    show "?P (device_next playlist e m)"
    proof (cases "device_next playlist e m")
      case (Some b)
      then obtain a eff where a: "m = Some a" "device_step playlist (fst e, snd e) a = Some (b, eff)"
        by (auto simp: device_next_def split: option.splits)
      have "P b" by (rule assms(4) [OF _ _ _ a(2)]) (use e a(1) in \<open>simp_all add: sound_process_def\<close>)
      with Some show ?thesis by simp
    qed simp
  qed (use assms(2,3) in \<open>simp_all add: sound_process_def\<close>)
  with assms(1) show ?thesis by (simp add: device_run_def)
qed

lemma reachable_distinct: "device_run playlist es (Some no_displays) = Some st \<Longrightarrow> distinct_displays st"
  by (rule device_run_keeps [of playlist es no_displays st distinct_displays]) (auto simp: distinct_displays_def no_displays_def dest: step_distinct [unfolded distinct_displays_def])

text \<open>C11: A display that is claimed cannot be taken over: whatever registers, pairs or expires afterwards, it keeps its user, its
  workspace and its token until an operator deletes it.\<close>

theorem claimed_display_kept:
  assumes "device_run playlist es (Some no_displays) = Some st" "claimed d user ws token st"
    and "device_run playlist fs (Some st) = Some st'" "list_all (\<lambda>(now, e). e \<noteq> RowDeleted d) fs"
  shows "claimed d user ws token st'"
  by (rule device_run_keeps [OF assms(3) reachable_distinct [OF assms(1)], of "claimed d user ws token"])
    (use assms(2,4) step_claimed in \<open>auto simp: list_all_iff\<close>)

subsection \<open>Identity\<close>

text \<open>What a registration has to show for an identity: the token of the display, when it has one; the code of a display that nobody
  has claimed; or nothing, for an id that was just drawn.\<close>

definition proves_identity :: "string \<Rightarrow> jsval \<Rightarrow> string \<Rightarrow> device_server \<Rightarrow> bool" where
  "proves_identity drawn data d st \<longleftrightarrow>
     (\<exists>r. display_of d st = Some r \<and> fld data ''device_id'' = JStr d
        \<and> (has_token r \<longrightarrow> buffer_from (fld data ''device_token'') = map_option (map code) (dr_token r)))
     \<or> (\<exists>r. r \<in> set (dv_rows st) \<and> dr_id r = d \<and> dr_user r = None \<and> dr_workspace r = None
        \<and> six_digits (fld data ''pairing_code'') \<and> dr_code r = Some (text_of (fld data ''pairing_code'')))
     \<or> (d = drawn \<and> d \<notin> dr_id ` set (dv_rows st))"

lemma timer_sockets [simp]: "dv_sockets (fst (timer_fires now d st)) = dv_sockets st"
proof (cases "map_of (dv_timers st) d")
  case (Some x)
  then show ?thesis by (cases x) (simp add: timer_fires_def Let_def)
qed (simp add: timer_fires_def)

text \<open>The display a socket stands for.\<close>

definition identity_of :: "string \<Rightarrow> device_server \<Rightarrow> string option" where
  "identity_of k st = Option.bind (map_of (dv_sockets st) k) sk_device"

lemma identity_sockets: "dv_sockets st' = dv_sockets st \<Longrightarrow> identity_of k st' = identity_of k st"
  by (simp add: identity_of_def)

lemma identity_on_device_socket:
  "(\<And>s. sk_device (f s) = sk_device s) \<Longrightarrow> identity_of j (on_device_socket k f st) = identity_of j st"
  by (cases "map_of (dv_sockets st) k") (auto simp: identity_of_def)

lemma identity_set:
  "identity_of j (on_device_socket k (\<lambda>s. s\<lparr>sk_device := Some d, sk_auth := True\<rparr>) st) =
     (if j = k then (if map_of (dv_sockets st) k = None then None else Some d) else identity_of j st)"
  by (cases "map_of (dv_sockets st) k") (auto simp: identity_of_def)

lemma identity_same [simp]:
  "identity_of j (on_row d g st) = identity_of j st" "identity_of j (bind_print p d st) = identity_of j st"
  "identity_of j (attach_socket now d k st) = identity_of j st" "identity_of j (track_fingerprint data st) = identity_of j st"
  "identity_of j (release_prints st) = identity_of j st" "identity_of j (st\<lparr>dv_waiting := w\<rparr>) = identity_of j st"
  "identity_of j (st\<lparr>dv_rows := rows\<rparr>) = identity_of j st" "identity_of j (st\<lparr>dv_timers := timers\<rparr>) = identity_of j st"
  "identity_of j (st\<lparr>dv_heart := h\<rparr>) = identity_of j st" "identity_of j (st\<lparr>dv_prints := prints\<rparr>) = identity_of j st"
  unfolding attach_socket_def by (simp_all add: identity_on_device_socket) (simp_all add: identity_of_def)

lemma identity_disconnects: "identity_of j (socket_disconnects now k st) = (if j = k then None else identity_of j st)"
  by (simp add: identity_of_def)

lemma identity_evicts: "identity_of j (evict_prior_socket now d k st) = identity_of j st \<or> (identity_of j (evict_prior_socket now d k st) = None \<and> j \<noteq> k)"
  by (auto simp: evict_prior_socket_def identity_disconnects split: option.splits)

lemma identity_take_over:
  assumes "identity_of j (take_over now d k st) = Some e"
  shows "identity_of j st = Some e \<or> (j = k \<and> e = d)"
  using assms identity_evicts [of j now d k "on_device_socket k (\<lambda>s. s\<lparr>sk_device := Some d, sk_auth := True\<rparr>) (st\<lparr>dv_timers := AList.delete d (dv_timers st)\<rparr>)"]
  unfolding take_over_def by (auto simp: identity_set split: if_splits)

lemma identity_register:
  assumes "device_register nd nt now k s data st = Some (st', eff)" "identity_of j st' = Some d" "identity_of j st \<noteq> Some d" "distinct_displays st"
  shows "j = k \<and> proves_identity nd data d st"
  using assms(1)
proof (cases rule: device_register_cases)
  case (resume r)
  from resume(4) obtain f where st': "st' = attach_socket now (dr_id r) k (bind_print (fld data ''fingerprint'') (dr_id r) (on_row (dr_id r) f (take_over now (dr_id r) k st)))"
    by (rule resume_enrollment_state) blast
  have "identity_of j (take_over now (dr_id r) k st) = Some d"
    using assms(2) unfolding st' by simp
  then have "j = k \<and> d = dr_id r" using identity_take_over assms(3) by blast
  moreover from this have "\<exists>r. r \<in> set (dv_rows st) \<and> dr_id r = d \<and> dr_user r = None \<and> dr_workspace r = None
      \<and> six_digits (fld data ''pairing_code'') \<and> dr_code r = Some (text_of (fld data ''pairing_code''))"
    using pending_unclaimed [OF resume(3)] resume(2) by (intro exI [of _ r]) simp
  ultimately show ?thesis unfolding proves_identity_def by simp
next
  case (reconnect i r)
  from reconnect(4) show ?thesis
  proof (cases rule: reconnect_display_state)
    case refused
    then show ?thesis using assms(2,3) by simp
  next
    case joined
    have id: "identity_of j (take_over now (dr_id r) k (track_fingerprint data st)) = Some d"
      using assms(2) unfolding joined(2) by (simp add: identity_on_device_socket)
    then have jk: "j = k" "d = dr_id r" using identity_take_over [OF id] assms(3) by simp_all
    have ri: "dr_id r = i" using reconnect(3) by (rule display_of_id)
    have "has_token r \<longrightarrow> buffer_from (fld data ''device_token'') = map_option (map code) (dr_token r)"
    proof
      assume "has_token r"
      with joined(1) have "validate_device_token i (fld data ''device_token'') (track_fingerprint data st)" by (simp add: ri)
      then show "buffer_from (fld data ''device_token'') = map_option (map code) (dr_token r)"
        using reconnect(3) by (auto simp: validate_device_token_def display_of_def split: if_splits option.splits)
    qed
    with reconnect(1,3) jk ri show ?thesis unfolding proves_identity_def by simp
  qed
next
  case enroll
  from enroll(3) show ?thesis
  proof (rule enroll_display_state)
    fix row
    let ?st = "(on_device_socket k (\<lambda>s. s\<lparr>sk_device := Some nd, sk_auth := True\<rparr>) (track_fingerprint data st))\<lparr>dv_rows := dv_rows (track_fingerprint data st) @ [row]\<rparr>"
    assume row: "nd \<notin> dr_id ` set (dv_rows (track_fingerprint data st))"
      "st' = attach_socket now nd k (bind_print (fld data ''fingerprint'') nd ?st)"
    have "identity_of j st' = identity_of j ?st" unfolding row(2) by simp
    with assms(2,3) have "j = k \<and> d = nd" by (simp add: identity_set split: if_splits)
    with row(1) show ?thesis unfolding proves_identity_def by simp
  qed
next
  case idle
  then show ?thesis using assms(2,3) by simp
qed



subsection \<open>Muted until the audio owner is settled\<close>

definition muted :: "string \<Rightarrow> device_server \<Rightarrow> bool" where
  "muted k st \<longleftrightarrow> (case map_of (dv_sockets st) k of None \<Rightarrow> True | Some s \<Rightarrow> sk_block s \<noteq> None)"

lemma muted_sockets: "dv_sockets st' = dv_sockets st \<Longrightarrow> muted k st' = muted k st"
  by (simp add: muted_def)

lemma muted_on_device_socket:
  "(\<And>s. sk_block s \<noteq> None \<Longrightarrow> sk_block (f s) \<noteq> None) \<Longrightarrow> muted k st \<Longrightarrow> muted k (on_device_socket j f st)"
  by (auto simp: muted_def split: option.splits)

lemma muted_disconnects: "muted k st \<Longrightarrow> muted k (socket_disconnects now j st)"
  by (simp add: muted_def)

lemma muted_take_over: "muted k st \<Longrightarrow> muted k (take_over now d j st)"
proof -
  assume m: "muted k st"
  then have "muted k (on_device_socket j (\<lambda>s. s\<lparr>sk_device := Some d, sk_auth := True\<rparr>) (st\<lparr>dv_timers := AList.delete d (dv_timers st)\<rparr>))"
    by (intro muted_on_device_socket) (simp_all add: muted_def)
  then show ?thesis unfolding take_over_def evict_prior_socket_def by (simp add: muted_disconnects split: option.split)
qed

lemma muted_attach: "muted k st \<Longrightarrow> muted k (attach_socket now d j st)"
  unfolding attach_socket_def by (rule muted_on_device_socket) (simp_all add: muted_def)

lemma muted_register:
  assumes "device_register nd nt now j s data st = Some (st', eff)" "muted k st"
  shows "muted k st' \<and> (\<forall>p. ToSocket k ''device:playlist-update'' p \<notin> set eff)"
  using assms(1)
proof (cases rule: device_register_cases)
  case (resume r)
  from resume(4) obtain f where st': "st' = attach_socket now (dr_id r) j (bind_print (fld data ''fingerprint'') (dr_id r) (on_row (dr_id r) f (take_over now (dr_id r) j st)))"
    "eff = [ToSocket j ''device:registered'' (registered_reply (dr_id r) nt ''provisioning'' [])]"
    by (rule resume_enrollment_state) blast
  have "muted k (bind_print (fld data ''fingerprint'') (dr_id r) (on_row (dr_id r) f (take_over now (dr_id r) j st)))"
    using muted_take_over [OF assms(2)] by (simp add: muted_def)
  then show ?thesis unfolding st' by (simp add: muted_attach)
next
  case (reconnect i r)
  have t: "muted k (track_fingerprint data st)" using assms(2) by (simp add: muted_def)
  from reconnect(4) show ?thesis
  proof (cases rule: reconnect_display_state)
    case joined
    let ?st = "on_row (dr_id r) (reconnected nt now (sk_ip s) (fld data ''device_info'')) (take_over now (dr_id r) j (track_fingerprint data st))"
    have "muted k ?st" using muted_take_over [OF t] by (simp add: muted_def)
    then have "muted k (on_device_socket j (\<lambda>s. s\<lparr>sk_block := Some ''audio_reconnect_recovery_pending''\<rparr>) (attach_socket now (dr_id r) j ?st))"
      by (intro muted_on_device_socket muted_attach) simp_all
    then show ?thesis unfolding joined(2,3) by (simp add: muted_def)
  qed (use t in simp)
next
  case enroll
  from enroll(3) show ?thesis
  proof (rule enroll_display_state)
    fix row
    let ?st = "(on_device_socket j (\<lambda>s. s\<lparr>sk_device := Some nd, sk_auth := True\<rparr>) (track_fingerprint data st))\<lparr>dv_rows := dv_rows (track_fingerprint data st) @ [row]\<rparr>"
    assume st': "st' = attach_socket now nd j (bind_print (fld data ''fingerprint'') nd ?st)"
      "eff = [ToSocket j ''device:registered'' (registered_reply nd nt ''provisioning'' []), ToWorkspace nd ''dashboard:device-added'' (JObj [(''id'', JStr nd)])]"
    have "muted k (on_device_socket j (\<lambda>s. s\<lparr>sk_device := Some nd, sk_auth := True\<rparr>) (track_fingerprint data st))"
      by (rule muted_on_device_socket) (use assms(2) in \<open>simp_all add: muted_def\<close>)
    then have "muted k (bind_print (fld data ''fingerprint'') nd ?st)" by (simp add: muted_def)
    then show ?thesis unfolding st' by (simp add: muted_attach)
  qed
next
  case idle
  then show ?thesis using assms(2) by (auto simp: muted_def)
qed


lemma muted_beat: "muted k st \<Longrightarrow> map_of (dv_sockets st) j = Some s \<Longrightarrow>
    muted k (fst (device_heartbeat playlist now j s data st)) \<and> (\<forall>p. ToSocket k ''device:playlist-update'' p \<notin> set (snd (device_heartbeat playlist now j s data st)))"
proof -
  assume m: "muted k st" "map_of (dv_sockets st) j = Some s"
  have "muted k (fst (device_heartbeat playlist now j s data st))"
  proof (cases rule: heartbeat_state [of playlist now j s data st])
    case unpaired
    then show ?thesis using m(1) by (auto intro: muted_on_device_socket)
  qed (use m(1) in \<open>simp_all add: muted_def\<close>)
  moreover have "ToSocket k ''device:playlist-update'' p \<notin> set (beat_answer playlist j d b v)" for p d b v
    by (auto simp: beat_answer_def Let_def split: option.split clamp.split)
  then have "ToSocket k ''device:playlist-update'' p \<notin> set (snd (device_heartbeat playlist now j s data st))" for p
    by (auto simp: device_heartbeat_def Let_def auth_error_def split: option.split)
  ultimately show ?thesis by blast
qed

lemma muted_sync: "muted k st \<Longrightarrow> map_of (dv_sockets st) j = Some s \<Longrightarrow>
    muted k (fst (device_playlist_sync playlist now j s data st)) \<and> (\<forall>p. ToSocket k ''device:playlist-update'' p \<notin> set (snd (device_playlist_sync playlist now j s data st)))"
  by (auto simp: device_playlist_sync_def Let_def auth_error_def muted_def split: option.splits if_splits)

lemma muted_settle: "muted k st \<Longrightarrow>
    muted k (fst (audio_settles playlist n False st)) \<and> (\<forall>p. ToSocket k ''device:playlist-update'' p \<notin> set (snd (audio_settles playlist n False st)))"
proof -
  assume m: "muted k st"
  obtain j d w where w: "dv_waiting st ! n = (j, d, w)" by (cases "dv_waiting st ! n")
  have "muted k (on_device_socket j (\<lambda>s. s\<lparr>sk_block := Some ''audio_reconnect_recovery_failed''\<rparr>) (st\<lparr>dv_waiting := ws\<rparr>))" for ws
    by (rule muted_on_device_socket) (use m in \<open>simp_all add: muted_def\<close>)
  with m w show ?thesis by (simp add: audio_settles_def)
qed

definition keeps_muted :: "string \<Rightarrow> device_event \<Rightarrow> bool" where
  "keeps_muted k e \<longleftrightarrow> (case e of SockConnects j ip \<Rightarrow> j \<noteq> k | AudioSettles n ok \<Rightarrow> \<not> ok | _ \<Rightarrow> True)"

lemma muted_step:
  assumes "device_step playlist (now, e) st = Some (st', eff)" "muted k st" "keeps_muted k e"
  shows "muted k st' \<and> (\<forall>p. ToSocket k ''device:playlist-update'' p \<notin> set eff)"
proof -
  have fst_of: "p = (x, y) \<longleftrightarrow> x = fst p \<and> y = snd p" for p :: "device_server \<times> device_effect list" and x y by (cases p) auto
  have same: "muted k x" if "dv_sockets x = dv_sockets st" for x using muted_sockets [OF that] assms(2) by simp
  show ?thesis
  proof (cases e)
    case (SockRegisters j nd nt data)
    with assms(1) have "with_socket j st (\<lambda>s. device_register nd nt now j s data st) = Some (st', eff)" by simp
    then show ?thesis by (cases rule: with_socketE) (use assms(2) muted_register in auto)
  next
    case (SockBeats j data)
    with assms(1) have "with_socket j st (\<lambda>s. Some (device_heartbeat (playlist now) now j s data st)) = Some (st', eff)" by simp
    then show ?thesis
    proof (cases rule: with_socketE)
      case (2 s)
      from muted_beat [OF assms(2) 2(1), of "playlist now" now data] 2(2) show ?thesis by (simp add: fst_of)
    qed (use assms(2) in simp)
  next
    case (SockSyncs j data)
    with assms(1) have "with_socket j st (\<lambda>s. Some (device_playlist_sync (playlist now) now j s data st)) = Some (st', eff)" by simp
    then show ?thesis
    proof (cases rule: with_socketE)
      case (2 s)
      from muted_sync [OF assms(2) 2(1), of "playlist now" now data] 2(2) show ?thesis by (simp add: fst_of)
    qed (use assms(2) in simp)
  next
    case (AudioSettles n ok)
    with assms(1,3) muted_settle [OF assms(2), of "playlist now" n] show ?thesis by (simp add: keeps_muted_def fst_of)
  next
    case (SockConnects j ip)
    then have "j \<noteq> k" using assms(3) by (simp add: keeps_muted_def)
    then have "map_of (dv_sockets st') k = map_of (dv_sockets st) k"
      using assms(1) SockConnects by (cases "map_of (dv_sockets st) k") (auto simp: map_add_def split: if_splits)
    then show ?thesis using assms(1,2) SockConnects by (simp add: muted_def)
  next
    case (SockViewport j data)
    with assms(1) have "with_socket j st (\<lambda>s. Some (display_viewport now j s data st)) = Some (st', eff)" by simp
    then show ?thesis
    proof (cases rule: with_socketE)
      case (2 s)
      then show ?thesis using assms(2) by (auto simp: display_viewport_def Let_def auth_error_def muted_def split: option.splits)
    qed (use assms(2) in simp)
  next
    case (SockDisconnects j)
    with assms(1,2) show ?thesis by (auto simp: muted_disconnects)
  next
    case (TimerFires d)
    have "ToSocket k ''device:playlist-update'' p \<notin> set (snd (timer_fires now d st))" for p
      by (auto simp: timer_fires_def Let_def split: option.split)
    with TimerFires assms(1) show ?thesis by (auto simp: fst_of intro: same)
  next
    case (Pairs u ws body)
    with assms(1) show ?thesis by (auto simp: provision_pair_def Let_def intro: same split: sum.splits prod.splits)
  qed (use assms(1,2) in \<open>auto elim!: with_socketE intro: same simp: device_content_ack_def device_playback_state_def auth_error_def
        sweep_displays_def Let_def delete_display_def split: option.splits if_splits\<close>)
qed

text \<open>A display that is back stays silent until its audio owner is settled: from its registration on, and until a recovery ends
  well, its socket gets no playlist whatever it asks for and whatever else happens.\<close>

theorem muted_until_settled:
  assumes "map_of (dv_sockets st) k = Some s" "sk_block s \<noteq> None" "distinct_displays st"
    and "device_run playlist es (Some st) = Some st1" "list_all (\<lambda>(now, e). keeps_muted k e) es"
    and "device_step playlist (now, e) st1 = Some (st2, eff)" "keeps_muted k e"
  shows "ToSocket k ''device:playlist-update'' p \<notin> set eff"
proof -
  have "muted k st1"
    by (rule device_run_keeps [OF assms(4,3), of "muted k"]) (use assms(1,2,5) muted_step in \<open>auto simp: muted_def list_all_iff\<close>)
  with muted_step [OF assms(6) _ assms(7)] show ?thesis by blast
qed


subsection \<open>A served display stays online\<close>

text \<open>The display \<open>d\<close> is served by the socket \<open>k\<close>: the registry names it for this display and for no other, and no pending
  transition was left by it.\<close>

definition served :: "string \<Rightarrow> string \<Rightarrow> device_server \<Rightarrow> bool" where
  "served d k st \<longleftrightarrow> map_of (dv_sockets st) k \<noteq> None
     \<and> (\<forall>e c. get_connection e (dv_heart st) = Some c \<longrightarrow> (e = d \<longleftrightarrow> cn_socket c = k)) \<and> get_connection d (dv_heart st) \<noteq> None
     \<and> (\<forall>due. map_of (dv_timers st) d \<noteq> Some (k, due))
     \<and> (\<exists>r. display_of d st = Some r \<and> dr_status r = ''online'')"

text \<open>Events that may end it: the socket itself, a registration with the token, a sweep that finds the display silent, an operator.\<close>

definition harmless :: "string \<Rightarrow> string \<Rightarrow> string \<Rightarrow> device_event \<Rightarrow> bool" where
  "harmless d token k e \<longleftrightarrow> (case e of
     SockRegisters j nd nt data \<Rightarrow> j \<noteq> k \<and> \<not> (fld data ''device_id'' = JStr d \<and> buffer_from (fld data ''device_token'') = Some (map code token))
   | SockDisconnects j \<Rightarrow> j \<noteq> k
   | SweepRuns timeout \<Rightarrow> False
   | RowDeleted i \<Rightarrow> i \<noteq> d
   | _ \<Rightarrow> True)"

lemma servedI:
  assumes "served d k st" "map_of (dv_sockets st') k \<noteq> None" "dv_heart st' = dv_heart st"
    "\<And>due. map_of (dv_timers st') d = Some (k, due) \<Longrightarrow> map_of (dv_timers st) d = Some (k, due)"
    "\<exists>r. display_of d st' = Some r \<and> dr_status r = ''online''"
  shows "served d k st'"
  using assms unfolding served_def by auto

lemma served_on_row:
  assumes "served d k st" "\<And>r. dr_id (f r) = dr_id r" "i = d \<Longrightarrow> (\<And>r. dr_status r = ''online'' \<Longrightarrow> dr_status (f r) = ''online'')"
  shows "served d k (on_row i f st)"
proof (rule servedI [OF assms(1)])
  from assms(1) obtain r where "display_of d st = Some r" "dr_status r = ''online''" by (auto simp: served_def)
  with assms(2,3) show "\<exists>r. display_of d (on_row i f st) = Some r \<and> dr_status r = ''online''" by (cases "i = d") (simp_all add: display_of_on_row)
qed (use assms in \<open>simp_all add: served_def\<close>)

lemma served_rows:
  assumes "served d k st" "dv_rows st' = dv_rows st" "dv_heart st' = dv_heart st" "dv_timers st' = dv_timers st" "map_of (dv_sockets st') k \<noteq> None"
  shows "served d k st'"
  by (rule servedI [OF assms(1)]) (use assms in \<open>auto simp: served_def display_of_def\<close>)

lemma served_disconnects:
  assumes "served d k st" "j \<noteq> k"
  shows "served d k (socket_disconnects now j st)"
proof (rule servedI [OF assms(1)])
  show "map_of (dv_sockets (socket_disconnects now j st)) k \<noteq> None" using assms by (simp add: served_def)
  show "map_of (dv_timers st) d = Some (k, due)" if "map_of (dv_timers (socket_disconnects now j st)) d = Some (k, due)" for due
    using that assms(2) by (auto simp: socket_disconnects_def Let_def update_conv' split: option.splits if_splits)
  show "\<exists>r. display_of d (socket_disconnects now j st) = Some r \<and> dr_status r = ''online''" using assms(1) by (simp add: served_def display_of_def)
qed simp

lemma served_take_over:
  assumes "served d k st" "i \<noteq> d" "j \<noteq> k"
  shows "served d k (take_over now i j st)"
proof -
  let ?st = "on_device_socket j (\<lambda>s. s\<lparr>sk_device := Some i, sk_auth := True\<rparr>) (st\<lparr>dv_timers := AList.delete i (dv_timers st)\<rparr>)"
  have s: "served d k ?st"
    by (rule servedI [OF assms(1)]) (use assms in \<open>auto simp: served_def delete_conv' display_of_def\<close>)
  show ?thesis
  proof (cases "get_connection i (dv_heart st)")
    case None
    then show ?thesis using s by (simp add: take_over_def evict_prior_socket_def)
  next
    case (Some c)
    then have "cn_socket c \<noteq> k" using assms(1,2) by (auto simp: served_def)
    with s Some show ?thesis by (simp add: take_over_def evict_prior_socket_def served_disconnects)
  qed
qed

lemma served_attach:
  assumes "served d k st" "i \<noteq> d" "j \<noteq> k"
  shows "served d k (attach_socket now i j st)"
  using assms unfolding served_def by (auto simp: get_connection_def register_connection_def update_conv' display_of_def)

lemma served_register:
  assumes "device_register nd nt now j s data st = Some (st', eff)" "served d k st" "claimed d u w t st" "distinct_displays st"
    and "harmless d t k (SockRegisters j nd nt data)"
  shows "served d k st'"
proof -
  have jk: "j \<noteq> k" and tok: "\<not> (fld data ''device_id'' = JStr d \<and> buffer_from (fld data ''device_token'') = Some (map code t))"
    using assms(5) by (simp_all add: harmless_def)
  from assms(3) obtain rd where rd: "display_of d st = Some rd" "dr_user rd = Some u" "dr_token rd = Some t" "t \<noteq> []"
    by (auto simp: claimed_def split: option.splits)
  have track: "served d k (track_fingerprint data st)" by (rule served_rows [OF assms(2)]) (use assms(2) in \<open>simp_all add: served_def\<close>)
  have sock: "served d k x \<Longrightarrow> map_of (dv_sockets x) k \<noteq> None" for x by (simp add: served_def)
  show ?thesis
    using assms(1)
  proof (cases rule: device_register_cases)
    case (resume r)
    note p = pending_unclaimed [OF resume(3)]
    have rd': "dr_id r \<noteq> d" using distinct_display_of [OF assms(4) p(1)] p(2) rd by auto
    from resume(4) obtain f where f: "st' = attach_socket now (dr_id r) j (bind_print (fld data ''fingerprint'') (dr_id r) (on_row (dr_id r) f (take_over now (dr_id r) j st)))"
      "\<And>q. dr_id (f q) = dr_id q" by (rule resume_enrollment_state) blast
    have "served d k (on_row (dr_id r) f (take_over now (dr_id r) j st))"
      by (rule served_on_row [OF served_take_over]) (use assms(2) rd' jk f(2) in auto)
    then have "served d k (bind_print (fld data ''fingerprint'') (dr_id r) (on_row (dr_id r) f (take_over now (dr_id r) j st)))"
      by (rule served_rows) (use sock [OF served_take_over [OF assms(2) rd' jk]] in simp_all)
    then show ?thesis unfolding f(1) by (rule served_attach) (use rd' jk in auto)
  next
    case (reconnect i r)
    from reconnect(4) show ?thesis
    proof (cases rule: reconnect_display_state)
      case refused
      then show ?thesis using track by simp
    next
      case joined
      have ri: "dr_id r = i" using reconnect(3) by (rule display_of_id)
      have "i \<noteq> d"
      proof
        assume "i = d"
        then have "r = rd" using rd(1) reconnect(3) by simp
        then have "validate_device_token d (fld data ''device_token'') (track_fingerprint data st)"
          using joined(1) rd ri \<open>i = d\<close> by (simp add: has_token_def)
        then have "buffer_from (fld data ''device_token'') = Some (map code t)"
          using rd by (auto simp: validate_device_token_def display_of_def split: if_splits option.splits)
        with tok reconnect(1) \<open>i = d\<close> show False by simp
      qed
      with jk have "served d k (attach_socket now i j (on_row i (reconnected nt now (sk_ip s) (fld data ''device_info'')) (take_over now i j (track_fingerprint data st))))"
        by (intro served_attach served_on_row served_take_over track) auto
      then show ?thesis unfolding joined(2) ri by (rule served_rows) (use jk sock [OF served_take_over [OF track \<open>i \<noteq> d\<close> jk]] in simp_all)
    qed
  next
    case enroll
    from enroll(3) show ?thesis
    proof (rule enroll_display_state)
      fix row
      let ?st = "(on_device_socket j (\<lambda>s. s\<lparr>sk_device := Some nd, sk_auth := True\<rparr>) (track_fingerprint data st))\<lparr>dv_rows := dv_rows (track_fingerprint data st) @ [row]\<rparr>"
      assume row: "nd \<notin> dr_id ` set (dv_rows (track_fingerprint data st))" "dr_id row = nd"
        "st' = attach_socket now nd j (bind_print (fld data ''fingerprint'') nd ?st)"
      have nd: "nd \<noteq> d" using row(1) rd(1) display_of_None [of d st] by auto
      have "served d k ?st"
        by (rule servedI [OF track]) (use track jk in \<open>auto simp: served_def display_of_def find_append\<close>)
      then have "served d k (bind_print (fld data ''fingerprint'') nd ?st)" by (rule served_rows) (use jk track in \<open>auto simp: served_def\<close>)
      then show ?thesis unfolding row(3) by (rule served_attach) (use nd jk in auto)
    qed
  next
    case idle
    then show ?thesis using track by simp
  qed
qed


lemma served_beat:
  assumes "served d k st"
  shows "served d k (fst (device_heartbeat playlist now j s data st))"
proof (cases rule: heartbeat_state [of playlist now j s data st])
  case unpaired
  show ?thesis unfolding unpaired(1) by (rule served_rows [OF assms]) (use assms in \<open>auto simp: served_def\<close>)
next
  case (beat i)
  have "served d k (st\<lparr>dv_heart := update_heartbeat i now (dv_heart st)\<rparr>)"
    using assms unfolding served_def
    by (auto simp: get_connection_def update_heartbeat_def update_conv' display_of_def split: option.splits if_splits)
  then show ?thesis unfolding beat(3) by (rule served_on_row) simp_all
qed (use assms in simp)

lemma served_timer:
  assumes "served d k st"
  shows "served d k (fst (timer_fires now i st))"
proof (cases "map_of (dv_timers st) i")
  case None
  then show ?thesis using assms by (simp add: timer_fires_def)
next
  case (Some x)
  then obtain j due where x: "map_of (dv_timers st) i = Some (j, due)" by (cases x) simp
  let ?st = "st\<lparr>dv_timers := AList.delete i (dv_timers st)\<rparr>"
  have drop: "served d k ?st"
    by (rule servedI [OF assms]) (use assms in \<open>auto simp: served_def delete_conv' display_of_def split: if_splits\<close>)
  let ?other = "case get_connection i (dv_heart st) of None \<Rightarrow> False | Some c \<Rightarrow> cn_socket c \<noteq> j"
  consider "now < due" | "\<not> now < due" ?other | "\<not> now < due" "\<not> ?other" by blast
  then show ?thesis
  proof cases
    case 3
    have id: "i \<noteq> d"
    proof
      assume "i = d"
      moreover obtain c where "get_connection d (dv_heart st) = Some c" "cn_socket c = k" using assms by (auto simp: served_def)
      ultimately have "j = k" using 3(2) by simp
      then show False using assms x \<open>i = d\<close> by (auto simp: served_def)
    qed
    then have "served d k (on_row i (\<lambda>r. r\<lparr>dr_status := ''offline''\<rparr>) ?st)" using drop by (intro served_on_row) simp_all
    then have "served d k ((on_row i (\<lambda>r. r\<lparr>dr_status := ''offline''\<rparr>) ?st)\<lparr>dv_heart := remove_connection i (dv_heart st)\<rparr>)"
      using id unfolding served_def by (auto simp: get_connection_def remove_connection_def delete_conv' display_of_def)
    then show ?thesis using 3 x by (simp add: timer_fires_def Let_def)
  qed (use x assms drop in \<open>auto simp: timer_fires_def Let_def\<close>)
qed

lemma served_pair:
  assumes "served d k st"
  shows "served d k (fst (provision_pair u ws body now st))"
proof (cases "claim_target u ws body (now div 1000) st")
  case (Inr x)
  obtain r w n where x: "x = (r, w, n)" by (cases x)
  have "served d k (on_row (dr_id r) (claim_row u w n) st)" by (rule served_on_row [OF assms]) (simp_all add: claim_row_def)
  then have "served d k ((on_row (dr_id r) (claim_row u w n) st)\<lparr>dv_prints := p\<rparr>)" for p
    by (rule served_rows) (use assms in \<open>simp_all add: served_def\<close>)
  with Inr x show ?thesis by (simp add: provision_pair_def Let_def)
qed (use assms in \<open>simp add: provision_pair_def\<close>)

lemma served_step:
  assumes "device_step playlist (now, e) st = Some (st', eff)" "served d k st" "claimed d u w t st" "distinct_displays st" "harmless d t k e"
  shows "served d k st'"
proof -
  have fst_of: "p = (x, y) \<longleftrightarrow> x = fst p \<and> y = snd p" for p :: "device_server \<times> device_effect list" and x y by (cases p) auto
  note same = served_rows [OF assms(2)]
  have live: "map_of (dv_sockets st) k \<noteq> None" using assms(2) by (simp add: served_def)
  show ?thesis
  proof (cases e)
    case (SockRegisters j nd nt data)
    with assms(1) have "with_socket j st (\<lambda>s. device_register nd nt now j s data st) = Some (st', eff)" by simp
    then show ?thesis
      by (cases rule: with_socketE) (use assms(2) served_register [OF _ assms(2-4) assms(5) [unfolded SockRegisters]] in auto)
  next
    case (SockBeats j data)
    with assms(1) have "with_socket j st (\<lambda>s. Some (device_heartbeat (playlist now) now j s data st)) = Some (st', eff)" by simp
    then show ?thesis
    proof (cases rule: with_socketE)
      case (2 s)
      with served_beat [OF assms(2), of "playlist now" now j s data] show ?thesis by (simp add: fst_of)
    qed (use assms(2) in simp)
  next
    case (SockSyncs j data)
    with assms(1) have "with_socket j st (\<lambda>s. Some (device_playlist_sync (playlist now) now j s data st)) = Some (st', eff)" by simp
    then show ?thesis
    proof (cases rule: with_socketE)
      case (2 s)
      have "served d k (fst (device_playlist_sync (playlist now) now j s data st))"
        by (rule same) (use live in \<open>auto simp: device_playlist_sync_def Let_def split: option.split\<close>)
      with 2 show ?thesis by (simp add: fst_of)
    qed (use assms(2) in simp)
  next
    case (SockViewport j data)
    with assms(1) have "with_socket j st (\<lambda>s. Some (display_viewport now j s data st)) = Some (st', eff)" by simp
    then show ?thesis
    proof (cases rule: with_socketE)
      case (2 s)
      have "served d k (fst (display_viewport now j s data st))"
        using assms(2) by (auto simp: display_viewport_def Let_def sized_def oriented_def intro!: served_on_row split: option.split)
      with 2 show ?thesis by (simp add: fst_of)
    qed (use assms(2) in simp)
  next
    case (AudioSettles n ok)
    have "served d k (fst (audio_settles (playlist now) n ok st))"
      by (rule same) (use live in \<open>auto simp: audio_settles_def Let_def split: prod.split\<close>)
    with AudioSettles assms(1) show ?thesis by (simp add: fst_of)
  next
    case (SockDisconnects j)
    with assms(1,2,5) show ?thesis by (auto simp: harmless_def served_disconnects)
  next
    case (TimerFires i)
    with assms(1) served_timer [OF assms(2), of now i] show ?thesis by (simp add: fst_of)
  next
    case (Pairs u' ws body)
    with assms(1) served_pair [OF assms(2), of u' ws body now] show ?thesis by (cases "provision_pair u' ws body now st") auto
  next
    case (SockConnects j ip)
    with assms(1) show ?thesis by (intro same) (use live in \<open>auto simp: map_add_def split: if_splits option.splits\<close>)
  next
    case (RowImported r)
    have "served d k (st\<lparr>dv_rows := dv_rows st @ [r]\<rparr>)"
      by (rule servedI [OF assms(2)]) (use assms(2) in \<open>auto simp: served_def display_of_def find_append\<close>)
    with RowImported assms(1,2) show ?thesis by (auto split: if_splits)
  next
    case (RowRetired i b)
    with assms(1,2) show ?thesis by (auto intro: served_on_row)
  next
    case (RowDeleted i)
    with assms(5) have "i \<noteq> d" by (simp add: harmless_def)
    then have "display_of d (delete_display i st) = display_of d st" by (rule delete_display_of)
    then have "served d k (delete_display i st)" using assms(2) unfolding served_def by (simp add: delete_display_def)
    with RowDeleted assms(1) show ?thesis by simp
  qed (use assms(1,2,5) in \<open>auto elim!: with_socketE simp: harmless_def\<close>)
qed

text \<open>C12: A served display stays online: as long as its socket stays, no one without its token, no timer of an earlier connection and
  no other display can take it offline or off the registry, before a sweep finds it silent or an operator deletes it.\<close>

theorem served_display_stays_online:
  assumes "device_run playlist es (Some no_displays) = Some st" "claimed d user ws token st" "served d k st"
    and "device_run playlist fs (Some st) = Some st'" "list_all (\<lambda>(now, e). harmless d token k e) fs"
  shows "served d k st'"
proof -
  have "served d k st' \<and> claimed d user ws token st'"
  proof (rule device_run_keeps [OF assms(4) reachable_distinct [OF assms(1)]])
    fix now e a b eff
    assume e: "(now, e) \<in> set fs" "distinct_displays a" "served d k a \<and> claimed d user ws token a"
      "device_step playlist (now, e) a = Some (b, eff)"
    then have "harmless d token k e" using assms(5) by (auto simp: list_all_iff)
    then have "e \<noteq> RowDeleted d" by (auto simp: harmless_def)
    from served_step [OF e(4) _ _ e(2) \<open>harmless d token k e\<close>] step_claimed [OF e(4,2) _ \<open>e \<noteq> RowDeleted d\<close>] e(3)
    show "served d k b \<and> claimed d user ws token b" by blast
  qed (use assms(2,3) in simp)
  then show ?thesis by blast
qed

subsection \<open>Registrations that end the process\<close>

text \<open>The handler is asynchronous and destructures its argument before anything else: a message without payload from a socket that
  has not registered is an unhandled rejection.\<close>

lemma bare_registration_kills_server:
  assumes "map_of (dv_sockets st) k = Some s"
  shows "device_step playlist (now, SockRegisters k d token JUndef) st = None"
  using assms by (simp add: with_socket_def device_register_def Let_def is_nullish_def)

text \<open>So is a registration with the code of a display that is owned already, as imported displays are: the code is unique, the row is not
  reused, and the insertion fails.\<close>

lemma occupied_code_kills_server:
  assumes "map_of (dv_sockets st) k = Some s" "r \<in> set (dv_rows st)" "dr_code r = Some c" "six_digits (JStr c)"
    and "\<And>q. q \<in> set (dv_rows st) \<Longrightarrow> dr_code q = Some c \<Longrightarrow> dr_user q \<noteq> None"
  shows "device_step playlist (now, SockRegisters k d token (JObj [(''pairing_code'', JStr c)])) st = None"
proof -
  let ?data = "JObj [(''pairing_code'', JStr c)]"
  have "\<not> is_space x" if "is_digit x" for x using that by (auto simp: is_digit_def is_space_def)
  with assms(4) have "c \<noteq> [] \<and> \<not> is_space (hd c) \<and> \<not> is_space (last c)"
    by (auto simp: six_digits_def Let_def js_or_def list_all_iff split: if_splits)
  then have trim: "trim c = c" by (intro trim_id) simp
  have none: "find_reusable_pending_enrollment (dv_rows st) (JStr c) = None"
  proof (rule ccontr)
    assume "find_reusable_pending_enrollment (dv_rows st) (JStr c) \<noteq> None"
    then obtain q where q: "find_reusable_pending_enrollment (dv_rows st) (JStr c) = Some q" by blast
    with pending_unclaimed [OF q] trim assms(5) show False by auto
  qed
  have taken: "Some c \<in> dr_code ` set (dv_rows st)" using assms(2,3) by force
  have "enroll_display d token now k (sk_ip s) ?data st = None"
    using taken by (simp add: enroll_display_def Let_def bind_text_def)
  with none assms(1,4) show ?thesis
    by (simp add: with_socket_def device_register_def Let_def is_nullish_def track_fingerprint_def)
qed


subsection \<open>A sample history\<close>

definition no_playlist :: "int \<Rightarrow> string \<Rightarrow> jsval" where
  "no_playlist now d = JObj []"

definition with_code :: jsval where
  "with_code = JObj [(''pairing_code'', JStr ''123456'')]"

definition with_tok :: "string \<Rightarrow> jsval" where
  "with_tok t = JObj [(''device_id'', JStr ''tv''), (''device_token'', JStr t)]"

definition connecting :: "(int \<times> device_event) list" where
  "connecting = [(1000, SockConnects ''k'' ''10.0.0.1'')]"

definition enrolling :: "(int \<times> device_event) list" where
  "enrolling = connecting @ [(2000, SockRegisters ''k'' ''tv'' ''tok'' with_code), (3000, Pairs ''ann'' (Some ''w'') with_code)]"

definition the_run :: "(int \<times> device_event) list \<Rightarrow> device_server" where
  "the_run es = (case device_run no_playlist es (Some no_displays) of Some st \<Rightarrow> st | None \<Rightarrow> no_displays)"

definition runs :: "(int \<times> device_event) list \<Rightarrow> bool" where
  "runs es \<longleftrightarrow> (case device_run no_playlist es (Some no_displays) of None \<Rightarrow> False | Some _ \<Rightarrow> True)"

lemma the_run: "runs es \<Longrightarrow> device_run no_playlist es (Some no_displays) = Some (the_run es)"
  by (simp add: runs_def the_run_def split: option.splits)

lemma the_run_append: "runs (es @ fs) \<Longrightarrow> runs es \<Longrightarrow> device_run no_playlist fs (Some (the_run es)) = Some (the_run (es @ fs))"
  using the_run [of "es @ fs"] the_run [of es] by (simp add: device_run_def)

lemma enrolled_runs: "runs connecting" "runs enrolling"
  by code_simp+

definition intruding :: "(int \<times> device_event) list" where
  "intruding = [(4000, SockConnects ''j'' ''10.0.0.2''), (5000, SockRegisters ''j'' ''x'' ''y'' (with_tok ''guess'')),
     (6000, SockRegisters ''j'' ''x'' ''y'' with_code), (7000, SockDisconnects ''j''), (20000, TimerFires ''tv'')]"

lemma intruded_runs: "runs (enrolling @ intruding)"
  by code_simp

lemma enrolled_claimed: "claimed ''tv'' ''ann'' (Some ''w'') ''tok'' (the_run enrolling)"
  by code_simp

theorem claimed_display_kept_witness: "claimed ''tv'' ''ann'' (Some ''w'') ''tok'' (the_run (enrolling @ intruding))"
  by (rule claimed_display_kept [OF the_run [OF enrolled_runs(2)] enrolled_claimed the_run_append [OF intruded_runs enrolled_runs(2)]]) code_simp

lemma enrolled_served: "served ''tv'' ''k'' (the_run enrolling)"
proof -
  have s: "map_option sk_auth (map_of (dv_sockets (the_run enrolling)) ''k'') = Some True" by code_simp
  have c: "map (map_prod id cn_socket) (hb_connections (dv_heart (the_run enrolling))) = [(''tv'', ''k'')]" by code_simp
  have t: "dv_timers (the_run enrolling) = []" by code_simp
  have r: "map_option dr_status (display_of ''tv'' (the_run enrolling)) = Some ''online''" by code_simp
  from c obtain x where "hb_connections (dv_heart (the_run enrolling)) = [(''tv'', x)]" "cn_socket x = ''k''" by auto
  with s t r show ?thesis by (auto simp: served_def get_connection_def)
qed

theorem served_display_stays_online_witness: "served ''tv'' ''k'' (the_run (enrolling @ intruding))"
  by (rule served_display_stays_online [OF the_run [OF enrolled_runs(2)] enrolled_claimed enrolled_served
        the_run_append [OF intruded_runs enrolled_runs(2)]]) code_simp


definition returning :: "(int \<times> device_event) list" where
  "returning = enrolling @ [(9000, SockDisconnects ''k''), (9500, SockConnects ''l'' ''10.0.0.1''), (9600, SockRegisters ''l'' ''x'' ''y'' (with_tok ''tok''))]"

lemma returned_runs: "runs returning"
  by code_simp

theorem muted_until_settled_witness:
  "ToSocket ''l'' ''device:playlist-update'' (JObj []) \<notin>
     set (case device_step no_playlist (12000, SockSyncs ''l'' (JObj [])) (the_run returning) of None \<Rightarrow> [] | Some (st', eff) \<Rightarrow> eff)"
proof -
  have b: "map_option sk_block (map_of (dv_sockets (the_run returning)) ''l'') = Some (Some ''audio_reconnect_recovery_pending'')" by code_simp
  then obtain s where s: "map_of (dv_sockets (the_run returning)) ''l'' = Some s" "sk_block s \<noteq> None" by auto
  obtain st' eff where "device_playlist_sync (no_playlist 12000) 12000 ''l'' s (JObj []) (the_run returning) = (st', eff)"
    by (cases "device_playlist_sync (no_playlist 12000) 12000 ''l'' s (JObj []) (the_run returning)")
  with s(1) have "device_step no_playlist (12000, SockSyncs ''l'' (JObj [])) (the_run returning) = Some (st', eff)"
    by (simp add: with_socket_def)
  note step = this
  have run: "device_run no_playlist [] (Some (the_run returning)) = Some (the_run returning)" by (simp add: device_run_def)
  have "ToSocket ''l'' ''device:playlist-update'' (JObj []) \<notin> set eff"
    by (rule muted_until_settled [OF s reachable_distinct [OF the_run [OF returned_runs]] run _ step]) (simp_all add: keeps_muted_def)
  with step show ?thesis by simp
qed

lemma bare_registration_sample:
  "device_step no_playlist (1500, SockRegisters ''k'' ''x'' ''y'' JUndef) (the_run connecting) = None"
proof -
  have "map_option sk_auth (map_of (dv_sockets (the_run connecting)) ''k'') = Some False" by code_simp
  then obtain s where "map_of (dv_sockets (the_run connecting)) ''k'' = Some s" by auto
  then show ?thesis by (rule bare_registration_kills_server)
qed

end
