(* ===== verification/BroadcastDelivery.thy ===== *)
theory BroadcastDelivery
  imports Prelude Machines
begin

text \<open>
  The store of broadcast deliveries (\<open>server/lib/broadcast-delivery.js\<close>): one request with a row per target, driven by the
  dispatch, by what the players report and by a deadline; the status of the request is recomputed from its rows.

  The state holds the two tables. An operation reads the clock once, in milliseconds. The ids a request draws are the
  parameter \<open>uid\<close>; a clash violates a constraint and rolls the transaction back. JSON columns hold the parsed value. The
  creation of the tables and their upgrades are left out; their \<open>CHECK\<close> constraints are the lists of states below.
\<close>

subsection \<open>State\<close>

datatype delivery_status =
    Requested | Pending | InProgress | Delivered | Offline | Acknowledged | Confirmed | Partial | Failed | TimedOut

definition request_states :: "delivery_status list" where
  "request_states = [Requested, InProgress, Confirmed, Partial, Failed, TimedOut]"

definition target_states :: "delivery_status list" where
  "target_states = [Requested, Delivered, Acknowledged, Confirmed, Failed, Offline, TimedOut]"

definition delivery_states :: "delivery_status list" where
  "delivery_states = [Requested, Delivered, Offline, Failed, TimedOut]"

definition acknowledgment_states :: "delivery_status list" where
  "acknowledgment_states = [Pending, Acknowledged, Confirmed, Failed, TimedOut]"

definition request_terminal :: "delivery_status list" where
  "request_terminal = [Confirmed, Partial, Failed, TimedOut]"

definition device_terminal :: "delivery_status list" where
  "device_terminal = [Confirmed, Failed, TimedOut]"

record broadcast_request =
  br_id :: string
  br_workspace :: string
  br_user :: "string option"
  br_source_type :: string
  br_source :: string
  br_typed :: jsval
  br_resolved :: "string list"
  br_count :: int
  br_status :: delivery_status
  br_created :: int
  br_expires :: int
  br_completed :: "int option"
  br_key :: "string option"
  br_fingerprint :: "string option"

record delivery_row =
  bd_request :: string
  bd_key :: string
  bd_device :: string
  bd_name :: string
  bd_ordinal :: nat
  bd_command :: string
  bd_region :: "string option"
  bd_zone :: "string option"
  bd_source :: "string option"
  bd_revision :: "string option"
  bd_state :: delivery_status
  bd_delivery :: delivery_status
  bd_ack :: delivery_status
  bd_player :: "jsval option"
  bd_reason :: "string option"
  bd_session :: "string option"
  bd_generation :: "int option"
  bd_requested :: int
  bd_delivered :: "int option"
  bd_acknowledged :: "int option"
  bd_confirmed :: "int option"
  bd_updated :: int

record delivery_store =
  bs_requests :: "broadcast_request list"
  bs_rows :: "delivery_row list"

datatype delivery_result = Applied delivery_status | NotApplied string

text \<open>\<open>COALESCE\<close>, and the truth of a text column.\<close>

definition sql_coalesce :: "'a option \<Rightarrow> 'a option \<Rightarrow> 'a option" where
  "sql_coalesce a b = (case a of None \<Rightarrow> b | Some x \<Rightarrow> Some x)"

definition nonempty :: "string option \<Rightarrow> string option" where
  "nonempty v = (case v of None \<Rightarrow> None | Some s \<Rightarrow> if s = [] then None else Some s)"

definition request_of :: "string \<Rightarrow> delivery_store \<Rightarrow> broadcast_request option" where
  "request_of rid st = find (\<lambda>r. br_id r = rid) (bs_requests st)"

definition rows_of :: "string \<Rightarrow> delivery_store \<Rightarrow> delivery_row list" where
  "rows_of rid st = filter (\<lambda>r. bd_request r = rid) (bs_rows st)"

subsection \<open>The status of a request\<close>

definition aggregate_status :: "delivery_status list \<Rightarrow> delivery_status" where
  "aggregate_status states =
     (if states \<noteq> [] \<and> list_all (\<lambda>s. s = Confirmed) states then Confirmed
      else if states \<noteq> [] \<and> list_all (\<lambda>s. s \<in> set device_terminal) states
      then (if list_ex (\<lambda>s. s = Confirmed) states then Partial
            else if list_all (\<lambda>s. s = TimedOut) states then TimedOut else Failed)
      else if list_ex (\<lambda>s. s \<noteq> Requested) states then InProgress else Requested)"

definition recompute_request :: "int \<Rightarrow> string \<Rightarrow> delivery_store \<Rightarrow> delivery_store" where
  "recompute_request now rid st =
     (let status = aggregate_status (map bd_state (rows_of rid st)) in
      st\<lparr>bs_requests := map (\<lambda>r. if br_id r = rid
           then r\<lparr>br_status := status, br_completed := (if status \<in> set request_terminal then Some now else None)\<rparr> else r) (bs_requests st)\<rparr>)"

subsection \<open>Creation\<close>

record broadcast_args =
  ba_workspace :: string
  ba_user :: "string option"
  ba_source_type :: string
  ba_source :: string
  ba_typed :: jsval
  ba_targets :: "jsval list"
  ba_count :: jsval
  ba_key :: jsval
  ba_fingerprint :: jsval

datatype create_error = ArgumentsRequired | KeyReused | NoTargets | ConstraintViolated

definition text_limit :: "nat \<Rightarrow> jsval \<Rightarrow> string" where
  "text_limit n v = (case v of JStr s \<Rightarrow> take n (trim s) | _ \<Rightarrow> [])"

definition target_key :: "jsval \<Rightarrow> string" where
  "target_key raw = (let d = text_of (fld raw ''deviceId''); g = text_of (fld raw ''regionId'') in
     if g \<noteq> [] then d @ '':region:'' @ g else d)"

fun unique_targets :: "string list \<Rightarrow> jsval list \<Rightarrow> jsval list" where
  "unique_targets seen [] = []"
| "unique_targets seen (raw # rest) =
     (if text_of (fld raw ''deviceId'') = [] \<or> target_key raw \<in> set seen then unique_targets seen rest
      else raw # unique_targets (target_key raw # seen) rest)"

definition text_or_null :: "jsval \<Rightarrow> string option" where
  "text_or_null v = (if truthy v then Some (to_str v) else None)"

definition new_delivery :: "(string \<Rightarrow> string option) \<Rightarrow> (nat \<Rightarrow> string) \<Rightarrow> int \<Rightarrow> nat \<times> jsval \<Rightarrow> delivery_row" where
  "new_delivery name_of uid now p =
     (let (i, raw) = p; d = text_of (fld raw ''deviceId'');
          name = (case nonempty (name_of d) of Some n \<Rightarrow> n | None \<Rightarrow> to_str (js_or (fld raw ''deviceName'') (JStr d)));
          failed = (fld raw ''initialState'' = JStr ''failed'')
      in \<lparr>bd_request = uid 0, bd_key = target_key raw, bd_device = d, bd_name = name, bd_ordinal = i, bd_command = uid (Suc i),
          bd_region = nonempty (Some (text_of (fld raw ''regionId''))), bd_zone = text_or_null (fld raw ''zoneId''),
          bd_source = text_or_null (fld raw ''expectedSourceId''), bd_revision = None,
          bd_state = (if failed then Failed else Requested), bd_delivery = (if failed then Failed else Requested),
          bd_ack = (if failed then Failed else Pending), bd_player = None, bd_reason = text_or_null (fld raw ''failureReason''),
          bd_session = None, bd_generation = None, bd_requested = now, bd_delivered = None, bd_acknowledged = None,
          bd_confirmed = None, bd_updated = now\<rparr>)"

definition new_request :: "int \<Rightarrow> (nat \<Rightarrow> string) \<Rightarrow> int \<Rightarrow> broadcast_args \<Rightarrow> jsval list \<Rightarrow> broadcast_request" where
  "new_request timeout uid now a targets =
     (let n = int (length targets) in
      \<lparr>br_id = uid 0, br_workspace = ba_workspace a, br_user = ba_user a, br_source_type = ba_source_type a, br_source = ba_source a,
       br_typed = JArr (array_items (ba_typed a)),
       br_resolved = map (\<lambda>t. text_of (fld t ''deviceId'')) (filter (\<lambda>t. fld t ''resolved'' \<noteq> JBool False) targets),
       br_count = (case num_int (to_num (ba_count a)) of Some c \<Rightarrow> max n c | None \<Rightarrow> n), br_status = Requested, br_created = now,
       br_expires = now + timeout, br_completed = None, br_key = nonempty (Some (text_limit 200 (ba_key a))),
       br_fingerprint = nonempty (Some (text_limit 500 (ba_fingerprint a)))\<rparr>)"

text \<open>The request under the same idempotency key of the same user.\<close>

definition prior_request :: "broadcast_args \<Rightarrow> delivery_store \<Rightarrow> broadcast_request option" where
  "prior_request a st = (let key = text_limit 200 (ba_key a) in
     if key = [] then None
     else find (\<lambda>r. br_workspace r = ba_workspace a \<and> br_user r = ba_user a \<and> br_key r = Some key) (bs_requests st))"

text \<open>The result is the id of the request and whether it was there already.\<close>

definition create_request :: "int \<Rightarrow> (string \<Rightarrow> string \<Rightarrow> string option) \<Rightarrow> (nat \<Rightarrow> string) \<Rightarrow> int \<Rightarrow> broadcast_args \<Rightarrow> delivery_store
    \<Rightarrow> delivery_store \<times> (create_error + string \<times> bool)" where
  "create_request timeout name_of uid now a st =
     (let print = text_limit 500 (ba_fingerprint a); targets = unique_targets [] (ba_targets a) in
      if ba_workspace a = [] \<or> ba_source_type a = [] \<or> ba_source a = [] then (st, Inl ArgumentsRequired)
      else (case prior_request a st of
          Some r \<Rightarrow> if print = [] \<or> br_fingerprint r \<noteq> Some print then (st, Inl KeyReused) else (st, Inr (br_id r, True))
        | None \<Rightarrow>
            if targets = [] then (st, Inl NoTargets)
            else (let req = new_request timeout uid now a targets;
                      rows = map (new_delivery (\<lambda>d. name_of d (ba_workspace a)) uid now) (enumerate 0 targets) in
              if uid 0 \<in> br_id ` set (bs_requests st)
                 \<or> \<not> distinct (map bd_command (bs_rows st) @ map bd_command rows)
              then (st, Inl ConstraintViolated)
              else (recompute_request now (uid 0) (st\<lparr>bs_requests := bs_requests st @ [req], bs_rows := bs_rows st @ rows\<rparr>),
                    Inr (uid 0, False)))))"

subsection \<open>Expiry\<close>

definition open_row :: "delivery_row \<Rightarrow> bool" where
  "open_row r \<longleftrightarrow> bd_state r \<notin> set device_terminal"

definition expired_requests :: "int \<Rightarrow> delivery_store \<Rightarrow> string list" where
  "expired_requests now st = dedup (map bd_request (filter (\<lambda>r. open_row r
     \<and> list_ex (\<lambda>q. br_id q = bd_request r \<and> br_expires q \<le> now \<and> br_status q \<notin> set request_terminal) (bs_requests st)) (bs_rows st)))"

definition time_out :: "int \<Rightarrow> delivery_row \<Rightarrow> delivery_row" where
  "time_out now r = r\<lparr>bd_state := TimedOut, bd_delivery := (if bd_delivery r = Delivered then Delivered else TimedOut),
     bd_ack := TimedOut, bd_reason := sql_coalesce (bd_reason r) (Some ''Player confirmation timed out''), bd_updated := now\<rparr>"

definition sweep_expired :: "int \<Rightarrow> delivery_store \<Rightarrow> delivery_store" where
  "sweep_expired now st =
     (let ids = expired_requests now st in
      fold (recompute_request now) ids
        (st\<lparr>bs_rows := map (\<lambda>r. if bd_request r \<in> set ids \<and> open_row r then time_out now r else r) (bs_rows st)\<rparr>))"

subsection \<open>Dispatch and reports\<close>

definition names_row :: "string \<Rightarrow> string \<Rightarrow> string \<Rightarrow> delivery_row \<Rightarrow> bool" where
  "names_row rid dev cmd r \<longleftrightarrow> bd_request r = rid \<and> bd_device r = dev \<and> bd_command r = cmd"

definition row_for_command :: "string \<Rightarrow> string \<Rightarrow> string \<Rightarrow> delivery_store \<Rightarrow> (delivery_row \<times> broadcast_request) option" where
  "row_for_command rid dev cmd st =
     (case find (names_row rid dev cmd) (bs_rows st) of None \<Rightarrow> None | Some r \<Rightarrow> map_option (Pair r) (request_of rid st))"

definition on_delivery :: "string \<Rightarrow> string \<Rightarrow> string \<Rightarrow> (delivery_row \<Rightarrow> delivery_row) \<Rightarrow> delivery_store \<Rightarrow> delivery_store" where
  "on_delivery rid dev cmd f st = st\<lparr>bs_rows := map (\<lambda>r. if names_row rid dev cmd r then f r else r) (bs_rows st)\<rparr>"

record dispatch_args =
  da_delivered :: bool
  da_queued :: bool
  da_revision :: "string option"
  da_source :: "string option"
  da_region :: "string option"
  da_reason :: "string option"

definition dispatched :: "int \<Rightarrow> dispatch_args \<Rightarrow> delivery_row \<Rightarrow> delivery_row" where
  "dispatched now a r =
     (let state = (if da_delivered a then Delivered else if da_queued a then Offline else Failed) in
      r\<lparr>bd_state := state, bd_delivery := state,
        bd_ack := (if da_delivered a \<or> da_queued a then Pending else Failed),
        bd_revision := sql_coalesce (da_revision a) (bd_revision r), bd_source := sql_coalesce (da_source a) (bd_source r),
        bd_region := sql_coalesce (da_region a) (bd_region r),
        bd_reason := (if da_delivered a then None
          else sql_coalesce (nonempty (da_reason a)) (Some (if da_queued a then ''Player offline; update queued'' else ''Broadcast dispatch failed''))),
        bd_delivered := sql_coalesce (if da_delivered a then Some now else None) (bd_delivered r), bd_updated := now\<rparr>)"

definition mark_dispatched :: "int \<Rightarrow> string \<Rightarrow> string \<Rightarrow> string \<Rightarrow> dispatch_args \<Rightarrow> delivery_store \<Rightarrow> delivery_store \<times> delivery_result" where
  "mark_dispatched now rid dev cmd a st =
     (case row_for_command rid dev cmd st of
        None \<Rightarrow> (st, NotApplied ''unknown_or_terminal_delivery'')
      | Some (r, q) \<Rightarrow>
          if \<not> open_row r then (st, NotApplied ''unknown_or_terminal_delivery'')
          else if br_expires q \<le> now then (sweep_expired now st, NotApplied ''delivery_expired'')
          else (recompute_request now rid (on_delivery rid dev cmd (dispatched now a) st),
                Applied (if da_delivered a then Delivered else if da_queued a then Offline else Failed)))"

definition mark_prepared :: "int \<Rightarrow> string \<Rightarrow> string \<Rightarrow> string \<Rightarrow> string option \<Rightarrow> string option \<Rightarrow> delivery_store \<Rightarrow> delivery_store \<times> delivery_result" where
  "mark_prepared now rid dev cmd revision source st =
     (case nonempty revision of
        None \<Rightarrow> (st, NotApplied ''playlist_revision_required'')
      | Some pr \<Rightarrow>
         (case row_for_command rid dev cmd st of
            None \<Rightarrow> (st, NotApplied ''unknown_or_terminal_delivery'')
          | Some (r, q) \<Rightarrow>
              if \<not> open_row r then (st, NotApplied ''unknown_or_terminal_delivery'')
              else if br_expires q \<le> now then (sweep_expired now st, NotApplied ''delivery_expired'')
              else if nonempty (bd_revision r) \<noteq> None \<and> bd_revision r \<noteq> Some pr then (st, NotApplied ''playlist_revision_mismatch'')
              else (on_delivery rid dev cmd (\<lambda>r. r\<lparr>bd_revision := sql_coalesce (bd_revision r) (Some pr),
                      bd_source := sql_coalesce source (bd_source r), bd_updated := now\<rparr>) st, Applied (bd_state r))))"

definition pending_for_device :: "int \<Rightarrow> string \<Rightarrow> string \<Rightarrow> delivery_store \<Rightarrow> (delivery_row \<times> broadcast_request) list" where
  "pending_for_device now dev pr st =
     (if dev = [] \<or> pr = [] then []
      else (let rows = List.map_filter (\<lambda>r. if bd_device r = dev \<and> bd_revision r = Some pr \<and> open_row r
                then (case request_of (bd_request r) st of None \<Rightarrow> None | Some q \<Rightarrow> if now < br_expires q then Some (r, q) else None)
                else None) (bs_rows st)
            in sort_key (\<lambda>(r, q). - br_created q) (sort_key (\<lambda>(r, q). bd_ordinal r) rows)))"

record status_report =
  sr_phase :: string
  sr_revision :: "string option"
  sr_generation :: jsval
  sr_session :: jsval
  sr_player :: jsval
  sr_failure :: "string option"

definition report_failed :: "int \<Rightarrow> status_report \<Rightarrow> delivery_row \<Rightarrow> delivery_row" where
  "report_failed now a r = r\<lparr>bd_state := Failed, bd_delivery := (if bd_delivery r = Requested then Failed else bd_delivery r),
     bd_ack := Failed, bd_reason := sql_coalesce (nonempty (sr_failure a)) (Some ''Player reported render failure''), bd_updated := now\<rparr>"

definition report_acknowledged :: "int \<Rightarrow> string \<Rightarrow> string \<Rightarrow> delivery_row \<Rightarrow> delivery_row" where
  "report_acknowledged now pr session r =
     r\<lparr>bd_state := (if bd_state r = Confirmed then Confirmed else Acknowledged), bd_delivery := Delivered,
       bd_ack := (if bd_ack r = Confirmed then Confirmed else Acknowledged),
       bd_revision := sql_coalesce (bd_revision r) (Some pr), bd_session := sql_coalesce (bd_session r) (Some session),
       bd_reason := None, bd_delivered := sql_coalesce (bd_delivered r) (Some now),
       bd_acknowledged := sql_coalesce (bd_acknowledged r) (Some now), bd_updated := now\<rparr>"

definition report_confirmed :: "int \<Rightarrow> string \<Rightarrow> string \<Rightarrow> int \<Rightarrow> jsval \<Rightarrow> delivery_row \<Rightarrow> delivery_row" where
  "report_confirmed now pr session generation player r =
     r\<lparr>bd_state := Confirmed, bd_delivery := Delivered, bd_ack := Confirmed,
       bd_revision := sql_coalesce (bd_revision r) (Some pr), bd_session := sql_coalesce (bd_session r) (Some session),
       bd_player := Some (json_clean player), bd_reason := None, bd_generation := Some generation,
       bd_delivered := sql_coalesce (bd_delivered r) (Some now), bd_acknowledged := sql_coalesce (bd_acknowledged r) (Some now),
       bd_confirmed := Some now, bd_updated := now\<rparr>"

text \<open>Does the player show what the row expects?\<close>

definition source_shown :: "delivery_row \<Rightarrow> jsval \<Rightarrow> string option" where
  "source_shown r player =
     (let differs = (\<lambda>v. case nonempty (bd_source r) of None \<Rightarrow> False | Some s \<Rightarrow> to_str v \<noteq> s) in
      case nonempty (bd_region r) of
        Some g \<Rightarrow>
          (case find (\<lambda>e. to_str (js_or (fld e ''region_id'') (JStr [])) = g) (array_items (fld player ''region_states'')) of
             None \<Rightarrow> Some ''region_state_missing''
           | Some e \<Rightarrow> if differs (js_or (fld e ''current_content_id'') (JStr [])) then Some ''source_mismatch'' else None)
      | None \<Rightarrow>
          if truthy (fld player ''current_content_id'') \<and> differs (fld player ''current_content_id'') then Some ''source_mismatch'' else None)"

definition confirm_refusal :: "status_report \<Rightarrow> delivery_row \<Rightarrow> string option" where
  "confirm_refusal a r =
     (if \<not> (case num_int (to_num (sr_generation a)) of None \<Rightarrow> False | Some g \<Rightarrow> 0 < g) then Some ''render_generation_required''
      else if \<not> is_object (sr_player a) then Some ''player_state_required''
      else if fld (sr_player a) ''render_state'' = JStr ''error'' \<or> truthy (fld (sr_player a) ''error_state'') then Some ''player_state_error''
      else source_shown r (sr_player a))"

text \<open>What a report in time does to its row: the new state and the change, or the reason it is not applied.\<close>

definition player_outcome :: "int \<Rightarrow> status_report \<Rightarrow> delivery_row \<Rightarrow> string + delivery_status \<times> (delivery_row \<Rightarrow> delivery_row)" where
  "player_outcome now a r =
     (if \<not> open_row r \<and> \<not> (bd_state r = Failed \<and> sr_phase a = ''failed'') then Inl ''terminal_delivery''
      else if sr_phase a \<notin> {''acknowledged'', ''confirmed'', ''failed''} then Inl ''invalid_phase''
      else if nonempty (bd_revision r) \<noteq> None \<and> bd_revision r \<noteq> sr_revision a then Inl ''playlist_revision_mismatch''
      else if sr_phase a = ''failed'' then Inr (Failed, report_failed now a)
      else (case nonempty (sr_revision a) of
          None \<Rightarrow> Inl ''playlist_revision_required''
        | Some pr \<Rightarrow>
            (let session = text_limit 128 (sr_session a) in
             if session = [] then Inl ''renderer_session_required''
             else if nonempty (bd_session r) \<noteq> None \<and> bd_session r \<noteq> Some session then Inl ''renderer_session_mismatch''
             else if sr_phase a = ''acknowledged'' then Inr (Acknowledged, report_acknowledged now pr session)
             else (case confirm_refusal a r of
                 Some why \<Rightarrow> Inl why
               | None \<Rightarrow> Inr (Confirmed, report_confirmed now pr session (the (num_int (to_num (sr_generation a)))) (sr_player a))))))"

definition mark_player_status :: "int \<Rightarrow> string \<Rightarrow> string \<Rightarrow> string \<Rightarrow> status_report \<Rightarrow> delivery_store \<Rightarrow> delivery_store \<times> delivery_result" where
  "mark_player_status now rid dev cmd a st =
     (case row_for_command rid dev cmd st of
        None \<Rightarrow> (st, NotApplied ''command_mismatch'')
      | Some (r, q) \<Rightarrow>
          if br_expires q \<le> now then (sweep_expired now st, NotApplied ''delivery_expired'')
          else (case player_outcome now a r of
              Inl why \<Rightarrow> (st, NotApplied why)
            | Inr (s, f) \<Rightarrow> (recompute_request now rid (on_delivery rid dev cmd f st), Applied s)))"

subsection \<open>Histories\<close>

datatype delivery_event =
    Creates "nat \<Rightarrow> string" broadcast_args
  | Dispatches string string string dispatch_args
  | Prepares string string string "string option" "string option"
  | Reports string string string status_report
  | Sweeps

fun delivery_step :: "int \<Rightarrow> (string \<Rightarrow> string \<Rightarrow> string option) \<Rightarrow> int \<times> delivery_event \<Rightarrow> delivery_store \<Rightarrow> delivery_store" where
  "delivery_step timeout name_of (now, Creates uid a) st = fst (create_request timeout name_of uid now a st)"
| "delivery_step timeout name_of (now, Dispatches rid dev cmd a) st = fst (mark_dispatched now rid dev cmd a st)"
| "delivery_step timeout name_of (now, Prepares rid dev cmd pr source) st = fst (mark_prepared now rid dev cmd pr source st)"
| "delivery_step timeout name_of (now, Reports rid dev cmd a) st = fst (mark_player_status now rid dev cmd a st)"
| "delivery_step timeout name_of (now, Sweeps) st = sweep_expired now st"

definition delivery_run :: "int \<Rightarrow> (string \<Rightarrow> string \<Rightarrow> string option) \<Rightarrow> (int \<times> delivery_event) list \<Rightarrow> delivery_store \<Rightarrow> delivery_store" where
  "delivery_run timeout name_of es st = run_events (delivery_step timeout name_of) es st"

definition no_deliveries :: delivery_store where
  "no_deliveries = \<lparr>bs_requests = [], bs_rows = []\<rparr>"

subsection \<open>What an operation may do to a row\<close>

text \<open>The report a row is confirmed by.\<close>

definition proof_of_display :: "int \<Rightarrow> status_report \<Rightarrow> delivery_row \<Rightarrow> delivery_store \<Rightarrow> bool" where
  "proof_of_display now a r st \<longleftrightarrow> sr_phase a = ''confirmed'' \<and> confirm_refusal a r = None
     \<and> nonempty (sr_revision a) \<noteq> None \<and> (nonempty (bd_revision r) \<noteq> None \<longrightarrow> bd_revision r = sr_revision a)
     \<and> text_limit 128 (sr_session a) \<noteq> [] \<and> (nonempty (bd_session r) \<noteq> None \<longrightarrow> bd_session r = Some (text_limit 128 (sr_session a)))
     \<and> (\<exists>q. request_of (bd_request r) st = Some q \<and> now < br_expires q)"

inductive delivery_change :: "int \<Rightarrow> delivery_event \<Rightarrow> delivery_store \<Rightarrow> delivery_row \<Rightarrow> delivery_row \<Rightarrow> bool"
  for now :: int and e :: delivery_event and st :: delivery_store where
  unchanged: "delivery_change now e st r r"
| timed: "open_row r \<Longrightarrow> delivery_change now e st r (time_out now r)"
| dispatching: "open_row r \<Longrightarrow> e = Dispatches (bd_request r) (bd_device r) (bd_command r) a \<Longrightarrow> delivery_change now e st r (dispatched now a r)"
| preparing: "open_row r \<Longrightarrow> pr \<noteq> [] \<Longrightarrow> delivery_change now e st r (r\<lparr>bd_revision := sql_coalesce (bd_revision r) (Some pr),
      bd_source := sql_coalesce source (bd_source r), bd_updated := now\<rparr>)"
| failing: "open_row r \<or> bd_state r = Failed \<Longrightarrow> delivery_change now e st r (report_failed now a r)"
| acknowledging: "open_row r \<Longrightarrow> pr \<noteq> [] \<Longrightarrow> session \<noteq> [] \<Longrightarrow> delivery_change now e st r (report_acknowledged now pr session r)"
| confirming: "open_row r \<Longrightarrow> e = Reports (bd_request r) (bd_device r) (bd_command r) a \<Longrightarrow> proof_of_display now a r st \<Longrightarrow>
    sr_revision a = Some pr \<Longrightarrow>
    delivery_change now e st r (report_confirmed now pr (text_limit 128 (sr_session a)) (the (num_int (to_num (sr_generation a)))) (sr_player a) r)"

lemma changed_request [simp]:
  "bd_request (time_out now r) = bd_request r" "bd_request (dispatched now d r) = bd_request r" "bd_request (report_failed now a r) = bd_request r"
  "bd_request (report_acknowledged now pr s r) = bd_request r" "bd_request (report_confirmed now pr s g p r) = bd_request r"
  by (simp_all add: time_out_def dispatched_def Let_def report_failed_def report_acknowledged_def report_confirmed_def)

lemma delivery_change_ids:
  "delivery_change now e st r r' \<Longrightarrow> bd_request r' = bd_request r \<and> bd_command r' = bd_command r \<and> bd_device r' = bd_device r \<and> bd_key r' = bd_key r"
  by (induction rule: delivery_change.induct)
    (auto simp: time_out_def dispatched_def Let_def report_failed_def report_acknowledged_def report_confirmed_def)

text \<open>A row that is settled stays as it is.\<close>

lemma delivery_change_settled:
  "delivery_change now e st r r' \<Longrightarrow> \<not> open_row r \<Longrightarrow> bd_state r' = bd_state r"
  by (induction rule: delivery_change.induct) (auto simp: report_failed_def)

subsection \<open>What an operation may do to the tables\<close>

lemma recompute_rows [simp]: "bs_rows (recompute_request now rid st) = bs_rows st"
  by (simp add: recompute_request_def Let_def)

lemma rows_of_recompute [simp]: "rows_of i (recompute_request now rid st) = rows_of i st"
  by (simp add: rows_of_def)

lemma fold_recompute_rows [simp]: "bs_rows (fold (recompute_request now) ids st) = bs_rows st"
  by (induction ids arbitrary: st) simp_all

lemma on_delivery_fields [simp]: "bs_requests (on_delivery rid dev cmd f st) = bs_requests st"
  by (simp add: on_delivery_def)

text \<open>The requests whose status does not reflect their rows.\<close>

definition reflects :: "delivery_store \<Rightarrow> broadcast_request \<Rightarrow> bool" where
  "reflects st q \<longleftrightarrow> br_status q = aggregate_status (map bd_state (rows_of (br_id q) st))
     \<and> (br_completed q \<noteq> None \<longleftrightarrow> br_status q \<in> set request_terminal)"

definition reflected_but :: "string set \<Rightarrow> delivery_store \<Rightarrow> bool" where
  "reflected_but R st \<longleftrightarrow> (\<forall>q \<in> set (bs_requests st). br_id q \<in> R \<or> reflects st q)"

definition only_status :: "broadcast_request \<Rightarrow> broadcast_request" where
  "only_status q = q\<lparr>br_status := Requested, br_completed := None\<rparr>"

lemma only_status_id: "only_status q = only_status q' \<Longrightarrow> br_id q = br_id q' \<and> br_expires q = br_expires q' \<and> br_workspace q = br_workspace q'
    \<and> br_user q = br_user q' \<and> br_key q = br_key q' \<and> br_fingerprint q = br_fingerprint q' \<and> br_created q = br_created q'"
  unfolding only_status_def by (cases q; cases q') simp

lemma recompute_frame: "map only_status (bs_requests (recompute_request now rid st)) = map only_status (bs_requests st)"
  by (simp add: recompute_request_def Let_def only_status_def)

lemma fold_recompute_frame: "map only_status (bs_requests (fold (recompute_request now) ids st)) = map only_status (bs_requests st)"
  by (induction ids arbitrary: st) (simp_all add: recompute_frame)

lemma recompute_reflected:
  assumes "reflected_but R st"
  shows "reflected_but (R - {rid}) (recompute_request now rid st)"
  using assms by (auto simp: reflected_but_def reflects_def recompute_request_def Let_def rows_of_def)

lemma fold_recompute_reflected:
  "reflected_but R st \<Longrightarrow> reflected_but (R - set ids) (fold (recompute_request now) ids st)"
proof (induction ids arbitrary: R st)
  case (Cons i ids)
  from Cons.IH [OF recompute_reflected [OF Cons.prems]] show ?case by (simp add: Diff_insert2 [symmetric])
qed simp

lemma map_rows_reflected:
  assumes "reflected_but {} st" "\<And>r. bd_request (g r) = bd_request r" "\<And>r. bd_request r \<notin> R \<Longrightarrow> g r = r"
  shows "reflected_but R (st\<lparr>bs_rows := map g (bs_rows st)\<rparr>)"
proof -
  have "rows_of i (st\<lparr>bs_rows := map g (bs_rows st)\<rparr>) = map g (rows_of i st)" for i
    by (simp add: rows_of_def filter_map comp_def assms(2))
  moreover have "map g (rows_of i st) = rows_of i st" if "i \<notin> R" for i
    by (rule map_idI) (use assms(3) that in \<open>auto simp: rows_of_def\<close>)
  ultimately have same: "rows_of i (st\<lparr>bs_rows := map g (bs_rows st)\<rparr>) = rows_of i st" if "i \<notin> R" for i using that by simp
  show ?thesis unfolding reflected_but_def
  proof (intro ballI)
    fix q assume "q \<in> set (bs_requests (st\<lparr>bs_rows := map g (bs_rows st)\<rparr>))"
    then have "reflects st q" using assms(1) by (simp add: reflected_but_def)
    then show "br_id q \<in> R \<or> reflects (st\<lparr>bs_rows := map g (bs_rows st)\<rparr>) q" using same by (cases "br_id q \<in> R") (simp_all add: reflects_def)
  qed
qed


text \<open>What a well-formed row looks like; a confirmed one holds the evidence.\<close>

definition row_ok :: "delivery_row \<Rightarrow> bool" where
  "row_ok r \<longleftrightarrow> bd_state r \<in> set target_states \<and> bd_delivery r \<in> set delivery_states \<and> bd_ack r \<in> set acknowledgment_states
     \<and> (bd_state r = Confirmed \<longrightarrow> bd_ack r = Confirmed \<and> bd_delivery r = Delivered \<and> bd_reason r = None
          \<and> bd_revision r \<noteq> None \<and> bd_session r \<noteq> None \<and> (\<exists>g > 0. bd_generation r = Some g) \<and> bd_player r \<noteq> None
          \<and> bd_delivered r \<noteq> None \<and> bd_acknowledged r \<noteq> None \<and> bd_confirmed r \<noteq> None)"

definition sound_deliveries :: "delivery_store \<Rightarrow> bool" where
  "sound_deliveries st \<longleftrightarrow> reflected_but {} st \<and> distinct (map br_id (bs_requests st)) \<and> distinct (map bd_command (bs_rows st))
     \<and> (\<forall>r \<in> set (bs_rows st). bd_request r \<in> br_id ` set (bs_requests st))
     \<and> (\<forall>q \<in> set (bs_requests st). rows_of (br_id q) st \<noteq> []) \<and> list_all row_ok (bs_rows st)"

lemma status_lists [simp]:
  "s \<in> set device_terminal \<longleftrightarrow> s = Confirmed \<or> s = Failed \<or> s = TimedOut"
  "s \<in> set request_terminal \<longleftrightarrow> s = Confirmed \<or> s = Partial \<or> s = Failed \<or> s = TimedOut"
  "s \<in> set target_states \<longleftrightarrow> s \<in> {Requested, Delivered, Acknowledged, Confirmed, Failed, Offline, TimedOut}"
  "s \<in> set delivery_states \<longleftrightarrow> s \<in> {Requested, Delivered, Offline, Failed, TimedOut}"
  "s \<in> set acknowledgment_states \<longleftrightarrow> s \<in> {Pending, Acknowledged, Confirmed, Failed, TimedOut}"
  by (auto simp: device_terminal_def request_terminal_def target_states_def delivery_states_def acknowledgment_states_def)

lemma delivery_change_ok: "delivery_change now e st r r' \<Longrightarrow> row_ok r \<Longrightarrow> row_ok r'"
proof (induction rule: delivery_change.induct)
  case (confirming r a pr)
  then obtain g where "num_int (to_num (sr_generation a)) = Some g" "0 < g"
    by (auto simp: proof_of_display_def confirm_refusal_def split: option.splits if_splits)
  with confirming show ?case by (auto simp: row_ok_def report_confirmed_def sql_coalesce_def split: option.split)
next
  case (dispatching r a)
  then show ?case by (auto simp: row_ok_def dispatched_def Let_def open_row_def)
next
  case (preparing r pr source)
  then show ?case by (auto simp: row_ok_def open_row_def)
next
  case (acknowledging r pr session)
  then show ?case by (auto simp: row_ok_def report_acknowledged_def open_row_def)
qed (auto simp: row_ok_def time_out_def report_failed_def)

text \<open>Every operation rewrites the rows one by one, appends those of a new request, and leaves every status the one of its rows.\<close>

definition tables_step :: "int \<Rightarrow> delivery_event \<Rightarrow> delivery_store \<Rightarrow> delivery_store \<Rightarrow> bool" where
  "tables_step now e st st' \<longleftrightarrow> (\<exists>g rows reqs. bs_rows st' = map g (bs_rows st) @ rows
     \<and> map only_status (bs_requests st') = map only_status (bs_requests st) @ reqs
     \<and> (\<forall>r \<in> set (bs_rows st). delivery_change now e st r (g r)) \<and> (\<forall>q \<in> set reqs. br_id q \<notin> br_id ` set (bs_requests st))
     \<and> distinct (map br_id reqs) \<and> distinct (map bd_command (bs_rows st) @ map bd_command rows)
     \<and> bd_request ` set rows = br_id ` set reqs \<and> list_all row_ok rows \<and> reflected_but {} st')"

lemma tables_stepE:
  assumes "tables_step now e st st'"
  obtains g rows reqs where "bs_rows st' = map g (bs_rows st) @ rows"
    "map only_status (bs_requests st') = map only_status (bs_requests st) @ reqs"
    "\<forall>r \<in> set (bs_rows st). delivery_change now e st r (g r)" "\<forall>q \<in> set reqs. br_id q \<notin> br_id ` set (bs_requests st)"
    "distinct (map br_id reqs)" "distinct (map bd_command (bs_rows st) @ map bd_command rows)"
    "bd_request ` set rows = br_id ` set reqs" "list_all row_ok rows" "reflected_but {} st'"
  using assms unfolding tables_step_def by (elim exE conjE) (rule that; assumption)

lemma tables_stepI:
  assumes "sound_deliveries st" "bs_rows st' = map g (bs_rows st)" "map only_status (bs_requests st') = map only_status (bs_requests st)"
    and "\<And>r. r \<in> set (bs_rows st) \<Longrightarrow> delivery_change now e st r (g r)" "reflected_but {} st'"
  shows "tables_step now e st st'"
  unfolding tables_step_def by (rule exI [of _ g], rule exI [of _ "[]"], rule exI [of _ "[]"]) (use assms in \<open>auto simp: sound_deliveries_def\<close>)

lemma same_tables: "sound_deliveries st \<Longrightarrow> tables_step now e st st"
  by (rule tables_stepI [of st st "\<lambda>r. r"]) (auto simp: sound_deliveries_def intro: delivery_change.unchanged)

lemma sweep_tables:
  assumes "sound_deliveries st"
  shows "tables_step now e st (sweep_expired now st)"
proof -
  let ?ids = "expired_requests now st"
  let ?g = "\<lambda>r. if bd_request r \<in> set ?ids \<and> open_row r then time_out now r else r"
  have r: "reflected_but (set ?ids) (st\<lparr>bs_rows := map ?g (bs_rows st)\<rparr>)"
    by (rule map_rows_reflected) (use assms in \<open>auto simp: sound_deliveries_def time_out_def\<close>)
  show ?thesis
  proof (rule tables_stepI [OF assms, of _ ?g])
    show "reflected_but {} (sweep_expired now st)"
      using fold_recompute_reflected [OF r, of ?ids now] by (simp add: sweep_expired_def Let_def)
  qed (auto simp: sweep_expired_def Let_def fold_recompute_frame intro: delivery_change.intros)
qed

lemma update_tables:
  assumes "sound_deliveries st" "\<And>r. bd_request (f r) = bd_request r"
    and "\<And>r. r \<in> set (bs_rows st) \<Longrightarrow> names_row rid dev cmd r \<Longrightarrow> delivery_change now e st r (f r)"
  shows "tables_step now e st (recompute_request now rid (on_delivery rid dev cmd f st))"
proof -
  let ?g = "\<lambda>r. if names_row rid dev cmd r then f r else r"
  have "reflected_but {rid} (on_delivery rid dev cmd f st)"
    unfolding on_delivery_def by (rule map_rows_reflected) (use assms(1,2) in \<open>auto simp: sound_deliveries_def names_row_def\<close>)
  from recompute_reflected [OF this, of rid now] show ?thesis
    by (intro tables_stepI [OF assms(1), of _ ?g]) (use assms(3) in \<open>auto simp: recompute_frame on_delivery_def intro: delivery_change.unchanged\<close>)
qed

lemma distinct_find:
  assumes "distinct (map bd_command rows)" "find (names_row rid dev cmd) rows = Some r"
  shows "r \<in> set rows" "names_row rid dev cmd r" "\<And>q. q \<in> set rows \<Longrightarrow> names_row rid dev cmd q \<Longrightarrow> q = r"
proof -
  show r: "r \<in> set rows" "names_row rid dev cmd r" using assms(2) by (auto simp: find_Some_iff)
  show "q = r" if "q \<in> set rows" "names_row rid dev cmd q" for q
    using assms(1) r that unfolding names_row_def distinct_map inj_on_def by auto
qed

lemma dispatch_tables:
  assumes "sound_deliveries st"
  shows "tables_step now (Dispatches rid dev cmd a) st (fst (mark_dispatched now rid dev cmd a st))"
proof (cases "row_for_command rid dev cmd st")
  case None
  then show ?thesis using same_tables [OF assms] by (simp add: mark_dispatched_def)
next
  case (Some x)
  obtain r q where x: "x = (r, q)" by (cases x)
  with Some have f: "find (names_row rid dev cmd) (bs_rows st) = Some r" by (auto simp: row_for_command_def split: option.splits)
  note d = distinct_find [OF _ f]
  show ?thesis
  proof (cases "open_row r \<and> \<not> br_expires q \<le> now")
    case True
    have "tables_step now (Dispatches rid dev cmd a) st (recompute_request now rid (on_delivery rid dev cmd (dispatched now a) st))"
    proof (rule update_tables [OF assms])
      fix p assume p: "p \<in> set (bs_rows st)" "names_row rid dev cmd p"
      then have "p = r" using d(3) assms by (simp add: sound_deliveries_def)
      with True p(2) show "delivery_change now (Dispatches rid dev cmd a) st p (dispatched now a p)"
        by (intro delivery_change.dispatching) (auto simp: names_row_def)
    qed (simp add: dispatched_def Let_def)
    with True Some x show ?thesis by (simp add: mark_dispatched_def)
  next
    case False
    with Some x show ?thesis using same_tables [OF assms] sweep_tables [OF assms] by (auto simp: mark_dispatched_def)
  qed
qed


lemma row_for_command_find:
  assumes "row_for_command rid dev cmd st = Some (r, q)"
  shows "find (names_row rid dev cmd) (bs_rows st) = Some r" "request_of rid st = Some q"
  using assms by (auto simp: row_for_command_def split: option.splits)

lemma prepare_tables:
  assumes "sound_deliveries st"
  shows "tables_step now (Prepares rid dev cmd pr source) st (fst (mark_prepared now rid dev cmd pr source st))"
proof -
  note same = same_tables [OF assms] and sweep = sweep_tables [OF assms]
  show ?thesis
  proof (cases "nonempty pr")
    case None
    then show ?thesis using same by (simp add: mark_prepared_def)
  next
    case (Some p)
    note p = Some
    then have p0: "p \<noteq> []" by (auto simp: nonempty_def split: option.splits if_splits)
    show ?thesis
    proof (cases "row_for_command rid dev cmd st")
      case None
      then show ?thesis using same p by (simp add: mark_prepared_def)
    next
      case (Some x)
      obtain r q where x: "x = (r, q)" by (cases x)
      let ?f = "\<lambda>r. r\<lparr>bd_revision := sql_coalesce (bd_revision r) (Some p), bd_source := sql_coalesce source (bd_source r), bd_updated := now\<rparr>"
      note d = distinct_find [OF _ row_for_command_find(1) [OF Some [unfolded x]]]
      have step: "tables_step now (Prepares rid dev cmd pr source) st (on_delivery rid dev cmd ?f st)" if "open_row r"
      proof (rule tables_stepI [OF assms, of _ "\<lambda>r. if names_row rid dev cmd r then ?f r else r"])
        show "delivery_change now (Prepares rid dev cmd pr source) st t (if names_row rid dev cmd t then ?f t else t)" if "t \<in> set (bs_rows st)" for t
          using that \<open>open_row r\<close> p0 d(3) [of t] assms by (auto simp: sound_deliveries_def intro: delivery_change.preparing delivery_change.unchanged)
        have "rows_of i (on_delivery rid dev cmd ?f st) = map (\<lambda>r. if names_row rid dev cmd r then ?f r else r) (rows_of i st)" for i
          by (simp add: rows_of_def on_delivery_def filter_map comp_def if_distrib [of bd_request] cong: if_cong)
        then have "map bd_state (rows_of i (on_delivery rid dev cmd ?f st)) = map bd_state (rows_of i st)" for i by simp
        then show "reflected_but {} (on_delivery rid dev cmd ?f st)" using assms by (simp add: sound_deliveries_def reflected_but_def reflects_def)
      qed (simp_all add: on_delivery_def)
      show ?thesis
      proof (cases "open_row r")
        case True
        then show ?thesis using same sweep step p Some x by (simp add: mark_prepared_def)
      qed (use same p Some x in \<open>simp add: mark_prepared_def\<close>)
    qed
  qed
qed

lemma player_outcome_Inr:
  assumes "player_outcome now a r = Inr (s, f)"
  obtains (failing) "f = report_failed now a" "open_row r \<or> bd_state r = Failed"
  | (acknowledging) pr where "f = report_acknowledged now pr (text_limit 128 (sr_session a))" "open_row r" "pr \<noteq> []" "text_limit 128 (sr_session a) \<noteq> []"
  | (confirming) pr where "f = report_confirmed now pr (text_limit 128 (sr_session a)) (the (num_int (to_num (sr_generation a)))) (sr_player a)"
      "open_row r" "sr_phase a = ''confirmed''" "confirm_refusal a r = None" "sr_revision a = Some pr" "pr \<noteq> []"
      "nonempty (bd_revision r) \<noteq> None \<longrightarrow> bd_revision r = sr_revision a" "text_limit 128 (sr_session a) \<noteq> []"
      "nonempty (bd_session r) \<noteq> None \<longrightarrow> bd_session r = Some (text_limit 128 (sr_session a))"
proof -
  note chk = assms [unfolded player_outcome_def Let_def guard_Inr]
  show thesis
  proof (cases "sr_phase a = ''failed''")
    case True
    with chk show thesis by (intro failing) auto
  next
    case False
    note phase = this
    with chk obtain pr where pr: "nonempty (sr_revision a) = Some pr" by (cases "nonempty (sr_revision a)") auto
    then have pr0: "sr_revision a = Some pr" "pr \<noteq> []" by (auto simp: nonempty_def split: option.splits if_splits)
    have op: "open_row r" using chk phase by blast
    have s: "text_limit 128 (sr_session a) \<noteq> []" "\<not> (nonempty (bd_session r) \<noteq> None \<and> bd_session r \<noteq> Some (text_limit 128 (sr_session a)))"
      using chk phase pr by (auto split: if_splits)
    show thesis
    proof (cases "sr_phase a = ''acknowledged''")
      case True
      with chk pr s op pr0(2) show thesis by (intro acknowledging [of pr]) auto
    next
      case False
      with phase chk have conf: "sr_phase a = ''confirmed''" by blast
      then have none: "confirm_refusal a r = None" using chk pr s by (cases "confirm_refusal a r") auto
      show thesis by (rule confirming [of pr]) (use chk pr s op pr0 conf none in auto)
    qed
  qed
qed

lemma report_tables:
  assumes "sound_deliveries st"
  shows "tables_step now (Reports rid dev cmd a) st (fst (mark_player_status now rid dev cmd a st))"
proof (cases "row_for_command rid dev cmd st")
  case None
  then show ?thesis using same_tables [OF assms] by (simp add: mark_player_status_def)
next
  case (Some x)
  obtain r q where x: "x = (r, q)" by (cases x)
  note find = row_for_command_find [OF Some [unfolded x]]
  note d = distinct_find [OF _ find(1)]
  have only: "t = r" if "t \<in> set (bs_rows st)" "names_row rid dev cmd t" for t using d(3) [OF _ that] assms by (simp add: sound_deliveries_def)
  have nr: "names_row rid dev cmd r" using find(1) by (auto simp: find_Some_iff)
  let ?e = "Reports rid dev cmd a"
  show ?thesis
  proof (cases "br_expires q \<le> now")
    case True
    then show ?thesis using Some x sweep_tables [OF assms] by (simp add: mark_player_status_def)
  next
    case False
    show ?thesis
    proof (cases "player_outcome now a r")
      case (Inl why)
      then show ?thesis using False Some x same_tables [OF assms] by (simp add: mark_player_status_def)
    next
      case (Inr y)
      obtain s f where y: "y = (s, f)" by (cases y)
      have "delivery_change now ?e st r (f r) \<and> (\<forall>t. bd_request (f t) = bd_request t)"
        using Inr [unfolded y]
      proof (cases rule: player_outcome_Inr)
        case failing
        then show ?thesis using delivery_change.failing by simp
      next
        case (acknowledging pr)
        then show ?thesis using delivery_change.acknowledging by simp
      next
        case (confirming pr)
        have "proof_of_display now a r st"
          using confirming False find(2) nr unfolding proof_of_display_def by (simp add: names_row_def nonempty_def)
        then show ?thesis using confirming nr by (auto simp: names_row_def intro: delivery_change.confirming)
      qed
      then have "tables_step now ?e st (recompute_request now rid (on_delivery rid dev cmd f st))"
        using only by (intro update_tables [OF assms]) blast+
      with False Inr y Some x show ?thesis by (simp add: mark_player_status_def)
    qed
  qed
qed

lemma new_delivery_ok: "row_ok (new_delivery name_of uid now p)"
  by (cases p) (auto simp: new_delivery_def Let_def row_ok_def)

lemma new_delivery_request: "bd_request (new_delivery name_of uid now p) = uid 0"
  by (cases p) (simp add: new_delivery_def Let_def)

lemma new_request_id [simp]: "br_id (new_request timeout uid now a targets) = uid 0"
  by (simp add: new_request_def Let_def)

lemma create_tables:
  assumes "sound_deliveries st"
  shows "tables_step now (Creates uid a) st (fst (create_request timeout name_of uid now a st))"
proof -
  define st' where "st' = fst (create_request timeout name_of uid now a st)"
  consider "st' = st"
    | req rows where "uid 0 \<notin> br_id ` set (bs_requests st)" "br_id req = uid 0" "rows \<noteq> []" "bd_request ` set rows = {uid 0}" "list_all row_ok rows"
        "distinct (map bd_command (bs_rows st) @ map bd_command rows)"
        "st' = recompute_request now (uid 0) (st\<lparr>bs_requests := bs_requests st @ [req], bs_rows := bs_rows st @ rows\<rparr>)"
  proof -
    let ?targets = "unique_targets [] (ba_targets a)" and ?prior = "prior_request a st"
    let ?rows = "map (new_delivery (\<lambda>d. name_of d (ba_workspace a)) uid now) (enumerate 0 ?targets)"
    assume same: "st' = st \<Longrightarrow> thesis" and new: "\<And>req rows. uid 0 \<notin> br_id ` set (bs_requests st) \<Longrightarrow> br_id req = uid 0 \<Longrightarrow> rows \<noteq> [] \<Longrightarrow>
      bd_request ` set rows = {uid 0} \<Longrightarrow> list_all row_ok rows \<Longrightarrow> distinct (map bd_command (bs_rows st) @ map bd_command rows) \<Longrightarrow>
      st' = recompute_request now (uid 0) (st\<lparr>bs_requests := bs_requests st @ [req], bs_rows := bs_rows st @ rows\<rparr>) \<Longrightarrow> thesis"
    show thesis
    proof (cases "(ba_workspace a = [] \<or> ba_source_type a = [] \<or> ba_source a = []) \<or> ?prior \<noteq> None \<or> ?targets = []
        \<or> uid 0 \<in> br_id ` set (bs_requests st) \<or> \<not> distinct (map bd_command (bs_rows st) @ map bd_command ?rows)")
      case True
      then show thesis by (intro same) (auto simp: st'_def create_request_def Let_def split: option.splits)
    next
      case False
      have ne: "?rows \<noteq> []" using False by (simp add: enumerate_eq_zip)
      show thesis
      proof (rule new [of "new_request timeout uid now a ?targets" ?rows])
        show "bd_request ` set ?rows = {uid 0}" using ne by (cases ?rows) (auto simp: new_delivery_request)
        show "list_all row_ok ?rows" by (auto simp: list_all_iff new_delivery_ok)
        show "st' = recompute_request now (uid 0) (st\<lparr>bs_requests := bs_requests st @ [new_request timeout uid now a ?targets], bs_rows := bs_rows st @ ?rows\<rparr>)"
          unfolding st'_def create_request_def Let_def using False by simp
      qed (use False ne in auto)
    qed
  qed
  then have "tables_step now (Creates uid a) st st'"
  proof cases
    case 1
    then show ?thesis using same_tables [OF assms] by simp
  next
    case (2 req rows)
    let ?st = "st\<lparr>bs_requests := bs_requests st @ [req], bs_rows := bs_rows st @ rows\<rparr>"
    have "rows_of i ?st = rows_of i st" if "i \<noteq> uid 0" for i
    proof -
      have "filter (\<lambda>r. bd_request r = i) rows = []" using 2(4) that by (auto simp: filter_empty_conv)
      then show ?thesis by (simp add: rows_of_def)
    qed
    then have "reflects ?st q" if "q \<in> set (bs_requests st)" for q
      using assms that 2(1) by (auto simp: sound_deliveries_def reflected_but_def reflects_def image_iff)
    then have "reflected_but {uid 0} ?st" using 2(2) by (simp add: reflected_but_def)
    from recompute_reflected [OF this, of "uid 0" now] have r: "reflected_but {} st'" by (simp add: 2(7))
    show ?thesis unfolding tables_step_def
      by (rule exI [of _ "\<lambda>r. r"], rule exI [of _ rows], rule exI [of _ "[only_status req]"])
        (use 2 r assms in \<open>auto simp: recompute_frame only_status_def intro: delivery_change.unchanged\<close>)
  qed
  then show ?thesis by (simp add: st'_def)
qed

lemma delivery_step_tables: "sound_deliveries st \<Longrightarrow> tables_step now e st (delivery_step timeout name_of (now, e) st)"
  by (cases e) (simp_all add: create_tables dispatch_tables prepare_tables report_tables sweep_tables)


lemma tables_step_sound:
  assumes "tables_step now e st st'" "sound_deliveries st"
  shows "sound_deliveries st'"
proof -
  obtain g rows reqs where t: "bs_rows st' = map g (bs_rows st) @ rows"
    "map only_status (bs_requests st') = map only_status (bs_requests st) @ reqs"
    "\<forall>r \<in> set (bs_rows st). delivery_change now e st r (g r)" "\<forall>q \<in> set reqs. br_id q \<notin> br_id ` set (bs_requests st)"
    "distinct (map br_id reqs)" "distinct (map bd_command (bs_rows st) @ map bd_command rows)"
    "bd_request ` set rows = br_id ` set reqs" "list_all row_ok rows" "reflected_but {} st'"
    by (rule tables_stepE [OF assms(1)])
  have idq: "br_id (only_status q) = br_id q" for q by (simp add: only_status_def)
  have ids: "map br_id (bs_requests st') = map br_id (bs_requests st) @ map br_id reqs"
    using arg_cong [OF t(2), of "map br_id"] by (simp add: comp_def idq)
  have same: "bd_request (g r) = bd_request r" "bd_command (g r) = bd_command r" if "r \<in> set (bs_rows st)" for r
    using delivery_change_ids t(3) that by blast+
  have cmds: "map bd_command (map g (bs_rows st)) = map bd_command (bs_rows st)" using same(2) by simp
  have idset: "br_id ` set (bs_requests st') = br_id ` set (bs_requests st) \<union> br_id ` set reqs"
    using arg_cong [OF ids, of set] by simp
  have rows: "bd_request ` set (bs_rows st') = bd_request ` set (bs_rows st) \<union> br_id ` set reqs"
    using same(1) t(7) by (auto simp: t(1) image_Un image_image)
  have ok: "list_all row_ok (bs_rows st')"
    using assms(2) t(3,8) delivery_change_ok by (auto simp: sound_deliveries_def list_all_iff t(1))
  have covered: "rows_of (br_id q) st' \<noteq> []" if "q \<in> set (bs_requests st')" for q
  proof -
    have "br_id q \<in> bd_request ` set (bs_rows st')"
    proof (cases "br_id q \<in> br_id ` set (bs_requests st)")
      case True
      then obtain p where "p \<in> set (bs_requests st)" "br_id p = br_id q" by auto
      then have "rows_of (br_id q) st \<noteq> []" using assms(2) by (auto simp: sound_deliveries_def)
      then show ?thesis unfolding rows rows_of_def filter_empty_conv by force
    next
      case False
      then show ?thesis using that idset rows by blast
    qed
    then show ?thesis by (auto simp: rows_of_def filter_empty_conv)
  qed
  have foreign: "bd_request r \<in> br_id ` set (bs_requests st')" if "r \<in> set (bs_rows st')" for r
  proof -
    have "bd_request r \<in> bd_request ` set (bs_rows st) \<union> br_id ` set reqs" using that rows by blast
    then show ?thesis using assms(2) by (auto simp: idset sound_deliveries_def)
  qed
  have "x \<notin> br_id ` set (bs_requests st)" if "x \<in> br_id ` set reqs" for x
  proof -
    from that obtain q where "q \<in> set reqs" "x = br_id q" by (rule imageE)
    with t(4) show ?thesis by simp
  qed
  then have "br_id ` set (bs_requests st) \<inter> br_id ` set reqs = {}" by (simp only: disjoint_iff) blast
  then have "distinct (map br_id (bs_requests st'))" using assms(2) t(5) by (simp add: ids sound_deliveries_def)
  moreover have "map bd_command (bs_rows st') = map bd_command (bs_rows st) @ map bd_command rows" using cmds by (simp add: t(1))
  with t(6) have "distinct (map bd_command (bs_rows st'))" by simp
  ultimately show ?thesis using t(9) ok covered foreign by (simp add: sound_deliveries_def)
qed

interpretation deliveries: machine "delivery_step timeout name_of" sound_deliveries for timeout name_of
proof
  fix st e assume "sound_deliveries st"
  then show "sound_deliveries (delivery_step timeout name_of e st)"
    using tables_step_sound [OF delivery_step_tables] by (cases e) blast
qed

lemma reachable_deliveries: "sound_deliveries (delivery_run timeout name_of es no_deliveries)"
  unfolding delivery_run_def
  by (rule deliveries.run_good) (simp add: sound_deliveries_def no_deliveries_def reflected_but_def)

text \<open>In every reachable state the status of a request is the one its targets imply, it has a completion time exactly when it is
  settled, and a target only counts as confirmed with the evidence of the player: revision, session, generation and state.\<close>

theorem request_reflects_targets:
  assumes "st = delivery_run timeout name_of es no_deliveries" "q \<in> set (bs_requests st)" "r \<in> set (rows_of (br_id q) st)"
  shows "br_status q = aggregate_status (map bd_state (rows_of (br_id q) st)) \<and> (br_completed q \<noteq> None \<longleftrightarrow> br_status q \<in> set request_terminal)
    \<and> row_ok r"
  using reachable_deliveries [of timeout name_of es] assms
  by (auto simp: sound_deliveries_def reflected_but_def reflects_def list_all_iff rows_of_def)

subsection \<open>Settled deliveries\<close>

lemma aggregate_terminal:
  assumes "ss \<noteq> []"
  shows "aggregate_status ss \<in> set request_terminal \<longleftrightarrow> list_all (\<lambda>s. s \<in> set device_terminal) ss"
  using assms by (cases ss) (auto simp: aggregate_status_def list_all_iff list_ex_iff)

lemma settled_step:
  assumes "sound_deliveries st" "tables_step now e st st'" "q \<in> set (bs_requests st)" "br_status q \<in> set request_terminal"
  shows "\<exists>q' \<in> set (bs_requests st'). br_id q' = br_id q \<and> br_status q' = br_status q
    \<and> map bd_state (rows_of (br_id q) st') = map bd_state (rows_of (br_id q) st)"
proof -
  obtain g rows reqs where tt: "bs_rows st' = map g (bs_rows st) @ rows"
    "map only_status (bs_requests st') = map only_status (bs_requests st) @ reqs"
    "\<forall>r \<in> set (bs_rows st). delivery_change now e st r (g r)" "\<forall>q \<in> set reqs. br_id q \<notin> br_id ` set (bs_requests st)"
    "distinct (map br_id reqs)" "distinct (map bd_command (bs_rows st) @ map bd_command rows)"
    "bd_request ` set rows = br_id ` set reqs" "list_all row_ok rows" "reflected_but {} st'"
    by (rule tables_stepE [OF assms(2)])
  note t = tt(1,2) bspec [OF tt(3)] tt(4,7,9)
  have q: "br_status q = aggregate_status (map bd_state (rows_of (br_id q) st))" "rows_of (br_id q) st \<noteq> []"
    using assms(1,3) by (auto simp: sound_deliveries_def reflected_but_def reflects_def)
  have closed: "\<not> open_row r" if "r \<in> set (bs_rows st)" "bd_request r = br_id q" for r
    using assms(4) aggregate_terminal [of "map bd_state (rows_of (br_id q) st)"] q that by (auto simp: list_all_iff rows_of_def open_row_def)
  have none: "filter (\<lambda>r. bd_request r = br_id q) rows = []"
  proof -
    have "bd_request r \<noteq> br_id q" if "r \<in> set rows" for r
    proof -
      have "bd_request r \<in> br_id ` set reqs" using that t(5) by blast
      then obtain p where "p \<in> set reqs" "bd_request r = br_id p" by auto
      with t(4) assms(3) show ?thesis by auto
    qed
    then show ?thesis by (simp add: filter_empty_conv)
  qed
  have "map bd_state (filter (\<lambda>r. bd_request r = br_id q) (map g rs)) = map bd_state (filter (\<lambda>r. bd_request r = br_id q) rs)"
    if "set rs \<subseteq> set (bs_rows st)" for rs
    using that
  proof (induction rs)
    case (Cons r rs)
    then have c: "delivery_change now e st r (g r)" "r \<in> set (bs_rows st)" using t(3) by auto
    with Cons closed [OF c(2)] delivery_change_ids [OF c(1)] delivery_change_settled [OF c(1)] show ?case by auto
  qed simp
  from this [of "bs_rows st"] have states: "map bd_state (rows_of (br_id q) st') = map bd_state (rows_of (br_id q) st)"
    by (simp add: rows_of_def t(1) none)
  have "only_status q \<in> set (map only_status (bs_requests st'))" using assms(3) by (simp add: t(2))
  then obtain q' where q': "q' \<in> set (bs_requests st')" "br_id q' = br_id q" by (auto dest: only_status_id)
  then have "br_status q' = aggregate_status (map bd_state (rows_of (br_id q) st'))" using t(6) by (auto simp: reflected_but_def reflects_def)
  with q' q(1) states show ?thesis by (intro bexI [of _ q']) simp_all
qed

text \<open>A settled broadcast never reopens: once a request is confirmed, partial, failed or timed out, no dispatch, report, sweep or
  further request changes its status or the outcome at any of its targets.\<close>

theorem settled_requests_final:
  assumes "st = delivery_run timeout name_of es no_deliveries" "q \<in> set (bs_requests st)" "br_status q \<in> set request_terminal"
  shows "\<exists>q' \<in> set (bs_requests (delivery_run timeout name_of fs st)). br_id q' = br_id q \<and> br_status q' = br_status q
    \<and> map bd_state (rows_of (br_id q) (delivery_run timeout name_of fs st)) = map bd_state (rows_of (br_id q) st)"
proof -
  let ?P = "\<lambda>s. \<exists>q' \<in> set (bs_requests s). br_id q' = br_id q \<and> br_status q' = br_status q
    \<and> map bd_state (rows_of (br_id q) s) = map bd_state (rows_of (br_id q) st)"
  have "?P (run_events (delivery_step timeout name_of) fs st)"
  proof (rule deliveries.run_keeps [where P = ?P])
    fix e s assume s: "sound_deliveries s" "?P s"
    then obtain q' where q': "q' \<in> set (bs_requests s)" "br_id q' = br_id q" "br_status q' = br_status q"
      "map bd_state (rows_of (br_id q) s) = map bd_state (rows_of (br_id q) st)" by blast
    have "tables_step (fst e) (snd e) s (delivery_step timeout name_of e s)" using delivery_step_tables [OF s(1), of "fst e" "snd e"] by simp
    from settled_step [OF s(1) this q'(1)] q' assms(3) show "?P (delivery_step timeout name_of e s)" by simp
  qed (use assms reachable_deliveries in auto)
  then show ?thesis by (simp add: delivery_run_def)
qed



subsection \<open>Deadlines\<close>

lemma fold_recompute_reflects:
  "reflected_but R st \<Longrightarrow> R \<subseteq> set ids \<Longrightarrow> reflected_but {} (fold (recompute_request now) ids st)"
  using fold_recompute_reflected [of R st ids now] by (simp add: Diff_eq_empty_iff [THEN iffD2])

text \<open>No broadcast outlives its deadline: after a sweep every request whose deadline has passed is settled.\<close>

theorem sweep_settles_overdue:
  assumes "st = delivery_run timeout name_of es no_deliveries" "q \<in> set (bs_requests (sweep_expired now st))" "br_expires q \<le> now"
  shows "br_status q \<in> set request_terminal"
proof -
  let ?ids = "expired_requests now st" and ?st = "sweep_expired now st"
  let ?g = "\<lambda>r. if bd_request r \<in> set ?ids \<and> open_row r then time_out now r else r"
  have sound: "sound_deliveries st" using reachable_deliveries assms(1) by simp
  have sound': "sound_deliveries ?st" by (rule tables_step_sound [OF sweep_tables [OF sound, of now Sweeps] sound])
  have rows: "bs_rows ?st = map ?g (bs_rows st)" by (simp add: sweep_expired_def Let_def)
  have frame: "map only_status (bs_requests ?st) = map only_status (bs_requests st)" by (simp add: sweep_expired_def Let_def fold_recompute_frame)
  have "only_status q \<in> set (map only_status (bs_requests st))" using assms(2) unfolding frame [symmetric] by simp
  then obtain p where p: "p \<in> set (bs_requests st)" "only_status q = only_status p" by auto
  note pq = only_status_id [OF p(2)]
  have closed: "\<not> open_row t" if t: "t \<in> set (rows_of (br_id q) ?st)" for t
  proof -
    from t obtain r where r: "r \<in> set (bs_rows st)" "t = ?g r" "bd_request t = br_id q" by (auto simp: rows_of_def rows)
    have rq: "bd_request r = br_id p" using r pq by (auto split: if_splits)
    show ?thesis
    proof (cases "open_row r")
      case True
      then have "bd_state r \<notin> set device_terminal" "r \<in> set (rows_of (br_id p) st)" using r(1) rq by (auto simp: open_row_def rows_of_def)
      then have "\<not> list_all (\<lambda>s. s \<in> set device_terminal) (map bd_state (rows_of (br_id p) st))" by (auto simp: list_all_iff simp del: status_lists)
      moreover have "br_status p = aggregate_status (map bd_state (rows_of (br_id p) st))" "rows_of (br_id p) st \<noteq> []"
        using sound p(1) by (auto simp: sound_deliveries_def reflected_but_def reflects_def)
      ultimately have "br_status p \<notin> set request_terminal" using aggregate_terminal [of "map bd_state (rows_of (br_id p) st)"] by simp
      then have "list_ex (\<lambda>q. br_id q = bd_request r \<and> br_expires q \<le> now \<and> br_status q \<notin> set request_terminal) (bs_requests st)"
        using p(1) pq rq assms(3) by (auto simp: list_ex_iff)
      then have "bd_request r \<in> set ?ids" using r(1) True by (auto simp: expired_requests_def)
      then show ?thesis using True r(2) by (simp add: open_row_def time_out_def)
    next
      case False
      then show ?thesis using r(2) by simp
    qed
  qed
  have "br_status q = aggregate_status (map bd_state (rows_of (br_id q) ?st))" "rows_of (br_id q) ?st \<noteq> []"
    using sound' assms(2) by (auto simp: sound_deliveries_def reflected_but_def reflects_def)
  moreover have "list_all (\<lambda>s. s \<in> set device_terminal) (map bd_state (rows_of (br_id q) ?st))"
    using closed by (auto simp: list_all_iff open_row_def)
  ultimately show ?thesis using aggregate_terminal [of "map bd_state (rows_of (br_id q) ?st)"] by (simp del: status_lists)
qed

text \<open>A dispatch that is recorded after the player has answered takes the acknowledgement back: the state of an acknowledged row is
  not terminal, and the update does not look at it.\<close>

lemma late_dispatch_forgets:
  assumes "row_for_command rid dev cmd st = Some (r, q)" "bd_state r = Acknowledged" "now < br_expires q" "da_delivered a"
    and "t \<in> set (bs_rows (fst (mark_dispatched now rid dev cmd a st)))" "names_row rid dev cmd t"
  shows "bd_state t = Delivered \<and> bd_ack t = Pending"
proof -
  have rows: "bs_rows (fst (mark_dispatched now rid dev cmd a st)) = map (\<lambda>r. if names_row rid dev cmd r then dispatched now a r else r) (bs_rows st)"
    using assms(1-3) by (simp add: mark_dispatched_def open_row_def on_delivery_def)
  have "names_row rid dev cmd (dispatched now a p) = names_row rid dev cmd p" for p by (simp add: names_row_def dispatched_def Let_def)
  then show ?thesis using assms(4-6) unfolding rows by (auto simp: dispatched_def Let_def split: if_splits)
qed

subsection \<open>Retries\<close>

lemma find_only_status:
  assumes "\<And>u v. only_status u = only_status v \<Longrightarrow> P u = P v" "map only_status xs' = map only_status xs @ ys" "find P xs = Some r"
  shows "\<exists>r'. find P xs' = Some r' \<and> only_status r' = only_status r"
  using assms(2,3)
proof (induction xs arbitrary: xs')
  case (Cons x xs)
  then obtain x' xs'' where x: "xs' = x' # xs''" "only_status x' = only_status x" "map only_status xs'' = map only_status xs @ ys"
    by (auto simp: map_eq_Cons_conv)
  with Cons assms(1) [OF x(2)] show ?case by (cases "P x") auto
qed simp

definition known_request :: "broadcast_args \<Rightarrow> string \<Rightarrow> delivery_store \<Rightarrow> bool" where
  "known_request a rid st \<longleftrightarrow> (\<exists>r. prior_request a st = Some r \<and> br_id r = rid \<and> br_fingerprint r = Some (text_limit 500 (ba_fingerprint a)))"

lemma known_step:
  assumes "tables_step now e st st'" "known_request a rid st"
  shows "known_request a rid st'"
proof -
  let ?P = "\<lambda>r. br_workspace r = ba_workspace a \<and> br_user r = ba_user a \<and> br_key r = Some (text_limit 200 (ba_key a))"
  from assms(2) obtain r where r: "text_limit 200 (ba_key a) \<noteq> []" "find ?P (bs_requests st) = Some r" "br_id r = rid"
    "br_fingerprint r = Some (text_limit 500 (ba_fingerprint a))"
    by (auto simp: known_request_def prior_request_def Let_def split: if_splits)
  obtain reqs where "map only_status (bs_requests st') = map only_status (bs_requests st) @ reqs" by (rule tables_stepE [OF assms(1)]) blast
  from find_only_status [OF _ this r(2)] obtain r' where "find ?P (bs_requests st') = Some r'" "only_status r' = only_status r"
    by (metis (no_types, lifting) only_status_id)
  moreover from this(2) have "br_id r' = rid \<and> br_fingerprint r' = Some (text_limit 500 (ba_fingerprint a))"
    using only_status_id [of r' r] r(3,4) by simp
  ultimately show ?thesis unfolding known_request_def prior_request_def Let_def using r(1) by (intro exI [of _ r']) simp
qed

lemma create_known:
  assumes "create_request timeout name_of uid now a st = (st1, Inr (rid, b))" "text_limit 200 (ba_key a) \<noteq> []" "text_limit 500 (ba_fingerprint a) \<noteq> []"
  shows "known_request a rid st1"
proof (cases "prior_request a st")
  case (Some r)
  then show ?thesis using assms by (auto simp: create_request_def Let_def known_request_def split: if_splits)
next
  case None
  let ?req = "new_request timeout uid now a (unique_targets [] (ba_targets a))"
  let ?P = "\<lambda>r. br_workspace r = ba_workspace a \<and> br_user r = ba_user a \<and> br_key r = Some (text_limit 200 (ba_key a))"
  let ?rows = "map (new_delivery (\<lambda>d. name_of d (ba_workspace a)) uid now) (enumerate 0 (unique_targets [] (ba_targets a)))"
  let ?new = "recompute_request now (uid 0) (st\<lparr>bs_requests := bs_requests st @ [?req], bs_rows := bs_rows st @ ?rows\<rparr>)"
  have eq: "create_request timeout name_of uid now a st =
      (if ba_workspace a = [] \<or> ba_source_type a = [] \<or> ba_source a = [] then (st, Inl ArgumentsRequired)
       else if unique_targets [] (ba_targets a) = [] then (st, Inl NoTargets)
       else if uid 0 \<in> br_id ` set (bs_requests st) \<or> \<not> distinct (map bd_command (bs_rows st) @ map bd_command ?rows)
         then (st, Inl ConstraintViolated)
       else (?new, Inr (uid 0, False)))"
    by (simp only: create_request_def Let_def None option.case)
  have new: "p = (st1, Inr (rid, b)) \<Longrightarrow> p = (if c1 then (st, Inl e1) else if c2 then (st, Inl e2) else if c3 then (st, Inl e3) else (x, Inr (y, False)))
      \<Longrightarrow> st1 = x \<and> rid = y" for p c1 c2 c3 x y and e1 e2 e3 :: create_error
    by (simp split: if_splits)
  obtain rows where st1: "st1 = recompute_request now (uid 0) (st\<lparr>bs_requests := bs_requests st @ [?req], bs_rows := rows\<rparr>)" "rid = uid 0"
    using new [OF assms(1) eq] by blast
  have "map only_status (bs_requests st1) = map only_status (bs_requests st @ [?req]) @ []"
    unfolding st1 recompute_frame by simp
  moreover have "find ?P (bs_requests st @ [?req]) = Some ?req"
  proof -
    have "find ?P (bs_requests st) = None" using None assms(2) by (simp add: prior_request_def Let_def)
    then show ?thesis using assms(2) by (simp add: find_append new_request_def Let_def nonempty_def)
  qed
  ultimately obtain r where r: "find ?P (bs_requests st1) = Some r" "only_status r = only_status ?req"
    using find_only_status [of ?P "bs_requests st1" "bs_requests st @ [?req]" "[]" ?req] only_status_id by (metis (no_types, lifting))
  have "br_fingerprint ?req = Some (text_limit 500 (ba_fingerprint a))" using assms(3) by (simp add: new_request_def Let_def nonempty_def)
  with r only_status_id [OF r(2)] assms(2) st1(2) show ?thesis by (auto simp: known_request_def prior_request_def Let_def)
qed

text \<open>A repeated request is answered with the first: as long as it carries the same key and fingerprint, whatever happened in
  between, it changes nothing and names the request that was made.\<close>

theorem retry_returns_first_request:
  assumes "st = delivery_run timeout name_of es no_deliveries" "create_request timeout name_of uid now a st = (st1, Inr (rid, b))"
    and "text_limit 200 (ba_key a) \<noteq> []" "text_limit 500 (ba_fingerprint a) \<noteq> []"
  shows "create_request timeout name_of uid' now' a (delivery_run timeout name_of fs st1) = (delivery_run timeout name_of fs st1, Inr (rid, True))"
proof -
  have sound: "sound_deliveries st" using reachable_deliveries assms(1) by simp
  have "tables_step now (Creates uid a) st (fst (create_request timeout name_of uid now a st))" by (rule create_tables [OF sound])
  then have sound1: "sound_deliveries st1" using tables_step_sound [OF _ sound] assms(2) by simp
  have "known_request a rid (run_events (delivery_step timeout name_of) fs st1)"
  proof (rule deliveries.run_keeps [where P = "known_request a rid"])
    show "known_request a rid (delivery_step timeout name_of e s)" if "sound_deliveries s" "known_request a rid s" for e s
      using known_step [OF delivery_step_tables [OF that(1), of "fst e" "snd e"] that(2)] by simp
  qed (use sound1 create_known [OF assms(2-4)] in auto)
  then obtain r where r: "prior_request a (delivery_run timeout name_of fs st1) = Some r" "br_id r = rid"
    "br_fingerprint r = Some (text_limit 500 (ba_fingerprint a))" by (auto simp: known_request_def delivery_run_def)
  have "\<not> (ba_workspace a = [] \<or> ba_source_type a = [] \<or> ba_source a = [])"
    using assms(2) by (auto simp: create_request_def Let_def split: if_splits)
  with r assms(4) show ?thesis by (simp add: create_request_def Let_def)
qed


subsection \<open>A sample broadcast\<close>

definition sample_uid :: "string \<Rightarrow> nat \<Rightarrow> string" where
  "sample_uid p n = p @ nat_str n"

definition sample_broadcast :: broadcast_args where
  "sample_broadcast = \<lparr>ba_workspace = ''w'', ba_user = Some ''ann'', ba_source_type = ''content'', ba_source = ''c'', ba_typed = JArr [],
     ba_targets = [JObj [(''deviceId'', JStr ''tv''), (''expectedSourceId'', JStr ''c'')], JObj [(''deviceId'', JStr ''hall'')]],
     ba_count = jint 2, ba_key = JStr ''k'', ba_fingerprint = JStr ''f''\<rparr>"

definition sample_evidence :: status_report where
  "sample_evidence = \<lparr>sr_phase = ''confirmed'', sr_revision = Some ''r1'', sr_generation = jint 1, sr_session = JStr ''s'',
     sr_player = JObj [(''current_content_id'', JStr ''c'')], sr_failure = None\<rparr>"

definition no_names :: "string \<Rightarrow> string \<Rightarrow> string option" where
  "no_names d w = None"

definition sample_delivery :: delivery_store where
  "sample_delivery = delivery_run 45000 no_names [(1000, Creates (sample_uid ''a'') sample_broadcast)] no_deliveries"

definition sample_over :: delivery_store where
  "sample_over = delivery_run 45000 no_names
     [(1000, Creates (sample_uid ''a'') sample_broadcast), (2000, Reports ''a0'' ''tv'' ''a1'' sample_evidence), (50000, Sweeps)] no_deliveries"

lemma sample_delivery_states:
  "map (\<lambda>r. (bd_command r, bd_state r)) (bs_rows sample_delivery) = [(''a1'', Requested), (''a2'', Requested)]"
  "map (\<lambda>q. (br_id q, br_expires q)) (bs_requests sample_delivery) = [(''a0'', 46000)]"
  by code_simp+

lemma sample_over_states:
  "map (\<lambda>r. (bd_command r, bd_state r)) (bs_rows sample_over) = [(''a1'', Confirmed), (''a2'', TimedOut)]"
  "map (\<lambda>q. (br_id q, br_status q)) (bs_requests sample_over) = [(''a0'', Partial)]"
  by code_simp+

theorem request_reflects_targets_witness:
  "list_all (\<lambda>q. list_all row_ok (rows_of (br_id q) sample_over)) (bs_requests sample_over)"
  using request_reflects_targets [OF sample_over_def] by (auto simp: list_all_iff)

theorem settled_requests_final_witness:
  "\<exists>q' \<in> set (bs_requests (delivery_run 45000 no_names [(60000, Reports ''a0'' ''hall'' ''a2'' sample_evidence)] sample_over)). br_status q' = Partial"
proof -
  from sample_over_states(2) obtain q where "q \<in> set (bs_requests sample_over)" "br_status q = Partial"
    by (cases "bs_requests sample_over") auto
  with settled_requests_final [OF sample_over_def, of q "[(60000, Reports ''a0'' ''hall'' ''a2'' sample_evidence)]"] show ?thesis by auto
qed


theorem sweep_settles_overdue_witness:
  "list_all (\<lambda>q. br_status q \<in> set request_terminal) (bs_requests (sweep_expired 46000 sample_delivery))"
proof -
  have "list_all (\<lambda>q. br_expires q \<le> 46000) (bs_requests (sweep_expired 46000 sample_delivery))" by code_simp
  then show ?thesis using sweep_settles_overdue [OF sample_delivery_def, of _ 46000] unfolding list_all_iff by blast
qed

theorem retry_returns_first_request_witness:
  "snd (create_request 45000 no_names (sample_uid ''b'') 3000 sample_broadcast (delivery_run 45000 no_names [(2500, Sweeps)] sample_delivery)) = Inr (''a0'', True)"
proof -
  have "create_request 45000 no_names (sample_uid ''a'') 1000 sample_broadcast no_deliveries = (sample_delivery, Inr (''a0'', False))"
  proof (rule prod_eqI)
    show "fst (create_request 45000 no_names (sample_uid ''a'') 1000 sample_broadcast no_deliveries) = fst (sample_delivery, Inr (''a0'', False) :: create_error + string \<times> bool)"
      by (simp add: sample_delivery_def delivery_run_def)
    show "snd (create_request 45000 no_names (sample_uid ''a'') 1000 sample_broadcast no_deliveries) = snd (sample_delivery, Inr (''a0'', False) :: create_error + string \<times> bool)"
      unfolding snd_conv by code_simp
  qed
  moreover have "no_deliveries = delivery_run 45000 no_names [] no_deliveries" by (simp add: delivery_run_def)
  moreover have "text_limit 200 (ba_key sample_broadcast) \<noteq> []" "text_limit 500 (ba_fingerprint sample_broadcast) \<noteq> []" by code_simp+
  ultimately show ?thesis by (simp add: retry_returns_first_request)
qed

end
