(* ===== verification/Topology.thy ===== *)
theory Topology
  imports Prelude Machines WallLayout
begin

text \<open>
  The display topology: which displays form which wall or group, the guards the server installs over its tables and the
  analysis that decides whether it may (\<open>server/lib/topology-repair.js\<close>).

  The state holds the five tables and whether the guards are installed. A statement on a table runs the triggers of the guards
  around it and is aborted by the first that objects; a statement on several rows handles them one after the other. Text
  columns are compared with SQL's \<open>lower\<close> and \<open>trim\<close>, which know ASCII and the space. A column that may be \<open>NULL\<close> is an
  option; the numbers of a wall are integers, as their columns are declared. The foreign keys of the tables are enforced with
  their actions; SQLite fixes no order between two of them, and the order is a parameter.
\<close>

subsection \<open>Tables\<close>

record topo_display =
  td_id :: string
  td_name :: string
  td_user :: "string option"
  td_workspace :: "string option"
  td_wall :: "string option"
  td_screen_on :: bool
  td_layout :: "string option"
  td_playlist :: "string option"
  td_status :: string

record topo_group =
  tg_id :: string
  tg_user :: string
  tg_workspace :: "string option"
  tg_name :: string
  tg_color :: string
  tg_playlist :: "string option"

record topo_wall = wall_row +
  tw_name :: string
  tw_cols :: int
  tw_rows :: int
  tw_locked :: bool

record topo_cell =
  tc_wall :: string
  tc_device :: string
  tc_col :: int
  tc_row :: int
  tc_rotation :: int
  tc_canvas :: "rat option \<times> rat option \<times> rat option \<times> rat option"

text \<open>By its \<open>CHECK\<close> constraint a schedule has a display or a group, and not both. A membership is a display and its group.\<close>

datatype schedule_owner = OfDisplay string | OfGroup string

record topo_schedule =
  ts_id :: string
  ts_owner :: schedule_owner
  ts_plan :: jsval

text \<open>The playlists of the displays, with the items they hold.\<close>

record topo_playlist =
  py_id :: string
  py_auto :: bool
  py_workspace :: "string option"
  py_items :: "jsval list"

record topology_db =
  tb_displays :: "topo_display list"
  tb_groups :: "topo_group list"
  tb_members :: "(string \<times> string) list"
  tb_walls :: "topo_wall list"
  tb_cells :: "topo_cell list"
  tb_schedules :: "topo_schedule list"
  tb_playlists :: "topo_playlist list"
  tb_guarded :: bool

definition display_at :: "string \<Rightarrow> topology_db \<Rightarrow> topo_display option" where
  "display_at d st = find (\<lambda>x. td_id x = d) (tb_displays st)"

definition group_at :: "string \<Rightarrow> topology_db \<Rightarrow> topo_group option" where
  "group_at g st = find (\<lambda>x. tg_id x = g) (tb_groups st)"

definition wall_at :: "string \<Rightarrow> topology_db \<Rightarrow> topo_wall option" where
  "wall_at w st = find (\<lambda>x. wr_id x = w) (tb_walls st)"

definition cells_of :: "string \<Rightarrow> topology_db \<Rightarrow> topo_cell list" where
  "cells_of w st = filter (\<lambda>c. tc_wall c = w) (tb_cells st)"

definition on_wall :: "string \<Rightarrow> topology_db \<Rightarrow> bool" where
  "on_wall d st \<longleftrightarrow> list_ex (\<lambda>c. tc_device c = d) (tb_cells st)"

definition in_group :: "string \<Rightarrow> topology_db \<Rightarrow> bool" where
  "in_group d st \<longleftrightarrow> list_ex (\<lambda>m. fst m = d) (tb_members st)"

definition has_cell :: "string \<Rightarrow> string \<Rightarrow> topology_db \<Rightarrow> bool" where
  "has_cell w d st \<longleftrightarrow> list_ex (\<lambda>c. tc_wall c = w \<and> tc_device c = d) (tb_cells st)"

text \<open>\<open>trim\<close> and \<open>lower\<close> of SQL.\<close>

definition sql_trim :: "string \<Rightarrow> string" where
  "sql_trim s = (let blank = (\<lambda>c. c = CHR '' '') in rev (dropWhile blank (rev (dropWhile blank s))))"

definition sql_lower :: "string \<Rightarrow> string" where
  "sql_lower s = map (\<lambda>c. if 65 \<le> code c \<and> code c \<le> 90 then char_of (code c + 32) else c) s"

definition name_key :: "string \<Rightarrow> string" where
  "name_key s = sql_lower (sql_trim s)"

definition blank_workspace :: "string option \<Rightarrow> bool" where
  "blank_workspace ws \<longleftrightarrow> (case ws of None \<Rightarrow> True | Some s \<Rightarrow> sql_trim s = [])"

subsection \<open>Guards and statements\<close>

datatype topo_abort =
    GroupWithoutWorkspace | GroupNameTaken | SecondGroup | WallAndGroup | ForeignGroup | BadDimensions | LeaderTooEarly
  | LeaderNoMember | SecondWall | ForeignWall | OutsideWall | WallNotJoined | NotUnique | NoSuchRow | CheckFailed

type_synonym 'a outcome = "topo_abort + 'a"

definition when_ok :: "'a outcome \<Rightarrow> ('a \<Rightarrow> 'b outcome) \<Rightarrow> 'b outcome" where
  "when_ok m f = (case m of Inl e \<Rightarrow> Inl e | Inr x \<Rightarrow> f x)"

fun for_each :: "('a \<Rightarrow> 's \<Rightarrow> 's outcome) \<Rightarrow> 'a list \<Rightarrow> 's \<Rightarrow> 's outcome" where
  "for_each f [] st = Inr st"
| "for_each f (x # xs) st = when_ok (f x st) (for_each f xs)"

definition same_name :: "string option \<Rightarrow> string \<Rightarrow> topo_group \<Rightarrow> bool" where
  "same_name ws name g \<longleftrightarrow> ws \<noteq> None \<and> tg_workspace g = ws \<and> name_key (tg_name g) = name_key name"

definition insert_group :: "topo_group \<Rightarrow> topology_db \<Rightarrow> topology_db outcome" where
  "insert_group g st =
     (if tb_guarded st \<and> blank_workspace (tg_workspace g) then Inl GroupWithoutWorkspace
      else if tb_guarded st \<and> list_ex (same_name (tg_workspace g) (tg_name g)) (tb_groups st) then Inl GroupNameTaken
      else if group_at (tg_id g) st \<noteq> None then Inl NotUnique
      else Inr (st\<lparr>tb_groups := tb_groups st @ [g]\<rparr>))"

definition update_group :: "string \<Rightarrow> (topo_group \<Rightarrow> topo_group) \<Rightarrow> topology_db \<Rightarrow> topology_db outcome" where
  \<comment> \<open>an update of the name or the workspace\<close>
  "update_group i f st =
     (case group_at i st of None \<Rightarrow> Inr st
      | Some g \<Rightarrow>
          if tb_guarded st \<and> blank_workspace (tg_workspace (f g)) then Inl GroupWithoutWorkspace
          else if tb_guarded st \<and> list_ex (\<lambda>x. tg_id x \<noteq> i \<and> same_name (tg_workspace (f g)) (tg_name (f g)) x) (tb_groups st)
            then Inl GroupNameTaken
          else Inr (st\<lparr>tb_groups := map (\<lambda>x. if tg_id x = i then f x else x) (tb_groups st)\<rparr>))"

text \<open>The memberships of a group go with it. A schedule of the group would lose its only owner: its \<open>CHECK\<close> objects.\<close>

definition delete_group :: "string \<Rightarrow> topology_db \<Rightarrow> topology_db outcome" where
  "delete_group i st =
     (if group_at i st = None then Inr st
      else if list_ex (\<lambda>s. ts_owner s = OfGroup i) (tb_schedules st) then Inl CheckFailed
      else Inr (st\<lparr>tb_groups := filter (\<lambda>g. tg_id g \<noteq> i) (tb_groups st), tb_members := filter (\<lambda>m. snd m \<noteq> i) (tb_members st)\<rparr>))"

text \<open>The workspace of a display is one of those that a group or a wall may draw on.\<close>

definition belongs :: "string \<Rightarrow> string option \<Rightarrow> topology_db \<Rightarrow> bool" where
  "belongs d ws st \<longleftrightarrow> ws \<noteq> None \<and> (case display_at d st of None \<Rightarrow> False | Some x \<Rightarrow> td_workspace x = ws)"

definition insert_membership :: "string \<Rightarrow> string \<Rightarrow> topology_db \<Rightarrow> topology_db outcome" where
  \<comment> \<open>\<open>INSERT OR IGNORE\<close>\<close>
  "insert_membership d g st =
     (if tb_guarded st \<and> in_group d st then Inl SecondGroup
      else if tb_guarded st \<and> (on_wall d st \<or> (case display_at d st of None \<Rightarrow> False | Some x \<Rightarrow> td_wall x \<noteq> None)) then Inl WallAndGroup
      else if tb_guarded st \<and> \<not> belongs d (case group_at g st of None \<Rightarrow> None | Some x \<Rightarrow> tg_workspace x) st then Inl ForeignGroup
      else if (d, g) \<in> set (tb_members st) then Inr st
      else if display_at d st = None \<or> group_at g st = None then Inl NoSuchRow
      else Inr (st\<lparr>tb_members := tb_members st @ [(d, g)]\<rparr>))"

definition delete_members :: "(string \<times> string \<Rightarrow> bool) \<Rightarrow> topology_db \<Rightarrow> topology_db" where
  "delete_members P st = st\<lparr>tb_members := filter (\<lambda>m. \<not> P m) (tb_members st)\<rparr>"

definition insert_wall :: "topo_wall \<Rightarrow> topology_db \<Rightarrow> topology_db outcome" where
  "insert_wall w st =
     (if tb_guarded st \<and> (tw_cols w \<le> 0 \<or> tw_rows w \<le> 0) then Inl BadDimensions
      else if tb_guarded st \<and> wr_leader w \<noteq> None then Inl LeaderTooEarly
      else if wall_at (wr_id w) st \<noteq> None then Inl NotUnique
      else Inr (st\<lparr>tb_walls := tb_walls st @ [w]\<rparr>))"

definition on_wall_row :: "string \<Rightarrow> (topo_wall \<Rightarrow> topo_wall) \<Rightarrow> topology_db \<Rightarrow> topology_db" where
  "on_wall_row i f st = st\<lparr>tb_walls := map (\<lambda>w. if wr_id w = i then f w else w) (tb_walls st)\<rparr>"

definition on_display :: "string \<Rightarrow> (topo_display \<Rightarrow> topo_display) \<Rightarrow> topology_db \<Rightarrow> topology_db" where
  "on_display d f st = st\<lparr>tb_displays := map (\<lambda>x. if td_id x = d then f x else x) (tb_displays st)\<rparr>"

text \<open>An update of the size of a wall, and one of its leader.\<close>

definition update_dimensions :: "string \<Rightarrow> int \<Rightarrow> int \<Rightarrow> topology_db \<Rightarrow> topology_db outcome" where
  "update_dimensions i cols rows st =
     (if wall_at i st = None then Inr st
      else if tb_guarded st \<and> (cols \<le> 0 \<or> rows \<le> 0) then Inl BadDimensions
      else Inr (on_wall_row i (\<lambda>w. w\<lparr>tw_cols := cols, tw_rows := rows\<rparr>) st))"

definition leader_refused :: "string \<Rightarrow> string option \<Rightarrow> topology_db \<Rightarrow> bool" where
  "leader_refused i l st \<longleftrightarrow> (case l of None \<Rightarrow> cells_of i st \<noteq> [] | Some d \<Rightarrow> \<not> has_cell i d st)"

definition update_leader :: "string \<Rightarrow> string option \<Rightarrow> topology_db \<Rightarrow> topology_db outcome" where
  "update_leader i l st =
     (if wall_at i st = None then Inr st
      else if tb_guarded st \<and> leader_refused i l st then Inl LeaderNoMember
      else if (case l of None \<Rightarrow> False | Some d \<Rightarrow> display_at d st = None) then Inl NoSuchRow
      else Inr (on_wall_row i (\<lambda>w. w\<lparr>wr_leader := l\<rparr>) st))"

definition update_display_wall :: "string \<Rightarrow> string option \<Rightarrow> topology_db \<Rightarrow> topology_db outcome" where
  "update_display_wall d w st =
     (if display_at d st \<noteq> None \<and> tb_guarded st \<and> (case w of None \<Rightarrow> False | Some i \<Rightarrow> \<not> has_cell i d st) then Inl WallNotJoined
      else Inr (on_display d (\<lambda>x. x\<lparr>td_wall := w\<rparr>) st))"

text \<open>The member a guard makes the leader: the first by row, column and id.\<close>

fun text_before :: "string \<Rightarrow> string \<Rightarrow> bool" where
  "text_before [] t = (t \<noteq> [])"
| "text_before (c # s) [] = False"
| "text_before (c # s) (d # t) = (code c < code d \<or> code c = code d \<and> text_before s t)"

definition cell_before :: "topo_cell \<Rightarrow> topo_cell \<Rightarrow> bool" where
  "cell_before a b \<longleftrightarrow> tc_row a < tc_row b \<or> tc_row a = tc_row b \<and> (tc_col a < tc_col b \<or>
     tc_col a = tc_col b \<and> text_before (tc_device a) (tc_device b))"

fun first_cell :: "topo_cell list \<Rightarrow> topo_cell option" where
  "first_cell [] = None"
| "first_cell (c # cs) = (case first_cell cs of None \<Rightarrow> Some c | Some b \<Rightarrow> if cell_before b c then Some b else Some c)"

definition first_member :: "string \<Rightarrow> topology_db \<Rightarrow> string option" where
  "first_member w st = map_option tc_device (first_cell (cells_of w st))"

definition leader_of :: "string \<Rightarrow> topology_db \<Rightarrow> string option" where
  "leader_of w st = (case wall_at w st of None \<Rightarrow> None | Some x \<Rightarrow> wr_leader x)"

definition cell_refused :: "topo_cell \<Rightarrow> topology_db \<Rightarrow> topo_abort option" where
  "cell_refused c st =
     (if on_wall (tc_device c) st then Some SecondWall
      else if in_group (tc_device c) st then Some WallAndGroup
      else (case wall_at (tc_wall c) st of None \<Rightarrow> Some ForeignWall
        | Some w \<Rightarrow>
            if \<not> belongs (tc_device c) (wr_workspace w) st then Some ForeignWall
            else if \<not> (0 \<le> tc_col c \<and> 0 \<le> tc_row c \<and> tc_col c < tw_cols w \<and> tc_row c < tw_rows w) then Some OutsideWall
            else None))"

definition insert_cell :: "topo_cell \<Rightarrow> topology_db \<Rightarrow> topology_db outcome" where
  "insert_cell c st =
     (case (if tb_guarded st then cell_refused c st else None) of Some e \<Rightarrow> Inl e
      | None \<Rightarrow>
          if list_ex (\<lambda>x. tc_wall x = tc_wall c \<and> (tc_device x = tc_device c \<or> (tc_col x = tc_col c \<and> tc_row x = tc_row c))) (tb_cells st)
            then Inl NotUnique
          else if display_at (tc_device c) st = None \<or> wall_at (tc_wall c) st = None then Inl NoSuchRow
          else (let st1 = st\<lparr>tb_cells := tb_cells st @ [c]\<rparr> in
            if \<not> tb_guarded st then Inr st1
            else when_ok (update_display_wall (tc_device c) (Some (tc_wall c)) st1) (\<lambda>st2.
              if leader_of (tc_wall c) st2 = None then update_leader (tc_wall c) (first_member (tc_wall c) st2) st2 else Inr st2)))"

definition same_cell :: "topo_cell \<Rightarrow> topo_cell \<Rightarrow> bool" where
  "same_cell c x \<longleftrightarrow> tc_wall x = tc_wall c \<and> tc_device x = tc_device c"

text \<open>The deletion of one cell, and of all the cells that a condition selects.\<close>

definition delete_cell :: "topo_cell \<Rightarrow> topology_db \<Rightarrow> topology_db outcome" where
  "delete_cell c st =
     (let st1 = st\<lparr>tb_cells := filter (\<lambda>x. \<not> same_cell c x) (tb_cells st)\<rparr>; d = tc_device c; w = tc_wall c in
      if \<not> tb_guarded st then Inr st1
      else when_ok (if (case display_at d st1 of None \<Rightarrow> False | Some x \<Rightarrow> td_wall x = Some w) then update_display_wall d None st1 else Inr st1)
        (\<lambda>st2. if leader_of w st2 = Some d then update_leader w (first_member w st2) st2 else Inr st2))"

definition delete_cells :: "(topo_cell \<Rightarrow> bool) \<Rightarrow> topology_db \<Rightarrow> topology_db outcome" where
  "delete_cells P st = for_each delete_cell (filter P (tb_cells st)) st"

definition delete_wall :: "string \<Rightarrow> topology_db \<Rightarrow> topology_db outcome" where
  "delete_wall i st =
     (if wall_at i st = None then Inr st
      else delete_cells (\<lambda>c. tc_wall c = i) (st\<lparr>tb_walls := filter (\<lambda>w. wr_id w \<noteq> i) (tb_walls st)\<rparr>))"

text \<open>With \<open>leader_first\<close> the references to the display as a leader are cleared before its cells go.\<close>

definition delete_display_row :: "bool \<Rightarrow> string \<Rightarrow> topology_db \<Rightarrow> topology_db outcome" where
  "delete_display_row leader_first d st =
     (let clear = (\<lambda>s. for_each (\<lambda>w. update_leader (wr_id w) None) (filter (\<lambda>w. wr_leader w = Some d) (tb_walls s)) s);
          drop_cells = delete_cells (\<lambda>c. tc_device c = d);
          st1 = st\<lparr>tb_displays := filter (\<lambda>x. td_id x \<noteq> d) (tb_displays st), tb_members := filter (\<lambda>m. fst m \<noteq> d) (tb_members st),
            tb_schedules := filter (\<lambda>s. ts_owner s \<noteq> OfDisplay d) (tb_schedules st)\<rparr>
      in if display_at d st = None then Inr st
         else if leader_first then when_ok (clear st1) drop_cells else when_ok (drop_cells st1) clear)"

subsection \<open>Analysis\<close>

text \<open>The categories of the report. A row of a category is what identifies it: an id, or the ids it relates.\<close>

definition orphan_groups :: "topology_db \<Rightarrow> topo_group list" where
  "orphan_groups st = filter (\<lambda>g. blank_workspace (tg_workspace g)) (tb_groups st)"

definition walls_of_display :: "string \<Rightarrow> topology_db \<Rightarrow> string list" where
  "walls_of_display d st = map tc_wall (filter (\<lambda>c. tc_device c = d) (tb_cells st))"

definition groups_of_display :: "string \<Rightarrow> topology_db \<Rightarrow> string list" where
  "groups_of_display d st = map snd (filter (\<lambda>m. fst m = d) (tb_members st))"

definition wall_group_conflicts :: "topology_db \<Rightarrow> (string \<times> string \<times> string) list" where
  \<comment> \<open>display, wall and group\<close>
  "wall_group_conflicts st = dedup (concat (map (\<lambda>x.
     let walls = (case walls_of_display (td_id x) st of [] \<Rightarrow> (case td_wall x of None \<Rightarrow> [] | Some w \<Rightarrow> [w]) | ws \<Rightarrow> ws)
     in concat (map (\<lambda>g. map (\<lambda>w. (td_id x, w, g)) walls) (groups_of_display (td_id x) st))) (tb_displays st)))"

definition repeated :: "(string \<Rightarrow> string list) \<Rightarrow> string list \<Rightarrow> (string \<times> string list) list" where
  "repeated f ds = filter (\<lambda>(d, xs). 1 < length xs) (map (\<lambda>d. (d, f d)) (dedup ds))"

definition duplicate_group_memberships :: "topology_db \<Rightarrow> (string \<times> string list) list" where
  "duplicate_group_memberships st = repeated (\<lambda>d. groups_of_display d st) (map fst (tb_members st))"

definition duplicate_wall_memberships :: "topology_db \<Rightarrow> (string \<times> string list) list" where
  "duplicate_wall_memberships st = repeated (\<lambda>d. walls_of_display d st) (map tc_device (tb_cells st))"

definition wall_members_screen_off :: "topology_db \<Rightarrow> topo_cell list" where
  "wall_members_screen_off st =
     filter (\<lambda>c. case display_at (tc_device c) st of None \<Rightarrow> False | Some x \<Rightarrow> \<not> td_screen_on x) (tb_cells st)"

definition invalid_leaders :: "topology_db \<Rightarrow> topo_wall list" where
  "invalid_leaders st = filter (\<lambda>w. cells_of (wr_id w) st \<noteq> [] \<and>
     (case wr_leader w of None \<Rightarrow> True | Some d \<Rightarrow> \<not> has_cell (wr_id w) d st)) (tb_walls st)"

definition invalid_wall_dimensions :: "topology_db \<Rightarrow> topo_wall list" where
  "invalid_wall_dimensions st = filter (\<lambda>w. tw_cols w \<le> 0 \<or> tw_rows w \<le> 0) (tb_walls st)"

definition invalid_grid_positions :: "topology_db \<Rightarrow> topo_cell list" where
  "invalid_grid_positions st = filter (\<lambda>c. case wall_at (tc_wall c) st of None \<Rightarrow> False
     | Some w \<Rightarrow> tc_col c < 0 \<or> tc_row c < 0 \<or> tw_cols w \<le> tc_col c \<or> tw_rows w \<le> tc_row c) (tb_cells st)"

definition group_mismatches :: "topology_db \<Rightarrow> (string \<times> string) list" where
  "group_mismatches st = filter (\<lambda>(d, g). case (group_at g st, display_at d st) of
     (Some y, Some x) \<Rightarrow> tg_workspace y \<noteq> None \<and> td_workspace x \<noteq> tg_workspace y | _ \<Rightarrow> False) (tb_members st)"

definition wall_mismatches :: "topology_db \<Rightarrow> topo_cell list" where
  "wall_mismatches st = filter (\<lambda>c. case (wall_at (tc_wall c) st, display_at (tc_device c) st) of
     (Some w, Some x) \<Rightarrow> wr_workspace w = None \<or> td_workspace x \<noteq> wr_workspace w | _ \<Rightarrow> False) (tb_cells st)"

definition wall_text :: "string option \<Rightarrow> string" where
  "wall_text w = (case w of None \<Rightarrow> [] | Some i \<Rightarrow> i)"

definition wall_assignment_drift :: "topology_db \<Rightarrow> (string \<times> string option \<times> string option) list" where
  "wall_assignment_drift st = concat (map (\<lambda>x.
     filter (\<lambda>(d, a, b). wall_text a \<noteq> wall_text b)
       (case walls_of_display (td_id x) st of [] \<Rightarrow> [(td_id x, td_wall x, None)] | ws \<Rightarrow> map (\<lambda>w. (td_id x, td_wall x, Some w)) ws))
     (tb_displays st))"

definition duplicate_group_names :: "topology_db \<Rightarrow> ((string option \<times> string) \<times> string list) list" where
  "duplicate_group_names st =
     (let named = filter (\<lambda>g. tg_workspace g \<noteq> None) (tb_groups st); key = (\<lambda>g. (tg_workspace g, name_key (tg_name g))) in
      filter (\<lambda>(k, ids). 1 < length ids) (map (\<lambda>k. (k, map tg_id (filter (\<lambda>g. key g = k) named))) (dedup (map key named))))"

definition member_count :: "string \<Rightarrow> topology_db \<Rightarrow> nat" where
  "member_count g st = length (dedup (map fst (filter (\<lambda>m. snd m = g) (tb_members st))))"

definition wall_alias_groups :: "topology_db \<Rightarrow> (string \<times> string) list" where
  "wall_alias_groups st = concat (map (\<lambda>g. map (\<lambda>w. (tg_id g, wr_id w)) (filter (\<lambda>w. wr_workspace w = tg_workspace g \<and>
     name_key (tg_name g) \<in> {name_key (tw_name w), name_key (tw_name w @ '' Group'')}) (tb_walls st)))
     (filter (\<lambda>g. tg_workspace g \<noteq> None) (tb_groups st)))"

text \<open>\<open>LIKE '%all%display%'\<close>, and the independent displays of a workspace.\<close>

fun text_after :: "string \<Rightarrow> string \<Rightarrow> string option" where
  "text_after p [] = (if p = [] then Some [] else None)"
| "text_after p (c # s) = (if starts_with (c # s) p then Some (drop (length p) (c # s)) else text_after p s)"

definition claims_all_displays :: "string \<Rightarrow> bool" where
  "claims_all_displays name = (case text_after ''all'' (sql_lower name) of None \<Rightarrow> False | Some s \<Rightarrow> text_after ''display'' s \<noteq> None)"

definition independent_count :: "string option \<Rightarrow> topology_db \<Rightarrow> nat" where
  "independent_count ws st = (if ws = None then 0
     else length (filter (\<lambda>x. td_workspace x = ws \<and> td_wall x = None \<and> \<not> on_wall (td_id x) st) (tb_displays st)))"

definition misleading_groups :: "topology_db \<Rightarrow> topo_group list" where
  "misleading_groups st =
     filter (\<lambda>g. claims_all_displays (tg_name g) \<and> member_count (tg_id g) st \<noteq> independent_count (tg_workspace g) st) (tb_groups st)"

text \<open>The members of a wall as the layouts see them.\<close>

definition layout_member :: "topology_db \<Rightarrow> topo_cell \<Rightarrow> wall_member" where
  "layout_member st c = (let x = display_at (tc_device c) st in
     \<lparr>pm_device = tc_device c, pm_row = of_int (tc_row c), pm_col = of_int (tc_col c), pm_name = map_option td_name x,
      pm_playlist = (case x of None \<Rightarrow> None | Some y \<Rightarrow> td_playlist y), pm_status = (case x of None \<Rightarrow> [] | Some y \<Rightarrow> td_status y),
      pm_workspace = (case x of None \<Rightarrow> None | Some y \<Rightarrow> td_workspace y)\<rparr>)"

fun insert_cell_sorted :: "topo_cell \<Rightarrow> topo_cell list \<Rightarrow> topo_cell list" where
  "insert_cell_sorted c [] = [c]"
| "insert_cell_sorted c (x # xs) = (if cell_before x c then x # insert_cell_sorted c xs else c # x # xs)"

definition layout_members :: "string \<Rightarrow> topology_db \<Rightarrow> wall_member list" where
  "layout_members w st = map (layout_member st) (foldr insert_cell_sorted (cells_of w st) [])"

definition stored_layout_ok :: "layout_host \<Rightarrow> topo_wall \<Rightarrow> topology_db \<Rightarrow> bool" where
  "stored_layout_ok h w st =
     (case wr_json w of NoLayout \<Rightarrow> True | Unparsable \<Rightarrow> False
      | Parsed v \<Rightarrow> \<not> (is_nullish v \<and> \<not> num_truthy (to_num (wr_revision w))) \<and>
          (let rv = (if num_truthy (to_num (wr_revision w)) then to_num (wr_revision w) else number_or_zero (fld v ''revision''))
           in (case validate_layout h (wall_row.truncate w) (layout_members (wr_id w) st) v (JNum rv) ''repair-validation'' of
                 Inl e \<Rightarrow> False | Inr l \<Rightarrow> True)))"

definition invalid_layouts :: "layout_host \<Rightarrow> topology_db \<Rightarrow> topo_wall list" where
  "invalid_layouts h st = filter (\<lambda>w. \<not> stored_layout_ok h w st) (tb_walls st)"

text \<open>What the foreign keys rule out, and the report: the number of rows in each category.\<close>

definition schedule_owned :: "topology_db \<Rightarrow> topo_schedule \<Rightarrow> bool" where
  "schedule_owned st s \<longleftrightarrow> (case ts_owner s of OfDisplay d \<Rightarrow> display_at d st \<noteq> None | OfGroup g \<Rightarrow> group_at g st \<noteq> None)"

definition foreign_key_violations :: "topology_db \<Rightarrow> nat" where
  "foreign_key_violations st =
     length (filter (\<lambda>(d, g). display_at d st = None \<or> group_at g st = None) (tb_members st))
     + length (filter (\<lambda>c. display_at (tc_device c) st = None \<or> wall_at (tc_wall c) st = None) (tb_cells st))
     + length (filter (\<lambda>w. case wr_leader w of None \<Rightarrow> False | Some d \<Rightarrow> display_at d st = None) (tb_walls st))
     + length (filter (\<lambda>s. \<not> schedule_owned st s) (tb_schedules st))"

record topology_report =
  rp_orphan_groups :: nat
  rp_conflicts :: nat
  rp_second_groups :: nat
  rp_second_walls :: nat
  rp_screens_off :: nat
  rp_leaders :: nat
  rp_dimensions :: nat
  rp_positions :: nat
  rp_layouts :: nat
  rp_workspaces :: nat
  rp_drift :: nat
  rp_names :: nat
  rp_aliases :: nat
  rp_misleading :: nat
  rp_foreign_keys :: nat

definition analyze_topology :: "layout_host \<Rightarrow> topology_db \<Rightarrow> topology_report" where
  "analyze_topology h st =
     \<lparr>rp_orphan_groups = length (orphan_groups st), rp_conflicts = length (wall_group_conflicts st),
      rp_second_groups = length (duplicate_group_memberships st), rp_second_walls = length (duplicate_wall_memberships st),
      rp_screens_off = length (wall_members_screen_off st), rp_leaders = length (invalid_leaders st),
      rp_dimensions = length (invalid_wall_dimensions st), rp_positions = length (invalid_grid_positions st),
      rp_layouts = length (invalid_layouts h st), rp_workspaces = length (group_mismatches st) + length (wall_mismatches st),
      rp_drift = length (wall_assignment_drift st), rp_names = length (duplicate_group_names st),
      rp_aliases = length (wall_alias_groups st), rp_misleading = length (misleading_groups st),
      rp_foreign_keys = foreign_key_violations st\<rparr>"

definition issue_count :: "topology_report \<Rightarrow> nat" where
  "issue_count r = rp_orphan_groups r + rp_conflicts r + rp_second_groups r + rp_second_walls r + rp_screens_off r + rp_leaders r
     + rp_dimensions r + rp_positions r + rp_layouts r + rp_workspaces r + rp_drift r + rp_names r + rp_aliases r + rp_misleading r
     + rp_foreign_keys r"

text \<open>The guards are only installed over a topology the analysis finds nothing in.\<close>

definition install_guards :: "topology_db \<Rightarrow> topology_db" where
  "install_guards st = st\<lparr>tb_guarded := True\<rparr>"

definition activate_guards :: "layout_host \<Rightarrow> topology_db \<Rightarrow> topology_db" where
  "activate_guards h st = (if issue_count (analyze_topology h st) = 0 then install_guards st else st)"

subsection \<open>Rows by key\<close>

lemma find_map_key:
  assumes "\<And>x. k (f x) = k x"
  shows "find (\<lambda>x. k x = i) (map (\<lambda>x. if k x = j then f x else x) xs)
    = (if i = j then map_option f (find (\<lambda>x. k x = i) xs) else find (\<lambda>x. k x = i) xs)"
  by (induction xs) (auto simp: assms)

lemma find_filter_key:
  "find (\<lambda>x. k x = i) (filter (\<lambda>x. k x \<noteq> j) xs) = (if i = j then None else find (\<lambda>x. k x = i) xs)"
  by (induction xs) auto

lemma find_key_iff: "distinct (map k xs) \<Longrightarrow> find (\<lambda>x. k x = i) xs = Some x \<longleftrightarrow> x \<in> set xs \<and> k x = i"
  by (induction xs) (auto simp: image_iff)

lemma find_key_None: "find (\<lambda>x. k x = i) xs = None \<longleftrightarrow> i \<notin> k ` set xs"
  by (auto simp: find_None_iff)

lemma rows_elsewhere [simp]:
  "display_at d (st\<lparr>tb_groups := gs\<rparr>) = display_at d st" "display_at d (st\<lparr>tb_members := ms\<rparr>) = display_at d st"
  "display_at d (st\<lparr>tb_walls := ws\<rparr>) = display_at d st" "display_at d (st\<lparr>tb_cells := cs\<rparr>) = display_at d st"
  "group_at g (st\<lparr>tb_displays := ds\<rparr>) = group_at g st" "group_at g (st\<lparr>tb_members := ms\<rparr>) = group_at g st"
  "group_at g (st\<lparr>tb_walls := ws\<rparr>) = group_at g st" "group_at g (st\<lparr>tb_cells := cs\<rparr>) = group_at g st"
  "wall_at w (st\<lparr>tb_displays := ds\<rparr>) = wall_at w st" "wall_at w (st\<lparr>tb_groups := gs\<rparr>) = wall_at w st"
  "wall_at w (st\<lparr>tb_members := ms\<rparr>) = wall_at w st" "wall_at w (st\<lparr>tb_cells := cs\<rparr>) = wall_at w st"
  "display_at d (st\<lparr>tb_schedules := ss\<rparr>) = display_at d st" "group_at g (st\<lparr>tb_schedules := ss\<rparr>) = group_at g st"
  "wall_at w (st\<lparr>tb_schedules := ss\<rparr>) = wall_at w st"
  by (simp_all add: display_at_def group_at_def wall_at_def)

lemma on_display_rows [simp]:
  assumes "\<And>x. td_id (f x) = td_id x"
  shows "display_at e (on_display d f st) = (if e = d then map_option f (display_at e st) else display_at e st)"
    and "map td_id (tb_displays (on_display d f st)) = map td_id (tb_displays st)"
  using assms by (auto simp: display_at_def on_display_def find_map_key)

lemma on_display_other [simp]:
  "group_at g (on_display d f st) = group_at g st" "wall_at w (on_display d f st) = wall_at w st"
  "tb_groups (on_display d f st) = tb_groups st" "tb_members (on_display d f st) = tb_members st"
  "tb_walls (on_display d f st) = tb_walls st" "tb_cells (on_display d f st) = tb_cells st"
  "tb_guarded (on_display d f st) = tb_guarded st" "tb_schedules (on_display d f st) = tb_schedules st"
  by (simp_all add: group_at_def wall_at_def on_display_def)

lemma on_wall_row_rows [simp]:
  assumes "\<And>x. wr_id (f x) = wr_id x"
  shows "wall_at v (on_wall_row w f st) = (if v = w then map_option f (wall_at v st) else wall_at v st)"
    and "map wr_id (tb_walls (on_wall_row w f st)) = map wr_id (tb_walls st)"
  using assms by (auto simp: wall_at_def on_wall_row_def find_map_key)

lemma on_wall_row_other [simp]:
  "display_at d (on_wall_row w f st) = display_at d st" "group_at g (on_wall_row w f st) = group_at g st"
  "tb_displays (on_wall_row w f st) = tb_displays st" "tb_groups (on_wall_row w f st) = tb_groups st"
  "tb_members (on_wall_row w f st) = tb_members st" "tb_cells (on_wall_row w f st) = tb_cells st"
  "tb_guarded (on_wall_row w f st) = tb_guarded st" "tb_schedules (on_wall_row w f st) = tb_schedules st"
  by (simp_all add: display_at_def group_at_def on_wall_row_def)

lemmas cell_defs = cells_of_def on_wall_def has_cell_def in_group_def list_ex_iff

subsection \<open>Sound topologies\<close>

definition keyed :: "topology_db \<Rightarrow> bool" where
  "keyed st \<longleftrightarrow> distinct (map td_id (tb_displays st)) \<and> distinct (map tg_id (tb_groups st)) \<and> distinct (map wr_id (tb_walls st))"

definition member_ok :: "topology_db \<Rightarrow> string \<Rightarrow> string \<Rightarrow> bool" where
  "member_ok st d g \<longleftrightarrow> d \<notin> tc_device ` set (tb_cells st) \<and> (\<exists>x y. display_at d st = Some x \<and> group_at g st = Some y
     \<and> td_workspace x = tg_workspace y \<and> td_wall x = None)"

definition cell_ok :: "topology_db \<Rightarrow> topo_cell \<Rightarrow> bool" where
  "cell_ok st c \<longleftrightarrow> (\<exists>x w. display_at (tc_device c) st = Some x \<and> wall_at (tc_wall c) st = Some w
     \<and> td_workspace x = wr_workspace w \<and> wr_workspace w \<noteq> None \<and> td_wall x = Some (tc_wall c))"

definition leader_ok :: "topology_db \<Rightarrow> topo_wall \<Rightarrow> bool" where
  "leader_ok st w \<longleftrightarrow> (case wr_leader w of None \<Rightarrow> cells_of (wr_id w) st = [] | Some d \<Rightarrow> has_cell (wr_id w) d st)"

definition display_ok :: "topology_db \<Rightarrow> topo_display \<Rightarrow> bool" where
  "display_ok st x \<longleftrightarrow> (case td_wall x of None \<Rightarrow> True | Some w \<Rightarrow> w = [] \<or> has_cell w (td_id x) st) \<and> (td_user x = None \<longrightarrow> td_workspace x = None)"

definition names_ok :: "topology_db \<Rightarrow> bool" where
  "names_ok st \<longleftrightarrow> distinct (map (\<lambda>g. (tg_workspace g, name_key (tg_name g))) (tb_groups st)) \<and> (\<forall>g \<in> set (tb_groups st). \<not> blank_workspace (tg_workspace g))"

definition sound_topology :: "topology_db \<Rightarrow> bool" where
  "sound_topology st \<longleftrightarrow> keyed st \<and> names_ok st \<and> distinct (map fst (tb_members st)) \<and> distinct (map tc_device (tb_cells st))
     \<and> (\<forall>(d, g) \<in> set (tb_members st). member_ok st d g) \<and> (\<forall>c \<in> set (tb_cells st). cell_ok st c)
     \<and> (\<forall>w \<in> set (tb_walls st). 0 < tw_cols w \<and> 0 < tw_rows w \<and> leader_ok st w) \<and> (\<forall>x \<in> set (tb_displays st). display_ok st x)
     \<and> (\<forall>s \<in> set (tb_schedules st). schedule_owned st s)"

lemma keyed_rows:
  assumes "keyed st"
  shows "display_at d st = Some x \<longleftrightarrow> x \<in> set (tb_displays st) \<and> td_id x = d"
    and "group_at g st = Some y \<longleftrightarrow> y \<in> set (tb_groups st) \<and> tg_id y = g"
    and "wall_at i st = Some w \<longleftrightarrow> w \<in> set (tb_walls st) \<and> wr_id w = i"
  using assms by (simp_all add: keyed_def display_at_def group_at_def wall_at_def find_key_iff)

lemma sound_keyed: "sound_topology st \<Longrightarrow> keyed st"
  by (simp add: sound_topology_def)

text \<open>A sound topology is one the analysis does not object to in any category the guards are made for.\<close>

lemma distinct_filter_key: "distinct (map f xs) \<Longrightarrow> length (filter (\<lambda>x. f x = k) xs) \<le> 1"
  by (induction xs) (auto simp: filter_empty_conv image_iff)

lemma repeated_none: "distinct (map f xs) \<Longrightarrow> repeated (\<lambda>d. map g (filter (\<lambda>x. f x = d) xs)) (map f xs) = []"
  using distinct_filter_key [of f xs] by (auto simp: repeated_def filter_empty_conv leD)

definition core_categories :: "topology_db \<Rightarrow> nat" where
  "core_categories st = length (orphan_groups st) + length (wall_group_conflicts st) + length (duplicate_group_memberships st)
     + length (duplicate_wall_memberships st) + length (invalid_leaders st) + length (invalid_wall_dimensions st)
     + length (group_mismatches st) + length (wall_mismatches st) + length (wall_assignment_drift st)
     + length (duplicate_group_names st) + foreign_key_violations st"

lemma sound_groups: "sound_topology st \<Longrightarrow> orphan_groups st = [] \<and> duplicate_group_names st = []"
proof -
  assume s: "sound_topology st"
  then have d: "distinct (map (\<lambda>g. (tg_workspace g, name_key (tg_name g))) (tb_groups st))" by (simp add: sound_topology_def names_ok_def)
  have "distinct (map (\<lambda>g. (tg_workspace g, name_key (tg_name g))) (filter (\<lambda>g. tg_workspace g \<noteq> None) (tb_groups st)))"
    using d by (rule distinct_map_filter)
  from distinct_filter_key [OF this] have "duplicate_group_names st = []"
    by (auto simp: duplicate_group_names_def Let_def filter_empty_conv not_less)
  with s show ?thesis by (auto simp: orphan_groups_def filter_empty_conv sound_topology_def names_ok_def)
qed

lemma sound_memberships: "sound_topology st \<Longrightarrow> duplicate_group_memberships st = [] \<and> duplicate_wall_memberships st = []"
  unfolding duplicate_group_memberships_def duplicate_wall_memberships_def groups_of_display_def walls_of_display_def
  by (simp add: sound_topology_def repeated_none)

lemma sound_walls: "sound_topology st \<Longrightarrow> invalid_leaders st = [] \<and> invalid_wall_dimensions st = []"
  by (auto simp: invalid_leaders_def invalid_wall_dimensions_def filter_empty_conv sound_topology_def leader_ok_def split: option.splits)

lemma sound_cellD:
  assumes "sound_topology st" "c \<in> set (tb_cells st)"
  obtains x w where "display_at (tc_device c) st = Some x" "wall_at (tc_wall c) st = Some w" "td_workspace x = wr_workspace w"
    "wr_workspace w \<noteq> None" "td_wall x = Some (tc_wall c)"
  using assms unfolding sound_topology_def cell_ok_def by blast

lemma sound_memberD:
  assumes "sound_topology st" "(d, g) \<in> set (tb_members st)"
  obtains x y where "d \<notin> tc_device ` set (tb_cells st)" "display_at d st = Some x" "group_at g st = Some y"
    "td_workspace x = tg_workspace y" "td_wall x = None"
  using assms unfolding sound_topology_def member_ok_def by blast

lemma leader_display:
  assumes "sound_topology st" "w \<in> set (tb_walls st)" "wr_leader w = Some d"
  shows "display_at d st \<noteq> None"
proof -
  have "has_cell (wr_id w) d st" using assms by (auto simp: sound_topology_def leader_ok_def)
  then obtain c where "c \<in> set (tb_cells st)" "tc_device c = d" by (auto simp: has_cell_def list_ex_iff)
  then show ?thesis using sound_cellD [OF assms(1)] by (metis option.distinct(1))
qed

lemma sound_mismatches:
  assumes "sound_topology st"
  shows "group_mismatches st = [] \<and> wall_mismatches st = [] \<and> foreign_key_violations st = 0"
proof -
  have m: "\<exists>x y. display_at d st = Some x \<and> group_at g st = Some y \<and> td_workspace x = tg_workspace y" if "(d, g) \<in> set (tb_members st)" for d g
    by (rule sound_memberD [OF assms that]) blast
  have c: "\<exists>x w. display_at (tc_device c) st = Some x \<and> wall_at (tc_wall c) st = Some w \<and> td_workspace x = wr_workspace w
      \<and> wr_workspace w \<noteq> None" if "c \<in> set (tb_cells st)" for c
    by (rule sound_cellD [OF assms that]) blast
  have l: "case wr_leader w of None \<Rightarrow> True | Some d \<Rightarrow> display_at d st \<noteq> None" if "w \<in> set (tb_walls st)" for w
    using leader_display [OF assms that] by (simp split: option.split)
  have "group_mismatches st = []" by (auto simp: group_mismatches_def filter_empty_conv dest!: m)
  moreover have "wall_mismatches st = []" by (auto simp: wall_mismatches_def filter_empty_conv dest!: c)
  moreover have "filter (\<lambda>(d, g). display_at d st = None \<or> group_at g st = None) (tb_members st) = []"
    by (auto simp: filter_empty_conv dest!: m)
  moreover have "filter (\<lambda>c. display_at (tc_device c) st = None \<or> wall_at (tc_wall c) st = None) (tb_cells st) = []"
    by (auto simp: filter_empty_conv dest!: c)
  moreover have "filter (\<lambda>w. case wr_leader w of None \<Rightarrow> False | Some d \<Rightarrow> display_at d st = None) (tb_walls st) = []"
  proof -
    have "\<not> (case wr_leader w of None \<Rightarrow> False | Some d \<Rightarrow> display_at d st = None)" if "w \<in> set (tb_walls st)" for w
      using l [OF that] by (cases "wr_leader w") simp_all
    then show ?thesis by (simp add: filter_empty_conv)
  qed
  moreover have "filter (\<lambda>s. \<not> schedule_owned st s) (tb_schedules st) = []" using assms by (simp add: sound_topology_def filter_empty_conv)
  ultimately show ?thesis by (simp add: foreign_key_violations_def)
qed

lemma sound_conflicts:
  assumes "sound_topology st"
  shows "wall_group_conflicts st = [] \<and> wall_assignment_drift st = []"
proof
  have key: "display_at (td_id x) st = Some x" if "x \<in> set (tb_displays st)" for x
    using that keyed_rows(1) [OF sound_keyed [OF assms]] by simp
  have "groups_of_display (td_id x) st = [] \<or> walls_of_display (td_id x) st = [] \<and> td_wall x = None" if x: "x \<in> set (tb_displays st)" for x
  proof (cases "groups_of_display (td_id x) st")
    case (Cons g gs)
    then have "g \<in> set (groups_of_display (td_id x) st)" by simp
    then have "(td_id x, g) \<in> set (tb_members st)" by (auto simp: groups_of_display_def)
    from sound_memberD [OF assms this] obtain y where "td_id x \<notin> tc_device ` set (tb_cells st)" "display_at (td_id x) st = Some y" "td_wall y = None"
      by blast
    with key [OF x] show ?thesis by (auto simp: walls_of_display_def filter_empty_conv image_iff)
  qed simp
  then have "concat (map (\<lambda>g. map (\<lambda>w. (td_id x, w, g)) (case walls_of_display (td_id x) st of
      [] \<Rightarrow> (case td_wall x of None \<Rightarrow> [] | Some w \<Rightarrow> [w]) | v # vs \<Rightarrow> v # vs)) (groups_of_display (td_id x) st)) = []"
    if "x \<in> set (tb_displays st)" for x using that by fastforce
  then show "wall_group_conflicts st = []" by (simp add: wall_group_conflicts_def Let_def)
  have "filter (\<lambda>(d, a, b). wall_text a \<noteq> wall_text b) (case walls_of_display (td_id x) st of [] \<Rightarrow> [(td_id x, td_wall x, None)]
      | v # vs \<Rightarrow> map (\<lambda>w. (td_id x, td_wall x, Some w)) (v # vs)) = []" if x: "x \<in> set (tb_displays st)" for x
  proof (cases "walls_of_display (td_id x) st")
    case Nil
    have "display_ok st x" using assms x by (simp add: sound_topology_def)
    with Nil show ?thesis
      by (auto simp: display_ok_def has_cell_def list_ex_iff walls_of_display_def filter_empty_conv wall_text_def split: option.splits)
  next
    case (Cons v vs)
    have "td_wall x = Some w" if "w \<in> set (walls_of_display (td_id x) st)" for w
    proof -
      from that obtain c where "c \<in> set (tb_cells st)" "tc_device c = td_id x" "tc_wall c = w" by (auto simp: walls_of_display_def)
      with sound_cellD [OF assms this(1)] key [OF x] show ?thesis by (metis option.inject)
    qed
    then have "td_wall x = Some v" "\<forall>w \<in> set vs. td_wall x = Some w" by (simp_all add: Cons)
    with Cons show ?thesis by (auto simp: filter_empty_conv)
  qed
  then show "wall_assignment_drift st = []" by (simp add: wall_assignment_drift_def)
qed

lemma sound_core: "sound_topology st \<Longrightarrow> core_categories st = 0"
  using sound_groups sound_memberships sound_walls sound_mismatches sound_conflicts by (simp add: core_categories_def)

subsection \<open>Statements keep a topology sound\<close>

lemma soundI:
  assumes "keyed st" "names_ok st" "distinct (map fst (tb_members st))" "distinct (map tc_device (tb_cells st))"
    and "\<And>d g. (d, g) \<in> set (tb_members st) \<Longrightarrow> member_ok st d g"
    and "\<And>c. c \<in> set (tb_cells st) \<Longrightarrow> cell_ok st c"
    and "\<And>i w. wall_at i st = Some w \<Longrightarrow> 0 < tw_cols w \<and> 0 < tw_rows w \<and> leader_ok st w"
    and "\<And>d x. display_at d st = Some x \<Longrightarrow> display_ok st x" "\<And>s. s \<in> set (tb_schedules st) \<Longrightarrow> schedule_owned st s"
  shows "sound_topology st"
  unfolding sound_topology_def using assms by (auto simp: keyed_rows [OF assms(1)])

lemma soundD:
  assumes "sound_topology st"
  shows "names_ok st" "distinct (map fst (tb_members st))" "distinct (map tc_device (tb_cells st))"
    and "(d, g) \<in> set (tb_members st) \<Longrightarrow> member_ok st d g"
    and "c \<in> set (tb_cells st) \<Longrightarrow> cell_ok st c"
    and "wall_at i st = Some w \<Longrightarrow> wr_id w = i \<and> 0 < tw_cols w \<and> 0 < tw_rows w \<and> leader_ok st w"
    and "display_at e st = Some x \<Longrightarrow> td_id x = e \<and> display_ok st x"
    and "group_at g st = Some y \<Longrightarrow> tg_id y = g"
    and "\<forall>s \<in> set (tb_schedules st). schedule_owned st s"
  using assms keyed_rows [OF sound_keyed [OF assms]] by (auto simp: sound_topology_def)

lemma owned_on [simp]:
  "(\<And>x. td_id (f x) = td_id x) \<Longrightarrow> schedule_owned (on_display d f st) s = schedule_owned st s"
  "schedule_owned (on_wall_row w g st) s = schedule_owned st s" "schedule_owned (st\<lparr>tb_members := ms\<rparr>) s = schedule_owned st s"
  "schedule_owned (st\<lparr>tb_cells := cs\<rparr>) s = schedule_owned st s" "schedule_owned (st\<lparr>tb_walls := ws\<rparr>) s = schedule_owned st s"
  "schedule_owned (st\<lparr>tb_schedules := ss\<rparr>) s = schedule_owned st s"
  by (simp_all add: schedule_owned_def split: schedule_owner.split)

lemma keyed_on [simp]:
  "(\<And>x. td_id (f x) = td_id x) \<Longrightarrow> keyed (on_display d f st) = keyed st"
  "(\<And>x. wr_id (g x) = wr_id x) \<Longrightarrow> keyed (on_wall_row w g st) = keyed st"
  "keyed (st\<lparr>tb_members := ms\<rparr>) = keyed st" "keyed (st\<lparr>tb_cells := cs\<rparr>) = keyed st" "keyed (st\<lparr>tb_schedules := ss\<rparr>) = keyed st"
  by (simp_all add: keyed_def)

lemma names_on [simp]:
  "names_ok (on_display d f st) = names_ok st" "names_ok (on_wall_row w g st) = names_ok st"
  "names_ok (st\<lparr>tb_members := ms\<rparr>) = names_ok st" "names_ok (st\<lparr>tb_cells := cs\<rparr>) = names_ok st"
  "names_ok (st\<lparr>tb_schedules := ss\<rparr>) = names_ok st"
  by (simp_all add: names_ok_def)

lemma first_cell_None [simp]: "first_cell cs = None \<longleftrightarrow> cs = []"
  by (cases cs) (auto split: option.splits)

lemma first_cell_in: "first_cell cs = Some c \<Longrightarrow> c \<in> set cs"
  by (induction cs arbitrary: c) (auto split: option.splits if_splits)

lemma first_member_cases:
  "first_member w st = None \<longleftrightarrow> cells_of w st = []"
  "first_member w st = Some d \<Longrightarrow> has_cell w d st"
  by (auto simp: first_member_def cells_of_def has_cell_def list_ex_iff dest!: first_cell_in)

lemma first_member_fits [simp]: "\<not> leader_refused w (first_member w st) st"
  using first_member_cases [of w st] by (auto simp: leader_refused_def split: option.split)

lemma cells_elsewhere [simp]:
  "cells_of w (on_display e f st) = cells_of w st" "cells_of w (on_wall_row v g st) = cells_of w st"
  "cells_of w (st\<lparr>tb_members := ms\<rparr>) = cells_of w st" "cells_of w (st\<lparr>tb_displays := ds\<rparr>) = cells_of w st"
  "cells_of w (st\<lparr>tb_walls := ws\<rparr>) = cells_of w st" "cells_of w (st\<lparr>tb_groups := gs\<rparr>) = cells_of w st"
  "has_cell w d (on_display e f st) = has_cell w d st" "has_cell w d (on_wall_row v g st) = has_cell w d st"
  "has_cell w d (st\<lparr>tb_members := ms\<rparr>) = has_cell w d st" "has_cell w d (st\<lparr>tb_displays := ds\<rparr>) = has_cell w d st"
  "has_cell w d (st\<lparr>tb_walls := ws\<rparr>) = has_cell w d st" "has_cell w d (st\<lparr>tb_groups := gs\<rparr>) = has_cell w d st"
  "on_wall d (on_display e f st) = on_wall d st" "on_wall d (on_wall_row v g st) = on_wall d st"
  "on_wall d (st\<lparr>tb_members := ms\<rparr>) = on_wall d st" "on_wall d (st\<lparr>tb_displays := ds\<rparr>) = on_wall d st"
  "on_wall d (st\<lparr>tb_walls := ws\<rparr>) = on_wall d st" "on_wall d (st\<lparr>tb_groups := gs\<rparr>) = on_wall d st"
  "first_member w (on_display e f st) = first_member w st" "first_member w (on_wall_row v g st) = first_member w st"
  "first_member w (st\<lparr>tb_members := ms\<rparr>) = first_member w st" "first_member w (st\<lparr>tb_displays := ds\<rparr>) = first_member w st"
  "first_member w (st\<lparr>tb_walls := ws\<rparr>) = first_member w st" "first_member w (st\<lparr>tb_groups := gs\<rparr>) = first_member w st"
  "in_group d (on_display e f st) = in_group d st" "in_group d (on_wall_row v g st) = in_group d st"
  "in_group d (st\<lparr>tb_displays := ds\<rparr>) = in_group d st" "in_group d (st\<lparr>tb_walls := ws\<rparr>) = in_group d st"
  "in_group d (st\<lparr>tb_groups := gs\<rparr>) = in_group d st" "in_group d (st\<lparr>tb_cells := cs\<rparr>) = in_group d st"
  by (simp_all add: cells_of_def has_cell_def on_wall_def in_group_def first_member_def on_display_def on_wall_row_def)

lemma refusal_elsewhere [simp]:
  "leader_refused w l (on_display e f st) = leader_refused w l st" "leader_refused w l (on_wall_row v g st) = leader_refused w l st"
  "leader_refused w l (st\<lparr>tb_members := ms\<rparr>) = leader_refused w l st" "leader_refused w l (st\<lparr>tb_displays := ds\<rparr>) = leader_refused w l st"
  "leader_refused w l (st\<lparr>tb_walls := ws\<rparr>) = leader_refused w l st" "leader_refused w l (st\<lparr>tb_groups := gs\<rparr>) = leader_refused w l st"
  by (cases l; simp add: leader_refused_def)+

lemma same_cell_device:
  assumes "distinct (map tc_device (tb_cells st))" "c \<in> set (tb_cells st)"
  shows "filter (\<lambda>x. \<not> same_cell c x) (tb_cells st) = filter (\<lambda>x. tc_device x \<noteq> tc_device c) (tb_cells st)"
proof (rule filter_cong [OF refl])
  fix x assume x: "x \<in> set (tb_cells st)"
  have "x = c" if "tc_device x = tc_device c"
    using that assms x by (metis (mono_tags, lifting) distinct_map inj_on_def)
  then show "(\<not> same_cell c x) = (tc_device x \<noteq> tc_device c)" by (auto simp: same_cell_def)
qed

definition without_cell :: "topo_cell \<Rightarrow> topology_db \<Rightarrow> topology_db" where
  "without_cell c st = (let st1 = st\<lparr>tb_cells := filter (\<lambda>x. tc_device x \<noteq> tc_device c) (tb_cells st)\<rparr>;
       st2 = on_display (tc_device c) (\<lambda>x. x\<lparr>td_wall := None\<rparr>) st1
     in if leader_of (tc_wall c) st = Some (tc_device c)
        then on_wall_row (tc_wall c) (\<lambda>w. w\<lparr>wr_leader := first_member (tc_wall c) st1\<rparr>) st2 else st2)"

lemma delete_cell_result:
  assumes "sound_topology st" "tb_guarded st" "c \<in> set (tb_cells st)"
  shows "delete_cell c st = Inr (without_cell c st)"
proof -
  obtain x w where c: "display_at (tc_device c) st = Some x" "wall_at (tc_wall c) st = Some w" "td_wall x = Some (tc_wall c)"
    using sound_cellD [OF assms(1,3)] by metis
  let ?st1 = "st\<lparr>tb_cells := filter (\<lambda>x. tc_device x \<noteq> tc_device c) (tb_cells st)\<rparr>"
  have "display_at d ?st1 \<noteq> None" if "first_member (tc_wall c) ?st1 = Some d" for d
  proof -
    from first_member_cases(2) [OF that] obtain e where e: "e \<in> set (tb_cells st)" "tc_device e = d" by (auto simp: has_cell_def list_ex_iff)
    show ?thesis by (rule sound_cellD [OF assms(1) e(1)]) (simp add: e(2))
  qed
  then show ?thesis
    using assms(2) c same_cell_device [OF soundD(3) [OF assms(1)] assms(3)]
    by (auto simp: delete_cell_def without_cell_def Let_def when_ok_def update_display_wall_def update_leader_def leader_of_def split: option.split)
qed

lemma without_cell_fields [simp]:
  "tb_cells (without_cell c st) = filter (\<lambda>x. tc_device x \<noteq> tc_device c) (tb_cells st)"
  "tb_members (without_cell c st) = tb_members st" "tb_groups (without_cell c st) = tb_groups st"
  "tb_guarded (without_cell c st) = tb_guarded st" "tb_schedules (without_cell c st) = tb_schedules st"
  "schedule_owned (without_cell c st) s = schedule_owned st s" "group_at g (without_cell c st) = group_at g st"
  "display_at d (without_cell c st) = (if d = tc_device c then map_option (\<lambda>x. x\<lparr>td_wall := None\<rparr>) (display_at d st) else display_at d st)"
  by (simp_all add: without_cell_def Let_def)

lemma without_cell_wall:
  "wall_at w (without_cell c st) = (if w = tc_wall c \<and> leader_of w st = Some (tc_device c)
     then map_option (\<lambda>x. x\<lparr>wr_leader := first_member w (without_cell c st)\<rparr>) (wall_at w st) else wall_at w st)"
  by (auto simp: without_cell_def Let_def)

lemma without_cell_cells:
  "has_cell w d (without_cell c st) \<longleftrightarrow> has_cell w d st \<and> d \<noteq> tc_device c"
  "cells_of w (without_cell c st) = filter (\<lambda>x. tc_device x \<noteq> tc_device c) (cells_of w st)"
  by (auto simp: has_cell_def cells_of_def list_ex_iff intro: filter_cong)

lemma keyed_without [simp]: "keyed (without_cell c st) = keyed st" "names_ok (without_cell c st) = names_ok st"
  by (simp_all add: without_cell_def Let_def)

lemma sound_without_cell:
  assumes s: "sound_topology st" and c: "c \<in> set (tb_cells st)"
  shows "sound_topology (without_cell c st)"
proof (rule soundI)
  note d = soundD [OF s]
  show "distinct (map tc_device (tb_cells (without_cell c st)))" using d(3) by (simp add: distinct_map_filter)
  show "member_ok (without_cell c st) e g" if "(e, g) \<in> set (tb_members (without_cell c st))" for e g
  proof -
    have m: "member_ok st e g" using that d(4) by simp
    with c have "e \<noteq> tc_device c" by (auto simp: member_ok_def)
    with m show ?thesis by (auto simp: member_ok_def)
  qed
  show "cell_ok (without_cell c st) k" if "k \<in> set (tb_cells (without_cell c st))" for k
  proof -
    have "cell_ok st k" "tc_device k \<noteq> tc_device c" using that d(5) by simp_all
    then show ?thesis by (auto simp: cell_ok_def without_cell_wall)
  qed
  show "0 < tw_cols w \<and> 0 < tw_rows w \<and> leader_ok (without_cell c st) w" if w: "wall_at i (without_cell c st) = Some w" for i w
  proof (cases "i = tc_wall c \<and> leader_of i st = Some (tc_device c)")
    case True
    then obtain v where v: "wall_at i st = Some v" "w = v\<lparr>wr_leader := first_member i (without_cell c st)\<rparr>" using w by (auto simp: without_cell_wall)
    then show ?thesis using d(6) [OF v(1)] first_member_cases [of i "without_cell c st"] by (auto simp: leader_ok_def split: option.split)
  next
    case False
    then have v: "wall_at i st = Some w" using w [unfolded without_cell_wall if_not_P [OF False]] by simp
    have "wr_leader w \<noteq> Some (tc_device c)"
    proof
      assume l: "wr_leader w = Some (tc_device c)"
      then obtain k where k: "k \<in> set (tb_cells st)" "tc_wall k = i" "tc_device k = tc_device c"
        using d(6) [OF v] by (auto simp: leader_ok_def has_cell_def list_ex_iff)
      then have "k = c" using d(3) c by (auto simp: distinct_map inj_on_def)
      with False l v k show False by (auto simp: leader_of_def)
    qed
    then show ?thesis using d(6) [OF v] by (auto simp: leader_ok_def without_cell_cells split: option.splits)
  qed
  show "display_ok (without_cell c st) x" if x: "display_at e (without_cell c st) = Some x" for e x
  proof (cases "e = tc_device c")
    case True
    with x obtain z where z: "display_at e st = Some z" "x = z\<lparr>td_wall := None\<rparr>" by auto
    from d(7) [OF z(1)] z(2) show ?thesis by (simp add: display_ok_def)
  next
    case False
    with x have "display_at e st = Some x" by simp
    from d(7) [OF this] False show ?thesis by (auto simp: display_ok_def without_cell_cells split: option.split)
  qed
qed (use s in \<open>simp_all add: soundD sound_keyed\<close>)

lemma insert_cell_result:
  assumes s: "sound_topology st" and g: "tb_guarded st" and r: "insert_cell c st = Inr st'"
  shows "cell_refused c st = None"
    and "st' = (let st1 = on_display (tc_device c) (\<lambda>x. x\<lparr>td_wall := Some (tc_wall c)\<rparr>) (st\<lparr>tb_cells := tb_cells st @ [c]\<rparr>)
      in if leader_of (tc_wall c) st = None then on_wall_row (tc_wall c) (\<lambda>w. w\<lparr>wr_leader := Some (tc_device c)\<rparr>) st1 else st1)"
proof -
  show ok: "cell_refused c st = None" using r g by (simp add: insert_cell_def split: option.splits)
  then obtain w x where w: "wall_at (tc_wall c) st = Some w" "display_at (tc_device c) st = Some x"
    by (auto simp: cell_refused_def belongs_def split: option.splits if_splits)
  have "first_member (tc_wall c) (st\<lparr>tb_cells := tb_cells st @ [c]\<rparr>) = Some (tc_device c)" if "leader_of (tc_wall c) st = None"
  proof -
    have "cells_of (tc_wall c) st = []" using that w(1) soundD(6) [OF s w(1)] by (auto simp: leader_of_def leader_ok_def split: option.splits)
    then show ?thesis by (simp add: first_member_def cells_of_def)
  qed
  then show "st' = (let st1 = on_display (tc_device c) (\<lambda>x. x\<lparr>td_wall := Some (tc_wall c)\<rparr>) (st\<lparr>tb_cells := tb_cells st @ [c]\<rparr>)
      in if leader_of (tc_wall c) st = None then on_wall_row (tc_wall c) (\<lambda>w. w\<lparr>wr_leader := Some (tc_device c)\<rparr>) st1 else st1)"
    using r g ok w by (auto simp: insert_cell_def Let_def when_ok_def update_display_wall_def update_leader_def leader_of_def leader_refused_def
        has_cell_def split: if_splits option.splits)
qed

lemma sound_insert_cell:
  assumes s: "sound_topology st" and g: "tb_guarded st" and r: "insert_cell c st = Inr st'"
  shows "sound_topology st'"
proof -
  note d = soundD [OF s] and st' = insert_cell_result(2) [OF s g r, unfolded Let_def]
  obtain w x where w: "wall_at (tc_wall c) st = Some w" "display_at (tc_device c) st = Some x" "td_workspace x = wr_workspace w"
    "wr_workspace w \<noteq> None" and free: "\<not> on_wall (tc_device c) st" "\<not> in_group (tc_device c) st"
    using insert_cell_result(1) [OF s g r] by (auto simp: cell_refused_def belongs_def split: option.splits if_splits)
  have cells: "tb_cells st' = tb_cells st @ [c]" and members: "tb_members st' = tb_members st"
    and display: "display_at e st' = (if e = tc_device c then map_option (\<lambda>x. x\<lparr>td_wall := Some (tc_wall c)\<rparr>) (display_at e st) else display_at e st)"
    and wall: "wall_at i st' = (if i = tc_wall c \<and> leader_of i st = None then map_option (\<lambda>w. w\<lparr>wr_leader := Some (tc_device c)\<rparr>) (wall_at i st) else wall_at i st)"
    and "group": "group_at k st' = group_at k st" for e i k
    by (auto simp: st')
  have has: "has_cell i e st' \<longleftrightarrow> has_cell i e st \<or> i = tc_wall c \<and> e = tc_device c" for i e by (auto simp: has_cell_def cells)
  show ?thesis
  proof (rule soundI)
    show "distinct (map tc_device (tb_cells st'))" using d(3) free(1) by (auto simp: cells on_wall_def list_ex_iff)
    show "member_ok st' e k" if "(e, k) \<in> set (tb_members st')" for e k
      using that d(4) [of e k] free(2) by (force simp: member_ok_def cells members display "group" in_group_def list_ex_iff)
    show "cell_ok st' k" if "k \<in> set (tb_cells st')" for k
    proof (cases "k = c")
      case True
      with w show ?thesis by (auto simp: cell_ok_def display wall)
    next
      case False
      then have k: "k \<in> set (tb_cells st)" using that by (simp add: cells)
      then have "tc_device k \<noteq> tc_device c" using free(1) by (auto simp: on_wall_def list_ex_iff)
      with d(5) [OF k] show ?thesis by (auto simp: cell_ok_def display wall)
    qed
    show "0 < tw_cols v \<and> 0 < tw_rows v \<and> leader_ok st' v" if v: "wall_at i st' = Some v" for i v
    proof (cases "i = tc_wall c \<and> leader_of i st = None")
      case True
      with v w(1) have "v = w\<lparr>wr_leader := Some (tc_device c)\<rparr>" by (auto simp: wall)
      with d(6) [OF w(1)] show ?thesis by (auto simp: leader_ok_def has)
    next
      case False
      then have "wall_at i st = Some v" using v [unfolded wall if_not_P [OF False]] by simp
      from d(6) [OF this] False this show ?thesis
        by (auto simp: leader_ok_def has leader_of_def cells_of_def cells split: option.splits)
    qed
    show "display_ok st' y" if "display_at e st' = Some y" for e y
      using that d(7) [of e] by (auto simp: display_ok_def has display split: if_splits option.splits)
    show "schedule_owned st' p" if "p \<in> set (tb_schedules st')" for p
      using that soundD(9) [OF s] by (simp add: st' split: if_splits)
  qed (use s in \<open>simp_all add: st' members soundD sound_keyed\<close>)
qed

lemma ok_elsewhere [simp]:
  "leader_ok (on_display d f st) = leader_ok st" "leader_ok (on_wall_row w g st) = leader_ok st"
  "leader_ok (st\<lparr>tb_members := ms\<rparr>) = leader_ok st" "leader_ok (st\<lparr>tb_groups := gs\<rparr>) = leader_ok st"
  "leader_ok (st\<lparr>tb_walls := ws\<rparr>) = leader_ok st" "leader_ok (st\<lparr>tb_displays := ds\<rparr>) = leader_ok st"
  "display_ok (on_display d f st) = display_ok st" "display_ok (on_wall_row w g st) = display_ok st"
  "display_ok (st\<lparr>tb_members := ms\<rparr>) = display_ok st" "display_ok (st\<lparr>tb_groups := gs\<rparr>) = display_ok st"
  "display_ok (st\<lparr>tb_walls := ws\<rparr>) = display_ok st" "display_ok (st\<lparr>tb_displays := ds\<rparr>) = display_ok st"
  by (simp_all add: fun_eq_iff leader_ok_def display_ok_def split: option.split)

lemma ok_members [simp]:
  "member_ok (st\<lparr>tb_members := ms\<rparr>) = member_ok st" "cell_ok (st\<lparr>tb_members := ms\<rparr>) = cell_ok st"
  "member_ok (st\<lparr>tb_walls := ws\<rparr>) = member_ok st" "cell_ok (st\<lparr>tb_groups := gs\<rparr>) = cell_ok st"
  "member_ok (on_wall_row w g st) = member_ok st"
  by (simp_all add: fun_eq_iff member_ok_def cell_ok_def)

lemma for_each_keeps:
  assumes "for_each f xs st = Inr st'" "P st" "\<And>x s s'. x \<in> set xs \<Longrightarrow> P s \<Longrightarrow> f x s = Inr s' \<Longrightarrow> P s'"
  shows "P st'"
  using assms
proof (induction xs arbitrary: st)
  case (Cons x xs)
  then obtain s where s: "f x st = Inr s" "for_each f xs s = Inr st'" by (auto simp: when_ok_def split: sum.splits)
  from Cons.prems(3) [OF _ Cons.prems(2) s(1)] have "P s" by simp
  show ?case
  proof (rule Cons.IH [OF s(2) \<open>P s\<close>])
    show "P s2" if "y \<in> set xs" "P s1" "f y s1 = Inr s2" for y s1 s2 using Cons.prems(3) [of y s1 s2] that by simp
  qed
qed simp

lemma delete_each_cell:
  assumes "sound_topology st" "tb_guarded st" "distinct (map tc_device cs)" "set cs \<subseteq> set (tb_cells st)"
  shows "for_each delete_cell cs st = Inr (fold without_cell cs st)
    \<and> sound_topology (fold without_cell cs st) \<and> tb_guarded (fold without_cell cs st)
    \<and> tb_cells (fold without_cell cs st) = filter (\<lambda>x. tc_device x \<notin> tc_device ` set cs) (tb_cells st)
    \<and> tb_members (fold without_cell cs st) = tb_members st"
  using assms
proof (induction cs arbitrary: st)
  case (Cons c cs)
  have r: "delete_cell c st = Inr (without_cell c st)" using Cons.prems by (intro delete_cell_result) auto
  have "set cs \<subseteq> set (tb_cells (without_cell c st))" using Cons.prems(3,4) by (auto simp: image_iff)
  with Cons.IH [of "without_cell c st"] Cons.prems r show ?case by (auto simp: when_ok_def sound_without_cell intro: filter_cong)
qed simp

lemma delete_cells_result:
  assumes "sound_topology st" "tb_guarded st"
  obtains st' where "delete_cells P st = Inr st'" "sound_topology st'" "tb_guarded st'"
    "tb_cells st' = filter (\<lambda>c. \<not> P c) (tb_cells st)" "tb_members st' = tb_members st"
proof -
  let ?cs = "filter P (tb_cells st)"
  have d: "distinct (map tc_device (tb_cells st))" by (rule soundD(3) [OF assms(1)])
  have "filter (\<lambda>x. tc_device x \<notin> tc_device ` set ?cs) (tb_cells st) = filter (\<lambda>c. \<not> P c) (tb_cells st)"
    using d by (intro filter_cong) (auto simp: distinct_map inj_on_def)
  with delete_each_cell [OF assms, of ?cs] d that show ?thesis by (auto simp: delete_cells_def distinct_map_filter)
qed

text \<open>Columns no guard looks at.\<close>

definition inert_display :: "(topo_display \<Rightarrow> topo_display) \<Rightarrow> bool" where
  "inert_display f \<longleftrightarrow> (\<forall>x. td_id (f x) = td_id x \<and> td_user (f x) = td_user x \<and> td_workspace (f x) = td_workspace x
     \<and> td_wall (f x) = td_wall x)"

definition inert_wall :: "(topo_wall \<Rightarrow> topo_wall) \<Rightarrow> bool" where
  "inert_wall f \<longleftrightarrow> (\<forall>w. wr_id (f w) = wr_id w \<and> wr_workspace (f w) = wr_workspace w \<and> wr_leader (f w) = wr_leader w
     \<and> (0 < tw_cols w \<and> 0 < tw_rows w \<longrightarrow> 0 < tw_cols (f w) \<and> 0 < tw_rows (f w)))"

lemma sound_on_display:
  assumes "inert_display f"
  shows "sound_topology st \<Longrightarrow> sound_topology (on_display d f st)"
proof (rule soundI)
  assume s: "sound_topology st"
  note k = soundD [OF s]
  have f: "td_id (f x) = td_id x" "td_user (f x) = td_user x" "td_workspace (f x) = td_workspace x" "td_wall (f x) = td_wall x" for x
    using assms by (simp_all add: inert_display_def)
  show "member_ok (on_display d f st) e g" if "(e, g) \<in> set (tb_members (on_display d f st))" for e g
    using k(4) [of e g] that by (auto simp: member_ok_def f)
  show "cell_ok (on_display d f st) c" if "c \<in> set (tb_cells (on_display d f st))" for c
    using k(5) [of c] that by (auto simp: cell_ok_def f)
  show "0 < tw_cols w \<and> 0 < tw_rows w \<and> leader_ok (on_display d f st) w" if "wall_at i (on_display d f st) = Some w" for i w
    using k(6) that by simp
  show "display_ok (on_display d f st) x" if x: "display_at e (on_display d f st) = Some x" for e x
  proof -
    obtain y where y: "display_at e st = Some y" "td_wall x = td_wall y" "td_id x = td_id y" "td_user x = td_user y" "td_workspace x = td_workspace y" using x by (auto simp: f split: if_splits)
    have "display_ok st x = display_ok st y" unfolding display_ok_def y(2-5) ..
    with k(7) [OF y(1)] show ?thesis by simp
  qed
qed (use assms in \<open>simp_all add: soundD sound_keyed inert_display_def\<close>)

lemma sound_on_wall_row:
  assumes "inert_wall f"
  shows "sound_topology st \<Longrightarrow> sound_topology (on_wall_row w f st)"
proof (rule soundI)
  assume s: "sound_topology st"
  note k = soundD [OF s]
  have f: "wr_id (f x) = wr_id x" "wr_workspace (f x) = wr_workspace x" "wr_leader (f x) = wr_leader x" for x
    using assms by (simp_all add: inert_wall_def)
  show "member_ok (on_wall_row w f st) e g" if "(e, g) \<in> set (tb_members (on_wall_row w f st))" for e g
    using k(4) that by simp
  show "cell_ok (on_wall_row w f st) c" if "c \<in> set (tb_cells (on_wall_row w f st))" for c
    using k(5) [of c] that by (auto simp: cell_ok_def f)
  show "0 < tw_cols v \<and> 0 < tw_rows v \<and> leader_ok (on_wall_row w f st) v" if v: "wall_at i (on_wall_row w f st) = Some v" for i v
  proof -
    obtain u where u: "wall_at i st = Some u" "v = u \<or> v = f u" using v by (auto simp: f split: if_splits)
    moreover have "leader_ok st (f u) = leader_ok st u" unfolding leader_ok_def f ..
    ultimately show ?thesis using k(6) [OF u(1)] assms by (auto simp: inert_wall_def)
  qed
  show "display_ok (on_wall_row w f st) x" if "display_at e (on_wall_row w f st) = Some x" for e x
    using k(7) that by simp
qed (use assms in \<open>simp_all add: soundD sound_keyed inert_wall_def\<close>)

lemma sound_leader:
  assumes s: "sound_topology st" and "\<not> leader_refused w l st"
  shows "sound_topology (on_wall_row w (\<lambda>x. x\<lparr>wr_leader := l\<rparr>) st)"
proof (rule soundI)
  note k = soundD [OF s]
  let ?st = "on_wall_row w (\<lambda>x. x\<lparr>wr_leader := l\<rparr>) st"
  show "member_ok ?st e g" if "(e, g) \<in> set (tb_members ?st)" for e g using k(4) that by simp
  show "cell_ok ?st c" if "c \<in> set (tb_cells ?st)" for c using k(5) [of c] that by (auto simp: cell_ok_def)
  show "0 < tw_cols v \<and> 0 < tw_rows v \<and> leader_ok ?st v" if v: "wall_at i ?st = Some v" for i v
  proof (cases "i = w")
    case True
    then obtain u where u: "wall_at w st = Some u" "v = u\<lparr>wr_leader := l\<rparr>" using v by auto
    with k(6) [OF u(1)] assms(2) show ?thesis by (simp add: leader_ok_def leader_refused_def split: option.splits)
  next
    case False
    with v k(6) [of i v] show ?thesis by simp
  qed
  show "display_ok ?st x" if "display_at e ?st = Some x" for e x using k(7) that by simp
qed (use s in \<open>simp_all add: soundD sound_keyed\<close>)

lemma sound_update_leader:
  assumes "sound_topology st" "tb_guarded st" "update_leader w l st = Inr st'"
  shows "sound_topology st'"
  using assms sound_leader [OF assms(1)] by (auto simp: update_leader_def split: if_splits option.splits)

lemma sound_delete_members:
  assumes "sound_topology st"
  shows "sound_topology (delete_members P st)"
  using assms unfolding sound_topology_def delete_members_def
  by (auto simp: distinct_map_filter)

lemma sound_insert_membership:
  assumes s: "sound_topology st" and "tb_guarded st" "insert_membership d g st = Inr st'"
  shows "sound_topology st' \<and> tb_members st' = tb_members st @ [(d, g)] \<and> tb_cells st' = tb_cells st"
proof -
  note k = soundD [OF s]
  from assms(2,3) have free: "\<not> in_group d st" "\<not> on_wall d st" "(d, g) \<notin> set (tb_members st)"
    and st': "st' = st\<lparr>tb_members := tb_members st @ [(d, g)]\<rparr>"
    and b: "case display_at d st of None \<Rightarrow> True | Some x \<Rightarrow> td_wall x = None" "belongs d (case group_at g st of None \<Rightarrow> None | Some y \<Rightarrow> tg_workspace y) st"
    by (auto simp: insert_membership_def in_group_def list_ex_iff split: if_splits option.splits)
  have "member_ok st d g" using b free(2) by (auto simp: member_ok_def belongs_def on_wall_def list_ex_iff split: option.splits)
  moreover have "d \<notin> fst ` set (tb_members st)" using free(1) by (auto simp: in_group_def list_ex_iff)
  ultimately have "sound_topology st'"
    using s unfolding sound_topology_def st' by auto
  then show ?thesis by (simp add: st')
qed

lemma owned_grown: "schedule_owned st s \<Longrightarrow> schedule_owned (st\<lparr>tb_groups := tb_groups st @ [g]\<rparr>) s"
  by (auto simp: schedule_owned_def group_at_def find_append display_at_def split: schedule_owner.splits option.splits)

lemma group_at_grown: "group_at (tg_id g) st = None \<Longrightarrow> group_at i (st\<lparr>tb_groups := tb_groups st @ [g]\<rparr>) = (if i = tg_id g then Some g else group_at i st)"
  by (auto simp: group_at_def find_append split: option.splits)

lemma sound_insert_group:
  assumes s: "sound_topology st" and g: "tb_guarded st" and r: "insert_group g st = Inr st'"
  shows "sound_topology st' \<and> tb_guarded st'"
proof -
  from r g have st': "st' = st\<lparr>tb_groups := tb_groups st @ [g]\<rparr>" and new: "group_at (tg_id g) st = None" "\<not> blank_workspace (tg_workspace g)"
    "\<not> list_ex (same_name (tg_workspace g) (tg_name g)) (tb_groups st)"
    by (auto simp: insert_group_def split: if_splits)
  have "tg_workspace g \<noteq> None" using new(2) by (cases "tg_workspace g") (simp_all add: blank_workspace_def)
  then have "(tg_workspace g, name_key (tg_name g)) \<notin> (\<lambda>g. (tg_workspace g, name_key (tg_name g))) ` set (tb_groups st)"
    using new(3) by (auto simp: list_ex_iff same_name_def)
  then have "names_ok st'" using soundD(1) [OF s] new(2) by (simp add: names_ok_def st')
  moreover have "tg_id g \<notin> tg_id ` set (tb_groups st)" using new(1) by (simp add: group_at_def find_key_None)
  then have "keyed st'" using sound_keyed [OF s] by (simp add: keyed_def st')
  moreover have "member_ok st' d k" if "(d, k) \<in> set (tb_members st)" for d k
    using soundD(4) [OF s that] new(1) by (auto simp: member_ok_def st' group_at_grown)
  ultimately have "sound_topology st'" using s owned_grown unfolding sound_topology_def by (auto simp: st')
  then show ?thesis using g by (simp add: st')
qed

lemma group_at_update:
  "(\<And>x. tg_id (f x) = tg_id x) \<Longrightarrow> group_at j (st\<lparr>tb_groups := map (\<lambda>x. if tg_id x = i then f x else x) (tb_groups st)\<rparr>)
     = (if j = i then map_option f (group_at j st) else group_at j st)"
  by (auto simp: group_at_def find_map_key)

lemma distinct_map_update:
  assumes k: "distinct (map k xs)" and i: "distinct (map i xs)"
    and new: "\<And>x y. x \<in> set xs \<Longrightarrow> y \<in> set xs \<Longrightarrow> i y \<noteq> j \<Longrightarrow> i x = j \<Longrightarrow> k (f x) \<noteq> k y"
  shows "distinct (map k (map (\<lambda>x. if i x = j then f x else x) xs))"
proof -
  have "inj_on (\<lambda>x. k (if i x = j then f x else x)) (set xs)"
  proof (rule inj_onI)
    fix x y assume xy: "x \<in> set xs" "y \<in> set xs" "k (if i x = j then f x else x) = k (if i y = j then f y else y)"
    then show "x = y" using new [of x y] new [of y x] i k by (auto simp: distinct_map inj_on_def split: if_splits)
  qed
  with k show ?thesis by (simp add: distinct_map comp_def)
qed

lemma sound_update_group:
  assumes s: "sound_topology st" and g: "tb_guarded st" and f: "\<And>x. tg_id (f x) = tg_id x" "\<And>x. tg_workspace (f x) = tg_workspace x"
    and r: "update_group i f st = Inr st'"
  shows "sound_topology st' \<and> tb_guarded st'"
proof (cases "group_at i st")
  case None
  with r s g show ?thesis by (simp add: update_group_def)
next
  case (Some y)
  from r g Some have st': "st' = st\<lparr>tb_groups := map (\<lambda>x. if tg_id x = i then f x else x) (tb_groups st)\<rparr>"
    and new: "\<not> list_ex (\<lambda>x. tg_id x \<noteq> i \<and> same_name (tg_workspace (f y)) (tg_name (f y)) x) (tb_groups st)"
    by (auto simp: update_group_def split: if_splits)
  note k = sound_keyed [OF s] and n = soundD(1) [OF s]
  have y: "x = y" if "x \<in> set (tb_groups st)" "tg_id x = i" for x using that Some keyed_rows(2) [OF k, of i x] by simp
  have "distinct (map (\<lambda>g. (tg_workspace g, name_key (tg_name g))) (map (\<lambda>x. if tg_id x = i then f x else x) (tb_groups st)))"
  proof (rule distinct_map_update)
    fix x z assume z: "x \<in> set (tb_groups st)" "z \<in> set (tb_groups st)" "tg_id z \<noteq> i" "tg_id x = i"
    have "\<not> blank_workspace (tg_workspace z)" using n z(2) by (simp add: names_ok_def)
    then have "tg_workspace z \<noteq> None" by (cases "tg_workspace z") (simp_all add: blank_workspace_def)
    then show "(tg_workspace (f x), name_key (tg_name (f x))) \<noteq> (tg_workspace z, name_key (tg_name z))"
      using new z(2,3) y [OF z(1,4)] by (auto simp: list_ex_iff same_name_def)
  qed (use n k in \<open>simp_all add: names_ok_def keyed_def\<close>)
  then have "names_ok st'" using n by (auto simp: names_ok_def st' f)
  moreover have "map tg_id (tb_groups st') = map tg_id (tb_groups st)" "tb_displays st' = tb_displays st" "tb_walls st' = tb_walls st"
    by (simp_all add: st' f)
  then have "keyed st'" using k by (simp only: keyed_def)
  moreover have "member_ok st' d g" if "(d, g) \<in> set (tb_members st)" for d g
    using soundD(4) [OF s that] by (auto simp: member_ok_def st' group_at_update f)
  moreover have "schedule_owned st' = schedule_owned st"
    by (simp add: fun_eq_iff schedule_owned_def st' group_at_update f split: schedule_owner.split)
  ultimately have "sound_topology st'" using s unfolding sound_topology_def by (auto simp: st')
  then show ?thesis using g by (simp add: st')
qed

lemma sound_delete_group:
  assumes s: "sound_topology st" and r: "delete_group i st = Inr st'"
  shows "sound_topology st' \<and> tb_guarded st' = tb_guarded st"
proof (cases "group_at i st")
  case None
  then show ?thesis using s r by (simp add: delete_group_def)
next
  case (Some y)
  then have st': "st' = st\<lparr>tb_groups := filter (\<lambda>g. tg_id g \<noteq> i) (tb_groups st), tb_members := filter (\<lambda>m. snd m \<noteq> i) (tb_members st)\<rparr>"
    and free: "\<forall>s \<in> set (tb_schedules st). ts_owner s \<noteq> OfGroup i" using r by (auto simp: delete_group_def list_ex_iff split: if_splits)
  have g: "group_at j st' = (if j = i then None else group_at j st)" for j
    by (simp add: group_at_def st' find_filter_key)
  have "keyed st'" "names_ok st'"
    using sound_keyed [OF s] soundD(1) [OF s] by (auto simp: keyed_def names_ok_def st' distinct_map_filter)
  moreover have "member_ok st' d k" if "(d, k) \<in> set (tb_members st)" "k \<noteq> i" for d k
    using that soundD(4) [OF s that(1)] by (auto simp: member_ok_def g) (simp_all add: st')
  moreover have "cell_ok st' = cell_ok st" "leader_ok st' = leader_ok st" "display_ok st' = display_ok st"
    by (simp_all add: st')
  moreover have "schedule_owned st' p" if "p \<in> set (tb_schedules st)" for p
  proof -
    have "ts_owner p \<noteq> OfGroup i" "schedule_owned st p" using free soundD(9) [OF s] that by auto
    then show ?thesis by (auto simp: schedule_owned_def g split: schedule_owner.splits) (simp add: st')
  qed
  ultimately show ?thesis using s unfolding sound_topology_def by (auto simp: st' distinct_map_filter)
qed

lemma wall_at_grown: "wall_at (wr_id w) st = None \<Longrightarrow> wall_at i (st\<lparr>tb_walls := tb_walls st @ [w]\<rparr>) = (if i = wr_id w then Some w else wall_at i st)"
  by (auto simp: wall_at_def find_append split: option.splits)

lemma sound_insert_wall:
  assumes s: "sound_topology st" and g: "tb_guarded st" and r: "insert_wall w st = Inr st'"
  shows "sound_topology st' \<and> tb_guarded st'"
proof -
  from r g have st': "st' = st\<lparr>tb_walls := tb_walls st @ [w]\<rparr>" and new: "wall_at (wr_id w) st = None" "wr_leader w = None" "0 < tw_cols w" "0 < tw_rows w"
    by (auto simp: insert_wall_def split: if_splits)
  have "cells_of (wr_id w) st = []"
  proof -
    have "tc_wall c \<noteq> wr_id w" if "c \<in> set (tb_cells st)" for c
      by (rule sound_cellD [OF s that]) (use new(1) in auto)
    then show ?thesis by (simp add: cells_of_def filter_empty_conv)
  qed
  then have "leader_ok st' w" by (simp add: leader_ok_def new(2) st')
  moreover have "wr_id w \<notin> wr_id ` set (tb_walls st)" using new(1) by (simp add: wall_at_def find_key_None)
  then have "keyed st'" using sound_keyed [OF s] by (simp add: keyed_def st')
  moreover have "cell_ok st' c" if "c \<in> set (tb_cells st)" for c
    using soundD(5) [OF s that] new(1) by (auto simp: cell_ok_def st' wall_at_grown)
  moreover have "names_ok st'" using soundD(1) [OF s] by (simp add: names_ok_def st')
  ultimately have "sound_topology st'" using s new(3,4) unfolding sound_topology_def by (auto simp: st')
  then show ?thesis using g by (simp add: st')
qed

lemma sound_update_dimensions:
  assumes "sound_topology st" "tb_guarded st" "update_dimensions i cols rows st = Inr st'"
  shows "sound_topology st' \<and> tb_guarded st'"
proof (cases "wall_at i st = None")
  case False
  then have "st' = on_wall_row i (\<lambda>w. w\<lparr>tw_cols := cols, tw_rows := rows\<rparr>) st" "0 < cols" "0 < rows"
    using assms(2,3) by (auto simp: update_dimensions_def split: if_splits)
  moreover have "inert_wall (\<lambda>w. w\<lparr>tw_cols := cols, tw_rows := rows\<rparr>)" using calculation(2,3) by (simp add: inert_wall_def)
  ultimately show ?thesis using sound_on_wall_row assms(1,2) by simp
qed (use assms in \<open>simp add: update_dimensions_def\<close>)

text \<open>The schedules and the playlists do not matter to the rest.\<close>

lemma side_tables [simp]:
  "display_at d (st\<lparr>tb_schedules := ss\<rparr>) = display_at d st" "group_at g (st\<lparr>tb_schedules := ss\<rparr>) = group_at g st"
  "wall_at w (st\<lparr>tb_schedules := ss\<rparr>) = wall_at w st" "cells_of w (st\<lparr>tb_schedules := ss\<rparr>) = cells_of w st"
  "has_cell w d (st\<lparr>tb_schedules := ss\<rparr>) = has_cell w d st" "on_wall d (st\<lparr>tb_schedules := ss\<rparr>) = on_wall d st"
  "in_group d (st\<lparr>tb_schedules := ss\<rparr>) = in_group d st" "first_member w (st\<lparr>tb_schedules := ss\<rparr>) = first_member w st"
  "keyed (st\<lparr>tb_schedules := ss\<rparr>) = keyed st" "names_ok (st\<lparr>tb_schedules := ss\<rparr>) = names_ok st"
  "walls_of_display d (st\<lparr>tb_schedules := ss\<rparr>) = walls_of_display d st" "groups_of_display d (st\<lparr>tb_schedules := ss\<rparr>) = groups_of_display d st"
  "display_at d (st\<lparr>tb_playlists := ps\<rparr>) = display_at d st" "group_at g (st\<lparr>tb_playlists := ps\<rparr>) = group_at g st"
  "wall_at w (st\<lparr>tb_playlists := ps\<rparr>) = wall_at w st" "cells_of w (st\<lparr>tb_playlists := ps\<rparr>) = cells_of w st"
  "has_cell w d (st\<lparr>tb_playlists := ps\<rparr>) = has_cell w d st" "on_wall d (st\<lparr>tb_playlists := ps\<rparr>) = on_wall d st"
  "in_group d (st\<lparr>tb_playlists := ps\<rparr>) = in_group d st" "first_member w (st\<lparr>tb_playlists := ps\<rparr>) = first_member w st"
  "keyed (st\<lparr>tb_playlists := ps\<rparr>) = keyed st" "names_ok (st\<lparr>tb_playlists := ps\<rparr>) = names_ok st"
  "walls_of_display d (st\<lparr>tb_playlists := ps\<rparr>) = walls_of_display d st" "groups_of_display d (st\<lparr>tb_playlists := ps\<rparr>) = groups_of_display d st"
  by (simp_all add: display_at_def group_at_def wall_at_def cells_of_def has_cell_def on_wall_def in_group_def first_member_def keyed_def
      names_ok_def walls_of_display_def groups_of_display_def)

lemma side_tables_ok [simp]:
  "member_ok (st\<lparr>tb_schedules := ss\<rparr>) = member_ok st" "cell_ok (st\<lparr>tb_schedules := ss\<rparr>) = cell_ok st"
  "leader_ok (st\<lparr>tb_schedules := ss\<rparr>) = leader_ok st" "display_ok (st\<lparr>tb_schedules := ss\<rparr>) = display_ok st"
  "schedule_owned (st\<lparr>tb_schedules := ss\<rparr>) = schedule_owned st" "member_ok (st\<lparr>tb_playlists := ps\<rparr>) = member_ok st"
  "cell_ok (st\<lparr>tb_playlists := ps\<rparr>) = cell_ok st" "leader_ok (st\<lparr>tb_playlists := ps\<rparr>) = leader_ok st"
  "display_ok (st\<lparr>tb_playlists := ps\<rparr>) = display_ok st" "schedule_owned (st\<lparr>tb_playlists := ps\<rparr>) = schedule_owned st"
  by (simp_all add: fun_eq_iff member_ok_def cell_ok_def leader_ok_def display_ok_def schedule_owned_def split: option.split schedule_owner.split)

lemma sound_side_tables:
  "sound_topology st \<Longrightarrow> \<forall>s \<in> set ss. schedule_owned st s \<Longrightarrow> sound_topology (st\<lparr>tb_schedules := ss\<rparr>)"
  "sound_topology (st\<lparr>tb_playlists := ps\<rparr>) = sound_topology st"
  unfolding sound_topology_def by simp_all

lemma sound_insert_display:
  assumes s: "sound_topology st" and "display_at (td_id x) st = None" "td_wall x = None" "td_user x = None \<longrightarrow> td_workspace x = None"
  shows "sound_topology (st\<lparr>tb_displays := tb_displays st @ [x]\<rparr>)"
proof -
  let ?st = "st\<lparr>tb_displays := tb_displays st @ [x]\<rparr>"
  have at: "display_at d ?st = (if d = td_id x then Some x else display_at d st)" for d
    using assms(2) by (auto simp: display_at_def find_append split: option.splits)
  have "td_id x \<notin> td_id ` set (tb_displays st)" using assms(2) by (simp add: display_at_def find_key_None)
  then have "keyed ?st" using sound_keyed [OF s] by (simp add: keyed_def)
  moreover have "names_ok ?st" using soundD(1) [OF s] by (simp add: names_ok_def)
  moreover have "member_ok ?st d g" if "(d, g) \<in> set (tb_members st)" for d g
    using soundD(4) [OF s that] assms(2) by (auto simp: member_ok_def at)
  moreover have "cell_ok ?st c" if "c \<in> set (tb_cells st)" for c
    using soundD(5) [OF s that] assms(2) by (auto simp: cell_ok_def at)
  moreover have "display_ok ?st x" using assms(3,4) by (simp add: display_ok_def)
  moreover have "schedule_owned ?st p" if "schedule_owned st p" for p
    using that by (auto simp: schedule_owned_def at split: schedule_owner.splits)
  ultimately show ?thesis using s unfolding sound_topology_def by auto
qed

end
