(* ===== verification/TopologyRoutes.thy ===== *)
theory TopologyRoutes
  imports Topology
begin

text \<open>
  The requests that change the topology: membership checks (\<open>server/lib/topology-membership.js\<close>), the playlists that displays
  get when walls and groups change (\<open>server/lib/wall-playlists.js\<close>), device groups (\<open>server/routes/device-groups.js\<close>),
  video walls (\<open>server/routes/video-walls.js\<close>) and the removal of a display (\<open>server/routes/devices.js\<close>).

  A request is answered with a status and a code, or changes the tables; a transaction that is aborted changes nothing. The
  body of a request is a record of the fields the handler reads, \<open>None\<close> for one that is missing. Whether the caller may write
  in a workspace is the parameter \<open>can\<close> (the tenancy check), and the identifiers a request draws are the parameter \<open>uid\<close>.
\<close>

type_synonym 'a reply = "(nat \<times> string) + 'a"

definition aborted :: "nat \<Rightarrow> 'a outcome \<Rightarrow> 'a reply" where
  "aborted status m = (case m of Inl e \<Rightarrow> Inl (status, ''aborted'') | Inr x \<Rightarrow> Inr x)"

subsection \<open>Membership\<close>

fun least_text :: "string list \<Rightarrow> string option" where
  "least_text [] = None"
| "least_text (s # ss) = (case least_text ss of None \<Rightarrow> Some s | Some t \<Rightarrow> if text_before t s then Some t else Some s)"

definition wall_membership_for :: "string \<Rightarrow> topology_db \<Rightarrow> string option" where
  "wall_membership_for d st =
     (case least_text (walls_of_display d st) of Some w \<Rightarrow> Some w
      | None \<Rightarrow> (case display_at d st of None \<Rightarrow> None
          | Some x \<Rightarrow> (case td_wall x of None \<Rightarrow> None | Some w \<Rightarrow> if w = [] then None else Some w)))"

fun insert_text :: "string \<Rightarrow> string list \<Rightarrow> string list" where
  "insert_text s [] = [s]"
| "insert_text s (t # ts) = (if text_before t s then t # insert_text s ts else s # t # ts)"

definition group_memberships_for :: "string \<Rightarrow> topology_db \<Rightarrow> string list" where
  "group_memberships_for d st = foldr insert_text (groups_of_display d st) []"

definition assert_can_join_group :: "string \<Rightarrow> string \<Rightarrow> topology_db \<Rightarrow> bool reply" where
  "assert_can_join_group d g st =
     (if (case wall_membership_for d st of None \<Rightarrow> False | Some w \<Rightarrow> w \<noteq> []) then Inl (409, ''DEVICE_ALREADY_IN_WALL'')
      else if list_ex (\<lambda>i. i \<noteq> g) (group_memberships_for d st) then Inl (409, ''DEVICE_ALREADY_IN_GROUP'')
      else Inr (g \<in> set (group_memberships_for d st)))"

definition assert_can_join_wall :: "string \<Rightarrow> string \<Rightarrow> topology_db \<Rightarrow> string list reply" where
  "assert_can_join_wall d w st =
     (case wall_membership_for d st of
        Some v \<Rightarrow> if v \<noteq> [] \<and> v \<noteq> w then Inl (409, ''DEVICE_ALREADY_IN_WALL'') else Inr (group_memberships_for d st)
      | None \<Rightarrow> Inr (group_memberships_for d st))"

subsection \<open>Playlists\<close>

definition playlist_at :: "string \<Rightarrow> topology_db \<Rightarrow> topo_playlist option" where
  "playlist_at p st = find (\<lambda>x. py_id x = p) (tb_playlists st)"

definition set_playlist :: "string option \<Rightarrow> string \<Rightarrow> topology_db \<Rightarrow> topology_db" where
  "set_playlist p d st = on_display d (\<lambda>x. x\<lparr>td_playlist := p\<rparr>) st"

definition playlist_of :: "string \<Rightarrow> topology_db \<Rightarrow> string option" where
  "playlist_of d st = (case display_at d st of None \<Rightarrow> None | Some x \<Rightarrow> td_playlist x)"

definition given :: "string option \<Rightarrow> string option" where
  \<comment> \<open>\<open>v || null\<close> for a text\<close>
  "given v = (case v of None \<Rightarrow> None | Some s \<Rightarrow> if s = [] then None else Some s)"

definition clone_item :: "jsval \<Rightarrow> jsval" where
  "clone_item i = JObj [(''content_id'', js_or (fld i ''content_id'') JNull), (''widget_id'', js_or (fld i ''widget_id'') JNull),
     (''zone_id'', js_or (fld i ''zone_id'') JNull), (''sort_order'', js_or (fld i ''sort_order'') (jint 0)),
     (''duration_sec'', js_or (fld i ''duration_sec'') (jint 10)),
     (''fit_mode'', if is_nullish (fld i ''fit_mode'') then JNull else fld i ''fit_mode'')]"

definition held_items :: "topo_display \<Rightarrow> topology_db \<Rightarrow> jsval list" where
  "held_items x st = (case given (td_playlist x) of None \<Rightarrow> []
     | Some p \<Rightarrow> (case playlist_at p st of None \<Rightarrow> [] | Some y \<Rightarrow> py_items y))"

definition clone_playlist_for_device :: "string \<Rightarrow> string \<Rightarrow> topo_display \<Rightarrow> topology_db \<Rightarrow> topology_db outcome" where
  "clone_playlist_for_device fresh d x st =
     (let row = \<lparr>py_id = fresh, py_auto = True, py_workspace = given (td_workspace x), py_items = map clone_item (held_items x st)\<rparr>
      in if playlist_at fresh st \<noteq> None then Inl NotUnique
         else Inr (set_playlist (Some fresh) d (st\<lparr>tb_playlists := tb_playlists st @ [row]\<rparr>)))"

definition playlist_is_exclusive :: "string \<Rightarrow> string set \<Rightarrow> topology_db \<Rightarrow> bool" where
  "playlist_is_exclusive p ds st \<longleftrightarrow> list_all (\<lambda>x. td_playlist x = Some p \<longrightarrow> td_id x \<in> ds) (tb_displays st)"

definition split_wall_source :: "string \<Rightarrow> string \<Rightarrow> topology_db \<Rightarrow> bool" where
  \<comment> \<open>the playlist of the split wall the display is on\<close>
  "split_wall_source d p st =
     (case find (\<lambda>c. tc_device c = d) (tb_cells st) of None \<Rightarrow> False
      | Some c \<Rightarrow> (case wall_at (tc_wall c) st of None \<Rightarrow> False | Some w \<Rightarrow> wr_mode w = Some ''split'' \<and> wr_playlist w = Some p))"

definition ensure_device_playlist :: "string \<Rightarrow> string set \<Rightarrow> string \<Rightarrow> topology_db \<Rightarrow> topology_db outcome" where
  "ensure_device_playlist fresh mutable d st =
     (case display_at d st of None \<Rightarrow> Inr st
      | Some x \<Rightarrow>
          (case given (td_playlist x) of None \<Rightarrow> clone_playlist_for_device fresh d x st
           | Some p \<Rightarrow>
               (case playlist_at p st of None \<Rightarrow> clone_playlist_for_device fresh d x st
                | Some y \<Rightarrow>
                    if \<not> split_wall_source d p st \<and> py_auto y \<and> playlist_is_exclusive p (insert d mutable) st then Inr st
                    else clone_playlist_for_device fresh d x st)))"

subsection \<open>Device groups\<close>

definition load_group :: "(string \<Rightarrow> bool) \<Rightarrow> string \<Rightarrow> topology_db \<Rightarrow> topo_group reply" where
  "load_group can i st =
     (case group_at i st of None \<Rightarrow> Inl (404, ''group not found'')
      | Some g \<Rightarrow> (case given (tg_workspace g) of None \<Rightarrow> Inl (403, ''Group not assigned to a workspace'')
          | Some ws \<Rightarrow> if can ws then Inr g else Inl (403, ''Access denied'')))"

definition color_digit :: "char \<Rightarrow> bool" where
  "color_digit c \<longleftrightarrow> 48 \<le> code c \<and> code c \<le> 57 \<or> 65 \<le> code c \<and> code c \<le> 70 \<or> 97 \<le> code c \<and> code c \<le> 102"

definition group_color_ok :: "string \<Rightarrow> bool" where
  "group_color_ok s \<longleftrightarrow> length s = 7 \<and> take 1 s = ''#'' \<and> list_all color_digit (drop 1 s)"

definition create_group :: "string \<Rightarrow> string \<Rightarrow> string option \<Rightarrow> string option \<Rightarrow> string option \<Rightarrow> topology_db \<Rightarrow> topology_db reply" where
  "create_group fresh user ws name color st =
     (case given ws of None \<Rightarrow> Inl (403, ''No workspace context'')
      | Some w \<Rightarrow> (case given name of None \<Rightarrow> Inl (400, ''name required'')
          | Some n \<Rightarrow>
              if (case given color of None \<Rightarrow> False | Some c \<Rightarrow> \<not> group_color_ok c) then Inl (400, ''invalid color format'')
              else aborted 500 (insert_group \<lparr>tg_id = fresh, tg_user = user, tg_workspace = Some w, tg_name = n,
                     tg_color = (case given color of None \<Rightarrow> ''#3B82F6'' | Some c \<Rightarrow> c), tg_playlist = None\<rparr> st)))"

definition edit_group :: "(string \<Rightarrow> bool) \<Rightarrow> string \<Rightarrow> string option \<Rightarrow> string option \<Rightarrow> topology_db \<Rightarrow> topology_db reply" where
  "edit_group can i name color st =
     (case load_group can i st of Inl e \<Rightarrow> Inl e | Inr g \<Rightarrow>
        if (case given color of None \<Rightarrow> False | Some c \<Rightarrow> \<not> group_color_ok c) then Inl (400, ''invalid color format'')
        else (case aborted 500 (case given name of None \<Rightarrow> Inr st | Some n \<Rightarrow> update_group i (\<lambda>x. x\<lparr>tg_name := n\<rparr>) st) of
            Inl e \<Rightarrow> Inl e
          | Inr st1 \<Rightarrow> Inr (case given color of None \<Rightarrow> st1
              | Some c \<Rightarrow> st1\<lparr>tb_groups := map (\<lambda>x. if tg_id x = i then x\<lparr>tg_color := c\<rparr> else x) (tb_groups st1)\<rparr>)))"

text \<open>The schedules of a group become one for each of its members before the group goes.\<close>

definition converted_schedules :: "(string \<Rightarrow> string \<Rightarrow> string) \<Rightarrow> string \<Rightarrow> topology_db \<Rightarrow> topo_schedule list" where
  "converted_schedules uid i st = concat (map (\<lambda>s. map (\<lambda>m. s\<lparr>ts_id := uid (ts_id s) (fst m), ts_owner := OfDisplay (fst m)\<rparr>)
     (filter (\<lambda>m. snd m = i) (tb_members st))) (filter (\<lambda>s. ts_owner s = OfGroup i) (tb_schedules st)))"

definition insert_owned_schedule :: "topo_schedule \<Rightarrow> topology_db \<Rightarrow> topology_db outcome" where
  "insert_owned_schedule s st =
     (if list_ex (\<lambda>x. ts_id x = ts_id s) (tb_schedules st) then Inl NotUnique
      else if \<not> schedule_owned st s then Inl NoSuchRow
      else Inr (st\<lparr>tb_schedules := tb_schedules st @ [s]\<rparr>))"

definition remove_group :: "(string \<Rightarrow> bool) \<Rightarrow> (string \<Rightarrow> string \<Rightarrow> string) \<Rightarrow> string \<Rightarrow> topology_db \<Rightarrow> topology_db reply" where
  "remove_group can uid i st =
     (case load_group can i st of Inl e \<Rightarrow> Inl e | Inr g \<Rightarrow>
        aborted 500 (when_ok (for_each insert_owned_schedule (converted_schedules uid i st) st)
          (\<lambda>st1. delete_group i (st1\<lparr>tb_schedules := filter (\<lambda>s. ts_owner s \<noteq> OfGroup i) (tb_schedules st1)\<rparr>))))"

definition join_group :: "(string \<Rightarrow> bool) \<Rightarrow> string \<Rightarrow> string option \<Rightarrow> topology_db \<Rightarrow> topology_db reply" where
  "join_group can i dev st =
     (case load_group can i st of Inl e \<Rightarrow> Inl e | Inr g \<Rightarrow>
        (case given dev of None \<Rightarrow> Inl (400, ''device_id required'')
         | Some d \<Rightarrow> (case display_at d st of None \<Rightarrow> Inl (404, ''Device not found'')
             | Some x \<Rightarrow>
                 if td_workspace x \<noteq> tg_workspace g then Inl (403, ''Device is not in this group's workspace'')
                 else (case assert_can_join_group d i st of Inl e \<Rightarrow> Inl e | Inr already \<Rightarrow>
                   (case aborted 400 (insert_membership d i st) of Inl e \<Rightarrow> Inl e
                    | Inr st1 \<Rightarrow> Inr (set_playlist (given (tg_playlist g)) d st1))))))"

text \<open>The playlist that the remaining groups of a display imply: of those with one first, by name.\<close>

definition group_first :: "topo_group \<Rightarrow> topo_group \<Rightarrow> bool" where
  "group_first a b \<longleftrightarrow> (tg_playlist a \<noteq> None \<and> tg_playlist b = None) \<or>
     ((tg_playlist a = None) = (tg_playlist b = None) \<and> text_before (tg_name a) (tg_name b))"

fun first_group :: "topo_group list \<Rightarrow> topo_group option" where
  "first_group [] = None"
| "first_group (g # gs) = (case first_group gs of None \<Rightarrow> Some g | Some h \<Rightarrow> if group_first h g then Some h else Some g)"

definition implied_playlist :: "string \<Rightarrow> topology_db \<Rightarrow> string option" where
  "implied_playlist d st = (case first_group (filter (\<lambda>g. (d, tg_id g) \<in> set (tb_members st)) (tb_groups st)) of
     None \<Rightarrow> None | Some g \<Rightarrow> given (tg_playlist g))"

definition leave_group :: "(string \<Rightarrow> bool) \<Rightarrow> string \<Rightarrow> string \<Rightarrow> topology_db \<Rightarrow> topology_db reply" where
  "leave_group can i d st =
     (case load_group can i st of Inl e \<Rightarrow> Inl e | Inr g \<Rightarrow>
        (let st1 = delete_members (\<lambda>m. m = (d, i)) st in Inr (set_playlist (implied_playlist d st1) d st1)))"

definition assign_group_playlist :: "(string \<Rightarrow> bool) \<Rightarrow> string \<Rightarrow> string option \<Rightarrow> topology_db \<Rightarrow> topology_db reply" where
  "assign_group_playlist can i playlist st =
     (case load_group can i st of Inl e \<Rightarrow> Inl e | Inr g \<Rightarrow>
        (case given playlist of None \<Rightarrow> Inl (400, ''playlist_id required'')
         | Some p \<Rightarrow> (case playlist_at p st of None \<Rightarrow> Inl (404, ''Playlist not found'')
             | Some y \<Rightarrow>
                 if given (py_workspace y) \<noteq> None \<and> py_workspace y \<noteq> tg_workspace g then Inl (403, ''Playlist is not in this group's workspace'')
                 else Inr (fold (set_playlist (Some p)) (map fst (filter (\<lambda>m. snd m = i) (tb_members st)))
                        (st\<lparr>tb_groups := map (\<lambda>x. if tg_id x = i then x\<lparr>tg_playlist := Some p\<rparr> else x) (tb_groups st)\<rparr>)))))"

subsection \<open>Walls\<close>

definition load_wall_row :: "(string \<Rightarrow> bool) \<Rightarrow> string \<Rightarrow> topology_db \<Rightarrow> topo_wall reply" where
  "load_wall_row can i st =
     (case wall_at i st of None \<Rightarrow> Inl (404, ''Wall not found'')
      | Some w \<Rightarrow> (case given (wr_workspace w) of None \<Rightarrow> Inl (403, ''Wall not assigned to a workspace'')
          | Some ws \<Rightarrow> if can ws then Inr w else Inl (403, ''Access denied'')))"

text \<open>The revision of a wall, and the one after it.\<close>

definition wall_revision :: "topo_wall \<Rightarrow> jsnum" where
  "wall_revision w = number_or_zero (wr_revision w)"

definition next_wall_revision :: "topo_wall \<Rightarrow> jsnum" where
  "next_wall_revision w = (case wall_revision w of Fin r \<Rightarrow> Fin (r + 1) | n \<Rightarrow> n)"

definition revision_check :: "jsval \<Rightarrow> topo_wall \<Rightarrow> (nat \<times> string) option" where
  "revision_check expected w =
     (if is_nullish expected then Some (428, ''EXPECTED_REVISION_REQUIRED'')
      else if to_num expected \<noteq> wall_revision w \<or> to_num expected = NaN then Some (409, ''LAYOUT_REVISION_CONFLICT'')
      else None)"

definition create_wall :: "(string \<Rightarrow> bool) \<Rightarrow> string \<Rightarrow> string option \<Rightarrow> string option \<Rightarrow> int option \<Rightarrow> int option \<Rightarrow> string option
    \<Rightarrow> topology_db \<Rightarrow> topology_db reply" where
  "create_wall can fresh ws name cols rows playlist st =
     (case given ws of None \<Rightarrow> Inl (400, ''No active workspace'')
      | Some v \<Rightarrow>
          if \<not> can v then Inl (403, ''Access denied'')
          else (case given name of None \<Rightarrow> Inl (400, ''name required'')
            | Some n \<Rightarrow>
                if (case given playlist of None \<Rightarrow> False | Some p \<Rightarrow> playlist_at p st = None) then Inl (404, ''Playlist not found'')
                else if (case given playlist of None \<Rightarrow> False
                    | Some p \<Rightarrow> (case playlist_at p st of None \<Rightarrow> False | Some y \<Rightarrow> py_workspace y \<noteq> Some v))
                  then Inl (403, ''Playlist is not in this workspace'')
                else aborted 500 (insert_wall \<lparr>wr_id = fresh, wr_mode = Some ''span'', wr_revision = jint 0, wr_json = NoLayout, wr_leader = None,
                       wr_playlist = given playlist, wr_workspace = Some v, tw_name = n,
                       tw_cols = (case cols of None \<Rightarrow> 2 | Some c \<Rightarrow> if c = 0 then 2 else c),
                       tw_rows = (case rows of None \<Rightarrow> 1 | Some r \<Rightarrow> if r = 0 then 1 else r), tw_locked = False\<rparr> st)))"

text \<open>The body of a wall update: a missing field is \<open>None\<close>, one that is set to null \<open>Some None\<close>. The remaining fields of the
  geometry (bezels, screens, player rectangle) only count as present.\<close>

record wall_change =
  wc_name :: "string option"
  wc_cols :: "int option"
  wc_rows :: "int option"
  wc_leader :: "string option option"
  wc_playlist :: "string option option"
  wc_mode :: "string option"
  wc_geometry :: bool
  wc_expected :: jsval

definition structural :: "wall_change \<Rightarrow> bool" where
  "structural b \<longleftrightarrow> wc_name b \<noteq> None \<or> wc_cols b \<noteq> None \<or> wc_rows b \<noteq> None \<or> wc_leader b \<noteq> None \<or> wc_geometry b"

definition topology_touched :: "wall_change \<Rightarrow> bool" where
  "topology_touched b \<longleftrightarrow> wc_cols b \<noteq> None \<or> wc_rows b \<noteq> None \<or> wc_leader b \<noteq> None \<or> wc_mode b \<noteq> None \<or> wc_geometry b"

definition given_or :: "'a option \<Rightarrow> 'a \<Rightarrow> 'a" where
  "given_or v x = (case v of None \<Rightarrow> x | Some y \<Rightarrow> y)"

definition changed_wall :: "wall_change \<Rightarrow> topo_wall \<Rightarrow> topo_wall" where
  "changed_wall b w =
     (let w1 = w\<lparr>tw_name := given_or (wc_name b) (tw_name w), tw_cols := given_or (wc_cols b) (tw_cols w),
            tw_rows := given_or (wc_rows b) (tw_rows w), wr_leader := given_or (wc_leader b) (wr_leader w),
            wr_playlist := given_or (wc_playlist b) (wr_playlist w),
            wr_mode := (case wc_mode b of None \<Rightarrow> wr_mode w | Some m \<Rightarrow> Some m)\<rparr>
      in if topology_touched b then w1\<lparr>wr_json := NoLayout, wr_revision := JNum (next_wall_revision w)\<rparr> else w1)"

definition update_wall_row :: "string \<Rightarrow> wall_change \<Rightarrow> topo_wall \<Rightarrow> topology_db \<Rightarrow> topology_db outcome" where
  "update_wall_row i b w st =
     (if tb_guarded st \<and> (wc_cols b \<noteq> None \<or> wc_rows b \<noteq> None) \<and> (tw_cols (changed_wall b w) \<le> 0 \<or> tw_rows (changed_wall b w) \<le> 0)
        then Inl BadDimensions
      else if tb_guarded st \<and> wc_leader b \<noteq> None \<and> leader_refused i (wr_leader (changed_wall b w)) st then Inl LeaderNoMember
      else if (case wr_leader (changed_wall b w) of None \<Rightarrow> False | Some d \<Rightarrow> wc_leader b \<noteq> None \<and> display_at d st = None) then Inl NoSuchRow
      else if (case wr_playlist (changed_wall b w) of None \<Rightarrow> False | Some p \<Rightarrow> wc_playlist b \<noteq> None \<and> playlist_at p st = None) then Inl NoSuchRow
      else Inr (on_wall_row i (changed_wall b) st))"

definition members_of_row :: "string \<Rightarrow> topology_db \<Rightarrow> string list" where
  "members_of_row i st = map tc_device (cells_of i st)"

definition change_refused :: "wall_change \<Rightarrow> topo_wall \<Rightarrow> topology_db \<Rightarrow> (nat \<times> string) option" where
  "change_refused b w st =
     (if tw_locked w \<and> structural b then Some (423, ''PROTECTED_WALL'')
      else if (case wc_playlist b of Some (Some p) \<Rightarrow> p \<noteq> [] \<and> playlist_at p st = None | _ \<Rightarrow> False) then Some (404, ''Playlist not found'')
      else if (case wc_playlist b of Some (Some p) \<Rightarrow> p \<noteq> [] \<and>
          (case playlist_at p st of None \<Rightarrow> False | Some y \<Rightarrow> py_workspace y \<noteq> wr_workspace w) | _ \<Rightarrow> False)
        then Some (403, ''Playlist is not in this workspace'')
      else if (case wc_leader b of Some (Some d) \<Rightarrow> d \<noteq> [] \<and> display_at d st = None | _ \<Rightarrow> False) then Some (404, ''Leader device not found'')
      else if (case wc_leader b of Some (Some d) \<Rightarrow> d \<noteq> [] \<and>
          (case display_at d st of None \<Rightarrow> False | Some x \<Rightarrow> td_workspace x \<noteq> wr_workspace w) | _ \<Rightarrow> False)
        then Some (403, ''Leader device is not in this workspace'')
      else if topology_touched b then revision_check (wc_expected b) w else None)"

definition share_playlist :: "string option \<Rightarrow> string \<Rightarrow> topology_db \<Rightarrow> topology_db" where
  "share_playlist p i st = fold (set_playlist p) (members_of_row i st) st"

text \<open>What the members play after an update: the playlist of the wall, or one of their own on a split wall.\<close>

definition follow_change :: "(string \<Rightarrow> string) \<Rightarrow> string \<Rightarrow> wall_change \<Rightarrow> topo_wall \<Rightarrow> topology_db \<Rightarrow> topology_db outcome" where
  "follow_change uid i b w st =
     (let mode = given_or (wc_mode b) (case wr_mode w of None \<Rightarrow> ''span'' | Some m \<Rightarrow> if m = [] then ''span'' else m);
          st1 = (if wc_playlist b \<noteq> None \<and> mode \<noteq> ''split'' then share_playlist (given (given_or (wc_playlist b) None)) i st else st)
      in when_ok (if mode = ''split'' then for_each (\<lambda>d. ensure_device_playlist (uid d) {} d) (members_of_row i st1) st1 else Inr st1)
           (\<lambda>st2. Inr (if wc_mode b = Some ''span'' then share_playlist (given (given_or (wc_playlist b) (wr_playlist w))) i st2 else st2)))"

definition change_wall :: "(string \<Rightarrow> bool) \<Rightarrow> (string \<Rightarrow> string) \<Rightarrow> string \<Rightarrow> wall_change \<Rightarrow> topology_db \<Rightarrow> topology_db reply" where
  "change_wall can uid i b st =
     (case load_wall_row can i st of Inl e \<Rightarrow> Inl e | Inr w \<Rightarrow>
        (case change_refused b w st of Some e \<Rightarrow> Inl e
         | None \<Rightarrow> aborted 500 (when_ok (update_wall_row i b w st) (follow_change uid i b w))))"

text \<open>The panels of a wall as the request asks for them.\<close>

definition cell_facts :: "topo_cell \<Rightarrow> string \<times> int \<times> int \<times> int \<times> (rat option \<times> rat option \<times> rat option \<times> rat option)" where
  "cell_facts c = (tc_device c, tc_col c, tc_row c, tc_rotation c, tc_canvas c)"

fun joins_refused :: "topo_wall \<Rightarrow> topo_cell list \<Rightarrow> topology_db \<Rightarrow> (nat \<times> string) option" where
  "joins_refused w [] st = None"
| "joins_refused w (c # cs) st =
     (case display_at (tc_device c) st of None \<Rightarrow> Some (404, ''Device not found'')
      | Some x \<Rightarrow>
          if td_workspace x \<noteq> wr_workspace w then Some (403, ''Device is not in this workspace'')
          else (case assert_can_join_wall (tc_device c) (wr_id w) st of Inl e \<Rightarrow> Some e | Inr gs \<Rightarrow> joins_refused w cs st))"

definition top_left :: "topo_cell \<Rightarrow> rat" where
  "top_left c = (case tc_canvas c of (x, y, r) \<Rightarrow> given_or x 0 + given_or y 0)"

fun nearest_cell :: "topo_cell list \<Rightarrow> topo_cell option" where
  "nearest_cell [] = None"
| "nearest_cell (c # cs) = (case nearest_cell cs of None \<Rightarrow> Some c | Some b \<Rightarrow> if top_left b < top_left c then Some b else Some c)"

definition place_panel :: "(string \<Rightarrow> string) \<Rightarrow> topo_wall \<Rightarrow> topo_cell \<Rightarrow> topology_db \<Rightarrow> topology_db outcome" where
  "place_panel uid w c st =
     when_ok (insert_cell c (delete_members (\<lambda>m. fst m = tc_device c) st)) (\<lambda>st1.
       when_ok (if wr_mode w = Some ''split'' then ensure_device_playlist (uid (tc_device c)) {} (tc_device c) st1
                else Inr (set_playlist (given (wr_playlist w)) (tc_device c) st1))
         (update_display_wall (tc_device c) (Some (wr_id w))))"

definition rearrange_wall :: "(string \<Rightarrow> string) \<Rightarrow> topo_wall \<Rightarrow> topo_cell list \<Rightarrow> topology_db \<Rightarrow> topology_db outcome" where
  "rearrange_wall uid w cs st =
     (let i = wr_id w; removed = filter (\<lambda>d. d \<notin> tc_device ` set cs) (members_of_row i st) in
      when_ok (delete_cells (\<lambda>c. tc_wall c = i) st) (\<lambda>st1.
      when_ok (for_each (\<lambda>x. update_display_wall (td_id x) None) (filter (\<lambda>x. td_wall x = Some i) (tb_displays st1)) st1) (\<lambda>st2.
      when_ok (for_each (place_panel uid w) cs (fold (set_playlist None) removed st2)) (\<lambda>st3.
      when_ok (update_leader i (map_option tc_device (nearest_cell cs)) st3) (\<lambda>st4.
        Inr (on_wall_row i (\<lambda>x. x\<lparr>wr_mode := Some (if wr_mode w = Some ''split'' then ''split'' else ''span''), wr_json := NoLayout,
               wr_revision := JNum (next_wall_revision x)\<rparr>) st4))))))"

definition set_wall_devices :: "(string \<Rightarrow> bool) \<Rightarrow> (string \<Rightarrow> string) \<Rightarrow> string \<Rightarrow> jsval \<Rightarrow> topo_cell list \<Rightarrow> topology_db \<Rightarrow> topology_db reply" where
  "set_wall_devices can uid i expected cs st =
     (case load_wall_row can i st of Inl e \<Rightarrow> Inl e | Inr w \<Rightarrow>
        if tw_locked w then Inl (423, ''PROTECTED_WALL'')
        else (case revision_check expected w of Some e \<Rightarrow> Inl e
         | None \<Rightarrow>
            if \<not> distinct (map tc_device cs) then Inl (400, ''INVALID_WALL_TOPOLOGY'')
            else (case joins_refused w cs st of Some e \<Rightarrow> Inl e
             | None \<Rightarrow>
                if set (map cell_facts (cells_of i st)) = set (map cell_facts cs) then Inr st
                else aborted 500 (rearrange_wall uid w (map (\<lambda>c. c\<lparr>tc_wall := i\<rparr>) cs) st))))"

definition remove_wall :: "(string \<Rightarrow> bool) \<Rightarrow> string \<Rightarrow> topology_db \<Rightarrow> topology_db reply" where
  "remove_wall can i st =
     (case load_wall_row can i st of Inl e \<Rightarrow> Inl e | Inr w \<Rightarrow>
        if tw_locked w then Inl (423, ''PROTECTED_WALL'')
        else aborted 500 (when_ok
          (for_each (\<lambda>x s. when_ok (update_display_wall (td_id x) None s) (\<lambda>t. Inr (set_playlist None (td_id x) t)))
             (filter (\<lambda>x. td_wall x = Some i) (tb_displays st)) st) (delete_wall i)))"

subsection \<open>Layouts\<close>

text \<open>The regions of a request with the new revision written into each; anything but a list is refused.\<close>

definition stamped_regions :: "jsnum \<Rightarrow> jsval \<Rightarrow> jsval reply" where
  "stamped_regions rv v =
     (if is_nullish v then Inr JUndef
      else (case v of JArr rs \<Rightarrow> Inr (JArr (map (\<lambda>r. JObj (AList.update ''revision'' (JNum rv) (case r of JObj kvs \<Rightarrow> kvs | _ \<Rightarrow> []))) rs))
        | _ \<Rightarrow> Inl (400, ''INVALID_WALL_LAYOUT'')))"

definition refused_layout :: "string + 'a \<Rightarrow> 'a reply" where
  "refused_layout m = (case m of Inl e \<Rightarrow> Inl (400, ''INVALID_WALL_LAYOUT'') | Inr x \<Rightarrow> Inr x)"

definition requested_layout :: "layout_host \<Rightarrow> topo_wall \<Rightarrow> topology_db \<Rightarrow> jsval \<Rightarrow> layout reply" where
  "requested_layout h w st body =
     (let wall = wall_row.truncate w; members = layout_members (wr_id w) st; rv = next_wall_revision w in
      case (if truthy (fld body ''preset'') then (case preset_groups h (wr_id w) members (to_str (fld body ''preset'')) of
               Inl e \<Rightarrow> Inl (400, ''INVALID_WALL_LAYOUT'') | Inr gs \<Rightarrow> Inr (JArr (map group_json gs)))
            else Inr (fld body ''groups'')) of Inl e \<Rightarrow> Inl e | Inr groups \<Rightarrow>
      (case refused_layout (parse_stored_layout h wall members False) of Inl e \<Rightarrow> Inl e | Inr current \<Rightarrow>
      (case stamped_regions rv (if fld body ''regions'' \<noteq> JUndef then fld body ''regions'' else JArr (map region_json (ly_regions current))) of
         Inl e \<Rightarrow> Inl e
       | Inr regions \<Rightarrow>
           refused_layout (validate_layout h wall members (JObj [(''groups'', groups), (''regions'', regions)]) (JNum rv) ''request''))))"

text \<open>The playlists of the groups: a span shares one, a solo panel has its own.\<close>

definition span_playlist :: "topo_wall \<Rightarrow> (string \<Rightarrow> string option) \<Rightarrow> layout_group \<Rightarrow> string option" where
  "span_playlist w held g =
     (if truthy (gp_playlist g) then Some (to_str (gp_playlist g))
      else (let leader = (case gp_leader g of Some d \<Rightarrow> Some d | None \<Rightarrow> (case gp_members g of [] \<Rightarrow> None | d # ds \<Rightarrow> Some d)) in
        case given (case leader of None \<Rightarrow> None | Some d \<Rightarrow> held d) of Some p \<Rightarrow> Some p | None \<Rightarrow> given (wr_playlist w)))"

definition route_group :: "(string \<Rightarrow> string) \<Rightarrow> topo_wall \<Rightarrow> (string \<Rightarrow> string option) \<Rightarrow> layout_group \<Rightarrow> topology_db
    \<Rightarrow> (layout_group \<times> topology_db) outcome" where
  "route_group uid w held g st =
     (let ensured = (\<lambda>d. when_ok (ensure_device_playlist (uid d) {} d st) (\<lambda>s. Inr (playlist_of d s, s))) in
      if gp_layout g = ''span'' \<and> 1 < length (gp_members g) then
        when_ok (case span_playlist w held g of Some p \<Rightarrow> Inr (Some p, st)
                 | None \<Rightarrow> (case gp_leader g of None \<Rightarrow> Inr (None, st) | Some d \<Rightarrow> ensured d))
          (\<lambda>(p, s). Inr (g\<lparr>gp_playlist := nullable p\<rparr>, fold (set_playlist p) (gp_members g) s))
      else (case gp_members g of [] \<Rightarrow> Inr (g\<lparr>gp_playlist := JNull\<rparr>, st)
        | d # ds \<Rightarrow> when_ok (ensured d) (\<lambda>(p, s). Inr (g\<lparr>gp_playlist := nullable p\<rparr>, s))))"

fun route_groups :: "(string \<Rightarrow> string) \<Rightarrow> topo_wall \<Rightarrow> (string \<Rightarrow> string option) \<Rightarrow> layout_group list \<Rightarrow> topology_db
    \<Rightarrow> (layout_group list \<times> topology_db) outcome" where
  "route_groups uid w held [] st = Inr ([], st)"
| "route_groups uid w held (g # gs) st =
     when_ok (route_group uid w held g st) (\<lambda>(g', s). when_ok (route_groups uid w held gs s) (\<lambda>(gs', s'). Inr (g' # gs', s')))"

definition layout_mode :: "layout_group list \<Rightarrow> string list \<Rightarrow> string" where
  "layout_mode gs ids =
     (if (case gs of [g] \<Rightarrow> gp_layout g = ''span'' \<and> length (gp_members g) = length ids | _ \<Rightarrow> False) then ''span''
      else if length gs = length ids \<and> list_all (\<lambda>g. gp_layout g = ''solo'') gs then ''split'' else ''groups'')"

definition stored_layout :: "topo_wall \<Rightarrow> jsnum \<Rightarrow> string option \<Rightarrow> (string \<times> jsval) list \<Rightarrow> layout_group list \<Rightarrow> region list \<Rightarrow> jsval" where
  "stored_layout w rv preset source gs rs =
     JObj ([(''version'', jint 1), (''id'', JStr (layout_id (wr_id w) rv)), (''wall_id'', JStr (wr_id w)), (''mode'', JStr ''groups''),
        (''revision'', JNum rv), (''preset'', nullable preset)] @ source
        @ [(''groups'', JArr (map group_json gs)), (''regions'', JArr (map region_json rs))])"

text \<open>An update of layout, revision, mode and leader in one statement.\<close>

definition write_layout :: "string \<Rightarrow> string \<Rightarrow> jsval \<Rightarrow> jsnum \<Rightarrow> string option \<Rightarrow> topology_db \<Rightarrow> topology_db outcome" where
  "write_layout i mode v rv leader st =
     when_ok (update_leader i leader st) (\<lambda>s. Inr (on_wall_row i (\<lambda>w. w\<lparr>wr_mode := Some mode, wr_json := Parsed v, wr_revision := JNum rv\<rparr>) s))"

definition set_wall_layout :: "layout_host \<Rightarrow> (string \<Rightarrow> bool) \<Rightarrow> (string \<Rightarrow> string) \<Rightarrow> string \<Rightarrow> jsval \<Rightarrow> topology_db \<Rightarrow> topology_db reply" where
  "set_wall_layout h can uid i body st =
     (case load_wall_row can i st of Inl e \<Rightarrow> Inl e | Inr w \<Rightarrow>
        (case revision_check (fld body ''expected_revision'') w of Some e \<Rightarrow> Inl e
         | None \<Rightarrow>
            (case requested_layout h w st body of Inl e \<Rightarrow> Inl e
             | Inr l \<Rightarrow>
                aborted 500 (when_ok (route_groups uid w (\<lambda>d. playlist_of d st) (ly_groups l) st) (\<lambda>(gs, st1).
                  (case validate_layout h (wall_row.truncate w) (layout_members i st) (JObj [(''groups'', JArr (map group_json gs))])
                          (JNum (next_wall_revision w)) ''request'' of
                     Inl e \<Rightarrow> Inl CheckFailed
                   | Inr l2 \<Rightarrow>
                      write_layout i (layout_mode gs (members_of_row i st))
                        (stored_layout w (next_wall_revision w) (ly_preset l2) [] gs (ly_regions l)) (next_wall_revision w)
                        (case gs of [] \<Rightarrow> None | g # r \<Rightarrow> given (gp_leader g)) st1))))))"

text \<open>The regions of a mosaic are taken from the zones of the layout its one player has; \<open>zones\<close> is the table of zones.\<close>

definition sync_regions :: "layout_host \<Rightarrow> (string \<Rightarrow> bool) \<Rightarrow> (string \<Rightarrow> jsval) \<Rightarrow> string \<Rightarrow> jsval \<Rightarrow> topology_db \<Rightarrow> topology_db reply" where
  "sync_regions h can zones i expected st =
     (case load_wall_row can i st of Inl e \<Rightarrow> Inl e | Inr w \<Rightarrow>
        if tw_locked w then Inl (423, ''PROTECTED_WALL'')
        else (case revision_check expected w of Some e \<Rightarrow> Inl e
         | None \<Rightarrow>
            if wr_mode w \<noteq> Some ''split'' \<or> length (cells_of i st) \<noteq> 1 then Inl (409, ''TOPOLOGY_CONFLICT'')
            else (case given (case display_at (hd (members_of_row i st)) st of None \<Rightarrow> None | Some x \<Rightarrow> td_layout x) of
                None \<Rightarrow> Inl (409, ''MOSAIC_LAYOUT_REQUIRED'')
              | Some z \<Rightarrow>
                  (let wall = wall_row.truncate w; members = layout_members i st; rv = next_wall_revision w
                   in case regions_from_layout_zones wall members (zones z) (JNum rv) of Inl e \<Rightarrow> Inl (400, ''INVALID_MOSAIC_LAYOUT'')
                      | Inr rs \<Rightarrow>
                        (case preset_groups h i members ''split-all'' of Inl e \<Rightarrow> Inl (400, ''INVALID_MOSAIC_LAYOUT'') | Inr gs \<Rightarrow>
                        (case validate_layout h wall members (JObj [(''groups'', JArr (map group_json gs)), (''regions'', JArr (map region_json rs))])
                                (JNum rv) ''request'' of
                           Inl e \<Rightarrow> Inl (400, ''INVALID_MOSAIC_LAYOUT'')
                         | Inr l \<Rightarrow> Inr (on_wall_row i (\<lambda>x. x\<lparr>wr_json := Parsed (stored_layout w rv (Some ''split-all'')
                             [(''source'', JStr ''layout-zones'')] (ly_groups l) (ly_regions l)), wr_revision := JNum rv\<rparr>) st)))))))"

subsection \<open>Removing a display\<close>

definition protected_wall_of :: "topo_display \<Rightarrow> topology_db \<Rightarrow> bool" where
  "protected_wall_of x st \<longleftrightarrow> list_ex (\<lambda>w. tw_locked w \<and> (Some (wr_id w) = given (td_wall x) \<or> has_cell (wr_id w) (td_id x) st)) (tb_walls st)"

definition membership_impact :: "topology_db \<Rightarrow> string \<Rightarrow> topo_cell \<Rightarrow> jsval" where
  "membership_impact st d c =
     (let w = wall_at (tc_wall c) st; n = int (length (cells_of (tc_wall c) st)) in
      JObj [(''wall_id'', JStr (tc_wall c)), (''wall_name'', case w of None \<Rightarrow> JNull | Some x \<Rightarrow> JStr (tw_name x)),
        (''grid_col'', jint (tc_col c)), (''grid_row'', jint (tc_row c)),
        (''is_leader'', JBool (case w of None \<Rightarrow> False | Some x \<Rightarrow> wr_leader x = Some d)),
        (''current_member_count'', jint n), (''resulting_member_count'', jint (n - 1)), (''wall_would_be_empty'', JBool (n = 1))])"

definition group_impact :: "topology_db \<Rightarrow> string \<Rightarrow> jsval" where
  "group_impact st g = JObj [(''id'', JStr g), (''name'', case group_at g st of None \<Rightarrow> JNull | Some y \<Rightarrow> JStr (tg_name y))]"

definition leads_a_wall :: "string \<Rightarrow> topology_db \<Rightarrow> bool" where
  "leads_a_wall d st \<longleftrightarrow> list_ex (\<lambda>c. tc_device c = d \<and> (case wall_at (tc_wall c) st of None \<Rightarrow> False | Some w \<Rightarrow> wr_leader w = Some d)) (tb_cells st)"

text \<open>What is lost with a display. \<open>history\<close> gives the counts of the tables outside the topology; \<open>authority\<close> is the configured
  audio authority.\<close>

definition deletion_impact :: "(string \<Rightarrow> (string \<times> jsval) list) \<Rightarrow> string \<Rightarrow> topo_display \<Rightarrow> topology_db \<Rightarrow> jsval" where
  "deletion_impact history authority x st =
     (let d = td_id x; text = (\<lambda>v. case v of None \<Rightarrow> JNull | Some s \<Rightarrow> JStr s) in
      JObj ([(''device_id'', JStr d), (''device_name'', JStr (td_name x)), (''status'', JStr (td_status x)), (''workspace_id'', text (td_workspace x)),
        (''wall_memberships'', JArr (map (membership_impact st d) (filter (\<lambda>c. tc_device c = d \<and> wall_at (tc_wall c) st \<noteq> None) (tb_cells st)))),
        (''is_wall_leader'', JBool (leads_a_wall d st)),
        (''group_memberships'', JArr (map (group_impact st) (filter (\<lambda>g. group_at g st \<noteq> None) (groups_of_display d st)))),
        (''schedule_count'', jint (int (length (filter (\<lambda>s. ts_owner s = OfDisplay d) (tb_schedules st))))),
        (''is_audio_authority'', JBool (authority = d))] @ history d))"

text \<open>\<open>JSON.stringify\<close> with a list of keys: they select the fields of every object in the value, not only of the outermost.\<close>

fun pick_keys :: "string list \<Rightarrow> jsval \<Rightarrow> jsval" where
  "pick_keys keys (JObj kvs) = (let picked = map (\<lambda>(k, v). (k, pick_keys keys v)) kvs in
     JObj (List.map_filter (\<lambda>k. map_option (Pair k) (map_of picked k)) keys))"
| "pick_keys keys (JArr vs) = JArr (map (pick_keys keys) vs)"
| "pick_keys keys v = v"

definition top_keys :: "jsval \<Rightarrow> string list" where
  "top_keys v = (case v of JObj kvs \<Rightarrow> foldr insert_text (map fst kvs) [] | _ \<Rightarrow> [])"

definition deletion_etag :: "(jsval \<Rightarrow> string) \<Rightarrow> jsval \<Rightarrow> string" where
  "deletion_etag digest impact = digest (pick_keys (top_keys impact) impact)"

record removal_host =
  rh_history :: "string \<Rightarrow> (string \<times> jsval) list"
  rh_authority :: string
  rh_digest :: "jsval \<Rightarrow> string"
  rh_admin :: bool
  rh_leader_first :: bool

definition remove_display :: "removal_host \<Rightarrow> (string \<Rightarrow> bool) \<Rightarrow> string \<Rightarrow> string option \<Rightarrow> topology_db \<Rightarrow> topology_db reply" where
  "remove_display h can d etag st =
     (case display_at d st of None \<Rightarrow> Inl (404, ''Device not found'')
      | Some x \<Rightarrow>
          if \<not> (case given (td_workspace x) of None \<Rightarrow> False | Some ws \<Rightarrow> can ws) then Inl (403, ''Access denied'')
          else if protected_wall_of x st then Inl (423, ''PROTECTED_WALL_DEVICE'')
          else if \<not> rh_admin h then Inl (403, ''INSUFFICIENT_ROLE'')
          else (case given etag of None \<Rightarrow> Inl (428, ''PRECONDITION_REQUIRED'')
           | Some e \<Rightarrow>
              if deletion_etag (rh_digest h) (deletion_impact (rh_history h) (rh_authority h) x st) \<noteq> e then Inl (412, ''PRECONDITION_FAILED'')
              else if leads_a_wall d st then Inl (409, ''WALL_LEADER_BLOCKED'')
              else if rh_authority h = d then Inl (409, ''AUDIO_AUTHORITY_BLOCKED'')
              else aborted 500 (when_ok (delete_cells (\<lambda>c. tc_device c = d)
                     (st\<lparr>tb_schedules := filter (\<lambda>s. ts_owner s \<noteq> OfDisplay d) (tb_schedules st)\<rparr>))
                   (\<lambda>s. delete_display_row (rh_leader_first h) d (delete_members (\<lambda>m. fst m = d) s)))))"

text \<open>A display that enrols, and one that is claimed (\<open>deviceSocket.js\<close>, \<open>POST /api/provision/pair\<close>). A display has a pairing code
  as long as no user has claimed it; the codes and their expiry are in the theory \<open>DeviceSession\<close>.\<close>

definition enrol_row :: "string \<Rightarrow> topology_db \<Rightarrow> topology_db reply" where
  "enrol_row d st =
     (if display_at d st \<noteq> None then Inl (500, ''aborted'')
      else Inr (st\<lparr>tb_displays := tb_displays st @ [\<lparr>td_id = d, td_name = ''Unnamed Display'', td_user = None, td_workspace = None, td_wall = None,
         td_screen_on = True, td_layout = None, td_playlist = None, td_status = ''provisioning''\<rparr>]\<rparr>))"

definition claim_display :: "string \<Rightarrow> string \<Rightarrow> string \<Rightarrow> string \<Rightarrow> topology_db \<Rightarrow> topology_db reply" where
  "claim_display d name user ws st =
     (case display_at d st of None \<Rightarrow> Inl (404, ''No device found with that pairing code'')
      | Some x \<Rightarrow> if td_user x \<noteq> None then Inl (409, ''Pairing code was already used or expired.'')
          else Inr (on_display d (\<lambda>x. x\<lparr>td_name := name, td_user := Some user, td_workspace := Some ws, td_status := ''online''\<rparr>) st))"

subsection \<open>Requests\<close>

datatype topology_request =
    CreateGroup string string "string option" "string option" "string option"
  | EditGroup string "string option" "string option"
  | RemoveGroup "string \<Rightarrow> string \<Rightarrow> string" string
  | JoinGroup string "string option"
  | LeaveGroup string string
  | AssignPlaylist string "string option"
  | CreateWall string "string option" "string option" "int option" "int option" "string option"
  | ChangeWall "string \<Rightarrow> string" string wall_change
  | SetWallDevices "string \<Rightarrow> string" string jsval "topo_cell list"
  | SetWallLayout layout_host "string \<Rightarrow> string" string jsval
  | SyncRegions layout_host "string \<Rightarrow> jsval" string jsval
  | RemoveWall string
  | RemoveDisplay removal_host string "string option"
  | EnrolDisplay string
  | ClaimDisplay string string string string

fun serve_topology :: "(string \<Rightarrow> bool) \<Rightarrow> topology_request \<Rightarrow> topology_db \<Rightarrow> topology_db reply" where
  "serve_topology can (CreateGroup fresh user ws name color) st = create_group fresh user ws name color st"
| "serve_topology can (EditGroup i name color) st = edit_group can i name color st"
| "serve_topology can (RemoveGroup uid i) st = remove_group can uid i st"
| "serve_topology can (JoinGroup i d) st = join_group can i d st"
| "serve_topology can (LeaveGroup i d) st = leave_group can i d st"
| "serve_topology can (AssignPlaylist i p) st = assign_group_playlist can i p st"
| "serve_topology can (CreateWall fresh ws name cols rows p) st = create_wall can fresh ws name cols rows p st"
| "serve_topology can (ChangeWall uid i b) st = change_wall can uid i b st"
| "serve_topology can (SetWallDevices uid i expected cs) st = set_wall_devices can uid i expected cs st"
| "serve_topology can (SetWallLayout h uid i body) st = set_wall_layout h can uid i body st"
| "serve_topology can (SyncRegions h zones i expected) st = sync_regions h can zones i expected st"
| "serve_topology can (RemoveWall i) st = remove_wall can i st"
| "serve_topology can (RemoveDisplay h d etag) st = remove_display h can d etag st"
| "serve_topology can (EnrolDisplay d) st = enrol_row d st"
| "serve_topology can (ClaimDisplay d name user ws) st = claim_display d name user ws st"

definition topology_step :: "(string \<Rightarrow> bool) \<times> topology_request \<Rightarrow> topology_db \<Rightarrow> topology_db" where
  "topology_step e st = (case serve_topology (fst e) (snd e) st of Inl err \<Rightarrow> st | Inr st' \<Rightarrow> st')"

subsection \<open>Requests keep a topology sound\<close>

definition good_topology :: "topology_db \<Rightarrow> bool" where
  "good_topology st \<longleftrightarrow> sound_topology st \<and> tb_guarded st"

lemma aborted_Inr: "(aborted n m = Inr x) = (m = Inr x)"
  by (simp add: aborted_def split: sum.split)

lemma when_ok_Inr: "(when_ok m f = Inr y) = (\<exists>x. m = Inr x \<and> f x = Inr y)"
  by (cases m) (simp_all add: when_ok_def)

lemma none_Inr: "((case k of None \<Rightarrow> x | Some z \<Rightarrow> Inl z) = Inr r) = (k = None \<and> x = Inr r)"
  by (cases k) simp_all

lemma else_Inr: "((case m of Inl e' \<Rightarrow> Inl (c e') | Inr y \<Rightarrow> f y) = Inr r) = (\<exists>y. m = Inr y \<and> f y = Inr r)"
  by (cases m) simp_all

lemmas reply_Inr = bind_Inr either_Inr some_Inr aborted_Inr when_ok_Inr

lemma good_on_display: "inert_display f \<Longrightarrow> good_topology st \<Longrightarrow> good_topology (on_display d f st)"
  by (simp add: good_topology_def sound_on_display)

lemma good_on_wall_row: "inert_wall f \<Longrightarrow> good_topology st \<Longrightarrow> good_topology (on_wall_row w f st)"
  by (simp add: good_topology_def sound_on_wall_row)

lemma good_set_playlist [simp]: "good_topology st \<Longrightarrow> good_topology (set_playlist p d st)"
  unfolding set_playlist_def by (rule good_on_display) (simp_all add: inert_display_def)

lemma good_shared_playlist: "good_topology st \<Longrightarrow> good_topology (fold (set_playlist p) ds st)"
  by (induction ds arbitrary: st) simp_all

lemma good_clone: "clone_playlist_for_device fresh d x st = Inr st' \<Longrightarrow> good_topology st \<Longrightarrow> good_topology st'"
  by (auto simp: clone_playlist_for_device_def Let_def good_topology_def sound_side_tables intro!: good_set_playlist [unfolded good_topology_def] split: if_splits)

lemma good_ensure: "ensure_device_playlist fresh ds d st = Inr st' \<Longrightarrow> good_topology st \<Longrightarrow> good_topology st'"
  by (auto simp: ensure_device_playlist_def good_clone split: option.splits if_splits)

lemma good_leader: "update_leader w l st = Inr st' \<Longrightarrow> good_topology st \<Longrightarrow> good_topology st'"
  using sound_update_leader [of st w l st'] by (auto simp: good_topology_def update_leader_def split: if_splits)

lemma good_groups_field:
  assumes "\<And>x. tg_id (f x) = tg_id x \<and> tg_workspace (f x) = tg_workspace x \<and> tg_name (f x) = tg_name x" "good_topology st"
  shows "good_topology (st\<lparr>tb_groups := map (\<lambda>x. if tg_id x = i then f x else x) (tb_groups st)\<rparr>)"
proof -
  let ?st = "st\<lparr>tb_groups := map (\<lambda>x. if tg_id x = i then f x else x) (tb_groups st)\<rparr>"
  have keys: "map tg_id (tb_groups ?st) = map tg_id (tb_groups st)"
    "map (\<lambda>g. (tg_workspace g, name_key (tg_name g))) (tb_groups ?st) = map (\<lambda>g. (tg_workspace g, name_key (tg_name g))) (tb_groups st)"
    using assms(1) by simp_all
  have at: "group_at g ?st = (if g = i then map_option f (group_at g st) else group_at g st)" for g
    using assms(1) by (intro group_at_update) simp
  have "keyed ?st" using assms(2) by (simp only: keyed_def keys topology_db.simps) (simp add: good_topology_def sound_topology_def keyed_def)
  moreover have "names_ok ?st" unfolding names_ok_def keys using assms
    by (auto simp: good_topology_def sound_topology_def names_ok_def split: if_splits)
  moreover have "member_ok ?st = member_ok st" using assms(1) by (auto simp: fun_eq_iff member_ok_def at)
  moreover have "cell_ok ?st = cell_ok st" by (simp add: fun_eq_iff cell_ok_def)
  moreover have "schedule_owned ?st = schedule_owned st" by (simp add: fun_eq_iff schedule_owned_def at split: schedule_owner.split)
  ultimately show ?thesis using assms(2) unfolding good_topology_def sound_topology_def by simp
qed

lemma good_insert_group: "insert_group g st = Inr st' \<Longrightarrow> good_topology st \<Longrightarrow> good_topology st'"
  unfolding good_topology_def by (blast dest: sound_insert_group)

lemma good_rename_group: "update_group i (\<lambda>x. x\<lparr>tg_name := n\<rparr>) st = Inr st' \<Longrightarrow> good_topology st \<Longrightarrow> good_topology st'"
  using sound_update_group [of st "\<lambda>x. x\<lparr>tg_name := n\<rparr>" i st'] by (simp add: good_topology_def)

lemma good_insert_wall: "insert_wall w st = Inr st' \<Longrightarrow> good_topology st \<Longrightarrow> good_topology st'"
  unfolding good_topology_def by (blast dest: sound_insert_wall)

lemma create_group_good: "create_group fresh user ws name color st = Inr st' \<Longrightarrow> good_topology st \<Longrightarrow> good_topology st'"
  unfolding create_group_def some_Inr guard_Inr aborted_Inr by (elim exE conjE) (rule good_insert_group)

lemma edit_group_good: "edit_group can i name color st = Inr st' \<Longrightarrow> good_topology st \<Longrightarrow> good_topology st'"
proof -
  assume e: "edit_group can i name color st = Inr st'" and g: "good_topology st"
  then obtain st1 where st1: "(case given name of None \<Rightarrow> Inr st | Some n \<Rightarrow> update_group i (\<lambda>x. x\<lparr>tg_name := n\<rparr>) st) = Inr st1"
    "st' = (case given color of None \<Rightarrow> st1 | Some c \<Rightarrow> st1\<lparr>tb_groups := map (\<lambda>x. if tg_id x = i then x\<lparr>tg_color := c\<rparr> else x) (tb_groups st1)\<rparr>)"
    unfolding edit_group_def bind_Inr guard_Inr aborted_Inr by blast
  have "good_topology st1"
  proof (cases "given name")
    case (Some n)
    with st1(1) have "update_group i (\<lambda>x. x\<lparr>tg_name := n\<rparr>) st = Inr st1" by simp
    from good_rename_group [OF this g] show ?thesis .
  qed (use st1(1) g in simp)
  then have "good_topology (st1\<lparr>tb_groups := map (\<lambda>x. if tg_id x = i then x\<lparr>tg_color := c\<rparr> else x) (tb_groups st1)\<rparr>)" for c
    by (intro good_groups_field) simp_all
  with st1(2) \<open>good_topology st1\<close> show ?thesis by (cases "given color") simp_all
qed

lemma schedules_inserted:
  assumes "for_each insert_owned_schedule ss st = Inr st'"
  shows "st' = st\<lparr>tb_schedules := tb_schedules st @ ss\<rparr> \<and> (\<forall>s \<in> set ss. schedule_owned st s)"
  using assms
proof (induction ss arbitrary: st)
  case (Cons s ss)
  then obtain st1 where s: "insert_owned_schedule s st = Inr st1" "for_each insert_owned_schedule ss st1 = Inr st'" by (auto simp: when_ok_Inr)
  then have st1: "st1 = st\<lparr>tb_schedules := tb_schedules st @ [s]\<rparr>" "schedule_owned st s" by (auto simp: insert_owned_schedule_def split: if_splits)
  with Cons.IH [OF s(2)] show ?case by simp
qed simp

lemma remove_group_good: "remove_group can uid i st = Inr st' \<Longrightarrow> good_topology st \<Longrightarrow> good_topology st'"
proof -
  assume r: "remove_group can uid i st = Inr st'" and g: "good_topology st"
  then obtain st1 where st1: "for_each insert_owned_schedule (converted_schedules uid i st) st = Inr st1"
    "delete_group i (st1\<lparr>tb_schedules := filter (\<lambda>s. ts_owner s \<noteq> OfGroup i) (tb_schedules st1)\<rparr>) = Inr st'"
    unfolding remove_group_def reply_Inr by blast
  have "sound_topology (st1\<lparr>tb_schedules := filter (\<lambda>s. ts_owner s \<noteq> OfGroup i) (tb_schedules st1)\<rparr>)" "tb_guarded st1"
    using schedules_inserted [OF st1(1)] g soundD(9) [of st] by (auto simp: good_topology_def intro!: sound_side_tables(1))
  with sound_delete_group [OF this(1) st1(2)] show ?thesis by (simp add: good_topology_def)
qed

lemma join_group_good: "join_group can i dev st = Inr st' \<Longrightarrow> good_topology st \<Longrightarrow> good_topology st'"
proof -
  assume r: "join_group can i dev st = Inr st'" and g: "good_topology st"
  then obtain d st1 p where st1: "insert_membership d i st = Inr st1" "st' = set_playlist p d st1"
    by (auto simp: join_group_def aborted_Inr split: option.splits if_splits sum.splits)
  have "good_topology st1" using sound_insert_membership [OF _ _ st1(1)] g st1(1)
    by (auto simp: good_topology_def insert_membership_def split: if_splits)
  with st1(2) show ?thesis by simp
qed

lemma leave_group_good: "leave_group can i d st = Inr st' \<Longrightarrow> good_topology st \<Longrightarrow> good_topology st'"
  by (auto simp: leave_group_def Let_def good_topology_def sound_delete_members delete_members_def [of _ st] intro!: good_set_playlist [unfolded good_topology_def]
      split: sum.splits) (metis delete_members_def sound_delete_members)

lemma assign_group_playlist_good: "assign_group_playlist can i p st = Inr st' \<Longrightarrow> good_topology st \<Longrightarrow> good_topology st'"
  by (auto simp: assign_group_playlist_def intro!: good_shared_playlist good_groups_field split: sum.splits option.splits if_splits)

lemma create_wall_good: "create_wall can fresh ws name cols rows p st = Inr st' \<Longrightarrow> good_topology st \<Longrightarrow> good_topology st'"
  unfolding create_wall_def some_Inr guard_Inr aborted_Inr by (elim exE conjE) (rule good_insert_wall)

lemma on_display_idle:
  assumes "\<And>x. x \<in> set (tb_displays st) \<Longrightarrow> td_id x = d \<Longrightarrow> f x = x"
  shows "on_display d f st = st"
proof -
  have "map (\<lambda>x. if td_id x = d then f x else x) (tb_displays st) = tb_displays st" using assms by (intro map_idI) simp
  then show ?thesis by (simp add: on_display_def)
qed

lemma good_assign_wall:
  assumes "update_display_wall d (Some w) st = Inr st'" "good_topology st"
  shows "good_topology st'"
proof -
  have st': "st' = on_display d (\<lambda>x. x\<lparr>td_wall := Some w\<rparr>) st" and c: "display_at d st \<noteq> None \<longrightarrow> has_cell w d st"
    using assms by (auto simp: update_display_wall_def good_topology_def split: if_splits)
  have "on_display d (\<lambda>x. x\<lparr>td_wall := Some w\<rparr>) st = st"
  proof (rule on_display_idle)
    fix x assume x: "x \<in> set (tb_displays st)" "td_id x = d"
    then have at: "display_at d st = Some x" using keyed_rows(1) [OF sound_keyed] assms(2) by (simp add: good_topology_def)
    with c obtain k where k: "k \<in> set (tb_cells st)" "tc_wall k = w" "tc_device k = d" by (auto simp: has_cell_def list_ex_iff)
    have s: "sound_topology st" using assms(2) by (simp add: good_topology_def)
    have "td_wall x = Some w" by (rule sound_cellD [OF s k(1)]) (use at k in auto)
    then show "x\<lparr>td_wall := Some w\<rparr> = x" by simp
  qed
  with st' assms(2) show ?thesis by simp
qed

lemma good_clear_wall:
  assumes g: "good_topology st" and "d \<notin> tc_device ` set (tb_cells st)"
  shows "good_topology (on_display d (\<lambda>x. x\<lparr>td_wall := None\<rparr>) st)"
proof -
  have s: "sound_topology st" using g by (simp add: good_topology_def)
  note k = soundD [OF s]
  let ?st = "on_display d (\<lambda>x. x\<lparr>td_wall := None\<rparr>) st"
  have "sound_topology ?st"
  proof (rule soundI)
    show "member_ok ?st e g" if "(e, g) \<in> set (tb_members ?st)" for e g using k(4) [of e g] that by (auto simp: member_ok_def)
    show "cell_ok ?st c" if "c \<in> set (tb_cells ?st)" for c
    proof -
      have "tc_device c \<noteq> d" using that assms(2) by auto
      with k(5) [of c] that show ?thesis by (auto simp: cell_ok_def)
    qed
    show "0 < tw_cols w \<and> 0 < tw_rows w \<and> leader_ok ?st w" if "wall_at i ?st = Some w" for i w using k(6) that by simp
    show "display_ok ?st x" if x: "display_at e ?st = Some x" for e x
    proof (cases "e = d")
      case True
      then obtain y where y: "display_at d st = Some y" "x = y\<lparr>td_wall := None\<rparr>" using x by auto
      with k(7) [OF y(1)] show ?thesis by (simp add: display_ok_def)
    next
      case False
      with x k(7) [of e x] show ?thesis by simp
    qed
  qed (use s in \<open>simp_all add: soundD sound_keyed\<close>)
  with g show ?thesis by (simp add: good_topology_def)
qed

lemma good_delete_cells:
  assumes "good_topology st" "delete_cells P st = Inr st'"
  shows "good_topology st' \<and> tb_cells st' = filter (\<lambda>c. \<not> P c) (tb_cells st) \<and> tb_members st' = tb_members st"
  using delete_cells_result [of st P] assms by (metis good_topology_def sum.inject(2))

lemma good_insert_cell: "insert_cell c st = Inr st' \<Longrightarrow> good_topology st \<Longrightarrow> good_topology st' \<and> tb_cells st' = tb_cells st @ [c]"
  using sound_insert_cell [of st c st'] insert_cell_result(2) [of st c st'] by (simp add: good_topology_def Let_def)

lemma good_delete_members: "good_topology st \<Longrightarrow> good_topology (delete_members P st)"
  by (simp add: good_topology_def sound_delete_members) (simp add: delete_members_def)

lemma good_place_panel: "place_panel uid w c st = Inr st' \<Longrightarrow> good_topology st \<Longrightarrow> good_topology st'"
proof -
  assume r: "place_panel uid w c st = Inr st'" and g: "good_topology st"
  then obtain st1 st2 where s: "insert_cell c (delete_members (\<lambda>m. fst m = tc_device c) st) = Inr st1"
    "(if wr_mode w = Some ''split'' then ensure_device_playlist (uid (tc_device c)) {} (tc_device c) st1
      else Inr (set_playlist (given (wr_playlist w)) (tc_device c) st1)) = Inr st2"
    "update_display_wall (tc_device c) (Some (wr_id w)) st2 = Inr st'"
    unfolding place_panel_def when_ok_Inr by blast
  have "good_topology st1" using good_insert_cell [OF s(1)] good_delete_members [OF g] by blast
  then have "good_topology st2" using s(2) good_ensure by (auto split: if_splits)
  with s(3) show ?thesis by (rule good_assign_wall)
qed

lemma good_clear_walls:
  assumes "for_each (\<lambda>x. update_display_wall (td_id x) None) xs st = Inr st'" "good_topology st" "\<And>x. x \<in> set xs \<Longrightarrow> td_id x \<notin> tc_device ` set (tb_cells st)"
  shows "good_topology st' \<and> tb_cells st' = tb_cells st"
  using assms(1)
proof (rule for_each_keeps [where P = "\<lambda>s. good_topology s \<and> tb_cells s = tb_cells st"])
  show "good_topology s' \<and> tb_cells s' = tb_cells st"
    if "x \<in> set xs" "good_topology s \<and> tb_cells s = tb_cells st" "update_display_wall (td_id x) None s = Inr s'" for x s s'
    using that assms(3) good_clear_wall [of s "td_id x"] by (auto simp: update_display_wall_def split: if_splits)
qed (use assms(2) in simp)

lemma inert_layout:
  "inert_wall (\<lambda>x. x\<lparr>wr_mode := m, wr_json := j, wr_revision := JNum (next_wall_revision x)\<rparr>)"
  "inert_wall (\<lambda>x. x\<lparr>wr_mode := m, wr_json := j, wr_revision := r\<rparr>)" "inert_wall (\<lambda>x. x\<lparr>wr_json := j, wr_revision := r\<rparr>)"
  by (simp_all add: inert_wall_def)

lemma cleared_free:
  assumes "good_topology st" "tb_cells st = filter (\<lambda>c. tc_wall c \<noteq> i) cs" "x \<in> set (tb_displays st)" "td_wall x = Some i"
  shows "td_id x \<notin> tc_device ` set (tb_cells st)"
proof
  assume "td_id x \<in> tc_device ` set (tb_cells st)"
  then obtain c where c: "c \<in> set (tb_cells st)" "tc_device c = td_id x" by auto
  have s: "sound_topology st" using assms(1) by (simp add: good_topology_def)
  have here: "display_at (td_id x) st = Some x" using assms(3) keyed_rows(1) [OF sound_keyed [OF s]] by simp
  have "tc_wall c \<noteq> i" using c(1) assms(2) by simp
  with here assms(4) show False by (metis sound_cellD [OF s c(1)] c(2) option.inject)
qed

lemma good_rearrange:
  assumes r: "rearrange_wall uid w cs st = Inr st'" and g: "good_topology st"
  shows "good_topology st'"
proof -
  let ?i = "wr_id w" and ?removed = "filter (\<lambda>d. d \<notin> tc_device ` set cs) (members_of_row (wr_id w) st)"
  obtain st1 st2 st3 st4 where s: "delete_cells (\<lambda>c. tc_wall c = ?i) st = Inr st1"
    "for_each (\<lambda>x. update_display_wall (td_id x) None) (filter (\<lambda>x. td_wall x = Some ?i) (tb_displays st1)) st1 = Inr st2"
    "for_each (place_panel uid w) cs (fold (set_playlist None) ?removed st2) = Inr st3"
    "update_leader ?i (map_option tc_device (nearest_cell cs)) st3 = Inr st4"
    "st' = on_wall_row ?i (\<lambda>x. x\<lparr>wr_mode := Some (if wr_mode w = Some ''split'' then ''split'' else ''span''), wr_json := NoLayout,
       wr_revision := JNum (next_wall_revision x)\<rparr>) st4"
    using r unfolding rearrange_wall_def Let_def when_ok_Inr by auto
  have d: "good_topology st1" "tb_cells st1 = filter (\<lambda>c. tc_wall c \<noteq> ?i) (tb_cells st)" using good_delete_cells [OF g s(1)] by simp_all
  have "good_topology st2 \<and> tb_cells st2 = tb_cells st1"
    by (rule good_clear_walls [OF s(2) d(1) cleared_free [OF d]]) simp_all
  then have "good_topology st2" by (rule conjunct1)
  then have "good_topology (fold (set_playlist None) ?removed st2)" by (rule good_shared_playlist)
  then have "good_topology st3" by (rule for_each_keeps [OF s(3), where P = good_topology]) (rule good_place_panel)
  then have "good_topology st4" by (rule good_leader [OF s(4)])
  then show ?thesis unfolding s(5) by (rule good_on_wall_row [OF inert_layout(1)])
qed

lemma set_wall_devices_Inr:
  assumes "set_wall_devices can uid i e cs st = Inr st'"
  shows "st' = st \<or> (\<exists>w. load_wall_row can i st = Inr w \<and> distinct (map tc_device cs) \<and> joins_refused w cs st = None
    \<and> rearrange_wall uid w (map (\<lambda>c. c\<lparr>tc_wall := i\<rparr>) cs) st = Inr st')"
proof -
  have "Inr st = (Inr st' :: topology_db reply) \<or> (\<exists>w. load_wall_row can i st = Inr w \<and> distinct (map tc_device cs) \<and> joins_refused w cs st = None
      \<and> rearrange_wall uid w (map (\<lambda>c. c\<lparr>tc_wall := i\<rparr>) cs) st = Inr st')"
    using assms unfolding set_wall_devices_def bind_Inr guard_Inr none_Inr either_Inr aborted_Inr not_not by blast
  then show ?thesis unfolding sum.inject by blast
qed

lemma set_wall_devices_good: "set_wall_devices can uid i e cs st = Inr st' \<Longrightarrow> good_topology st \<Longrightarrow> good_topology st'"
  by (drule set_wall_devices_Inr) (blast dest: good_rearrange)

lemma changed_wall_split:
  assumes "wc_leader b = Some l"
  shows "changed_wall b w = (changed_wall (b\<lparr>wc_leader := None, wc_geometry := True\<rparr>) w)\<lparr>wr_leader := l\<rparr>"
  using assms by (simp add: changed_wall_def Let_def topology_touched_def given_or_def)

lemma inert_change:
  assumes "\<And>c. wc_cols b = Some c \<Longrightarrow> 0 < c" "\<And>r. wc_rows b = Some r \<Longrightarrow> 0 < r" "wc_leader b = None"
  shows "inert_wall (changed_wall b)"
  using assms by (auto simp: inert_wall_def changed_wall_def Let_def given_or_def split: option.splits)

lemma on_wall_row_compose:
  assumes "\<And>x. wr_id (g x) = wr_id x"
  shows "on_wall_row i (\<lambda>w. f (g w)) st = on_wall_row i f (on_wall_row i g st)"
  using assms by (simp add: on_wall_row_def)

lemma good_update_wall_row:
  assumes r: "update_wall_row i b w st = Inr st'" and g: "good_topology st"
  shows "good_topology st'"
proof -
  have st': "st' = on_wall_row i (changed_wall b) st" and dims: "wc_cols b \<noteq> None \<or> wc_rows b \<noteq> None \<Longrightarrow> 0 < tw_cols (changed_wall b w) \<and> 0 < tw_rows (changed_wall b w)"
    and leader: "wc_leader b \<noteq> None \<Longrightarrow> \<not> leader_refused i (wr_leader (changed_wall b w)) st"
    using r g by (auto simp: update_wall_row_def good_topology_def split: if_splits)
  have pos: "wc_cols b = Some c \<Longrightarrow> 0 < c" "wc_rows b = Some c \<Longrightarrow> 0 < c" for c
    using dims by (auto simp: changed_wall_def Let_def given_or_def split: if_splits)
  show ?thesis
  proof (cases "wc_leader b")
    case None
    with st' pos show ?thesis using good_on_wall_row [OF inert_change g] by simp
  next
    case (Some l)
    let ?f = "changed_wall (b\<lparr>wc_leader := None, wc_geometry := True\<rparr>)"
    have inert: "inert_wall ?f" by (rule inert_change) (use pos in simp_all)
    then have ids: "wr_id (?f x) = wr_id x" for x by (simp add: inert_wall_def)
    have "st' = on_wall_row i (\<lambda>x. x\<lparr>wr_leader := l\<rparr>) (on_wall_row i ?f st)"
      unfolding st' on_wall_row_compose [OF ids, symmetric] using changed_wall_split [OF Some] by presburger
    moreover have "\<not> leader_refused i l (on_wall_row i ?f st)" using leader Some changed_wall_split [OF Some, of w] by simp
    ultimately show ?thesis using sound_leader good_on_wall_row [OF inert g] by (simp add: good_topology_def)
  qed
qed

lemma good_share [simp]: "good_topology st \<Longrightarrow> good_topology (share_playlist p i st)"
  unfolding share_playlist_def by (rule good_shared_playlist)

lemma good_ensure_each:
  "for_each (\<lambda>d. ensure_device_playlist (uid d) {} d) ds st = Inr st' \<Longrightarrow> good_topology st \<Longrightarrow> good_topology st'"
  by (erule for_each_keeps) (auto dest: good_ensure)

lemma good_follow: "follow_change uid i b w st = Inr st' \<Longrightarrow> good_topology st \<Longrightarrow> good_topology st'"
  unfolding follow_change_def Let_def when_ok_Inr by (auto split: if_splits dest: good_ensure_each [rotated])

lemma change_wall_good: "change_wall can uid i b st = Inr st' \<Longrightarrow> good_topology st \<Longrightarrow> good_topology st'"
  unfolding change_wall_def else_Inr none_Inr aborted_Inr when_ok_Inr by (blast dest: good_update_wall_row good_follow)

lemma good_route_groups: "route_groups uid w held gs st = Inr (gs', st') \<Longrightarrow> good_topology st \<Longrightarrow> good_topology st'"
proof (induction gs arbitrary: gs' st)
  case (Cons g gs)
  then obtain g1 s1 gs1 where s: "route_group uid w held g st = Inr (g1, s1)" "route_groups uid w held gs s1 = Inr (gs1, st')"
    by (auto simp: when_ok_Inr)
  have "good_topology s1" using s(1) Cons.prems(2)
    by (auto simp: route_group_def Let_def when_ok_Inr split: if_splits option.splits list.splits intro!: good_shared_playlist) (auto dest: good_ensure)
  from Cons.IH [OF s(2) this] show ?case .
qed simp

lemma set_wall_layout_good: "set_wall_layout h can uid i body st = Inr st' \<Longrightarrow> good_topology st \<Longrightarrow> good_topology st'"
proof -
  assume r: "set_wall_layout h can uid i body st = Inr st'" and g: "good_topology st"
  have "\<exists>w ls gs st1 mode v rv leader. route_groups uid w (\<lambda>d. playlist_of d st) ls st = Inr (gs, st1)
    \<and> write_layout i mode v rv leader st1 = Inr st'"
    using r unfolding set_wall_layout_def else_Inr none_Inr aborted_Inr when_ok_Inr split_paired_Ex case_prod_conv
    by (elim exE conjE) (intro exI conjI)
  then obtain w ls gs st1 mode v rv leader where s: "route_groups uid w (\<lambda>d. playlist_of d st) ls st = Inr (gs, st1)"
    "write_layout i mode v rv leader st1 = Inr st'" by blast
  have "good_topology st1" by (rule good_route_groups [OF s(1) g])
  with s(2) show ?thesis by (auto simp: write_layout_def when_ok_Inr intro: good_on_wall_row [OF inert_layout(2)] good_leader)
qed

lemma sync_regions_good: "sync_regions h can zones i e st = Inr st' \<Longrightarrow> good_topology st \<Longrightarrow> good_topology st'"
  unfolding sync_regions_def else_Inr guard_Inr none_Inr some_Inr Let_def
  by (elim exE conjE) (simp, erule subst, rule good_on_wall_row [OF inert_layout(3)])


text \<open>The displays of a wall that goes are released before its row.\<close>

definition release_panel :: "topo_display \<Rightarrow> topology_db \<Rightarrow> topology_db outcome" where
  "release_panel x s = when_ok (update_display_wall (td_id x) None s) (\<lambda>t. Inr (set_playlist None (td_id x) t))"

lemma release_panel_Inr: "release_panel x s = Inr (set_playlist None (td_id x) (on_display (td_id x) (\<lambda>x. x\<lparr>td_wall := None\<rparr>) s))"
  by (simp add: release_panel_def update_display_wall_def when_ok_def)

lemma released:
  assumes "for_each release_panel xs st = Inr st'"
  shows "display_at d st' = (if d \<in> td_id ` set xs then map_option (\<lambda>x. x\<lparr>td_wall := None, td_playlist := None\<rparr>) (display_at d st) else display_at d st)
    \<and> map td_id (tb_displays st') = map td_id (tb_displays st) \<and> tb_groups st' = tb_groups st \<and> tb_members st' = tb_members st
    \<and> tb_walls st' = tb_walls st \<and> tb_cells st' = tb_cells st \<and> tb_schedules st' = tb_schedules st \<and> tb_guarded st' = tb_guarded st"
  using assms
proof (induction xs arbitrary: st)
  case (Cons x xs)
  let ?s = "set_playlist None (td_id x) (on_display (td_id x) (\<lambda>x. x\<lparr>td_wall := None\<rparr>) st)"
  have "release_panel x st = Inr ?s" by (rule release_panel_Inr)
  with Cons.prems have "for_each release_panel xs ?s = Inr st'" by (simp add: when_ok_def)
  from Cons.IH [OF this] show ?case by (auto simp: set_playlist_def option.map_comp comp_def)
qed simp

lemma delete_unwatched_cells:
  assumes "\<And>c. c \<in> set cs \<Longrightarrow> wall_at (tc_wall c) st = None"
    and "\<And>c x. c \<in> set cs \<Longrightarrow> display_at (tc_device c) st = Some x \<Longrightarrow> td_wall x \<noteq> Some (tc_wall c)"
  shows "for_each delete_cell cs st = Inr (st\<lparr>tb_cells := filter (\<lambda>x. \<forall>c \<in> set cs. \<not> same_cell c x) (tb_cells st)\<rparr>)"
  using assms
proof (induction cs arbitrary: st)
  case (Cons c cs)
  let ?s = "st\<lparr>tb_cells := filter (\<lambda>x. \<not> same_cell c x) (tb_cells st)\<rparr>"
  have off: "\<not> (case display_at (tc_device c) ?s of None \<Rightarrow> False | Some x \<Rightarrow> td_wall x = Some (tc_wall c))"
    using Cons.prems(2) [of c] by (simp split: option.split)
  have "leader_of (tc_wall c) ?s = None" using Cons.prems(1) [of c] by (simp add: leader_of_def)
  then have "delete_cell c st = Inr ?s" unfolding delete_cell_def Let_def if_not_P [OF off] by (simp add: when_ok_def)
  moreover have "for_each delete_cell cs ?s = Inr (?s\<lparr>tb_cells := filter (\<lambda>x. \<forall>c \<in> set cs. \<not> same_cell c x) (tb_cells ?s)\<rparr>)"
    by (rule Cons.IH) (use Cons.prems in simp_all)
  ultimately show ?case by (simp add: when_ok_def conj_commute)
qed simp

lemma remove_wall_good: "remove_wall can i st = Inr st' \<Longrightarrow> good_topology st \<Longrightarrow> good_topology st'"
proof -
  assume r: "remove_wall can i st = Inr st'" and g: "good_topology st"
  let ?xs = "filter (\<lambda>x. td_wall x = Some i) (tb_displays st)"
  obtain s where s: "for_each release_panel ?xs st = Inr s" "delete_wall i s = Inr st'" "wall_at i st \<noteq> None"
    using r unfolding remove_wall_def release_panel_def [abs_def] else_Inr guard_Inr aborted_Inr when_ok_Inr
    by (auto simp: load_wall_row_def split: option.splits)
  have snd: "sound_topology st" using g by (simp add: good_topology_def)
  note k = soundD [OF snd] and rel = released [OF s(1)]
  have held: "d \<in> td_id ` set ?xs \<longleftrightarrow> (\<exists>x. display_at d st = Some x \<and> td_wall x = Some i)" for d
    using keyed_rows(1) [OF sound_keyed [OF snd]] by (auto simp: image_iff)
  have at: "display_at d s = map_option (\<lambda>x. if td_wall x = Some i then x\<lparr>td_wall := None, td_playlist := None\<rparr> else x) (display_at d st)" for d
    using rel [of d] held [of d] by (cases "display_at d st") auto
  have freed: "td_wall x \<noteq> Some i" if x: "display_at d s = Some x" for d x
  proof -
    from x obtain y where "x = (if td_wall y = Some i then y\<lparr>td_wall := None, td_playlist := None\<rparr> else y)" by (auto simp: at)
    then show ?thesis by (cases "td_wall y = Some i") simp_all
  qed
  let ?t = "s\<lparr>tb_walls := filter (\<lambda>w. wr_id w \<noteq> i) (tb_walls s)\<rparr>"
  have wall: "wall_at j ?t = (if j = i then None else wall_at j st)" for j using rel by (simp add: wall_at_def find_filter_key)
  have "for_each delete_cell (filter (\<lambda>c. tc_wall c = i) (tb_cells s)) ?t
      = Inr (?t\<lparr>tb_cells := filter (\<lambda>x. \<forall>c \<in> set (filter (\<lambda>c. tc_wall c = i) (tb_cells s)). \<not> same_cell c x) (tb_cells ?t)\<rparr>)"
    by (rule delete_unwatched_cells) (use freed in \<open>auto simp: wall\<close>)
  moreover have "filter (\<lambda>x. \<forall>c \<in> set (filter (\<lambda>c. tc_wall c = i) (tb_cells s)). \<not> same_cell c x) (tb_cells ?t) = filter (\<lambda>c. tc_wall c \<noteq> i) (tb_cells st)"
    using rel by (auto simp: same_cell_def intro!: filter_cong)
  moreover have "wall_at i s \<noteq> None" using s(3) rel by (simp add: wall_at_def)
  ultimately have st': "st' = ?t\<lparr>tb_cells := filter (\<lambda>c. tc_wall c \<noteq> i) (tb_cells st)\<rparr>"
    using s(2) by (auto simp: delete_wall_def delete_cells_def)
  have has: "has_cell j d st' \<longleftrightarrow> has_cell j d st \<and> j \<noteq> i" for j d by (auto simp: has_cell_def st' list_ex_iff)
  have cs: "j \<noteq> i \<Longrightarrow> cells_of j st' = cells_of j st" for j by (auto simp: cells_of_def st' intro: filter_cong)
  have "group": "group_at h st' = group_at h st" for h using rel by (simp add: group_at_def st')
  have disp: "display_at d st' = display_at d s" for d by (simp add: st')
  have "sound_topology st'"
  proof (rule soundI)
    show "keyed st'" using sound_keyed [OF snd] rel by (simp add: keyed_def st' distinct_map_filter)
    show "names_ok st'" using k(1) rel by (simp add: names_ok_def st')
    show "distinct (map fst (tb_members st'))" using k(2) rel by (simp add: st')
    show "distinct (map tc_device (tb_cells st'))" using k(3) by (simp add: st' distinct_map_filter)
    show "member_ok st' e h" if "(e, h) \<in> set (tb_members st')" for e h
    proof -
      have "member_ok st e h" using that k(4) rel by (simp add: st')
      then obtain x y where m: "e \<notin> tc_device ` set (tb_cells st)" "display_at e st = Some x" "group_at h st = Some y"
        "td_workspace x = tg_workspace y" "td_wall x = None" unfolding member_ok_def by blast
      moreover have "display_at e st' = Some x" using m by (simp add: disp at)
      moreover have "e \<notin> tc_device ` set (tb_cells st')" using m(1) by (auto simp: st')
      ultimately show ?thesis by (simp add: member_ok_def "group")
    qed
    show "cell_ok st' c" if "c \<in> set (tb_cells st')" for c
    proof -
      have c: "cell_ok st c" "tc_wall c \<noteq> i" using that k(5) [of c] by (simp_all add: st')
      then obtain x w where m: "display_at (tc_device c) st = Some x" "wall_at (tc_wall c) st = Some w" "td_workspace x = wr_workspace w"
        "wr_workspace w \<noteq> None" "td_wall x = Some (tc_wall c)" unfolding cell_ok_def by blast
      moreover have "display_at (tc_device c) st' = Some x" using m c(2) by (simp add: disp at)
      moreover have "wall_at (tc_wall c) st' = Some w" using m(2) c(2) by (simp add: st' wall)
      ultimately show ?thesis by (simp add: cell_ok_def)
    qed
    show "0 < tw_cols v \<and> 0 < tw_rows v \<and> leader_ok st' v" if v: "wall_at j st' = Some v" for j v
    proof -
      have j: "wall_at j st = Some v" "j \<noteq> i" using v wall [of j] by (simp_all add: st' split: if_splits)
      with k(6) [OF j(1)] show ?thesis by (auto simp: leader_ok_def has cs split: option.splits)
    qed
    show "display_ok st' x" if x: "display_at e st' = Some x" for e x
    proof -
      from x obtain y where y: "display_at e st = Some y" "x = (if td_wall y = Some i then y\<lparr>td_wall := None, td_playlist := None\<rparr> else y)"
        by (auto simp: disp at)
      with k(7) [OF y(1)] show ?thesis by (auto simp: display_ok_def has split: option.splits)
    qed
    show "schedule_owned st' p" if "p \<in> set (tb_schedules st')" for p
    proof -
      have "schedule_owned st p" using that k(9) rel by (simp add: st')
      then show ?thesis by (auto simp: schedule_owned_def disp at "group" split: schedule_owner.splits)
    qed
  qed
  then show ?thesis using g rel by (simp add: good_topology_def st')
qed

lemma drop_free_display:
  assumes snd: "sound_topology st" and free: "d \<notin> tc_device ` set (tb_cells st)" "d \<notin> fst ` set (tb_members st)"
    and r: "delete_display_row b d st = Inr st'"
  shows "sound_topology st' \<and> tb_guarded st' = tb_guarded st"
proof (cases "display_at d st")
  case None
  with r snd show ?thesis by (simp add: delete_display_row_def Let_def)
next
  case (Some x)
  let ?st = "st\<lparr>tb_displays := filter (\<lambda>x. td_id x \<noteq> d) (tb_displays st), tb_members := filter (\<lambda>m. fst m \<noteq> d) (tb_members st),
    tb_schedules := filter (\<lambda>s. ts_owner s \<noteq> OfDisplay d) (tb_schedules st)\<rparr>"
  note k = soundD [OF snd]
  have "wr_leader w \<noteq> Some d" if w: "w \<in> set (tb_walls st)" for w
  proof
    assume "wr_leader w = Some d"
    then have "has_cell (wr_id w) d st" using w snd by (auto simp: sound_topology_def leader_ok_def)
    with free(1) show False by (auto simp: has_cell_def list_ex_iff)
  qed
  then have "filter (\<lambda>w. wr_leader w = Some d) (tb_walls ?st) = []" by (simp add: filter_empty_conv)
  moreover have "filter (\<lambda>c. tc_device c = d) (tb_cells ?st) = []" using free(1) by (auto simp: filter_empty_conv)
  ultimately have st': "st' = ?st" using r Some by (simp add: delete_display_row_def Let_def delete_cells_def when_ok_def split: if_splits)
  have at: "display_at e st' = (if e = d then None else display_at e st)" for e by (simp add: display_at_def st' find_filter_key)
  have other: "group_at h st' = group_at h st" "wall_at i st' = wall_at i st" "cells_of i st' = cells_of i st" "has_cell i e st' = has_cell i e st" for h i e
    by (simp_all add: group_at_def wall_at_def cells_of_def has_cell_def st')
  have "sound_topology st'"
  proof (rule soundI)
    show "keyed st'" using sound_keyed [OF snd] by (simp add: keyed_def st' distinct_map_filter)
    show "names_ok st'" using k(1) by (simp add: names_ok_def st')
    show "distinct (map fst (tb_members st'))" using k(2) by (simp add: st' distinct_map_filter)
    show "distinct (map tc_device (tb_cells st'))" using k(3) by (simp add: st')
    show "member_ok st' e h" if "(e, h) \<in> set (tb_members st')" for e h
      using that k(4) [of e h] by (auto simp: member_ok_def at other) (simp_all add: st')
    show "cell_ok st' c" if "c \<in> set (tb_cells st')" for c
    proof -
      have c: "c \<in> set (tb_cells st)" using that by (simp add: st')
      then have "tc_device c \<noteq> d" using free(1) by auto
      with k(5) [OF c] show ?thesis by (auto simp: cell_ok_def at other)
    qed
    show "0 < tw_cols v \<and> 0 < tw_rows v \<and> leader_ok st' v" if "wall_at j st' = Some v" for j v
      using that k(6) [of j v] by (auto simp: other leader_ok_def split: option.splits)
    show "display_ok st' x" if "display_at e st' = Some x" for e x
      using that k(7) [of e x] by (auto simp: at other display_ok_def split: if_splits option.splits)
    show "schedule_owned st' p" if "p \<in> set (tb_schedules st')" for p
    proof -
      have p: "schedule_owned st p" "ts_owner p \<noteq> OfDisplay d" using that k(9) by (simp_all add: st')
      then show ?thesis by (auto simp: schedule_owned_def at other split: schedule_owner.splits)
    qed
  qed
  then show ?thesis by (simp add: st')
qed

lemma remove_display_good: "remove_display h can d etag st = Inr st' \<Longrightarrow> good_topology st \<Longrightarrow> good_topology st'"
proof -
  assume r: "remove_display h can d etag st = Inr st'" and g: "good_topology st"
  let ?st = "st\<lparr>tb_schedules := filter (\<lambda>s. ts_owner s \<noteq> OfDisplay d) (tb_schedules st)\<rparr>"
  obtain s where s: "delete_cells (\<lambda>c. tc_device c = d) ?st = Inr s"
    "delete_display_row (rh_leader_first h) d (delete_members (\<lambda>m. fst m = d) s) = Inr st'"
    using r unfolding remove_display_def some_Inr guard_Inr aborted_Inr when_ok_Inr by blast
  have "good_topology ?st" using g by (simp add: good_topology_def sound_side_tables soundD(9))
  from good_delete_cells [OF this s(1)] have s': "good_topology s" "tb_cells s = filter (\<lambda>c. tc_device c \<noteq> d) (tb_cells st)" by simp_all
  have "good_topology (delete_members (\<lambda>m. fst m = d) s)" by (rule good_delete_members [OF s'(1)])
  moreover from this have "sound_topology st' \<and> tb_guarded st' = tb_guarded (delete_members (\<lambda>m. fst m = d) s)"
    unfolding good_topology_def by (intro drop_free_display [OF _ _ _ s(2)]) (auto simp: delete_members_def s'(2))
  ultimately show ?thesis by (simp add: good_topology_def)
qed

lemma enrol_row_good: "enrol_row d st = Inr st' \<Longrightarrow> good_topology st \<Longrightarrow> good_topology st'"
  by (auto simp: enrol_row_def good_topology_def intro!: sound_insert_display split: if_splits)

lemma claim_display_good: "claim_display d name user ws st = Inr st' \<Longrightarrow> good_topology st \<Longrightarrow> good_topology st'"
proof -
  assume r: "claim_display d name user ws st = Inr st'" and g: "good_topology st"
  let ?f = "\<lambda>x. x\<lparr>td_name := name, td_user := Some user, td_workspace := Some ws, td_status := ''online''\<rparr>"
  obtain x where x: "display_at d st = Some x" "td_user x = None" and st': "st' = on_display d ?f st"
    using r by (auto simp: claim_display_def split: option.splits if_splits)
  have snd: "sound_topology st" using g by (simp add: good_topology_def)
  note k = soundD [OF snd]
  have none: "td_workspace x = None" using k(7) [OF x(1)] x(2) by (simp add: display_ok_def)
  have free: "e \<noteq> d" if "(e, h) \<in> set (tb_members st)" for e h
  proof -
    have y: "\<exists>y. display_at e st = Some y \<and> td_workspace y \<noteq> None"
    proof -
      from sound_memberD [OF snd that] obtain y z where y: "display_at e st = Some y" "group_at h st = Some z" "td_workspace y = tg_workspace z" by metis
      have "z \<in> set (tb_groups st)" using y(2) keyed_rows(2) [OF sound_keyed [OF snd]] by simp
      then have "tg_workspace z \<noteq> None" using k(1) by (auto simp: names_ok_def blank_workspace_def split: option.splits)
      with y show ?thesis by simp
    qed
    then show ?thesis using x(1) none by auto
  qed
  have off: "tc_device c \<noteq> d" if "c \<in> set (tb_cells st)" for c
    using sound_cellD [OF snd that] x(1) none by (metis option.inject)
  have "sound_topology st'"
  proof (rule soundI)
    show "member_ok st' e h" if "(e, h) \<in> set (tb_members st')" for e h
      using that k(4) [of e h] free [of e h] by (auto simp: member_ok_def st')
    show "cell_ok st' c" if "c \<in> set (tb_cells st')" for c
      using that k(5) [of c] off [of c] by (auto simp: cell_ok_def st')
    show "0 < tw_cols v \<and> 0 < tw_rows v \<and> leader_ok st' v" if "wall_at j st' = Some v" for j v
      using that k(6) [of j v] by (simp add: st')
    show "display_ok st' y" if y: "display_at e st' = Some y" for e y
    proof (cases "e = d")
      case True
      with y x(1) have "y = ?f x" by (simp add: st')
      with k(7) [OF x(1)] show ?thesis by (auto simp: display_ok_def st' split: option.splits)
    next
      case False
      with y k(7) [of e y] show ?thesis by (simp add: st')
    qed
  qed (use snd in \<open>simp_all add: st' soundD sound_keyed\<close>)
  then show ?thesis using g by (simp add: good_topology_def st')
qed

subsection \<open>The machine\<close>

lemmas request_good = create_group_good edit_group_good remove_group_good join_group_good leave_group_good assign_group_playlist_good
  create_wall_good change_wall_good set_wall_devices_good set_wall_layout_good sync_regions_good remove_wall_good remove_display_good
  enrol_row_good claim_display_good

lemma topology_step_good: "good_topology st \<Longrightarrow> good_topology (topology_step e st)"
proof -
  assume g: "good_topology st"
  have "good_topology st'" if "serve_topology (fst e) (snd e) st = Inr st'" for st'
    using that g by (cases "snd e") (simp_all only: serve_topology.simps, (erule (1) request_good)+)
  with g show ?thesis by (simp add: topology_step_def split: sum.split)
qed

interpretation topologies: machine topology_step good_topology
  by unfold_locales (rule topology_step_good)

end
