(* ===== verification/TopologyProps.thy ===== *)
theory TopologyProps
  imports TopologyRoutes
begin

text \<open>
  What the guards and the requests give together: a topology the analysis finds clean stays clean in every category the guards
  are made for, a wall gets exactly the panels that were asked for, the schedules of a group outlive it, a display's own playlist
  is shared with nobody, and the membership check of a request agrees with the guards but for a display that is already there.
\<close>

subsection \<open>A clean topology is a sound one\<close>

text \<open>What the analysis does not look at: the primary keys, a leader of a wall without panels, a display that nobody has claimed.\<close>

definition rows_in_order :: "topology_db \<Rightarrow> bool" where
  "rows_in_order st \<longleftrightarrow> keyed st \<and> list_all (\<lambda>w. wr_id w \<noteq> [] \<and> (cells_of (wr_id w) st = [] \<longrightarrow> wr_leader w = None)) (tb_walls st)
     \<and> list_all (\<lambda>x. td_user x = None \<longrightarrow> td_workspace x = None) (tb_displays st)"

lemma single_keys:
  assumes "\<And>x. x \<in> set xs \<Longrightarrow> length (filter (\<lambda>y. f y = f x) xs) \<le> 1"
  shows "distinct (map f xs)"
  using assms
proof (induction xs)
  case (Cons a xs)
  have "length (filter (\<lambda>y. f y = f x) xs) \<le> 1" if "x \<in> set xs" for x using Cons.prems [of x] that by (simp split: if_splits)
  moreover have "filter (\<lambda>y. f y = f a) xs = []" using Cons.prems [of a] by simp
  ultimately show ?case using Cons.IH by (auto simp: filter_empty_conv)
qed simp

lemma repeated_keys: "repeated (\<lambda>d. map g (filter (\<lambda>x. f x = d) xs)) (map f xs) = [] \<Longrightarrow> distinct (map f xs)"
  by (rule single_keys) (auto simp: repeated_def filter_empty_conv not_less)

lemma not_blank: "\<not> blank_workspace ws \<Longrightarrow> ws \<noteq> None"
  by (cases ws) (simp_all add: blank_workspace_def)

lemma clean_names:
  assumes "orphan_groups st = []" "duplicate_group_names st = []"
  shows "names_ok st"
proof -
  have b: "\<not> blank_workspace (tg_workspace g)" if "g \<in> set (tb_groups st)" for g using assms(1) that by (auto simp: orphan_groups_def filter_empty_conv)
  then have named: "filter (\<lambda>g. tg_workspace g \<noteq> None) (tb_groups st) = tb_groups st"
    by (intro filter_True ballI not_blank)
  have "distinct (map (\<lambda>g. (tg_workspace g, name_key (tg_name g))) (tb_groups st))"
    using assms(2) unfolding duplicate_group_names_def Let_def named
    by (intro single_keys) (force simp: filter_empty_conv not_less)
  with b show ?thesis by (simp add: names_ok_def)
qed

lemma clean_rows:
  assumes "core_categories st = 0"
  shows "orphan_groups st = []" "wall_group_conflicts st = []" "duplicate_group_memberships st = []" "duplicate_wall_memberships st = []"
    "invalid_leaders st = []" "invalid_wall_dimensions st = []" "group_mismatches st = []" "wall_mismatches st = []"
    "wall_assignment_drift st = []" "duplicate_group_names st = []" "foreign_key_violations st = 0"
  using assms by (simp_all add: core_categories_def)

lemma no_violations:
  assumes "foreign_key_violations st = 0"
  shows "(d, g) \<in> set (tb_members st) \<Longrightarrow> display_at d st \<noteq> None \<and> group_at g st \<noteq> None"
    and "c \<in> set (tb_cells st) \<Longrightarrow> display_at (tc_device c) st \<noteq> None \<and> wall_at (tc_wall c) st \<noteq> None"
    and "s \<in> set (tb_schedules st) \<Longrightarrow> schedule_owned st s"
  using assms by (auto simp: foreign_key_violations_def filter_empty_conv)

lemma no_drift:
  assumes "wall_assignment_drift st = []" "x \<in> set (tb_displays st)"
  shows "walls_of_display (td_id x) st = [] \<Longrightarrow> wall_text (td_wall x) = []"
    and "w \<in> set (walls_of_display (td_id x) st) \<Longrightarrow> wall_text (td_wall x) = w"
proof -
  have d: "filter (\<lambda>(d, a, b). wall_text a \<noteq> wall_text b)
      (case walls_of_display (td_id x) st of [] \<Rightarrow> [(td_id x, td_wall x, None)] | v # vs \<Rightarrow> map (\<lambda>w. (td_id x, td_wall x, Some w)) (v # vs)) = []"
    using assms by (simp add: wall_assignment_drift_def)
  show "wall_text (td_wall x) = []" if "walls_of_display (td_id x) st = []" using d that by (simp add: wall_text_def split: if_splits)
  show "wall_text (td_wall x) = w" if "w \<in> set (walls_of_display (td_id x) st)"
  proof (cases "walls_of_display (td_id x) st")
    case (Cons v vs)
    with d that show ?thesis by (auto simp: filter_empty_conv wall_text_def split: if_splits)
  qed (use that in simp)
qed

lemma no_conflict:
  assumes "wall_group_conflicts st = []" "x \<in> set (tb_displays st)" "g \<in> set (groups_of_display (td_id x) st)"
  shows "walls_of_display (td_id x) st = [] \<and> td_wall x = None"
proof -
  have "set (wall_group_conflicts st) = {}" using assms(1) by simp
  then have "\<forall>g \<in> set (groups_of_display (td_id x) st). (case walls_of_display (td_id x) st of
      [] \<Rightarrow> (case td_wall x of None \<Rightarrow> [] | Some w \<Rightarrow> [w]) | v # vs \<Rightarrow> v # vs) = []"
    using assms(2) unfolding wall_group_conflicts_def set_dedup by (simp add: Let_def)
  with assms(3) show ?thesis by (auto split: list.splits option.splits)
qed

lemma clean_sound:
  assumes clean: "core_categories st = 0" and rows: "rows_in_order st"
  shows "sound_topology st"
proof (rule soundI)
  note c = clean_rows [OF clean] and fk = no_violations [OF clean_rows(11) [OF clean]]
  show k: "keyed st" using rows by (simp add: rows_in_order_def)
  show "names_ok st" by (rule clean_names [OF c(1,10)])
  show "distinct (map fst (tb_members st))"
    using c(3) unfolding duplicate_group_memberships_def groups_of_display_def by (rule repeated_keys)
  show cells: "distinct (map tc_device (tb_cells st))"
    using c(4) unfolding duplicate_wall_memberships_def walls_of_display_def by (rule repeated_keys)
  show "schedule_owned st s" if "s \<in> set (tb_schedules st)" for s by (rule fk(3) [OF that])
  have held: "wr_id w = i \<and> w \<in> set (tb_walls st)" if "wall_at i st = Some w" for i w using that keyed_rows(3) [OF k] by simp
  have disp: "td_id x = e \<and> x \<in> set (tb_displays st)" if "display_at e st = Some x" for e x using that keyed_rows(1) [OF k] by simp
  show "member_ok st d g" if m: "(d, g) \<in> set (tb_members st)" for d g
  proof -
    obtain x y where x: "display_at d st = Some x" "group_at g st = Some y" using fk(1) [OF m] by auto
    have "g \<in> set (groups_of_display (td_id x) st)" using m disp [OF x(1)] by (force simp: groups_of_display_def)
    then have "walls_of_display d st = [] \<and> td_wall x = None" using no_conflict [OF c(2)] disp [OF x(1)] by auto
    moreover have "\<not> blank_workspace (tg_workspace y)" using c(1) x(2) keyed_rows(2) [OF k] by (auto simp: orphan_groups_def filter_empty_conv)
    then have "tg_workspace y \<noteq> None" by (rule not_blank)
    then have "td_workspace x = tg_workspace y" using c(7) m x by (auto simp: group_mismatches_def filter_empty_conv)
    ultimately show ?thesis using x by (auto simp: member_ok_def walls_of_display_def filter_empty_conv)
  qed
  show "cell_ok st p" if p: "p \<in> set (tb_cells st)" for p
  proof -
    obtain x w where x: "display_at (tc_device p) st = Some x" "wall_at (tc_wall p) st = Some w" using fk(2) [OF p] by auto
    have "tc_wall p \<in> set (walls_of_display (td_id x) st)" using p disp [OF x(1)] by (auto simp: walls_of_display_def)
    from no_drift(2) [OF c(9) _ this] have "wall_text (td_wall x) = tc_wall p" using disp [OF x(1)] by simp
    moreover have "tc_wall p \<noteq> []" using rows held [OF x(2)] by (auto simp: rows_in_order_def list_all_iff)
    ultimately have "td_wall x = Some (tc_wall p)" by (auto simp: wall_text_def split: option.splits)
    moreover have "wr_workspace w \<noteq> None \<and> td_workspace x = wr_workspace w" using c(8) p x by (auto simp: wall_mismatches_def filter_empty_conv)
    ultimately show ?thesis using x by (auto simp: cell_ok_def)
  qed
  show "0 < tw_cols w \<and> 0 < tw_rows w \<and> leader_ok st w" if w: "wall_at i st = Some w" for i w
  proof -
    have m: "w \<in> set (tb_walls st)" using held [OF w] by simp
    have empty: "wr_leader w = None" if "cells_of (wr_id w) st = []"
      using rows m that by (simp add: rows_in_order_def list_all_iff)
    have "cells_of (wr_id w) st \<noteq> [] \<longrightarrow> \<not> (case wr_leader w of None \<Rightarrow> True | Some d \<Rightarrow> \<not> has_cell (wr_id w) d st)"
      using c(5) m unfolding invalid_leaders_def filter_empty_conv by blast
    with empty have "leader_ok st w" by (cases "cells_of (wr_id w) st = []") (auto simp: leader_ok_def split: option.splits)
    moreover have "0 < tw_cols w \<and> 0 < tw_rows w" using c(6) m by (simp add: invalid_wall_dimensions_def filter_empty_conv not_le)
    ultimately show ?thesis by simp
  qed
  show "display_ok st x" if x: "display_at e st = Some x" for e x
  proof -
    have u: "td_user x = None \<longrightarrow> td_workspace x = None" using rows disp [OF x] by (auto simp: rows_in_order_def list_all_iff)
    have "w = [] \<or> has_cell w (td_id x) st" if w: "td_wall x = Some w" for w
    proof (cases "walls_of_display (td_id x) st")
      case Nil
      with no_drift(1) [OF c(9) conjunct2 [OF disp [OF x]]] w show ?thesis by (simp add: wall_text_def)
    next
      case (Cons v vs)
      then have "v \<in> set (walls_of_display (td_id x) st)" by simp
      moreover from this have "wall_text (td_wall x) = v" using no_drift(2) [OF c(9)] disp [OF x] by simp
      ultimately show ?thesis using w by (auto simp: wall_text_def walls_of_display_def has_cell_def list_ex_iff)
    qed
    with u show ?thesis by (auto simp: display_ok_def split: option.split)
  qed
qed

lemma issues_core: "issue_count (analyze_topology h st) = 0 \<Longrightarrow> core_categories st = 0"
  by (simp add: issue_count_def analyze_topology_def core_categories_def)

lemma activated_good:
  assumes "issue_count (analyze_topology h st) = 0" "rows_in_order st"
  shows "good_topology (activate_guards h st)"
proof -
  have s: "sound_topology st" by (rule clean_sound [OF issues_core [OF assms(1)] assms(2)])
  let ?st = "st\<lparr>tb_guarded := True\<rparr>"
  have rows [simp]: "display_at d ?st = display_at d st" "group_at g ?st = group_at g st" "wall_at w ?st = wall_at w st"
    "cells_of w ?st = cells_of w st" "has_cell w d ?st = has_cell w d st" for d g w
    by (simp_all add: display_at_def group_at_def wall_at_def cells_of_def has_cell_def)
  have "keyed ?st = keyed st" "names_ok ?st = names_ok st" "member_ok ?st = member_ok st" "cell_ok ?st = cell_ok st"
    "leader_ok ?st = leader_ok st" "display_ok ?st = display_ok st" "schedule_owned ?st = schedule_owned st"
    by (simp_all add: fun_eq_iff keyed_def names_ok_def member_ok_def cell_ok_def leader_ok_def display_ok_def schedule_owned_def
        split: option.split schedule_owner.split)
  then have "sound_topology ?st" using s unfolding sound_topology_def by simp
  then show ?thesis using assms(1) by (simp add: activate_guards_def install_guards_def good_topology_def)
qed


subsection \<open>What the requests do\<close>

lemma set_playlist_tables [simp]:
  "tb_cells (set_playlist p d st) = tb_cells st" "tb_members (set_playlist p d st) = tb_members st"
  "tb_walls (set_playlist p d st) = tb_walls st" "tb_playlists (set_playlist p d st) = tb_playlists st"
  by (simp_all add: set_playlist_def on_display_def)

lemma shared_tables [simp]:
  "tb_cells (fold (set_playlist p) ds st) = tb_cells st" "tb_members (fold (set_playlist p) ds st) = tb_members st"
  by (induction ds arbitrary: st) simp_all

lemma ensure_tables:
  assumes "ensure_device_playlist fresh ds d st = Inr st'"
  shows "tb_cells st' = tb_cells st \<and> tb_members st' = tb_members st"
  using assms by (auto simp: ensure_device_playlist_def clone_playlist_for_device_def Let_def split: option.splits if_splits)

lemma update_wall_tables:
  assumes "update_display_wall d w st = Inr st'"
  shows "tb_cells st' = tb_cells st \<and> tb_members st' = tb_members st"
  using assms by (auto simp: update_display_wall_def split: if_splits)

lemma placed_panel:
  assumes r: "place_panel uid w c st = Inr st'" and g: "good_topology st"
  shows "tb_cells st' = tb_cells st @ [c] \<and> tb_members st' = filter (\<lambda>m. fst m \<noteq> tc_device c) (tb_members st)"
proof -
  obtain st1 st2 where s: "insert_cell c (delete_members (\<lambda>m. fst m = tc_device c) st) = Inr st1"
    "(if wr_mode w = Some ''split'' then ensure_device_playlist (uid (tc_device c)) {} (tc_device c) st1
      else Inr (set_playlist (given (wr_playlist w)) (tc_device c) st1)) = Inr st2"
    "update_display_wall (tc_device c) (Some (wr_id w)) st2 = Inr st'"
    using r unfolding place_panel_def when_ok_Inr by blast
  have g1: "good_topology (delete_members (\<lambda>m. fst m = tc_device c) st)" by (rule good_delete_members [OF g])
  then have "sound_topology (delete_members (\<lambda>m. fst m = tc_device c) st)" "tb_guarded (delete_members (\<lambda>m. fst m = tc_device c) st)"
    by (simp_all add: good_topology_def)
  from insert_cell_result(2) [OF this s(1)] have "tb_cells st1 = tb_cells st @ [c]" "tb_members st1 = filter (\<lambda>m. fst m \<noteq> tc_device c) (tb_members st)"
    by (simp_all add: Let_def delete_members_def)
  moreover have "tb_cells st2 = tb_cells st1 \<and> tb_members st2 = tb_members st1"
    using s(2) ensure_tables [of "uid (tc_device c)" "{}" "tc_device c" st1 st2] by (auto split: if_splits)
  ultimately show ?thesis using update_wall_tables [OF s(3)] by simp
qed

lemma placed_panels:
  "for_each (place_panel uid w) cs st = Inr st' \<Longrightarrow> good_topology st \<Longrightarrow>
     tb_cells st' = tb_cells st @ cs \<and> tb_members st' = filter (\<lambda>m. fst m \<notin> tc_device ` set cs) (tb_members st)"
proof (induction cs arbitrary: st)
  case (Cons c cs)
  then obtain s where s: "place_panel uid w c st = Inr s" "for_each (place_panel uid w) cs s = Inr st'" by (auto simp: when_ok_Inr)
  with Cons.IH [OF s(2)] placed_panel [OF s(1)] good_place_panel [OF s(1)] Cons.prems(2) show ?case
    by (auto intro: filter_cong)
qed simp

lemma rearranged:
  assumes r: "rearrange_wall uid w cs st = Inr st'" and g: "good_topology st"
  shows "tb_cells st' = filter (\<lambda>c. tc_wall c \<noteq> wr_id w) (tb_cells st) @ cs
    \<and> tb_members st' = filter (\<lambda>m. fst m \<notin> tc_device ` set cs) (tb_members st)"
proof -
  let ?i = "wr_id w" and ?removed = "filter (\<lambda>d. d \<notin> tc_device ` set cs) (members_of_row (wr_id w) st)"
  obtain st1 st2 st3 st4 where s: "delete_cells (\<lambda>c. tc_wall c = ?i) st = Inr st1"
    "for_each (\<lambda>x. update_display_wall (td_id x) None) (filter (\<lambda>x. td_wall x = Some ?i) (tb_displays st1)) st1 = Inr st2"
    "for_each (place_panel uid w) cs (fold (set_playlist None) ?removed st2) = Inr st3"
    "update_leader ?i (map_option tc_device (nearest_cell cs)) st3 = Inr st4"
    "tb_cells st' = tb_cells st4" "tb_members st' = tb_members st4"
    using r unfolding rearrange_wall_def Let_def when_ok_Inr by auto
  have d: "good_topology st1" "tb_cells st1 = filter (\<lambda>c. tc_wall c \<noteq> ?i) (tb_cells st)" "tb_members st1 = tb_members st"
    using good_delete_cells [OF g s(1)] by simp_all
  have "good_topology st2 \<and> tb_cells st2 = tb_cells st1" by (rule good_clear_walls [OF s(2) d(1) cleared_free [OF d(1,2)]]) simp_all
  moreover have "tb_members st2 = tb_members st1"
    by (rule for_each_keeps [OF s(2)]) (auto dest: update_wall_tables)
  moreover have "tb_cells st4 = tb_cells st3 \<and> tb_members st4 = tb_members st3"
    using s(4) by (auto simp: update_leader_def split: if_splits)
  ultimately show ?thesis using placed_panels [OF s(3)] good_shared_playlist [of st2] d s(5,6) by simp
qed


lemma members_off_walls:
  assumes "good_topology st"
  shows "filter (\<lambda>m. fst m \<notin> tc_device ` set (cells_of i st)) (tb_members st) = tb_members st"
proof -
  have "fst m \<notin> tc_device ` set (cells_of i st)" if "m \<in> set (tb_members st)" for m
    using soundD(4) [of st "fst m" "snd m"] assms that by (auto simp: good_topology_def member_ok_def cells_of_def)
  then show ?thesis by (simp add: filter_True)
qed

lemma same_devices: "set (map cell_facts as) = set (map cell_facts bs) \<Longrightarrow> tc_device ` set as = tc_device ` set bs"
proof -
  assume "set (map cell_facts as) = set (map cell_facts bs)"
  then have "fst ` set (map cell_facts as) = fst ` set (map cell_facts bs)" by simp
  then show ?thesis by (simp add: image_image cell_facts_def)
qed

lemma loaded_row: "load_wall_row can i st = Inr w \<Longrightarrow> wall_at i st = Some w \<and> wr_id w = i"
  by (auto simp: load_wall_row_def wall_at_def find_Some_iff split: option.splits if_splits)

lemma wall_devices_tables:
  assumes r: "set_wall_devices can uid i expected cs st = Inr st'" and g: "good_topology st"
  shows "tc_device ` set (cells_of i st') = tc_device ` set cs" "set (map cell_facts (cells_of i st')) = set (map cell_facts cs)"
    and "filter (\<lambda>c. tc_wall c \<noteq> i) (tb_cells st') = filter (\<lambda>c. tc_wall c \<noteq> i) (tb_cells st)"
    and "tb_members st' = filter (\<lambda>m. fst m \<notin> tc_device ` set cs) (tb_members st)"
proof -
  obtain w where w: "load_wall_row can i st = Inr w"
    "st' = st \<and> set (map cell_facts (cells_of i st)) = set (map cell_facts cs) \<or> rearrange_wall uid w (map (\<lambda>c. c\<lparr>tc_wall := i\<rparr>) cs) st = Inr st'"
    using r unfolding set_wall_devices_def bind_Inr guard_Inr none_Inr either_Inr aborted_Inr not_not by (elim exE conjE) blast
  let ?cs = "map (\<lambda>c. c\<lparr>tc_wall := i\<rparr>) cs"
  have facts: "map cell_facts ?cs = map cell_facts cs" "tc_device ` set ?cs = tc_device ` set cs" by (simp_all add: cell_facts_def image_image)
  have own: "filter (\<lambda>c. tc_wall c = i) ?cs = ?cs" "filter (\<lambda>c. tc_wall c \<noteq> i) ?cs = []" by (simp_all add: filter_True filter_empty_conv)
  have cases: "set (map cell_facts (cells_of i st')) = set (map cell_facts cs)
    \<and> filter (\<lambda>c. tc_wall c \<noteq> i) (tb_cells st') = filter (\<lambda>c. tc_wall c \<noteq> i) (tb_cells st)
    \<and> tb_members st' = filter (\<lambda>m. fst m \<notin> tc_device ` set cs) (tb_members st)"
    using w(2)
  proof
    assume same: "st' = st \<and> set (map cell_facts (cells_of i st)) = set (map cell_facts cs)"
    then have "tc_device ` set (cells_of i st) = tc_device ` set cs" by (intro same_devices) simp
    with members_off_walls [OF g, of i] same show ?thesis by simp
  next
    assume "rearrange_wall uid w ?cs st = Inr st'"
    from rearranged [OF this g] loaded_row [OF w(1)] facts own
    show ?thesis by (simp add: cells_of_def)
  qed
  then show "set (map cell_facts (cells_of i st')) = set (map cell_facts cs)"
    "filter (\<lambda>c. tc_wall c \<noteq> i) (tb_cells st') = filter (\<lambda>c. tc_wall c \<noteq> i) (tb_cells st)"
    "tb_members st' = filter (\<lambda>m. fst m \<notin> tc_device ` set cs) (tb_members st)" by simp_all
  then show "tc_device ` set (cells_of i st') = tc_device ` set cs" by (intro same_devices)
qed

lemma wall_leader:
  assumes "good_topology st" "wall_at i st = Some w"
  shows "case wr_leader w of None \<Rightarrow> cells_of i st = [] | Some d \<Rightarrow> d \<in> tc_device ` set (cells_of i st)"
  using soundD(6) [of st i w] assms
  by (auto simp: good_topology_def leader_ok_def has_cell_def cells_of_def list_ex_iff split: option.splits)

lemma cell_display:
  assumes "good_topology st" "d \<in> tc_device ` set (cells_of i st)"
  shows "\<exists>x. display_at d st = Some x \<and> td_wall x = Some i"
  using soundD(5) [of st] assms by (auto simp: good_topology_def cells_of_def cell_ok_def)

lemma replaced_schedules:
  assumes "remove_group can uid i st = Inr st'"
  shows "tb_schedules st' = filter (\<lambda>s. ts_owner s \<noteq> OfGroup i) (tb_schedules st @ converted_schedules uid i st)"
proof -
  obtain st1 where st1: "for_each insert_owned_schedule (converted_schedules uid i st) st = Inr st1"
    "delete_group i (st1\<lparr>tb_schedules := filter (\<lambda>s. ts_owner s \<noteq> OfGroup i) (tb_schedules st1)\<rparr>) = Inr st'"
    using assms unfolding remove_group_def reply_Inr by blast
  with schedules_inserted [OF st1(1)] show ?thesis by (auto simp: delete_group_def split: if_splits)
qed

lemma playlist_of_set [simp]:
  "playlist_of e (set_playlist p d st) = (if e = d \<and> display_at d st \<noteq> None then p else playlist_of e st)"
  by (auto simp: playlist_of_def set_playlist_def split: option.split)

lemma exclusive_holders:
  assumes "playlist_is_exclusive p ds st" "playlist_of e st = Some p"
  shows "e \<in> ds"
  using assms by (auto simp: playlist_is_exclusive_def list_all_iff playlist_of_def display_at_def find_Some_iff split: option.splits)

lemma cloned_playlist:
  assumes c: "clone_playlist_for_device fresh d x st = Inr st'" and d: "display_at d st \<noteq> None"
  shows "playlist_of d st' = Some fresh" "e \<noteq> d \<Longrightarrow> playlist_of e st' = playlist_of e st"
    and "\<exists>y. playlist_at fresh st' = Some y \<and> py_auto y \<and> py_items y = map clone_item (held_items x st)"
proof -
  let ?y = "\<lparr>py_id = fresh, py_auto = True, py_workspace = given (td_workspace x), py_items = map clone_item (held_items x st)\<rparr>"
  have st': "st' = set_playlist (Some fresh) d (st\<lparr>tb_playlists := tb_playlists st @ [?y]\<rparr>)" and new: "playlist_at fresh st = None"
    using c by (auto simp: clone_playlist_for_device_def Let_def split: if_splits)
  have same: "playlist_of e (st\<lparr>tb_playlists := ps\<rparr>) = playlist_of e st" for e ps by (simp add: playlist_of_def)
  show "playlist_of d st' = Some fresh" "e \<noteq> d \<Longrightarrow> playlist_of e st' = playlist_of e st"
    using d by (simp_all add: st' same)
  show "\<exists>y. playlist_at fresh st' = Some y \<and> py_auto y \<and> py_items y = map clone_item (held_items x st)"
    using new by (simp add: st' playlist_at_def find_append)
qed


lemma set_insert_text: "set (insert_text s ts) = insert s (set ts)"
  by (induction ts) auto

lemma group_memberships_in: "g \<in> set (group_memberships_for d st) \<longleftrightarrow> (d, g) \<in> set (tb_members st)"
proof -
  have "set (foldr insert_text ts []) = set ts" for ts by (induction ts) (simp_all add: set_insert_text)
  then show ?thesis by (force simp: group_memberships_for_def groups_of_display_def)
qed

lemma least_text_in: "least_text ts = None \<longleftrightarrow> ts = []" "least_text ts = Some t \<Longrightarrow> t \<in> set ts"
  by (induction ts arbitrary: t) (auto split: option.splits if_splits)

lemma group_workspace:
  assumes "good_topology st" "group_at i st = Some gr"
  shows "tg_workspace gr \<noteq> None"
proof -
  have s: "sound_topology st" using assms(1) by (simp add: good_topology_def)
  have "gr \<in> set (tb_groups st)" using assms(2) keyed_rows(2) [OF sound_keyed [OF s]] by simp
  then show ?thesis using soundD(1) [OF s] by (intro not_blank) (simp add: names_ok_def)
qed

lemma free_of_walls:
  assumes g: "good_topology st" and x: "display_at d st = Some x" "td_wall x \<noteq> Some []"
    and free: "\<not> (case wall_membership_for d st of None \<Rightarrow> False | Some w \<Rightarrow> w \<noteq> [])"
  shows "\<not> on_wall d st \<and> td_wall x = None"
proof (cases "least_text (walls_of_display d st)")
  case None
  then have "walls_of_display d st = []" by (simp add: least_text_in(1))
  then have "\<not> on_wall d st" by (auto simp: walls_of_display_def on_wall_def filter_empty_conv list_ex_iff)
  moreover have "td_wall x = None" using free None x by (auto simp: wall_membership_for_def split: option.splits if_splits)
  ultimately show ?thesis by simp
next
  case (Some w)
  then have "w \<in> set (walls_of_display d st)" by (rule least_text_in(2))
  then obtain c where c: "c \<in> set (tb_cells st)" "tc_device c = d" "tc_wall c = w" by (auto simp: walls_of_display_def)
  have "td_wall x = Some w" using soundD(5) [of st c] g x(1) c by (auto simp: good_topology_def cell_ok_def)
  with free Some x(2) show ?thesis by (auto simp: wall_membership_for_def)
qed

lemma ensured_cases:
  assumes "ensure_device_playlist fresh mutable d st = Inr st'" "display_at d st = Some x"
  shows "clone_playlist_for_device fresh d x st = Inr st' \<or> (\<exists>p y. given (td_playlist x) = Some p \<and> playlist_at p st = Some y
    \<and> py_auto y \<and> playlist_is_exclusive p (insert d mutable) st \<and> st' = st)"
proof (cases "given (td_playlist x)")
  case None
  with assms show ?thesis by (simp add: ensure_device_playlist_def)
next
  case (Some p)
  note p = Some
  show ?thesis
  proof (cases "playlist_at p st")
    case None
    with assms p show ?thesis by (simp add: ensure_device_playlist_def)
  next
    case (Some y)
    with assms p show ?thesis by (cases "\<not> split_wall_source d p st \<and> py_auto y \<and> playlist_is_exclusive p (insert d mutable) st")
        (simp_all add: ensure_device_playlist_def)
  qed
qed

subsection \<open>Guarantees\<close>

text \<open>C3: Once the guards are activated over a topology without issues, no run of requests brings back an issue of the kinds the
  guards are made for: every display stays in at most one wall or group, in its own workspace, every wall with panels has one
  of them as its leader, names of groups stay apart, and no row refers to one that is gone.\<close>

theorem guards_keep_topology:
  assumes "issue_count (analyze_topology h st) = 0" "rows_in_order st"
  shows "core_categories (run_events topology_step es (activate_guards h st)) = 0"
  using topologies.run_good [OF activated_good [OF assms], of es] by (simp add: good_topology_def sound_core)

text \<open>C16: When the panels of a wall are set, the wall has exactly the panels that were asked for, at the places that were asked for,
  each of them is assigned to the wall and in no group, the leader is one of them, and the other walls keep theirs.\<close>

theorem wall_gets_its_panels:
  assumes r: "set_wall_devices can uid i expected cs st = Inr st'" and g: "good_topology st"
  shows "set (map cell_facts (cells_of i st')) = set (map cell_facts cs)
    \<and> filter (\<lambda>c. tc_wall c \<noteq> i) (tb_cells st') = filter (\<lambda>c. tc_wall c \<noteq> i) (tb_cells st)
    \<and> (\<forall>d \<in> tc_device ` set cs. groups_of_display d st' = [] \<and> (\<exists>x. display_at d st' = Some x \<and> td_wall x = Some i))
    \<and> (\<forall>w. wall_at i st' = Some w \<longrightarrow> (case wr_leader w of None \<Rightarrow> cs = [] | Some d \<Rightarrow> d \<in> tc_device ` set cs))"
proof -
  note t = wall_devices_tables [OF r g] and g' = set_wall_devices_good [OF r g]
  have "groups_of_display d st' = []" if "d \<in> tc_device ` set cs" for d using that by (auto simp: groups_of_display_def t(4) filter_empty_conv)
  moreover have "\<exists>x. display_at d st' = Some x \<and> td_wall x = Some i" if "d \<in> tc_device ` set cs" for d
    using cell_display [OF g'] that by (simp add: t(1))
  moreover have "case wr_leader w of None \<Rightarrow> cs = [] | Some d \<Rightarrow> d \<in> tc_device ` set cs" if "wall_at i st' = Some w" for w
    using wall_leader [OF g' that] t(1) by (auto split: option.splits)
  ultimately show ?thesis using t(2,3) by simp
qed

text \<open>When a group is removed, every schedule it had goes on as a schedule of each of its members, with the same plan, and no
  schedule is left that refers to the group.\<close>

theorem group_schedules_survive:
  assumes r: "remove_group can uid i st = Inr st'" and "(d, i) \<in> set (tb_members st)" "s \<in> set (tb_schedules st)" "ts_owner s = OfGroup i"
  shows "(\<exists>s' \<in> set (tb_schedules st'). ts_owner s' = OfDisplay d \<and> ts_plan s' = ts_plan s)
    \<and> OfGroup i \<notin> ts_owner ` set (tb_schedules st') \<and> set (filter (\<lambda>s. ts_owner s \<noteq> OfGroup i) (tb_schedules st)) \<subseteq> set (tb_schedules st')"
proof -
  have "s\<lparr>ts_id := uid (ts_id s) d, ts_owner := OfDisplay d\<rparr> \<in> set (converted_schedules uid i st)"
    using assms(2-4) by (force simp: converted_schedules_def)
  then have "s\<lparr>ts_id := uid (ts_id s) d, ts_owner := OfDisplay d\<rparr> \<in> set (tb_schedules st')" by (simp add: replaced_schedules [OF r])
  then have "\<exists>s' \<in> set (tb_schedules st'). ts_owner s' = OfDisplay d \<and> ts_plan s' = ts_plan s" by (rule rev_bexI) simp
  moreover have "OfGroup i \<notin> ts_owner ` set (tb_schedules st')" by (auto simp: replaced_schedules [OF r])
  moreover have "set (filter (\<lambda>s. ts_owner s \<noteq> OfGroup i) (tb_schedules st)) \<subseteq> set (tb_schedules st')" by (simp add: replaced_schedules [OF r])
  ultimately show ?thesis by blast
qed

text \<open>After a display's playlist is ensured it plays a playlist of its own: one that exists, is generated, and is held by no
  display outside those the caller may change; a copy has the items the display had.\<close>

theorem ensured_playlist_is_own:
  assumes r: "ensure_device_playlist fresh mutable d st = Inr st'" and x: "display_at d st = Some x" and new: "\<forall>e. playlist_of e st \<noteq> Some fresh"
  shows "\<exists>p y. playlist_of d st' = Some p \<and> playlist_at p st' = Some y \<and> py_auto y
    \<and> (\<forall>e. playlist_of e st' = Some p \<longrightarrow> e = d \<or> e \<in> mutable)
    \<and> py_items y \<in> {held_items x st, map clone_item (held_items x st)}"
proof (cases "clone_playlist_for_device fresh d x st = Inr st'")
  case True
  have "display_at d st \<noteq> None" using x by simp
  note c = cloned_playlist [OF True this]
  from c(3) obtain y where y: "playlist_at fresh st' = Some y" "py_auto y" "py_items y = map clone_item (held_items x st)" by blast
  moreover have "\<forall>e. playlist_of e st' = Some fresh \<longrightarrow> e = d \<or> e \<in> mutable" by (metis c(2) new)
  moreover have "py_items y \<in> {held_items x st, map clone_item (held_items x st)}" using y(3) by simp
  ultimately show ?thesis using c(1) y(1,2) by blast
next
  case False
  then obtain p y where p: "given (td_playlist x) = Some p" "playlist_at p st = Some y" "py_auto y" "playlist_is_exclusive p (insert d mutable) st" "st' = st"
    using ensured_cases [OF r x] by blast
  then have "playlist_of d st = Some p" using x by (auto simp: playlist_of_def given_def split: option.splits if_splits)
  moreover have "held_items x st = py_items y" using p by (simp add: held_items_def)
  ultimately show ?thesis using p exclusive_holders [OF p(4)] by auto
qed

text \<open>The membership check that precedes a request to join a group and the guards behind it agree on every display but one: a
  display that is in the group already passes the check, and the guards turn the request away all the same.\<close>

theorem join_check_and_guards:
  assumes g: "good_topology st" and "load_group can i st = Inr gr" and d: "given dev = Some d" "display_at d st = Some x"
    and "td_workspace x = tg_workspace gr" "td_wall x \<noteq> Some []" and ok: "assert_can_join_group d i st = Inr already"
  shows "case join_group can i dev st of Inl e \<Rightarrow> already \<and> e = (400, ''aborted'') | Inr st' \<Rightarrow> \<not> already \<and> tb_members st' = tb_members st @ [(d, i)]"
proof -
  have gr: "group_at i st = Some gr" using assms(2) by (auto simp: load_group_def split: option.splits if_splits)
  have j: "join_group can i dev st = (case aborted 400 (insert_membership d i st) of Inl e \<Rightarrow> Inl e
      | Inr st1 \<Rightarrow> Inr (set_playlist (given (tg_playlist gr)) d st1))"
    using assms(2-5) ok by (simp add: join_group_def)
  show ?thesis
  proof (cases already)
    case True
    then have "(d, i) \<in> set (tb_members st)" using ok by (simp add: assert_can_join_group_def group_memberships_in split: if_splits)
    then have "in_group d st" by (force simp: in_group_def list_ex_iff)
    with g j True show ?thesis by (simp add: insert_membership_def good_topology_def aborted_def)
  next
    case False
    then have "\<not> in_group d st" using ok by (auto simp: assert_can_join_group_def group_memberships_in in_group_def list_ex_iff split: if_splits)
    moreover have "\<not> on_wall d st \<and> td_wall x = None" using free_of_walls [OF g d(2) assms(6)] ok by (simp add: assert_can_join_group_def split: if_splits)
    moreover have "belongs d (tg_workspace gr) st"
      using g d(2) assms(5) gr by (auto simp: belongs_def dest: group_workspace)
    moreover have "(d, i) \<notin> set (tb_members st)" using \<open>\<not> in_group d st\<close> by (auto simp: in_group_def list_ex_iff)
    ultimately have "insert_membership d i st = Inr (st\<lparr>tb_members := tb_members st @ [(d, i)]\<rparr>)"
      using g d(2) gr by (simp add: insert_membership_def good_topology_def)
    with j False show ?thesis by (simp add: aborted_def)
  qed
qed


subsection \<open>A site\<close>

text \<open>A wall of two panels, a group with a schedule and a display that is in it.\<close>

definition site_display :: "string \<Rightarrow> string option \<Rightarrow> string option \<Rightarrow> topo_display" where
  "site_display d w p = \<lparr>td_id = d, td_name = d, td_user = Some ''u'', td_workspace = Some ''ws'', td_wall = w, td_screen_on = True,
     td_layout = None, td_playlist = p, td_status = ''online''\<rparr>"

definition site_cell :: "string \<Rightarrow> int \<Rightarrow> topo_cell" where
  "site_cell d col = \<lparr>tc_wall = ''W'', tc_device = d, tc_col = col, tc_row = 0, tc_rotation = 0, tc_canvas = (None, None, None, None)\<rparr>"

definition site :: topology_db where
  "site = \<lparr>tb_displays = [site_display ''A'' (Some ''W'') (Some ''P''), site_display ''B'' (Some ''W'') (Some ''P''), site_display ''C'' None None],
     tb_groups = [\<lparr>tg_id = ''G'', tg_user = ''u'', tg_workspace = Some ''ws'', tg_name = ''Lobby'', tg_color = ''#000000'', tg_playlist = None\<rparr>],
     tb_members = [(''C'', ''G'')],
     tb_walls = [\<lparr>wr_id = ''W'', wr_mode = Some ''span'', wr_revision = jint 0, wr_json = NoLayout, wr_leader = Some ''A'', wr_playlist = Some ''P'',
       wr_workspace = Some ''ws'', tw_name = ''Wall'', tw_cols = 2, tw_rows = 1, tw_locked = False\<rparr>],
     tb_cells = [site_cell ''A'' 0, site_cell ''B'' 1],
     tb_schedules = [\<lparr>ts_id = ''S'', ts_owner = OfGroup ''G'', ts_plan = JStr ''daily''\<rparr>],
     tb_playlists = [\<lparr>py_id = ''P'', py_auto = False, py_workspace = Some ''ws'', py_items = []\<rparr>], tb_guarded = False\<rparr>"

definition site_host :: layout_host where
  "site_host = \<lparr>h_before = (\<lambda>a b. False), h_digest = (\<lambda>s. s)\<rparr>"

lemma site_clean: "issue_count (analyze_topology site_host site) = 0" "rows_in_order site"
  by code_simp+

lemma site_good: "good_topology (activate_guards site_host site)"
  by (rule activated_good [OF site_clean])

text \<open>The third display takes the place of the second; a display of another workspace is refused.\<close>

lemma site_requests:
  "\<not> isl (set_wall_devices (\<lambda>ws. True) (\<lambda>d. ''own-'' @ d) ''W'' (jint 0) [site_cell ''A'' 0, site_cell ''C'' 1] (activate_guards site_host site))"
  "\<not> isl (remove_group (\<lambda>ws. True) (\<lambda>s d. s @ d) ''G'' (activate_guards site_host site))"
  "\<not> isl (ensure_device_playlist ''own'' {} ''A'' site)"
  by code_simp+


lemma not_isl: "\<not> isl m \<Longrightarrow> \<exists>x. m = Inr x"
  by (cases m) simp_all

text \<open>A run of requests, the removal of the wall and of a display among them.\<close>

definition busy_day :: "((string \<Rightarrow> bool) \<times> topology_request) list" where
  "busy_day = map (Pair (\<lambda>ws. ws = ''ws''))
     [SetWallDevices (\<lambda>d. ''own-'' @ d) ''W'' (jint 0) [site_cell ''A'' 0, site_cell ''C'' 1], EnrolDisplay ''D'', ClaimDisplay ''D'' ''Desk'' ''u'' ''ws'',
      JoinGroup ''G'' (Some ''D''), JoinGroup ''G'' (Some ''A''), RemoveGroup (\<lambda>s d. s @ d) ''G'', RemoveWall ''W'']"

lemma guards_keep_topology_witness:
  "issue_count (analyze_topology site_host site) = 0 \<and> rows_in_order site
    \<and> core_categories (run_events topology_step busy_day (activate_guards site_host site)) = 0"
  using guards_keep_topology [OF site_clean, of busy_day] site_clean by simp

lemma busy_day_runs:
  "tb_cells (run_events topology_step (take 6 busy_day) (activate_guards site_host site)) = [site_cell ''A'' 0, site_cell ''C'' 1]"
  "map ts_owner (tb_schedules (run_events topology_step busy_day (activate_guards site_host site))) = [OfDisplay ''D'']"
  "tb_walls (run_events topology_step busy_day (activate_guards site_host site)) = []"
  by code_simp+

lemma wall_gets_its_panels_witness:
  "\<exists>st'. set_wall_devices (\<lambda>ws. True) (\<lambda>d. ''own-'' @ d) ''W'' (jint 0) [site_cell ''A'' 0, site_cell ''C'' 1] (activate_guards site_host site) = Inr st'
    \<and> set (map cell_facts (cells_of ''W'' st')) = set (map cell_facts [site_cell ''A'' 0, site_cell ''C'' 1]) \<and> groups_of_display ''C'' st' = []"
proof -
  obtain st' where r: "set_wall_devices (\<lambda>ws. True) (\<lambda>d. ''own-'' @ d) ''W'' (jint 0) [site_cell ''A'' 0, site_cell ''C'' 1]
      (activate_guards site_host site) = Inr st'" using not_isl [OF site_requests(1)] by blast
  from wall_gets_its_panels [OF this site_good] have "set (map cell_facts (cells_of ''W'' st')) = set (map cell_facts [site_cell ''A'' 0, site_cell ''C'' 1])"
    "groups_of_display ''C'' st' = []" by (simp_all add: site_cell_def)
  with r show ?thesis by blast
qed

lemma group_schedules_survive_witness:
  "\<exists>st'. remove_group (\<lambda>ws. True) (\<lambda>s d. s @ d) ''G'' (activate_guards site_host site) = Inr st'
    \<and> (\<exists>s' \<in> set (tb_schedules st'). ts_owner s' = OfDisplay ''C'' \<and> ts_plan s' = JStr ''daily'')"
proof -
  obtain st' where r: "remove_group (\<lambda>ws. True) (\<lambda>s d. s @ d) ''G'' (activate_guards site_host site) = Inr st'"
    using not_isl [OF site_requests(2)] by blast
  have "activate_guards site_host site = site\<lparr>tb_guarded := True\<rparr>" by (simp add: activate_guards_def site_clean(1) install_guards_def)
  with group_schedules_survive [OF r, of "''C''" "\<lparr>ts_id = ''S'', ts_owner = OfGroup ''G'', ts_plan = JStr ''daily''\<rparr>"] r show ?thesis
    by (simp add: site_def)
qed

lemma ensured_playlist_is_own_witness:
  "\<exists>st'. ensure_device_playlist ''own'' {} ''A'' site = Inr st' \<and> (\<exists>p. playlist_of ''A'' st' = Some p \<and> playlist_of ''B'' st' \<noteq> Some p)"
proof -
  obtain st' where r: "ensure_device_playlist ''own'' {} ''A'' site = Inr st'" using not_isl [OF site_requests(3)] by blast
  have a: "display_at ''A'' site = Some (site_display ''A'' (Some ''W'') (Some ''P''))" by code_simp
  have "\<forall>e. playlist_of e site \<noteq> Some ''own''"
    by (auto simp: playlist_of_def display_at_def site_def site_display_def)
  from ensured_playlist_is_own [OF r a this] obtain p where "playlist_of ''A'' st' = Some p" "\<forall>e. playlist_of e st' = Some p \<longrightarrow> e = ''A'' \<or> e \<in> {}"
    by blast
  moreover from this(2) have "playlist_of ''B'' st' \<noteq> Some p" by auto
  ultimately show ?thesis using r by blast
qed

lemma site_member: "display_at ''C'' (activate_guards site_host site) = Some (site_display ''C'' None None)"
  "assert_can_join_group ''C'' ''G'' (activate_guards site_host site) = Inr True"
  "map_option tg_workspace (group_at ''G'' (activate_guards site_host site)) = Some (Some ''ws'')"
  by code_simp+

lemma join_check_and_guards_witness:
  "join_group (\<lambda>ws. True) ''G'' (Some ''C'') (activate_guards site_host site) = Inl (400, ''aborted'')"
proof -
  obtain gr where gr: "group_at ''G'' (activate_guards site_host site) = Some gr" "tg_workspace gr = Some ''ws''"
    using site_member(3) by auto
  then have l: "load_group (\<lambda>ws. True) ''G'' (activate_guards site_host site) = Inr gr" by (simp add: load_group_def given_def)
  have "case join_group (\<lambda>ws. True) ''G'' (Some ''C'') (activate_guards site_host site) of Inl e \<Rightarrow> True \<and> e = (400, ''aborted'')
      | Inr st' \<Rightarrow> \<not> True \<and> tb_members st' = tb_members (activate_guards site_host site) @ [(''C'', ''G'')]"
    by (rule join_check_and_guards [OF site_good l _ site_member(1) _ _ site_member(2)]) (simp_all add: given_def gr(2) site_display_def)
  then show ?thesis by (simp split: sum.splits)
qed

subsection \<open>What the guards do not see\<close>

text \<open>A wall may be made smaller than the places of its panels: the guard over the dimensions only asks that they are positive.\<close>

definition shrink :: wall_change where
  "shrink = \<lparr>wc_name = None, wc_cols = Some 1, wc_rows = None, wc_leader = None, wc_playlist = None, wc_mode = None, wc_geometry = False,
     wc_expected = jint 0\<rparr>"

lemma shrunken_wall:
  "case change_wall (\<lambda>ws. True) (\<lambda>d. d) ''W'' shrink (activate_guards site_host site) of Inl e \<Rightarrow> False
    | Inr st' \<Rightarrow> invalid_grid_positions st' = [site_cell ''B'' 1]"
  by code_simp

text \<open>The tag that protects the removal of a display is made of the outermost fields only: it does not change when the display
  changes its group between the preview and the removal.\<close>

lemma etag_misses_regrouping:
  fixes other defines "other \<equiv> site\<lparr>tb_groups := tb_groups site @ [\<lparr>tg_id = ''H'', tg_user = ''u'', tg_workspace = Some ''ws'', tg_name = ''Hall'',
      tg_color = ''#000000'', tg_playlist = None\<rparr>], tb_members := [(''C'', ''H'')]\<rparr>"
  shows "deletion_impact (\<lambda>d. []) [] (site_display ''C'' None None) site \<noteq> deletion_impact (\<lambda>d. []) [] (site_display ''C'' None None) other"
    and "deletion_etag digest (deletion_impact (\<lambda>d. []) [] (site_display ''C'' None None) site)
      = deletion_etag digest (deletion_impact (\<lambda>d. []) [] (site_display ''C'' None None) other)"
proof -
  show "deletion_impact (\<lambda>d. []) [] (site_display ''C'' None None) site \<noteq> deletion_impact (\<lambda>d. []) [] (site_display ''C'' None None) other"
    unfolding other_def by code_simp
  have "(let v = deletion_impact (\<lambda>d. []) [] (site_display ''C'' None None) site in pick_keys (top_keys v) v)
      = (let v = deletion_impact (\<lambda>d. []) [] (site_display ''C'' None None) other in pick_keys (top_keys v) v)"
    unfolding other_def by code_simp
  then show "deletion_etag digest (deletion_impact (\<lambda>d. []) [] (site_display ''C'' None None) site)
      = deletion_etag digest (deletion_impact (\<lambda>d. []) [] (site_display ''C'' None None) other)"
    by (simp add: deletion_etag_def Let_def)
qed

end
