(* ===== verification/ContentVisibility.thy ===== *)
theory ContentVisibility
  imports Prelude
begin

text \<open>
  Who may see, use and manage the content of the library (\<open>server/lib/content-visibility.js\<close>) and what is served to displays
  without a login (\<open>server/lib/public-content-access.js\<close>).

  A row of the content table is a record, the rows that a query joins to it are in an extension of the record. A column or a
  field of a context that may be missing is an option, and the empty text counts as missing wherever the code asks for a truthy
  value. The clause that a listing adds to its query is a list of alternatives with their parameters; SQL selects a row when one
  of them is true, and an alternative that is \<open>NULL\<close> does not select. Where a content is placed is read from eight tables of
  other components: a parameter, as is which content a grid refers to.
\<close>

subsection \<open>Rows and contexts\<close>

record content_row =
  cr_id :: string
  cr_user :: "string option"
  cr_workspace :: "string option"
  cr_access :: "string option"
  cr_scope :: "string option"
  cr_archived :: bool

record content_view = content_row +
  cr_org :: "string option"
  cr_assigned :: bool

record library_tables =
  lb_content :: "content_row list"
  lb_workspaces :: "(string \<times> string option) list"
  lb_templates :: "(string \<times> string) list"

record visitor =
  vi_user :: "string option"
  vi_role :: "string option"
  vi_platform :: bool
  vi_workspace :: "string option"
  vi_org :: "string option"
  vi_ws_role :: "string option"
  vi_org_role :: "string option"
  vi_archived :: bool

definition visibility_values :: "string list" where
  "visibility_values = [''private'', ''workspace_shared'', ''organization_shared'', ''platform_template'']"

definition filled :: "string option \<Rightarrow> bool" where
  "filled v \<longleftrightarrow> (case v of None \<Rightarrow> False | Some s \<Rightarrow> s \<noteq> [])"

definition visitor_is_platform :: "visitor \<Rightarrow> bool" where
  "visitor_is_platform v \<longleftrightarrow> vi_platform v \<or> vi_role v = Some ''platform_admin'' \<or> vi_role v = Some ''superadmin''"

definition visitor_is_org_admin :: "visitor \<Rightarrow> bool" where
  "visitor_is_org_admin v \<longleftrightarrow> vi_org_role v = Some ''org_owner'' \<or> vi_org_role v = Some ''org_admin''"

definition visitor_is_ws_admin :: "visitor \<Rightarrow> bool" where
  "visitor_is_ws_admin v \<longleftrightarrow> vi_ws_role v = Some ''workspace_admin''"

definition normalize_visibility :: "string option \<Rightarrow> string option" where
  "normalize_visibility v = (let s = to_lower (trim (case v of None \<Rightarrow> [] | Some t \<Rightarrow> t)) in
     if s \<in> set visibility_values then Some s else None)"

definition visibility_of :: "content_row \<Rightarrow> string" where
  "visibility_of c = (case normalize_visibility (cr_access c) of None \<Rightarrow> ''private'' | Some s \<Rightarrow> s)"

definition same_ws :: "'a content_row_scheme \<Rightarrow> visitor \<Rightarrow> bool" where
  "same_ws c v \<longleftrightarrow> filled (cr_workspace c) \<and> cr_workspace c = vi_workspace v"

definition same_org :: "content_view \<Rightarrow> visitor \<Rightarrow> bool" where
  "same_org c v \<longleftrightarrow> filled (cr_org c) \<and> cr_org c = vi_org v"

subsection \<open>Decisions\<close>

definition can_read_content :: "content_view \<Rightarrow> visitor \<Rightarrow> bool" where
  "can_read_content c v =
     (if cr_scope c = Some ''internal'' then False
      else if cr_archived c \<and> \<not> vi_archived v then False
      else if visitor_is_platform v then True
      else (let visibility = visibility_of (content_row.truncate c) in
        if visibility = ''platform_template'' then cr_assigned c
        else if filled (cr_user c) \<and> cr_user c = vi_user v \<and> same_ws c v then True
        else if visitor_is_org_admin v \<and> same_org c v then True
        else if visitor_is_ws_admin v \<and> same_ws c v then True
        else if visibility = ''workspace_shared'' then same_ws c v
        else if visibility = ''organization_shared'' then same_org c v
        else False))"

definition can_read_internal :: "content_view \<Rightarrow> visitor \<Rightarrow> bool" where
  "can_read_internal c v =
     (if cr_scope c \<noteq> Some ''internal'' then False
      else if cr_archived c \<and> \<not> vi_archived v then False
      else if visitor_is_platform v then True
      else if \<not> same_ws c v then False
      else if cr_user c = vi_user v then True
      else if visitor_is_ws_admin v then True
      else visitor_is_org_admin v \<and> same_org c v)"

definition can_use_content :: "content_view \<Rightarrow> visitor \<Rightarrow> bool" where
  "can_use_content c v =
     (if \<not> filled (vi_workspace v) \<or> cr_archived c then False
      else if cr_scope c = Some ''internal'' then False
      else if visitor_is_platform v then True
      else (let visibility = visibility_of (content_row.truncate c) in
        if visibility = ''platform_template'' then cr_assigned c
        else if visibility = ''organization_shared'' then same_org c v
        else if \<not> same_ws c v then False
        else if visibility = ''workspace_shared'' then True
        else if visibility = ''private'' then cr_user c = vi_user v \<or> visitor_is_ws_admin v \<or> visitor_is_org_admin v \<and> same_org c v
        else False))"

text \<open>The row as a query with the joins of a workspace reads it.\<close>

definition template_assigned :: "library_tables \<Rightarrow> string \<Rightarrow> string option \<Rightarrow> bool" where
  "template_assigned db i ws \<longleftrightarrow> (case ws of None \<Rightarrow> False | Some w \<Rightarrow> (i, w) \<in> set (lb_templates db))"

definition org_of :: "library_tables \<Rightarrow> string option \<Rightarrow> string option" where
  "org_of db ws = (case ws of None \<Rightarrow> None | Some w \<Rightarrow> (case map_of (lb_workspaces db) w of None \<Rightarrow> None | Some org \<Rightarrow> org))"

definition view_of :: "library_tables \<Rightarrow> string option \<Rightarrow> content_row \<Rightarrow> content_view" where
  "view_of db ws c = content_row.extend c \<lparr>cr_org = org_of db (cr_workspace c), cr_assigned = template_assigned db (cr_id c) ws\<rparr>"

definition content_use_decision :: "library_tables \<Rightarrow> string \<Rightarrow> string \<Rightarrow> visitor \<Rightarrow> bool \<times> string option \<times> content_view option" where
  "content_use_decision db i target v =
     (case map_of (lb_workspaces db) target of None \<Rightarrow> (False, Some ''Target workspace not found'', None)
      | Some org \<Rightarrow> (case find (\<lambda>c. cr_id c = i) (lb_content db) of None \<Rightarrow> (False, Some ''Content not found'', None)
          | Some c \<Rightarrow>
              (let w = view_of db (Some target) c in
               if \<not> can_use_content w (v\<lparr>vi_workspace := Some target, vi_org := org\<rparr>)
                 then (False, Some ''Content is not available in the target workspace'', Some w)
               else (True, None, Some w))))"

text \<open>What the console offers on a content.\<close>

record content_caps =
  cc_owner :: bool
  cc_read :: bool
  cc_edit :: bool
  cc_change_visibility :: bool
  cc_visibilities :: "string list"
  cc_request_org :: bool
  cc_duplicate :: bool
  cc_archive :: bool
  cc_delete :: bool
  cc_transfer :: bool
  cc_review :: bool

definition content_capabilities :: "content_view \<Rightarrow> visitor \<Rightarrow> content_caps" where
  "content_capabilities c v =
     (let platform = visitor_is_platform v; org_admin = visitor_is_org_admin v \<and> same_org c v; ws_admin = visitor_is_ws_admin v \<and> same_ws c v;
          owner = (filled (cr_user c) \<and> cr_user c = vi_user v \<and> same_ws c v);
          writer = (vi_ws_role v = Some ''workspace_admin'' \<or> vi_ws_role v = Some ''workspace_editor'');
          owner_writer = (owner \<and> writer); template = (cr_access c = Some ''platform_template''); internal = (cr_scope c = Some ''internal'');
          manage = (\<not> internal \<and> (platform \<or> org_admin \<or> ws_admin \<or> owner_writer));
          allowed = (if internal then [] else if platform then visibility_values
            else if org_admin then [''private'', ''workspace_shared'', ''organization_shared'']
            else if ws_admin \<or> owner_writer then [''private'', ''workspace_shared''] else [])
      in \<lparr>cc_owner = owner, cc_read = can_read_content c v, cc_edit = manage \<and> (\<not> template \<or> platform),
          cc_change_visibility = allowed \<noteq> [] \<and> (\<not> template \<or> platform), cc_visibilities = allowed,
          cc_request_org = owner_writer \<and> \<not> platform \<and> \<not> org_admin \<and> \<not> template,
          cc_duplicate = can_read_content c v \<and> (platform \<or> org_admin \<or> writer), cc_archive = manage \<and> (\<not> template \<or> platform),
          cc_delete = manage \<and> (\<not> template \<or> platform), cc_transfer = (platform \<or> org_admin \<or> ws_admin) \<and> \<not> template,
          cc_review = \<not> internal \<and> (platform \<or> org_admin)\<rparr>)"

subsection \<open>Listings\<close>

datatype scope_clause =
    AssignedTemplate string
  | OwnIn string string
  | SharedIn string
  | SharedInOrg string
  | AnyIn string
  | AnyInOrg string

definition scope_clauses :: "visitor \<Rightarrow> scope_clause list" where
  "scope_clauses v =
     (case vi_workspace v of None \<Rightarrow> [] | Some w \<Rightarrow> if w = [] then [] else [AssignedTemplate w])
     @ (case (vi_workspace v, vi_user v) of (Some w, Some u) \<Rightarrow> if w = [] \<or> u = [] then [] else [OwnIn w u, SharedIn w] | _ \<Rightarrow> [])
     @ (case vi_org v of None \<Rightarrow> [] | Some org \<Rightarrow> if org = [] then [] else [SharedInOrg org])
     @ (case vi_workspace v of None \<Rightarrow> [] | Some w \<Rightarrow> if visitor_is_ws_admin v \<and> w \<noteq> [] then [AnyIn w] else [])
     @ (case vi_org v of None \<Rightarrow> [] | Some org \<Rightarrow> if visitor_is_org_admin v \<and> org \<noteq> [] then [AnyInOrg org] else [])"

definition workspace_in_org :: "library_tables \<Rightarrow> string option \<Rightarrow> string \<Rightarrow> bool" where
  "workspace_in_org db ws org \<longleftrightarrow> list_ex (\<lambda>(w, o'). ws = Some w \<and> o' = Some org) (lb_workspaces db)"

fun clause_selects :: "library_tables \<Rightarrow> content_row \<Rightarrow> scope_clause \<Rightarrow> bool" where
  "clause_selects db c (AssignedTemplate w) \<longleftrightarrow> cr_access c = Some ''platform_template'' \<and> (cr_id c, w) \<in> set (lb_templates db)"
| "clause_selects db c (OwnIn w u) \<longleftrightarrow> cr_workspace c = Some w \<and> cr_user c = Some u"
| "clause_selects db c (SharedIn w) \<longleftrightarrow> cr_workspace c = Some w \<and> cr_access c = Some ''workspace_shared''"
| "clause_selects db c (SharedInOrg org) \<longleftrightarrow> cr_access c = Some ''organization_shared'' \<and> workspace_in_org db (cr_workspace c) org"
| "clause_selects db c (AnyIn w) \<longleftrightarrow> cr_workspace c = Some w"
| "clause_selects db c (AnyInOrg org) \<longleftrightarrow> workspace_in_org db (cr_workspace c) org"

definition scope_selects :: "library_tables \<Rightarrow> bool \<Rightarrow> visitor \<Rightarrow> content_row \<Rightarrow> bool" where
  "scope_selects db archived v c \<longleftrightarrow>
     (archived \<or> \<not> cr_archived c) \<and> (visitor_is_platform v \<or> list_ex (clause_selects db c) (scope_clauses v))"

subsection \<open>Content for displays\<close>

definition visibility_allows :: "library_tables \<Rightarrow> content_row \<Rightarrow> string \<Rightarrow> bool" where
  "visibility_allows db c ws =
     (if ws = [] \<or> cr_archived c then False
      else (let visibility = (case cr_access c of None \<Rightarrow> ''private'' | Some a \<Rightarrow> if a = [] then ''private'' else a) in
        if visibility = ''private'' \<or> visibility = ''workspace_shared'' then cr_workspace c = Some ws
        else if visibility = ''platform_template'' then (cr_id c, ws) \<in> set (lb_templates db)
        else if visibility = ''organization_shared'' then
          (case (cr_workspace c, map_of (lb_workspaces db) ws) of
             (Some src, Some target) \<Rightarrow> (case map_of (lb_workspaces db) src of None \<Rightarrow> False | Some org \<Rightarrow> org = target)
           | _ \<Rightarrow> False)
        else False))"

definition can_serve_in_workspace :: "library_tables \<Rightarrow> (string \<Rightarrow> string list) \<Rightarrow> content_row \<Rightarrow> string \<Rightarrow> bool" where
  "can_serve_in_workspace db placed c ws \<longleftrightarrow> visibility_allows db c ws \<and> ws \<in> set (placed (cr_id c))"

definition directly_assigned :: "library_tables \<Rightarrow> (string \<Rightarrow> string list) \<Rightarrow> content_row \<Rightarrow> bool" where
  "directly_assigned db placed c \<longleftrightarrow> list_ex (visibility_allows db c) (placed (cr_id c))"

definition canonical_row :: "library_tables \<Rightarrow> content_row \<Rightarrow> content_row" where
  "canonical_row db c = (case find (\<lambda>x. cr_id x = cr_id c) (lb_content db) of None \<Rightarrow> c
     | Some x \<Rightarrow> c\<lparr>cr_workspace := cr_workspace x, cr_access := cr_access x, cr_archived := cr_archived x\<rparr>)"

definition grid_dependency :: "library_tables \<Rightarrow> (string \<Rightarrow> string list) \<Rightarrow> (content_row \<Rightarrow> string \<Rightarrow> bool) \<Rightarrow> content_row \<Rightarrow> bool" where
  "grid_dependency db placed refers c =
     (if cr_id c = [] \<or> cr_archived c then False
      else (let nested = canonical_row db c in
        if cr_archived nested then False
        else list_ex (\<lambda>grid. refers grid (cr_id nested)
          \<and> list_ex (\<lambda>ws. visibility_allows db grid ws \<and> visibility_allows db nested ws) (placed (cr_id grid))) (lb_content db)))"

definition can_serve_public :: "library_tables \<Rightarrow> (string \<Rightarrow> string list) \<Rightarrow> (content_row \<Rightarrow> string \<Rightarrow> bool) \<Rightarrow> content_row \<Rightarrow> bool" where
  "can_serve_public db placed refers c \<longleftrightarrow> \<not> cr_archived c \<and> (directly_assigned db placed c \<or> grid_dependency db placed refers c)"


subsection \<open>Agreement of the decisions\<close>

lemma visibility_canonical:
  assumes "cr_access c = Some a" "a \<in> set visibility_values"
  shows "visibility_of c = a"
proof -
  have "\<forall>a \<in> set visibility_values. normalize_visibility (Some a) = Some a" by code_simp
  with assms show ?thesis by (simp add: visibility_of_def)
qed

lemma view_fields [simp]:
  "cr_id (view_of db ws c) = cr_id c" "cr_user (view_of db ws c) = cr_user c" "cr_workspace (view_of db ws c) = cr_workspace c"
  "cr_access (view_of db ws c) = cr_access c" "cr_scope (view_of db ws c) = cr_scope c" "cr_archived (view_of db ws c) = cr_archived c"
  "cr_org (view_of db ws c) = org_of db (cr_workspace c)" "cr_assigned (view_of db ws c) = template_assigned db (cr_id c) ws"
  "content_row.truncate (view_of db ws c) = c" "same_ws (view_of db ws c) v = same_ws c v"
  by (simp_all add: view_of_def content_row.defs same_ws_def)

lemma filled_simps [simp]: "filled None = False" "filled (Some s) = (s \<noteq> [])"
  by (simp_all add: filled_def)

lemma filled_cases: "filled v \<longleftrightarrow> (\<exists>s. v = Some s \<and> s \<noteq> [])"
  by (cases v) auto

lemma in_org_iff:
  assumes "distinct (map fst (lb_workspaces db))"
  shows "workspace_in_org db ws org \<longleftrightarrow> org_of db ws = Some org"
proof (cases ws)
  case (Some w)
  have "(\<exists>o'. (w, o') \<in> set (lb_workspaces db) \<and> o' = Some org) \<longleftrightarrow> map_of (lb_workspaces db) w = Some (Some org)"
    using assms by (auto dest: map_of_SomeD)
  with Some show ?thesis by (auto simp: workspace_in_org_def org_of_def list_ex_iff split: option.splits)
qed (simp add: workspace_in_org_def org_of_def list_ex_iff)

lemma clause_kinds:
  "cl \<in> set (scope_clauses v) \<longleftrightarrow>
     (\<exists>w. vi_workspace v = Some w \<and> w \<noteq> [] \<and> (cl = AssignedTemplate w \<or> visitor_is_ws_admin v \<and> cl = AnyIn w
        \<or> (\<exists>u. vi_user v = Some u \<and> u \<noteq> [] \<and> (cl = OwnIn w u \<or> cl = SharedIn w))))
   \<or> (\<exists>org. vi_org v = Some org \<and> org \<noteq> [] \<and> (cl = SharedInOrg org \<or> visitor_is_org_admin v \<and> cl = AnyInOrg org))"
  by (cases "vi_workspace v"; cases "vi_user v"; cases "vi_org v") (simp_all add: scope_clauses_def, auto)

text \<open>A member reaches a row through its ownership or a role over its workspace or organization.\<close>

definition reaches :: "library_tables \<Rightarrow> visitor \<Rightarrow> content_row \<Rightarrow> bool" where
  "reaches db v c \<longleftrightarrow> filled (cr_user c) \<and> cr_user c = vi_user v \<and> same_ws c v \<or> visitor_is_ws_admin v \<and> same_ws c v
     \<or> visitor_is_org_admin v \<and> filled (vi_org v) \<and> org_of db (cr_workspace c) = vi_org v"

lemma clauses_select:
  assumes "distinct (map fst (lb_workspaces db))" "filled (vi_user v)" "vi_workspace v \<noteq> Some []"
  shows "list_ex (clause_selects db c) (scope_clauses v) \<longleftrightarrow> reaches db v c
    \<or> cr_access c = Some ''platform_template'' \<and> template_assigned db (cr_id c) (vi_workspace v)
    \<or> cr_access c = Some ''workspace_shared'' \<and> same_ws c v
    \<or> cr_access c = Some ''organization_shared'' \<and> filled (vi_org v) \<and> org_of db (cr_workspace c) = vi_org v"
proof -
  obtain u where u: "vi_user v = Some u" "u \<noteq> []" using assms(2) by (auto simp: filled_cases)
  have org: "(\<exists>org. vi_org v = Some org \<and> org \<noteq> [] \<and> workspace_in_org db (cr_workspace c) org)
      \<longleftrightarrow> filled (vi_org v) \<and> org_of db (cr_workspace c) = vi_org v"
    using in_org_iff [OF assms(1)] by (auto simp: filled_cases)
  have ws: "(\<exists>w. vi_workspace v = Some w \<and> w \<noteq> [] \<and> cr_workspace c = Some w) \<longleftrightarrow> same_ws c v"
    by (cases "vi_workspace v") (auto simp: same_ws_def filled_cases)
  have "list_ex (clause_selects db c) (scope_clauses v) \<longleftrightarrow>
      (\<exists>w. vi_workspace v = Some w \<and> w \<noteq> [] \<and> (clause_selects db c (AssignedTemplate w) \<or> visitor_is_ws_admin v \<and> clause_selects db c (AnyIn w)
        \<or> clause_selects db c (OwnIn w u) \<or> clause_selects db c (SharedIn w)))
    \<or> (\<exists>org. vi_org v = Some org \<and> org \<noteq> [] \<and> (clause_selects db c (SharedInOrg org) \<or> visitor_is_org_admin v \<and> clause_selects db c (AnyInOrg org)))"
    unfolding list_ex_iff Bex_def clause_kinds using u by (simp only: option.inject) blast
  also have "\<dots> \<longleftrightarrow> reaches db v c
    \<or> cr_access c = Some ''platform_template'' \<and> template_assigned db (cr_id c) (vi_workspace v)
    \<or> cr_access c = Some ''workspace_shared'' \<and> same_ws c v
    \<or> cr_access c = Some ''organization_shared'' \<and> filled (vi_org v) \<and> org_of db (cr_workspace c) = vi_org v"
    unfolding reaches_def org [symmetric] ws [symmetric] using u assms(3) by (auto simp: template_assigned_def split: option.splits)
  finally show ?thesis .
qed


text \<open>A content that may be used in a workspace may be read there by the same person.\<close>

theorem usable_content_readable:
  assumes d: "content_use_decision db i ws v = (True, r, w)" and u: "filled (vi_user v)"
  shows "\<exists>c org. w = Some c \<and> map_of (lb_workspaces db) ws = Some org \<and> can_read_content c (v\<lparr>vi_workspace := Some ws, vi_org := org\<rparr>)"
proof -
  obtain org c where c: "map_of (lb_workspaces db) ws = Some org" "w = Some (view_of db (Some ws) c)"
    "can_use_content (view_of db (Some ws) c) (v\<lparr>vi_workspace := Some ws, vi_org := org\<rparr>)"
    using d by (auto simp: content_use_decision_def Let_def split: option.splits if_splits)
  have "can_read_content (view_of db (Some ws) c) (v\<lparr>vi_workspace := Some ws, vi_org := org\<rparr>)"
    using c(3) u unfolding can_use_content_def can_read_content_def Let_def by (auto split: if_splits)
  with c(1,2) show ?thesis by blast
qed

lemma template_visibility: "cr_access c = Some ''platform_template'' \<longleftrightarrow> visibility_of c = ''platform_template''"
  if "cr_access c = Some a" "a \<in> set visibility_values" for c :: content_row
  using visibility_canonical [OF that] that(1) by auto

text \<open>Whoever is offered a change of a content may read it (an archived one included), only a platform administrator may make it a
  template, and only one who administers its organization may share it there.\<close>

theorem capabilities_need_read:
  assumes a: "cr_access c = Some a" "a \<in> set visibility_values" and w: "w = view_of db (vi_workspace v) c"
    and cap: "cc_edit (content_capabilities w v) \<or> cc_change_visibility (content_capabilities w v) \<or> cc_archive (content_capabilities w v)
      \<or> cc_delete (content_capabilities w v) \<or> cc_duplicate (content_capabilities w v)"
  shows "can_read_content w (v\<lparr>vi_archived := True\<rparr>)
    \<and> (''platform_template'' \<in> set (cc_visibilities (content_capabilities w v)) \<longrightarrow> visitor_is_platform v)
    \<and> (''organization_shared'' \<in> set (cc_visibilities (content_capabilities w v)) \<longrightarrow> visitor_is_platform v \<or> visitor_is_org_admin v \<and> same_org w v)"
proof -
  have vis: "visibility_of c = a" by (rule visibility_canonical [OF a])
  let ?u = "v\<lparr>vi_archived := True\<rparr>"
  have same [simp]: "same_ws c ?u = same_ws c v" "same_org w ?u = same_org w v" "visitor_is_platform ?u = visitor_is_platform v"
    "visitor_is_org_admin ?u = visitor_is_org_admin v" "visitor_is_ws_admin ?u = visitor_is_ws_admin v"
    by (simp_all add: same_ws_def same_org_def visitor_is_platform_def visitor_is_org_admin_def visitor_is_ws_admin_def)
  have sw: "same_ws w u = same_ws c u" "content_row.truncate w = c" "cr_access w = Some a" for u by (simp_all add: w a(1))
  have "can_read_content w v \<or> cr_scope w \<noteq> Some ''internal'' \<and> (visitor_is_platform v \<or> a \<noteq> ''platform_template''
      \<and> (visitor_is_org_admin v \<and> same_org w v \<or> visitor_is_ws_admin v \<and> same_ws c v \<or> filled (cr_user w) \<and> cr_user w = vi_user v \<and> same_ws c v))"
    using cap unfolding content_capabilities_def Let_def content_caps.simps sw option.inject
    by (cases "cr_scope w = Some ''internal''"; cases "visitor_is_platform v") (simp_all, (metis)+)
  then have "can_read_content w ?u" unfolding can_read_content_def Let_def sw vis by (auto split: if_splits)
  moreover have "''platform_template'' \<in> set (cc_visibilities (content_capabilities w v)) \<longrightarrow> visitor_is_platform v"
    by (simp add: content_capabilities_def Let_def)
  moreover have "''organization_shared'' \<in> set (cc_visibilities (content_capabilities w v)) \<longrightarrow> visitor_is_platform v \<or> visitor_is_org_admin v \<and> same_org w v"
    by (simp add: content_capabilities_def Let_def)
  ultimately show ?thesis by blast
qed

definition workspace_admin :: "library_tables \<Rightarrow> string \<Rightarrow> visitor" where
  "workspace_admin db ws = \<lparr>vi_user = None, vi_role = None, vi_platform = False, vi_workspace = Some ws, vi_org = org_of db (Some ws),
     vi_ws_role = Some ''workspace_admin'', vi_org_role = None, vi_archived = False\<rparr>"

lemma admin_roles [simp]:
  "\<not> visitor_is_platform (workspace_admin db ws)" "visitor_is_ws_admin (workspace_admin db ws)" "\<not> visitor_is_org_admin (workspace_admin db ws)"
  "vi_workspace (workspace_admin db ws) = Some ws" "vi_org (workspace_admin db ws) = org_of db (Some ws)" "vi_user (workspace_admin db ws) = None"
  by (simp_all add: workspace_admin_def visitor_is_platform_def visitor_is_ws_admin_def visitor_is_org_admin_def)

lemma allowed_is_admin_use:
  assumes a: "cr_access c = Some a" "a \<in> set visibility_values" and "cr_scope c \<noteq> Some ''internal''"
    and orgs: "list_all (\<lambda>(w, org). filled org) (lb_workspaces db)"
  shows "visibility_allows db c ws \<longleftrightarrow> can_use_content (view_of db (Some ws) c) (workspace_admin db ws)"
proof -
  have vis: "visibility_of c = a" by (rule visibility_canonical [OF a])
  have access: "(case cr_access c of None \<Rightarrow> ''private'' | Some b \<Rightarrow> if b = [] then ''private'' else b) = a"
    using a by (auto simp: visibility_values_def)
  have org: "(case (cr_workspace c, map_of (lb_workspaces db) ws) of
       (Some src, Some target) \<Rightarrow> (case map_of (lb_workspaces db) src of None \<Rightarrow> False | Some org \<Rightarrow> org = target) | _ \<Rightarrow> False)
      \<longleftrightarrow> same_org (view_of db (Some ws) c) (workspace_admin db ws)"
  proof (cases "cr_workspace c")
    case (Some src)
    have "filled org" if "map_of (lb_workspaces db) w = Some org" for w org
      using map_of_SomeD [OF that] orgs by (auto simp: list_all_iff)
    then show ?thesis using Some
      by (cases "map_of (lb_workspaces db) src"; cases "map_of (lb_workspaces db) ws") (auto simp: same_org_def org_of_def filled_cases)
  qed (simp add: same_org_def org_of_def)
  have own: "same_ws c (workspace_admin db ws) \<longleftrightarrow> cr_workspace c = Some ws \<and> ws \<noteq> []" by (auto simp: same_ws_def)
  show ?thesis
    using a(2) assms(3) unfolding visibility_allows_def can_use_content_def Let_def access org view_fields vis own admin_roles
    by (auto simp: visibility_values_def template_assigned_def)
qed

lemma find_row: "distinct (map cr_id xs) \<Longrightarrow> c \<in> set xs \<Longrightarrow> find (\<lambda>x. cr_id x = cr_id c) xs = Some c"
  by (induction xs) (auto simp: image_iff)



subsection \<open>A library\<close>

definition library :: library_tables where
  "library = \<lparr>lb_content = [\<lparr>cr_id = ''poster'', cr_user = Some ''ann'', cr_workspace = Some ''w1'', cr_access = Some ''private'', cr_scope = Some ''library'', cr_archived = False\<rparr>,
       \<lparr>cr_id = ''frame'', cr_user = Some ''ann'', cr_workspace = Some ''w1'', cr_access = Some ''platform_template'', cr_scope = Some ''library'', cr_archived = False\<rparr>],
     lb_workspaces = [(''w1'', Some ''org''), (''w2'', Some ''org'')], lb_templates = [(''frame'', ''w2'')]\<rparr>"

definition ann :: visitor where
  "ann = \<lparr>vi_user = Some ''ann'', vi_role = Some ''user'', vi_platform = False, vi_workspace = Some ''w1'', vi_org = Some ''org'',
     vi_ws_role = Some ''workspace_editor'', vi_org_role = None, vi_archived = False\<rparr>"

definition poster :: content_row where "poster = lb_content library ! 0"
definition frame :: content_row where "frame = lb_content library ! 1"


lemma poster_use: "content_use_decision library ''poster'' ''w1'' ann = (True, None, Some (view_of library (Some ''w1'') poster))"
  by code_simp

lemma usable_content_readable_witness:
  "can_read_content (view_of library (Some ''w1'') poster) (ann\<lparr>vi_workspace := Some ''w1'', vi_org := Some ''org''\<rparr>)"
proof -
  have "filled (vi_user ann)" "map_of (lb_workspaces library) ''w1'' = Some (Some ''org'')" by code_simp+
  with usable_content_readable [OF poster_use] show ?thesis by simp
qed

lemma poster_facts:
  "cc_edit (content_capabilities (view_of library (vi_workspace ann) poster) ann)" "cr_access poster = Some ''private''"
  "cr_scope poster \<noteq> Some ''internal''" "poster \<in> set (lb_content library)" "distinct (map cr_id (lb_content library))"
  "list_all (\<lambda>(w, org). filled org) (lb_workspaces library)"
  by code_simp+

lemma capabilities_need_read_witness:
  "can_read_content (view_of library (vi_workspace ann) poster) (ann\<lparr>vi_archived := True\<rparr>)"
  using capabilities_need_read [OF poster_facts(2) _ refl] poster_facts(1) by (simp add: visibility_values_def)

lemma poster_served: "can_serve_public library (\<lambda>i. if i = ''poster'' then [''w1''] else []) (\<lambda>grid i. False) poster"
  by code_simp


text \<open>The writes of an internal content are refused one by one, but for its transfer and the request to publish it.\<close>

definition converted_slide :: content_row where
  "converted_slide = poster\<lparr>cr_scope := Some ''internal''\<rparr>"

lemma internal_content_requestable:
  "cc_request_org (content_capabilities (view_of library (Some ''w1'') converted_slide) ann)"
  "\<not> cc_edit (content_capabilities (view_of library (Some ''w1'') converted_slide) ann)"
  by code_simp+

end
