(* ===== verification/MediaProgress.thy ===== *)
theory MediaProgress
  imports Prelude Machines
begin

text \<open>
  The progress of the media a renderer plays (\<open>server/player/media-progress.js\<close>): errors are reduced to allowed codes and
  messages, a tracker follows the clock and the decoded frames of the media and confirms the command that started it, and the
  server keeps the last report of each display in a bounded registry (\<open>server/services/renderer-progress.js\<close>).

  A sample, a report and an error are values from outside. The renderer's clock is an argument of the operations that read it.
  An error object is shared between two variables of the tracker while it is active; both fields hold it then.
\<close>

subsection \<open>Errors\<close>

definition safe_messages :: "(string \<times> string) list" where
  "safe_messages = [(''HLS_MANIFEST_LOAD_ERROR'', ''HLS manifest could not be loaded.''), (''HLS_FRAG_PARSING_ERROR'', ''HLS media could not be decoded.''),
     (''PLAYBACK_SOURCE_ERROR'', ''Playback source could not be reached.''), (''PLAYBACK_BUFFER_ERROR'', ''Playback buffer could not advance.''),
     (''PLAYBACK_DECODE_ERROR'', ''Playback media could not be decoded.''), (''PLAYBACK_UNKNOWN_ERROR'', ''Playback failed.'')]"

definition safe_codes :: "string list" where
  "safe_codes = [''HLS_MANIFEST_LOAD_ERROR'', ''HLS_FRAG_PARSING_ERROR'', ''PLAYBACK_SOURCE_ERROR'', ''PLAYBACK_BUFFER_ERROR'',
     ''PLAYBACK_DECODE_ERROR'', ''PLAYBACK_UNKNOWN_ERROR'', ''HTML5_MEDIA_ERR_ABORTED'', ''HTML5_MEDIA_ERR_NETWORK'',
     ''HTML5_MEDIA_ERR_DECODE'', ''HTML5_MEDIA_ERR_SRC_NOT_SUPPORTED'']"

definition finite_num :: "jsval \<Rightarrow> rat option" where
  "finite_num v = (if is_nullish v \<or> v = JStr [] then None else (case to_num v of Fin r \<Rightarrow> Some r | _ \<Rightarrow> None))"

definition safe_string :: "jsval \<Rightarrow> string" where
  "safe_string v = (if is_nullish v then [] else to_str v)"

definition is_lower_ascii :: "char \<Rightarrow> bool" where
  "is_lower_ascii c \<longleftrightarrow> 97 \<le> code c \<and> code c \<le> 122"

definition is_upper_ascii :: "char \<Rightarrow> bool" where
  "is_upper_ascii c \<longleftrightarrow> 65 \<le> code c \<and> code c \<le> 90"

fun split_words :: "string \<Rightarrow> string" where
  \<comment> \<open>\<open>replace(/([a-z0-9])([A-Z])/g, '$1_$2')\<close>\<close>
  "split_words (a # b # s) = (if (is_lower_ascii a \<or> is_digit a) \<and> is_upper_ascii b then a # CHR ''_'' # b # split_words s else a # split_words (b # s))"
| "split_words s = s"

definition upper_ascii :: "char \<Rightarrow> string" where
  \<comment> \<open>\<open>toUpperCase\<close>, as far as the letters between \<open>A\<close> and \<open>Z\<close> go; the sharp s becomes two of them\<close>
  "upper_ascii c = (if is_lower_ascii c then [char_of (code c - 32)] else if code c = 223 then ''SS'' else [c])"

definition code_char :: "char \<Rightarrow> bool" where
  "code_char c \<longleftrightarrow> is_upper_ascii c \<or> is_digit c \<or> c = CHR ''_''"

fun squeeze :: "bool \<Rightarrow> string \<Rightarrow> string" where
  \<comment> \<open>\<open>replace(/[^A-Z0-9_]+/g, '_')\<close>; the flag tells whether a run of other characters has begun\<close>
  "squeeze b [] = []"
| "squeeze b (c # s) = (if code_char c then c # squeeze False s else if b then squeeze True s else CHR ''_'' # squeeze True s)"

definition strip_underscores :: "string \<Rightarrow> string" where
  "strip_underscores s = (let u = (\<lambda>c. c = CHR ''_'') in rev (dropWhile u (rev (dropWhile u s))))"

definition safe_code :: "jsval \<Rightarrow> string \<Rightarrow> string" where
  "safe_code v fallback =
     (let text = safe_string (js_or (js_or v (JStr fallback)) (JStr ''PLAYBACK_UNKNOWN_ERROR''));
          c = take 80 (strip_underscores (squeeze False (concat (map upper_ascii (split_words text)))))
      in if c \<noteq> [] then c else if fallback \<noteq> [] then fallback else ''PLAYBACK_UNKNOWN_ERROR'')"

definition allowlisted_code :: "jsval \<Rightarrow> string \<Rightarrow> string" where
  "allowlisted_code v fallback =
     (if safe_string v = [] then fallback else (let c = safe_code v [] in if c \<in> set safe_codes then c else fallback))"

definition safe_message :: "string \<Rightarrow> string \<Rightarrow> string" where
  "safe_message c fallback = (case map_of safe_messages c of Some s \<Rightarrow> s
     | None \<Rightarrow> if fallback \<noteq> [] then fallback else ''Playback failed.'')"

record playback_error =
  pe_category :: string
  pe_code :: string
  pe_fatal :: bool
  pe_recoverable :: bool
  pe_message :: string

text \<open>The code and the message that stand for a category: with an explicit category, and with one found in the details.\<close>

definition source_category :: "string \<Rightarrow> bool" where
  "source_category cat \<longleftrightarrow> cat \<in> {''NETWORK'', ''SOURCE'', ''MANIFEST''}"

definition category_code :: "string \<Rightarrow> string" where
  "category_code cat = (if source_category cat then ''PLAYBACK_SOURCE_ERROR'' else if cat = ''BUFFER'' then ''PLAYBACK_BUFFER_ERROR''
     else if cat = ''DECODE'' then ''PLAYBACK_DECODE_ERROR'' else ''PLAYBACK_UNKNOWN_ERROR'')"

definition message_for :: "string \<Rightarrow> string" where
  "message_for c = (case map_of safe_messages c of Some s \<Rightarrow> s | None \<Rightarrow> ''Playback failed.'')"

definition error_message :: "string \<Rightarrow> string \<Rightarrow> string" where
  "error_message c cat = (case map_of safe_messages c of Some s \<Rightarrow> s | None \<Rightarrow> message_for (category_code cat))"

definition detected_message :: "string \<Rightarrow> string \<Rightarrow> string" where
  \<comment> \<open>here a manifest does not count as a source\<close>
  "detected_message c cat = (case map_of safe_messages c of Some s \<Rightarrow> s
     | None \<Rightarrow> message_for (if cat = ''MANIFEST'' then ''PLAYBACK_UNKNOWN_ERROR'' else category_code cat))"

definition mentions :: "string list \<Rightarrow> string \<Rightarrow> bool" where
  "mentions ps s \<longleftrightarrow> list_ex (str_includes s) ps"

definition detect_error :: "string \<Rightarrow> string \<Rightarrow> string \<Rightarrow> string \<times> string" where
  "detect_error source type raw =
     (let details = to_lower raw; both = type @ '' '' @ details in
      if source = ''html5'' \<and> raw \<noteq> [] \<and> list_all is_digit raw then
        (let n = digits_nat raw in
         if n = 1 then (''MEDIA'', ''HTML5_MEDIA_ERR_ABORTED'') else if n = 2 then (''NETWORK'', ''HTML5_MEDIA_ERR_NETWORK'')
         else if n = 3 then (''DECODE'', ''HTML5_MEDIA_ERR_DECODE'') else if n = 4 then (''SOURCE'', ''HTML5_MEDIA_ERR_SRC_NOT_SUPPORTED'')
         else (''UNKNOWN'', ''PLAYBACK_UNKNOWN_ERROR''))
      else if source = ''youtube'' then
        (if raw \<in> {''2'', ''5'', ''100'', ''101'', ''150''} then (''SOURCE'', ''PLAYBACK_SOURCE_ERROR'') else (''MEDIA'', ''PLAYBACK_UNKNOWN_ERROR''))
      else if source = ''hls'' \<and> mentions [''manifest''] details then
        (if type = ''networkerror'' then ''NETWORK'' else ''MANIFEST'',
         if mentions [''manifestloaderror''] details then ''HLS_MANIFEST_LOAD_ERROR'' else ''PLAYBACK_SOURCE_ERROR'')
      else if source = ''hls'' \<and> mentions [''parsing'', ''decode''] details then
        (''DECODE'', if mentions [''fragparsingerror''] details then ''HLS_FRAG_PARSING_ERROR'' else ''PLAYBACK_DECODE_ERROR'')
      else if source = ''hls'' \<and> mentions [''buffer''] details then (''BUFFER'', ''PLAYBACK_BUFFER_ERROR'')
      else if source = ''hls'' \<and> mentions [''network''] both then (''NETWORK'', ''PLAYBACK_SOURCE_ERROR'')
      else if mentions [''decode'', ''media''] both then (''DECODE'', ''PLAYBACK_DECODE_ERROR'')
      else if mentions [''buffer'', ''stalled'', ''waiting''] both then (''BUFFER'', ''PLAYBACK_BUFFER_ERROR'')
      else if mentions [''source'', ''network'', ''fetch'', ''load''] both then (''SOURCE'', ''PLAYBACK_SOURCE_ERROR'')
      else (''UNKNOWN'', ''PLAYBACK_UNKNOWN_ERROR''))"

definition to_upper_ascii :: "string \<Rightarrow> string" where
  "to_upper_ascii s = concat (map upper_ascii s)"

definition error_categories :: "string list" where
  "error_categories = [''NETWORK'', ''MANIFEST'', ''MEDIA'', ''DECODE'', ''SOURCE'', ''BUFFER'', ''UNKNOWN'']"

definition normalize_playback_error :: "jsval \<Rightarrow> playback_error" where
  "normalize_playback_error v =
     (let cat = to_upper_ascii (safe_string (fld v ''category'')); fatal = (fld v ''fatal'' = JBool True) in
      if cat \<in> set error_categories then
        (let c = allowlisted_code (fld v ''code'') (category_code cat) in
         \<lparr>pe_category = cat, pe_code = c, pe_fatal = fatal, pe_recoverable = \<not> fatal \<and> fld v ''recoverable'' \<noteq> JBool False,
           pe_message = safe_message c (error_message c cat)\<rparr>)
      else
        (let details = (if is_nullish (fld v ''details'') \<or> fld v ''details'' = JStr [] then fld v ''code'' else fld v ''details'');
             (cat, code) = detect_error (to_lower (safe_string (fld v ''source''))) (to_lower (safe_string (fld v ''type''))) (safe_string details);
             c = allowlisted_code (JStr code) (category_code cat)
         in \<lparr>pe_category = cat, pe_code = c, pe_fatal = fatal, pe_recoverable = \<not> fatal, pe_message = safe_message c (detected_message c cat)\<rparr>))"

subsection \<open>Reports\<close>

datatype playback_state = PbIdle | PbLoading | PbPlaying | PbPaused | PbStalled | PbRecovering | PbError

definition playback_state_of :: "string \<Rightarrow> playback_state" where
  "playback_state_of s = (if s = ''LOADING'' then PbLoading else if s = ''PLAYING_PROGRESS'' then PbPlaying else if s = ''PAUSED'' then PbPaused
     else if s = ''STALLED'' then PbStalled else if s = ''RECOVERING'' then PbRecovering else if s = ''ERROR'' then PbError else PbIdle)"

record tracked_error = playback_error +
  te_first :: "rat option"
  te_last :: "rat option"
  te_recovered :: "rat option"
  te_active :: bool

definition track_error :: "playback_error \<Rightarrow> rat option \<Rightarrow> rat option \<Rightarrow> rat option \<Rightarrow> bool \<Rightarrow> tracked_error" where
  "track_error e f l r a = playback_error.extend e \<lparr>te_first = f, te_last = l, te_recovered = r, te_active = a\<rparr>"

record progress_report =
  nr_session :: "string option"
  nr_generation :: "string option"
  nr_state :: playback_state
  nr_expected :: bool
  nr_frames_available :: bool
  nr_media_at :: "rat option"
  nr_frame_at :: "rat option"
  nr_confirmed_at :: "rat option"
  nr_stall_at :: "rat option"
  nr_recovered_at :: "rat option"
  nr_command :: "string option"
  nr_command_at :: "rat option"
  nr_error :: "tracked_error option"

definition text128 :: "jsval \<Rightarrow> string option" where
  "text128 v = (let s = take 128 (trim (safe_string v)) in if s = [] then None else Some s)"

definition read_decoded_frames :: "jsval option \<Rightarrow> rat option" where
  \<comment> \<open>of what \<open>getVideoPlaybackQuality\<close> returns, if the video has it and it does not throw\<close>
  "read_decoded_frames quality =
     (case quality of None \<Rightarrow> None
      | Some q \<Rightarrow> (case finite_num (if truthy q then fld q ''totalVideoFrames'' else q) of None \<Rightarrow> None | Some n \<Rightarrow> if 0 \<le> n then Some n else None))"

definition normalize_report :: "jsval \<Rightarrow> progress_report option" where
  "normalize_report v =
     (if \<not> is_object v then None
      else (let e = fld v ''error''; command = text128 (fld v ''command_id'') in
        Some \<lparr>nr_session = text128 (fld v ''renderer_session_id''), nr_generation = text128 (fld v ''content_generation''),
          nr_state = playback_state_of (safe_string (fld v ''playback_state'')), nr_expected = (fld v ''expected_playing'' = JBool True),
          nr_frames_available = (fld v ''decoded_frame_available'' = JBool True), nr_media_at = finite_num (fld v ''last_media_progress_at''),
          nr_frame_at = finite_num (fld v ''last_decoded_frame_progress_at''), nr_confirmed_at = finite_num (fld v ''last_confirmed_render_progress_at''),
          nr_stall_at = finite_num (fld v ''stall_started_at''), nr_recovered_at = finite_num (fld v ''recovered_at''), nr_command = command,
          nr_command_at = (case command of None \<Rightarrow> None | Some c \<Rightarrow> finite_num (fld v ''command_confirmation_at'')),
          nr_error = (if is_object e then Some (track_error (normalize_playback_error e) (finite_num (fld e ''first_seen_at''))
            (finite_num (fld e ''last_seen_at'')) (finite_num (fld e ''recovered_at'')) (fld e ''active'' = JBool True)) else None)\<rparr>))"

subsection \<open>The tracker\<close>

record command_watch =
  cw_id :: string
  cw_at :: rat
  cw_gen :: nat
  cw_confirmed :: "rat option"
  cw_based :: bool
  cw_time_seen :: bool
  cw_frames_seen :: bool
  cw_time :: "rat option"
  cw_frames :: "rat option"
  cw_awaiting :: bool

record tracker =
  mt_threshold :: rat
  mt_time :: "rat option"
  mt_frames :: "rat option"
  mt_media_at :: "rat option"
  mt_frame_at :: "rat option"
  mt_since :: "rat option"
  mt_stall :: "rat option"
  mt_recovered :: "rat option"
  mt_state :: playback_state
  mt_active :: "tracked_error option"
  mt_last :: "tracked_error option"
  mt_pending :: bool
  mt_command :: "command_watch option"
  mt_seeking :: bool
  mt_gen :: nat
  mt_gen_id :: "string option"

definition stall_threshold :: "jsval \<Rightarrow> rat" where
  "stall_threshold options = max 1000 (case finite_num (fld options ''stallThresholdMs'') of None \<Rightarrow> 30000 | Some r \<Rightarrow> if r = 0 then 30000 else r)"

definition create_tracker :: "jsval \<Rightarrow> tracker" where
  "create_tracker options = \<lparr>mt_threshold = stall_threshold options, mt_time = None, mt_frames = None, mt_media_at = None, mt_frame_at = None,
     mt_since = None, mt_stall = None, mt_recovered = None, mt_state = PbIdle, mt_active = None, mt_last = None, mt_pending = False,
     mt_command = None, mt_seeking = False, mt_gen = 0, mt_gen_id = None\<rparr>"

definition reset_tracker :: "tracker \<Rightarrow> tracker" where
  "reset_tracker tk = tk\<lparr>mt_time := None, mt_frames := None, mt_media_at := None, mt_frame_at := None, mt_since := None, mt_stall := None,
     mt_recovered := None, mt_state := PbIdle, mt_active := None, mt_last := None, mt_pending := False, mt_command := None,
     mt_seeking := False, mt_gen := Suc (mt_gen tk)\<rparr>"

definition applicable_at :: "rat \<Rightarrow> jsval \<Rightarrow> rat" where
  "applicable_at clock options = (case finite_num (fld options ''now'') of None \<Rightarrow> clock | Some r \<Rightarrow> r)"

definition set_command :: "rat \<Rightarrow> jsval \<Rightarrow> jsval \<Rightarrow> tracker \<Rightarrow> tracker" where
  "set_command clock command_id options tk =
     (let id = text_of command_id in
      if id = [] then tk\<lparr>mt_command := None\<rparr>
      else if (case mt_command tk of None \<Rightarrow> False | Some c \<Rightarrow> cw_gen c = mt_gen tk \<and> cw_id c = id) then tk
      else tk\<lparr>mt_command := Some \<lparr>cw_id = take 128 id, cw_at = applicable_at clock options, cw_gen = mt_gen tk, cw_confirmed = None,
             cw_based = False, cw_time_seen = False, cw_frames_seen = False, cw_time = None, cw_frames = None, cw_awaiting = mt_seeking tk\<rparr>\<rparr>)"

definition set_generation :: "jsval \<Rightarrow> tracker \<Rightarrow> tracker" where
  \<comment> \<open>not among the operations the tracker returns to its user\<close>
  "set_generation v tk = (let g = text128 v in if g = mt_gen_id tk then tk else reset_tracker (tk\<lparr>mt_gen_id := g\<rparr>))"

text \<open>\<open>null\<close> counts as 0 in a comparison.\<close>

definition num0 :: "rat option \<Rightarrow> rat" where
  "num0 v = (case v of None \<Rightarrow> 0 | Some r \<Rightarrow> r)"

definition establish_baseline :: "rat option \<Rightarrow> rat option \<Rightarrow> command_watch \<Rightarrow> command_watch" where
  "establish_baseline time frames c =
     c\<lparr>cw_based := True, cw_time_seen := time \<noteq> None, cw_frames_seen := frames \<noteq> None, cw_time := time, cw_frames := frames\<rparr>"

definition command_advanced :: "rat option \<Rightarrow> rat option \<Rightarrow> command_watch \<Rightarrow> command_watch \<times> bool" where
  "command_advanced time frames c =
     (if \<not> cw_based c then (c, False)
      else case frames of
        Some f \<Rightarrow>
          (if \<not> cw_frames_seen c then (c\<lparr>cw_frames_seen := True, cw_frames := Some f\<rparr>, False)
           else if num0 (cw_frames c) < f then
             (case time of None \<Rightarrow> (c\<lparr>cw_frames := Some f\<rparr>, True)
              | Some t \<Rightarrow> (c\<lparr>cw_frames := Some f, cw_time_seen := True, cw_time := Some t\<rparr>, True))
           else (c, False))
      | None \<Rightarrow>
          (case time of None \<Rightarrow> (c, False)
           | Some t \<Rightarrow>
               if \<not> cw_time_seen c then (c\<lparr>cw_time_seen := True, cw_time := Some t\<rparr>, False)
               else if num0 (cw_time c) + 1 / 40 < t then (c\<lparr>cw_time := Some t\<rparr>, True)
               else (c, False)))"

subsection \<open>A sample\<close>

definition sample_now :: "rat \<Rightarrow> jsval \<Rightarrow> rat" where
  "sample_now clock v = (case finite_num (fld v ''now'') of None \<Rightarrow> clock | Some r \<Rightarrow> r)"

definition sample_time :: "jsval \<Rightarrow> rat option" where
  "sample_time v = finite_num (fld v ''current_time'')"

definition sample_frames :: "jsval \<Rightarrow> rat option" where
  "sample_frames v = finite_num (fld v ''decoded_frames'')"

definition sample_seeking :: "jsval \<Rightarrow> bool" where
  "sample_seeking v \<longleftrightarrow> fld v ''seeking'' = JBool True"

definition seek_completes :: "jsval \<Rightarrow> tracker \<Rightarrow> bool" where
  "seek_completes v tk \<longleftrightarrow> \<not> sample_seeking v \<and> (fld v ''seek_transition'' = JBool True \<or> mt_seeking tk)"

definition seek_transition :: "jsval \<Rightarrow> tracker \<Rightarrow> bool" where
  "seek_transition v tk \<longleftrightarrow> sample_seeking v \<or> fld v ''seek_transition'' = JBool True \<or> seek_completes v tk"

definition advanced_over :: "rat option \<Rightarrow> rat option \<Rightarrow> rat \<Rightarrow> bool" where
  "advanced_over new old d \<longleftrightarrow> (case new of None \<Rightarrow> False | Some x \<Rightarrow> (case old of None \<Rightarrow> False | Some y \<Rightarrow> y + d < x))"

definition sample_progressed :: "jsval \<Rightarrow> tracker \<Rightarrow> bool" where
  "sample_progressed v tk \<longleftrightarrow> \<not> seek_transition v tk \<and>
     (if sample_frames v \<noteq> None then advanced_over (sample_frames v) (mt_frames tk) 0 else advanced_over (sample_time v) (mt_time tk) (1 / 40))"

definition note_clock :: "rat \<Rightarrow> jsval \<Rightarrow> tracker \<Rightarrow> tracker" where
  "note_clock now v tk =
     (let moved = (\<not> seek_transition v tk) in
      tk\<lparr>mt_seeking := (if sample_seeking v then True else if seek_completes v tk then False else mt_seeking tk),
         mt_time := (if sample_time v \<noteq> None then sample_time v else mt_time tk),
         mt_frames := (if sample_frames v \<noteq> None then sample_frames v else mt_frames tk),
         mt_media_at := (if moved \<and> advanced_over (sample_time v) (mt_time tk) (1 / 40) then Some now else mt_media_at tk),
         mt_frame_at := (if moved \<and> advanced_over (sample_frames v) (mt_frames tk) 0 then Some now else mt_frame_at tk)\<rparr>)"

definition note_error :: "rat \<Rightarrow> jsval \<Rightarrow> tracker \<Rightarrow> tracker" where
  "note_error now v tk =
     (if truthy (fld v ''error'') then
        (let e = normalize_playback_error (fld v ''error'');
             a = (case mt_active tk of
                    Some b \<Rightarrow> if pe_code b = pe_code e then b\<lparr>te_last := Some now, pe_fatal := pe_fatal e, pe_recoverable := pe_recoverable e\<rparr>
                              else track_error e (Some now) (Some now) None True
                  | None \<Rightarrow> track_error e (Some now) (Some now) None True)
         in tk\<lparr>mt_active := Some a, mt_last := Some a\<rparr>)
      else case mt_active tk of None \<Rightarrow> tk
      | Some b \<Rightarrow> tk\<lparr>mt_active := None, mt_last := map_option (\<lambda>e. e\<lparr>te_recovered := Some now, te_active := False\<rparr>) (mt_last tk),
                    mt_recovered := Some now, mt_pending := True\<rparr>)"

definition sample_expected :: "jsval \<Rightarrow> bool" where
  "sample_expected v \<longleftrightarrow> fld v ''expected_playing'' = JBool True \<and> fld v ''paused'' \<noteq> JBool True \<and> fld v ''ended'' \<noteq> JBool True \<and>
     \<not> sample_seeking v"

definition last_progress :: "jsval \<Rightarrow> tracker \<Rightarrow> rat option" where
  "last_progress v tk =
     (let relevant = (if sample_frames v \<noteq> None then mt_frame_at tk else mt_media_at tk) in if relevant = None then mt_since tk else relevant)"

definition overdue :: "rat \<Rightarrow> jsval \<Rightarrow> tracker \<Rightarrow> bool" where
  "overdue now v tk \<longleftrightarrow> (case last_progress v tk of None \<Rightarrow> False | Some t \<Rightarrow> mt_threshold tk \<le> now - t)"

definition note_state :: "rat \<Rightarrow> jsval \<Rightarrow> bool \<Rightarrow> tracker \<Rightarrow> tracker" where
  "note_state now v progressed tk =
     (let expected = sample_expected v;
          tk = tk\<lparr>mt_since := (if \<not> expected then None else if mt_since tk = None then Some now else mt_since tk)\<rparr>;
          tk = (if mt_active tk \<noteq> None then tk\<lparr>mt_state := PbError\<rparr>
            else if sample_seeking v then tk\<lparr>mt_state := PbLoading\<rparr>
            else if fld v ''paused'' = JBool True then tk\<lparr>mt_state := PbPaused\<rparr>
            else if \<not> expected then tk\<lparr>mt_state := PbIdle\<rparr>
            else if progressed \<and> (mt_pending tk \<or> mt_state tk = PbStalled) then
              tk\<lparr>mt_state := PbRecovering, mt_recovered := Some now, mt_pending := False, mt_stall := None\<rparr>
            else if overdue now v tk then tk\<lparr>mt_state := PbStalled, mt_stall := (if mt_stall tk = None then Some now else mt_stall tk)\<rparr>
            else tk\<lparr>mt_state := (if fld v ''loading'' = JBool True then PbLoading else PbPlaying)\<rparr>)
      in if mt_state tk \<noteq> PbStalled \<and> mt_state tk \<noteq> PbRecovering \<and> \<not> expected then tk\<lparr>mt_stall := None\<rparr> else tk)"

definition watch_command :: "rat \<Rightarrow> jsval \<Rightarrow> bool \<Rightarrow> nat \<Rightarrow> command_watch \<Rightarrow> command_watch" where
  "watch_command now v completes gen c =
     (if cw_gen c \<noteq> gen \<or> cw_confirmed c \<noteq> None then c
      else if now < cw_at c then c
      else if sample_seeking v then c\<lparr>cw_awaiting := True\<rparr>
      else if completes \<or> cw_awaiting c then (establish_baseline (sample_time v) (sample_frames v) c)\<lparr>cw_awaiting := False\<rparr>
      else if \<not> cw_based c then establish_baseline (sample_time v) (sample_frames v) c
      else (let (c', yes) = command_advanced (sample_time v) (sample_frames v) c in if yes then c'\<lparr>cw_confirmed := Some now\<rparr> else c'))"

definition note_command :: "rat \<Rightarrow> jsval \<Rightarrow> bool \<Rightarrow> tracker \<Rightarrow> tracker" where
  "note_command now v completes tk = tk\<lparr>mt_command := map_option (watch_command now v completes (mt_gen tk)) (mt_command tk)\<rparr>"

record progress_view =
  pv_state :: playback_state
  pv_expected :: bool
  pv_frames_available :: bool
  pv_media_at :: "rat option"
  pv_frame_at :: "rat option"
  pv_confirmed_at :: "rat option"
  pv_stall_at :: "rat option"
  pv_recovered_at :: "rat option"
  pv_error :: "tracked_error option"
  pv_command :: "string option"
  pv_command_at :: "rat option"

definition progress_view_of :: "jsval \<Rightarrow> tracker \<Rightarrow> progress_view" where
  "progress_view_of v tk =
     (let confirmed = (case mt_command tk of None \<Rightarrow> None | Some c \<Rightarrow> if cw_confirmed c = None then None else Some c) in
      \<lparr>pv_state = mt_state tk, pv_expected = sample_expected v, pv_frames_available = (sample_frames v \<noteq> None), pv_media_at = mt_media_at tk,
        pv_frame_at = mt_frame_at tk, pv_confirmed_at = (if sample_frames v \<noteq> None then mt_frame_at tk else mt_media_at tk),
        pv_stall_at = mt_stall tk, pv_recovered_at = mt_recovered tk, pv_error = mt_last tk,
        pv_command = map_option cw_id confirmed, pv_command_at = Option.bind confirmed cw_confirmed\<rparr>)"

definition observe :: "rat \<Rightarrow> jsval \<Rightarrow> tracker \<Rightarrow> tracker \<times> progress_view" where
  "observe clock v tk =
     (let now = sample_now clock v; completes = seek_completes v tk; progressed = sample_progressed v tk;
          tk = note_command now v completes (note_state now v progressed (note_error now v (note_clock now v tk)))
      in (tk, progress_view_of v tk))"

datatype progress_event = PrSample rat jsval | PrCommand rat jsval jsval | PrReset

fun progress_step :: "progress_event \<Rightarrow> tracker \<Rightarrow> tracker" where
  "progress_step (PrSample clock v) tk = fst (observe clock v tk)"
| "progress_step (PrCommand clock command_id options) tk = set_command clock command_id options tk"
| "progress_step PrReset tk = reset_tracker tk"

subsection \<open>The registry of the server\<close>

record progress_entry =
  en_at :: rat
  en_report :: progress_report
  en_client_at :: "rat option"

record progress_registry =
  rg_limit :: nat
  rg_entries :: "(string \<times> progress_entry) list"

definition create_registry :: "jsval \<Rightarrow> progress_registry" where
  "create_registry options =
     \<lparr>rg_limit = nat (max 1 (case finite_num (fld options ''maxEntries'') of None \<Rightarrow> 50 | Some r \<Rightarrow> if r = 0 then 50 else \<lfloor>r\<rfloor>)), rg_entries = []\<rparr>"

definition lifecycle_changed :: "progress_report \<Rightarrow> progress_entry option \<Rightarrow> bool" where
  "lifecycle_changed r prior = (case prior of None \<Rightarrow> False | Some p \<Rightarrow>
     (nr_session r \<noteq> None \<and> nr_session r \<noteq> nr_session (en_report p)) \<or>
     (nr_generation r \<noteq> None \<and> nr_generation r \<noteq> nr_generation (en_report p)))"

definition confirmed_progress :: "rat \<Rightarrow> progress_report \<Rightarrow> progress_entry option \<Rightarrow> rat option" where
  "confirmed_progress t0 r prior =
     (let changed = lifecycle_changed r prior;
          kept = (if changed then None else case prior of None \<Rightarrow> None
                    | Some p \<Rightarrow> if nr_confirmed_at (en_report p) = Some 0 then None else nr_confirmed_at (en_report p))
      in case nr_confirmed_at r of None \<Rightarrow> kept
         | Some t \<Rightarrow> if changed \<or> (case prior of None \<Rightarrow> True | Some p \<Rightarrow> num0 (en_client_at p) < t) then Some t0 else kept)"

definition entry_of :: "rat \<Rightarrow> progress_report \<Rightarrow> progress_entry option \<Rightarrow> progress_entry" where
  "entry_of t0 r prior =
     (let changed = lifecycle_changed r prior in
      \<lparr>en_at = t0,
        en_report = r\<lparr>nr_confirmed_at := confirmed_progress t0 r prior, nr_command := (if changed then None else nr_command r),
          nr_command_at := (if changed then None else if nr_command r \<noteq> None \<and> nr_command_at r \<noteq> None then Some t0 else None)\<rparr>,
        en_client_at = nr_confirmed_at r\<rparr>)"

fun evict_oldest :: "nat \<Rightarrow> 'a list \<Rightarrow> 'a list" where
  \<comment> \<open>the loop over the first key of the map\<close>
  "evict_oldest n [] = []"
| "evict_oldest n (x # xs) = (if n < length (x # xs) then evict_oldest n xs else x # xs)"

definition record_progress :: "rat \<Rightarrow> jsval \<Rightarrow> jsval \<Rightarrow> progress_registry \<Rightarrow> progress_registry" where
  "record_progress t0 display v rg =
     (let id = text_of display in
      if id = [] then rg
      else case normalize_report v of None \<Rightarrow> rg
      | Some r \<Rightarrow> rg\<lparr>rg_entries := evict_oldest (rg_limit rg)
          (AList.update id (entry_of t0 r (map_of (rg_entries rg) id)) (AList.delete id (rg_entries rg)))\<rparr>)"

definition progress_of :: "jsval \<Rightarrow> progress_registry \<Rightarrow> progress_entry option" where
  "progress_of display rg = map_of (rg_entries rg) (to_str (js_or display (JStr [])))"

definition clear_progress :: "jsval \<Rightarrow> progress_registry \<Rightarrow> progress_registry" where
  "clear_progress display rg = (if is_nullish display then rg else rg\<lparr>rg_entries := AList.delete (to_str display) (rg_entries rg)\<rparr>)"

subsection \<open>What confirms a command\<close>

lemma note_clock_keeps [simp]:
  "mt_command (note_clock now v tk) = mt_command tk" "mt_gen (note_clock now v tk) = mt_gen tk"
  "mt_threshold (note_clock now v tk) = mt_threshold tk" "mt_since (note_clock now v tk) = mt_since tk" "mt_active (note_clock now v tk) = mt_active tk"
  by (simp_all add: note_clock_def Let_def)

lemma note_error_keeps [simp]:
  "mt_command (note_error now v tk) = mt_command tk" "mt_gen (note_error now v tk) = mt_gen tk"
  "mt_threshold (note_error now v tk) = mt_threshold tk" "mt_since (note_error now v tk) = mt_since tk"
  "mt_frames (note_error now v tk) = mt_frames tk" "mt_frame_at (note_error now v tk) = mt_frame_at tk"
  "mt_seeking (note_error now v tk) = mt_seeking tk"
  by (simp_all add: note_error_def Let_def split: option.splits)

lemma note_state_keeps [simp]:
  "mt_command (note_state now v b tk) = mt_command tk" "mt_gen (note_state now v b tk) = mt_gen tk"
  "mt_threshold (note_state now v b tk) = mt_threshold tk" "mt_frames (note_state now v b tk) = mt_frames tk"
  "mt_frame_at (note_state now v b tk) = mt_frame_at tk" "mt_seeking (note_state now v b tk) = mt_seeking tk"
  by (simp_all add: note_state_def Let_def)

lemma note_command_keeps [simp]:
  "mt_gen (note_command now v b tk) = mt_gen tk" "mt_threshold (note_command now v b tk) = mt_threshold tk"
  "mt_frames (note_command now v b tk) = mt_frames tk" "mt_frame_at (note_command now v b tk) = mt_frame_at tk"
  "mt_since (note_command now v b tk) = mt_since tk" "mt_state (note_command now v b tk) = mt_state tk"
  "mt_seeking (note_command now v b tk) = mt_seeking tk"
  by (simp_all add: note_command_def)

definition seen_in :: "progress_event list \<Rightarrow> rat \<Rightarrow> (jsval \<Rightarrow> bool) \<Rightarrow> bool" where
  "seen_in es a P \<longleftrightarrow> (\<exists>clock v. PrSample clock v \<in> set es \<and> \<not> sample_seeking v \<and> a \<le> sample_now clock v \<and> P v)"

text \<open>Between two samples the picture went on: more frames were decoded, or without a frame counter the clock advanced.\<close>

definition went_on :: "jsval \<Rightarrow> jsval \<Rightarrow> bool" where
  "went_on v w \<longleftrightarrow> (if sample_frames w \<noteq> None then advanced_over (sample_frames w) (sample_frames v) 0
     else advanced_over (sample_time w) (sample_time v) (1 / 40))"

definition proven_in :: "progress_event list \<Rightarrow> rat \<Rightarrow> rat \<Rightarrow> bool" where
  "proven_in es a t \<longleftrightarrow> (\<exists>p1 c1 v1 p2 c2 v2 p3. es = p1 @ PrSample c1 v1 # p2 @ PrSample c2 v2 # p3 \<and>
     \<not> sample_seeking v1 \<and> a \<le> sample_now c1 v1 \<and> \<not> sample_seeking v2 \<and> a \<le> t \<and> t = sample_now c2 v2 \<and> went_on v1 v2)"

lemma seen_in_snoc: "seen_in es a P \<Longrightarrow> seen_in (es @ [e]) a P"
  by (auto simp: seen_in_def)

lemma seen_in_mono: "seen_in es a P \<Longrightarrow> (\<And>v. P v \<Longrightarrow> Q v) \<Longrightarrow> seen_in es a Q"
  unfolding seen_in_def by blast

lemma seen_in_last: "\<not> sample_seeking v \<Longrightarrow> a \<le> sample_now clock v \<Longrightarrow> P v \<Longrightarrow> seen_in (es @ [PrSample clock v]) a P"
  by (auto simp: seen_in_def)

lemma proven_in_snoc: "proven_in es a t \<Longrightarrow> proven_in (es @ [e]) a t"
  unfolding proven_in_def by (metis append.assoc append_Cons)

lemma proven_in_last:
  assumes "seen_in es a (\<lambda>w. went_on w v)" "\<not> sample_seeking v" "a \<le> sample_now clock v"
  shows "proven_in (es @ [PrSample clock v]) a (sample_now clock v)"
proof -
  from assms(1) obtain k w where w: "PrSample k w \<in> set es" "\<not> sample_seeking w" "a \<le> sample_now k w" "went_on w v"
    by (auto simp: seen_in_def)
  from w(1) obtain p1 p2 where "es = p1 @ PrSample k w # p2" by (meson split_list)
  with w(2-4) assms(2,3) show ?thesis
    unfolding proven_in_def by (intro exI [of _ p1] exI [of _ k] exI [of _ w] exI [of _ p2] exI [of _ clock] exI [of _ v] exI [of _ "[]"]) simp
qed

definition watch_ok :: "progress_event list \<Rightarrow> command_watch \<Rightarrow> bool" where
  "watch_ok es c \<longleftrightarrow>
     (cw_based c \<and> cw_frames_seen c \<longrightarrow> (\<exists>f. cw_frames c = Some f \<and> seen_in es (cw_at c) (\<lambda>v. sample_frames v = Some f))) \<and>
     (cw_based c \<and> cw_time_seen c \<longrightarrow> (\<exists>t. cw_time c = Some t \<and> seen_in es (cw_at c) (\<lambda>v. sample_time v = Some t))) \<and>
     (\<forall>t. cw_confirmed c = Some t \<longrightarrow> proven_in es (cw_at c) t)"

lemma watch_snoc: "watch_ok es c \<Longrightarrow> watch_ok (es @ [e]) c"
  unfolding watch_ok_def using seen_in_snoc proven_in_snoc by metis

lemma establish_ok:
  assumes "cw_confirmed c = None" "\<not> sample_seeking v" "cw_at c \<le> sample_now clock v"
  shows "watch_ok (es @ [PrSample clock v]) ((establish_baseline (sample_time v) (sample_frames v) c)\<lparr>cw_awaiting := b\<rparr>)"
  using assms by (auto simp: watch_ok_def establish_baseline_def intro: seen_in_last)

lemma establish_ok':
  assumes "cw_confirmed c = None" "\<not> sample_seeking v" "cw_at c \<le> sample_now clock v"
  shows "watch_ok (es @ [PrSample clock v]) (establish_baseline (sample_time v) (sample_frames v) c)"
  using assms by (auto simp: watch_ok_def establish_baseline_def intro: seen_in_last)

lemma command_advanced_ok:
  assumes ok: "watch_ok es c" and c: "cw_confirmed c = None" "\<not> sample_seeking v" "cw_at c \<le> sample_now clock v"
    and adv: "command_advanced (sample_time v) (sample_frames v) c = (d, yes)"
  shows "watch_ok (es @ [PrSample clock v]) (if yes then d\<lparr>cw_confirmed := Some (sample_now clock v)\<rparr> else d)"
proof -
  let ?es = "es @ [PrSample clock v]"
  from watch_snoc [OF ok] have ok': "watch_ok ?es c" .
  have lst: "seen_in ?es (cw_at c) P" if "P v" for P using seen_in_last [OF c(2,3)] that by blast
  have prv: "proven_in ?es (cw_at c) (sample_now clock v)" if "seen_in es (cw_at c) (\<lambda>w. went_on w v)"
    using proven_in_last [OF that c(2,3)] .
  have pf: "proven_in ?es (cw_at c) (sample_now clock v)"
    if "cw_based c" "cw_frames_seen c" "sample_frames v = Some f" "num0 (cw_frames c) < f" for f
  proof -
    from ok that(1,2) obtain g where "cw_frames c = Some g" "seen_in es (cw_at c) (\<lambda>v. sample_frames v = Some g)"
      by (auto simp: watch_ok_def)
    with that show ?thesis by (intro prv) (auto elim!: seen_in_mono simp: went_on_def advanced_over_def num0_def)
  qed
  have pt: "proven_in ?es (cw_at c) (sample_now clock v)"
    if "cw_based c" "cw_time_seen c" "sample_frames v = None" "sample_time v = Some t" "num0 (cw_time c) + 1 / 40 < t" for t
  proof -
    from ok that(1,2) obtain g where "cw_time c = Some g" "seen_in es (cw_at c) (\<lambda>v. sample_time v = Some g)"
      by (auto simp: watch_ok_def)
    with that show ?thesis by (intro prv) (auto elim!: seen_in_mono simp: went_on_def advanced_over_def num0_def)
  qed
  show ?thesis
    using adv ok' c(1) pf pt
    by (auto simp: command_advanced_def watch_ok_def lst split: if_splits option.splits)
qed

lemma command_advanced_keeps:
  "command_advanced t f c = (c', yes) \<Longrightarrow> cw_id c' = cw_id c \<and> cw_at c' = cw_at c \<and> cw_gen c' = cw_gen c"
  by (auto simp: command_advanced_def split: if_splits option.splits)

lemma watch_command_ok:
  assumes ok: "watch_ok es c"
  shows "watch_ok (es @ [PrSample clock v]) (watch_command (sample_now clock v) v b g c)"
proof (cases "cw_gen c \<noteq> g \<or> cw_confirmed c \<noteq> None \<or> sample_now clock v < cw_at c \<or> sample_seeking v")
  case True
  with watch_snoc [OF ok] show ?thesis by (auto simp: watch_command_def watch_ok_def)
next
  case False
  then have n: "cw_confirmed c = None" "\<not> sample_seeking v" "cw_at c \<le> sample_now clock v" by auto
  obtain d yes where adv: "command_advanced (sample_time v) (sample_frames v) c = (d, yes)" by fastforce
  from False command_advanced_ok [OF ok n adv] establish_ok [OF n] establish_ok' [OF n] show ?thesis
    by (simp add: watch_command_def adv)
qed

lemma watch_command_keeps: "cw_id (watch_command now v b g c) = cw_id c \<and> cw_at (watch_command now v b g c) = cw_at c"
  using command_advanced_keeps by (auto simp: watch_command_def establish_baseline_def split: prod.splits)

text \<open>The command a tracker waits for is the last one that was set.\<close>

definition still_set :: "string \<Rightarrow> progress_event \<Rightarrow> bool" where
  "still_set w e \<longleftrightarrow> (case e of PrSample _ _ \<Rightarrow> True | PrCommand _ i _ \<Rightarrow> text_of i = w | PrReset \<Rightarrow> False)"

definition set_by :: "progress_event list \<Rightarrow> command_watch \<Rightarrow> rat \<Rightarrow> jsval \<Rightarrow> jsval \<Rightarrow> progress_event list \<Rightarrow> bool" where
  "set_by es c clock i options post \<longleftrightarrow> suffix (PrCommand clock i options # post) es \<and> text_of i \<noteq> [] \<and> cw_id c = take 128 (text_of i) \<and>
     cw_at c = applicable_at clock options \<and> list_all (still_set (cw_id c)) post"

lemma set_by_snoc:
  "set_by es c clock i options post \<Longrightarrow> still_set (cw_id c) e \<Longrightarrow> cw_id d = cw_id c \<Longrightarrow> cw_at d = cw_at c \<Longrightarrow>
   set_by (es @ [e]) d clock i options (post @ [e])"
  by (simp add: set_by_def) (metis append_Cons suffix_snoc snoc_suffix_snoc)

lemma watched_command:
  assumes "mt_command tk = None" "mt_command (run_events progress_step es tk) = Some c"
  shows "\<exists>clock i options post. set_by es c clock i options post \<and> watch_ok post c"
  using assms
proof (induction es arbitrary: c rule: rev_induct)
  case Nil
  then show ?case by simp
next
  case (snoc e es)
  let ?tk = "run_events progress_step es tk"
  show ?case
  proof (cases e)
    case (PrSample clock v)
    then obtain c0 where c0: "mt_command ?tk = Some c0"
      and c: "c = watch_command (sample_now clock v) v (seek_completes v ?tk) (mt_gen ?tk) c0"
      using snoc.prems by (auto simp: observe_def Let_def note_command_def)
    from snoc.IH [OF snoc.prems(1) c0] obtain k i options post where IH: "set_by es c0 k i options post" "watch_ok post c0" by blast
    have "set_by (es @ [e]) c k i options (post @ [e])"
      by (rule set_by_snoc [OF IH(1)]) (simp_all add: c watch_command_keeps PrSample still_set_def)
    moreover have "watch_ok (post @ [e]) c" unfolding c PrSample by (rule watch_command_ok [OF IH(2)])
    ultimately show ?thesis by blast
  next
    case (PrCommand clock i options)
    show ?thesis
    proof (cases "mt_command ?tk = Some c \<and> cw_id c = text_of i")
      case True
      from snoc.IH [OF snoc.prems(1) conjunct1 [OF True]] obtain k j opts post where IH: "set_by es c k j opts post" "watch_ok post c" by blast
      have "set_by (es @ [e]) c k j opts (post @ [e])"
        by (rule set_by_snoc [OF IH(1)]) (simp_all add: True PrCommand still_set_def)
      with watch_snoc [OF IH(2)] show ?thesis by blast
    next
      case False
      have "mt_command (set_command clock i options ?tk) = Some c" using snoc.prems PrCommand by simp
      with False have "text_of i \<noteq> []" "cw_id c = take 128 (text_of i)" "cw_at c = applicable_at clock options" "watch_ok [] c"
        by (auto simp: set_command_def Let_def watch_ok_def split: if_splits option.splits)
      then have "set_by (es @ [e]) c clock i options [] \<and> watch_ok [] c" by (simp add: set_by_def PrCommand suffix_def)
      then show ?thesis by blast
    qed
  next
    case PrReset
    with snoc.prems show ?thesis by (simp add: reset_tracker_def)
  qed
qed

lemma confirmed_view:
  "pv_command_at (snd (observe clock v tk)) = Some t \<Longrightarrow>
   \<exists>c. mt_command (progress_step (PrSample clock v) tk) = Some c \<and> cw_confirmed c = Some t \<and> pv_command (snd (observe clock v tk)) = Some (cw_id c)"
  by (auto simp: observe_def Let_def progress_view_of_def split: option.splits if_splits)

text \<open>C20: The tracker reports a command as confirmed only for the last command that was set, with no reset since, and only when
  two samples after it, both at or after the time it applies and outside a seek, show the picture going on: more decoded
  frames, or without a frame counter a later media time. The second sample gives the time of the confirmation.
\<close>

theorem command_confirmed_by_progress:
  assumes "pv_command_at (snd (observe clock v (run_events progress_step es (create_tracker options)))) = Some t"
  shows "\<exists>pre k i opts post. es @ [PrSample clock v] = pre @ PrCommand k i opts # post \<and>
    pv_command (snd (observe clock v (run_events progress_step es (create_tracker options)))) = Some (take 128 (text_of i)) \<and>
    text_of i \<noteq> [] \<and> list_all (still_set (take 128 (text_of i))) post \<and> proven_in post (applicable_at k opts) t"
proof -
  let ?tk = "create_tracker options"
  from confirmed_view [OF assms] obtain c where c: "mt_command (run_events progress_step (es @ [PrSample clock v]) ?tk) = Some c"
    "cw_confirmed c = Some t" "pv_command (snd (observe clock v (run_events progress_step es ?tk))) = Some (cw_id c)" by auto
  have "mt_command ?tk = None" by (simp add: create_tracker_def)
  from watched_command [OF this c(1)] obtain k i opts post where s: "set_by (es @ [PrSample clock v]) c k i opts post" "watch_ok post c" by blast
  from s(1) obtain pre where "es @ [PrSample clock v] = pre @ PrCommand k i opts # post" by (auto simp: set_by_def suffix_def)
  moreover from s c(2) have "proven_in post (applicable_at k opts) t" by (simp add: set_by_def watch_ok_def)
  moreover from s(1) c(3) have "pv_command (snd (observe clock v (run_events progress_step es ?tk))) = Some (take 128 (text_of i))"
    "text_of i \<noteq> []" "list_all (still_set (take 128 (text_of i))) post" by (auto simp: set_by_def)
  ultimately show ?thesis by blast
qed

definition frame_sample :: "int \<Rightarrow> jsval" where
  "frame_sample n = JObj [(''expected_playing'', JBool True), (''decoded_frames'', jint n)]"

lemma frame_sample_run:
  "pv_command_at (snd (observe 30 (frame_sample 9) (run_events progress_step
     [PrSample 5 (frame_sample 7), PrCommand 10 (JStr ''play-1'') JNull, PrSample 20 (frame_sample 8)] (create_tracker JNull)))) = Some 30"
  by code_simp

theorem command_confirmed_by_progress_witness:
  "\<exists>pre k i opts post. [PrSample 5 (frame_sample 7), PrCommand 10 (JStr ''play-1'') JNull, PrSample 20 (frame_sample 8)] @ [PrSample 30 (frame_sample 9)] =
      pre @ PrCommand k i opts # post \<and>
    pv_command (snd (observe 30 (frame_sample 9) (run_events progress_step
     [PrSample 5 (frame_sample 7), PrCommand 10 (JStr ''play-1'') JNull, PrSample 20 (frame_sample 8)] (create_tracker JNull)))) = Some (take 128 (text_of i)) \<and>
    text_of i \<noteq> [] \<and> list_all (still_set (take 128 (text_of i))) post \<and> proven_in post (applicable_at k opts) 30"
  by (rule command_confirmed_by_progress [OF frame_sample_run])

subsection \<open>A frozen picture\<close>

definition frozen_sample :: "rat \<Rightarrow> jsval \<Rightarrow> bool" where
  "frozen_sample f v \<longleftrightarrow> sample_frames v = Some f \<and> sample_expected v \<and> fld v ''seek_transition'' \<noteq> JBool True \<and> \<not> truthy (fld v ''error'')"

definition happened_by :: "rat \<Rightarrow> progress_event \<Rightarrow> bool" where
  "happened_by t e \<longleftrightarrow> (case e of PrSample clock v \<Rightarrow> sample_now clock v \<le> t | _ \<Rightarrow> True)"

definition by_time :: "rat \<Rightarrow> tracker \<Rightarrow> bool" where
  "by_time t tk \<longleftrightarrow> (\<forall>x. mt_since tk = Some x \<longrightarrow> x \<le> t) \<and> (\<forall>x. mt_frame_at tk = Some x \<longrightarrow> x \<le> t)"

lemma mt_since_observe:
  "mt_since (fst (observe clock v tk)) =
     (if \<not> sample_expected v then None else if mt_since tk = None then Some (sample_now clock v) else mt_since tk)"
  by (simp add: observe_def Let_def note_state_def)

lemma mt_frame_at_observe:
  "mt_frame_at (fst (observe clock v tk)) =
     (if \<not> seek_transition v tk \<and> advanced_over (sample_frames v) (mt_frames tk) 0 then Some (sample_now clock v) else mt_frame_at tk)"
  by (simp add: observe_def Let_def note_clock_def)

lemma mt_frames_observe: "mt_frames (fst (observe clock v tk)) = (if sample_frames v \<noteq> None then sample_frames v else mt_frames tk)"
  by (simp add: observe_def Let_def note_clock_def)

lemma mt_seeking_observe:
  "mt_seeking (fst (observe clock v tk)) = (if sample_seeking v then True else if seek_completes v tk then False else mt_seeking tk)"
  by (simp add: observe_def Let_def note_clock_def)

lemma mt_threshold_step [simp]: "mt_threshold (progress_step e tk) = mt_threshold tk"
  by (cases e) (simp_all add: observe_def Let_def set_command_def reset_tracker_def split: option.splits)

lemma mt_threshold_run [simp]: "mt_threshold (run_events progress_step es tk) = mt_threshold tk"
  by (induction es arbitrary: tk) simp_all

lemma set_command_keeps [simp]:
  "mt_since (set_command k i opts tk) = mt_since tk" "mt_frame_at (set_command k i opts tk) = mt_frame_at tk"
  by (simp_all add: set_command_def Let_def split: option.splits)

lemma by_time_step: "by_time t tk \<Longrightarrow> happened_by t e \<Longrightarrow> by_time t (progress_step e tk)"
  by (cases e) (auto simp: by_time_def happened_by_def mt_since_observe mt_frame_at_observe reset_tracker_def)

lemma by_time_run: "by_time t tk \<Longrightarrow> list_all (happened_by t) es \<Longrightarrow> by_time t (run_events progress_step es tk)"
  by (induction es arbitrary: tk) (simp_all add: by_time_step)

text \<open>What a frozen picture leaves behind.\<close>

definition frozen_at :: "rat \<Rightarrow> rat \<Rightarrow> tracker \<Rightarrow> bool" where
  "frozen_at t f tk \<longleftrightarrow> by_time t tk \<and> mt_since tk \<noteq> None \<and> mt_frames tk = Some f \<and> \<not> mt_seeking tk"

lemma frozen_first:
  assumes "by_time (sample_now clock v) tk" "frozen_sample f v"
  shows "frozen_at (sample_now clock v) f (fst (observe clock v tk))"
  using assms
  by (auto simp: frozen_at_def by_time_def frozen_sample_def mt_since_observe mt_frame_at_observe mt_frames_observe mt_seeking_observe
        sample_expected_def seek_completes_def)

lemma frozen_next: "frozen_at t f tk \<Longrightarrow> frozen_sample f v \<Longrightarrow> frozen_at t f (fst (observe clock v tk))"
  by (auto simp: frozen_at_def by_time_def frozen_sample_def mt_since_observe mt_frame_at_observe mt_frames_observe mt_seeking_observe
        sample_expected_def seek_completes_def advanced_over_def)

lemma frozen_run:
  "frozen_at t f tk \<Longrightarrow> list_all (frozen_sample f \<circ> snd) xs \<Longrightarrow> frozen_at t f (run_events progress_step (map (\<lambda>(c, v). PrSample c v) xs) tk)"
  by (induction xs arbitrary: tk) (auto simp: frozen_next)

lemma frozen_stalls:
  assumes "frozen_at t f tk" "frozen_sample f v" "mt_threshold tk \<le> sample_now clock v - t"
  shows "pv_state (snd (observe clock v tk)) = PbStalled"
proof -
  let ?now = "sample_now clock v"
  let ?tk = "note_error ?now v (note_clock ?now v tk)"
  have a: "mt_active ?tk = None" using assms(2) by (simp add: note_error_def frozen_sample_def split: option.splits)
  have np: "\<not> sample_progressed v tk" using assms(1,2) by (simp add: sample_progressed_def frozen_sample_def frozen_at_def advanced_over_def)
  have fa: "mt_frame_at ?tk = mt_frame_at tk" "mt_since ?tk = mt_since tk"
    using assms(1,2) by (simp_all add: note_clock_def Let_def frozen_sample_def frozen_at_def advanced_over_def)
  have od: "overdue ?now v (?tk\<lparr>mt_since := mt_since tk\<rparr>)"
    using assms fa by (auto simp: overdue_def last_progress_def Let_def frozen_at_def frozen_sample_def by_time_def split: option.splits)
  have "mt_state (note_state ?now v False ?tk) = PbStalled"
    using assms(1,2) a od fa(2) by (auto simp: note_state_def Let_def frozen_sample_def sample_expected_def frozen_at_def)
  with np show ?thesis by (simp add: observe_def Let_def progress_view_of_def)
qed

text \<open>C38: A picture that is expected to play but decodes no new frame is reported as stalled once the threshold has passed since
  the first such sample, whatever the tracker saw before.
\<close>

theorem frozen_picture_stalls:
  assumes "list_all (happened_by (sample_now c0 v0)) es" "list_all (frozen_sample f \<circ> snd) ((c0, v0) # xs)" "frozen_sample f v"
    "stall_threshold options \<le> sample_now clock v - sample_now c0 v0"
  shows "pv_state (snd (observe clock v (run_events progress_step (es @ map (\<lambda>(c, w). PrSample c w) ((c0, v0) # xs)) (create_tracker options)))) = PbStalled"
proof -
  let ?tk = "run_events progress_step es (create_tracker options)"
  have "by_time (sample_now c0 v0) ?tk" by (rule by_time_run) (use assms(1) in \<open>simp_all add: by_time_def create_tracker_def\<close>)
  with assms(2) have "frozen_at (sample_now c0 v0) f (fst (observe c0 v0 ?tk))" by (simp add: frozen_first)
  from frozen_run [OF this] assms(2)
  have "frozen_at (sample_now c0 v0) f (run_events progress_step (map (\<lambda>(c, w). PrSample c w) xs) (fst (observe c0 v0 ?tk)))" by simp
  from frozen_stalls [OF this assms(3)] assms(4) show ?thesis
    by (simp add: create_tracker_def mt_threshold_step [of "PrSample c0 v0", simplified])
qed

theorem frozen_picture_stalls_witness:
  "pv_state (snd (observe 31000 (frame_sample 7) (run_events progress_step ([PrSample 500 (frame_sample 6)] @
     map (\<lambda>(c, w). PrSample c w) [(1000, frame_sample 7), (16000, frame_sample 7)]) (create_tracker JNull)))) = PbStalled"
proof (rule frozen_picture_stalls [where f = 7])
  show "list_all (happened_by (sample_now 1000 (frame_sample 7))) [PrSample 500 (frame_sample 6)]" by code_simp
  show "list_all (frozen_sample 7 \<circ> snd) [(1000, frame_sample 7), (16000, frame_sample 7)]" by code_simp
  show "frozen_sample 7 (frame_sample 7)" by code_simp
  show "stall_threshold JNull \<le> sample_now 31000 (frame_sample 7) - sample_now 1000 (frame_sample 7)" by code_simp
qed

subsection \<open>Errors carry no text from outside\<close>

lemma allowlisted_safe: "f \<in> set safe_codes \<Longrightarrow> allowlisted_code v f \<in> set safe_codes"
  by (simp add: allowlisted_code_def Let_def)

lemma category_code_safe: "category_code cat \<in> set safe_codes"
  by (simp add: category_code_def safe_codes_def)

lemma message_for_safe: "message_for c \<in> snd ` set safe_messages"
  by (auto simp: message_for_def safe_messages_def split: option.splits)

lemma safe_message_safe: "f \<in> snd ` set safe_messages \<Longrightarrow> safe_message c f \<in> snd ` set safe_messages"
  by (auto simp: safe_message_def safe_messages_def split: option.splits)

lemma map_of_messages: "map_of safe_messages c = Some s \<Longrightarrow> s \<in> snd ` set safe_messages"
  by (auto dest!: map_of_SomeD intro: rev_image_eqI)

lemma detected_messages: "error_message c cat \<in> snd ` set safe_messages" "detected_message c cat \<in> snd ` set safe_messages"
  by (auto simp: error_message_def detected_message_def message_for_safe map_of_messages split: option.splits)

lemma fst_if_in: "fst x \<in> S \<Longrightarrow> fst y \<in> S \<Longrightarrow> fst (if b then x else y) \<in> S"
  by simp

lemma detect_error_category: "fst (detect_error s t r) \<in> set error_categories"
  unfolding detect_error_def Let_def by (intro fst_if_in) (simp_all add: error_categories_def)

text \<open>C40: Whatever error a player reports, what goes on is one of seven categories, one of ten codes and one of six messages, and
  a fatal error is not recoverable: no text of the exception, address or header crosses.
\<close>

theorem renderer_error_sanitized:
  "let e = normalize_playback_error v in pe_category e \<in> set error_categories \<and> pe_code e \<in> set safe_codes \<and>
     pe_message e \<in> snd ` set safe_messages \<and> \<not> (pe_fatal e \<and> pe_recoverable e)"
proof (cases "to_upper_ascii (safe_string (fld v ''category'')) \<in> set error_categories")
  case True
  then show ?thesis
    unfolding normalize_playback_error_def Let_def
    by (simp only: if_True playback_error.simps allowlisted_safe category_code_safe safe_message_safe detected_messages simp_thms) blast
next
  case False
  obtain cat c where d: "detect_error (to_lower (safe_string (fld v ''source''))) (to_lower (safe_string (fld v ''type'')))
    (safe_string (if is_nullish (fld v ''details'') \<or> fld v ''details'' = JStr [] then fld v ''code'' else fld v ''details'')) = (cat, c)"
    by fastforce
  with detect_error_category have "cat \<in> set error_categories" by (metis fst_conv)
  with False d show ?thesis
    unfolding normalize_playback_error_def Let_def
    by (simp only: if_False prod.case playback_error.simps allowlisted_safe category_code_safe safe_message_safe detected_messages simp_thms)
qed

subsection \<open>The registry stays bounded\<close>

datatype registry_event = RgRecord rat jsval jsval | RgClear jsval

fun registry_step :: "registry_event \<Rightarrow> progress_registry \<Rightarrow> progress_registry" where
  "registry_step (RgRecord t0 display v) rg = record_progress t0 display v rg"
| "registry_step (RgClear display) rg = clear_progress display rg"

definition good_registry :: "progress_registry \<Rightarrow> bool" where
  "good_registry rg \<longleftrightarrow> 1 \<le> rg_limit rg \<and> length (rg_entries rg) \<le> rg_limit rg \<and> distinct_keys (rg_entries rg)"

lemma evict_oldest_drop: "evict_oldest n xs = drop (length xs - n) xs"
  by (induction xs) (auto simp: Suc_diff_le)

lemma registry_put:
  fixes m :: "('k \<times> 'v) list" and k :: 'k and v :: 'v
  assumes "distinct_keys m" "1 \<le> n"
  defines "m' \<equiv> evict_oldest n (AList.update k v (AList.delete k m))"
  shows "length m' \<le> n" "distinct_keys m'" "map_of m' k = Some v" "set m' \<subseteq> insert (k, v) (set m)"
proof -
  let ?d = "AList.delete k m"
  have k: "k \<notin> fst ` set ?d" by (auto simp: AList.delete_eq)
  then have m': "m' = drop (Suc (length ?d) - n) ?d @ [(k, v)]"
    using assms(2) unfolding m'_def by (simp add: evict_oldest_drop update_fresh map_of_eq_None_iff)
  show "length m' \<le> n" using assms(2) by (auto simp: m')
  have d: "distinct (map fst ?d)" using assms(1) by (simp add: distinct_keys_def distinct_delete)
  have "map fst m' = drop (Suc (length ?d) - n) (map fst ?d) @ [k]" by (simp add: m' drop_map)
  with d k show "distinct_keys m'" by (auto simp: distinct_keys_def dest: in_set_dropD)
  have "k \<notin> fst ` set (drop (Suc (length ?d) - n) ?d)" using k by (meson image_mono set_drop_subset subsetD)
  then have "map_of (drop (Suc (length ?d) - n) ?d) k = None" by (simp add: map_of_eq_None_iff)
  then show "map_of m' k = Some v" by (simp add: m' map_add_def)
  show "set m' \<subseteq> insert (k, v) (set m)"
    using set_drop_subset [of "Suc (length ?d) - n" ?d] by (auto simp: m' AList.delete_eq)
qed

lemma good_registry_step: "good_registry rg \<Longrightarrow> good_registry (registry_step e rg)"
proof (cases e)
  case (RgRecord t0 display v)
  assume "good_registry rg"
  with registry_put [of "rg_entries rg" "rg_limit rg"] RgRecord show ?thesis
    by (auto simp: good_registry_def record_progress_def Let_def split: option.splits)
next
  case (RgClear display)
  assume "good_registry rg"
  with RgClear show ?thesis
    by (auto simp: good_registry_def clear_progress_def distinct_keys_def distinct_delete intro: order_trans [OF length_delete_le])
qed

interpretation registry: machine registry_step good_registry
  by unfold_locales (rule good_registry_step)

lemma create_registry_good: "good_registry (create_registry options)"
  by (auto simp: good_registry_def create_registry_def)

lemma registry_step_limit: "rg_limit (registry_step e rg) = rg_limit rg"
  by (cases e) (simp_all add: record_progress_def clear_progress_def Let_def split: option.splits)

lemma registry_limit_run: "rg_limit (run_events registry_step es rg) = rg_limit rg"
  by (induction es arbitrary: rg) (simp_all add: registry_step_limit)

text \<open>However many displays report, the registry keeps at most as many as it was created for, one entry for each; a valid
  report is always kept, and apart from it nothing is kept that was not there.
\<close>

theorem registry_bounded:
  assumes "text_of display \<noteq> []" "normalize_report v = Some r"
  shows "let rg = run_events registry_step es (create_registry options); rg' = record_progress t0 display v rg;
      e = entry_of t0 r (map_of (rg_entries rg) (text_of display))
    in length (rg_entries rg') \<le> rg_limit (create_registry options) \<and> distinct_keys (rg_entries rg') \<and>
       map_of (rg_entries rg') (text_of display) = Some e \<and> set (rg_entries rg') \<subseteq> insert (text_of display, e) (set (rg_entries rg))"
proof -
  let ?rg = "run_events registry_step es (create_registry options)"
  have "good_registry ?rg" by (rule registry.run_good [OF create_registry_good])
  with registry_put [of "rg_entries ?rg" "rg_limit ?rg" "text_of display"] assms show ?thesis
    by (simp add: good_registry_def record_progress_def Let_def registry_limit_run)
qed

definition progress_text :: "int \<Rightarrow> jsval" where
  "progress_text n = JObj [(''playback_state'', JStr ''PLAYING_PROGRESS''), (''last_confirmed_render_progress_at'', jint n)]"

lemma progress_text_report: "normalize_report (progress_text 7) = Some (the (normalize_report (progress_text 7)))"
  by code_simp

theorem registry_bounded_witness:
  "let rg = run_events registry_step [RgRecord 1 (JStr ''a'') (progress_text 4), RgRecord 2 (JStr ''b'') (progress_text 5)]
       (create_registry (JObj [(''maxEntries'', jint 2)]));
     rg' = record_progress 3 (JStr ''c'') (progress_text 7) rg;
     e = entry_of 3 (the (normalize_report (progress_text 7))) (map_of (rg_entries rg) (text_of (JStr ''c'')))
   in length (rg_entries rg') \<le> rg_limit (create_registry (JObj [(''maxEntries'', jint 2)])) \<and> distinct_keys (rg_entries rg') \<and>
      map_of (rg_entries rg') (text_of (JStr ''c'')) = Some e \<and> set (rg_entries rg') \<subseteq> insert (text_of (JStr ''c''), e) (set (rg_entries rg))"
  by (rule registry_bounded [OF _ progress_text_report]) code_simp

text \<open>
  A report without a progress time forgets the last one the client sent, so the same time sent again counts as new progress
  within one session and generation.
\<close>

lemma progress_counts_again:
  "map_option (nr_confirmed_at \<circ> en_report) (progress_of (JStr ''a'') (run_events registry_step
     [RgRecord 1 (JStr ''a'') (progress_text 7), RgRecord 2 (JStr ''a'') (JObj []), RgRecord 3 (JStr ''a'') (progress_text 7)]
     (create_registry JNull))) = Some (Some 3)"
  by code_simp

end
