(* ===== verification/Compositor.thy ===== *)
theory Compositor
  imports Prelude Machines
begin

text \<open>
  The program of a live stream, composed of the classroom camera and a content: the controller
  (\<open>server/lib/fixed-compositor-controller.js\<close>), the requests it makes of OBS (\<open>obs-websocket-v5.js\<close>) and the receiver that
  renders the content (\<open>live-program-receiver.js\<close>).

  Everything outside is called through \<open>ask\<close>: the environment answers a call with a value or a failure, depending on all that
  happened before, and says whether a call that failed has still had its effect. The log of calls and answers is part of the state, which
  is that of one workspace: its operations run one after another, as the queue of the controller has it. A digest of a value,
  identifiers and the clock are arguments. A wait for a confirmation takes the number of polls that fit before its deadline.
\<close>

subsection \<open>Calls\<close>

record edge_failure =
  ef_code :: "string option"
  ef_message :: string

datatype obs_request = SetScene "string option" | GetScene | SetMute string bool

datatype edge_call =
    ToObs obs_request
  | EnsureDisplay
  | CreateDelivery jsval
  | PushSource jsval jsval
  | MarkDispatched jsval
  | MarkChanged jsval
  | ReadDelivery jsval
  | PublishEmpty jsval
  | SendPlaylist jsval
  | ReadDisplay jsval
  | EmitPolicy jsval string int

record answer =
  an_result :: "edge_failure + jsval"
  an_effect :: bool

type_synonym call_log = "(edge_call \<times> answer) list"

type_synonym surroundings = "call_log \<Rightarrow> edge_call \<Rightarrow> answer"

record composition =
  co_workspace :: string
  co_accepted :: bool
  co_requested :: string
  co_confirmed :: string
  co_source :: jsval
  co_instance :: "string option"
  co_receiver :: jsval
  co_available :: bool
  co_scene :: string
  co_scene_confirmed :: bool
  co_audio :: string
  co_failure_code :: "string option"
  co_failure_message :: "string option"
  co_revision :: int
  co_request :: "string option"
  co_updated :: "rat option"

record live_world =
  lw_state :: "composition option"
  lw_requests :: "(string \<times> string \<times> composition) list"
  lw_log :: call_log

type_synonym 'a program = "live_world \<Rightarrow> (edge_failure + 'a) \<times> live_world"

definition failing :: "string \<Rightarrow> string \<Rightarrow> 'a program" where
  "failing c msg w = (Inl \<lparr>ef_code = Some c, ef_message = msg\<rparr>, w)"

definition giving :: "'a \<Rightarrow> 'a program" where
  "giving x w = (Inr x, w)"

definition and_then :: "'a program \<Rightarrow> ('a \<Rightarrow> 'b program) \<Rightarrow> 'b program" where
  "and_then p f w = (case p w of (Inl e, w') \<Rightarrow> (Inl e, w') | (Inr x, w') \<Rightarrow> f x w')"

definition swallow :: "'a program \<Rightarrow> 'a option program" where
  \<comment> \<open>\<open>try { ... } catch (_) {}\<close>\<close>
  "swallow p w = (case p w of (Inl e, w') \<Rightarrow> (Inr None, w') | (Inr x, w') \<Rightarrow> (Inr (Some x), w'))"

definition ask :: "surroundings \<Rightarrow> edge_call \<Rightarrow> jsval program" where
  "ask env c w = (let a = env (lw_log w) c in (an_result a, w\<lparr>lw_log := lw_log w @ [(c, a)]\<rparr>))"

subsection \<open>OBS\<close>

record obs_inputs =
  oi_camera :: string
  oi_content :: string

definition set_input_muted :: "surroundings \<Rightarrow> string \<Rightarrow> bool \<Rightarrow> unit program" where
  "set_input_muted env input b = and_then (ask env (ToObs (SetMute input b))) (\<lambda>_. giving ())"

definition current_scene :: "surroundings \<Rightarrow> jsval program" where
  "current_scene env = and_then (ask env (ToObs GetScene)) (\<lambda>d. giving (js_or (fld d ''currentProgramSceneName'') JNull))"

definition set_scene_confirmed :: "surroundings \<Rightarrow> string option \<Rightarrow> string program" where
  \<comment> \<open>\<open>None\<close> is a scene that is no text, which no answer equals\<close>
  "set_scene_confirmed env scene =
     and_then (ask env (ToObs (SetScene scene))) (\<lambda>_.
     and_then (current_scene env) (\<lambda>s.
       case scene of None \<Rightarrow> failing ''OBS_SCENE_NOT_CONFIRMED'' ''OBS did not confirm the requested program scene''
       | Some n \<Rightarrow> if s = JStr n then giving n else failing ''OBS_SCENE_NOT_CONFIRMED'' ''OBS did not confirm the requested program scene''))"

definition obs_audio_policy :: "surroundings \<Rightarrow> obs_inputs \<Rightarrow> string \<Rightarrow> unit program" where
  "obs_audio_policy env oi policy =
     (if policy \<noteq> ''camera'' \<and> policy \<noteq> ''content_replace'' then failing ''INVALID_AUDIO_POLICY'' ''Audio policy must be camera or content_replace''
      else and_then (set_input_muted env (oi_camera oi) True) (\<lambda>_.
           and_then (set_input_muted env (oi_content oi) True) (\<lambda>_.
           if policy = ''content_replace'' then set_input_muted env (oi_content oi) False else set_input_muted env (oi_camera oi) False)))"

subsection \<open>The receiver\<close>

definition source_descriptor :: "(jsval \<Rightarrow> string) \<Rightarrow> jsval \<Rightarrow> (string \<times> string \<times> (string \<times> jsval) list) option" where
  "source_descriptor digest source =
     (let t = fld source ''type''; cid = fld source ''contentId''; pid = fld source ''presentationId''; url = fld source ''remoteUrl'' in
      if t = JStr ''content'' \<and> truthy cid then Some (''content'', to_str cid, [(''content_id'', JStr (to_str cid))])
      else if t = JStr ''presentation'' \<and> truthy pid \<and> truthy url then Some (''presentation'', to_str pid, [(''remote_url'', JStr (to_str url))])
      else if t = JStr ''remote_url'' \<and> truthy url then
        Some (''remote_url'', ''sha256:'' @ take 32 (digest (JStr (to_str url))), [(''remote_url'', JStr (to_str url))])
      else None)"

definition first_item :: "jsval \<Rightarrow> jsval" where
  "first_item v = (case array_items v of [] \<Rightarrow> JUndef | x # _ \<Rightarrow> x)"

text \<open>What a look at the delivery says: not settled yet, failed, or the state the player confirmed.\<close>

definition delivery_verdict :: "jsval \<Rightarrow> string \<Rightarrow> (edge_failure + jsval) option" where
  "delivery_verdict request inst =
     (let device = (if truthy request then first_item (fld request ''devices'') else JUndef);
          state = js_or (fld device ''confirmed_player_state'') (JObj []) in
      if truthy request \<and> fld request ''status'' = JStr ''confirmed'' \<and> truthy device \<and> fld device ''state'' = JStr ''confirmed'' then
        (if to_str (js_or (fld state ''content_instance_id'') (JStr [])) \<noteq> inst then
           Some (Inl \<lparr>ef_code = Some ''RECEIVER_CONTENT_INSTANCE_MISMATCH'', ef_message = ''Live Program confirmed a different content instance''\<rparr>)
         else if \<not> truthy (fld state ''render_state'') \<or> fld state ''render_state'' = JStr ''error'' \<or> truthy (fld state ''error_state'') then
           Some (Inl \<lparr>ef_code = Some ''RECEIVER_RENDER_NOT_CONFIRMED'', ef_message = ''Live Program did not report a render-ready state''\<rparr>)
         else Some (Inr state))
      else if truthy request \<and> fld request ''status'' \<in> {JStr ''failed'', JStr ''partial'', JStr ''timed_out''} then
        Some (Inl \<lparr>ef_code = Some ''RECEIVER_RENDER_NOT_CONFIRMED'', ef_message =
          (if truthy device \<and> truthy (fld device ''failure_reason'') then to_str (fld device ''failure_reason'')
           else ''Live Program receiver did not confirm the requested render'')\<rparr>)
      else None)"

fun wait_for_delivery :: "surroundings \<Rightarrow> nat \<Rightarrow> jsval \<Rightarrow> string \<Rightarrow> (jsval \<times> jsval) program" where
  "wait_for_delivery env 0 rid inst = failing ''RECEIVER_RENDER_TIMEOUT'' ''Live Program receiver render confirmation timed out''"
| "wait_for_delivery env (Suc n) rid inst =
     and_then (ask env (ReadDelivery rid)) (\<lambda>request.
       case delivery_verdict request inst of None \<Rightarrow> wait_for_delivery env n rid inst
       | Some (Inl e) \<Rightarrow> (\<lambda>w. (Inl e, w)) | Some (Inr state) \<Rightarrow> giving (first_item (fld request ''devices''), state))"

definition assign_content :: "surroundings \<Rightarrow> (jsval \<Rightarrow> string) \<Rightarrow> nat \<Rightarrow> string \<Rightarrow> jsval \<Rightarrow> string \<Rightarrow> string \<Rightarrow> jsval program" where
  "assign_content env digest polls ws source inst request_id =
     and_then (ask env EnsureDisplay) (\<lambda>display.
     case source_descriptor digest source of
       None \<Rightarrow> failing ''CONTENT_SOURCE_REQUIRED'' ''Live Program requires an authorized content, presentation, or remote source''
     | Some (ty, sid, player) \<Rightarrow>
       (let did = fld display ''id''; expected = (if ty = ''content'' then JStr sid else JNull) in
        and_then (ask env (CreateDelivery (JObj [(''sourceType'', JStr ty), (''sourceId'', JStr sid), (''target'', did),
          (''idempotencyKey'', JStr request_id), (''requestFingerprint'', JStr (digest (JObj [(''workspace_id'', JStr ws),
            (''source'', JStr sid), (''content_instance_id'', JStr inst)]))), (''expectedSourceId'', expected)]))) (\<lambda>delivery.
        let cmd = fld (first_item (fld delivery ''devices'')) ''command_id''; rid = fld delivery ''id'' in
        and_then (ask env (PushSource did (JObj (player @ [(''content_instance_id'', JStr inst), (''request_id'', rid), (''command_id'', cmd)])))) (\<lambda>result.
        and_then (ask env (MarkDispatched (JObj [(''requestId'', rid), (''deviceId'', did), (''commandId'', cmd), (''delivered'', fld result ''delivered''),
          (''queued'', fld result ''queued''), (''playlistRevision'', fld result ''playlistRevision''),
          (''expectedSourceId'', fld result ''expectedSourceId''), (''failureReason'', fld result ''failureReason'')]))) (\<lambda>_.
        if \<not> truthy (fld result ''ok'') then
          failing ''RECEIVER_ASSIGN_FAILED'' (to_str (js_or (fld result ''failureReason'') (JStr ''Live Program content assignment failed'')))
        else and_then (ask env (MarkChanged did)) (\<lambda>_.
        and_then (wait_for_delivery env polls rid inst) (\<lambda>(device, state).
        giving (JObj [(''confirmed'', JBool True),
          (''contentId'', js_or (js_or (fld state ''current_content_id'') (fld result ''expectedSourceId'')) JNull),
          (''contentInstanceId'', JStr inst),
          (''playlistRevision'', js_or (js_or (fld device ''playlist_revision'') (fld result ''playlistRevision'')) JNull),
          (''renderGeneration'', js_coalesce (fld device ''render_generation'') JNull), (''renderState'', fld state ''render_state''),
          (''requestId'', rid), (''displayId'', did)]))))))))"

definition cleared_state :: "jsval \<Rightarrow> bool" where
  "cleared_state s \<longleftrightarrow> truthy s \<and> \<not> truthy (fld s ''current_content_id'') \<and> \<not> truthy (fld s ''error_state'') \<and>
     to_lower (to_str (js_or (fld s ''render_state'') (JStr []))) \<in> {''idle'', ''cleared''}"

fun wait_cleared :: "surroundings \<Rightarrow> nat \<Rightarrow> jsval \<Rightarrow> unit program" where
  "wait_cleared env 0 did = failing ''RECEIVER_CLEAR_TIMEOUT'' ''Live Program receiver did not confirm content removal''"
| "wait_cleared env (Suc n) did = and_then (ask env (ReadDisplay did)) (\<lambda>s. if cleared_state s then giving () else wait_cleared env n did)"

definition clear_content :: "surroundings \<Rightarrow> nat \<Rightarrow> bool \<Rightarrow> unit program" where
  "clear_content env polls io =
     and_then (ask env EnsureDisplay) (\<lambda>display. let did = fld display ''id'' in
     and_then (ask env (PublishEmpty did)) (\<lambda>_.
     and_then (if io then swallow (ask env (SendPlaylist did)) else giving None) (\<lambda>_.
     and_then (ask env (MarkChanged did)) (\<lambda>_. wait_cleared env polls did))))"

definition policy_acknowledged :: "string \<Rightarrow> int \<Rightarrow> jsval \<Rightarrow> bool" where
  "policy_acknowledged policy revision responses =
     (let a = (if is_array responses then first_item responses else responses) in
      truthy a \<and> fld a ''ok'' = JBool True \<and> fld a ''policy'' = JStr policy \<and> to_num (fld a ''revision'') = Fin (of_int revision))"

definition receiver_audio_policy :: "surroundings \<Rightarrow> bool \<Rightarrow> string \<Rightarrow> int \<Rightarrow> unit program" where
  "receiver_audio_policy env io policy revision =
     (if policy \<noteq> ''camera'' \<and> policy \<noteq> ''content_replace'' then failing ''INVALID_AUDIO_POLICY'' ''Invalid Live Program audio policy''
      else and_then (ask env EnsureDisplay) (\<lambda>display.
        if \<not> io then failing ''RECEIVER_AUDIO_POLICY_UNAVAILABLE'' ''Live Program receiver audio-policy acknowledgement is unavailable''
        else and_then (ask env (EmitPolicy (fld display ''id'') policy revision)) (\<lambda>responses.
          if policy_acknowledged policy revision responses then giving ()
          else failing ''RECEIVER_AUDIO_POLICY_MISMATCH'' ''Live Program receiver acknowledged a different audio policy or revision'')))"

subsection \<open>The controller\<close>

definition initial_composition :: "string \<Rightarrow> composition" where
  "initial_composition ws = \<lparr>co_workspace = ws, co_accepted = True, co_requested = ''camera_only'', co_confirmed = ''camera_only'', co_source = JNull,
     co_instance = None, co_receiver = JObj [(''configured'', JBool False), (''content_active'', JBool False), (''render_ready'', JBool False)],
     co_available = False, co_scene = ''MBFD_CAMERA_ONLY'', co_scene_confirmed = False, co_audio = ''camera'', co_failure_code = None,
     co_failure_message = None, co_revision = 0, co_request = None, co_updated = None\<rparr>"

text \<open>The names every object inherits pass the lookup of a layout, but stand for no scene.\<close>

definition scene_for :: "string \<Rightarrow> string option" where
  "scene_for l = map_of [(''camera_only'', ''MBFD_CAMERA_ONLY''), (''content_main_camera_pip'', ''MBFD_CONTENT_MAIN_CAMERA_PIP''),
     (''camera_main_content_pip'', ''MBFD_CAMERA_MAIN_CONTENT_PIP'')] l"

definition normalize_layout :: "jsval \<Rightarrow> edge_failure + string" where
  "normalize_layout v = (let l = to_lower (text_of v) in
     if scene_for l = None \<and> l \<noteq> ''constructor'' \<and> l \<noteq> ''__proto__''
     then Inl \<lparr>ef_code = Some ''INVALID_COMPOSITOR_LAYOUT'', ef_message = ''Unknown fixed compositor layout''\<rparr> else Inr l)"

definition program_audio_policy :: "jsval \<Rightarrow> edge_failure + string" where
  "program_audio_policy v = (let p = to_lower (trim (to_str (js_or v (JStr ''camera'')))) in
     if p \<noteq> ''camera'' \<and> p \<noteq> ''content_replace''
     then Inl \<lparr>ef_code = Some ''INVALID_AUDIO_POLICY'', ef_message = ''Audio policy must be camera or content_replace''\<rparr> else Inr p)"

definition assert_revision :: "composition \<Rightarrow> jsval \<Rightarrow> edge_failure + unit" where
  "assert_revision st expected =
     (case num_int (to_num expected) of
        None \<Rightarrow> Inl \<lparr>ef_code = Some ''COMPOSITOR_REVISION_REQUIRED'', ef_message = ''A non-negative expected compositor revision is required''\<rparr>
      | Some e \<Rightarrow>
          if e < 0 then Inl \<lparr>ef_code = Some ''COMPOSITOR_REVISION_REQUIRED'', ef_message = ''A non-negative expected compositor revision is required''\<rparr>
          else if e \<noteq> co_revision st then Inl \<lparr>ef_code = Some ''COMPOSITOR_REVISION_CONFLICT'', ef_message = ''Expected another compositor revision''\<rparr>
          else Inr ())"

text \<open>A key that was used gives the response stored for it, or is refused if the request differs.\<close>

definition begin_idempotent :: "live_world \<Rightarrow> jsval \<Rightarrow> string \<Rightarrow> edge_failure + string \<times> composition option" where
  "begin_idempotent w key_value fingerprint =
     (let key = text_of key_value in
      if key = [] then Inl \<lparr>ef_code = Some ''IDEMPOTENCY_KEY_REQUIRED'', ef_message = ''An idempotency key is required''\<rparr>
      else case map_of (lw_requests w) key of
        None \<Rightarrow> Inr (key, None)
      | Some (f, response) \<Rightarrow>
          if f \<noteq> fingerprint then Inl \<lparr>ef_code = Some ''IDEMPOTENCY_KEY_REUSED'',
            ef_message = ''The idempotency key was already used for a different compositor request''\<rparr>
          else Inr (key, Some response))"

record compose_request =
  cq_workspace :: string
  cq_source :: jsval
  cq_instance :: jsval
  cq_layout :: jsval
  cq_audio :: jsval
  cq_revision :: jsval
  cq_key :: jsval
  cq_io :: bool
  cq_uuid :: string
  cq_fallback_uuid :: string
  cq_now :: rat

record compositor =
  cm_env :: surroundings
  cm_inputs :: obs_inputs
  cm_digest :: "jsval \<Rightarrow> string"
  cm_polls :: nat

definition state_for :: "string \<Rightarrow> live_world \<Rightarrow> composition" where
  "state_for ws w = (case lw_state w of None \<Rightarrow> initial_composition ws | Some c \<Rightarrow> c)"

definition stored :: "composition \<Rightarrow> composition" where
  "stored c = c\<lparr>co_source := json_clean (co_source c), co_receiver := json_clean (co_receiver c)\<rparr>"

definition put_state :: "composition \<Rightarrow> unit program" where
  "put_state c w = (Inr (), w\<lparr>lw_state := Some (stored c)\<rparr>)"

definition finish_idempotent :: "string \<Rightarrow> string \<Rightarrow> composition \<Rightarrow> (composition \<times> bool) program" where
  "finish_idempotent key fingerprint c w =
     (Inr (c, False), w\<lparr>lw_requests := (key, fingerprint, stored c) # lw_requests w\<rparr>)"

definition apply_audio_policy :: "compositor \<Rightarrow> bool \<Rightarrow> string \<Rightarrow> int \<Rightarrow> unit program" where
  "apply_audio_policy cm io policy revision =
     and_then (receiver_audio_policy (cm_env cm) io policy revision) (\<lambda>_. obs_audio_policy (cm_env cm) (cm_inputs cm) policy)"

definition nonempty_text :: "string option \<Rightarrow> string option" where
  "nonempty_text t = (if t = Some [] then None else t)"

definition fallback_state :: "composition \<Rightarrow> bool \<Rightarrow> edge_failure option \<Rightarrow> string \<Rightarrow> rat \<Rightarrow> composition" where
  "fallback_state previous confirmed failure uuid now =
     (let fc = nonempty_text (Option.bind failure ef_code); fm = nonempty_text (map_option ef_message failure) in
      previous\<lparr>co_requested := ''camera_only'', co_confirmed := (if confirmed then ''camera_only'' else co_confirmed previous),
        co_scene := (if confirmed then ''MBFD_CAMERA_ONLY'' else co_scene previous), co_scene_confirmed := confirmed, co_audio := ''camera'',
        co_failure_code := (if fc \<noteq> None then fc else nonempty_text (co_failure_code previous)),
        co_failure_message := (if fm \<noteq> None then fm else nonempty_text (co_failure_message previous)),
        co_request := Some uuid, co_revision := co_revision previous + 1, co_updated := Some now\<rparr>)"

definition fallback_camera_only :: "compositor \<Rightarrow> compose_request \<Rightarrow> edge_failure option \<Rightarrow> composition program" where
  \<comment> \<open>the context of a fallback carries no revision, so the receiver is sent revision 0\<close>
  "fallback_camera_only cm rq failure w =
     and_then (swallow (apply_audio_policy cm (cq_io rq) ''camera'' 0)) (\<lambda>_.
     and_then (swallow (set_scene_confirmed (cm_env cm) (Some ''MBFD_CAMERA_ONLY''))) (\<lambda>confirmed.
     let f = fallback_state (state_for (cq_workspace rq) w) (confirmed \<noteq> None) failure (cq_fallback_uuid rq) (cq_now rq)
     in and_then (put_state f) (\<lambda>_. giving f))) w"

text \<open>An attempt that fails falls back to the camera and fails with its own error.\<close>

definition attempt :: "compositor \<Rightarrow> compose_request \<Rightarrow> 'a program \<Rightarrow> 'a program" where
  "attempt cm rq p w = (case p w of
     (Inr x, w') \<Rightarrow> (Inr x, w')
   | (Inl e, w') \<Rightarrow> and_then (fallback_camera_only cm rq (Some e)) (\<lambda>_ w2. (Inl e, w2)) w')"

definition store_next :: "string \<Rightarrow> string \<Rightarrow> composition \<Rightarrow> (composition \<times> bool) program" where
  "store_next key fingerprint nx = and_then (put_state nx) (\<lambda>_. finish_idempotent key fingerprint nx)"

text \<open>The checks all operations share after their own: the key, then the revision.\<close>

definition admitted :: "compose_request \<Rightarrow> string \<Rightarrow> (string \<Rightarrow> composition \<Rightarrow> (composition \<times> bool) program) \<Rightarrow> (composition \<times> bool) program" where
  "admitted rq fingerprint go w =
     (case begin_idempotent w (cq_key rq) fingerprint of
        Inl e \<Rightarrow> (Inl e, w)
      | Inr (key, Some response) \<Rightarrow> (Inr (response, True), w)
      | Inr (key, None) \<Rightarrow>
          (case assert_revision (state_for (cq_workspace rq) w) (cq_revision rq) of
             Inl e \<Rightarrow> (Inl e, w) | Inr _ \<Rightarrow> go key (state_for (cq_workspace rq) w) w))"

definition fingerprint_of :: "compositor \<Rightarrow> (string \<times> jsval) list \<Rightarrow> string" where
  "fingerprint_of cm kvs = cm_digest cm (json_clean (JObj kvs))"

definition add_content_now :: "compositor \<Rightarrow> compose_request \<Rightarrow> string \<Rightarrow> string \<Rightarrow> string \<Rightarrow> string \<Rightarrow> string \<Rightarrow> composition \<Rightarrow> (composition \<times> bool) program" where
  "add_content_now cm rq layout inst audio fingerprint key st =
     attempt cm rq
       (and_then (assign_content (cm_env cm) (cm_digest cm) (cm_polls cm) (cq_workspace rq) (cq_source rq) inst (cq_uuid rq)) (\<lambda>r.
        if fld r ''confirmed'' \<noteq> JBool True then
          failing ''RECEIVER_RENDER_NOT_CONFIRMED'' ''Managed Live Program receiver did not confirm the requested content instance''
        else and_then (apply_audio_policy cm (cq_io rq) audio (co_revision st + 1)) (\<lambda>_.
        and_then (set_scene_confirmed (cm_env cm) (scene_for layout)) (\<lambda>scene.
        store_next key fingerprint
          \<lparr>co_workspace = cq_workspace rq, co_accepted = True, co_requested = layout, co_confirmed = layout, co_source = cq_source rq,
            co_instance = Some inst, co_receiver = JObj [(''configured'', JBool True), (''content_active'', JBool True), (''render_ready'', JBool True),
              (''content_id'', js_or (js_or (fld r ''contentId'') (fld (cq_source rq) ''contentId'')) JNull), (''content_instance_id'', JStr inst),
              (''playlist_revision'', js_or (fld r ''playlistRevision'') JNull), (''render_generation'', js_coalesce (fld r ''renderGeneration'') JNull),
              (''render_state'', js_or (fld r ''renderState'') (JStr ''ready''))],
            co_available = True, co_scene = scene, co_scene_confirmed = (Some scene = scene_for layout), co_audio = audio, co_failure_code = None,
            co_failure_message = None, co_revision = co_revision st + 1, co_request = Some (cq_uuid rq), co_updated = Some (cq_now rq)\<rparr>))))"

definition add_content :: "compositor \<Rightarrow> compose_request \<Rightarrow> (composition \<times> bool) program" where
  "add_content cm rq w =
     (if cq_workspace rq = [] then failing ''WORKSPACE_REQUIRED'' ''Workspace is required'' w
      else case normalize_layout (cq_layout rq) of Inl e \<Rightarrow> (Inl e, w)
      | Inr layout \<Rightarrow>
        if layout = ''camera_only'' then failing ''CONTENT_LAYOUT_REQUIRED'' ''Content requires one of the two fixed PiP layouts'' w
        else (let inst = text_of (cq_instance rq) in
          if inst = [] then failing ''CONTENT_INSTANCE_REQUIRED'' ''content_instance_id is required'' w
          else if \<not> truthy (cq_source rq) \<or> \<not> truthy (fld (cq_source rq) ''type'') then
            failing ''CONTENT_SOURCE_REQUIRED'' ''A content or presentation source is required'' w
          else case program_audio_policy (cq_audio rq) of Inl e \<Rightarrow> (Inl e, w)
          | Inr audio \<Rightarrow>
            (let f = fingerprint_of cm [(''action'', JStr ''add''), (''source'', cq_source rq), (''content_instance_id'', JStr inst),
               (''layout'', JStr layout), (''audio_policy'', JStr audio), (''expected_revision'', JNum (to_num (cq_revision rq)))]
             in admitted rq f (add_content_now cm rq layout inst audio f) w)))"

text \<open>The state after a change of layout alone.\<close>

definition composed :: "compose_request \<Rightarrow> string \<Rightarrow> string \<Rightarrow> string \<Rightarrow> composition \<Rightarrow> composition" where
  "composed rq layout audio scene st =
     st\<lparr>co_accepted := True, co_request := Some (cq_uuid rq), co_requested := layout, co_confirmed := layout, co_available := True, co_scene := scene,
        co_scene_confirmed := (Some scene = scene_for layout), co_audio := audio, co_failure_code := None, co_failure_message := None,
        co_revision := co_revision st + 1, co_updated := Some (cq_now rq)\<rparr>"

definition show_layout :: "compositor \<Rightarrow> compose_request \<Rightarrow> string \<Rightarrow> string \<Rightarrow> string \<Rightarrow> string \<Rightarrow> composition \<Rightarrow> (composition \<times> bool) program" where
  "show_layout cm rq layout audio fingerprint key st =
     and_then (apply_audio_policy cm (cq_io rq) audio (co_revision st + 1)) (\<lambda>_.
     and_then (set_scene_confirmed (cm_env cm) (scene_for layout)) (\<lambda>scene.
     store_next key fingerprint (composed rq layout audio scene st)))"

definition set_layout_now :: "compositor \<Rightarrow> compose_request \<Rightarrow> string \<Rightarrow> string \<Rightarrow> string \<Rightarrow> string \<Rightarrow> composition \<Rightarrow> (composition \<times> bool) program" where
  "set_layout_now cm rq layout audio fingerprint key st =
     (if layout \<noteq> ''camera_only'' \<and> nonempty_text (co_instance st) = None then
        failing ''LIVE_CONTENT_REQUIRED'' ''Add confirmed live content before selecting a PiP layout''
      else attempt cm rq (show_layout cm rq layout audio fingerprint key st))"

definition set_layout :: "compositor \<Rightarrow> compose_request \<Rightarrow> (composition \<times> bool) program" where
  "set_layout cm rq w =
     (if cq_workspace rq = [] then failing ''WORKSPACE_REQUIRED'' ''Workspace is required'' w
      else case normalize_layout (cq_layout rq) of Inl e \<Rightarrow> (Inl e, w)
      | Inr layout \<Rightarrow>
        case program_audio_policy (js_or (cq_audio rq) (JStr (co_audio (state_for (cq_workspace rq) w)))) of Inl e \<Rightarrow> (Inl e, w)
        | Inr audio \<Rightarrow>
          (let f = fingerprint_of cm [(''action'', JStr ''layout''), (''layout'', JStr layout), (''audio_policy'', JStr audio),
             (''expected_revision'', JNum (to_num (cq_revision rq)))]
           in admitted rq f (set_layout_now cm rq layout audio f) w))"

definition remove_content_now :: "compositor \<Rightarrow> compose_request \<Rightarrow> string \<Rightarrow> string \<Rightarrow> string \<Rightarrow> composition \<Rightarrow> (composition \<times> bool) program" where
  "remove_content_now cm rq inst fingerprint key st =
     (if inst \<noteq> [] \<and> nonempty_text (co_instance st) \<noteq> None \<and> Some inst \<noteq> co_instance st then
        failing ''CONTENT_INSTANCE_CONFLICT'' ''Requested content instance is no longer active''
      else attempt cm rq
        (and_then (apply_audio_policy cm (cq_io rq) ''camera'' (co_revision st + 1)) (\<lambda>_.
         and_then (set_scene_confirmed (cm_env cm) (Some ''MBFD_CAMERA_ONLY'')) (\<lambda>scene.
         and_then (clear_content (cm_env cm) (cm_polls cm) (cq_io rq)) (\<lambda>_.
         store_next key fingerprint
           \<lparr>co_workspace = cq_workspace rq, co_accepted = True, co_requested = ''camera_only'', co_confirmed = ''camera_only'', co_source = JNull,
             co_instance = None, co_receiver = JObj [(''configured'', JBool True), (''content_active'', JBool False), (''render_ready'', JBool False),
               (''cleared'', JBool True)],
             co_available = True, co_scene = scene, co_scene_confirmed = (scene = ''MBFD_CAMERA_ONLY''), co_audio = ''camera'', co_failure_code = None,
             co_failure_message = None, co_revision = co_revision st + 1, co_request = Some (cq_uuid rq), co_updated = Some (cq_now rq)\<rparr>)))))"

definition remove_content :: "compositor \<Rightarrow> compose_request \<Rightarrow> (composition \<times> bool) program" where
  "remove_content cm rq w =
     (if cq_workspace rq = [] then failing ''WORKSPACE_REQUIRED'' ''Workspace is required'' w
      else (let inst = text_of (cq_instance rq);
              f = fingerprint_of cm [(''action'', JStr ''remove''), (''content_instance_id'', if inst = [] then JNull else JStr inst),
                (''expected_revision'', JNum (to_num (cq_revision rq)))]
            in admitted rq f (remove_content_now cm rq inst f) w))"

definition select_camera_only :: "compositor \<Rightarrow> compose_request \<Rightarrow> (composition \<times> bool) program" where
  "select_camera_only cm rq w =
     (if cq_workspace rq = [] then failing ''WORKSPACE_REQUIRED'' ''Workspace is required'' w
      else if nonempty_text (co_instance (state_for (cq_workspace rq) w)) \<noteq> None then set_layout cm (rq\<lparr>cq_layout := JStr ''camera_only''\<rparr>) w
      else (let f = fingerprint_of cm [(''action'', JStr ''camera_only''), (''expected_revision'', JNum (to_num (cq_revision rq)))]
            in admitted rq f (show_layout cm rq ''camera_only'' ''camera'' f) w))"

datatype compose_event =
    AddContent compose_request
  | SetLayout compose_request
  | RemoveContent compose_request
  | CameraOnly compose_request
  | FallBack compose_request "edge_failure option"

fun compose :: "compositor \<Rightarrow> compose_event \<Rightarrow> (composition \<times> bool) program" where
  "compose cm (AddContent rq) = add_content cm rq"
| "compose cm (SetLayout rq) = set_layout cm rq"
| "compose cm (RemoveContent rq) = remove_content cm rq"
| "compose cm (CameraOnly rq) = select_camera_only cm rq"
| "compose cm (FallBack rq failure) =
     (if cq_workspace rq = [] then failing ''WORKSPACE_REQUIRED'' ''Workspace is required''
      else and_then (fallback_camera_only cm rq failure) (\<lambda>c. giving (c, False)))"

definition compose_step :: "compositor \<Rightarrow> compose_event \<Rightarrow> live_world \<Rightarrow> live_world" where
  "compose_step cm e w = snd (compose cm e w)"

definition new_world :: live_world where
  "new_world = \<lparr>lw_state = None, lw_requests = [], lw_log = []\<rparr>"

subsection \<open>What is heard\<close>

text \<open>Whether an input is muted in OBS after a log: a request takes effect when its answer says so.\<close>

definition input_muted :: "(string \<Rightarrow> bool) \<Rightarrow> call_log \<Rightarrow> string \<Rightarrow> bool" where
  "input_muted start lg i = foldl (\<lambda>m (c, a). case c of ToObs (SetMute j b) \<Rightarrow> if j = i \<and> an_effect a then b else m | _ \<Rightarrow> m) (start i) lg"

definition both_open :: "obs_inputs \<Rightarrow> (string \<Rightarrow> bool) \<Rightarrow> call_log \<Rightarrow> bool" where
  "both_open oi start lg \<longleftrightarrow> \<not> input_muted start lg (oi_camera oi) \<and> \<not> input_muted start lg (oi_content oi)"

definition policy_in_force :: "call_log \<Rightarrow> string option" where
  "policy_in_force lg = foldl (\<lambda>p (c, a). case c of
     EmitPolicy _ q r \<Rightarrow> (case an_result a of Inr v \<Rightarrow> if policy_acknowledged q r v then Some q else None | Inl _ \<Rightarrow> None) | _ \<Rightarrow> p) None lg"

definition input_of_policy :: "obs_inputs \<Rightarrow> string \<Rightarrow> string" where
  "input_of_policy oi p = (if p = ''content_replace'' then oi_content oi else oi_camera oi)"

text \<open>A request that opens an input comes when the receiver has acknowledged, last, the policy that gives it the sound.\<close>

definition opened_by_policy :: "obs_inputs \<Rightarrow> call_log \<Rightarrow> edge_call \<Rightarrow> bool" where
  "opened_by_policy oi lg c \<longleftrightarrow> (case c of
     ToObs (SetMute i b) \<Rightarrow> b \<or> (case policy_in_force lg of None \<Rightarrow> False | Some p \<Rightarrow> i = input_of_policy oi p) | _ \<Rightarrow> True)"

definition sound_log :: "obs_inputs \<Rightarrow> (string \<Rightarrow> bool) \<Rightarrow> call_log \<Rightarrow> bool" where
  "sound_log oi start lg \<longleftrightarrow> list_all (\<lambda>n. \<not> both_open oi start (take n lg)) [0..<Suc (length lg)] \<and>
     list_all (\<lambda>n. opened_by_policy oi (take n lg) (fst (lg ! n))) [0..<length lg]"

text \<open>OBS answers with success only what it has done.\<close>

definition obs_honest :: "surroundings \<Rightarrow> bool" where
  "obs_honest env \<longleftrightarrow> (\<forall>lg i b v. an_result (env lg (ToObs (SetMute i b))) = Inr v \<longrightarrow> an_effect (env lg (ToObs (SetMute i b))))"

lemma sound_log_snoc:
  "sound_log oi start (lg @ [(c, a)]) \<longleftrightarrow> sound_log oi start lg \<and> \<not> both_open oi start (lg @ [(c, a)]) \<and> opened_by_policy oi lg c"
proof -
  have 1: "list_all (\<lambda>n. \<not> both_open oi start (take n (lg @ [(c, a)]))) [0..<Suc (length lg)] \<longleftrightarrow>
      list_all (\<lambda>n. \<not> both_open oi start (take n lg)) [0..<Suc (length lg)]"
    by (rule list.pred_cong) auto
  have 2: "list_all (\<lambda>n. opened_by_policy oi (take n (lg @ [(c, a)])) (fst ((lg @ [(c, a)]) ! n))) [0..<length lg] \<longleftrightarrow>
      list_all (\<lambda>n. opened_by_policy oi (take n lg) (fst (lg ! n))) [0..<length lg]"
    by (rule list.pred_cong) (auto simp: nth_append)
  show ?thesis
    unfolding sound_log_def length_append_singleton upt_Suc_append [OF le0] list_all_append 2
    using 1 by (auto simp: upt_Suc_append)
qed

lemma sound_log_closed: "sound_log oi start lg \<Longrightarrow> \<not> both_open oi start lg"
  by (simp add: sound_log_def)

lemma input_muted_snoc:
  "input_muted start (lg @ [(c, a)]) i = (case c of ToObs (SetMute j b) \<Rightarrow> if j = i \<and> an_effect a then b else input_muted start lg i | _ \<Rightarrow> input_muted start lg i)"
  by (simp add: input_muted_def split: edge_call.split obs_request.split)

lemma policy_in_force_snoc:
  "policy_in_force (lg @ [(c, a)]) = (case c of
     EmitPolicy _ q r \<Rightarrow> (case an_result a of Inr v \<Rightarrow> if policy_acknowledged q r v then Some q else None | Inl _ \<Rightarrow> None) | _ \<Rightarrow> policy_in_force lg)"
  by (simp add: policy_in_force_def split: edge_call.split)

subsection \<open>Triples\<close>

text \<open>From logs with \<open>P\<close> a program that gives \<open>x\<close> ends in logs with \<open>Q x\<close>, one that fails in logs with \<open>R\<close>.\<close>

definition triple :: "(call_log \<Rightarrow> bool) \<Rightarrow> 'a program \<Rightarrow> ('a \<Rightarrow> call_log \<Rightarrow> bool) \<Rightarrow> (call_log \<Rightarrow> bool) \<Rightarrow> bool" where
  "triple P p Q R \<longleftrightarrow> (\<forall>w. P (lw_log w) \<longrightarrow> (case p w of (Inr x, w') \<Rightarrow> Q x (lw_log w') | (Inl e, w') \<Rightarrow> R (lw_log w')))"

abbreviation keeps_log :: "(call_log \<Rightarrow> bool) \<Rightarrow> 'a program \<Rightarrow> bool" where
  "keeps_log I p \<equiv> triple I p (\<lambda>_. I) I"

lemma tripleI:
  "(\<And>w w' x. P (lw_log w) \<Longrightarrow> p w = (Inr x, w') \<Longrightarrow> Q x (lw_log w')) \<Longrightarrow>
   (\<And>w w' e. P (lw_log w) \<Longrightarrow> p w = (Inl e, w') \<Longrightarrow> R (lw_log w')) \<Longrightarrow> triple P p Q R"
  unfolding triple_def by (auto split: sum.split prod.split)

lemma tripleD: "triple P p Q R \<Longrightarrow> P (lw_log w) \<Longrightarrow> p w = (Inr x, w') \<Longrightarrow> Q x (lw_log w')"
  "triple P p Q R \<Longrightarrow> P (lw_log w) \<Longrightarrow> p w = (Inl e, w') \<Longrightarrow> R (lw_log w')"
  unfolding triple_def by force+

lemma triple_and_then: "triple P p Q R \<Longrightarrow> (\<And>x. triple (Q x) (f x) S R) \<Longrightarrow> triple P (and_then p f) S R"
  by (rule tripleI) (auto simp: and_then_def split: sum.splits prod.splits dest: tripleD)

lemma triple_ask:
  "(\<And>lg v. P lg \<Longrightarrow> an_result (env lg c) = Inr v \<Longrightarrow> Q v (lg @ [(c, env lg c)])) \<Longrightarrow>
   (\<And>lg e. P lg \<Longrightarrow> an_result (env lg c) = Inl e \<Longrightarrow> R (lg @ [(c, env lg c)])) \<Longrightarrow> triple P (ask env c) Q R"
  by (auto simp: triple_def ask_def Let_def split: sum.splits)

lemma triple_giving: "(\<And>lg. P lg \<Longrightarrow> Q x lg) \<Longrightarrow> triple P (giving x) Q R"
  by (simp add: triple_def giving_def)

lemma triple_failing: "(\<And>lg. P lg \<Longrightarrow> R lg) \<Longrightarrow> triple P (failing c m) Q R"
  by (simp add: triple_def failing_def)

lemma triple_fail: "(\<And>lg. P lg \<Longrightarrow> R lg) \<Longrightarrow> triple P (\<lambda>w. (Inl e, w)) Q R"
  by (simp add: triple_def)

lemma triple_weaken:
  "triple P p Q R \<Longrightarrow> (\<And>lg. P' lg \<Longrightarrow> P lg) \<Longrightarrow> (\<And>x lg. Q x lg \<Longrightarrow> Q' x lg) \<Longrightarrow> (\<And>lg. R lg \<Longrightarrow> R' lg) \<Longrightarrow> triple P' p Q' R'"
  by (rule tripleI) (blast dest: tripleD)+

lemma keeps_swallow: "keeps_log I p \<Longrightarrow> keeps_log I (swallow p)"
  by (rule tripleI) (auto simp: swallow_def split: sum.splits prod.splits dest: tripleD)

lemma keeps_and_then: "keeps_log I p \<Longrightarrow> (\<And>x. keeps_log I (f x)) \<Longrightarrow> keeps_log I (and_then p f)"
  by (rule triple_and_then)

lemma keeps_cases:
  "keeps_log I p \<Longrightarrow> keeps_log I q \<Longrightarrow> keeps_log I (if b then p else q)"
  "keeps_log I p \<Longrightarrow> (\<And>z. keeps_log I (g z)) \<Longrightarrow> keeps_log I (case m of None \<Rightarrow> p | Some z \<Rightarrow> g z)"
  "(\<And>a. keeps_log I (h a)) \<Longrightarrow> (\<And>b. keeps_log I (k b)) \<Longrightarrow> keeps_log I (case r of Inl a \<Rightarrow> h a | Inr b \<Rightarrow> k b)"
  "(\<And>a b. keeps_log I (f a b)) \<Longrightarrow> keeps_log I (case z of (a, b) \<Rightarrow> f a b)"
  by (simp_all split: option.split sum.split prod.split)

lemma keeps_plain: "keeps_log I (giving x)" "keeps_log I (failing c m)" "keeps_log I (\<lambda>w. (Inl e, w))"
  by (simp_all add: triple_giving triple_failing triple_fail)

lemma keeps_put: "keeps_log I (put_state c)" "keeps_log I (finish_idempotent k f c)"
  by (simp_all add: triple_def put_state_def finish_idempotent_def)

text \<open>Calls that neither touch a mute nor the policy keep a sound lg.\<close>

definition quiet :: "edge_call \<Rightarrow> bool" where
  "quiet c \<longleftrightarrow> (case c of ToObs (SetMute _ _) \<Rightarrow> False | EmitPolicy _ _ _ \<Rightarrow> False | _ \<Rightarrow> True)"

lemma keeps_ask: "quiet c \<Longrightarrow> keeps_log (sound_log oi start) (ask env c)"
  by (rule triple_ask)
     (auto simp: sound_log_snoc both_open_def input_muted_snoc opened_by_policy_def quiet_def dest: sound_log_closed split: edge_call.splits obs_request.splits)

lemmas keeps_rules = keeps_and_then keeps_cases keeps_plain keeps_swallow keeps_put keeps_ask

lemma keeps_scene: "keeps_log (sound_log oi start) (set_scene_confirmed env s)"
  unfolding set_scene_confirmed_def current_scene_def
  by (intro keeps_rules) (simp_all add: quiet_def)

lemma keeps_wait: "keeps_log (sound_log oi start) (wait_for_delivery env n rid inst)"
  by (induction n) (unfold wait_for_delivery.simps, (intro keeps_rules; simp add: quiet_def)+)

lemma keeps_assign: "keeps_log (sound_log oi start) (assign_content env digest n ws src inst rid)"
  unfolding assign_content_def Let_def
  by (intro keeps_rules keeps_wait) (simp_all add: quiet_def)

lemma keeps_wait_cleared: "keeps_log (sound_log oi start) (wait_cleared env n d)"
  by (induction n) (unfold wait_cleared.simps, (intro keeps_rules; simp add: quiet_def)+)

lemma keeps_clear: "keeps_log (sound_log oi start) (clear_content env n io)"
  unfolding clear_content_def Let_def
  by (intro keeps_rules keeps_wait_cleared) (simp_all add: quiet_def)

subsection \<open>The change of the sound\<close>

definition closed_inputs :: "string set \<Rightarrow> (string \<Rightarrow> bool) \<Rightarrow> call_log \<Rightarrow> bool" where
  "closed_inputs S start lg \<longleftrightarrow> (\<forall>i\<in>S. input_muted start lg i)"

definition sound_under :: "obs_inputs \<Rightarrow> (string \<Rightarrow> bool) \<Rightarrow> string \<Rightarrow> string set \<Rightarrow> call_log \<Rightarrow> bool" where
  "sound_under oi start p S lg \<longleftrightarrow> sound_log oi start lg \<and> policy_in_force lg = Some p \<and> closed_inputs S start lg"

lemma muting_closes:
  assumes "obs_honest env"
  shows "triple (sound_under oi start p S) (set_input_muted env i True) (\<lambda>_. sound_under oi start p (insert i S)) (sound_log oi start)"
  unfolding set_input_muted_def
proof (rule triple_and_then [OF triple_ask triple_giving])
  let ?c = "ToObs (SetMute i True)"
  fix lg v
  assume lg: "sound_under oi start p S lg" and v: "an_result (env lg ?c) = Inr v"
  with assms have "an_effect (env lg ?c)" by (auto simp: obs_honest_def)
  with lg show "sound_under oi start p (insert i S) (lg @ [(?c, env lg ?c)])"
    using sound_log_closed [of oi start lg]
    by (auto simp: sound_under_def sound_log_snoc both_open_def closed_inputs_def input_muted_snoc policy_in_force_snoc opened_by_policy_def)
next
  let ?c = "ToObs (SetMute i True)"
  fix lg e
  assume "sound_under oi start p S lg"
  then show "sound_log oi start (lg @ [(?c, env lg ?c)])"
    using sound_log_closed [of oi start lg]
    by (auto simp: sound_under_def sound_log_snoc both_open_def input_muted_snoc opened_by_policy_def)
qed

lemma opening_one:
  assumes "oi_camera oi \<noteq> oi_content oi"
  shows "triple (sound_under oi start p {oi_content oi, oi_camera oi}) (set_input_muted env (input_of_policy oi p) False)
    (\<lambda>_. sound_log oi start) (sound_log oi start)"
  unfolding set_input_muted_def
  by (rule triple_and_then [OF triple_ask [where Q = "\<lambda>_. sound_log oi start"] triple_giving])
     (use assms in \<open>auto simp: sound_under_def sound_log_snoc both_open_def closed_inputs_def input_muted_snoc opened_by_policy_def input_of_policy_def\<close>)

lemma obs_policy_sound:
  assumes "oi_camera oi \<noteq> oi_content oi" "obs_honest env"
  shows "triple (sound_under oi start p {}) (obs_audio_policy env oi p) (\<lambda>_. sound_log oi start) (sound_log oi start)"
proof (cases "p \<noteq> ''camera'' \<and> p \<noteq> ''content_replace''")
  case True
  then show ?thesis by (auto simp: obs_audio_policy_def sound_under_def intro!: triple_failing)
next
  case False
  then have "obs_audio_policy env oi p = and_then (set_input_muted env (oi_camera oi) True) (\<lambda>_.
      and_then (set_input_muted env (oi_content oi) True) (\<lambda>_. set_input_muted env (input_of_policy oi p) False))"
    by (auto simp: obs_audio_policy_def input_of_policy_def)
  then show ?thesis
    by (simp only:) (intro triple_and_then [OF muting_closes [OF assms(2)]] opening_one [OF assms(1)])
qed

lemma receiver_policy_sound:
  "triple (sound_log oi start) (receiver_audio_policy env io p r) (\<lambda>_. sound_under oi start p {}) (sound_log oi start)"
proof -
  have emit: "triple (sound_log oi start) (ask env (EmitPolicy d p r))
    (\<lambda>v lg. sound_log oi start lg \<and> (policy_acknowledged p r v \<longrightarrow> policy_in_force lg = Some p)) (sound_log oi start)" for d
    by (rule triple_ask)
       (use sound_log_closed in \<open>auto simp: sound_log_snoc both_open_def input_muted_snoc policy_in_force_snoc opened_by_policy_def\<close>)
  have check: "triple (\<lambda>lg. sound_log oi start lg \<and> (policy_acknowledged p r v \<longrightarrow> policy_in_force lg = Some p))
    (if policy_acknowledged p r v then giving () else failing c m) (\<lambda>_. sound_under oi start p {}) (sound_log oi start)" for v c m
    by (cases "policy_acknowledged p r v") (simp_all add: triple_giving triple_failing sound_under_def closed_inputs_def)
  have "triple (sound_log oi start) (if \<not> io then failing c m else and_then (ask env (EmitPolicy d p r)) (\<lambda>v.
    if policy_acknowledged p r v then giving () else failing c' m')) (\<lambda>_. sound_under oi start p {}) (sound_log oi start)" for c m d c' m'
    by (cases io) (simp_all add: triple_failing triple_and_then [OF emit check])
  from triple_and_then [OF keeps_ask this] show ?thesis
    unfolding receiver_audio_policy_def by (auto simp: quiet_def triple_failing)
qed

lemma keeps_policy:
  assumes "oi_camera (cm_inputs cm) \<noteq> oi_content (cm_inputs cm)" "obs_honest (cm_env cm)"
  shows "keeps_log (sound_log (cm_inputs cm) start) (apply_audio_policy cm io p r)"
  unfolding apply_audio_policy_def
  by (rule triple_and_then [OF receiver_policy_sound obs_policy_sound [OF assms]])

lemma keeps_logD: "keeps_log I p \<Longrightarrow> I (lw_log w) \<Longrightarrow> I (lw_log (snd (p w)))"
  by (cases "p w"; cases "fst (p w)") (auto dest: tripleD)

lemma keeps_logI: "(\<And>w. I (lw_log w) \<Longrightarrow> I (lw_log (snd (p w)))) \<Longrightarrow> keeps_log I p"
  by (rule tripleI) (metis snd_conv)+

definition kept :: "(call_log \<Rightarrow> bool) \<Rightarrow> live_world \<Rightarrow> (edge_failure + 'a) \<times> live_world \<Rightarrow> bool" where
  "kept I w r \<longleftrightarrow> (I (lw_log w) \<longrightarrow> I (lw_log (snd r)))"

lemma keeps_kept: "(\<And>w. kept I w (p w)) \<Longrightarrow> keeps_log I p"
  by (rule keeps_logI) (simp add: kept_def)

lemma kept_rules:
  "keeps_log I p \<Longrightarrow> kept I w (p w)"
  "kept I w (Inl e, w)"
  "kept I w r \<Longrightarrow> kept I w r' \<Longrightarrow> kept I w (if b then r else r')"
  "(\<And>a. kept I w (h a)) \<Longrightarrow> (\<And>b. kept I w (k b)) \<Longrightarrow> kept I w (case m of Inl a \<Rightarrow> h a | Inr b \<Rightarrow> k b)"
  by (simp_all add: kept_def keeps_logD split: sum.split)

lemma keeps_fallback:
  assumes "oi_camera (cm_inputs cm) \<noteq> oi_content (cm_inputs cm)" "obs_honest (cm_env cm)"
  shows "keeps_log (sound_log (cm_inputs cm) start) (fallback_camera_only cm rq failure)"
  unfolding fallback_camera_only_def Let_def
  by (rule keeps_kept, rule kept_rules(1)) (intro keeps_rules keeps_policy [OF assms] keeps_scene)

lemma keeps_attempt:
  fixes p :: "'a program"
  assumes "oi_camera (cm_inputs cm) \<noteq> oi_content (cm_inputs cm)" "obs_honest (cm_env cm)"
    and p: "keeps_log (sound_log (cm_inputs cm) start) p"
  shows "keeps_log (sound_log (cm_inputs cm) start) (attempt cm rq p)"
proof (rule keeps_logI)
  fix w :: live_world
  assume w: "sound_log (cm_inputs cm) start (lw_log w)"
  obtain r w' where r: "p w = (r, w')" by fastforce
  with keeps_logD [OF p w] have w': "sound_log (cm_inputs cm) start (lw_log w')" by simp
  have "keeps_log (sound_log (cm_inputs cm) start) (and_then (fallback_camera_only cm rq (Some e)) (\<lambda>_ w2. (Inl e :: edge_failure + 'a, w2)))" for e
    by (intro keeps_rules keeps_fallback [OF assms(1,2)])
  from keeps_logD [OF this w'] show "sound_log (cm_inputs cm) start (lw_log (snd (attempt cm rq p w)))"
    using w' by (simp add: attempt_def r split: sum.split)
qed

lemma keeps_admitted:
  "(\<And>k st. keeps_log I (go k st)) \<Longrightarrow> keeps_log I (admitted rq f go)"
  by (rule keeps_logI) (auto simp: admitted_def keeps_logD split: sum.split prod.split option.split)

lemma keeps_store: "keeps_log I (store_next k f c)"
  unfolding store_next_def by (intro keeps_rules)

lemma keeps_compose:
  assumes "oi_camera (cm_inputs cm) \<noteq> oi_content (cm_inputs cm)" "obs_honest (cm_env cm)"
  shows "keeps_log (sound_log (cm_inputs cm) start) (compose cm e)"
proof -
  note rules = keeps_rules keeps_policy [OF assms] keeps_scene keeps_assign keeps_clear keeps_store keeps_attempt [OF assms]
    keeps_fallback [OF assms] keeps_admitted
  have add: "keeps_log (sound_log (cm_inputs cm) start) (add_content_now cm rq l i a f k st)" for rq l i a f k st
    unfolding add_content_now_def by (intro rules)
  have show_: "keeps_log (sound_log (cm_inputs cm) start) (show_layout cm rq l a f k st)" for rq l a f k st
    unfolding show_layout_def by (intro rules)
  have set_: "keeps_log (sound_log (cm_inputs cm) start) (set_layout_now cm rq l a f k st)" for rq l a f k st
    unfolding set_layout_now_def by (intro rules show_)
  have remove: "keeps_log (sound_log (cm_inputs cm) start) (remove_content_now cm rq i f k st)" for rq i f k st
    unfolding remove_content_now_def by (intro rules)
  have layout: "keeps_log (sound_log (cm_inputs cm) start) (set_layout cm rq)" for rq
    unfolding set_layout_def Let_def by (rule keeps_kept) (intro kept_rules rules set_)
  show ?thesis
  proof (cases e)
    case (AddContent rq)
    show ?thesis unfolding AddContent compose.simps add_content_def Let_def by (rule keeps_kept) (intro kept_rules rules add)
  next
    case (SetLayout rq)
    with layout show ?thesis by simp
  next
    case (RemoveContent rq)
    show ?thesis unfolding RemoveContent compose.simps remove_content_def Let_def by (rule keeps_kept) (intro kept_rules rules remove)
  next
    case (CameraOnly rq)
    show ?thesis unfolding CameraOnly compose.simps select_camera_only_def Let_def
      by (rule keeps_kept) (intro kept_rules rules layout show_)
  next
    case (FallBack rq failure)
    show ?thesis unfolding FallBack compose.simps by (intro rules)
  qed
qed

subsection \<open>What is stored\<close>

definition stays :: "'a program \<Rightarrow> bool" where
  "stays p \<longleftrightarrow> (\<forall>w. lw_state (snd (p w)) = lw_state w \<and> lw_requests (snd (p w)) = lw_requests w)"

lemma staysD: "stays p \<Longrightarrow> p w = (r, w') \<Longrightarrow> lw_state w' = lw_state w \<and> lw_requests w' = lw_requests w"
  by (metis stays_def snd_conv)

lemma staysI: "(\<And>w r w'. p w = (r, w') \<Longrightarrow> lw_state w' = lw_state w \<and> lw_requests w' = lw_requests w) \<Longrightarrow> stays p"
  by (simp add: stays_def) (metis prod.collapse)

lemma stays_and_then:
  assumes "stays p" "\<And>x. stays (f x)"
  shows "stays (and_then p f)"
proof (rule staysI)
  fix w r w'
  assume r: "and_then p f w = (r, w')"
  obtain a w1 where a: "p w = (a, w1)" by fastforce
  with r show "lw_state w' = lw_state w \<and> lw_requests w' = lw_requests w"
    using staysD [OF assms(1) a] staysD [OF assms(2)] by (auto simp: and_then_def split: sum.splits)
qed

lemma stays_rules:
  "stays p \<Longrightarrow> (\<And>x. stays (f x)) \<Longrightarrow> stays (and_then p f)"
  "stays p \<Longrightarrow> stays q \<Longrightarrow> stays (if b then p else q)"
  "stays p \<Longrightarrow> (\<And>z. stays (g z)) \<Longrightarrow> stays (case m of None \<Rightarrow> p | Some z \<Rightarrow> g z)"
  "(\<And>a. stays (h a)) \<Longrightarrow> (\<And>b. stays (k b)) \<Longrightarrow> stays (case r of Inl a \<Rightarrow> h a | Inr b \<Rightarrow> k b)"
  "(\<And>a b. stays (l a b)) \<Longrightarrow> stays (case z of (a, b) \<Rightarrow> l a b)"
  "stays p \<Longrightarrow> stays (swallow p)"
  "stays (giving x)" "stays (failing c t)" "stays (\<lambda>w. (Inl e, w))" "stays (ask env c')"
  subgoal by (rule stays_and_then)
  subgoal by simp
  subgoal by (simp split: option.split)
  subgoal by (simp split: sum.split)
  subgoal by (simp split: prod.split)
  subgoal by (rule staysI) (auto simp: swallow_def split: sum.splits prod.splits dest: staysD)
  by (simp_all add: stays_def giving_def failing_def ask_def Let_def)

lemma stays_scene: "stays (set_scene_confirmed env s)"
  unfolding set_scene_confirmed_def current_scene_def by (intro stays_rules)

lemma stays_wait: "stays (wait_for_delivery env n rid inst)"
  by (induction n) (unfold wait_for_delivery.simps, (intro stays_rules; assumption?)+)

lemma stays_assign: "stays (assign_content env digest n ws src inst rid)"
  unfolding assign_content_def Let_def by (intro stays_rules stays_wait)

lemma stays_wait_cleared: "stays (wait_cleared env n d)"
  by (induction n) (unfold wait_cleared.simps, (intro stays_rules; assumption?)+)

lemma stays_clear: "stays (clear_content env n io)"
  unfolding clear_content_def Let_def by (intro stays_rules stays_wait_cleared)

lemma stays_policy: "stays (apply_audio_policy cm io p r)"
  unfolding apply_audio_policy_def receiver_audio_policy_def obs_audio_policy_def set_input_muted_def by (intro stays_rules)

lemma scene_confirmed: "set_scene_confirmed env s w = (Inr n, w') \<Longrightarrow> s = Some n"
  by (auto simp: set_scene_confirmed_def and_then_def giving_def failing_def split: prod.splits sum.splits option.splits if_splits)

text \<open>A program that stores what it gives, once, under its key, or fails and stores nothing.\<close>

definition stores :: "string \<Rightarrow> string \<Rightarrow> (composition \<Rightarrow> bool) \<Rightarrow> (composition \<times> bool) program \<Rightarrow> bool" where
  "stores k f G p \<longleftrightarrow> (\<forall>w. case p w of
     (Inl e, w') \<Rightarrow> lw_state w' = lw_state w \<and> lw_requests w' = lw_requests w
   | (Inr (c, b), w') \<Rightarrow> \<not> b \<and> G c \<and> lw_state w' = Some (stored c) \<and> lw_requests w' = (k, f, stored c) # lw_requests w)"

lemma storesD:
  "stores k f G p \<Longrightarrow> p w = (Inl e, w') \<Longrightarrow> lw_state w' = lw_state w \<and> lw_requests w' = lw_requests w"
  "stores k f G p \<Longrightarrow> p w = (Inr (c, b), w') \<Longrightarrow> \<not> b \<and> G c \<and> lw_state w' = Some (stored c) \<and> lw_requests w' = (k, f, stored c) # lw_requests w"
  unfolding stores_def by (drule spec [of _ w], simp)+

lemma stores_and_then:
  assumes "stays q" "\<And>x w w'. q w = (Inr x, w') \<Longrightarrow> stores k f G (g x)"
  shows "stores k f G (and_then q g)"
  unfolding stores_def
proof
  fix w :: live_world
  obtain a w1 where a: "q w = (a, w1)" by fastforce
  note st = staysD [OF assms(1) a]
  show "case and_then q g w of
      (Inl e, w') \<Rightarrow> lw_state w' = lw_state w \<and> lw_requests w' = lw_requests w
    | (Inr (c, b), w') \<Rightarrow> \<not> b \<and> G c \<and> lw_state w' = Some (stored c) \<and> lw_requests w' = (k, f, stored c) # lw_requests w"
  proof (cases a)
    case (Inl e)
    with a st show ?thesis by (simp add: and_then_def)
  next
    case (Inr x)
    with a have eq: "and_then q g w = g x w1" by (simp add: and_then_def)
    have "stores k f G (g x)" using assms(2) a Inr by simp
    from spec [OF this [unfolded stores_def], of w1] show ?thesis unfolding eq st [THEN conjunct1] st [THEN conjunct2] .
  qed
qed

lemma stores_rules:
  "stores k f G (failing c m)"
  "stores k f G p \<Longrightarrow> stores k f G q \<Longrightarrow> stores k f G (if b then p else q)"
  "G c' \<Longrightarrow> stores k f G (store_next k f c')"
  by (simp_all add: stores_def failing_def store_next_def and_then_def put_state_def finish_idempotent_def)

text \<open>A composition that shows content has one, and a confirmed scene is the one of the confirmed layout.\<close>

definition consistent :: "composition \<Rightarrow> bool" where
  "consistent c \<longleftrightarrow> (co_scene_confirmed c \<longrightarrow> Some (co_scene c) = scene_for (co_confirmed c)) \<and> scene_for (co_confirmed c) \<noteq> None \<and>
     (co_confirmed c = ''camera_only'' \<or> nonempty_text (co_instance c) \<noteq> None) \<and> co_audio c \<in> {''camera'', ''content_replace''} \<and> 0 \<le> co_revision c"

definition follows :: "composition \<Rightarrow> composition \<Rightarrow> bool" where
  "follows st c \<longleftrightarrow> co_revision c = co_revision st + 1 \<and> co_failure_code c = None \<and> co_scene_confirmed c \<and> (consistent st \<longrightarrow> consistent c)"

lemma show_layout_stores:
  assumes "layout = ''camera_only'' \<or> nonempty_text (co_instance st) \<noteq> None" "audio \<in> {''camera'', ''content_replace''}"
  shows "stores k f (follows st) (show_layout cm rq layout audio f k st)"
  unfolding show_layout_def
  by (intro stores_and_then stays_policy stays_scene stores_rules)
     (use assms in \<open>auto simp: follows_def consistent_def composed_def dest!: scene_confirmed\<close>)

lemma add_content_stores:
  assumes "inst \<noteq> []" "audio \<in> {''camera'', ''content_replace''}"
  shows "\<exists>p. add_content_now cm rq layout inst audio f k st = attempt cm rq p \<and> stores k f (follows st) p"
  unfolding add_content_now_def
  by (intro exI conjI, rule refl, intro stores_and_then stays_policy stays_scene stays_assign stores_rules)
     (use assms in \<open>auto simp: follows_def consistent_def nonempty_text_def dest!: scene_confirmed\<close>)

lemma remove_content_stores:
  "stores k f (follows st) (and_then (apply_audio_policy cm io ''camera'' r) (\<lambda>_. and_then (set_scene_confirmed env (Some ''MBFD_CAMERA_ONLY'')) (\<lambda>scene.
     and_then (clear_content env n io') (\<lambda>_. store_next k f
       \<lparr>co_workspace = ws, co_accepted = True, co_requested = ''camera_only'', co_confirmed = ''camera_only'', co_source = JNull, co_instance = None,
         co_receiver = rc, co_available = True, co_scene = scene, co_scene_confirmed = (scene = ''MBFD_CAMERA_ONLY''), co_audio = ''camera'',
         co_failure_code = None, co_failure_message = None, co_revision = co_revision st + 1, co_request = q, co_updated = u\<rparr>))))"
  by (intro stores_and_then stays_policy stays_scene stays_clear stores_rules)
     (auto simp: follows_def consistent_def scene_for_def dest!: scene_confirmed)

subsection \<open>Outcomes\<close>

lemma fallback_result:
  "\<exists>b w2. fallback_camera_only cm rq failure w = (Inr (fallback_state (state_for (cq_workspace rq) w) b failure (cq_fallback_uuid rq) (cq_now rq)), w2) \<and>
     lw_state w2 = Some (stored (fallback_state (state_for (cq_workspace rq) w) b failure (cq_fallback_uuid rq) (cq_now rq))) \<and>
     lw_requests w2 = lw_requests w"
proof -
  obtain a w1 where a: "apply_audio_policy cm (cq_io rq) ''camera'' 0 w = (a, w1)" by fastforce
  obtain b w2 where b: "set_scene_confirmed (cm_env cm) (Some ''MBFD_CAMERA_ONLY'') w1 = (b, w2)" by fastforce
  from staysD [OF stays_policy a] staysD [OF stays_scene b] show ?thesis
    by (cases a; cases b) (auto simp: fallback_camera_only_def and_then_def swallow_def a b Let_def put_state_def giving_def)
qed

fun settled :: "compose_request \<Rightarrow> live_world \<Rightarrow> (edge_failure + composition \<times> bool) \<times> live_world \<Rightarrow> bool" where
  \<comment> \<open>refused or failed; failed and fallen back to the camera; replayed; done and recorded\<close>
  "settled rq w (Inl e, w') \<longleftrightarrow> lw_requests w' = lw_requests w \<and> (lw_state w' = lw_state w \<or>
     lw_state w' = Some (stored (fallback_state (state_for (cq_workspace rq) w) True (Some e) (cq_fallback_uuid rq) (cq_now rq))) \<or>
     lw_state w' = Some (stored (fallback_state (state_for (cq_workspace rq) w) False (Some e) (cq_fallback_uuid rq) (cq_now rq))))"
| "settled rq w (Inr (c, True), w') \<longleftrightarrow> w' = w \<and> map_option snd (map_of (lw_requests w) (text_of (cq_key rq))) = Some c"
| "settled rq w (Inr (c, False), w') \<longleftrightarrow> follows (state_for (cq_workspace rq) w) c \<and> lw_state w' = Some (stored c) \<and>
     map_of (lw_requests w) (text_of (cq_key rq)) = None \<and>
     map_option snd (map_of (lw_requests w') (text_of (cq_key rq))) = Some (stored c) \<and> tl (lw_requests w') = lw_requests w"

lemma stores_settled:
  assumes "stores (text_of (cq_key rq)) f (follows (state_for (cq_workspace rq) w)) p" "map_of (lw_requests w) (text_of (cq_key rq)) = None"
  shows "settled rq w (p w)"
proof -
  obtain r w' where r: "p w = (r, w')" by fastforce
  show ?thesis
  proof (cases r)
    case (Inl e)
    with storesD(1) [OF assms(1)] r show ?thesis by simp
  next
    case (Inr x)
    obtain c b where "x = (c, b)" by fastforce
    with storesD(2) [OF assms(1)] r Inr assms(2) show ?thesis by (cases b) auto
  qed
qed

lemma attempt_settled:
  assumes "stores (text_of (cq_key rq)) f (follows (state_for (cq_workspace rq) w)) p" "map_of (lw_requests w) (text_of (cq_key rq)) = None"
  shows "settled rq w (attempt cm rq p w)"
proof -
  obtain r w' where r: "p w = (r, w')" by fastforce
  show ?thesis
  proof (cases r)
    case (Inr x)
    with stores_settled [OF assms] r show ?thesis by (simp add: attempt_def)
  next
    case (Inl e)
    with storesD(1) [OF assms(1)] r have w': "lw_state w' = lw_state w" "lw_requests w' = lw_requests w" by simp_all
    then have st: "state_for (cq_workspace rq) w' = state_for (cq_workspace rq) w" by (simp add: state_for_def)
    obtain b w2 where "fallback_camera_only cm rq (Some e) w' =
        (Inr (fallback_state (state_for (cq_workspace rq) w) b (Some e) (cq_fallback_uuid rq) (cq_now rq)), w2)"
      "lw_state w2 = Some (stored (fallback_state (state_for (cq_workspace rq) w) b (Some e) (cq_fallback_uuid rq) (cq_now rq)))"
      "lw_requests w2 = lw_requests w"
      using fallback_result [of cm rq "Some e" w'] w' st by auto
    then show ?thesis by (cases b) (simp_all add: attempt_def r Inl and_then_def)
  qed
qed

lemma begin_fresh: "begin_idempotent w kv f = Inr (k, None) \<Longrightarrow> k = text_of kv \<and> map_of (lw_requests w) k = None"
  by (auto simp: begin_idempotent_def Let_def split: if_splits option.splits)

lemma begin_replay: "begin_idempotent w kv f = Inr (k, Some c) \<Longrightarrow> map_of (lw_requests w) (text_of kv) = Some (f, c)"
  by (auto simp: begin_idempotent_def Let_def split: if_splits option.splits)

lemma admitted_settled:
  assumes "map_of (lw_requests w) (text_of (cq_key rq)) = None \<Longrightarrow> settled rq w (go (text_of (cq_key rq)) (state_for (cq_workspace rq) w) w)"
  shows "settled rq w (admitted rq f go w)"
  using assms by (auto simp: admitted_def dest: begin_fresh begin_replay split: sum.split prod.split option.split)

lemma settled_refused: "settled rq w (Inl e, w)" "settled rq w (failing c m w)"
  by (simp_all add: failing_def)

lemma normalized_policy: "program_audio_policy v = Inr p \<Longrightarrow> p \<in> {''camera'', ''content_replace''}"
  by (auto simp: program_audio_policy_def Let_def split: if_splits)

lemma set_layout_now_settled:
  assumes "audio \<in> {''camera'', ''content_replace''}" "map_of (lw_requests w) (text_of (cq_key rq)) = None"
  shows "settled rq w (set_layout_now cm rq layout audio f (text_of (cq_key rq)) (state_for (cq_workspace rq) w) w)"
  using assms by (auto simp: set_layout_now_def intro!: attempt_settled show_layout_stores settled_refused)

lemma set_layout_settled: "settled rq w (set_layout cm rq w)"
  by (auto simp: set_layout_def Let_def intro!: settled_refused admitted_settled set_layout_now_settled dest: normalized_policy split: sum.split)

lemma add_content_settled: "settled rq w (add_content cm rq w)"
proof -
  have "settled rq w (add_content_now cm rq l i a f (text_of (cq_key rq)) (state_for (cq_workspace rq) w) w)"
    if "i \<noteq> []" "a \<in> {''camera'', ''content_replace''}" "map_of (lw_requests w) (text_of (cq_key rq)) = None" for l i a f
    using add_content_stores [OF that(1,2)] attempt_settled [OF _ that(3)] by metis
  then show ?thesis
    by (auto simp: add_content_def Let_def intro!: settled_refused admitted_settled dest: normalized_policy split: sum.split)
qed

lemma remove_content_settled: "settled rq w (remove_content cm rq w)"
  by (auto simp: remove_content_def remove_content_now_def Let_def intro!: settled_refused admitted_settled attempt_settled remove_content_stores)

lemma settled_layout: "settled (rq\<lparr>cq_layout := l\<rparr>) w r = settled rq w r"
  by (cases "(rq, w, r)" rule: settled.cases) simp_all

lemma camera_only_settled: "settled rq w (select_camera_only cm rq w)"
proof -
  have "settled rq w (set_layout cm (rq\<lparr>cq_layout := l\<rparr>) w)" for l
    using set_layout_settled [of "rq\<lparr>cq_layout := l\<rparr>"] by (simp only: settled_layout)
  moreover have "settled rq w (show_layout cm rq ''camera_only'' ''camera'' f (text_of (cq_key rq)) (state_for (cq_workspace rq) w) w)"
    if "map_of (lw_requests w) (text_of (cq_key rq)) = None" for f
    by (rule stores_settled [OF show_layout_stores that]) simp_all
  ultimately show ?thesis
    by (auto simp: select_camera_only_def Let_def intro!: settled_refused admitted_settled)
qed

fun compose_request_of :: "compose_event \<Rightarrow> compose_request option" where
  "compose_request_of (AddContent rq) = Some rq"
| "compose_request_of (SetLayout rq) = Some rq"
| "compose_request_of (RemoveContent rq) = Some rq"
| "compose_request_of (CameraOnly rq) = Some rq"
| "compose_request_of (FallBack rq failure) = None"

lemma compose_settled: "compose_request_of e = Some rq \<Longrightarrow> settled rq w (compose cm e w)"
  by (cases e) (auto simp: add_content_settled set_layout_settled remove_content_settled camera_only_settled)

subsection \<open>Kept over a run\<close>

lemma stored_fields [simp]:
  "co_revision (stored c) = co_revision c" "co_audio (stored c) = co_audio c" "co_confirmed (stored c) = co_confirmed c"
  "co_instance (stored c) = co_instance c" "co_scene (stored c) = co_scene c" "co_scene_confirmed (stored c) = co_scene_confirmed c"
  by (simp_all add: stored_def)

lemma consistent_stored [simp]: "consistent (stored c) = consistent c"
  by (simp add: consistent_def)

lemma consistent_initial: "consistent (initial_composition ws)"
  by (simp add: consistent_def initial_composition_def scene_for_def)

lemma consistent_fallback: "consistent st \<Longrightarrow> consistent (fallback_state st b failure uuid now)"
  by (auto simp: consistent_def fallback_state_def Let_def scene_for_def)

definition good_world :: "live_world \<Rightarrow> bool" where
  "good_world w \<longleftrightarrow> (case lw_state w of None \<Rightarrow> True | Some c \<Rightarrow> consistent c)"

lemma good_state_for: "good_world w \<Longrightarrow> consistent (state_for ws w)"
  by (auto simp: good_world_def state_for_def consistent_initial split: option.splits)

lemma settled_good:
  assumes "good_world w" "settled rq w (r, w')"
  shows "good_world w'"
proof -
  note c = good_state_for [OF assms(1), of "cq_workspace rq"]
  show ?thesis
  proof (cases r)
    case (Inl e)
    with assms consistent_fallback [OF c] show ?thesis by (auto simp: good_world_def)
  next
    case (Inr x)
    obtain d b where "x = (d, b)" by fastforce
    with Inr assms c show ?thesis by (cases b) (auto simp: good_world_def follows_def)
  qed
qed

lemma fallback_event:
  "compose cm (FallBack rq failure) w = (r, w') \<Longrightarrow>
   lw_requests w' = lw_requests w \<and> (lw_state w' = lw_state w \<or>
     (\<exists>b. lw_state w' = Some (stored (fallback_state (state_for (cq_workspace rq) w) b failure (cq_fallback_uuid rq) (cq_now rq)))))"
  using fallback_result [of cm rq failure w] by (auto simp: and_then_def giving_def failing_def split: if_splits)

lemma good_compose_step: "good_world w \<Longrightarrow> good_world (compose_step cm e w)"
proof -
  assume w: "good_world w"
  obtain r w' where r: "compose cm e w = (r, w')" by fastforce
  have "good_world w'"
  proof (cases "compose_request_of e")
    case (Some rq)
    from settled_good [OF w] compose_settled [OF this, of w cm] r show ?thesis by simp
  next
    case None
    then obtain rq failure where "e = FallBack rq failure" by (cases e) auto
    with fallback_event [of cm rq failure w r w'] r w show ?thesis
      by (auto simp: good_world_def consistent_fallback good_state_for)
  qed
  with r show ?thesis by (simp add: compose_step_def)
qed

interpretation composing: machine "compose_step cm" good_world for cm
  by unfold_locales (rule good_compose_step)

text \<open>Requests once recorded stay recorded.\<close>

lemma recorded_step:
  assumes "map_of (lw_requests w) k = Some x"
  shows "map_of (lw_requests (compose_step cm e w)) k = Some x"
proof -
  obtain r w' where r: "compose cm e w = (r, w')" by fastforce
  have "map_of (lw_requests w') k = Some x"
  proof (cases "compose_request_of e")
    case None
    then obtain rq failure where "e = FallBack rq failure" by (cases e) auto
    with fallback_event [of cm rq failure w r w'] r assms show ?thesis by auto
  next
    case (Some rq)
    with compose_settled r have s: "settled rq w (r, w')" by metis
    show ?thesis
    proof (cases r)
      case (Inl f)
      with s assms show ?thesis by simp
    next
      case (Inr y)
      obtain d b where y: "y = (d, b)" by fastforce
      show ?thesis
      proof (cases b)
        case True
        with s Inr y assms show ?thesis by simp
      next
        case False
        with s Inr y have n: "map_of (lw_requests w) (text_of (cq_key rq)) = None" "tl (lw_requests w') = lw_requests w"
          and m: "map_of (lw_requests w') (text_of (cq_key rq)) \<noteq> None" by auto
        then obtain k' z where "lw_requests w' = (k', z) # lw_requests w" by (cases "lw_requests w'") auto
        with n m assms show ?thesis by (auto split: if_splits)
      qed
    qed
  qed
  with r show ?thesis by (simp add: compose_step_def)
qed

lemma recorded_run: "map_of (lw_requests w) k = Some x \<Longrightarrow> map_of (lw_requests (run_events (compose_step cm) es w)) k = Some x"
  by (induction es arbitrary: w) (simp_all add: recorded_step)

subsection \<open>Repeated requests\<close>

definition records :: "string \<Rightarrow> string \<Rightarrow> (composition \<times> bool) program \<Rightarrow> bool" where
  "records k f p \<longleftrightarrow> (\<forall>w c w'. p w = (Inr (c, False), w') \<longrightarrow> map_of (lw_requests w') k = Some (f, stored c))"

lemma stores_records: "stores k f G p \<Longrightarrow> records k f p"
  unfolding records_def by (metis map_of_Cons_code(2) storesD(2))

lemma attempt_records:
  assumes "stores k f G p"
  shows "records k f (attempt cm rq p)"
  unfolding records_def
proof (intro allI impI)
  fix w c w'
  assume a: "attempt cm rq p w = (Inr (c, False), w')"
  obtain r w1 where r: "p w = (r, w1)" by fastforce
  show "map_of (lw_requests w') k = Some (f, stored c)"
  proof (cases r)
    case (Inl e)
    with a r show ?thesis by (simp add: attempt_def and_then_def split: prod.splits sum.splits)
  next
    case (Inr x)
    with a r have "p w = (Inr (c, False), w')" by (simp add: attempt_def)
    with storesD(2) [OF assms] show ?thesis by fastforce
  qed
qed

text \<open>A request whose checks do not look at the state: refused in every state, or admitted in every state with one fingerprint.\<close>

definition uniform :: "compose_request \<Rightarrow> (composition \<times> bool) program \<Rightarrow> bool" where
  "uniform rq p \<longleftrightarrow> (\<forall>w. \<exists>e. p w = (Inl e, w)) \<or>
     (\<exists>f go. (\<forall>w. p w = admitted rq f go w) \<and> (\<forall>k st. records k f (go k st)))"

lemma uniform_refused: "uniform rq (\<lambda>w. (Inl e, w))" "uniform rq (failing c m)"
  by (simp_all add: uniform_def failing_def)

lemma uniform_admitted: "(\<And>k st. records k f (go k st)) \<Longrightarrow> uniform rq (admitted rq f go)"
  unfolding uniform_def by blast

lemma uniform_if: "(b \<Longrightarrow> uniform rq p) \<Longrightarrow> (\<not> b \<Longrightarrow> uniform rq q) \<Longrightarrow> uniform rq (\<lambda>w. if b then p w else q w)"
  by (cases b) simp_all

lemma uniform_sum:
  "(\<And>a. m = Inl a \<Longrightarrow> uniform rq (h a)) \<Longrightarrow> (\<And>d. m = Inr d \<Longrightarrow> uniform rq (g d)) \<Longrightarrow>
   uniform rq (\<lambda>w. case m of Inl a \<Rightarrow> h a w | Inr d \<Rightarrow> g d w)"
  by (cases m) simp_all

lemmas uniform_cases = uniform_if uniform_sum

lemma records_failing: "records k f (failing c m)"
  by (simp add: records_def failing_def)

lemma add_content_uniform: "uniform rq (add_content cm rq)"
proof -
  have "records k f (add_content_now cm rq l i a f k st)" if "i \<noteq> []" "a \<in> {''camera'', ''content_replace''}" for l i a f k st
    using add_content_stores [OF that] attempt_records by metis
  then show ?thesis
    unfolding add_content_def [abs_def] Let_def
    by (intro uniform_cases uniform_refused uniform_admitted) (auto dest: normalized_policy)
qed

lemma remove_content_uniform: "uniform rq (remove_content cm rq)"
  unfolding remove_content_def [abs_def] Let_def
  by (intro uniform_cases uniform_refused uniform_admitted)
     (auto simp: remove_content_now_def intro!: records_failing attempt_records remove_content_stores)

lemma set_layout_uniform:
  assumes "truthy (cq_audio rq)"
  shows "uniform rq (set_layout cm rq)"
proof -
  have "records k f (set_layout_now cm rq l a f k st)" if "a \<in> {''camera'', ''content_replace''}" for l a f k st
    using that by (auto simp: set_layout_now_def intro!: records_failing attempt_records show_layout_stores)
  moreover have "js_or (cq_audio rq) d = cq_audio rq" for d using assms by (simp add: js_or_def)
  ultimately show ?thesis
    unfolding set_layout_def [abs_def] Let_def
    by (simp only:) (intro uniform_cases uniform_refused uniform_admitted; auto dest: normalized_policy)
qed

lemma uniform_repeats:
  assumes "uniform rq p" "p w = (Inr (c, False), w1)" "map_of (lw_requests w1) (text_of (cq_key rq)) = x" "map_of (lw_requests w2) (text_of (cq_key rq)) = x"
  shows "p w2 = (Inr (stored c, True), w2)"
proof -
  from assms(1,2) obtain f go where p: "\<And>w. p w = admitted rq f go w" and r: "\<And>k st. records k f (go k st)"
    unfolding uniform_def by (metis Inl_Inr_False prod.inject)
  from assms(2) p obtain k where k: "begin_idempotent w (cq_key rq) f = Inr (k, None)" "go k (state_for (cq_workspace rq) w) w = (Inr (c, False), w1)"
    by (auto simp: admitted_def split: sum.splits prod.splits option.splits)
  from begin_fresh [OF k(1)] r k(2) have "map_of (lw_requests w1) (text_of (cq_key rq)) = Some (f, stored c)"
    unfolding records_def by blast
  moreover have "text_of (cq_key rq) \<noteq> []" using k(1) by (auto simp: begin_idempotent_def Let_def split: if_splits)
  ultimately show ?thesis using assms(3,4) by (simp add: p admitted_def begin_idempotent_def)
qed

fun repeatable :: "compose_event \<Rightarrow> bool" where
  "repeatable (SetLayout rq) = truthy (cq_audio rq)"
| "repeatable (AddContent rq) = True"
| "repeatable (RemoveContent rq) = True"
| "repeatable _ = False"

lemma repeatable_uniform: "repeatable e \<Longrightarrow> \<exists>rq. compose_request_of e = Some rq \<and> uniform rq (compose cm e)"
  by (cases e) (auto simp: add_content_uniform remove_content_uniform set_layout_uniform)

subsection \<open>Properties\<close>


text \<open>What is stored of the composition stays consistent: a confirmed scene is the scene of the confirmed layout, a layout with content
  has a content instance, the sound is the camera's or the content's, and no revision is negative.
\<close>

theorem composition_stays_consistent:
  "case lw_state (run_events (compose_step cm) es new_world) of None \<Rightarrow> True | Some c \<Rightarrow> consistent c"
  using composing.run_good [of new_world cm es] by (simp add: good_world_def new_world_def)

text \<open>C34: An operation ends in one of four ways. It fails and stores nothing; or fails, shows the camera with the camera's sound and records
  its failure in the next revision; or repeats a recorded response and changes nothing; or is done, confirmed by OBS and recorded under its
  key in the next revision.
\<close>

theorem composition_outcomes:
  assumes "compose_request_of e = Some rq"
  shows "settled rq w (compose cm e w)"
  by (rule compose_settled [OF assms])


subsection \<open>A run\<close>

text \<open>Surroundings in which everything works, and ones in which the receiver stops acknowledging after a number of calls.\<close>

definition last_scene :: "call_log \<Rightarrow> jsval" where
  "last_scene lg = foldl (\<lambda>s (c, a). case c of ToObs (SetScene (Some n)) \<Rightarrow> JStr n | _ \<Rightarrow> s) JNull lg"

fun willing :: "call_log \<Rightarrow> edge_call \<Rightarrow> jsval" where
  "willing lg EnsureDisplay = JObj [(''id'', JStr ''d1'')]"
| "willing lg (CreateDelivery v) = JObj [(''id'', JStr ''r1''), (''devices'', JArr [JObj [(''command_id'', JStr ''c1'')]])]"
| "willing lg (PushSource d v) = JObj [(''ok'', JBool True)]"
| "willing lg (ReadDelivery v) = JObj [(''status'', JStr ''confirmed''), (''devices'', JArr [JObj [(''state'', JStr ''confirmed''),
     (''confirmed_player_state'', JObj [(''content_instance_id'', JStr ''i1''), (''render_state'', JStr ''playing'')])]])]"
| "willing lg (ReadDisplay v) = JObj [(''render_state'', JStr ''idle'')]"
| "willing lg (EmitPolicy d p r) = JArr [JObj [(''ok'', JBool True), (''policy'', JStr p), (''revision'', jint r)]]"
| "willing lg (ToObs GetScene) = JObj [(''currentProgramSceneName'', last_scene lg)]"
| "willing lg _ = JNull"

definition demo_env :: "nat \<Rightarrow> surroundings" where
  "demo_env n lg c = (case c of
     EmitPolicy _ _ _ \<Rightarrow> if n \<le> length lg then \<lparr>an_result = Inl \<lparr>ef_code = Some ''RECEIVER_AUDIO_POLICY_TIMEOUT'', ef_message = ''timeout''\<rparr>, an_effect = False\<rparr>
       else \<lparr>an_result = Inr (willing lg c), an_effect = True\<rparr>
   | _ \<Rightarrow> \<lparr>an_result = Inr (willing lg c), an_effect = True\<rparr>)"

definition demo_cm :: "nat \<Rightarrow> compositor" where
  "demo_cm n = \<lparr>cm_env = demo_env n, cm_inputs = \<lparr>oi_camera = ''MBFD_ANPVIZ_CAMERA'', oi_content = ''MBFD_LIVE_CONTENT''\<rparr>,
     cm_digest = (\<lambda>v. ''h''), cm_polls = 3\<rparr>"

definition demo_request :: "string \<Rightarrow> string \<Rightarrow> string \<Rightarrow> int \<Rightarrow> compose_request" where
  "demo_request key layout audio revision = \<lparr>cq_workspace = ''w1'', cq_source = JObj [(''type'', JStr ''content''), (''contentId'', JStr ''c9'')],
     cq_instance = JStr ''i1'', cq_layout = JStr layout, cq_audio = JStr audio, cq_revision = jint revision, cq_key = JStr key, cq_io = True,
     cq_uuid = ''u1'', cq_fallback_uuid = ''u2'', cq_now = 5\<rparr>"

lemma demo_honest: "obs_honest (cm_env (demo_cm n))"
  by (simp add: obs_honest_def demo_cm_def demo_env_def)


theorem composition_outcomes_witness:
  "settled (demo_request ''k1'' ''content_main_camera_pip'' ''camera'' 0) new_world
     (compose (demo_cm 0) (AddContent (demo_request ''k1'' ''content_main_camera_pip'' ''camera'' 0)) new_world) \<and>
   map_option co_failure_code (lw_state (compose_step (demo_cm 0) (AddContent (demo_request ''k1'' ''content_main_camera_pip'' ''camera'' 0)) new_world)) =
     Some (Some ''RECEIVER_AUDIO_POLICY_TIMEOUT'')"
proof
  show "settled (demo_request ''k1'' ''content_main_camera_pip'' ''camera'' 0) new_world
     (compose (demo_cm 0) (AddContent (demo_request ''k1'' ''content_main_camera_pip'' ''camera'' 0)) new_world)"
    by (rule composition_outcomes) simp
  show "map_option co_failure_code (lw_state (compose_step (demo_cm 0) (AddContent (demo_request ''k1'' ''content_main_camera_pip'' ''camera'' 0)) new_world)) =
     Some (Some ''RECEIVER_AUDIO_POLICY_TIMEOUT'')"
    by code_simp
qed

definition demo_added :: "(edge_failure + composition \<times> bool) \<times> live_world" where
  "demo_added = compose (demo_cm 100) (AddContent (demo_request ''k1'' ''camera_main_content_pip'' ''camera'' 0)) new_world"

lemma demo_added_done: "(case fst demo_added of Inl e \<Rightarrow> False | Inr (c, b) \<Rightarrow> \<not> b)"
  by code_simp

lemma demo_added_result:
  "compose (demo_cm 100) (AddContent (demo_request ''k1'' ''camera_main_content_pip'' ''camera'' 0)) new_world = (Inr (fst (projr (fst demo_added)), False), snd demo_added)"
proof -
  from demo_added_done obtain c where "fst demo_added = Inr (c, False)" by (auto split: sum.splits prod.splits)
  then show ?thesis unfolding demo_added_def [symmetric] by (metis fst_conv prod.collapse sum.sel(2))
qed


text \<open>
  When the receiver does not acknowledge the camera's policy, the fallback never tells OBS: the content stays open and the camera muted, while
  the state stored says that the sound is the camera's.
\<close>

lemma fallback_leaves_content_open:
  "let cm = demo_cm 12; w = run_events (compose_step cm) [AddContent (demo_request ''k1'' ''content_main_camera_pip'' ''content_replace'' 0),
       SetLayout (demo_request ''k2'' ''camera_only'' ''camera'' 1)] new_world
   in map_option co_audio (lw_state w) = Some ''camera'' \<and> map_option co_scene_confirmed (lw_state w) = Some True \<and>
      \<not> input_muted (\<lambda>_. True) (lw_log w) ''MBFD_LIVE_CONTENT'' \<and> input_muted (\<lambda>_. True) (lw_log w) ''MBFD_ANPVIZ_CAMERA''"
  by code_simp

text \<open>The queue is per workspace, and OBS is shared: the requests of two workspaces that interleave open both inputs.\<close>

lemma interleaved_workspaces_mix:
  "both_open \<lparr>oi_camera = ''cam'', oi_content = ''content''\<rparr> (\<lambda>_. True) (map (\<lambda>(i, b). (ToObs (SetMute i b), \<lparr>an_result = Inr JNull, an_effect = True\<rparr>))
     ([(''cam'', True), (''content'', True)] @ [(''cam'', True), (''content'', True)] @ [(''content'', False)] @ [(''cam'', False)]))"
  by code_simp

end
