(* ===== verification/SyncWorker.thy ===== *)
theory SyncWorker
  imports Prelude Machines
begin

text \<open>
  The asset cache of a room node (\<open>appliance/p3/room-agent/sync-worker.js\<close>, and the same file for the podium): assets named by
  their digest are downloaded into a part file, resumed where a part was left, verified and renamed; a manifest in SQLite records
  them and the cache is pruned to a quota.

  The directory is an association list from file names to bytes and access times, the digest and the clock are arguments. What an attempt
  meets is an argument too: how the server answers a request that starts at a byte, whether reading a part fails midway, and whether the
  rename succeeds.
\<close>

subsection \<open>Files and manifest\<close>

record cached_file =
  cf_bytes :: string
  cf_atime :: rat

record asset_row =
  as_id :: string
  as_url :: jsval
  as_size :: jsval
  as_status :: string
  as_verified :: bool
  as_desired :: bool
  as_attempt :: int
  as_success :: "int option"
  as_error :: "string option"
  as_path :: "string option"

record sync_worker =
  sw_files :: "(string \<times> cached_file) list"
  sw_manifest :: "asset_row list option"
  sw_quota :: rat

text \<open>
  Preparing the statement that records an asset names a column \<open>excluded.ts\<close> that the table does not have, so a worker whose database
  opened cannot be created; without one it keeps no manifest.
\<close>

definition create_sync_worker :: "bool \<Rightarrow> rat \<Rightarrow> (string \<times> cached_file) list \<Rightarrow> sync_worker option" where
  "create_sync_worker db_opened quota fs = (if db_opened then None else Some \<lparr>sw_files = fs, sw_manifest = None, sw_quota = quota\<rparr>)"

definition mark_status :: "string \<Rightarrow> string \<Rightarrow> bool \<Rightarrow> int option \<Rightarrow> string option \<Rightarrow> string option \<Rightarrow> sync_worker \<Rightarrow> sync_worker" where
  "mark_status sha status verified success err path w =
     w\<lparr>sw_manifest := map_option (map (\<lambda>r. if as_id r = sha
        then r\<lparr>as_status := status, as_verified := verified, as_success := success, as_error := err, as_path := path\<rparr> else r)) (sw_manifest w)\<rparr>"

definition record_manifest :: "int \<Rightarrow> string \<Rightarrow> jsval \<Rightarrow> jsval \<Rightarrow> sync_worker \<Rightarrow> sync_worker" where
  "record_manifest now sha url sz w =
     (let s = (if truthy sz then sz else JNull) in
      w\<lparr>sw_manifest := map_option (\<lambda>rows.
         if list_ex (\<lambda>r. as_id r = sha) rows then
           map (\<lambda>r. if as_id r = sha then r\<lparr>as_url := url, as_size := js_coalesce s (as_size r), as_status := ''pending'', as_desired := True,
             as_attempt := now\<rparr> else r) rows
         else rows @ [\<lparr>as_id = sha, as_url = url, as_size = s, as_status = ''pending'', as_verified = False, as_desired = True, as_attempt = now,
             as_success = None, as_error = None, as_path = None\<rparr>]) (sw_manifest w)\<rparr>)"

subsection \<open>Download\<close>

text \<open>An answer: no body, or a body that answers the range or not and arrives in full or breaks off.\<close>

datatype http_reply = NoBody string | Body bool string bool

record attempt_env =
  ae_reply :: "nat \<Rightarrow> http_reply"
  ae_read :: "nat option"
  ae_rename :: bool

definition size_equals :: "nat \<Rightarrow> jsval \<Rightarrow> bool" where
  "size_equals n sz \<longleftrightarrow> sz = JNum (Fin (of_nat n))"

definition reaches_size :: "nat \<Rightarrow> jsval \<Rightarrow> bool" where
  "reaches_size n sz \<longleftrightarrow> (case to_num sz of Fin r \<Rightarrow> r \<le> of_nat n | NegInf \<Rightarrow> True | _ \<Rightarrow> False)"

definition below_size :: "nat \<Rightarrow> jsval \<Rightarrow> bool" where
  \<comment> \<open>\<open>n < (sz || Infinity)\<close>\<close>
  "below_size n sz \<longleftrightarrow> \<not> truthy sz \<or> (case to_num sz of Fin r \<Rightarrow> of_nat n < r | PosInf \<Rightarrow> True | _ \<Rightarrow> False)"

definition part_name :: "string \<Rightarrow> string" where
  "part_name sha = sha @ ''.part''"

definition write_file :: "string \<Rightarrow> string \<Rightarrow> rat \<Rightarrow> sync_worker \<Rightarrow> sync_worker" where
  "write_file name bytes now w = w\<lparr>sw_files := AList.update name \<lparr>cf_bytes = bytes, cf_atime = now\<rparr> (sw_files w)\<rparr>"

definition drop_file :: "string \<Rightarrow> sync_worker \<Rightarrow> sync_worker" where
  "drop_file name w = w\<lparr>sw_files := AList.delete name (sw_files w)\<rparr>"

text \<open>What is left of an earlier attempt: where to start and which bytes the hash has seen.\<close>

definition resume_from :: "jsval \<Rightarrow> attempt_env \<Rightarrow> cached_file option \<Rightarrow> nat \<times> string" where
  "resume_from sz env part =
     (case part of None \<Rightarrow> (0, [])
      | Some f \<Rightarrow>
          (let n = length (cf_bytes f); seen = (case ae_read env of None \<Rightarrow> cf_bytes f | Some k \<Rightarrow> take k (cf_bytes f)) in
           if truthy sz \<and> reaches_size n sz then (n, seen)
           else if 0 < n then (if ae_read env = None then n else 0, seen)
           else (0, [])))"

definition verify_and_finalize :: "(string \<Rightarrow> string) \<Rightarrow> string \<Rightarrow> jsval \<Rightarrow> rat \<Rightarrow> attempt_env \<Rightarrow> string \<Rightarrow> sync_worker \<Rightarrow> string + sync_worker" where
  "verify_and_finalize digest sha sz now env hashed w =
     (if digest hashed \<noteq> sha then Inl ''sha256_mismatch''
      else case map_of (sw_files w) (part_name sha) of None \<Rightarrow> Inl ''ENOENT''
      | Some f \<Rightarrow>
          if truthy sz \<and> \<not> size_equals (length (cf_bytes f)) sz then Inl ''size_mismatch''
          else if \<not> ae_rename env then Inl ''rename''
          else Inr (write_file sha (cf_bytes f) now (drop_file (part_name sha) w)))"

text \<open>One attempt: an error, or the worker with the verified file; the flag says that its status has been recorded.\<close>

definition download_attempt ::
    "(string \<Rightarrow> string) \<Rightarrow> string \<Rightarrow> jsval \<Rightarrow> rat \<Rightarrow> attempt_env \<Rightarrow> sync_worker \<Rightarrow> (string \<times> sync_worker) + (bool \<times> sync_worker)" where
  "download_attempt digest sha sz now env w =
     (let part = map_of (sw_files w) (part_name sha); (start, seen) = resume_from sz env part;
          finish = (\<lambda>marked hashed w. case verify_and_finalize digest sha sz now env hashed w of Inl e \<Rightarrow> Inl (e, w) | Inr w' \<Rightarrow> Inr (marked, w'))
      in if below_size start sz then
        (case ae_reply env start of
           NoBody e \<Rightarrow> Inl (e, w)
         | Body ranged body whole \<Rightarrow>
             if 0 < start \<and> \<not> ranged then
               (let w1 = write_file (part_name sha) body now w in if \<not> whole then Inl (''aborted'', w1) else finish False body w1)
             else
               (let old = (if 0 < start then (case part of None \<Rightarrow> [] | Some f \<Rightarrow> cf_bytes f) else []);
                    w1 = write_file (part_name sha) (old @ body) now w
                in if \<not> whole then Inl (''aborted'', w1) else finish True (seen @ body) w1))
      else finish True seen w)"

record download_result =
  dl_ok :: bool
  dl_status :: "string option"
  dl_error :: "string option"
  dl_attempt :: nat

fun download_attempts ::
    "(string \<Rightarrow> string) \<Rightarrow> string \<Rightarrow> jsval \<Rightarrow> rat \<Rightarrow> nat \<Rightarrow> attempt_env list \<Rightarrow> sync_worker \<Rightarrow> download_result \<times> sync_worker" where
  "download_attempts digest sha sz now k [] w = (\<lparr>dl_ok = False, dl_status = Some ''failed'', dl_error = Some ''max_attempts'', dl_attempt = k\<rparr>, w)"
| "download_attempts digest sha sz now k (env # envs) w =
     (case download_attempt digest sha sz now env (mark_status sha ''downloading'' False None None None w) of
        Inr (marked, w') \<Rightarrow>
          (\<lparr>dl_ok = True, dl_status = Some ''ready'', dl_error = None, dl_attempt = Suc k\<rparr>,
            if marked then mark_status sha ''ready'' True (Some \<lfloor>now / 1000\<rfloor>) None (Some sha) w' else w')
      | Inl (e, w') \<Rightarrow>
          (let w' = drop_file (part_name sha) w' in
           if envs = [] then (\<lparr>dl_ok = False, dl_status = Some ''failed'', dl_error = Some e, dl_attempt = Suc k\<rparr>, mark_status sha ''failed'' False None (Some e) None w')
           else download_attempts digest sha sz now (Suc k) envs w'))"

record asset_item =
  ai_sha :: jsval
  ai_url :: jsval
  ai_size :: jsval

definition download_asset :: "(string \<Rightarrow> string) \<Rightarrow> rat \<Rightarrow> attempt_env \<times> attempt_env \<times> attempt_env \<Rightarrow> asset_item \<Rightarrow> sync_worker \<Rightarrow> download_result \<times> sync_worker" where
  "download_asset digest now envs item w =
     (let sha = to_lower (to_str (js_or (ai_sha item) (JStr []))) in
      if \<not> hex64 sha then (\<lparr>dl_ok = False, dl_status = None, dl_error = Some ''invalid_sha256'', dl_attempt = 0\<rparr>, w)
      else if \<not> truthy (ai_url item) then (\<lparr>dl_ok = False, dl_status = None, dl_error = Some ''missing_canonical_url'', dl_attempt = 0\<rparr>, w)
      else (let w = record_manifest \<lfloor>now / 1000\<rfloor> sha (ai_url item) (ai_size item) w in
        if (case map_of (sw_files w) sha of None \<Rightarrow> False | Some f \<Rightarrow> \<not> truthy (ai_size item) \<or> size_equals (length (cf_bytes f)) (ai_size item))
        then (\<lparr>dl_ok = True, dl_status = Some ''ready'', dl_error = None, dl_attempt = 0\<rparr>, mark_status sha ''ready'' True (Some \<lfloor>now / 1000\<rfloor>) None (Some sha) w)
        else (case envs of (a, b, c) \<Rightarrow> download_attempts digest sha (ai_size item) now 0 [a, b, c] w)))"

subsection \<open>Pruning and status\<close>

definition cache_size :: "sync_worker \<Rightarrow> nat" where
  "cache_size w = sum_list (map (\<lambda>(n, f). length (cf_bytes f)) (sw_files w))"

definition desired_shas :: "sync_worker \<Rightarrow> string list" where
  "desired_shas w = (case sw_manifest w of None \<Rightarrow> [] | Some rows \<Rightarrow> map as_id (filter as_desired rows))"

text \<open>The loop over the candidates; \<open>stuck\<close> names the files that cannot be removed.\<close>

fun prune_loop :: "(string \<Rightarrow> bool) \<Rightarrow> rat \<Rightarrow> (string \<times> cached_file) list \<Rightarrow> nat \<Rightarrow> nat \<Rightarrow> sync_worker \<Rightarrow> nat \<times> nat \<times> sync_worker" where
  "prune_loop stuck quota [] tot pruned w = (pruned, tot, w)"
| "prune_loop stuck quota ((n, f) # cs) tot pruned w =
     (if of_nat tot \<le> quota then (pruned, tot, w)
      else if stuck n then prune_loop stuck quota cs tot pruned w
      else prune_loop stuck quota cs (tot - length (cf_bytes f)) (Suc pruned) (drop_file n w))"

definition prune_cache :: "(string \<Rightarrow> bool) \<Rightarrow> rat \<Rightarrow> sync_worker \<Rightarrow> nat \<times> nat \<times> sync_worker" where
  "prune_cache stuck quota w =
     (if of_nat (cache_size w) \<le> quota then (0, cache_size w, w)
      else prune_loop stuck quota (sort_key (cf_atime \<circ> snd) (filter (\<lambda>(n, f). to_lower n \<notin> set (desired_shas w)) (sw_files w))) (cache_size w) 0 w)"

record cache_status =
  cs_sync :: string
  cs_size :: nat
  cs_count :: nat
  cs_ready :: nat
  cs_pending :: nat
  cs_downloading :: nat
  cs_failed :: nat

definition get_status :: "sync_worker \<Rightarrow> cache_status" where
  "get_status w =
     (let count = (\<lambda>s. case sw_manifest w of None \<Rightarrow> 0 | Some rows \<Rightarrow> length (filter (\<lambda>r. as_status r = s) rows)) in
      \<lparr>cs_sync = (if 0 < count ''failed'' then ''error'' else if 0 < count ''pending'' \<or> 0 < count ''downloading'' then ''sync'' else ''idle''),
        cs_size = cache_size w, cs_count = length (sw_files w), cs_ready = count ''ready'', cs_pending = count ''pending'',
        cs_downloading = count ''downloading'', cs_failed = count ''failed''\<rparr>)"

definition local_asset :: "jsval \<Rightarrow> sync_worker \<Rightarrow> string option" where
  "local_asset v w = (let sha = to_lower (to_str (js_or v (JStr []))) in
     if \<not> hex64 sha then None else if map_of (sw_files w) sha = None then None else Some sha)"

datatype sync_event =
    Download rat "attempt_env \<times> attempt_env \<times> attempt_env" asset_item
  | Prune "string \<Rightarrow> bool" rat
  | LeavePart string string rat

fun sync_step :: "(string \<Rightarrow> string) \<Rightarrow> sync_event \<Rightarrow> sync_worker \<Rightarrow> sync_worker" where
  \<comment> \<open>a process that dies leaves any part behind\<close>
  "sync_step digest (Download now envs item) w = snd (download_asset digest now envs item w)"
| "sync_step digest (Prune stuck quota) w = snd (snd (prune_cache stuck quota w))"
| "sync_step digest (LeavePart sha bytes now) w = write_file (part_name sha) bytes now w"

subsection \<open>What is in the cache is what its name says\<close>

definition good_cache :: "(string \<Rightarrow> string) \<Rightarrow> sync_worker \<Rightarrow> bool" where
  "good_cache digest w \<longleftrightarrow> distinct_keys (sw_files w) \<and> list_all (\<lambda>(n, f). hex64 n \<longrightarrow> digest (cf_bytes f) = n) (sw_files w)"

lemma good_cacheD: "good_cache digest w \<Longrightarrow> map_of (sw_files w) n = Some f \<Longrightarrow> hex64 n \<Longrightarrow> digest (cf_bytes f) = n"
  by (auto simp: good_cache_def list_all_iff dest: map_of_SomeD)

lemma sw_files_mark [simp]: "sw_files (mark_status sha st v s e q w) = sw_files w" "sw_files (record_manifest now sha url sz w) = sw_files w"
  by (simp_all add: mark_status_def record_manifest_def Let_def)

lemma good_cache_mark [simp]:
  "good_cache digest (mark_status sha st v s e q w) = good_cache digest w" "good_cache digest (record_manifest now sha url sz w) = good_cache digest w"
  by (simp_all add: good_cache_def)

lemma part_name_not_hex [simp]: "\<not> hex64 (part_name sha)"
  by (simp add: part_name_def hex64_def hex_char_def is_digit_def code_def)

lemma part_name_other [simp]: "part_name sha \<noteq> sha" "sha \<noteq> part_name sha"
  by (simp_all add: part_name_def)

lemma in_set_update: "x \<in> set (AList.update k v m) \<Longrightarrow> x = (k, v) \<or> x \<in> set m"
  by (induction m) (auto split: if_splits)

lemma delete_sub: "set (AList.delete k m) \<subseteq> set m"
  by (auto simp: AList.delete_eq)

lemma good_cache_write: "good_cache digest w \<Longrightarrow> (hex64 n \<Longrightarrow> digest b = n) \<Longrightarrow> good_cache digest (write_file n b now w)"
  by (auto simp: good_cache_def write_file_def list_all_iff distinct_keys_def distinct_update dest!: in_set_update)

lemma good_cache_drop: "good_cache digest w \<Longrightarrow> good_cache digest (drop_file n w)"
  using distinct_delete [of "sw_files w" n]
  by (auto simp: good_cache_def drop_file_def list_all_iff distinct_keys_def simp del: AList.delete_eq dest: subsetD [OF delete_sub])

lemma map_of_write [simp]: "map_of (sw_files (write_file n b now w)) m = (if m = n then Some \<lparr>cf_bytes = b, cf_atime = now\<rparr> else map_of (sw_files w) m)"
  by (simp add: write_file_def update_conv')

lemma map_of_drop [simp]: "map_of (sw_files (drop_file n w)) m = (if m = n then None else map_of (sw_files w) m)"
  by (simp add: drop_file_def delete_conv')

lemma resume_seen:
  "ae_read env = None \<Longrightarrow> resume_from sz env part = (start, seen) \<Longrightarrow>
   start = length seen \<and> seen = (case part of None \<Rightarrow> [] | Some f \<Rightarrow> cf_bytes f)"
  by (auto simp: resume_from_def Let_def split: option.splits if_splits)

lemma verified:
  assumes "verify_and_finalize digest sha sz now env hashed w = Inr w'"
  shows "digest hashed = sha" "\<exists>f. map_of (sw_files w) (part_name sha) = Some f \<and> w' = write_file sha (cf_bytes f) now (drop_file (part_name sha) w)"
  using assms by (auto simp: verify_and_finalize_def split: if_splits option.splits)

text \<open>A finished attempt has hashed the bytes that it renames; every other attempt changes the part alone.\<close>

lemma attempt_finished:
  assumes "download_attempt digest sha sz now env w = Inr (m, w')" "ae_read env = None"
  shows "\<exists>b w1. digest b = sha \<and> w' = write_file sha b now (drop_file (part_name sha) w1) \<and> (w1 = w \<or> (\<exists>c. w1 = write_file (part_name sha) c now w))"
proof -
  obtain start seen where r: "resume_from sz env (map_of (sw_files w) (part_name sha)) = (start, seen)" by fastforce
  note seen = resume_seen [OF assms(2) r]
  show ?thesis
  proof (cases "below_size start sz")
    case False
    with assms(1) r have "verify_and_finalize digest sha sz now env seen w = Inr w'"
      by (auto simp: download_attempt_def Let_def split: sum.splits)
    from verified [OF this] seen show ?thesis by auto
  next
    case True
    with assms(1) r obtain ranged body where b: "ae_reply env start = Body ranged body True"
      by (auto simp: download_attempt_def Let_def split: http_reply.splits if_splits)
    define bytes where "bytes = (if 0 < start \<and> \<not> ranged then body else seen @ body)"
    have "verify_and_finalize digest sha sz now env bytes (write_file (part_name sha) bytes now w) = Inr w'"
    proof (cases "0 < start \<and> \<not> ranged")
      case True
      with assms(1) r b \<open>below_size start sz\<close> show ?thesis by (auto simp: download_attempt_def Let_def bytes_def split: sum.splits)
    next
      case False
      have "seen = (if 0 < start then (case map_of (sw_files w) (part_name sha) of None \<Rightarrow> [] | Some f \<Rightarrow> cf_bytes f) else [])"
        using seen by auto
      with False assms(1) r b \<open>below_size start sz\<close> show ?thesis by (auto simp: download_attempt_def Let_def bytes_def split: sum.splits)
    qed
    from verified [OF this] show ?thesis by auto
  qed
qed

lemma attempt_failed:
  assumes "download_attempt digest sha sz now env w = Inl (e, w')"
  shows "w' = w \<or> (\<exists>c. w' = write_file (part_name sha) c now w)"
  using assms by (auto simp: download_attempt_def Let_def split: http_reply.splits if_splits sum.splits prod.splits)

lemma attempt_good:
  assumes "good_cache digest w" "ae_read env = None"
  shows "case download_attempt digest sha sz now env w of Inl (e, w') \<Rightarrow> good_cache digest w' | Inr (m, w') \<Rightarrow> good_cache digest w'"
proof (cases "download_attempt digest sha sz now env w")
  case (Inl x)
  obtain e w' where "x = (e, w')" by fastforce
  with attempt_failed [of digest sha sz now env w e w'] Inl assms(1) show ?thesis by (auto intro: good_cache_write)
next
  case (Inr x)
  obtain m w' where "x = (m, w')" by fastforce
  with attempt_finished [of digest sha sz now env w m w'] Inr assms show ?thesis by (auto intro!: good_cache_write good_cache_drop)
qed

lemma attempts_good:
  "good_cache digest w \<Longrightarrow> list_all (\<lambda>a. ae_read a = None) envs \<Longrightarrow> good_cache digest (snd (download_attempts digest sha sz now k envs w))"
proof (induction envs arbitrary: k w)
  case (Cons env envs)
  let ?w = "mark_status sha ''downloading'' False None None None w"
  have "good_cache digest ?w" "ae_read env = None" using Cons.prems by simp_all
  note a = attempt_good [OF this, of sha sz now]
  show ?case
  proof (cases "download_attempt digest sha sz now env ?w")
    case (Inl x)
    obtain e w' where x: "x = (e, w')" by fastforce
    with a Inl have "good_cache digest (drop_file (part_name sha) w')" by (simp add: good_cache_drop)
    with Cons.IH Cons.prems(2) Inl x show ?thesis by (simp add: Let_def)
  next
    case (Inr x)
    obtain m w' where "x = (m, w')" by fastforce
    with a Inr show ?thesis by simp
  qed
qed simp

lemma download_good:
  "good_cache digest w \<Longrightarrow> ae_read a = None \<Longrightarrow> ae_read b = None \<Longrightarrow> ae_read c = None \<Longrightarrow>
   good_cache digest (snd (download_asset digest now (a, b, c) item w))"
  using attempts_good [of digest "record_manifest \<lfloor>now / 1000\<rfloor> (to_lower (to_str (js_or (ai_sha item) (JStr [])))) (ai_url item) (ai_size item) w" "[a, b, c]"]
  unfolding download_asset_def Let_def by (auto simp del: download_attempts.simps)

lemma prune_loop_good: "good_cache digest w \<Longrightarrow> good_cache digest (snd (snd (prune_loop stuck q cs t n w)))"
  by (induction stuck q cs t n w rule: prune_loop.induct) (auto simp: good_cache_drop)

definition reads_well :: "sync_event \<Rightarrow> bool" where
  "reads_well e \<longleftrightarrow> (case e of Download now (a, b, c) item \<Rightarrow> ae_read a = None \<and> ae_read b = None \<and> ae_read c = None | _ \<Rightarrow> True)"

lemma good_sync_step: "good_cache digest w \<Longrightarrow> reads_well e \<Longrightarrow> good_cache digest (sync_step digest e w)"
  by (cases e) (auto simp: reads_well_def download_good prune_cache_def prune_loop_good intro!: good_cache_write split: prod.splits)

subsection \<open>Pruning\<close>

lemma cache_size_drop:
  assumes "distinct_keys (sw_files w)" "(n, f) \<in> set (sw_files w)"
  shows "cache_size (drop_file n w) = cache_size w - length (cf_bytes f)" "length (cf_bytes f) \<le> cache_size w"
proof -
  have "sum_list (map (\<lambda>(n, f). length (cf_bytes f)) m) = length (cf_bytes f) + sum_list (map (\<lambda>(n, f). length (cf_bytes f)) (AList.delete n m))"
    if "distinct (map fst m)" "(n, f) \<in> set m" for m
    using that
  proof (induction m)
    case (Cons x m)
    show ?case
    proof (cases "x = (n, f)")
      case True
      with Cons.prems(1) have "n \<notin> fst ` set m" by simp
      with True show ?thesis by (simp add: delete_absent del: AList.delete_eq)
    next
      case False
      with Cons.prems have "fst x \<noteq> n" by (metis fst_conv image_eqI insertE list.simps(15) list.simps(9) distinct.simps(2) set_map)
      with False Cons show ?thesis by (cases x) auto
    qed
  qed simp
  from this [of "sw_files w"] assms show "cache_size (drop_file n w) = cache_size w - length (cf_bytes f)" "length (cf_bytes f) \<le> cache_size w"
    by (simp_all add: cache_size_def drop_file_def distinct_keys_def)
qed

text \<open>The loop removes the candidates up to some point that are not stuck, and goes on until the quota holds.\<close>

definition without :: "string set \<Rightarrow> (string \<times> cached_file) list \<Rightarrow> (string \<times> cached_file) list" where
  "without S fs = filter (\<lambda>(n, f). n \<notin> S) fs"

lemma prune_loop_spec:
  assumes "distinct_keys (sw_files w)" "set cs \<subseteq> set (sw_files w)" "distinct (map fst cs)" "prune_loop stuck q cs (cache_size w) k w = (k', t, w')"
  shows "t = cache_size w' \<and> sw_manifest w' = sw_manifest w \<and>
    (\<exists>i. sw_files w' = without {n. \<not> stuck n \<and> n \<in> fst ` set (take i cs)} (sw_files w) \<and> (of_nat t \<le> q \<or> length cs \<le> i))"
  using assms
proof (induction cs arbitrary: w k)
  case Nil
  then show ?case by (auto simp: without_def intro!: exI [of _ 0])
next
  case (Cons c cs)
  obtain n f where c: "c = (n, f)" by fastforce
  show ?case
  proof (cases "of_nat (cache_size w) \<le> q")
    case True
    with Cons.prems(4) c show ?thesis by (auto simp: without_def intro!: exI [of _ 0])
  next
    case big: False
    show ?thesis
    proof (cases "stuck n")
      case True
      with big Cons.prems(4) c have "prune_loop stuck q cs (cache_size w) k w = (k', t, w')" by simp
      with Cons.IH [of w k] Cons.prems obtain i where "t = cache_size w'" "sw_manifest w' = sw_manifest w"
        "sw_files w' = without {n. \<not> stuck n \<and> n \<in> fst ` set (take i cs)} (sw_files w)" "of_nat t \<le> q \<or> length cs \<le> i" by auto
      with True c show ?thesis by (auto simp: without_def intro!: exI [of _ "Suc i"] filter_cong)
    next
      case False
      let ?w = "drop_file n w"
      have d: "distinct_keys (sw_files ?w)" using Cons.prems(1) distinct_delete [of "sw_files w" n] by (simp add: drop_file_def distinct_keys_def del: AList.delete_eq)
      have nf: "(n, f) \<in> set (sw_files w)" using Cons.prems(2) c by simp
      have cs: "set cs \<subseteq> set (sw_files ?w)" using Cons.prems(2,3) c by (force simp: drop_file_def AList.delete_eq)
      have "prune_loop stuck q cs (cache_size ?w) (Suc k) ?w = (k', t, w')"
        using big False Cons.prems(4) c cache_size_drop [OF Cons.prems(1) nf] by simp
      with Cons.IH [OF d cs] Cons.prems(3) obtain i where i: "t = cache_size w'" "sw_manifest w' = sw_manifest w"
        "sw_files w' = without {n. \<not> stuck n \<and> n \<in> fst ` set (take i cs)} (sw_files ?w)" "of_nat t \<le> q \<or> length cs \<le> i"
        by (auto simp: drop_file_def)
      have "sw_files w' = without {m. \<not> stuck m \<and> m \<in> fst ` set (take (Suc i) (c # cs))} (sw_files w)"
        using i(3) False c by (auto simp: without_def drop_file_def AList.delete_eq intro!: filter_cong)
      with i show ?thesis by (intro conjI exI [of _ "Suc i"]) auto
    qed
  qed
qed

text \<open>
  Pruning reaches_size the quota unless only desired assets and files that cannot be removed are left; it keeps every desired asset as it is
  and removes no file that was used later than one it could have removed instead. The size it reports is that of what remains.
\<close>

theorem pruning_keeps_desired:
  assumes "good_cache digest w" "prune_cache stuck quota w = (k, t, w')"
  shows "t = cache_size w' \<and>
    (of_nat t \<le> quota \<or> list_all (\<lambda>(n, f). to_lower n \<in> set (desired_shas w) \<or> stuck n) (sw_files w')) \<and>
    list_all (\<lambda>(n, f). to_lower n \<notin> set (desired_shas w) \<or> (n, f) \<in> set (sw_files w')) (sw_files w) \<and>
    list_all (\<lambda>(n, f). (n, f) \<in> set (sw_files w') \<or>
      list_all (\<lambda>(m, g). to_lower m \<in> set (desired_shas w) \<or> stuck m \<or> cf_atime f \<le> cf_atime g) (sw_files w')) (sw_files w)"
proof (cases "of_nat (cache_size w) \<le> quota")
  case True
  with assms(2) show ?thesis by (auto simp: prune_cache_def list_all_iff)
next
  case False
  define cs where "cs = sort_key (cf_atime \<circ> snd) (filter (\<lambda>(n, f). to_lower n \<notin> set (desired_shas w)) (sw_files w))"
  have in_cs: "(n, f) \<in> set cs \<longleftrightarrow> (n, f) \<in> set (sw_files w) \<and> to_lower n \<notin> set (desired_shas w)" for n f by (auto simp: cs_def)
  have dk: "distinct_keys (sw_files w)" using assms(1) by (simp add: good_cache_def)
  have dcs: "distinct (map fst cs)" "set cs \<subseteq> set (sw_files w)"
    using dk distinct_map_filter [of fst "sw_files w"] by (auto simp: cs_def distinct_keys_def distinct_map inj_on_def)
  have "prune_loop stuck quota cs (cache_size w) 0 w = (k, t, w')" using assms(2) False by (simp add: prune_cache_def cs_def)
  from prune_loop_spec [OF dk dcs(2,1) this] obtain i where i: "t = cache_size w'"
    "sw_files w' = without {n. \<not> stuck n \<and> n \<in> fst ` set (take i cs)} (sw_files w)" "of_nat t \<le> quota \<or> length cs \<le> i" by blast
  have key: "f = g" if "(n, f) \<in> set (sw_files w)" "(n, g) \<in> set (sw_files w)" for n f g
    using that dk by (metis distinct_keys_def eq_key_imp_eq_value)
  have gone: "(n, f) \<in> set (take i cs) \<and> \<not> stuck n" if "(n, f) \<in> set (sw_files w)" "(n, f) \<notin> set (sw_files w')" for n f
  proof -
    from that i(2) have "\<not> stuck n" "n \<in> fst ` set (take i cs)" by (auto simp: without_def)
    then obtain g where g: "(n, g) \<in> set (take i cs)" by auto
    with in_set_takeD [OF g] in_cs key that(1) have "g = f" by blast
    with g \<open>\<not> stuck n\<close> show ?thesis by simp
  qed
  have stay: "(n, f) \<in> set (sw_files w) \<and> (stuck n \<or> (n, f) \<notin> set (take i cs))" if "(n, f) \<in> set (sw_files w')" for n f
    using that i(2) by (force simp: without_def)
  have desired: "to_lower n \<notin> set (desired_shas w)" if "(n, f) \<in> set (take i cs)" for n f
    using in_set_takeD [OF that] in_cs by blast
  have later: "cf_atime f \<le> cf_atime g" if "(n, f) \<in> set (take i cs)" "(m, g) \<in> set cs" "(m, g) \<notin> set (take i cs)" for n f m g
  proof -
    from that(2,3) have b: "(m, g) \<in> set (drop i cs)" by (metis Un_iff append_take_drop_id set_append)
    have "sorted (map (cf_atime \<circ> snd) (take i cs @ drop i cs))" by (simp add: cs_def)
    then have "\<forall>x\<in>set (take i cs). \<forall>y\<in>set (drop i cs). (cf_atime \<circ> snd) x \<le> (cf_atime \<circ> snd) y"
      by (simp only: map_append sorted_append set_map ball_simps) simp
    with that(1) b show ?thesis by fastforce
  qed
  have "of_nat t \<le> quota \<or> list_all (\<lambda>(n, f). to_lower n \<in> set (desired_shas w) \<or> stuck n) (sw_files w')"
    using i(3) stay in_cs by (auto simp: list_all_iff) blast
  moreover have "list_all (\<lambda>(n, f). to_lower n \<notin> set (desired_shas w) \<or> (n, f) \<in> set (sw_files w')) (sw_files w)"
    using gone desired by (auto simp: list_all_iff)
  moreover have "list_all (\<lambda>(n, f). (n, f) \<in> set (sw_files w') \<or>
      list_all (\<lambda>(m, g). to_lower m \<in> set (desired_shas w) \<or> stuck m \<or> cf_atime f \<le> cf_atime g) (sw_files w')) (sw_files w)"
    unfolding list_all_iff using gone stay later in_cs by (auto split: prod.split) blast
  ultimately show ?thesis using i(1) by blast
qed

subsection \<open>Downloads\<close>

text \<open>C18: 
  Whatever was downloaded, aborted, left behind by a crash or pruned, a file of the cache whose name is a digest has that digest, and
  so has every asset the worker resolves.
\<close>

theorem cached_assets_authentic:
  assumes "create_sync_worker db quota [] = Some w" "list_all reads_well es"
  shows "list_all (\<lambda>(n, f). \<not> hex64 n \<or> digest (cf_bytes f) = n) (sw_files (run_events (sync_step digest) es w))"
proof -
  have "good_cache digest w" using assms(1) by (auto simp: create_sync_worker_def good_cache_def split: if_splits)
  then have "good_cache digest (run_events (sync_step digest) es w)"
    using assms(2) by (induction es arbitrary: w) (simp_all add: good_sync_step)
  then show ?thesis by (auto simp: good_cache_def list_all_iff)
qed

text \<open>A server that has the asset: it sends the rest from where it is asked to start, or all of it, or refuses a start beyond the end.\<close>

definition serves :: "string \<Rightarrow> attempt_env \<Rightarrow> bool" where
  "serves c env \<longleftrightarrow> ae_read env = None \<and> ae_rename env \<and>
     (\<forall>s. case ae_reply env s of NoBody e \<Rightarrow> length c < s | Body ranged body whole \<Rightarrow> whole \<and> body = (if ranged then drop s c else c))"

lemma clean_attempt:
  assumes "serves c env" "map_of (sw_files w) (part_name sha) = None" "digest c = sha" "\<not> truthy sz \<or> size_equals (length c) sz"
  shows "\<exists>m w'. download_attempt digest sha sz now env w = Inr (m, w') \<and> map_of (sw_files w') sha = Some \<lparr>cf_bytes = c, cf_atime = now\<rparr>"
proof -
  have below: "below_size 0 sz" using assms(4) by (cases "length c = 0") (auto simp: below_size_def size_equals_def)
  from assms(1) have "case ae_reply env 0 of NoBody e \<Rightarrow> length c < 0 | Body ranged body whole \<Rightarrow> whole \<and> body = (if ranged then drop 0 c else c)"
    unfolding serves_def by blast
  then obtain ranged where "ae_reply env 0 = Body ranged c True" by (cases "ae_reply env 0") auto
  with below assms show ?thesis
    by (auto simp: download_attempt_def resume_from_def Let_def verify_and_finalize_def serves_def)
qed

text \<open>C37: 
  An asset that its server has is in the cache after at most two attempts, whatever part an earlier run left behind: the first may
  trip over the part, the second starts afresh.
\<close>

theorem download_recovers:
  assumes "good_cache digest w" "to_lower (to_str (js_or (ai_sha item) (JStr []))) = sha" "hex64 sha" "truthy (ai_url item)"
    "digest c = sha" "\<not> truthy (ai_size item) \<or> size_equals (length c) (ai_size item)" "serves c a" "serves c b"
  shows "let (r, w') = download_asset digest now (a, b, z) item w in dl_ok r \<and> dl_attempt r \<le> 2 \<and>
    (case map_of (sw_files w') sha of None \<Rightarrow> False | Some f \<Rightarrow> digest (cf_bytes f) = sha)"
proof -
  let ?w = "record_manifest \<lfloor>now / 1000\<rfloor> sha (ai_url item) (ai_size item) w"
  let ?mark = "mark_status sha ''downloading'' False None None None"
  show ?thesis
  proof (cases "case map_of (sw_files w) sha of None \<Rightarrow> False | Some f \<Rightarrow> \<not> truthy (ai_size item) \<or> size_equals (length (cf_bytes f)) (ai_size item)")
    case True
    with assms(2-4) good_cacheD [OF assms(1) _ assms(3)] show ?thesis by (auto simp: download_asset_def Let_def split: option.splits)
  next
    case False
    then have d: "download_asset digest now (a, b, z) item w = download_attempts digest sha (ai_size item) now 0 [a, b, z] ?w"
      using assms(2-4) by (simp add: download_asset_def Let_def del: download_attempts.simps)
    show ?thesis
    proof (cases "download_attempt digest sha (ai_size item) now a (?mark ?w)")
      case (Inr x)
      obtain m w' where x: "x = (m, w')" by fastforce
      with attempt_finished [of digest sha "ai_size item" now a "?mark ?w" m w'] Inr assms(7)
      have "case map_of (sw_files w') sha of None \<Rightarrow> False | Some f \<Rightarrow> digest (cf_bytes f) = sha" by (auto simp: serves_def)
      with d Inr x show ?thesis by (simp add: Let_def)
    next
      case (Inl x)
      obtain e w1 where x: "x = (e, w1)" by fastforce
      let ?v = "drop_file (part_name sha) w1"
      have "map_of (sw_files (?mark ?v)) (part_name sha) = None" by simp
      from clean_attempt [where digest = digest and now = now, OF assms(8) this assms(5,6)] obtain m w' where "download_attempt digest sha (ai_size item) now b (?mark ?v) = Inr (m, w')"
        "map_of (sw_files w') sha = Some \<lparr>cf_bytes = c, cf_atime = now\<rparr>" by blast
      with d Inl x assms(5) show ?thesis by (simp add: Let_def)
    qed
  qed
qed

subsection \<open>A run\<close>

definition demo_digest :: "string \<Rightarrow> string" where
  "demo_digest s = replicate 64 (if s = ''hello'' then CHR ''a'' else CHR ''b'')"

definition demo_server :: "string \<Rightarrow> attempt_env" where
  "demo_server c = \<lparr>ae_reply = (\<lambda>s. if length c < s then NoBody ''HTTP 416'' else Body True (drop s c) True), ae_read = None, ae_rename = True\<rparr>"

definition demo_item :: asset_item where
  "demo_item = \<lparr>ai_sha = JStr (replicate 64 (CHR ''A'')), ai_url = JStr ''https://x/y'', ai_size = JNum (Fin 5)\<rparr>"

definition demo_worker :: sync_worker where
  "demo_worker = \<lparr>sw_files = [(part_name (replicate 64 (CHR ''a'')), \<lparr>cf_bytes = ''hexxxxx'', cf_atime = 1\<rparr>)], sw_manifest = None, sw_quota = 9\<rparr>"

lemma demo_serves: "serves c (demo_server c)"
  by (simp add: serves_def demo_server_def)

theorem download_recovers_witness:
  "let (r, w') = download_asset demo_digest 5000 (demo_server ''hello'', demo_server ''hello'', demo_server []) demo_item demo_worker
   in dl_ok r \<and> dl_attempt r \<le> 2 \<and> (case map_of (sw_files w') (replicate 64 (CHR ''a'')) of None \<Rightarrow> False | Some f \<Rightarrow>
     demo_digest (cf_bytes f) = replicate 64 (CHR ''a''))"
proof (rule download_recovers [OF _ _ _ _ _ _ demo_serves demo_serves])
  show "good_cache demo_digest demo_worker" by code_simp
  show "to_lower (to_str (js_or (ai_sha demo_item) (JStr []))) = replicate 64 (CHR ''a'')" by code_simp
  show "hex64 (replicate 64 (CHR ''a''))" by code_simp
  show "truthy (ai_url demo_item)" by code_simp
  show "demo_digest ''hello'' = replicate 64 (CHR ''a'')" by code_simp
  show "\<not> truthy (ai_size demo_item) \<or> size_equals (length ''hello'') (ai_size demo_item)" by code_simp
qed

definition demo_start :: sync_worker where
  "demo_start = \<lparr>sw_files = [], sw_manifest = None, sw_quota = 9\<rparr>"

theorem cached_assets_authentic_witness:
  "list_all (\<lambda>(n, f). \<not> hex64 n \<or> demo_digest (cf_bytes f) = n) (sw_files (run_events (sync_step demo_digest)
     [LeavePart (replicate 64 (CHR ''a'')) ''he'' 1, Download 5000 (demo_server ''hello'', demo_server [], demo_server []) demo_item] demo_start)) \<and>
   map fst (sw_files (run_events (sync_step demo_digest)
     [LeavePart (replicate 64 (CHR ''a'')) ''he'' 1, Download 5000 (demo_server ''hello'', demo_server [], demo_server []) demo_item] demo_start)) =
     [replicate 64 (CHR ''a'')]"
proof
  have c: "create_sync_worker False 9 [] = Some demo_start" by (simp add: create_sync_worker_def demo_start_def)
  show "list_all (\<lambda>(n, f). \<not> hex64 n \<or> demo_digest (cf_bytes f) = n) (sw_files (run_events (sync_step demo_digest)
     [LeavePart (replicate 64 (CHR ''a'')) ''he'' 1, Download 5000 (demo_server ''hello'', demo_server [], demo_server []) demo_item] demo_start))"
    by (rule cached_assets_authentic [OF c]) (simp add: reads_well_def demo_server_def)
  show "map fst (sw_files (run_events (sync_step demo_digest)
     [LeavePart (replicate 64 (CHR ''a'')) ''he'' 1, Download 5000 (demo_server ''hello'', demo_server [], demo_server []) demo_item] demo_start)) =
     [replicate 64 (CHR ''a'')]"
    by code_simp
qed

definition demo_full :: sync_worker where
  "demo_full = \<lparr>sw_files = [(''p.part'', \<lparr>cf_bytes = ''1234'', cf_atime = 7\<rparr>), (''q.part'', \<lparr>cf_bytes = ''123456'', cf_atime = 3\<rparr>)],
     sw_manifest = Some [], sw_quota = 5\<rparr>"

theorem pruning_keeps_desired_witness:
  "4 = cache_size (drop_file ''q.part'' demo_full) \<and>
    (of_nat 4 \<le> (5 :: rat) \<or> list_all (\<lambda>(n, f). to_lower n \<in> set (desired_shas demo_full) \<or> False) (sw_files (drop_file ''q.part'' demo_full))) \<and>
    list_all (\<lambda>(n, f). to_lower n \<notin> set (desired_shas demo_full) \<or> (n, f) \<in> set (sw_files (drop_file ''q.part'' demo_full))) (sw_files demo_full) \<and>
    list_all (\<lambda>(n, f). (n, f) \<in> set (sw_files (drop_file ''q.part'' demo_full)) \<or>
      list_all (\<lambda>(m, g). to_lower m \<in> set (desired_shas demo_full) \<or> False \<or> cf_atime f \<le> cf_atime g) (sw_files (drop_file ''q.part'' demo_full)))
      (sw_files demo_full)"
proof (rule pruning_keeps_desired [where digest = demo_digest and stuck = "\<lambda>n. False" and k = 1])
  show "good_cache demo_digest demo_full" by code_simp
  show "prune_cache (\<lambda>n. False) 5 demo_full = (1, 4, drop_file ''q.part'' demo_full)" by code_simp
qed

text \<open>Without a manifest no asset counts as desired: pruning takes verified assets that are wanted.\<close>

lemma pruning_without_manifest: "sw_manifest w = None \<Longrightarrow> desired_shas w = []"
  by (simp add: desired_shas_def)

text \<open>A resumed download whose server ignores the range leaves the status at downloading.\<close>

lemma restarted_download_not_marked:
  "let whole = \<lparr>ae_reply = (\<lambda>s. Body False ''hello'' True), ae_read = None, ae_rename = True\<rparr>;
     (r, w) = download_asset demo_digest 5000 (whole, whole, whole) demo_item (write_file (part_name (replicate 64 (CHR ''a''))) ''he'' 1
       (demo_start\<lparr>sw_manifest := Some []\<rparr>))
   in dl_ok r \<and> cs_sync (get_status w) = ''sync'' \<and> cs_downloading (get_status w) = 1"
  by code_simp

end
