(* ===== verification/NodeRegistry.thy ===== *)
theory NodeRegistry
  imports Prelude Machines ContentVisibility
begin

text \<open>
  Room nodes, the boxes that cache content in a classroom (\<open>server/lib/node-registry.js\<close>): who may connect as one, which
  workspace it belongs to, what it may cache, its heartbeats, and the requests to fill and to purge its cache.

  Tables are lists of rows; the tables of \<open>ContentVisibility\<close> say who may see a content. Where a content is placed, the
  clock and the comparison of identifiers in the language of the host are arguments.
\<close>

subsection \<open>Who is a node\<close>

record cache_config =
  cc_enabled :: bool
  cc_node :: jsval
  cc_token :: jsval
  cc_workspace :: jsval
  cc_walls :: jsval
  cc_room :: jsval

definition node_protocol :: "jsval \<Rightarrow> int" where
  "node_protocol v =
     (if is_nullish v \<or> v = JStr [] then 0
      else case num_int (to_num v) of None \<Rightarrow> 0 | Some n \<Rightarrow> if \<bar>n\<bar> > max_safe \<or> n < 0 \<or> n > 255 then 0 else n)"

definition text_value :: "jsval \<Rightarrow> string" where
  "text_value v = to_str (js_or v (JStr []))"

definition node_token_matches :: "jsval \<Rightarrow> jsval \<Rightarrow> bool" where
  "node_token_matches given expected \<longleftrightarrow> text_value expected \<noteq> [] \<and> text_value given \<noteq> [] \<and> text_value expected = text_value given"

definition node_auth_ok :: "cache_config \<Rightarrow> jsval \<Rightarrow> bool" where
  "node_auth_ok cc handshake \<longleftrightarrow>
     (let expected = text_of (cc_node cc) in expected = [] \<or> text_of (fld handshake ''node_id'') = expected) \<and>
     node_token_matches (fld handshake ''token'') (cc_token cc)"

definition node_http_auth_ok :: "cache_config \<Rightarrow> jsval \<Rightarrow> bool" where
  "node_http_auth_ok cc header \<longleftrightarrow> node_token_matches header (cc_token cc)"

subsection \<open>The workspace of a node\<close>

record managed_node =
  mn_id :: string
  mn_name :: jsval
  mn_type :: jsval
  mn_room :: jsval
  mn_workspace :: "string option"
  mn_beat :: int
  mn_version :: jsval
  mn_disk :: jsval
  mn_cache :: jsval
  mn_sync :: jsval
  mn_audio :: jsval
  mn_network :: jsval
  mn_telemetry :: jsval
  mn_created :: int

record beat_history =
  bh_node :: string
  bh_ts :: int
  bh_displays :: string

record node_db =
  nb_nodes :: "managed_node list"
  nb_history :: "beat_history list"
  nb_walls :: "(string \<times> string option) list"

record node_scope =
  ns_node :: jsval
  ns_workspace :: jsval
  ns_walls :: "jsval option"

definition node_of :: "string \<Rightarrow> node_db \<Rightarrow> managed_node option" where
  "node_of n db = find (\<lambda>r. mn_id r = n) (nb_nodes db)"

definition bound_workspace :: "string \<Rightarrow> node_db \<Rightarrow> string" where
  "bound_workspace n db = (if n = [] then [] else case node_of n db of None \<Rightarrow> []
     | Some r \<Rightarrow> (case mn_workspace r of None \<Rightarrow> [] | Some w \<Rightarrow> trim w))"

definition wall_ids :: "jsval \<Rightarrow> string list" where
  "wall_ids v = dedup (filter (\<lambda>s. s \<noteq> []) (map (\<lambda>x. trim (to_str x)) (filter truthy (array_items v))))"

definition walls_workspace :: "string list \<Rightarrow> node_db \<Rightarrow> string option" where
  \<comment> \<open>\<open>None\<close> when the walls do not agree on one workspace, the empty text without walls\<close>
  "walls_workspace ids db =
     (if ids = [] then Some []
      else (let rows = filter (\<lambda>(w, ws). w \<in> set ids) (nb_walls db) in
        if length rows \<noteq> length ids \<or> list_ex (\<lambda>(w, ws). \<not> filled ws) rows then None
        else case dedup (map (\<lambda>(w, ws). trim (the ws)) rows) of [x] \<Rightarrow> Some x | _ \<Rightarrow> None))"

definition node_workspace_ids :: "cache_config \<Rightarrow> node_scope \<Rightarrow> node_db \<Rightarrow> string list" where
  "node_workspace_ids cc sc db =
     (let configured = text_of (cc_node cc); n = trim (to_str (js_or (ns_node sc) (JStr configured))) in
      if configured \<noteq> [] \<and> n \<noteq> [] \<and> n \<noteq> configured then []
      else (let explicit = text_of (js_or (ns_workspace sc) (cc_workspace cc)); bound = bound_workspace n db in
        case walls_workspace (wall_ids (case ns_walls sc of None \<Rightarrow> cc_walls cc | Some v \<Rightarrow> v)) db of
          None \<Rightarrow> []
        | Some wall \<Rightarrow>
            if explicit \<noteq> [] then (if wall \<noteq> [] \<and> wall \<noteq> explicit then [] else [explicit])
            else if bound \<noteq> [] \<and> wall \<noteq> [] \<and> bound \<noteq> wall then []
            else (let resolved = (if bound \<noteq> [] then bound else wall) in if resolved = [] then [] else [resolved])))"

text \<open>The scope of a content check: the configuration of the server, and what the caller names of it.\<close>

definition content_scope :: "cache_config \<Rightarrow> node_scope \<Rightarrow> node_scope" where
  "content_scope cc sc = \<lparr>ns_node = js_or (ns_node sc) (cc_node cc), ns_workspace = js_or (ns_workspace sc) (cc_workspace cc),
     ns_walls = Some (case ns_walls sc of Some v \<Rightarrow> js_or v (cc_walls cc) | None \<Rightarrow> cc_walls cc)\<rparr>"

definition node_can_access_content :: "cache_config \<Rightarrow> library_tables \<Rightarrow> content_row option \<Rightarrow> node_scope \<Rightarrow> node_db \<Rightarrow> bool" where
  "node_can_access_content cc lib c sc db \<longleftrightarrow>
     (case c of None \<Rightarrow> False
      | Some r \<Rightarrow> \<not> cr_archived r \<and> list_ex (visibility_allows lib r) (node_workspace_ids cc (content_scope cc sc) db))"

subsection \<open>Heartbeats\<close>

definition limited_text :: "nat \<Rightarrow> jsval \<Rightarrow> jsval" where
  "limited_text n v = (if is_nullish v then JNull else JStr (take n (to_str v)))"

definition limited_number :: "jsval \<Rightarrow> jsval" where
  "limited_number v = (case to_num v of Fin r \<Rightarrow> if 0 \<le> r then JNum (Fin r) else JNull | _ \<Rightarrow> JNull)"

definition bool_or_null :: "jsval \<Rightarrow> jsval" where
  "bool_or_null v = (if is_bool v then v else JNull)"

definition normalize_transfer :: "jsval \<Rightarrow> jsval" where
  "normalize_transfer v = (if \<not> is_object v then JNull else JObj
     [(''content_id'', limited_text 128 (fld v ''content_id'')),
      (''bytes_downloaded'', limited_number (js_coalesce (fld v ''bytes_downloaded'') (fld v ''bytes''))),
      (''total_bytes'', limited_number (fld v ''total_bytes'')), (''instantaneous_mbps'', limited_number (fld v ''instantaneous_mbps'')),
      (''rolling_average_mbps'', limited_number (js_coalesce (fld v ''rolling_average_mbps'') (fld v ''average_mbps''))),
      (''elapsed_ms'', limited_number (fld v ''elapsed_ms'')), (''eta_seconds'', limited_number (fld v ''eta_seconds'')),
      (''waiting_players'', limited_number (fld v ''waiting_players'')), (''origin_category'', limited_text 32 (fld v ''origin_category'')),
      (''retries'', limited_number (fld v ''retries'')), (''at'', limited_number (fld v ''at''))])"

definition normalize_lan_test :: "jsval \<Rightarrow> jsval" where
  "normalize_lan_test v = (if \<not> is_object v then JNull else JObj
     [(''ok'', JBool (fld v ''ok'' = JBool True)), (''at'', limited_number (fld v ''at'')), (''bytes'', limited_number (fld v ''bytes'')),
      (''elapsed_ms'', limited_number (fld v ''elapsed_ms'')), (''ttfb_ms'', limited_number (fld v ''ttfb_ms'')), (''mbps'', limited_number (fld v ''mbps'')),
      (''status'', limited_text 32 (fld v ''status'')), (''degraded'', bool_or_null (fld v ''degraded'')),
      (''degraded_reason'', limited_text 128 (fld v ''degraded_reason'')), (''error'', limited_text 128 (fld v ''error''))])"

definition numbers_of :: "string list \<Rightarrow> jsval \<Rightarrow> (string \<times> jsval) list" where
  "numbers_of ks v = map (\<lambda>k. (k, limited_number (fld v k))) ks"

definition normalize_cache_report :: "jsval \<Rightarrow> jsval" where
  "normalize_cache_report v = JObj
     ([(''current_content_id'', limited_text 128 (fld v ''current_content_id'')), (''current_transfer'', normalize_transfer (fld v ''current_transfer''))]
      @ numbers_of [''cache_size'', ''file_count'', ''manifest_count'', ''cached_manifest_count'', ''missing_manifest_count'', ''downloading'', ''queued''] v
      @ [(''sync_status'', limited_text 32 (fld v ''sync_status''))]
      @ numbers_of [''cache_hits'', ''cache_misses'', ''fill_failures'', ''timeout_count'', ''checksum_failures'', ''disk_write_failures''] v
      @ [(''last_successful_fill'', normalize_transfer (fld v ''last_successful_fill'')), (''last_failure_reason'', limited_text 256 (fld v ''last_failure_reason'')),
         (''last_failure_type'', limited_text 64 (fld v ''last_failure_type'')), (''origin_category'', limited_text 32 (fld v ''origin_category''))])"

definition normalize_node_telemetry :: "jsval \<Rightarrow> jsval" where
  "normalize_node_telemetry payload =
     (let p = (if is_object payload then payload else JObj []); cache = (if is_object (fld p ''cache'') then fld p ''cache'' else JObj []) in JObj
      ([(''agent_uptime_sec'', limited_number (fld p ''agent_uptime_sec'')), (''kiosk_uptime_sec'', limited_number (fld p ''kiosk_uptime_sec'')),
        (''player_version'', limited_text 128 (fld p ''player_version'')), (''kiosk_version'', limited_text 128 (fld p ''kiosk_version'')),
        (''build_hash'', limited_text 128 (fld p ''build_hash''))]
       @ numbers_of [''configuration_schema_version'', ''cache_protocol_version''] p
       @ [(''cache_health'', limited_text 32 (fld p ''cache_health'')), (''current_asset_readiness'', limited_text 32 (fld p ''current_asset_readiness'')),
          (''current_renderer'', limited_text 64 (fld p ''current_renderer'')), (''audio_track_present'', bool_or_null (fld p ''audio_track_present'')),
          (''audio_codec'', limited_text 64 (fld p ''audio_codec'')), (''last_successful_command'', limited_text 128 (fld p ''last_successful_command'')),
          (''last_command_error'', limited_text 256 (fld p ''last_command_error'')),
          (''display_mapping'', JArr (map (limited_text 128) (take 16 (array_items (fld p ''display_mapping''))))),
          (''lan_health_test'', normalize_lan_test (fld p ''lan_health_test'')), (''cache'', normalize_cache_report cache)]))"

definition value_or_null :: "jsval \<Rightarrow> jsval" where
  "value_or_null v = js_or v JNull"

definition finite_or_null :: "jsval \<Rightarrow> jsval" where
  \<comment> \<open>\<open>Number.isFinite(v) ? v : null\<close>\<close>
  "finite_or_null v = (case v of JNum (Fin r) \<Rightarrow> v | _ \<Rightarrow> JNull)"

definition beat_node :: "cache_config \<Rightarrow> int \<Rightarrow> string \<Rightarrow> string option \<Rightarrow> jsval \<Rightarrow> managed_node" where
  "beat_node cc now n ws p = \<lparr>mn_id = n, mn_name = js_or (fld p ''node_name'') (JStr n), mn_type = js_or (fld p ''node_type'') (JStr ''p3''),
     mn_room = value_or_null (cc_room cc), mn_workspace = ws, mn_beat = now, mn_version = value_or_null (fld p ''software_version''),
     mn_disk = finite_or_null (fld p ''free_disk''), mn_cache = finite_or_null (fld p ''cache_size''), mn_sync = js_or (fld p ''sync_status'') (JStr ''idle''),
     mn_audio = value_or_null (fld p ''audio_endpoint''), mn_network = (if truthy (fld p ''network'') then json_clean (fld p ''network'') else JNull),
     mn_telemetry = normalize_node_telemetry p, mn_created = now\<rparr>"

definition upsert_node :: "managed_node \<Rightarrow> managed_node list \<Rightarrow> managed_node list" where
  "upsert_node r rows =
     (if list_ex (\<lambda>x. mn_id x = mn_id r) rows then
        map (\<lambda>x. if mn_id x = mn_id r then r\<lparr>mn_name := mn_name x, mn_room := js_coalesce (mn_room r) (mn_room x),
          mn_workspace := (if mn_workspace r = None then mn_workspace x else mn_workspace r), mn_created := mn_created x\<rparr> else x) rows
      else rows @ [r])"

definition record_node_beat :: "cache_config \<Rightarrow> int \<Rightarrow> string \<Rightarrow> jsval \<Rightarrow> node_db \<Rightarrow> bool \<times> node_db" where
  "record_node_beat cc now n payload db =
     (if n = [] then (False, db)
      else (let ids = node_workspace_ids cc \<lparr>ns_node = JStr n, ns_workspace = cc_workspace cc, ns_walls = Some (cc_walls cc)\<rparr> db;
                ws = (case ids of [] \<Rightarrow> None | w # _ \<Rightarrow> Some w); p = js_or payload (JObj []);
                shown = fld p ''active_displays'';
                entry = \<lparr>bh_node = n, bh_ts = now, bh_displays = (if is_array shown then to_str shown else text_value shown)\<rparr>
            in (True, db\<lparr>nb_nodes := upsert_node (beat_node cc now n ws p) (nb_nodes db),
                 nb_history := filter (\<lambda>h. now - 604800 \<le> bh_ts h) (nb_history db @ [entry])\<rparr>)))"

subsection \<open>What a node may cache\<close>

record checksum =
  ck_asset :: jsval
  ck_generation :: jsval
  ck_sha :: jsval
  ck_size :: jsval
  ck_computed :: jsval

record asset_source =
  sr_row :: content_row
  sr_path :: "string option"
  sr_size :: jsval
  sr_mime :: jsval
  sr_processing :: jsval
  sr_version :: jsval
  sr_created :: jsval
  sr_updated :: jsval
  sr_checksum :: "checksum option"

record manifest_item =
  it_asset :: jsval
  it_content :: string
  it_generation :: jsnum
  it_sha :: jsval
  it_size :: jsval

definition is_video :: "asset_source \<Rightarrow> bool" where
  "is_video r \<longleftrightarrow> starts_with (text_value (sr_mime r)) ''video/''"

definition checksum_field :: "(checksum \<Rightarrow> jsval) \<Rightarrow> asset_source \<Rightarrow> jsval" where
  "checksum_field f r = (case sr_checksum r of None \<Rightarrow> JNull | Some c \<Rightarrow> f c)"

definition num_or_zero :: "jsval \<Rightarrow> jsnum" where
  "num_or_zero v = (if num_truthy (to_num v) then to_num v else Fin 0)"

definition source_time :: "asset_source \<Rightarrow> jsnum" where
  "source_time r = num_or_zero (js_or (js_or (sr_updated r) (sr_created r)) (checksum_field ck_computed r))"

fun num_less :: "jsnum \<Rightarrow> jsnum \<Rightarrow> bool" where
  "num_less (Fin a) (Fin b) = (a < b)"
| "num_less NegInf (Fin _) = True"
| "num_less NegInf PosInf = True"
| "num_less (Fin _) PosInf = True"
| "num_less _ _ = False"

text \<open>Videos first, then the latest, then by identifier; \<open>le\<close> is the comparison of texts of the host.\<close>

definition source_before :: "(string \<Rightarrow> string \<Rightarrow> bool) \<Rightarrow> asset_source \<Rightarrow> asset_source \<Rightarrow> bool" where
  "source_before le a b \<longleftrightarrow>
     (if is_video a \<noteq> is_video b then is_video a
      else if source_time a \<noteq> source_time b then num_less (source_time b) (source_time a)
      else le (cr_id (sr_row a)) (cr_id (sr_row b)))"

fun insert_source :: "(string \<Rightarrow> string \<Rightarrow> bool) \<Rightarrow> asset_source \<Rightarrow> asset_source list \<Rightarrow> asset_source list" where
  "insert_source le x [] = [x]"
| "insert_source le x (y # ys) = (if source_before le x y then x # y # ys else y # insert_source le x ys)"

definition sort_sources :: "(string \<Rightarrow> string \<Rightarrow> bool) \<Rightarrow> asset_source list \<Rightarrow> asset_source list" where
  "sort_sources le xs = foldr (insert_source le) xs []"

definition at_least_one :: "jsnum \<Rightarrow> jsnum" where
  \<comment> \<open>\<open>Math.max(1, v || 1)\<close>\<close>
  "at_least_one n = (if \<not> num_truthy n then Fin 1 else case n of Fin r \<Rightarrow> Fin (max 1 r) | NegInf \<Rightarrow> Fin 1 | _ \<Rightarrow> n)"

definition current_generation :: "asset_source \<Rightarrow> bool" where
  "current_generation r \<longleftrightarrow> num_eq (to_num (checksum_field ck_generation r)) (at_least_one (to_num (sr_version r)))"

definition item_of :: "asset_source \<Rightarrow> manifest_item" where
  "item_of r = \<lparr>it_asset = js_or (checksum_field ck_asset r) (JStr (cr_id (sr_row r))), it_content = cr_id (sr_row r),
     it_generation = at_least_one (to_num (checksum_field ck_generation r)), it_sha = checksum_field ck_sha r,
     it_size = js_or (js_or (checksum_field ck_size r) (sr_size r)) JNull\<rparr>"

record manifest_options =
  mo_scope :: node_scope
  mo_unscoped :: bool
  mo_queue :: bool

text \<open>One row: left out, left out with its digest ordered, or in the manifest.\<close>

definition manifest_row :: "library_tables \<Rightarrow> (string \<Rightarrow> string list) \<Rightarrow> string list \<Rightarrow> asset_source \<Rightarrow> (string option + manifest_item)" where
  "manifest_row lib placed workspaces r =
     (if is_video r \<and> text_value (sr_processing r) \<noteq> ''ready'' then Inl None
      else if workspaces \<noteq> [] \<and> \<not> list_ex (\<lambda>w. visibility_allows lib (sr_row r) w \<or> can_serve_in_workspace lib placed (sr_row r) w) workspaces then Inl None
      else if \<not> hex64 (to_lower (text_value (checksum_field ck_sha r))) then Inl (Some (cr_id (sr_row r)))
      else if \<not> current_generation r then Inl (Some (cr_id (sr_row r)))
      else Inr (item_of r))"

definition with_file :: "asset_source list \<Rightarrow> asset_source list" where
  "with_file rows = filter (\<lambda>r. filled (sr_path r)) rows"

definition build_content_manifest ::
    "cache_config \<Rightarrow> (string \<Rightarrow> string \<Rightarrow> bool) \<Rightarrow> library_tables \<Rightarrow> (string \<Rightarrow> string list) \<Rightarrow> asset_source list \<Rightarrow> manifest_options \<Rightarrow> node_db \<Rightarrow> string + manifest_item list \<times> string list" where
  \<comment> \<open>the error, or the items and the contents whose digest is ordered\<close>
  "build_content_manifest cc le lib placed sources mo db =
     (let workspaces = node_workspace_ids cc (mo_scope mo) db in
      if workspaces = [] \<and> \<not> mo_unscoped mo then Inl ''content manifest workspace scope is unavailable''
      else (let results = map (manifest_row lib placed workspaces) (sort_sources le (with_file sources)) in
        Inr (concat (map (\<lambda>r. case r of Inl _ \<Rightarrow> [] | Inr i \<Rightarrow> [i]) results),
             if mo_queue mo then concat (map (\<lambda>r. case r of Inl (Some c) \<Rightarrow> [c] | _ \<Rightarrow> []) results) else [])))"

datatype manifest_payload = Envelope "manifest_item list" int | PlainList "manifest_item list"

definition manifest_payload_for ::
    "cache_config \<Rightarrow> (string \<Rightarrow> string \<Rightarrow> bool) \<Rightarrow> library_tables \<Rightarrow> (string \<Rightarrow> string list) \<Rightarrow> asset_source list \<Rightarrow> manifest_options \<Rightarrow> int \<Rightarrow> jsval \<Rightarrow> node_db \<Rightarrow> string + manifest_payload" where
  "manifest_payload_for cc le lib placed sources mo now protocol db =
     (case build_content_manifest cc le lib placed sources mo db of Inl e \<Rightarrow> Inl e
      | Inr (items, q) \<Rightarrow> Inr (if 2 \<le> node_protocol protocol then Envelope items now else PlainList items))"

subsection \<open>Filling a cache\<close>

datatype prewarm_reply = NotRequested string | Requested string string manifest_item

text \<open>\<open>!(n > 0)\<close> and \<open>!(n \<ge> 1)\<close> differ from \<open>n \<le> 0\<close> and \<open>n < 1\<close> on \<open>NaN\<close>, which passes.\<close>

definition at_most :: "jsnum \<Rightarrow> jsnum \<Rightarrow> bool" where
  "at_most a b \<longleftrightarrow> num_less a b \<or> num_eq a b"

record prewarm_request =
  pr_content :: jsval
  pr_item :: "manifest_item option"
  pr_unscoped :: bool
  pr_owned :: bool
  pr_socket :: bool

definition emit_content_prewarm :: "cache_config \<Rightarrow> library_tables \<Rightarrow> asset_source list \<Rightarrow> prewarm_request \<Rightarrow> node_db \<Rightarrow> prewarm_reply" where
  "emit_content_prewarm cc lib sources rq db =
     (let cid = to_str (js_or (js_or (pr_content rq) (case pr_item rq of None \<Rightarrow> JNull | Some i \<Rightarrow> JStr (it_content i))) (JStr [])) in
      if \<not> cc_enabled cc \<or> cid = [] then NotRequested ''cache_disabled''
      else case pr_item rq of None \<Rightarrow> NotRequested ''cache_disabled''
      | Some i \<Rightarrow>
        if \<not> hex64 (to_lower (text_value (it_sha i))) \<or> at_most (to_num (it_size i)) (Fin 0) \<or> num_less (it_generation i) (Fin 1)
        then NotRequested ''manifest_unavailable''
        else if \<not> pr_socket rq then NotRequested ''socket_unavailable''
        else (let n = to_str (js_or (cc_node cc) (JStr ''classroom-1-p3''));
                  scope = \<lparr>ns_node = JStr n, ns_workspace = cc_workspace cc, ns_walls = Some (cc_walls cc)\<rparr>;
                  row = find (\<lambda>r. cr_id (sr_row r) = cid) sources in
          if pr_unscoped rq then Requested n cid i
          else case row of None \<Rightarrow> NotRequested ''content_not_ready''
          | Some r \<Rightarrow>
            if is_video r \<and> text_value (sr_processing r) \<noteq> ''ready'' then NotRequested ''content_not_ready''
            else if \<not> (pr_owned rq \<and> list_ex (visibility_allows lib (sr_row r)) (node_workspace_ids cc scope db))
                 \<and> \<not> node_can_access_content cc lib (Some (sr_row r)) scope db then NotRequested ''not_assigned_to_node''
            else Requested n cid i))"

definition request_content_prewarm ::
    "cache_config \<Rightarrow> (string \<Rightarrow> string \<Rightarrow> bool) \<Rightarrow> library_tables \<Rightarrow> (string \<Rightarrow> string list) \<Rightarrow> asset_source list \<Rightarrow> (string \<times> string) list \<Rightarrow> jsval \<Rightarrow> jsval list \<Rightarrow> bool \<Rightarrow> bool \<Rightarrow> node_db \<Rightarrow> prewarm_reply" where
  "request_content_prewarm cc le lib placed sources cells content devices unscoped socket db =
     (let ids = dedup (map to_str (filter truthy devices)); cid = text_value content; walls = array_items (cc_walls cc) in
      if \<not> cc_enabled cc \<or> cid = [] \<or> ids = [] \<or> walls = [] then NotRequested ''cache_disabled''
      else if \<not> list_ex (\<lambda>(w, d). d \<in> set ids \<and> JStr w \<in> set walls) cells then NotRequested ''targets_not_cached''
      else case build_content_manifest cc le lib placed sources
          \<lparr>mo_scope = \<lparr>ns_node = cc_node cc, ns_workspace = cc_workspace cc, ns_walls = Some (cc_walls cc)\<rparr>, mo_unscoped = unscoped, mo_queue = True\<rparr> db of
        Inl e \<Rightarrow> NotRequested ''manifest_pending''
      | Inr (items, q) \<Rightarrow> (case find (\<lambda>i. it_content i = cid) items of None \<Rightarrow> NotRequested ''manifest_pending''
          | Some i \<Rightarrow> emit_content_prewarm cc lib sources \<lparr>pr_content = JUndef, pr_item = Some i, pr_unscoped = unscoped, pr_owned = False, pr_socket = socket\<rparr> db))"

definition prewarm_uploaded :: "cache_config \<Rightarrow> library_tables \<Rightarrow> asset_source list \<Rightarrow> jsval \<Rightarrow> manifest_item option \<Rightarrow> bool \<Rightarrow> bool \<Rightarrow> bool \<Rightarrow> node_db \<Rightarrow> prewarm_reply" where
  \<comment> \<open>the item is what the digest of the file gives\<close>
  "prewarm_uploaded cc lib sources content item unscoped owned socket db =
     (if \<not> cc_enabled cc \<or> text_value content = [] then NotRequested ''cache_disabled''
      else case item of None \<Rightarrow> NotRequested ''manifest_unavailable''
      | Some i \<Rightarrow> emit_content_prewarm cc lib sources \<lparr>pr_content = JUndef, pr_item = Some i, pr_unscoped = unscoped, pr_owned = owned, pr_socket = socket\<rparr> db)"

subsection \<open>Purging caches\<close>

record node_socket =
  sk_id :: string
  sk_connected :: bool
  sk_node :: jsval
  sk_protocol :: jsval

definition live_node_socket :: "node_socket list \<Rightarrow> string \<Rightarrow> node_socket option" where
  "live_node_socket sockets n = find (\<lambda>s. sk_connected s \<and> text_value (sk_node s) = n) (rev sockets)"

datatype purge_answer = PurgeTimeout | PurgeError string | PurgeResponses jsval

record purge_result =
  pu_node :: string
  pu_requested :: bool
  pu_acknowledged :: bool
  pu_purged :: bool
  pu_offline :: bool
  pu_unsupported :: bool

definition purge_confirmed :: "jsval \<Rightarrow> bool" where
  "purge_confirmed responses \<longleftrightarrow>
     (let r = (if is_array responses then (case array_items responses of [] \<Rightarrow> JUndef | x # _ \<Rightarrow> x) else responses) in
      fld r ''ok'' = JBool True \<and> fld r ''purged'' = JBool True \<and> fld r ''absent_verified'' = JBool True)"

definition purge_node :: "node_socket list \<Rightarrow> (string \<Rightarrow> purge_answer) \<Rightarrow> string \<Rightarrow> purge_result" where
  "purge_node sockets answer n =
     (case live_node_socket sockets n of
        None \<Rightarrow> \<lparr>pu_node = n, pu_requested = False, pu_acknowledged = False, pu_purged = False, pu_offline = True, pu_unsupported = False\<rparr>
      | Some s \<Rightarrow>
          if node_protocol (sk_protocol s) < 2 then
            \<lparr>pu_node = n, pu_requested = False, pu_acknowledged = False, pu_purged = False, pu_offline = False, pu_unsupported = True\<rparr>
          else (case answer (sk_id s) of
              PurgeResponses v \<Rightarrow> \<lparr>pu_node = n, pu_requested = True, pu_acknowledged = True, pu_purged = purge_confirmed v, pu_offline = False, pu_unsupported = False\<rparr>
            | _ \<Rightarrow> \<lparr>pu_node = n, pu_requested = True, pu_acknowledged = False, pu_purged = False, pu_offline = False, pu_unsupported = False\<rparr>))"

record purge_report =
  pp_requested :: bool
  pp_reason :: "string option"
  pp_nodes :: "purge_result list"

definition emit_content_purge :: "cache_config \<Rightarrow> node_socket list option \<Rightarrow> (string \<Rightarrow> purge_answer) \<Rightarrow> jsval \<Rightarrow> jsval list option \<Rightarrow> purge_report" where
  "emit_content_purge cc sockets answer content nodes =
     (if \<not> cc_enabled cc \<or> text_value content = [] then \<lparr>pp_requested = False, pp_reason = Some ''cache_disabled'', pp_nodes = []\<rparr>
      else case sockets of None \<Rightarrow> \<lparr>pp_requested = False, pp_reason = Some ''socket_unavailable'', pp_nodes = []\<rparr>
      | Some ss \<Rightarrow>
        (let ids = dedup (map to_str (filter truthy (case nodes of Some l \<Rightarrow> l | None \<Rightarrow> [js_or (cc_node cc) (JStr ''classroom-1-p3'')])));
             rs = map (purge_node ss answer) ids; asked = list_ex pu_requested rs
         in \<lparr>pp_requested = asked, pp_reason = (if asked then None else if list_ex pu_unsupported rs then Some ''protocol_unsupported'' else Some ''offline''),
              pp_nodes = rs\<rparr>))"

subsection \<open>A node stays in its workspace\<close>

lemma one_workspace: "length (node_workspace_ids cc sc db) \<le> 1"
  by (simp add: node_workspace_ids_def Let_def split: option.split)

lemma single_workspace: "node_workspace_ids cc sc db \<noteq> [] \<Longrightarrow> \<exists>w. node_workspace_ids cc sc db = [w]"
  using one_workspace [of cc sc db] by (cases "node_workspace_ids cc sc db") auto

lemma set_insert_source: "set (insert_source le x ys) = insert x (set ys)"
  by (induction ys) auto

lemma set_sort_sources [simp]: "set (sort_sources le xs) = set xs"
  by (induction xs) (simp_all add: sort_sources_def set_insert_source)

lemma manifest_row_item:
  assumes "manifest_row lib placed [w] r = Inr i"
  shows "i = item_of r \<and> (is_video r \<longrightarrow> text_value (sr_processing r) = ''ready'') \<and> visibility_allows lib (sr_row r) w \<and>
    hex64 (to_lower (text_value (checksum_field ck_sha r))) \<and> current_generation r"
  using assms by (auto simp: manifest_row_def can_serve_in_workspace_def split: if_splits)

lemma list_ex_single: "list_ex P xs \<Longrightarrow> xs = [x] \<Longrightarrow> P x"
  by simp

text \<open>C28: 
  A manifest sent to a node is one of its workspace: its tables and its configuration agree on one, and every item is a
  content that workspace may see, stored as a file, ready if it is a video, with a digest of its current generation. If they do not
  agree there is no manifest.
\<close>

theorem manifest_stays_in_workspace:
  assumes "build_content_manifest cc le lib placed sources mo db = Inr (items, queued)" "\<not> mo_unscoped mo"
  shows "case node_workspace_ids cc (mo_scope mo) db of
      [w] \<Rightarrow> list_all (\<lambda>i. list_ex (\<lambda>r. i = item_of r \<and> filled (sr_path r) \<and> visibility_allows lib (sr_row r) w \<and>
        (\<not> is_video r \<or> text_value (sr_processing r) = ''ready'') \<and> hex64 (to_lower (text_value (it_sha i))) \<and> current_generation r) sources) items
    | _ \<Rightarrow> False"
proof -
  from assms have "node_workspace_ids cc (mo_scope mo) db \<noteq> []" by (auto simp: build_content_manifest_def Let_def)
  then obtain w where w: "node_workspace_ids cc (mo_scope mo) db = [w]" using single_workspace by blast
  have "list_ex (\<lambda>r. i = item_of r \<and> filled (sr_path r) \<and> visibility_allows lib (sr_row r) w \<and>
      (\<not> is_video r \<or> text_value (sr_processing r) = ''ready'') \<and> hex64 (to_lower (text_value (it_sha i))) \<and> current_generation r) sources"
    if "i \<in> set items" for i
  proof -
    from that assms(1) w obtain r where "r \<in> set sources" "filled (sr_path r)" "manifest_row lib placed [w] r = Inr i"
      by (auto simp: build_content_manifest_def Let_def with_file_def split: sum.splits if_splits)
    with manifest_row_item [of lib placed w r i] show ?thesis by (auto simp: list_ex_iff item_of_def)
  qed
  then show ?thesis by (simp add: w list_all_iff)
qed

text \<open>The requests to fill a cache obey the same rule.\<close>

theorem prewarm_stays_in_workspace:
  assumes "emit_content_prewarm cc lib sources rq db = Requested n cid i" "\<not> pr_unscoped rq"
  shows "list_ex (\<lambda>r. cr_id (sr_row r) = cid \<and> (\<not> is_video r \<or> text_value (sr_processing r) = ''ready'') \<and>
    list_ex (visibility_allows lib (sr_row r)) (node_workspace_ids cc
      (content_scope cc \<lparr>ns_node = JStr n, ns_workspace = cc_workspace cc, ns_walls = Some (cc_walls cc)\<rparr>) db @
      node_workspace_ids cc \<lparr>ns_node = JStr n, ns_workspace = cc_workspace cc, ns_walls = Some (cc_walls cc)\<rparr> db)) sources"
  using assms
  by (auto simp: emit_content_prewarm_def Let_def node_can_access_content_def list_ex_iff find_Some_iff split: option.splits if_splits
      dest!: find_Some_iff [THEN iffD1] intro: nth_mem)

subsection \<open>The binding of a node\<close>

datatype node_event = Beat int string jsval | WallsChange "(string \<times> string option) list"

fun node_step :: "cache_config \<Rightarrow> node_event \<Rightarrow> node_db \<Rightarrow> node_db" where
  "node_step cc (Beat now n payload) db = snd (record_node_beat cc now n payload db)"
| "node_step cc (WallsChange walls) db = db\<lparr>nb_walls := walls\<rparr>"

definition bound_to :: "string \<Rightarrow> string \<Rightarrow> node_db \<Rightarrow> bool" where
  "bound_to n w db \<longleftrightarrow> (case node_of n db of None \<Rightarrow> False | Some r \<Rightarrow> mn_workspace r = Some w)"

lemma node_of_upsert:
  "node_of n (db\<lparr>nb_nodes := upsert_node r (nb_nodes db), nb_history := h\<rparr>) =
     (if mn_id r = n then (case node_of n db of None \<Rightarrow> Some r
        | Some x \<Rightarrow> Some (r\<lparr>mn_name := mn_name x, mn_room := js_coalesce (mn_room r) (mn_room x),
            mn_workspace := (if mn_workspace r = None then mn_workspace x else mn_workspace r), mn_created := mn_created x\<rparr>))
      else node_of n db)"
proof -
  have upd: "find (\<lambda>x. mn_id x = n) (map (\<lambda>x. if mn_id x = mn_id r then f x else x) rows) =
      (if mn_id r = n then map_option f (find (\<lambda>x. mn_id x = n) rows) else find (\<lambda>x. mn_id x = n) rows)"
    if "\<And>x. mn_id (f x) = mn_id r" for f :: "managed_node \<Rightarrow> managed_node" and rows
    using that by (induction rows) auto
  have new: "find (\<lambda>x. mn_id x = n) (rows @ [r]) = (if mn_id r = n then Some r else find (\<lambda>x. mn_id x = n) rows)"
    if "\<not> list_ex (\<lambda>x. mn_id x = mn_id r) rows" for rows
    using that by (induction rows) auto
  have old: "find (\<lambda>x. mn_id x = n) rows = None \<longleftrightarrow> \<not> list_ex (\<lambda>x. mn_id x = n) rows" for rows
    by (induction rows) auto
  define f where "f x = r\<lparr>mn_name := mn_name x, mn_room := js_coalesce (mn_room r) (mn_room x),
    mn_workspace := (if mn_workspace r = None then mn_workspace x else mn_workspace r), mn_created := mn_created x\<rparr>" for x :: managed_node
  have f: "mn_id (f x) = mn_id r" for x :: managed_node by (simp add: f_def)
  have u: "upsert_node r rows = (if list_ex (\<lambda>x. mn_id x = mn_id r) rows then map (\<lambda>x. if mn_id x = mn_id r then f x else x) rows else rows @ [r])" for rows :: "managed_node list"
    by (simp add: upsert_node_def f_def)
  show ?thesis
    unfolding node_of_def f_def [symmetric]
    by (cases "list_ex (\<lambda>x. mn_id x = mn_id r) (nb_nodes db)") (auto simp: u upd [OF f] new old option.case_eq_if map_option_case)
qed

lemma bound_ids:
  assumes "text_of (cc_workspace cc) = []" "bound_to n w db" "w = trim w" "w \<noteq> []" "n = trim n" "n \<noteq> []"
  shows "set (node_workspace_ids cc \<lparr>ns_node = JStr n, ns_workspace = cc_workspace cc, ns_walls = Some v\<rparr> db) \<subseteq> {w}"
proof -
  have "bound_workspace n db = w" using assms(2-6) by (auto simp: bound_to_def bound_workspace_def split: option.splits)
  moreover have "trim (to_str (js_or (JStr n) d)) = n" for d using assms(5,6) by (simp add: js_or_def)
  moreover have "text_of (js_or (cc_workspace cc) (cc_workspace cc)) = []" using assms(1) by (simp add: js_or_def)
  ultimately show ?thesis using assms(4) by (auto simp: node_workspace_ids_def Let_def split: option.splits if_splits)
qed

lemma bound_step:
  assumes "text_of (cc_workspace cc) = []" "bound_to n w db" "w = trim w" "w \<noteq> []" "n = trim n" "n \<noteq> []"
  shows "bound_to n w (node_step cc e db)"
proof (cases e)
  case (Beat now m payload)
  show ?thesis
  proof (cases "m = n")
    case True
    note ids = bound_ids [OF assms, of "cc_walls cc"]
    define ids where "ids = node_workspace_ids cc \<lparr>ns_node = JStr n, ns_workspace = cc_workspace cc, ns_walls = Some (cc_walls cc)\<rparr> db"
    have "ids = [] \<or> (\<exists>t. ids = w # t)" using ids by (cases ids) (auto simp: ids_def)
    with assms(2,6) True Beat show ?thesis
      by (auto simp: bound_to_def record_node_beat_def Let_def node_of_upsert beat_node_def ids_def [symmetric] split: option.splits)
  next
    case False
    with assms(2) Beat show ?thesis by (auto simp: bound_to_def record_node_beat_def Let_def node_of_upsert beat_node_def)
  qed
next
  case (WallsChange walls)
  with assms(2) show ?thesis by (simp add: bound_to_def node_of_def)
qed

text \<open>C35: 
  A node that is bound to a workspace stays bound to it, whatever heartbeats come and however the walls change, unless the
  configuration of the deployment names a workspace.
\<close>

theorem node_binding_kept:
  assumes "text_of (cc_workspace cc) = []" "bound_to n w db" "w = trim w" "w \<noteq> []" "n = trim n" "n \<noteq> []"
  shows "bound_to n w (run_events (node_step cc) es db)"
  using assms(2)
proof (induction es arbitrary: db)
  case (Cons e es)
  from Cons.IH [OF bound_step [OF assms(1) Cons.prems assms(3-6)]] show ?case by simp
qed simp

subsection \<open>A run\<close>

definition demo_cache :: cache_config where
  "demo_cache = \<lparr>cc_enabled = True, cc_node = JStr ''n1'', cc_token = JStr ''s'', cc_workspace = JNull, cc_walls = JArr [JStr ''wall''], cc_room = JNull\<rparr>"

definition demo_nodes :: node_db where
  "demo_nodes = \<lparr>nb_nodes = [], nb_history = [], nb_walls = [(''wall'', Some ''ws'')]\<rparr>"

definition demo_library :: library_tables where
  "demo_library = \<lparr>lb_content = [], lb_workspaces = [], lb_templates = []\<rparr>"

definition demo_source :: "string \<Rightarrow> string \<Rightarrow> asset_source" where
  "demo_source c ws = \<lparr>sr_row = \<lparr>cr_id = c, cr_user = None, cr_workspace = Some ws, cr_access = None, cr_scope = None, cr_archived = False\<rparr>,
     sr_path = Some ''f.mp4'', sr_size = jint 9, sr_mime = JStr ''video/mp4'', sr_processing = JStr ''ready'', sr_version = jint 2, sr_created = jint 1,
     sr_updated = JNull, sr_checksum = Some \<lparr>ck_asset = JNull, ck_generation = jint 2, ck_sha = JStr (replicate 64 (CHR ''a'')), ck_size = jint 9,
       ck_computed = JNull\<rparr>\<rparr>"

definition demo_options :: manifest_options where
  "demo_options = \<lparr>mo_scope = \<lparr>ns_node = JStr ''n1'', ns_workspace = JUndef, ns_walls = None\<rparr>, mo_unscoped = False, mo_queue = True\<rparr>"

definition demo_items :: "manifest_item list" where
  "demo_items = [item_of (demo_source ''c1'' ''ws'')]"

lemma demo_manifest:
  "build_content_manifest demo_cache (\<lambda>a b. a \<le> b) demo_library (\<lambda>c. []) [demo_source ''c2'' ''other'', demo_source ''c1'' ''ws''] demo_options demo_nodes =
     Inr (demo_items, [])"
  by code_simp

theorem manifest_stays_in_workspace_witness:
  "case node_workspace_ids demo_cache (mo_scope demo_options) demo_nodes of
      [w] \<Rightarrow> list_all (\<lambda>i. list_ex (\<lambda>r. i = item_of r \<and> filled (sr_path r) \<and> visibility_allows demo_library (sr_row r) w \<and>
        (\<not> is_video r \<or> text_value (sr_processing r) = ''ready'') \<and> hex64 (to_lower (text_value (it_sha i))) \<and> current_generation r)
        [demo_source ''c2'' ''other'', demo_source ''c1'' ''ws'']) demo_items
    | _ \<Rightarrow> False"
  by (rule manifest_stays_in_workspace [OF demo_manifest]) (simp add: demo_options_def)

definition demo_bound :: node_db where
  "demo_bound = snd (record_node_beat demo_cache 5 ''n1'' JNull demo_nodes)"

theorem node_binding_kept_witness:
  "bound_to ''n1'' ''ws'' (run_events (node_step demo_cache) [WallsChange [(''wall'', Some ''other'')], Beat 9 ''n1'' JNull, WallsChange [], Beat 12 ''n1'' JNull] demo_bound)"
proof (rule node_binding_kept)
  show "text_of (cc_workspace demo_cache) = []" by code_simp
  show "bound_to ''n1'' ''ws'' demo_bound" by code_simp
  show "''ws'' = trim ''ws''" by code_simp
  show "''n1'' = trim ''n1''" by code_simp
qed simp_all

theorem prewarm_stays_in_workspace_witness:
  "list_ex (\<lambda>r. cr_id (sr_row r) = ''c1'' \<and> (\<not> is_video r \<or> text_value (sr_processing r) = ''ready'') \<and>
    list_ex (visibility_allows demo_library (sr_row r)) (node_workspace_ids demo_cache
      (content_scope demo_cache \<lparr>ns_node = JStr ''n1'', ns_workspace = cc_workspace demo_cache, ns_walls = Some (cc_walls demo_cache)\<rparr>) demo_nodes @
      node_workspace_ids demo_cache \<lparr>ns_node = JStr ''n1'', ns_workspace = cc_workspace demo_cache, ns_walls = Some (cc_walls demo_cache)\<rparr> demo_nodes))
    [demo_source ''c1'' ''ws'']"
proof (rule prewarm_stays_in_workspace)
  show "emit_content_prewarm demo_cache demo_library [demo_source ''c1'' ''ws''] \<lparr>pr_content = JUndef, pr_item = Some (item_of (demo_source ''c1'' ''ws'')),
      pr_unscoped = False, pr_owned = False, pr_socket = True\<rparr> demo_nodes = Requested ''n1'' ''c1'' (item_of (demo_source ''c1'' ''ws''))"
    by code_simp
qed simp

text \<open>A measurement that is \<open>null\<close> is recorded as 0: \<open>Number(null)\<close> is a number.\<close>

lemma null_measure_becomes_zero: "limited_number JNull = JNum (Fin 0)" "limited_number JUndef = JNull"
  by (simp_all add: limited_number_def)

text \<open>The node of a token and an identifier cannot be taken over without the token.\<close>

lemma node_needs_token: "node_auth_ok cc handshake \<Longrightarrow> text_value (cc_token cc) \<noteq> [] \<and> text_value (fld handshake ''token'') = text_value (cc_token cc)"
  by (simp add: node_auth_ok_def node_token_matches_def)

end
