(* ===== verification/Spec2Isabelle.thy ===== *)
theory Spec2Isabelle
  imports TransportProps CommandQueue CommandModelProps LiveMirror AudioRecovery RateLimit Tenancy SsrfPolicy
    StateTypes Scheduler Heartbeat LiveProduction Whiteboard WallGeometry BroadcastTargets RendererAudio MediaJobs ScreenShare
    DeviceSessionProps BroadcastDelivery TopologyProps ContentVisibility MediaProgress Compositor SyncWorker NodeRegistry
begin

text \<open>
  A verification library for the media-control server: a Node server that drives the displays of a room (video walls, a
  podium, live program receivers) for operators at a console.

  \<^bold>\<open>How the program is put together.\<close> Displays and consoles hold sockets to the server. A display enrols, registers and
  sends heartbeats and state reports (\<open>server/ws/deviceSocket.js\<close>); a sweep marks silent ones offline
  (\<open>server/services/heartbeat.js\<close>). A console sends an intent for a group of displays; the transport coordinator
  (\<open>server/lib/transport-transaction.js\<close>) turns it into one command per display, persists each in the command log
  (\<open>server/lib/command-model.js\<close>), emits or queues it (\<open>server/lib/command-queue.js\<close>) and lets at most one display
  sound. The audio policies (\<open>server/lib/audio-ownership.js\<close>) say which; a change of owner mutes everyone first
  (\<open>audio-ownership-transaction.js\<close>, \<open>audio-owner-recovery.js\<close>) and each display enforces its policy by itself
  (\<open>server/player/audio-policy.js\<close>). Broadcasts resolve typed targets over walls and groups (\<open>broadcast-targets.js\<close>,
  \<open>wall-layout.js\<close>, \<open>wall-geometry.js\<close>) and are followed to the confirmation of each player
  (\<open>broadcast-delivery.js\<close>). Which displays form a wall or a group is kept in tables under the guards of
  \<open>topology-repair.js\<close> and changed by the routes over groups, walls and displays. Screen shares, whiteboards, schedules, live production and media jobs are services beside
  these; tenancy, permissions,
  content visibility, the rate limiters and the SSRF policy guard the entries. A renderer follows what it plays and confirms a command by
  the progress of the picture. The live program mixes the
  classroom camera with content in OBS (\<open>fixed-compositor-controller.js\<close>). A room node caches the content of its
  workspace (\<open>node-registry.js\<close>, \<open>sync-worker.js\<close>).

  \<^bold>\<open>Theories and the code they model.\<close>
  \<^item> \<open>Prelude\<close>: JavaScript values (\<open>jsval\<close>, numbers with \<open>NaN\<close> and the infinities), truthiness, conversions between
    values, numbers and strings, JSON text, the ordered \<open>Map\<close> as an association list, and the lemmas on chains of checks.
    \<open>Stores\<close>: the contract of stores with a time to live. \<open>Machines\<close>: components that take one event at a time.
  \<^item> \<open>DeviceContract\<close>: \<open>server/player/device-contract.js\<close>, command envelopes and their validation.
  \<^item> \<open>Transport\<close>, \<open>TransportProps\<close>, \<open>LiveMirror\<close>: \<open>transport-transaction.js\<close>, the dispatch with its reservation,
    idempotency and per-display delivery, and the mirror to the live program.
  \<^item> \<open>CommandModel\<close>, \<open>CommandModelProps\<close>, \<open>StateTypes\<close>: \<open>command-model.js\<close>, the command rows, acknowledgements,
    aggregates, retries and display states; the query of \<open>server/ws/dashboardSocket.js\<close> that reads them back.
  \<^item> \<open>CommandQueue\<close>: \<open>command-queue.js\<close>.
  \<^item> \<open>AudioOwnership\<close>, \<open>AudioFence\<close>, \<open>AudioRecovery\<close>, \<open>RendererAudio\<close>: \<open>audio-ownership.js\<close>,
    \<open>audio-ownership-transaction.js\<close>, \<open>audio-owner-recovery.js\<close>, \<open>server/player/audio-policy.js\<close>.
  \<^item> \<open>Heartbeat\<close>, \<open>DeviceSession\<close>, \<open>DeviceSessionProps\<close>: \<open>program-receiver-policy.js\<close>, \<open>services/heartbeat.js\<close>,
    \<open>device-enrollment.js\<close>, the registration, heartbeat, synchronisation, viewport and disconnection handlers of
    \<open>deviceSocket.js\<close> and the claim of a pairing code in \<open>server.js\<close>.
  \<^item> \<open>BroadcastTargets\<close>, \<open>WallLayout\<close>, \<open>WallGeometry\<close>, \<open>BroadcastDelivery\<close>: \<open>broadcast-targets.js\<close>, \<open>wall-layout.js\<close>,
    \<open>wall-geometry.js\<close>, \<open>broadcast-delivery.js\<close>.
  \<^item> \<open>Topology\<close>, \<open>TopologyRoutes\<close>, \<open>TopologyProps\<close>: the guards and the analysis of \<open>topology-repair.js\<close>, the statements
    they watch, \<open>topology-membership.js\<close>, \<open>wall-playlists.js\<close> and the requests of \<open>routes/device-groups.js\<close>,
    \<open>routes/video-walls.js\<close> and \<open>routes/devices.js\<close>. \<open>sound_topology\<close> is what the guards keep, \<open>core_categories\<close> the part
    of the analysis that follows from it.
  \<^item> \<open>ScreenShare\<close>, \<open>Whiteboard\<close>, \<open>Scheduler\<close>, \<open>LiveProduction\<close>, \<open>MediaJobs\<close>: \<open>ws/screen-share-signaling.js\<close>,
    \<open>services/whiteboard-state.js\<close>, \<open>services/scheduler.js\<close>, \<open>live-production-state.js\<close>, \<open>media-jobs.js\<close>.
  \<^item> \<open>Tenancy\<close>, \<open>ContentVisibility\<close>, \<open>RateLimit\<close>, \<open>SsrfPolicy\<close>: \<open>tenancy.js\<close> and \<open>permissions.js\<close>, \<open>content-visibility.js\<close> and
    \<open>public-content-access.js\<close>, \<open>socket-rate-limit.js\<close> and \<open>login-rate-limit.js\<close>, \<open>ssrf-policy.js\<close>.
  \<^item> \<open>MediaProgress\<close>: \<open>server/player/media-progress.js\<close> and \<open>services/renderer-progress.js\<close>, the errors, the clock and
    the frames of what a renderer plays, and what the server keeps of them.
  \<^item> \<open>Compositor\<close>: \<open>fixed-compositor-controller.js\<close>, \<open>live-program-receiver.js\<close> and the requests of \<open>obs-websocket-v5.js\<close>, the
    live program of camera and content. Programs run against surroundings that answer each call; \<open>triple\<close> reasons on the log
    of calls, \<open>stores\<close> on what is stored.
  \<^item> \<open>NodeRegistry\<close>, \<open>SyncWorker\<close>: \<open>server/lib/node-registry.js\<close> and the \<open>sync-worker.js\<close> of the room appliances, the nodes
    of a classroom, what they may cache and how they fetch it.

  \<^bold>\<open>Conventions.\<close> A class or closure with state is a record, its operations are functions from state to state; a handler
  also returns what it emits, and fails with \<open>Inl\<close> or \<open>None\<close> where the code throws. A table is a list of row records, a
  \<open>Map\<close> an association list in insertion order. Values that come from outside are \<open>jsval\<close>, so that each type check of the
  code is a branch of the model. The clock, random identifiers, the date parser, permission checks of other modules and what
  a handler awaits are arguments. An \<open>await\<close> between two accesses to shared state splits a handler into the steps of a
  machine, and the properties quantify over all interleavings; where the code is synchronous a handler is one step.

  \<^bold>\<open>Interfaces.\<close> \<open>js_map\<close> (laws of the ordered map, interpreted by association lists), \<open>expiring_store\<close> (interpreted by the
  command queue), \<open>command_factory\<close> (what the coordinator relies on in the command contract, interpreted by
  \<open>create_command\<close>), \<open>audio_fence\<close> (what a recovery relies on, interpreted by the fence over sockets) and \<open>machine\<close> (an
  invariant kept by every step, interpreted by the media jobs, the renderer audio controller, the screen share signalling,
  the displays, the broadcast deliveries, the topology, the registry of progress reports and the compositor).

  \<^bold>\<open>What the lemmas show.\<close> For each component a well-formedness invariant and its preservation by every operation; then
  what the component promises: one display sounds (dispatch, policies, fence, recovery, renderer), commands stay in their
  workspace and are sent once, settled rows stay settled, revisions never go back, identities of displays cannot be taken
  over, leases are exclusive, every queue drains and every deadline settles, bounds of the limiters, round trips of layouts,
  strokes and schedules, and the agreement of both sides of a contract (server and renderer policies, commands and their
  validator, access checks and enumerations). Each property with a hypothesis has a witness on a concrete run.

  \<^bold>\<open>Bounds and fuel.\<close> Loops are structural recursions or folds; draining the job queue takes fuel, and the theorem on it
  shows that more fuel than the attempts left always suffices. Numbers are exact: integers and rationals for the doubles of the
  code, with \<open>NaN\<close> and the infinities, without the rounding of doubles. Strings are lists of characters; their lengths count
  characters, the same as UTF-16 units for the texts of \<open>Char\<close>.

  \<^bold>\<open>Not modelled.\<close> The pages of the console and the player (DOM), translations, HTTP routes that only parse requests and
  run SQL, migrations, integrations with external programs (FFmpeg, LibreOffice, Nextcloud, PeerTube, OBS, language models,
  mail), the edge camera service and the room appliances beyond their asset cache: they are effects on the environment of the modelled core. Of
  \<open>deviceSocket.js\<close> the screenshots, the play log and the playlist payload are left out, of \<open>broadcast-delivery.js\<close> the
  creation of its tables. Of the topology the repair plan and its
  rollback, of the routes the listings, pushes and notifications.
\<close>

end
